(* ===== verification/IV_Prelude.thy ===== *)
theory IV_Prelude
  imports Main "HOL-Library.Word"
begin

text \<open>
  Shared ground of the development: the result type that makes undefined behaviour of the C++
  code visible, the reachability relation every state machine of the library uses, the locale
  that turns a one-step proof into a statement about every reachable state, and the lemmas on
  lists, options, maps and words that several components need.
\<close>

section \<open>Outcomes of C++ code\<close>

text \<open>
  A call of the modelled code either returns a value or leaves the defined part of C++ (a null
  pointer is dereferenced, an end iterator is read, an array is indexed out of range).
  \<open>Inl\<close> carries the fault, \<open>Inr\<close> the value.
\<close>

datatype fault = NullDeref | OutOfRange | Deadlock

type_synonym 'a outcome = "fault + 'a"

abbreviation Ret :: "'a \<Rightarrow> 'a outcome" where
  "Ret \<equiv> Inr"

abbreviation Crash :: "fault \<Rightarrow> 'a outcome" where
  "Crash \<equiv> Inl"

definition obind :: "'a outcome \<Rightarrow> ('a \<Rightarrow> 'b outcome) \<Rightarrow> 'b outcome" where
  "obind m f = (case m of Inl e \<Rightarrow> Inl e | Inr x \<Rightarrow> f x)"

named_theorems outcome_simps "rewriting of outcomes"

lemma obind_Ret [simp, outcome_simps]: "obind (Ret x) f = f x"
  by (simp add: obind_def)

lemma obind_Crash [simp, outcome_simps]: "obind (Crash e) f = Crash e"
  by (simp add: obind_def)

lemma obind_eq_Ret: "obind m f = Ret y \<longleftrightarrow> (\<exists>x. m = Ret x \<and> f x = Ret y)"
  by (cases m) (auto simp: obind_def)

lemma obind_cong [fundef_cong]:
  "m = m' \<Longrightarrow> (\<And>x. m' = Ret x \<Longrightarrow> f x = f' x) \<Longrightarrow> obind m f = obind m' f'"
  by (cases m') (auto simp: obind_def)

lemma obind_assoc: "obind (obind m f) g = obind m (\<lambda>x. obind (f x) g)"
  by (cases m) (auto simp: obind_def)

section \<open>Reachable states and invariants\<close>

inductive reach :: "('s \<Rightarrow> bool) \<Rightarrow> ('s \<Rightarrow> 's \<Rightarrow> bool) \<Rightarrow> 's \<Rightarrow> bool" for start step where
  reach_start: "start s \<Longrightarrow> reach start step s"
| reach_step: "reach start step s \<Longrightarrow> step s t \<Longrightarrow> reach start step t"

text \<open>
  The contract between a component and the interleavings that run it: the invariant holds at
  every start state and every atomic step keeps it. The clients' lemmas are proved once here.
\<close>

locale invariant_system =
  fixes start :: "'s \<Rightarrow> bool"
    and step :: "'s \<Rightarrow> 's \<Rightarrow> bool"
    and inv :: "'s \<Rightarrow> bool"
  assumes start_inv: "start s \<Longrightarrow> inv s"
    and step_inv: "inv s \<Longrightarrow> step s t \<Longrightarrow> inv t"
begin

lemma reach_inv: "reach start step s \<Longrightarrow> inv s"
proof (induction rule: reach.induct)
  case (reach_start s)
  then show ?case by (rule start_inv)
next
  case (reach_step s t)
  then show ?case by (blast intro: step_inv)
qed

lemma steps_inv: "inv s \<Longrightarrow> step\<^sup>*\<^sup>* s t \<Longrightarrow> inv t"
  by (rotate_tac, induction rule: rtranclp_induct) (auto intro: step_inv)

end

section \<open>Lists, options and maps\<close>

lemma set_list_update_distinct:
  "distinct xs \<Longrightarrow> i < length xs \<Longrightarrow> set (xs[i := v]) = insert v (set xs - {xs ! i})"
  by (rule set_update_distinct)

lemma fold_invariant:
  assumes "P s" and "\<And>x s. x \<in> set xs \<Longrightarrow> P s \<Longrightarrow> P (f x s)"
  shows "P (fold f xs s)"
  using assms by (induction xs arbitrary: s) auto

lemma length_remove_one:
  assumes "distinct (map f xs)" and "x \<in> set xs"
  shows "length (filter (\<lambda>y. f y \<noteq> f x) xs) = length xs - 1"
proof -
  have eq: "filter (\<lambda>y. f y \<noteq> f x) xs = filter (\<lambda>y. y \<noteq> x) xs"
    using assms by (intro filter_cong) (auto simp: distinct_map inj_on_def)
  have d: "distinct xs" using assms(1) by (simp add: distinct_map)
  have "filter (\<lambda>y. y \<noteq> x) xs = remove1 x xs"
    using d by (simp add: distinct_remove1_removeAll removeAll_filter_not_eq fun_eq_iff)
       (metis)
  with eq show ?thesis using assms(2) by (simp add: length_remove1)
qed

lemma sorted_wrt_removal:
  "sorted_wrt R (xs @ y # ys) \<Longrightarrow> sorted_wrt R (xs @ ys)"
  by (auto simp: sorted_wrt_append)

section \<open>Words\<close>

lemma unat_word_of_int32:
  "0 \<le> i \<Longrightarrow> i < 2 ^ 32 \<Longrightarrow> unat (word_of_int i :: 32 word) = nat i"
  by (simp add: unsigned_of_int take_bit_int_eq_self)

end
