(* ===== verification/Std_Map.thy ===== *)
theory Std_Map
  imports IV_Prelude
begin

text \<open>
  \<open>std::map<int32_t, V>\<close> as the code uses it: an association list in key order, because the
  iteration order of the C++ container is observable (loops that return early, first match wins).
  The locale \<open>keyed_store\<close> is the contract its clients use; it is interpreted on these operations.
\<close>

type_synonym 'v omap = "(int \<times> 'v) list"

definition om_find :: "int \<Rightarrow> 'v omap \<Rightarrow> 'v option" where
  "om_find k m = map_of m k"

text \<open>\<open>m[k] = v\<close>.\<close>

fun om_put :: "int \<Rightarrow> 'v \<Rightarrow> 'v omap \<Rightarrow> 'v omap" where
  "om_put k v [] = [(k, v)]"
| "om_put k v ((k', v') # m) =
     (if k < k' then (k, v) # (k', v') # m
      else if k = k' then (k, v) # m else (k', v') # om_put k v m)"

text \<open>\<open>m.insert({k, v})\<close>: an existing entry is kept.\<close>

definition om_insert :: "int \<Rightarrow> 'v \<Rightarrow> 'v omap \<Rightarrow> 'v omap" where
  "om_insert k v m = (if om_find k m = None then om_put k v m else m)"

definition om_erase :: "int \<Rightarrow> 'v omap \<Rightarrow> 'v omap" where
  "om_erase k m = filter (\<lambda>p. fst p \<noteq> k) m"

text \<open>An update through the pointer stored under a key.\<close>

definition om_upd :: "int \<Rightarrow> ('v \<Rightarrow> 'v) \<Rightarrow> 'v omap \<Rightarrow> 'v omap" where
  "om_upd k f m = map (\<lambda>(k', v). (k', if k' = k then f v else v)) m"

definition om_keys :: "'v omap \<Rightarrow> int list" where
  "om_keys m = map fst m"

definition om_ok :: "'v omap \<Rightarrow> bool" where
  "om_ok m \<longleftrightarrow> sorted_wrt (<) (om_keys m)"

section \<open>Contract\<close>

locale keyed_store =
  fixes find :: "'k \<Rightarrow> 'm \<Rightarrow> 'v option"
    and put :: "'k \<Rightarrow> 'v \<Rightarrow> 'm \<Rightarrow> 'm"
    and erase :: "'k \<Rightarrow> 'm \<Rightarrow> 'm"
    and keys :: "'m \<Rightarrow> 'k list"
    and ok :: "'m \<Rightarrow> bool"
  assumes find_put: "ok m \<Longrightarrow> find j (put k v m) = (if j = k then Some v else find j m)"
    and find_erase: "ok m \<Longrightarrow> find j (erase k m) = (if j = k then None else find j m)"
    and keys_find: "ok m \<Longrightarrow> k \<in> set (keys m) \<longleftrightarrow> find k m \<noteq> None"
    and ok_put: "ok m \<Longrightarrow> ok (put k v m)"
    and ok_erase: "ok m \<Longrightarrow> ok (erase k m)"
    and keys_distinct: "ok m \<Longrightarrow> distinct (keys m)"
begin

lemma put_put_same: "ok m \<Longrightarrow> find j (put k v (put k w m)) = find j (put k v m)"
  by (simp add: find_put ok_put)

lemma erase_put: "ok m \<Longrightarrow> find j (erase k (put k v m)) = find j (erase k m)"
  by (simp add: find_put find_erase ok_put)

lemma set_keys_put: "ok m \<Longrightarrow> set (keys (put k v m)) = insert k (set (keys m))"
  by (auto simp: keys_find ok_put find_put split: if_splits)

lemma set_keys_erase: "ok m \<Longrightarrow> set (keys (erase k m)) = set (keys m) - {k}"
  by (auto simp: keys_find ok_erase find_erase split: if_splits)

end

section \<open>The container fulfils it\<close>

lemma om_find_put: "om_find j (om_put k v m) = (if j = k then Some v else om_find j m)"
  by (induction k v m rule: om_put.induct) (auto simp: om_find_def)

lemma om_find_erase [simp]: "om_find j (om_erase k m) = (if j = k then None else om_find j m)"
  by (induction m) (auto simp: om_find_def om_erase_def)

lemma om_keys_find: "k \<in> set (om_keys m) \<longleftrightarrow> om_find k m \<noteq> None"
  by (induction m) (auto simp: om_find_def om_keys_def)

lemma set_om_keys_put [simp]: "set (om_keys (om_put k v m)) = insert k (set (om_keys m))"
  by (auto simp: om_keys_find om_find_put split: if_splits)

lemma om_ok_put: "om_ok m \<Longrightarrow> om_ok (om_put k v m)"
proof (induction k v m rule: om_put.induct)
  case (2 k v k' v' m)
  then show ?case
    using set_om_keys_put [of k v m] by (auto simp: om_ok_def om_keys_def)
qed (simp add: om_ok_def om_keys_def)

lemma om_ok_erase: "om_ok m \<Longrightarrow> om_ok (om_erase k m)"
  by (auto simp: om_ok_def om_keys_def om_erase_def sorted_wrt_map sorted_wrt_filter)

lemma om_keys_distinct: "om_ok m \<Longrightarrow> distinct (om_keys m)"
  by (simp add: om_ok_def strict_sorted_iff)

interpretation omap: keyed_store om_find om_put om_erase om_keys om_ok
  by unfold_locales
    (simp_all add: om_find_put om_keys_find om_ok_put om_ok_erase om_keys_distinct)

lemma om_keys_upd [simp]: "om_keys (om_upd k f m) = om_keys m"
  by (auto simp: om_keys_def om_upd_def)

lemma om_find_upd [simp]:
  "om_find j (om_upd k f m) = (if j = k then map_option f (om_find k m) else om_find j m)"
  by (induction m) (auto simp: om_find_def om_upd_def)

lemma om_upd_upd: "om_upd k f (om_upd k g m) = om_upd k (\<lambda>x. f (g x)) m"
  by (simp add: om_upd_def split_def)

lemma om_ok_upd [simp]: "om_ok (om_upd k f m) = om_ok m"
  by (simp add: om_ok_def)

lemma om_find_insert [simp]:
  "om_find j (om_insert k v m) =
     (if j = k \<and> om_find k m = None then Some v else om_find j m)"
  by (auto simp: om_insert_def om_find_put)

lemma om_ok_insert [simp]: "om_ok m \<Longrightarrow> om_ok (om_insert k v m)"
  by (simp add: om_insert_def om_ok_put)

lemma om_ok_Nil [simp]: "om_ok []"
  by (simp add: om_ok_def om_keys_def)

lemma om_find_Nil [simp]: "om_find k [] = None"
  by (simp add: om_find_def)

end
