(* ===== verification/Trigger_Connector.thy ===== *)
theory Trigger_Connector
  imports Std_Map
begin

text \<open>
  \<open>services/intell_voice_trigger/server/connector_mgr\<close>: the layer between the trigger helper and the
  DSP driver. The HDI interface of the driver is not part of the repository: it is the record \<open>hal\<close>
  of functions on a driver state \<open>'h\<close>, an argument of every definition that calls it. The connector
  state holds the host manager's proxies and adapters, the status bookkeeping of \<open>TriggerConnector\<close>
  and the loaded models of the session handed to the helper (the helper asks for one session and
  keeps it). The locale \<open>trigger_module\<close> is the contract of \<open>IIntellVoiceTriggerConnectorModule\<close>.
\<close>

section \<open>Model\<close>

datatype TriggerModelType = UNKNOWN_TYPE | VOICE_WAKEUP_TYPE | PROXIMAL_WAKEUP_TYPE

record GenericTriggerModel =
  gm_uuid :: int
  gm_version :: int
  gm_type :: TriggerModelType
  gm_data :: "8 word list"

text \<open>\<open>TriggerModel::SetData\<close> for a vector swaps a non-empty vector in.\<close>

definition TriggerModel_new :: "int \<Rightarrow> int \<Rightarrow> TriggerModelType \<Rightarrow> GenericTriggerModel" where
  "TriggerModel_new uuid version ty = \<lparr>gm_uuid = uuid, gm_version = version, gm_type = ty, gm_data = []\<rparr>"

definition SetData :: "8 word list \<Rightarrow> GenericTriggerModel \<Rightarrow> bool \<times> GenericTriggerModel" where
  "SetData d g = (if length d = 0 then (False, g) else (True, g\<lparr>gm_data := d\<rparr>))"

record 'h hal =
  hal_Get :: "'h \<Rightarrow> bool"
  hal_isV1_1 :: "'h \<Rightarrow> bool"
  hal_LoadAdapter :: "'h \<Rightarrow> bool"
  hal_ashmem :: "'h \<Rightarrow> bool"
  hal_LoadModel :: "GenericTriggerModel \<Rightarrow> 'h \<Rightarrow> int \<times> int \<times> 'h"
  hal_UnloadModel :: "int \<Rightarrow> 'h \<Rightarrow> int \<times> 'h"
  hal_Start :: "int \<Rightarrow> 'h \<Rightarrow> int \<times> 'h"
  hal_Stop :: "int \<Rightarrow> 'h \<Rightarrow> int \<times> 'h"
  hal_SetParams :: "string \<Rightarrow> string \<Rightarrow> 'h \<Rightarrow> int \<times> 'h"
  hal_GetParams :: "string \<Rightarrow> 'h \<Rightarrow> int \<times> string"

text \<open>The service states of the HDF service manager the code names.\<close>

datatype ServiceStatusType = SERVIE_STATUS_START | SERVIE_STATUS_MAX | SERVIE_STATUS_OTHER nat

datatype ConnModelState = IDLE | LOADED | ACTIVE

record ConnModel =
  cm_handle :: int
  cm_state :: ConnModelState

record 'h connector =
  cn_triggerHostProxy :: bool
  cn_triggerHostProxyV1_1 :: bool
  cn_adapter :: bool
  cn_adapterV1_1 :: bool
  cn_serviceState :: ServiceStatusType
  cn_getModuleFail :: bool
  cn_activeSessions :: nat
  cn_startCalls :: nat
  cn_loadedModels :: "ConnModel omap"
  cn_hal :: 'h

subsection \<open>TriggerHostManager\<close>

definition TriggerHostManager_Init :: "'h hal \<Rightarrow> 'h connector \<Rightarrow> bool \<times> 'h connector" where
  "TriggerHostManager_Init H c =
     (if cn_triggerHostProxy c then (True, c)
      else if \<not> hal_Get H (cn_hal c) then (False, c)
      else (True, c\<lparr>cn_triggerHostProxy := True,
                    cn_triggerHostProxyV1_1 := hal_isV1_1 H (cn_hal c) \<or> cn_triggerHostProxyV1_1 c\<rparr>))"

definition LoadTriggerAdapter :: "'h hal \<Rightarrow> 'h connector \<Rightarrow> bool \<times> 'h connector" where
  "LoadTriggerAdapter H c =
     (if \<not> cn_triggerHostProxy c then (False, c)
      else if cn_triggerHostProxyV1_1 c
      then (if \<not> hal_LoadAdapter H (cn_hal c) then (False, c\<lparr>cn_adapterV1_1 := False\<rparr>)
            else (True, c\<lparr>cn_adapterV1_1 := True, cn_adapter := True\<rparr>))
      else (if \<not> hal_LoadAdapter H (cn_hal c) then (False, c\<lparr>cn_adapter := False\<rparr>)
            else (True, c\<lparr>cn_adapter := True\<rparr>)))"

definition UnloadTriggerAdapter :: "'h connector \<Rightarrow> 'h connector" where
  "UnloadTriggerAdapter c = c\<lparr>cn_adapter := False, cn_adapterV1_1 := False\<rparr>"

subsection \<open>TriggerConnector\<close>

definition LoadHdiAdapter :: "'h hal \<Rightarrow> 'h connector \<Rightarrow> bool \<times> 'h connector" where
  "LoadHdiAdapter H c =
     (case TriggerHostManager_Init H c of
        (False, c1) \<Rightarrow> (False, c1)
      | (True, c1) \<Rightarrow> LoadTriggerAdapter H c1)"

definition Connector_GetModule :: "'h hal \<Rightarrow> 'h connector \<Rightarrow> bool \<times> 'h connector" where
  "Connector_GetModule H c =
     (case (if cn_adapter c then (True, c) else LoadHdiAdapter H c) of
        (False, c1) \<Rightarrow> (False, c1\<lparr>cn_getModuleFail := True\<rparr>)
      | (True, c1) \<Rightarrow> (True, c1\<lparr>cn_getModuleFail := False,
                                cn_activeSessions := Suc (cn_activeSessions c1)\<rparr>))"

text \<open>\<open>ours\<close>: the status is about \<open>intell_voice_trigger_manager_service\<close>.\<close>

definition OnReceive :: "bool \<Rightarrow> ServiceStatusType \<Rightarrow> 'h connector \<Rightarrow> 'h connector" where
  "OnReceive ours status c =
     (if \<not> ours then c
      else if status = cn_serviceState c then c
      else let c1 = c\<lparr>cn_serviceState := status\<rparr> in
        if \<not> cn_getModuleFail c1 \<or> cn_serviceState c1 \<noteq> SERVIE_STATUS_START \<or> cn_adapter c1 then c1
        else c1\<lparr>cn_startCalls := Suc (cn_startCalls c1)\<rparr>)"

subsection \<open>TriggerSession::Model\<close>

definition CreateAshmemFromModelData :: "'h hal \<Rightarrow> 8 word list \<Rightarrow> 'h \<Rightarrow> bool" where
  "CreateAshmemFromModelData H d h = (length d \<noteq> 0 \<and> hal_ashmem H h)"

definition Model_Load ::
  "'h hal \<Rightarrow> GenericTriggerModel \<Rightarrow> ConnModel \<Rightarrow> 'h \<Rightarrow> int \<times> int \<times> ConnModel \<times> 'h" where
  "Model_Load H g x h =
     (if cm_state x \<noteq> IDLE then (-1, 0, x, h)
      else if \<not> CreateAshmemFromModelData H (gm_data g) h then (-1, 0, x, h)
      else (case hal_LoadModel H g h of (ret, handle, h1) \<Rightarrow>
        if ret \<noteq> 0 then (ret, 0, x, h1)
        else (ret, handle, x\<lparr>cm_handle := handle, cm_state := LOADED\<rparr>, h1)))"

definition Model_Start :: "'h hal \<Rightarrow> ConnModel \<Rightarrow> 'h \<Rightarrow> int \<times> ConnModel \<times> 'h" where
  "Model_Start H x h =
     (if cm_state x \<noteq> LOADED then (-1, x, h)
      else (case hal_Start H (cm_handle x) h of (ret, h1) \<Rightarrow>
        if ret \<noteq> 0 then (ret, x, h1) else (ret, x\<lparr>cm_state := ACTIVE\<rparr>, h1)))"

definition Model_Stop :: "'h hal \<Rightarrow> ConnModel \<Rightarrow> 'h \<Rightarrow> int \<times> ConnModel \<times> 'h" where
  "Model_Stop H x h =
     (if cm_state x \<noteq> ACTIVE then (-1, x, h)
      else (case hal_Stop H (cm_handle x) h of (ret, h1) \<Rightarrow>
        if ret \<noteq> 0 then (ret, x, h1) else (ret, x\<lparr>cm_state := LOADED\<rparr>, h1)))"

definition Model_Unload :: "'h hal \<Rightarrow> ConnModel \<Rightarrow> 'h \<Rightarrow> int \<times> ConnModel \<times> 'h" where
  "Model_Unload H x h =
     (if cm_state x = IDLE then (-1, x, h)
      else (case hal_UnloadModel H (cm_handle x) h of (ret, h1) \<Rightarrow>
        if ret \<noteq> 0 then (ret, x, h1) else (ret, x\<lparr>cm_state := IDLE\<rparr>, h1)))"

subsection \<open>TriggerSession\<close>

definition Session_LoadModel ::
  "'h hal \<Rightarrow> GenericTriggerModel \<Rightarrow> 'h connector \<Rightarrow> int \<times> int \<times> 'h connector" where
  "Session_LoadModel H g c =
     (if \<not> cn_adapter c then (-1, 0, c)
      else (case Model_Load H g \<lparr>cm_handle = 0, cm_state = IDLE\<rparr> (cn_hal c) of (ret, handle, x, h1) \<Rightarrow>
        if ret \<noteq> 0 then (ret, 0, c\<lparr>cn_hal := h1\<rparr>)
        else (ret, handle, c\<lparr>cn_hal := h1,
                cn_loadedModels := om_insert handle x (cn_loadedModels c)\<rparr>)))"

definition Session_UnloadModel :: "'h hal \<Rightarrow> int \<Rightarrow> 'h connector \<Rightarrow> int \<times> 'h connector" where
  "Session_UnloadModel H handle c =
     (if \<not> cn_adapter c then (-1, c)
      else (case om_find handle (cn_loadedModels c) of
          None \<Rightarrow> (-1, c)
        | Some x \<Rightarrow> (case Model_Unload H x (cn_hal c) of (ret, x1, h1) \<Rightarrow>
            (ret, c\<lparr>cn_hal := h1, cn_loadedModels := om_erase handle (cn_loadedModels c)\<rparr>))))"

definition Session_Start :: "'h hal \<Rightarrow> int \<Rightarrow> 'h connector \<Rightarrow> int \<times> 'h connector" where
  "Session_Start H handle c =
     (if \<not> cn_adapter c then (-1, c)
      else (case om_find handle (cn_loadedModels c) of
          None \<Rightarrow> (-1, c)
        | Some x \<Rightarrow> (case Model_Start H x (cn_hal c) of (ret, x1, h1) \<Rightarrow>
            (ret, c\<lparr>cn_hal := h1, cn_loadedModels := om_upd handle (\<lambda>_. x1) (cn_loadedModels c)\<rparr>))))"

definition Session_Stop :: "'h hal \<Rightarrow> int \<Rightarrow> 'h connector \<Rightarrow> int \<times> 'h connector" where
  "Session_Stop H handle c =
     (if \<not> cn_adapter c then (-1, c)
      else (case om_find handle (cn_loadedModels c) of
          None \<Rightarrow> (-1, c)
        | Some x \<Rightarrow> (case Model_Stop H x (cn_hal c) of (ret, x1, h1) \<Rightarrow>
            (ret, c\<lparr>cn_hal := h1, cn_loadedModels := om_upd handle (\<lambda>_. x1) (cn_loadedModels c)\<rparr>))))"

definition Session_SetParams :: "'h hal \<Rightarrow> string \<Rightarrow> string \<Rightarrow> 'h connector \<Rightarrow> int \<times> 'h connector" where
  "Session_SetParams H key val c =
     (if \<not> cn_adapterV1_1 c then (-1, c)
      else (case hal_SetParams H key val (cn_hal c) of (ret, h1) \<Rightarrow> (ret, c\<lparr>cn_hal := h1\<rparr>)))"

definition Session_GetParams :: "'h hal \<Rightarrow> string \<Rightarrow> 'h connector \<Rightarrow> int \<times> string" where
  "Session_GetParams H key c =
     (if \<not> cn_adapterV1_1 c then (-1, []) else hal_GetParams H key (cn_hal c))"

text \<open>
  The locked part of \<open>ProcessRecognitionHdiEvent\<close>: \<open>True\<close> when the helper's callback is to be called.
\<close>

definition ProcessRecognitionHdiEvent :: "int \<Rightarrow> 'h connector \<Rightarrow> bool \<times> 'h connector" where
  "ProcessRecognitionHdiEvent handle c =
     (case om_find handle (cn_loadedModels c) of
        None \<Rightarrow> (False, c)
      | Some x \<Rightarrow> if cm_state x \<noteq> ACTIVE then (False, c)
                 else (True, c\<lparr>cn_loadedModels :=
                         om_upd handle (\<lambda>x. x\<lparr>cm_state := LOADED\<rparr>) (cn_loadedModels c)\<rparr>))"

subsection \<open>TriggerConnectorInternalValidation\<close>

definition ValidateGenericModel :: "GenericTriggerModel option \<Rightarrow> bool" where
  "ValidateGenericModel m =
     (case m of
        None \<Rightarrow> False
      | Some g \<Rightarrow>
          if gm_type g \<noteq> VOICE_WAKEUP_TYPE \<and> gm_type g \<noteq> PROXIMAL_WAKEUP_TYPE then False
          else length (gm_data g) \<noteq> 0)"

definition Validation_LoadModel ::
  "'h hal \<Rightarrow> GenericTriggerModel option \<Rightarrow> 'h connector \<Rightarrow> int \<times> int \<times> 'h connector" where
  "Validation_LoadModel H m c =
     (if \<not> ValidateGenericModel m then (-1, 0, c) else Session_LoadModel H (the m) c)"

section \<open>Contract of the module interface\<close>

locale trigger_module =
  fixes load :: "'g \<Rightarrow> 's \<Rightarrow> int \<times> int \<times> 's"
    and unload :: "int \<Rightarrow> 's \<Rightarrow> int \<times> 's"
    and begin_rec :: "int \<Rightarrow> 's \<Rightarrow> int \<times> 's"
    and end_rec :: "int \<Rightarrow> 's \<Rightarrow> int \<times> 's"
    and mstate :: "'s \<Rightarrow> int \<Rightarrow> ConnModelState option"
    and usable :: "'s \<Rightarrow> bool"
  assumes start_ok: "begin_rec h s = (0, t) \<Longrightarrow> mstate s h = Some LOADED \<and> mstate t = (mstate s)(h \<mapsto> ACTIVE)"
    and start_fail: "begin_rec h s = (r, t) \<Longrightarrow> r \<noteq> 0 \<Longrightarrow> mstate t = mstate s"
    and stop_ok: "end_rec h s = (0, t) \<Longrightarrow> mstate s h = Some ACTIVE \<and> mstate t = (mstate s)(h \<mapsto> LOADED)"
    and stop_fail: "end_rec h s = (r, t) \<Longrightarrow> r \<noteq> 0 \<Longrightarrow> mstate t = mstate s"
    and load_ok: "load g s = (0, h, t) \<Longrightarrow> mstate s h = None \<Longrightarrow> mstate t = (mstate s)(h \<mapsto> LOADED)"
    and load_fail: "load g s = (r, h, t) \<Longrightarrow> r \<noteq> 0 \<Longrightarrow> mstate t = mstate s"
    and unload_drops: "unload h s = (r, t) \<Longrightarrow> usable s \<Longrightarrow> mstate t = (mstate s)(h := None)"
    and unload_unusable: "unload h s = (r, t) \<Longrightarrow> \<not> usable s \<Longrightarrow> r \<noteq> 0 \<and> t = s"
begin

lemma start_only_loaded: "mstate s h \<noteq> Some LOADED \<Longrightarrow> fst (begin_rec h s) \<noteq> 0"
  using start_ok [of h s "snd (begin_rec h s)"] by (metis prod.collapse)

lemma stop_only_active: "mstate s h \<noteq> Some ACTIVE \<Longrightarrow> fst (end_rec h s) \<noteq> 0"
  using stop_ok [of h s "snd (end_rec h s)"] by (metis prod.collapse)

lemma start_stop: "begin_rec h s = (0, t) \<Longrightarrow> end_rec h t = (0, u) \<Longrightarrow> mstate u = mstate s"
  using start_ok [of h s t] stop_ok [of h t u] by auto

lemma start_twice: "begin_rec h s = (0, t) \<Longrightarrow> fst (begin_rec h t) \<noteq> 0"
  by (rule start_only_loaded) (auto dest: start_ok)

end

definition model_state :: "'h connector \<Rightarrow> int \<Rightarrow> ConnModelState option" where
  "model_state c h = map_option cm_state (om_find h (cn_loadedModels c))"

lemma model_state_eqI: "cn_loadedModels c = cn_loadedModels d \<Longrightarrow> model_state c = model_state d"
  by (simp add: model_state_def fun_eq_iff)

lemmas session_defs = Session_LoadModel_def Session_UnloadModel_def Session_Start_def Session_Stop_def
  Model_Load_def Model_Start_def Model_Stop_def Model_Unload_def

interpretation conn: trigger_module "Session_LoadModel H" "Session_UnloadModel H" "Session_Start H"
  "Session_Stop H" model_state cn_adapter for H
proof (unfold_locales, goal_cases)
  case (1 h s t)
  then show ?case
    by (auto simp: session_defs model_state_def fun_eq_iff split: if_splits option.splits prod.splits)
next
  case (2 h s r t)
  then show ?case
    by (auto simp: session_defs model_state_def fun_eq_iff split: if_splits option.splits prod.splits)
next
  case (3 h s t)
  then show ?case
    by (auto simp: session_defs model_state_def fun_eq_iff split: if_splits option.splits prod.splits)
next
  case (4 h s r t)
  then show ?case
    by (auto simp: session_defs model_state_def fun_eq_iff split: if_splits option.splits prod.splits)
next
  case (5 g s h t)
  then show ?case
    by (auto simp: session_defs model_state_def fun_eq_iff split: if_splits option.splits prod.splits)
next
  case (6 g s r h t)
  then show ?case
    by (auto simp: session_defs model_state_def fun_eq_iff split: if_splits option.splits prod.splits)
next
  case (7 h s r t)
  then show ?case
    by (auto simp: session_defs model_state_def fun_eq_iff split: if_splits option.splits prod.splits)
next
  case (8 h s r t)
  then show ?case
    by (auto simp: session_defs split: if_splits)
qed

lemma event_delivers:
  "ProcessRecognitionHdiEvent h c = (b, d) \<Longrightarrow>
     b = (model_state c h = Some ACTIVE) \<and>
     model_state d = (if b then (model_state c)(h \<mapsto> LOADED) else model_state c)"
  by (auto simp: ProcessRecognitionHdiEvent_def model_state_def fun_eq_iff split: option.splits if_splits)

lemma session_frames:
  "Session_SetParams H k v c = (r, d) \<Longrightarrow> model_state d = model_state c \<and> cn_adapter d = cn_adapter c"
  "Session_Start H h c = (r, d) \<Longrightarrow> cn_adapter d = cn_adapter c"
  "Session_Stop H h c = (r, d) \<Longrightarrow> cn_adapter d = cn_adapter c"
  "Session_LoadModel H g c = (r, i, d) \<Longrightarrow> cn_adapter d = cn_adapter c"
  "Session_UnloadModel H h c = (r, d) \<Longrightarrow> cn_adapter d = cn_adapter c"
  by (auto simp: Session_SetParams_def session_defs model_state_def fun_eq_iff
      split: if_splits option.splits prod.splits)

lemma GetModule_frames:
  assumes "Connector_GetModule H c = (b, d)"
  shows "cn_loadedModels d = cn_loadedModels c" "b \<Longrightarrow> cn_adapter d" "cn_adapter c \<Longrightarrow> cn_adapter d \<and> b"
    "cn_hal d = cn_hal c"
  using assms
  by (auto simp: Connector_GetModule_def LoadHdiAdapter_def TriggerHostManager_Init_def
      LoadTriggerAdapter_def split: if_splits prod.splits bool.splits)

section \<open>Properties\<close>

text \<open>
  Life cycle of a model in the connector, for any driver: starting succeeds only from the loaded
  state and then makes exactly that model active, stopping succeeds only from the active state and
  makes it loaded again, a refused or failed call leaves every model as it was, and unloading
  forgets the model even when the driver reports an error.
\<close>

theorem connector_model_lifecycle:
  "(\<forall>r d. Session_Start H h c = (r, d) \<longrightarrow>
      (if r = 0 then model_state c h = Some LOADED \<and> model_state d = (model_state c)(h \<mapsto> ACTIVE)
       else model_state d = model_state c)) \<and>
   (\<forall>r d. Session_Stop H h c = (r, d) \<longrightarrow>
      (if r = 0 then model_state c h = Some ACTIVE \<and> model_state d = (model_state c)(h \<mapsto> LOADED)
       else model_state d = model_state c)) \<and>
   (\<forall>r d. Session_UnloadModel H h c = (r, d) \<and> cn_adapter c \<longrightarrow>
      model_state d = (model_state c)(h := None)) \<and>
   (\<forall>b d. ProcessRecognitionHdiEvent h c = (b, d) \<longrightarrow>
      b = (model_state c h = Some ACTIVE) \<and>
      model_state d = (if b then (model_state c)(h \<mapsto> LOADED) else model_state c))"
  using conn.start_ok [of H h c] conn.start_fail [of H h c] conn.stop_ok [of H h c]
    conn.stop_fail [of H h c] conn.unload_drops [of H h c] event_delivers [of h c]
  by auto

text \<open>
  A concrete driver: it counts the models it has loaded, hands the count out as the handle and
  accepts every other call.
\<close>

definition demo_hal :: "nat hal" where
  "demo_hal = \<lparr>hal_Get = \<lambda>_. True, hal_isV1_1 = \<lambda>_. True, hal_LoadAdapter = \<lambda>_. True, hal_ashmem = \<lambda>_. True,
     hal_LoadModel = \<lambda>_ n. (0, int (Suc n), Suc n), hal_UnloadModel = \<lambda>_ n. (0, n),
     hal_Start = \<lambda>_ n. (0, n), hal_Stop = \<lambda>_ n. (0, n),
     hal_SetParams = \<lambda>_ _ n. (0, n), hal_GetParams = \<lambda>_ _. (0, [])\<rparr>"

definition demo_connector :: "nat connector" where
  "demo_connector = \<lparr>cn_triggerHostProxy = True, cn_triggerHostProxyV1_1 = True, cn_adapter = True,
     cn_adapterV1_1 = True, cn_serviceState = SERVIE_STATUS_START, cn_getModuleFail = False,
     cn_activeSessions = 1, cn_startCalls = 0,
     cn_loadedModels = [(5, \<lparr>cm_handle = 5, cm_state = LOADED\<rparr>)], cn_hal = 5\<rparr>"

lemma connector_model_lifecycle_witness:
  "\<exists>d. Session_Start demo_hal 5 demo_connector = (0, d) \<and> model_state d 5 = Some ACTIVE"
proof -
  have "\<exists>d. Session_Start demo_hal 5 demo_connector = (0, d)"
    by (simp add: session_defs demo_hal_def demo_connector_def om_find_def)
  then obtain d where d: "Session_Start demo_hal 5 demo_connector = (0, d)" ..
  then have "model_state d = (model_state demo_connector)(5 \<mapsto> ACTIVE)"
    using connector_model_lifecycle [of demo_hal 5 demo_connector] by auto
  with d show ?thesis by simp
qed

end
