(* ===== verification/Wakeup_Track.thy ===== *)
theory Wakeup_Track
  imports IV_Prelude
begin

text \<open>
  \<open>utils/wakeup_track.cpp\<close>: reports to the kernel's wake-up tracking device. The device is not part
  of the repository; whether \<open>open\<close> and \<open>ioctl\<close> succeed is a function of the requests already
  issued. The statics of the class and of \<open>reportWakeupStatus\<close> are the fields of the record.
\<close>

datatype StageCode = WAKEUP_STAGE_SA_WAKEUP_DETECTED | WAKEUP_STAGE_SA_WHISPER_DETECTED
  | WAKEUP_STAGE_SA_HANDLE_DETECTED | WAKEUP_STAGE_SA_RECOGNIZING | WAKEUP_STAGE_SA_RECOGNIZED
  | WAKEUP_STAGE_SA_RECOGNIZED_COMPLETE | WAKEUP_STAGE_SA_ONESHOT_START
  | WAKEUP_STAGE_SA_ONESHOT_PROCESSE | WAKEUP_STAGE_SA_ONESHOT_END | WAKEUP_STAGE_SA_BOTTOM

datatype WakeupResult = WAKEUP_RESULT_DEFAULT | WAKEUP_RESULT_SUCC | WAKEUP_RESULT_FAIL

datatype WakeupErrorCode = WAKEUP_ERROR_CODE_HAL | SA_INPUT_ERROR | SA_HOST_ERROR | SA_TIMEOUT_ERROR
  | SA_AUDIO_SOURCE_ERROR | SA_CALLBACK_ERROR | WAKEUP_ERROR_CODE_SA_BOTTOM
  | WAKEUP_ERROR_CODE_HAL_BOTTOM | WAKEUP_ERROR_CODE_END

datatype SwitchState = WAKEUP_SWITCH_STATE_CLOSE | WAKEUP_SWITCH_STATE_OPEN

datatype SwitchStage = WAKEUP_SWITCH_STAGE_DEFAULT | WAKEUP_SWITCH_STAGE_SA | WAKEUP_SWITCH_STAGE_HAL

datatype SwitchReason = WAKEUP_SWITCH_REASON_INIT | WAKEUP_SWITCH_REASON_POWER_SAVE_MODE
  | WAKEUP_SWITCH_REASON_USER_SETTING | WAKEUP_SWITCH_REASON_SWITCH_DEVICE
  | WAKEUP_SWITCH_REASON_AUDIO_SCENE_CHANGE | WAKEUP_SWITCH_REASON_DEFAULT

text \<open>The three \<open>ioctl\<close> requests with the structure passed.\<close>

datatype track_request =
    StartCheck StageCode WakeupResult WakeupErrorCode
  | TrackReport StageCode WakeupResult WakeupErrorCode
  | SwitchReport SwitchStage SwitchState SwitchReason

record wakeup_device =
  wd_open :: "track_request list \<Rightarrow> bool"
  wd_ioctl :: "track_request list \<Rightarrow> track_request \<Rightarrow> bool"

text \<open>\<open>wt_done\<close> lists the requests the device accepted, latest first.\<close>

record wakeup_track =
  wt_sHasFailed :: bool
  wt_lastStage :: SwitchStage
  wt_lastState :: SwitchState
  wt_lastReason :: SwitchReason
  wt_hasLastReport :: bool
  wt_done :: "track_request list"

definition WakeupTrack_init :: wakeup_track where
  "WakeupTrack_init = \<lparr>wt_sHasFailed = False, wt_lastStage = WAKEUP_SWITCH_STAGE_DEFAULT,
     wt_lastState = WAKEUP_SWITCH_STATE_CLOSE, wt_lastReason = WAKEUP_SWITCH_REASON_DEFAULT,
     wt_hasLastReport = False, wt_done = []\<rparr>"

text \<open>The open, ioctl, close sequence the three functions share.\<close>

definition device_report :: "wakeup_device \<Rightarrow> track_request \<Rightarrow> wakeup_track \<Rightarrow> bool \<times> wakeup_track" where
  "device_report D r w =
     (if \<not> wd_open D (wt_done w) then (False, w\<lparr>wt_sHasFailed := True\<rparr>)
      else if \<not> wd_ioctl D (wt_done w) r then (False, w)
      else (True, w\<lparr>wt_done := r # wt_done w\<rparr>))"

definition reportWakeupStart ::
  "wakeup_device \<Rightarrow> StageCode \<Rightarrow> WakeupResult \<Rightarrow> WakeupErrorCode \<Rightarrow> wakeup_track \<Rightarrow> bool \<times> wakeup_track" where
  "reportWakeupStart D stage result errCode w =
     (if wt_sHasFailed w then (False, w) else device_report D (StartCheck stage result errCode) w)"

definition reportWakeupTrack ::
  "wakeup_device \<Rightarrow> StageCode \<Rightarrow> WakeupResult \<Rightarrow> WakeupErrorCode \<Rightarrow> wakeup_track \<Rightarrow> bool \<times> wakeup_track" where
  "reportWakeupTrack D stage result errCode w =
     (if wt_sHasFailed w then (False, w) else device_report D (TrackReport stage result errCode) w)"

definition reportWakeupStatus ::
  "wakeup_device \<Rightarrow> SwitchStage \<Rightarrow> SwitchState \<Rightarrow> SwitchReason \<Rightarrow> wakeup_track \<Rightarrow> bool \<times> wakeup_track" where
  "reportWakeupStatus D stage state reason w =
     (if wt_sHasFailed w then (False, w)
      else if wt_hasLastReport w \<and> wt_lastStage w = stage \<and> wt_lastState w = state \<and>
              wt_lastReason w = reason then (True, w)
      else (case device_report D (SwitchReport stage state reason) w of
          (False, w1) \<Rightarrow> (False, w1)
        | (True, w1) \<Rightarrow> (True, w1\<lparr>wt_lastStage := stage, wt_lastState := state, wt_lastReason := reason,
                                   wt_hasLastReport := True\<rparr>)))"

lemmas track_defs = reportWakeupStart_def reportWakeupTrack_def reportWakeupStatus_def device_report_def

section \<open>Sequences of reports\<close>

text \<open>One call of the three; the device may behave differently at each call.\<close>

inductive track_step :: "wakeup_track \<Rightarrow> wakeup_track \<Rightarrow> bool" where
  ts_start: "track_step w (snd (reportWakeupStart D a b c w))"
| ts_track: "track_step w (snd (reportWakeupTrack D a b c w))"
| ts_status: "track_step w (snd (reportWakeupStatus D st s r w))"

inductive_cases track_stepE: "track_step w v"

definition switch_reports :: "wakeup_track \<Rightarrow> track_request list" where
  "switch_reports w = filter (\<lambda>r. case r of SwitchReport _ _ _ \<Rightarrow> True | _ \<Rightarrow> False) (wt_done w)"

lemma switch_reports_Cons:
  "switch_reports (w\<lparr>wt_done := SwitchReport a b c # wt_done w\<rparr>) = SwitchReport a b c # switch_reports w"
  "switch_reports (w\<lparr>wt_done := StartCheck st re ec # wt_done w\<rparr>) = switch_reports w"
  "switch_reports (w\<lparr>wt_done := TrackReport st re ec # wt_done w\<rparr>) = switch_reports w"
  by (simp_all add: switch_reports_def)

lemma switch_reports_frame [simp]:
  "switch_reports (w\<lparr>wt_sHasFailed := x\<rparr>) = switch_reports w"
  "switch_reports (w\<lparr>wt_lastStage := st, wt_lastState := sa, wt_lastReason := re, wt_hasLastReport := h\<rparr>) =
     switch_reports w"
  by (simp_all add: switch_reports_def)

definition track_inv :: "wakeup_track \<Rightarrow> bool" where
  "track_inv w \<longleftrightarrow> distinct_adj (switch_reports w) \<and>
     (if wt_hasLastReport w
      then switch_reports w \<noteq> [] \<and>
           hd (switch_reports w) = SwitchReport (wt_lastStage w) (wt_lastState w) (wt_lastReason w)
      else switch_reports w = [])"

lemma track_inv_plain:
  assumes "track_inv w" "\<And>a b c. r \<noteq> SwitchReport a b c"
  shows "track_inv (snd (device_report D r w))"
  using assms by (cases r) (auto simp: device_report_def track_inv_def switch_reports_def)

lemma track_inv_status:
  assumes "track_inv w"
  shows "track_inv (snd (reportWakeupStatus D a b c w))"
  using assms
  by (cases "switch_reports w")
    (auto simp: track_defs track_inv_def switch_reports_def split: if_splits)

interpretation track: invariant_system "\<lambda>w. w = WakeupTrack_init" track_step track_inv
proof
  show "track_inv w" if "w = WakeupTrack_init" for w
    using that by (simp add: track_inv_def WakeupTrack_init_def switch_reports_def)
next
  show "track_inv v" if "track_inv w" "track_step w v" for w v
    using that(2,1)
    by (cases rule: track_stepE)
      (auto simp: reportWakeupStart_def reportWakeupTrack_def track_inv_status intro: track_inv_plain)
qed

text \<open>
  Whatever reports are made and however the device answers, the switch reports the device has
  accepted never contain the same report twice in a row, and the remembered report is the last one
  it accepted.
\<close>

theorem track_no_repeat:
  "reach (\<lambda>w. w = WakeupTrack_init) track_step w \<Longrightarrow>
     distinct_adj (switch_reports w) \<and>
     (wt_hasLastReport w \<longrightarrow>
        hd (switch_reports w) = SwitchReport (wt_lastStage w) (wt_lastState w) (wt_lastReason w))"
  using track.reach_inv [of w] by (auto simp: track_inv_def)

lemma track_no_repeat_witness:
  "distinct_adj (switch_reports (snd (reportWakeupStatus \<lparr>wd_open = \<lambda>_. True, wd_ioctl = \<lambda>_ _. True\<rparr>
     WAKEUP_SWITCH_STAGE_SA WAKEUP_SWITCH_STATE_OPEN WAKEUP_SWITCH_REASON_INIT WakeupTrack_init)))"
proof -
  have "reach (\<lambda>w. w = WakeupTrack_init) track_step WakeupTrack_init"
    by (rule reach_start) simp
  from reach_step [OF this ts_status] show ?thesis
    using track_no_repeat by blast
qed

end
