(* ===== verification/Trigger_Helper.thy ===== *)
theory Trigger_Helper
  imports Trigger_Connector Wakeup_Track
begin

text \<open>
  \<open>services/intell_voice_trigger/server/trigger_helper.cpp\<close>: the component that decides when a
  wake-up model is loaded into the driver and recognizing. It keeps one \<open>TriggerModelData\<close> per model
  uuid, the activity flags of the system (call, capture, audio scene, hibernation, fold status) and
  the connector session. A pointer to a \<open>TriggerModelData\<close> is the key it is stored under; a key without
  an entry is the null pointer.
\<close>

section \<open>Data\<close>

datatype ModelState = MODEL_NOTLOADED | MODEL_LOADED | MODEL_STARTED

record TriggerModelData =
  md_uuid :: int
  md_state :: ModelState
  md_model :: "GenericTriggerModel option"
  md_callback :: "nat option"
  md_handle :: int
  md_requested :: bool

text \<open>The enumerators of the audio and window frameworks the code names; the rest are numbered.\<close>

datatype AudioScene = AUDIO_SCENE_DEFAULT | AUDIO_SCENE_RINGING | AUDIO_SCENE_PHONE_CALL
  | AUDIO_SCENE_PHONE_CHAT | AUDIO_SCENE_OTHER int

datatype FoldStatus = FOLD_UNKNOWN | EXPAND | FOLDED | HALF_FOLD | FOLD_OTHER int

datatype SourceType = SOURCE_TYPE_MIC | SOURCE_TYPE_VOICE_RECOGNITION | SOURCE_TYPE_ULTRASONIC
  | SOURCE_TYPE_VOICE_TRANSCRIPTION | SOURCE_TYPE_CAMCORDER | SOURCE_TYPE_UNPROCESSED
  | SOURCE_TYPE_VOICE_CALL | SOURCE_TYPE_VOICE_COMMUNICATION | SOURCE_TYPE_OTHER int

text \<open>Calls that leave the component, in the order they are made.\<close>

datatype helper_call =
    OnGenericTriggerDetected nat int
  | Db_UpdateGenericTriggerModel GenericTriggerModel
  | SetExtraParameters string string string
  | Sleep_ms nat

text \<open>
  What the code is given from outside: the driver, the tracking device, the build switches
  (\<open>SUPPORT_RECORD_WAKEUP_CONCURRENT\<close>, \<open>SUPPORT_WINDOW_MANAGER\<close>, \<open>ONLY_FIRST_STAGE\<close>), whether the
  connector manager lists a module, the files and the stored country.
\<close>

record 'h trigger_env =
  env_hal :: "'h hal"
  env_dev :: wakeup_device
  env_concurrent :: bool
  env_window :: bool
  env_only_first :: bool
  env_modules :: bool
  env_ReadFile :: "string \<Rightarrow> (8 word list) option"
  env_country :: string

record 'h TriggerHelper =
  th_modelDataMap :: "TriggerModelData omap"
  th_module :: bool
  th_connector :: "'h connector"
  th_callActive :: bool
  th_systemHibernate :: bool
  th_audioCaptureActive :: bool
  th_audioScene :: AudioScene
  th_hasStreamBesidesVoip :: bool
  th_hasStreamBesidesVoice :: bool
  th_mFirstProc :: bool
  th_mExtensionConcurrency :: bool
  th_mVoipConcurrency :: bool
  th_mCallConcurrency :: bool
  th_mCameraConcurrency :: bool
  th_audioInputPipeCallback :: bool
  th_audioConcurrentCapture :: bool
  th_whitelistWhisperEnbale :: bool
  th_concurrentWhitelist :: "(string \<times> SourceType list) list"
  th_concurrentBlacklist :: "(string \<times> SourceType list) list"
  th_concurrentTypeSet :: "SourceType list"
  th_ExtensionConcurrentTypeSet :: "SourceType list"
  th_isCapturerDetached :: bool
  th_rendererStateMap :: "bool omap"
  th_curFoldStatus :: FoldStatus
  th_isFoldStatusDetached :: bool
  th_isFoldable :: bool
  th_foldStatusListener :: bool
  th_fanRunning :: bool
  th_perfGeniusHandle :: bool
  th_isFanListenerDetached :: bool
  th_fanInstance :: bool
  th_track :: wakeup_track
  th_calls :: "helper_call list"
  th_handleClash :: bool

definition PROXIMAL_WAKEUP_MODEL_UUID :: int where
  "PROXIMAL_WAKEUP_MODEL_UUID = 2"

definition WHISPER_MODEL_PATH_VDE :: string where
  "WHISPER_MODEL_PATH_VDE = ''/sys_prod/variant/region_comm/china/etc/intellvoice/wakeup/dsp/whisper_wakeup_dsp_config_vde''"

definition WHISPER_MODEL_PATH :: string where
  "WHISPER_MODEL_PATH = ''/sys_prod/variant/region_comm/china/etc/intellvoice/wakeup/dsp/whisper_wakeup_dsp_config''"

definition MODLE_VERSION_2 :: int where
  "MODLE_VERSION_2 = 2"

definition HIBERNATE_WAIT_TIME :: nat where
  "HIBERNATE_WAIT_TIME = 500"

definition TriggerHelper_new :: "'h connector \<Rightarrow> wakeup_track \<Rightarrow> 'h TriggerHelper" where
  "TriggerHelper_new c w = \<lparr>th_modelDataMap = [], th_module = False, th_connector = c,
     th_callActive = False, th_systemHibernate = False, th_audioCaptureActive = False,
     th_audioScene = AUDIO_SCENE_DEFAULT, th_hasStreamBesidesVoip = False,
     th_hasStreamBesidesVoice = False, th_mFirstProc = False, th_mExtensionConcurrency = False,
     th_mVoipConcurrency = False, th_mCallConcurrency = False, th_mCameraConcurrency = False,
     th_audioInputPipeCallback = False, th_audioConcurrentCapture = True,
     th_whitelistWhisperEnbale = True, th_concurrentWhitelist = [], th_concurrentBlacklist = [],
     th_concurrentTypeSet = [],
     th_ExtensionConcurrentTypeSet = [SOURCE_TYPE_MIC, SOURCE_TYPE_VOICE_RECOGNITION,
       SOURCE_TYPE_ULTRASONIC, SOURCE_TYPE_VOICE_TRANSCRIPTION, SOURCE_TYPE_CAMCORDER,
       SOURCE_TYPE_UNPROCESSED],
     th_isCapturerDetached = False, th_rendererStateMap = [], th_curFoldStatus = FOLD_UNKNOWN,
     th_isFoldStatusDetached = False, th_isFoldable = False, th_foldStatusListener = False,
     th_fanRunning = False, th_perfGeniusHandle = False, th_isFanListenerDetached = False,
     th_fanInstance = False, th_track = w, th_calls = [],
     th_handleClash = False\<rparr>"

section \<open>TriggerModelData\<close>

definition TriggerModelData_new :: "int \<Rightarrow> TriggerModelData" where
  "TriggerModelData_new uuid = \<lparr>md_uuid = uuid, md_state = MODEL_NOTLOADED, md_model = None,
     md_callback = None, md_handle = 0, md_requested = False\<rparr>"

definition SetCallback :: "nat option \<Rightarrow> TriggerModelData \<Rightarrow> TriggerModelData" where
  "SetCallback callback x = (if callback = None then x else x\<lparr>md_callback := callback\<rparr>)"

definition SameModel :: "GenericTriggerModel option \<Rightarrow> TriggerModelData \<Rightarrow> bool" where
  "SameModel model x =
     (case (model, md_model x) of
        (Some g, Some g') \<Rightarrow> gm_data g' = gm_data g
      | _ \<Rightarrow> False)"

text \<open>\<open>SetModel\<close> prints the stored model after the assignment: a null argument is dereferenced there.\<close>

definition SetModel :: "GenericTriggerModel option \<Rightarrow> TriggerModelData \<Rightarrow> TriggerModelData outcome" where
  "SetModel model x =
     (if SameModel model x then Ret x
      else let y = x\<lparr>md_model := model\<rparr> in
        (case md_model y of None \<Rightarrow> Crash NullDeref | Some _ \<Rightarrow> Ret y))"

text \<open>\<open>SetModel\<close> called with a non-null model, which always returns (lemma \<open>SetModel_Some\<close>).\<close>

definition store_model :: "GenericTriggerModel \<Rightarrow> TriggerModelData \<Rightarrow> TriggerModelData" where
  "store_model g x = (case SetModel (Some g) x of Inr y \<Rightarrow> y | Inl _ \<Rightarrow> x)"

definition Clear :: "TriggerModelData \<Rightarrow> TriggerModelData" where
  "Clear x = x\<lparr>md_callback := None, md_state := MODEL_NOTLOADED\<rparr>"

definition ClearCallback :: "TriggerModelData \<Rightarrow> TriggerModelData" where
  "ClearCallback x = x\<lparr>md_callback := None\<rparr>"

section \<open>Recognition primitives\<close>

definition upd_md :: "int \<Rightarrow> (TriggerModelData \<Rightarrow> TriggerModelData) \<Rightarrow> 'h TriggerHelper \<Rightarrow> 'h TriggerHelper" where
  "upd_md k f t = t\<lparr>th_modelDataMap := om_upd k f (th_modelDataMap t)\<rparr>"

definition GetTriggerModelData :: "int \<Rightarrow> 'h TriggerHelper \<Rightarrow> TriggerModelData option" where
  "GetTriggerModelData uuid t = om_find uuid (th_modelDataMap t)"

definition CreateTriggerModelData :: "int \<Rightarrow> 'h TriggerHelper \<Rightarrow> 'h TriggerHelper" where
  "CreateTriggerModelData uuid t =
     t\<lparr>th_modelDataMap := om_insert uuid (TriggerModelData_new uuid) (th_modelDataMap t)\<rparr>"

definition GetModule :: "'h trigger_env \<Rightarrow> 'h TriggerHelper \<Rightarrow> bool \<times> 'h TriggerHelper" where
  "GetModule E t =
     (if th_module t then (True, t)
      else if \<not> env_modules E then (False, t)
      else (case Connector_GetModule (env_hal E) (th_connector t) of
          (False, c) \<Rightarrow> (False, t\<lparr>th_connector := c\<rparr>)
        | (True, c) \<Rightarrow> (True, t\<lparr>th_connector := c, th_module := True\<rparr>)))"

definition module_SetParams ::
  "'h trigger_env \<Rightarrow> string \<Rightarrow> string \<Rightarrow> 'h TriggerHelper \<Rightarrow> int \<times> 'h TriggerHelper" where
  "module_SetParams E key val t =
     (case Session_SetParams (env_hal E) key val (th_connector t) of
        (ret, c) \<Rightarrow> (ret, t\<lparr>th_connector := c\<rparr>))"

text \<open>
  The handle the driver returns for the model \<open>k\<close> cannot tell \<open>k\<close> from another model: it is zero (the
  handle of a model never loaded), or the session still has a model under it, or another entry still
  records it (\<open>UnloadModel\<close> does not reset \<open>modelHandle_\<close>). Nothing in the code checks this.
  \<open>th_handleClash\<close> is not a field of the class: it remembers that it has happened, and no definition
  reads it but the one that sets it.
\<close>

definition handle_clash :: "int \<Rightarrow> int \<Rightarrow> 'h TriggerHelper \<Rightarrow> bool" where
  "handle_clash k handle t \<longleftrightarrow>
     handle = 0 \<or> model_state (th_connector t) handle \<noteq> None \<or>
     list_ex (\<lambda>(j, y). j \<noteq> k \<and> md_handle y = handle) (th_modelDataMap t)"

definition LoadModel :: "'h trigger_env \<Rightarrow> int \<Rightarrow> 'h TriggerHelper \<Rightarrow> int \<times> 'h TriggerHelper" where
  "LoadModel E k t =
     (case GetTriggerModelData k t of
        None \<Rightarrow> (-1, t)
      | Some x \<Rightarrow>
          if md_state x \<noteq> MODEL_NOTLOADED then (0, t)
          else if \<not> th_module t then (-1, t)
          else (case Validation_LoadModel (env_hal E) (md_model x) (th_connector t) of
            (ret, handle, c) \<Rightarrow>
              if ret \<noteq> 0 then (ret, t\<lparr>th_connector := c\<rparr>)
              else (ret, (upd_md k (\<lambda>x. x\<lparr>md_handle := handle, md_state := MODEL_LOADED\<rparr>)
                          (t\<lparr>th_connector := c\<rparr>))\<lparr>th_handleClash := th_handleClash t \<or> handle_clash k handle t\<rparr>)))"

definition UnloadModel :: "'h trigger_env \<Rightarrow> int \<Rightarrow> 'h TriggerHelper \<Rightarrow> int \<times> 'h TriggerHelper" where
  "UnloadModel E k t =
     (case GetTriggerModelData k t of
        None \<Rightarrow> (-1, t)
      | Some x \<Rightarrow>
          if md_state x \<noteq> MODEL_LOADED then (0, t)
          else if \<not> th_module t then (-1, t)
          else (case Session_UnloadModel (env_hal E) (md_handle x) (th_connector t) of
            (ret, c) \<Rightarrow> (ret, upd_md k (\<lambda>x. x\<lparr>md_state := MODEL_NOTLOADED\<rparr>) (t\<lparr>th_connector := c\<rparr>))))"

definition StopRecognition :: "'h trigger_env \<Rightarrow> int \<Rightarrow> 'h TriggerHelper \<Rightarrow> int \<times> 'h TriggerHelper" where
  "StopRecognition E k t =
     (case GetTriggerModelData k t of
        None \<Rightarrow> (-1, t)
      | Some x \<Rightarrow>
          if md_state x \<noteq> MODEL_STARTED then (0, t)
          else if \<not> th_module t then (-1, t)
          else (case Session_Stop (env_hal E) (md_handle x) (th_connector t) of
            (ret, c) \<Rightarrow>
              if ret \<noteq> 0 then (ret, t\<lparr>th_connector := c\<rparr>)
              else (ret, upd_md k (\<lambda>x. x\<lparr>md_state := MODEL_LOADED\<rparr>) (t\<lparr>th_connector := c\<rparr>))))"

subsection \<open>Fold status, part of starting\<close>

definition ReadWhisperModel :: "'h trigger_env \<Rightarrow> 'h TriggerHelper \<Rightarrow> GenericTriggerModel option" where
  "ReadWhisperModel E t =
     (case env_ReadFile E (if th_curFoldStatus t = FOLDED then WHISPER_MODEL_PATH_VDE else WHISPER_MODEL_PATH) of
        None \<Rightarrow> None
      | Some d \<Rightarrow> Some (snd (SetData d
          (TriggerModel_new PROXIMAL_WAKEUP_MODEL_UUID MODLE_VERSION_2 PROXIMAL_WAKEUP_TYPE))))"

definition UpdateGenericTriggerModel :: "GenericTriggerModel option \<Rightarrow> 'h TriggerHelper \<Rightarrow> 'h TriggerHelper" where
  "UpdateGenericTriggerModel model t =
     (case model of
        None \<Rightarrow> t
      | Some g \<Rightarrow> t\<lparr>th_calls := th_calls t @ [Db_UpdateGenericTriggerModel g]\<rparr>)"

definition ReLoadWhisperModel :: "'h trigger_env \<Rightarrow> int \<Rightarrow> 'h TriggerHelper \<Rightarrow> 'h TriggerHelper" where
  "ReLoadWhisperModel E k t =
     (case GetTriggerModelData k t of
        None \<Rightarrow> t
      | Some x \<Rightarrow>
          if md_uuid x \<noteq> PROXIMAL_WAKEUP_MODEL_UUID then t
          else (case ReadWhisperModel E t of
              None \<Rightarrow> t
            | Some g \<Rightarrow>
                let t1 = UpdateGenericTriggerModel (Some g) t in
                if SameModel (Some g) x then t1
                else let t2 = snd (UnloadModel E k t1);
                         t3 = upd_md k (store_model g) t2
                     in snd (LoadModel E k t3)))"

definition SetFoldStatus :: "'h trigger_env \<Rightarrow> 'h TriggerHelper \<Rightarrow> 'h TriggerHelper" where
  "SetFoldStatus E t =
     (case GetModule E t of
        (False, t1) \<Rightarrow> t1
      | (True, t1) \<Rightarrow> snd (module_SetParams E ''is_folded''
                        (if th_curFoldStatus t1 = FOLDED then ''true'' else ''false'') t1))"

text \<open>The caller found the entry \<open>k\<close>, so the map is not empty and its first entry exists.\<close>

definition FoldStatusOperation :: "'h trigger_env \<Rightarrow> int \<Rightarrow> 'h TriggerHelper \<Rightarrow> 'h TriggerHelper" where
  "FoldStatusOperation E k t =
     (if \<not> th_isFoldable t then t
      else let t1 = ReLoadWhisperModel E k t in
        (case (th_modelDataMap t1, GetTriggerModelData k t1) of
           ((_, firstElement) # _, Some x) \<Rightarrow>
              if md_uuid firstElement = md_uuid x then SetFoldStatus E t1 else t1
         | _ \<Rightarrow> t1))"

definition HandleWakeupInputGain :: "'h trigger_env \<Rightarrow> 'h TriggerHelper \<Rightarrow> 'h TriggerHelper" where
  "HandleWakeupInputGain E t =
     t\<lparr>th_calls := th_calls t @ [SetExtraParameters ''audio_effect'' ''wakeup_input_gain''
        (if env_country E = ''MX'' then ''22'' else ''10'')]\<rparr>"

definition StartRecognition :: "'h trigger_env \<Rightarrow> int \<Rightarrow> 'h TriggerHelper \<Rightarrow> int \<times> 'h TriggerHelper" where
  "StartRecognition E k t =
     (case GetTriggerModelData k t of
        None \<Rightarrow> (-1, t)
      | Some x \<Rightarrow>
          if md_state x \<noteq> MODEL_LOADED then (0, t)
          else if \<not> th_module t then (-1, t)
          else let t1 = (if env_window E then FoldStatusOperation E k t else t);
                   t2 = (if env_only_first E then HandleWakeupInputGain E t1 else t1)
               in (case GetTriggerModelData k t2 of
                     None \<Rightarrow> (-1, t2)
                   | Some y \<Rightarrow>
                     (case Session_Start (env_hal E) (md_handle y) (th_connector t2) of
                       (ret, c) \<Rightarrow>
                         if ret \<noteq> 0 then (ret, t2\<lparr>th_connector := c\<rparr>)
                         else (ret, upd_md k (\<lambda>x. x\<lparr>md_state := MODEL_STARTED\<rparr>) (t2\<lparr>th_connector := c\<rparr>)))))"

definition InitRecognition ::
  "'h trigger_env \<Rightarrow> int \<Rightarrow> bool \<Rightarrow> 'h TriggerHelper \<Rightarrow> int \<times> 'h TriggerHelper" where
  "InitRecognition E k unload t =
     (case GetTriggerModelData k t of
        None \<Rightarrow> (-1, t)
      | Some x \<Rightarrow>
          if md_state x = MODEL_NOTLOADED then (0, t)
          else (case StopRecognition E k t of (ret, t1) \<Rightarrow>
            if unload
            then (case UnloadModel E k t1 of (ret, t2) \<Rightarrow> (ret, upd_md k Clear t2))
            else (ret, t1)))"

definition PrepareForRecognition :: "'h trigger_env \<Rightarrow> int \<Rightarrow> 'h TriggerHelper \<Rightarrow> int \<times> 'h TriggerHelper" where
  "PrepareForRecognition E k t =
     (case GetModule E t of
        (False, t1) \<Rightarrow> (-1, t1)
      | (True, t1) \<Rightarrow> (case LoadModel E k t1 of
          (ret, t2) \<Rightarrow> if ret \<noteq> 0 then (-1, t2) else (0, t2)))"

definition IsConflictSceneActive :: "'h trigger_env \<Rightarrow> 'h TriggerHelper \<Rightarrow> bool" where
  "IsConflictSceneActive E t =
     (if env_concurrent E then
        (if th_mVoipConcurrency t \<and> \<not> th_mCallConcurrency t then
           th_systemHibernate t \<or>
           (th_audioScene t \<noteq> AUDIO_SCENE_DEFAULT \<and> th_audioScene t \<noteq> AUDIO_SCENE_PHONE_CHAT \<and>
            th_audioScene t \<noteq> AUDIO_SCENE_RINGING) \<or>
           (\<not> th_audioConcurrentCapture t \<and> th_audioCaptureActive t)
         else if th_mVoipConcurrency t \<and> th_mCallConcurrency t then
           th_systemHibernate t \<or>
           (th_audioScene t \<noteq> AUDIO_SCENE_DEFAULT \<and> th_audioScene t \<noteq> AUDIO_SCENE_PHONE_CHAT \<and>
            th_audioScene t \<noteq> AUDIO_SCENE_PHONE_CALL \<and> th_audioScene t \<noteq> AUDIO_SCENE_RINGING) \<or>
           (\<not> th_audioConcurrentCapture t \<and> th_audioCaptureActive t)
         else th_callActive t \<or> th_systemHibernate t \<or> th_audioScene t \<noteq> AUDIO_SCENE_DEFAULT \<or>
           (\<not> th_audioConcurrentCapture t \<and> th_audioCaptureActive t))
      else th_callActive t \<or> th_audioCaptureActive t \<or> th_systemHibernate t \<or>
           th_audioScene t \<noteq> AUDIO_SCENE_DEFAULT)"

section \<open>Client operations\<close>

text \<open>
  \<open>StartGenericRecognition\<close>. Allocation failures are not modelled. The result carries the fault of
  \<open>SetModel\<close> for a null model.
\<close>

definition StartGenericRecognition ::
  "'h trigger_env \<Rightarrow> int \<Rightarrow> GenericTriggerModel option \<Rightarrow> nat option \<Rightarrow> 'h TriggerHelper \<Rightarrow>
     (int \<times> 'h TriggerHelper) outcome" where
  "StartGenericRecognition E uuid model callback t =
     (let t0 = (if GetTriggerModelData uuid t = None then CreateTriggerModelData uuid t else t) in
      (case GetTriggerModelData uuid t0 of
         None \<Rightarrow> Ret (-1, t0)
       | Some x \<Rightarrow>
           (case InitRecognition E uuid (\<not> SameModel model x) t0 of (ret, t1) \<Rightarrow>
             if ret \<noteq> 0 then Ret (-1, t1)
             else (case GetTriggerModelData uuid t1 of
                None \<Rightarrow> Ret (-1, t1)
              | Some x1 \<Rightarrow>
                  obind (SetModel model x1) (\<lambda>x2.
                    let t2 = upd_md uuid (\<lambda>_. (SetCallback callback x2)\<lparr>md_requested := True\<rparr>) t1 in
                    if IsConflictSceneActive E t2 then Ret (0, t2)
                    else (case PrepareForRecognition E uuid t2 of (ret, t3) \<Rightarrow>
                      if ret \<noteq> 0 then Ret (ret, t3) else Ret (StartRecognition E uuid t3)))))))"

definition StopGenericRecognition ::
  "'h trigger_env \<Rightarrow> int \<Rightarrow> 'h TriggerHelper \<Rightarrow> int \<times> 'h TriggerHelper" where
  "StopGenericRecognition E uuid t =
     (case GetTriggerModelData uuid t of
        None \<Rightarrow> (-1, t)
      | Some _ \<Rightarrow>
          (case StopRecognition E uuid (upd_md uuid (\<lambda>x. x\<lparr>md_requested := False\<rparr>) t) of (ret, t1) \<Rightarrow>
             if ret \<noteq> 0 then (ret, t1) else (ret, upd_md uuid ClearCallback t1)))"

definition UnloadGenericTriggerModel :: "'h trigger_env \<Rightarrow> int \<Rightarrow> 'h TriggerHelper \<Rightarrow> 'h TriggerHelper" where
  "UnloadGenericTriggerModel E uuid t =
     (case GetTriggerModelData uuid t of
        None \<Rightarrow> t
      | Some x \<Rightarrow>
          if md_state x = MODEL_NOTLOADED then t
          else let t1 = snd (StopRecognition E uuid t);
                   t2 = snd (UnloadModel E uuid t1)
               in t2\<lparr>th_modelDataMap := om_erase uuid (th_modelDataMap t2)\<rparr>)"

definition SetParameter ::
  "'h trigger_env \<Rightarrow> string \<Rightarrow> string \<Rightarrow> 'h TriggerHelper \<Rightarrow> int \<times> 'h TriggerHelper" where
  "SetParameter E key val t =
     (case GetModule E t of
        (False, t1) \<Rightarrow> (-1, t1)
      | (True, t1) \<Rightarrow> module_SetParams E key val t1)"

definition SetParameterForInputPipe ::
  "'h trigger_env \<Rightarrow> string \<Rightarrow> string \<Rightarrow> 'h TriggerHelper \<Rightarrow> int \<times> 'h TriggerHelper" where
  "SetParameterForInputPipe E key val t =
     (case GetModule E t of
        (False, t1) \<Rightarrow> (-1, t1)
      | (True, t1) \<Rightarrow> module_SetParams E key val t1)"

definition GetFoldStatusInfo :: "'h TriggerHelper \<Rightarrow> string" where
  "GetFoldStatusInfo t =
     (if th_isFoldable t then ''is_foldable=true'' else ''is_foldable=false'') @ '';'' @
     (if th_curFoldStatus t = FOLDED then ''fold_status=fold'' else ''fold_status=expand'')"

definition GetParameterInner :: "string \<Rightarrow> 'h TriggerHelper \<Rightarrow> string option" where
  "GetParameterInner key t = (if key = ''fold_status_info'' then Some (GetFoldStatusInfo t) else None)"

definition GetParameter :: "'h trigger_env \<Rightarrow> string \<Rightarrow> 'h TriggerHelper \<Rightarrow> string \<times> 'h TriggerHelper" where
  "GetParameter E key t =
     (case GetModule E t of
        (False, t1) \<Rightarrow> ([], t1)
      | (True, t1) \<Rightarrow>
          (case (if env_window E then GetParameterInner key t1 else None) of
             Some v \<Rightarrow> (v, t1)
           | None \<Rightarrow> (case Session_GetParams (env_hal E) key (th_connector t1) of
               (ret, v) \<Rightarrow> if ret \<noteq> 0 then ([], t1) else (v, t1))))"

text \<open>The first entry with the handle is marked loaded and its client is told.\<close>

fun find_handle :: "int \<Rightarrow> TriggerModelData omap \<Rightarrow> int option" where
  "find_handle h [] = None"
| "find_handle h ((k, x) # m) = (if md_handle x = h then Some k else find_handle h m)"

definition OnRecognition :: "int \<Rightarrow> 'h TriggerHelper \<Rightarrow> 'h TriggerHelper" where
  "OnRecognition modelHandle t =
     (case find_handle modelHandle (th_modelDataMap t) of
        None \<Rightarrow> t
      | Some k \<Rightarrow>
          (let t1 = upd_md k (\<lambda>x. x\<lparr>md_state := MODEL_LOADED\<rparr>) t in
           case GetTriggerModelData k t1 of
             None \<Rightarrow> t1
           | Some x \<Rightarrow> (case md_callback x of
               None \<Rightarrow> t1
             | Some cb \<Rightarrow> t1\<lparr>th_calls := th_calls t1 @ [OnGenericTriggerDetected cb modelHandle]\<rparr>)))"

section \<open>System events\<close>

definition report_switch :: "'h trigger_env \<Rightarrow> SwitchState \<Rightarrow> 'h TriggerHelper \<Rightarrow> 'h TriggerHelper" where
  "report_switch E st t =
     t\<lparr>th_track := snd (reportWakeupStatus (env_dev E) WAKEUP_SWITCH_STAGE_SA st
                          WAKEUP_SWITCH_REASON_AUDIO_SCENE_CHANGE (th_track t))\<rparr>"

definition hibernate_unload :: "'h trigger_env \<Rightarrow> int \<Rightarrow> 'h TriggerHelper \<Rightarrow> 'h TriggerHelper" where
  "hibernate_unload E k t =
     (if th_systemHibernate t
      then let t1 = snd (UnloadModel E k t) in t1\<lparr>th_calls := th_calls t1 @ [Sleep_ms HIBERNATE_WAIT_TIME]\<rparr>
      else t)"

fun UpdateAll_loop :: "'h trigger_env \<Rightarrow> int list \<Rightarrow> 'h TriggerHelper \<Rightarrow> 'h TriggerHelper" where
  "UpdateAll_loop E [] t = t"
| "UpdateAll_loop E (k # ks) t =
     (case GetTriggerModelData k t of
        None \<Rightarrow> UpdateAll_loop E ks t
      | Some x \<Rightarrow>
          let needStart = md_requested x \<and> \<not> IsConflictSceneActive E t in
          if needStart = (md_state x = MODEL_STARTED) then UpdateAll_loop E ks t
          else if needStart
          then (case PrepareForRecognition E k t of (ret, t1) \<Rightarrow>
                  if ret \<noteq> 0 then t1
                  else UpdateAll_loop E ks
                         (snd (StartRecognition E k (report_switch E WAKEUP_SWITCH_STATE_OPEN t1))))
          else UpdateAll_loop E ks
                 (hibernate_unload E k
                   (snd (StopRecognition E k (report_switch E WAKEUP_SWITCH_STATE_CLOSE t)))))"

definition OnUpdateAllRecognitionState :: "'h trigger_env \<Rightarrow> 'h TriggerHelper \<Rightarrow> 'h TriggerHelper" where
  "OnUpdateAllRecognitionState E t = UpdateAll_loop E (om_keys (th_modelDataMap t)) t"

text \<open>Without \<open>SUPPORT_RECORD_WAKEUP_CONCURRENT\<close>.\<close>

definition OnCapturerStateChange :: "'h trigger_env \<Rightarrow> bool \<Rightarrow> 'h TriggerHelper \<Rightarrow> 'h TriggerHelper" where
  "OnCapturerStateChange E isActive t =
     (if th_audioCaptureActive t = isActive then t
      else OnUpdateAllRecognitionState E (t\<lparr>th_audioCaptureActive := isActive\<rparr>))"

definition OnHibernateStateUpdated :: "'h trigger_env \<Rightarrow> bool \<Rightarrow> 'h TriggerHelper \<Rightarrow> 'h TriggerHelper" where
  "OnHibernateStateUpdated E isHibernate t =
     (if th_systemHibernate t = isHibernate then t
      else OnUpdateAllRecognitionState E (t\<lparr>th_systemHibernate := isHibernate\<rparr>))"

definition OnSyncHibernate :: "'h trigger_env \<Rightarrow> 'h TriggerHelper \<Rightarrow> 'h TriggerHelper" where
  "OnSyncHibernate E t = OnHibernateStateUpdated E True t"

definition OnSyncWakeup :: "'h trigger_env \<Rightarrow> 'h TriggerHelper \<Rightarrow> 'h TriggerHelper" where
  "OnSyncWakeup E t = OnHibernateStateUpdated E False t"

definition OnSyncSleep :: "'h trigger_env \<Rightarrow> bool \<Rightarrow> 'h TriggerHelper \<Rightarrow> 'h TriggerHelper" where
  "OnSyncSleep E onForceSleep t = (if \<not> onForceSleep then t else OnHibernateStateUpdated E True t)"

definition Sleep_OnSyncWakeup :: "'h trigger_env \<Rightarrow> bool \<Rightarrow> 'h TriggerHelper \<Rightarrow> 'h TriggerHelper" where
  "Sleep_OnSyncWakeup E onForceSleep t = (if \<not> onForceSleep then t else OnHibernateStateUpdated E False t)"

text \<open>
  The locked part of \<open>OnCallStateUpdated\<close>. The enumerators of \<open>TelCallState\<close> the code names are the
  fields of a record; the second component says whether the recognition states were updated.
\<close>

record tel_call_state =
  CALL_STATUS_UNKNOWN :: int
  CALL_STATUS_DISCONNECTED :: int
  CALL_STATUS_IDLE :: int

definition call_update ::
  "'h trigger_env \<Rightarrow> tel_call_state \<Rightarrow> int \<Rightarrow> 'h TriggerHelper \<Rightarrow> bool \<times> 'h TriggerHelper" where
  "call_update E T callState t =
     (if callState < CALL_STATUS_UNKNOWN T \<or> CALL_STATUS_IDLE T < callState then (False, t)
      else let curCallActive = (callState \<noteq> CALL_STATUS_DISCONNECTED T \<and> callState \<noteq> CALL_STATUS_IDLE T \<and>
                                callState \<noteq> CALL_STATUS_UNKNOWN T) in
        if th_callActive t = curCallActive then (False, t)
        else (True, OnUpdateAllRecognitionState E (t\<lparr>th_callActive := curCallActive\<rparr>)))"

text \<open>The locked part of \<open>OnAudioSceneChange\<close>.\<close>

definition scene_update ::
  "'h trigger_env \<Rightarrow> AudioScene \<Rightarrow> 'h TriggerHelper \<Rightarrow> bool \<times> 'h TriggerHelper" where
  "scene_update E audioScene t =
     (if th_audioScene t = audioScene then (False, t)
      else (True, OnUpdateAllRecognitionState E (t\<lparr>th_audioScene := audioScene\<rparr>)))"

section \<open>Fold status\<close>

fun StartAll_loop :: "'h trigger_env \<Rightarrow> int list \<Rightarrow> 'h TriggerHelper \<Rightarrow> 'h TriggerHelper" where
  "StartAll_loop E [] t = t"
| "StartAll_loop E (k # ks) t =
     (case GetTriggerModelData k t of
        None \<Rightarrow> StartAll_loop E ks t
      | Some x \<Rightarrow>
          if \<not> (md_requested x \<and> \<not> IsConflictSceneActive E t) then StartAll_loop E ks t
          else (case PrepareForRecognition E k t of (ret, t1) \<Rightarrow>
             if ret \<noteq> 0 then t1 else StartAll_loop E ks (snd (StartRecognition E k t1))))"

definition StartAllRecognition :: "'h trigger_env \<Rightarrow> 'h TriggerHelper \<Rightarrow> 'h TriggerHelper" where
  "StartAllRecognition E t = StartAll_loop E (om_keys (th_modelDataMap t)) t"

fun StopAll_loop :: "'h trigger_env \<Rightarrow> int list \<Rightarrow> 'h TriggerHelper \<Rightarrow> 'h TriggerHelper" where
  "StopAll_loop E [] t = t"
| "StopAll_loop E (k # ks) t =
     (case GetTriggerModelData k t of
        None \<Rightarrow> StopAll_loop E ks t
      | Some x \<Rightarrow>
          if \<not> (md_requested x \<and> \<not> IsConflictSceneActive E t) then StopAll_loop E ks t
          else StopAll_loop E ks (snd (StopRecognition E k t)))"

definition StopAllRecognition :: "'h trigger_env \<Rightarrow> 'h TriggerHelper \<Rightarrow> 'h TriggerHelper" where
  "StopAllRecognition E t = StopAll_loop E (om_keys (th_modelDataMap t)) t"

definition RestartAllRecognition :: "'h trigger_env \<Rightarrow> 'h TriggerHelper \<Rightarrow> 'h TriggerHelper" where
  "RestartAllRecognition E t = StartAllRecognition E (StopAllRecognition E t)"

definition OnFoldStatusChanged :: "'h trigger_env \<Rightarrow> FoldStatus \<Rightarrow> 'h TriggerHelper \<Rightarrow> 'h TriggerHelper" where
  "OnFoldStatusChanged E foldStatus t =
     (let newFoldStatus = (if foldStatus = HALF_FOLD then EXPAND else foldStatus) in
      if th_curFoldStatus t = newFoldStatus then t
      else RestartAllRecognition E (t\<lparr>th_curFoldStatus := newFoldStatus\<rparr>))"

text \<open>The display manager's answers are arguments.\<close>

definition RegisterFoldStatusListener :: "bool \<Rightarrow> 'h TriggerHelper \<Rightarrow> 'h TriggerHelper" where
  "RegisterFoldStatusListener registered t = t\<lparr>th_foldStatusListener := registered\<rparr>"

definition AttachFoldStatusListener ::
  "'h trigger_env \<Rightarrow> bool \<Rightarrow> bool \<Rightarrow> bool \<Rightarrow> FoldStatus \<Rightarrow> 'h TriggerHelper \<Rightarrow> 'h TriggerHelper" where
  "AttachFoldStatusListener E isFoldable isFileExist registered status t =
     (if th_isFoldStatusDetached t then t
      else let t1 = t\<lparr>th_isFoldable := (isFileExist \<and> isFoldable)\<rparr> in
        if \<not> th_isFoldable t1 then t1
        else let t2 = (RegisterFoldStatusListener registered t1)\<lparr>th_curFoldStatus := status\<rparr> in
          if th_curFoldStatus t2 = FOLDED then RestartAllRecognition E t2 else t2)"

definition DetachFoldStatusListener :: "'h TriggerHelper \<Rightarrow> 'h TriggerHelper" where
  "DetachFoldStatusListener t =
     (let t1 = t\<lparr>th_isFoldStatusDetached := True\<rparr> in
      if \<not> th_foldStatusListener t1 then t1 else t1\<lparr>th_foldStatusListener := False\<rparr>)"

end
