(* ===== verification/String_Util.thy ===== *)
theory String_Util
  imports IV_Prelude
begin

text \<open>
  \<open>utils/string_util\<close> and the key-value parser of \<open>utils/intell_voice_util.cpp\<close>, with the functions of the
  standard library they use. Positions are as in the code; \<open>npos\<close> is \<open>None\<close>. Strings are shorter than
  \<open>2 ^ 32\<close>, so that the \<open>unsigned int\<close> positions do not wrap. \<open>Split\<close> with an empty separator does not
  end, so its loop is a partial function and that it returns is proved.
\<close>

section \<open>Standard library\<close>

text \<open>\<open>s.find(sep, pos)\<close>.\<close>

definition str_find :: "string \<Rightarrow> string \<Rightarrow> nat \<Rightarrow> nat option" where
  "str_find sep s pos =
     List.find (\<lambda>i. i + length sep \<le> length s \<and> take (length sep) (drop i s) = sep) [pos ..< Suc (length s)]"

text \<open>\<open>s.substr(pos, n)\<close> for \<open>pos\<close> in range.\<close>

definition substr :: "string \<Rightarrow> nat \<Rightarrow> nat \<Rightarrow> string" where
  "substr s pos n = take n (drop pos s)"

definition is_space :: "char \<Rightarrow> bool" where
  "is_space c = (of_char c \<in> {32, 9, 10, 11, 12, 13 :: nat})"

definition is_digit :: "char \<Rightarrow> bool" where
  "is_digit c = (48 \<le> (of_char c :: nat) \<and> (of_char c :: nat) \<le> 57)"

definition digits_value :: "string \<Rightarrow> int" where
  "digits_value s = foldl (\<lambda>a c. a * 10 + (of_char c - 48)) 0 s"

text \<open>The longest prefix that is a number: leading white space, an optional sign, digits. \<open>None\<close> when
  there is no digit; the value is not yet bounded. The rest follows the last digit.\<close>

definition parse_number :: "string \<Rightarrow> (int \<times> string) option" where
  "parse_number s =
     (let s1 = dropWhile is_space s;
          neg = (s1 \<noteq> [] \<and> hd s1 = CHR ''-'');
          s2 = (if s1 \<noteq> [] \<and> (hd s1 = CHR ''-'' \<or> hd s1 = CHR ''+'') then tl s1 else s1);
          d = takeWhile is_digit s2
      in if d = [] then None
         else Some (if neg then - digits_value d else digits_value d, dropWhile is_digit s2))"

text \<open>\<open>std::stoi\<close>.\<close>

datatype stoi_exn = invalid_argument | out_of_range

definition stoi :: "string \<Rightarrow> stoi_exn + int" where
  "stoi s =
     (case parse_number s of
        None \<Rightarrow> Inl invalid_argument
      | Some (v, _) \<Rightarrow> if v < - (2 ^ 31) \<or> 2 ^ 31 \<le> v then Inl out_of_range else Inr v)"

text \<open>\<open>std::strtol\<close> with base 10 and a 64-bit \<open>long\<close>: the saturated value and the rest of the string.\<close>

definition strtol :: "string \<Rightarrow> int \<times> string" where
  "strtol s =
     (case parse_number s of
        None \<Rightarrow> (0, s)
      | Some (v, rest) \<Rightarrow> (max (- (2 ^ 63)) (min (2 ^ 63 - 1) v), rest))"

text \<open>\<open>std::to_string\<close>.\<close>

fun nat_digits :: "nat \<Rightarrow> string" where
  "nat_digits n = (if n < 10 then [char_of (48 + n)] else nat_digits (n div 10) @ [char_of (48 + n mod 10)])"

declare nat_digits.simps [simp del]

definition to_string :: "int \<Rightarrow> string" where
  "to_string i = (if i < 0 then CHR ''-'' # nat_digits (nat (- i)) else nat_digits (nat i))"

section \<open>StringUtil\<close>

partial_function (option) Split_loop :: "string \<Rightarrow> string \<Rightarrow> nat \<Rightarrow> string list \<Rightarrow> string list option" where
  "Split_loop str sep startPos res =
     (case str_find sep str startPos of
        Some findPos \<Rightarrow>
          Split_loop str sep (findPos + length sep)
            (if startPos < findPos then res @ [substr str startPos (findPos - startPos)] else res)
      | None \<Rightarrow> Some (if startPos < length str then res @ [drop startPos str] else res))"

definition Split :: "string \<Rightarrow> string \<Rightarrow> string list option" where
  "Split str sep = Split_loop str sep 0 []"

definition TrimL :: "string \<Rightarrow> string" where
  "TrimL str = dropWhile is_space str"

definition TrimR :: "string \<Rightarrow> string" where
  "TrimR str = rev (dropWhile is_space (rev str))"

definition Trim :: "string \<Rightarrow> string" where
  "Trim str = TrimR (TrimL str)"

definition special :: "char \<Rightarrow> bool" where
  "special c = (c \<in> set '',.:;!~@#$%^&*()`?/-+'' \<or> is_space c)"

text \<open>\<open>TrimSpecialChars\<close>: erase the first special character at or after \<open>sp\<close>, continue from there.\<close>

function TrimSpecial_loop :: "string \<Rightarrow> nat \<Rightarrow> string" where
  "TrimSpecial_loop str sp =
     (if sp < length str
      then (case List.find (\<lambda>i. special (str ! i)) [sp ..< length str] of
              Some ep \<Rightarrow> TrimSpecial_loop (take ep str @ drop (Suc ep) str) ep
            | None \<Rightarrow> str)
      else str)"
  by pat_completeness auto
termination
proof (relation "measure (\<lambda>(str, sp). length str)", simp, goal_cases)
  case (1 str sp ep)
  then have "ep < length str" by (auto simp: find_Some_iff)
  then show ?case by simp
qed

declare TrimSpecial_loop.simps [simp del]

definition TrimSpecialChars :: "string \<Rightarrow> string" where
  "TrimSpecialChars str = TrimSpecial_loop str 0"

function CalSub_loop :: "string \<Rightarrow> string \<Rightarrow> nat \<Rightarrow> nat \<Rightarrow> nat" where
  "CalSub_loop str subStr pos count =
     (if subStr = [] then count
      else (case str_find subStr str pos of
              Some p \<Rightarrow> CalSub_loop str subStr (p + length subStr) (Suc count)
            | None \<Rightarrow> count))"
  by pat_completeness auto
termination
proof (relation "measure (\<lambda>(str, subStr, pos, count). Suc (length str) - pos)", simp, goal_cases)
  case (1 str subStr pos count p)
  then have "pos \<le> p" "p + length subStr \<le> length str" "0 < length subStr"
    by (auto simp: str_find_def find_Some_iff nth_append split: if_splits)
  then have "Suc (length str) - (p + length subStr) < Suc (length str) - pos" by linarith
  then show ?case by simp
qed

declare CalSub_loop.simps [simp del]

definition CalSubStrNum :: "string \<Rightarrow> string \<Rightarrow> nat" where
  "CalSubStrNum str subStr = (if length subStr = 0 then 0 else CalSub_loop str subStr 0 0)"

text \<open>The two output strings are assigned even when the function then fails.\<close>

definition SplitLineToPair :: "string \<Rightarrow> string \<times> string \<Rightarrow> bool \<times> string \<times> string" where
  "SplitLineToPair line old =
     (if line = [] then (False, old)
      else (case str_find ''='' line 0 of
              None \<Rightarrow> (False, old)
            | Some pos \<Rightarrow>
                if length line - 1 = pos then (False, old)
                else let first = Trim (substr line 0 pos);
                         second = Trim (drop (pos + 1) line)
                     in (first \<noteq> [] \<and> second \<noteq> [], first, second)))"

text \<open>\<open>c_str\<close> ends at the first null character. The conversion to \<open>int32_t\<close> drops the upper half.\<close>

definition c_str :: "string \<Rightarrow> string" where
  "c_str s = takeWhile (\<lambda>c. of_char c \<noteq> (0::nat)) s"

definition StringToInt :: "string \<Rightarrow> int option" where
  "StringToInt str =
     (case strtol (c_str str) of (conVal, endStr) \<Rightarrow>
        if conVal = 2 ^ 63 - 1 \<or> conVal = - (2 ^ 63) \<or> endStr = c_str str \<or> endStr \<noteq> [] then None
        else Some (signed_take_bit 31 conVal))"

definition StringToUpperX :: "string \<Rightarrow> string" where
  "StringToUpperX str =
     map (\<lambda>c. if (97::nat) \<le> of_char c \<and> of_char c \<le> (122::nat) then char_of (of_char c - (32::nat)) else c) str"

section \<open>IntellVoiceUtil::SplitStringToKVPair\<close>

fun kv_loop :: "string list \<Rightarrow> (string \<rightharpoonup> string) \<Rightarrow> (string \<rightharpoonup> string)" where
  "kv_loop [] m = m"
| "kv_loop (it # its) m =
     (case SplitLineToPair it ([], []) of
        (True, key, val) \<Rightarrow> kv_loop its (m(key \<mapsto> val))
      | (False, _, _) \<Rightarrow> kv_loop its m)"

definition SplitStringToKVPair :: "string \<Rightarrow> (string \<rightharpoonup> string) \<Rightarrow> (string \<rightharpoonup> string) option" where
  "SplitStringToKVPair inputStr kvpairs = map_option (\<lambda>ps. kv_loop ps kvpairs) (Split inputStr '';'')"

definition GetHdiVersionId :: "32 word \<Rightarrow> 32 word \<Rightarrow> 32 word" where
  "GetHdiVersionId majorVer minorVer = or (push_bit 8 majorVer) minorVer"

section \<open>Splitting\<close>

lemma str_find_SomeD:
  assumes "str_find sep s pos = Some i"
  shows "pos \<le> i" "i + length sep \<le> length s" "take (length sep) (drop i s) = sep"
  using assms by (auto simp: str_find_def find_Some_iff nth_append split: if_splits)

text \<open>The reference: cut at the first separator, continue with what follows it.\<close>

function pieces :: "string \<Rightarrow> string \<Rightarrow> string list" where
  "pieces sep s =
     (if sep = [] then [s]
      else (case str_find sep s 0 of
              None \<Rightarrow> if s = [] then [] else [s]
            | Some i \<Rightarrow> (if 0 < i then [take i s] else []) @ pieces sep (drop (i + length sep) s)))"
  by pat_completeness auto
termination
proof (relation "measure (\<lambda>(sep, s). length s)", simp, goal_cases)
  case (1 sep s i)
  then show ?case using str_find_SomeD [of sep s 0 i] by (cases sep) auto
qed

declare pieces.simps [simp del]

lemma str_find_shift:
  assumes "pos \<le> length s"
  shows "str_find sep s pos = map_option (\<lambda>i. i + pos) (str_find sep (drop pos s) 0)"
proof -
  let ?P = "\<lambda>s i. i + length sep \<le> length s \<and> take (length sep) (drop i s) = sep"
  have map: "List.find P (map f xs) = map_option f (List.find (P \<circ> f) xs)"
    for P :: "nat \<Rightarrow> bool" and f :: "nat \<Rightarrow> nat" and xs
    by (induction xs) auto
  have up: "[pos ..< Suc (length s)] = map (\<lambda>i. i + pos) [0 ..< Suc (length (drop pos s))]"
    using assms by (simp add: map_add_upt Suc_diff_le del: upt_Suc)
  have "?P s \<circ> (\<lambda>i. i + pos) = ?P (drop pos s)"
    using assms by (auto simp: fun_eq_iff algebra_simps)
  then show ?thesis unfolding str_find_def up map by (simp del: upt_Suc)
qed

lemma Split_loop_pieces:
  assumes "sep \<noteq> []"
  shows "pos \<le> length s \<Longrightarrow> Split_loop s sep pos res = Some (res @ pieces sep (drop pos s))"
proof (induction "length s - pos" arbitrary: pos res rule: less_induct)
  case less
  show ?case
  proof (cases "str_find sep s pos")
    case None
    then have "str_find sep (drop pos s) 0 = None" using str_find_shift [OF less.prems] by simp
    then show ?thesis
      using None assms by (simp add: Split_loop.simps [of s sep pos] pieces.simps [of sep "drop pos s"])
  next
    case (Some i)
    note f = str_find_SomeD [OF Some]
    obtain j where j: "str_find sep (drop pos s) 0 = Some j" "i = j + pos"
      using Some str_find_shift [OF less.prems] by auto
    have "Split_loop s sep (i + length sep) (if pos < i then res @ [substr s pos (i - pos)] else res) =
        Some ((if pos < i then res @ [substr s pos (i - pos)] else res) @ pieces sep (drop (i + length sep) s))"
      using f assms less.prems by (intro less.hyps) (auto simp: neq_Nil_conv)
    then show ?thesis
      using Some j(1) assms unfolding j(2)
      by (cases "j = 0")
        (simp_all add: Split_loop.simps [of s sep pos] pieces.simps [of sep "drop pos s"] substr_def ac_simps)
  qed
qed

lemma take_one: "take (Suc 0) (drop i s) = [c] \<longleftrightarrow> i < length s \<and> s ! i = c"
proof (cases "i < length s")
  case True
  then have "drop i s = s ! i # drop (Suc i) s" by (simp add: Cons_nth_drop_Suc)
  then show ?thesis using True by simp
qed simp

lemma str_find_char:
  assumes "c \<notin> set w"
  shows "str_find [c] (w @ c # rest) 0 = Some (length w)" "str_find [c] w 0 = None"
proof -
  have "List.find (\<lambda>i. i + length [c] \<le> length (w @ c # rest) \<and>
      take (length [c]) (drop i (w @ c # rest)) = [c]) [0 ..< Suc (length (w @ c # rest))] = Some (length w)"
    unfolding find_Some_iff
    using assms by (intro exI [of _ "length w"]) (auto simp: take_one nth_append simp del: upt_Suc)
  then show "str_find [c] (w @ c # rest) 0 = Some (length w)" by (simp add: str_find_def del: upt_Suc)
  show "str_find [c] w 0 = None"
    using assms by (auto simp: str_find_def find_None_iff take_one simp del: upt_Suc)
qed

lemma pieces_join:
  assumes "c \<notin> set fin" "\<And>w. w \<in> set ws \<Longrightarrow> c \<notin> set w"
  shows "pieces [c] (concat (map (\<lambda>w. w @ [c]) ws) @ fin) = filter (\<lambda>w. w \<noteq> []) (ws @ [fin])"
  using assms(2)
proof (induction ws)
  case Nil
  then show ?case using str_find_char(2) [OF assms(1)] by (simp add: pieces.simps [of "[c]" fin])
next
  case (Cons w ws)
  let ?rest = "concat (map (\<lambda>w. w @ [c]) ws) @ fin"
  have "str_find [c] (w @ c # ?rest) 0 = Some (length w)" using Cons.prems by (intro str_find_char(1)) simp
  then show ?case using Cons by (simp add: pieces.simps [of "[c]" "w @ c # ?rest"])
qed

lemma Split_pieces: "sep \<noteq> [] \<Longrightarrow> Split s sep = Some (pieces sep s)"
  using Split_loop_pieces [of sep 0 s "[]"] by (simp add: Split_def)

section \<open>Properties of splitting\<close>

text \<open>
  Splitting returns for every non-empty separator, and it inverts joining: fields that do not
  contain the separator character, each followed by it and with anything free of it at the end, come
  back in order without the empty ones (the comment's example \<open>#ABC#WWW##XYZ#\<close>).
\<close>

theorem split_inverts_join:
  assumes "list_all (\<lambda>w. c \<notin> set w) (fin # ws)"
  shows "Split (concat (map (\<lambda>w. w @ [c]) ws) @ fin) [c] = Some (filter (\<lambda>w. w \<noteq> []) (ws @ [fin]))"
  using assms by (simp add: Split_pieces pieces_join list_all_iff)

lemma split_inverts_join_witness:
  "Split ''#ABC#WWW##XYZ#'' ''#'' = Some [''ABC'', ''WWW'', ''XYZ'']"
  using split_inverts_join [of "CHR ''#''" "[]" "[[], ''ABC'', ''WWW'', [], ''XYZ'']"] by simp

definition kv_text :: "(string \<times> string) list \<Rightarrow> string" where
  "kv_text kvs = concat (map (\<lambda>w. w @ '';'') (map (\<lambda>(k, v). k @ ''='' @ v) kvs))"

definition kv_plain :: "string \<times> string \<Rightarrow> bool" where
  "kv_plain p \<longleftrightarrow> fst p \<noteq> [] \<and> snd p \<noteq> [] \<and> Trim (fst p) = fst p \<and> Trim (snd p) = snd p \<and>
     CHR '';'' \<notin> set (fst p) \<and> CHR '';'' \<notin> set (snd p) \<and> CHR ''='' \<notin> set (fst p)"

lemma SplitLineToPair_kv:
  assumes "kv_plain (k, v)"
  shows "SplitLineToPair (k @ ''='' @ v) old = (True, k, v)"
  using assms str_find_char(1) [of "CHR ''=''" k v]
  by (auto simp: SplitLineToPair_def kv_plain_def substr_def Let_def)

lemma kv_loop_plain: "list_all kv_plain kvs \<Longrightarrow> kv_loop (map (\<lambda>(k, v). k @ ''='' @ v) kvs) m = m ++ map_of (rev kvs)"
proof (induction kvs arbitrary: m)
  case (Cons p kvs)
  obtain k v where p: "p = (k, v)" using prod.exhaust by blast
  then have "kv_plain (k, v)" using Cons.prems by simp
  from SplitLineToPair_kv [OF this, of "([], [])"] Cons p show ?case
    by (simp add: map_add_def fun_eq_iff split: option.splits)
qed simp

text \<open>
  Parsing the text of a key-value list gives back the list as a map: the last value of a repeated
  key wins, other entries of the map stay, values may contain equals signs.
\<close>

theorem kv_roundtrip:
  assumes "list_all kv_plain kvs"
  shows "SplitStringToKVPair (kv_text kvs) m = Some (m ++ map_of (rev kvs))"
proof -
  let ?ws = "map (\<lambda>(k, v). k @ ''='' @ v) kvs"
  have n: "w \<noteq> [] \<and> CHR '';'' \<notin> set w" if "w \<in> set ?ws" for w
    using that assms by (auto simp: list_all_iff kv_plain_def)
  then have "filter (\<lambda>w. w \<noteq> []) (?ws @ [[]]) = ?ws" by (simp add: filter_id_conv)
  then have "Split (kv_text kvs) '';'' = Some ?ws"
    using pieces_join [of "CHR '';''" "[]" ?ws] n by (simp add: Split_pieces kv_text_def)
  then show ?thesis using kv_loop_plain [OF assms] by (simp add: SplitStringToKVPair_def)
qed

lemma kv_roundtrip_witness:
  "SplitStringToKVPair ''a=1;b=2=3;'' Map.empty = Some (Map.empty ++ map_of (rev [(''a'', ''1''), (''b'', ''2=3'')]))"
  using kv_roundtrip [of "[(''a'', ''1''), (''b'', ''2=3'')]" Map.empty]
  by (simp add: kv_text_def kv_plain_def Trim_def TrimL_def TrimR_def is_space_def)

lemma TrimSpecial_loop_filter:
  "list_all (\<lambda>c. \<not> special c) (take sp str) \<Longrightarrow> TrimSpecial_loop str sp = filter (\<lambda>c. \<not> special c) str"
proof (induction str sp rule: TrimSpecial_loop.induct)
  case (1 str sp)
  show ?case
  proof (cases "sp < length str \<and> (\<exists>ep. List.find (\<lambda>i. special (str ! i)) [sp ..< length str] = Some ep)")
    case True
    then obtain ep where f: "List.find (\<lambda>i. special (str ! i)) [sp ..< length str] = Some ep" by blast
    then have ep: "ep < length str" "sp \<le> ep" "special (str ! ep)" "\<And>i. sp \<le> i \<Longrightarrow> i < ep \<Longrightarrow> \<not> special (str ! i)"
      by (auto simp: find_Some_iff) (metis le_add_diff_inverse less_diff_conv2 add.commute le_Suc_ex nat_add_left_cancel_less)
    have pre: "list_all (\<lambda>c. \<not> special c) (take ep str)"
      using 1(2) ep by (auto simp: list_all_length) (metis leI nth_take)
    have split: "str = take ep str @ str ! ep # drop (Suc ep) str" using ep(1) by (rule id_take_nth_drop)
    have "TrimSpecial_loop str sp = TrimSpecial_loop (take ep str @ drop (Suc ep) str) ep"
      using True f by (simp add: TrimSpecial_loop.simps [of str sp])
    also have "\<dots> = filter (\<lambda>c. \<not> special c) (take ep str @ drop (Suc ep) str)"
      using 1(1) [of ep] True f pre ep(1) by simp
    also have "\<dots> = filter (\<lambda>c. \<not> special c) str"
      using ep(3) by (subst (3) split) simp
    finally show ?thesis .
  next
    case False
    then have none: "List.find (\<lambda>i. special (str ! i)) [sp ..< length str] = None" by (cases "sp < length str") auto
    from False have "TrimSpecial_loop str sp = str"
      by (auto simp: TrimSpecial_loop.simps [of str sp] split: option.split)
    moreover have "\<not> special (str ! i)" if "i < length str" for i
    proof (cases "i < sp")
      case True
      then show ?thesis using 1(2) that by (auto simp: list_all_length)
    next
      case False
      then show ?thesis using none that by (auto simp: find_None_iff)
    qed
    then have "filter (\<lambda>c. \<not> special c) str = str" by (auto simp: filter_id_conv in_set_conv_nth)
    ultimately show ?thesis by simp
  qed
qed

text \<open>
  \<open>TrimSpecialChars\<close> erases in place and resumes where it erased; the result is the input without
  the special characters, the others in their order.
\<close>

theorem trim_special_filters:
  "TrimSpecialChars str = filter (\<lambda>c. \<not> special c) str"
  by (simp add: TrimSpecialChars_def TrimSpecial_loop_filter)

section \<open>Numbers\<close>

lemma digit_char:
  assumes "n < 10"
  shows "is_digit (char_of (48 + n))" "of_char (char_of (48 + n) :: char) = (48 + int n)"
    "of_char (char_of (48 + n) :: char) = 48 + n"
proof -
  have "of_char (char_of (48 + n) :: char) = 48 + n" using assms by (simp add: of_char_of take_bit_eq_mod)
  then show "is_digit (char_of (48 + n))" "of_char (char_of (48 + n) :: char) = 48 + n"
    using assms by (simp_all add: is_digit_def)
  have "(of_char c :: int) = int (of_char c)" for c by (cases c) simp
  then show "of_char (char_of (48 + n) :: char) = (48 + int n)"
    using \<open>of_char (char_of (48 + n) :: char) = 48 + n\<close> by simp
qed

lemma nat_digits_facts:
  "nat_digits n \<noteq> [] \<and> list_all is_digit (nat_digits n) \<and> digits_value (nat_digits n) = int n"
proof (induction n rule: nat_digits.induct)
  case (1 n)
  show ?case
  proof (cases "n < 10")
    case True
    then show ?thesis
      using digit_char [OF True] by (simp add: nat_digits.simps [of n] digits_value_def)
  next
    case False
    have m: "n mod 10 < 10" by simp
    have "int (n div 10) * 10 + int (n mod 10) = int n"
      by (metis div_mult_mod_eq of_nat_add of_nat_mult of_nat_numeral)
    then show ?thesis
      using 1 False digit_char [OF m] by (simp add: nat_digits.simps [of n] digits_value_def)
  qed
qed

lemma digit_not: "is_digit c \<Longrightarrow> \<not> is_space c \<and> c \<noteq> CHR ''-'' \<and> c \<noteq> CHR ''+'' \<and> of_char c \<noteq> (0::nat)"
  by (auto simp: is_digit_def is_space_def)

lemma all_digits: "list_all is_digit d \<Longrightarrow> takeWhile is_digit d = d \<and> dropWhile is_digit d = []"
  by (simp add: list_all_iff takeWhile_eq_all_conv dropWhile_eq_Nil_conv)

lemma parse_digits:
  assumes "d \<noteq> []" "list_all is_digit d"
  shows "parse_number d = Some (digits_value d, [])" "parse_number (CHR ''-'' # d) = Some (- digits_value d, [])"
proof -
  obtain c cs where d: "d = c # cs" using assms(1) by (cases d) auto
  note c = digit_not [of c]
  have 1: "dropWhile is_space d = d" using assms(2) c by (simp add: d)
  have 2: "hd d \<noteq> CHR ''-''" "hd d \<noteq> CHR ''+''" using assms(2) c by (simp_all add: d)
  show "parse_number d = Some (digits_value d, [])"
    using assms(1) by (simp add: parse_number_def Let_def 1 2 all_digits [OF assms(2)])
  show "parse_number (CHR ''-'' # d) = Some (- digits_value d, [])"
    using assms(1) by (simp add: parse_number_def Let_def is_space_def all_digits [OF assms(2)])
qed

lemma parse_to_string: "parse_number (to_string i) = Some (i, [])"
  using nat_digits_facts [of "nat i"] nat_digits_facts [of "nat (- i)"]
  by (simp add: to_string_def parse_digits)

lemma c_str_digits: "list_all is_digit d \<Longrightarrow> c_str d = d"
  using digit_not by (auto simp: c_str_def list_all_iff takeWhile_eq_all_conv)

lemma c_str_to_string [simp]: "c_str (to_string i) = to_string i"
proof (cases "i < 0")
  case True
  have "c_str (CHR ''-'' # d) = CHR ''-'' # c_str d" for d by (simp add: c_str_def)
  then show ?thesis using True nat_digits_facts by (simp add: to_string_def c_str_digits)
next
  case False
  then show ?thesis using nat_digits_facts by (simp add: to_string_def c_str_digits)
qed

lemma to_string_nonempty [simp]: "to_string i \<noteq> []" "[] \<noteq> to_string i"
  using nat_digits_facts [of "nat i"] by (auto simp: to_string_def)

lemma signed_32: "- (2 ^ 31) \<le> i \<Longrightarrow> i < 2 ^ 31 \<Longrightarrow> signed_take_bit 31 i = (i :: int)"
  by (simp add: signed_take_bit_int_eq_self)

text \<open>
  Both number parsers of the code give back every 32-bit integer from its decimal text: \<open>std::stoi\<close>,
  with which source types are read from the control lists, and \<open>StringToInt\<close>.
\<close>

theorem int_text_roundtrip:
  assumes "- (2 ^ 31) \<le> i" "i < 2 ^ 31"
  shows "StringToInt (to_string i) = Some i \<and> stoi (to_string i) = Inr i"
  using assms by (simp add: StringToInt_def strtol_def stoi_def parse_to_string signed_32)

lemma int_text_roundtrip_witness: "StringToInt (to_string (- 7)) = Some (- 7) \<and> stoi (to_string (- 7)) = Inr (- 7)"
  using int_text_roundtrip [of "- 7"] by simp

text \<open>
  The guard of \<open>StringToInt\<close> compares with the limits of \<open>long\<close>: a number between the 32-bit and the
  64-bit range is accepted and truncated.
\<close>

lemma string_to_int_truncates: "StringToInt (to_string (2 ^ 32 + 1)) = Some 1"
  by (simp add: StringToInt_def strtol_def parse_to_string signed_take_bit_int_eq_self_iff)

end
