(* ===== verification/Trigger_Concurrency.thy ===== *)
theory Trigger_Concurrency
  imports Trigger_Helper String_Util
begin

text \<open>
  The part of \<open>trigger_helper.cpp\<close> that lets wake-up run beside a recording application: the
  listener on the audio input pipes with its black and white lists, the table of state transitions,
  the renderer listener, and the call and audio-scene handlers that end in it. The answers of the
  audio framework, the bundle manager and the JSON parser are arguments.
\<close>

section \<open>Data\<close>

datatype CapturerState = CAPTURER_RUNNING | CAPTURER_OTHER int

record CapturerStreamInfo =
  cs_source :: SourceType
  cs_state :: CapturerState
  cs_uid :: int
  cs_mute :: bool
  cs_mixWithWakeUp :: bool

record AudioInputPipeInfo =
  pi_adapter :: int
  pi_routeFlag :: int
  pi_streams :: "CapturerStreamInfo omap"

datatype concurrencyControlList = WHITELIST | BLACKLIST

text \<open>An item of a parsed control list: the bundle name and, if it is an array, the source types, a
  string or something else each.\<close>

type_synonym control_item = "string \<times> string option list option"

text \<open>
  \<open>pe_pipes\<close>: the pipes the audio engine reports, \<open>None\<close> when it cannot be asked. \<open>pe_list\<close>: the stored
  control list, \<open>None\<close> when it is empty or not JSON. \<open>pe_bundle\<close>: \<open>GetBundleName\<close>. \<open>pe_source\<close>: the cast
  of a number to \<open>SourceType\<close>. The remaining fields are constants of the audio framework.
\<close>

record pipe_env =
  pe_pipes :: "AudioInputPipeInfo option list option"
  pe_list :: "concurrencyControlList \<Rightarrow> control_item list option"
  pe_bundle :: "int \<Rightarrow> string"
  pe_source :: "int \<Rightarrow> SourceType"
  HDI_ADAPTER_TYPE_PRIMARY :: int
  AUDIO_FLAG_NONE :: int
  AUDIO_INPUT_FLAG_OFFLOAD :: int
  AUDIO_INPUT_FLAG_WAKEUP :: int

section \<open>Control lists\<close>

definition ClearConcurrentControlList :: "bool \<Rightarrow> bool \<Rightarrow> 'h TriggerHelper \<Rightarrow> 'h TriggerHelper" where
  "ClearConcurrentControlList isWhiteList isBlackList t =
     (if isWhiteList then t\<lparr>th_concurrentWhitelist := [], th_concurrentTypeSet := []\<rparr>
      else if isBlackList then t\<lparr>th_concurrentBlacklist := []\<rparr>
      else t)"

fun ParseSourceTypes_loop ::
  "pipe_env \<Rightarrow> string option list \<Rightarrow> SourceType list \<Rightarrow> SourceType list \<Rightarrow> SourceType list \<times> SourceType list" where
  "ParseSourceTypes_loop P [] out glob = (out, glob)"
| "ParseSourceTypes_loop P (None # srcs) out glob = ParseSourceTypes_loop P srcs out glob"
| "ParseSourceTypes_loop P (Some src # srcs) out glob =
     (case stoi src of
        Inl _ \<Rightarrow> ParseSourceTypes_loop P srcs out glob
      | Inr n \<Rightarrow> ParseSourceTypes_loop P srcs (List.insert (pe_source P n) out)
                  (List.insert (pe_source P n) glob))"

definition ParseSourceTypes ::
  "pipe_env \<Rightarrow> string option list option \<Rightarrow> SourceType list \<Rightarrow> SourceType list \<Rightarrow> SourceType list \<times> SourceType list" where
  "ParseSourceTypes P sources out glob =
     (case sources of None \<Rightarrow> (out, glob) | Some srcs \<Rightarrow> ParseSourceTypes_loop P srcs out glob)"

text \<open>\<open>m[name] = types\<close> on a map that is only searched.\<close>

definition list_put :: "string \<Rightarrow> SourceType list \<Rightarrow> (string \<times> SourceType list) list \<Rightarrow> (string \<times> SourceType list) list" where
  "list_put k v m = (k, v) # filter (\<lambda>p. fst p \<noteq> k) m"

fun load_items ::
  "pipe_env \<Rightarrow> concurrencyControlList \<Rightarrow> control_item list \<Rightarrow> 'h TriggerHelper \<Rightarrow> 'h TriggerHelper" where
  "load_items P L [] t = t"
| "load_items P L ((name, srcs) # items) t =
     load_items P L items
       (case L of
          WHITELIST \<Rightarrow> (case ParseSourceTypes P srcs [] (th_concurrentTypeSet t) of (types, glob) \<Rightarrow>
            t\<lparr>th_concurrentTypeSet := glob,
              th_concurrentWhitelist := list_put name types (th_concurrentWhitelist t)\<rparr>)
        | BLACKLIST \<Rightarrow> (case ParseSourceTypes P srcs [] [] of (types, glob) \<Rightarrow>
            t\<lparr>th_concurrentBlacklist := list_put name types (th_concurrentBlacklist t)\<rparr>))"

definition SetConcurrencyControlList ::
  "pipe_env \<Rightarrow> concurrencyControlList \<Rightarrow> 'h TriggerHelper \<Rightarrow> 'h TriggerHelper" where
  "SetConcurrencyControlList P L t =
     (let t1 = (case L of
                  WHITELIST \<Rightarrow> t\<lparr>th_concurrentWhitelist := [], th_concurrentTypeSet := []\<rparr>
                | BLACKLIST \<Rightarrow> t\<lparr>th_concurrentBlacklist := []\<rparr>)
      in (case pe_list P L of None \<Rightarrow> t1 | Some items \<Rightarrow> load_items P L items t1))"

section \<open>Checks of the input pipe listener\<close>

definition CheckCallConflict :: "'h TriggerHelper \<Rightarrow> bool" where
  "CheckCallConflict t =
     (if \<not> th_mVoipConcurrency t \<and> th_callActive t then True
      else if th_mVoipConcurrency t \<and> \<not> th_mCallConcurrency t \<and>
         th_audioScene t \<noteq> AUDIO_SCENE_DEFAULT \<and> th_audioScene t \<noteq> AUDIO_SCENE_PHONE_CHAT \<and>
         th_audioScene t \<noteq> AUDIO_SCENE_RINGING then True
      else if th_mVoipConcurrency t \<and> th_mCallConcurrency t \<and>
         th_audioScene t \<noteq> AUDIO_SCENE_DEFAULT \<and> th_audioScene t \<noteq> AUDIO_SCENE_PHONE_CHAT \<and>
         th_audioScene t \<noteq> AUDIO_SCENE_PHONE_CALL \<and> th_audioScene t \<noteq> AUDIO_SCENE_RINGING then True
      else False)"

definition CheckCallOnly :: "'h TriggerHelper \<Rightarrow> bool" where
  "CheckCallOnly t =
     (if \<not> th_mCallConcurrency t then False
      else th_audioScene t = AUDIO_SCENE_PHONE_CALL \<and> th_hasStreamBesidesVoice t)"

definition CheckBlacklistConflict ::
  "pipe_env \<Rightarrow> string \<Rightarrow> CapturerStreamInfo \<Rightarrow> 'h TriggerHelper \<Rightarrow> bool \<times> 'h TriggerHelper" where
  "CheckBlacklistConflict P bundleName s t =
     (if \<not> th_mExtensionConcurrency t then (False, t)
      else let t1 = (if th_concurrentBlacklist t = [] then SetConcurrencyControlList P BLACKLIST t else t) in
        (case map_of (th_concurrentBlacklist t1) bundleName of
           Some types \<Rightarrow> (cs_source s \<in> set types \<and> cs_state s = CAPTURER_RUNNING, t1)
         | None \<Rightarrow> (False, t1)))"

definition CheckInWhitelist ::
  "pipe_env \<Rightarrow> string \<Rightarrow> CapturerStreamInfo \<Rightarrow> 'h TriggerHelper \<Rightarrow> bool \<times> 'h TriggerHelper" where
  "CheckInWhitelist P bundleName s t =
     (let t1 = (if th_concurrentTypeSet t = [] \<or> th_concurrentWhitelist t = []
                then SetConcurrencyControlList P WHITELIST t else t) in
      if cs_source s \<notin> set (th_concurrentTypeSet t1) then (False, t1)
      else (case map_of (th_concurrentWhitelist t1) bundleName of
          Some types \<Rightarrow> (cs_source s \<in> set types, t1)
        | None \<Rightarrow> (False, t1)))"

definition CheckSourceWhisperEnable :: "CapturerStreamInfo \<Rightarrow> 'h TriggerHelper \<Rightarrow> bool" where
  "CheckSourceWhisperEnable s t =
     (if cs_state s \<noteq> CAPTURER_RUNNING \<or> cs_mute s \<or> cs_source s = SOURCE_TYPE_ULTRASONIC then True
      else th_mCameraConcurrency t \<and> cs_source s = SOURCE_TYPE_UNPROCESSED \<and> cs_mixWithWakeUp s)"

definition CheckSourceConcurrency :: "CapturerStreamInfo \<Rightarrow> 'h TriggerHelper \<Rightarrow> bool" where
  "CheckSourceConcurrency s t =
     (if cs_state s \<noteq> CAPTURER_RUNNING \<or> cs_mute s \<or> cs_source s = SOURCE_TYPE_ULTRASONIC then True
      else if th_mExtensionConcurrency t \<and> cs_source s \<in> set (th_ExtensionConcurrentTypeSet t) then True
      else th_mCameraConcurrency t \<and> cs_source s = SOURCE_TYPE_UNPROCESSED \<and> cs_mixWithWakeUp s)"

definition CheckVoipOnly :: "CapturerStreamInfo \<Rightarrow> 'h TriggerHelper \<Rightarrow> bool" where
  "CheckVoipOnly s t =
     (if \<not> th_mVoipConcurrency t then False
      else cs_state s = CAPTURER_RUNNING \<and> cs_source s = SOURCE_TYPE_VOICE_COMMUNICATION \<and>
           th_hasStreamBesidesVoip t)"

fun GetConcurrentState_loop ::
  "pipe_env \<Rightarrow> CapturerStreamInfo list \<Rightarrow> 'h TriggerHelper \<Rightarrow> bool \<times> 'h TriggerHelper" where
  "GetConcurrentState_loop P [] t = (True, t)"
| "GetConcurrentState_loop P (s # ss) t =
     (let bundleName = (if pe_bundle P (cs_uid s) = [] then ''ERROR! CANT GET BUNDLENAME''
                        else pe_bundle P (cs_uid s)) in
      case CheckBlacklistConflict P bundleName s t of (black, t1) \<Rightarrow>
        if black then (False, t1)
        else if CheckVoipOnly s t1 then (False, t1)
        else if CheckSourceConcurrency s t1 then GetConcurrentState_loop P ss t1
        else if th_mExtensionConcurrency t1 then (False, t1)
        else (case CheckInWhitelist P bundleName s t1 of (white, t2) \<Rightarrow>
          if white then GetConcurrentState_loop P ss t2 else (False, t2)))"

definition pipe_streams :: "CapturerStreamInfo omap omap \<Rightarrow> CapturerStreamInfo list" where
  "pipe_streams m = concat (map (\<lambda>(_, streams). map snd streams) m)"

definition GetConcurrentState ::
  "pipe_env \<Rightarrow> CapturerStreamInfo omap omap \<Rightarrow> 'h TriggerHelper \<Rightarrow> bool \<times> 'h TriggerHelper" where
  "GetConcurrentState P m t =
     (if CheckCallConflict t then (False, t)
      else if CheckCallOnly t then (False, t)
      else GetConcurrentState_loop P (pipe_streams m) t)"

fun GetWhisperEnable_loop ::
  "pipe_env \<Rightarrow> CapturerStreamInfo list \<Rightarrow> 'h TriggerHelper \<Rightarrow> bool \<times> 'h TriggerHelper" where
  "GetWhisperEnable_loop P [] t = (True, t)"
| "GetWhisperEnable_loop P (s # ss) t =
     (case CheckInWhitelist P (pe_bundle P (cs_uid s)) s t of (white, t1) \<Rightarrow>
        if white then GetWhisperEnable_loop P ss t1
        else if CheckSourceWhisperEnable s t1 then GetWhisperEnable_loop P ss t1
        else (False, t1))"

definition GetWhisperEnable ::
  "pipe_env \<Rightarrow> CapturerStreamInfo omap omap \<Rightarrow> 'h TriggerHelper \<Rightarrow> bool \<times> 'h TriggerHelper" where
  "GetWhisperEnable P m t = GetWhisperEnable_loop P (pipe_streams m) t"

definition invalid_pipe :: "pipe_env \<Rightarrow> AudioInputPipeInfo \<Rightarrow> bool" where
  "invalid_pipe P p =
     (pi_adapter p \<noteq> HDI_ADAPTER_TYPE_PRIMARY P \<or> pi_routeFlag p = AUDIO_FLAG_NONE P \<or>
      pi_routeFlag p = AUDIO_INPUT_FLAG_OFFLOAD P \<or> pi_routeFlag p = AUDIO_INPUT_FLAG_WAKEUP P)"

fun GetPipeInfo_loop ::
  "pipe_env \<Rightarrow> AudioInputPipeInfo option list \<Rightarrow> CapturerStreamInfo omap omap \<Rightarrow> CapturerStreamInfo omap omap" where
  "GetPipeInfo_loop P [] m = m"
| "GetPipeInfo_loop P (None # ps) m = GetPipeInfo_loop P ps m"
| "GetPipeInfo_loop P (Some p # ps) m =
     (if invalid_pipe P p then GetPipeInfo_loop P ps m
      else GetPipeInfo_loop P ps (om_put (pi_routeFlag p) (pi_streams p) m))"

definition GetPipeInfo :: "pipe_env \<Rightarrow> CapturerStreamInfo omap omap" where
  "GetPipeInfo P = (case pe_pipes P of None \<Rightarrow> [] | Some v \<Rightarrow> GetPipeInfo_loop P v [])"

section \<open>State transitions\<close>

datatype captureMethod = SAME_STATE | DO_CONCURRENT_CLOSE_SOURCE | DO_CONCURRENT_OPEN_SOURCE
  | DO_NO_CONCURRENT_STOP_SOURCE | DO_NO_CONCURRENT_OPEN_SOURCE
  | DO_CONCURRENT_STOP_AND_NO_CONCURRENT_OPEN_SOURCE
  | DO_NO_CONCURRENT_STOP_AND_CONCURRENT_OPEN_SOURCE

definition stateToInt :: "bool \<Rightarrow> bool \<Rightarrow> nat" where
  "stateToInt concurrentState sourceState =
     (if concurrentState then 2 else 0) + (if sourceState then 1 else 0)"

definition methodTable :: "captureMethod list list" where
  "methodTable =
     [[SAME_STATE, DO_NO_CONCURRENT_OPEN_SOURCE, DO_NO_CONCURRENT_STOP_SOURCE,
       DO_NO_CONCURRENT_STOP_AND_CONCURRENT_OPEN_SOURCE],
      [DO_NO_CONCURRENT_STOP_SOURCE, SAME_STATE, DO_NO_CONCURRENT_STOP_SOURCE,
       DO_NO_CONCURRENT_STOP_AND_CONCURRENT_OPEN_SOURCE],
      [DO_NO_CONCURRENT_OPEN_SOURCE, DO_NO_CONCURRENT_OPEN_SOURCE, SAME_STATE,
       DO_CONCURRENT_OPEN_SOURCE],
      [DO_CONCURRENT_STOP_AND_NO_CONCURRENT_OPEN_SOURCE,
       DO_CONCURRENT_STOP_AND_NO_CONCURRENT_OPEN_SOURCE, DO_CONCURRENT_CLOSE_SOURCE, SAME_STATE]]"

definition pipe_param :: "'h trigger_env \<Rightarrow> string \<Rightarrow> 'h TriggerHelper \<Rightarrow> 'h TriggerHelper" where
  "pipe_param E val t = snd (SetParameterForInputPipe E ''concurrent_capture'' val t)"

definition start_key :: "'h TriggerHelper \<Rightarrow> string" where
  "start_key t =
     (if th_mExtensionConcurrency t
      then (if th_whitelistWhisperEnbale t then ''start_withwhisper'' else ''start_nowhisper'')
      else ''start'')"

text \<open>\<open>modelData\<close> is the key of the entry, \<open>None\<close> for the null pointer.\<close>

definition ExecuteStateTransition ::
  "'h trigger_env \<Rightarrow> nat \<Rightarrow> nat \<Rightarrow> int option \<Rightarrow> 'h TriggerHelper \<Rightarrow> 'h TriggerHelper" where
  "ExecuteStateTransition E oldState newState modelData t =
     (case methodTable ! oldState ! newState of
        SAME_STATE \<Rightarrow>
          if th_mExtensionConcurrency t
          then pipe_param E (if th_whitelistWhisperEnbale t then ''enablewhisper'' else ''disablewhisper'') t
          else t
      | DO_CONCURRENT_CLOSE_SOURCE \<Rightarrow> pipe_param E ''stop'' t
      | DO_CONCURRENT_OPEN_SOURCE \<Rightarrow> pipe_param E (start_key t) t
      | DO_NO_CONCURRENT_STOP_SOURCE \<Rightarrow> OnUpdateAllRecognitionState E t
      | DO_NO_CONCURRENT_OPEN_SOURCE \<Rightarrow> OnUpdateAllRecognitionState E t
      | DO_CONCURRENT_STOP_AND_NO_CONCURRENT_OPEN_SOURCE \<Rightarrow>
          OnUpdateAllRecognitionState E (pipe_param E ''stop'' t)
      | DO_NO_CONCURRENT_STOP_AND_CONCURRENT_OPEN_SOURCE \<Rightarrow>
          (let t1 = (case modelData of
               None \<Rightarrow> t
             | Some k \<Rightarrow> (case GetTriggerModelData k t of
                 None \<Rightarrow> t
               | Some x \<Rightarrow> if md_state x \<noteq> MODEL_STARTED then snd (StartRecognition E k t) else t))
           in pipe_param E (start_key t1) t1))"

fun Execute_loop :: "'h trigger_env \<Rightarrow> nat \<Rightarrow> nat \<Rightarrow> int list \<Rightarrow> 'h TriggerHelper \<Rightarrow> 'h TriggerHelper" where
  "Execute_loop E oldState newState [] t = t"
| "Execute_loop E oldState newState (k # ks) t =
     Execute_loop E oldState newState ks (ExecuteStateTransition E oldState newState (Some k) t)"

definition source_running :: "CapturerStreamInfo omap omap \<Rightarrow> 'h TriggerHelper \<Rightarrow> bool" where
  "source_running m t =
     ((th_mCallConcurrency t \<and> th_audioScene t = AUDIO_SCENE_PHONE_CALL) \<or>
      (\<exists>s\<in>set (pipe_streams m). cs_state s = CAPTURER_RUNNING))"

definition first_proc :: "'h trigger_env \<Rightarrow> 'h TriggerHelper \<Rightarrow> 'h TriggerHelper" where
  "first_proc E t = (if th_mFirstProc t then (pipe_param E ''stop'' t)\<lparr>th_mFirstProc := False\<rparr> else t)"

definition OnInputPipeChange :: "'h trigger_env \<Rightarrow> pipe_env \<Rightarrow> 'h TriggerHelper \<Rightarrow> 'h TriggerHelper" where
  "OnInputPipeChange E P t =
     (let t0 = first_proc E t;
          m = GetPipeInfo P;
          isSourceRunning = source_running m t0
      in case GetConcurrentState P m t0 of (isConcurrent, t1) \<Rightarrow>
         (case (if th_mExtensionConcurrency t1 then GetWhisperEnable P m t1 else (True, t1)) of
            (whisper, t2) \<Rightarrow>
            let oldState = stateToInt (th_audioConcurrentCapture t2) (th_audioCaptureActive t2);
                newState = stateToInt isConcurrent isSourceRunning
            in if isConcurrent = th_audioConcurrentCapture t2 \<and> isSourceRunning = th_audioCaptureActive t2 \<and>
                  (\<not> th_mExtensionConcurrency t2 \<or> whisper = th_whitelistWhisperEnbale t2)
               then t2
               else let t3 = t2\<lparr>th_audioConcurrentCapture := isConcurrent,
                               th_audioCaptureActive := isSourceRunning,
                               th_whitelistWhisperEnbale := whisper\<rparr>
                    in if th_modelDataMap t3 = []
                       then ExecuteStateTransition E oldState newState None t3
                       else Execute_loop E oldState newState (om_keys (th_modelDataMap t3)) t3))"

section \<open>Handlers that end in the listener\<close>

definition OnCallStateUpdated ::
  "'h trigger_env \<Rightarrow> pipe_env \<Rightarrow> tel_call_state \<Rightarrow> int \<Rightarrow> 'h TriggerHelper \<Rightarrow> 'h TriggerHelper" where
  "OnCallStateUpdated E P T callState t =
     (case call_update E T callState t of
        (False, t1) \<Rightarrow> t1
      | (True, t1) \<Rightarrow>
          if \<not> env_concurrent E then t1
          else if \<not> th_audioInputPipeCallback t1 then t1
          else if th_mVoipConcurrency t1 then t1
          else OnInputPipeChange E P t1)"

text \<open>The listener is called through \<open>audioInputPipeCallback_\<close> without a check.\<close>

definition notify_pipe :: "'h trigger_env \<Rightarrow> pipe_env \<Rightarrow> 'h TriggerHelper \<Rightarrow> 'h TriggerHelper outcome" where
  "notify_pipe E P t =
     (if env_concurrent E \<and> th_mVoipConcurrency t
      then (if th_audioInputPipeCallback t then Ret (OnInputPipeChange E P t) else Crash NullDeref)
      else Ret t)"

definition OnAudioSceneChange ::
  "'h trigger_env \<Rightarrow> pipe_env \<Rightarrow> AudioScene \<Rightarrow> 'h TriggerHelper \<Rightarrow> 'h TriggerHelper outcome" where
  "OnAudioSceneChange E P audioScene t =
     (case scene_update E audioScene t of
        (False, t1) \<Rightarrow> Ret t1
      | (True, t1) \<Rightarrow> notify_pipe E P t1)"

text \<open>Abilities of the device: the fields say which \<open>GetSupportAbility\<close> queries succeed.\<close>

record abilities =
  camera_concurrency :: bool
  extension_concurrency :: bool
  voip_concurrency :: bool
  call_concurrency :: bool

definition set_abilities :: "abilities \<Rightarrow> 'h TriggerHelper \<Rightarrow> 'h TriggerHelper" where
  "set_abilities A t =
     (let t1 = (if camera_concurrency A then t\<lparr>th_mCameraConcurrency := True\<rparr> else t);
          t2 = (if extension_concurrency A then t1\<lparr>th_mExtensionConcurrency := True\<rparr> else t1);
          t3 = (if voip_concurrency A then t2\<lparr>th_mVoipConcurrency := False\<rparr> else t2)
      in if call_concurrency A
         then t3\<lparr>th_mCallConcurrency := True,
                 th_ExtensionConcurrentTypeSet :=
                   List.insert SOURCE_TYPE_VOICE_CALL (th_ExtensionConcurrentTypeSet t3)\<rparr>
         else t3)"

definition AttachAudioEngineListener ::
  "'h trigger_env \<Rightarrow> pipe_env \<Rightarrow> abilities \<Rightarrow> bool \<Rightarrow> 'h TriggerHelper \<Rightarrow> 'h TriggerHelper" where
  "AttachAudioEngineListener E P A registered t =
     (if th_isCapturerDetached t then t
      else let t1 = t\<lparr>th_audioInputPipeCallback := True\<rparr> in
        if \<not> registered then t1
        else OnInputPipeChange E P ((set_abilities A t1)\<lparr>th_mFirstProc := True\<rparr>))"

definition DetachAudioEngineListener :: "'h TriggerHelper \<Rightarrow> 'h TriggerHelper" where
  "DetachAudioEngineListener t = t\<lparr>th_isCapturerDetached := True\<rparr>"

section \<open>Renderer listener\<close>

record renderer_consts =
  STREAM_USAGE_VOICE_COMMUNICATION :: int
  STREAM_USAGE_VIDEO_COMMUNICATION :: int
  STREAM_USAGE_VOICE_MODEM_COMMUNICATION :: int

text \<open>A renderer of the change list: its stream usage and whether it is running; \<open>None\<close> is a null pointer.\<close>

fun renderer_scan ::
  "renderer_consts \<Rightarrow> (int \<times> bool) option list \<Rightarrow> bool omap \<Rightarrow> 'h TriggerHelper \<Rightarrow> bool omap \<times> 'h TriggerHelper" where
  "renderer_scan C [] stateMap t = (stateMap, t)"
| "renderer_scan C (None # infos) stateMap t = renderer_scan C infos stateMap t"
| "renderer_scan C (Some (usage, running) # infos) stateMap t =
     (let t1 = (if running \<and> usage \<noteq> STREAM_USAGE_VOICE_COMMUNICATION C \<and>
                   usage \<noteq> STREAM_USAGE_VIDEO_COMMUNICATION C
                then t\<lparr>th_hasStreamBesidesVoip := True\<rparr> else t);
          t2 = (if running \<and> usage \<noteq> STREAM_USAGE_VOICE_MODEM_COMMUNICATION C
                then t1\<lparr>th_hasStreamBesidesVoice := True\<rparr> else t1)
      in renderer_scan C infos
           (case om_find usage stateMap of
              None \<Rightarrow> om_put usage running stateMap
            | Some b \<Rightarrow> if \<not> b then om_put usage running stateMap else stateMap) t2)"

fun renderer_notify :: "'h trigger_env \<Rightarrow> bool omap \<Rightarrow> 'h TriggerHelper \<Rightarrow> 'h TriggerHelper" where
  "renderer_notify E [] t = t"
| "renderer_notify E ((usage, playing) # m) t =
     (if om_find usage (th_rendererStateMap t) = Some playing then renderer_notify E m t
      else renderer_notify E m
             (snd (SetParameter E (if playing then ''start_stream'' else ''stop_stream'') (to_string usage)
               (t\<lparr>th_rendererStateMap := om_put usage playing (th_rendererStateMap t)\<rparr>))))"

definition OnRendererStateChange ::
  "'h trigger_env \<Rightarrow> pipe_env \<Rightarrow> renderer_consts \<Rightarrow> (int \<times> bool) option list \<Rightarrow> 'h TriggerHelper \<Rightarrow>
     'h TriggerHelper outcome" where
  "OnRendererStateChange E P C infos t =
     (case renderer_scan C infos [] (t\<lparr>th_hasStreamBesidesVoip := False, th_hasStreamBesidesVoice := False\<rparr>) of
        (stateMap, t1) \<Rightarrow> notify_pipe E P (renderer_notify E stateMap t1))"

end
