(* ===== verification/Trigger_Fan.thy ===== *)
theory Trigger_Fan
  imports Trigger_Helper
begin

text \<open>
  The fan-state listener of \<open>trigger_helper.cpp\<close> (\<open>SUPPORT_FAN_STATUS_LISTEN\<close>): the byte buffer of the
  performance service is an array of packed \<open>FanStatus\<close> records, read in the byte order of the target
  (little endian). The answers of the dynamically loaded client library are arguments.
\<close>

definition FAN_RES_ID :: "32 word" where
  "FAN_RES_ID = 4214"

definition PERF_REPORT_LEN_MAX :: nat where
  "PERF_REPORT_LEN_MAX = 512"

definition DATA_TYPE_POWER :: "32 word" where
  "DATA_TYPE_POWER = 19"

definition DATA_TYPE_POWER_VAL_ON :: "32 word" where
  "DATA_TYPE_POWER_VAL_ON = 1"

record FanStatus =
  fs_type :: "32 word"
  fs_data :: "32 word"

definition sizeof_FanStatus :: nat where
  "sizeof_FanStatus = 8"

text \<open>A 32-bit field at a byte offset.\<close>

definition read32 :: "8 word list \<Rightarrow> nat \<Rightarrow> 32 word" where
  "read32 b i =
     of_nat (unat (b ! i) + 2 ^ 8 * unat (b ! (i + 1)) + 2 ^ 16 * unat (b ! (i + 2)) + 2 ^ 24 * unat (b ! (i + 3)))"

definition fan_entry :: "8 word list \<Rightarrow> nat \<Rightarrow> FanStatus" where
  "fan_entry b i = \<lparr>fs_type = read32 b (i * sizeof_FanStatus), fs_data = read32 b (i * sizeof_FanStatus + 4)\<rparr>"

text \<open>The loop with \<open>power_val\<close>: -1 when no record has the type.\<close>

fun fan_scan :: "8 word list \<Rightarrow> nat list \<Rightarrow> 32 word" where
  "fan_scan b [] = -1"
| "fan_scan b (i # is) =
     (if fs_type (fan_entry b i) = DATA_TYPE_POWER then fs_data (fan_entry b i) else fan_scan b is)"

definition HandleFanStateChanged ::
  "'h trigger_env \<Rightarrow> 8 word list option \<Rightarrow> 'h TriggerHelper \<Rightarrow> 'h TriggerHelper" where
  "HandleFanStateChanged E buffer t =
     (case buffer of
        None \<Rightarrow> t
      | Some b \<Rightarrow>
          if length b = 0 then t
          else if PERF_REPORT_LEN_MAX < length b then t
          else if length b mod sizeof_FanStatus \<noteq> 0 then t
          else let power_val = fan_scan b [0 ..< length b div sizeof_FanStatus];
                   curFanRunning = (power_val = DATA_TYPE_POWER_VAL_ON)
               in if th_fanRunning t = curFanRunning then t
                  else (case GetModule E (t\<lparr>th_fanRunning := curFanRunning\<rparr>) of
                      (False, t1) \<Rightarrow> t1
                    | (True, t1) \<Rightarrow> snd (module_SetParams E ''fan_status_change''
                                      (if curFanRunning then ''start'' else ''stop'') t1)))"

definition OnFanStateChanged ::
  "'h trigger_env \<Rightarrow> 8 word list option \<Rightarrow> 'h TriggerHelper \<Rightarrow> int \<times> 'h TriggerHelper" where
  "OnFanStateChanged E buffer t =
     (if \<not> th_fanInstance t then (-1, t) else (0, HandleFanStateChanged E buffer t))"

definition SyncFanState :: "'h trigger_env \<Rightarrow> 'h TriggerHelper \<Rightarrow> 'h TriggerHelper" where
  "SyncFanState E t =
     (if \<not> th_fanRunning t then t
      else (case GetModule E t of
          (False, t1) \<Rightarrow> t1
        | (True, t1) \<Rightarrow> snd (module_SetParams E ''fan_status_change'' ''start'' t1)))"

text \<open>
  \<open>perfgenius\<close>: does the library load, does it export the two functions, the answers of up to three
  registration attempts, and the reports that arrive while the initial report is requested.
\<close>

record perfgenius =
  pg_dlopen :: bool
  pg_register :: bool
  pg_register_ret :: "nat \<Rightarrow> int"
  pg_command :: bool
  pg_reports :: "8 word list option list"

definition registered_within :: "nat \<Rightarrow> perfgenius \<Rightarrow> bool" where
  "registered_within n G = list_ex (\<lambda>i. pg_register_ret G i = 0) [0 ..< n]"

definition AttachFanStateListener ::
  "'h trigger_env \<Rightarrow> bool \<Rightarrow> perfgenius \<Rightarrow> 'h TriggerHelper \<Rightarrow> 'h TriggerHelper" where
  "AttachFanStateListener E supported G t =
     (if \<not> supported then t
      else if th_isFanListenerDetached t then t
      else if \<not> th_perfGeniusHandle t \<and> \<not> pg_dlopen G then t
      else if \<not> pg_register G then t\<lparr>th_perfGeniusHandle := False\<rparr>
      else if \<not> registered_within 3 G then t\<lparr>th_perfGeniusHandle := False\<rparr>
      else let t1 = t\<lparr>th_perfGeniusHandle := True, th_fanInstance := True\<rparr>;
               t2 = (if pg_command G then fold (\<lambda>b t. snd (OnFanStateChanged E b t)) (pg_reports G) t1 else t1)
           in SyncFanState E t2)"

definition DetachFanStateListener :: "bool \<Rightarrow> 'h TriggerHelper \<Rightarrow> 'h TriggerHelper" where
  "DetachFanStateListener supported t =
     (if \<not> supported then t
      else let t1 = t\<lparr>th_isFanListenerDetached := True\<rparr> in
        if \<not> th_perfGeniusHandle t1 then t1
        else t1\<lparr>th_fanInstance := False, th_perfGeniusHandle := False\<rparr>)"

section \<open>Encoding\<close>

text \<open>The layout the service writes.\<close>

definition word_bytes :: "32 word \<Rightarrow> 8 word list" where
  "word_bytes w = [of_nat (unat w), of_nat (unat w div 2 ^ 8), of_nat (unat w div 2 ^ 16), of_nat (unat w div 2 ^ 24)]"

definition fan_bytes :: "FanStatus list \<Rightarrow> 8 word list" where
  "fan_bytes xs = concat (map (\<lambda>x. word_bytes (fs_type x) @ word_bytes (fs_data x)) xs)"

lemma length_word_bytes [simp]: "length (word_bytes w) = 4"
  by (simp add: word_bytes_def)

lemma length_fan_bytes [simp]: "length (fan_bytes xs) = 8 * length xs"
  by (induction xs) (auto simp: fan_bytes_def)

lemma bytes_sum:
  fixes n :: nat
  assumes "n < 2 ^ 32"
  shows "n mod 2 ^ 8 + 2 ^ 8 * (n div 2 ^ 8 mod 2 ^ 8) + 2 ^ 16 * (n div 2 ^ 16 mod 2 ^ 8) +
    2 ^ 24 * (n div 2 ^ 24 mod 2 ^ 8) = n"
  using mod_mult2_eq [of n "2 ^ 8" "2 ^ 8"] mod_mult2_eq [of n "2 ^ 16" "2 ^ 8"]
    mod_mult2_eq [of n "2 ^ 24" "2 ^ 8"] assms
  by simp

lemma unat_byte: "unat (of_nat k :: 8 word) = k mod 2 ^ 8"
  by (simp add: unsigned_of_nat take_bit_eq_mod)

lemma unat_word_bytes:
  "unat (word_bytes w ! 0) = unat w mod 2 ^ 8" "unat (word_bytes w ! 1) = unat w div 2 ^ 8 mod 2 ^ 8"
  "unat (word_bytes w ! 2) = unat w div 2 ^ 16 mod 2 ^ 8" "unat (word_bytes w ! 3) = unat w div 2 ^ 24 mod 2 ^ 8"
  using unat_byte [of "unat w"] unat_byte [of "unat w div 2 ^ 8"] unat_byte [of "unat w div 2 ^ 16"]
    unat_byte [of "unat w div 2 ^ 24"]
  by (simp_all add: word_bytes_def)

lemma read32_word_bytes: "read32 (pre @ word_bytes w @ suf) (length pre) = w"
proof -
  let ?b = "pre @ word_bytes w @ suf" and ?i = "length pre"
  have nth: "?b ! (?i + j) = word_bytes w ! j" if "j < 4" for j
    using that by (simp add: nth_append)
  have "unat w < 2 ^ 32" using unsigned_less [of w] by simp
  then have "unat (?b ! ?i) + 2 ^ 8 * unat (?b ! (?i + 1)) + 2 ^ 16 * unat (?b ! (?i + 2)) +
      2 ^ 24 * unat (?b ! (?i + 3)) = unat w"
    using bytes_sum [of "unat w"] nth [of 0] nth [of 1] nth [of 2] nth [of 3]
    by (simp only: unat_word_bytes) (simp only: add_0_right unat_word_bytes numeral_less_iff
        one_less_numeral_iff zero_less_numeral num.simps less_num_simps simp_thms)
  then show ?thesis
    unfolding read32_def by (simp only: of_nat_unat ucast_id)
qed

lemma fan_entry_append:
  "fan_entry (pre @ suf) (length pre div 8 + i) = fan_entry suf i" if "8 dvd length pre"
proof -
  have "(length pre div 8 + i) * 8 = length pre + i * 8" using that by (simp add: algebra_simps)
  then show ?thesis
    by (simp add: fan_entry_def read32_def sizeof_FanStatus_def nth_append algebra_simps)
qed

lemma fan_entry_hd: "fan_entry (fan_bytes (x # xs)) 0 = x"
proof -
  have "fan_bytes (x # xs) = [] @ word_bytes (fs_type x) @ word_bytes (fs_data x) @ fan_bytes xs"
    by (simp add: fan_bytes_def)
  moreover have "\<dots> = word_bytes (fs_type x) @ word_bytes (fs_data x) @ fan_bytes xs" by simp
  ultimately show ?thesis
    using read32_word_bytes [of "[]" "fs_type x" "word_bytes (fs_data x) @ fan_bytes xs"]
      read32_word_bytes [of "word_bytes (fs_type x)" "fs_data x" "fan_bytes xs"]
    by (simp add: fan_entry_def)
qed

definition power_of :: "FanStatus list \<Rightarrow> 32 word" where
  "power_of xs = (case find (\<lambda>x. fs_type x = DATA_TYPE_POWER) xs of None \<Rightarrow> -1 | Some x \<Rightarrow> fs_data x)"

lemma fan_scan_tail: "fan_scan (fan_bytes (x # xs)) (map Suc is) = fan_scan (fan_bytes xs) is"
proof (induction "is")
  case (Cons i "is")
  have "fan_entry (fan_bytes (x # xs)) (Suc i) = fan_entry (fan_bytes xs) i"
    using fan_entry_append [of "fan_bytes [x]" "fan_bytes xs" i] by (simp add: fan_bytes_def)
  with Cons show ?case by simp
qed simp

lemma fan_scan_bytes: "fan_scan (fan_bytes xs) [0 ..< length xs] = power_of xs"
proof (induction xs)
  case (Cons x xs)
  have "[0 ..< length (x # xs)] = 0 # map Suc [0 ..< length xs]"
    by (simp add: upt_conv_Cons map_Suc_upt del: upt_Suc)
  then show ?case
    using Cons by (simp only: fan_scan.simps fan_entry_hd fan_scan_tail) (simp add: power_of_def)
qed (simp add: power_of_def)

section \<open>Properties\<close>

lemma GetModule_fan: "th_fanRunning (snd (GetModule E t)) = th_fanRunning t"
  by (auto simp: GetModule_def split: prod.splits bool.splits)

lemma module_SetParams_fan: "th_fanRunning (snd (module_SetParams E k v t)) = th_fanRunning t"
  by (auto simp: module_SetParams_def split: prod.splits)

text \<open>
  For every list of at most 64 fan records, decoding the packed buffer gives back what was
  encoded: afterwards the fan counts as running exactly when the first power record says so, and
  when that is no change the helper and the driver are left alone.
\<close>

theorem fan_report_decoded:
  assumes "0 < length xs" "length xs \<le> 64"
  shows "th_fanRunning (HandleFanStateChanged E (Some (fan_bytes xs)) t) = (power_of xs = 1) \<and>
         (th_fanRunning t = (power_of xs = 1) \<longrightarrow> HandleFanStateChanged E (Some (fan_bytes xs)) t = t)"
proof -
  have scan: "fan_scan (fan_bytes xs) [0 ..< length (fan_bytes xs) div sizeof_FanStatus] = power_of xs"
    using fan_scan_bytes [of xs] by (simp add: sizeof_FanStatus_def)
  have len: "length (fan_bytes xs) \<noteq> 0" "\<not> PERF_REPORT_LEN_MAX < length (fan_bytes xs)"
    "length (fan_bytes xs) mod sizeof_FanStatus = 0"
    using assms by (simp_all add: PERF_REPORT_LEN_MAX_def sizeof_FanStatus_def)
  show ?thesis
    using len GetModule_fan [of E "t\<lparr>th_fanRunning := (power_of xs = 1)\<rparr>"]
    by (auto simp: HandleFanStateChanged_def scan Let_def DATA_TYPE_POWER_VAL_ON_def module_SetParams_fan
        simp del: length_fan_bytes split: prod.splits bool.splits)
qed

definition demo_env :: "nat trigger_env" where
  "demo_env = \<lparr>env_hal = demo_hal, env_dev = \<lparr>wd_open = \<lambda>_. True, wd_ioctl = \<lambda>_ _. True\<rparr>,
     env_concurrent = False, env_window = False, env_only_first = False, env_modules = True,
     env_ReadFile = \<lambda>_. None, env_country = []\<rparr>"

lemma fan_report_decoded_witness:
  "th_fanRunning (HandleFanStateChanged demo_env
     (Some (fan_bytes [\<lparr>fs_type = 7, fs_data = 9\<rparr>, \<lparr>fs_type = 19, fs_data = 1\<rparr>]))
     (TriggerHelper_new demo_connector WakeupTrack_init))"
  using fan_report_decoded [of "[\<lparr>fs_type = 7, fs_data = 9\<rparr>, \<lparr>fs_type = 19, fs_data = 1\<rparr>]" demo_env
      "TriggerHelper_new demo_connector WakeupTrack_init"]
  by (simp add: power_of_def DATA_TYPE_POWER_def)

end
