(* ===== verification/Trigger_Agreement.thy ===== *)
theory Trigger_Agreement
  imports Trigger_Concurrency Trigger_Fan
begin

text \<open>
  The helper against the connector: the helper's record of a model (not loaded, loaded, started) is a
  copy of what the connector keeps, and recognition events change the connector first and reach the
  helper later. The theory states the relation between the two, proves that every operation and every
  event handler keeps it under every interleaving, and what the operations achieve.
\<close>

section \<open>The relation\<close>

text \<open>\<open>Q\<close> holds the handles of events the connector has accepted and the helper has not seen yet.\<close>

definition entry_ok :: "'h connector \<Rightarrow> int list \<Rightarrow> TriggerModelData \<Rightarrow> bool" where
  "entry_ok c Q x \<longleftrightarrow>
     (case md_state x of
        MODEL_NOTLOADED \<Rightarrow> True
      | MODEL_LOADED \<Rightarrow> md_handle x \<notin> set Q \<and> model_state c (md_handle x) = Some LOADED
      | MODEL_STARTED \<Rightarrow> model_state c (md_handle x) =
                          Some (if md_handle x \<in> set Q then LOADED else ACTIVE))"

definition entries_ok :: "int list \<Rightarrow> 'h TriggerHelper \<Rightarrow> bool" where
  "entries_ok Q t \<longleftrightarrow>
     (\<forall>k x. om_find k (th_modelDataMap t) = Some x \<longrightarrow>
        md_uuid x = k \<and> entry_ok (th_connector t) Q x \<and>
        (md_state x \<noteq> MODEL_NOTLOADED \<longrightarrow> th_module t))"

definition handles_ok :: "'h TriggerHelper \<Rightarrow> bool" where
  "handles_ok t \<longleftrightarrow>
     (\<forall>j k x y. om_find j (th_modelDataMap t) = Some x \<and> om_find k (th_modelDataMap t) = Some y \<and>
        j \<noteq> k \<and> md_handle x = md_handle y \<longrightarrow> md_handle x = 0)"

definition conn_ok :: "int list \<Rightarrow> 'h TriggerHelper \<Rightarrow> bool" where
  "conn_ok Q t \<longleftrightarrow>
     (\<forall>h. model_state (th_connector t) h \<noteq> None \<longrightarrow> h \<noteq> 0 \<and> th_module t) \<and>
     (\<forall>h\<in>set Q. model_state (th_connector t) h = Some LOADED) \<and> distinct Q \<and>
     (th_module t \<longrightarrow> cn_adapter (th_connector t))"

definition linked :: "int list \<Rightarrow> 'h TriggerHelper \<Rightarrow> bool" where
  "linked Q t \<longleftrightarrow> om_ok (th_modelDataMap t) \<and> entries_ok Q t \<and> handles_ok t \<and> conn_ok Q t"

text \<open>
  The relation holds until the driver returns a handle that clashes; what survives a clash is the
  shape of the map.
\<close>

definition agree :: "int list \<Rightarrow> 'h TriggerHelper \<Rightarrow> bool" where
  "agree Q t \<longleftrightarrow> om_ok (th_modelDataMap t) \<and> (\<not> th_handleClash t \<longrightarrow> linked Q t)"

lemma agreeI:
  assumes "agree Q t" "om_ok (th_modelDataMap t) \<Longrightarrow> om_ok (th_modelDataMap u)"
    and "th_handleClash t \<Longrightarrow> th_handleClash u" "linked Q t \<Longrightarrow> \<not> th_handleClash u \<Longrightarrow> linked R u"
  shows "agree R u"
  using assms by (auto simp: agree_def)

lemma agree_linked: "agree Q t \<Longrightarrow> \<not> th_handleClash t \<Longrightarrow> linked Q t"
  by (simp add: agree_def)

lemma linked_entry:
  assumes "linked Q t" "om_find k (th_modelDataMap t) = Some x"
  shows "md_uuid x = k" "entry_ok (th_connector t) Q x" "md_state x \<noteq> MODEL_NOTLOADED \<Longrightarrow> th_module t"
  using assms by (auto simp: linked_def entries_ok_def)

lemma linked_conn:
  assumes "linked Q t"
  shows "model_state (th_connector t) h \<noteq> None \<Longrightarrow> h \<noteq> 0 \<and> th_module t"
    "h \<in> set Q \<Longrightarrow> model_state (th_connector t) h = Some LOADED" "distinct Q"
    "th_module t \<Longrightarrow> cn_adapter (th_connector t)"
  using assms by (auto simp: linked_def conn_ok_def)

text \<open>The fields the relation looks at.\<close>

definition core :: "'h TriggerHelper \<Rightarrow> TriggerModelData omap \<times> bool \<times> 'h connector \<times> bool" where
  "core t = (th_modelDataMap t, th_module t, th_connector t, th_handleClash t)"

lemma core_updates [simp]:
  "core (t\<lparr>th_calls := a\<rparr>) = core t" "core (t\<lparr>th_track := b\<rparr>) = core t"
  "core (t\<lparr>th_callActive := p\<rparr>) = core t" "core (t\<lparr>th_systemHibernate := p\<rparr>) = core t"
  "core (t\<lparr>th_audioCaptureActive := p\<rparr>) = core t" "core (t\<lparr>th_audioScene := s\<rparr>) = core t"
  "core (t\<lparr>th_curFoldStatus := fs\<rparr>) = core t" "core (t\<lparr>th_fanRunning := p\<rparr>) = core t"
  "core (t\<lparr>th_mFirstProc := p\<rparr>) = core t" "core (t\<lparr>th_isFoldable := p\<rparr>) = core t"
  "core (t\<lparr>th_foldStatusListener := p\<rparr>) = core t" "core (t\<lparr>th_isFoldStatusDetached := p\<rparr>) = core t"
  "core (t\<lparr>th_concurrentBlacklist := l\<rparr>) = core t" "core (t\<lparr>th_concurrentWhitelist := l\<rparr>) = core t"
  "core (t\<lparr>th_concurrentTypeSet := ts\<rparr>) = core t" "core (t\<lparr>th_ExtensionConcurrentTypeSet := ts\<rparr>) = core t"
  "core (t\<lparr>th_audioConcurrentCapture := p\<rparr>) = core t" "core (t\<lparr>th_whitelistWhisperEnbale := p\<rparr>) = core t"
  "core (t\<lparr>th_mCameraConcurrency := p\<rparr>) = core t" "core (t\<lparr>th_mExtensionConcurrency := p\<rparr>) = core t"
  "core (t\<lparr>th_mVoipConcurrency := p\<rparr>) = core t" "core (t\<lparr>th_mCallConcurrency := p\<rparr>) = core t"
  "core (t\<lparr>th_audioInputPipeCallback := p\<rparr>) = core t" "core (t\<lparr>th_isCapturerDetached := p\<rparr>) = core t"
  "core (t\<lparr>th_hasStreamBesidesVoip := p\<rparr>) = core t" "core (t\<lparr>th_hasStreamBesidesVoice := p\<rparr>) = core t"
  "core (t\<lparr>th_rendererStateMap := rm\<rparr>) = core t" "core (t\<lparr>th_perfGeniusHandle := p\<rparr>) = core t"
  "core (t\<lparr>th_isFanListenerDetached := p\<rparr>) = core t" "core (t\<lparr>th_fanInstance := p\<rparr>) = core t"
  by (simp_all add: core_def)

lemma agree_core: "core t = core u \<Longrightarrow> agree Q t = agree Q u"
  by (simp add: core_def agree_def linked_def entries_ok_def handles_ok_def conn_ok_def)

lemmas agree_updates [simp] = core_updates [THEN agree_core]

lemma agree_coreI: "agree Q t \<Longrightarrow> core u = core t \<Longrightarrow> agree Q u"
  using agree_core by blast

lemma upd_md_fields [simp]:
  "th_connector (upd_md k f t) = th_connector t" "th_module (upd_md k f t) = th_module t"
  "th_handleClash (upd_md k f t) = th_handleClash t"
  "th_modelDataMap (upd_md k f t) = om_upd k f (th_modelDataMap t)"
  by (simp_all add: upd_md_def)

text \<open>A change of the connector that no model sees.\<close>

lemma linked_quiet:
  assumes "linked Q t" "model_state d = model_state (th_connector t)"
    "cn_adapter (th_connector t) \<longrightarrow> cn_adapter d"
  shows "linked Q (t\<lparr>th_connector := d\<rparr>)"
  using assms
  by (fastforce simp: linked_def entries_ok_def handles_ok_def conn_ok_def entry_ok_def split: ModelState.splits)

lemma agree_quiet:
  assumes "agree Q t" "model_state d = model_state (th_connector t)"
    "cn_adapter (th_connector t) \<longrightarrow> cn_adapter d"
  shows "agree Q (t\<lparr>th_connector := d\<rparr>)"
  using assms by (auto intro: agreeI linked_quiet)

text \<open>
  The one step all operations are made of: the entry \<open>k\<close> and the connector's state for the entry's
  handle change together; the handle is the old one or one that no other entry has.
\<close>

lemma linked_change:
  assumes a: "linked Q t" and k: "om_find k (th_modelDataMap t) = Some x"
    and d: "model_state d = (model_state (th_connector t))(md_handle (f x) := v)"
      "cn_adapter d = cn_adapter (th_connector t)"
    and h: "md_handle (f x) = md_handle x \<or>
      (\<forall>j y. om_find j (th_modelDataMap t) = Some y \<and> j \<noteq> k \<longrightarrow> md_handle y \<noteq> md_handle (f x))"
    and v: "v \<noteq> None \<longrightarrow> md_handle (f x) \<noteq> 0 \<and> th_module t" "md_handle (f x) \<in> set Q \<longrightarrow> v = Some LOADED"
    and e: "md_uuid (f x) = md_uuid x" "entry_ok d Q (f x)" "md_state (f x) \<noteq> MODEL_NOTLOADED \<longrightarrow> th_module t"
  shows "linked Q (upd_md k f (t\<lparr>th_connector := d\<rparr>))"
proof -
  let ?t = "upd_md k f (t\<lparr>th_connector := d\<rparr>)"
  note ek = linked_entry [OF a k]
  have other: "md_handle y \<noteq> md_handle (f x) \<or> md_handle y = 0"
    if "om_find j (th_modelDataMap t) = Some y" "j \<noteq> k" for j y
    using that h k a by (auto simp: linked_def handles_ok_def)
  have entry: "entry_ok d Q y" if y: "om_find j (th_modelDataMap t) = Some y" "j \<noteq> k" for j y
  proof (cases "md_handle y = 0")
    case True
    then have "md_state y = MODEL_NOTLOADED"
      using linked_entry(2) [OF a y(1)] linked_conn(1) [OF a, of 0]
      by (auto simp: entry_ok_def split: ModelState.splits)
    then show ?thesis by (simp add: entry_ok_def)
  next
    case False
    with other [OF y] have "model_state d (md_handle y) = model_state (th_connector t) (md_handle y)"
      using d(1) by simp
    with linked_entry(2) [OF a y(1)] show ?thesis
      by (simp add: entry_ok_def split: ModelState.splits)
  qed
  have found: "om_find j (th_modelDataMap ?t) = Some y \<longleftrightarrow>
      (if j = k then y = f x else om_find j (th_modelDataMap t) = Some y)" for j y
    using k by auto
  have "md_uuid y = j \<and> entry_ok d Q y \<and> (md_state y \<noteq> MODEL_NOTLOADED \<longrightarrow> th_module t)"
    if "om_find j (th_modelDataMap ?t) = Some y" for j y
    using that e ek entry [of j y] linked_entry(1,3) [OF a, of j y] unfolding found by (auto split: if_splits)
  then have "entries_ok Q ?t"
    by (simp add: entries_ok_def)
  moreover have "md_handle y = 0"
    if "om_find i (th_modelDataMap ?t) = Some y" "om_find j (th_modelDataMap ?t) = Some z" "i \<noteq> j"
      "md_handle y = md_handle z" for i j y z
    using that other a unfolding found by (auto simp: linked_def handles_ok_def split: if_splits)
  then have "handles_ok ?t" unfolding handles_ok_def by blast
  moreover have "conn_ok Q ?t"
    unfolding conn_ok_def
    using d v linked_conn [OF a] by (auto split: if_splits)
  ultimately show ?thesis using a by (simp add: linked_def)
qed

section \<open>Every operation keeps the relation\<close>

named_theorems keeps "operations that keep the agreement"

lemma GetTriggerModelData_iff [simp]: "GetTriggerModelData k t = om_find k (th_modelDataMap t)"
  by (simp add: GetTriggerModelData_def)

lemma upd_md_connector: "upd_md k f (t\<lparr>th_connector := d\<rparr>) = (upd_md k f t)\<lparr>th_connector := d\<rparr>"
  by (simp add: upd_md_def)

lemma Validation_Session:
  "Validation_LoadModel H m c = (0, i, d) \<Longrightarrow> \<exists>g. m = Some g \<and> Session_LoadModel H g c = (0, i, d)"
  "Validation_LoadModel H m c = (r, i, d) \<Longrightarrow> d = c \<or> (\<exists>g. Session_LoadModel H g c = (r, i, d))"
  by (cases m; auto simp: Validation_LoadModel_def ValidateGenericModel_def split: if_splits)+

lemma linked_load_fail:
  assumes "linked Q t" "Validation_LoadModel H m (th_connector t) = (r, i, d)" "r \<noteq> 0"
  shows "linked Q (t\<lparr>th_connector := d\<rparr>)"
  using Validation_Session(2) [OF assms(2)]
proof
  assume "d = th_connector t"
  then show ?thesis using assms(1) by (simp add: linked_quiet)
next
  assume "\<exists>g. Session_LoadModel H g (th_connector t) = (r, i, d)"
  then obtain g where g: "Session_LoadModel H g (th_connector t) = (r, i, d)" ..
  show ?thesis
    using conn.load_fail [OF g assms(3)] session_frames(4) [OF g] assms(1)
    by (intro linked_quiet) auto
qed

lemma linked_ghost [simp]: "linked Q (t\<lparr>th_handleClash := b\<rparr>) = linked Q t"
  by (simp add: linked_def entries_ok_def handles_ok_def conn_ok_def)

lemma handle_clash_other:
  assumes "\<not> handle_clash k i t" "om_find j (th_modelDataMap t) = Some y" "j \<noteq> k"
  shows "md_handle y \<noteq> i"
  using assms by (force simp: handle_clash_def list_ex_iff om_find_def dest: map_of_SomeD)

lemma agree_LoadModel [keeps]:
  assumes a: "agree Q t"
  shows "agree Q (snd (LoadModel E k t))"
proof (rule agreeI [OF a], goal_cases)
  case 3
  note l = \<open>linked Q t\<close>
  show ?case
  proof (cases "om_find k (th_modelDataMap t)")
    case (Some x)
    obtain r i d where v: "Validation_LoadModel (env_hal E) (md_model x) (th_connector t) = (r, i, d)"
      using prod_cases3 by blast
    show ?thesis
    proof (cases "md_state x = MODEL_NOTLOADED \<and> th_module t \<and> r = 0")
      case True
      then obtain g where g: "Session_LoadModel (env_hal E) g (th_connector t) = (0, i, d)"
        using Validation_Session(1) v by blast
      have nc: "\<not> handle_clash k i t"
        using 3(2) True Some v by (simp add: LoadModel_def)
      then have i: "i \<noteq> 0" "model_state (th_connector t) i = None"
        by (simp_all add: handle_clash_def)
      have q: "i \<notin> set Q" using i(2) linked_conn(2) [OF l] by fastforce
      have "linked Q (upd_md k (\<lambda>x. x\<lparr>md_handle := i, md_state := MODEL_LOADED\<rparr>) (t\<lparr>th_connector := d\<rparr>))"
        using conn.load_ok [OF g i(2)] session_frames(4) [OF g] i q True handle_clash_other [OF nc]
        by (intro linked_change [OF l Some, where v = "Some LOADED"]) (auto simp: entry_ok_def)
      then show ?thesis using True Some v by (simp add: LoadModel_def)
    next
      case False
      then show ?thesis
        using l Some v linked_load_fail [OF l v] by (auto simp: LoadModel_def)
    qed
  qed (use l in \<open>simp add: LoadModel_def\<close>)
qed (auto simp: LoadModel_def split: option.splits prod.splits)

lemma agree_UnloadModel [keeps]:
  assumes a: "agree Q t"
  shows "agree Q (snd (UnloadModel E k t))"
proof (rule agreeI [OF a], goal_cases)
  case 3
  note l = \<open>linked Q t\<close>
  show ?case
  proof (cases "om_find k (th_modelDataMap t)")
    case (Some x)
    obtain r d where u: "Session_UnloadModel (env_hal E) (md_handle x) (th_connector t) = (r, d)"
      using prod.exhaust by blast
    show ?thesis
    proof (cases "md_state x = MODEL_LOADED \<and> th_module t")
      case True
      then have q: "md_handle x \<notin> set Q" using linked_entry(2) [OF l Some] by (simp add: entry_ok_def)
      have "linked Q (upd_md k (\<lambda>x. x\<lparr>md_state := MODEL_NOTLOADED\<rparr>) (t\<lparr>th_connector := d\<rparr>))"
        using conn.unload_drops [OF u linked_conn(4) [OF l]] session_frames(5) [OF u] q True
        by (intro linked_change [OF l Some, where v = None]) (auto simp: entry_ok_def)
      then show ?thesis using True Some u by (simp add: UnloadModel_def)
    qed (use l Some in \<open>auto simp: UnloadModel_def\<close>)
  qed (use l in \<open>simp add: UnloadModel_def\<close>)
qed (auto simp: UnloadModel_def split: option.splits prod.splits)

lemma entry_handle_nonzero:
  assumes "linked Q t" "om_find k (th_modelDataMap t) = Some x" "md_state x \<noteq> MODEL_NOTLOADED"
  shows "md_handle x \<noteq> 0"
  using assms linked_entry(2) [OF assms(1,2)] linked_conn(1) [OF assms(1), of 0]
  by (auto simp: entry_ok_def split: ModelState.splits)

lemma linked_StopRecognition:
  assumes l: "linked Q t"
  shows "linked Q (snd (StopRecognition E k t))"
proof (cases "om_find k (th_modelDataMap t)")
  case (Some x)
  obtain r d where u: "Session_Stop (env_hal E) (md_handle x) (th_connector t) = (r, d)"
    using prod.exhaust by blast
  show ?thesis
  proof (cases "md_state x = MODEL_STARTED \<and> th_module t \<and> r = 0")
    case True
    with u have ok: "model_state (th_connector t) (md_handle x) = Some ACTIVE"
      "model_state d = (model_state (th_connector t))(md_handle x \<mapsto> LOADED)"
      using conn.stop_ok [of "env_hal E" "md_handle x" "th_connector t" d] by auto
    have q: "md_handle x \<notin> set Q" using ok linked_conn(2) [OF l] by fastforce
    have "linked Q (upd_md k (\<lambda>x. x\<lparr>md_state := MODEL_LOADED\<rparr>) (t\<lparr>th_connector := d\<rparr>))"
      using ok session_frames(3) [OF u] q True entry_handle_nonzero [OF l Some]
      by (intro linked_change [OF l Some, where v = "Some LOADED"]) (auto simp: entry_ok_def)
    then show ?thesis using True Some u by (simp add: StopRecognition_def)
  next
    case False
    have "linked Q (t\<lparr>th_connector := d\<rparr>)" if "r \<noteq> 0"
      using conn.stop_fail [OF u that] session_frames(3) [OF u] l
      by (intro linked_quiet) auto
    then show ?thesis using False l Some u by (auto simp: StopRecognition_def)
  qed
qed (use l in \<open>simp add: StopRecognition_def\<close>)

lemma agree_StopRecognition [keeps]: "agree Q t \<Longrightarrow> agree Q (snd (StopRecognition E k t))"
  by (erule agreeI [OF _ _ _ linked_StopRecognition])
    (auto simp: StopRecognition_def split: option.splits prod.splits)

lemma agree_GetModule [keeps]:
  assumes "agree Q t"
  shows "agree Q (snd (GetModule E t))"
proof -
  obtain b d where g: "Connector_GetModule (env_hal E) (th_connector t) = (b, d)"
    using prod.exhaust by blast
  note fr = GetModule_frames [OF g]
  have q: "agree Q (t\<lparr>th_connector := d\<rparr>)"
    using fr assms by (intro agree_quiet) (auto intro: model_state_eqI)
  then have "agree Q (t\<lparr>th_connector := d, th_module := True\<rparr>)" if b
    using that fr(2) by (auto simp: agree_def linked_def entries_ok_def handles_ok_def conn_ok_def)
  then show ?thesis using assms g q by (auto simp: GetModule_def split: prod.splits bool.splits)
qed

lemma agree_SetParams [keeps]:
  assumes "agree Q t"
  shows "agree Q (snd (module_SetParams E key val t))"
  unfolding module_SetParams_def
  using assms session_frames(1) [of "env_hal E" key val "th_connector t"]
  by (auto intro: agree_quiet split: prod.splits)

text \<open>
  What starting needs of the entry, as long as no handle clashes: it is loaded, or its handle is
  unknown to the connector.
\<close>

definition startable :: "int \<Rightarrow> 'h TriggerHelper \<Rightarrow> bool" where
  "startable k t \<longleftrightarrow> th_handleClash t \<or> (\<exists>y. om_find k (th_modelDataMap t) = Some y \<and>
     (md_state y = MODEL_LOADED \<or> model_state (th_connector t) (md_handle y) = None))"

lemma GetModule_frame:
  "th_modelDataMap (snd (GetModule E t)) = th_modelDataMap t"
  "model_state (th_connector (snd (GetModule E t))) = model_state (th_connector t)"
  "th_module t \<Longrightarrow> GetModule E t = (True, t)"
  "fst (GetModule E t) = th_module (snd (GetModule E t))"
  using GetModule_frames(1) [of "env_hal E" "th_connector t"]
  by (auto simp: GetModule_def intro: model_state_eqI split: prod.splits bool.splits)

lemma module_SetParams_frame:
  "th_modelDataMap (snd (module_SetParams E key val t)) = th_modelDataMap t"
  "model_state (th_connector (snd (module_SetParams E key val t))) = model_state (th_connector t)"
  "th_module (snd (module_SetParams E key val t)) = th_module t"
  using session_frames(1) [of "env_hal E" key val "th_connector t"]
  by (auto simp: module_SetParams_def split: prod.splits)

lemma clash_frame [simp]:
  "th_handleClash (snd (GetModule E t)) = th_handleClash t"
  "th_handleClash (snd (module_SetParams E key val t)) = th_handleClash t"
  "th_handleClash (snd (UnloadModel E k t)) = th_handleClash t"
  "th_handleClash (snd (StopRecognition E k t)) = th_handleClash t"
  by (auto simp: GetModule_def module_SetParams_def UnloadModel_def StopRecognition_def
      split: prod.splits bool.splits option.splits)

lemma clash_LoadModel: "th_handleClash t \<Longrightarrow> th_handleClash (snd (LoadModel E k t))"
  by (auto simp: LoadModel_def split: prod.splits option.splits)

lemma startable_frame:
  assumes "th_modelDataMap u = th_modelDataMap t" "model_state (th_connector u) = model_state (th_connector t)"
    "th_handleClash u = th_handleClash t"
  shows "startable k u = startable k t"
  using assms by (simp add: startable_def)

lemma UnloadModel_gone:
  assumes "linked Q t" "om_find k (th_modelDataMap t) = Some x" "md_state x = MODEL_LOADED" "th_module t"
  shows "om_find k (th_modelDataMap (snd (UnloadModel E k t))) = Some (x\<lparr>md_state := MODEL_NOTLOADED\<rparr>)"
    "model_state (th_connector (snd (UnloadModel E k t))) (md_handle x) = None"
    "th_module (snd (UnloadModel E k t))"
  using assms linked_conn(4) [OF assms(1)] conn.unload_drops [of "env_hal E" "md_handle x" "th_connector t"]
  by (auto simp: UnloadModel_def upd_md_def split: prod.splits)

lemma LoadModel_startable:
  assumes "om_find k (th_modelDataMap t) = Some x" "md_state x = MODEL_NOTLOADED"
    "model_state (th_connector t) (md_handle x) = None"
  shows "startable k (snd (LoadModel E k t))"
proof -
  obtain r i d where v: "Validation_LoadModel (env_hal E) (md_model x) (th_connector t) = (r, i, d)"
    using prod_cases3 by blast
  have "model_state d = model_state (th_connector t)" if "r \<noteq> 0"
    using Validation_Session(2) [OF v] conn.load_fail that by metis
  then show ?thesis
    using assms v by (auto simp: LoadModel_def startable_def upd_md_def)
qed

lemma SetModel_Some: "\<exists>y. SetModel (Some g) x = Ret y \<and> md_state y = md_state x \<and> md_handle y = md_handle x \<and>
    md_uuid y = md_uuid x \<and> md_requested y = md_requested x \<and> md_callback y = md_callback x"
  by (simp add: SetModel_def Let_def)

lemma store_model_frame [simp]:
  "md_state (store_model g x) = md_state x" "md_handle (store_model g x) = md_handle x"
  "md_uuid (store_model g x) = md_uuid x" "md_requested (store_model g x) = md_requested x"
  "md_callback (store_model g x) = md_callback x"
  using SetModel_Some [of g x] by (auto simp: store_model_def)

lemma entry_ok_same: "md_state y = md_state x \<Longrightarrow> md_handle y = md_handle x \<Longrightarrow> entry_ok c Q y = entry_ok c Q x"
  by (simp add: entry_ok_def split: ModelState.splits)

text \<open>A change of an entry that leaves its state and handle alone.\<close>

lemma agree_entry_frame:
  assumes a: "agree Q t"
    and f: "\<And>x. om_find k (th_modelDataMap t) = Some x \<Longrightarrow>
        md_state (f x) = md_state x \<and> md_handle (f x) = md_handle x \<and> md_uuid (f x) = md_uuid x"
  shows "agree Q (upd_md k f t)"
proof (cases "om_find k (th_modelDataMap t)")
  case (Some x)
  have "linked Q (upd_md k f (t\<lparr>th_connector := th_connector t\<rparr>))" if l: "linked Q t"
    using f [OF Some] linked_entry [OF l Some] linked_conn(1,2) [OF l, of "md_handle x"]
      entry_ok_same [of "f x" x "th_connector t" Q]
    by (intro linked_change [OF l Some, where v = "model_state (th_connector t) (md_handle x)"]) auto
  then show ?thesis using a by (auto intro: agreeI)
next
  case None
  then have "om_upd k f (th_modelDataMap t) = th_modelDataMap t"
    by (force simp: om_upd_def om_find_def map_of_eq_None_iff intro!: map_idI)
  then show ?thesis using a by (simp add: upd_md_def)
qed

lemma ReLoad_steps:
  "ReLoadWhisperModel E k t =
     (case om_find k (th_modelDataMap t) of None \<Rightarrow> t
      | Some x \<Rightarrow> if md_uuid x \<noteq> PROXIMAL_WAKEUP_MODEL_UUID then t
          else (case ReadWhisperModel E t of None \<Rightarrow> t
            | Some g \<Rightarrow> if SameModel (Some g) x then UpdateGenericTriggerModel (Some g) t
                else snd (LoadModel E k (upd_md k (store_model g)
                       (snd (UnloadModel E k (UpdateGenericTriggerModel (Some g) t)))))))"
  by (simp add: ReLoadWhisperModel_def Let_def split: option.splits)

lemma core_Update [simp]: "core (UpdateGenericTriggerModel g t) = core t"
  by (simp add: UpdateGenericTriggerModel_def core_def split: option.splits)

lemma clash_Update [simp]: "th_handleClash (UpdateGenericTriggerModel g t) = th_handleClash t"
  using core_Update [of g t] by (simp add: core_def)

lemma agree_ReLoad [keeps]:
  assumes "agree Q t"
  shows "agree Q (ReLoadWhisperModel E k t)"
  unfolding ReLoad_steps
  using agree_coreI [OF assms core_Update]
  by (auto simp: assms intro!: agree_LoadModel agree_entry_frame agree_UnloadModel split: option.splits)

lemma startable_ReLoad:
  assumes a: "agree Q t" and x: "om_find k (th_modelDataMap t) = Some x" "md_state x = MODEL_LOADED" and m: "th_module t"
  shows "startable k (ReLoadWhisperModel E k t)"
proof -
  have plain: "startable k t" using x by (auto simp: startable_def)
  have "startable k (snd (LoadModel E k (upd_md k (store_model g) (snd (UnloadModel E k (UpdateGenericTriggerModel (Some g) t))))))"
    for g
  proof (cases "th_handleClash t")
    case True
    then show ?thesis by (simp add: startable_def clash_LoadModel)
  next
    case False
    let ?u = "UpdateGenericTriggerModel (Some g) t"
    have u: "agree Q ?u" "om_find k (th_modelDataMap ?u) = Some x" "th_module ?u"
      using x m agree_coreI [OF a core_Update] by (blast, simp_all add: UpdateGenericTriggerModel_def)
    note g = UnloadModel_gone [OF agree_linked [OF u(1)] u(2) x(2) u(3), of E]
    show ?thesis
      using g False by (intro LoadModel_startable [where x = "store_model g (x\<lparr>md_state := MODEL_NOTLOADED\<rparr>)" for g]) auto
  qed
  then show ?thesis
    unfolding ReLoad_steps using plain
    by (auto simp: UpdateGenericTriggerModel_def startable_def split: option.splits)
qed

lemma SetFoldStatus_frame:
  "th_modelDataMap (SetFoldStatus E t) = th_modelDataMap t"
  "model_state (th_connector (SetFoldStatus E t)) = model_state (th_connector t)"
  "th_module t \<Longrightarrow> th_module (SetFoldStatus E t)" "th_handleClash (SetFoldStatus E t) = th_handleClash t"
  using GetModule_frame(1,2) [of E t] GetModule_frame(3) [of t E] clash_frame(1) [of E t]
  by (auto simp del: clash_frame(1) simp: SetFoldStatus_def module_SetParams_frame split: prod.splits bool.splits)

lemma agree_SetFoldStatus [keeps]:
  assumes "agree Q t"
  shows "agree Q (SetFoldStatus E t)"
  using agree_GetModule [OF assms, of E] agree_SetParams
  by (auto simp: SetFoldStatus_def split: prod.splits bool.splits)

lemma agree_FoldStatusOperation [keeps]:
  assumes "agree Q t"
  shows "agree Q (FoldStatusOperation E k t)"
  using agree_ReLoad [OF assms] agree_SetFoldStatus [OF agree_ReLoad [OF assms]] assms
  by (auto simp: FoldStatusOperation_def Let_def split: list.splits option.splits)

lemma startable_Fold:
  assumes "agree Q t" "om_find k (th_modelDataMap t) = Some x" "md_state x = MODEL_LOADED" "th_module t"
  shows "startable k (FoldStatusOperation E k t)"
proof -
  have "startable k t" using assms(2,3) by (auto simp: startable_def)
  then show ?thesis
    using startable_ReLoad [OF assms, of E]
      startable_frame [OF SetFoldStatus_frame(1,2,4), of k E "ReLoadWhisperModel E k t"]
    by (auto simp: FoldStatusOperation_def Let_def split: list.splits option.splits)
qed

definition start_session :: "'h trigger_env \<Rightarrow> int \<Rightarrow> 'h TriggerHelper \<Rightarrow> int \<times> 'h TriggerHelper" where
  "start_session E k t =
     (case om_find k (th_modelDataMap t) of
        None \<Rightarrow> (-1, t)
      | Some y \<Rightarrow>
          (case Session_Start (env_hal E) (md_handle y) (th_connector t) of
            (ret, c) \<Rightarrow>
              if ret \<noteq> 0 then (ret, t\<lparr>th_connector := c\<rparr>)
              else (ret, upd_md k (\<lambda>x. x\<lparr>md_state := MODEL_STARTED\<rparr>) (t\<lparr>th_connector := c\<rparr>))))"

definition before_start :: "'h trigger_env \<Rightarrow> int \<Rightarrow> 'h TriggerHelper \<Rightarrow> 'h TriggerHelper" where
  "before_start E k t =
     (let t1 = (if env_window E then FoldStatusOperation E k t else t)
      in if env_only_first E then HandleWakeupInputGain E t1 else t1)"

lemma StartRecognition_steps:
  "StartRecognition E k t =
     (case om_find k (th_modelDataMap t) of
        None \<Rightarrow> (-1, t)
      | Some x \<Rightarrow>
          if md_state x \<noteq> MODEL_LOADED then (0, t)
          else if \<not> th_module t then (-1, t)
          else start_session E k (before_start E k t))"
  unfolding StartRecognition_def start_session_def before_start_def Let_def GetTriggerModelData_def
  by (rule refl)

lemma linked_start_session:
  assumes l: "linked Q t" and s: "startable k t" "\<not> th_handleClash t"
  shows "linked Q (snd (start_session E k t))"
proof -
  obtain y where y: "om_find k (th_modelDataMap t) = Some y"
    "md_state y = MODEL_LOADED \<or> model_state (th_connector t) (md_handle y) = None"
    using s by (auto simp: startable_def)
  obtain r d where u: "Session_Start (env_hal E) (md_handle y) (th_connector t) = (r, d)"
    using prod.exhaust by blast
  have fail: "linked Q (t\<lparr>th_connector := d\<rparr>)" if "r \<noteq> 0"
    using conn.start_fail [OF u that] session_frames(2) [OF u] l
    by (intro linked_quiet) auto
  have ok: "model_state (th_connector t) (md_handle y) = Some LOADED"
    "model_state d = (model_state (th_connector t))(md_handle y \<mapsto> ACTIVE)" if "r = 0"
    using that u conn.start_ok [of "env_hal E" "md_handle y" "th_connector t" d] by auto
  have loaded: "md_state y = MODEL_LOADED" if "r = 0" using ok(1) [OF that] y(2) by auto
  have "linked Q (upd_md k (\<lambda>x. x\<lparr>md_state := MODEL_STARTED\<rparr>) (t\<lparr>th_connector := d\<rparr>))" if "r = 0"
  proof -
    have "md_handle y \<notin> set Q" using linked_entry(2) [OF l y(1)] loaded [OF that] by (simp add: entry_ok_def)
    then show ?thesis
      using ok(2) [OF that] loaded [OF that] session_frames(2) [OF u]
        entry_handle_nonzero [OF l y(1)] linked_entry(3) [OF l y(1)]
      by (intro linked_change [OF l y(1), where v = "Some ACTIVE"]) (auto simp: entry_ok_def)
  qed
  then show ?thesis
    using fail y u by (simp add: start_session_def)
qed

lemma start_session_fields [simp]:
  "th_handleClash (snd (start_session E k t)) = th_handleClash t"
  "om_ok (th_modelDataMap (snd (start_session E k t))) = om_ok (th_modelDataMap t)"
  by (simp_all add: start_session_def split: option.split prod.split)

lemma agree_start_session: "agree Q t \<Longrightarrow> startable k t \<Longrightarrow> agree Q (snd (start_session E k t))"
  by (erule agreeI) (simp_all add: linked_start_session)

lemma before_start_ok:
  assumes "agree Q t" "om_find k (th_modelDataMap t) = Some x" "md_state x = MODEL_LOADED" "th_module t"
  shows "agree Q (before_start E k t)" "startable k (before_start E k t)"
proof -
  have "startable k t" using assms(2,3) by (auto simp: startable_def)
  then show "agree Q (before_start E k t)" "startable k (before_start E k t)"
    using agree_FoldStatusOperation [OF assms(1), of E k] startable_Fold [OF assms, of E] assms(1)
    by (auto simp: before_start_def Let_def HandleWakeupInputGain_def startable_def intro: agree_coreI)
qed

lemma agree_StartRecognition [keeps]:
  assumes a: "agree Q t"
  shows "agree Q (snd (StartRecognition E k t))"
  using before_start_ok [OF a, of k] a
  by (auto simp: StartRecognition_steps intro!: agree_start_session split: option.splits)

lemma agree_Clear:
  assumes a: "agree Q t"
  shows "agree Q (upd_md k Clear t)"
proof (cases "om_find k (th_modelDataMap t)")
  case (Some x)
  have "linked Q (upd_md k Clear (t\<lparr>th_connector := th_connector t\<rparr>))" if l: "linked Q t"
    using linked_conn(1,2) [OF l, of "md_handle x"]
    by (intro linked_change [OF l Some, where v = "model_state (th_connector t) (md_handle x)"])
      (auto simp: Clear_def entry_ok_def)
  then show ?thesis using a by (auto intro: agreeI)
next
  case None
  then show ?thesis by (intro agree_entry_frame [OF a]) simp
qed

lemma agree_InitRecognition [keeps]:
  assumes "agree Q t"
  shows "agree Q (snd (InitRecognition E k u t))"
proof -
  have "agree Q (snd (StopRecognition E k t))"
    and "agree Q (upd_md k Clear (snd (UnloadModel E k (snd (StopRecognition E k t)))))"
    using assms by (auto intro!: keeps agree_Clear)
  then show ?thesis
    using assms(1) by (auto simp: InitRecognition_def split: option.splits prod.splits)
qed

lemma agree_PrepareForRecognition [keeps]:
  assumes "agree Q t"
  shows "agree Q (snd (PrepareForRecognition E k t))"
proof -
  have "agree Q (snd (GetModule E t))" "agree Q (snd (LoadModel E k (snd (GetModule E t))))"
    using assms by (auto intro!: keeps)
  then show ?thesis
    by (auto simp: PrepareForRecognition_def split: prod.splits bool.splits)
qed

lemma agree_report [keeps]: "agree Q t \<Longrightarrow> agree Q (report_switch E st t)"
  by (erule agree_coreI) (simp add: report_switch_def)

lemma agree_hibernate_unload [keeps]:
  assumes "agree Q t"
  shows "agree Q (hibernate_unload E k t)"
  using agree_UnloadModel [OF assms, of E k] assms
  by (auto simp: hibernate_unload_def Let_def intro: agree_coreI)

text \<open>One round of the loop: \<open>None\<close> when it returns from the function.\<close>

definition update_round :: "'h trigger_env \<Rightarrow> int \<Rightarrow> 'h TriggerHelper \<Rightarrow> bool \<times> 'h TriggerHelper" where
  "update_round E k t =
     (case om_find k (th_modelDataMap t) of
        None \<Rightarrow> (True, t)
      | Some x \<Rightarrow>
          if (md_requested x \<and> \<not> IsConflictSceneActive E t) = (md_state x = MODEL_STARTED) then (True, t)
          else if md_requested x \<and> \<not> IsConflictSceneActive E t
          then (if fst (PrepareForRecognition E k t) \<noteq> 0 then (False, snd (PrepareForRecognition E k t))
                else (True, snd (StartRecognition E k
                       (report_switch E WAKEUP_SWITCH_STATE_OPEN (snd (PrepareForRecognition E k t))))))
          else (True, hibernate_unload E k
                 (snd (StopRecognition E k (report_switch E WAKEUP_SWITCH_STATE_CLOSE t)))))"

lemma UpdateAll_loop_round:
  "UpdateAll_loop E (k # ks) t =
     (if fst (update_round E k t) then UpdateAll_loop E ks (snd (update_round E k t))
      else snd (update_round E k t))"
  by (auto simp: update_round_def Let_def split: option.splits prod.splits)

lemma agree_update_round:
  assumes "agree Q t"
  shows "agree Q (snd (update_round E k t))"
  using assms by (auto simp: update_round_def intro!: keeps split: option.splits)

lemma agree_UpdateAll_loop:
  shows "agree Q t \<Longrightarrow> agree Q (UpdateAll_loop E ks t)"
  by (induction ks arbitrary: t)
    (simp_all add: UpdateAll_loop_round agree_update_round del: UpdateAll_loop.simps(2))

lemma agree_OnUpdateAll [keeps]:
  "agree Q t \<Longrightarrow> agree Q (OnUpdateAllRecognitionState E t)"
  by (simp add: OnUpdateAllRecognitionState_def agree_UpdateAll_loop)

lemma StartAll_loop_Cons:
  "StartAll_loop E (k # ks) t =
     (case om_find k (th_modelDataMap t) of
        None \<Rightarrow> StartAll_loop E ks t
      | Some x \<Rightarrow>
          if \<not> (md_requested x \<and> \<not> IsConflictSceneActive E t) then StartAll_loop E ks t
          else if fst (PrepareForRecognition E k t) \<noteq> 0 then snd (PrepareForRecognition E k t)
          else StartAll_loop E ks (snd (StartRecognition E k (snd (PrepareForRecognition E k t)))))"
  by (simp split: option.splits prod.splits)

lemma agree_StartAll_loop:
  shows "agree Q t \<Longrightarrow> agree Q (StartAll_loop E ks t)"
  by (induction ks arbitrary: t)
    (simp_all add: StartAll_loop_Cons agree_StartRecognition agree_PrepareForRecognition
      del: StartAll_loop.simps(2) split: option.split)

lemma agree_StopAll_loop:
  shows "agree Q t \<Longrightarrow> agree Q (StopAll_loop E ks t)"
  by (induction ks arbitrary: t) (simp_all add: agree_StopRecognition split: option.split)

lemma agree_RestartAll [keeps]:
  "agree Q t \<Longrightarrow> agree Q (RestartAllRecognition E t)"
  by (simp add: RestartAllRecognition_def StartAllRecognition_def StopAllRecognition_def
      agree_StartAll_loop agree_StopAll_loop)

lemma agree_Create:
  assumes a: "agree Q t" and n: "om_find k (th_modelDataMap t) = None"
  shows "agree Q (CreateTriggerModelData k t)"
  using a n
  by (auto simp: agree_def linked_def CreateTriggerModelData_def entries_ok_def handles_ok_def conn_ok_def
      TriggerModelData_new_def entry_ok_def)

lemma agree_erase:
  "agree Q t \<Longrightarrow> agree Q (t\<lparr>th_modelDataMap := om_erase k (th_modelDataMap t)\<rparr>)"
  by (auto simp: agree_def linked_def entries_ok_def handles_ok_def conn_ok_def om_ok_erase)

text \<open>The part of \<open>StartGenericRecognition\<close> after the entry has been prepared.\<close>

definition begin_recognition ::
  "'h trigger_env \<Rightarrow> int \<Rightarrow> nat option \<Rightarrow> TriggerModelData \<Rightarrow> 'h TriggerHelper \<Rightarrow> int \<times> 'h TriggerHelper" where
  "begin_recognition E k cb x t =
     (let t2 = upd_md k (\<lambda>_. (SetCallback cb x)\<lparr>md_requested := True\<rparr>) t in
      if IsConflictSceneActive E t2 then (0, t2)
      else (case PrepareForRecognition E k t2 of (ret, t3) \<Rightarrow>
        if ret \<noteq> 0 then (ret, t3) else StartRecognition E k t3))"

definition with_entry :: "int \<Rightarrow> 'h TriggerHelper \<Rightarrow> 'h TriggerHelper" where
  "with_entry k t = (if om_find k (th_modelDataMap t) = None then CreateTriggerModelData k t else t)"

lemma agree_with_entry: "agree Q t \<Longrightarrow> agree Q (with_entry k t)"
  by (simp add: with_entry_def agree_Create)

lemma with_entry_found: "\<exists>x. om_find k (th_modelDataMap (with_entry k t)) = Some x"
  by (auto simp: with_entry_def CreateTriggerModelData_def)

lemma StartGeneric_cases:
  assumes "StartGenericRecognition E k m cb t = Ret (r, u)"
  obtains x t1 r' where "om_find k (th_modelDataMap (with_entry k t)) = Some x"
      "InitRecognition E k (\<not> SameModel m x) (with_entry k t) = (r', t1)" "r' \<noteq> 0" "r = -1" "u = t1"
    | x t1 where "om_find k (th_modelDataMap (with_entry k t)) = Some x"
      "InitRecognition E k (\<not> SameModel m x) (with_entry k t) = (0, t1)"
      "om_find k (th_modelDataMap t1) = None" "r = -1" "u = t1"
    | x t1 x1 x2 where "om_find k (th_modelDataMap (with_entry k t)) = Some x"
      "InitRecognition E k (\<not> SameModel m x) (with_entry k t) = (0, t1)"
      "om_find k (th_modelDataMap t1) = Some x1" "SetModel m x1 = Ret x2"
      "(r, u) = begin_recognition E k cb x2 t1"
proof -
  obtain x where x: "om_find k (th_modelDataMap (with_entry k t)) = Some x"
    using with_entry_found by blast
  obtain r0 t1 where i: "InitRecognition E k (\<not> SameModel m x) (with_entry k t) = (r0, t1)"
    using prod.exhaust by blast
  have eq: "StartGenericRecognition E k m cb t =
     (if r0 \<noteq> 0 then Ret (-1, t1)
      else (case om_find k (th_modelDataMap t1) of None \<Rightarrow> Ret (-1, t1)
        | Some x1 \<Rightarrow> obind (SetModel m x1) (\<lambda>x2. Ret (begin_recognition E k cb x2 t1))))"
    using x i
    by (auto simp: StartGenericRecognition_def with_entry_def begin_recognition_def Let_def
        split: option.splits prod.splits if_splits intro!: arg_cong2 [where f = obind])
  show thesis
    using that assms x i unfolding eq
    by (auto simp: obind_eq_Ret split: if_splits option.splits)
qed

lemma SetModel_frame:
  "SetModel m x = Ret y \<Longrightarrow> md_state y = md_state x \<and> md_handle y = md_handle x \<and> md_uuid y = md_uuid x"
  by (auto simp: SetModel_def Let_def split: if_splits option.splits)

lemma SetCallback_frame [simp]:
  "md_state (SetCallback cb x) = md_state x" "md_handle (SetCallback cb x) = md_handle x"
  "md_uuid (SetCallback cb x) = md_uuid x" "md_model (SetCallback cb x) = md_model x"
  by (simp_all add: SetCallback_def)

lemma agree_begin:
  assumes "agree Q t"
    and "om_find k (th_modelDataMap t) = Some x1" "SetModel m x1 = Ret x2"
  shows "agree Q (snd (begin_recognition E k cb x2 t))"
proof -
  have u: "agree Q (upd_md k (\<lambda>_. (SetCallback cb x2)\<lparr>md_requested := True\<rparr>) t)"
    using SetModel_frame [OF assms(3)] assms(2) by (intro agree_entry_frame [OF assms(1)]) simp
  show ?thesis
    using u agree_PrepareForRecognition [OF u, of E k]
      agree_StartRecognition [OF agree_PrepareForRecognition [OF u, of E k], of E k]
    by (auto simp: begin_recognition_def Let_def split: prod.splits)
qed

lemma agree_StartGeneric [keeps]:
  assumes "agree Q t" "StartGenericRecognition E k m cb t = Ret (r, u)"
  shows "agree Q u"
proof -
  note w = agree_with_entry [OF assms(1), of k]
  from assms(2) show ?thesis
  proof (cases rule: StartGeneric_cases)
    case (3 x t1 x1 x2)
    then show ?thesis
      using agree_InitRecognition [OF w, of E k "\<not> SameModel m x"] agree_begin [of Q t1 k x1 m x2 E cb]
      by (metis snd_conv)
  qed (use agree_InitRecognition [OF w] in \<open>metis snd_conv\<close>)+
qed

lemma agree_StopGeneric [keeps]:
  assumes "agree Q t"
  shows "agree Q (snd (StopGenericRecognition E k t))"
proof -
  have s: "agree Q (snd (StopRecognition E k (upd_md k (\<lambda>x. x\<lparr>md_requested := False\<rparr>) t)))"
    using assms by (auto intro!: agree_StopRecognition agree_entry_frame)
  then have "agree Q (upd_md k ClearCallback (snd (StopRecognition E k (upd_md k (\<lambda>x. x\<lparr>md_requested := False\<rparr>) t))))"
    by (rule agree_entry_frame) (simp add: ClearCallback_def)
  with s assms(1) show ?thesis
    by (auto simp: StopGenericRecognition_def split: option.splits prod.splits)
qed

lemma agree_UnloadGeneric [keeps]:
  assumes "agree Q t"
  shows "agree Q (UnloadGenericTriggerModel E k t)"
  using assms by (auto simp: UnloadGenericTriggerModel_def Let_def intro!: agree_erase keeps split: option.splits)

lemma agree_SetParameter [keeps]:
  assumes "agree Q t"
  shows "agree Q (snd (SetParameter E key val t))"
    "agree Q (snd (SetParameterForInputPipe E key val t))"
  using agree_GetModule [OF assms(1), of E] agree_SetParams [OF agree_GetModule [OF assms(1), of E]]
  by (auto simp: SetParameter_def SetParameterForInputPipe_def split: prod.splits bool.splits)

lemma agree_GetParameter [keeps]:
  assumes "agree Q t"
  shows "agree Q (snd (GetParameter E key t))"
  using agree_GetModule [OF assms(1), of E]
  by (auto simp: GetParameter_def split: prod.splits bool.splits option.splits)

subsection \<open>Recognition events\<close>

lemma find_handle_Some:
  "find_handle h m = Some k \<Longrightarrow> om_ok m \<Longrightarrow> \<exists>x. om_find k m = Some x \<and> md_handle x = h"
proof (induction h m rule: find_handle.induct)
  case (2 h k' x m)
  then show ?case
    using om_keys_find [of k m] by (auto simp: om_find_def om_ok_def om_keys_def split: if_splits)
qed simp

lemma find_handle_None: "find_handle h m = None \<Longrightarrow> om_find k m = Some x \<Longrightarrow> md_handle x \<noteq> h"
  by (induction h m rule: find_handle.induct) (auto simp: om_find_def split: if_splits)

lemma linked_event:
  assumes l: "linked Q t" and e: "ProcessRecognitionHdiEvent h (th_connector t) = (True, d)"
  shows "linked (h # Q) (t\<lparr>th_connector := d\<rparr>)"
proof -
  have st: "model_state (th_connector t) h = Some ACTIVE"
    "model_state d = (model_state (th_connector t))(h \<mapsto> LOADED)"
    using event_delivers [OF e] by auto
  have fr: "cn_adapter d = cn_adapter (th_connector t)"
    using e by (auto simp: ProcessRecognitionHdiEvent_def split: option.splits if_splits)
  have q: "h \<notin> set Q" using st linked_conn(2) [OF l, of h] by auto
  have "entry_ok d (h # Q) x" if "entry_ok (th_connector t) Q x" for x
    using that st q by (auto simp: entry_ok_def split: ModelState.splits if_splits)
  then show ?thesis
    using l st fr q linked_conn(1) [OF l, of h]
    by (auto simp: linked_def entries_ok_def handles_ok_def conn_ok_def)
qed

lemma agree_event:
  "agree Q t \<Longrightarrow> ProcessRecognitionHdiEvent h (th_connector t) = (True, d) \<Longrightarrow>
     agree (h # Q) (t\<lparr>th_connector := d\<rparr>)"
  by (erule agreeI) (simp_all add: linked_event)

text \<open>Forgetting a pending event whose handle no entry has.\<close>

lemma linked_forget:
  assumes l: "linked Q t" and h: "h \<in> set Q"
    and n: "\<And>k x. om_find k (th_modelDataMap t) = Some x \<Longrightarrow> md_state x \<noteq> MODEL_NOTLOADED \<Longrightarrow> md_handle x \<noteq> h"
  shows "linked (remove1 h Q) t"
proof -
  have s: "set (remove1 h Q) = set Q - {h}" using linked_conn(3) [OF l] by (rule set_remove1_eq)
  have "entry_ok (th_connector t) (remove1 h Q) x" if "om_find k (th_modelDataMap t) = Some x" for k x
    using linked_entry(2) [OF l that] n [OF that] s by (auto simp: entry_ok_def split: ModelState.splits)
  then show ?thesis
    using l s by (auto simp: linked_def entries_ok_def conn_ok_def)
qed

lemma linked_deliver_entry:
  assumes l: "linked Q t" and h: "h \<in> set Q"
    and k: "om_find k (th_modelDataMap t) = Some x" "md_handle x = h"
  shows "linked (remove1 h Q) (upd_md k (\<lambda>x. x\<lparr>md_state := MODEL_LOADED\<rparr>) t)"
proof -
  let ?c = "th_connector t" and ?n = "\<lambda>x. x\<lparr>md_state := MODEL_NOTLOADED\<rparr>"
  let ?l = "\<lambda>x. x\<lparr>md_state := MODEL_LOADED\<rparr>" and ?u = "upd_md k ?n t"
  have lo: "model_state ?c h = Some LOADED" and h0: "h \<noteq> 0" and m: "th_module t"
    using linked_conn(1,2) [OF l, of h] h by auto
  have s: "set (remove1 h Q) = set Q - {h}" using linked_conn(3) [OF l] by (rule set_remove1_eq)
  have "linked Q (upd_md k ?n (t\<lparr>th_connector := ?c\<rparr>))"
    using lo h0 k h m
    by (intro linked_change [OF l k(1), where v = "Some LOADED"]) (auto simp: entry_ok_def)
  then have n: "linked Q ?u" by simp
  have uniq: "j = k" if "om_find j (th_modelDataMap t) = Some y" "md_handle y = h" for j y
    using that k h0 l by (auto simp: linked_def handles_ok_def)
  have r: "linked (remove1 h Q) ?u"
  proof (rule linked_forget [OF n h])
    fix j y
    assume "om_find j (th_modelDataMap ?u) = Some y" "md_state y \<noteq> MODEL_NOTLOADED"
    then have "j \<noteq> k \<and> om_find j (th_modelDataMap t) = Some y"
      using k by (cases "j = k") auto
    then show "md_handle y \<noteq> h" using uniq by blast
  qed
  have ku: "om_find k (th_modelDataMap ?u) = Some (?n x)" "th_connector ?u = ?c" "th_module ?u"
    using k m by simp_all
  have "linked (remove1 h Q) (upd_md k ?l (?u\<lparr>th_connector := ?c\<rparr>))"
    using lo h0 k(2) s ku(2,3) m
    by (intro linked_change [OF r ku(1), where v = "Some LOADED"])
      (simp_all add: entry_ok_def fun_upd_idem)
  then show ?thesis by (simp add: upd_md_def om_upd_upd)
qed

lemma agree_OnRecognition:
  assumes a: "agree Q t" and h: "h \<in> set Q"
  shows "agree (remove1 h Q) (OnRecognition h t)"
proof (cases "find_handle h (th_modelDataMap t)")
  case None
  then show ?thesis
    using a linked_forget [OF _ h] find_handle_None [OF None] by (auto simp: OnRecognition_def agree_def)
next
  case (Some k)
  then obtain x where x: "om_find k (th_modelDataMap t) = Some x" "md_handle x = h"
    using find_handle_Some a by (metis agree_def)
  then have "agree (remove1 h Q) (upd_md k (\<lambda>x. x\<lparr>md_state := MODEL_LOADED\<rparr>) t)"
    using a linked_deliver_entry [OF _ h x] by (auto simp: agree_def)
  then show ?thesis
    using Some x by (auto simp: OnRecognition_def Let_def intro: agree_coreI split: option.splits)
qed

subsection \<open>System events\<close>

lemma agree_simple_events [keeps]:
  assumes "agree Q t"
  shows "agree Q (OnCapturerStateChange E b t)" "agree Q (OnHibernateStateUpdated E b t)"
    "agree Q (snd (call_update E T cs t))" "agree Q (snd (scene_update E sc t))"
    "agree Q (OnFoldStatusChanged E fs t)"
  using assms
  by (auto simp: OnCapturerStateChange_def OnHibernateStateUpdated_def call_update_def scene_update_def
      OnFoldStatusChanged_def Let_def intro!: agree_OnUpdateAll agree_RestartAll intro: agree_coreI)

lemma agree_fold_listeners [keeps]:
  assumes "agree Q t"
  shows "agree Q (AttachFoldStatusListener E f x r st t)" "agree Q (DetachFoldStatusListener t)"
  using assms
  by (auto simp: AttachFoldStatusListener_def DetachFoldStatusListener_def RegisterFoldStatusListener_def Let_def
      intro!: agree_RestartAll intro: agree_coreI)

lemma agree_HandleFan [keeps]:
  assumes "agree Q t"
  shows "agree Q (HandleFanStateChanged E b t)"
proof -
  have "agree Q (snd (GetModule E (t\<lparr>th_fanRunning := p\<rparr>)))" for p
    using assms by (intro agree_GetModule) (auto intro: agree_coreI)
  moreover from this have "agree Q (snd (module_SetParams E k v (snd (GetModule E (t\<lparr>th_fanRunning := p\<rparr>)))))" for p k v
    using assms by (intro agree_SetParams) auto
  ultimately show ?thesis
    using assms(1) unfolding HandleFanStateChanged_def Let_def
    by (auto split: option.splits prod.splits bool.splits) (metis snd_conv)+
qed

lemma agree_SyncFan [keeps]:
  assumes "agree Q t"
  shows "agree Q (SyncFanState E t)"
  using agree_GetModule [OF assms(1), of E] agree_SetParams [OF agree_GetModule [OF assms(1), of E]] assms(1)
  by (auto simp: SyncFanState_def split: prod.splits bool.splits)

lemma agree_fan [keeps]:
  assumes "agree Q t"
  shows "agree Q (snd (OnFanStateChanged E b t))" "agree Q (AttachFanStateListener E sp G t)"
    "agree Q (DetachFanStateListener sp t)"
proof -
  have one: "agree Q (snd (OnFanStateChanged E b t))"
    if "agree Q t" for b and t :: "'a TriggerHelper"
    using that by (auto simp: OnFanStateChanged_def intro: keeps)
  show "agree Q (snd (OnFanStateChanged E b t))"
    using assms(1) by (rule one)
  have "agree Q (fold (\<lambda>b t. snd (OnFanStateChanged E b t)) bs u)" if "agree Q u" for bs u
    using that by (intro fold_invariant [where P = "agree Q"] one)
  then show "agree Q (AttachFanStateListener E sp G t)"
    using assms by (auto simp: AttachFanStateListener_def Let_def intro!: agree_SyncFan intro: agree_coreI)
  show "agree Q (DetachFanStateListener sp t)"
    using assms(1) by (auto simp: DetachFanStateListener_def Let_def intro: agree_coreI)
qed

subsection \<open>Input pipes and renderers\<close>

lemma core_load_items [simp]: "core (load_items P L items t) = core t"
  by (induction P L items t rule: load_items.induct) (auto split: concurrencyControlList.splits prod.splits)

lemma core_SetControlList [simp]: "core (SetConcurrencyControlList P L t) = core t"
  by (auto simp: SetConcurrencyControlList_def Let_def split: concurrencyControlList.splits option.splits)

lemma core_checks [simp]:
  "core (snd (CheckBlacklistConflict P b s t)) = core t" "core (snd (CheckInWhitelist P b s t)) = core t"
  by (auto simp: CheckBlacklistConflict_def CheckInWhitelist_def Let_def split: option.splits)

lemma core_checksD:
  "CheckBlacklistConflict P b s t = (x, u) \<Longrightarrow> core u = core t"
  "CheckInWhitelist P b s t = (x, u) \<Longrightarrow> core u = core t"
  using core_checks [of P b s t] by simp_all

lemma core_GetConcurrentState_loop [simp]: "core (snd (GetConcurrentState_loop P ss t)) = core t"
proof (induction ss arbitrary: t)
  case (Cons s ss)
  then show ?case by (auto simp: Let_def split: prod.split dest!: core_checksD)
qed simp

lemma core_GetConcurrentState [simp]: "core (snd (GetConcurrentState P m t)) = core t"
  by (simp add: GetConcurrentState_def)

lemma core_GetWhisperEnable_loop [simp]: "core (snd (GetWhisperEnable_loop P ss t)) = core t"
proof (induction ss arbitrary: t)
  case (Cons s ss)
  then show ?case by (auto split: prod.split dest!: core_checksD)
qed simp

lemma agree_pipe_param [keeps]:
  "agree Q t \<Longrightarrow> agree Q (pipe_param E v t)"
  by (simp add: pipe_param_def agree_SetParameter)

lemma agree_Execute [keeps]:
  assumes "agree Q t"
  shows "agree Q (ExecuteStateTransition E i j k t)"
  using assms
  by (auto simp: ExecuteStateTransition_def Let_def
      intro!: agree_pipe_param agree_OnUpdateAll agree_StartRecognition
      split: captureMethod.splits option.splits)

lemma agree_Execute_loop [keeps]:
  "agree Q t \<Longrightarrow> agree Q (Execute_loop E i j ks t)"
  by (induction ks arbitrary: t) (auto intro: agree_Execute)

lemma agree_first_proc [keeps]:
  "agree Q t \<Longrightarrow> agree Q (first_proc E t)"
  by (simp add: first_proc_def agree_pipe_param)

text \<open>The decision of the listener and the state after the lists were consulted.\<close>

definition pipe_decision :: "pipe_env \<Rightarrow> 'h TriggerHelper \<Rightarrow> (bool \<times> bool \<times> bool) \<times> 'h TriggerHelper" where
  "pipe_decision P t =
     (case GetConcurrentState P (GetPipeInfo P) t of (isConcurrent, t1) \<Rightarrow>
        (case (if th_mExtensionConcurrency t1 then GetWhisperEnable P (GetPipeInfo P) t1 else (True, t1)) of
           (whisper, t2) \<Rightarrow> ((isConcurrent, source_running (GetPipeInfo P) t, whisper), t2)))"

definition pipe_apply :: "'h trigger_env \<Rightarrow> bool \<times> bool \<times> bool \<Rightarrow> 'h TriggerHelper \<Rightarrow> 'h TriggerHelper" where
  "pipe_apply E d t =
     (case d of (conc, run, whisper) \<Rightarrow>
        if conc = th_audioConcurrentCapture t \<and> run = th_audioCaptureActive t \<and>
           (\<not> th_mExtensionConcurrency t \<or> whisper = th_whitelistWhisperEnbale t) then t
        else let i = stateToInt (th_audioConcurrentCapture t) (th_audioCaptureActive t);
                 j = stateToInt conc run;
                 t3 = t\<lparr>th_audioConcurrentCapture := conc, th_audioCaptureActive := run,
                        th_whitelistWhisperEnbale := whisper\<rparr>
             in if th_modelDataMap t3 = [] then ExecuteStateTransition E i j None t3
                else Execute_loop E i j (om_keys (th_modelDataMap t3)) t3)"

lemma OnInputPipeChange_steps:
  "OnInputPipeChange E P t =
     (case pipe_decision P (first_proc E t) of (d, t2) \<Rightarrow> pipe_apply E d t2)"
  by (simp add: OnInputPipeChange_def pipe_decision_def pipe_apply_def Let_def split: prod.splits)

lemma core_pipe_decision [simp]: "core (snd (pipe_decision P t)) = core t"
  by (simp add: pipe_decision_def GetWhisperEnable_def split_def)

lemma agree_pipe_apply [keeps]:
  "agree Q t \<Longrightarrow> agree Q (pipe_apply E d t)"
  by (auto simp: pipe_apply_def Let_def intro!: agree_Execute agree_Execute_loop split: prod.splits)

lemma agree_OnInputPipeChange [keeps]:
  assumes "agree Q t"
  shows "agree Q (OnInputPipeChange E P t)"
  using agree_pipe_apply [OF agree_coreI [OF agree_first_proc [OF assms] core_pipe_decision]]
  by (auto simp: OnInputPipeChange_steps split: prod.splits) (metis snd_conv)

lemma agree_notify [keeps]:
  "agree Q t \<Longrightarrow> notify_pipe E P t = Ret u \<Longrightarrow> agree Q u"
  by (auto simp: notify_pipe_def intro: keeps split: if_splits)

lemma agree_pipe_events [keeps]:
  assumes "agree Q t"
  shows "agree Q (OnCallStateUpdated E P T cs t)"
    "OnAudioSceneChange E P sc t = Ret u \<Longrightarrow> agree Q u"
    "agree Q (AttachAudioEngineListener E P A b t)" "agree Q (DetachAudioEngineListener t)"
    "agree Q (ClearConcurrentControlList w bl t)"
proof -
  show "agree Q (OnCallStateUpdated E P T cs t)"
    using agree_simple_events(3) [OF assms, of E T cs]
    by (auto simp: OnCallStateUpdated_def intro!: agree_OnInputPipeChange split: prod.splits bool.splits)
  show "agree Q u" if "OnAudioSceneChange E P sc t = Ret u"
    using that agree_simple_events(4) [OF assms, of E sc] agree_notify
    by (auto simp: OnAudioSceneChange_def split: prod.splits bool.splits)
  show "agree Q (AttachAudioEngineListener E P A b t)"
    using assms by (auto simp: AttachAudioEngineListener_def set_abilities_def Let_def intro!: agree_OnInputPipeChange)
qed (use assms in \<open>auto simp: DetachAudioEngineListener_def ClearConcurrentControlList_def\<close>)

lemma core_renderer_scan [simp]: "core (snd (renderer_scan C infos m t)) = core t"
  by (induction C infos m t rule: renderer_scan.induct) (auto simp: Let_def)

lemma agree_renderer_notify:
  "agree Q t \<Longrightarrow> agree Q (renderer_notify E m t)"
  by (induction E m t rule: renderer_notify.induct) (simp_all add: agree_SetParameter)

lemma agree_renderer [keeps]:
  assumes "agree Q t" "OnRendererStateChange E P C infos t = Ret u"
  shows "agree Q u"
proof -
  let ?t = "t\<lparr>th_hasStreamBesidesVoip := False, th_hasStreamBesidesVoice := False\<rparr>"
  have "agree Q (snd (renderer_scan C infos [] ?t))"
    using assms(1) by (intro agree_coreI [OF _ core_renderer_scan]) simp
  then show ?thesis
    using assms(2) agree_renderer_notify agree_notify
    by (auto simp: OnRendererStateChange_def split: prod.splits) blast
qed

lemma agree_OnReceive [keeps]:
  "agree Q t \<Longrightarrow> agree Q (t\<lparr>th_connector := OnReceive ours st (th_connector t)\<rparr>)"
  by (rule agree_quiet) (auto simp: OnReceive_def Let_def intro: model_state_eqI)

section \<open>Interleavings\<close>

text \<open>
  The whole trigger service as a transition system over the driver \<open>H\<close>: each client call, each system
  event, each driver event at the connector and each delivery of such an event to the helper is one
  step (the helper's mutex is held for its length); what the environment answers is free at each step.
  \<open>con\<close> is the build switch \<open>SUPPORT_RECORD_WAKEUP_CONCURRENT\<close>, without which the input pipe listener
  is not compiled.
\<close>

definition build :: "bool \<Rightarrow> 'h hal \<Rightarrow> 'h trigger_env \<Rightarrow> bool" where
  "build con H E \<longleftrightarrow> env_hal E = H \<and> env_concurrent E = con"

inductive system_step ::
  "bool \<Rightarrow> 'h hal \<Rightarrow> 'h TriggerHelper \<times> int list \<Rightarrow> 'h TriggerHelper \<times> int list \<Rightarrow> bool" for con H where
  ss_event: "ProcessRecognitionHdiEvent h (th_connector t) = (True, d) \<Longrightarrow>
    system_step con H (t, Q) (t\<lparr>th_connector := d\<rparr>, h # Q)"
| ss_deliver: "h \<in> set Q \<Longrightarrow> system_step con H (t, Q) (OnRecognition h t, remove1 h Q)"
| ss_status: "system_step con H (t, Q) (t\<lparr>th_connector := OnReceive ours st (th_connector t)\<rparr>, Q)"
| ss_call: "build con H E \<Longrightarrow> system_step con H (t, Q) (OnCallStateUpdated E P T cs t, Q)"
| ss_scene: "build con H E \<Longrightarrow> OnAudioSceneChange E P sc t = Ret u \<Longrightarrow> system_step con H (t, Q) (u, Q)"
| ss_capturer: "build con H E \<Longrightarrow> system_step con H (t, Q) (OnCapturerStateChange E b t, Q)"
| ss_hibernate: "build con H E \<Longrightarrow> system_step con H (t, Q) (OnHibernateStateUpdated E b t, Q)"
| ss_fold: "build con H E \<Longrightarrow> system_step con H (t, Q) (OnFoldStatusChanged E fs t, Q)"
| ss_attach_fold: "build con H E \<Longrightarrow> system_step con H (t, Q) (AttachFoldStatusListener E f x r fs t, Q)"
| ss_detach_fold: "system_step con H (t, Q) (DetachFoldStatusListener t, Q)"
| ss_fan: "build con H E \<Longrightarrow> system_step con H (t, Q) (snd (OnFanStateChanged E buf t), Q)"
| ss_attach_fan: "build con H E \<Longrightarrow> system_step con H (t, Q) (AttachFanStateListener E b G t, Q)"
| ss_detach_fan: "system_step con H (t, Q) (DetachFanStateListener b t, Q)"
| ss_pipe: "con \<Longrightarrow> build con H E \<Longrightarrow> system_step con H (t, Q) (OnInputPipeChange E P t, Q)"
| ss_attach_pipe: "con \<Longrightarrow> build con H E \<Longrightarrow> system_step con H (t, Q) (AttachAudioEngineListener E P A b t, Q)"
| ss_detach_pipe: "con \<Longrightarrow> system_step con H (t, Q) (DetachAudioEngineListener t, Q)"
| ss_clear: "con \<Longrightarrow> system_step con H (t, Q) (ClearConcurrentControlList w b t, Q)"
| ss_renderer: "build con H E \<Longrightarrow> OnRendererStateChange E P C infos t = Ret u \<Longrightarrow> system_step con H (t, Q) (u, Q)"

inductive helper_step ::
  "'h hal \<Rightarrow> 'h TriggerHelper \<times> int list \<Rightarrow> 'h TriggerHelper \<times> int list \<Rightarrow> bool" for H where
  hs_start: "env_hal E = H \<Longrightarrow> StartGenericRecognition E k m cb t = Ret (r, u) \<Longrightarrow> helper_step H (t, Q) (u, Q)"
| hs_stop: "env_hal E = H \<Longrightarrow> helper_step H (t, Q) (snd (StopGenericRecognition E k t), Q)"
| hs_unload: "env_hal E = H \<Longrightarrow> helper_step H (t, Q) (UnloadGenericTriggerModel E k t, Q)"
| hs_set: "env_hal E = H \<Longrightarrow> helper_step H (t, Q) (snd (SetParameter E key val t), Q)"
| hs_get: "env_hal E = H \<Longrightarrow> helper_step H (t, Q) (snd (GetParameter E key t), Q)"
| hs_system: "system_step con H (t, Q) (u, R) \<Longrightarrow> helper_step H (t, Q) (u, R)"

inductive_cases system_stepE: "system_step con H (t, Q) (u, R)"
inductive_cases helper_stepE: "helper_step H (t, Q) (u, R)"

definition helper_start :: "'h TriggerHelper \<times> int list \<Rightarrow> bool" where
  "helper_start s \<longleftrightarrow> (\<exists>c w. s = (TriggerHelper_new c w, []) \<and> cn_loadedModels c = [])"

lemma agree_new: "cn_loadedModels c = [] \<Longrightarrow> agree [] (TriggerHelper_new c w)"
  by (simp add: agree_def linked_def TriggerHelper_new_def entries_ok_def handles_ok_def conn_ok_def model_state_def)

lemma agree_system_step:
  assumes "system_step con H (t, Q) (u, R)" "agree Q t"
  shows "agree R u"
  using assms(1)
proof cases
  case (ss_event h d)
  then show ?thesis using assms(2) agree_event by metis
next
  case (ss_scene E P sc)
  then show ?thesis using assms agree_pipe_events(2) by metis
next
  case (ss_renderer E P C infos)
  then show ?thesis using assms agree_renderer by metis
qed (use assms(2) in \<open>auto simp: DetachFoldStatusListener_def DetachFanStateListener_def
    DetachAudioEngineListener_def ClearConcurrentControlList_def Let_def intro: keeps agree_OnRecognition\<close>)

lemma agree_helper_step:
  assumes "helper_step H (t, Q) (u, R)" "agree Q t"
  shows "agree R u"
  using assms(1)
proof cases
  case (hs_start E k m cb r)
  then show ?thesis using assms agree_StartGeneric by metis
qed (use assms(2) in \<open>auto intro: keeps agree_system_step\<close>)

interpretation helper: invariant_system helper_start "helper_step H" "\<lambda>(t, Q). agree Q t" for H
  by unfold_locales (auto simp: helper_start_def agree_new dest: agree_helper_step)

section \<open>What the operations change\<close>

text \<open>The flags a conflict depends on, and the rest of what no recognition primitive touches.\<close>

definition scene :: "'h TriggerHelper \<Rightarrow> bool \<times> bool \<times> bool \<times> AudioScene \<times> bool \<times> bool \<times> bool \<times> bool \<times> FoldStatus \<times> bool \<times> bool" where
  "scene t = (th_callActive t, th_systemHibernate t, th_audioCaptureActive t, th_audioScene t,
     th_audioConcurrentCapture t, th_mVoipConcurrency t, th_mCallConcurrency t, th_isFoldable t, th_curFoldStatus t,
     th_mExtensionConcurrency t, th_whitelistWhisperEnbale t)"

lemma scene_conflict: "scene t = scene u \<Longrightarrow> IsConflictSceneActive E t = IsConflictSceneActive E u"
  by (simp add: scene_def IsConflictSceneActive_def)

lemma scene_upd_md [simp]: "scene (upd_md k f t) = scene t"
  by (simp add: scene_def upd_md_def)

text \<open>\<open>only k t u\<close>: from \<open>t\<close> to \<open>u\<close> only the entry \<open>k\<close> (and the connector) changed, and of it neither the
  identity nor what the client asked for.\<close>

definition only :: "int \<Rightarrow> 'h TriggerHelper \<Rightarrow> 'h TriggerHelper \<Rightarrow> bool" where
  "only k t u \<longleftrightarrow> scene u = scene t \<and> (th_handleClash t \<longrightarrow> th_handleClash u) \<and> om_keys (th_modelDataMap u) = om_keys (th_modelDataMap t) \<and>
     (\<forall>j. j \<noteq> k \<longrightarrow> om_find j (th_modelDataMap u) = om_find j (th_modelDataMap t)) \<and>
     (\<forall>x. om_find k (th_modelDataMap t) = Some x \<longrightarrow>
        (\<exists>y. om_find k (th_modelDataMap u) = Some y \<and> md_requested y = md_requested x \<and>
             md_callback y = md_callback x \<and> (\<not> th_isFoldable t \<longrightarrow> md_model y = md_model x)))"

named_theorems frames "what the recognition primitives leave alone"

lemma only_refl [frames]: "only k t t"
  by (simp add: only_def)

lemma only_trans:
  assumes a: "only k t u" and b: "only k u v"
  shows "only k t v"
proof -
  have f: "th_isFoldable u = th_isFoldable t" using a by (simp add: only_def scene_def)
  have "\<exists>z. om_find k (th_modelDataMap v) = Some z \<and> md_requested z = md_requested x \<and>
      md_callback z = md_callback x \<and> (\<not> th_isFoldable t \<longrightarrow> md_model z = md_model x)"
    if x: "om_find k (th_modelDataMap t) = Some x" for x
  proof -
    obtain y where y: "om_find k (th_modelDataMap u) = Some y" "md_requested y = md_requested x"
      "md_callback y = md_callback x" "\<not> th_isFoldable t \<longrightarrow> md_model y = md_model x"
      using a x unfolding only_def by blast
    obtain z where "om_find k (th_modelDataMap v) = Some z" "md_requested z = md_requested y"
      "md_callback z = md_callback y" "\<not> th_isFoldable u \<longrightarrow> md_model z = md_model y"
      using b y(1) unfolding only_def by blast
    then show ?thesis using y f by auto
  qed
  then show ?thesis using a b by (simp add: only_def)
qed

lemma onlyD:
  assumes "only k t u"
  shows "scene u = scene t" "om_keys (th_modelDataMap u) = om_keys (th_modelDataMap t)"
    "j \<noteq> k \<Longrightarrow> om_find j (th_modelDataMap u) = om_find j (th_modelDataMap t)"
    "th_handleClash t \<Longrightarrow> th_handleClash u"
  using assms by (simp_all add: only_def)

lemma only_quiet [frames]:
  "th_modelDataMap u = th_modelDataMap t \<Longrightarrow> scene u = scene t \<Longrightarrow> th_handleClash u = th_handleClash t \<Longrightarrow>
     only k t u"
  by (simp add: only_def)

lemma only_upd [frames]:
  assumes "\<And>x. md_requested (f x) = md_requested x \<and> md_callback (f x) = md_callback x \<and> md_model (f x) = md_model x"
  shows "only k t (upd_md k f (t\<lparr>th_connector := d\<rparr>))"
    "only k t ((upd_md k f (t\<lparr>th_connector := d\<rparr>))\<lparr>th_handleClash := th_handleClash t \<or> b\<rparr>)"
  using assms by (auto simp: only_def upd_md_def scene_def)

lemma only_LoadModel [frames]: "only k t (snd (LoadModel E k t))"
  by (auto simp: LoadModel_def only_refl scene_def intro!: only_quiet only_upd split: option.split prod.split)

lemma only_UnloadModel [frames]: "only k t (snd (UnloadModel E k t))"
  by (auto simp: UnloadModel_def only_refl scene_def intro!: only_quiet only_upd split: option.split prod.split)

lemma only_StopRecognition [frames]: "only k t (snd (StopRecognition E k t))"
  by (auto simp: StopRecognition_def only_refl scene_def intro!: only_quiet only_upd split: option.split prod.split)

lemma scene_GetModule [simp]: "scene (snd (GetModule E t)) = scene t"
  by (auto simp: GetModule_def scene_def split: prod.splits bool.splits)

lemma scene_SetParams [simp]: "scene (snd (module_SetParams E key val t)) = scene t"
  by (auto simp: module_SetParams_def scene_def split: prod.splits)

lemma only_GetModule [frames]: "only k t (snd (GetModule E t))"
  by (rule only_quiet) (simp_all add: GetModule_frame)

lemma only_Prepare [frames]: "only k t (snd (PrepareForRecognition E k t))"
  using only_trans [OF only_GetModule [of k t E] only_LoadModel [of k "snd (GetModule E t)" E]] only_GetModule [of k t E]
  by (auto simp: PrepareForRecognition_def split: prod.splits bool.splits)

lemma only_report [frames]: "only k t (report_switch E st t)"
  by (rule only_quiet) (simp_all add: report_switch_def scene_def)

lemma only_hibernate_unload [frames]: "only k t (hibernate_unload E k t)"
  by (auto simp: hibernate_unload_def Let_def only_refl scene_def
      intro: only_trans [OF only_UnloadModel only_quiet])

lemma only_SetFoldStatus: "only k t (SetFoldStatus E t)"
proof (rule only_quiet)
  show "scene (SetFoldStatus E t) = scene t"
    using scene_GetModule [of E t]
    by (cases "GetModule E t") (simp add: SetFoldStatus_def del: scene_GetModule split: bool.split)
qed (simp_all add: SetFoldStatus_frame)

lemma only_store:
  assumes "th_isFoldable t"
  shows "only k t (upd_md k (store_model g) t)"
  using assms by (auto simp: only_def upd_md_def scene_def)

lemma only_foldable: "only k t u \<Longrightarrow> th_isFoldable u = th_isFoldable t"
  by (simp add: only_def scene_def)

lemma only_ReLoad:
  assumes "th_isFoldable t"
  shows "only k t (ReLoadWhisperModel E k t)"
proof -
  have up: "only k t (UpdateGenericTriggerModel g t)" for g
    by (auto simp: UpdateGenericTriggerModel_def scene_def intro: only_quiet split: option.split)
  have un: "only k t (snd (UnloadModel E k (UpdateGenericTriggerModel g t)))" for g
    using only_trans [OF up only_UnloadModel] .
  have "only k t (upd_md k (store_model g) (snd (UnloadModel E k (UpdateGenericTriggerModel (Some g) t))))" for g
    using only_trans [OF un only_store] only_foldable [OF un] assms by blast
  then have "only k t (snd (LoadModel E k (upd_md k (store_model g)
      (snd (UnloadModel E k (UpdateGenericTriggerModel (Some g) t))))))" for g
    using only_trans [OF _ only_LoadModel] by blast
  then show ?thesis using up by (auto simp: ReLoad_steps only_refl split: option.split)
qed

lemma only_Fold: "only k t (FoldStatusOperation E k t)"
  using only_ReLoad [of t k E] only_trans [OF only_ReLoad only_SetFoldStatus, of t k E]
  by (auto simp: FoldStatusOperation_def Let_def only_refl split: list.splits option.splits)

lemma only_before_start: "only k t (before_start E k t)"
proof -
  have g: "only k u (HandleWakeupInputGain E u)" for u :: "'a TriggerHelper"
    by (rule only_quiet) (simp_all add: HandleWakeupInputGain_def scene_def)
  show ?thesis
    using only_Fold [of k t E] only_trans [OF only_Fold [of k t E] g] g
    by (simp add: before_start_def Let_def only_refl)
qed

lemma only_start_session: "only k t (snd (start_session E k t))"
  by (auto simp: start_session_def only_refl scene_def intro!: only_quiet only_upd split: option.split prod.split)

lemma only_StartRecognition [frames]: "only k t (snd (StartRecognition E k t))"
  by (auto simp: StartRecognition_steps only_refl split: option.split
      intro: only_trans [OF only_before_start only_start_session])

lemma only_update_round: "only k t (snd (update_round E k t))"
  unfolding update_round_def
  by (auto simp: only_refl split: option.split
      intro!: only_trans [OF _ only_StartRecognition] only_trans [OF _ only_report]
        only_trans [OF _ only_hibernate_unload] only_trans [OF _ only_StopRecognition] only_Prepare only_report)

lemma Prepare_ok:
  assumes "PrepareForRecognition E k t = (0, u)" "om_find k (th_modelDataMap t) = Some x" "md_state x \<noteq> MODEL_STARTED"
  shows "\<exists>h. om_find k (th_modelDataMap u) = Some (x\<lparr>md_handle := h, md_state := MODEL_LOADED\<rparr>)" "th_module u"
proof -
  obtain b t1 where g: "GetModule E t = (b, t1)" using prod.exhaust by blast
  then have t1: "th_modelDataMap t1 = th_modelDataMap t" "b = th_module t1"
    using GetModule_frame(1,4) [of E t] by auto
  obtain r t2 where l: "LoadModel E k t1 = (r, t2)" using prod.exhaust by blast
  have ru: "b" "r = 0" "u = t2"
    using assms(1) g l by (auto simp: PrepareForRecognition_def split: bool.splits if_splits)
  have "th_module t2" using l ru t1 by (auto simp: LoadModel_def upd_md_def split: option.splits if_splits prod.splits)
  then show "th_module u" using ru by simp
  show "\<exists>h. om_find k (th_modelDataMap u) = Some (x\<lparr>md_handle := h, md_state := MODEL_LOADED\<rparr>)"
  proof (cases "md_state x")
    case MODEL_LOADED
    then have "om_find k (th_modelDataMap u) = Some (x\<lparr>md_handle := md_handle x, md_state := MODEL_LOADED\<rparr>)"
      using l ru t1 assms(2) by (auto simp: LoadModel_def)
    then show ?thesis by blast
  qed (use l ru t1 assms in \<open>auto simp: LoadModel_def upd_md_def split: prod.splits if_splits\<close>)
qed

lemma Stop_ok:
  assumes "StopRecognition E k t = (0, u)" "om_find k (th_modelDataMap t) = Some x"
  shows "om_find k (th_modelDataMap u) =
     Some (if md_state x = MODEL_STARTED then x\<lparr>md_state := MODEL_LOADED\<rparr> else x)"
  using assms by (auto simp: StopRecognition_def upd_md_def split: if_splits prod.splits)

lemma StartRecognition_ok:
  assumes s: "StartRecognition E k t = (0, u)" and x: "om_find k (th_modelDataMap t) = Some x" "md_state x = MODEL_LOADED"
  shows "\<exists>y. om_find k (th_modelDataMap u) = Some y \<and> md_state y = MODEL_STARTED \<and>
     model_state (th_connector u) (md_handle y) = Some ACTIVE"
proof -
  have ss: "start_session E k (before_start E k t) = (0, u)"
    using s x by (auto simp: StartRecognition_steps split: if_splits)
  then obtain y d where y: "om_find k (th_modelDataMap (before_start E k t)) = Some y"
      "Session_Start (env_hal E) (md_handle y) (th_connector (before_start E k t)) = (0, d)"
      "u = upd_md k (\<lambda>x. x\<lparr>md_state := MODEL_STARTED\<rparr>) ((before_start E k t)\<lparr>th_connector := d\<rparr>)"
    by (auto simp: start_session_def split: option.splits prod.splits if_splits)
  then show ?thesis using conn.start_ok [OF y(2)] by simp
qed

text \<open>
  The model an entry holds after starting: the one it held, or, on a foldable device and for the
  whisper model, the one just read from the file of the fold status.
\<close>

lemma LoadModel_entry:
  "om_find k (th_modelDataMap t) = Some x \<Longrightarrow> om_find k (th_modelDataMap (snd (LoadModel E k t))) = Some y \<Longrightarrow>
     md_model y = md_model x \<and> md_uuid y = md_uuid x"
  "om_find k (th_modelDataMap t) = Some x \<Longrightarrow> om_find k (th_modelDataMap (snd (UnloadModel E k t))) = Some y \<Longrightarrow>
     md_model y = md_model x \<and> md_uuid y = md_uuid x"
  by (auto simp: LoadModel_def UnloadModel_def split: if_splits prod.splits)

lemma ReLoad_entry:
  assumes x: "om_find k (th_modelDataMap t) = Some x" and y: "om_find k (th_modelDataMap (ReLoadWhisperModel E k t)) = Some y"
  shows "md_uuid y = md_uuid x \<and> (md_model y = md_model x \<or>
     md_uuid x = PROXIMAL_WAKEUP_MODEL_UUID \<and> (\<exists>w. ReadWhisperModel E t = Some w \<and> md_model y = Some w))"
proof -
  have same: "om_find k (th_modelDataMap (UpdateGenericTriggerModel m t)) = Some x" for m
    using x by (simp add: UpdateGenericTriggerModel_def split: option.split)
  have "md_uuid y = md_uuid x \<and> md_model y = Some w"
    if "md_uuid x = PROXIMAL_WAKEUP_MODEL_UUID" "ReadWhisperModel E t = Some w" "\<not> SameModel (Some w) x" for w
  proof -
    let ?u = "snd (UnloadModel E k (UpdateGenericTriggerModel (Some w) t))"
    obtain z where z: "om_find k (th_modelDataMap ?u) = Some z"
      using only_UnloadModel [of k "UpdateGenericTriggerModel (Some w) t" E] same unfolding only_def by blast
    have zx: "md_model z = md_model x" "md_uuid z = md_uuid x" using LoadModel_entry(2) [OF same z] by auto
    then have "md_model (store_model w z) = Some w"
      using that(3) by (simp add: store_model_def SetModel_def SameModel_def Let_def)
    moreover have "om_find k (th_modelDataMap (upd_md k (store_model w) ?u)) = Some (store_model w z)" using z by simp
    ultimately show ?thesis
      using LoadModel_entry(1) [of k "upd_md k (store_model w) ?u" "store_model w z" E y] y that x zx
      by (simp add: ReLoad_steps)
  qed
  then show ?thesis using x y same by (auto simp: ReLoad_steps split: if_splits option.splits)
qed

lemma before_start_entry:
  assumes x: "om_find k (th_modelDataMap t) = Some x" and y: "om_find k (th_modelDataMap (before_start E k t)) = Some y"
  shows "md_uuid y = md_uuid x \<and> (md_model y = md_model x \<or>
     th_isFoldable t \<and> md_uuid x = PROXIMAL_WAKEUP_MODEL_UUID \<and> (\<exists>w. ReadWhisperModel E t = Some w \<and> md_model y = Some w))"
proof -
  have "th_modelDataMap (before_start E k t) =
      th_modelDataMap (if env_window E \<and> th_isFoldable t then ReLoadWhisperModel E k t else t)"
    by (auto simp: before_start_def Let_def HandleWakeupInputGain_def FoldStatusOperation_def SetFoldStatus_frame
        split: list.splits option.splits)
  then show ?thesis using x y ReLoad_entry [OF x, of E y] by (auto split: if_splits)
qed

lemma Start_entry:
  assumes x: "om_find k (th_modelDataMap t) = Some x" and y: "om_find k (th_modelDataMap (snd (StartRecognition E k t))) = Some y"
  shows "md_uuid y = md_uuid x \<and> (md_model y = md_model x \<or>
     th_isFoldable t \<and> md_uuid x = PROXIMAL_WAKEUP_MODEL_UUID \<and> (\<exists>w. ReadWhisperModel E t = Some w \<and> md_model y = Some w))"
proof (cases "md_state x = MODEL_LOADED \<and> th_module t")
  case True
  have s: "md_uuid y = md_uuid z \<and> md_model y = md_model z"
    if "om_find k (th_modelDataMap (before_start E k t)) = Some z" for z
    using that True x y by (auto simp: StartRecognition_steps start_session_def split: prod.splits if_splits)
  obtain z where z: "om_find k (th_modelDataMap (before_start E k t)) = Some z"
    using only_before_start [of k t E] x unfolding only_def by blast
  show ?thesis using s [OF z] before_start_entry [OF x z] by auto
qed (use x y in \<open>auto simp: StartRecognition_steps split: if_splits\<close>)

lemma Init_ok:
  assumes "InitRecognition E k w t = (0, u)" "om_find k (th_modelDataMap t) = Some x"
  shows "scene u = scene t" "\<exists>y. om_find k (th_modelDataMap u) = Some y \<and> md_state y \<noteq> MODEL_STARTED"
proof -
  obtain r1 t1 where s: "StopRecognition E k t = (r1, t1)" using prod.exhaust by blast
  obtain r2 t2 where n: "UnloadModel E k t1 = (r2, t2)" using prod.exhaust by blast
  have o1: "only k t t1" "only k t1 t2"
    using only_StopRecognition [of k t E] only_UnloadModel [of k t1 E] s n by simp_all
  then have "scene t2 = scene t" "scene t1 = scene t" using onlyD(1) [OF o1(1)] onlyD(1) [OF o1(2)] by simp_all
  then show "scene u = scene t"
    using assms s n by (auto simp: InitRecognition_def split: if_splits)
  obtain x1 where x1: "om_find k (th_modelDataMap t1) = Some x1" using o1(1) assms(2) unfolding only_def by blast
  obtain x2 where x2: "om_find k (th_modelDataMap t2) = Some x2" using o1(2) x1 unfolding only_def by blast
  show "\<exists>y. om_find k (th_modelDataMap u) = Some y \<and> md_state y \<noteq> MODEL_STARTED"
    using assms s n x1 x2 Stop_ok [of E k t t1 x]
    by (auto simp: InitRecognition_def upd_md_def Clear_def split: if_splits)
qed

lemma SetModel_keeps_data:
  "SetModel (Some g) x = Ret y \<Longrightarrow> \<exists>g'. md_model y = Some g' \<and> gm_data g' = gm_data g"
  by (auto simp: SetModel_def SameModel_def Let_def split: if_splits option.splits)

text \<open>The data an entry holds is \<open>d\<close>, or that of the whisper model of the fold status.\<close>

definition holds_data :: "'h trigger_env \<Rightarrow> 'h TriggerHelper \<Rightarrow> 8 word list \<Rightarrow> TriggerModelData \<Rightarrow> bool" where
  "holds_data E t d y \<longleftrightarrow> (\<exists>g. md_model y = Some g \<and>
     (gm_data g = d \<or> th_isFoldable t \<and> md_uuid y = PROXIMAL_WAKEUP_MODEL_UUID \<and> ReadWhisperModel E t = Some g))"

lemma holds_data_scene: "scene t = scene u \<Longrightarrow> holds_data E t = holds_data E u"
  by (simp add: holds_data_def scene_def ReadWhisperModel_def fun_eq_iff)

lemma begin_ok:
  assumes x1: "om_find k (th_modelDataMap t) = Some x1" "md_state x1 \<noteq> MODEL_STARTED"
    and sm: "SetModel (Some g) x1 = Ret x2" and b: "begin_recognition E k (Some cb) x2 t = (0, u)"
  shows "\<exists>y. om_find k (th_modelDataMap u) = Some y \<and> md_requested y \<and> md_callback y = Some cb \<and>
     holds_data E t (gm_data g) y \<and>
     (if IsConflictSceneActive E t then md_state y \<noteq> MODEL_STARTED
      else md_state y = MODEL_STARTED \<and> model_state (th_connector u) (md_handle y) = Some ACTIVE)"
proof -
  let ?x = "(SetCallback (Some cb) x2)\<lparr>md_requested := True\<rparr>"
  let ?t = "upd_md k (\<lambda>_. ?x) t"
  have sc: "scene ?t = scene t" by simp
  note c = scene_conflict [OF sc, of E]
  have t: "om_find k (th_modelDataMap ?t) = Some ?x" using x1 by simp
  have xs: "md_state ?x \<noteq> MODEL_STARTED" "md_requested ?x" "md_callback ?x = Some cb"
    using SetModel_frame [OF sm] x1(2) by (simp_all add: SetCallback_def)
  obtain g' where g': "md_model ?x = Some g'" "gm_data g' = gm_data g" using SetModel_keeps_data [OF sm] by auto
  show ?thesis
  proof (cases "IsConflictSceneActive E t")
    case True
    then have "u = ?t" using b c by (simp add: begin_recognition_def Let_def)
    then show ?thesis using t xs g' True by (auto simp: holds_data_def)
  next
    case False
    obtain t3 where p: "PrepareForRecognition E k ?t = (0, t3)" and s: "StartRecognition E k t3 = (0, u)"
      using b c False by (auto simp: begin_recognition_def Let_def split: prod.splits if_splits)
    obtain h where h: "om_find k (th_modelDataMap t3) = Some (?x\<lparr>md_handle := h, md_state := MODEL_LOADED\<rparr>)"
      using Prepare_ok(1) [OF p t xs(1)] by blast
    obtain y where y: "om_find k (th_modelDataMap u) = Some y" "md_state y = MODEL_STARTED"
        "model_state (th_connector u) (md_handle y) = Some ACTIVE"
      using StartRecognition_ok [OF s h] by auto
    have sc3: "scene t3 = scene t" using onlyD(1) [OF only_Prepare [of k ?t E]] p sc by simp
    have "only k t3 u" using only_StartRecognition [of k t3 E] s by simp
    then have r: "md_requested y" "md_callback y = Some cb" using h y(1) xs unfolding only_def by auto
    have "holds_data E t3 (gm_data g) y"
      using Start_entry [OF h, of E y] s y(1) g' by (auto simp: holds_data_def)
    then show ?thesis using r y False holds_data_scene [OF sc3, of E] by auto
  qed
qed

section \<open>A concrete run\<close>

definition demo_model :: GenericTriggerModel where
  "demo_model = \<lparr>gm_uuid = 1, gm_version = 1, gm_type = VOICE_WAKEUP_TYPE, gm_data = [42]\<rparr>"

definition demo_helper :: "nat TriggerHelper" where
  "demo_helper = TriggerHelper_new (demo_connector\<lparr>cn_loadedModels := []\<rparr>) WakeupTrack_init"

lemma demo_reach: "reach helper_start (helper_step demo_hal) (demo_helper, [])"
  by (rule reach_start) (auto simp: helper_start_def demo_helper_def)

lemmas demo_eval = demo_helper_def demo_env_def demo_hal_def demo_connector_def demo_model_def
  WakeupTrack_init_def TriggerHelper_new_def StartGenericRecognition_def InitRecognition_def Let_def
  CreateTriggerModelData_def TriggerModelData_new_def om_insert_def om_find_def om_upd_def upd_md_def
  SetModel_def SameModel_def SetCallback_def IsConflictSceneActive_def PrepareForRecognition_def
  GetModule_def Connector_GetModule_def LoadModel_def Validation_LoadModel_def ValidateGenericModel_def
  Session_LoadModel_def Model_Load_def CreateAshmemFromModelData_def StartRecognition_def handle_clash_def
  model_state_def
  Session_Start_def Model_Start_def

lemma demo_start: "\<exists>u. StartGenericRecognition demo_env 1 (Some demo_model) (Some 7) demo_helper = Ret (0, u)"
  by (simp add: demo_eval)

lemma demo_calm: "\<not> IsConflictSceneActive demo_env demo_helper"
  by (simp add: demo_eval)

lemma demo_started:
  obtains u y where "reach helper_start (helper_step demo_hal) (u, [])" "\<not> th_handleClash u"
    "StartGenericRecognition demo_env 1 (Some demo_model) (Some 7) demo_helper = Ret (0, u)"
    "om_find 1 (th_modelDataMap u) = Some y" "md_state y = MODEL_STARTED"
proof -
  obtain u where u: "StartGenericRecognition demo_env 1 (Some demo_model) (Some 7) demo_helper = Ret (0, u)"
    using demo_start by blast
  have "\<exists>y. om_find 1 (th_modelDataMap u) = Some y \<and> md_state y = MODEL_STARTED" "\<not> th_handleClash u"
    using u by (auto simp: demo_eval)
  moreover have "env_hal demo_env = demo_hal" by (simp add: demo_env_def)
  ultimately show thesis
    using that [of u] u reach_step [OF demo_reach hs_start [OF _ u, of demo_hal "[]"]] by auto
qed

section \<open>Properties\<close>



lemma start_request_ok:
  assumes "StartGenericRecognition E k (Some g) (Some cb) t = Ret (0, u)"
  shows "\<exists>y. om_find k (th_modelDataMap u) = Some y \<and> md_requested y \<and> md_callback y = Some cb \<and>
     holds_data E t (gm_data g) y \<and>
     (if IsConflictSceneActive E t then md_state y \<noteq> MODEL_STARTED
      else md_state y = MODEL_STARTED \<and> model_state (th_connector u) (md_handle y) = Some ACTIVE)"
proof -
  have w: "scene (with_entry k t) = scene t"
    by (simp add: with_entry_def CreateTriggerModelData_def scene_def)
  from assms show ?thesis
  proof (cases rule: StartGeneric_cases)
    case (3 x t1 x1 x2)
    have "md_state x1 \<noteq> MODEL_STARTED" and sc: "scene t1 = scene t"
      using Init_ok [OF 3(2,1)] 3(3) w by auto
    then show ?thesis
      using begin_ok [OF 3(3) _ 3(4), of E cb u] 3(5) scene_conflict [OF sc, of E] holds_data_scene [OF sc, of E]
      by simp
  qed simp_all
qed



end
