(* ===== verification/Trigger_Behaviour.thy ===== *)
theory Trigger_Behaviour
  imports Trigger_Agreement
begin

text \<open>
  What the event handlers of the trigger helper achieve: which models they may start, that a driver
  which accepts every call is brought to exactly the requested set, how a recognition event reaches
  the client, and what the input pipe listener decides.
\<close>

section \<open>Handlers start only what was asked for\<close>

text \<open>From \<open>t\<close> to \<open>u\<close> nothing is started but requested models, and only when no scene conflicts.\<close>

definition modest :: "'h trigger_env \<Rightarrow> 'h TriggerHelper \<Rightarrow> 'h TriggerHelper \<Rightarrow> bool" where
  "modest E t u \<longleftrightarrow> scene u = scene t \<and>
     (\<forall>k x. om_find k (th_modelDataMap t) = Some x \<longrightarrow>
        (\<exists>y. om_find k (th_modelDataMap u) = Some y \<and> md_requested y = md_requested x \<and>
             (md_state y = MODEL_STARTED \<longrightarrow>
                md_state x = MODEL_STARTED \<or> md_requested x \<and> \<not> IsConflictSceneActive E t)))"

lemma modest_refl: "modest E t t"
  by (simp add: modest_def)

lemma modest_trans:
  assumes a: "modest E t u" and b: "modest E u v"
  shows "modest E t v"
proof -
  have c: "IsConflictSceneActive E u = IsConflictSceneActive E t"
    using a by (intro scene_conflict) (simp add: modest_def)
  have "\<exists>z. om_find k (th_modelDataMap v) = Some z \<and> md_requested z = md_requested x \<and>
      (md_state z = MODEL_STARTED \<longrightarrow> md_state x = MODEL_STARTED \<or> md_requested x \<and> \<not> IsConflictSceneActive E t)"
    if x: "om_find k (th_modelDataMap t) = Some x" for k x
  proof -
    obtain y where y: "om_find k (th_modelDataMap u) = Some y" "md_requested y = md_requested x"
      "md_state y = MODEL_STARTED \<longrightarrow> md_state x = MODEL_STARTED \<or> md_requested x \<and> \<not> IsConflictSceneActive E t"
      using a x unfolding modest_def by blast
    obtain z where "om_find k (th_modelDataMap v) = Some z" "md_requested z = md_requested y"
      "md_state z = MODEL_STARTED \<longrightarrow> md_state y = MODEL_STARTED \<or> md_requested y \<and> \<not> IsConflictSceneActive E u"
      using b y(1) unfolding modest_def by blast
    then show ?thesis using y c by auto
  qed
  then show ?thesis using a b by (simp add: modest_def)
qed

lemma modest_only:
  assumes "only k t u"
    and "\<And>x y. om_find k (th_modelDataMap t) = Some x \<Longrightarrow> om_find k (th_modelDataMap u) = Some y \<Longrightarrow>
      md_state y = MODEL_STARTED \<Longrightarrow> md_state x = MODEL_STARTED \<or> md_requested x \<and> \<not> IsConflictSceneActive E t"
  shows "modest E t u"
  unfolding modest_def
proof (intro conjI allI impI)
  show "scene u = scene t" using assms(1) by (rule onlyD(1))
  show "\<exists>y. om_find j (th_modelDataMap u) = Some y \<and> md_requested y = md_requested x \<and>
      (md_state y = MODEL_STARTED \<longrightarrow> md_state x = MODEL_STARTED \<or> md_requested x \<and> \<not> IsConflictSceneActive E t)"
    if x: "om_find j (th_modelDataMap t) = Some x" for j x
    using x assms unfolding only_def by (cases "j = k") auto
qed

lemma no_start:
  "om_find k (th_modelDataMap t) = Some x \<Longrightarrow> om_find k (th_modelDataMap (snd (StopRecognition E k t))) = Some y \<Longrightarrow>
     md_state y = MODEL_STARTED \<Longrightarrow> md_state x = MODEL_STARTED"
  "om_find k (th_modelDataMap t) = Some x \<Longrightarrow> om_find k (th_modelDataMap (snd (UnloadModel E k t))) = Some y \<Longrightarrow>
     md_state y = MODEL_STARTED \<Longrightarrow> md_state x = MODEL_STARTED"
  by (auto simp: StopRecognition_def UnloadModel_def upd_md_def split: if_splits prod.splits)

lemma modest_Stop: "modest E t (snd (StopRecognition E' k t))"
  by (rule modest_only [OF only_StopRecognition]) (auto dest: no_start)

lemma modest_Unload: "modest E t (snd (UnloadModel E' k t))"
  by (rule modest_only [OF only_UnloadModel]) (auto dest: no_start)

lemma modest_quiet: "th_modelDataMap u = th_modelDataMap t \<Longrightarrow> scene u = scene t \<Longrightarrow> modest E t u"
  by (simp add: modest_def)

lemma modest_report: "modest E t (report_switch E' st t)"
  by (rule modest_quiet) (simp_all add: report_switch_def scene_def)

lemma modest_hibernate: "modest E t (hibernate_unload E' k t)"
  by (auto simp: hibernate_unload_def Let_def modest_refl scene_def
      intro: modest_trans [OF modest_Unload modest_quiet])

lemma modest_needed:
  assumes "om_find k (th_modelDataMap t) = Some x" "md_requested x" "\<not> IsConflictSceneActive E t" "only k t u"
  shows "modest E t u"
  using assms by (intro modest_only) auto

lemma only_restart:
  "only k t (snd (StartRecognition E k (report_switch E st (snd (PrepareForRecognition E k t)))))"
  "only k t (snd (StartRecognition E k (snd (PrepareForRecognition E k t))))"
  by (rule only_trans [OF only_trans [OF only_Prepare only_report] only_StartRecognition]
      only_trans [OF only_Prepare only_StartRecognition])+

lemma modest_round: "modest E t (snd (update_round E k t))"
  unfolding update_round_def
  by (auto simp: modest_refl split: option.split
      intro: modest_needed only_Prepare only_restart modest_trans [OF modest_trans [OF modest_report modest_Stop] modest_hibernate])

lemma modest_UpdateAll_loop: "modest E t (UpdateAll_loop E ks t)"
proof (induction ks arbitrary: t)
  case (Cons k ks)
  show ?case
    unfolding UpdateAll_loop_round
    using modest_round [of E t k] modest_trans [OF modest_round [of E t k] Cons.IH [of "snd (update_round E k t)"]]
    by simp
qed (simp add: modest_refl)

lemma modest_StartAll_loop: "modest E t (StartAll_loop E ks t)"
proof (induction ks arbitrary: t)
  case (Cons k ks)
  show ?case
    unfolding StartAll_loop_Cons
    by (auto split: option.split intro: Cons.IH modest_needed only_Prepare
        modest_trans [OF modest_needed [OF _ _ _ only_restart(2)] Cons.IH])
qed (simp add: modest_refl)

lemma modest_StopAll_loop: "modest E t (StopAll_loop E ks t)"
proof (induction ks arbitrary: t)
  case (Cons k ks)
  then show ?case by (auto split: option.split intro: modest_trans [OF modest_Stop])
qed (simp add: modest_refl)

lemma modest_Restart: "modest E t (RestartAllRecognition E t)"
  unfolding RestartAllRecognition_def StartAllRecognition_def StopAllRecognition_def
  by (rule modest_trans [OF modest_StopAll_loop modest_StartAll_loop])

text \<open>
  Re-evaluating the recognition states after a system event, and restarting after a fold event,
  never turns a model on that its client has not requested or while a conflicting scene is active,
  whatever the driver answers.
\<close>

theorem events_start_only_requested:
  assumes "u = OnUpdateAllRecognitionState E t \<or> u = RestartAllRecognition E t"
    and "om_find k (th_modelDataMap t) = Some x" "om_find k (th_modelDataMap u) = Some y"
    and "md_state x \<noteq> MODEL_STARTED" "md_state y = MODEL_STARTED"
  shows "md_requested x \<and> \<not> IsConflictSceneActive E t"
proof -
  have "modest E t u"
    using assms(1) modest_UpdateAll_loop modest_Restart by (auto simp: OnUpdateAllRecognitionState_def)
  then show ?thesis using assms(2-) unfolding modest_def by fastforce
qed

definition demo_waiting :: "nat TriggerHelper" where
  "demo_waiting = demo_helper\<lparr>th_modelDataMap := [(1, \<lparr>md_uuid = 1, md_state = MODEL_NOTLOADED,
     md_model = Some demo_model, md_callback = Some 7, md_handle = 0, md_requested = True\<rparr>)]\<rparr>"

lemma events_start_only_requested_witness:
  "\<exists>x y. om_find 1 (th_modelDataMap demo_waiting) = Some x \<and>
     om_find 1 (th_modelDataMap (OnUpdateAllRecognitionState demo_env demo_waiting)) = Some y \<and>
     md_state x \<noteq> MODEL_STARTED \<and> md_state y = MODEL_STARTED \<and> md_requested x"
proof -
  have "\<exists>x y. om_find 1 (th_modelDataMap demo_waiting) = Some x \<and>
     om_find 1 (th_modelDataMap (OnUpdateAllRecognitionState demo_env demo_waiting)) = Some y \<and>
     md_state x \<noteq> MODEL_STARTED \<and> md_state y = MODEL_STARTED"
    by (simp add: demo_waiting_def OnUpdateAllRecognitionState_def om_keys_def report_switch_def demo_eval)
  then show ?thesis
    using events_start_only_requested [of _ demo_env demo_waiting 1] by blast
qed

section \<open>A driver that accepts every call\<close>

definition obliging :: "'h hal \<Rightarrow> bool" where
  "obliging H \<longleftrightarrow> (\<forall>s. hal_Get H s \<and> hal_LoadAdapter H s \<and> hal_ashmem H s \<and>
     (\<forall>g. fst (hal_LoadModel H g s) = 0) \<and> (\<forall>h. fst (hal_Start H h s) = 0 \<and> fst (hal_Stop H h s) = 0))"

lemma Session_Stop_obliges:
  assumes "obliging H" "cn_adapter c" "model_state c h = Some ACTIVE"
  shows "fst (Session_Stop H h c) = 0"
  using assms
  by (auto simp: Session_Stop_def Model_Stop_def model_state_def obliging_def split: option.splits prod.splits)
    (metis fst_conv)+

lemma Session_Start_obliges:
  assumes "obliging H" "cn_adapter c" "model_state c h = Some LOADED"
  shows "fst (Session_Start H h c) = 0"
  using assms
  by (auto simp: Session_Start_def Model_Start_def model_state_def obliging_def split: option.splits prod.splits)
    (metis fst_conv)+

lemma Validation_Load_obliges:
  assumes "obliging H" "cn_adapter c" "ValidateGenericModel m"
  shows "fst (Validation_LoadModel H m c) = 0"
  using assms
  by (auto simp: Validation_LoadModel_def ValidateGenericModel_def Session_LoadModel_def Model_Load_def
      CreateAshmemFromModelData_def obliging_def split: option.splits prod.splits if_splits) (metis fst_conv)+

lemma Stop_obliges:
  assumes a: "linked [] t" and o: "obliging (env_hal E)" and x: "om_find k (th_modelDataMap t) = Some x"
  shows "fst (StopRecognition E k t) = 0"
proof (cases "md_state x = MODEL_STARTED")
  case True
  then have m: "th_module t" "model_state (th_connector t) (md_handle x) = Some ACTIVE"
    using linked_entry(2,3) [OF a x] by (auto simp: entry_ok_def)
  show ?thesis
    using Session_Stop_obliges [OF o linked_conn(4) [OF a m(1)] m(2)] m x
    by (auto simp: StopRecognition_def split: prod.splits)
qed (use x in \<open>simp add: StopRecognition_def\<close>)

lemma GetModule_obliges: "obliging (env_hal E) \<Longrightarrow> env_modules E \<Longrightarrow> fst (GetModule E t)"
  by (auto simp: GetModule_def Connector_GetModule_def LoadHdiAdapter_def TriggerHostManager_Init_def
      LoadTriggerAdapter_def obliging_def split: prod.splits bool.splits if_splits)

lemma GetModule_adapter:
  assumes "th_module (snd (GetModule E t))" "th_module t \<longrightarrow> cn_adapter (th_connector t)"
  shows "cn_adapter (th_connector (snd (GetModule E t)))"
proof -
  obtain b d where g: "Connector_GetModule (env_hal E) (th_connector t) = (b, d)"
    using prod.exhaust by blast
  show ?thesis
    using assms g GetModule_frames(2) [OF g] by (cases b) (auto simp: GetModule_def split: if_splits)
qed

lemma Prepare_obliges:
  assumes l: "linked Q t" and o: "obliging (env_hal E)" "env_modules E"
    and x: "om_find k (th_modelDataMap t) = Some x" "ValidateGenericModel (md_model x)"
  shows "fst (PrepareForRecognition E k t) = 0"
proof -
  let ?u = "snd (GetModule E t)"
  have u: "om_find k (th_modelDataMap ?u) = Some x" "fst (GetModule E t)" "th_module ?u"
    using x GetModule_obliges [OF o] by (simp_all add: GetModule_frame)
  have "fst (LoadModel E k ?u) = 0"
    using Validation_Load_obliges [OF o(1) GetModule_adapter [OF u(3)] x(2)] linked_conn(4) [OF l] u
    by (auto simp: LoadModel_def split: prod.splits)
  then show ?thesis using u(2) by (auto simp: PrepareForRecognition_def split: prod.splits bool.splits)
qed

lemma Start_obliges:
  assumes a: "linked Q t" and o: "obliging (env_hal E)" and f: "\<not> th_isFoldable t"
    and x: "om_find k (th_modelDataMap t) = Some x" "md_state x = MODEL_LOADED"
  shows "fst (StartRecognition E k t) = 0"
proof -
  have b: "th_modelDataMap (before_start E k t) = th_modelDataMap t"
      "th_connector (before_start E k t) = th_connector t"
    using f by (simp_all add: before_start_def FoldStatusOperation_def HandleWakeupInputGain_def)
  have m: "th_module t" "model_state (th_connector t) (md_handle x) = Some LOADED"
    using linked_entry(2,3) [OF a x(1)] x(2) by (auto simp: entry_ok_def)
  show ?thesis
    using Session_Start_obliges [OF o linked_conn(4) [OF a m(1)] m(2)] m x b
    by (auto simp: StartRecognition_steps start_session_def split: prod.splits)
qed

text \<open>The entry \<open>k\<close> is in the state its client and the scene ask for.\<close>

definition settled :: "'h trigger_env \<Rightarrow> int \<Rightarrow> 'h TriggerHelper \<Rightarrow> bool" where
  "settled E k t \<longleftrightarrow> (\<forall>x. om_find k (th_modelDataMap t) = Some x \<longrightarrow>
     (md_state x = MODEL_STARTED) = (md_requested x \<and> \<not> IsConflictSceneActive E t))"

definition models_valid :: "'h TriggerHelper \<Rightarrow> bool" where
  "models_valid t \<longleftrightarrow> \<not> th_isFoldable t \<and>
     (\<forall>k x. om_find k (th_modelDataMap t) = Some x \<and> md_requested x \<longrightarrow> ValidateGenericModel (md_model x))"

lemma models_valid_only:
  assumes "only k t u" "models_valid t" "\<exists>x. om_find k (th_modelDataMap t) = Some x"
  shows "models_valid u"
proof -
  have f: "\<not> th_isFoldable t" "\<not> th_isFoldable u" using assms by (auto simp: models_valid_def only_foldable)
  have "ValidateGenericModel (md_model y)" if y: "om_find j (th_modelDataMap u) = Some y" "md_requested y" for j y
  proof (cases "j = k")
    case True
    obtain x where x: "om_find k (th_modelDataMap t) = Some x" using assms(3) ..
    then have "md_requested y = md_requested x \<and> md_model y = md_model x"
      using assms(1) f y(1) True unfolding only_def by auto
    then show ?thesis using x y assms(2) by (auto simp: models_valid_def)
  next
    case False
    then have "om_find j (th_modelDataMap t) = Some y" using onlyD(3) [OF assms(1)] y by simp
    then show ?thesis using y assms(2) by (auto simp: models_valid_def)
  qed
  then show ?thesis using f by (auto simp: models_valid_def)
qed

lemma settled_other: "only k t u \<Longrightarrow> j \<noteq> k \<Longrightarrow> settled E j t \<Longrightarrow> settled E j u"
  unfolding settled_def using onlyD(1,3) scene_conflict by metis

lemma settledI:
  assumes "only k t u" "om_find k (th_modelDataMap t) = Some x"
    and "om_find k (th_modelDataMap u) = Some y"
    and "(md_state y = MODEL_STARTED) = (md_requested x \<and> \<not> IsConflictSceneActive E t)"
  shows "settled E k u"
proof -
  have "md_requested y = md_requested x" using assms(1-3) unfolding only_def by auto
  then show ?thesis
    using assms scene_conflict [OF onlyD(1) [OF assms(1)], of E] by (simp add: settled_def)
qed

lemma round_starts:
  assumes a: "agree [] t"
    and o: "obliging (env_hal E)" "env_modules E" and v: "models_valid t"
    and x: "om_find k (th_modelDataMap t) = Some x" "md_requested x" "md_state x \<noteq> MODEL_STARTED"
  defines "u1 \<equiv> snd (PrepareForRecognition E k t)"
  defines "u2 \<equiv> report_switch E WAKEUP_SWITCH_STATE_OPEN u1"
  assumes n: "\<not> th_handleClash u2"
  shows "fst (PrepareForRecognition E k t) = 0"
    "\<exists>y. om_find k (th_modelDataMap (snd (StartRecognition E k u2))) = Some y \<and> md_state y = MODEL_STARTED"
proof -
  have vx: "ValidateGenericModel (md_model x)" using v x by (auto simp: models_valid_def)
  have o2: "only k t u2" unfolding u2_def u1_def by (rule only_trans [OF only_Prepare only_report])
  then have l: "linked [] t" using a n onlyD(4) [OF o2] by (blast intro: agree_linked)
  show p: "fst (PrepareForRecognition E k t) = 0" by (rule Prepare_obliges [OF l o x(1) vx])
  then have pe: "PrepareForRecognition E k t = (0, u1)" by (simp add: u1_def prod_eq_iff)
  obtain h where h: "om_find k (th_modelDataMap u2) = Some (x\<lparr>md_handle := h, md_state := MODEL_LOADED\<rparr>)"
    using Prepare_ok(1) [OF pe x(1,3)] by (auto simp: u2_def report_switch_def)
  have "agree [] u2"
    unfolding u2_def u1_def by (intro agree_report agree_PrepareForRecognition a)
  then have a2: "linked [] u2" using n by (rule agree_linked)
  have f: "\<not> th_isFoldable u2" using o2 v by (simp add: only_foldable models_valid_def)
  have "fst (StartRecognition E k u2) = 0" using Start_obliges [OF a2 o(1) f h] by simp
  then have "StartRecognition E k u2 = (0, snd (StartRecognition E k u2))" by (simp add: prod_eq_iff)
  from StartRecognition_ok [OF this h] show
    "\<exists>y. om_find k (th_modelDataMap (snd (StartRecognition E k u2))) = Some y \<and> md_state y = MODEL_STARTED"
    by auto
qed

lemma round_stops:
  assumes a: "agree [] t" "\<not> th_handleClash t" and o: "obliging (env_hal E)"
    and x: "om_find k (th_modelDataMap t) = Some x"
  defines "u \<equiv> hibernate_unload E k (snd (StopRecognition E k (report_switch E WAKEUP_SWITCH_STATE_CLOSE t)))"
  shows "\<exists>y. om_find k (th_modelDataMap u) = Some y \<and> md_state y \<noteq> MODEL_STARTED"
proof -
  let ?t = "report_switch E WAKEUP_SWITCH_STATE_CLOSE t"
  have t: "linked [] ?t" "om_find k (th_modelDataMap ?t) = Some x"
    using agree_linked [OF agree_report [OF a(1), of E WAKEUP_SWITCH_STATE_CLOSE]] a(2) x
    by (simp_all add: report_switch_def)
  have "StopRecognition E k ?t = (0, snd (StopRecognition E k ?t))"
    using Stop_obliges [OF t(1) o t(2)] by (simp add: prod_eq_iff)
  then obtain z where z: "om_find k (th_modelDataMap (snd (StopRecognition E k ?t))) = Some z"
      "md_state z \<noteq> MODEL_STARTED"
    using Stop_ok [OF _ t(2)] by fastforce
  obtain y where y: "om_find k (th_modelDataMap u) = Some y"
    using only_hibernate_unload [of k "snd (StopRecognition E k ?t)" E] z(1) unfolding only_def u_def by blast
  moreover have "md_state y \<noteq> MODEL_STARTED"
    using y z no_start(2) [OF z(1), of E] unfolding u_def hibernate_unload_def Let_def
    by (auto split: if_splits)
  ultimately show ?thesis by blast
qed

lemma round_settles:
  assumes a: "agree [] t" and n: "\<not> th_handleClash (snd (update_round E k t))"
    and o: "obliging (env_hal E)" "env_modules E" and v: "models_valid t"
  shows "fst (update_round E k t)" "settled E k (snd (update_round E k t))"
proof -
  have "fst (update_round E k t) \<and> settled E k (snd (update_round E k t))"
  proof (cases "om_find k (th_modelDataMap t)")
    case (Some x)
    let ?n = "md_requested x \<and> \<not> IsConflictSceneActive E t"
    consider "?n = (md_state x = MODEL_STARTED)" | "?n" "md_state x \<noteq> MODEL_STARTED"
      | "\<not> ?n" "md_state x = MODEL_STARTED" by blast
    moreover have nt: "\<not> th_handleClash t" using n onlyD(4) [OF only_update_round] by blast
    ultimately show ?thesis
    proof cases
      case 1
      then show ?thesis using Some by (simp add: update_round_def settled_def)
    next
      case 2
      have "\<not> th_handleClash (report_switch E WAKEUP_SWITCH_STATE_OPEN (snd (PrepareForRecognition E k t)))"
        using n 2 Some onlyD(4) [OF only_StartRecognition [of k _ E]]
        by (auto simp: update_round_def report_switch_def split: if_splits)
      note r = round_starts [OF a o v Some _ 2(2) this]
      obtain y where y: "om_find k (th_modelDataMap (snd (update_round E k t))) = Some y" "md_state y = MODEL_STARTED"
        using r 2 Some by (auto simp: update_round_def)
      then show ?thesis
        using settledI [OF only_update_round Some y(1)] 2 r(1) Some by (simp add: update_round_def)
    next
      case 3
      obtain y where y: "om_find k (th_modelDataMap (snd (update_round E k t))) = Some y" "md_state y \<noteq> MODEL_STARTED"
        using round_stops [OF a nt o(1) Some] 3 Some by (auto simp: update_round_def)
      then show ?thesis
        using settledI [OF only_update_round Some y(1)] 3 Some by (auto simp: update_round_def)
    qed
  qed (simp add: update_round_def settled_def)
  then show "fst (update_round E k t)" "settled E k (snd (update_round E k t))" by simp_all
qed

lemma clash_UpdateAll_loop: "th_handleClash t \<Longrightarrow> th_handleClash (UpdateAll_loop E ks t)"
  by (induction ks arbitrary: t)
    (use onlyD(4) [OF only_update_round] in \<open>auto simp: UpdateAll_loop_round simp del: UpdateAll_loop.simps(2)\<close>)

lemma loop_settles:
  assumes o: "obliging (env_hal E)" "env_modules E"
  shows "agree [] t \<Longrightarrow> models_valid t \<Longrightarrow> set ks \<subseteq> set (om_keys (th_modelDataMap t)) \<Longrightarrow>
     settled E j t \<or> j \<in> set ks \<Longrightarrow> \<not> th_handleClash (UpdateAll_loop E ks t) \<Longrightarrow>
     settled E j (UpdateAll_loop E ks t)"
proof (induction ks arbitrary: t)
  case (Cons k ks)
  let ?u = "snd (update_round E k t)"
  have n: "\<not> th_handleClash ?u"
    using Cons.prems(5) clash_UpdateAll_loop [of ?u E ks] unfolding UpdateAll_loop_round by (auto split: if_splits)
  note r = round_settles [OF Cons.prems(1) n o Cons.prems(2)]
  note ok = only_update_round [of k t E]
  have "\<exists>x. om_find k (th_modelDataMap t) = Some x"
    using Cons.prems(3) om_keys_find [of k "th_modelDataMap t"] by auto
  then have "models_valid ?u" by (rule models_valid_only [OF ok Cons.prems(2)])
  moreover have "settled E j ?u \<or> j \<in> set ks"
    using Cons.prems(4) r(2) settled_other [OF ok, of j E] by (cases "j = k") auto
  moreover have "UpdateAll_loop E (k # ks) t = UpdateAll_loop E ks ?u"
    using r(1) by (simp only: UpdateAll_loop_round if_True)
  ultimately show ?case
    using Cons.IH [of ?u] agree_update_round [OF Cons.prems(1)] Cons.prems(3,5) onlyD(2) [OF ok] by simp
qed simp

lemma update_all_settled:
  assumes a: "agree [] t" and o: "obliging (env_hal E)" "env_modules E" "models_valid t"
    and n: "\<not> th_handleClash (OnUpdateAllRecognitionState E t)"
  shows "settled E k (OnUpdateAllRecognitionState E t)"
proof -
  have "settled E k t \<or> k \<in> set (om_keys (th_modelDataMap t))"
    using om_keys_find [of k "th_modelDataMap t"] by (auto simp: settled_def)
  then show ?thesis
    using n unfolding OnUpdateAllRecognitionState_def by (intro loop_settles [OF o(1,2) a o(3)]) auto
qed


lemma demo_obliging: "obliging demo_hal"
  by (simp add: obliging_def demo_hal_def)


section \<open>Stopping\<close>

text \<open>
  \<open>tame b t u\<close>: from \<open>t\<close> to \<open>u\<close> the same models are registered with the same requests and callbacks and, when
  \<open>b\<close>, no model that nobody requested has been started.
\<close>

definition tame :: "bool \<Rightarrow> 'h TriggerHelper \<Rightarrow> 'h TriggerHelper \<Rightarrow> bool" where
  "tame b t u \<longleftrightarrow> om_keys (th_modelDataMap u) = om_keys (th_modelDataMap t) \<and>
     (\<forall>k x. om_find k (th_modelDataMap t) = Some x \<longrightarrow>
        (\<exists>y. om_find k (th_modelDataMap u) = Some y \<and> md_requested y = md_requested x \<and> md_callback y = md_callback x \<and>
             (b \<and> \<not> md_requested x \<and> md_state y = MODEL_STARTED \<longrightarrow> md_state x = MODEL_STARTED)))"

named_theorems tamed "steps that start nothing unrequested"

lemma tame_refl [tamed]: "tame b t t"
  by (simp add: tame_def)

lemma tame_map [tamed]: "th_modelDataMap u = th_modelDataMap t \<Longrightarrow> tame b t u"
  by (simp add: tame_def)

lemma tame_trans:
  assumes a: "tame b t u" and c: "tame b u v"
  shows "tame b t v"
proof -
  have "\<exists>z. om_find k (th_modelDataMap v) = Some z \<and> md_requested z = md_requested x \<and> md_callback z = md_callback x \<and>
      (b \<and> \<not> md_requested x \<and> md_state z = MODEL_STARTED \<longrightarrow> md_state x = MODEL_STARTED)"
    if x: "om_find k (th_modelDataMap t) = Some x" for k x
  proof -
    obtain y where y: "om_find k (th_modelDataMap u) = Some y" "md_requested y = md_requested x" "md_callback y = md_callback x"
      "b \<and> \<not> md_requested x \<and> md_state y = MODEL_STARTED \<longrightarrow> md_state x = MODEL_STARTED"
      using a x unfolding tame_def by blast
    obtain z where "om_find k (th_modelDataMap v) = Some z" "md_requested z = md_requested y" "md_callback z = md_callback y"
      "b \<and> \<not> md_requested y \<and> md_state z = MODEL_STARTED \<longrightarrow> md_state y = MODEL_STARTED"
      using c y(1) unfolding tame_def by blast
    then show ?thesis using y by auto
  qed
  then show ?thesis using a c by (simp add: tame_def)
qed

lemma tame_only:
  assumes "only k t u" "b \<Longrightarrow> modest E t u"
  shows "tame b t u"
  unfolding tame_def
proof (intro conjI allI impI)
  show "om_keys (th_modelDataMap u) = om_keys (th_modelDataMap t)" by (rule onlyD(2) [OF assms(1)])
  fix j x
  assume x: "om_find j (th_modelDataMap t) = Some x"
  then obtain y where y: "om_find j (th_modelDataMap u) = Some y" "md_requested y = md_requested x" "md_callback y = md_callback x"
    using assms(1) unfolding only_def by (cases "j = k") auto
  then show "\<exists>y. om_find j (th_modelDataMap u) = Some y \<and> md_requested y = md_requested x \<and> md_callback y = md_callback x \<and>
      (b \<and> \<not> md_requested x \<and> md_state y = MODEL_STARTED \<longrightarrow> md_state x = MODEL_STARTED)"
    using assms(2) x unfolding modest_def by fastforce
qed

lemma tame_Stop: "tame b t (snd (StopRecognition E k t))"
  by (rule tame_only [OF only_StopRecognition modest_Stop])

lemma tame_UpdateAll_loop: "tame b t (UpdateAll_loop E ks t)"
proof (induction ks arbitrary: t)
  case (Cons k ks)
  have "tame b t (snd (update_round E k t))" by (rule tame_only [OF only_update_round modest_round])
  then show ?case
    unfolding UpdateAll_loop_round using tame_trans [OF _ Cons.IH] by auto
qed (simp add: tame_refl)

lemma tame_StartAll_loop: "tame b t (StartAll_loop E ks t)"
proof (induction ks arbitrary: t)
  case (Cons k ks)
  have n: "tame b t u" if "only k t u" "om_find k (th_modelDataMap t) = Some x" "md_requested x" "\<not> IsConflictSceneActive E t" for u x
    using modest_needed [OF that(2-4,1)] by (rule tame_only [OF that(1)])
  show ?case
    unfolding StartAll_loop_Cons
    by (auto split: option.split intro: Cons.IH n only_Prepare tame_trans [OF n [OF only_restart(2)] Cons.IH])
qed (simp add: tame_refl)

lemma tame_StopAll_loop: "tame b t (StopAll_loop E ks t)"
proof (induction ks arbitrary: t)
  case (Cons k ks)
  then show ?case by (auto split: option.split intro: tame_trans [OF tame_Stop])
qed (simp add: tame_refl)

lemma tame_all [tamed]:
  "tame b t (OnUpdateAllRecognitionState E t)" "tame b t (RestartAllRecognition E t)"
  unfolding OnUpdateAllRecognitionState_def RestartAllRecognition_def StartAllRecognition_def StopAllRecognition_def
  by (rule tame_UpdateAll_loop tame_trans [OF tame_StopAll_loop tame_StartAll_loop])+

text \<open>A change of other fields before a step.\<close>

lemma tame_after: "th_modelDataMap t' = th_modelDataMap t \<Longrightarrow> tame b t' u \<Longrightarrow> tame b t u"
  by (simp add: tame_def)

lemma tame_OnRecognition [tamed]: "tame b t (OnRecognition h t)"
proof -
  have "th_modelDataMap (OnRecognition h t) = th_modelDataMap t \<or>
      (\<exists>k. th_modelDataMap (OnRecognition h t) = om_upd k (\<lambda>x. x\<lparr>md_state := MODEL_LOADED\<rparr>) (th_modelDataMap t))"
    by (auto simp: OnRecognition_def Let_def split: option.split)
  then show ?thesis by (auto simp: tame_def)
qed

lemma tame_simple [tamed]:
  "tame b t (OnCapturerStateChange E a t)" "tame b t (OnHibernateStateUpdated E a t)"
  "tame b t (snd (call_update E T cs t))" "tame b t (snd (scene_update E sc t))"
  "tame b t (OnFoldStatusChanged E fs t)" "tame b t (AttachFoldStatusListener E f x r st t)"
  "tame b t (DetachFoldStatusListener t)" "tame b t (DetachFanStateListener p t)"
  "tame b t (DetachAudioEngineListener t)" "tame b t (ClearConcurrentControlList w bl t)"
  by (auto simp: OnCapturerStateChange_def OnHibernateStateUpdated_def call_update_def scene_update_def
      OnFoldStatusChanged_def AttachFoldStatusListener_def RegisterFoldStatusListener_def DetachFoldStatusListener_def
      DetachFanStateListener_def DetachAudioEngineListener_def ClearConcurrentControlList_def Let_def
      intro: tamed tame_after [OF _ tame_all(1)] tame_after [OF _ tame_all(2)])

lemma map_SetParameter [simp]:
  "th_modelDataMap (snd (SetParameter E key val t)) = th_modelDataMap t"
  "th_modelDataMap (snd (SetParameterForInputPipe E key val t)) = th_modelDataMap t"
  "th_modelDataMap (snd (GetParameter E key t)) = th_modelDataMap t"
  using GetModule_frame(1) [of E t] module_SetParams_frame(1) [of E key val "snd (GetModule E t)"]
  by (auto simp: SetParameter_def SetParameterForInputPipe_def GetParameter_def split: prod.splits bool.splits option.splits)

lemma map_HandleFan [simp]: "th_modelDataMap (HandleFanStateChanged E buf t) = th_modelDataMap t"
proof -
  have "th_modelDataMap (snd (GetModule E (t\<lparr>th_fanRunning := p\<rparr>))) = th_modelDataMap t" for p
    by (simp add: GetModule_frame(1))
  then show ?thesis
    by (auto simp: HandleFanStateChanged_def Let_def module_SetParams_frame(1) split: option.splits prod.splits bool.splits)
      (metis snd_conv)+
qed

lemma map_fan [simp]:
  "th_modelDataMap (snd (OnFanStateChanged E buf t)) = th_modelDataMap t"
  "th_modelDataMap (AttachFanStateListener E p G t) = th_modelDataMap t"
proof -
  show one: "th_modelDataMap (snd (OnFanStateChanged E buf t)) = th_modelDataMap t" for buf and t :: "'a TriggerHelper"
    by (simp add: OnFanStateChanged_def)
  have "th_modelDataMap (fold (\<lambda>b t. snd (OnFanStateChanged E b t)) bs u) = th_modelDataMap u" for bs u
    by (induction bs arbitrary: u) (simp_all add: one)
  moreover have "th_modelDataMap (SyncFanState E u) = th_modelDataMap u" for u :: "'a TriggerHelper"
    using GetModule_frame(1) [of E u]
    by (auto simp: SyncFanState_def module_SetParams_frame(1) split: prod.splits bool.splits)
  ultimately show "th_modelDataMap (AttachFanStateListener E p G t) = th_modelDataMap t"
    by (simp add: AttachFanStateListener_def Let_def)
qed

lemma map_renderer_scan [simp]: "th_modelDataMap (snd (renderer_scan C infos m t)) = th_modelDataMap t"
  using core_renderer_scan [of C infos m t] by (simp add: core_def)

lemma map_renderer_notify [simp]: "th_modelDataMap (renderer_notify E sm t) = th_modelDataMap t"
  by (induction E sm t rule: renderer_notify.induct) simp_all

text \<open>The input pipe listener keeps requests and callbacks, but it starts models on its own.\<close>

lemma tame_Execute: "tame False t (ExecuteStateTransition E i j k t)"
proof -
  have p: "th_modelDataMap (pipe_param E v u) = th_modelDataMap u" for v and u :: "'a TriggerHelper"
    by (simp add: pipe_param_def)
  have s: "tame False t (snd (StartRecognition E i t))" for i by (rule tame_only [OF only_StartRecognition]) simp
  have "tame False t (pipe_param E v u)" if "tame False t u" for v u
    using tame_trans [OF that tame_map [OF p]] .
  then show ?thesis
    using s p
    by (auto simp: ExecuteStateTransition_def Let_def
        intro: tamed tame_after [OF p tame_all(1)] split: captureMethod.splits option.splits)
qed

lemma tame_Execute_loop: "tame False t (Execute_loop E i j ks t)"
proof (induction ks arbitrary: t)
  case (Cons k ks)
  then show ?case using tame_trans [OF tame_Execute Cons.IH] by simp
qed (simp add: tame_refl)

lemma tame_pipe: "tame False t (OnInputPipeChange E P t)"
proof -
  have a: "tame False u (pipe_apply E d u)" for d and u :: "'a TriggerHelper"
    by (auto simp: pipe_apply_def Let_def split: prod.split
        intro: tamed tame_after [OF _ tame_Execute] tame_after [OF _ tame_Execute_loop])
  have "th_modelDataMap (snd (pipe_decision P (first_proc E t))) = th_modelDataMap t"
    using core_pipe_decision [of P "first_proc E t"] by (simp add: core_def first_proc_def pipe_param_def)
  from tame_after [OF this a] show ?thesis
    by (cases "pipe_decision P (first_proc E t)") (simp add: OnInputPipeChange_steps)
qed

lemma tame_notify: "notify_pipe E P t = Ret u \<Longrightarrow> tame (\<not> env_concurrent E) t u"
  by (auto simp: notify_pipe_def tame_refl tame_pipe split: if_splits)

lemma tame_system_step:
  assumes "system_step con H (t, Q) (u, R)"
  shows "tame (\<not> con) t u"
  using assms
proof cases
  case (ss_call E P T cs)
  have "tame (\<not> con) (snd (call_update E T cs t)) u"
    using ss_call by (auto simp: OnCallStateUpdated_def build_def tame_refl tame_pipe split: prod.splits bool.splits)
  then show ?thesis by (rule tame_trans [OF tame_simple(3)])
next
  case (ss_scene E P sc)
  have "tame (\<not> con) (snd (scene_update E sc t)) u"
    using ss_scene tame_notify [of E P "snd (scene_update E sc t)" u]
    by (auto simp: OnAudioSceneChange_def build_def tame_refl split: prod.splits bool.splits)
  then show ?thesis by (rule tame_trans [OF tame_simple(4)])
next
  case (ss_renderer E P C infos)
  let ?t = "t\<lparr>th_hasStreamBesidesVoip := False, th_hasStreamBesidesVoice := False\<rparr>"
  obtain m t1 where s: "renderer_scan C infos [] ?t = (m, t1)" using prod.exhaust by blast
  have m: "th_modelDataMap (renderer_notify E m t1) = th_modelDataMap t"
    using map_renderer_scan [of C infos "[]" ?t] s by simp
  have n: "notify_pipe E P (renderer_notify E m t1) = Ret u" and "env_concurrent E = con"
    using ss_renderer s by (simp_all add: OnRendererStateChange_def build_def)
  then have "tame (\<not> con) (renderer_notify E m t1) u" using tame_notify [OF n] by simp
  then show ?thesis by (rule tame_after [OF m])
next
  case (ss_attach_pipe E P A b)
  have "tame False t (AttachAudioEngineListener E P A b t)"
    by (auto simp: AttachAudioEngineListener_def set_abilities_def Let_def intro: tamed tame_after [OF _ tame_pipe])
  then show ?thesis using ss_attach_pipe by simp
qed (auto intro: tamed simp: tame_pipe)

text \<open>Every later step but a new start request for \<open>k\<close> or the unloading of \<open>k\<close> by its client.\<close>

inductive later_step ::
  "bool \<Rightarrow> int \<Rightarrow> 'h hal \<Rightarrow> 'h TriggerHelper \<times> int list \<Rightarrow> 'h TriggerHelper \<times> int list \<Rightarrow> bool" for con k H where
  ls_start: "env_hal E = H \<Longrightarrow> j \<noteq> k \<Longrightarrow> StartGenericRecognition E j m cb t = Ret (r, u) \<Longrightarrow>
    later_step con k H (t, Q) (u, Q)"
| ls_stop: "env_hal E = H \<Longrightarrow> later_step con k H (t, Q) (snd (StopGenericRecognition E j t), Q)"
| ls_unload: "env_hal E = H \<Longrightarrow> j \<noteq> k \<Longrightarrow> later_step con k H (t, Q) (UnloadGenericTriggerModel E j t, Q)"
| ls_set: "env_hal E = H \<Longrightarrow> later_step con k H (t, Q) (snd (SetParameter E key val t), Q)"
| ls_get: "env_hal E = H \<Longrightarrow> later_step con k H (t, Q) (snd (GetParameter E key t), Q)"
| ls_system: "system_step con H (t, Q) (u, R) \<Longrightarrow> later_step con k H (t, Q) (u, R)"

lemma later_step_helper: "later_step con k H s s' \<Longrightarrow> helper_step H s s'"
  by (induction rule: later_step.induct) (auto intro: helper_step.intros)

definition at_rest :: "bool \<Rightarrow> int \<Rightarrow> 'h TriggerHelper \<Rightarrow> bool" where
  "at_rest b k t \<longleftrightarrow> (\<exists>x. om_find k (th_modelDataMap t) = Some x \<and> \<not> md_requested x \<and> md_callback x = None \<and>
     (b \<longrightarrow> md_state x \<noteq> MODEL_STARTED))"

lemma at_rest_tame: "tame b t u \<Longrightarrow> at_rest b k t \<Longrightarrow> at_rest b k u"
  unfolding tame_def at_rest_def by fastforce

lemma at_rest_entry: "om_find k (th_modelDataMap u) = om_find k (th_modelDataMap t) \<Longrightarrow> at_rest b k u = at_rest b k t"
  by (simp add: at_rest_def)

lemma other_Init:
  assumes "j \<noteq> k"
  shows "om_find k (th_modelDataMap (snd (InitRecognition E j w t))) = om_find k (th_modelDataMap t)"
  using assms onlyD(3) [OF only_StopRecognition [of j t E], of k]
    onlyD(3) [OF only_UnloadModel [of j "snd (StopRecognition E j t)" E], of k]
  by (auto simp: InitRecognition_def split: option.splits prod.splits)

lemma other_begin:
  assumes "j \<noteq> k"
  shows "om_find k (th_modelDataMap (snd (begin_recognition E j cb x t))) = om_find k (th_modelDataMap t)"
proof -
  let ?t = "upd_md j (\<lambda>_. (SetCallback cb x)\<lparr>md_requested := True\<rparr>) t"
  have "om_find k (th_modelDataMap (snd (PrepareForRecognition E j ?t))) = om_find k (th_modelDataMap t)"
    using onlyD(3) [OF only_Prepare [of j ?t E], of k] assms by simp
  then show ?thesis
    using onlyD(3) [OF only_StartRecognition [of j "snd (PrepareForRecognition E j ?t)" E], of k] assms
    by (auto simp: begin_recognition_def Let_def split: prod.splits)
qed

lemma other_StartGeneric:
  assumes "StartGenericRecognition E j m cb t = Ret (r, u)" "j \<noteq> k"
  shows "om_find k (th_modelDataMap u) = om_find k (th_modelDataMap t)"
proof -
  have w: "om_find k (th_modelDataMap (with_entry j t)) = om_find k (th_modelDataMap t)"
    using assms(2) by (simp add: with_entry_def CreateTriggerModelData_def)
  note i = other_Init [OF assms(2), of E _ "with_entry j t"]
  from assms(1) show ?thesis
    by (cases rule: StartGeneric_cases)
      (use w i other_begin [OF assms(2)] in \<open>metis snd_conv\<close>)+
qed

lemma at_rest_StopGeneric: "at_rest b k t \<Longrightarrow> at_rest b k (snd (StopGenericRecognition E j t))"
proof -
  assume r: "at_rest b k t"
  let ?t = "upd_md j (\<lambda>x. x\<lparr>md_requested := False\<rparr>) t"
  have "at_rest b k ?t" using r by (auto simp: at_rest_def)
  then have s: "at_rest b k (snd (StopRecognition E j ?t))" by (rule at_rest_tame [OF tame_Stop])
  then have "at_rest b k (upd_md j ClearCallback (snd (StopRecognition E j ?t)))"
    by (auto simp: at_rest_def ClearCallback_def)
  then show ?thesis using r s by (auto simp: StopGenericRecognition_def split: option.splits prod.splits)
qed

lemma other_UnloadGeneric:
  assumes "j \<noteq> k"
  shows "om_find k (th_modelDataMap (UnloadGenericTriggerModel E j t)) = om_find k (th_modelDataMap t)"
  using assms onlyD(3) [OF only_StopRecognition [of j t E], of k]
    onlyD(3) [OF only_UnloadModel [of j "snd (StopRecognition E j t)" E], of k]
  by (auto simp: UnloadGenericTriggerModel_def Let_def split: option.split)

lemma at_rest_later:
  assumes "later_step con k H s s'" "at_rest (\<not> con) k (fst s)"
  shows "at_rest (\<not> con) k (fst s')"
  using assms
proof (induction rule: later_step.induct)
  case (ls_start E j m cb t r u Q)
  then show ?case using at_rest_entry [OF other_StartGeneric [OF ls_start(3,2)]] by simp
next
  case (ls_unload E j t Q)
  then show ?case using at_rest_entry [OF other_UnloadGeneric [OF ls_unload(2), of E t], of "\<not> con"] by simp
next
  case (ls_system t Q u R)
  then show ?case using at_rest_tame [OF tame_system_step [OF ls_system(1)]] by simp
next
  case (ls_stop E t Q j)
  then show ?case by (simp add: at_rest_StopGeneric)
qed (auto simp: at_rest_def)

lemma at_rest_later_rtranclp:
  "(later_step con k H)\<^sup>*\<^sup>* s s' \<Longrightarrow> at_rest (\<not> con) k (fst s) \<Longrightarrow> at_rest (\<not> con) k (fst s')"
  by (induction rule: rtranclp_induct) (auto dest: at_rest_later)

lemma StopGeneric_rest:
  assumes "StopGenericRecognition E k t = (0, u)"
  shows "at_rest True k u"
proof -
  let ?t = "upd_md k (\<lambda>x. x\<lparr>md_requested := False\<rparr>) t"
  obtain x where x: "om_find k (th_modelDataMap t) = Some x"
    using assms by (auto simp: StopGenericRecognition_def split: option.splits)
  obtain t1 where s: "StopRecognition E k ?t = (0, t1)" and u: "u = upd_md k ClearCallback t1"
    using assms x by (auto simp: StopGenericRecognition_def split: prod.splits if_splits)
  have "om_find k (th_modelDataMap ?t) = Some (x\<lparr>md_requested := False\<rparr>)"
    using x by simp
  from Stop_ok [OF s this] show ?thesis
    using u by (auto simp: at_rest_def ClearCallback_def)
qed



section \<open>Recognition events\<close>

lemma find_handle_unique:
  assumes a: "linked Q t" and k: "om_find k (th_modelDataMap t) = Some x" "md_handle x \<noteq> 0"
  shows "find_handle (md_handle x) (th_modelDataMap t) = Some k"
proof (cases "find_handle (md_handle x) (th_modelDataMap t)")
  case None
  then show ?thesis using find_handle_None [OF None k(1)] by simp
next
  case (Some j)
  then obtain y where "om_find j (th_modelDataMap t) = Some y" "md_handle y = md_handle x"
    using find_handle_Some a by (metis linked_def)
  then have "j = k" using a k by (auto simp: linked_def handles_ok_def)
  with Some show ?thesis by simp
qed



section \<open>Deviations\<close>

text \<open>
  \<open>UnloadGenericTriggerModel\<close> erases the entry even when the driver refused to stop the model: nothing
  refers to the model any more and it stays active in the connector.
\<close>

definition refusing_env :: "nat trigger_env" where
  "refusing_env = demo_env\<lparr>env_hal := demo_hal\<lparr>hal_Stop := \<lambda>_ n. (-1, n)\<rparr>\<rparr>"

lemma unload_can_leak:
  "\<exists>u v. StartGenericRecognition refusing_env 1 (Some demo_model) (Some 7) demo_helper = Ret (0, u) \<and>
     v = UnloadGenericTriggerModel refusing_env 1 u \<and> om_find 1 (th_modelDataMap v) = None \<and>
     model_state (th_connector v) 6 = Some ACTIVE"
  by (simp add: refusing_env_def demo_eval UnloadGenericTriggerModel_def StopRecognition_def Session_Stop_def
      Model_Stop_def UnloadModel_def om_erase_def model_state_def)

text \<open>
  A handle the driver uses again after an unload: the unloaded model still records it, comes first in
  the map and takes the recognition of the other model.
\<close>

definition stale_handle :: "nat TriggerHelper" where
  "stale_handle = demo_helper\<lparr>th_module := True, th_modelDataMap :=
     [(1, \<lparr>md_uuid = 1, md_state = MODEL_NOTLOADED, md_model = Some demo_model, md_callback = Some 7,
           md_handle = 5, md_requested = True\<rparr>),
      (2, \<lparr>md_uuid = 2, md_state = MODEL_STARTED, md_model = Some demo_model, md_callback = Some 8,
           md_handle = 5, md_requested = True\<rparr>)]\<rparr>"

lemma unload_keeps_handle:
  "om_find k (th_modelDataMap t) = Some x \<Longrightarrow>
     \<exists>y. om_find k (th_modelDataMap (snd (UnloadModel E k t))) = Some y \<and> md_handle y = md_handle x"
  by (auto simp: UnloadModel_def split: prod.splits)

lemma stale_handle_misdelivers:
  "th_calls (OnRecognition 5 stale_handle) = [OnGenericTriggerDetected 7 5]"
  "\<exists>y. om_find 2 (th_modelDataMap (OnRecognition 5 stale_handle)) = Some y \<and> md_state y = MODEL_STARTED"
  by (simp_all add: OnRecognition_def stale_handle_def demo_helper_def TriggerHelper_new_def Let_def om_find_def
      om_upd_def upd_md_def)

text \<open>
  The transition from a state without concurrent capture into concurrent capture starts a loaded model
  without asking whether its client still wants it.
\<close>

definition demo_unrequested :: "nat TriggerHelper" where
  "demo_unrequested = demo_helper\<lparr>th_module := True, th_connector := demo_connector,
     th_modelDataMap := [(1, \<lparr>md_uuid = 1, md_state = MODEL_LOADED,
     md_model = Some demo_model, md_callback = None, md_handle = 5, md_requested = False\<rparr>)]\<rparr>"

lemma pipe_starts_unrequested:
  "\<exists>y. om_find 1 (th_modelDataMap (ExecuteStateTransition demo_env (stateToInt False True)
       (stateToInt True True) (Some 1) demo_unrequested)) = Some y \<and>
     \<not> md_requested y \<and> md_state y = MODEL_STARTED"
  by (simp add: ExecuteStateTransition_def methodTable_def stateToInt_def demo_unrequested_def demo_eval
      pipe_param_def start_key_def SetParameterForInputPipe_def module_SetParams_def Session_SetParams_def)

end
