(* ===== verification/Trigger_Service.thy ===== *)
theory Trigger_Service
  imports Trigger_Behaviour
begin

text \<open>
  The layers above the trigger helper: the observers it registers with system services
  (\<open>trigger_helper.cpp\<close>), the model database (\<open>trigger_db_helper.cpp\<close>), \<open>TriggerService\<close>,
  \<open>TriggerDetector\<close> and \<open>TriggerManager\<close>. The relational store is the record \<open>rdb\<close> of functions on a store
  state \<open>'d\<close>; what the system services answer is the record \<open>sys_env\<close>. \<open>MemoryGuard\<close> objects and logging
  are left out, and so are null results of \<open>make_shared\<close> and \<open>make_unique\<close>.
\<close>

section \<open>Observers\<close>

text \<open>What is registered with the services: the observers the code hands out.\<close>

datatype observer_kind = TELEPHONY | HIBERNATE | SLEEP | RENDERER | SCENE | CAPTURER_SOURCE

record listeners =
  ln_isTelephonyDetached :: bool
  ln_telephonyObserver0 :: bool
  ln_isRendererDetached :: bool
  ln_isSceneDetached :: bool
  ln_isHibernateDetached :: bool
  ln_hibernateCallback :: bool
  ln_sleepCallback :: bool
  ln_registered :: "observer_kind set"

definition listeners_new :: listeners where
  "listeners_new = \<lparr>ln_isTelephonyDetached = False, ln_telephonyObserver0 = False, ln_isRendererDetached = False,
     ln_isSceneDetached = False, ln_isHibernateDetached = False, ln_hibernateCallback = False,
     ln_sleepCallback = False, ln_registered = {}\<rparr>"

text \<open>
  Build switches, the presence of the managers of the audio framework, the answers to registration
  and withdrawal of each kind of observer, and what the services report at registration.
\<close>

record 'h sys_env =
  se_env :: "'h trigger_env"
  se_pipe :: pipe_env
  se_telephony :: bool
  se_power :: bool
  se_fan :: bool
  se_audioStreamManager :: bool
  se_audioSystemManager :: bool
  se_register :: "observer_kind \<Rightarrow> bool"
  se_unregister :: "observer_kind \<Rightarrow> bool"
  se_consts :: renderer_consts
  se_renderers :: "(int \<times> bool) option list"
  se_scene :: AudioScene
  se_abilities :: abilities
  se_pipeRegistered :: bool
  se_foldable :: bool
  se_whisperFile :: bool
  se_foldRegistered :: bool
  se_foldStatus :: FoldStatus
  se_fanSupported :: bool
  se_perf :: perfgenius

type_synonym 'h observed = "'h TriggerHelper \<times> listeners"

definition register :: "'h sys_env \<Rightarrow> observer_kind \<Rightarrow> listeners \<Rightarrow> listeners" where
  "register S k l = (if se_register S k then l\<lparr>ln_registered := insert k (ln_registered l)\<rparr> else l)"

definition unregister :: "'h sys_env \<Rightarrow> observer_kind \<Rightarrow> listeners \<Rightarrow> listeners" where
  "unregister S k l = (if se_unregister S k then l\<lparr>ln_registered := ln_registered l - {k}\<rparr> else l)"

definition AttachTelephonyObserver :: "'h sys_env \<Rightarrow> 'h observed \<Rightarrow> 'h observed" where
  "AttachTelephonyObserver S x =
     (case x of (t, l) \<Rightarrow>
        if ln_isTelephonyDetached l then (t, l)
        else (t, register S TELEPHONY (l\<lparr>ln_telephonyObserver0 := True\<rparr>)))"

definition DetachTelephonyObserver :: "'h sys_env \<Rightarrow> 'h observed \<Rightarrow> 'h observed" where
  "DetachTelephonyObserver S x =
     (case x of (t, l) \<Rightarrow>
        let l1 = l\<lparr>ln_isTelephonyDetached := True\<rparr> in
        if ln_telephonyObserver0 l1 then (t, (unregister S TELEPHONY l1)\<lparr>ln_telephonyObserver0 := False\<rparr>)
        else (t, l1))"

text \<open>Without \<open>SUPPORT_RECORD_WAKEUP_CONCURRENT\<close>; setting the callback has no result.\<close>

definition AttachAudioCaptureListener :: "'h sys_env \<Rightarrow> 'h observed \<Rightarrow> 'h observed" where
  "AttachAudioCaptureListener S x =
     (case x of (t, l) \<Rightarrow>
        if se_audioSystemManager S then (t, l\<lparr>ln_registered := insert CAPTURER_SOURCE (ln_registered l)\<rparr>) else (t, l))"

definition DetachAudioCaptureListener :: "'h sys_env \<Rightarrow> 'h observed \<Rightarrow> 'h observed" where
  "DetachAudioCaptureListener S x =
     (case x of (t, l) \<Rightarrow>
        if se_audioSystemManager S then (t, l\<lparr>ln_registered := ln_registered l - {CAPTURER_SOURCE}\<rparr>) else (t, l))"

definition AttachHibernateObserver :: "'h sys_env \<Rightarrow> 'h observed \<Rightarrow> 'h observed" where
  "AttachHibernateObserver S x =
     (case x of (t, l) \<Rightarrow>
        if ln_isHibernateDetached l then (t, l)
        else (t, register S SLEEP ((register S HIBERNATE (l\<lparr>ln_hibernateCallback := True\<rparr>))
                   \<lparr>ln_sleepCallback := True\<rparr>)))"

definition DetachHibernateObserver :: "'h sys_env \<Rightarrow> 'h observed \<Rightarrow> 'h observed" where
  "DetachHibernateObserver S x =
     (case x of (t, l) \<Rightarrow>
        let l1 = l\<lparr>ln_isHibernateDetached := True\<rparr> in
        if \<not> ln_hibernateCallback l1 then (t, l1)
        else let l2 = unregister S HIBERNATE l1 in
          if \<not> ln_sleepCallback l2 then (t, l2) else (t, unregister S SLEEP l2))"

text \<open>A registered listener is told the current state at once.\<close>

definition AttachAudioRendererEventListener :: "'h sys_env \<Rightarrow> 'h observed \<Rightarrow> 'h observed outcome" where
  "AttachAudioRendererEventListener S x =
     (case x of (t, l) \<Rightarrow>
        if ln_isRendererDetached l \<or> \<not> se_audioStreamManager S \<or> \<not> se_register S RENDERER then Ret (t, l)
        else obind (OnRendererStateChange (se_env S) (se_pipe S) (se_consts S) (se_renderers S) t)
               (\<lambda>u. Ret (u, register S RENDERER l)))"

definition DetachAudioRendererEventListener :: "'h sys_env \<Rightarrow> 'h observed \<Rightarrow> 'h observed" where
  "DetachAudioRendererEventListener S x =
     (case x of (t, l) \<Rightarrow>
        let l1 = l\<lparr>ln_isRendererDetached := True\<rparr> in
        if \<not> se_audioStreamManager S then (t, l1) else (t, unregister S RENDERER l1))"

definition AttachAudioSceneEventListener :: "'h sys_env \<Rightarrow> 'h observed \<Rightarrow> 'h observed outcome" where
  "AttachAudioSceneEventListener S x =
     (case x of (t, l) \<Rightarrow>
        if ln_isSceneDetached l \<or> \<not> se_audioSystemManager S \<or> \<not> se_register S SCENE then Ret (t, l)
        else obind (OnAudioSceneChange (se_env S) (se_pipe S) (se_scene S) t)
               (\<lambda>u. Ret (u, register S SCENE l)))"

definition DetachAudioSceneEventListener :: "'h sys_env \<Rightarrow> 'h observed \<Rightarrow> 'h observed" where
  "DetachAudioSceneEventListener S x =
     (case x of (t, l) \<Rightarrow>
        let l1 = l\<lparr>ln_isSceneDetached := True\<rparr> in
        if \<not> se_audioSystemManager S then (t, l1) else (t, unregister S SCENE l1))"

section \<open>TriggerDbHelper\<close>

text \<open>
  A row of the table \<open>trigger\<close>, and what reading the columns of the first row of a result gives (a
  column may be missing or null, and there may be no row). The column \<open>model_type\<close> holds the number of an
  enumerator of \<open>TriggerModelType\<close>.
\<close>

record trigger_row =
  tr_uuid :: int
  tr_vendor :: int
  tr_data :: "8 word list"
  tr_version :: int
  tr_type :: TriggerModelType

record row_view =
  rv_vendor :: "int option"
  rv_data :: "8 word list option"
  rv_version :: "int option"
  rv_type :: "TriggerModelType option"

text \<open>\<open>rdb_insert\<close> replaces a row with the same key and \<open>rdb_delete\<close> deletes by key; both say whether they
  succeeded. \<open>rdb_query\<close> is the query by key, \<open>None\<close> for a null result set.\<close>

record 'd rdb =
  rdb_insert :: "trigger_row \<Rightarrow> 'd \<Rightarrow> bool \<times> 'd"
  rdb_query :: "int \<Rightarrow> 'd \<Rightarrow> row_view option"
  rdb_delete :: "int \<Rightarrow> 'd \<Rightarrow> bool \<times> 'd"

definition VOICE_WAKEUP_MODEL_UUID :: int where
  "VOICE_WAKEUP_MODEL_UUID = 1"

definition row_of :: "GenericTriggerModel \<Rightarrow> trigger_row" where
  "row_of g = \<lparr>tr_uuid = gm_uuid g, tr_vendor = -1, tr_data = gm_data g, tr_version = gm_version g, tr_type = gm_type g\<rparr>"

text \<open>\<open>store_\<close> is \<open>None\<close> for the null pointer. The checkpoint statement after a change has no effect on the
  content.\<close>

definition Db_UpdateModel :: "'d rdb \<Rightarrow> GenericTriggerModel option \<Rightarrow> 'd option \<Rightarrow> bool \<times> 'd option" where
  "Db_UpdateModel R model store =
     (case (store, model) of
        (Some d, Some g) \<Rightarrow> (case rdb_insert R (row_of g) d of (ok, d1) \<Rightarrow> (ok, Some d1))
      | _ \<Rightarrow> (False, store))"

definition row_model :: "int \<Rightarrow> row_view \<Rightarrow> GenericTriggerModel option" where
  "row_model modelUuid v =
     (case (rv_vendor v, rv_data v, rv_version v) of
        (Some _, Some data, Some version) \<Rightarrow>
          (case (if MODLE_VERSION_2 \<le> version then rv_type v
                 else Some (if modelUuid = VOICE_WAKEUP_MODEL_UUID then VOICE_WAKEUP_TYPE else PROXIMAL_WAKEUP_TYPE)) of
             None \<Rightarrow> None
           | Some ty \<Rightarrow> Some (snd (SetData data (TriggerModel_new modelUuid version ty))))
      | _ \<Rightarrow> None)"

definition Db_GetModel :: "'d rdb \<Rightarrow> int \<Rightarrow> 'd option \<Rightarrow> GenericTriggerModel option" where
  "Db_GetModel R modelUuid store =
     (case store of
        None \<Rightarrow> None
      | Some d \<Rightarrow> (case rdb_query R modelUuid d of None \<Rightarrow> None | Some v \<Rightarrow> row_model modelUuid v))"

text \<open>The result of \<open>Delete\<close> is ignored.\<close>

definition Db_DeleteModel :: "'d rdb \<Rightarrow> int \<Rightarrow> 'd option \<Rightarrow> 'd option" where
  "Db_DeleteModel R modelUuid store =
     (case store of
        None \<Rightarrow> None
      | Some d \<Rightarrow> (case rdb_delete R modelUuid d of (_, d1) \<Rightarrow> Some d1))"

text \<open>The helper also writes models (when the device is folded); its calls reach the same database.\<close>

definition db_effect :: "'d rdb \<Rightarrow> helper_call \<Rightarrow> 'd option \<Rightarrow> 'd option" where
  "db_effect R c store =
     (case c of Db_UpdateGenericTriggerModel g \<Rightarrow> snd (Db_UpdateModel R (Some g) store) | _ \<Rightarrow> store)"

definition db_follow :: "'d rdb \<Rightarrow> 'h TriggerHelper \<Rightarrow> 'h TriggerHelper \<Rightarrow> 'd option \<Rightarrow> 'd option" where
  "db_follow R t u store = fold (db_effect R) (drop (length (th_calls t)) (th_calls u)) store"

section \<open>TriggerService\<close>

record ('h, 'd) TriggerService =
  ts_triggerHelper :: "'h observed option"
  ts_store :: "'d option"

definition Svc_UpdateGenericTriggerModel ::
  "'d rdb \<Rightarrow> GenericTriggerModel option \<Rightarrow> ('h, 'd) TriggerService \<Rightarrow> ('h, 'd) TriggerService" where
  "Svc_UpdateGenericTriggerModel R model s =
     (if model = None then s else s\<lparr>ts_store := snd (Db_UpdateModel R model (ts_store s))\<rparr>)"

definition Svc_DeleteGenericTriggerModel ::
  "'d rdb \<Rightarrow> int \<Rightarrow> ('h, 'd) TriggerService \<Rightarrow> ('h, 'd) TriggerService" where
  "Svc_DeleteGenericTriggerModel R uuid s = s\<lparr>ts_store := Db_DeleteModel R uuid (ts_store s)\<rparr>"

definition Svc_GetGenericTriggerModel ::
  "'d rdb \<Rightarrow> int \<Rightarrow> ('h, 'd) TriggerService \<Rightarrow> GenericTriggerModel option" where
  "Svc_GetGenericTriggerModel R uuid s = Db_GetModel R uuid (ts_store s)"

text \<open>The result of a helper call, with its database writes carried out.\<close>

definition set_helper ::
  "'d rdb \<Rightarrow> 'h observed \<Rightarrow> 'h observed \<Rightarrow> ('h, 'd) TriggerService \<Rightarrow> ('h, 'd) TriggerService" where
  "set_helper R x y s =
     s\<lparr>ts_triggerHelper := Some y, ts_store := db_follow R (fst x) (fst y) (ts_store s)\<rparr>"

definition Svc_StartRecognition ::
  "'h trigger_env \<Rightarrow> 'd rdb \<Rightarrow> int \<Rightarrow> nat \<Rightarrow> ('h, 'd) TriggerService \<Rightarrow> (int \<times> ('h, 'd) TriggerService) outcome" where
  "Svc_StartRecognition E R uuid callback s =
     (case ts_triggerHelper s of
        None \<Rightarrow> Ret (-1, s)
      | Some (t, l) \<Rightarrow>
          (case Svc_GetGenericTriggerModel R uuid s of
             None \<Rightarrow> Ret (-1, s)
           | Some g \<Rightarrow> obind (StartGenericRecognition E uuid (Some g) (Some callback) t)
               (\<lambda>(ret, u). Ret (ret, set_helper R (t, l) (u, l) s))))"

definition Svc_StopRecognition ::
  "'h trigger_env \<Rightarrow> 'd rdb \<Rightarrow> int \<Rightarrow> ('h, 'd) TriggerService \<Rightarrow> int \<times> ('h, 'd) TriggerService" where
  "Svc_StopRecognition E R uuid s =
     (case ts_triggerHelper s of
        None \<Rightarrow> (-1, s)
      | Some (t, l) \<Rightarrow> (case StopGenericRecognition E uuid t of (ret, u) \<Rightarrow> (ret, set_helper R (t, l) (u, l) s)))"

definition Svc_UnloadTriggerModel ::
  "'h trigger_env \<Rightarrow> 'd rdb \<Rightarrow> int \<Rightarrow> ('h, 'd) TriggerService \<Rightarrow> ('h, 'd) TriggerService" where
  "Svc_UnloadTriggerModel E R uuid s =
     (case ts_triggerHelper s of
        None \<Rightarrow> s
      | Some (t, l) \<Rightarrow> set_helper R (t, l) (UnloadGenericTriggerModel E uuid t, l) s)"

definition Svc_SetParameter ::
  "'h trigger_env \<Rightarrow> 'd rdb \<Rightarrow> string \<Rightarrow> string \<Rightarrow> ('h, 'd) TriggerService \<Rightarrow> int \<times> ('h, 'd) TriggerService" where
  "Svc_SetParameter E R key val s =
     (case ts_triggerHelper s of
        None \<Rightarrow> (-1, s)
      | Some (t, l) \<Rightarrow> (case SetParameter E key val t of (ret, u) \<Rightarrow> (ret, set_helper R (t, l) (u, l) s)))"

definition Svc_GetParameter ::
  "'h trigger_env \<Rightarrow> 'd rdb \<Rightarrow> string \<Rightarrow> ('h, 'd) TriggerService \<Rightarrow> string \<times> ('h, 'd) TriggerService" where
  "Svc_GetParameter E R key s =
     (case ts_triggerHelper s of
        None \<Rightarrow> ('''', s)
      | Some (t, l) \<Rightarrow> (case GetParameter E key t of (v, u) \<Rightarrow> (v, set_helper R (t, l) (u, l) s)))"

text \<open>The remaining operations pass a call on to the helper if there is one.\<close>

definition on_helper ::
  "'d rdb \<Rightarrow> ('h observed \<Rightarrow> 'h observed outcome) \<Rightarrow> ('h, 'd) TriggerService \<Rightarrow> ('h, 'd) TriggerService outcome" where
  "on_helper R f s =
     (case ts_triggerHelper s of
        None \<Rightarrow> Ret s
      | Some x \<Rightarrow> obind (f x) (\<lambda>y. Ret (set_helper R x y s)))"

definition Svc_AttachTelephonyObserver where
  "Svc_AttachTelephonyObserver S R = on_helper R (\<lambda>x. Ret (AttachTelephonyObserver S x))"

definition Svc_DetachTelephonyObserver where
  "Svc_DetachTelephonyObserver S R = on_helper R (\<lambda>x. Ret (DetachTelephonyObserver S x))"

definition Svc_ClearConcurrentControlList where
  "Svc_ClearConcurrentControlList R w b = on_helper R (\<lambda>(t, l). Ret (ClearConcurrentControlList w b t, l))"

definition Svc_AttachAudioCapturerEventListener where
  "Svc_AttachAudioCapturerEventListener S R = on_helper R (\<lambda>(t, l).
     Ret (AttachAudioEngineListener (se_env S) (se_pipe S) (se_abilities S) (se_pipeRegistered S) t, l))"

definition Svc_DetachAudioCapturerEventListener where
  "Svc_DetachAudioCapturerEventListener R = on_helper R (\<lambda>(t, l). Ret (DetachAudioEngineListener t, l))"

definition Svc_AttachAudioCaptureListener where
  "Svc_AttachAudioCaptureListener S R = on_helper R (\<lambda>x. Ret (AttachAudioCaptureListener S x))"

definition Svc_DetachAudioCaptureListener where
  "Svc_DetachAudioCaptureListener S R = on_helper R (\<lambda>x. Ret (DetachAudioCaptureListener S x))"

definition Svc_AttachAudioRendererEventListener where
  "Svc_AttachAudioRendererEventListener S R = on_helper R (AttachAudioRendererEventListener S)"

definition Svc_DetachAudioRendererEventListener where
  "Svc_DetachAudioRendererEventListener S R = on_helper R (\<lambda>x. Ret (DetachAudioRendererEventListener S x))"

definition Svc_AttachAudioSceneEventListener where
  "Svc_AttachAudioSceneEventListener S R = on_helper R (AttachAudioSceneEventListener S)"

definition Svc_DetachAudioSceneEventListener where
  "Svc_DetachAudioSceneEventListener S R = on_helper R (\<lambda>x. Ret (DetachAudioSceneEventListener S x))"

definition Svc_AttachFanStateListener where
  "Svc_AttachFanStateListener S R = on_helper R (\<lambda>(t, l).
     Ret (AttachFanStateListener (se_env S) (se_fanSupported S) (se_perf S) t, l))"

definition Svc_DetachFanStateListener where
  "Svc_DetachFanStateListener S R = on_helper R (\<lambda>(t, l). Ret (DetachFanStateListener (se_fanSupported S) t, l))"

definition Svc_AttachHibernateObserver where
  "Svc_AttachHibernateObserver S R = on_helper R (\<lambda>x. Ret (AttachHibernateObserver S x))"

definition Svc_DetachHibernateObserver where
  "Svc_DetachHibernateObserver S R = on_helper R (\<lambda>x. Ret (DetachHibernateObserver S x))"

definition Svc_AttachFoldStatusListener where
  "Svc_AttachFoldStatusListener S R = on_helper R (\<lambda>(t, l).
     Ret (AttachFoldStatusListener (se_env S) (se_foldable S) (se_whisperFile S) (se_foldRegistered S) (se_foldStatus S) t, l))"

definition Svc_DetachFoldStatusListener where
  "Svc_DetachFoldStatusListener R = on_helper R (\<lambda>(t, l). Ret (DetachFoldStatusListener t, l))"

section \<open>TriggerDetector and TriggerManager\<close>

record TriggerDetector =
  dt_uuid :: int
  dt_callback :: nat

text \<open>A detector shares the manager's service; \<open>None\<close> in the map is a null detector, and in
  \<open>tg_service\<close> the null service.\<close>

record ('h, 'd) TriggerManager =
  tg_detectors :: "TriggerDetector option omap"
  tg_service :: "('h, 'd) TriggerService option"

definition TriggerManager_new :: "('h, 'd) TriggerService \<Rightarrow> ('h, 'd) TriggerManager" where
  "TriggerManager_new s = \<lparr>tg_detectors = [], tg_service = Some s\<rparr>"

definition Detector_StartRecognition ::
  "'h trigger_env \<Rightarrow> 'd rdb \<Rightarrow> TriggerDetector \<Rightarrow> ('h, 'd) TriggerService option \<Rightarrow>
     (bool \<times> ('h, 'd) TriggerService option) outcome" where
  "Detector_StartRecognition E R d s =
     (case s of
        None \<Rightarrow> Ret (False, None)
      | Some v \<Rightarrow> obind (Svc_StartRecognition E R (dt_uuid d) (dt_callback d) v) (\<lambda>(ret, v1). Ret (ret = 0, Some v1)))"

definition Detector_StopRecognition ::
  "'h trigger_env \<Rightarrow> 'd rdb \<Rightarrow> TriggerDetector \<Rightarrow> ('h, 'd) TriggerService option \<Rightarrow>
     bool \<times> ('h, 'd) TriggerService option" where
  "Detector_StopRecognition E R d s =
     (case s of None \<Rightarrow> (False, None) | Some v \<Rightarrow> (True, Some (snd (Svc_StopRecognition E R (dt_uuid d) v))))"

definition Detector_UnloadTriggerModel ::
  "'h trigger_env \<Rightarrow> 'd rdb \<Rightarrow> TriggerDetector \<Rightarrow> ('h, 'd) TriggerService option \<Rightarrow> ('h, 'd) TriggerService option" where
  "Detector_UnloadTriggerModel E R d s = map_option (Svc_UnloadTriggerModel E R (dt_uuid d)) s"

definition UpdateModel ::
  "'d rdb \<Rightarrow> 8 word list \<Rightarrow> int \<Rightarrow> TriggerModelType \<Rightarrow> ('h, 'd) TriggerManager \<Rightarrow> ('h, 'd) TriggerManager" where
  "UpdateModel R buffer uuid ty g =
     (case tg_service g of
        None \<Rightarrow> g
      | Some s \<Rightarrow> g\<lparr>tg_service := Some (Svc_UpdateGenericTriggerModel R
          (Some (snd (SetData buffer (TriggerModel_new uuid MODLE_VERSION_2 ty)))) s)\<rparr>)"

definition DeleteModel :: "'d rdb \<Rightarrow> int \<Rightarrow> ('h, 'd) TriggerManager \<Rightarrow> ('h, 'd) TriggerManager" where
  "DeleteModel R uuid g = g\<lparr>tg_service := map_option (Svc_DeleteGenericTriggerModel R uuid) (tg_service g)\<rparr>"

definition GetModel :: "'d rdb \<Rightarrow> int \<Rightarrow> ('h, 'd) TriggerManager \<Rightarrow> GenericTriggerModel option" where
  "GetModel R uuid g = (case tg_service g of None \<Rightarrow> None | Some s \<Rightarrow> Svc_GetGenericTriggerModel R uuid s)"

definition IsModelExist :: "'d rdb \<Rightarrow> int \<Rightarrow> ('h, 'd) TriggerManager \<Rightarrow> bool" where
  "IsModelExist R uuid g =
     (case tg_service g of
        None \<Rightarrow> False
      | Some s \<Rightarrow> if Svc_GetGenericTriggerModel R uuid s = None then False else True)"

definition CreateDetector :: "int \<Rightarrow> nat \<Rightarrow> ('h, 'd) TriggerManager \<Rightarrow> ('h, 'd) TriggerManager" where
  "CreateDetector uuid onDetected g =
     (case om_find uuid (tg_detectors g) of
        Some (Some _) \<Rightarrow> g
      | _ \<Rightarrow> g\<lparr>tg_detectors := om_put uuid (Some \<lparr>dt_uuid = uuid, dt_callback = onDetected\<rparr>) (tg_detectors g)\<rparr>)"

definition ReleaseTriggerDetector ::
  "'h trigger_env \<Rightarrow> 'd rdb \<Rightarrow> int \<Rightarrow> ('h, 'd) TriggerManager \<Rightarrow> ('h, 'd) TriggerManager" where
  "ReleaseTriggerDetector E R uuid g =
     (case om_find uuid (tg_detectors g) of
        None \<Rightarrow> g
      | Some None \<Rightarrow> g\<lparr>tg_detectors := om_erase uuid (tg_detectors g)\<rparr>
      | Some (Some d) \<Rightarrow> g\<lparr>tg_service := Detector_UnloadTriggerModel E R d (tg_service g),
                           tg_detectors := om_erase uuid (tg_detectors g)\<rparr>)"

text \<open>The service pointer is used without a check: a manager whose service is null faults here.\<close>

definition StartDetection ::
  "'h trigger_env \<Rightarrow> 'd rdb \<Rightarrow> int \<Rightarrow> ('h, 'd) TriggerManager \<Rightarrow> (int \<times> ('h, 'd) TriggerManager) outcome" where
  "StartDetection E R uuid g =
     (case om_find uuid (tg_detectors g) of
        Some (Some d) \<Rightarrow>
          (case tg_service g of
             None \<Rightarrow> Crash NullDeref
           | Some s \<Rightarrow>
               (case Svc_GetParameter E R ''audio_hal_status'' s of (v, s1) \<Rightarrow>
                  if v = ''true''
                  then obind (Detector_StartRecognition E R d (Some s1))
                         (\<lambda>(ok, s2). Ret (if ok then 1 else -1, g\<lparr>tg_service := s2\<rparr>))
                  else Ret (0, g\<lparr>tg_service := Some s1\<rparr>)))
      | _ \<Rightarrow> Ret (-1, g))"

definition StopDetection ::
  "'h trigger_env \<Rightarrow> 'd rdb \<Rightarrow> int \<Rightarrow> ('h, 'd) TriggerManager \<Rightarrow> ('h, 'd) TriggerManager" where
  "StopDetection E R uuid g =
     (case om_find uuid (tg_detectors g) of
        Some (Some d) \<Rightarrow> g\<lparr>tg_service := snd (Detector_StopRecognition E R d (tg_service g))\<rparr>
      | _ \<Rightarrow> g)"

definition Mgr_SetParameter ::
  "'h trigger_env \<Rightarrow> 'd rdb \<Rightarrow> string \<Rightarrow> string \<Rightarrow> ('h, 'd) TriggerManager \<Rightarrow> int \<times> ('h, 'd) TriggerManager" where
  "Mgr_SetParameter E R key val g =
     (case tg_service g of
        None \<Rightarrow> (-1, g)
      | Some s \<Rightarrow> (case Svc_SetParameter E R key val s of (ret, s1) \<Rightarrow> (ret, g\<lparr>tg_service := Some s1\<rparr>)))"

definition Mgr_GetParameter ::
  "'h trigger_env \<Rightarrow> 'd rdb \<Rightarrow> string \<Rightarrow> ('h, 'd) TriggerManager \<Rightarrow> string \<times> ('h, 'd) TriggerManager" where
  "Mgr_GetParameter E R key g =
     (case tg_service g of
        None \<Rightarrow> ('''', g)
      | Some s \<Rightarrow> (case Svc_GetParameter E R key s of (v, s1) \<Rightarrow> (v, g\<lparr>tg_service := Some s1\<rparr>)))"

text \<open>The attach and detach operations of the manager check the service and pass the call on; \<open>cond\<close> is
  the build switch around the body.\<close>

definition on_service ::
  "bool \<Rightarrow> (('h, 'd) TriggerService \<Rightarrow> ('h, 'd) TriggerService outcome) \<Rightarrow> ('h, 'd) TriggerManager \<Rightarrow>
     ('h, 'd) TriggerManager outcome" where
  "on_service cond f g =
     (if \<not> cond then Ret g
      else (case tg_service g of
          None \<Rightarrow> Ret g
        | Some s \<Rightarrow> obind (f s) (\<lambda>s1. Ret (g\<lparr>tg_service := Some s1\<rparr>))))"

abbreviation concurrent :: "'h sys_env \<Rightarrow> bool" where
  "concurrent S \<equiv> env_concurrent (se_env S)"

abbreviation window :: "'h sys_env \<Rightarrow> bool" where
  "window S \<equiv> env_window (se_env S)"

definition Mgr_ClearConcurrentControlList where
  "Mgr_ClearConcurrentControlList S R w b = on_service (concurrent S) (Svc_ClearConcurrentControlList R w b)"

definition OnServiceStart where
  "OnServiceStart S R = on_service (se_fan S) (Svc_AttachFanStateListener S R)"

definition OnServiceStop ::
  "'h sys_env \<Rightarrow> 'd rdb \<Rightarrow> ('h, 'd) TriggerManager \<Rightarrow> ('h, 'd) TriggerManager outcome" where
  "OnServiceStop S R g =
     obind (on_service (se_telephony S) (Svc_DetachTelephonyObserver S R) g) (\<lambda>g1.
     obind (on_service True (Svc_DetachAudioRendererEventListener S R) g1) (\<lambda>g2.
     obind (if concurrent S then on_service True (Svc_DetachAudioCapturerEventListener R) g2
            else on_service True (Svc_DetachAudioCaptureListener S R) g2) (\<lambda>g3.
     obind (on_service (se_power S) (Svc_DetachHibernateObserver S R) g3) (\<lambda>g4.
     obind (on_service (window S) (Svc_DetachFoldStatusListener R) g4) (\<lambda>g5.
     obind (on_service True (Svc_DetachAudioSceneEventListener S R) g5) (\<lambda>g6.
     on_service (se_fan S) (Svc_DetachFanStateListener S R) g6))))))"

definition OnTelephonyStateRegistryServiceChange where
  "OnTelephonyStateRegistryServiceChange S R isAdded =
     on_service (se_telephony S \<and> isAdded) (Svc_AttachTelephonyObserver S R)"

definition OnAudioDistributedServiceChange where
  "OnAudioDistributedServiceChange S R isAdded =
     on_service (\<not> concurrent S \<and> isAdded) (Svc_AttachAudioCaptureListener S R)"

definition OnAudioPolicyServiceChange ::
  "'h sys_env \<Rightarrow> 'd rdb \<Rightarrow> bool \<Rightarrow> ('h, 'd) TriggerManager \<Rightarrow> ('h, 'd) TriggerManager outcome" where
  "OnAudioPolicyServiceChange S R isAdded g =
     (if \<not> isAdded then Ret g
      else obind (on_service True (Svc_AttachAudioRendererEventListener S R) g) (\<lambda>g1.
           obind (on_service True (Svc_AttachAudioSceneEventListener S R) g1) (\<lambda>g2.
           on_service (concurrent S) (Svc_AttachAudioCapturerEventListener S R) g2)))"

definition OnPowerManagerServiceChange where
  "OnPowerManagerServiceChange S R isAdded = on_service (se_power S \<and> isAdded) (Svc_AttachHibernateObserver S R)"

definition OnDisplayManagerServiceChange where
  "OnDisplayManagerServiceChange S R isAdded = on_service (window S \<and> isAdded) (Svc_AttachFoldStatusListener S R)"

section \<open>The database\<close>

text \<open>
  What the code relies on of the relational store, with \<open>table\<close> its content: an insertion or a deletion
  that succeeds changes the row of its key, one that fails changes nothing, and a query that is
  answered gives the columns of the row, none without a row.
\<close>

definition row_columns :: "trigger_row option \<Rightarrow> row_view" where
  "row_columns r = \<lparr>rv_vendor = map_option tr_vendor r, rv_data = map_option tr_data r,
     rv_version = map_option tr_version r, rv_type = map_option tr_type r\<rparr>"

definition rdb_ok :: "'d rdb \<Rightarrow> ('d \<Rightarrow> int \<rightharpoonup> trigger_row) \<Rightarrow> bool" where
  "rdb_ok R table \<longleftrightarrow>
     (\<forall>r d ok d1. rdb_insert R r d = (ok, d1) \<longrightarrow> table d1 = (if ok then (table d)(tr_uuid r \<mapsto> r) else table d)) \<and>
     (\<forall>k d ok d1. rdb_delete R k d = (ok, d1) \<longrightarrow> table d1 = (if ok then (table d)(k := None) else table d)) \<and>
     (\<forall>k d v. rdb_query R k d = Some v \<longrightarrow> v = row_columns (table d k))"

text \<open>The model a row stands for; rows older than version 2 have no type, it follows from the id.\<close>

definition stored_model :: "int \<Rightarrow> trigger_row \<Rightarrow> GenericTriggerModel" where
  "stored_model k r = \<lparr>gm_uuid = k, gm_version = tr_version r,
     gm_type = (if 2 \<le> tr_version r then tr_type r
                else if k = VOICE_WAKEUP_MODEL_UUID then VOICE_WAKEUP_TYPE else PROXIMAL_WAKEUP_TYPE),
     gm_data = tr_data r\<rparr>"

lemma row_model_columns: "row_model k (row_columns r) = map_option (stored_model k) r"
  by (cases r) (simp_all add: row_model_def row_columns_def stored_model_def SetData_def TriggerModel_new_def
      MODLE_VERSION_2_def)

lemma Db_GetModel_table:
  assumes "rdb_ok R table"
  shows "Db_GetModel R k (Some d) =
     (if rdb_query R k d = None then None else map_option (stored_model k) (table d k))"
proof (cases "rdb_query R k d")
  case (Some v)
  then have "v = row_columns (table d k)" using assms unfolding rdb_ok_def by blast
  then show ?thesis using Some by (simp add: Db_GetModel_def row_model_columns)
qed (simp add: Db_GetModel_def)

section \<open>Properties\<close>

subsection \<open>The model store\<close>

text \<open>Requests to the manager that write the store, and what an ideal map makes of them.\<close>

datatype store_op = Put "8 word list" int TriggerModelType | Del int

fun request :: "'d rdb \<Rightarrow> store_op \<Rightarrow> ('h, 'd) TriggerManager \<Rightarrow> ('h, 'd) TriggerManager" where
  "request R (Put buf k ty) g = UpdateModel R buf k ty g"
| "request R (Del k) g = DeleteModel R k g"

fun ideal :: "store_op \<Rightarrow> (int \<rightharpoonup> GenericTriggerModel) \<Rightarrow> (int \<rightharpoonup> GenericTriggerModel)" where
  "ideal (Put buf k ty) M = M(k \<mapsto> \<lparr>gm_uuid = k, gm_version = 2, gm_type = ty, gm_data = buf\<rparr>)"
| "ideal (Del k) M = M(k := None)"

definition store_of :: "('h, 'd) TriggerManager \<Rightarrow> 'd option" where
  "store_of g = (case tg_service g of None \<Rightarrow> None | Some s \<Rightarrow> ts_store s)"

text \<open>Does the store accept the request?\<close>

fun accepts :: "'d rdb \<Rightarrow> store_op \<Rightarrow> 'd option \<Rightarrow> bool" where
  "accepts R op None = False"
| "accepts R (Put buf k ty) (Some d) =
     fst (rdb_insert R (row_of \<lparr>gm_uuid = k, gm_version = 2, gm_type = ty, gm_data = buf\<rparr>) d)"
| "accepts R (Del k) (Some d) = fst (rdb_delete R k d)"

fun ideal_run :: "'d rdb \<Rightarrow> store_op list \<Rightarrow> ('h, 'd) TriggerManager \<Rightarrow> (int \<rightharpoonup> GenericTriggerModel) \<Rightarrow>
    (int \<rightharpoonup> GenericTriggerModel)" where
  "ideal_run R [] g M = M"
| "ideal_run R (op # ops) g M =
     ideal_run R ops (request R op g) (if accepts R op (store_of g) then ideal op M else M)"

definition models :: "('d \<Rightarrow> int \<rightharpoonup> trigger_row) \<Rightarrow> ('h, 'd) TriggerManager \<Rightarrow> int \<rightharpoonup> GenericTriggerModel" where
  "models table g = (case store_of g of None \<Rightarrow> Map.empty | Some d \<Rightarrow> (\<lambda>k. map_option (stored_model k) (table d k)))"

definition answers :: "'d rdb \<Rightarrow> int \<Rightarrow> ('h, 'd) TriggerManager \<Rightarrow> bool" where
  "answers R k g \<longleftrightarrow> (\<exists>d. store_of g = Some d \<and> rdb_query R k d \<noteq> None)"

lemma GetModel_models:
  assumes "rdb_ok R table"
  shows "GetModel R k g = (if answers R k g then models table g k else None)"
proof (cases "store_of g")
  case None
  then show ?thesis
    by (auto simp: GetModel_def answers_def store_of_def Svc_GetGenericTriggerModel_def Db_GetModel_def split: option.splits)
next
  case (Some d)
  then obtain s where "tg_service g = Some s" "ts_store s = Some d"
    by (auto simp: store_of_def split: option.splits)
  then show ?thesis
    using Db_GetModel_table [OF assms, of k d] Some
    by (simp add: GetModel_def Svc_GetGenericTriggerModel_def answers_def models_def)
qed

lemma models_request:
  assumes "rdb_ok R table"
  shows "models table (request R op g) = (if accepts R op (store_of g) then ideal op (models table g) else models table g)"
proof (cases "store_of g")
  case None
  then show ?thesis
    by (cases op) (auto simp: models_def store_of_def UpdateModel_def DeleteModel_def Svc_UpdateGenericTriggerModel_def
        Svc_DeleteGenericTriggerModel_def Db_UpdateModel_def Db_DeleteModel_def split: option.splits)
next
  case (Some d)
  then obtain s where s: "tg_service g = Some s" "ts_store s = Some d"
    by (auto simp: store_of_def split: option.splits)
  show ?thesis
  proof (cases op)
    case (Put buf k ty)
    let ?m = "\<lparr>gm_uuid = k, gm_version = 2, gm_type = ty, gm_data = buf\<rparr>"
    obtain ok d1 where i: "rdb_insert R (row_of ?m) d = (ok, d1)" using prod.exhaust by blast
    have m: "snd (SetData buf (TriggerModel_new k MODLE_VERSION_2 ty)) = ?m"
      by (simp add: SetData_def TriggerModel_new_def MODLE_VERSION_2_def)
    have "store_of (request R op g) = Some d1"
      using s i by (simp add: Put store_of_def UpdateModel_def m Svc_UpdateGenericTriggerModel_def Db_UpdateModel_def)
    moreover have "table d1 = (if ok then (table d)(k \<mapsto> row_of ?m) else table d)"
      using assms i unfolding rdb_ok_def by (fastforce simp: row_of_def)
    ultimately show ?thesis
      using Some i by (auto simp: Put models_def fun_eq_iff stored_model_def row_of_def)
  next
    case (Del k)
    obtain ok d1 where i: "rdb_delete R k d = (ok, d1)" using prod.exhaust by blast
    have "store_of (request R op g) = Some d1"
      using s i by (simp add: Del store_of_def DeleteModel_def Svc_DeleteGenericTriggerModel_def Db_DeleteModel_def)
    moreover have "table d1 = (if ok then (table d)(k := None) else table d)"
      using assms i unfolding rdb_ok_def by blast
    ultimately show ?thesis
      using Some i by (auto simp: Del models_def fun_eq_iff)
  qed
qed

lemma models_run:
  "rdb_ok R table \<Longrightarrow> models table (fold (request R) ops g) = ideal_run R ops g (models table g)"
  by (induction ops arbitrary: g) (simp_all add: models_request)

text \<open>
  C7. The model store is a map. After any sequence of updates and deletions through the manager, some of
  which the relational store refuses, \<open>GetModel\<close> and \<open>IsModelExist\<close> see exactly what the accepted requests
  make of the models that were stored before: the last update of an id that was accepted and not
  deleted afterwards, with its bytes, its type and version 2, and rows of earlier versions with the
  type their id stands for; a refused request changes nothing. A query the store does not answer
  gives no model.
\<close>

theorem model_store_roundtrip:
  assumes "rdb_ok R table"
  shows "GetModel R k (fold (request R) ops g) =
      (if answers R k (fold (request R) ops g) then ideal_run R ops g (models table g) k else None) \<and>
    IsModelExist R k (fold (request R) ops g) = (GetModel R k (fold (request R) ops g) \<noteq> None)"
proof
  show "GetModel R k (fold (request R) ops g) =
      (if answers R k (fold (request R) ops g) then ideal_run R ops g (models table g) k else None)"
    by (simp add: GetModel_models [OF assms] models_run [OF assms])
  show "IsModelExist R k (fold (request R) ops g) = (GetModel R k (fold (request R) ops g) \<noteq> None)"
    by (simp add: IsModelExist_def GetModel_def split: option.split)
qed

text \<open>A store that is a finite map.\<close>

definition map_rdb :: "(int \<rightharpoonup> trigger_row) rdb" where
  "map_rdb = \<lparr>rdb_insert = (\<lambda>r d. (True, d(tr_uuid r \<mapsto> r))),
     rdb_query = (\<lambda>k d. Some (row_columns (d k))),
     rdb_delete = (\<lambda>k d. (True, d(k := None)))\<rparr>"

lemma map_rdb_ok: "rdb_ok map_rdb (\<lambda>d. d)"
  by (simp add: rdb_ok_def map_rdb_def)

definition demo_service :: "(nat, int \<rightharpoonup> trigger_row) TriggerService" where
  "demo_service = \<lparr>ts_triggerHelper = Some (demo_helper, listeners_new), ts_store = Some Map.empty\<rparr>"

lemma model_store_roundtrip_witness:
  "let g = fold (request map_rdb) [Put [7, 8] 1 VOICE_WAKEUP_TYPE, Put [9] 2 PROXIMAL_WAKEUP_TYPE, Del 2]
       (TriggerManager_new demo_service) in
     GetModel map_rdb 1 g = Some \<lparr>gm_uuid = 1, gm_version = 2, gm_type = VOICE_WAKEUP_TYPE, gm_data = [7, 8]\<rparr> \<and>
     \<not> IsModelExist map_rdb 2 g"
proof -
  let ?ops = "[Put [7, 8] 1 VOICE_WAKEUP_TYPE, Put [9] 2 PROXIMAL_WAKEUP_TYPE, Del 2]"
  let ?g = "fold (request map_rdb) ?ops (TriggerManager_new demo_service)"
  have "answers map_rdb k ?g" for k
    by (simp add: answers_def store_of_def map_rdb_def TriggerManager_new_def demo_service_def UpdateModel_def
        DeleteModel_def Svc_UpdateGenericTriggerModel_def Svc_DeleteGenericTriggerModel_def Db_UpdateModel_def
        Db_DeleteModel_def SetData_def TriggerModel_new_def)
  moreover have "ideal_run map_rdb ?ops (TriggerManager_new demo_service)
      (models (\<lambda>d. d) (TriggerManager_new demo_service)) =
      [1 \<mapsto> \<lparr>gm_uuid = 1, gm_version = 2, gm_type = VOICE_WAKEUP_TYPE, gm_data = [7, 8]\<rparr>]"
    by (simp add: models_def store_of_def map_rdb_def TriggerManager_new_def demo_service_def UpdateModel_def
        Svc_UpdateGenericTriggerModel_def Db_UpdateModel_def SetData_def TriggerModel_new_def fun_eq_iff)
  ultimately show ?thesis
    using model_store_roundtrip [OF map_rdb_ok, of 1 ?ops "TriggerManager_new demo_service"]
      model_store_roundtrip [OF map_rdb_ok, of 2 ?ops "TriggerManager_new demo_service"]
    by (simp add: Let_def del: fold_Cons)
qed

text \<open>The code does not look at the result of the deletion: a model whose deletion failed is still there.\<close>

lemma failed_deletion_unnoticed:
  assumes "rdb_ok R table" "store_of g = Some d" "fst (rdb_delete R k d) = False"
  shows "models table (DeleteModel R k g) = models table g"
  using models_request [OF assms(1), of "Del k" g] assms(2,3) by simp

subsection \<open>Service changes after the service has stopped\<close>

datatype notification = TelephonyChange bool | AudioDistributedChange bool | AudioPolicyChange bool
  | PowerManagerChange bool | DisplayManagerChange bool

fun notify ::
  "'d rdb \<Rightarrow> 'h sys_env \<times> notification \<Rightarrow> ('h, 'd) TriggerManager \<Rightarrow> ('h, 'd) TriggerManager outcome" where
  "notify R (S, TelephonyChange b) g = OnTelephonyStateRegistryServiceChange S R b g"
| "notify R (S, AudioDistributedChange b) g = OnAudioDistributedServiceChange S R b g"
| "notify R (S, AudioPolicyChange b) g = OnAudioPolicyServiceChange S R b g"
| "notify R (S, PowerManagerChange b) g = OnPowerManagerServiceChange S R b g"
| "notify R (S, DisplayManagerChange b) g = OnDisplayManagerServiceChange S R b g"

definition same_build :: "'h sys_env \<Rightarrow> 'h sys_env \<Rightarrow> bool" where
  "same_build S S' \<longleftrightarrow> se_telephony S = se_telephony S' \<and> se_power S = se_power S' \<and>
     concurrent S = concurrent S' \<and> window S = window S'"

definition all_detached :: "'h sys_env \<Rightarrow> 'h observed \<Rightarrow> bool" where
  "all_detached S x \<longleftrightarrow>
     (se_telephony S \<longrightarrow> ln_isTelephonyDetached (snd x)) \<and> ln_isRendererDetached (snd x) \<and>
     (concurrent S \<longrightarrow> th_isCapturerDetached (fst x)) \<and> (se_power S \<longrightarrow> ln_isHibernateDetached (snd x)) \<and>
     (window S \<longrightarrow> th_isFoldStatusDetached (fst x)) \<and> ln_isSceneDetached (snd x)"

definition mgr_detached :: "'h sys_env \<Rightarrow> ('h, 'd) TriggerManager \<Rightarrow> bool" where
  "mgr_detached S g \<longleftrightarrow>
     (\<forall>s x. tg_service g = Some s \<longrightarrow> ts_triggerHelper s = Some x \<longrightarrow> all_detached S x)"

lemmas detach_defs =
  Svc_DetachTelephonyObserver_def Svc_DetachAudioRendererEventListener_def Svc_DetachAudioCapturerEventListener_def
  Svc_DetachAudioCaptureListener_def Svc_DetachHibernateObserver_def Svc_DetachFoldStatusListener_def
  Svc_DetachAudioSceneEventListener_def Svc_DetachFanStateListener_def

text \<open>A call that makes no database write changes only the helper.\<close>

definition upd_helper :: "('h observed \<Rightarrow> 'h observed) \<Rightarrow> ('h, 'd) TriggerManager \<Rightarrow> ('h, 'd) TriggerManager" where
  "upd_helper f g =
     g\<lparr>tg_service := map_option (\<lambda>s. s\<lparr>ts_triggerHelper := map_option f (ts_triggerHelper s)\<rparr>) (tg_service g)\<rparr>"

lemma upd_helper_upd [simp]: "upd_helper f (upd_helper h g) = upd_helper (f \<circ> h) g"
  by (simp add: upd_helper_def option.map_comp comp_def)

lemma upd_helper_id [simp]: "upd_helper (\<lambda>x. x) g = g"
proof -
  have "map_option (\<lambda>s. s\<lparr>ts_triggerHelper := map_option (\<lambda>x. x) (ts_triggerHelper s)\<rparr>) v = v" for v :: "('a, 'b) TriggerService option"
    by (cases v) (simp_all add: option.map_ident)
  then show ?thesis by (simp add: upd_helper_def)
qed

lemma on_service_quiet:
  assumes "\<And>x. th_calls (fst (h x)) = th_calls (fst x)"
  shows "on_service c (on_helper R (\<lambda>x. Ret (h x))) g = Ret (upd_helper (if c then h else (\<lambda>x. x)) g)"
proof -
  have "db_follow R (fst x) (fst (h x)) st = st" for x st using assms by (simp add: db_follow_def)
  then show ?thesis
    by (auto simp: on_service_def on_helper_def set_helper_def upd_helper_def split: option.splits)
qed

lemma detach_quiet:
  "th_calls (fst (DetachTelephonyObserver S x)) = th_calls (fst x)"
  "th_calls (fst (DetachAudioRendererEventListener S x)) = th_calls (fst x)"
  "th_calls (fst (DetachAudioCaptureListener S x)) = th_calls (fst x)"
  "th_calls (fst (DetachHibernateObserver S x)) = th_calls (fst x)"
  "th_calls (fst (DetachAudioSceneEventListener S x)) = th_calls (fst x)"
  "th_calls (DetachAudioEngineListener t) = th_calls t" "th_calls (DetachFoldStatusListener t) = th_calls t"
  "th_calls (DetachFanStateListener b t) = th_calls t"
  by (simp_all add: DetachTelephonyObserver_def DetachAudioRendererEventListener_def DetachAudioCaptureListener_def
      DetachHibernateObserver_def DetachAudioSceneEventListener_def DetachAudioEngineListener_def
      DetachFoldStatusListener_def DetachFanStateListener_def Let_def split: prod.splits)

definition stop_helper :: "'h sys_env \<Rightarrow> 'h observed \<Rightarrow> 'h observed" where
  "stop_helper S =
     (if se_fan S then apfst (DetachFanStateListener (se_fanSupported S)) else (\<lambda>x. x)) \<circ>
     DetachAudioSceneEventListener S \<circ>
     (if window S then apfst DetachFoldStatusListener else (\<lambda>x. x)) \<circ>
     (if se_power S then DetachHibernateObserver S else (\<lambda>x. x)) \<circ>
     (if concurrent S then apfst DetachAudioEngineListener else DetachAudioCaptureListener S) \<circ>
     DetachAudioRendererEventListener S \<circ>
     (if se_telephony S then DetachTelephonyObserver S else (\<lambda>x. x))"

lemma OnServiceStop_eq: "OnServiceStop S R g = Ret (upd_helper (stop_helper S) g)"
proof -
  have pair: "(\<lambda>(t, l). Ret (f t, l)) = (\<lambda>x. Ret (apfst f x))" for f :: "'a TriggerHelper \<Rightarrow> 'a TriggerHelper"
    by (auto simp: fun_eq_iff)
  have q: "th_calls (fst (apfst f x)) = th_calls (fst x)" if "\<And>t. th_calls (f t) = th_calls t"
    for f :: "'a TriggerHelper \<Rightarrow> 'a TriggerHelper" and x :: "'a observed"
    using that by (cases x) simp
  note e = on_service_quiet [OF detach_quiet(1)] on_service_quiet [OF detach_quiet(2)]
    on_service_quiet [OF detach_quiet(3)] on_service_quiet [OF detach_quiet(4)] on_service_quiet [OF detach_quiet(5)]
    on_service_quiet [OF q, OF detach_quiet(6)] on_service_quiet [OF q, OF detach_quiet(7)]
    on_service_quiet [OF q, OF detach_quiet(8)]
  show ?thesis
    unfolding OnServiceStop_def detach_defs pair stop_helper_def
    by (cases "concurrent S") (simp_all only: e obind_Ret upd_helper_upd if_True if_False comp_assoc)
qed

text \<open>The flags after each detach operation.\<close>

definition flags :: "'h observed \<Rightarrow> bool \<times> bool \<times> bool \<times> bool \<times> bool \<times> bool" where
  "flags x = (ln_isTelephonyDetached (snd x), ln_isRendererDetached (snd x), th_isCapturerDetached (fst x),
     ln_isHibernateDetached (snd x), th_isFoldStatusDetached (fst x), ln_isSceneDetached (snd x))"

lemma unregister_flags [simp]: "flags (t, unregister S k l) = flags (t, l)"
  by (simp add: flags_def unregister_def)

lemma detach_flags:
  assumes "flags x = (a, b, c, d, e, f)"
  shows "flags (DetachTelephonyObserver S x) = (True, b, c, d, e, f)"
    "flags (DetachAudioRendererEventListener S x) = (a, True, c, d, e, f)"
    "flags (DetachAudioCaptureListener S x) = (a, b, c, d, e, f)"
    "flags (apfst DetachAudioEngineListener x) = (a, b, True, d, e, f)"
    "flags (DetachHibernateObserver S x) = (a, b, c, True, e, f)"
    "flags (apfst DetachFoldStatusListener x) = (a, b, c, d, True, f)"
    "flags (DetachAudioSceneEventListener S x) = (a, b, c, d, e, True)"
    "flags (apfst (DetachFanStateListener spd) x) = (a, b, c, d, e, f)"
proof -
  obtain t l where x: "x = (t, l)" using prod.exhaust by blast
  have fl: "flags (t, l) = (a, b, c, d, e, f)" using assms x by simp
  show "flags (DetachTelephonyObserver S x) = (True, b, c, d, e, f)"
    using fl by (simp add: x DetachTelephonyObserver_def unregister_def flags_def Let_def)
  show "flags (DetachAudioRendererEventListener S x) = (a, True, c, d, e, f)"
    using fl by (simp add: x DetachAudioRendererEventListener_def unregister_def flags_def Let_def)
  show "flags (DetachAudioCaptureListener S x) = (a, b, c, d, e, f)"
    using fl by (simp add: x DetachAudioCaptureListener_def flags_def)
  show "flags (apfst DetachAudioEngineListener x) = (a, b, True, d, e, f)"
    using fl by (simp add: x DetachAudioEngineListener_def flags_def)
  show "flags (DetachHibernateObserver S x) = (a, b, c, True, e, f)"
    using fl by (simp add: x DetachHibernateObserver_def unregister_def flags_def Let_def)
  show "flags (apfst DetachFoldStatusListener x) = (a, b, c, d, True, f)"
    using fl by (simp add: x DetachFoldStatusListener_def flags_def Let_def)
  show "flags (DetachAudioSceneEventListener S x) = (a, b, c, d, e, True)"
    using fl by (simp add: x DetachAudioSceneEventListener_def unregister_def flags_def Let_def)
  show "flags (apfst (DetachFanStateListener spd) x) = (a, b, c, d, e, f)"
    using fl by (simp add: x DetachFanStateListener_def flags_def Let_def)
qed

lemma all_detached_flags:
  "all_detached S x \<longleftrightarrow> (case flags x of (a, b, c, d, e, f) \<Rightarrow>
     (se_telephony S \<longrightarrow> a) \<and> b \<and> (concurrent S \<longrightarrow> c) \<and> (se_power S \<longrightarrow> d) \<and> (window S \<longrightarrow> e) \<and> f)"
  by (simp add: all_detached_def flags_def)

lemma stop_helper_flags:
  assumes "flags x = (a, b, c, d, e, f)"
  shows "flags (stop_helper S x) =
    (se_telephony S \<or> a, True, concurrent S \<or> c, se_power S \<or> d, window S \<or> e, True)"
proof -
  define x1 where "x1 = (if se_telephony S then DetachTelephonyObserver S x else x)"
  define x2 where "x2 = DetachAudioRendererEventListener S x1"
  define x3 where "x3 = (if concurrent S then apfst DetachAudioEngineListener x2 else DetachAudioCaptureListener S x2)"
  define x4 where "x4 = (if se_power S then DetachHibernateObserver S x3 else x3)"
  define x5 where "x5 = (if window S then apfst DetachFoldStatusListener x4 else x4)"
  have 1: "flags x1 = (se_telephony S \<or> a, b, c, d, e, f)" using assms by (simp add: x1_def detach_flags)
  have 2: "flags x2 = (se_telephony S \<or> a, True, c, d, e, f)" using detach_flags(2) [OF 1] by (simp add: x2_def)
  have 3: "flags x3 = (se_telephony S \<or> a, True, concurrent S \<or> c, d, e, f)"
    using detach_flags(3,4) [OF 2] by (simp add: x3_def)
  have 4: "flags x4 = (se_telephony S \<or> a, True, concurrent S \<or> c, se_power S \<or> d, e, f)"
    using detach_flags(5) [OF 3] 3 by (simp add: x4_def)
  have 5: "flags x5 = (se_telephony S \<or> a, True, concurrent S \<or> c, se_power S \<or> d, window S \<or> e, f)"
    using detach_flags(6) [OF 4] 4 by (simp add: x5_def)
  have eq: "stop_helper S x = (if se_fan S then apfst (DetachFanStateListener (se_fanSupported S))
      (DetachAudioSceneEventListener S x5) else DetachAudioSceneEventListener S x5)"
    by (simp add: stop_helper_def x5_def x4_def x3_def x2_def x1_def)
  show ?thesis using detach_flags(7) [OF 5] detach_flags(8) [OF detach_flags(7) [OF 5]] by (simp add: eq)
qed

lemma stop_helper_detached: "all_detached S (stop_helper S x)"
proof -
  obtain a b c d e f where "flags x = (a, b, c, d, e, f)" using prod_cases6 by blast
  from stop_helper_flags [OF this] show ?thesis by (simp add: all_detached_flags)
qed

lemma attach_detached:
  assumes "all_detached S (t, l)"
  shows "se_telephony S \<Longrightarrow> AttachTelephonyObserver S' (t, l) = (t, l)"
    "AttachAudioRendererEventListener S' (t, l) = Ret (t, l)"
    "AttachAudioSceneEventListener S' (t, l) = Ret (t, l)"
    "concurrent S \<Longrightarrow> AttachAudioEngineListener E P A r t = t"
    "se_power S \<Longrightarrow> AttachHibernateObserver S' (t, l) = (t, l)"
    "window S \<Longrightarrow> AttachFoldStatusListener E f w r fs t = t"
  using assms by (simp_all add: all_detached_def AttachTelephonyObserver_def AttachAudioRendererEventListener_def
      AttachAudioSceneEventListener_def AttachAudioEngineListener_def AttachHibernateObserver_def
      AttachFoldStatusListener_def)

lemma on_service_same:
  assumes "\<And>s x. c \<Longrightarrow> tg_service g = Some s \<Longrightarrow> ts_triggerHelper s = Some x \<Longrightarrow> f x = Ret x"
  shows "on_service c (on_helper R f) g = Ret g"
proof (cases "tg_service g")
  case (Some s)
  then show ?thesis
  proof (cases "ts_triggerHelper s")
    case (Some x)
    have "set_helper R x x s = s" using Some by (simp add: set_helper_def db_follow_def)
    then show ?thesis using assms \<open>tg_service g = Some s\<close> Some by (simp add: on_service_def on_helper_def)
  qed (simp add: on_service_def on_helper_def)
qed (simp add: on_service_def)

lemma on_service_detached:
  assumes "mgr_detached S g" "\<And>t l. c \<Longrightarrow> all_detached S (t, l) \<Longrightarrow> f (t, l) = Ret (t, l)"
  shows "on_service c (on_helper R f) g = Ret g"
proof (rule on_service_same)
  fix s x assume c: c "tg_service g = Some s" "ts_triggerHelper s = Some x"
  then have "all_detached S x" using assms(1) unfolding mgr_detached_def by blast
  with assms(2) [OF c(1), of "fst x" "snd x"] show "f x = Ret x" by simp
qed

lemmas attach_defs = Svc_AttachTelephonyObserver_def Svc_AttachAudioRendererEventListener_def
  Svc_AttachAudioSceneEventListener_def Svc_AttachAudioCapturerEventListener_def
  Svc_AttachHibernateObserver_def Svc_AttachFoldStatusListener_def

text \<open>The one registration that has no detached flag: that of the capturer source listener.\<close>

definition with_capture :: "'h observed \<Rightarrow> 'h observed" where
  "with_capture x = (fst x, (snd x)\<lparr>ln_registered := insert CAPTURER_SOURCE (ln_registered (snd x))\<rparr>)"

lemma with_capture_eq: "with_capture = (\<lambda>(t, l). (t, l\<lparr>ln_registered := insert CAPTURER_SOURCE (ln_registered l)\<rparr>))"
  by (auto simp: with_capture_def)

lemma with_capture_idem [simp]: "with_capture \<circ> with_capture = with_capture"
  by (simp add: with_capture_def fun_eq_iff)

lemma AttachAudioCaptureListener_eq:
  "AttachAudioCaptureListener S = (if se_audioSystemManager S then with_capture else (\<lambda>x. x))"
  by (auto simp: AttachAudioCaptureListener_def with_capture_def fun_eq_iff split: prod.split)

lemma mgr_detached_capture: "mgr_detached S g \<Longrightarrow> mgr_detached S (upd_helper with_capture g)"
  by (fastforce simp: mgr_detached_def upd_helper_def all_detached_def with_capture_def)

lemma capture_notify:
  "OnAudioDistributedServiceChange S R b g =
     Ret (if \<not> concurrent S \<and> b \<and> se_audioSystemManager S then upd_helper with_capture g else g)"
proof -
  have "th_calls (fst (AttachAudioCaptureListener S y)) = th_calls (fst y)" for y
    by (simp add: AttachAudioCaptureListener_def split: prod.splits)
  from on_service_quiet [OF this, of "\<not> concurrent S \<and> b" R g] show ?thesis
    by (auto simp: OnAudioDistributedServiceChange_def Svc_AttachAudioCaptureListener_def AttachAudioCaptureListener_eq)
qed

lemma notify_detached:
  assumes "mgr_detached S g" "same_build S S'"
  shows "notify R (S', ev) g = Ret g \<or> \<not> concurrent S \<and> notify R (S', ev) g = Ret (upd_helper with_capture g)"
proof -
  note d = on_service_detached [OF assms(1)]
  have b: "se_telephony S' = se_telephony S" "se_power S' = se_power S" "concurrent S' = concurrent S" "window S' = window S"
    using assms(2) by (simp_all add: same_build_def)
  have tel: "on_service (se_telephony S \<and> c) (Svc_AttachTelephonyObserver S' R) g = Ret g" for c
    unfolding attach_defs by (rule d) (simp add: attach_detached(1))
  have ren: "on_service c (Svc_AttachAudioRendererEventListener S' R) g = Ret g" for c
    unfolding attach_defs by (rule d) (rule attach_detached(2))
  have sce: "on_service c (Svc_AttachAudioSceneEventListener S' R) g = Ret g" for c
    unfolding attach_defs by (rule d) (rule attach_detached(3))
  have cap: "on_service (concurrent S) (Svc_AttachAudioCapturerEventListener S' R) g = Ret g"
    unfolding attach_defs by (rule d) (use attach_detached(4) in auto)
  have pow: "on_service (se_power S \<and> c) (Svc_AttachHibernateObserver S' R) g = Ret g" for c
    unfolding attach_defs by (rule d) (simp add: attach_detached(5))
  have fol: "on_service (window S \<and> c) (Svc_AttachFoldStatusListener S' R) g = Ret g" for c
    unfolding attach_defs by (rule d) (use attach_detached(6) in auto)
  show ?thesis
    by (cases ev) (simp_all add: OnTelephonyStateRegistryServiceChange_def capture_notify
        OnAudioPolicyServiceChange_def OnPowerManagerServiceChange_def OnDisplayManagerServiceChange_def
        b tel ren sce cap pow fol)
qed

lemma notify_run:
  assumes "mgr_detached S g" "list_all (\<lambda>(S', ev). same_build S S') evs"
    "g1 = g \<or> \<not> concurrent S \<and> g1 = upd_helper with_capture g"
  shows "\<exists>g2. fold (\<lambda>e r. obind r (notify R e)) evs (Ret g1) = Ret g2 \<and>
     (g2 = g \<or> \<not> concurrent S \<and> g2 = upd_helper with_capture g)"
  using assms(2,3)
proof (induction evs arbitrary: g1)
  case (Cons e evs)
  obtain S' ev where e: "e = (S', ev)" using prod.exhaust by blast
  then have sb: "same_build S S'" using Cons.prems(1) by simp
  have "mgr_detached S g1" using Cons.prems(2) assms(1) mgr_detached_capture by blast
  then obtain g' where "notify R e g1 = Ret g'" "g' = g \<or> \<not> concurrent S \<and> g' = upd_helper with_capture g"
    using notify_detached [OF _ sb, of g1 R ev] Cons.prems(2) e by auto
  then show ?case using Cons.IH [of g'] Cons.prems(1) by simp
qed simp


definition demo_sys :: "nat sys_env" where
  "demo_sys = \<lparr>se_env = demo_env\<lparr>env_concurrent := True\<rparr>, se_pipe = undefined, se_telephony = True, se_power = True,
     se_fan = False, se_audioStreamManager = True, se_audioSystemManager = True, se_register = (\<lambda>_. True),
     se_unregister = (\<lambda>_. True), se_consts = undefined, se_renderers = [], se_scene = AUDIO_SCENE_DEFAULT,
     se_abilities = \<lparr>camera_concurrency = False, extension_concurrency = False, voip_concurrency = False,
       call_concurrency = False\<rparr>, se_pipeRegistered = True, se_foldable = False, se_whisperFile = False,
     se_foldRegistered = False, se_foldStatus = undefined, se_fanSupported = False, se_perf = undefined\<rparr>"


text \<open>
  Without concurrent capture the capturer source listener has no such flag: the audio service
  appearing after the stop registers it again.
\<close>

lemma capture_listener_returns:
  assumes "OnServiceStop S R g = Ret g1" "\<not> concurrent S" "tg_service g = Some s" "ts_triggerHelper s = Some x"
    "se_audioSystemManager S"
  shows "\<exists>g2 s2 y. OnAudioDistributedServiceChange S R True g1 = Ret g2 \<and> tg_service g2 = Some s2 \<and>
    ts_triggerHelper s2 = Some y \<and> CAPTURER_SOURCE \<in> ln_registered (snd y)"
proof -
  have "g1 = upd_helper (stop_helper S) g" using assms(1) by (simp add: OnServiceStop_eq)
  then show ?thesis
    using assms(2-) by (simp add: capture_notify upd_helper_def with_capture_def)
qed

subsection \<open>Starting a detection\<close>

lemma GetParameter_frame:
  "th_calls (snd (GetParameter E key t)) = th_calls t" "scene (snd (GetParameter E key t)) = scene t"
proof -
  have "snd (GetParameter E key t) = snd (GetModule E t)"
    by (auto simp: GetParameter_def split: prod.splits bool.splits option.splits)
  moreover have "th_calls (snd (GetModule E t)) = th_calls t"
    by (auto simp: GetModule_def split: prod.splits bool.splits)
  ultimately show "th_calls (snd (GetParameter E key t)) = th_calls t" "scene (snd (GetParameter E key t)) = scene t"
    by simp_all
qed

lemma Svc_GetParameter_frame:
  assumes "ts_triggerHelper s = Some (t, l)"
  shows "snd (Svc_GetParameter E R key s) = s\<lparr>ts_triggerHelper := Some (snd (GetParameter E key t), l)\<rparr>"
  using assms GetParameter_frame(1) [of E key t]
  by (cases "GetParameter E key t") (simp add: Svc_GetParameter_def set_helper_def db_follow_def split: prod.splits)

text \<open>\<open>detecting\<close>: the model \<open>m\<close> is requested in the helper under the id \<open>k\<close> for the client \<open>cb\<close> (on a foldable
  device the whisper model may hold the data of the whisper file instead of \<open>m\<close>'s), and it is active in
  the driver unless a conflicting scene holds it back.\<close>

definition detecting :: "'h trigger_env \<Rightarrow> 'h TriggerHelper \<Rightarrow> int \<Rightarrow> GenericTriggerModel \<Rightarrow> nat \<Rightarrow> 'h TriggerHelper \<Rightarrow> bool" where
  "detecting E t k m cb u \<longleftrightarrow> (\<exists>y. om_find k (th_modelDataMap u) = Some y \<and> md_requested y \<and> md_callback y = Some cb \<and>
     holds_data E t (gm_data m) y \<and>
     (if IsConflictSceneActive E t then md_state y \<noteq> MODEL_STARTED
      else md_state y = MODEL_STARTED \<and> model_state (th_connector u) (md_handle y) = Some ACTIVE))"

lemma Svc_StartRecognition_cases:
  assumes "Svc_StartRecognition E R k cb s = Ret (0, s1)" "ts_triggerHelper s = Some (t, l)"
  obtains m u where "Svc_GetGenericTriggerModel R k s = Some m"
    "StartGenericRecognition E k (Some m) (Some cb) t = Ret (0, u)" "ts_triggerHelper s1 = Some (u, l)"
  using assms by (auto simp: Svc_StartRecognition_def set_helper_def obind_eq_Ret split: option.splits)

lemma StartDetection_cases:
  assumes "StartDetection E R uuid g = Ret (1, g1)" "tg_service g = Some s"
  obtains d s1 where "om_find uuid (tg_detectors g) = Some (Some d)" "tg_service g1 = Some s1"
    "Svc_StartRecognition E R (dt_uuid d) (dt_callback d) (snd (Svc_GetParameter E R ''audio_hal_status'' s)) = Ret (0, s1)"
  using assms
  by (auto simp: StartDetection_def Detector_StartRecognition_def obind_eq_Ret split: option.splits prod.splits if_splits)


definition ready_hal :: "nat hal" where
  "ready_hal = demo_hal\<lparr>hal_GetParams := \<lambda>_ _. (0, ''true'')\<rparr>"

definition ready_env :: "nat trigger_env" where
  "ready_env = demo_env\<lparr>env_hal := ready_hal\<rparr>"

definition ready_manager :: "(nat, int \<rightharpoonup> trigger_row) TriggerManager" where
  "ready_manager = CreateDetector 1 7 (UpdateModel map_rdb [42] 1 VOICE_WAKEUP_TYPE (TriggerManager_new demo_service))"


end
