(* ===== verification/Trigger_Pipes.thy ===== *)
theory Trigger_Pipes
  imports Trigger_Agreement
begin

text \<open>
  The decision of the input pipe listener against its meaning. The code walks the streams, returns at
  the first one that decides, and reads the black and white lists from the store the first time it
  needs them; the specification is one condition per stream over the lists the store would give.
\<close>

section \<open>Lists as they are once read\<close>

definition with_black :: "pipe_env \<Rightarrow> 'h TriggerHelper \<Rightarrow> 'h TriggerHelper" where
  "with_black P t = (if th_concurrentBlacklist t = [] then SetConcurrencyControlList P BLACKLIST t else t)"

definition with_white :: "pipe_env \<Rightarrow> 'h TriggerHelper \<Rightarrow> 'h TriggerHelper" where
  "with_white P t = (if th_concurrentTypeSet t = [] \<or> th_concurrentWhitelist t = []
     then SetConcurrencyControlList P WHITELIST t else t)"

definition black_list :: "pipe_env \<Rightarrow> (string \<times> SourceType list) list" where
  "black_list P = (case pe_list P BLACKLIST of None \<Rightarrow> []
     | Some items \<Rightarrow> fold (\<lambda>(name, srcs) m. list_put name (fst (ParseSourceTypes P srcs [] [])) m) items [])"

fun white_items :: "pipe_env \<Rightarrow> control_item list \<Rightarrow> SourceType list \<times> (string \<times> SourceType list) list \<Rightarrow>
    SourceType list \<times> (string \<times> SourceType list) list" where
  "white_items P [] s = s"
| "white_items P ((name, srcs) # items) (ts, m) =
     (case ParseSourceTypes P srcs [] ts of (types, glob) \<Rightarrow> white_items P items (glob, list_put name types m))"

definition white_list :: "pipe_env \<Rightarrow> SourceType list \<times> (string \<times> SourceType list) list" where
  "white_list P = (case pe_list P WHITELIST of None \<Rightarrow> ([], []) | Some items \<Rightarrow> white_items P items ([], []))"

lemma load_black:
  "load_items P BLACKLIST items t = t\<lparr>th_concurrentBlacklist :=
     fold (\<lambda>(name, srcs) m. list_put name (fst (ParseSourceTypes P srcs [] [])) m) items (th_concurrentBlacklist t)\<rparr>"
  by (induction items arbitrary: t) (auto split: prod.splits)

lemma load_white:
  "load_items P WHITELIST items t =
     t\<lparr>th_concurrentTypeSet := fst (white_items P items (th_concurrentTypeSet t, th_concurrentWhitelist t)),
       th_concurrentWhitelist := snd (white_items P items (th_concurrentTypeSet t, th_concurrentWhitelist t))\<rparr>"
  by (induction items arbitrary: t) (auto split: prod.splits)

lemma SetControlList_black:
  "SetConcurrencyControlList P BLACKLIST t = t\<lparr>th_concurrentBlacklist := black_list P\<rparr>"
  by (simp add: SetConcurrencyControlList_def black_list_def load_black split: option.split)

lemma SetControlList_white:
  "SetConcurrencyControlList P WHITELIST t =
     t\<lparr>th_concurrentTypeSet := fst (white_list P), th_concurrentWhitelist := snd (white_list P)\<rparr>"
  by (simp add: SetConcurrencyControlList_def white_list_def load_white split: option.split)

lemma with_black_eq:
  "with_black P t = t\<lparr>th_concurrentBlacklist :=
     (if th_concurrentBlacklist t = [] then black_list P else th_concurrentBlacklist t)\<rparr>"
  by (simp add: with_black_def SetControlList_black)

lemma with_white_eq:
  "with_white P t =
     (if th_concurrentTypeSet t = [] \<or> th_concurrentWhitelist t = []
      then t\<lparr>th_concurrentTypeSet := fst (white_list P), th_concurrentWhitelist := snd (white_list P)\<rparr> else t)"
  by (simp add: with_white_def SetControlList_white)

lemma lists_read_once:
  "with_black P (with_black P t) = with_black P t" "with_white P (with_white P t) = with_white P t"
  "with_white P (with_black P t) = with_black P (with_white P t)"
  by (simp_all add: with_black_eq with_white_eq)

section \<open>The checks in terms of the lists\<close>

definition listed :: "(string \<times> SourceType list) list \<Rightarrow> string \<Rightarrow> SourceType \<Rightarrow> bool" where
  "listed m name s = (case map_of m name of None \<Rightarrow> False | Some types \<Rightarrow> s \<in> set types)"

lemma CheckBlacklist_eq:
  "CheckBlacklistConflict P b s t =
     (if th_mExtensionConcurrency t
      then (listed (th_concurrentBlacklist (with_black P t)) b (cs_source s) \<and> cs_state s = CAPTURER_RUNNING, with_black P t)
      else (False, t))"
  by (auto simp: CheckBlacklistConflict_def with_black_def listed_def Let_def split: option.splits)

lemma CheckInWhitelist_eq:
  "CheckInWhitelist P b s t =
     (cs_source s \<in> set (th_concurrentTypeSet (with_white P t)) \<and>
      listed (th_concurrentWhitelist (with_white P t)) b (cs_source s), with_white P t)"
  by (auto simp: CheckInWhitelist_def with_white_def listed_def Let_def split: option.splits)

definition bundle_of :: "pipe_env \<Rightarrow> CapturerStreamInfo \<Rightarrow> string" where
  "bundle_of P s = (if pe_bundle P (cs_uid s) = [] then ''ERROR! CANT GET BUNDLENAME'' else pe_bundle P (cs_uid s))"

text \<open>A stream wake-up may run beside.\<close>

definition stream_allows :: "pipe_env \<Rightarrow> 'h TriggerHelper \<Rightarrow> CapturerStreamInfo \<Rightarrow> bool" where
  "stream_allows P t s \<longleftrightarrow>
     \<not> (th_mExtensionConcurrency t \<and> cs_state s = CAPTURER_RUNNING \<and>
        listed (th_concurrentBlacklist (with_black P t)) (bundle_of P s) (cs_source s)) \<and>
     \<not> CheckVoipOnly s t \<and>
     (CheckSourceConcurrency s t \<or>
      \<not> th_mExtensionConcurrency t \<and> cs_source s \<in> set (th_concurrentTypeSet (with_white P t)) \<and>
      listed (th_concurrentWhitelist (with_white P t)) (bundle_of P s) (cs_source s))"

lemma stream_allows_read [simp]:
  "stream_allows P (with_black P t) = stream_allows P t" "stream_allows P (with_white P t) = stream_allows P t"
  by (simp_all add: fun_eq_iff stream_allows_def CheckVoipOnly_def CheckSourceConcurrency_def with_black_eq with_white_eq)

lemma checks_read [simp]:
  "CheckVoipOnly s (with_black P t) = CheckVoipOnly s t"
  "CheckSourceConcurrency s (with_black P t) = CheckSourceConcurrency s t"
  "th_mExtensionConcurrency (with_black P t) = th_mExtensionConcurrency t"
  by (simp_all add: CheckVoipOnly_def CheckSourceConcurrency_def with_black_eq)

lemma white_black:
  "th_concurrentTypeSet (with_white P (with_black P t)) = th_concurrentTypeSet (with_white P t)"
  "th_concurrentWhitelist (with_white P (with_black P t)) = th_concurrentWhitelist (with_white P t)"
  by (simp_all add: with_black_eq with_white_eq)

lemma GetConcurrentState_loop_eq:
  "fst (GetConcurrentState_loop P ss t) = (\<forall>s\<in>set ss. stream_allows P t s)"
proof (induction ss arbitrary: t)
  case (Cons s ss)
  define t1 where "t1 = (if th_mExtensionConcurrency t then with_black P t else t)"
  have t1: "stream_allows P t1 = stream_allows P t" "stream_allows P (with_white P t1) = stream_allows P t"
    "CheckVoipOnly s t1 = CheckVoipOnly s t" "CheckSourceConcurrency s t1 = CheckSourceConcurrency s t"
    "th_mExtensionConcurrency t1 = th_mExtensionConcurrency t"
    "th_concurrentTypeSet (with_white P t1) = th_concurrentTypeSet (with_white P t)"
    "th_concurrentWhitelist (with_white P t1) = th_concurrentWhitelist (with_white P t)"
    by (simp_all add: t1_def white_black)
  have "CheckBlacklistConflict P (bundle_of P s) s t =
      (th_mExtensionConcurrency t \<and> cs_state s = CAPTURER_RUNNING \<and>
         listed (th_concurrentBlacklist (with_black P t)) (bundle_of P s) (cs_source s), t1)"
    by (auto simp: CheckBlacklist_eq t1_def)
  then show ?case
    using Cons.IH [of t1] Cons.IH [of "with_white P t1"]
    by (auto simp: t1 CheckInWhitelist_eq stream_allows_def [of P t s] bundle_of_def Let_def)
qed simp

section \<open>Properties\<close>

text \<open>
  C38. The listener lets wake-up run concurrently exactly when there is no call conflict, no modem call
  beside other playback, and every capture stream is one wake-up may run beside; the early returns,
  the order of the streams and reading the lists on demand make no difference.
\<close>

theorem concurrent_state_meaning:
  "fst (GetConcurrentState P m t) \<longleftrightarrow>
     \<not> CheckCallConflict t \<and> \<not> CheckCallOnly t \<and> list_all (stream_allows P t) (pipe_streams m)"
  by (simp add: GetConcurrentState_def GetConcurrentState_loop_eq list_all_iff)

end
