(* ===== verification/Id_Allocator.thy ===== *)
theory Id_Allocator
  imports IV_Prelude
begin

text \<open>
  \<open>utils/id_allocator\<close>: the pool of small integer ids the timer manager hands out. The state is
  the vector of flags of the C++ struct; the abstraction is the set of ids in use. The locale
  \<open>id_pool\<close> is the contract a client relies on, discharged here for the code's operations.
\<close>

section \<open>Model\<close>

definition INVALID_ID :: int where
  "INVALID_ID = 65535"

record id_allocator =
  idFlags :: "bool list"

definition IdAllocator :: "int \<Rightarrow> id_allocator" where
  "IdAllocator maxTimerNum = \<lparr>idFlags = replicate (nat maxTimerNum) False\<rparr>"

text \<open>The loop of \<open>AllocId\<close>: the index of the first flag that is not set.\<close>

fun alloc_scan :: "nat \<Rightarrow> bool list \<Rightarrow> nat option" where
  "alloc_scan i [] = None"
| "alloc_scan i (f # fs) = (if f then alloc_scan (Suc i) fs else Some i)"

definition AllocId :: "id_allocator \<Rightarrow> int \<times> id_allocator" where
  "AllocId a =
     (case alloc_scan 0 (idFlags a) of
        Some i \<Rightarrow> (int i, a\<lparr>idFlags := (idFlags a)[i := True]\<rparr>)
      | None \<Rightarrow> (INVALID_ID, a))"

text \<open>The parameter is an \<open>unsigned int\<close>: callers pass an \<open>int\<close>, which is converted.\<close>

definition ReleaseId :: "32 word \<Rightarrow> id_allocator \<Rightarrow> id_allocator" where
  "ReleaseId i a =
     (if unat i \<ge> length (idFlags a) then a
      else a\<lparr>idFlags := (idFlags a)[unat i := False]\<rparr>)"

definition ClearId :: "id_allocator \<Rightarrow> id_allocator" where
  "ClearId a = a\<lparr>idFlags := map (\<lambda>_. False) (idFlags a)\<rparr>"

text \<open>Abstraction: the ids that are allocated, and the size of the pool.\<close>

definition held :: "id_allocator \<Rightarrow> int set" where
  "held a = int ` {i. i < length (idFlags a) \<and> idFlags a ! i}"

definition pool_size :: "id_allocator \<Rightarrow> nat" where
  "pool_size a = length (idFlags a)"

text \<open>Every id of the pool differs from \<open>INVALID_ID\<close>.\<close>

definition pool_ok :: "id_allocator \<Rightarrow> bool" where
  "pool_ok a \<longleftrightarrow> int (pool_size a) \<le> INVALID_ID"

definition release_int :: "int \<Rightarrow> id_allocator \<Rightarrow> id_allocator" where
  "release_int i a = ReleaseId (word_of_int i) a"

section \<open>Contract\<close>

locale id_pool =
  fixes alloc :: "'p \<Rightarrow> int \<times> 'p"
    and release :: "int \<Rightarrow> 'p \<Rightarrow> 'p"
    and clear :: "'p \<Rightarrow> 'p"
    and ids :: "'p \<Rightarrow> int set"
    and size_of :: "'p \<Rightarrow> nat"
    and ok :: "'p \<Rightarrow> bool"
  assumes alloc_some: "ok p \<Longrightarrow> alloc p = (i, p') \<Longrightarrow> i \<noteq> INVALID_ID \<Longrightarrow>
        0 \<le> i \<and> i < int (size_of p) \<and> i \<notin> ids p \<and> ids p' = insert i (ids p)"
    and alloc_none: "ok p \<Longrightarrow> alloc p = (INVALID_ID, p') \<Longrightarrow> p' = p \<and> card (ids p) = size_of p"
    and release_ids: "ok p \<Longrightarrow> i \<in> ids p \<Longrightarrow> ids (release i p) = ids p - {i}"
    and clear_ids: "ids (clear p) = {}"
    and ids_range: "ids p \<subseteq> {0..<int (size_of p)}"
    and alloc_size: "alloc p = (i, p') \<Longrightarrow> size_of p' = size_of p"
    and release_size: "size_of (release i p) = size_of p"
    and clear_size: "size_of (clear p) = size_of p"
    and ok_size: "size_of p = size_of q \<Longrightarrow> ok p = ok q"
begin

lemma finite_ids: "finite (ids p)"
  using ids_range finite_subset by blast

lemma card_ids_le: "card (ids p) \<le> size_of p"
  using card_mono [OF _ ids_range [of p]] by simp

lemma alloc_ok: "ok p \<Longrightarrow> alloc p = (i, p') \<Longrightarrow> ok p'"
  using ok_size [OF alloc_size] by blast

lemma alloc_fails_iff:
  assumes "ok p" and "alloc p = (i, p')"
  shows "i = INVALID_ID \<longleftrightarrow> card (ids p) = size_of p"
proof
  assume "i = INVALID_ID"
  then show "card (ids p) = size_of p" using alloc_none assms by blast
next
  assume full: "card (ids p) = size_of p"
  show "i = INVALID_ID"
  proof (rule ccontr)
    assume "i \<noteq> INVALID_ID"
    then have "i \<notin> ids p" and "ids p' = insert i (ids p)"
      using alloc_some assms by blast+
    then have "card (ids p') = Suc (card (ids p))" by (simp add: finite_ids)
    moreover have "card (ids p') \<le> size_of p"
      using card_ids_le [of p'] alloc_size [OF assms(2)] by simp
    ultimately show False using full by simp
  qed
qed

end

section \<open>The code fulfils the contract\<close>

lemma alloc_scan_Some:
  "alloc_scan k fs = Some i \<Longrightarrow>
     k \<le> i \<and> i < k + length fs \<and> \<not> fs ! (i - k) \<and> (\<forall>j < i - k. fs ! j)"
proof (induction k fs rule: alloc_scan.induct)
  case (1 k)
  then show ?case by simp
next
  case (2 k f fs)
  show ?case
  proof (cases f)
    case True
    with "2.prems" have "alloc_scan (Suc k) fs = Some i" by simp
    from "2.IH" [OF True this]
    have le: "Suc k \<le> i" and b: "i < Suc k + length fs"
      and n: "\<not> fs ! (i - Suc k)" and a: "\<forall>j < i - Suc k. fs ! j" by auto
    from le have e: "i - k = Suc (i - Suc k)" by simp
    show ?thesis using True le b n a by (auto simp: e nth_Cons' less_Suc_eq_0_disj)
  next
    case False
    with "2.prems" show ?thesis by simp
  qed
qed

lemma alloc_scan_None: "alloc_scan k fs = None \<longleftrightarrow> (\<forall>f \<in> set fs. f)"
  by (induction k fs rule: alloc_scan.induct) auto

lemma held_iff: "i \<in> held a \<longleftrightarrow> 0 \<le> i \<and> nat i < length (idFlags a) \<and> idFlags a ! nat i"
  by (force simp: held_def)

lemma held_IdAllocator [simp]: "held (IdAllocator n) = {}"
  by (auto simp: held_iff IdAllocator_def)

lemma pool_size_IdAllocator [simp]: "pool_size (IdAllocator n) = nat n"
  by (simp add: pool_size_def IdAllocator_def)

lemma held_full:
  assumes "\<forall>f \<in> set (idFlags a). f"
  shows "held a = {0..<int (pool_size a)}"
proof -
  have "idFlags a ! k" if "k < length (idFlags a)" for k
    using assms that nth_mem by blast
  then show ?thesis by (auto simp: set_eq_iff held_iff pool_size_def)
qed

lemma held_release_word:
  "held (ReleaseId i a) = held a - {int (unat i)}"
proof (cases "unat i < length (idFlags a)")
  case True
  then show ?thesis
    by (auto simp: set_eq_iff held_iff ReleaseId_def nth_list_update simp del: of_nat_unat
        split: if_splits)
next
  case False
  then show ?thesis by (auto simp: set_eq_iff held_iff ReleaseId_def simp del: of_nat_unat)
qed

lemma held_release_int:
  assumes "pool_ok a" and "i \<in> held a"
  shows "held (release_int i a) = held a - {i}"
proof -
  from assms have "0 \<le> i" "i < 2 ^ 32"
    by (auto simp: held_iff pool_ok_def pool_size_def INVALID_ID_def)
  then have "int (unat (word_of_int i :: 32 word)) = i" by (simp add: unat_word_of_int32)
  then show ?thesis by (simp add: release_int_def held_release_word)
qed

lemma AllocId_Some:
  assumes "pool_ok a" and "AllocId a = (i, a')" and "i \<noteq> INVALID_ID"
  shows "0 \<le> i \<and> i < int (pool_size a) \<and> i \<notin> held a \<and> held a' = insert i (held a)"
proof -
  from assms(2,3) obtain k where k: "alloc_scan 0 (idFlags a) = Some k" and i: "i = int k"
    and a': "a' = a\<lparr>idFlags := (idFlags a)[k := True]\<rparr>"
    by (auto simp: AllocId_def split: option.splits)
  from alloc_scan_Some [OF k] have "k < length (idFlags a)" and "\<not> idFlags a ! k" by auto
  then show ?thesis
    by (auto simp: i a' set_eq_iff held_iff pool_size_def nth_list_update split: if_splits)
qed

lemma AllocId_None:
  assumes "pool_ok a" and "AllocId a = (INVALID_ID, a')"
  shows "a' = a \<and> card (held a) = pool_size a"
proof (cases "alloc_scan 0 (idFlags a)")
  case None
  then have "held a = {0..<int (pool_size a)}" by (simp add: alloc_scan_None held_full)
  with None show ?thesis using assms(2) by (simp add: AllocId_def)
next
  case (Some k)
  from alloc_scan_Some [OF Some] have "k < length (idFlags a)" by simp
  with assms Some show ?thesis by (simp add: AllocId_def pool_ok_def pool_size_def)
qed

interpretation idp: id_pool AllocId release_int ClearId held pool_size pool_ok
proof (unfold_locales, goal_cases)
  case (1 p i p')
  then show ?case by (rule AllocId_Some)
next
  case (2 p p')
  then show ?case by (rule AllocId_None)
next
  case (3 p i)
  then show ?case by (rule held_release_int)
next
  case (4 p)
  then show ?case by (auto simp: held_iff ClearId_def)
next
  case (5 p)
  then show ?case by (auto simp: held_iff pool_size_def)
next
  case (6 p i p')
  then show ?case by (auto simp: AllocId_def pool_size_def split: option.splits)
next
  case (7 i p)
  then show ?case by (simp add: release_int_def ReleaseId_def pool_size_def)
next
  case (8 p)
  then show ?case by (simp add: ClearId_def pool_size_def)
next
  case (9 p q)
  then show ?case by (simp add: pool_ok_def)
qed

end
