(* ===== verification/Timer_Mgr.thy ===== *)
theory Timer_Mgr
  imports Id_Allocator
begin

text \<open>
  \<open>utils/timer_mgr\<close>: the timer queue of a state machine. A \<open>timer_mgr\<close> is the C++ object: the id
  pool it inherits, its status, its default observer, the deadline-ordered queue and whether its
  thread exists. Every critical section of the code (the scope of \<open>timeMutex_\<close>) is one definition,
  so the interleavings of clients with the timer thread are the sequences of \<open>timer_step\<close>.
  The clock reading \<open>NowTimeUs()\<close> is an argument; it is an unbounded integer (64 bits of
  microseconds do not overflow in practice).
\<close>

section \<open>Model\<close>

type_synonym observer = nat

datatype TimerStatus = TIMER_STATUS_INIT | TIMER_STATUS_STARTED | TIMER_STATUS_TO_QUIT

record TimerItem =
  ti_timerId :: int
  ti_type :: int
  ti_cookie :: int
  ti_tgtUs :: int
  ti_observer :: "observer option"

record TimerEvent =
  te_type :: int
  te_timeId :: int
  te_cookie :: int

record timer_mgr =
  tm_ids :: id_allocator
  tm_status :: TimerStatus
  tm_timerObserver :: "observer option"
  tm_itemQueue :: "TimerItem list"
  tm_thread :: bool

definition TimerItem_new :: "int \<Rightarrow> int \<Rightarrow> int \<Rightarrow> int \<Rightarrow> observer option \<Rightarrow> int \<Rightarrow> TimerItem" where
  "TimerItem_new i ty cookie delayUs obs now =
     \<lparr>ti_timerId = i, ti_type = ty, ti_cookie = cookie, ti_tgtUs = now + delayUs, ti_observer = obs\<rparr>"

definition TimerMgr :: "int \<Rightarrow> timer_mgr" where
  "TimerMgr maxTimerNum =
     \<lparr>tm_ids = IdAllocator maxTimerNum, tm_status = TIMER_STATUS_INIT, tm_timerObserver = None,
      tm_itemQueue = [], tm_thread = False\<rparr>"

text \<open>
  \<open>ThreadWrapper::Start\<close>: an existing thread is reused; \<open>created\<close> says whether the platform
  could create one.
\<close>

definition ThreadWrapper_Start :: "bool \<Rightarrow> timer_mgr \<Rightarrow> bool \<times> timer_mgr" where
  "ThreadWrapper_Start created s =
     (if tm_thread s then (True, s)
      else if created then (True, s\<lparr>tm_thread := True\<rparr>) else (False, s))"

definition ThreadWrapper_Join :: "timer_mgr \<Rightarrow> timer_mgr" where
  "ThreadWrapper_Join s = s\<lparr>tm_thread := False\<rparr>"

definition TimerMgr_Start :: "bool \<Rightarrow> observer option \<Rightarrow> timer_mgr \<Rightarrow> timer_mgr" where
  "TimerMgr_Start created obs s =
     (if tm_status s = TIMER_STATUS_STARTED then s
      else if tm_status s \<noteq> TIMER_STATUS_INIT then s
      else (case ThreadWrapper_Start created s of
              (False, s1) \<Rightarrow> s1
            | (True, s1) \<Rightarrow> s1\<lparr>tm_timerObserver := obs, tm_status := TIMER_STATUS_STARTED\<rparr>))"

text \<open>\<open>Stop\<close> asks the thread to quit under the lock, joins it, then clears.\<close>

definition Stop_request :: "timer_mgr \<Rightarrow> bool \<times> timer_mgr" where
  "Stop_request s =
     (if tm_status s \<noteq> TIMER_STATUS_STARTED then (False, s)
      else (True, s\<lparr>tm_status := TIMER_STATUS_TO_QUIT\<rparr>))"

definition TimerMgr_Clear :: "timer_mgr \<Rightarrow> timer_mgr" where
  "TimerMgr_Clear s =
     s\<lparr>tm_itemQueue := [], tm_ids := ClearId (tm_ids s),
       tm_status := TIMER_STATUS_INIT, tm_timerObserver := None\<rparr>"

definition TimerMgr_Stop :: "timer_mgr \<Rightarrow> timer_mgr" where
  "TimerMgr_Stop s =
     (case Stop_request s of
        (False, s1) \<Rightarrow> s1
      | (True, s1) \<Rightarrow> TimerMgr_Clear (ThreadWrapper_Join s1))"

text \<open>The scan of \<open>SetTimer\<close>: before the first item whose deadline is not earlier.\<close>

fun insert_item :: "TimerItem \<Rightarrow> TimerItem list \<Rightarrow> TimerItem list" where
  "insert_item x [] = [x]"
| "insert_item x (y # ys) =
     (if ti_tgtUs y < ti_tgtUs x then y # insert_item x ys else x # y # ys)"

definition pick_observer :: "observer option \<Rightarrow> timer_mgr \<Rightarrow> observer option" where
  "pick_observer currObserver s = (if currObserver = None then tm_timerObserver s else currObserver)"

definition SetTimer :: "int \<Rightarrow> int \<Rightarrow> int \<Rightarrow> observer option \<Rightarrow> int \<Rightarrow> timer_mgr \<Rightarrow> int \<times> timer_mgr" where
  "SetTimer ty delayUs cookie currObserver now s =
     (if tm_status s \<noteq> TIMER_STATUS_STARTED then (INVALID_ID, s)
      else let obs = pick_observer currObserver s in
        if obs = None then (INVALID_ID, s)
        else (case AllocId (tm_ids s) of (i, ids') \<Rightarrow>
          if i = INVALID_ID then (INVALID_ID, s\<lparr>tm_ids := ids'\<rparr>)
          else (i, s\<lparr>tm_ids := ids',
                     tm_itemQueue := insert_item (TimerItem_new i ty cookie delayUs obs now)
                                       (tm_itemQueue s)\<rparr>)))"

text \<open>The loop of \<open>KillTimer\<close>: the first item with the id, and the queue without it.\<close>

fun kill_scan :: "int \<Rightarrow> TimerItem list \<Rightarrow> (TimerItem \<times> TimerItem list) option" where
  "kill_scan i [] = None"
| "kill_scan i (y # ys) =
     (if ti_timerId y = i then Some (y, ys)
      else (case kill_scan i ys of None \<Rightarrow> None | Some (x, zs) \<Rightarrow> Some (x, y # zs)))"

text \<open>\<open>KillTimer\<close> takes the id by reference: the new value is returned.\<close>

definition KillTimer :: "int \<Rightarrow> timer_mgr \<Rightarrow> int \<times> timer_mgr" where
  "KillTimer i s =
     (case kill_scan i (tm_itemQueue s) of
        Some (x, q) \<Rightarrow>
          (INVALID_ID, s\<lparr>tm_ids := release_int (ti_timerId x) (tm_ids s), tm_itemQueue := q\<rparr>)
      | None \<Rightarrow> (if i \<noteq> INVALID_ID then INVALID_ID else i, s))"

text \<open>
  The first critical section of \<open>ResetTimer\<close>: with exactly one timer it is decided here
  (\<open>Some\<close> result), otherwise the lock is released and the timer is killed and set anew.
\<close>

definition ResetTimer_locked :: "int \<Rightarrow> int \<Rightarrow> int \<Rightarrow> timer_mgr \<Rightarrow> int option \<times> timer_mgr" where
  "ResetTimer_locked i delayUs now s =
     (case tm_itemQueue s of
        [x] \<Rightarrow> (if ti_timerId x \<noteq> i then (Some INVALID_ID, s)
               else (Some i, s\<lparr>tm_itemQueue := [x\<lparr>ti_tgtUs := now + delayUs\<rparr>]\<rparr>))
      | _ \<Rightarrow> (None, s))"

definition ResetTimer ::
  "int \<Rightarrow> int \<Rightarrow> int \<Rightarrow> int \<Rightarrow> observer option \<Rightarrow> int \<Rightarrow> timer_mgr \<Rightarrow> int \<times> timer_mgr" where
  "ResetTimer i ty delayUs cookie currObserver now s =
     (case ResetTimer_locked i delayUs now s of
        (Some r, s1) \<Rightarrow> (r, s1)
      | (None, s1) \<Rightarrow> SetTimer ty delayUs cookie currObserver now (snd (KillTimer i s1)))"

text \<open>One round of the loop of \<open>Run\<close>, and the loop over the clock readings of its rounds.\<close>

datatype run_outcome =
  RunExit | RunWait | RunWaitFor int | RunFire TimerEvent "observer option"

definition Run_iter :: "int \<Rightarrow> timer_mgr \<Rightarrow> run_outcome \<times> timer_mgr" where
  "Run_iter now s =
     (if tm_status s \<noteq> TIMER_STATUS_STARTED then (RunExit, s)
      else (case tm_itemQueue s of
          [] \<Rightarrow> (RunWait, s)
        | x # q \<Rightarrow>
            if now < ti_tgtUs x then (RunWaitFor (ti_tgtUs x - now), s)
            else (RunFire \<lparr>te_type = ti_type x, te_timeId = ti_timerId x, te_cookie = ti_cookie x\<rparr>
                    (ti_observer x),
                  s\<lparr>tm_ids := release_int (ti_timerId x) (tm_ids s), tm_itemQueue := q\<rparr>)))"

fun Run_loop :: "int list \<Rightarrow> timer_mgr \<Rightarrow> (TimerEvent \<times> observer) list \<times> timer_mgr" where
  "Run_loop [] s = ([], s)"
| "Run_loop (now # nows) s =
     (case Run_iter now s of
        (RunExit, s1) \<Rightarrow> ([], s1)
      | (RunFire e (Some ob), s1) \<Rightarrow> (case Run_loop nows s1 of (es, s2) \<Rightarrow> ((e, ob) # es, s2))
      | (_, s1) \<Rightarrow> Run_loop nows s1)"

section \<open>Interleavings and the invariant\<close>

inductive timer_step :: "timer_mgr \<Rightarrow> timer_mgr \<Rightarrow> bool" where
  t_start: "timer_step s (TimerMgr_Start created obs s)"
| t_stop_request: "timer_step s (snd (Stop_request s))"
| t_clear: "tm_status s = TIMER_STATUS_TO_QUIT \<Longrightarrow>
     timer_step s (TimerMgr_Clear (ThreadWrapper_Join s))"
| t_set: "timer_step s (snd (SetTimer ty delayUs cookie obs now s))"
| t_kill: "timer_step s (snd (KillTimer i s))"
| t_reset: "timer_step s (snd (ResetTimer_locked i delayUs now s))"
| t_run: "timer_step s (snd (Run_iter now s))"

inductive_cases timer_stepE: "timer_step s t"

definition timer_start :: "timer_mgr \<Rightarrow> bool" where
  "timer_start s \<longleftrightarrow> (\<exists>n \<le> INVALID_ID. s = TimerMgr n)"

abbreviation queue_ids :: "timer_mgr \<Rightarrow> int list" where
  "queue_ids s \<equiv> map ti_timerId (tm_itemQueue s)"

definition timer_inv :: "timer_mgr \<Rightarrow> bool" where
  "timer_inv s \<longleftrightarrow>
     pool_ok (tm_ids s) \<and> distinct (queue_ids s) \<and> set (queue_ids s) = held (tm_ids s) \<and>
     sorted (map ti_tgtUs (tm_itemQueue s)) \<and>
     (tm_status s = TIMER_STATUS_INIT \<longrightarrow> tm_itemQueue s = []) \<and>
     (\<forall>x \<in> set (tm_itemQueue s). ti_observer x \<noteq> None)"

named_theorems timer_defs "operations of the timer manager"

lemmas timer_op_defs [timer_defs] =
  TimerMgr_Start_def ThreadWrapper_Start_def ThreadWrapper_Join_def Stop_request_def
  TimerMgr_Clear_def ResetTimer_locked_def

lemma timer_invD:
  assumes "timer_inv s"
  shows "pool_ok (tm_ids s)" "distinct (queue_ids s)" "set (queue_ids s) = held (tm_ids s)"
    "sorted (map ti_tgtUs (tm_itemQueue s))"
    "tm_status s = TIMER_STATUS_INIT \<Longrightarrow> tm_itemQueue s = []"
    "x \<in> set (tm_itemQueue s) \<Longrightarrow> ti_observer x \<noteq> None"
  using assms by (auto simp: timer_inv_def)

subsection \<open>The scans\<close>

lemma set_insert_item [simp]: "set (insert_item x q) = insert x (set q)"
  by (induction q) auto

lemma length_insert_item [simp]: "length (insert_item x q) = Suc (length q)"
  by (induction q) auto

lemma distinct_insert_item [simp]:
  "distinct (map ti_timerId (insert_item x q)) \<longleftrightarrow>
     ti_timerId x \<notin> set (map ti_timerId q) \<and> distinct (map ti_timerId q)"
  by (induction q) auto

lemma sorted_insert_item:
  "sorted (map ti_tgtUs q) \<Longrightarrow> sorted (map ti_tgtUs (insert_item x q))"
  by (induction q) auto

lemma filter_other:
  "i \<notin> set (map ti_timerId q) \<Longrightarrow> filter (\<lambda>y. ti_timerId y \<noteq> i) q = q"
  by (induction q) auto

lemma filter_insert_item:
  "ti_timerId x \<notin> set (map ti_timerId q) \<Longrightarrow>
     filter (\<lambda>y. ti_timerId y \<noteq> ti_timerId x) (insert_item x q) = q"
  by (induction q) (auto simp: filter_other)

lemma kill_scan_None: "kill_scan i q = None \<longleftrightarrow> i \<notin> set (map ti_timerId q)"
  by (induction q) (auto split: option.splits)

lemma kill_scan_Some:
  "kill_scan i q = Some (x, q') \<Longrightarrow>
     \<exists>us vs. q = us @ x # vs \<and> q' = us @ vs \<and> ti_timerId x = i \<and> i \<notin> set (map ti_timerId us)"
proof (induction q arbitrary: q')
  case Nil
  then show ?case by simp
next
  case (Cons y ys)
  show ?case
  proof (cases "ti_timerId y = i")
    case True
    with Cons.prems show ?thesis by (intro exI [of _ "[]"] exI [of _ ys]) auto
  next
    case False
    with Cons.prems obtain zs where k: "kill_scan i ys = Some (x, zs)" and q': "q' = y # zs"
      by (auto split: option.splits)
    from Cons.IH [OF k] obtain us vs where "ys = us @ x # vs" "zs = us @ vs" "ti_timerId x = i"
      "i \<notin> set (map ti_timerId us)" by blast
    with q' False show ?thesis by (intro exI [of _ "y # us"] exI [of _ vs]) auto
  qed
qed

lemma kill_scan_filter:
  assumes "kill_scan i q = Some (x, q')" and "distinct (map ti_timerId q)"
  shows "q' = filter (\<lambda>y. ti_timerId y \<noteq> i) q"
proof -
  from kill_scan_Some [OF assms(1)] obtain us vs where
    q: "q = us @ x # vs" "q' = us @ vs" "ti_timerId x = i" by blast
  from assms(2) have "i \<notin> set (map ti_timerId us)" "i \<notin> set (map ti_timerId vs)"
    by (simp_all add: q)
  then have "filter (\<lambda>y. ti_timerId y \<noteq> i) us = us" "filter (\<lambda>y. ti_timerId y \<noteq> i) vs = vs"
    by (simp_all add: filter_other)
  with q show ?thesis by simp
qed

subsection \<open>What the operations do\<close>

lemma KillTimer_spec:
  assumes "timer_inv s"
  shows "KillTimer i s =
    (INVALID_ID,
     if i \<in> set (queue_ids s)
     then s\<lparr>tm_ids := release_int i (tm_ids s),
            tm_itemQueue := filter (\<lambda>y. ti_timerId y \<noteq> i) (tm_itemQueue s)\<rparr>
     else s)"
proof (cases "kill_scan i (tm_itemQueue s)")
  case None
  then have "i \<notin> set (queue_ids s)" by (simp add: kill_scan_None)
  with None show ?thesis by (simp add: KillTimer_def)
next
  case (Some p)
  obtain x q where p: "p = (x, q)" by fastforce
  with Some have k: "kill_scan i (tm_itemQueue s) = Some (x, q)" by simp
  from kill_scan_Some [OF k] have "ti_timerId x = i" and "i \<in> set (queue_ids s)" by auto
  moreover have "q = filter (\<lambda>y. ti_timerId y \<noteq> i) (tm_itemQueue s)"
    using kill_scan_filter [OF k] assms by (simp add: timer_inv_def)
  ultimately show ?thesis using k by (simp add: KillTimer_def)
qed

lemma SetTimer_refused:
  assumes "timer_inv s"
    and "tm_status s \<noteq> TIMER_STATUS_STARTED \<or> pick_observer obs s = None \<or>
         length (tm_itemQueue s) = pool_size (tm_ids s)"
  shows "SetTimer ty delayUs cookie obs now s = (INVALID_ID, s)"
proof (cases "tm_status s \<noteq> TIMER_STATUS_STARTED \<or> pick_observer obs s = None")
  case True
  then show ?thesis by (auto simp: SetTimer_def Let_def)
next
  case False
  obtain i ids' where a: "AllocId (tm_ids s) = (i, ids')" by fastforce
  from False assms(2) have "card (held (tm_ids s)) = pool_size (tm_ids s)"
    using distinct_card [of "queue_ids s"] timer_invD(2,3) [OF assms(1)] by auto
  then have "i = INVALID_ID" using idp.alloc_fails_iff [OF timer_invD(1) [OF assms(1)] a] by simp
  moreover from this have "ids' = tm_ids s"
    using idp.alloc_none [OF timer_invD(1) [OF assms(1)]] a by blast
  ultimately show ?thesis using False a by (simp add: SetTimer_def Let_def)
qed

lemma SetTimer_accepted:
  assumes "timer_inv s" and "tm_status s = TIMER_STATUS_STARTED" and "pick_observer obs s \<noteq> None"
    and "length (tm_itemQueue s) \<noteq> pool_size (tm_ids s)"
  obtains i ids' where "AllocId (tm_ids s) = (i, ids')" "i \<noteq> INVALID_ID"
    "SetTimer ty delayUs cookie obs now s =
      (i, s\<lparr>tm_ids := ids', tm_itemQueue := insert_item
             (TimerItem_new i ty cookie delayUs (pick_observer obs s) now) (tm_itemQueue s)\<rparr>)"
proof -
  obtain i ids' where a: "AllocId (tm_ids s) = (i, ids')" by fastforce
  have "card (held (tm_ids s)) \<noteq> pool_size (tm_ids s)"
    using assms(4) distinct_card [of "queue_ids s"] timer_invD(2,3) [OF assms(1)] by simp
  then have "i \<noteq> INVALID_ID" using idp.alloc_fails_iff [OF timer_invD(1) [OF assms(1)] a] by simp
  with a assms(2,3) show ?thesis by (intro that) (auto simp: SetTimer_def Let_def)
qed

subsection \<open>Every critical section keeps the invariant\<close>

lemma timer_inv_init: "timer_start s \<Longrightarrow> timer_inv s"
  by (auto simp: timer_start_def timer_inv_def TimerMgr_def pool_ok_def INVALID_ID_def)

lemma timer_inv_remove:
  assumes inv: "timer_inv s" and q: "tm_itemQueue s = us @ x # vs"
  shows "timer_inv (s\<lparr>tm_ids := release_int (ti_timerId x) (tm_ids s), tm_itemQueue := us @ vs\<rparr>)"
proof -
  have "ti_timerId x \<in> held (tm_ids s)" using timer_invD(3) [OF inv] q by auto
  then have h: "held (release_int (ti_timerId x) (tm_ids s)) = held (tm_ids s) - {ti_timerId x}"
    using timer_invD(1) [OF inv] by (rule idp.release_ids [rotated])
  have ok: "pool_ok (release_int (ti_timerId x) (tm_ids s))"
    using timer_invD(1) [OF inv] idp.ok_size [OF idp.release_size] by blast
  have d: "distinct (map ti_timerId (us @ x # vs))" using timer_invD(2) [OF inv] q by simp
  have "set (map ti_timerId (us @ vs)) = held (tm_ids s) - {ti_timerId x}"
    using timer_invD(3) [OF inv] d by (auto simp: q)
  moreover have "sorted (map ti_tgtUs (us @ vs))"
    using timer_invD(4) [OF inv] by (auto simp: q sorted_append)
  ultimately show ?thesis using ok h d inv
    by (auto simp: timer_inv_def q)
qed

lemma timer_inv_set: "timer_inv s \<Longrightarrow> timer_inv (snd (SetTimer ty delayUs cookie obs now s))"
proof (cases "tm_status s \<noteq> TIMER_STATUS_STARTED \<or> pick_observer obs s = None \<or>
         length (tm_itemQueue s) = pool_size (tm_ids s)")
  case True
  then show "timer_inv s \<Longrightarrow> ?thesis" by (simp add: SetTimer_refused)
next
  case False
  assume inv: "timer_inv s"
  from False obtain i ids' where a: "AllocId (tm_ids s) = (i, ids')" "i \<noteq> INVALID_ID"
    and r: "SetTimer ty delayUs cookie obs now s =
      (i, s\<lparr>tm_ids := ids', tm_itemQueue := insert_item
             (TimerItem_new i ty cookie delayUs (pick_observer obs s) now) (tm_itemQueue s)\<rparr>)"
    using SetTimer_accepted [OF inv] by metis
  from idp.alloc_some [OF timer_invD(1) [OF inv] a]
  have n: "i \<notin> held (tm_ids s)" and h: "held ids' = insert i (held (tm_ids s))" by auto
  have "pool_ok ids'" using idp.alloc_ok [OF timer_invD(1) [OF inv] a(1)] .
  then show ?thesis using inv n h False sorted_insert_item [OF timer_invD(4) [OF inv]]
    by (auto simp: r timer_inv_def TimerItem_new_def)
qed

lemma timer_inv_kill: "timer_inv s \<Longrightarrow> timer_inv (snd (KillTimer i s))"
proof (cases "kill_scan i (tm_itemQueue s)")
  case None
  then show "timer_inv s \<Longrightarrow> ?thesis" by (simp add: KillTimer_def)
next
  case (Some p)
  assume inv: "timer_inv s"
  obtain x q where p: "p = (x, q)" by fastforce
  from kill_scan_Some [OF Some [unfolded p]] obtain us vs where
    "tm_itemQueue s = us @ x # vs" "q = us @ vs" by blast
  with timer_inv_remove [OF inv] Some p show ?thesis by (simp add: KillTimer_def)
qed

lemma timer_inv_run: "timer_inv s \<Longrightarrow> timer_inv (snd (Run_iter now s))"
  using timer_inv_remove [of s "[]"] by (auto simp: Run_iter_def split: list.splits)

lemma timer_inv_reset: "timer_inv s \<Longrightarrow> timer_inv (snd (ResetTimer_locked i delayUs now s))"
  by (auto simp: timer_inv_def ResetTimer_locked_def split: list.splits)

lemma timer_inv_clear: "timer_inv s \<Longrightarrow> timer_inv (TimerMgr_Clear (ThreadWrapper_Join s))"
  using idp.ok_size [OF idp.clear_size, of "tm_ids s"]
  by (simp add: timer_inv_def TimerMgr_Clear_def ThreadWrapper_Join_def idp.clear_ids)

lemma timer_inv_control:
  "timer_inv s \<Longrightarrow> timer_inv (TimerMgr_Start created obs s)"
  "timer_inv s \<Longrightarrow> timer_inv (snd (Stop_request s))"
  by (auto simp: timer_inv_def timer_defs)

lemmas timer_inv_ops [intro] =
  timer_inv_control timer_inv_clear timer_inv_set timer_inv_kill timer_inv_reset timer_inv_run

interpretation timer: invariant_system timer_start timer_step timer_inv
  by unfold_locales (auto intro: timer_inv_init elim!: timer_stepE)

section \<open>Properties\<close>

subsection \<open>Reachable queues\<close>

lemma run_started: "tm_status (snd (Run_iter now s)) = tm_status s"
  by (simp add: Run_iter_def split: list.splits)

text \<open>
  C39. In every state the timer manager can reach, whatever the interleaving of clients with the
  timer thread: no two pending timers share an id, the ids marked in use are exactly those of the
  pending timers (no id leaks and none is freed early), the queue is ordered by deadline, and
  there are never more pending timers than the pool has ids.
\<close>

theorem timer_reachable_queue:
  assumes "reach timer_start timer_step s"
  shows "distinct (queue_ids s) \<and> held (tm_ids s) = set (queue_ids s) \<and>
    sorted (map ti_tgtUs (tm_itemQueue s)) \<and>
    length (tm_itemQueue s) \<le> pool_size (tm_ids s)"
proof -
  have inv: "timer_inv s" using assms by (rule timer.reach_inv)
  have "length (tm_itemQueue s) = card (held (tm_ids s))"
    using distinct_card [of "queue_ids s"] timer_invD(2,3) [OF inv] by simp
  then show ?thesis using inv idp.card_ids_le [of "tm_ids s"] by (simp add: timer_inv_def)
qed

lemmas timer_reach_ops =
  reach_step [where start = timer_start and step = timer_step, OF _ t_set]
  reach_step [where start = timer_start and step = timer_step, OF _ t_start]

lemmas timer_eval = SetTimer_def TimerMgr_Start_def ThreadWrapper_Start_def
  TimerMgr_def IdAllocator_def AllocId_def pick_observer_def TimerItem_new_def INVALID_ID_def
  numeral_eq_Suc Let_def

definition demo_timers :: timer_mgr where
  "demo_timers = snd (SetTimer 2 50 0 None 1000 (snd (SetTimer 1 300 0 None 1000
     (TimerMgr_Start True (Some 7) (TimerMgr 10)))))"

lemma demo_timers_reach: "reach timer_start timer_step demo_timers"
proof -
  have "timer_start (TimerMgr 10)" 
    by (auto simp: timer_start_def INVALID_ID_def intro!: exI [of _ 10])
  then show ?thesis unfolding demo_timers_def
    by (intro timer_reach_ops reach_start)
qed

lemma demo_timers_queue:
  "tm_itemQueue demo_timers =
     [\<lparr>ti_timerId = 1, ti_type = 2, ti_cookie = 0, ti_tgtUs = 1050, ti_observer = Some 7\<rparr>,
      \<lparr>ti_timerId = 0, ti_type = 1, ti_cookie = 0, ti_tgtUs = 1300, ti_observer = Some 7\<rparr>]"
  "tm_status demo_timers = TIMER_STATUS_STARTED"
  by (simp_all add: demo_timers_def timer_eval)

lemma demo_timers_inv: "timer_inv demo_timers"
  using demo_timers_reach by (rule timer.reach_inv)

theorem timer_reachable_queue_witness:
  "queue_ids demo_timers = [1, 0] \<and> held (tm_ids demo_timers) = {0, 1}"
  using timer_reachable_queue [OF demo_timers_reach] by (auto simp: demo_timers_queue)

text \<open>
  \<open>SetTimer\<close> returns \<open>INVALID_ID\<close> exactly when the manager is not started, when there is no
  observer to notify or when every id is taken, and then changes nothing. Otherwise the returned
  id belonged to no pending timer and the only change of the queue is the new item, due \<open>delayUs\<close>
  after the clock reading.
\<close>

theorem timer_set_spec:
  assumes inv: "timer_inv s" and set: "SetTimer ty delayUs cookie obs now s = (i, t)"
  shows "(i = INVALID_ID \<longleftrightarrow>
       tm_status s \<noteq> TIMER_STATUS_STARTED \<or> pick_observer obs s = None \<or>
       length (tm_itemQueue s) = pool_size (tm_ids s)) \<and>
     (i = INVALID_ID \<longrightarrow> t = s) \<and>
     (i \<noteq> INVALID_ID \<longrightarrow> i \<notin> set (queue_ids s) \<and>
       set (tm_itemQueue t) = insert
         \<lparr>ti_timerId = i, ti_type = ty, ti_cookie = cookie, ti_tgtUs = now + delayUs,
          ti_observer = pick_observer obs s\<rparr> (set (tm_itemQueue s)) \<and>
       length (tm_itemQueue t) = Suc (length (tm_itemQueue s)))"
proof (cases "tm_status s \<noteq> TIMER_STATUS_STARTED \<or> pick_observer obs s = None \<or>
         length (tm_itemQueue s) = pool_size (tm_ids s)")
  case True
  then show ?thesis using SetTimer_refused [OF inv True] set by simp
next
  case False
  from False obtain k ids' where a: "AllocId (tm_ids s) = (k, ids')" "k \<noteq> INVALID_ID"
    and r: "SetTimer ty delayUs cookie obs now s = (k, s\<lparr>tm_ids := ids', tm_itemQueue := insert_item
             (TimerItem_new k ty cookie delayUs (pick_observer obs s) now) (tm_itemQueue s)\<rparr>)"
    using SetTimer_accepted [OF inv] by metis
  from idp.alloc_some [OF timer_invD(1) [OF inv] a]
  have "k \<notin> set (queue_ids s)" using timer_invD(3) [OF inv] by simp
  then show ?thesis using False a(2) set by (auto simp: r TimerItem_new_def)
qed

theorem timer_set_spec_witness:
  "fst (SetTimer 9 5 0 None 2000 demo_timers) \<noteq> INVALID_ID \<and>
   length (tm_itemQueue (snd (SetTimer 9 5 0 None 2000 demo_timers))) = 3"
proof -
  have "pick_observer None demo_timers \<noteq> None" "pool_size (tm_ids demo_timers) = 10"
    by (simp_all add: demo_timers_def timer_eval pool_size_def)
  then show ?thesis
    using timer_set_spec [OF demo_timers_inv surjective_pairing, of 9 5 0 None 2000]
    by (auto simp: demo_timers_queue)
qed

text \<open>
  \<open>KillTimer\<close> always hands back \<open>INVALID_ID\<close>, removes exactly the timer with the given id (none,
  if there is none), frees that id and leaves every other pending timer and id as it was.
\<close>

theorem timer_kill_spec:
  assumes "timer_inv s"
  shows "fst (KillTimer i s) = INVALID_ID \<and>
    tm_itemQueue (snd (KillTimer i s)) = filter (\<lambda>x. ti_timerId x \<noteq> i) (tm_itemQueue s) \<and>
    held (tm_ids (snd (KillTimer i s))) = held (tm_ids s) - {i}"
proof (cases "i \<in> set (queue_ids s)")
  case True
  then have "i \<in> held (tm_ids s)" using timer_invD(3) [OF assms] by simp
  then show ?thesis using True idp.release_ids [OF timer_invD(1) [OF assms]]
    by (simp add: KillTimer_spec [OF assms])
next
  case False
  then have "filter (\<lambda>x. ti_timerId x \<noteq> i) (tm_itemQueue s) = tm_itemQueue s"
    by (rule filter_other)
  then show ?thesis using False timer_invD(3) [OF assms]
    by (auto simp: KillTimer_spec [OF assms])
qed

theorem timer_kill_spec_witness:
  "queue_ids (snd (KillTimer 1 demo_timers)) = [0] \<and>
   held (tm_ids (snd (KillTimer 1 demo_timers))) = held (tm_ids demo_timers) - {1}"
  using timer_kill_spec [OF demo_timers_inv, of 1] by (simp add: demo_timers_queue)

subsection \<open>Firing\<close>

text \<open>
  The timer thread never reports a timer before its deadline, and the timer it reports is one
  whose deadline no remaining timer precedes; its id is free again when the observer is called.
\<close>

theorem timer_fire_earliest:
  assumes "timer_inv s" and "Run_iter now s = (RunFire e ob, t)"
  shows "\<exists>x. x \<in> set (tm_itemQueue s) \<and> ti_tgtUs x \<le> now \<and> ob = ti_observer x \<and> ob \<noteq> None \<and>
    e = \<lparr>te_type = ti_type x, te_timeId = ti_timerId x, te_cookie = ti_cookie x\<rparr> \<and>
    (\<forall>y \<in> set (tm_itemQueue t). ti_tgtUs x \<le> ti_tgtUs y) \<and>
    ti_timerId x \<notin> held (tm_ids t) \<and> tm_itemQueue s = x # tm_itemQueue t"
proof -
  from assms(2) obtain x where q: "tm_itemQueue s = x # tm_itemQueue t" and le: "ti_tgtUs x \<le> now"
    and e: "ob = ti_observer x" "e = \<lparr>te_type = ti_type x, te_timeId = ti_timerId x, te_cookie = ti_cookie x\<rparr>"
    by (auto simp: Run_iter_def split: if_splits list.splits)
  have t: "timer_inv t" using timer_inv_run [OF assms(1), of now] assms(2) by simp
  have "ti_timerId x \<notin> held (tm_ids t)"
    using timer_invD(2) [OF assms(1)] timer_invD(3) [OF t] by (simp add: q)
  moreover have "\<forall>y \<in> set (tm_itemQueue t). ti_tgtUs x \<le> ti_tgtUs y"
    using timer_invD(4) [OF assms(1)] by (simp add: q)
  moreover have "ob \<noteq> None" using timer_invD(6) [OF assms(1), of x] by (simp add: q e)
  ultimately show ?thesis using q le e by auto
qed

theorem timer_fire_earliest_witness:
  "\<exists>x. x \<in> set (tm_itemQueue demo_timers) \<and> ti_tgtUs x = 1050 \<and>
    fst (Run_iter 1100 demo_timers) =
      RunFire \<lparr>te_type = ti_type x, te_timeId = ti_timerId x, te_cookie = ti_cookie x\<rparr> (Some 7)"
proof -
  obtain e ob t where r: "Run_iter 1100 demo_timers = (RunFire e ob, t)"
    by (simp add: Run_iter_def demo_timers_queue)
  then have "fst (Run_iter 1100 demo_timers) = RunFire e ob" by simp
  with timer_fire_earliest [OF demo_timers_inv r] show ?thesis
    by (auto simp: demo_timers_queue)
qed

lemma Run_iter_due:
  assumes "tm_status s = TIMER_STATUS_STARTED" and "tm_itemQueue s = x # q" and "ti_tgtUs x \<le> now"
  shows "Run_iter now s =
    (RunFire \<lparr>te_type = ti_type x, te_timeId = ti_timerId x, te_cookie = ti_cookie x\<rparr> (ti_observer x),
     s\<lparr>tm_ids := release_int (ti_timerId x) (tm_ids s), tm_itemQueue := q\<rparr>)"
  using assms by (simp add: Run_iter_def)

text \<open>
  Nothing is lost: a started manager whose thread keeps running with clock readings past every
  deadline reports each pending timer exactly once, in deadline order, to its observer, and ends
  with an empty queue and every id free.
\<close>

theorem timer_run_drains:
  assumes "timer_inv s" and "tm_status s = TIMER_STATUS_STARTED"
    and "length nows = length (tm_itemQueue s)"
    and "\<forall>now \<in> set nows. \<forall>x \<in> set (tm_itemQueue s). ti_tgtUs x \<le> now"
  shows "fst (Run_loop nows s) =
      map (\<lambda>x. (\<lparr>te_type = ti_type x, te_timeId = ti_timerId x, te_cookie = ti_cookie x\<rparr>,
                the (ti_observer x))) (tm_itemQueue s) \<and>
    tm_itemQueue (snd (Run_loop nows s)) = [] \<and> held (tm_ids (snd (Run_loop nows s))) = {}"
  using assms
proof (induction nows arbitrary: s)
  case Nil
  then have "tm_itemQueue s = []" by simp
  then show ?case using timer_invD(3) [OF Nil.prems(1)] by simp
next
  case (Cons now nows)
  then obtain x q where q: "tm_itemQueue s = x # q" by (cases "tm_itemQueue s") auto
  define t where "t = s\<lparr>tm_ids := release_int (ti_timerId x) (tm_ids s), tm_itemQueue := q\<rparr>"
  have r: "Run_iter now s = (RunFire \<lparr>te_type = ti_type x, te_timeId = ti_timerId x,
      te_cookie = ti_cookie x\<rparr> (ti_observer x), t)"
    using Run_iter_due [OF Cons.prems(2) q] Cons.prems(4) by (simp add: q t_def)
  obtain ob where ob: "ti_observer x = Some ob" using timer_invD(6) [OF Cons.prems(1), of x] q by auto
  have "timer_inv t" using timer_inv_run [OF Cons.prems(1), of now] r by simp
  then have "fst (Run_loop nows t) =
      map (\<lambda>x. (\<lparr>te_type = ti_type x, te_timeId = ti_timerId x, te_cookie = ti_cookie x\<rparr>,
                the (ti_observer x))) (tm_itemQueue t) \<and>
    tm_itemQueue (snd (Run_loop nows t)) = [] \<and> held (tm_ids (snd (Run_loop nows t))) = {}"
    using Cons.prems by (intro Cons.IH) (auto simp: t_def q)
  then show ?case using r ob by (simp add: q t_def case_prod_beta)
qed

theorem timer_run_drains_witness:
  "map te_type (map fst (fst (Run_loop [5000, 5001] demo_timers))) = [2, 1] \<and>
   held (tm_ids (snd (Run_loop [5000, 5001] demo_timers))) = {}"
  using timer_run_drains [OF demo_timers_inv demo_timers_queue(2), of "[5000, 5001]"]
  by (simp add: demo_timers_queue(1))

subsection \<open>Resetting\<close>

text \<open>
  Resetting a pending timer of a started manager always succeeds: the number of pending timers
  does not change, exactly the timer with the returned id is due \<open>delayUs\<close> from now, and every
  other timer is untouched.
\<close>

theorem timer_reset_pending:
  assumes inv: "timer_inv s" and st: "tm_status s = TIMER_STATUS_STARTED"
    and i: "i \<in> set (queue_ids s)"
    and r: "ResetTimer i ty delayUs cookie (Some ob) now s = (j, t)"
  shows "j \<noteq> INVALID_ID \<and> length (tm_itemQueue t) = length (tm_itemQueue s) \<and>
    (\<exists>x \<in> set (tm_itemQueue t). ti_timerId x = j \<and> ti_tgtUs x = now + delayUs) \<and>
    filter (\<lambda>x. ti_timerId x \<noteq> i) (tm_itemQueue s) = filter (\<lambda>x. ti_timerId x \<noteq> j) (tm_itemQueue t)"
proof (cases "\<exists>x. tm_itemQueue s = [x]")
  case True
  then obtain x where x: "tm_itemQueue s = [x]" by blast
  then have "ti_timerId x = i" using i by simp
  moreover have "i \<noteq> INVALID_ID"
    using i timer_invD(1,3) [OF inv] by (auto simp: held_iff pool_ok_def pool_size_def)
  ultimately show ?thesis using r x by (auto simp: ResetTimer_def ResetTimer_locked_def)
next
  case False
  define k where "k = snd (KillTimer i s)"
  have rk: "SetTimer ty delayUs cookie (Some ob) now k = (j, t)"
    using r False unfolding k_def ResetTimer_def ResetTimer_locked_def
    by (auto split: list.splits)
  have kinv: "timer_inv k" unfolding k_def using inv by (rule timer_inv_kill)
  have q: "tm_itemQueue k = filter (\<lambda>x. ti_timerId x \<noteq> i) (tm_itemQueue s)"
    and kst: "tm_status k = TIMER_STATUS_STARTED" and sz: "pool_size (tm_ids k) = pool_size (tm_ids s)"
    unfolding k_def using i st by (simp_all add: KillTimer_spec [OF inv] idp.release_size)
  have len: "length (tm_itemQueue k) = length (tm_itemQueue s) - 1" and pos: "tm_itemQueue s \<noteq> []"
    using i length_remove_one [OF timer_invD(2) [OF inv]] by (auto simp: q)
  have "card (held (tm_ids s)) = length (tm_itemQueue s)"
    using distinct_card [of "queue_ids s"] timer_invD(2,3) [OF inv] by simp
  then have ne: "length (tm_itemQueue k) \<noteq> pool_size (tm_ids k)"
    using len pos idp.card_ids_le [of "tm_ids s"] sz by (cases "tm_itemQueue s") auto
  have obs: "pick_observer (Some ob) k = Some ob" by (simp add: pick_observer_def)
  from SetTimer_accepted [OF kinv kst _ ne, of "Some ob" ty delayUs cookie now] obtain m ids' where
    a: "AllocId (tm_ids k) = (m, ids')" "m \<noteq> INVALID_ID" and
    m: "SetTimer ty delayUs cookie (Some ob) now k = (m, k\<lparr>tm_ids := ids', tm_itemQueue :=
          insert_item (TimerItem_new m ty cookie delayUs (Some ob) now) (tm_itemQueue k)\<rparr>)"
    by (auto simp: obs)
  from idp.alloc_some [OF timer_invD(1) [OF kinv] a]
  have "m \<notin> set (queue_ids k)" using timer_invD(3) [OF kinv] by simp
  then have "filter (\<lambda>x. ti_timerId x \<noteq> m)
      (insert_item (TimerItem_new m ty cookie delayUs (Some ob) now) (tm_itemQueue k)) = tm_itemQueue k"
    using filter_insert_item [of "TimerItem_new m ty cookie delayUs (Some ob) now"]
    by (simp add: TimerItem_new_def)
  with rk m a(2) len pos q show ?thesis by (cases "tm_itemQueue s") (auto simp: TimerItem_new_def)
qed

theorem timer_reset_pending_witness:
  "0 \<in> set (queue_ids demo_timers) \<and>
   fst (ResetTimer 0 1 10 0 (Some 7) 1000 demo_timers) \<noteq> INVALID_ID \<and>
   length (tm_itemQueue (snd (ResetTimer 0 1 10 0 (Some 7) 1000 demo_timers))) = 2"
  using timer_reset_pending [OF demo_timers_inv demo_timers_queue(2) _ surjective_pairing,
      of 0 1 10 0 7 1000]
  by (simp add: demo_timers_queue(1))

end
