(* ===== verification/State_Manager.thy ===== *)
theory State_Manager
  imports Timer_Mgr
begin

text \<open>
  \<open>utils/state_manager\<close>: the table-driven state machine every engine of the framework inherits.
  A \<open>ModuleStates\<close> is the C++ object: the timer manager it inherits, the map from states to their
  action tables (a null pointer is \<open>None\<close>), the current state (\<open>None\<close> for the end iterator), the
  group of tables built by \<open>FromState\<close>, the listener and the fields \<open>'u\<close> of the subclass whose
  member functions are the handlers. Handlers are functions of the message, the proposed next
  state and the subclass fields; a handler that calls \<open>ResetTimerDelay()\<close> (always as its last
  action) says so in its result.
\<close>

section \<open>Model\<close>

definition NO_PROCESS_RET :: int where
  "NO_PROCESS_RET = -2"

datatype 'm payload = NoMsg | Msg 'm | TimerMsg TimerEvent

record 'm StateMsg =
  msgId :: int
  inMsg :: "'m payload"

record TimerCfg =
  cfg_type :: int
  cfg_delayUs :: int
  cfg_cookie :: int

record 'u handled =
  h_ret :: int
  h_next :: int
  h_reset :: bool
  h_self :: 'u

type_synonym ('m, 'u) HandleMsg_fn = "'m StateMsg \<Rightarrow> int \<Rightarrow> 'u \<Rightarrow> 'u handled"

record ('m, 'u) StateActions =
  sa_cfg :: TimerCfg
  sa_timerId :: int
  sa_actions :: "int \<rightharpoonup> ('m, 'u) HandleMsg_fn"

datatype ProcessType = PROCESS_IDLE | PROCESS_WAKEUP_PHONE | PROCESS_WAKEUP_HEADSET
  | PROCESS_WAKEUP_GLASSES | PROCESS_WISPHER_PHONE

record ('m, 'u) ModuleStates =
  ms_tm :: timer_mgr
  ms_states :: "int \<rightharpoonup> ('m, 'u) StateActions option"
  ms_currState :: "int option"
  ms_isInitSucc :: bool
  ms_mActions :: "int list"
  ms_listener :: bool
  ms_processType :: ProcessType
  ms_notified :: "(int \<times> ProcessType) list"
  ms_this :: observer
  ms_self :: 'u

definition StateActions_new :: "('m, 'u) StateActions" where
  "StateActions_new =
     \<lparr>sa_cfg = \<lparr>cfg_type = 0, cfg_delayUs = 0, cfg_cookie = 0\<rparr>, sa_timerId = INVALID_ID,
      sa_actions = Map.empty\<rparr>"

definition SA_Add :: "int \<Rightarrow> ('m, 'u) HandleMsg_fn \<Rightarrow> ('m, 'u) StateActions \<Rightarrow> ('m, 'u) StateActions" where
  "SA_Add m h a = a\<lparr>sa_actions := (sa_actions a)(m \<mapsto> h)\<rparr>"

definition SA_Del :: "int \<Rightarrow> ('m, 'u) StateActions \<Rightarrow> ('m, 'u) StateActions" where
  "SA_Del m a = a\<lparr>sa_actions := (sa_actions a)(m := None)\<rparr>"

definition SA_WaitUntil ::
  "int \<Rightarrow> ('m, 'u) HandleMsg_fn \<Rightarrow> int \<Rightarrow> int \<Rightarrow> ('m, 'u) StateActions \<Rightarrow> ('m, 'u) StateActions" where
  "SA_WaitUntil ty h delayUs cookie a =
     SA_Add ty h (a\<lparr>sa_cfg := \<lparr>cfg_type = ty, cfg_delayUs = delayUs, cfg_cookie = cookie\<rparr>\<rparr>)"

definition SA_Handle ::
  "('m, 'u) StateActions \<Rightarrow> 'm StateMsg \<Rightarrow> int \<Rightarrow> 'u \<Rightarrow> 'u handled" where
  "SA_Handle a msg nxt u =
     (case sa_actions a (msgId msg) of
        None \<Rightarrow> \<lparr>h_ret = NO_PROCESS_RET, h_next = nxt, h_reset = False, h_self = u\<rparr>
      | Some h \<Rightarrow> h msg nxt u)"

text \<open>The constructor registers the default state with a null table and starts the timer thread.\<close>

definition ModuleStates_new :: "int \<Rightarrow> bool \<Rightarrow> observer \<Rightarrow> 'u \<Rightarrow> ('m, 'u) ModuleStates" where
  "ModuleStates_new defaultState created this u =
     \<lparr>ms_tm = TimerMgr_Start created None (TimerMgr 10), ms_states = [defaultState \<mapsto> None],
      ms_currState = Some defaultState, ms_isInitSucc = True, ms_mActions = [], ms_listener = False,
      ms_processType = PROCESS_IDLE, ms_notified = [], ms_this = this, ms_self = u\<rparr>"

text \<open>
  \<open>ForState\<close> creates the table of a state on first use. \<open>alloc\<close> says whether \<open>new (std::nothrow)\<close>
  succeeded; on failure the machine is marked broken and nothing is registered.
\<close>

definition ForState :: "bool \<Rightarrow> int \<Rightarrow> ('m, 'u) ModuleStates \<Rightarrow> ('m, 'u) ModuleStates" where
  "ForState alloc st s =
     (case ms_states s st of
        Some (Some a) \<Rightarrow> s
      | _ \<Rightarrow> if alloc then s\<lparr>ms_states := (ms_states s)(st \<mapsto> Some StateActions_new)\<rparr>
             else s\<lparr>ms_currState := None, ms_isInitSucc := False\<rparr>)"

definition upd_actions ::
  "int \<Rightarrow> (('m, 'u) StateActions \<Rightarrow> ('m, 'u) StateActions) \<Rightarrow> ('m, 'u) ModuleStates \<Rightarrow> ('m, 'u) ModuleStates" where
  "upd_actions st f s =
     (case ms_states s st of
        Some (Some a) \<Rightarrow> s\<lparr>ms_states := (ms_states s)(st \<mapsto> Some (f a))\<rparr>
      | _ \<Rightarrow> s)"

text \<open>
  \<open>FromState\<close> appends the tables of a range of states to the one group the object has; the group
  is not emptied first, so a later group contains the earlier ones.
\<close>

definition FromState :: "(int \<Rightarrow> bool) \<Rightarrow> int \<Rightarrow> int \<Rightarrow> ('m, 'u) ModuleStates \<Rightarrow> ('m, 'u) ModuleStates" where
  "FromState alloc a b s =
     fold (\<lambda>i s. (ForState (alloc i) i s)\<lparr>ms_mActions := ms_mActions s @ [i]\<rparr>) [a..b] s"

definition Group_Add :: "int \<Rightarrow> ('m, 'u) HandleMsg_fn \<Rightarrow> ('m, 'u) ModuleStates \<Rightarrow> ('m, 'u) ModuleStates" where
  "Group_Add m h s = fold (\<lambda>i. upd_actions i (SA_Add m h)) (ms_mActions s) s"

definition Group_Del :: "int \<Rightarrow> ('m, 'u) ModuleStates \<Rightarrow> ('m, 'u) ModuleStates" where
  "Group_Del m s = fold (\<lambda>i. upd_actions i (SA_Del m)) (ms_mActions s) s"

section \<open>Running\<close>

text \<open>\<open>ToState\<close>, first half: the timer of the state being left is killed.\<close>

definition leave_state :: "int \<Rightarrow> ('m, 'u) StateActions \<Rightarrow> ('m, 'u) ModuleStates \<Rightarrow> ('m, 'u) ModuleStates" where
  "leave_state c a s =
     (if sa_timerId a \<noteq> INVALID_ID
      then (case KillTimer (sa_timerId a) (ms_tm s) of (i, tm) \<Rightarrow>
              s\<lparr>ms_tm := tm, ms_states := (ms_states s)(c \<mapsto> Some (a\<lparr>sa_timerId := i\<rparr>))\<rparr>)
      else s)"

text \<open>Second half: the new state is entered, its timer armed, the listener told.\<close>

definition enter_state :: "int \<Rightarrow> int \<Rightarrow> ('m, 'u) ModuleStates \<Rightarrow> ('m, 'u) ModuleStates outcome" where
  "enter_state now n s =
     (case ms_states s n of
        Some (Some a) \<Rightarrow>
          let s1 = s\<lparr>ms_currState := Some n\<rparr>;
              s2 = (if cfg_delayUs (sa_cfg a) \<noteq> 0
                    then (case SetTimer (cfg_type (sa_cfg a)) (cfg_delayUs (sa_cfg a))
                              (cfg_cookie (sa_cfg a)) (Some (ms_this s)) now (ms_tm s1) of (i, tm) \<Rightarrow>
                            s1\<lparr>ms_tm := tm, ms_states := (ms_states s1)(n \<mapsto> Some (a\<lparr>sa_timerId := i\<rparr>))\<rparr>)
                    else s1)
          in Ret (if ms_listener s2
                  then s2\<lparr>ms_notified := ms_notified s2 @ [(n, ms_processType s2)]\<rparr> else s2)
      | _ \<Rightarrow> Crash NullDeref)"

definition ToState :: "int \<Rightarrow> int \<Rightarrow> ('m, 'u) ModuleStates \<Rightarrow> ('m, 'u) ModuleStates outcome" where
  "ToState now n s =
     (case ms_currState s of
        None \<Rightarrow> Crash OutOfRange
      | Some c \<Rightarrow> (case ms_states s c of
          Some (Some a) \<Rightarrow> enter_state now n (leave_state c a s)
        | _ \<Rightarrow> Crash NullDeref))"

definition ResetTimerDelay :: "int \<Rightarrow> ('m, 'u) ModuleStates \<Rightarrow> ('m, 'u) ModuleStates" where
  "ResetTimerDelay now s =
     (case ms_currState s of
        None \<Rightarrow> s
      | Some c \<Rightarrow> (case ms_states s c of
          Some (Some a) \<Rightarrow>
            if sa_timerId a = INVALID_ID \<or> cfg_delayUs (sa_cfg a) = 0 then s
            else (case ResetTimer (sa_timerId a) (cfg_type (sa_cfg a)) (cfg_delayUs (sa_cfg a))
                         (cfg_cookie (sa_cfg a)) (Some (ms_this s)) now (ms_tm s) of (i, tm) \<Rightarrow>
                    s\<lparr>ms_tm := tm, ms_states := (ms_states s)(c \<mapsto> Some (a\<lparr>sa_timerId := i\<rparr>))\<rparr>)
        | _ \<Rightarrow> s))"

definition HandleMsg ::
  "int \<Rightarrow> 'm StateMsg \<Rightarrow> ('m, 'u) ModuleStates \<Rightarrow> (int \<times> ('m, 'u) ModuleStates) outcome" where
  "HandleMsg now msg s =
     (case ms_currState s of
        None \<Rightarrow> Ret (-1, s)
      | Some c \<Rightarrow> (case ms_states s c of
          Some (Some a) \<Rightarrow>
            (let r = SA_Handle a msg c (ms_self s);
                 s1 = s\<lparr>ms_self := h_self r\<rparr>;
                 s2 = (if h_reset r then ResetTimerDelay now s1 else s1)
             in if h_ret r \<noteq> 0 then Ret (h_ret r, s2)
                else if c = h_next r then Ret (0, s2)
                else if ms_states s2 (h_next r) = None then Ret (0, s2)
                else obind (ToState now (h_next r) s2) (\<lambda>s3. Ret (0, s3)))
        | _ \<Rightarrow> Ret (-1, s)))"

definition OnTimerEvent :: "int \<Rightarrow> TimerEvent \<Rightarrow> ('m, 'u) ModuleStates \<Rightarrow> ('m, 'u) ModuleStates outcome" where
  "OnTimerEvent now e s =
     obind (HandleMsg now \<lparr>msgId = te_type e, inMsg = TimerMsg e\<rparr> s) (\<lambda>p. Ret (snd p))"

definition CurrState :: "('m, 'u) ModuleStates \<Rightarrow> int" where
  "CurrState s = (case ms_currState s of None \<Rightarrow> -1 | Some c \<Rightarrow> c)"

definition IsStatesInitSucc :: "('m, 'u) ModuleStates \<Rightarrow> bool" where
  "IsStatesInitSucc s = ms_isInitSucc s"

section \<open>Configuration and interleavings\<close>

text \<open>The calls a subclass makes in its \<open>InitStates\<close>, in any order.\<close>

datatype ('m, 'u) cfg_op =
    CfgAct bool int int "('m, 'u) HandleMsg_fn"
  | CfgDel bool int int
  | CfgWait bool int int "('m, 'u) HandleMsg_fn" int int
  | CfgFrom "int \<Rightarrow> bool" int int
  | CfgGroupAdd int "('m, 'u) HandleMsg_fn"
  | CfgGroupDel int

fun configure :: "('m, 'u) cfg_op \<Rightarrow> ('m, 'u) ModuleStates \<Rightarrow> ('m, 'u) ModuleStates" where
  "configure (CfgAct al st m h) s = upd_actions st (SA_Add m h) (ForState al st s)"
| "configure (CfgDel al st m) s = upd_actions st (SA_Del m) (ForState al st s)"
| "configure (CfgWait al st ty h d ck) s = upd_actions st (SA_WaitUntil ty h d ck) (ForState al st s)"
| "configure (CfgFrom al a b) s = FromState al a b s"
| "configure (CfgGroupAdd m h) s = Group_Add m h s"
| "configure (CfgGroupDel m) s = Group_Del m s"

text \<open>
  The system: the machine and the timer event its thread has taken off the queue but not yet
  delivered (the thread calls the observer outside the lock). A client message, the thread taking
  an event, its delivery and a timer reset are the atomic steps.
\<close>

type_synonym ('m, 'u) ms_sys = "('m, 'u) ModuleStates \<times> TimerEvent option"

inductive ms_step :: "('m, 'u) ms_sys \<Rightarrow> ('m, 'u) ms_sys \<Rightarrow> bool" where
  ms_client: "HandleMsg now msg s = Ret (r, t) \<Longrightarrow> ms_step (s, p) (t, p)"
| ms_take: "Run_iter now (ms_tm s) = (RunFire e ob, tm) \<Longrightarrow>
     ms_step (s, None) (s\<lparr>ms_tm := tm\<rparr>, Some e)"
| ms_deliver: "OnTimerEvent now e s = Ret t \<Longrightarrow> ms_step (s, Some e) (t, None)"
| ms_reset: "ms_step (s, p) (ResetTimerDelay now s, p)"

inductive_cases ms_stepE: "ms_step x y"

definition ms_start :: "('m, 'u) ms_sys \<Rightarrow> bool" where
  "ms_start x \<longleftrightarrow>
     (\<exists>d created this u ops l pt.
        x = ((fold configure ops (ModuleStates_new d created this u))
               \<lparr>ms_listener := l, ms_processType := pt\<rparr>, None))"

abbreviation ms_queue :: "('m, 'u) ModuleStates \<Rightarrow> TimerItem list" where
  "ms_queue s \<equiv> tm_itemQueue (ms_tm s)"

definition tables_unarmed :: "('m, 'u) ModuleStates \<Rightarrow> int option \<Rightarrow> bool" where
  "tables_unarmed s exc \<longleftrightarrow>
     (\<forall>k a. ms_states s k = Some (Some a) \<longrightarrow> exc \<noteq> Some k \<longrightarrow> sa_timerId a = INVALID_ID)"

definition armed_by_current :: "('m, 'u) ModuleStates \<Rightarrow> TimerItem \<Rightarrow> bool" where
  "armed_by_current s x \<longleftrightarrow>
     (\<exists>c a. ms_currState s = Some c \<and> ms_states s c = Some (Some a) \<and>
        sa_timerId a = ti_timerId x \<and> cfg_delayUs (sa_cfg a) \<noteq> 0 \<and>
        ti_type x = cfg_type (sa_cfg a) \<and> ti_cookie x = cfg_cookie (sa_cfg a) \<and>
        ti_observer x = Some (ms_this s))"

definition ms_inv :: "('m, 'u) ModuleStates \<Rightarrow> bool" where
  "ms_inv s \<longleftrightarrow>
     timer_inv (ms_tm s) \<and> pool_size (tm_ids (ms_tm s)) = 10 \<and> length (ms_queue s) \<le> 1 \<and>
     (\<forall>x \<in> set (ms_queue s). armed_by_current s x) \<and>
     tables_unarmed s (ms_currState s)"

definition ms_idle :: "('m, 'u) ModuleStates \<Rightarrow> bool" where
  "ms_idle s \<longleftrightarrow>
     timer_inv (ms_tm s) \<and> pool_size (tm_ids (ms_tm s)) = 10 \<and> ms_queue s = [] \<and>
     tables_unarmed s None"

lemma ms_idle_inv: "ms_idle s \<Longrightarrow> ms_inv s"
  by (simp add: ms_idle_def ms_inv_def tables_unarmed_def)

lemma ms_invD:
  assumes "ms_inv s"
  shows "timer_inv (ms_tm s)" "pool_size (tm_ids (ms_tm s)) = 10"
    "x \<in> set (ms_queue s) \<Longrightarrow> armed_by_current s x" "tables_unarmed s (ms_currState s)"
    "ms_queue s = [] \<or> (\<exists>x. ms_queue s = [x])"
  using assms by (auto simp: ms_inv_def le_Suc_eq length_Suc_conv)

subsection \<open>Configuring leaves the timers alone\<close>

lemma ForState_frame [simp]: "ms_tm (ForState al st s) = ms_tm s"
  by (simp add: ForState_def split: option.splits)

lemma upd_actions_frame [simp]: "ms_tm (upd_actions st f s) = ms_tm s"
  by (simp add: upd_actions_def split: option.splits)

lemma ForState_unarmed: "tables_unarmed s None \<Longrightarrow> tables_unarmed (ForState al st s) None"
  by (auto simp: tables_unarmed_def ForState_def StateActions_new_def split: option.splits if_splits)

lemma upd_actions_unarmed:
  "(\<And>a. sa_timerId (f a) = sa_timerId a) \<Longrightarrow> tables_unarmed s None \<Longrightarrow>
     tables_unarmed (upd_actions st f s) None"
  by (auto simp: tables_unarmed_def upd_actions_def split: option.splits if_splits)

lemma sa_timerId_frames [simp]:
  "sa_timerId (SA_Add m h a) = sa_timerId a" "sa_timerId (SA_Del m a) = sa_timerId a"
  "sa_timerId (SA_WaitUntil ty h d ck a) = sa_timerId a"
  by (simp_all add: SA_Add_def SA_Del_def SA_WaitUntil_def)

lemma ms_idle_cfg:
  "ms_idle s \<Longrightarrow> ms_idle (ForState al st s)"
  "ms_idle s \<Longrightarrow> (\<And>a. sa_timerId (f a) = sa_timerId a) \<Longrightarrow> ms_idle (upd_actions st f s)"
  by (simp_all add: ms_idle_def ForState_unarmed upd_actions_unarmed)

lemma ms_idle_cong:
  "ms_tm s = ms_tm t \<Longrightarrow> ms_states s = ms_states t \<Longrightarrow> ms_idle s = ms_idle t"
  by (simp add: ms_idle_def tables_unarmed_def)

lemma ms_idle_group:
  assumes "ms_idle s" and "\<And>a. sa_timerId (f a) = sa_timerId a"
  shows "ms_idle (fold (\<lambda>i. upd_actions i f) xs s)"
  using assms(1) by (rule fold_invariant) (rule ms_idle_cfg(2) [OF _ assms(2)])

lemma ms_idle_configure: "ms_idle s \<Longrightarrow> ms_idle (configure op s)"
proof (cases op)
  case (CfgFrom al a b)
  assume "ms_idle s"
  then have "ms_idle (fold (\<lambda>i s. (ForState (al i) i s)\<lparr>ms_mActions := ms_mActions s @ [i]\<rparr>) [a..b] s)"
  proof (rule fold_invariant)
    fix i and s :: "('a, 'b) ModuleStates"
    assume "ms_idle s"
    then have "ms_idle (ForState (al i) i s)" by (rule ms_idle_cfg)
    then show "ms_idle ((ForState (al i) i s)\<lparr>ms_mActions := ms_mActions s @ [i]\<rparr>)"
      by (simp add: ms_idle_def tables_unarmed_def)
  qed
  then show ?thesis using CfgFrom by (simp add: FromState_def)
qed (simp_all add: Group_Add_def Group_Del_def ms_idle_cfg ms_idle_group)

lemma ms_idle_new: "ms_idle (ModuleStates_new d created this u)"
proof -
  have "timer_start (TimerMgr 10)"
    by (auto simp: timer_start_def INVALID_ID_def intro!: exI [of _ 10])
  then have "timer_inv (TimerMgr_Start created None (TimerMgr 10))"
    using timer_inv_init by blast
  then show ?thesis
    by (simp add: ms_idle_def ModuleStates_new_def tables_unarmed_def)
      (simp add: timer_defs TimerMgr_def)
qed

lemma ms_start_inv: "ms_start x \<Longrightarrow> ms_inv (fst x)"
proof -
  assume "ms_start x"
  then obtain d created this u ops l pt where
    x: "fst x = (fold configure ops (ModuleStates_new d created this u))
               \<lparr>ms_listener := l, ms_processType := pt\<rparr>"
    by (auto simp: ms_start_def)
  have "ms_idle (fold configure ops (ModuleStates_new d created this u))"
    using ms_idle_new by (rule fold_invariant) (rule ms_idle_configure)
  then have "ms_idle (fst x)" by (simp add: x ms_idle_def tables_unarmed_def)
  then show ?thesis by (rule ms_idle_inv)
qed

subsection \<open>Running keeps the invariant\<close>

lemma queue_id_valid:
  assumes "timer_inv tm" and "x \<in> set (tm_itemQueue tm)"
  shows "ti_timerId x \<noteq> INVALID_ID"
proof -
  have "ti_timerId x \<in> held (tm_ids tm)" using timer_invD(3) [OF assms(1)] assms(2) by auto
  then show ?thesis using timer_invD(1) [OF assms(1)]
    by (auto simp: held_iff pool_ok_def pool_size_def)
qed

lemma leave_state_eq:
  assumes inv: "ms_inv s" and c: "ms_currState s = Some c" "ms_states s c = Some (Some a)"
  shows "leave_state c a s =
    s\<lparr>ms_tm := snd (KillTimer (sa_timerId a) (ms_tm s)),
      ms_states := (ms_states s)(c \<mapsto> Some (a\<lparr>sa_timerId := INVALID_ID\<rparr>))\<rparr>"
proof (cases "sa_timerId a = INVALID_ID")
  case True
  have "INVALID_ID \<notin> set (queue_ids (ms_tm s))"
    using queue_id_valid [OF ms_invD(1) [OF inv]] by fastforce
  then have "snd (KillTimer (sa_timerId a) (ms_tm s)) = ms_tm s"
    using True by (simp add: KillTimer_spec [OF ms_invD(1) [OF inv]])
  moreover have "a\<lparr>sa_timerId := INVALID_ID\<rparr> = a" using True by simp
  ultimately show ?thesis using True c(2) by (simp add: leave_state_def fun_upd_idem)
next
  case False
  then show ?thesis
    by (simp add: leave_state_def KillTimer_spec [OF ms_invD(1) [OF inv]])
qed

lemma KillTimer_frames:
  assumes "timer_inv tm"
  shows "tm_status (snd (KillTimer i tm)) = tm_status tm"
    "pool_size (tm_ids (snd (KillTimer i tm))) = pool_size (tm_ids tm)"
    "tm_itemQueue (snd (KillTimer i tm)) = filter (\<lambda>x. ti_timerId x \<noteq> i) (tm_itemQueue tm)"
  by (simp_all add: KillTimer_spec [OF assms] idp.release_size filter_other)

lemma leave_state_idle:
  assumes inv: "ms_inv s" and c: "ms_currState s = Some c" "ms_states s c = Some (Some a)"
  shows "ms_idle (leave_state c a s)"
proof -
  have "ti_timerId x = sa_timerId a" if "x \<in> set (ms_queue s)" for x
    using ms_invD(3) [OF inv that] c by (auto simp: armed_by_current_def)
  then have "filter (\<lambda>x. ti_timerId x \<noteq> sa_timerId a) (ms_queue s) = []"
    by (simp add: filter_empty_conv)
  then show ?thesis
    using ms_invD(1,2,4) [OF inv] timer_inv_kill [OF ms_invD(1) [OF inv]] c
    by (auto simp: ms_idle_def leave_state_eq [OF inv c] KillTimer_frames tables_unarmed_def)
qed

text \<open>Arming a timer in an idle machine always succeeds: the pool has ten free ids.\<close>

lemma SetTimer_idle:
  assumes "timer_inv tm" and "tm_itemQueue tm = []" and "pool_size (tm_ids tm) = 10"
    and "SetTimer ty d ck (Some ob) now tm = (i, tm')"
  shows "timer_inv tm' \<and> pool_size (tm_ids tm') = 10 \<and> tm_status tm' = tm_status tm \<and>
    (if tm_status tm = TIMER_STATUS_STARTED
     then i \<noteq> INVALID_ID \<and> tm_itemQueue tm' = [TimerItem_new i ty ck d (Some ob) now]
     else i = INVALID_ID \<and> tm' = tm)"
proof (cases "tm_status tm = TIMER_STATUS_STARTED")
  case True
  from SetTimer_accepted [OF assms(1) True, of "Some ob" ty d ck now] obtain j ids' where
    a: "AllocId (tm_ids tm) = (j, ids')" "j \<noteq> INVALID_ID" and
    "SetTimer ty d ck (Some ob) now tm = (j, tm\<lparr>tm_ids := ids', tm_itemQueue :=
          insert_item (TimerItem_new j ty ck d (Some ob) now) (tm_itemQueue tm)\<rparr>)"
    using assms(2,3) by (auto simp: pick_observer_def)
  then show ?thesis using True assms timer_inv_set [OF assms(1), of ty d ck "Some ob" now]
      idp.alloc_size [OF a(1)] by auto
next
  case False
  then show ?thesis using assms SetTimer_refused [OF assms(1), of "Some ob"] by auto
qed

lemma enter_state_inv:
  assumes idle: "ms_idle s" and n: "ms_states s n = Some (Some a)"
    and r: "enter_state now n s = Ret t"
  shows "ms_inv t \<and> ms_currState t = Some n \<and> tm_status (ms_tm t) = tm_status (ms_tm s) \<and>
    (\<exists>i. ms_queue t = (if cfg_delayUs (sa_cfg a) \<noteq> 0 \<and> tm_status (ms_tm s) = TIMER_STATUS_STARTED
      then [TimerItem_new i (cfg_type (sa_cfg a)) (cfg_cookie (sa_cfg a))
              (cfg_delayUs (sa_cfg a)) (Some (ms_this s)) now] else []))"
proof (cases "cfg_delayUs (sa_cfg a) = 0")
  case True
  then show ?thesis using idle n r
    by (auto simp: enter_state_def Let_def ms_inv_def ms_idle_def tables_unarmed_def split: if_splits)
next
  case False
  obtain i tm where st: "SetTimer (cfg_type (sa_cfg a)) (cfg_delayUs (sa_cfg a)) (cfg_cookie (sa_cfg a))
    (Some (ms_this s)) now (ms_tm s) = (i, tm)" by fastforce
  define t0 where "t0 = s\<lparr>ms_currState := Some n, ms_tm := tm,
      ms_states := (ms_states s)(n \<mapsto> Some (a\<lparr>sa_timerId := i\<rparr>))\<rparr>"
  have t: "ms_tm t = ms_tm t0" "ms_states t = ms_states t0" "ms_currState t = Some n"
    "ms_this t = ms_this s"
    using r n st False by (auto simp: enter_state_def t0_def Let_def split: if_splits)
  from idle have tm: "timer_inv (ms_tm s)" "ms_queue s = []" "pool_size (tm_ids (ms_tm s)) = 10"
    and un: "tables_unarmed s None" by (auto simp: ms_idle_def)
  note sp = SetTimer_idle [OF tm st]
  have un': "tables_unarmed t (Some n)"
    using un by (auto simp: tables_unarmed_def t t0_def)
  have arm: "armed_by_current t x" if "x \<in> set (ms_queue t)" for x
    using that sp False tm(2)
    by (auto simp: armed_by_current_def t t0_def TimerItem_new_def split: if_splits)
  show ?thesis using sp un' arm False tm(2)
    by (auto simp: ms_inv_def t t0_def TimerItem_new_def split: if_splits)
qed

lemma ResetTimer_machine:
  assumes inv: "ms_inv s" and c: "ms_currState s = Some c" "ms_states s c = Some (Some a)"
    and r: "ResetTimer (sa_timerId a) (cfg_type (sa_cfg a)) (cfg_delayUs (sa_cfg a))
      (cfg_cookie (sa_cfg a)) (Some (ms_this s)) now (ms_tm s) = (i, tm)"
  shows "timer_inv tm \<and> pool_size (tm_ids tm) = 10 \<and> tm_status tm = tm_status (ms_tm s) \<and>
    (tm_itemQueue tm = [] \<or> tm_itemQueue tm =
      [TimerItem_new i (cfg_type (sa_cfg a)) (cfg_cookie (sa_cfg a)) (cfg_delayUs (sa_cfg a))
         (Some (ms_this s)) now]) \<and> (ms_queue s \<noteq> [] \<longrightarrow> tm_itemQueue tm \<noteq> [])"
proof (cases "ms_queue s")
  case Nil
  then have "snd (KillTimer (sa_timerId a) (ms_tm s)) = ms_tm s"
    by (simp add: KillTimer_spec [OF ms_invD(1) [OF inv]])
  then have "SetTimer (cfg_type (sa_cfg a)) (cfg_delayUs (sa_cfg a)) (cfg_cookie (sa_cfg a))
      (Some (ms_this s)) now (ms_tm s) = (i, tm)"
    using r Nil by (simp add: ResetTimer_def ResetTimer_locked_def)
  from SetTimer_idle [OF ms_invD(1) [OF inv] Nil ms_invD(2) [OF inv] this] show ?thesis
    using Nil by (auto split: if_splits)
next
  case (Cons x q)
  with ms_invD(5) [OF inv] have x: "ms_queue s = [x]" by auto
  from ms_invD(3) [OF inv, of x] x c have e: "ti_timerId x = sa_timerId a"
    "ti_type x = cfg_type (sa_cfg a)" "ti_cookie x = cfg_cookie (sa_cfg a)"
    "ti_observer x = Some (ms_this s)" by (auto simp: armed_by_current_def)
  have "tm = (ms_tm s)\<lparr>tm_itemQueue := [x\<lparr>ti_tgtUs := now + cfg_delayUs (sa_cfg a)\<rparr>]\<rparr>"
    "i = sa_timerId a"
    using r x e by (auto simp: ResetTimer_def ResetTimer_locked_def)
  moreover have "timer_inv ((ms_tm s)\<lparr>tm_itemQueue := [x\<lparr>ti_tgtUs := now + cfg_delayUs (sa_cfg a)\<rparr>]\<rparr>)"
    using ms_invD(1) [OF inv] x by (auto simp: timer_inv_def)
  moreover have "x\<lparr>ti_tgtUs := now + cfg_delayUs (sa_cfg a)\<rparr> =
    TimerItem_new (sa_timerId a) (cfg_type (sa_cfg a)) (cfg_cookie (sa_cfg a)) (cfg_delayUs (sa_cfg a))
      (Some (ms_this s)) now"
    using e by (simp add: TimerItem_new_def)
  ultimately show ?thesis using ms_invD(2) [OF inv] by simp
qed

lemma ResetTimerDelay_inv:
  assumes inv: "ms_inv s"
  shows "ms_inv (ResetTimerDelay now s)"
proof (cases "\<exists>c a. ms_currState s = Some c \<and> ms_states s c = Some (Some a) \<and>
    sa_timerId a \<noteq> INVALID_ID \<and> cfg_delayUs (sa_cfg a) \<noteq> 0")
  case False
  then have "ResetTimerDelay now s = s"
    by (auto simp: ResetTimerDelay_def split: option.splits)
  then show ?thesis using inv by simp
next
  case True
  then obtain c a where c: "ms_currState s = Some c" "ms_states s c = Some (Some a)"
    and a: "sa_timerId a \<noteq> INVALID_ID" "cfg_delayUs (sa_cfg a) \<noteq> 0" by blast
  obtain i tm where r: "ResetTimer (sa_timerId a) (cfg_type (sa_cfg a)) (cfg_delayUs (sa_cfg a))
      (cfg_cookie (sa_cfg a)) (Some (ms_this s)) now (ms_tm s) = (i, tm)" by fastforce
  have t: "ResetTimerDelay now s =
    s\<lparr>ms_tm := tm, ms_states := (ms_states s)(c \<mapsto> Some (a\<lparr>sa_timerId := i\<rparr>))\<rparr>"
    using c a r by (simp add: ResetTimerDelay_def)
  show ?thesis using ResetTimer_machine [OF inv c r] ms_invD(4) [OF inv] c a(2)
    by (auto simp: t ms_inv_def armed_by_current_def tables_unarmed_def TimerItem_new_def)
qed

lemma ResetTimerDelay_frames [simp]:
  "ms_currState (ResetTimerDelay now s) = ms_currState s"
  "ms_self (ResetTimerDelay now s) = ms_self s"
  "ms_this (ResetTimerDelay now s) = ms_this s"
  by (auto simp: ResetTimerDelay_def split: option.splits prod.splits)

text \<open>Which states have a table, and what is in it apart from the timer id, never changes.\<close>

definition same_tables :: "('m, 'u) ModuleStates \<Rightarrow> ('m, 'u) ModuleStates \<Rightarrow> bool" where
  "same_tables s t \<longleftrightarrow>
     (\<forall>k. (case ms_states s k of
            None \<Rightarrow> ms_states t k = None
          | Some None \<Rightarrow> ms_states t k = Some None
          | Some (Some a) \<Rightarrow> (\<exists>i. ms_states t k = Some (Some (a\<lparr>sa_timerId := i\<rparr>)))))"

lemma same_tables_refl [simp]: "same_tables s s"
proof -
  have "\<exists>i. a = a\<lparr>sa_timerId := i\<rparr>" for a :: "('a, 'b) StateActions"
    by (rule exI [of _ "sa_timerId a"]) simp
  then show ?thesis by (auto simp: same_tables_def split: option.splits)
qed

lemma ResetTimerDelay_tables: "same_tables s (ResetTimerDelay now s)"
proof -
  have "\<exists>i. a = a\<lparr>sa_timerId := i\<rparr>" for a :: "('a, 'b) StateActions"
    by (rule exI [of _ "sa_timerId a"]) simp
  then show ?thesis
    by (auto simp: ResetTimerDelay_def same_tables_def split: option.splits prod.splits)
qed

lemma same_tables_Some:
  "same_tables s t \<Longrightarrow> ms_states s k = Some (Some a) \<Longrightarrow>
     \<exists>i. ms_states t k = Some (Some (a\<lparr>sa_timerId := i\<rparr>))"
  by (auto simp: same_tables_def dest!: spec [of _ k])

lemma ToState_inv:
  assumes inv: "ms_inv s" and c: "ms_currState s = Some c" and n: "c \<noteq> n"
    and r: "ToState now n s = Ret t"
  obtains b i where "ms_states s n = Some (Some b)" "ms_inv t" "ms_currState t = Some n"
    "ms_queue t = (if cfg_delayUs (sa_cfg b) \<noteq> 0 \<and> tm_status (ms_tm s) = TIMER_STATUS_STARTED
      then [TimerItem_new i (cfg_type (sa_cfg b)) (cfg_cookie (sa_cfg b))
              (cfg_delayUs (sa_cfg b)) (Some (ms_this s)) now] else [])"
proof -
  from r c obtain a where a: "ms_states s c = Some (Some a)"
    and e: "enter_state now n (leave_state c a s) = Ret t"
    by (auto simp: ToState_def split: option.splits)
  have eq: "ms_states (leave_state c a s) n = ms_states s n" "ms_this (leave_state c a s) = ms_this s"
    "tm_status (ms_tm (leave_state c a s)) = tm_status (ms_tm s)"
    using n by (auto simp: leave_state_eq [OF inv c a] KillTimer_frames [OF ms_invD(1) [OF inv]])
  from e obtain b where b: "ms_states s n = Some (Some b)"
    by (auto simp: enter_state_def eq(1) split: option.splits)
  with enter_state_inv [OF leave_state_idle [OF inv c a] _ e, of b] eq show ?thesis
    by (auto intro: that [of b])
qed

lemma HandleMsg_inv:
  assumes inv: "ms_inv s" and r: "HandleMsg now msg s = Ret (i, t)"
  shows "ms_inv t"
proof (cases "\<exists>c a. ms_currState s = Some c \<and> ms_states s c = Some (Some a)")
  case False
  then show ?thesis using inv r by (auto simp: HandleMsg_def split: option.splits)
next
  case True
  then obtain c a where c: "ms_currState s = Some c" "ms_states s c = Some (Some a)" by blast
  define h where "h = SA_Handle a msg c (ms_self s)"
  define s2 where "s2 = (if h_reset h then ResetTimerDelay now (s\<lparr>ms_self := h_self h\<rparr>)
    else s\<lparr>ms_self := h_self h\<rparr>)"
  have "ms_inv (s\<lparr>ms_self := h_self h\<rparr>)"
    using inv by (simp add: ms_inv_def armed_by_current_def tables_unarmed_def)
  then have s2: "ms_inv s2" "ms_currState s2 = Some c"
    using c(1) by (auto simp: s2_def intro: ResetTimerDelay_inv)
  have "t = s2 \<or> (c \<noteq> h_next h \<and> ToState now (h_next h) s2 = Ret t)"
    using r c unfolding HandleMsg_def
    by (auto simp: Let_def h_def [symmetric] s2_def [symmetric] obind_eq_Ret split: if_splits)
  then show ?thesis using s2 ToState_inv [OF s2] by metis
qed

subsection \<open>The effect of one message\<close>

lemma same_tables_trans: "same_tables s t \<Longrightarrow> same_tables t u \<Longrightarrow> same_tables s u"
  unfolding same_tables_def
  by (intro allI, erule_tac x = k in allE, erule_tac x = k in allE) (auto split: option.splits)

lemma same_tables_upd:
  assumes "ms_states s k = Some (Some a)" "ms_states t = (ms_states s)(k \<mapsto> Some (a\<lparr>sa_timerId := i\<rparr>))"
  shows "same_tables s t"
proof -
  have "\<exists>i. b = b\<lparr>sa_timerId := i\<rparr>" for b :: "('a, 'b) StateActions"
    by (rule exI [of _ "sa_timerId b"]) simp
  then show ?thesis using assms by (auto simp: same_tables_def split: option.splits)
qed

lemma same_tables_eq:
  assumes "ms_states t = ms_states s"
  shows "same_tables s t"
proof -
  have "same_tables s t = same_tables s s" unfolding same_tables_def assms by (rule refl)
  then show ?thesis by simp
qed

lemma same_tables_None: "same_tables s t \<Longrightarrow> ms_states t k = None \<longleftrightarrow> ms_states s k = None"
  by (cases "ms_states s k")
    (auto simp: same_tables_def dest!: spec [of _ k] split: option.splits)

lemma same_tables_back:
  assumes "same_tables s t" "ms_states t k = Some (Some b)"
  shows "\<exists>a i. ms_states s k = Some (Some a) \<and> b = a\<lparr>sa_timerId := i\<rparr>"
proof (cases "ms_states s k")
  case None
  then show ?thesis using assms same_tables_None [OF assms(1), of k] by simp
next
  case (Some o1)
  then show ?thesis using assms by (cases o1) (auto simp: same_tables_def dest!: spec [of _ k])
qed

lemma leave_state_tables:
  assumes "ms_states s c = Some (Some a)"
  shows "same_tables s (leave_state c a s)" "ms_self (leave_state c a s) = ms_self s"
  using assms by (auto simp: leave_state_def intro: same_tables_upd split: prod.splits)

lemma enter_state_tables:
  assumes "enter_state now n s = Ret t"
  shows "same_tables s t" "ms_self t = ms_self s"
proof -
  obtain a where a: "ms_states s n = Some (Some a)"
    using assms by (auto simp: enter_state_def split: option.splits)
  have "ms_states t = ms_states s \<or> (\<exists>i. ms_states t = (ms_states s)(n \<mapsto> Some (a\<lparr>sa_timerId := i\<rparr>)))"
    using assms a by (auto simp: enter_state_def Let_def split: if_splits prod.splits)
  then show "same_tables s t" using a by (auto intro: same_tables_upd same_tables_eq)
  show "ms_self t = ms_self s"
    using assms a by (auto simp: enter_state_def Let_def split: if_splits prod.splits)
qed

lemma ToState_more:
  assumes inv: "ms_inv s" and c: "ms_currState s = Some c" and r: "ToState now n s = Ret t" and n: "c \<noteq> n"
  shows "same_tables s t" "ms_self t = ms_self s" "tm_status (ms_tm t) = tm_status (ms_tm s)"
proof -
  from r c obtain a where a: "ms_states s c = Some (Some a)"
    and e: "enter_state now n (leave_state c a s) = Ret t"
    by (auto simp: ToState_def split: option.splits)
  show "same_tables s t" "ms_self t = ms_self s"
    using leave_state_tables [OF a] enter_state_tables [OF e] same_tables_trans by auto
  obtain b where b: "ms_states (leave_state c a s) n = Some (Some b)"
    using e by (auto simp: enter_state_def split: option.splits)
  show "tm_status (ms_tm t) = tm_status (ms_tm s)"
    using enter_state_inv [OF leave_state_idle [OF inv c a] b e]
    by (simp add: leave_state_eq [OF inv c a] KillTimer_frames [OF ms_invD(1) [OF inv]])
qed

lemma ResetTimerDelay_keeps:
  assumes inv: "ms_inv s"
  shows "tm_status (ms_tm (ResetTimerDelay now s)) = tm_status (ms_tm s)"
    "ms_queue s \<noteq> [] \<Longrightarrow> ms_queue (ResetTimerDelay now s) \<noteq> []"
proof -
  have "tm_status (ms_tm (ResetTimerDelay now s)) = tm_status (ms_tm s) \<and>
      (ms_queue s \<noteq> [] \<longrightarrow> ms_queue (ResetTimerDelay now s) \<noteq> [])"
  proof (cases "\<exists>c a. ms_currState s = Some c \<and> ms_states s c = Some (Some a)")
    case True
    then obtain c a where c: "ms_currState s = Some c" "ms_states s c = Some (Some a)" by blast
    obtain i tm where r: "ResetTimer (sa_timerId a) (cfg_type (sa_cfg a)) (cfg_delayUs (sa_cfg a))
      (cfg_cookie (sa_cfg a)) (Some (ms_this s)) now (ms_tm s) = (i, tm)" by fastforce
    show ?thesis using ResetTimer_machine [OF inv c r] c r by (auto simp: ResetTimerDelay_def)
  qed (auto simp: ResetTimerDelay_def split: option.splits)
  then show "tm_status (ms_tm (ResetTimerDelay now s)) = tm_status (ms_tm s)"
    "ms_queue s \<noteq> [] \<Longrightarrow> ms_queue (ResetTimerDelay now s) \<noteq> []" by simp_all
qed

lemma HandleMsg_effect:
  assumes inv: "ms_inv s" and c: "ms_currState s = Some c" "ms_states s c = Some (Some a)"
    and r: "HandleMsg now msg s = Ret (i, t)"
  defines "h \<equiv> SA_Handle a msg c (ms_self s)"
  shows "same_tables s t \<and> ms_self t = h_self h \<and> tm_status (ms_tm t) = tm_status (ms_tm s) \<and>
    (ms_currState t = Some c \<and> (ms_queue s \<noteq> [] \<longrightarrow> ms_queue t \<noteq> []) \<and>
       (h_ret h \<noteq> 0 \<or> h_next h = c \<or> ms_states s (h_next h) = None) \<or>
     h_ret h = 0 \<and> h_next h \<noteq> c \<and> ms_currState t = Some (h_next h) \<and>
       (\<exists>b j. ms_states s (h_next h) = Some (Some b) \<and>
          ms_queue t = (if cfg_delayUs (sa_cfg b) \<noteq> 0 \<and> tm_status (ms_tm s) = TIMER_STATUS_STARTED
            then [TimerItem_new j (cfg_type (sa_cfg b)) (cfg_cookie (sa_cfg b))
                    (cfg_delayUs (sa_cfg b)) (Some (ms_this s)) now] else [])))"
proof -
  define s1 where "s1 = s\<lparr>ms_self := h_self h\<rparr>"
  define s2 where "s2 = (if h_reset h then ResetTimerDelay now s1 else s1)"
  have s1: "ms_inv s1" "same_tables s s1"
    using inv by (auto simp: s1_def ms_inv_def armed_by_current_def tables_unarmed_def intro: same_tables_eq)
  have s2: "ms_inv s2" "ms_currState s2 = Some c" "ms_self s2 = h_self h" "ms_this s2 = ms_this s"
      "tm_status (ms_tm s2) = tm_status (ms_tm s)" "ms_queue s \<noteq> [] \<longrightarrow> ms_queue s2 \<noteq> []"
    using s1 c ResetTimerDelay_inv [OF s1(1)] ResetTimerDelay_keeps [OF s1(1), of now]
    by (auto simp: s2_def s1_def)
  have tab: "same_tables s s2"
    using same_tables_trans [OF s1(2) ResetTimerDelay_tables, of now] s1(2) by (simp add: s2_def)
  have none: "ms_states s2 k = None \<longleftrightarrow> ms_states s k = None" for k
    by (rule same_tables_None [OF tab])
  have H: "HandleMsg now msg s =
    (if h_ret h \<noteq> 0 then Ret (h_ret h, s2) else if c = h_next h then Ret (0, s2)
     else if ms_states s2 (h_next h) = None then Ret (0, s2)
     else obind (ToState now (h_next h) s2) (\<lambda>s3. Ret (0, s3)))"
    using c by (simp add: HandleMsg_def h_def s1_def s2_def Let_def)
  consider "t = s2" "h_ret h \<noteq> 0 \<or> h_next h = c \<or> ms_states s (h_next h) = None"
    | "h_ret h = 0" "c \<noteq> h_next h" "ToState now (h_next h) s2 = Ret t"
    using r unfolding H by (auto simp: none obind_eq_Ret split: if_splits)
  then show ?thesis
  proof cases
    case 1
    then show ?thesis using s2 tab by auto
  next
    case 2
    note m = ToState_more [OF s2(1,2) 2(3,2)]
    obtain b j where b: "ms_states s2 (h_next h) = Some (Some b)" "ms_currState t = Some (h_next h)"
      "ms_queue t = (if cfg_delayUs (sa_cfg b) \<noteq> 0 \<and> tm_status (ms_tm s2) = TIMER_STATUS_STARTED
        then [TimerItem_new j (cfg_type (sa_cfg b)) (cfg_cookie (sa_cfg b))
              (cfg_delayUs (sa_cfg b)) (Some (ms_this s2)) now] else [])"
      using ToState_inv [OF s2(1,2) 2(2,3)] by blast
    obtain b0 where b0: "ms_states s (h_next h) = Some (Some b0)" "sa_cfg b0 = sa_cfg b"
      using same_tables_back [OF tab b(1)] by auto
    show ?thesis
      using 2 m s2 b b0 same_tables_trans [OF tab m(1)] by auto
  qed
qed

lemma ms_inv_take:
  assumes inv: "ms_inv s" and r: "Run_iter now (ms_tm s) = (RunFire e ob, tm)"
  shows "ms_inv (s\<lparr>ms_tm := tm\<rparr>)"
proof -
  have "tm_itemQueue tm = []" "pool_size (tm_ids tm) = pool_size (tm_ids (ms_tm s))"
    using r ms_invD(5) [OF inv]
    by (auto simp: Run_iter_def idp.release_size split: if_splits list.splits)
  then show ?thesis using inv timer_inv_run [OF ms_invD(1) [OF inv], of now] r
    by (simp add: ms_inv_def tables_unarmed_def)
qed

interpretation machine: invariant_system ms_start ms_step "\<lambda>x. ms_inv (fst x)"
proof (unfold_locales, goal_cases)
  case (1 s)
  then show ?case by (rule ms_start_inv)
next
  case (2 s t)
  from 2(2,1) show ?case
    by (cases rule: ms_step.cases)
      (auto simp: OnTimerEvent_def obind_eq_Ret
        intro: HandleMsg_inv ms_inv_take ResetTimerDelay_inv)
qed

section \<open>Properties\<close>

text \<open>
  C3. Whatever a subclass registers and however client messages, timer resets and the timer thread
  interleave, a state machine never has more than one timer pending, a pending timer is the one the
  current state armed (its type, cookie and observer), and no other state holds a timer id.
\<close>

theorem machine_one_timer:
  assumes "reach ms_start ms_step (s, p)"
  shows "length (ms_queue s) \<le> 1 \<and> (\<forall>x \<in> set (ms_queue s). armed_by_current s x) \<and>
    (\<forall>k a. ms_states s k = Some (Some a) \<and> ms_currState s \<noteq> Some k \<longrightarrow> sa_timerId a = INVALID_ID)"
  using machine.reach_inv [OF assms] by (auto simp: ms_inv_def tables_unarmed_def)

text \<open>A two-state machine: message 5 moves from state 0 to state 1, which waits 300us.\<close>

definition demo_go :: "(unit, nat) HandleMsg_fn" where
  "demo_go msg nxt u = \<lparr>h_ret = 0, h_next = 1, h_reset = False, h_self = Suc u\<rparr>"

definition demo_expire :: "(unit, nat) HandleMsg_fn" where
  "demo_expire msg nxt u = \<lparr>h_ret = 0, h_next = 0, h_reset = False, h_self = u\<rparr>"

definition demo_ops :: "(unit, nat) cfg_op list" where
  "demo_ops = [CfgAct True 0 5 demo_go, CfgWait True 1 6 demo_expire 300 0]"

definition demo_machine :: "(unit, nat) ModuleStates" where
  "demo_machine = (fold configure demo_ops (ModuleStates_new 0 True 7 0))
     \<lparr>ms_listener := True, ms_processType := PROCESS_WAKEUP_PHONE\<rparr>"

lemma demo_machine_start: "ms_start (demo_machine, None)"
  unfolding ms_start_def demo_machine_def by blast

lemma demo_machine_inv: "ms_inv demo_machine"
  using ms_start_inv [OF demo_machine_start] by simp

lemmas machine_eval =
  ModuleStates_new_def ForState_def upd_actions_def SA_Add_def SA_WaitUntil_def StateActions_new_def

lemma demo_machine_tables:
  "ms_currState demo_machine = Some 0"
  "ms_states demo_machine 0 = Some (Some
     \<lparr>sa_cfg = \<lparr>cfg_type = 0, cfg_delayUs = 0, cfg_cookie = 0\<rparr>, sa_timerId = INVALID_ID,
      sa_actions = [5 \<mapsto> demo_go]\<rparr>)"
  "ms_states demo_machine 1 = Some (Some
     \<lparr>sa_cfg = \<lparr>cfg_type = 6, cfg_delayUs = 300, cfg_cookie = 0\<rparr>, sa_timerId = INVALID_ID,
      sa_actions = [6 \<mapsto> demo_expire]\<rparr>)"
  "tm_status (ms_tm demo_machine) = TIMER_STATUS_STARTED"
  by (simp_all add: demo_machine_def demo_ops_def machine_eval timer_defs TimerMgr_def)

text \<open>
  A message the current state's table accepts with success and a different, registered next
  state moves the machine exactly there, runs the handler once on the subclass fields, disarms the
  timer of the state left and, if the entered state has a timeout, arms that timer alone, due
  \<open>delayUs\<close> after the transition (the pool cannot be exhausted).
\<close>

theorem machine_transition:
  assumes inv: "ms_inv s" and c: "ms_currState s = Some c" "ms_states s c = Some (Some a)"
    and h: "sa_actions a (msgId msg) = Some h"
      "h msg c (ms_self s) = \<lparr>h_ret = 0, h_next = n, h_reset = False, h_self = u\<rparr>"
    and n: "n \<noteq> c" "ms_states s n = Some (Some b)"
  shows "\<exists>t. HandleMsg now msg s = Ret (0, t) \<and> ms_currState t = Some n \<and>
    map (\<lambda>x. (ti_type x, ti_tgtUs x, ti_observer x)) (ms_queue t) =
      (if cfg_delayUs (sa_cfg b) \<noteq> 0 \<and> tm_status (ms_tm s) = TIMER_STATUS_STARTED
       then [(cfg_type (sa_cfg b), now + cfg_delayUs (sa_cfg b), Some (ms_this s))] else [])"
proof -
  define s1 where "s1 = s\<lparr>ms_self := u\<rparr>"
  have s1: "ms_inv s1" "ms_currState s1 = Some c" "ms_states s1 n = Some (Some b)"
    using inv c n by (auto simp: s1_def ms_inv_def armed_by_current_def tables_unarmed_def)
  have "ms_states (leave_state c a s1) n = Some (Some b)"
    using n c(2) leave_state_eq [OF s1(1,2), of a] by (simp add: s1_def)
  then obtain t where t: "ToState now n s1 = Ret t"
    using s1(2) c by (auto simp: ToState_def enter_state_def s1_def Let_def)
  then have H: "HandleMsg now msg s = Ret (0, t)"
    using c h n by (simp add: HandleMsg_def SA_Handle_def s1_def)
  have "c \<noteq> n" using n(1) by simp
  from ToState_inv [OF s1(1,2) this t] obtain b' i where b': "ms_states s1 n = Some (Some b')"
    "ms_currState t = Some n"
    "ms_queue t = (if cfg_delayUs (sa_cfg b') \<noteq> 0 \<and> tm_status (ms_tm s1) = TIMER_STATUS_STARTED
      then [TimerItem_new i (cfg_type (sa_cfg b')) (cfg_cookie (sa_cfg b'))
              (cfg_delayUs (sa_cfg b')) (Some (ms_this s1)) now] else [])" by blast
  then have "map (\<lambda>x. (ti_type x, ti_tgtUs x, ti_observer x)) (ms_queue t) =
      (if cfg_delayUs (sa_cfg b) \<noteq> 0 \<and> tm_status (ms_tm s) = TIMER_STATUS_STARTED
       then [(cfg_type (sa_cfg b), now + cfg_delayUs (sa_cfg b), Some (ms_this s))] else [])"
    using s1(3) by (simp add: s1_def TimerItem_new_def)
  then show ?thesis using H b'(2) by blast
qed

theorem machine_transition_witness:
  "\<exists>t. HandleMsg 1000 \<lparr>msgId = 5, inMsg = NoMsg\<rparr> demo_machine = Ret (0, t) \<and>
     ms_currState t = Some 1 \<and>
     map (\<lambda>x. (ti_type x, ti_tgtUs x, ti_observer x)) (ms_queue t) = [(6, 1300, Some (ms_this demo_machine))]"
  using machine_transition [OF demo_machine_inv demo_machine_tables(1,2), of "\<lparr>msgId = 5, inMsg = NoMsg\<rparr>"
      demo_go 1 "Suc (ms_self demo_machine)" _ 1000]
  by (simp add: demo_machine_tables demo_go_def)

lemma demo_moves:
  "\<exists>t. HandleMsg 1000 \<lparr>msgId = 5, inMsg = NoMsg\<rparr> demo_machine = Ret (0, t) \<and>
     ms_currState t = Some 1 \<and> length (ms_queue t) = 1"
  by (simp add: HandleMsg_def SA_Handle_def ToState_def enter_state_def leave_state_def Let_def
      demo_machine_tables demo_go_def)
    (simp add: demo_machine_def demo_ops_def machine_eval timer_defs timer_eval)

theorem machine_one_timer_witness:
  "\<exists>s. reach ms_start ms_step (s, None :: TimerEvent option) \<and> ms_currState s = Some 1 \<and>
     length (ms_queue s) = 1 \<and> armed_by_current (s :: (unit, nat) ModuleStates) (hd (ms_queue s))"
proof -
  obtain t where t: "HandleMsg 1000 \<lparr>msgId = 5, inMsg = NoMsg\<rparr> demo_machine = Ret (0, t)"
    "ms_currState t = Some 1" "length (ms_queue t) = 1"
    using demo_moves by blast
  have "reach ms_start ms_step (demo_machine, None)"
    using demo_machine_start by (rule reach_start)
  from reach_step [where step = ms_step, OF this ms_client [OF t(1)]]
  have r: "reach ms_start ms_step (t, None)" .
  obtain x where x: "ms_queue t = [x]" using t(3) by (auto simp: length_Suc_conv)
  from machine_one_timer [OF r] x r t(2) show ?thesis by auto
qed

text \<open>
  A message the current state does not list is answered with \<open>NO_PROCESS_RET\<close> and changes
  nothing at all; a message whose handler fails is answered with the handler's code and leaves the
  current state and the timers as they were, only the handler's own effect on the subclass fields
  remains.
\<close>

theorem machine_rejects:
  assumes c: "ms_currState s = Some c" "ms_states s c = Some (Some a)"
  shows "(sa_actions a (msgId msg) = None \<longrightarrow> HandleMsg now msg s = Ret (NO_PROCESS_RET, s)) \<and>
    (\<forall>h. sa_actions a (msgId msg) = Some h \<longrightarrow> h_ret (h msg c (ms_self s)) \<noteq> 0 \<longrightarrow>
      \<not> h_reset (h msg c (ms_self s)) \<longrightarrow>
      HandleMsg now msg s = Ret (h_ret (h msg c (ms_self s)),
        s\<lparr>ms_self := h_self (h msg c (ms_self s))\<rparr>))"
  using c by (auto simp: HandleMsg_def SA_Handle_def Let_def NO_PROCESS_RET_def)

theorem machine_rejects_witness:
  "HandleMsg 0 \<lparr>msgId = 6, inMsg = NoMsg\<rparr> demo_machine = Ret (NO_PROCESS_RET, demo_machine)"
  using machine_rejects [OF demo_machine_tables(1,2), of "\<lparr>msgId = 6, inMsg = NoMsg\<rparr>" 0] by simp

lemma same_tables_null: "same_tables s t \<Longrightarrow> ms_states t k = Some None \<longleftrightarrow> ms_states s k = Some None"
  by (cases "ms_states s k")
    (auto simp: same_tables_def dest!: spec [of _ k] split: option.splits)

lemma leave_state_other: "k \<noteq> c \<Longrightarrow> ms_states (leave_state c a s) k = ms_states s k"
  by (auto simp: leave_state_def split: prod.splits)

lemma enter_state_crash: "enter_state now n s = Crash e \<Longrightarrow> ms_states s n = None \<or> ms_states s n = Some None"
  by (auto simp: enter_state_def Let_def split: option.splits)

lemma HandleMsg_ret:
  assumes "ms_currState s = Some c" "ms_states s c = Some (Some a)" "HandleMsg now msg s = Ret (i, t)"
  shows "i = h_ret (SA_Handle a msg c (ms_self s))"
  using assms by (auto simp: HandleMsg_def Let_def obind_eq_Ret split: if_splits)

lemma HandleMsg_returns:
  assumes "\<forall>k. ms_states s k \<noteq> Some None"
  shows "\<exists>i t. HandleMsg now msg s = Ret (i, t)"
proof (cases "\<exists>c a. ms_currState s = Some c \<and> ms_states s c = Some (Some a)")
  case False
  then show ?thesis using assms by (auto simp: HandleMsg_def split: option.splits)
next
  case True
  then obtain c a where c: "ms_currState s = Some c" "ms_states s c = Some (Some a)" by blast
  define h where "h = SA_Handle a msg c (ms_self s)"
  define s1 where "s1 = s\<lparr>ms_self := h_self h\<rparr>"
  define s2 where "s2 = (if h_reset h then ResetTimerDelay now s1 else s1)"
  have tab: "same_tables s1 s2" by (simp add: s2_def ResetTimerDelay_tables)
  obtain a' where a': "ms_currState s2 = Some c" "ms_states s2 c = Some (Some a')"
    using same_tables_Some [OF tab, of c a] c by (auto simp: s2_def s1_def)
  have to: "\<exists>t. ToState now n s2 = Ret t" if "n \<noteq> c" "ms_states s2 n \<noteq> None" for n
  proof (cases "enter_state now n (leave_state c a' s2)")
    case (Inl e)
    then have "ms_states s2 n = Some None"
      using enter_state_crash [OF Inl] that by (simp add: leave_state_other)
    then have "ms_states s n = Some None" using same_tables_null [OF tab] by (simp add: s1_def)
    then show ?thesis using assms by blast
  next
    case (Inr t)
    then show ?thesis using a' by (simp add: ToState_def)
  qed
  have H: "HandleMsg now msg s =
    (if h_ret h \<noteq> 0 then Ret (h_ret h, s2) else if c = h_next h then Ret (0, s2)
     else if ms_states s2 (h_next h) = None then Ret (0, s2)
     else obind (ToState now (h_next h) s2) (\<lambda>s3. Ret (0, s3)))"
    using c by (simp add: HandleMsg_def h_def s1_def s2_def Let_def)
  show ?thesis
  proof (cases "h_next h \<noteq> c \<and> ms_states s2 (h_next h) \<noteq> None")
    case True
    then obtain t where "ToState now (h_next h) s2 = Ret t" using to by blast
    then show ?thesis by (simp add: H)
  next
    case False
    then show ?thesis by (auto simp: H)
  qed
qed

text \<open>
  The only way a message can dereference a null pointer is a successful handler that names a
  registered next state without a table, which is only ever the default state of a subclass that
  gave it no actions: a machine all of whose registered states have a table never crashes, in any
  state and for any message.
\<close>

theorem machine_never_crashes:
  assumes "\<forall>k. ms_states s k \<noteq> Some None"
  shows "\<exists>i t. HandleMsg now msg s = Ret (i, t)"
  using assms by (rule HandleMsg_returns)

theorem machine_never_crashes_witness:
  "(\<forall>k. ms_states demo_machine k \<noteq> Some None) \<and>
   (\<exists>i t. HandleMsg 3 \<lparr>msgId = 5, inMsg = NoMsg\<rparr> demo_machine = Ret (i, t))"
proof -
  have "\<forall>k. ms_states demo_machine k \<noteq> Some None"
    by (simp add: demo_machine_def demo_ops_def machine_eval)
  then show ?thesis using machine_never_crashes by blast
qed

end
