(* ===== verification/Engine_Frame.thy ===== *)
theory Engine_Frame
  imports State_Manager
begin

text \<open>
  What the engines built on the state machine share. An engine fixes its states, the table of each
  state and a predicate on its own fields per state; if every handler of a table leaves the fields fit
  for the state it names, the engine always is in one of its states with fit fields, and a state with
  a timeout always has it pending. The locale \<open>table_engine\<close> is that interface; each engine theory
  interprets it on its own tables.
\<close>

definition tables_ok :: "('e \<Rightarrow> int) \<Rightarrow> ('e \<Rightarrow> ('m, 'u) StateActions) \<Rightarrow> ('m, 'u) ModuleStates \<Rightarrow> bool" where
  "tables_ok sid tab s \<longleftrightarrow> (\<forall>k. ms_states s k \<noteq> Some None) \<and>
     (\<forall>e. \<exists>i. ms_states s (sid e) = Some (Some ((tab e)\<lparr>sa_timerId := i\<rparr>)))"

definition machine_fit ::
  "('e \<Rightarrow> int) \<Rightarrow> ('e \<Rightarrow> ('m, 'u) StateActions) \<Rightarrow> ('e \<Rightarrow> 'u \<Rightarrow> bool) \<Rightarrow> 'e \<Rightarrow> ('m, 'u) ModuleStates \<Rightarrow> bool" where
  "machine_fit sid tab fok e s \<longleftrightarrow>
     ms_inv s \<and> tm_status (ms_tm s) = TIMER_STATUS_STARTED \<and> ms_isInitSucc s \<and> tables_ok sid tab s \<and>
     ms_currState s = Some (sid e) \<and> fok e (ms_self s)"

text \<open>A state with a delay has a timeout: in the queue, or taken by the timer thread and not yet
  delivered.\<close>

abbreviation timed :: "('e \<Rightarrow> ('m, 'u) StateActions) \<Rightarrow> 'e \<Rightarrow> bool" where
  "timed tab e \<equiv> cfg_delayUs (sa_cfg (tab e)) \<noteq> 0"

definition timeout_pending :: "('e \<Rightarrow> ('m, 'u) StateActions) \<Rightarrow> 'e \<Rightarrow> ('m, 'u) ms_sys \<Rightarrow> bool" where
  "timeout_pending tab e x \<longleftrightarrow>
     ms_queue (fst x) \<noteq> [] \<or> (\<exists>ev. snd x = Some ev \<and> te_type ev = cfg_type (sa_cfg (tab e)))"

definition machine_at ::
  "('e \<Rightarrow> int) \<Rightarrow> ('e \<Rightarrow> ('m, 'u) StateActions) \<Rightarrow> ('e \<Rightarrow> 'u \<Rightarrow> bool) \<Rightarrow> 'e \<Rightarrow> ('m, 'u) ms_sys \<Rightarrow> bool" where
  "machine_at sid tab fok e x \<longleftrightarrow> machine_fit sid tab fok e (fst x) \<and> (timed tab e \<longrightarrow> timeout_pending tab e x)"

text \<open>The outcome of a handler: it names a state and leaves the fields fit for the state it ends in.\<close>

definition moves :: "('e \<Rightarrow> int) \<Rightarrow> ('e \<Rightarrow> 'u \<Rightarrow> bool) \<Rightarrow> 'e \<Rightarrow> 'e \<Rightarrow> 'u handled \<Rightarrow> bool" where
  "moves sid fok e e' h \<longleftrightarrow> h_next h = sid e' \<and> fok (if h_ret h = 0 then e' else e) (h_self h)"

lemma tables_ok_same:
  assumes "tables_ok sid tab s" "same_tables s t"
  shows "tables_ok sid tab t"
  unfolding tables_ok_def
proof (intro conjI allI)
  show "ms_states t k \<noteq> Some None" for k
    using assms same_tables_null by (auto simp: tables_ok_def)
  fix e
  obtain i where "ms_states s (sid e) = Some (Some ((tab e)\<lparr>sa_timerId := i\<rparr>))"
    using assms(1) by (auto simp: tables_ok_def)
  from same_tables_Some [OF assms(2) this]
  show "\<exists>i. ms_states t (sid e) = Some (Some ((tab e)\<lparr>sa_timerId := i\<rparr>))" by simp
qed

lemma initSucc_frames:
  "ms_isInitSucc (ResetTimerDelay now s) = ms_isInitSucc s" "ms_isInitSucc (leave_state c a s) = ms_isInitSucc s"
  by (auto simp: ResetTimerDelay_def leave_state_def split: option.splits prod.splits)

lemma initSucc_enter: "enter_state now n s = Ret t \<Longrightarrow> ms_isInitSucc t = ms_isInitSucc s"
  by (auto simp: enter_state_def Let_def split: option.splits prod.splits if_splits)

lemma initSucc_ToState: "ToState now n s = Ret t \<Longrightarrow> ms_isInitSucc t = ms_isInitSucc s"
  by (auto simp: ToState_def initSucc_frames dest!: initSucc_enter split: option.splits)

lemma HandleMsg_initSucc: "HandleMsg now msg s = Ret (r, t) \<Longrightarrow> ms_isInitSucc t = ms_isInitSucc s"
  by (auto simp: HandleMsg_def Let_def obind_eq_Ret initSucc_frames dest!: initSucc_ToState
      split: option.splits if_splits)

lemma ms_inv_self [simp]: "ms_inv (s\<lparr>ms_self := u\<rparr>) = ms_inv s"
  by (simp add: ms_inv_def armed_by_current_def tables_unarmed_def)

text \<open>A change of the fields alone.\<close>

lemma machine_at_self:
  "machine_at sid tab fok e (s, p) \<Longrightarrow> fok e u \<Longrightarrow> machine_at sid tab fok e (s\<lparr>ms_self := u\<rparr>, p)"
  by (simp add: machine_at_def machine_fit_def tables_ok_def timeout_pending_def)

lemma machine_fit_start:
  assumes "\<And>k. ms_states s k \<noteq> Some None" "\<And>e. ms_states s (sid e) = Some (Some (tab e))"
    and "\<And>e. sa_timerId (tab e) = INVALID_ID" "ms_idle s" "tm_status (ms_tm s) = TIMER_STATUS_STARTED" "ms_isInitSucc s"
    and "ms_currState s = Some (sid e0)" "fok e0 (ms_self s)"
  shows "machine_fit sid tab fok e0 s"
proof -
  have "(tab e)\<lparr>sa_timerId := INVALID_ID\<rparr> = tab e" for e using assms(3) [of e] by (cases "tab e") simp
  then have "\<exists>i. ms_states s (sid e) = Some (Some ((tab e)\<lparr>sa_timerId := i\<rparr>))" for e
    using assms(2) by (intro exI [of _ INVALID_ID]) simp
  then show ?thesis using assms ms_idle_inv by (auto simp: machine_fit_def tables_ok_def)
qed

locale table_engine =
  fixes sid :: "'e \<Rightarrow> int" and tab :: "'e \<Rightarrow> ('m, 'u) StateActions" and fok :: "'e \<Rightarrow> 'u \<Rightarrow> bool" and rest :: 'e
  assumes sid_inj: "sid e = sid e' \<Longrightarrow> e = e'"
    and handler_moves: "fok e u \<Longrightarrow> sa_actions (tab e) m = Some h \<Longrightarrow> \<exists>e'. moves sid fok e e' (h msg (sid e) u)"
    and rest_untimed: "\<not> timed tab rest"
    and timeout_rests: "timed tab e \<Longrightarrow> \<exists>h. sa_actions (tab e) (cfg_type (sa_cfg (tab e))) = Some h \<and>
      (\<forall>msg u. h_ret (h msg (sid e) u) = 0 \<and> h_next (h msg (sid e) u) = sid rest)"
begin

lemma table_moves:
  assumes "fok e u"
  shows "\<exists>e'. moves sid fok e e' (SA_Handle ((tab e)\<lparr>sa_timerId := i\<rparr>) msg (sid e) u)"
proof (cases "sa_actions (tab e) (msgId msg)")
  case None
  then show ?thesis using assms
    by (intro exI [of _ e]) (simp add: SA_Handle_def moves_def NO_PROCESS_RET_def)
next
  case (Some h)
  then show ?thesis using handler_moves [OF assms Some] by (simp add: SA_Handle_def)
qed

text \<open>What one message does, whoever sends it: the queue is armed afresh by a change of state and
  never emptied without one.\<close>

lemma message:
  assumes ft: "machine_fit sid tab fok e s" and r: "HandleMsg now msg s = Ret (ret, t)"
  shows "\<exists>e'. machine_fit sid tab fok e' t \<and>
    (e' = e \<and> (ms_queue s \<noteq> [] \<longrightarrow> ms_queue t \<noteq> []) \<or> e' \<noteq> e \<and> (timed tab e' \<longrightarrow> ms_queue t \<noteq> [])) \<and>
    (\<forall>h. sa_actions (tab e) (msgId msg) = Some h \<longrightarrow> h_ret (h msg (sid e) (ms_self s)) = 0 \<longrightarrow>
       h_next (h msg (sid e) (ms_self s)) = sid e')"
proof -
  have inv: "ms_inv s" and c: "ms_currState s = Some (sid e)" and fo: "fok e (ms_self s)"
    and st: "tm_status (ms_tm s) = TIMER_STATUS_STARTED" "ms_isInitSucc s" and tb: "tables_ok sid tab s"
    using ft by (simp_all add: machine_fit_def)
  obtain i where a: "ms_states s (sid e) = Some (Some ((tab e)\<lparr>sa_timerId := i\<rparr>))"
    using tb by (auto simp: tables_ok_def)
  define h where "h = SA_Handle ((tab e)\<lparr>sa_timerId := i\<rparr>) msg (sid e) (ms_self s)"
  obtain n where n: "moves sid fok e n h" using table_moves [OF fo] h_def by blast
  obtain k where b: "ms_states s (sid n) = Some (Some ((tab n)\<lparr>sa_timerId := k\<rparr>))"
    using tb by (auto simp: tables_ok_def)
  note eff = HandleMsg_effect [OF inv c a r, folded h_def]
  have basics: "ms_inv t" "tm_status (ms_tm t) = TIMER_STATUS_STARTED" "ms_isInitSucc t" "tables_ok sid tab t"
    using HandleMsg_inv [OF inv r] eff st HandleMsg_initSucc [OF r] tables_ok_same [OF tb] by auto
  have same: "g msg (sid e) (ms_self s) = h" if "sa_actions (tab e) (msgId msg) = Some g" for g
    using that by (simp add: h_def SA_Handle_def)
  have nx: "h_next h = sid n" using n by (simp add: moves_def)
  have ne: "sid n \<noteq> sid e" if "n \<noteq> e" using sid_inj that by blast
  show ?thesis
  proof (cases "h_ret h = 0 \<and> n \<noteq> e")
    case True
    then have "ms_currState t = Some (sid n)" "ms_self t = h_self h" "timed tab n \<longrightarrow> ms_queue t \<noteq> []"
      using eff nx b st(1) ne by auto
    then show ?thesis
      using basics True same nx n by (intro exI [of _ n]) (auto simp: moves_def machine_fit_def)
  next
    case False
    then have "ms_currState t = Some (sid e)" "ms_self t = h_self h" "ms_queue s \<noteq> [] \<longrightarrow> ms_queue t \<noteq> []"
      using eff nx by auto
    then show ?thesis
      using basics False same nx n by (intro exI [of _ e]) (auto simp: moves_def machine_fit_def split: if_splits)
  qed
qed

lemma client_at:
  assumes at: "machine_at sid tab fok e (s, p)" and r: "HandleMsg now msg s = Ret (ret, t)"
  shows "\<exists>e'. machine_at sid tab fok e' (t, p)"
proof -
  from message [OF _ r] at obtain e' where "machine_fit sid tab fok e' t"
    "e' = e \<and> (ms_queue s \<noteq> [] \<longrightarrow> ms_queue t \<noteq> []) \<or> e' \<noteq> e \<and> (timed tab e' \<longrightarrow> ms_queue t \<noteq> [])"
    by (auto simp: machine_at_def)
  then show ?thesis using at by (intro exI [of _ e']) (auto simp: machine_at_def timeout_pending_def)
qed

lemma deliver_at:
  assumes at: "machine_at sid tab fok e (s, Some ev)" and r: "OnTimerEvent now ev s = Ret t"
  shows "\<exists>e'. machine_at sid tab fok e' (t, None) \<and>
    (timed tab e \<and> te_type ev = cfg_type (sa_cfg (tab e)) \<longrightarrow> e' = rest)"
proof -
  let ?m = "\<lparr>msgId = te_type ev, inMsg = TimerMsg ev\<rparr>"
  obtain ret where m: "HandleMsg now ?m s = Ret (ret, t)"
    using r by (auto simp: OnTimerEvent_def obind_eq_Ret)
  have ft: "machine_fit sid tab fok e s" using at by (simp add: machine_at_def)
  from message [OF ft m] obtain e' where f: "machine_fit sid tab fok e' t"
    "e' = e \<and> (ms_queue s \<noteq> [] \<longrightarrow> ms_queue t \<noteq> []) \<or> e' \<noteq> e \<and> (timed tab e' \<longrightarrow> ms_queue t \<noteq> [])"
    and h: "\<forall>h. sa_actions (tab e) (msgId ?m) = Some h \<longrightarrow> h_ret (h ?m (sid e) (ms_self s)) = 0 \<longrightarrow>
       h_next (h ?m (sid e) (ms_self s)) = sid e'" by auto
  have i: "e' = rest" if "timed tab e" "te_type ev = cfg_type (sa_cfg (tab e))"
    using h timeout_rests [OF that(1)] that(2) sid_inj by auto
  have "timed tab e' \<longrightarrow> ms_queue t \<noteq> []"
    using f(2) i at rest_untimed by (auto simp: machine_at_def timeout_pending_def)
  then show ?thesis using f(1) i by (intro exI [of _ e']) (auto simp: machine_at_def timeout_pending_def)
qed

lemma take_at:
  assumes at: "machine_at sid tab fok e (s, None)" and r: "Run_iter now (ms_tm s) = (RunFire ev ob, tm)"
  shows "machine_at sid tab fok e (s\<lparr>ms_tm := tm\<rparr>, Some ev)"
proof -
  have inv: "ms_inv s" and c: "ms_currState s = Some (sid e)" and tb: "tables_ok sid tab s"
    using at by (simp_all add: machine_at_def machine_fit_def)
  obtain x q where q: "ms_queue s = x # q" "te_type ev = ti_type x" "tm_status tm = tm_status (ms_tm s)"
    using r by (auto simp: Run_iter_def split: if_splits list.splits)
  obtain i where a: "ms_states s (sid e) = Some (Some ((tab e)\<lparr>sa_timerId := i\<rparr>))"
    using tb by (auto simp: tables_ok_def)
  have "ti_type x = cfg_type (sa_cfg (tab e))"
    using ms_invD(3) [OF inv, of x] q(1) c a by (auto simp: armed_by_current_def)
  then show ?thesis
    using at q ms_inv_take [OF inv r] by (auto simp: machine_at_def machine_fit_def tables_ok_def timeout_pending_def)
qed

lemma call:
  assumes ft: "machine_fit sid tab fok e s"
    and h: "sa_actions (tab e) (msgId msg) = Some h" "h_next (h msg (sid e) (ms_self s)) = sid e'"
  defines "r \<equiv> h msg (sid e) (ms_self s)"
  shows "\<exists>t. HandleMsg now msg s = Ret (h_ret r, t) \<and> ms_self t = h_self r \<and>
    machine_fit sid tab fok (if h_ret r = 0 then e' else e) t \<and>
    (if h_ret r = 0 \<and> e' \<noteq> e
     then ms_currState t = Some (sid e') \<and>
       map (\<lambda>x. (ti_type x, ti_tgtUs x)) (ms_queue t) =
         (if timed tab e' then [(cfg_type (sa_cfg (tab e')), now + cfg_delayUs (sa_cfg (tab e')))] else [])
     else ms_currState t = Some (sid e))"
proof -
  have inv: "ms_inv s" and c: "ms_currState s = Some (sid e)" and st: "tm_status (ms_tm s) = TIMER_STATUS_STARTED"
    and tb: "tables_ok sid tab s" using ft by (simp_all add: machine_fit_def)
  obtain i j where a: "ms_states s (sid e) = Some (Some ((tab e)\<lparr>sa_timerId := i\<rparr>))"
    and b: "ms_states s (sid e') = Some (Some ((tab e')\<lparr>sa_timerId := j\<rparr>))"
    using tb unfolding tables_ok_def by metis
  have r: "SA_Handle ((tab e)\<lparr>sa_timerId := i\<rparr>) msg (sid e) (ms_self s) = r"
    using h(1) by (simp add: SA_Handle_def r_def)
  obtain ret t where H: "HandleMsg now msg s = Ret (ret, t)"
    using HandleMsg_returns [of s now msg] tb by (auto simp: tables_ok_def)
  note eff = HandleMsg_effect [OF inv c a H, unfolded r]
  obtain n where n: "machine_fit sid tab fok n t" using message [OF ft H] by blast
  then have "ms_currState t = Some (sid n)" by (simp add: machine_fit_def)
  then have "n = (if h_ret r = 0 then e' else e)" using eff h(2) [folded r_def] b sid_inj by (auto split: if_splits)
  then have f: "machine_fit sid tab fok (if h_ret r = 0 then e' else e) t" using n by simp
  have "ret = h_ret r" using HandleMsg_ret [OF c a H] r by simp
  then show ?thesis
    using eff h(2) [folded r_def] b st f H sid_inj
    by (intro exI [of _ t]) (auto simp: TimerItem_new_def)
qed

lemma at_unique:
  assumes "machine_at sid tab fok e x" "ms_currState (fst x) = Some (sid e')"
  shows "machine_at sid tab fok e' x"
proof -
  have "e = e'" using assms sid_inj by (auto simp: machine_at_def machine_fit_def)
  then show ?thesis using assms(1) by simp
qed

text \<open>The one timer of a state with a timeout.\<close>

lemma timer_shape:
  assumes at: "machine_at sid tab fok e (s, p)" and tm: "timed tab e"
  shows "(\<exists>x. ms_queue s = [x] \<and> ti_type x = cfg_type (sa_cfg (tab e)) \<and> ti_observer x = Some (ms_this s)) \<or>
        (\<exists>ev. p = Some ev \<and> te_type ev = cfg_type (sa_cfg (tab e)))"
proof -
  have ft: "ms_inv s" "ms_currState s = Some (sid e)" "tables_ok sid tab s"
    using at by (simp_all add: machine_at_def machine_fit_def)
  obtain i where a: "ms_states s (sid e) = Some (Some ((tab e)\<lparr>sa_timerId := i\<rparr>))"
    using ft(3) by (auto simp: tables_ok_def)
  have "ti_type x = cfg_type (sa_cfg (tab e)) \<and> ti_observer x = Some (ms_this s)" if "ms_queue s = [x]" for x
    using ms_invD(3) [OF ft(1), of x] that ft(2) a by (auto simp: armed_by_current_def)
  then show ?thesis using at tm ms_invD(5) [OF ft(1)] by (auto simp: machine_at_def timeout_pending_def)
qed

end

end
