(* ===== verification/Queues.thy ===== *)
theory Queues
  imports IV_Prelude "HOL-Library.Sublist"
begin

text \<open>
  The queues between threads: \<open>utils/queue_util.h\<close> (audio frames, tasks), \<open>utils/message_queue.cpp\<close>,
  \<open>utils/msg_handle_thread.cpp\<close> and \<open>utils/task_executor.h\<close>. A call that would sleep on a condition
  variable is \<open>None\<close>; after a wake-up the code re-examines the state exactly as a new call does, so
  waiting is calling again. The locale \<open>bounded_fifo\<close> is the contract both queues give.
\<close>

section \<open>QueueUtil\<close>

record 'a QueueUtil =
  qu_queue :: "'a list"
  qu_capacity :: nat
  qu_isAvailable :: bool

definition MAX_CAPACITY :: nat where
  "MAX_CAPACITY = 500"

definition QueueUtil_new :: "'a QueueUtil" where
  "QueueUtil_new = \<lparr>qu_queue = [], qu_capacity = 0, qu_isAvailable = False\<rparr>"

definition Queue_Init :: "nat \<Rightarrow> 'a QueueUtil \<Rightarrow> bool \<times> 'a QueueUtil" where
  "Queue_Init capacity q = (True, q\<lparr>qu_isAvailable := True, qu_capacity := capacity\<rparr>)"

definition Queue_Push :: "'a \<Rightarrow> bool \<Rightarrow> 'a QueueUtil \<Rightarrow> (bool \<times> 'a QueueUtil) option" where
  "Queue_Push element isWait q =
     (if \<not> qu_isAvailable q then Some (False, q)
      else if qu_capacity q \<le> length (qu_queue q) then (if \<not> isWait then Some (False, q) else None)
      else Some (True, q\<lparr>qu_queue := qu_queue q @ [element]\<rparr>))"

definition Queue_Pop :: "'a QueueUtil \<Rightarrow> (('a option) \<times> 'a QueueUtil) option" where
  "Queue_Pop q =
     (if \<not> qu_isAvailable q then Some (None, q)
      else (case qu_queue q of [] \<Rightarrow> None | x # xs \<Rightarrow> Some (Some x, q\<lparr>qu_queue := xs\<rparr>)))"

text \<open>\<open>timedOut\<close>: the wait for an element ended without one.\<close>

definition Queue_PopUntilTimeout :: "bool \<Rightarrow> 'a QueueUtil \<Rightarrow> (('a option) \<times> 'a QueueUtil) option" where
  "Queue_PopUntilTimeout timedOut q =
     (if \<not> qu_isAvailable q then Some (None, q)
      else (case qu_queue q of
          [] \<Rightarrow> if timedOut then Some (None, q) else None
        | x # xs \<Rightarrow> Some (Some x, q\<lparr>qu_queue := xs\<rparr>)))"

fun PopLen_loop :: "nat \<Rightarrow> 'a list \<Rightarrow> 'a list \<Rightarrow> 'a list \<times> 'a list" where
  "PopLen_loop n [] out = (out, [])"
| "PopLen_loop 0 (x # xs) out = (out, x # xs)"
| "PopLen_loop (Suc n) (x # xs) out = PopLen_loop n xs (out @ [x])"

definition Queue_PopLen :: "nat \<Rightarrow> 'a list \<Rightarrow> 'a QueueUtil \<Rightarrow> bool \<times> 'a list \<times> 'a QueueUtil" where
  "Queue_PopLen maxLen out q =
     (if \<not> qu_isAvailable q then (False, out, q)
      else (case PopLen_loop maxLen (qu_queue q) out of (out', rest) \<Rightarrow>
        (True, out', q\<lparr>qu_queue := rest\<rparr>)))"

definition Queue_Uninit :: "'a QueueUtil \<Rightarrow> 'a QueueUtil" where
  "Queue_Uninit q = q\<lparr>qu_capacity := 0, qu_queue := [], qu_isAvailable := False\<rparr>"

section \<open>MessageQueue\<close>

record 'm MessageQueue =
  mq_queue :: "'m list"
  mq_size :: nat

definition MessageQueue_new :: "nat \<Rightarrow> 'm MessageQueue" where
  "MessageQueue_new sz = \<lparr>mq_queue = [], mq_size = sz\<rparr>"

definition MQ_ReceiveMsg :: "'m MessageQueue \<Rightarrow> ('m \<times> 'm MessageQueue) option" where
  "MQ_ReceiveMsg q = (case mq_queue q of [] \<Rightarrow> None | x # xs \<Rightarrow> Some (x, q\<lparr>mq_queue := xs\<rparr>))"

definition MQ_SendMsg :: "'m option \<Rightarrow> 'm MessageQueue \<Rightarrow> bool \<times> 'm MessageQueue" where
  "MQ_SendMsg msg q =
     (if mq_size q \<le> length (mq_queue q) \<or> msg = None then (False, q)
      else (True, q\<lparr>mq_queue := mq_queue q @ [the msg]\<rparr>))"

definition MQ_Clear :: "'m MessageQueue \<Rightarrow> 'm MessageQueue" where
  "MQ_Clear q = q\<lparr>mq_queue := []\<rparr>"

section \<open>The contract\<close>

text \<open>Sending a list, and receiving up to \<open>n\<close> times, with any queue's operations.\<close>

definition send_all :: "('a \<Rightarrow> 'q \<Rightarrow> bool \<times> 'q) \<Rightarrow> 'a list \<Rightarrow> 'q \<Rightarrow> 'q" where
  "send_all put xs q = fold (\<lambda>x q. snd (put x q)) xs q"

fun receive_n :: "('q \<Rightarrow> ('a \<times> 'q) option) \<Rightarrow> nat \<Rightarrow> 'q \<Rightarrow> 'a list \<times> 'q" where
  "receive_n get 0 q = ([], q)"
| "receive_n get (Suc n) q = (case get q of None \<Rightarrow> ([], q) | Some (x, r) \<Rightarrow>
     (case receive_n get n r of (xs, s) \<Rightarrow> (x # xs, s)))"

locale bounded_fifo =
  fixes put :: "'a \<Rightarrow> 'q \<Rightarrow> bool \<times> 'q"
    and take :: "'q \<Rightarrow> ('a \<times> 'q) option"
    and content :: "'q \<Rightarrow> 'a list"
    and bound :: "'q \<Rightarrow> nat"
  assumes put_room: "length (content q) < bound q \<Longrightarrow> put x q = (b, r) \<Longrightarrow>
      b \<and> content r = content q @ [x] \<and> bound r = bound q"
    and put_full: "bound q \<le> length (content q) \<Longrightarrow> put x q = (False, q)"
    and take_None: "take q = None \<longleftrightarrow> content q = []"
    and take_Some: "take q = Some (x, r) \<Longrightarrow> content q = x # content r \<and> bound r = bound q"
begin

lemma put_bound: "length (content q) \<le> bound q \<Longrightarrow> length (content (snd (put x q))) \<le> bound (snd (put x q))"
proof (cases "length (content q) < bound q")
  case True
  obtain b r where p: "put x q = (b, r)" using prod.exhaust by blast
  show ?thesis using put_room [OF True p] True p by simp
qed (simp add: put_full)

lemma send_all_content:
  "length (content q) + length xs \<le> bound q \<Longrightarrow>
     content (send_all put xs q) = content q @ xs \<and> bound (send_all put xs q) = bound q"
proof (induction xs arbitrary: q)
  case (Cons x xs)
  obtain b r where p: "put x q = (b, r)" using prod.exhaust by blast
  have "length (content q) < bound q" using Cons.prems by simp
  from put_room [OF this p] Cons.IH [of r] Cons.prems p show ?case
    by (simp add: send_all_def)
qed (simp add: send_all_def)

lemma receive_n_content: "receive_n take n q = (xs, r) \<Longrightarrow> content q = xs @ content r \<and> length xs = min n (length (content q))"
proof (induction n arbitrary: q xs r)
  case (Suc n)
  show ?case
  proof (cases "take q")
    case None
    then show ?thesis using Suc.prems take_None [of q] by simp
  next
    case (Some p)
    obtain x s where p: "p = (x, s)" using prod.exhaust by blast
    obtain ys u where t: "receive_n take n s = (ys, u)" using prod.exhaust by blast
    have c: "content q = x # content s" using take_Some [of q x s] Some p by simp
    have "xs = x # ys" "r = u" using Suc.prems Some p t by simp_all
    then show ?thesis using Suc.IH [OF t] c by (metis append_Cons length_Cons min_Suc_Suc)
  qed
qed simp

text \<open>What is put in comes out, once each and in order.\<close>

lemma fifo_roundtrip:
  assumes "content q = []" "length xs \<le> bound q"
  shows "fst (receive_n take (length xs) (send_all put xs q)) = xs"
proof -
  obtain ys r where t: "receive_n take (length xs) (send_all put xs q) = (ys, r)" using prod.exhaust by blast
  have "content (send_all put xs q) = xs" using send_all_content [of q xs] assms by simp
  then have "xs = ys @ content r" "length ys = length xs" using receive_n_content [OF t] by simp_all
  then show ?thesis using t by simp
qed

end

text \<open>The non-waiting use of \<open>QueueUtil\<close> (audio frames) with its availability folded into the bound.\<close>

definition push_now :: "'a \<Rightarrow> 'a QueueUtil \<Rightarrow> bool \<times> 'a QueueUtil" where
  "push_now x q = (case Queue_Push x False q of Some r \<Rightarrow> r | None \<Rightarrow> (False, q))"

definition pop_now :: "'a QueueUtil \<Rightarrow> ('a \<times> 'a QueueUtil) option" where
  "pop_now q = (case Queue_PopUntilTimeout True q of Some (Some x, r) \<Rightarrow> Some (x, r) | _ \<Rightarrow> None)"

definition qu_content :: "'a QueueUtil \<Rightarrow> 'a list" where
  "qu_content q = (if qu_isAvailable q then qu_queue q else [])"

definition qu_bound :: "'a QueueUtil \<Rightarrow> nat" where
  "qu_bound q = (if qu_isAvailable q then qu_capacity q else 0)"

interpretation frames: bounded_fifo push_now pop_now qu_content qu_bound
  by unfold_locales
    (auto simp: push_now_def pop_now_def qu_content_def qu_bound_def Queue_Push_def Queue_PopUntilTimeout_def
      split: if_splits list.splits)

interpretation msgs: bounded_fifo "\<lambda>x. MQ_SendMsg (Some x)" MQ_ReceiveMsg mq_queue mq_size
  by unfold_locales (auto simp: MQ_SendMsg_def MQ_ReceiveMsg_def split: if_splits list.splits)

lemma PopLen_loop_eq: "PopLen_loop n xs out = (out @ List.take n xs, List.drop n xs)"
  by (induction n xs out rule: PopLen_loop.induct) auto

section \<open>Threads on a QueueUtil\<close>

text \<open>
  Producers and consumers interleaved on one queue, with the elements accepted so far, those handed
  out so far, the largest capacity given to \<open>Init\<close> since the last \<open>Uninit\<close>, and whether there was an
  \<open>Uninit\<close>. \<open>Init\<close> may come at any time. A blocked call makes no step.
\<close>

type_synonym 'a qsys = "'a QueueUtil \<times> 'a list \<times> 'a list \<times> nat \<times> bool"

inductive qu_step :: "'a qsys \<Rightarrow> 'a qsys \<Rightarrow> bool" where
  qs_push: "Queue_Push x w q = Some (True, r) \<Longrightarrow> qu_step (q, s, g, c) (r, s @ [x], g, c)"
| qs_refused: "Queue_Push x w q = Some (False, r) \<Longrightarrow> qu_step (q, s, g, c) (r, s, g, c)"
| qs_pop: "Queue_Pop q = Some (Some x, r) \<Longrightarrow> qu_step (q, s, g, c) (r, s, g @ [x], c)"
| qs_pop_end: "Queue_Pop q = Some (None, r) \<Longrightarrow> qu_step (q, s, g, c) (r, s, g, c)"
| qs_pop_time: "Queue_PopUntilTimeout b q = Some (Some x, r) \<Longrightarrow> qu_step (q, s, g, c) (r, s, g @ [x], c)"
| qs_timeout: "Queue_PopUntilTimeout b q = Some (None, r) \<Longrightarrow> qu_step (q, s, g, c) (r, s, g, c)"
| qs_pop_len: "Queue_PopLen n [] q = (b, xs, r) \<Longrightarrow> qu_step (q, s, g, c) (r, s, g @ xs, c)"
| qs_uninit: "qu_step (q, s, g, c) (Queue_Uninit q, s, g, 0, True)"
| qs_init: "qu_step (q, s, g, m, d) (snd (Queue_Init n q), s, g, max m n, d)"

inductive_cases qu_stepE: "qu_step x y"

abbreviation qu_start :: "'a qsys \<Rightarrow> bool" where
  "qu_start x \<equiv> x = (QueueUtil_new, [], [], 0, False)"

definition qu_inv :: "'a qsys \<Rightarrow> bool" where
  "qu_inv x \<longleftrightarrow> (case x of (q, s, g, m, d) \<Rightarrow>
     subseq (g @ qu_queue q) s \<and> (\<not> d \<longrightarrow> g @ qu_queue q = s) \<and> length (qu_queue q) \<le> m \<and> qu_capacity q \<le> m \<and>
     (\<not> qu_isAvailable q \<longrightarrow> qu_queue q = []))"

lemma subseq_snoc: "subseq xs ys \<Longrightarrow> subseq (xs @ [x]) (ys @ [x])"
  by (simp add: list_emb_append_mono)

lemma subseq_drop_end: "subseq (xs @ ys) zs \<Longrightarrow> subseq xs zs"
  by (rule subseq_order.trans [OF subseq_rev_drop_many [OF subseq_order.refl]])

lemma qu_inv_step: "qu_inv x \<Longrightarrow> qu_step x y \<Longrightarrow> qu_inv y"
proof (erule qu_stepE, goal_cases)
  case (1 a w q r s g)
  then have "subseq ((g @ qu_queue q) @ [a]) (s @ [a])"
    by (intro subseq_snoc) (auto simp: qu_inv_def split: prod.splits)
  then show ?case using 1 by (auto simp: qu_inv_def Queue_Push_def split: if_splits)
next
  case (8 q s g)
  then show ?case by (auto simp: qu_inv_def Queue_Uninit_def intro: subseq_drop_end)
qed (auto simp: qu_inv_def Queue_Push_def Queue_Pop_def Queue_PopUntilTimeout_def Queue_PopLen_def
    Queue_Init_def PopLen_loop_eq split: if_splits list.splits)

interpretation qsys: invariant_system qu_start qu_step qu_inv
proof
  show "qu_inv x" if "qu_start x" for x :: "'a qsys"
    using that by (simp add: qu_inv_def QueueUtil_new_def)
next
  show "qu_inv y" if "qu_inv x" "qu_step x y" for x y :: "'a qsys"
    using that by (rule qu_inv_step)
qed

section \<open>MsgHandleThread\<close>

definition MSQ_QUEUE_MAX_LEN :: nat where
  "MSQ_QUEUE_MAX_LEN = 100"

text \<open>
  A message with the flag that it carries a \<open>SynInfo\<close> (\<open>result_\<close> is set). The thread object's own state is
  \<open>'s\<close>; \<open>HandleMsg\<close> of the subclass is an argument.
\<close>

record 'm tmsg =
  tm_body :: 'm
  tm_sync :: bool

definition Thread_SendMsg :: "'m tmsg option \<Rightarrow> 'm tmsg MessageQueue \<Rightarrow> bool \<times> 'm tmsg MessageQueue" where
  "Thread_SendMsg msg q =
     (case msg of
        None \<Rightarrow> (False, q)
      | Some _ \<Rightarrow> (True, snd (MQ_SendMsg msg q)))"

text \<open>\<open>SendSynMsg\<close>: the message is queued with a fresh \<open>SynInfo\<close> under its lock; \<open>notified\<close> says whether the
  handling thread notified it before the time ran out.\<close>

definition SendSynMsg ::
  "bool \<Rightarrow> 'm tmsg option \<Rightarrow> 'm tmsg MessageQueue \<Rightarrow> bool \<times> 'm tmsg MessageQueue" where
  "SendSynMsg notified msg q =
     (case msg of
        None \<Rightarrow> (False, q)
      | Some x \<Rightarrow> (notified, snd (MQ_SendMsg (Some (x\<lparr>tm_sync := True\<rparr>)) q)))"

text \<open>
  \<open>Run\<close>: messages are handled in order until the handler asks to quit; the second component says
  whether the thread has ended (it sleeps in \<open>ReceiveMsg\<close> otherwise), the last lists the messages whose
  senders were notified.
\<close>

function Thread_Run ::
  "('m \<Rightarrow> 's \<Rightarrow> bool \<times> 's) \<Rightarrow> 's \<Rightarrow> 'm tmsg MessageQueue \<Rightarrow> 's \<times> bool \<times> 'm tmsg MessageQueue \<times> 'm tmsg list" where
  "Thread_Run h s q =
     (case MQ_ReceiveMsg q of
        None \<Rightarrow> (s, False, q, [])
      | Some (x, r) \<Rightarrow>
          (case h (tm_body x) s of (isQuit, s1) \<Rightarrow>
            if isQuit then (s1, True, r, if tm_sync x then [x] else [])
            else (case Thread_Run h s1 r of (s2, ended, r2, ns) \<Rightarrow>
              (s2, ended, r2, (if tm_sync x then [x] else []) @ ns))))"
  by pat_completeness auto
termination
  by (relation "measure (\<lambda>(h, s, q). length (mq_queue q))")
    (auto simp: MQ_ReceiveMsg_def split: list.splits)

declare Thread_Run.simps [simp del]

text \<open>What running means: the handler is folded over the messages up to the first that quits.\<close>

fun handle_list :: "('m \<Rightarrow> 's \<Rightarrow> bool \<times> 's) \<Rightarrow> 's \<Rightarrow> 'm tmsg list \<Rightarrow> 's \<times> bool \<times> 'm tmsg list \<times> 'm tmsg list" where
  "handle_list h s [] = (s, False, [], [])"
| "handle_list h s (x # xs) =
     (if fst (h (tm_body x) s) then (snd (h (tm_body x) s), True, xs, [x])
      else (case handle_list h (snd (h (tm_body x) s)) xs of (s2, e, rest, done) \<Rightarrow> (s2, e, rest, x # done)))"

lemma Thread_Run_list:
  "Thread_Run h s q =
     (case handle_list h s (mq_queue q) of (s2, e, rest, done) \<Rightarrow>
        (s2, e, q\<lparr>mq_queue := rest\<rparr>, filter tm_sync done))"
proof (induction h s q rule: Thread_Run.induct)
  case (1 h s q)
  show ?case
  proof (cases "mq_queue q")
    case Nil
    then show ?thesis by (simp add: Thread_Run.simps [of h s q] MQ_ReceiveMsg_def)
  next
    case (Cons x xs)
    then have r: "MQ_ReceiveMsg q = Some (x, q\<lparr>mq_queue := xs\<rparr>)" by (simp add: MQ_ReceiveMsg_def)
    obtain b s1 where h: "h (tm_body x) s = (b, s1)" using prod.exhaust by blast
    show ?thesis
      using 1 [OF r refl h [symmetric]] Cons r h
      by (auto simp: Thread_Run.simps [of h s q] split: prod.splits)
  qed
qed

lemma handle_list_split:
  "handle_list h s xs = (s2, e, rest, done) \<Longrightarrow> xs = done @ rest \<and> (\<not> e \<longrightarrow> rest = [])"
proof (induction h s xs arbitrary: s2 e rest "done" rule: handle_list.induct)
  case (2 h s x xs)
  then show ?case by (auto split: if_splits prod.splits)
qed simp

section \<open>TaskExecutor\<close>

record 't TaskExecutor =
  te_queue :: "'t QueueUtil"
  te_isRuning :: bool

definition TaskExecutor_new :: "nat \<Rightarrow> 't TaskExecutor" where
  "TaskExecutor_new capacity = \<lparr>te_queue = snd (Queue_Init capacity QueueUtil_new), te_isRuning = False\<rparr>"

definition StartThread :: "bool \<Rightarrow> 't TaskExecutor \<Rightarrow> 't TaskExecutor" where
  "StartThread created x = (if \<not> created then x else x\<lparr>te_isRuning := True\<rparr>)"

definition StopThread :: "'t TaskExecutor \<Rightarrow> 't TaskExecutor" where
  "StopThread x =
     (let y = x\<lparr>te_queue := Queue_Uninit (te_queue x)\<rparr> in
      if \<not> te_isRuning y then y else y\<lparr>te_isRuning := False\<rparr>)"

definition AddAsyncTask :: "'t \<Rightarrow> bool \<Rightarrow> 't TaskExecutor \<Rightarrow> 't TaskExecutor option" where
  "AddAsyncTask task isWait x =
     map_option (\<lambda>(_, q). x\<lparr>te_queue := q\<rparr>) (Queue_Push task isWait (te_queue x))"

text \<open>
  \<open>AddSyncTask\<close> pushes with waiting and then waits for the task's future whatever \<open>Push\<close> returned; the
  flag says whether the task was queued at all, that is, whether the future can become ready.
\<close>

definition AddSyncTask :: "'t \<Rightarrow> 't TaskExecutor \<Rightarrow> (bool \<times> 't TaskExecutor) option" where
  "AddSyncTask task x =
     map_option (\<lambda>(b, q). (b, x\<lparr>te_queue := q\<rparr>)) (Queue_Push task True (te_queue x))"

text \<open>One round of \<open>ExecuteInThread\<close>: \<open>None\<close> sleeps, \<open>Inl\<close> ends the thread, \<open>Inr\<close> runs the task.\<close>

definition ExecuteInThread :: "'t TaskExecutor \<Rightarrow> (unit + 't \<times> 't TaskExecutor) option" where
  "ExecuteInThread x =
     (case Queue_Pop (te_queue x) of
        None \<Rightarrow> None
      | Some (None, q) \<Rightarrow> Some (Inl ())
      | Some (Some t, q) \<Rightarrow> Some (Inr (t, x\<lparr>te_queue := q\<rparr>)))"

section \<open>Properties\<close>

text \<open>
  C40. Under every interleaving of producers, consumers, time-outs, shutdowns and (repeated) initialisations
  on a \<open>QueueUtil\<close>: what consumers have received, followed by what the queue holds, is a subsequence of
  what producers got accepted (nothing is invented, duplicated or reordered); until the first
  shutdown it is all of it (nothing is lost); and the queue never holds more than the largest capacity
  it was initialised with since the last shutdown.
\<close>

theorem queue_util_fifo:
  assumes "reach qu_start qu_step (q, sent, received, limit, closed)"
  shows "subseq (received @ qu_queue q) sent \<and> (\<not> closed \<longrightarrow> received @ qu_queue q = sent) \<and>
    length (qu_queue q) \<le> limit"
  using qsys.reach_inv [OF assms] by (simp add: qu_inv_def)

lemma queue_util_fifo_witness:
  "\<exists>q. reach qu_start qu_step (q, [7, 8 :: nat], [7], 2, False) \<and> [7] @ qu_queue q = [7, 8] \<and> length (qu_queue q) \<le> 2"
proof -
  note st = reach_step [where start = qu_start and step = qu_step]
  let ?q = "snd (Queue_Init 2 QueueUtil_new) :: nat QueueUtil"
  have "reach qu_start qu_step (QueueUtil_new :: nat QueueUtil, [], [], 0, False)" by (rule reach_start) simp
  from st [OF this qs_init [of _ _ _ _ _ 2]] have "reach qu_start qu_step (?q, [], [], max 0 2, False)" .
  from st [OF this qs_push [of 7 False ?q "?q\<lparr>qu_queue := [7]\<rparr>"]]
  have "reach qu_start qu_step (?q\<lparr>qu_queue := [7]\<rparr>, [] @ [7], [], max 0 2, False)"
    by (simp add: Queue_Push_def Queue_Init_def QueueUtil_new_def)
  from st [OF this qs_push [of 8 False _ "?q\<lparr>qu_queue := [7, 8]\<rparr>"]]
  have "reach qu_start qu_step (?q\<lparr>qu_queue := [7, 8]\<rparr>, ([] @ [7]) @ [8], [], max 0 2, False)"
    by (simp add: Queue_Push_def Queue_Init_def QueueUtil_new_def)
  from st [OF this qs_pop [of _ 7 "?q\<lparr>qu_queue := [8]\<rparr>"]]
  have r: "reach qu_start qu_step (?q\<lparr>qu_queue := [8]\<rparr>, [7, 8], [7], 2, False)"
    by (simp add: Queue_Pop_def Queue_Init_def QueueUtil_new_def)
  show ?thesis using queue_util_fifo [OF r] r by blast
qed

text \<open>
  \<open>MessageQueue\<close> and \<open>QueueUtil\<close> deliver: what is sent into an empty queue that has room for all of
  it is received once each, in the order sent.
\<close>

theorem queues_deliver_in_order:
  assumes "length xs \<le> n"
  shows "fst (receive_n MQ_ReceiveMsg (length xs) (send_all (\<lambda>x. MQ_SendMsg (Some x)) xs (MessageQueue_new n))) = xs \<and>
         fst (receive_n pop_now (length xs) (send_all push_now xs (snd (Queue_Init n QueueUtil_new)))) = xs"
  using msgs.fifo_roundtrip [of "MessageQueue_new n" xs] frames.fifo_roundtrip [of "snd (Queue_Init n QueueUtil_new)" xs] assms
  by (simp add: MessageQueue_new_def Queue_Init_def QueueUtil_new_def qu_content_def qu_bound_def)

lemma queues_deliver_in_order_witness:
  "fst (receive_n pop_now (length [1::nat, 2]) (send_all push_now [1::nat, 2] (snd (Queue_Init 2 QueueUtil_new)))) = [1, 2]"
  using conjunct2 [OF queues_deliver_in_order [of "[1::nat, 2]" 2]] by force

text \<open>
  The message thread handles the queued messages in order and stops at the first whose handler
  asks to quit; exactly the synchronous messages it handled are notified, and if it did not quit the
  queue is empty.
\<close>

theorem thread_runs_in_order:
  "\<exists>handled rest e s2. Thread_Run h s q = (s2, e, q\<lparr>mq_queue := rest\<rparr>, filter tm_sync handled) \<and>
     mq_queue q = handled @ rest \<and> (e \<or> rest = []) \<and>
     s2 = fold (\<lambda>x s. snd (h (tm_body x) s)) handled s"
proof -
  obtain s2 e rest handled where l: "handle_list h s (mq_queue q) = (s2, e, rest, handled)"
    using prod_cases4 by blast
  have "handle_list h s xs = (s2, e, rest, handled) \<Longrightarrow> s2 = fold (\<lambda>x s. snd (h (tm_body x) s)) handled s" for xs s
    by (induction h s xs arbitrary: s2 e rest handled rule: handle_list.induct)
      (auto split: if_splits prod.splits)
  then show ?thesis
    using l handle_list_split [OF l] by (auto simp: Thread_Run_list)
qed

section \<open>Deviations\<close>

text \<open>\<open>MsgHandleThread::SendMsg\<close> reports success for a message the full queue has dropped.\<close>

lemma thread_send_reports_dropped:
  "length (mq_queue q) = mq_size q \<Longrightarrow> Thread_SendMsg (Some x) q = (True, q)"
  by (simp add: Thread_SendMsg_def MQ_SendMsg_def)

text \<open>\<open>AddSyncTask\<close> after \<open>StopThread\<close>: the task is not queued, and the caller waits for its future.\<close>

lemma sync_task_after_stop: "AddSyncTask task (StopThread x) = Some (False, StopThread x)"
  by (auto simp: AddSyncTask_def StopThread_def Queue_Push_def Queue_Uninit_def Let_def)

end
