(* ===== verification/Audio_Util.thy ===== *)
theory Audio_Util
  imports IV_Prelude
begin

text \<open>
  Buffers and audio data: \<open>ArrayBufferUtil\<close>, \<open>PcmBuffer\<close> and the splitting of interleaved samples in
  \<open>IntellVoiceUtil::DeinterleaveAudioData\<close>. Samples are 16-bit words, stored low byte first.
\<close>

type_synonym bytes = "8 word list"

section \<open>ArrayBufferUtil\<close>

text \<open>\<open>data\<close> null gives zeros; a size of zero gives no buffer.\<close>

definition CreateArrayBuffer :: "nat \<Rightarrow> bytes option \<Rightarrow> bytes option" where
  "CreateArrayBuffer sz data =
     (if sz = 0 then None
      else (case data of None \<Rightarrow> Some (replicate sz 0) | Some d \<Rightarrow> Some (take sz d)))"

section \<open>PcmBuffer\<close>

text \<open>Sizes are \<open>size_t\<close>, 64 bits; the sum in the check of \<open>Write\<close> wraps.\<close>

record PcmBuffer =
  pb_capacity :: "64 word"
  pb_buffer :: bytes
  pb_writePos :: "64 word"

definition PcmBuffer_new :: "64 word \<Rightarrow> PcmBuffer" where
  "PcmBuffer_new capacity = \<lparr>pb_capacity = capacity, pb_buffer = replicate (unat capacity) 0, pb_writePos = 0\<rparr>"

text \<open>\<open>memcpy_s\<close> clears the destination when it is too small for the source.\<close>

definition Pcm_Write :: "bytes option \<Rightarrow> 64 word \<Rightarrow> PcmBuffer \<Rightarrow> bool \<times> PcmBuffer" where
  "Pcm_Write data len b =
     (case data of
        None \<Rightarrow> (False, b)
      | Some d \<Rightarrow>
          if len = 0 \<or> pb_capacity b < pb_writePos b + len then (False, b)
          else let pos = unat (pb_writePos b);
                   buf = (if len \<le> pb_capacity b - pb_writePos b
                          then take pos (pb_buffer b) @ take (unat len) d @ drop (pos + unat len) (pb_buffer b)
                          else take pos (pb_buffer b) @ replicate (unat (pb_capacity b - pb_writePos b)) 0)
               in (True, b\<lparr>pb_buffer := buf, pb_writePos := pb_writePos b + len\<rparr>))"

definition Pcm_Clear :: "PcmBuffer \<Rightarrow> bool \<times> PcmBuffer" where
  "Pcm_Clear b = (True, b\<lparr>pb_writePos := 0, pb_buffer := replicate (unat (pb_capacity b)) 0\<rparr>)"

text \<open>What \<open>SaveToFile\<close> writes without encryption.\<close>

definition Pcm_saved :: "PcmBuffer \<Rightarrow> bytes option" where
  "Pcm_saved b = (if pb_writePos b = 0 then None else Some (take (unat (pb_writePos b)) (pb_buffer b)))"

section \<open>DeinterleaveAudioData\<close>

definition sample_bytes :: "16 word \<Rightarrow> bytes" where
  "sample_bytes w = [ucast w, ucast (drop_bit 8 w)]"

text \<open>\<open>size / channelCnt\<close> is an unsigned division: a negative count is a large divisor.\<close>

definition channel_len :: "nat \<Rightarrow> int \<Rightarrow> nat" where
  "channel_len sz channelCnt = sz div nat (channelCnt mod 2 ^ 32)"

definition channel_bytes :: "16 word list \<Rightarrow> nat \<Rightarrow> nat \<Rightarrow> nat \<Rightarrow> bytes" where
  "channel_bytes buffer n len i = concat (map (\<lambda>j. sample_bytes (buffer ! (i + j * n))) [0 ..< len])"

definition DeinterleaveAudioData :: "16 word list \<Rightarrow> int \<Rightarrow> bytes list option" where
  "DeinterleaveAudioData buffer channelCnt =
     (if channelCnt = 0 then None
      else Some (map (channel_bytes buffer (nat channelCnt) (channel_len (length buffer) channelCnt))
                   [0 ..< nat channelCnt]))"

section \<open>Properties\<close>

text \<open>Interleaving \<open>n\<close> channels of \<open>len\<close> samples.\<close>

definition interleave :: "nat \<Rightarrow> 16 word list list \<Rightarrow> 16 word list" where
  "interleave len chans = concat (map (\<lambda>j. map (\<lambda>c. c ! j) chans) [0 ..< len])"

lemma length_interleave: "length (interleave len chans) = len * length chans"
  by (simp add: interleave_def length_concat comp_def sum_list_triv)

lemma nth_concat_uniform:
  "j < length xss \<Longrightarrow> (\<And>xs. xs \<in> set xss \<Longrightarrow> length xs = n) \<Longrightarrow> i < n \<Longrightarrow> concat xss ! (i + j * n) = xss ! j ! i"
proof (induction xss arbitrary: j)
  case (Cons xs xss)
  show ?case
  proof (cases j)
    case 0
    then show ?thesis using Cons.prems by (simp add: nth_append)
  next
    case (Suc k)
    have "concat (xs # xss) ! (i + j * n) = concat xss ! (i + k * n)"
      using Cons.prems(2) [of xs] Suc by (simp add: nth_append)
    then show ?thesis using Cons.IH [of k] Cons.prems Suc by simp
  qed
qed simp

lemma nth_interleave:
  assumes "i < length chans" "j < len"
  shows "interleave len chans ! (i + j * length chans) = chans ! i ! j"
proof -
  have "interleave len chans ! (i + j * length chans) = map (\<lambda>j. map (\<lambda>c. c ! j) chans) [0 ..< len] ! j ! i"
    unfolding interleave_def using assms by (intro nth_concat_uniform) auto
  then show ?thesis using assms by simp
qed

text \<open>
  Splitting interleaved samples recovers the channels: for any number of channels (below the
  32-bit limit) of equal length, the result has one entry per channel, and it is exactly that
  channel's samples as bytes.
\<close>

theorem deinterleave_roundtrip:
  assumes "0 < length chans" "length chans < 2 ^ 31" "list_all (\<lambda>c. length c = len) chans"
  shows "DeinterleaveAudioData (interleave len chans) (int (length chans)) =
         Some (map (\<lambda>c. concat (map sample_bytes c)) chans)"
proof -
  let ?n = "length chans"
  have "int ?n mod 2 ^ 32 = int ?n" using assms(2) by (intro mod_pos_pos_trivial) auto
  then have len: "channel_len (length (interleave len chans)) (int ?n) = len"
    using assms(1) by (simp only: channel_len_def length_interleave) simp
  have "channel_bytes (interleave len chans) ?n len i = concat (map sample_bytes (chans ! i))" if "i < ?n" for i
  proof -
    have l: "length (chans ! i) = len" using assms(3) that by (auto simp: list_all_length)
    have "map (\<lambda>j. sample_bytes (interleave len chans ! (i + j * ?n))) [0 ..< len] =
        map sample_bytes (map (\<lambda>j. chans ! i ! j) [0 ..< len])"
      using that by (auto simp: nth_interleave)
    also have "map (\<lambda>j. chans ! i ! j) [0 ..< len] = chans ! i"
      using l by (metis map_nth)
    finally show ?thesis by (simp add: channel_bytes_def)
  qed
  then have "map (channel_bytes (interleave len chans) ?n len) [0 ..< ?n] =
      map (\<lambda>i. concat (map sample_bytes (chans ! i))) [0 ..< ?n]" by auto
  also have "\<dots> = map (\<lambda>c. concat (map sample_bytes c)) chans"
    by (rule nth_equalityI) auto
  finally show ?thesis using assms(1) len by (simp add: DeinterleaveAudioData_def)
qed

lemma deinterleave_roundtrip_witness:
  "DeinterleaveAudioData (interleave 2 [[1, 2], [3, 4]]) 2 =
     Some [concat (map sample_bytes [1, 2]), concat (map sample_bytes [3, 4])]"
  using deinterleave_roundtrip [of "[[1, 2], [3, 4]]" 2] by simp

text \<open>The invariant of \<open>PcmBuffer\<close>.\<close>

definition pcm_ok :: "PcmBuffer \<Rightarrow> bool" where
  "pcm_ok b \<longleftrightarrow> length (pb_buffer b) = unat (pb_capacity b) \<and> pb_writePos b \<le> pb_capacity b"

text \<open>
  As long as the lengths do not wrap \<open>size_t\<close>, what was written can be saved: a write that fits
  appends exactly the given bytes to what would be saved and keeps the buffer's size; a write that
  does not fit changes nothing.
\<close>

theorem pcm_write_appends:
  assumes "pcm_ok b" "length d = unat len" "0 < len"
    and "unat (pb_writePos b) + unat len < 2 ^ 64"
  shows "Pcm_Write (Some d) len b =
     (if unat (pb_writePos b) + unat len \<le> unat (pb_capacity b)
      then (True, b\<lparr>pb_buffer := take (unat (pb_writePos b)) (pb_buffer b) @ d @
                      drop (unat (pb_writePos b) + unat len) (pb_buffer b),
                    pb_writePos := pb_writePos b + len\<rparr>)
      else (False, b)) \<and>
     pcm_ok (snd (Pcm_Write (Some d) len b)) \<and>
     (fst (Pcm_Write (Some d) len b) \<longrightarrow>
        Pcm_saved (snd (Pcm_Write (Some d) len b)) = Some (take (unat (pb_writePos b)) (pb_buffer b) @ d))"
proof -
  have sum: "unat (pb_writePos b + len) = unat (pb_writePos b) + unat len"
    using assms(4) by (simp add: unat_add_lem [symmetric])
  have le: "unat (pb_writePos b) \<le> unat (pb_capacity b)"
    using assms(1) by (simp add: pcm_ok_def word_le_nat_alt)
  have "unat (pb_capacity b - pb_writePos b) = unat (pb_capacity b) - unat (pb_writePos b)"
    using assms(1) by (simp add: pcm_ok_def unat_sub)
  then have fit: "len \<le> pb_capacity b - pb_writePos b \<longleftrightarrow>
      unat (pb_writePos b) + unat len \<le> unat (pb_capacity b)"
    using le by (auto simp: word_le_nat_alt)
  have cap: "pb_capacity b < pb_writePos b + len \<longleftrightarrow> \<not> unat (pb_writePos b) + unat len \<le> unat (pb_capacity b)"
    by (simp add: word_less_nat_alt sum not_le)
  have "0 < unat len" using assms(3) by (simp add: word_less_nat_alt)
  then have pos: "len \<noteq> 0" "pb_writePos b + len \<noteq> 0"
    using assms(3) sum by (auto simp: unat_eq_zero [symmetric])
  have len_b: "length (pb_buffer b) = unat (pb_capacity b)" using assms(1) by (simp add: pcm_ok_def)
  have w: "Pcm_Write (Some d) len b =
     (if unat (pb_writePos b) + unat len \<le> unat (pb_capacity b)
      then (True, b\<lparr>pb_buffer := take (unat (pb_writePos b)) (pb_buffer b) @ d @
                      drop (unat (pb_writePos b) + unat len) (pb_buffer b),
                    pb_writePos := pb_writePos b + len\<rparr>)
      else (False, b))"
    using assms(2) pos cap fit by (auto simp: Pcm_Write_def Let_def)
  show ?thesis
    unfolding w using assms(1,2) len_b le sum pos
    by (auto simp: pcm_ok_def Pcm_saved_def word_le_nat_alt min_def)
qed

lemma pcm_write_appends_witness:
  "Pcm_saved (snd (Pcm_Write (Some [1, 2]) 2 (PcmBuffer_new 4))) = Some [1, 2]"
  using pcm_write_appends [of "PcmBuffer_new 4" "[1, 2]" 2]
  by (auto simp: PcmBuffer_new_def pcm_ok_def)

section \<open>Deviations\<close>

text \<open>The check of \<open>Write\<close> adds before it compares: a length near the limit of \<open>size_t\<close> passes, and the
  write position moves back.\<close>

lemma pcm_write_wraps:
  assumes "Pcm_Write (Some [1]) 1 (PcmBuffer_new 4) = (True, b)"
  shows "\<exists>c. Pcm_Write (Some d) (- 1) b = (True, c) \<and> pb_writePos c = 0"
  using assms by (auto simp: Pcm_Write_def PcmBuffer_new_def Let_def)

end
