(* ===== verification/Wakeup_Source.thy ===== *)
theory Wakeup_Source
  imports Queues Audio_Util
begin

text \<open>
  \<open>services/intell_voice_engine/server/wakeup/wakeup_source_process.cpp\<close>: the audio of a wake-up, one
  frame queue per channel, written by the capturer thread and read by the client. The debug files
  are left out. \<open>arrive ch\<close> is the frame that comes in while a read waits on channel \<open>ch\<close>, \<open>None\<close> when the
  wait times out.
\<close>

definition FRAME_CNT :: nat where
  "FRAME_CNT = 100"

record WakeupSourceProcess =
  ws_readBufferPCM :: bool
  ws_channelCnt :: nat
  ws_bufferQueue :: "bytes QueueUtil list"

definition WakeupSource_new :: WakeupSourceProcess where
  "WakeupSource_new = \<lparr>ws_readBufferPCM = False, ws_channelCnt = 0, ws_bufferQueue = []\<rparr>"

definition SetReadBufferFlag :: "bool \<Rightarrow> WakeupSourceProcess \<Rightarrow> WakeupSourceProcess" where
  "SetReadBufferFlag readBuffer w = w\<lparr>ws_readBufferPCM := readBuffer\<rparr>"

definition WakeupSource_Release :: "WakeupSourceProcess \<Rightarrow> WakeupSourceProcess" where
  "WakeupSource_Release w = w\<lparr>ws_bufferQueue := [], ws_channelCnt := 0\<rparr>"

definition WakeupSource_Init :: "nat \<Rightarrow> WakeupSourceProcess \<Rightarrow> WakeupSourceProcess" where
  "WakeupSource_Init channelCnt w =
     (let w1 = (if ws_channelCnt w \<noteq> 0 then WakeupSource_Release w else w) in
      w1\<lparr>ws_bufferQueue := ws_bufferQueue w1 @ replicate channelCnt (snd (Queue_Init MAX_CAPACITY QueueUtil_new)),
         ws_channelCnt := channelCnt\<rparr>)"

definition WriteChannelData :: "bytes \<Rightarrow> nat \<Rightarrow> WakeupSourceProcess \<Rightarrow> WakeupSourceProcess" where
  "WriteChannelData channelData channelId w =
     (if length (ws_bufferQueue w) \<le> channelId then w
      else (case CreateArrayBuffer (length channelData) (Some channelData) of
          None \<Rightarrow> w
        | Some a \<Rightarrow> w\<lparr>ws_bufferQueue := (ws_bufferQueue w)
              [channelId := snd (push_now a (ws_bufferQueue w ! channelId))]\<rparr>))"

definition WakeupSource_Write :: "bytes list \<Rightarrow> WakeupSourceProcess \<Rightarrow> WakeupSourceProcess" where
  "WakeupSource_Write audioData w =
     (if length audioData \<noteq> ws_channelCnt w \<or> length (ws_bufferQueue w) \<noteq> ws_channelCnt w then w
      else if ws_channelCnt w = 1 then WriteChannelData (audioData ! 0) 0 w
      else if ws_channelCnt w = 4
      then WriteChannelData (audioData ! 3) 3 (WriteChannelData (audioData ! 2) 2
             (WriteChannelData (audioData ! 1) 1 (WriteChannelData (audioData ! 0) 0 w)))
      else w)"

text \<open>\<open>AddMultiFrame\<close> returns the number of frames it appended.\<close>

definition AddMultiFrame ::
  "bytes \<Rightarrow> nat \<Rightarrow> nat \<Rightarrow> WakeupSourceProcess \<Rightarrow> nat \<times> bytes \<times> WakeupSourceProcess" where
  "AddMultiFrame channelData channelId frameLen w =
     (case Queue_PopLen frameLen [] (ws_bufferQueue w ! channelId) of (_, frameList, q) \<Rightarrow>
        (length frameList, channelData @ concat frameList,
         w\<lparr>ws_bufferQueue := (ws_bufferQueue w)[channelId := q]\<rparr>))"

definition ReadBufferedData ::
  "bytes \<Rightarrow> nat \<Rightarrow> WakeupSourceProcess \<Rightarrow> bytes \<times> WakeupSourceProcess" where
  "ReadBufferedData channelData channelId w =
     (if channelId \<noteq> 0
      then (case AddMultiFrame channelData 0 FRAME_CNT w of (frameLen, data1, w1) \<Rightarrow>
              (case AddMultiFrame data1 channelId frameLen w1 of (_, data2, w2) \<Rightarrow> (data2, w2)))
      else (case AddMultiFrame channelData channelId FRAME_CNT w of (_, data1, w1) \<Rightarrow> (data1 @ data1, w1)))"

definition ReadChannelData ::
  "(nat \<Rightarrow> bytes option) \<Rightarrow> bytes \<Rightarrow> nat \<Rightarrow> WakeupSourceProcess \<Rightarrow> (bytes option) \<times> WakeupSourceProcess" where
  "ReadChannelData arrive channelData channelId w =
     (if length (ws_bufferQueue w) \<le> channelId then (None, w)
      else if ws_readBufferPCM w
      then (case ReadBufferedData channelData channelId w of (data1, w1) \<Rightarrow>
              (Some data1, w1\<lparr>ws_readBufferPCM := False\<rparr>))
      else (case Queue_PopUntilTimeout True (ws_bufferQueue w ! channelId) of
          Some (Some frame, q) \<Rightarrow> (Some (channelData @ frame), w\<lparr>ws_bufferQueue := (ws_bufferQueue w)[channelId := q]\<rparr>)
        | _ \<Rightarrow> (case (if qu_isAvailable (ws_bufferQueue w ! channelId) then arrive channelId else None) of
            None \<Rightarrow> (None, w)
          | Some frame \<Rightarrow> (Some (channelData @ frame), w))))"

fun Read_loop ::
  "(nat \<Rightarrow> bytes option) \<Rightarrow> int \<Rightarrow> nat list \<Rightarrow> bytes \<Rightarrow> WakeupSourceProcess \<Rightarrow> int \<times> bytes \<times> WakeupSourceProcess" where
  "Read_loop arrive readChannel [] data w = (0, data, w)"
| "Read_loop arrive readChannel (i # is) data w =
     (if \<not> bit readChannel i then Read_loop arrive readChannel is data w
      else (case ReadChannelData arrive data i w of
          (None, w1) \<Rightarrow> (-1, data, w1)
        | (Some data1, w1) \<Rightarrow> Read_loop arrive readChannel is data1 w1))"

definition WakeupSource_Read ::
  "(nat \<Rightarrow> bytes option) \<Rightarrow> bytes \<Rightarrow> int \<Rightarrow> WakeupSourceProcess \<Rightarrow> int \<times> bytes \<times> WakeupSourceProcess" where
  "WakeupSource_Read arrive data readChannel w =
     (if readChannel = 0 \<or> 2 ^ 4 \<le> readChannel then (-1, data, w)
      else Read_loop arrive readChannel [0 ..< 4] data w)"

section \<open>Properties\<close>

definition open_queue :: "bytes list \<Rightarrow> bytes QueueUtil" where
  "open_queue fs = \<lparr>qu_queue = fs, qu_capacity = MAX_CAPACITY, qu_isAvailable = True\<rparr>"

text \<open>A source of \<open>n\<close> channels whose queues hold the given frames.\<close>

definition source_with :: "bytes list list \<Rightarrow> WakeupSourceProcess" where
  "source_with fss = \<lparr>ws_readBufferPCM = False, ws_channelCnt = length fss, ws_bufferQueue = map open_queue fss\<rparr>"

lemma Init_source: "WakeupSource_Init n WakeupSource_new = source_with (replicate n [])"
  by (simp add: WakeupSource_Init_def WakeupSource_new_def source_with_def Queue_Init_def QueueUtil_new_def
      open_queue_def)

lemma WriteChannelData_source:
  assumes "i < length fss" "f \<noteq> []" "length (fss ! i) < MAX_CAPACITY"
  shows "WriteChannelData f i (source_with fss) = source_with (fss[i := fss ! i @ [f]])"
  using assms
  by (simp add: WriteChannelData_def CreateArrayBuffer_def source_with_def push_now_def Queue_Push_def
      open_queue_def map_update)

lemma ReadChannelData_source:
  assumes "i < length fss" "fss ! i = f # fs"
  shows "ReadChannelData arrive out i (source_with fss) = (Some (out @ f), source_with (fss[i := fs]))"
  using assms
  by (simp add: ReadChannelData_def source_with_def Queue_PopUntilTimeout_def open_queue_def map_update)

text \<open>
  What the capturer writes is what the client reads: in a source with four channels, after one
  frame per channel was written, a read of any non-empty set of channels (the bits of the argument)
  returns the frames of exactly those channels in channel order, and leaves the other channels'
  frames for later reads.
\<close>

theorem source_write_read:
  assumes "frames = [f0, f1, f2, f3]" "[] \<notin> set frames" "0 < c" "c < 16"
  shows "WakeupSource_Read arrive [] c (WakeupSource_Write frames (WakeupSource_Init 4 WakeupSource_new)) =
     (0, concat (map (\<lambda>i. if bit c i then frames ! i else []) [0 ..< 4]),
      source_with (map (\<lambda>i. if bit c i then [] else [frames ! i]) [0 ..< 4]))"
proof -
  have ne: "f0 \<noteq> []" "f1 \<noteq> []" "f2 \<noteq> []" "f3 \<noteq> []" using assms(1,2) by auto
  have four: "replicate 4 ([] :: bytes list) = [[], [], [], []]" by (simp add: numeral_eq_Suc)
  have cap: "0 < MAX_CAPACITY" by (simp add: MAX_CAPACITY_def)
  have w: "WakeupSource_Write frames (WakeupSource_Init 4 WakeupSource_new) = source_with [[f0], [f1], [f2], [f3]]"
    unfolding Init_source four assms(1)
    by (simp add: WakeupSource_Write_def source_with_def [of "[[], [], [], []]"])
      (simp add: source_with_def [symmetric, of "[[], [], [], []]", simplified] WriteChannelData_source ne cap)
  have u: "[0 ..< 4] = [0, 1, 2, 3 :: nat]" by (simp add: upt_rec)
  show ?thesis
    unfolding w WakeupSource_Read_def u
    using assms(3,4) by (simp add: ReadChannelData_source assms(1))
qed

lemma source_write_read_witness:
  "fst (snd (WakeupSource_Read (\<lambda>_. None) [] 5
     (WakeupSource_Write [[1], [2], [3], [4]] (WakeupSource_Init 4 WakeupSource_new)))) = [1, 3]"
  using source_write_read [of "[[1], [2], [3], [4]]" "[1]" "[2]" "[3]" "[4]" 5 "\<lambda>_. None"]
  by (simp add: upt_rec bit_numeral_rec)

end
