(* ===== verification/Audio_Source.thy ===== *)
theory Audio_Source
  imports Audio_Util
begin

text \<open>
  \<open>services/intell_voice_engine/server/base/audio_source.cpp\<close>: the thread that reads fixed-size blocks
  from an audio capturer and hands them to a listener. The capturer belongs to the audio framework;
  its answers are arguments and \<open>as_capturer\<close> says whether one is held (it is then started). The debug file and the
  choice of the thread implementation are left out.
\<close>

section \<open>Model\<close>

record AudioSource =
  as_minBufferSize :: nat
  as_bufferCnt :: nat
  as_listener :: bool
  as_isReading :: bool
  as_isEnd :: bool
  as_thread :: bool
  as_capturer :: bool

definition AudioSource_new :: "nat \<Rightarrow> nat \<Rightarrow> bool \<Rightarrow> AudioSource" where
  "AudioSource_new minBufferSize bufferCnt listener =
     \<lparr>as_minBufferSize = minBufferSize, as_bufferCnt = bufferCnt, as_listener = listener, as_isReading = False,
      as_isEnd = False, as_thread = False, as_capturer = False\<rparr>"

text \<open>\<open>created\<close>: \<open>AudioCapturer::Create\<close> returned a capturer; \<open>started\<close>: its \<open>Start\<close> succeeded.\<close>

definition AudioSource_Start :: "bool \<Rightarrow> bool \<Rightarrow> AudioSource \<Rightarrow> bool \<times> AudioSource" where
  "AudioSource_Start created started a =
     (if \<not> as_listener a then (False, a)
      else if as_minBufferSize a = 0 then (False, a)
      else if \<not> created then (False, a\<lparr>as_capturer := False\<rparr>)
      else if \<not> started then (False, a\<lparr>as_capturer := False\<rparr>)
      else (True, a\<lparr>as_capturer := True, as_isReading := True, as_thread := True\<rparr>))"

definition AudioSource_Stop :: "AudioSource \<Rightarrow> AudioSource" where
  "AudioSource_Stop a =
     (if \<not> as_isReading a then a
      else let a1 = a\<lparr>as_isReading := False, as_thread := False\<rparr> in
        (if \<not> as_capturer a1 then a1 else a1\<lparr>as_capturer := False, as_listener := False\<rparr>))"

datatype source_event = readBufferCb bytes bool | bufferEndCb

text \<open>One \<open>Read\<close>: what the capturer put into the buffer, of which the length must be the block size.\<close>

definition AudioSource_Read :: "bytes \<Rightarrow> AudioSource \<Rightarrow> bool \<times> source_event list" where
  "AudioSource_Read got a =
     (if length got \<noteq> as_minBufferSize a then (False, [])
      else (True, if as_listener a then [readBufferCb got (as_isEnd a)] else []))"

text \<open>
  \<open>Run\<close> over what the capturer delivers until \<open>Stop\<close> clears the flag (the end of the list). The counter
  is an \<open>uint32_t\<close>.
\<close>

fun SourceRun_loop :: "bytes list \<Rightarrow> 32 word \<Rightarrow> AudioSource \<Rightarrow> source_event list" where
  "SourceRun_loop [] readCnt a = []"
| "SourceRun_loop (got # gots) readCnt a =
     (let fin = (\<not> as_isEnd a \<and> unat readCnt = as_bufferCnt a);
          a1 = (if fin then a\<lparr>as_isEnd := True\<rparr> else a);
          evs = (if fin \<and> as_listener a then [bufferEndCb] else [])
      in case AudioSource_Read got a1 of
           (False, _) \<Rightarrow> evs
         | (True, cbs) \<Rightarrow> evs @ cbs @ SourceRun_loop gots (readCnt + 1) a1)"

definition AudioSource_Run :: "bytes list \<Rightarrow> AudioSource \<Rightarrow> source_event list" where
  "AudioSource_Run gots a = SourceRun_loop gots 0 (a\<lparr>as_isEnd := False\<rparr>)"

section \<open>Properties\<close>

lemma SourceRun_loop_after_end:
  "as_listener a \<Longrightarrow> as_isEnd a \<Longrightarrow> list_all (\<lambda>g. length g = as_minBufferSize a) gots \<Longrightarrow>
     SourceRun_loop gots n a = map (\<lambda>g. readBufferCb g True) gots"
  by (induction gots arbitrary: n) (auto simp: AudioSource_Read_def)

lemma SourceRun_loop_before_end:
  assumes "as_listener a" "\<not> as_isEnd a" "as_bufferCnt a < 2 ^ 32"
  shows "n \<le> as_bufferCnt a \<Longrightarrow> list_all (\<lambda>g. length g = as_minBufferSize a) gots \<Longrightarrow>
     SourceRun_loop gots (of_nat n) a =
       (let k = as_bufferCnt a - n in
        map (\<lambda>g. readBufferCb g False) (take k gots) @ (if k < length gots then [bufferEndCb] else []) @
        map (\<lambda>g. readBufferCb g True) (drop k gots))"
proof (induction gots arbitrary: n)
  case (Cons g gs)
  have un: "unat (of_nat n :: 32 word) = n" using Cons.prems(1) assms(3) by (simp add: unsigned_of_nat take_bit_nat_eq_self)
  have suc: "(of_nat n :: 32 word) + 1 = of_nat (Suc n)" by simp
  show ?case
  proof (cases "n = as_bufferCnt a")
    case True
    then show ?thesis
      using Cons.prems(2) assms(1,2) un
      by (simp add: AudioSource_Read_def SourceRun_loop_after_end)
  next
    case False
    then have k: "as_bufferCnt a - n = Suc (as_bufferCnt a - Suc n)" using Cons.prems(1) by simp
    have "SourceRun_loop gs (of_nat (Suc n)) a =
       (let k = as_bufferCnt a - Suc n in
        map (\<lambda>g. readBufferCb g False) (take k gs) @ (if k < length gs then [bufferEndCb] else []) @
        map (\<lambda>g. readBufferCb g True) (drop k gs))"
      using Cons.prems False by (intro Cons.IH) auto
    then show ?thesis
      using Cons.prems(2) False assms(1,2) un k
      by (simp add: AudioSource_Read_def Let_def del: of_nat_Suc) (simp add: add.commute)
  qed
qed simp

text \<open>
  The reader hands every full block to the listener, in order: the first \<open>bufferCnt\<close> blocks as
  not yet complete, then the end notification, once however long the reading goes on, then the
  remaining blocks as after the end.
\<close>

theorem source_run_order:
  assumes "as_listener a" "as_bufferCnt a < 2 ^ 32" "list_all (\<lambda>g. length g = as_minBufferSize a) gots"
  shows "AudioSource_Run gots a =
    map (\<lambda>g. readBufferCb g False) (take (as_bufferCnt a) gots) @
    (if as_bufferCnt a < length gots then [bufferEndCb] else []) @
    map (\<lambda>g. readBufferCb g True) (drop (as_bufferCnt a) gots)"
  using SourceRun_loop_before_end [of "a\<lparr>as_isEnd := False\<rparr>" 0 gots] assms
  by (simp add: AudioSource_Run_def Let_def)

lemma source_run_order_witness:
  "AudioSource_Run [[1], [2], [3]] (AudioSource_new 1 2 True) =
     [readBufferCb [1] False, readBufferCb [2] False, bufferEndCb, readBufferCb [3] True]"
  using source_run_order [of "AudioSource_new 1 2 True" "[[1], [2], [3]]"]
  by (simp add: AudioSource_new_def)

text \<open>What every operation keeps: the thread runs and the capturer is started exactly while reading.\<close>

definition source_ok :: "AudioSource \<Rightarrow> bool" where
  "source_ok a \<longleftrightarrow> (as_isReading a \<longrightarrow> as_thread a \<and> as_capturer a) \<and>
     (\<not> as_isReading a \<longrightarrow> \<not> as_thread a \<and> \<not> as_capturer a)"

lemma source_ok_new [simp]: "source_ok (AudioSource_new m n l)"
  by (simp add: source_ok_def AudioSource_new_def)

lemma source_ok_Stop: "source_ok a \<Longrightarrow> source_ok (AudioSource_Stop a) \<and> \<not> as_isReading (AudioSource_Stop a)"
  by (auto simp: source_ok_def AudioSource_Stop_def)

lemma Start_new:
  "AudioSource_Start c s (AudioSource_new m n True) =
     (if m \<noteq> 0 \<and> c \<and> s then (True, (AudioSource_new m n True)\<lparr>as_capturer := True, as_isReading := True,
        as_thread := True\<rparr>) else (False, AudioSource_new m n True))"
  by (auto simp: AudioSource_Start_def AudioSource_new_def)

end
