(* ===== verification/OnlyFirst_Engine.thy ===== *)
theory OnlyFirst_Engine
  imports Engine_Frame Wakeup_Source String_Util Audio_Source
begin

text \<open>
  The single-level wake-up engine, \<open>services/intell_voice_engine/server/wakeup/only_first\<close>: a subclass of
  the state machine with four states and two timeouts, built on the wake-up source and the audio
  source. \<open>es_world\<close> holds the answers of the surroundings (audio framework, permission check); they
  may change between any two steps. \<open>es_out\<close> stands for the object \<open>msg.outMsg\<close> points to.
  Logging, \<open>setpriority\<close> and \<open>StartAbility\<close> are left out; allocations by \<open>make_unique\<close> and
  \<open>make_shared\<close> do not return null.
\<close>

section \<open>Data\<close>

datatype EngineEvent = INIT | INIT_DONE | START_RECOGNIZE | START_CAPTURER | READ | STOP_CAPTURER
  | READ_CAPTURER_TIMEOUT | GET_PARAM | RELEASE | RECOGNIZE_COMPLETE_TIMEOUT | RECORD_START

fun event_id :: "EngineEvent \<Rightarrow> int" where
  "event_id INIT = 0"
| "event_id INIT_DONE = 1"
| "event_id START_RECOGNIZE = 2"
| "event_id START_CAPTURER = 3"
| "event_id READ = 4"
| "event_id STOP_CAPTURER = 5"
| "event_id READ_CAPTURER_TIMEOUT = 6"
| "event_id GET_PARAM = 7"
| "event_id RELEASE = 8"
| "event_id RECOGNIZE_COMPLETE_TIMEOUT = 9"
| "event_id RECORD_START = 10"

datatype EngineState = IDLE | INITIALIZED | RECOGNIZED | READ_CAPTURER

fun state_id :: "EngineState \<Rightarrow> int" where
  "state_id IDLE = 0"
| "state_id INITIALIZED = 1"
| "state_id RECOGNIZED = 2"
| "state_id READ_CAPTURER = 3"

definition MIN_BUFFER_SIZE :: nat where
  "MIN_BUFFER_SIZE = 640"

definition INTERVAL :: nat where
  "INTERVAL = 96"

definition RECOGNIZE_COMPLETE_TIMEOUT_US :: int where
  "RECOGNIZE_COMPLETE_TIMEOUT_US = 2 * 1000 * 1000"

definition READ_CAPTURER_TIMEOUT_US :: int where
  "READ_CAPTURER_TIMEOUT_US = 10 * 1000 * 1000"

definition INTELLIGENT_VOICE_START_CAPTURER_FAILED :: int where
  "INTELLIGENT_VOICE_START_CAPTURER_FAILED = 22700105"

text \<open>What \<open>inMsg\<close> points to, and what \<open>outMsg\<close> points to before the call (\<open>None\<close> for null).\<close>

datatype engine_in = InNull | InInt int | InStr string

datatype engine_out = OutStr string | OutData bytes

record engine_msg =
  em_in :: engine_in
  em_out :: "engine_out option"

text \<open>
  \<open>w_audioManager\<close>: \<open>AudioSystemManager::GetInstance()\<close> is not null. \<open>w_created\<close>, \<open>w_started\<close>: the audio
  capturer can be created and started. \<open>w_permission\<close>: \<open>VerifySystemPermission\<close>, 0 for success.
  \<open>w_arrive\<close>: the frames that arrive while a read waits.
\<close>

record engine_world =
  w_audioManager :: bool
  w_created :: bool
  w_started :: bool
  w_permission :: int
  w_arrive :: "nat \<Rightarrow> bytes option"

record OnlyFirstWakeupEngineImpl =
  es_channels :: int
  es_channelId :: nat
  es_stopCallback :: bool
  es_audioSource :: "AudioSource option"
  es_streamChannels :: nat
  es_recordStart :: int
  es_source :: WakeupSourceProcess
  es_out :: "engine_out option"
  es_world :: engine_world

type_synonym engine_fields = OnlyFirstWakeupEngineImpl
type_synonym engine = "(engine_msg, engine_fields) ModuleStates"
type_synonym engine_handler = "(engine_msg, engine_fields) HandleMsg_fn"

definition in_of :: "engine_msg StateMsg \<Rightarrow> engine_in" where
  "in_of msg = (case inMsg msg of Msg b \<Rightarrow> em_in b | _ \<Rightarrow> InNull)"

definition out_of :: "engine_msg StateMsg \<Rightarrow> engine_out option" where
  "out_of msg = (case inMsg msg of Msg b \<Rightarrow> em_out b | _ \<Rightarrow> None)"

definition result :: "int \<Rightarrow> int \<Rightarrow> engine_fields \<Rightarrow> engine_fields handled" where
  "result ret nxt u = \<lparr>h_ret = ret, h_next = nxt, h_reset = False, h_self = u\<rparr>"

section \<open>Audio source and callback\<close>

definition CreateWakeupSourceStopCallback :: "engine_fields \<Rightarrow> bool \<times> engine_fields" where
  "CreateWakeupSourceStopCallback u =
     (if es_stopCallback u then (True, u)
      else if \<not> w_audioManager (es_world u) then (False, u)
      else (True, u\<lparr>es_stopCallback := True\<rparr>))"

definition DestroyWakeupSourceStopCallback :: "engine_fields \<Rightarrow> engine_fields" where
  "DestroyWakeupSourceStopCallback u =
     (if \<not> es_stopCallback u then u
      else if \<not> w_audioManager (es_world u) then u
      else u\<lparr>es_stopCallback := False\<rparr>)"

definition StartAudioSource :: "engine_fields \<Rightarrow> bool \<times> engine_fields" where
  "StartAudioSource u =
     (let u1 = u\<lparr>es_source := WakeupSource_Init (es_streamChannels u) (es_source u)\<rparr>
      in case AudioSource_Start (w_created (es_world u)) (w_started (es_world u))
                (AudioSource_new (MIN_BUFFER_SIZE * es_streamChannels u) INTERVAL True) of
           (True, src) \<Rightarrow> (True, u1\<lparr>es_audioSource := Some src\<rparr>)
         | (False, src) \<Rightarrow> (False, u1\<lparr>es_audioSource := None, es_source := WakeupSource_Release (es_source u1)\<rparr>))"

definition StopAudioSource :: "engine_fields \<Rightarrow> engine_fields" where
  "StopAudioSource u =
     (if es_audioSource u = None then u
      else u\<lparr>es_audioSource := None, es_source := WakeupSource_Release (es_source u)\<rparr>)"

text \<open>The capturer thread delivers a buffer of samples.\<close>

definition ReadBufferCallback :: "16 word list \<Rightarrow> engine_fields \<Rightarrow> engine_fields" where
  "ReadBufferCallback buffer u =
     (case DeinterleaveAudioData buffer (int (es_streamChannels u)) of
        None \<Rightarrow> u
      | Some audioData \<Rightarrow>
          if length audioData \<noteq> es_streamChannels u \<or> length audioData \<le> es_channelId u then u
          else u\<lparr>es_source := WakeupSource_Write audioData (es_source u)\<rparr>)"

section \<open>Handlers\<close>

definition HandleGetParam :: engine_handler where
  "HandleGetParam msg nxt u =
     (case (in_of msg, out_of msg) of
        (InStr key, Some out) \<Rightarrow>
          result 0 nxt (u\<lparr>es_out := Some (OutStr
            (if key = ''wakeup_source_channel'' then to_string (int (es_streamChannels u)) else ''''))\<rparr>)
      | _ \<Rightarrow> result (-1) nxt u)"

definition HandleInit :: engine_handler where
  "HandleInit msg nxt u = result 0 (state_id INITIALIZED) u"

definition WakeupSource :: "engine_fields \<Rightarrow> int \<times> engine_fields" where
  "WakeupSource u =
     (case CreateWakeupSourceStopCallback u of
        (False, u1) \<Rightarrow> (-1, u1)
      | (True, u1) \<Rightarrow> (case StartAudioSource u1 of
          (False, u2) \<Rightarrow> (-1, u2)
        | (True, u2) \<Rightarrow> (0, u2)))"

definition HandleStart :: engine_handler where
  "HandleStart msg nxt u =
     (if in_of msg = InNull then result (-1) nxt u
      else (case WakeupSource (u\<lparr>es_channelId := 0\<rparr>) of (ret, u1) \<Rightarrow>
              result ret (if ret = 0 then state_id RECOGNIZED else nxt) u1))"

definition HandleStartCapturer :: engine_handler where
  "HandleStartCapturer msg nxt u =
     (if w_permission (es_world u) \<noteq> 0 then result (w_permission (es_world u)) nxt u
      else (case in_of msg of
          InInt channels \<Rightarrow> result 0 (state_id READ_CAPTURER) (u\<lparr>es_channels := channels\<rparr>)
        | _ \<Rightarrow> result INTELLIGENT_VOICE_START_CAPTURER_FAILED nxt u))"

definition HandleRead :: engine_handler where
  "HandleRead msg nxt u =
     (case out_of msg of
        Some (OutData data) \<Rightarrow>
          (case WakeupSource_Read (w_arrive (es_world u)) data (es_channels u) (es_source u) of
             (ret, data1, src) \<Rightarrow>
               (let u1 = u\<lparr>es_source := src, es_out := Some (OutData data1)\<rparr>
                in if ret \<noteq> 0 then result ret nxt u1
                   else (result 0 nxt u1)\<lparr>h_reset := True\<rparr>))
      | _ \<Rightarrow> result (-1) nxt u)"

definition HandleStopCapturer :: engine_handler where
  "HandleStopCapturer msg nxt u = result 0 (state_id INITIALIZED) (StopAudioSource u)"

definition HandleRelease :: engine_handler where
  "HandleRelease msg nxt u = result 0 (state_id IDLE) (StopAudioSource (DestroyWakeupSourceStopCallback u))"

definition HandleRecordStart :: engine_handler where
  "HandleRecordStart msg nxt u =
     (case in_of msg of
        InInt v \<Rightarrow>
          if v \<noteq> 0 \<and> v \<noteq> 1 then result 0 nxt u
          else let u1 = u\<lparr>es_recordStart := v\<rparr>
               in result 0 (state_id INITIALIZED) (if v = 0 then StopAudioSource u1 else u1)
      | _ \<Rightarrow> result (-1) nxt u)"

section \<open>The engine\<close>

definition InitStates :: "(int \<Rightarrow> bool) \<Rightarrow> (engine_msg, engine_fields) cfg_op list" where
  "InitStates al =
     [CfgFrom al (state_id IDLE) (state_id READ_CAPTURER),
      CfgGroupAdd (event_id GET_PARAM) HandleGetParam,
      CfgAct (al 0) (state_id IDLE) (event_id INIT) HandleInit,
      CfgAct (al 1) (state_id INITIALIZED) (event_id START_RECOGNIZE) HandleStart,
      CfgWait (al 2) (state_id RECOGNIZED) (event_id RECOGNIZE_COMPLETE_TIMEOUT) HandleStopCapturer
        RECOGNIZE_COMPLETE_TIMEOUT_US 0,
      CfgAct (al 2) (state_id RECOGNIZED) (event_id START_CAPTURER) HandleStartCapturer,
      CfgAct (al 2) (state_id RECOGNIZED) (event_id STOP_CAPTURER) HandleStopCapturer,
      CfgAct (al 2) (state_id RECOGNIZED) (event_id RECORD_START) HandleRecordStart,
      CfgWait (al 3) (state_id READ_CAPTURER) (event_id READ_CAPTURER_TIMEOUT) HandleStopCapturer
        READ_CAPTURER_TIMEOUT_US 0,
      CfgAct (al 3) (state_id READ_CAPTURER) (event_id READ) HandleRead,
      CfgAct (al 3) (state_id READ_CAPTURER) (event_id STOP_CAPTURER) HandleStopCapturer,
      CfgFrom al (state_id INITIALIZED) (state_id READ_CAPTURER),
      CfgGroupAdd (event_id RELEASE) HandleRelease]"

text \<open>\<open>monoCh\<close> is the channel count \<open>AudioChannel::MONO\<close> of the audio framework.\<close>

definition fields_new :: "nat \<Rightarrow> engine_world \<Rightarrow> engine_fields" where
  "fields_new monoCh w =
     \<lparr>es_channels = 0, es_channelId = 0, es_stopCallback = False, es_audioSource = None, es_streamChannels = monoCh,
      es_recordStart = -1, es_source = WakeupSource_new, es_out = None, es_world = w\<rparr>"

definition engine_new :: "(int \<Rightarrow> bool) \<Rightarrow> bool \<Rightarrow> observer \<Rightarrow> nat \<Rightarrow> engine_world \<Rightarrow> engine" where
  "engine_new al created this monoCh w =
     fold configure (InitStates al) (ModuleStates_new (state_id IDLE) created this (fields_new monoCh w))"

definition Engine_Handle :: "int \<Rightarrow> engine_msg StateMsg \<Rightarrow> engine \<Rightarrow> (int \<times> engine) outcome" where
  "Engine_Handle now msg s = (if \<not> IsStatesInitSucc s then Ret (-1, s) else HandleMsg now msg s)"

section \<open>OnlyFirstWakeupEngine\<close>

definition state_msg :: "EngineEvent \<Rightarrow> engine_in \<Rightarrow> engine_out option \<Rightarrow> engine_msg StateMsg" where
  "state_msg ev i out = \<lparr>msgId = event_id ev, inMsg = Msg \<lparr>em_in = i, em_out = out\<rparr>\<rparr>"

definition HandleCapturerMsg :: "int \<Rightarrow> engine_msg StateMsg \<Rightarrow> engine \<Rightarrow> (int \<times> engine) outcome" where
  "HandleCapturerMsg now msg s = Engine_Handle now msg s"

text \<open>The flag says that the wake-up source is closed again because the start failed.\<close>

definition Engine_OnDetected :: "int \<Rightarrow> int \<Rightarrow> engine \<Rightarrow> (bool \<times> engine) outcome" where
  "Engine_OnDetected now uuid s =
     obind (HandleCapturerMsg now (state_msg START_RECOGNIZE (InInt uuid) None) s) (\<lambda>(ret, t). Ret (ret \<noteq> 0, t))"

definition Engine_Init :: "int \<Rightarrow> engine \<Rightarrow> (bool \<times> engine) outcome" where
  "Engine_Init now s = obind (HandleCapturerMsg now (state_msg INIT InNull None) s) (\<lambda>(ret, t). Ret (ret = 0, t))"

definition Engine_StartCapturer :: "int \<Rightarrow> int \<Rightarrow> engine \<Rightarrow> (int \<times> engine) outcome" where
  "Engine_StartCapturer now channels s = HandleCapturerMsg now (state_msg START_CAPTURER (InInt channels) None) s"

text \<open>\<open>Read\<close> swaps the data into the caller's vector only on success.\<close>

definition Engine_Read :: "int \<Rightarrow> bytes \<Rightarrow> engine \<Rightarrow> (int \<times> bytes \<times> engine) outcome" where
  "Engine_Read now data s =
     obind (HandleCapturerMsg now (state_msg READ InNull (Some (OutData []))) s)
       (\<lambda>(ret, t). Ret (if ret \<noteq> 0 then (-1, data, t)
          else (0, (case es_out (ms_self t) of Some (OutData d) \<Rightarrow> d | _ \<Rightarrow> []), t)))"

definition Engine_StopCapturer :: "int \<Rightarrow> engine \<Rightarrow> (int \<times> engine) outcome" where
  "Engine_StopCapturer now s = HandleCapturerMsg now (state_msg STOP_CAPTURER InNull None) s"

definition Engine_Detach :: "int \<Rightarrow> engine \<Rightarrow> (int \<times> engine) outcome" where
  "Engine_Detach now s = HandleCapturerMsg now (state_msg RELEASE InNull None) s"

definition Engine_GetParameter :: "int \<Rightarrow> string \<Rightarrow> engine \<Rightarrow> (string \<times> engine) outcome" where
  "Engine_GetParameter now key s =
     obind (HandleCapturerMsg now (state_msg GET_PARAM (InStr key) (Some (OutStr ''''))) s)
       (\<lambda>(ret, t). Ret (if ret \<noteq> 0 then '''' else (case es_out (ms_self t) of Some (OutStr v) \<Rightarrow> v | _ \<Rightarrow> ''''), t))"

definition ReleaseAdapter :: "int \<Rightarrow> engine \<Rightarrow> engine outcome" where
  "ReleaseAdapter now s = obind (HandleCapturerMsg now (state_msg RELEASE InNull None) s) (\<lambda>(ret, t). Ret t)"

definition ResetSingleLevelWakeup :: "int \<Rightarrow> string \<Rightarrow> engine \<Rightarrow> engine outcome" where
  "ResetSingleLevelWakeup now v s =
     (if v \<noteq> ''true'' \<and> v \<noteq> ''false'' then Ret s
      else obind (HandleCapturerMsg now (state_msg RECORD_START (InInt (if v = ''true'' then 1 else 0)) None) s)
             (\<lambda>(ret, t). Ret t))"

text \<open>Only one key is acted upon, so the order of the map does not matter.\<close>

definition Engine_SetParameter :: "int \<Rightarrow> string \<Rightarrow> engine \<Rightarrow> (int \<times> engine) outcome" where
  "Engine_SetParameter now keyValueList s =
     (case SplitStringToKVPair keyValueList Map.empty of
        None \<Rightarrow> Crash Deadlock
      | Some kvpairs \<Rightarrow> (case kvpairs ''record_start'' of
          None \<Rightarrow> Ret (0, s)
        | Some v \<Rightarrow> obind (ResetSingleLevelWakeup now v s) (\<lambda>t. Ret (0, t))))"

section \<open>Interleavings\<close>

text \<open>
  Client calls, the capturer thread delivering a buffer, the timer thread taking and delivering a
  timeout, and the surroundings changing are the atomic steps.
\<close>

type_synonym engine_sys = "engine \<times> TimerEvent option"

inductive engine_step :: "engine_sys \<Rightarrow> engine_sys \<Rightarrow> bool" where
  eng_client: "Engine_Handle now msg s = Ret (r, t) \<Longrightarrow> engine_step (s, p) (t, p)"
| eng_frame: "engine_step (s, p) (s\<lparr>ms_self := ReadBufferCallback buf (ms_self s)\<rparr>, p)"
| eng_world: "engine_step (s, p) (s\<lparr>ms_self := (ms_self s)\<lparr>es_world := w\<rparr>\<rparr>, p)"
| eng_take: "Run_iter now (ms_tm s) = (RunFire e ob, tm) \<Longrightarrow> engine_step (s, None) (s\<lparr>ms_tm := tm\<rparr>, Some e)"
| eng_deliver: "OnTimerEvent now e s = Ret t \<Longrightarrow> engine_step (s, Some e) (t, None)"

definition engine_start :: "engine_sys \<Rightarrow> bool" where
  "engine_start x \<longleftrightarrow> (\<exists>this n w. 0 < n \<and> x = (engine_new (\<lambda>_. True) True this n w, None))"

section \<open>The tables\<close>

definition cfg_of :: "EngineState \<Rightarrow> TimerCfg" where
  "cfg_of e =
     (case e of
        RECOGNIZED \<Rightarrow> \<lparr>cfg_type = event_id RECOGNIZE_COMPLETE_TIMEOUT, cfg_delayUs = RECOGNIZE_COMPLETE_TIMEOUT_US, cfg_cookie = 0\<rparr>
      | READ_CAPTURER \<Rightarrow> \<lparr>cfg_type = event_id READ_CAPTURER_TIMEOUT, cfg_delayUs = READ_CAPTURER_TIMEOUT_US, cfg_cookie = 0\<rparr>
      | _ \<Rightarrow> \<lparr>cfg_type = 0, cfg_delayUs = 0, cfg_cookie = 0\<rparr>)"

definition handlers :: "EngineState \<Rightarrow> int \<rightharpoonup> engine_handler" where
  "handlers e =
     (case e of
        IDLE \<Rightarrow> [event_id INIT \<mapsto> HandleInit]
      | INITIALIZED \<Rightarrow> [event_id START_RECOGNIZE \<mapsto> HandleStart]
      | RECOGNIZED \<Rightarrow> [event_id RECOGNIZE_COMPLETE_TIMEOUT \<mapsto> HandleStopCapturer,
          event_id START_CAPTURER \<mapsto> HandleStartCapturer, event_id STOP_CAPTURER \<mapsto> HandleStopCapturer,
          event_id RECORD_START \<mapsto> HandleRecordStart]
      | READ_CAPTURER \<Rightarrow> [event_id READ_CAPTURER_TIMEOUT \<mapsto> HandleStopCapturer, event_id READ \<mapsto> HandleRead,
          event_id STOP_CAPTURER \<mapsto> HandleStopCapturer])
     (event_id GET_PARAM \<mapsto> HandleGetParam, event_id RELEASE \<mapsto> HandleRelease)"

text \<open>
  The table that \<open>InitStates\<close> builds. Release is registered in every state, idle included, although
  the code names the states from initialized on: the second group still holds the first.
\<close>

definition table :: "EngineState \<Rightarrow> (engine_msg, engine_fields) StateActions" where
  "table e = \<lparr>sa_cfg = cfg_of e, sa_timerId = INVALID_ID, sa_actions = handlers e\<rparr>"

lemma engine_tables:
  "ms_states (engine_new (\<lambda>_. True) created this n w) =
     [0 \<mapsto> Some (table IDLE), 1 \<mapsto> Some (table INITIALIZED), 2 \<mapsto> Some (table RECOGNIZED),
      3 \<mapsto> Some (table READ_CAPTURER)]"
  by (rule ext)
    (simp add: engine_new_def InitStates_def FromState_def Group_Add_def machine_eval table_def cfg_of_def
      handlers_def upto_rec1 fun_upd_twist)

section \<open>The invariant\<close>

definition busy :: "EngineState \<Rightarrow> bool" where
  "busy e \<longleftrightarrow> e = RECOGNIZED \<or> e = READ_CAPTURER"

definition fields_ok :: "EngineState \<Rightarrow> engine_fields \<Rightarrow> bool" where
  "fields_ok e u \<longleftrightarrow>
     0 < es_streamChannels u \<and> \<not> ws_readBufferPCM (es_source u) \<and>
     length (ws_bufferQueue (es_source u)) = ws_channelCnt (es_source u) \<and>
     (es_audioSource u \<noteq> None \<longleftrightarrow> ws_channelCnt (es_source u) \<noteq> 0) \<and>
     (\<forall>a. es_audioSource u = Some a \<longrightarrow> source_ok a \<and> as_isReading a) \<and>
     (e = IDLE \<longrightarrow> es_audioSource u = None) \<and>
     (busy e \<longrightarrow> es_audioSource u \<noteq> None)"

abbreviation engine_fit :: "EngineState \<Rightarrow> engine \<Rightarrow> bool" where
  "engine_fit \<equiv> machine_fit state_id table fields_ok"

abbreviation engine_at :: "EngineState \<Rightarrow> engine_sys \<Rightarrow> bool" where
  "engine_at \<equiv> machine_at state_id table fields_ok"

definition engine_inv :: "engine_sys \<Rightarrow> bool" where
  "engine_inv x \<longleftrightarrow> (\<exists>e. engine_at e x)"

lemma table_fields [simp]:
  "sa_cfg (table e) = cfg_of e" "sa_actions (table e) = handlers e" "sa_timerId (table e) = INVALID_ID"
  by (simp_all add: table_def)

lemma cfg_delay [simp]: "cfg_delayUs (cfg_of e) = 0 \<longleftrightarrow> \<not> busy e"
  by (cases e) (simp_all add: busy_def cfg_of_def RECOGNIZE_COMPLETE_TIMEOUT_US_def READ_CAPTURER_TIMEOUT_US_def)

subsection \<open>The fields\<close>

text \<open>The shape of the source: channels, number of queues, no stored audio to return first.\<close>

abbreviation shape :: "WakeupSourceProcess \<Rightarrow> nat \<times> nat \<times> bool" where
  "shape w \<equiv> (ws_channelCnt w, length (ws_bufferQueue w), ws_readBufferPCM w)"

lemma ReadChannelData_shape:
  "\<not> ws_readBufferPCM w \<Longrightarrow> shape (snd (ReadChannelData arrive d i w)) = shape w"
  by (auto simp: ReadChannelData_def split: option.splits prod.splits)

lemma Read_loop_shape: "\<not> ws_readBufferPCM w \<Longrightarrow> shape (snd (snd (Read_loop arrive c is d w))) = shape w"
proof (induction "is" arbitrary: d w)
  case (Cons i "is")
  then show ?case
    using ReadChannelData_shape [of w arrive d i] by (auto split: option.splits prod.splits)
qed simp

lemma Read_shape:
  "WakeupSource_Read arrive d c w = (r, d1, w1) \<Longrightarrow> \<not> ws_readBufferPCM w \<Longrightarrow> shape w1 = shape w"
  using Read_loop_shape [of w arrive c "[0 ..< 4]" d] by (auto simp: WakeupSource_Read_def split: if_splits)

lemma Write_shape: "shape (WakeupSource_Write d w) = shape w"
proof -
  have "shape (WriteChannelData f i w) = shape w" for f i w
    by (simp add: WriteChannelData_def split: option.splits)
  then show ?thesis by (simp add: WakeupSource_Write_def)
qed

lemma fields_ok_stop: "fields_ok e u \<Longrightarrow> e' \<noteq> RECOGNIZED \<Longrightarrow> e' \<noteq> READ_CAPTURER \<Longrightarrow> fields_ok e' (StopAudioSource u)"
  by (auto simp: fields_ok_def StopAudioSource_def WakeupSource_Release_def busy_def)

lemma fields_ok_frame [simp]:
  "fields_ok e (u\<lparr>es_world := w\<rparr>) = fields_ok e u" "fields_ok e (u\<lparr>es_out := x\<rparr>) = fields_ok e u"
  "fields_ok e (u\<lparr>es_channels := c\<rparr>) = fields_ok e u" "fields_ok e (u\<lparr>es_channelId := i\<rparr>) = fields_ok e u"
  "fields_ok e (u\<lparr>es_recordStart := v\<rparr>) = fields_ok e u"
  "fields_ok e (u\<lparr>es_stopCallback := b\<rparr>) = fields_ok e u"
  by (simp_all add: fields_ok_def)

lemma fields_ok_callback: "fields_ok e u \<Longrightarrow> fields_ok e (ReadBufferCallback buf u)"
  using Write_shape by (auto simp: ReadBufferCallback_def fields_ok_def split: option.splits)

lemma fields_ok_destroy: "fields_ok e u \<Longrightarrow> fields_ok e (DestroyWakeupSourceStopCallback u)"
  by (simp add: DestroyWakeupSourceStopCallback_def)

lemma fields_ok_start:
  assumes "fields_ok INITIALIZED u" "WakeupSource u = (r, u1)"
  shows "fields_ok (if r = 0 then RECOGNIZED else INITIALIZED) u1"
proof -
  have "WakeupSource_Release (WakeupSource_Init n w) = \<lparr>ws_readBufferPCM = ws_readBufferPCM w, ws_channelCnt = 0,
      ws_bufferQueue = []\<rparr>" for n w
    by (simp add: WakeupSource_Release_def WakeupSource_Init_def Let_def)
  moreover have "shape (WakeupSource_Init n w) = (n, n, ws_readBufferPCM w)"
    if "length (ws_bufferQueue w) = ws_channelCnt w" for n w
    using that by (auto simp: WakeupSource_Init_def WakeupSource_Release_def Let_def)
  ultimately show ?thesis
    using assms
    by (auto simp: WakeupSource_def CreateWakeupSourceStopCallback_def StartAudioSource_def Start_new
        MIN_BUFFER_SIZE_def fields_ok_def busy_def source_ok_def Let_def split: if_splits)
qed

subsection \<open>The handlers\<close>

text \<open>Every handler names one of the four states and leaves the fields fit for the state it ends in.\<close>

abbreviation moves_to :: "EngineState \<Rightarrow> EngineState \<Rightarrow> engine_fields handled \<Rightarrow> bool" where
  "moves_to \<equiv> moves state_id fields_ok"

lemma handler_moves:
  assumes "fields_ok e u" "handlers e m = Some h"
  shows "\<exists>e'. moves_to e e' (h msg (state_id e) u)"
proof -
  have any: "\<exists>e'. moves_to e e' (HandleGetParam msg (state_id e) u)"
    using assms(1) by (intro exI [of _ e])
      (auto simp: moves_def HandleGetParam_def result_def split: engine_in.splits option.splits)
  have rel: "\<exists>e'. moves_to e e' (HandleRelease msg (state_id e) u)"
    using fields_ok_stop [OF fields_ok_destroy [OF assms(1)], of IDLE]
    by (intro exI [of _ IDLE]) (simp add: moves_def HandleRelease_def result_def)
  have stop: "\<exists>e'. moves_to e e' (HandleStopCapturer msg (state_id e) u)"
    using fields_ok_stop [OF assms(1), of INITIALIZED]
    by (intro exI [of _ INITIALIZED]) (simp add: moves_def HandleStopCapturer_def result_def)
  have init: "\<exists>e'. moves_to e e' (HandleInit msg (state_id e) u)" if "e = IDLE"
    using assms(1) that
    by (intro exI [of _ INITIALIZED]) (auto simp: moves_def HandleInit_def result_def fields_ok_def busy_def)
  have start: "\<exists>e'. moves_to e e' (HandleStart msg (state_id e) u)" if "e = INITIALIZED"
  proof -
    obtain r u1 where w: "WakeupSource (u\<lparr>es_channelId := 0\<rparr>) = (r, u1)" by fastforce
    have "fields_ok (if r = 0 then RECOGNIZED else INITIALIZED) u1"
      using assms(1) that w by (intro fields_ok_start [of "u\<lparr>es_channelId := 0\<rparr>"]) auto
    then show ?thesis using assms(1) that w
      by (intro exI [of _ "if in_of msg \<noteq> InNull \<and> r = 0 then RECOGNIZED else INITIALIZED"])
        (auto simp: moves_def HandleStart_def result_def)
  qed
  have cap: "\<exists>e'. moves_to e e' (HandleStartCapturer msg (state_id e) u)" if "e = RECOGNIZED"
    using assms(1) that
    by (intro exI [of _ "if w_permission (es_world u) = 0 \<and> (\<exists>c. in_of msg = InInt c) then READ_CAPTURER else RECOGNIZED"])
      (auto simp: moves_def HandleStartCapturer_def result_def INTELLIGENT_VOICE_START_CAPTURER_FAILED_def
        fields_ok_def busy_def split: engine_in.splits)
  have rec: "\<exists>e'. moves_to e e' (HandleRecordStart msg (state_id e) u)" if "e = RECOGNIZED"
  proof (cases "\<exists>v. in_of msg = InInt v \<and> (v = 0 \<or> v = 1)")
    case True
    have "fields_ok INITIALIZED (StopAudioSource (u\<lparr>es_recordStart := 0\<rparr>))"
      using assms(1) by (intro fields_ok_stop [of e]) simp_all
    moreover have "fields_ok INITIALIZED u" using assms(1) that by (simp add: fields_ok_def busy_def)
    ultimately show ?thesis using True
      by (intro exI [of _ INITIALIZED]) (auto simp: moves_def HandleRecordStart_def result_def)
  next
    case False
    then show ?thesis using assms(1)
      by (intro exI [of _ e]) (auto simp: moves_def HandleRecordStart_def result_def split: engine_in.splits)
  qed
  have read: "\<exists>e'. moves_to e e' (HandleRead msg (state_id e) u)"
    using assms(1) Read_shape
    by (intro exI [of _ e])
      (auto simp: moves_def HandleRead_def result_def fields_ok_def Let_def
        split: option.splits engine_out.splits prod.splits)
  show ?thesis
    using assms(2) any rel stop init start cap rec read
    by (cases e) (auto simp: handlers_def split: if_splits)
qed

lemma timeout_handler: "busy e \<Longrightarrow> handlers e (cfg_type (cfg_of e)) = Some HandleStopCapturer"
  by (auto simp: busy_def handlers_def cfg_of_def)

lemma state_id_inj [simp]: "state_id e = state_id e' \<longleftrightarrow> e = e'"
  by (cases e; cases e') simp_all

interpretation frame: table_engine state_id table fields_ok INITIALIZED
  by unfold_locales
    (auto simp: timeout_handler HandleStopCapturer_def result_def busy_def intro: handler_moves)

subsection \<open>Steps\<close>

lemma engine_started: "engine_start x \<Longrightarrow> engine_at IDLE x"
proof -
  assume "engine_start x"
  then obtain this n w where n: "0 < n" and x: "x = (engine_new (\<lambda>_. True) True this n w, None)"
    by (auto simp: engine_start_def)
  let ?s = "engine_new (\<lambda>_. True) True this n w"
  have i: "ms_idle ?s" unfolding engine_new_def
    using ms_idle_new by (rule fold_invariant) (rule ms_idle_configure)
  have t: "ms_states ?s k \<noteq> Some None" "ms_states ?s (state_id e) = Some (Some (table e))" for k e
    by (simp add: engine_tables) (cases e; simp add: engine_tables)
  have "tm_status (ms_tm ?s) = TIMER_STATUS_STARTED \<and> ms_isInitSucc ?s \<and> ms_currState ?s = Some (state_id IDLE) \<and>
      ms_self ?s = fields_new n w"
    by (simp add: engine_new_def InitStates_def FromState_def Group_Add_def machine_eval upto_rec1 timer_defs TimerMgr_def)
  moreover have "fields_ok IDLE (fields_new n w)"
    using n by (simp add: fields_ok_def fields_new_def WakeupSource_new_def busy_def)
  ultimately have "engine_fit IDLE ?s" using i t by (intro machine_fit_start) auto
  then show ?thesis by (simp add: x machine_at_def busy_def)
qed

interpretation engine: invariant_system engine_start engine_step engine_inv
proof (unfold_locales, goal_cases)
  case (1 s)
  from engine_started [OF this] show ?case by (auto simp: engine_inv_def)
next
  case (2 x y)
  then obtain e where at: "engine_at e x" by (auto simp: engine_inv_def)
  then have f: "fields_ok e (ms_self (fst x))" by (simp add: machine_at_def machine_fit_def)
  from 2(2) show ?case
  proof (cases rule: engine_step.cases)
    case (eng_client now msg s r t p)
    then have "IsStatesInitSucc s" using at by (simp add: machine_at_def machine_fit_def IsStatesInitSucc_def)
    then show ?thesis using frame.client_at [of e s p now msg r t] at eng_client by (simp add: Engine_Handle_def engine_inv_def)
  next
    case (eng_frame s p buf)
    then show ?thesis using at machine_at_self [of state_id table fields_ok e s p] fields_ok_callback [OF f] unfolding engine_inv_def by auto
  next
    case (eng_world s p w)
    then show ?thesis using at f machine_at_self [of state_id table fields_ok e s p "(ms_self s)\<lparr>es_world := w\<rparr>"] unfolding engine_inv_def by auto
  next
    case (eng_take now s ev ob tm)
    then show ?thesis using frame.take_at [of e s now ev ob tm] at by (auto simp: engine_inv_def)
  next
    case (eng_deliver now ev s t)
    then show ?thesis using frame.deliver_at [of e s ev now t] at by (auto simp: engine_inv_def)
  qed
qed

subsection \<open>One call\<close>

lemma engine_call:
  assumes fit: "engine_fit e s" and h: "handlers e (msgId msg) = Some h" "h_next (h msg (state_id e) (ms_self s)) = state_id e'"
  defines "r \<equiv> h msg (state_id e) (ms_self s)"
  shows "\<exists>t. Engine_Handle now msg s = Ret (h_ret r, t) \<and> ms_self t = h_self r \<and>
    engine_fit (if h_ret r = 0 then e' else e) t \<and>
    (if h_ret r = 0 \<and> e' \<noteq> e
     then ms_currState t = Some (state_id e') \<and>
       map (\<lambda>x. (ti_type x, ti_tgtUs x)) (ms_queue t) =
         (if busy e' then [(cfg_type (cfg_of e'), now + cfg_delayUs (cfg_of e'))] else [])
     else ms_currState t = Some (state_id e))"
proof -
  have "Engine_Handle now msg s = HandleMsg now msg s"
    using fit by (simp add: machine_fit_def Engine_Handle_def IsStatesInitSucc_def)
  moreover have b: "(cfg_delayUs (cfg_of e') \<noteq> 0) = busy e'" by simp
  ultimately show ?thesis using frame.call [OF fit, of msg h e' now, unfolded table_fields b, OF h] unfolding r_def by simp
qed

section \<open>Properties\<close>

lemma reach_at:
  assumes "reach engine_start engine_step (s, p)" "ms_currState s = Some (state_id e)"
  shows "engine_at e (s, p)" "engine_fit e s"
proof -
  obtain e' where "engine_at e' (s, p)" using engine.reach_inv [OF assms(1)] by (auto simp: engine_inv_def)
  from frame.at_unique [OF this] show "engine_at e (s, p)" "engine_fit e s"
    using assms(2) by (simp_all add: machine_at_def)
qed

lemma wakeup_call:
  assumes fit: "engine_fit INITIALIZED s"
  defines "u \<equiv> ms_self s"
  defines "ok \<equiv> (es_stopCallback u \<or> w_audioManager (es_world u)) \<and> w_created (es_world u) \<and> w_started (es_world u)"
  shows "\<exists>t. Engine_OnDetected now uuid s = Ret (\<not> ok, t) \<and>
    Engine_Handle now (state_msg START_RECOGNIZE (InInt uuid) None) s = Ret (if ok then 0 else -1, t) \<and>
    (if ok
     then engine_fit RECOGNIZED t \<and> es_source (ms_self t) = source_with (replicate (es_streamChannels u) []) \<and>
       es_streamChannels (ms_self t) = es_streamChannels u \<and> es_world (ms_self t) = es_world u \<and>
       es_channelId (ms_self t) = 0 \<and>
       map (\<lambda>x. (ti_type x, ti_tgtUs x)) (ms_queue t) = [(event_id RECOGNIZE_COMPLETE_TIMEOUT, now + 2000000)]
     else engine_fit INITIALIZED t)"
proof -
  let ?m = "state_msg START_RECOGNIZE (InInt uuid) None"
  let ?r = "HandleStart ?m (state_id INITIALIZED) u"
  let ?e = "if ok then RECOGNIZED else INITIALIZED"
  have fo: "fields_ok INITIALIZED u" using fit by (simp add: u_def machine_fit_def)
  have src: "WakeupSource_Init n (es_source u) = source_with (replicate n [])" for n
    using fo by (auto simp: fields_ok_def WakeupSource_Init_def WakeupSource_Release_def source_with_def Let_def
        Queue_Init_def QueueUtil_new_def open_queue_def)
  have w: "h_ret ?r = (if ok then 0 else -1)" "h_next ?r = state_id ?e"
    "ok \<Longrightarrow> es_source (h_self ?r) = source_with (replicate (es_streamChannels u) []) \<and>
       es_streamChannels (h_self ?r) = es_streamChannels u \<and> es_world (h_self ?r) = es_world u \<and>
       es_channelId (h_self ?r) = 0"
    using fo src
    by (auto simp: HandleStart_def in_of_def state_msg_def WakeupSource_def CreateWakeupSourceStopCallback_def
        StartAudioSource_def Start_new MIN_BUFFER_SIZE_def result_def ok_def Let_def fields_ok_def)
  from engine_call [OF fit, of ?m HandleStart ?e now] w(2) obtain t where t:
    "Engine_Handle now ?m s = Ret (h_ret ?r, t)" "ms_self t = h_self ?r"
    "engine_fit (if h_ret ?r = 0 then ?e else INITIALIZED) t"
    "h_ret ?r = 0 \<and> ?e \<noteq> INITIALIZED \<longrightarrow> map (\<lambda>x. (ti_type x, ti_tgtUs x)) (ms_queue t) =
         (if busy ?e then [(cfg_type (cfg_of ?e), now + cfg_delayUs (cfg_of ?e))] else [])"
    by (auto simp: handlers_def state_msg_def u_def split: if_splits)
  show ?thesis
    using t w
    by (intro exI [of _ t])
      (auto simp: Engine_OnDetected_def HandleCapturerMsg_def busy_def cfg_of_def RECOGNIZE_COMPLETE_TIMEOUT_US_def
        split: if_splits)
qed

subsection \<open>A running engine\<close>

definition demo_world :: engine_world where
  "demo_world = \<lparr>w_audioManager = True, w_created = True, w_started = True, w_permission = 0, w_arrive = (\<lambda>_. None)\<rparr>"

text \<open>An initialized engine with one channel is reachable, and from it one in a session.\<close>

lemma demo_initialized:
  "\<exists>s. reach engine_start engine_step (s, None) \<and> ms_currState s = Some (state_id INITIALIZED) \<and>
     es_streamChannels (ms_self s) = 1 \<and> es_world (ms_self s) = demo_world \<and> engine_fit INITIALIZED s"
proof -
  let ?s = "engine_new (\<lambda>_. True) True 7 1 demo_world"
  have st: "engine_start (?s, None)" unfolding engine_start_def by (intro exI [of _ 7] exI [of _ 1]) auto
  then have r: "reach engine_start engine_step (?s, None)" by (rule reach_start)
  have fit: "engine_fit IDLE ?s" using engine_started [OF st] by (simp add: machine_at_def)
  have self: "ms_self ?s = fields_new 1 demo_world"
    by (simp add: engine_new_def InitStates_def FromState_def Group_Add_def machine_eval upto_rec1)
  let ?m = "state_msg INIT InNull None"
  from engine_call [OF fit, of ?m HandleInit INITIALIZED 0] obtain t where t: "Engine_Handle 0 ?m ?s = Ret (0, t)"
    "ms_self t = ms_self ?s" "engine_fit INITIALIZED t"
    by (auto simp: handlers_def state_msg_def HandleInit_def result_def)
  from reach_step [where step = engine_step, OF r eng_client [OF t(1)]] have "reach engine_start engine_step (t, None)" .
  then show ?thesis using t self by (intro exI [of _ t]) (simp add: fields_new_def machine_fit_def)
qed

lemma demo_session:
  "\<exists>s. reach engine_start engine_step (s, None) \<and> ms_currState s = Some (state_id RECOGNIZED) \<and>
     es_streamChannels (ms_self s) = 1 \<and> es_world (ms_self s) = demo_world \<and> engine_fit RECOGNIZED s"
proof -
  obtain s where s: "reach engine_start engine_step (s, None)" "es_streamChannels (ms_self s) = 1"
    "es_world (ms_self s) = demo_world" "engine_fit INITIALIZED s"
    using demo_initialized by blast
  from wakeup_call [OF s(4), of 0 1] s(2,3) obtain t where
    t: "Engine_Handle 0 (state_msg START_RECOGNIZE (InInt 1) None) s = Ret (0, t)" "engine_fit RECOGNIZED t"
      "es_streamChannels (ms_self t) = 1" "es_world (ms_self t) = demo_world"
    by (auto simp: demo_world_def)
  from reach_step [where step = engine_step, OF s(1) eng_client [OF t(1)]]
  have "reach engine_start engine_step (t, None)" .
  then show ?thesis using t by (intro exI [of _ t]) (simp add: machine_fit_def)
qed

subsection \<open>Claims\<close>

text \<open>
  C2. However client calls, captured buffers, the timer thread and changes of the surroundings
  interleave, a session (recognized or being read) has a reading audio source and its own timeout is
  pending: it is the one timer of the engine, or the timer thread has taken it and is about to
  deliver it. An idle engine holds no audio source and no buffered channel.
\<close>

theorem engine_session_bounded:
  assumes "reach engine_start engine_step (s, p)"
  shows "\<exists>e. CurrState s = state_id e \<and>
    (e = RECOGNIZED \<or> e = READ_CAPTURER \<longrightarrow>
       (\<exists>a. es_audioSource (ms_self s) = Some a \<and> as_isReading a) \<and>
       ((\<exists>x. ms_queue s = [x] \<and> ti_type x = cfg_type (cfg_of e) \<and> ti_observer x = Some (ms_this s)) \<or>
        (\<exists>ev. p = Some ev \<and> te_type ev = cfg_type (cfg_of e)))) \<and>
    (e = IDLE \<longrightarrow> es_audioSource (ms_self s) = None \<and> ws_channelCnt (es_source (ms_self s)) = 0)"
proof -
  obtain e where at: "engine_at e (s, p)" using engine.reach_inv [OF assms] by (auto simp: engine_inv_def)
  then have fit: "ms_currState s = Some (state_id e)" "fields_ok e (ms_self s)"
    by (simp_all add: machine_at_def machine_fit_def)
  show ?thesis
    using fit frame.timer_shape [OF at] by (intro exI [of _ e]) (auto simp: CurrState_def fields_ok_def busy_def)
qed

lemma engine_session_bounded_witness:
  "\<exists>s a. reach engine_start engine_step (s, None) \<and> CurrState s = state_id RECOGNIZED \<and>
     es_audioSource (ms_self s) = Some a \<and> as_isReading a \<and> length (ms_queue s) = 1"
proof -
  obtain s where s: "reach engine_start engine_step (s, None)" "ms_currState s = Some (state_id RECOGNIZED)"
    using demo_session by blast
  have c: "CurrState s = state_id e \<longleftrightarrow> e = RECOGNIZED" for e using s(2) by (cases e) (simp_all add: CurrState_def)
  from engine_session_bounded [OF s(1)] obtain a where
    "es_audioSource (ms_self s) = Some a" "as_isReading a" "length (ms_queue s) = 1"
    unfolding c by auto
  then show ?thesis using s(1) c by blast
qed

text \<open>
  Delivering the timeout of the state the engine is in ends the session: the call returns, the
  engine is initialized, the audio source is gone, the frame queues are released and no timer is left.
\<close>

theorem engine_timeout_ends_session:
  assumes r: "reach engine_start engine_step (s, Some ev)"
    and e: "ms_currState s = Some (state_id e)" "e = RECOGNIZED \<or> e = READ_CAPTURER"
    and ev: "te_type ev = cfg_type (cfg_of e)"
  shows "\<exists>t. OnTimerEvent now ev s = Ret t \<and> CurrState t = state_id INITIALIZED \<and>
    es_audioSource (ms_self t) = None \<and> ws_channelCnt (es_source (ms_self t)) = 0 \<and> ms_queue t = []"
proof -
  let ?m = "\<lparr>msgId = te_type ev, inMsg = TimerMsg ev\<rparr>"
  have b: "busy e" "e \<noteq> INITIALIZED" using e(2) by (auto simp: busy_def)
  note at = reach_at [OF r e(1)]
  from engine_call [OF at(2), of ?m HandleStopCapturer INITIALIZED now] timeout_handler [OF b(1)] ev b(2)
  obtain t where t: "Engine_Handle now ?m s = Ret (0, t)" "ms_self t = StopAudioSource (ms_self s)"
    "ms_currState t = Some (state_id INITIALIZED)" "ms_queue t = []"
    by (auto simp: HandleStopCapturer_def result_def busy_def split: if_splits)
  have "OnTimerEvent now ev s = Ret t"
    using t(1) at(2) by (simp add: OnTimerEvent_def Engine_Handle_def machine_fit_def IsStatesInitSucc_def)
  moreover have "fields_ok INITIALIZED (ms_self t) \<and> es_audioSource (ms_self t) = None"
    using t(2) fields_ok_stop [of e "ms_self s" INITIALIZED] at(2)
    by (auto simp: machine_fit_def StopAudioSource_def)
  ultimately show ?thesis using t(3,4) by (auto simp: CurrState_def fields_ok_def)
qed

lemma demo_expired:
  "\<exists>s ev. reach engine_start engine_step (s, Some ev) \<and> ms_currState s = Some (state_id RECOGNIZED) \<and>
     te_type ev = cfg_type (cfg_of RECOGNIZED)"
proof -
  obtain s where s: "reach engine_start engine_step (s, None)" "ms_currState s = Some (state_id RECOGNIZED)"
    using demo_session by blast
  note at = reach_at [OF s]
  then obtain x where x: "ms_queue s = [x]"
    using ms_invD(5) [of s] by (auto simp: machine_at_def machine_fit_def timeout_pending_def busy_def)
  have st: "tm_status (ms_tm s) = TIMER_STATUS_STARTED" using at(2) by (simp add: machine_fit_def)
  obtain ev ob tm where f: "Run_iter (ti_tgtUs x) (ms_tm s) = (RunFire ev ob, tm)" "te_type ev = ti_type x"
    using x st by (auto simp: Run_iter_def)
  have "engine_at RECOGNIZED (s\<lparr>ms_tm := tm\<rparr>, Some ev)" using frame.take_at [OF at(1) f(1)] .
  moreover have "tm_itemQueue tm = []" using f(1) x st by (auto simp: Run_iter_def)
  ultimately have "te_type ev = cfg_type (cfg_of RECOGNIZED)"
    by (simp add: machine_at_def timeout_pending_def busy_def)
  moreover have "reach engine_start engine_step (s\<lparr>ms_tm := tm\<rparr>, Some ev)"
    using reach_step [where step = engine_step, OF s(1) eng_take [OF f(1)]] .
  ultimately show ?thesis using s(2) by (intro exI [of _ "s\<lparr>ms_tm := tm\<rparr>"] exI [of _ ev]) simp
qed

lemma engine_timeout_ends_session_witness:
  "\<exists>s ev t. reach engine_start engine_step (s, Some ev) \<and> CurrState s = state_id RECOGNIZED \<and>
     OnTimerEvent 0 ev s = Ret t \<and> CurrState t = state_id INITIALIZED \<and> es_audioSource (ms_self t) = None"
proof -
  obtain s ev where s: "reach engine_start engine_step (s, Some ev)" "ms_currState s = Some (state_id RECOGNIZED)"
    "te_type ev = cfg_type (cfg_of RECOGNIZED)"
    using demo_expired by blast
  from engine_timeout_ends_session [OF s(1,2) _ s(3), of 0] obtain t where "OnTimerEvent 0 ev s = Ret t"
    "CurrState t = state_id INITIALIZED" "es_audioSource (ms_self t) = None" by blast
  moreover have "CurrState s = state_id RECOGNIZED" using s(2) by (simp add: CurrState_def)
  ultimately show ?thesis using s(1) by blast
qed

text \<open>
  A wake-up report in the initialized state starts a session exactly when the close callback is
  or can be installed and the capturer can be created and started: the engine is then recognized,
  every channel has an empty queue and the completion timeout is armed two seconds ahead. Otherwise
  the engine stays initialized and the caller is told to close the wake-up source.
\<close>

theorem engine_wakeup_starts:
  assumes "reach engine_start engine_step (s, p)" "ms_currState s = Some (state_id INITIALIZED)"
  shows "let u = ms_self s;
             ok = ((es_stopCallback u \<or> w_audioManager (es_world u)) \<and> w_created (es_world u) \<and> w_started (es_world u))
         in \<exists>t. Engine_OnDetected now uuid s = Ret (\<not> ok, t) \<and>
            CurrState t = state_id (if ok then RECOGNIZED else INITIALIZED) \<and>
            (ok \<longrightarrow> es_source (ms_self t) = source_with (replicate (es_streamChannels u) []) \<and>
               map (\<lambda>x. (ti_type x, ti_tgtUs x)) (ms_queue t) = [(event_id RECOGNIZE_COMPLETE_TIMEOUT, now + 2000000)])"
proof -
  have cur: "CurrState t = state_id e" if "engine_fit e t" for e t using that by (simp add: machine_fit_def CurrState_def)
  show ?thesis
    using wakeup_call [OF reach_at(2) [OF assms], of now uuid] unfolding Let_def
    by (auto split: if_splits dest: cur)
qed

lemma engine_wakeup_starts_witness:
  "\<exists>s t. reach engine_start engine_step (s, None) \<and> Engine_OnDetected 5 1 s = Ret (False, t) \<and>
     CurrState t = state_id RECOGNIZED \<and>
     map (\<lambda>x. (ti_type x, ti_tgtUs x)) (ms_queue t) = [(event_id RECOGNIZE_COMPLETE_TIMEOUT, 2000005)]"
proof -
  obtain s where s: "reach engine_start engine_step (s, None)" "ms_currState s = Some (state_id INITIALIZED)"
    "es_world (ms_self s) = demo_world"
    using demo_initialized by blast
  from engine_wakeup_starts [OF s(1,2), of 5 1] s(3) obtain t where "Engine_OnDetected 5 1 s = Ret (False, t)"
    "CurrState t = state_id RECOGNIZED"
    "map (\<lambda>x. (ti_type x, ti_tgtUs x)) (ms_queue t) = [(event_id RECOGNIZE_COMPLETE_TIMEOUT, 5 + 2000000)]"
    by (auto simp: Let_def demo_world_def)
  then show ?thesis using s(1) by (intro exI [of _ s] exI [of _ t]) simp
qed

text \<open>The calls each state accepts.\<close>

definition accepted :: "EngineState \<Rightarrow> EngineEvent list" where
  "accepted e = [GET_PARAM, RELEASE] @
     (case e of
        IDLE \<Rightarrow> [INIT]
      | INITIALIZED \<Rightarrow> [START_RECOGNIZE]
      | RECOGNIZED \<Rightarrow> [RECOGNIZE_COMPLETE_TIMEOUT, START_CAPTURER, STOP_CAPTURER, RECORD_START]
      | READ_CAPTURER \<Rightarrow> [READ_CAPTURER_TIMEOUT, READ, STOP_CAPTURER])"

lemma handlers_accepted: "handlers e m = None \<longleftrightarrow> m \<notin> set (map event_id (accepted e))"
  by (cases e) (auto simp: handlers_def accepted_def)

text \<open>
  No message in any reachable state leaves the defined part of the language, and a message that
  is not among the calls its state accepts is answered with \<open>NO_PROCESS_RET\<close> and changes nothing.
\<close>

theorem engine_protocol:
  assumes "reach engine_start engine_step (s, p)" "ms_currState s = Some (state_id e)"
  shows "\<exists>r t. Engine_Handle now msg s = Ret (r, t) \<and>
    (msgId msg \<notin> set (map event_id (accepted e)) \<longrightarrow> r = NO_PROCESS_RET \<and> t = s)"
proof -
  have fit: "engine_fit e s" using reach_at [OF assms] by simp
  then obtain i where a: "ms_states s (state_id e) = Some (Some ((table e)\<lparr>sa_timerId := i\<rparr>))"
    "\<forall>k. ms_states s k \<noteq> Some None" "IsStatesInitSucc s"
    by (auto simp: machine_fit_def tables_ok_def IsStatesInitSucc_def)
  obtain r t where "HandleMsg now msg s = Ret (r, t)" using HandleMsg_returns [OF a(2)] by blast
  moreover have "HandleMsg now msg s = Ret (NO_PROCESS_RET, s)" if "handlers e (msgId msg) = None"
    using that assms(2) a(1) by (simp add: HandleMsg_def SA_Handle_def table_def NO_PROCESS_RET_def)
  ultimately show ?thesis using a(3) handlers_accepted [of e "msgId msg"]
    by (auto simp: Engine_Handle_def simp del: set_map)
qed

lemma engine_protocol_witness:
  "\<exists>s. reach engine_start engine_step (s, None) \<and> CurrState s = state_id RECOGNIZED \<and>
     Engine_Handle 0 (state_msg READ InNull (Some (OutData []))) s = Ret (NO_PROCESS_RET, s)"
proof -
  obtain s where s: "reach engine_start engine_step (s, None)" "ms_currState s = Some (state_id RECOGNIZED)"
    using demo_session by blast
  from engine_protocol [OF s, of 0 "state_msg READ InNull (Some (OutData []))"] s show ?thesis
    by (intro exI [of _ s]) (auto simp: CurrState_def state_msg_def accepted_def)
qed

subsection \<open>From the capturer to the client\<close>

definition frame_of :: "16 word list \<Rightarrow> bytes" where
  "frame_of buf = concat (map sample_bytes buf)"

definition capture :: "16 word list list \<Rightarrow> engine \<Rightarrow> engine" where
  "capture bufs s = fold (\<lambda>b s. s\<lparr>ms_self := ReadBufferCallback b (ms_self s)\<rparr>) bufs s"

fun engine_reads :: "int list \<Rightarrow> engine \<Rightarrow> (bytes list \<times> engine) outcome" where
  "engine_reads [] s = Ret ([], s)"
| "engine_reads (now # nows) s =
     obind (Engine_Read now [] s) (\<lambda>(r, d, t).
       if r \<noteq> 0 then Ret ([], t) else obind (engine_reads nows t) (\<lambda>(ds, v). Ret (d # ds, v)))"

lemma Deinterleave_mono: "DeinterleaveAudioData buf 1 = Some [frame_of buf]"
proof -
  have "map (\<lambda>j. sample_bytes (buf ! j)) [0 ..< length buf] = map sample_bytes buf"
    by (rule nth_equalityI) simp_all
  then show ?thesis
    by (simp add: DeinterleaveAudioData_def channel_bytes_def channel_len_def frame_of_def)
qed

lemma callback_appends:
  assumes "es_streamChannels u = 1" "es_channelId u = 0" "es_source u = source_with [fs]"
    "buf \<noteq> []" "length fs < MAX_CAPACITY"
  shows "ReadBufferCallback buf u = u\<lparr>es_source := source_with [fs @ [frame_of buf]]\<rparr>"
proof -
  have "frame_of buf \<noteq> []" using assms(4) by (cases buf) (auto simp: frame_of_def sample_bytes_def)
  then have "WakeupSource_Write [frame_of buf] (source_with [fs]) = source_with [fs @ [frame_of buf]]"
    using WriteChannelData_source [of 0 "[fs]" "frame_of buf"] assms(5)
    by (simp add: WakeupSource_Write_def) (simp add: source_with_def)
  then show ?thesis using assms by (simp add: ReadBufferCallback_def Deinterleave_mono)
qed

lemma capture_appends:
  assumes "es_streamChannels (ms_self s) = 1" "es_channelId (ms_self s) = 0"
  shows "es_source (ms_self s) = source_with [fs] \<Longrightarrow> [] \<notin> set bufs \<Longrightarrow> length fs + length bufs \<le> MAX_CAPACITY \<Longrightarrow>
    capture bufs s = s\<lparr>ms_self := (ms_self s)\<lparr>es_source := source_with [fs @ map frame_of bufs]\<rparr>\<rparr>"
  using assms
proof (induction bufs arbitrary: s fs)
  case (Cons b bufs)
  have 1: "ReadBufferCallback b (ms_self s) = (ms_self s)\<lparr>es_source := source_with [fs @ [frame_of b]]\<rparr>"
    using Cons.prems by (intro callback_appends) auto
  let ?s = "s\<lparr>ms_self := ReadBufferCallback b (ms_self s)\<rparr>"
  have "capture bufs ?s = ?s\<lparr>ms_self := (ms_self ?s)\<lparr>es_source := source_with [(fs @ [frame_of b]) @ map frame_of bufs]\<rparr>\<rparr>"
    using Cons.prems by (intro Cons.IH) (auto simp: 1)
  then show ?case by (simp add: capture_def 1)
qed (simp add: capture_def)

lemma read_one:
  assumes fit: "engine_fit READ_CAPTURER s" and u: "es_channels (ms_self s) = 1" "es_source (ms_self s) = source_with [f # fs]"
  shows "\<exists>t. Engine_Read now [] s = Ret (0, f, t) \<and> engine_fit READ_CAPTURER t \<and>
    es_channels (ms_self t) = 1 \<and> es_source (ms_self t) = source_with [fs]"
proof -
  let ?m = "state_msg READ InNull (Some (OutData []))"
  let ?r = "HandleRead ?m (state_id READ_CAPTURER) (ms_self s)"
  have up: "[0 ..< 4] = [0, 1, 2, 3 :: nat]" by (simp add: upt_rec)
  have "WakeupSource_Read (w_arrive (es_world (ms_self s))) [] 1 (source_with [f # fs]) = (0, f, source_with [fs])"
    unfolding WakeupSource_Read_def up by (simp add: ReadChannelData_source bit_1_iff)
  then have r: "h_ret ?r = 0" "h_next ?r = state_id READ_CAPTURER"
    "h_self ?r = (ms_self s)\<lparr>es_source := source_with [fs], es_out := Some (OutData f)\<rparr>"
    using u by (simp_all add: HandleRead_def out_of_def state_msg_def result_def)
  from engine_call [OF fit, of ?m HandleRead READ_CAPTURER now] r obtain t where
    "Engine_Handle now ?m s = Ret (0, t)" "ms_self t = h_self ?r" "engine_fit READ_CAPTURER t"
    by (auto simp: handlers_def state_msg_def)
  then show ?thesis using r(3) u
    by (intro exI [of _ t]) (simp add: Engine_Read_def HandleCapturerMsg_def)
qed

lemma reads_all:
  "engine_fit READ_CAPTURER s \<Longrightarrow> es_channels (ms_self s) = 1 \<Longrightarrow> es_source (ms_self s) = source_with [fs] \<Longrightarrow>
   length nows = length fs \<Longrightarrow> \<exists>t. engine_reads nows s = Ret (fs, t) \<and> engine_fit READ_CAPTURER t"
proof (induction nows arbitrary: s fs)
  case (Cons now nows)
  then obtain f gs where fs: "fs = f # gs" by (cases fs) auto
  obtain t where t: "Engine_Read now [] s = Ret (0, f, t)" "engine_fit READ_CAPTURER t"
    "es_channels (ms_self t) = 1" "es_source (ms_self t) = source_with [gs]"
    using read_one [OF Cons.prems(1,2)] Cons.prems(3) fs by blast
  obtain v where "engine_reads nows t = Ret (gs, v)" "engine_fit READ_CAPTURER v"
    using Cons.IH [OF t(2,3,4)] Cons.prems(4) fs by auto
  then show ?case using t(1) fs by auto
qed auto

text \<open>
  C37. The whole path of a single-channel session: after a wake-up report and a capturer request that
  succeed, the buffers the capturer thread delivers (as many as the queue holds) are exactly what
  that many reads return to the client, in order, each as the bytes of its samples, and the session
  is still being read.
\<close>

theorem engine_delivers_audio:
  assumes r: "reach engine_start engine_step (s, p)" and c: "ms_currState s = Some (state_id INITIALIZED)"
    and one: "es_streamChannels (ms_self s) = 1"
    and w: "w_audioManager (es_world (ms_self s))" "w_created (es_world (ms_self s))"
      "w_started (es_world (ms_self s))" "w_permission (es_world (ms_self s)) = 0"
    and bufs: "[] \<notin> set bufs" "length bufs \<le> MAX_CAPACITY" "length nows = length bufs"
  shows "\<exists>t1 t2 t3. Engine_OnDetected n0 uuid s = Ret (False, t1) \<and> Engine_StartCapturer n1 1 t1 = Ret (0, t2) \<and>
    engine_reads nows (capture bufs t2) = Ret (map frame_of bufs, t3) \<and> CurrState t3 = state_id READ_CAPTURER"
proof -
  from wakeup_call [OF reach_at(2) [OF r c], of n0 uuid] one w obtain t1 where
    t1: "Engine_OnDetected n0 uuid s = Ret (False, t1)" "engine_fit RECOGNIZED t1" "es_source (ms_self t1) = source_with [[]]"
      "es_streamChannels (ms_self t1) = 1" "es_world (ms_self t1) = es_world (ms_self s)" "es_channelId (ms_self t1) = 0"
    by auto
  let ?m = "state_msg START_CAPTURER (InInt 1) None"
  from engine_call [OF t1(2), of ?m HandleStartCapturer READ_CAPTURER n1] t1(5) w(4) obtain t2 where
    "Engine_Handle n1 ?m t1 = Ret (0, t2)" and u2: "ms_self t2 = (ms_self t1)\<lparr>es_channels := 1\<rparr>"
    and f2: "engine_fit READ_CAPTURER t2"
    by (auto simp: handlers_def state_msg_def HandleStartCapturer_def in_of_def result_def)
  then have t2: "Engine_StartCapturer n1 1 t1 = Ret (0, t2)"
    by (simp add: Engine_StartCapturer_def HandleCapturerMsg_def)
  let ?c = "capture bufs t2"
  have cap: "?c = t2\<lparr>ms_self := (ms_self t2)\<lparr>es_source := source_with [map frame_of bufs]\<rparr>\<rparr>"
    using capture_appends [of t2 "[]" bufs] u2 t1 bufs by simp
  have "fields_ok READ_CAPTURER (ms_self ?c)"
    using f2 u2 t1(3) by (simp add: cap machine_fit_def fields_ok_def source_with_def)
  then have "engine_fit READ_CAPTURER ?c" using f2 by (simp add: cap machine_fit_def tables_ok_def)
  from reads_all [OF this, of "map frame_of bufs" nows] u2 bufs(3) obtain t3 where
    "engine_reads nows ?c = Ret (map frame_of bufs, t3)" "engine_fit READ_CAPTURER t3"
    by (auto simp: cap)
  then show ?thesis using t1(1) t2 by (auto simp: machine_fit_def CurrState_def)
qed

lemma engine_delivers_audio_witness:
  "\<exists>s t1 t2 t3. Engine_OnDetected 0 1 s = Ret (False, t1) \<and> Engine_StartCapturer 1 1 t1 = Ret (0, t2) \<and>
     engine_reads [2, 3] (capture [[0x0102], [3]] t2) = Ret ([[2, 1], [3, 0]], t3)"
proof -
  obtain s where s: "reach engine_start engine_step (s, None)" "ms_currState s = Some (state_id INITIALIZED)"
    "es_streamChannels (ms_self s) = 1" "es_world (ms_self s) = demo_world"
    using demo_initialized by blast
  have "map frame_of [[0x0102], [3]] = [[2, 1], [3, 0]]" by (simp add: frame_of_def sample_bytes_def)
  moreover have "2 \<le> MAX_CAPACITY" by (simp add: MAX_CAPACITY_def)
  ultimately show ?thesis
    using engine_delivers_audio [OF s(1,2,3), of "[[0x0102], [3]]" "[2, 3]" 0 1 1] s(4)
    by (auto simp: demo_world_def)
qed

subsection \<open>A stale timeout\<close>

text \<open>
  The timer thread delivers outside the lock. A timeout it has taken just before the client stops
  the session and a new wake-up starts the next one is delivered to the new session, whose own timer
  is still pending, and ends it.
\<close>

lemma stale_timeout_ends_next_session:
  assumes s: "reach engine_start engine_step (s, Some ev)" "ms_currState s = Some (state_id RECOGNIZED)"
    "te_type ev = cfg_type (cfg_of RECOGNIZED)" "es_world (ms_self s) = demo_world"
  shows "\<exists>t1 t2 t3. Engine_StopCapturer n1 s = Ret (0, t1) \<and> Engine_OnDetected n2 uuid t1 = Ret (False, t2) \<and>
    ms_queue t2 \<noteq> [] \<and> OnTimerEvent n3 ev t2 = Ret t3 \<and> CurrState t3 = state_id INITIALIZED"
proof -
  let ?m = "state_msg STOP_CAPTURER InNull None"
  from engine_call [OF reach_at(2) [OF s(1,2)], of ?m HandleStopCapturer INITIALIZED n1] obtain t1 where
    t1: "Engine_Handle n1 ?m s = Ret (0, t1)" "ms_self t1 = StopAudioSource (ms_self s)" "engine_fit INITIALIZED t1"
    by (auto simp: handlers_def state_msg_def HandleStopCapturer_def result_def)
  have w: "es_world (ms_self t1) = demo_world" using t1(2) s(4) by (simp add: StopAudioSource_def)
  from wakeup_call [OF t1(3), of n2 uuid] w obtain t2 where
    t2: "Engine_OnDetected n2 uuid t1 = Ret (False, t2)" "engine_fit RECOGNIZED t2" "ms_queue t2 \<noteq> []"
    by (auto simp: demo_world_def)
  let ?e = "\<lparr>msgId = te_type ev, inMsg = TimerMsg ev\<rparr>"
  have b: "busy RECOGNIZED" by (simp add: busy_def)
  from engine_call [OF t2(2), of ?e HandleStopCapturer INITIALIZED n3] timeout_handler [OF b] s(3) obtain t3 where
    t3: "Engine_Handle n3 ?e t2 = Ret (0, t3)" "ms_currState t3 = Some (state_id INITIALIZED)"
    by (auto simp: HandleStopCapturer_def result_def)
  have "OnTimerEvent n3 ev t2 = Ret t3"
    using t3(1) t2(2) by (simp add: OnTimerEvent_def Engine_Handle_def machine_fit_def IsStatesInitSucc_def)
  then show ?thesis using t1(1) t2 t3(2)
    by (auto simp: Engine_StopCapturer_def HandleCapturerMsg_def CurrState_def)
qed

end
