(* ===== verification/Engine_Util.thy ===== *)
theory Engine_Util
  imports Wakeup_Track String_Util Audio_Util Trigger_Helper
begin

text \<open>
  What the recognition engines share: the key-value store behind \<open>HistoryInfoMgr\<close>
  (\<open>utils/history_info_mgr\<close>, \<open>utils/service_db_helper\<close>) and the class \<open>EngineUtil\<close>
  (\<open>services/intell_voice_engine/server/base/engine_util\<close>), which every engine inherits: the calls of the
  engine adapter of the driver and the parameters set on it. The driver is the record \<open>hdi\<close> of functions
  on its state \<open>'a\<close>; a null adapter pointer is a flag of the engine. \<open>engine_answers\<close> is what the
  surroundings answer at the moment; calls that leave the engine are appended to \<open>cx_calls\<close>.
\<close>

section \<open>Surroundings\<close>

record adapter_info =
  ai_wakeupPhrase :: string
  ai_minBufSize :: int
  ai_sampleChannels :: int
  ai_bitsPerSample :: int
  ai_sampleRate :: int

text \<open>Shared memory handed out by the driver: its content and whether it can be mapped and read.\<close>

record ashmem =
  am_data :: bytes
  am_map :: bool
  am_read :: bool

record evaluation =
  ev_score :: int
  ev_resultCode :: int

text \<open>Files the driver or the reporter offers for upload: kind, description and contents.\<close>

record upload_file =
  uf_type :: int
  uf_filesDescription :: string
  uf_filesContent :: "ashmem list"

text \<open>The last fields are enumerators of the driver interface.\<close>

record 'a hdi =
  hdi_Create :: "int \<Rightarrow> 'a \<Rightarrow> bool \<times> 'a"
  hdi_Release :: "int \<Rightarrow> 'a \<Rightarrow> 'a"
  hdi_SetCallback :: "'a \<Rightarrow> 'a"
  hdi_Attach :: "adapter_info \<Rightarrow> 'a \<Rightarrow> int \<times> 'a"
  hdi_Detach :: "'a \<Rightarrow> int \<times> 'a"
  hdi_SetParameter :: "string \<Rightarrow> 'a \<Rightarrow> int \<times> 'a"
  hdi_GetParameter :: "string \<Rightarrow> 'a \<Rightarrow> string \<times> 'a"
  hdi_Start :: "bool \<Rightarrow> 'a \<Rightarrow> int \<times> 'a"
  hdi_Stop :: "'a \<Rightarrow> int \<times> 'a"
  hdi_WriteAudio :: "bytes \<Rightarrow> 'a \<Rightarrow> int \<times> 'a"
  hdi_Read :: "int \<Rightarrow> 'a \<Rightarrow> ashmem option \<times> 'a"
  hdi_GetWakeupPcm :: "bytes \<Rightarrow> 'a \<Rightarrow> int \<times> bytes \<times> 'a"
  hdi_Evaluate :: "string \<Rightarrow> 'a \<Rightarrow> int \<times> evaluation \<times> 'a"
  hdi_SourceFiles :: "'a \<Rightarrow> int \<times> string list \<times> 'a"
  hdi_SourceFile :: "string \<Rightarrow> 'a \<Rightarrow> int \<times> bytes \<times> 'a"
  hdi_SendFile :: "string \<Rightarrow> bytes \<Rightarrow> 'a \<Rightarrow> int \<times> 'a"
  hdi_UploadFiles :: "int \<Rightarrow> 'a \<Rightarrow> int \<times> upload_file list \<times> 'a"
  hdi_ClearUserWakeupData :: "string \<Rightarrow> 'a \<Rightarrow> 'a"
  ENROLL_ADAPTER_TYPE :: int
  WAKEUP_ADAPTER_TYPE :: int
  UPDATE_ADAPTER_TYPE :: int
  IMPLICIT_ENROLL_ADAPTER_TYPE :: int
  DSP_MODLE :: int
  SHORT_WORD_DSP_MODEL :: int

text \<open>
  \<open>an_triggerGet\<close>, \<open>an_switch\<close>: replies of the message bus, \<open>None\<close> when it returns no value.
  \<open>an_triggerParams\<close>: the keys \<open>TRIGGER_PARAMS\<close>. \<open>an_capturers\<close>: the source types of the capturers in use,
  \<open>None\<close> for a null entry. \<open>an_time\<close>: the seconds and microseconds of \<open>gettimeofday\<close>.
  \<open>an_versionFile\<close>: the first line of the version file, \<open>None\<close> when it cannot be opened. \<open>an_inputDevices\<close>: the types of
  the input devices. \<open>an_tse\<close>: the result of the offline processing of the enrolled audio. \<open>an_json\<close>: the members of the
  object a text parses to, \<open>None\<close> when it is no JSON. \<open>an_host13\<close>: the driver offers interface 1.3. \<open>an_whispering\<close>: the audio
  system's answer, \<open>None\<close> when it is missing. \<open>an_reportFiles\<close>: the files of the reporter. \<open>an_file\<close>: the content
  of a file, \<open>None\<close> when it does not exist. \<open>an_put\<close>, \<open>an_delete\<close>: whether the key-value store carries out a \<open>Put\<close> or
  \<open>Delete\<close> of the key.
\<close>

text \<open>What a call of the privacy manager returns: 0, \<open>ERR_PERMISSION_ALREADY_START_USING\<close> or another error.\<close>

datatype privacy_result = PRIVACY_OK | ERR_PERMISSION_ALREADY_START_USING | PRIVACY_ERROR

text \<open>
  A value of the JSON library. A real has what the library makes of it: the \<open>int\<close> it is equal to, if any, whether
  it is not zero, and its text. \<open>JOther\<close>: an array or an object.
\<close>

datatype json_value = JString string | JInt int | JBool bool | JNull | JReal "int option" bool string | JOther

record engine_answers =
  an_triggerGet :: "string \<Rightarrow> string option"
  an_switch :: "string \<Rightarrow> bool option"
  an_support :: "string \<Rightarrow> bool"
  an_sensibility :: "string \<Rightarrow> string \<Rightarrow> string"
  an_triggerParams :: "string list"
  an_screenOff :: bool
  an_audioManager :: bool
  an_streamManager :: bool
  an_capturers :: "SourceType option list"
  an_created :: bool
  an_started :: bool
  an_permission :: int
  an_startUsing :: privacy_result
  an_usedRecord :: privacy_result
  an_stopUsing :: privacy_result
  an_token :: nat
  an_arrive :: "nat \<Rightarrow> bytes option"
  an_time :: "int \<times> int"
  an_versionFile :: "string option"
  an_inputDevices :: "int list"
  an_tse :: int
  an_json :: "string \<Rightarrow> (string \<rightharpoonup> json_value) option"
  an_host13 :: bool
  an_whispering :: "bool option"
  an_reportFiles :: "int \<Rightarrow> upload_file list"
  an_file :: "string \<Rightarrow> bytes option"
  an_put :: "string \<Rightarrow> bool"
  an_delete :: "string \<Rightarrow> bool"

datatype IntellVoiceEngineType = INTELL_VOICE_ENROLL | INTELL_VOICE_WAKEUP | INTELL_VOICE_UPDATE | INTELL_VOICE_DEVICE
  | INTELL_VOICE_IMPLICIT_ENROLL | ENGINE_TYPE_BUT | INTELL_VOICE_HEADSET_WAKEUP

datatype asr_mode = BYPASS | STANDARD | NEAR_FIELD | FOLDED_MODE | EXPAND_MODE | NORMAL_REG | TOPMIC_REG

text \<open>The events of the driver; other message ids are of no interest.\<close>

datatype engine_msg_id = MSG_INIT_DONE | MSG_RECOGNIZE_COMPLETE | MSG_HEADSET_RECOGNIZE_COMPLETE
  | MSG_ENROLL_COMPLETE | MSG_COMMIT_ENROLL_COMPLETE | MSG_OTHER

record engine_event =
  ee_msgId :: engine_msg_id
  ee_result :: int
  ee_info :: string

datatype engine_call =
    TriggerSetParameter string string
  | TriggerUpdateModel bytes int TriggerModelType
  | SetAsrAecMode asr_mode
  | SetAsrNoiseSuppressionMode asr_mode
  | StartUsingPermission nat privacy_result
  | AddPermissionUsedRecord nat privacy_result
  | StopUsingPermission nat privacy_result
  | SubscribeSwingEvent string string
  | UnSubscribeSwingEvent string string
  | CommonEvent string
  | OnIntellVoiceEngineEvent nat engine_event
  | CloseWakeupSource
  | UpdateComplete nat int
  | StartAbility string
  | OfflineAudio
  | SwitchOn int
  | UnloadService
  | SelectInputDevice "int list"
  | SetEnrollResult IntellVoiceEngineType bool
  | ReleaseImplicitEnrollEngine

record 'a engine_ctx =
  cx_kv :: "(string \<rightharpoonup> string) option"
  cx_host :: 'a
  cx_track :: wakeup_track
  cx_answers :: engine_answers
  cx_calls :: "engine_call list"

definition emit :: "engine_call \<Rightarrow> 'a engine_ctx \<Rightarrow> 'a engine_ctx" where
  "emit c x = x\<lparr>cx_calls := cx_calls x @ [c]\<rparr>"

section \<open>IntellVoiceUtil\<close>

text \<open>\<open>RecordPermissionPrivacy\<close> for the microphone permission. A failed record leaves the use open.\<close>

datatype IntellVoicePermissionState = INTELL_VOICE_PERMISSION_START | INTELL_VOICE_PERMISSION_STOP

definition RecordPermissionPrivacy ::
  "IntellVoicePermissionState \<Rightarrow> nat \<Rightarrow> 'a engine_ctx \<Rightarrow> bool \<times> 'a engine_ctx" where
  "RecordPermissionPrivacy state targetTokenId x =
     (case state of
        INTELL_VOICE_PERMISSION_START \<Rightarrow>
          (let ret = an_startUsing (cx_answers x); x1 = emit (StartUsingPermission targetTokenId ret) x
           in if ret \<noteq> PRIVACY_OK \<and> ret \<noteq> ERR_PERMISSION_ALREADY_START_USING then (False, x1)
              else let ret1 = an_usedRecord (cx_answers x1); x2 = emit (AddPermissionUsedRecord targetTokenId ret1) x1
                   in if ret1 \<noteq> PRIVACY_OK \<and> ret1 \<noteq> ERR_PERMISSION_ALREADY_START_USING then (False, x2)
                      else (True, x2))
      | INTELL_VOICE_PERMISSION_STOP \<Rightarrow>
          (let ret = an_stopUsing (cx_answers x); x1 = emit (StopUsingPermission targetTokenId ret) x
           in if ret \<noteq> PRIVACY_OK then (False, x1) else (True, x1)))"

section \<open>HistoryInfoMgr\<close>

text \<open>The status of the store's \<open>Put\<close> and \<open>Delete\<close> is dropped.\<close>

definition SetStringKVPair :: "string \<Rightarrow> string \<Rightarrow> 'a engine_ctx \<Rightarrow> 'a engine_ctx" where
  "SetStringKVPair k v x =
     x\<lparr>cx_kv := map_option (\<lambda>m. if an_put (cx_answers x) k then m(k \<mapsto> v) else m) (cx_kv x)\<rparr>"

definition GetStringKVPair :: "string \<Rightarrow> 'a engine_ctx \<Rightarrow> string" where
  "GetStringKVPair k x =
     (case cx_kv x of None \<Rightarrow> '''' | Some m \<Rightarrow> (case m k of None \<Rightarrow> '''' | Some v \<Rightarrow> v))"

definition DeleteKey :: "string list \<Rightarrow> 'a engine_ctx \<Rightarrow> 'a engine_ctx" where
  "DeleteKey ks x =
     fold (\<lambda>k x. x\<lparr>cx_kv := map_option (\<lambda>m. if an_delete (cx_answers x) k then m(k := None) else m) (cx_kv x)\<rparr>) ks x"

definition SetIntKVPair :: "string \<Rightarrow> int \<Rightarrow> 'a engine_ctx \<Rightarrow> 'a engine_ctx" where
  "SetIntKVPair k v x = SetStringKVPair k (to_string v) x"

definition GetIntKVPair :: "string \<Rightarrow> 'a engine_ctx \<Rightarrow> int" where
  "GetIntKVPair k x = signed_take_bit 31 (fst (strtol (c_str (GetStringKVPair k x))))"

section \<open>EngineUtil\<close>

definition CreateAdapterInner :: "'a hdi \<Rightarrow> int \<Rightarrow> 'a engine_ctx \<Rightarrow> bool \<times> 'a engine_ctx" where
  "CreateAdapterInner H ty x = (case hdi_Create H ty (cx_host x) of (ok, h) \<Rightarrow> (ok, x\<lparr>cx_host := h\<rparr>))"

definition ReleaseAdapterInner :: "'a hdi \<Rightarrow> int \<Rightarrow> 'a engine_ctx \<Rightarrow> bool \<times> 'a engine_ctx" where
  "ReleaseAdapterInner H ty x = (False, x\<lparr>cx_host := hdi_Release H ty (cx_host x)\<rparr>)"

definition adapter_SetParameter :: "'a hdi \<Rightarrow> string \<Rightarrow> 'a engine_ctx \<Rightarrow> int \<times> 'a engine_ctx" where
  "adapter_SetParameter H kv x = (case hdi_SetParameter H kv (cx_host x) of (r, h) \<Rightarrow> (r, x\<lparr>cx_host := h\<rparr>))"

definition EU_SetParameter :: "'a hdi \<Rightarrow> bool \<Rightarrow> string \<Rightarrow> 'a engine_ctx \<Rightarrow> int \<times> 'a engine_ctx" where
  "EU_SetParameter H adapter kv x = (if \<not> adapter then (-1, x) else adapter_SetParameter H kv x)"

definition EU_GetParameter :: "'a hdi \<Rightarrow> bool \<Rightarrow> string \<Rightarrow> 'a engine_ctx \<Rightarrow> string \<times> 'a engine_ctx" where
  "EU_GetParameter H adapter key x =
     (if \<not> adapter then ('''', x)
      else (case hdi_GetParameter H key (cx_host x) of (v, h) \<Rightarrow> (v, x\<lparr>cx_host := h\<rparr>)))"

definition EU_WriteAudio :: "'a hdi \<Rightarrow> bool \<Rightarrow> bytes \<Rightarrow> 'a engine_ctx \<Rightarrow> int \<times> 'a engine_ctx" where
  "EU_WriteAudio H adapter buf x =
     (if \<not> adapter then (-1, x)
      else if buf = [] then (-1, x)
      else (case hdi_WriteAudio H buf (cx_host x) of (r, h) \<Rightarrow> (r, x\<lparr>cx_host := h\<rparr>)))"

definition EU_Stop :: "'a hdi \<Rightarrow> bool \<Rightarrow> 'a engine_ctx \<Rightarrow> int \<times> 'a engine_ctx" where
  "EU_Stop H adapter x =
     (if \<not> adapter then (-1, x) else (case hdi_Stop H (cx_host x) of (r, h) \<Rightarrow> (r, x\<lparr>cx_host := h\<rparr>)))"

definition EU_GetWakeupPcm :: "'a hdi \<Rightarrow> bool \<Rightarrow> bytes \<Rightarrow> 'a engine_ctx \<Rightarrow> int \<times> bytes \<times> 'a engine_ctx" where
  "EU_GetWakeupPcm H adapter data x =
     (if \<not> adapter then (-1, data, x)
      else (case hdi_GetWakeupPcm H data (cx_host x) of (r, d, h) \<Rightarrow> (r, d, x\<lparr>cx_host := h\<rparr>)))"

definition SetDspFeatures :: "'a hdi \<Rightarrow> bool \<Rightarrow> 'a engine_ctx \<Rightarrow> bool \<times> 'a engine_ctx" where
  "SetDspFeatures H adapter x =
     (if \<not> adapter then (False, x)
      else (case an_triggerGet (cx_answers x) ''wakeup_features'' of
          None \<Rightarrow> (False, x)
        | Some reported \<Rightarrow>
            (let features = (if reported = '''' then GetStringKVPair ''WakeupDspFeature'' x else reported)
             in if features = '''' then (False, x)
                else let x1 = (if reported = '''' then x else SetStringKVPair ''WakeupDspFeature'' features x)
                     in (True, snd (adapter_SetParameter H (''wakeup_features='' @ features) x1)))))"

definition WriteBufferFromAshmem :: "ashmem \<Rightarrow> bytes option" where
  "WriteBufferFromAshmem m = (if \<not> am_map m then None else if \<not> am_read m then None else Some (am_data m))"

definition ReadDspModel :: "'a hdi \<Rightarrow> bool \<Rightarrow> int \<Rightarrow> 'a engine_ctx \<Rightarrow> bytes \<times> 'a engine_ctx" where
  "ReadDspModel H adapter ty x =
     (if \<not> adapter then ([], x)
      else (case hdi_Read H ty (cx_host x) of (am, h) \<Rightarrow>
        (case am of
           None \<Rightarrow> ([], x\<lparr>cx_host := h\<rparr>)
         | Some m \<Rightarrow>
             if am_data m = [] then ([], x\<lparr>cx_host := h\<rparr>)
             else (case WriteBufferFromAshmem m of
                None \<Rightarrow> ([], x\<lparr>cx_host := h\<rparr>)
              | Some buffer \<Rightarrow> (buffer, x\<lparr>cx_host := h\<rparr>)))))"

definition ProcDspModel :: "bytes \<Rightarrow> 'a engine_ctx \<Rightarrow> 'a engine_ctx" where
  "ProcDspModel buffer x = (if buffer = [] then x else emit (TriggerUpdateModel buffer 1 VOICE_WAKEUP_TYPE) x)"

definition set_stored :: "'a hdi \<Rightarrow> bool \<Rightarrow> string \<Rightarrow> string \<Rightarrow> 'a engine_ctx \<Rightarrow> 'a engine_ctx" where
  "set_stored H adapter key txt x =
     (if \<not> adapter then x
      else let v = GetStringKVPair key x
           in if v = '''' then x else snd (adapter_SetParameter H (txt @ v) x))"

definition SetLanguage :: "'a hdi \<Rightarrow> bool \<Rightarrow> 'a engine_ctx \<Rightarrow> 'a engine_ctx" where
  "SetLanguage H adapter x = set_stored H adapter ''Language'' ''language='' x"

definition SetArea :: "'a hdi \<Rightarrow> bool \<Rightarrow> 'a engine_ctx \<Rightarrow> 'a engine_ctx" where
  "SetArea H adapter x = set_stored H adapter ''Area'' ''area='' x"

definition SetWhisperVpr :: "'a hdi \<Rightarrow> bool \<Rightarrow> 'a engine_ctx \<Rightarrow> 'a engine_ctx" where
  "SetWhisperVpr H adapter x =
     (if \<not> adapter then x
      else snd (adapter_SetParameter H (''WhisperVpr='' @ GetStringKVPair ''WhisperVpr'' x) x))"

definition SetSensibility :: "'a hdi \<Rightarrow> bool \<Rightarrow> 'a engine_ctx \<Rightarrow> 'a engine_ctx" where
  "SetSensibility H adapter x =
     (if \<not> adapter then x
      else let sensibility = GetStringKVPair ''Sensibility'' x
           in if sensibility = '''' then x
              else (case an_triggerGet (cx_answers x) ''wakeup_features'' of
                  None \<Rightarrow> x
                | Some features \<Rightarrow>
                    (let v = an_sensibility (cx_answers x) sensibility features
                     in if v = '''' then x
                        else snd (adapter_SetParameter H (''sensibility='' @ sensibility)
                                    (emit (TriggerSetParameter ''WAKEUP_SENSIBILITY'' v) x)))))"

definition EU_SetTriggerParameter :: "'a engine_ctx \<Rightarrow> 'a engine_ctx" where
  "EU_SetTriggerParameter x =
     fold (\<lambda>p x. let v = GetStringKVPair p x in if v = '''' then x else emit (TriggerSetParameter p v) x)
       (an_triggerParams (cx_answers x)) x"

text \<open>The devices of the type asked for.\<close>

definition EU_SelectInputDevice :: "int \<Rightarrow> 'a engine_ctx \<Rightarrow> 'a engine_ctx" where
  "EU_SelectInputDevice ty x =
     (if \<not> an_audioManager (cx_answers x) then x
      else emit (SelectInputDevice (filter (\<lambda>d. d = ty) (an_inputDevices (cx_answers x)))) x)"

definition EU_Evaluate :: "'a hdi \<Rightarrow> bool \<Rightarrow> string \<Rightarrow> evaluation \<Rightarrow> 'a engine_ctx \<Rightarrow> int \<times> evaluation \<times> 'a engine_ctx" where
  "EU_Evaluate H adapter word info x =
     (if \<not> adapter then (-1, info, x)
      else (case hdi_Evaluate H word (cx_host x) of (r, e, h) \<Rightarrow> (r, e, x\<lparr>cx_host := h\<rparr>)))"

definition SetScreenStatus :: "'a hdi \<Rightarrow> bool \<Rightarrow> 'a engine_ctx \<Rightarrow> 'a engine_ctx" where
  "SetScreenStatus H adapter x =
     snd (EU_SetParameter H adapter (if an_screenOff (cx_answers x) then ''screenoff=true'' else ''screenoff=false'') x)"

definition SetImproveParam :: "'a hdi \<Rightarrow> bool \<Rightarrow> 'a engine_ctx \<Rightarrow> 'a engine_ctx" where
  "SetImproveParam H adapter x = (if \<not> adapter then x else snd (adapter_SetParameter H ''userImproveOn=true'' x))"

section \<open>Lemmas\<close>

lemma KV_lookup:
  "cx_kv x \<noteq> None \<Longrightarrow>
   GetStringKVPair k (SetStringKVPair j v x) = (if k = j \<and> an_put (cx_answers x) j then v else GetStringKVPair k x)"
  by (auto simp: GetStringKVPair_def SetStringKVPair_def)

text \<open>
  The uses of the microphone the privacy manager knows of, by the calls made to it: those that are open,
  and of them those it has refused to record after opening or refused to close, which the code then
  forgets. None of the operations on the adapter touches them; \<open>quiet\<close> collects the operations for
  which this holds.
\<close>

fun mic_call :: "engine_call \<Rightarrow> nat set \<times> nat set \<Rightarrow> nat set \<times> nat set" where
  "mic_call (StartUsingPermission t r) (us, fs) = (if r = PRIVACY_ERROR then us else insert t us, fs)"
| "mic_call (AddPermissionUsedRecord t r) (us, fs) = (us, if r = PRIVACY_ERROR then insert t fs else fs - {t})"
| "mic_call (StopUsingPermission t r) (us, fs) = (if r = PRIVACY_OK then (us - {t}, fs - {t}) else (us, insert t fs))"
| "mic_call _ p = p"

definition mic_users :: "'a engine_ctx \<Rightarrow> nat set \<times> nat set" where
  "mic_users x = fold mic_call (cx_calls x) ({}, {})"

definition open_uses :: "'a engine_ctx \<Rightarrow> nat set" where
  "open_uses x = fst (mic_users x)"

definition refused_uses :: "'a engine_ctx \<Rightarrow> nat set" where
  "refused_uses x = snd (mic_users x)"

text \<open>Beside the refused uses exactly the clients \<open>hs\<close> have theirs open.\<close>

definition mic_held :: "nat set \<Rightarrow> nat set \<times> nat set \<Rightarrow> bool" where
  "mic_held hs p \<longleftrightarrow> fst p = snd p \<union> hs"

named_theorems quiet "operations that leave the record of microphone use alone"

lemma mic_users_emit: "mic_users (emit c x) = mic_call c (mic_users x)"
  by (simp add: mic_users_def emit_def)

text \<open>
  What depends on the calls alone and on none of the calls the adapter's operations make: the uses of the
  microphone, and the notices to the clients.
\<close>

fun silent :: "engine_call \<Rightarrow> bool" where
  "silent (StartUsingPermission t r) = False"
| "silent (AddPermissionUsedRecord t r) = False"
| "silent (StopUsingPermission t r) = False"
| "silent (OnIntellVoiceEngineEvent c ev) = False"
| "silent _ = True"

locale silent_view =
  fixes view :: "'a engine_ctx \<Rightarrow> 'v"
  assumes view_calls: "cx_calls x = cx_calls y \<Longrightarrow> view x = view y"
    and view_emit: "silent c \<Longrightarrow> view (emit c x) = view x"
begin

lemma view_frames [quiet, simp]:
  "view (x\<lparr>cx_host := h\<rparr>) = view x" "view (x\<lparr>cx_kv := k\<rparr>) = view x"
  "view (x\<lparr>cx_track := t\<rparr>) = view x" "view (x\<lparr>cx_answers := a\<rparr>) = view x"
  by (rule view_calls; simp)+

lemma view_adapter [quiet, simp]:
  "view (snd (CreateAdapterInner H ty x)) = view x" "view (snd (ReleaseAdapterInner H ty x)) = view x"
  "view (snd (adapter_SetParameter H kv x)) = view x" "view (snd (EU_SetParameter H a kv x)) = view x"
  "view (snd (EU_GetParameter H a kv x)) = view x" "view (snd (EU_Stop H a x)) = view x"
  "view (snd (EU_WriteAudio H a b x)) = view x" "view (snd (snd (EU_GetWakeupPcm H a d x))) = view x"
  "view (snd (ReadDspModel H a ty x)) = view x" "view (SetStringKVPair k v x) = view x"
  by (simp_all add: CreateAdapterInner_def ReleaseAdapterInner_def adapter_SetParameter_def EU_SetParameter_def
      EU_GetParameter_def EU_Stop_def EU_WriteAudio_def EU_GetWakeupPcm_def ReadDspModel_def SetStringKVPair_def
      split: prod.split option.split)

lemma view_settings [quiet, simp]:
  "view (snd (SetDspFeatures H a x)) = view x" "view (ProcDspModel b x) = view x"
  "view (SetLanguage H a x) = view x" "view (SetArea H a x) = view x"
  "view (SetWhisperVpr H a x) = view x" "view (SetSensibility H a x) = view x"
  "view (SetScreenStatus H a x) = view x" "view (SetImproveParam H a x) = view x"
  by (simp_all add: SetDspFeatures_def ProcDspModel_def SetLanguage_def SetArea_def set_stored_def SetWhisperVpr_def
      SetSensibility_def SetScreenStatus_def SetImproveParam_def Let_def view_emit split: option.split)

lemma view_triggerParams [quiet, simp]: "view (EU_SetTriggerParameter x) = view x"
proof -
  have "view (fold (\<lambda>p x. let v = GetStringKVPair p x in if v = '''' then x else emit (TriggerSetParameter p v) x) ps x) =
    view x" for ps
    by (induction ps arbitrary: x) (simp_all add: Let_def view_emit)
  then show ?thesis by (simp add: EU_SetTriggerParameter_def)
qed

end

definition notices :: "'a engine_ctx \<Rightarrow> engine_call list" where
  "notices x = filter (\<lambda>c. case c of OnIntellVoiceEngineEvent _ _ \<Rightarrow> True | _ \<Rightarrow> False) (cx_calls x)"

interpretation mic: silent_view mic_users
proof
  show "mic_users x = mic_users y" if "cx_calls x = cx_calls y" for x y :: "'a engine_ctx"
    using that by (simp add: mic_users_def)
  show "mic_users (emit c x) = mic_users x" if "silent c" for c and x :: "'a engine_ctx"
    using that by (cases c) (simp_all add: mic_users_emit)
qed

interpretation told: silent_view notices
proof
  show "notices x = notices y" if "cx_calls x = cx_calls y" for x y :: "'a engine_ctx"
    using that by (simp add: notices_def)
  show "notices (emit c x) = notices x" if "silent c" for c and x :: "'a engine_ctx"
    using that by (cases c) (simp_all add: notices_def emit_def)
qed

lemmas quiet_adapter = mic.view_adapter

lemma emit_answers: "cx_answers (emit c x) = cx_answers x"
  by (simp add: emit_def)

lemma privacy_start:
  assumes "RecordPermissionPrivacy INTELL_VOICE_PERMISSION_START t x = (b, y)" "mic_held {} (mic_users x)"
  shows "mic_held (if b then {t} else {}) (mic_users y)"
  using assms
  by (cases "mic_users x"; cases "an_startUsing (cx_answers x)"; cases "an_usedRecord (cx_answers x)")
    (auto simp: RecordPermissionPrivacy_def Let_def mic_users_emit mic_held_def emit_answers split: if_splits)

lemma privacy_stop:
  assumes "mic_held {t} (mic_users x)"
  shows "mic_held {} (mic_users (snd (RecordPermissionPrivacy INTELL_VOICE_PERMISSION_STOP t x)))"
  using assms
  by (cases "mic_users x"; cases "an_stopUsing (cx_answers x)")
    (auto simp: RecordPermissionPrivacy_def Let_def mic_users_emit mic_held_def)

lemma privacy_frames [simp]:
  "cx_kv (snd (RecordPermissionPrivacy st t x)) = cx_kv x" "cx_host (snd (RecordPermissionPrivacy st t x)) = cx_host x"
  "cx_track (snd (RecordPermissionPrivacy st t x)) = cx_track x" "cx_answers (snd (RecordPermissionPrivacy st t x)) = cx_answers x"
  by (simp_all add: RecordPermissionPrivacy_def Let_def emit_def split: IntellVoicePermissionState.split)

lemma privacy_notices [simp]: "notices (snd (RecordPermissionPrivacy st t x)) = notices x"
  by (simp add: RecordPermissionPrivacy_def Let_def notices_def emit_def split: IntellVoicePermissionState.split)

text \<open>
  A deviation: when opening the use succeeds and recording it does not, the function returns false and
  its callers give up, but the use stays open.
\<close>

lemma failed_record_leaves_use:
  assumes "an_startUsing (cx_answers x) = PRIVACY_OK" "an_usedRecord (cx_answers x) = PRIVACY_ERROR"
  shows "fst (RecordPermissionPrivacy INTELL_VOICE_PERMISSION_START t x) = False"
    "t \<in> open_uses (snd (RecordPermissionPrivacy INTELL_VOICE_PERMISSION_START t x))"
  using assms by (cases "mic_users x";
    simp add: RecordPermissionPrivacy_def Let_def open_uses_def mic_users_emit emit_answers)+

section \<open>An example\<close>

text \<open>A driver that accepts everything and surroundings without special features.\<close>

definition demo_hdi :: "unit hdi" where
  "demo_hdi = \<lparr>hdi_Create = (\<lambda>_ h. (True, h)), hdi_Release = (\<lambda>_ h. h), hdi_SetCallback = (\<lambda>h. h),
     hdi_Attach = (\<lambda>_ h. (0, h)), hdi_Detach = (\<lambda>h. (0, h)), hdi_SetParameter = (\<lambda>_ h. (0, h)),
     hdi_GetParameter = (\<lambda>_ h. ('''', h)), hdi_Start = (\<lambda>_ h. (0, h)), hdi_Stop = (\<lambda>h. (0, h)),
     hdi_WriteAudio = (\<lambda>_ h. (0, h)), hdi_Read = (\<lambda>_ h. (None, h)), hdi_GetWakeupPcm = (\<lambda>d h. (0, d, h)),
     hdi_Evaluate = (\<lambda>_ h. (0, \<lparr>ev_score = 0, ev_resultCode = 0\<rparr>, h)), hdi_SourceFiles = (\<lambda>h. (0, [], h)),
     hdi_SourceFile = (\<lambda>_ h. (0, [], h)), hdi_SendFile = (\<lambda>_ _ h. (0, h)), hdi_UploadFiles = (\<lambda>_ h. (0, [], h)),
     hdi_ClearUserWakeupData = (\<lambda>_ h. h), ENROLL_ADAPTER_TYPE = 0,
     WAKEUP_ADAPTER_TYPE = 1, UPDATE_ADAPTER_TYPE = 2, IMPLICIT_ENROLL_ADAPTER_TYPE = 4, DSP_MODLE = 0, SHORT_WORD_DSP_MODEL = 3\<rparr>"

definition demo_answers :: engine_answers where
  "demo_answers = \<lparr>an_triggerGet = (\<lambda>_. None), an_switch = (\<lambda>_. None), an_support = (\<lambda>_. False),
     an_sensibility = (\<lambda>_ _. ''''), an_triggerParams = [], an_screenOff = False, an_audioManager = True,
     an_streamManager = True, an_capturers = [], an_created = True, an_started = True, an_permission = 0,
     an_startUsing = PRIVACY_OK, an_usedRecord = PRIVACY_OK, an_stopUsing = PRIVACY_OK, an_token = 42, an_arrive = (\<lambda>_. None), an_time = (0, 0),
     an_versionFile = Some ''wakeup v.5.2.1'', an_inputDevices = [], an_tse = 0, an_json = (\<lambda>_. None),
     an_host13 = False, an_whispering = None, an_reportFiles = (\<lambda>_. []), an_file = (\<lambda>_. None),
     an_put = (\<lambda>_. True), an_delete = (\<lambda>_. True)\<rparr>"

definition demo_ctx :: "unit engine_ctx" where
  "demo_ctx = \<lparr>cx_kv = Some Map.empty, cx_host = (), cx_track = WakeupTrack_init, cx_answers = demo_answers, cx_calls = []\<rparr>"

end
