(* ===== verification/Update_Util.thy ===== *)
theory Update_Util
  imports Engine_Util
begin

text \<open>
  \<open>services/intell_voice_engine/server/update/update_engine_utils\<close>: the version of the installed wake-up resources, the
  version the user's enrolment was made with, and whether the one is newer than the other. A version
  \<open>5.2.1\<close> is kept as the decimal text \<open>050201\<close>; the theorem shows that comparing those numbers compares versions.
\<close>

definition pad_number :: "string \<Rightarrow> string" where
  "pad_number t = (if length t = 1 then ''0'' @ t else t)"

text \<open>\<open>None\<close>: the file cannot be opened. The separators are not empty, so \<open>Split\<close> returns.\<close>

definition GetWakeupVesion :: "string option \<Rightarrow> string" where
  "GetWakeupVesion file =
     (case file of
        None \<Rightarrow> ''''
      | Some wakeupVersion \<Rightarrow>
          if wakeupVersion = '''' then ''''
          else (case Split wakeupVersion ''v.'' of
              None \<Rightarrow> ''''
            | Some tokens \<Rightarrow>
                if length tokens \<noteq> 2 \<or> tokens ! 1 = '''' then ''''
                else (case Split (tokens ! 1) ''.'' of
                    None \<Rightarrow> ''''
                  | Some numbers \<Rightarrow> if length numbers \<noteq> 3 then '''' else concat (map pad_number numbers))))"

definition SaveWakeupVesion :: "'a engine_ctx \<Rightarrow> 'a engine_ctx" where
  "SaveWakeupVesion x =
     (let v = GetWakeupVesion (an_versionFile (cx_answers x))
      in if v = '''' then x else SetStringKVPair ''WakeupVersion'' v x)"

definition IsBackupSourceExist :: "'a hdi \<Rightarrow> 'a engine_ctx \<Rightarrow> bool \<times> 'a engine_ctx" where
  "IsBackupSourceExist H x =
     (case hdi_SourceFiles H (cx_host x) of (ret, files, h) \<Rightarrow>
        (ret = 0 \<and> list_ex (\<lambda>f. str_find ''enroll_phrase.txt'' f 0 \<noteq> None) files, x\<lparr>cx_host := h\<rparr>))"

definition IsVersionUpdate :: "'a hdi \<Rightarrow> 'a engine_ctx \<Rightarrow> bool \<times> 'a engine_ctx" where
  "IsVersionUpdate H x =
     (let saved = GetStringKVPair ''WakeupVersion'' x
      in if saved = '''' then (False, x)
         else let cur = GetWakeupVesion (an_versionFile (cx_answers x))
              in if cur = '''' then (False, x)
                 else (case (StringToInt saved, StringToInt cur) of
                     (Some historyVersion, Some curVersion) \<Rightarrow>
                       (case IsBackupSourceExist H x of (found, x1) \<Rightarrow>
                          if \<not> found then (False, x1) else (curVersion > historyVersion, x1))
                   | _ \<Rightarrow> (False, x)))"

section \<open>Frames\<close>

lemma quiet_version [quiet, simp]:
  "mic_users (SaveWakeupVesion x) = mic_users x" "mic_users (snd (IsBackupSourceExist H x)) = mic_users x"
  by (simp_all add: SaveWakeupVesion_def IsBackupSourceExist_def Let_def quiet_adapter split: prod.split)

section \<open>Versions\<close>

text \<open>The line of the version file.\<close>

definition version_line :: "string \<Rightarrow> nat \<times> nat \<times> nat \<Rightarrow> string" where
  "version_line name v = (case v of (a, b, c) \<Rightarrow>
     name @ ''v.'' @ nat_digits a @ ''.'' @ nat_digits b @ ''.'' @ nat_digits c)"

definition version_ok :: "nat \<times> nat \<times> nat \<Rightarrow> bool" where
  "version_ok v = (case v of (a, b, c) \<Rightarrow> a < 100 \<and> b < 100 \<and> c < 100)"

definition version_number :: "nat \<times> nat \<times> nat \<Rightarrow> nat" where
  "version_number v = (case v of (a, b, c) \<Rightarrow> 10000 * a + 100 * b + c)"

definition two_digits :: "nat \<Rightarrow> string" where
  "two_digits n = [char_of (48 + n div 10), char_of (48 + n mod 10)]"

lemma digit_no_dot: "is_digit c \<Longrightarrow> c \<noteq> CHR ''.'' \<and> c \<noteq> CHR ''v''"
  by (auto simp: is_digit_def)

lemma nat_digits_set: "c \<in> set (nat_digits n) \<Longrightarrow> c \<noteq> CHR ''.'' \<and> c \<noteq> CHR ''v''"
  using nat_digits_facts [of n] digit_no_dot by (auto simp: list_all_iff)

lemma pad_digits: "n < 100 \<Longrightarrow> pad_number (nat_digits n) = two_digits n"
proof -
  have z: "CHR ''0'' = char_of (48 :: nat)" by code_simp
  show "n < 100 \<Longrightarrow> ?thesis"
    by (cases "n < 10") (auto simp: pad_number_def two_digits_def z nat_digits.simps [of n] nat_digits.simps [of "n div 10"])
qed

lemma pieces_none: "sep \<noteq> [] \<Longrightarrow> s \<noteq> [] \<Longrightarrow> str_find sep s 0 = None \<Longrightarrow> pieces sep s = [s]"
  by (simp add: pieces.simps)

lemma str_find_vdot:
  assumes "CHR ''v'' \<notin> set p"
  shows "str_find ''v.'' (p @ ''v.'' @ rest) 0 = Some (length p)" "str_find ''v.'' p 0 = None"
proof -
  have no: "take 2 (drop i (p @ q)) \<noteq> ''v.''" if "i < length p" for i q
  proof -
    have "drop i (p @ q) = p ! i # drop (Suc i) (p @ q)" using that by (simp add: Cons_nth_drop_Suc [symmetric] nth_append)
    moreover have "p ! i \<noteq> CHR ''v''" using that assms nth_mem by metis
    ultimately show ?thesis by auto
  qed
  let ?s = "p @ ''v.'' @ rest"
  have "List.find (\<lambda>i. i + length ''v.'' \<le> length ?s \<and> take (length ''v.'') (drop i ?s) = ''v.'') [0 ..< Suc (length ?s)] =
      Some (length p)"
    unfolding find_Some_iff using no by (intro exI [of _ "length p"]) (auto simp: nth_append numeral_2_eq_2 simp del: upt_Suc)
  then show "str_find ''v.'' ?s 0 = Some (length p)" by (simp add: str_find_def del: upt_Suc)
  show "str_find ''v.'' p 0 = None"
    using no [where q = "[]"] by (auto simp: str_find_def find_None_iff numeral_2_eq_2 simp del: upt_Suc)
qed

lemma version_tokens:
  assumes "name \<noteq> []" "CHR ''v'' \<notin> set name"
  shows "Split (version_line name (a, b, c)) ''v.'' = Some [name, nat_digits a @ ''.'' @ nat_digits b @ ''.'' @ nat_digits c]"
    "Split (nat_digits a @ ''.'' @ nat_digits b @ ''.'' @ nat_digits c) ''.'' = Some [nat_digits a, nat_digits b, nat_digits c]"
proof -
  let ?v = "nat_digits a @ ''.'' @ nat_digits b @ ''.'' @ nat_digits c"
  have "CHR ''v'' \<notin> set ?v" using nat_digits_set by auto
  then have v: "pieces ''v.'' ?v = [?v]" using nat_digits_facts [of a] str_find_vdot(2) [of ?v] by (intro pieces_none) auto
  show "Split (version_line name (a, b, c)) ''v.'' = Some [name, ?v]"
    using str_find_vdot(1) [OF assms(2), of ?v] assms(1) v
    by (simp add: Split_pieces version_line_def pieces.simps [of _ "name @ _"])
  have "CHR ''.'' \<notin> set (nat_digits n)" for n using nat_digits_set by blast
  from pieces_join [of "CHR ''.''" "nat_digits c" "[nat_digits a, nat_digits b]", OF this] this
  have "pieces ''.'' ?v = [nat_digits a, nat_digits b, nat_digits c]" using nat_digits_facts by auto
  then show "Split ?v ''.'' = Some [nat_digits a, nat_digits b, nat_digits c]" by (simp add: Split_pieces)
qed

lemma version_text:
  assumes "name \<noteq> []" "CHR ''v'' \<notin> set name" "version_ok (a, b, c)"
  shows "GetWakeupVesion (Some (version_line name (a, b, c))) = two_digits a @ two_digits b @ two_digits c"
proof -
  have "version_line name (a, b, c) \<noteq> []" using assms(1) by (simp add: version_line_def)
  moreover have "nat_digits a \<noteq> []" using nat_digits_facts by blast
  ultimately show ?thesis
    using version_tokens [OF assms(1,2), of a b c] assms(3) by (simp add: GetWakeupVesion_def version_ok_def pad_digits)
qed

lemma two_digits_facts:
  "n < 100 \<Longrightarrow> list_all is_digit (two_digits n)"
  using digit_char(1) [of "n div 10"] digit_char(1) [of "n mod 10"] by (simp add: two_digits_def)

lemma version_value:
  assumes "version_ok (a, b, c)"
  shows "StringToInt (two_digits a @ two_digits b @ two_digits c) = Some (int (version_number (a, b, c)))"
proof -
  let ?t = "two_digits a @ two_digits b @ two_digits c"
  have d: "list_all is_digit ?t" using assms two_digits_facts by (simp add: version_ok_def)
  have n: "n div 10 < 10 \<and> n mod 10 < 10" if "n < 100" for n :: nat using that by auto
  have "digits_value ?t = int (version_number (a, b, c))"
    using assms n digit_char(2)
    by (simp add: version_ok_def digits_value_def two_digits_def version_number_def of_nat_div of_nat_mod)
  moreover have "?t \<noteq> []" by (simp add: two_digits_def)
  moreover have "int (version_number (a, b, c)) < 2 ^ 31" using assms by (simp add: version_ok_def version_number_def)
  ultimately show ?thesis
    using parse_digits(1) [OF _ d] c_str_digits [OF d] signed_32 [of "int (version_number (a, b, c))"]
    by (simp add: StringToInt_def strtol_def)
qed

definition version_less :: "nat \<times> nat \<times> nat \<Rightarrow> nat \<times> nat \<times> nat \<Rightarrow> bool" where
  "version_less v w = (case (v, w) of ((a, b, c), (a', b', c')) \<Rightarrow>
     a < a' \<or> a = a' \<and> (b < b' \<or> b = b' \<and> c < c'))"

lemma version_number_less:
  "version_ok v \<Longrightarrow> version_ok w \<Longrightarrow> version_number v < version_number w \<longleftrightarrow> version_less v w"
  by (auto simp: version_ok_def version_number_def version_less_def split: prod.splits)

text \<open>
  C14. The version comparison behind a silent update. If the version of the resources was saved at the
  enrolment (in a key-value store that is there and takes it) and the resources now have another version (each of the three numbers below 100), then the check reports
  an update exactly when the new version is later, number by number, and the user's audio is backed up.
\<close>

theorem version_update_order:
  assumes "name \<noteq> []" "CHR ''v'' \<notin> set name" "version_ok v" "version_ok w" "cx_kv x \<noteq> None" "an_put (cx_answers x) ''WakeupVersion''"
    "an_versionFile (cx_answers x) = Some (version_line name v)" "an_versionFile a = Some (version_line name w)"
  defines "y \<equiv> (SaveWakeupVesion x)\<lparr>cx_answers := a\<rparr>"
  shows "fst (IsVersionUpdate H y) \<longleftrightarrow> version_less v w \<and> fst (IsBackupSourceExist H y)"
proof -
  obtain a1 b1 c1 where v: "v = (a1, b1, c1)" using prod_cases3 by blast
  obtain a2 b2 c2 where w: "w = (a2, b2, c2)" using prod_cases3 by blast
  have ne: "two_digits n @ t \<noteq> []" for n t by (simp add: two_digits_def)
  have "GetStringKVPair ''WakeupVersion'' y = two_digits a1 @ two_digits b1 @ two_digits c1"
    using KV_lookup [OF assms(5)] version_text [OF assms(1,2), of a1 b1 c1] assms(3,6,7) ne [of a1]
    by (simp add: y_def v SaveWakeupVesion_def Let_def) (simp add: GetStringKVPair_def)
  moreover have "GetWakeupVesion (an_versionFile (cx_answers y)) = two_digits a2 @ two_digits b2 @ two_digits c2"
    using version_text [OF assms(1,2), of a2 b2 c2] assms(4,8) by (simp add: y_def w)
  ultimately show ?thesis
    using assms(3,4) version_number_less [OF assms(3,4)] version_value [of a1 b1 c1] version_value [of a2 b2 c2] ne
    by (auto simp: IsVersionUpdate_def Let_def v w split: prod.split)
qed

definition demo_backup :: "unit hdi" where
  "demo_backup = demo_hdi\<lparr>hdi_SourceFiles := \<lambda>h. (0, [''/data/enroll_phrase.txt''], h)\<rparr>"

definition demo_version :: "nat \<times> nat \<times> nat \<Rightarrow> engine_answers" where
  "demo_version v = demo_answers\<lparr>an_versionFile := Some (version_line ''wakeup '' v)\<rparr>"

lemma demo_backup_exists: "fst (IsBackupSourceExist demo_backup y)"
proof -
  have "str_find ''enroll_phrase.txt'' ''/data/enroll_phrase.txt'' 0 \<noteq> None" by (simp add: str_find_def upt_rec)
  then show ?thesis by (simp add: IsBackupSourceExist_def demo_backup_def)
qed

lemma version_update_order_witness:
  "fst (IsVersionUpdate demo_backup
     ((SaveWakeupVesion (demo_ctx\<lparr>cx_answers := demo_version (5, 9, 12)\<rparr>))\<lparr>cx_answers := demo_version (5, 10, 0)\<rparr>))"
  using version_update_order [of "''wakeup ''" "(5, 9, 12)" "(5, 10, 0)" "demo_ctx\<lparr>cx_answers := demo_version (5, 9, 12)\<rparr>"
      "demo_version (5, 10, 0)" demo_backup] demo_backup_exists
  by (simp add: version_ok_def version_less_def demo_ctx_def demo_version_def demo_answers_def)

end
