(* ===== verification/Wakeup_Engine.thy ===== *)
theory Wakeup_Engine
  imports Engine_Frame Engine_Util Wakeup_Source Audio_Source "HOL-Library.Char_ord" "HOL-Library.List_Lexorder"
begin

text \<open>
  The two-level wake-up engine of the phone, \<open>services/intell_voice_engine/server/wakeup\<close>: after the
  driver has detected the phrase the engine records, lets the adapter check the recording, reports the
  result to the client and hands it the audio that follows. \<open>wakeup_adapter_listener\<close> keeps the client's
  callback and the result of a recognition no client has collected yet. The code under
  \<open>SUPPORT_WINDOW_MANAGER\<close> is left out, and so are logging and threads that only send notifications;
  allocations by \<open>make_unique\<close> and \<open>make_shared\<close> do not return null.
\<close>

section \<open>Data\<close>

datatype WakeupEvent = EV_NONE | EV_INIT | EV_INIT_DONE | EV_START_RECOGNIZE | EV_STOP_RECOGNIZE | EV_RECOGNIZE_COMPLETE
  | EV_START_CAPTURER | EV_READ | EV_STOP_CAPTURER | EV_RECOGNIZING_TIMEOUT | EV_RECOGNIZE_COMPLETE_TIMEOUT
  | EV_READ_CAPTURER_TIMEOUT | EV_SET_LISTENER | EV_SET_PARAM | EV_GET_PARAM | EV_GET_WAKEUP_PCM | EV_RELEASE_ADAPTER
  | EV_RESET_ADAPTER | EV_RELEASE

fun wevent_id :: "WakeupEvent \<Rightarrow> int" where
  "wevent_id EV_NONE = 0"
| "wevent_id EV_INIT = 1"
| "wevent_id EV_INIT_DONE = 2"
| "wevent_id EV_START_RECOGNIZE = 3"
| "wevent_id EV_STOP_RECOGNIZE = 4"
| "wevent_id EV_RECOGNIZE_COMPLETE = 5"
| "wevent_id EV_START_CAPTURER = 6"
| "wevent_id EV_READ = 7"
| "wevent_id EV_STOP_CAPTURER = 8"
| "wevent_id EV_RECOGNIZING_TIMEOUT = 9"
| "wevent_id EV_RECOGNIZE_COMPLETE_TIMEOUT = 10"
| "wevent_id EV_READ_CAPTURER_TIMEOUT = 11"
| "wevent_id EV_SET_LISTENER = 12"
| "wevent_id EV_SET_PARAM = 13"
| "wevent_id EV_GET_PARAM = 14"
| "wevent_id EV_GET_WAKEUP_PCM = 15"
| "wevent_id EV_RELEASE_ADAPTER = 16"
| "wevent_id EV_RESET_ADAPTER = 17"
| "wevent_id EV_RELEASE = 18"

datatype WakeupState = ST_IDLE | ST_INITIALIZING | ST_INITIALIZED | ST_RECOGNIZING | ST_RECOGNIZED | ST_READ_CAPTURER

fun wstate_id :: "WakeupState \<Rightarrow> int" where
  "wstate_id ST_IDLE = 0"
| "wstate_id ST_INITIALIZING = 1"
| "wstate_id ST_INITIALIZED = 2"
| "wstate_id ST_RECOGNIZING = 3"
| "wstate_id ST_RECOGNIZED = 4"
| "wstate_id ST_READ_CAPTURER = 5"

definition WE_MIN_BUFFER_SIZE :: nat where
  "WE_MIN_BUFFER_SIZE = 640"

definition WE_INTERVAL :: nat where
  "WE_INTERVAL = 100"

definition RECOGNIZING_TIMEOUT_US :: int where
  "RECOGNIZING_TIMEOUT_US = 10 * 1000 * 1000"

definition WE_RECOGNIZE_COMPLETE_TIMEOUT_US :: int where
  "WE_RECOGNIZE_COMPLETE_TIMEOUT_US = 2 * 1000 * 1000"

definition WE_READ_CAPTURER_TIMEOUT_US :: int where
  "WE_READ_CAPTURER_TIMEOUT_US = 10 * 1000 * 1000"

text \<open>The default phrase, in UTF-8.\<close>

definition DEFAULT_WAKEUP_PHRASE :: string where
  "DEFAULT_WAKEUP_PHRASE = map char_of [0xE5, 0xB0, 0x8F, 0xE8, 0x89, 0xBA, 0xE5, 0xB0, 0x8F, 0xE8, 0x89, 0xBA :: nat]"

text \<open>What \<open>inMsg\<close> points to, and what \<open>outMsg\<close> points to before the call (\<open>None\<close> for null).\<close>

datatype wakeup_in = WNull | WInt int | WStr string | WListener "nat option" | WEvent engine_event

datatype wakeup_out = WOutStr string | WOutData bytes

record wakeup_msg =
  wm_in :: wakeup_in
  wm_out :: "wakeup_out option"

record WakeupAdapterListener =
  wl_cb :: "nat option"
  wl_historyEvent :: "engine_event option"

record 'a WakeupEngineImpl =
  wf_isPcmFromExternal :: bool
  wf_isMultiChannel :: bool
  wf_channels :: int
  wf_channelId :: nat
  wf_callerTokenId :: nat
  wf_audioSourceStart :: "32 word"
  wf_audioSourceEnd :: "32 word"
  wf_pcmReadCnt :: "32 word"
  wf_callback :: bool
  wf_adapterListener :: WakeupAdapterListener
  wf_wakeupSourceStopCallback :: bool
  wf_audioSource :: "AudioSource option"
  wf_streamChannels :: nat
  wf_adapter :: bool
  wf_source :: WakeupSourceProcess
  wf_out :: "wakeup_out option"
  wf_ctx :: "'a engine_ctx"

type_synonym 'a wakeup_fields = "'a WakeupEngineImpl"
type_synonym 'a wakeup_engine = "(wakeup_msg, 'a wakeup_fields) ModuleStates"
type_synonym 'a wakeup_handler = "(wakeup_msg, 'a wakeup_fields) HandleMsg_fn"

definition win_of :: "wakeup_msg StateMsg \<Rightarrow> wakeup_in" where
  "win_of msg = (case inMsg msg of Msg b \<Rightarrow> wm_in b | _ \<Rightarrow> WNull)"

definition wout_of :: "wakeup_msg StateMsg \<Rightarrow> wakeup_out option" where
  "wout_of msg = (case inMsg msg of Msg b \<Rightarrow> wm_out b | _ \<Rightarrow> None)"

definition wresult :: "int \<Rightarrow> int \<Rightarrow> 'a wakeup_fields \<Rightarrow> 'a wakeup_fields handled" where
  "wresult ret nxt u = \<lparr>h_ret = ret, h_next = nxt, h_reset = False, h_self = u\<rparr>"

definition on_ctx :: "('a engine_ctx \<Rightarrow> 'a engine_ctx) \<Rightarrow> 'a wakeup_fields \<Rightarrow> 'a wakeup_fields" where
  "on_ctx f u = u\<lparr>wf_ctx := f (wf_ctx u)\<rparr>"

text \<open>The device of the tracking reports belongs to the driver \<open>W\<close>.\<close>

definition report_track ::
  "wakeup_device \<Rightarrow> StageCode \<Rightarrow> WakeupResult \<Rightarrow> WakeupErrorCode \<Rightarrow> 'a engine_ctx \<Rightarrow> 'a engine_ctx" where
  "report_track W stage res err x = x\<lparr>cx_track := snd (reportWakeupTrack W stage res err (cx_track x))\<rparr>"

section \<open>WakeupAdapterListener\<close>

definition WL_SetCallback ::
  "nat option \<Rightarrow> WakeupAdapterListener \<Rightarrow> 'a engine_ctx \<Rightarrow> WakeupAdapterListener \<times> 'a engine_ctx" where
  "WL_SetCallback cb l x =
     (case cb of
        None \<Rightarrow> (l\<lparr>wl_cb := None\<rparr>, x)
      | Some c \<Rightarrow>
          (case wl_historyEvent l of
             None \<Rightarrow> (l\<lparr>wl_cb := Some c\<rparr>, x)
           | Some ev \<Rightarrow> (l\<lparr>wl_cb := Some c, wl_historyEvent := None\<rparr>, emit (OnIntellVoiceEngineEvent c ev) x)))"

definition GetCallbackStatus :: "WakeupAdapterListener \<Rightarrow> string" where
  "GetCallbackStatus l = (if wl_cb l = None then ''false'' else ''true'')"

definition ClearBackupEvent :: "WakeupAdapterListener \<Rightarrow> WakeupAdapterListener" where
  "ClearBackupEvent l = l\<lparr>wl_historyEvent := None\<rparr>"

definition complete_msg :: "engine_event \<Rightarrow> bool" where
  "complete_msg ev \<longleftrightarrow> ee_msgId ev = MSG_RECOGNIZE_COMPLETE \<or> ee_msgId ev = MSG_HEADSET_RECOGNIZE_COMPLETE"

definition BackupCallBackEvent :: "engine_event \<Rightarrow> WakeupAdapterListener \<Rightarrow> WakeupAdapterListener" where
  "BackupCallBackEvent ev l = (if complete_msg ev then l\<lparr>wl_historyEvent := Some ev\<rparr> else l)"

definition WL_Notify ::
  "wakeup_device \<Rightarrow> engine_event \<Rightarrow> WakeupAdapterListener \<Rightarrow> 'a engine_ctx \<Rightarrow> WakeupAdapterListener \<times> 'a engine_ctx" where
  "WL_Notify W ev l x =
     (case wl_cb l of
        None \<Rightarrow> (BackupCallBackEvent ev l,
                 report_track W WAKEUP_STAGE_SA_RECOGNIZED WAKEUP_RESULT_FAIL SA_CALLBACK_ERROR x)
      | Some c \<Rightarrow> (l\<lparr>wl_historyEvent := None\<rparr>,
                   if complete_msg ev then emit (OnIntellVoiceEngineEvent c ev) x else x))"

section \<open>Audio source\<close>

text \<open>The enumerators \<open>MONO\<close> to \<open>CHANNEL_4\<close> of the audio framework are channel counts.\<close>

definition GetWakeupSourceChannel :: "'a engine_ctx \<Rightarrow> nat" where
  "GetWakeupSourceChannel x =
     (case an_triggerGet (cx_answers x) ''wakeup_source_channel'' of
        None \<Rightarrow> 1
      | Some channel \<Rightarrow>
          if channel = '''' then 1
          else (case StringToInt channel of
              None \<Rightarrow> 1
            | Some channelCnt \<Rightarrow> if channelCnt < 1 \<or> channelCnt > 4 then 1 else nat channelCnt))"

definition SetParamOnAudioStart :: "int \<Rightarrow> 'a engine_ctx \<Rightarrow> 'a engine_ctx" where
  "SetParamOnAudioStart uuid x =
     (if \<not> an_audioManager (cx_answers x) then x
      else emit (SetAsrNoiseSuppressionMode (if uuid = 2 then NEAR_FIELD else STANDARD))
             (emit (SetAsrAecMode STANDARD) x))"

definition SetParamOnAudioStop :: "'a engine_ctx \<Rightarrow> 'a engine_ctx" where
  "SetParamOnAudioStop x =
     (if \<not> an_audioManager (cx_answers x) then x
      else if \<not> an_streamManager (cx_answers x) then x
      else if Some SOURCE_TYPE_VOICE_RECOGNITION \<in> set (an_capturers (cx_answers x)) then x
      else emit (SetAsrNoiseSuppressionMode BYPASS) (emit (SetAsrAecMode BYPASS) x))"

definition WE_CreateWakeupSourceStopCallback :: "'a wakeup_fields \<Rightarrow> bool \<times> 'a wakeup_fields" where
  "WE_CreateWakeupSourceStopCallback u =
     (if wf_wakeupSourceStopCallback u then (True, u)
      else if \<not> an_audioManager (cx_answers (wf_ctx u)) then (False, u)
      else (True, u\<lparr>wf_wakeupSourceStopCallback := True\<rparr>))"

definition WE_DestroyWakeupSourceStopCallback :: "'a wakeup_fields \<Rightarrow> 'a wakeup_fields" where
  "WE_DestroyWakeupSourceStopCallback u =
     (if \<not> wf_wakeupSourceStopCallback u then u
      else if \<not> an_audioManager (cx_answers (wf_ctx u)) then u
      else u\<lparr>wf_wakeupSourceStopCallback := False\<rparr>)"

definition get_current_time_ms :: "int \<times> int \<Rightarrow> 32 word" where
  "get_current_time_ms tv = word_of_int ((fst tv mod 86400) * 1000 + snd tv div 1000)"

definition WE_StartAudioSource :: "'a wakeup_fields \<Rightarrow> bool \<times> 'a wakeup_fields" where
  "WE_StartAudioSource u =
     (let ch = GetWakeupSourceChannel (wf_ctx u);
          a = cx_answers (wf_ctx u);
          u1 = u\<lparr>wf_pcmReadCnt := 0, wf_streamChannels := ch, wf_source := WakeupSource_Init ch (wf_source u)\<rparr>
      in case AudioSource_Start (an_created a) (an_started a)
                (AudioSource_new (WE_MIN_BUFFER_SIZE * ch) WE_INTERVAL True) of
           (True, src) \<Rightarrow>
             (True, u1\<lparr>wf_audioSource := Some src, wf_audioSourceStart := get_current_time_ms (an_time a)\<rparr>)
         | (False, src) \<Rightarrow>
             (False, u1\<lparr>wf_audioSource := None, wf_source := WakeupSource_Release (wf_source u1)\<rparr>))"

definition WE_StopAudioSource :: "'a wakeup_fields \<Rightarrow> 'a wakeup_fields" where
  "WE_StopAudioSource u =
     (if wf_audioSource u = None then u
      else (on_ctx SetParamOnAudioStop u)\<lparr>wf_audioSource := None, wf_source := WakeupSource_Release (wf_source u)\<rparr>)"

text \<open>The capturer thread delivers a buffer (\<open>isEnd\<close> once the recognition window is over), and the end of
  that window.\<close>

definition adapter_WriteAudio :: "'a hdi \<Rightarrow> bytes \<Rightarrow> 'a engine_ctx \<Rightarrow> 'a engine_ctx" where
  "adapter_WriteAudio H data x = x\<lparr>cx_host := snd (hdi_WriteAudio H data (cx_host x))\<rparr>"

definition WE_ReadBufferCallback :: "'a hdi \<Rightarrow> 16 word list \<Rightarrow> bool \<Rightarrow> 'a wakeup_fields \<Rightarrow> 'a wakeup_fields" where
  "WE_ReadBufferCallback H buffer isEnd u =
     (case DeinterleaveAudioData buffer (int (wf_streamChannels u)) of
        None \<Rightarrow> u
      | Some d \<Rightarrow>
          if length d \<noteq> wf_streamChannels u \<or> length d \<le> wf_channelId u then u
          else let u1 = (if wf_adapter u \<and> \<not> isEnd
                 then (on_ctx (adapter_WriteAudio H
                        (if wf_channelId u = 1 then d ! 0 @ d ! 1
                         else if wf_isMultiChannel u \<and> length d = 4 then d ! 0 @ d ! 1 @ d ! 3
                         else d ! wf_channelId u)) u)\<lparr>wf_pcmReadCnt := wf_pcmReadCnt u + 1\<rparr>
                 else u)
               in u1\<lparr>wf_source := WakeupSource_Write d (wf_source u1)\<rparr>)"

definition WE_EndOfPcm :: "'a hdi \<Rightarrow> 'a wakeup_fields \<Rightarrow> 'a wakeup_fields" where
  "WE_EndOfPcm H u =
     (let u1 = u\<lparr>wf_audioSourceEnd := get_current_time_ms (an_time (cx_answers (wf_ctx u)))\<rparr>
      in if wf_adapter u then on_ctx (\<lambda>x. snd (adapter_SetParameter H ''end_of_pcm=true'' x)) u1 else u1)"

section \<open>Parameters\<close>

text \<open>The loop over the parsed map, which is ordered by key.\<close>

definition WE_SetTriggerParameter :: "string \<Rightarrow> 'a engine_ctx \<Rightarrow> (string \<times> 'a engine_ctx) option" where
  "WE_SetTriggerParameter keyValueList x =
     (case SplitStringToKVPair keyValueList Map.empty of
        None \<Rightarrow> None
      | Some m \<Rightarrow>
          (let ks = sorted_list_of_set (dom m);
               mine = filter (\<lambda>k. k \<in> set (an_triggerParams (cx_answers x))) ks;
               x1 = fold (\<lambda>k x. emit (TriggerSetParameter k (the (m k))) (SetStringKVPair k (the (m k)) x)) mine x;
               others = map (\<lambda>k. k @ ''='' @ the (m k)) (filter (\<lambda>k. k \<notin> set mine) ks)
           in Some (concat (map (\<lambda>(i, t). if i = 0 then t else '';'' @ t) (enumerate 0 others)), x1)))"

definition GetSwitchStatus :: "string \<Rightarrow> 'a engine_ctx \<Rightarrow> bool" where
  "GetSwitchStatus key x = (case an_switch (cx_answers x) key of None \<Rightarrow> False | Some b \<Rightarrow> b)"

definition SetWakeupModel :: "'a hdi \<Rightarrow> 'a engine_ctx \<Rightarrow> 'a engine_ctx" where
  "SetWakeupModel H x =
     snd (adapter_SetParameter H
       (if an_support (cx_answers x) ''short_word_enable'' \<and> GetSwitchStatus ''intell_voice_trigger_shortword'' x
        then ''WakeupMode=1'' else ''WakeupMode=0'') x)"

definition proc_model :: "'a hdi \<Rightarrow> bool \<Rightarrow> int \<Rightarrow> 'a engine_ctx \<Rightarrow> 'a engine_ctx" where
  "proc_model H adapter ty x = (case ReadDspModel H adapter ty x of (buffer, x1) \<Rightarrow> ProcDspModel buffer x1)"

definition UpdateDspModel :: "'a hdi \<Rightarrow> bool \<Rightarrow> 'a engine_ctx \<Rightarrow> 'a engine_ctx" where
  "UpdateDspModel H adapter x =
     (if an_support (cx_answers x) ''short_word_enable''
      then if GetSwitchStatus ''intell_voice_trigger_shortword'' x
           then proc_model H adapter (SHORT_WORD_DSP_MODEL H) (emit (SubscribeSwingEvent ''AUDIO_WAKEUP_1_5'' ''7'') x)
           else proc_model H adapter (DSP_MODLE H) (emit (UnSubscribeSwingEvent ''AUDIO_WAKEUP_1_5'' ''7'') x)
      else if an_support (cx_answers x) ''dual_mic_enable''
      then if GetSwitchStatus ''dualmic_intell_voice_trigger_enabled'' x
           then proc_model H adapter (DSP_MODLE H) (emit (SubscribeSwingEvent ''AUDIO_WAKEUP_1_5'' ''7'') x)
           else proc_model H adapter (DSP_MODLE H) (emit (UnSubscribeSwingEvent ''AUDIO_WAKEUP_1_5'' ''7'') x)
      else proc_model H adapter (DSP_MODLE H) x)"

definition GetWakeupPhrase :: "'a engine_ctx \<Rightarrow> string" where
  "GetWakeupPhrase x =
     (let p = GetStringKVPair ''WakeupPhrase'' x in if p = '''' then DEFAULT_WAKEUP_PHRASE else p)"

definition wakeup_info :: "'a engine_ctx \<Rightarrow> adapter_info" where
  "wakeup_info x = \<lparr>ai_wakeupPhrase = GetWakeupPhrase x, ai_minBufSize = 640, ai_sampleChannels = 1,
     ai_bitsPerSample = 16, ai_sampleRate = 16000\<rparr>"

definition adapter_Attach :: "'a hdi \<Rightarrow> adapter_info \<Rightarrow> 'a engine_ctx \<Rightarrow> int \<times> 'a engine_ctx" where
  "adapter_Attach H i x = (case hdi_Attach H i (cx_host x) of (r, h) \<Rightarrow> (r, x\<lparr>cx_host := h\<rparr>))"

section \<open>Handlers\<close>

definition WE_HandleSetParam :: "'a hdi \<Rightarrow> 'a wakeup_handler" where
  "WE_HandleSetParam H msg nxt u =
     (case win_of msg of
        WStr p \<Rightarrow>
          (case WE_SetTriggerParameter p (wf_ctx u) of
             None \<Rightarrow> wresult (-1) nxt u
           | Some (engineParams, x) \<Rightarrow>
               if engineParams = '''' then wresult 0 nxt (u\<lparr>wf_ctx := x\<rparr>)
               else (case EU_SetParameter H (wf_adapter u) engineParams x of (r, x1) \<Rightarrow>
                 wresult r nxt (u\<lparr>wf_ctx := x1\<rparr>)))
      | _ \<Rightarrow> wresult (-1) nxt u)"

definition timestamps :: "'a wakeup_fields \<Rightarrow> string" where
  "timestamps u =
     (if wf_audioSourceStart u \<noteq> 0 \<and> wf_audioSourceEnd u \<noteq> 0
      then ''source_start:'' @ to_string (uint (wf_audioSourceStart u)) @ '';source_end:'' @
             to_string (uint (wf_audioSourceEnd u)) @ '';''
      else '''')"

definition WE_HandleGetParam :: "'a hdi \<Rightarrow> 'a wakeup_handler" where
  "WE_HandleGetParam H msg nxt u =
     (case (win_of msg, wout_of msg) of
        (WStr key, Some out) \<Rightarrow>
          if key = ''wakeup_source_channel''
          then wresult 0 nxt (u\<lparr>wf_out := Some (WOutStr (to_string (int (wf_streamChannels u))))\<rparr>)
          else if key = ''is_callback_exist''
          then wresult 0 nxt (u\<lparr>wf_out := Some (WOutStr (GetCallbackStatus (wf_adapterListener u)))\<rparr>)
          else if key = ''wakeup_timestamp''
          then (case an_triggerGet (cx_answers (wf_ctx u)) ''wakeup_timestamp'' of
              None \<Rightarrow> wresult (-1) nxt u
            | Some t \<Rightarrow>
                (case EU_GetParameter H (wf_adapter u) ''wakeup_timestamp'' (wf_ctx u) of (v, x) \<Rightarrow>
                   (let u1 = u\<lparr>wf_ctx := x, wf_out := Some (WOutStr (t @ v @ timestamps u))\<rparr>
                    in wresult 0 nxt (if wf_audioSourceStart u \<noteq> 0 \<and> wf_audioSourceEnd u \<noteq> 0
                         then u1\<lparr>wf_audioSourceStart := 0, wf_audioSourceEnd := 0\<rparr> else u1))))
          else (case EU_GetParameter H (wf_adapter u) key (wf_ctx u) of (v, x) \<Rightarrow>
             wresult 0 nxt (u\<lparr>wf_ctx := x, wf_out := Some (WOutStr v)\<rparr>))
      | _ \<Rightarrow> wresult (-1) nxt u)"

definition SetCallbackInner :: "'a hdi \<Rightarrow> 'a wakeup_fields \<Rightarrow> bool \<times> 'a wakeup_fields" where
  "SetCallbackInner H u =
     (if \<not> wf_adapter u then (False, u)
      else (True, (on_ctx (\<lambda>x. x\<lparr>cx_host := hdi_SetCallback H (cx_host x)\<rparr>) u)\<lparr>wf_callback := True\<rparr>))"

definition AttachInner :: "'a hdi \<Rightarrow> adapter_info \<Rightarrow> 'a wakeup_fields \<Rightarrow> int \<times> 'a wakeup_fields" where
  "AttachInner H i u =
     (if \<not> wf_adapter u then (-1, u)
      else (case adapter_Attach H i (wf_ctx u) of (r, x) \<Rightarrow> (r, u\<lparr>wf_isPcmFromExternal := False, wf_ctx := x\<rparr>)))"

definition init_params :: "'a hdi \<Rightarrow> bool \<Rightarrow> 'a engine_ctx \<Rightarrow> 'a engine_ctx" where
  "init_params H a x =
     snd (SetDspFeatures H a (SetImproveParam H a (EU_SetTriggerParameter (SetSensibility H a (SetArea H a
       (SetLanguage H a (SetWakeupModel H (SetWhisperVpr H a x))))))))"

definition WE_HandleInit :: "'a hdi \<Rightarrow> 'a wakeup_handler" where
  "WE_HandleInit H msg nxt u =
     (case CreateAdapterInner H (WAKEUP_ADAPTER_TYPE H) (wf_ctx u) of (ok, x) \<Rightarrow>
        (let u1 = u\<lparr>wf_adapter := ok, wf_ctx := x\<rparr>
         in if \<not> ok then wresult (-1) nxt u1
            else (case SetCallbackInner H u1 of
                (False, u2) \<Rightarrow> wresult (-1) nxt u2
              | (True, u2) \<Rightarrow>
                  (let u3 = on_ctx (init_params H (wf_adapter u2)) u2
                   in (case AttachInner H (wakeup_info (wf_ctx u3)) u3 of (r, u4) \<Rightarrow>
                         if r \<noteq> 0 then wresult (-1) nxt u4
                         else wresult 0 (wstate_id ST_INITIALIZING)
                                (on_ctx (UpdateDspModel H (wf_adapter u4)) u4))))))"

definition WE_HandleInitDone :: "'a wakeup_handler" where
  "WE_HandleInitDone msg nxt u =
     (if win_of msg = WInt 0
      then wresult 0 (wstate_id ST_INITIALIZED) (on_ctx (emit (CommonEvent ''wakeupEngineInited'')) u)
      else wresult (-1) nxt u)"

definition WE_HandleSetListener :: "'a wakeup_handler" where
  "WE_HandleSetListener msg nxt u =
     (case win_of msg of
        WListener cb \<Rightarrow>
          (case WL_SetCallback cb (wf_adapterListener u) (wf_ctx u) of (l, x) \<Rightarrow>
             wresult 0 nxt (u\<lparr>wf_adapterListener := l, wf_ctx := x\<rparr>))
      | _ \<Rightarrow> wresult (-1) nxt u)"

text \<open>The failure exit of \<open>HandleStart\<close>.\<close>

definition start_failed ::
  "wakeup_device \<Rightarrow> WakeupErrorCode \<Rightarrow> int \<Rightarrow> 'a wakeup_fields \<Rightarrow> 'a wakeup_fields handled" where
  "start_failed W err nxt u =
     wresult (-1) nxt (on_ctx (report_track W WAKEUP_STAGE_SA_HANDLE_DETECTED WAKEUP_RESULT_FAIL err) u)"

definition select_channel :: "'a hdi \<Rightarrow> int \<Rightarrow> 'a wakeup_fields \<Rightarrow> 'a wakeup_fields" where
  "select_channel H uuid u =
     (if uuid = 2
      then on_ctx (\<lambda>x. snd (EU_SetParameter H (wf_adapter u) ''WakeupType=3'' x))
             (u\<lparr>wf_channelId := 1, wf_source := SetReadBufferFlag False (wf_source u)\<rparr>)
      else on_ctx (\<lambda>x. snd (EU_SetParameter H (wf_adapter u) ''WakeupType=0'' x))
             (u\<lparr>wf_channelId := 0, wf_source := SetReadBufferFlag True (wf_source u)\<rparr>))"

definition adapter_Stop :: "'a hdi \<Rightarrow> 'a engine_ctx \<Rightarrow> 'a engine_ctx" where
  "adapter_Stop H x = x\<lparr>cx_host := snd (hdi_Stop H (cx_host x))\<rparr>"

text \<open>\<open>HandleStart\<close> once the adapter has started.\<close>

definition start_source :: "'a hdi \<Rightarrow> wakeup_device \<Rightarrow> int \<Rightarrow> int \<Rightarrow> 'a wakeup_fields \<Rightarrow> 'a wakeup_fields handled" where
  "start_source H W uuid nxt u =
     (case WE_CreateWakeupSourceStopCallback u of
        (False, u1) \<Rightarrow> start_failed W SA_HOST_ERROR nxt (on_ctx (adapter_Stop H) u1)
      | (True, u1) \<Rightarrow>
          (case WE_StartAudioSource (on_ctx (SetParamOnAudioStart uuid) u1) of
             (False, u2) \<Rightarrow> start_failed W SA_AUDIO_SOURCE_ERROR nxt
                              (on_ctx (adapter_Stop H) (on_ctx SetParamOnAudioStop u2))
           | (True, u2) \<Rightarrow> wresult 0 (wstate_id ST_RECOGNIZING)
               (on_ctx (report_track W WAKEUP_STAGE_SA_HANDLE_DETECTED WAKEUP_RESULT_DEFAULT WAKEUP_ERROR_CODE_END) u2)))"

definition WE_HandleStart :: "'a hdi \<Rightarrow> wakeup_device \<Rightarrow> 'a wakeup_handler" where
  "WE_HandleStart H W msg nxt u =
     (case EU_GetParameter H (wf_adapter u) ''wakeup_multi_channel'' (wf_ctx u) of (v, x) \<Rightarrow>
        (let u0 = u\<lparr>wf_isMultiChannel := (v = ''true''), wf_ctx := x\<rparr>
         in (case win_of msg of
               WInt uuid \<Rightarrow>
                 (let u1 = on_ctx (SetScreenStatus H (wf_adapter u)) (select_channel H uuid u0)
                  in if \<not> wf_adapter u1 then start_failed W SA_HOST_ERROR nxt u1
                     else (case hdi_Start H True (cx_host (wf_ctx u1)) of (r, h) \<Rightarrow>
                       (let u2 = on_ctx (\<lambda>x. x\<lparr>cx_host := h\<rparr>) u1
                        in if r \<noteq> 0 then start_failed W SA_HOST_ERROR nxt u2 else start_source H W uuid nxt u2)))
             | _ \<Rightarrow> start_failed W SA_INPUT_ERROR nxt u0)))"

definition stop_adapter :: "'a hdi \<Rightarrow> 'a wakeup_fields \<Rightarrow> 'a wakeup_fields" where
  "stop_adapter H u = on_ctx (\<lambda>x. snd (EU_Stop H (wf_adapter u) x)) u"

definition WE_HandleStop :: "'a hdi \<Rightarrow> 'a wakeup_handler" where
  "WE_HandleStop H msg nxt u = wresult 0 (wstate_id ST_INITIALIZED) (stop_adapter H (WE_StopAudioSource u))"

definition WE_HandleRecognizeComplete :: "'a hdi \<Rightarrow> wakeup_device \<Rightarrow> 'a wakeup_handler" where
  "WE_HandleRecognizeComplete H W msg nxt u =
     (case win_of msg of
        WEvent ev \<Rightarrow>
          (case WL_Notify W ev (wf_adapterListener u) (wf_ctx u) of (l, x) \<Rightarrow>
             (let u1 = u\<lparr>wf_adapterListener := l, wf_ctx := x\<rparr>
              in if ee_result ev \<noteq> 0
                 then wresult 0 (wstate_id ST_INITIALIZED) (stop_adapter H (WE_StopAudioSource u1))
                 else wresult 0 (wstate_id ST_RECOGNIZED) (stop_adapter H u1)))
      | _ \<Rightarrow> wresult (-1) nxt u)"

definition WE_HandleStartCapturer :: "wakeup_device \<Rightarrow> 'a wakeup_handler" where
  "WE_HandleStartCapturer W msg nxt u =
     (let u1 = on_ctx (report_track W WAKEUP_STAGE_SA_ONESHOT_START WAKEUP_RESULT_DEFAULT WAKEUP_ERROR_CODE_END) u;
          a = cx_answers (wf_ctx u1)
      in if an_permission a \<noteq> 0 then wresult (an_permission a) nxt u1
         else (case win_of msg of
             WInt ch \<Rightarrow>
               (let u2 = u1\<lparr>wf_channels := ch, wf_callerTokenId := an_token a\<rparr>
                in (case RecordPermissionPrivacy INTELL_VOICE_PERMISSION_START (wf_callerTokenId u2) (wf_ctx u2) of (ok, x) \<Rightarrow>
                      if \<not> ok then wresult (-1) nxt (u2\<lparr>wf_ctx := x\<rparr>)
                      else wresult 0 (wstate_id ST_READ_CAPTURER) (u2\<lparr>wf_ctx := x\<rparr>)))
           | _ \<Rightarrow> wresult 22700105 nxt u1))"

definition WE_HandleRead :: "'a wakeup_handler" where
  "WE_HandleRead msg nxt u =
     (case wout_of msg of
        Some (WOutData data) \<Rightarrow>
          (case WakeupSource_Read (an_arrive (cx_answers (wf_ctx u))) data (wf_channels u) (wf_source u) of
             (ret, data1, src) \<Rightarrow>
               (let u1 = u\<lparr>wf_source := src, wf_out := Some (WOutData data1)\<rparr>
                in if ret \<noteq> 0 then wresult ret nxt u1 else (wresult 0 nxt u1)\<lparr>h_reset := True\<rparr>))
      | _ \<Rightarrow> wresult (-1) nxt u)"

text \<open>\<open>CurrState()\<close> in a handler is the state \<open>nxt\<close> starts from.\<close>

definition close_privacy :: "int \<Rightarrow> 'a wakeup_fields \<Rightarrow> 'a wakeup_fields" where
  "close_privacy cur u =
     (if cur = wstate_id ST_READ_CAPTURER
      then on_ctx (\<lambda>x. snd (RecordPermissionPrivacy INTELL_VOICE_PERMISSION_STOP (wf_callerTokenId u) x)) u else u)"

definition WE_HandleStopCapturer :: "'a hdi \<Rightarrow> wakeup_device \<Rightarrow> 'a wakeup_handler" where
  "WE_HandleStopCapturer H W msg nxt u =
     (let u1 = on_ctx (report_track W WAKEUP_STAGE_SA_ONESHOT_END WAKEUP_RESULT_DEFAULT WAKEUP_ERROR_CODE_END) u;
          u2 = stop_adapter H (WE_StopAudioSource u1);
          u3 = u2\<lparr>wf_adapterListener := ClearBackupEvent (wf_adapterListener u2)\<rparr>
      in wresult 0 (wstate_id ST_INITIALIZED) (close_privacy nxt u3))"

definition WE_HandleStopCapturerTimeout :: "'a hdi \<Rightarrow> wakeup_device \<Rightarrow> StageCode \<Rightarrow> 'a wakeup_handler" where
  "WE_HandleStopCapturerTimeout H W stage msg nxt u =
     WE_HandleStopCapturer H W msg nxt (on_ctx (report_track W stage WAKEUP_RESULT_FAIL SA_TIMEOUT_ERROR) u)"

definition WE_HandleRecognizingTimeout :: "'a hdi \<Rightarrow> wakeup_device \<Rightarrow> 'a wakeup_handler" where
  "WE_HandleRecognizingTimeout H W msg nxt u =
     wresult 0 (wstate_id ST_INITIALIZED) (stop_adapter H (WE_StopAudioSource
       (on_ctx (report_track W WAKEUP_STAGE_SA_RECOGNIZING WAKEUP_RESULT_FAIL SA_TIMEOUT_ERROR) u)))"

definition WE_HandleGetWakeupPcm :: "'a hdi \<Rightarrow> 'a wakeup_handler" where
  "WE_HandleGetWakeupPcm H msg nxt u =
     (case wout_of msg of
        Some (WOutData data) \<Rightarrow>
          (case EU_GetWakeupPcm H (wf_adapter u) data (wf_ctx u) of (r, d, x) \<Rightarrow>
             wresult r nxt (u\<lparr>wf_ctx := x, wf_out := Some (WOutData d)\<rparr>))
      | _ \<Rightarrow> wresult (-1) nxt u)"

definition reset_params :: "'a hdi \<Rightarrow> 'a engine_ctx \<Rightarrow> 'a engine_ctx" where
  "reset_params H x =
     (let x1 = SetWakeupModel H x
      in snd (SetDspFeatures H True (SetImproveParam H True (SetSensibility H True (SetArea H True (SetLanguage H True
           (SetWhisperVpr H True (x1\<lparr>cx_host := hdi_SetCallback H (cx_host x1)\<rparr>))))))))"

definition WE_HandleResetAdapter :: "'a hdi \<Rightarrow> 'a wakeup_handler" where
  "WE_HandleResetAdapter H msg nxt u =
     (case CreateAdapterInner H (WAKEUP_ADAPTER_TYPE H) (wf_ctx u) of (ok, x) \<Rightarrow>
        if \<not> ok then wresult (-1) nxt (u\<lparr>wf_adapter := False, wf_ctx := x\<rparr>)
        else let u2 = on_ctx (reset_params H) (u\<lparr>wf_adapter := True, wf_ctx := x\<rparr>)
             in (case adapter_Attach H (wakeup_info (wf_ctx u2)) (wf_ctx u2) of (r, x2) \<Rightarrow>
                   if r \<noteq> 0
                   then (case ReleaseAdapterInner H (WAKEUP_ADAPTER_TYPE H) x2 of (a, x3) \<Rightarrow>
                           wresult (-1) nxt (u2\<lparr>wf_adapter := a, wf_ctx := x3\<rparr>))
                   else wresult 0 (wstate_id ST_INITIALIZING) (on_ctx (UpdateDspModel H True) (u2\<lparr>wf_ctx := x2\<rparr>))))"

definition detach_adapter :: "'a hdi \<Rightarrow> 'a wakeup_fields \<Rightarrow> 'a wakeup_fields" where
  "detach_adapter H u =
     (if wf_adapter u
      then (case ReleaseAdapterInner H (WAKEUP_ADAPTER_TYPE H)
              ((wf_ctx u)\<lparr>cx_host := snd (hdi_Detach H (cx_host (wf_ctx u)))\<rparr>) of (a, x) \<Rightarrow>
              u\<lparr>wf_adapter := a, wf_ctx := x\<rparr>)
      else u)"

definition WE_HandleRelease :: "'a hdi \<Rightarrow> 'a wakeup_handler" where
  "WE_HandleRelease H msg nxt u =
     wresult 0 (wstate_id ST_IDLE)
       (detach_adapter H (close_privacy nxt (WE_StopAudioSource (WE_DestroyWakeupSourceStopCallback u))))"

section \<open>The engine\<close>

definition WE_InitStates ::
  "'a hdi \<Rightarrow> wakeup_device \<Rightarrow> (int \<Rightarrow> bool) \<Rightarrow> (wakeup_msg, 'a wakeup_fields) cfg_op list" where
  "WE_InitStates H W al =
     concat (map (\<lambda>i. [CfgAct (al i) i (wevent_id EV_SET_LISTENER) WE_HandleSetListener,
       CfgAct (al i) i (wevent_id EV_SET_PARAM) (WE_HandleSetParam H),
       CfgAct (al i) i (wevent_id EV_GET_PARAM) (WE_HandleGetParam H)]) [0, 1, 2, 3, 4, 5]) @
     [CfgAct (al 0) (wstate_id ST_IDLE) (wevent_id EV_INIT) (WE_HandleInit H),
      CfgAct (al 0) (wstate_id ST_IDLE) (wevent_id EV_RESET_ADAPTER) (WE_HandleResetAdapter H),
      CfgAct (al 1) (wstate_id ST_INITIALIZING) (wevent_id EV_INIT_DONE) WE_HandleInitDone,
      CfgAct (al 2) (wstate_id ST_INITIALIZED) (wevent_id EV_START_RECOGNIZE) (WE_HandleStart H W),
      CfgWait (al 3) (wstate_id ST_RECOGNIZING) (wevent_id EV_RECOGNIZING_TIMEOUT) (WE_HandleRecognizingTimeout H W)
        RECOGNIZING_TIMEOUT_US 0,
      CfgAct (al 3) (wstate_id ST_RECOGNIZING) (wevent_id EV_STOP_RECOGNIZE) (WE_HandleStop H),
      CfgAct (al 3) (wstate_id ST_RECOGNIZING) (wevent_id EV_RECOGNIZE_COMPLETE) (WE_HandleRecognizeComplete H W),
      CfgWait (al 4) (wstate_id ST_RECOGNIZED) (wevent_id EV_RECOGNIZE_COMPLETE_TIMEOUT)
        (WE_HandleStopCapturerTimeout H W WAKEUP_STAGE_SA_RECOGNIZED_COMPLETE) WE_RECOGNIZE_COMPLETE_TIMEOUT_US 0,
      CfgAct (al 4) (wstate_id ST_RECOGNIZED) (wevent_id EV_GET_WAKEUP_PCM) (WE_HandleGetWakeupPcm H),
      CfgAct (al 4) (wstate_id ST_RECOGNIZED) (wevent_id EV_START_CAPTURER) (WE_HandleStartCapturer W),
      CfgWait (al 5) (wstate_id ST_READ_CAPTURER) (wevent_id EV_READ_CAPTURER_TIMEOUT)
        (WE_HandleStopCapturerTimeout H W WAKEUP_STAGE_SA_ONESHOT_PROCESSE) WE_READ_CAPTURER_TIMEOUT_US 0,
      CfgAct (al 5) (wstate_id ST_READ_CAPTURER) (wevent_id EV_READ) WE_HandleRead,
      CfgAct (al 5) (wstate_id ST_READ_CAPTURER) (wevent_id EV_STOP_CAPTURER) (WE_HandleStopCapturer H W),
      CfgFrom al (wstate_id ST_INITIALIZING) (wstate_id ST_READ_CAPTURER),
      CfgGroupAdd (wevent_id EV_RELEASE_ADAPTER) (WE_HandleRelease H),
      CfgGroupAdd (wevent_id EV_RELEASE) (WE_HandleRelease H)]"

definition wakeup_fields_new :: "'a engine_ctx \<Rightarrow> 'a wakeup_fields" where
  "wakeup_fields_new x =
     \<lparr>wf_isPcmFromExternal = False, wf_isMultiChannel = False, wf_channels = 0, wf_channelId = 0, wf_callerTokenId = 0,
      wf_audioSourceStart = 0, wf_audioSourceEnd = 0, wf_pcmReadCnt = 0, wf_callback = False,
      wf_adapterListener = \<lparr>wl_cb = None, wl_historyEvent = None\<rparr>, wf_wakeupSourceStopCallback = False,
      wf_audioSource = None, wf_streamChannels = 1, wf_adapter = False, wf_source = WakeupSource_new, wf_out = None,
      wf_ctx = x\<rparr>"

definition wakeup_new ::
  "'a hdi \<Rightarrow> wakeup_device \<Rightarrow> (int \<Rightarrow> bool) \<Rightarrow> bool \<Rightarrow> observer \<Rightarrow> 'a engine_ctx \<Rightarrow> 'a wakeup_engine" where
  "wakeup_new H W al created this x =
     fold configure (WE_InitStates H W al) (ModuleStates_new (wstate_id ST_IDLE) created this (wakeup_fields_new x))"

definition WE_Handle :: "int \<Rightarrow> wakeup_msg StateMsg \<Rightarrow> 'a wakeup_engine \<Rightarrow> (int \<times> 'a wakeup_engine) outcome" where
  "WE_Handle now msg s = (if \<not> IsStatesInitSucc s then Ret (-1, s) else HandleMsg now msg s)"

definition wmsg :: "WakeupEvent \<Rightarrow> wakeup_in \<Rightarrow> wakeup_out option \<Rightarrow> wakeup_msg StateMsg" where
  "wmsg ev i out = \<lparr>msgId = wevent_id ev, inMsg = Msg \<lparr>wm_in = i, wm_out = out\<rparr>\<rparr>"

text \<open>The tasks posted by \<open>OnWakeupEvent\<close>, and the call of the trigger side; the result of the latter says
  that the wake-up source is closed again.\<close>

definition OnInitDone :: "int \<Rightarrow> int \<Rightarrow> 'a wakeup_engine \<Rightarrow> (int \<times> 'a wakeup_engine) outcome" where
  "OnInitDone now res s = WE_Handle now (wmsg EV_INIT_DONE (WInt res) None) s"

definition OnWakeupRecognition ::
  "wakeup_device \<Rightarrow> int \<Rightarrow> int \<Rightarrow> string \<Rightarrow> 'a wakeup_engine \<Rightarrow> (int \<times> 'a wakeup_engine) outcome" where
  "OnWakeupRecognition W now res info s =
     WE_Handle now (wmsg EV_RECOGNIZE_COMPLETE
         (WEvent \<lparr>ee_msgId = MSG_RECOGNIZE_COMPLETE, ee_result = res, ee_info = info\<rparr>) None)
       (s\<lparr>ms_self := on_ctx (report_track W WAKEUP_STAGE_SA_RECOGNIZED WAKEUP_RESULT_DEFAULT WAKEUP_ERROR_CODE_END) (ms_self s)\<rparr>)"

definition OnTriggerDetected :: "int \<Rightarrow> int \<Rightarrow> 'a wakeup_engine \<Rightarrow> (bool \<times> 'a wakeup_engine) outcome" where
  "OnTriggerDetected now uuid s =
     obind (WE_Handle now (wmsg EV_START_RECOGNIZE (WInt uuid) None) s) (\<lambda>(ret, t).
       Ret (ret \<noteq> 0, if ret \<noteq> 0 then t\<lparr>ms_self := on_ctx (emit CloseWakeupSource) (ms_self t)\<rparr> else t))"

section \<open>Interleavings\<close>

text \<open>
  Client calls, reports of the driver, the trigger side, the capturer thread (a buffer, the end of the
  recognition window), the timer thread and changes of the surroundings are the atomic steps.
\<close>

type_synonym 'a wakeup_sys = "'a wakeup_engine \<times> TimerEvent option"

inductive wakeup_step :: "'a hdi \<Rightarrow> wakeup_device \<Rightarrow> 'a wakeup_sys \<Rightarrow> 'a wakeup_sys \<Rightarrow> bool" for H W where
  w_client: "WE_Handle now msg s = Ret (r, t) \<Longrightarrow> wakeup_step H W (s, p) (t, p)"
| w_recognition: "OnWakeupRecognition W now res info s = Ret (r, t) \<Longrightarrow> wakeup_step H W (s, p) (t, p)"
| w_detected: "OnTriggerDetected now uuid s = Ret (b, t) \<Longrightarrow> wakeup_step H W (s, p) (t, p)"
| w_frame: "wakeup_step H W (s, p) (s\<lparr>ms_self := WE_ReadBufferCallback H buf isEnd (ms_self s)\<rparr>, p)"
| w_end: "wakeup_step H W (s, p) (s\<lparr>ms_self := WE_EndOfPcm H (ms_self s)\<rparr>, p)"
| w_world: "wakeup_step H W (s, p)
    (s\<lparr>ms_self := on_ctx (\<lambda>x. x\<lparr>cx_kv := k, cx_host := h, cx_answers := a\<rparr>) (ms_self s)\<rparr>, p)"
| w_take: "Run_iter now (ms_tm s) = (RunFire e ob, tm) \<Longrightarrow> wakeup_step H W (s, None) (s\<lparr>ms_tm := tm\<rparr>, Some e)"
| w_deliver: "OnTimerEvent now e s = Ret t \<Longrightarrow> wakeup_step H W (s, Some e) (t, None)"

definition wakeup_start :: "'a hdi \<Rightarrow> wakeup_device \<Rightarrow> 'a wakeup_sys \<Rightarrow> bool" where
  "wakeup_start H W x \<longleftrightarrow>
     (\<exists>this c. cx_calls c = [] \<and> x = (wakeup_new H W (\<lambda>_. True) True this c, None))"

section \<open>The tables\<close>

definition wcfg_of :: "WakeupState \<Rightarrow> TimerCfg" where
  "wcfg_of e =
     (case e of
        ST_RECOGNIZING \<Rightarrow> \<lparr>cfg_type = wevent_id EV_RECOGNIZING_TIMEOUT, cfg_delayUs = RECOGNIZING_TIMEOUT_US, cfg_cookie = 0\<rparr>
      | ST_RECOGNIZED \<Rightarrow> \<lparr>cfg_type = wevent_id EV_RECOGNIZE_COMPLETE_TIMEOUT, cfg_delayUs = WE_RECOGNIZE_COMPLETE_TIMEOUT_US, cfg_cookie = 0\<rparr>
      | ST_READ_CAPTURER \<Rightarrow> \<lparr>cfg_type = wevent_id EV_READ_CAPTURER_TIMEOUT, cfg_delayUs = WE_READ_CAPTURER_TIMEOUT_US, cfg_cookie = 0\<rparr>
      | _ \<Rightarrow> \<lparr>cfg_type = 0, cfg_delayUs = 0, cfg_cookie = 0\<rparr>)"

definition any_handlers :: "'a hdi \<Rightarrow> int \<rightharpoonup> 'a wakeup_handler" where
  "any_handlers H = [wevent_id EV_SET_LISTENER \<mapsto> WE_HandleSetListener, wevent_id EV_SET_PARAM \<mapsto> WE_HandleSetParam H,
     wevent_id EV_GET_PARAM \<mapsto> WE_HandleGetParam H]"

definition live_handlers :: "'a hdi \<Rightarrow> int \<rightharpoonup> 'a wakeup_handler" where
  "live_handlers H = (any_handlers H)(wevent_id EV_RELEASE_ADAPTER \<mapsto> WE_HandleRelease H, wevent_id EV_RELEASE \<mapsto> WE_HandleRelease H)"

definition whandlers :: "'a hdi \<Rightarrow> wakeup_device \<Rightarrow> WakeupState \<Rightarrow> int \<rightharpoonup> 'a wakeup_handler" where
  "whandlers H W e =
     (case e of
        ST_IDLE \<Rightarrow> (any_handlers H)(wevent_id EV_INIT \<mapsto> WE_HandleInit H, wevent_id EV_RESET_ADAPTER \<mapsto> WE_HandleResetAdapter H)
      | ST_INITIALIZING \<Rightarrow> (live_handlers H)(wevent_id EV_INIT_DONE \<mapsto> WE_HandleInitDone)
      | ST_INITIALIZED \<Rightarrow> (live_handlers H)(wevent_id EV_START_RECOGNIZE \<mapsto> WE_HandleStart H W)
      | ST_RECOGNIZING \<Rightarrow> (live_handlers H)(wevent_id EV_RECOGNIZING_TIMEOUT \<mapsto> WE_HandleRecognizingTimeout H W,
          wevent_id EV_STOP_RECOGNIZE \<mapsto> WE_HandleStop H, wevent_id EV_RECOGNIZE_COMPLETE \<mapsto> WE_HandleRecognizeComplete H W)
      | ST_RECOGNIZED \<Rightarrow> (live_handlers H)(wevent_id EV_RECOGNIZE_COMPLETE_TIMEOUT \<mapsto>
            WE_HandleStopCapturerTimeout H W WAKEUP_STAGE_SA_RECOGNIZED_COMPLETE,
          wevent_id EV_GET_WAKEUP_PCM \<mapsto> WE_HandleGetWakeupPcm H, wevent_id EV_START_CAPTURER \<mapsto> WE_HandleStartCapturer W)
      | ST_READ_CAPTURER \<Rightarrow> (live_handlers H)(wevent_id EV_READ_CAPTURER_TIMEOUT \<mapsto>
            WE_HandleStopCapturerTimeout H W WAKEUP_STAGE_SA_ONESHOT_PROCESSE,
          wevent_id EV_READ \<mapsto> WE_HandleRead, wevent_id EV_STOP_CAPTURER \<mapsto> WE_HandleStopCapturer H W))"

definition wtable :: "'a hdi \<Rightarrow> wakeup_device \<Rightarrow> WakeupState \<Rightarrow> (wakeup_msg, 'a wakeup_fields) StateActions" where
  "wtable H W e = \<lparr>sa_cfg = wcfg_of e, sa_timerId = INVALID_ID, sa_actions = whandlers H W e\<rparr>"

lemma wtable_fields [simp]:
  "sa_cfg (wtable H W e) = wcfg_of e" "sa_actions (wtable H W e) = whandlers H W e" "sa_timerId (wtable H W e) = INVALID_ID"
  by (simp_all add: wtable_def)

lemma wakeup_tables:
  "ms_states (wakeup_new H W (\<lambda>_. True) created this x) =
     [0 \<mapsto> Some (wtable H W ST_IDLE), 1 \<mapsto> Some (wtable H W ST_INITIALIZING), 2 \<mapsto> Some (wtable H W ST_INITIALIZED),
      3 \<mapsto> Some (wtable H W ST_RECOGNIZING), 4 \<mapsto> Some (wtable H W ST_RECOGNIZED), 5 \<mapsto> Some (wtable H W ST_READ_CAPTURER)]"
  by (rule ext)
    (simp add: wakeup_new_def WE_InitStates_def FromState_def Group_Add_def machine_eval wtable_def wcfg_of_def
      whandlers_def any_handlers_def live_handlers_def upto_rec1 fun_upd_twist)

section \<open>The invariant\<close>

definition recording :: "WakeupState \<Rightarrow> bool" where
  "recording e \<longleftrightarrow> e = ST_RECOGNIZING \<or> e = ST_RECOGNIZED \<or> e = ST_READ_CAPTURER"

definition source_fit :: "'a wakeup_fields \<Rightarrow> bool" where
  "source_fit u \<longleftrightarrow>
     length (ws_bufferQueue (wf_source u)) = ws_channelCnt (wf_source u) \<and>
     (wf_audioSource u \<noteq> None \<longleftrightarrow> ws_channelCnt (wf_source u) \<noteq> 0) \<and>
     (\<forall>a. wf_audioSource u = Some a \<longrightarrow> source_ok a \<and> as_isReading a)"

definition holder :: "WakeupState \<Rightarrow> 'a wakeup_fields \<Rightarrow> nat set" where
  "holder e u = (if e = ST_READ_CAPTURER then {wf_callerTokenId u} else {})"

definition wfields_ok :: "WakeupState \<Rightarrow> 'a wakeup_fields \<Rightarrow> bool" where
  "wfields_ok e u \<longleftrightarrow>
     source_fit u \<and> (wf_audioSource u \<noteq> None \<longleftrightarrow> recording e) \<and> (e \<noteq> ST_IDLE \<longrightarrow> wf_adapter u) \<and>
     mic_held (holder e u) (mic_users (wf_ctx u))"

abbreviation wakeup_fit :: "'a hdi \<Rightarrow> wakeup_device \<Rightarrow> WakeupState \<Rightarrow> 'a wakeup_engine \<Rightarrow> bool" where
  "wakeup_fit H W \<equiv> machine_fit wstate_id (wtable H W) wfields_ok"

abbreviation wakeup_at :: "'a hdi \<Rightarrow> wakeup_device \<Rightarrow> WakeupState \<Rightarrow> 'a wakeup_sys \<Rightarrow> bool" where
  "wakeup_at H W \<equiv> machine_at wstate_id (wtable H W) wfields_ok"

definition wakeup_inv :: "'a hdi \<Rightarrow> wakeup_device \<Rightarrow> 'a wakeup_sys \<Rightarrow> bool" where
  "wakeup_inv H W x \<longleftrightarrow> (\<exists>e. wakeup_at H W e x)"

lemma wcfg_delay [simp]: "cfg_delayUs (wcfg_of e) = 0 \<longleftrightarrow> \<not> recording e"
  by (cases e) (simp_all add: recording_def wcfg_of_def RECOGNIZING_TIMEOUT_US_def WE_RECOGNIZE_COMPLETE_TIMEOUT_US_def
      WE_READ_CAPTURER_TIMEOUT_US_def)

lemma wstate_id_inj [simp]: "wstate_id e = wstate_id e' \<longleftrightarrow> e = e'"
  by (cases e; cases e') simp_all

subsection \<open>The fields\<close>

text \<open>Two fields that agree on what the invariant reads.\<close>

definition same_view :: "'a wakeup_fields \<Rightarrow> 'a wakeup_fields \<Rightarrow> bool" where
  "same_view u v \<longleftrightarrow> wf_source u = wf_source v \<and> wf_audioSource u = wf_audioSource v \<and> wf_adapter u = wf_adapter v \<and>
     wf_callerTokenId u = wf_callerTokenId v \<and> mic_users (wf_ctx u) = mic_users (wf_ctx v)"

lemma wfields_ok_view: "same_view u v \<Longrightarrow> wfields_ok e u = wfields_ok e v"
  by (simp add: same_view_def wfields_ok_def source_fit_def holder_def)

lemma wfields_okI: "wfields_ok e u \<Longrightarrow> same_view v u \<Longrightarrow> wfields_ok e v"
  using wfields_ok_view by blast

lemma same_view_trans [trans]: "same_view u v \<Longrightarrow> same_view v w \<Longrightarrow> same_view u w"
  by (simp add: same_view_def)

lemma view_ctx: "(\<And>x. mic_users (f x) = mic_users x) \<Longrightarrow> wfields_ok e (on_ctx f u) = wfields_ok e u"
  by (rule wfields_ok_view) (simp add: same_view_def on_ctx_def)

lemma on_ctx_fields [simp]:
  "wf_adapter (on_ctx f u) = wf_adapter u" "wf_source (on_ctx f u) = wf_source u"
  "wf_audioSource (on_ctx f u) = wf_audioSource u" "wf_ctx (on_ctx f u) = f (wf_ctx u)"
  "wf_callerTokenId (on_ctx f u) = wf_callerTokenId u" "wf_adapterListener (on_ctx f u) = wf_adapterListener u"
  by (simp_all add: on_ctx_def)

context silent_view
begin

lemma view_wakeup [quiet, simp]:
  "view (report_track W a b c x) = view x" "view (SetParamOnAudioStart i x) = view x"
  "view (SetParamOnAudioStop x) = view x" "view (adapter_WriteAudio H d x) = view x"
  "view (SetWakeupModel H x) = view x" "view (adapter_Stop H x) = view x"
  "view (snd (adapter_Attach H info x)) = view x"
  by (simp_all add: report_track_def SetParamOnAudioStart_def SetParamOnAudioStop_def adapter_WriteAudio_def
      SetWakeupModel_def adapter_Stop_def adapter_Attach_def view_emit split: prod.split)

lemma view_proc [quiet, simp]: "view (proc_model H a ty x) = view x"
  using view_adapter(9) [of H a ty x] by (cases "ReadDspModel H a ty x") (simp add: proc_model_def)

lemma view_more [quiet, simp]:
  "view (UpdateDspModel H a x) = view x" "view (init_params H a x) = view x" "view (reset_params H x) = view x"
  by (simp_all add: UpdateDspModel_def init_params_def reset_params_def view_emit Let_def split: option.split)

lemma view_trigger [quiet]: "WE_SetTriggerParameter kv x = Some (v, y) \<Longrightarrow> view y = view x"
proof -
  have "view (fold (\<lambda>k x. emit (TriggerSetParameter k (f k)) (SetStringKVPair k (f k) x)) ks x) = view x" for f ks
    by (induction ks arbitrary: x) (simp_all add: view_emit)
  then show "WE_SetTriggerParameter kv x = Some (v, y) \<Longrightarrow> view y = view x"
    by (auto simp: WE_SetTriggerParameter_def Let_def split: option.splits)
qed

end

lemmas quiet_trigger = mic.view_trigger

lemma quiet_more [quiet, simp]:
  "mic_users (snd (WL_SetCallback cb l x)) = mic_users x" "mic_users (snd (WL_Notify W ev l x)) = mic_users x"
  by (simp_all add: WL_SetCallback_def WL_Notify_def mic_users_emit Let_def split: option.split)

lemma Attach_quiet: "adapter_Attach H info x = (r, y) \<Longrightarrow> mic_users y = mic_users x"
  by (auto simp: adapter_Attach_def split: prod.splits)

text \<open>Reads and writes keep the number of queues.\<close>

abbreviation queues :: "WakeupSourceProcess \<Rightarrow> nat \<times> nat" where
  "queues w \<equiv> (ws_channelCnt w, length (ws_bufferQueue w))"

lemma AddMultiFrame_queues: "AddMultiFrame d i n w = (k, e, w1) \<Longrightarrow> queues w1 = queues w"
  by (auto simp: AddMultiFrame_def split: prod.splits)

lemma ReadBufferedData_queues: "ReadBufferedData d i w = (e, w1) \<Longrightarrow> queues w1 = queues w"
  by (auto simp: ReadBufferedData_def dest!: AddMultiFrame_queues split: if_splits prod.splits)

lemma ReadChannelData_queues: "ReadChannelData arrive d i w = (r, w1) \<Longrightarrow> queues w1 = queues w"
  by (auto simp: ReadChannelData_def dest!: ReadBufferedData_queues split: if_splits prod.splits option.splits)

lemma Read_loop_queues: "Read_loop arrive c is d w = (r, e, w1) \<Longrightarrow> queues w1 = queues w"
proof (induction "is" arbitrary: d w)
  case (Cons i "is")
  then show ?case by (auto dest: ReadChannelData_queues split: if_splits option.splits prod.splits)
qed simp

lemma Read_queues: "WakeupSource_Read arrive d c w = (r, e, w1) \<Longrightarrow> queues w1 = queues w"
  by (auto simp: WakeupSource_Read_def dest!: Read_loop_queues split: if_splits)

lemma Write_queues: "queues (WakeupSource_Write d w) = queues w"
proof -
  have "queues (WriteChannelData f i w) = queues w" for f i w
    by (simp add: WriteChannelData_def split: option.splits)
  then show ?thesis by (simp add: WakeupSource_Write_def)
qed

lemma wfields_ok_source:
  "queues w = queues (wf_source u) \<Longrightarrow> wfields_ok e (u\<lparr>wf_source := w\<rparr>) = wfields_ok e u"
  by (auto simp: wfields_ok_def source_fit_def holder_def)

text \<open>Stopping the source: fit for every state that does not record.\<close>

lemma stopped:
  assumes "wfields_ok e u"
  shows "source_fit (WE_StopAudioSource u)" "wf_audioSource (WE_StopAudioSource u) = None"
    "wf_adapter (WE_StopAudioSource u) = wf_adapter u" "mic_held (holder e u) (mic_users (wf_ctx (WE_StopAudioSource u)))"
    "wf_callerTokenId (WE_StopAudioSource u) = wf_callerTokenId u"
  using assms
  by (auto simp: wfields_ok_def source_fit_def WE_StopAudioSource_def WakeupSource_Release_def on_ctx_def)

lemma same_view_stop: "same_view (stop_adapter H u) u"
  by (simp add: same_view_def stop_adapter_def on_ctx_def)

lemma wfields_ok_stop:
  "wfields_ok e u \<Longrightarrow> e \<noteq> ST_READ_CAPTURER \<Longrightarrow> e \<noteq> ST_IDLE \<Longrightarrow> wfields_ok ST_INITIALIZED (stop_adapter H (WE_StopAudioSource u))"
  using stopped [of e u] unfolding wfields_ok_view [OF same_view_stop]
  by (simp add: wfields_ok_def holder_def recording_def)

lemma close_privacy_ok:
  assumes "source_fit u" "wf_audioSource u = None" "wf_adapter u" "mic_held (holder e u) (mic_users (wf_ctx u))" "\<not> recording e'"
  shows "wfields_ok e' (close_privacy (wstate_id e) u)"
  using assms by (cases e; cases e') (auto simp: wfields_ok_def close_privacy_def holder_def recording_def privacy_stop
      source_fit_def on_ctx_def)

subsection \<open>The handlers\<close>

abbreviation wmoves :: "WakeupState \<Rightarrow> WakeupState \<Rightarrow> 'a wakeup_fields handled \<Rightarrow> bool" where
  "wmoves \<equiv> moves wstate_id wfields_ok"

lemma wmovesI: "wfields_ok (if r = 0 then e' else e) v \<Longrightarrow> wmoves e e' (wresult r (wstate_id e') v)"
  by (simp add: moves_def wresult_def)

lemma wmoves_stay: "wfields_ok e v \<Longrightarrow> wmoves e e (wresult r (wstate_id e) v)"
  by (rule wmovesI) simp

lemma moves_SetParam: "wfields_ok e u \<Longrightarrow> wmoves e e (WE_HandleSetParam H msg (wstate_id e) u)"
proof -
  assume ok: "wfields_ok e u"
  have s: "mic_users y = mic_users (wf_ctx u)" if "WE_SetTriggerParameter p (wf_ctx u) = Some (q, x)"
    "EU_SetParameter H (wf_adapter u) q x = (r, y)" for p q x r y
    using quiet_trigger [OF that(1)] quiet_adapter(4) [of H "wf_adapter u" q x] that(2) by simp
  show ?thesis
    by (auto simp: WE_HandleSetParam_def ok same_view_def intro!: wmoves_stay wfields_okI [OF ok] dest: s quiet_trigger
        split: wakeup_in.splits option.splits prod.splits)
qed

lemma GetParameter_quiet: "EU_GetParameter H a k x = (r, y) \<Longrightarrow> mic_users y = mic_users x"
  using quiet_adapter(5) [of H a k x] by simp

lemma moves_GetParam: "wfields_ok e u \<Longrightarrow> wmoves e e (WE_HandleGetParam H msg (wstate_id e) u)"
proof -
  assume ok: "wfields_ok e u"
  have v: "wmoves e e (wresult r (wstate_id e) w)" if "same_view w u" for r w
    by (rule wmoves_stay) (rule wfields_okI [OF ok that])
  define f where "f k = EU_GetParameter H (wf_adapter u) k (wf_ctx u)" for k
  have g: "EU_GetParameter H (wf_adapter u) k (wf_ctx u) = (fst (f k), snd (f k))" "mic_users (snd (f k)) = mic_users (wf_ctx u)" for k
    by (simp_all add: f_def)
  have w: "same_view (u\<lparr>wf_out := o1\<rparr>) u" "same_view (u\<lparr>wf_ctx := snd (f k), wf_out := o1\<rparr>) u"
    "same_view (u\<lparr>wf_ctx := snd (f k), wf_out := o1, wf_audioSourceStart := a, wf_audioSourceEnd := b\<rparr>) u" "same_view u u" for o1 k a b
    by (simp_all add: same_view_def g)
  show ?thesis
    unfolding WE_HandleGetParam_def Let_def g(1)
    by (simp add: v w case_prod_beta if_distrib [of "wmoves e e"] del: wstate_id.simps split: wakeup_in.split option.split)
qed

lemma moves_SetListener: "wfields_ok e u \<Longrightarrow> wmoves e e (WE_HandleSetListener msg (wstate_id e) u)"
proof -
  assume ok: "wfields_ok e u"
  have "wfields_ok e (u\<lparr>wf_adapterListener := l, wf_ctx := y\<rparr>)"
    if "WL_SetCallback cb (wf_adapterListener u) (wf_ctx u) = (l, y)" for cb l y
    using quiet_more(1) [of cb "wf_adapterListener u" "wf_ctx u", unfolded that]
    by (intro wfields_okI [OF ok]) (simp add: same_view_def)
  then show ?thesis
    by (auto simp: WE_HandleSetListener_def ok intro!: wmoves_stay split: wakeup_in.splits prod.splits)
qed

lemma idle_moves:
  assumes "wfields_ok ST_IDLE u" "wf_source v = wf_source u" "wf_audioSource v = wf_audioSource u"
    "mic_users (wf_ctx v) = mic_users (wf_ctx u)"
    and "r \<noteq> 0 \<and> n = ST_IDLE \<or> n = ST_INITIALIZING \<and> wf_adapter v"
  shows "\<exists>e'. wmoves ST_IDLE e' (wresult r (wstate_id n) v)"
proof -
  have "wfields_ok (if r = 0 then n else ST_IDLE) v"
    using assms by (auto simp: wfields_ok_def source_fit_def holder_def recording_def)
  from wmovesI [OF this] show ?thesis by blast
qed

lemma Create_quiet: "CreateAdapterInner H ty x = (b, y) \<Longrightarrow> mic_users y = mic_users x"
  using quiet_adapter(1) [of H ty x] by simp

lemma moves_Init:
  assumes ok: "wfields_ok ST_IDLE u"
  shows "\<exists>e'. wmoves ST_IDLE e' (WE_HandleInit H msg (wstate_id ST_IDLE) u)"
proof -
  obtain b x where c: "CreateAdapterInner H (WAKEUP_ADAPTER_TYPE H) (wf_ctx u) = (b, x)" using prod.exhaust by blast
  show ?thesis
    by (auto simp: WE_HandleInit_def c Let_def SetCallbackInner_def AttachInner_def Create_quiet [OF c] simp del: wstate_id.simps
        dest: Attach_quiet intro!: idle_moves [OF ok] split: prod.split)
qed

lemma Release_quiet: "ReleaseAdapterInner H ty x = (b, y) \<Longrightarrow> \<not> b \<and> mic_users y = mic_users x"
  by (auto simp: ReleaseAdapterInner_def)

lemma moves_Reset:
  assumes ok: "wfields_ok ST_IDLE u"
  shows "\<exists>e'. wmoves ST_IDLE e' (WE_HandleResetAdapter H msg (wstate_id ST_IDLE) u)"
proof -
  obtain b x where c: "CreateAdapterInner H (WAKEUP_ADAPTER_TYPE H) (wf_ctx u) = (b, x)" using prod.exhaust by blast
  show ?thesis
    by (auto simp: WE_HandleResetAdapter_def c Let_def Create_quiet [OF c] simp del: wstate_id.simps
        dest!: Attach_quiet Release_quiet intro!: idle_moves [OF ok] split: prod.split)
qed

subsection \<open>Recognition\<close>

lemma wfields_ok_state:
  "wfields_ok e u \<Longrightarrow> recording e = recording e' \<Longrightarrow> e \<noteq> ST_IDLE \<Longrightarrow> e \<noteq> ST_READ_CAPTURER \<Longrightarrow> e' \<noteq> ST_READ_CAPTURER \<Longrightarrow>
   wfields_ok e' u"
  by (simp add: wfields_ok_def holder_def)

lemma moves_InitDone:
  "wfields_ok ST_INITIALIZING u \<Longrightarrow> \<exists>e'. wmoves ST_INITIALIZING e' (WE_HandleInitDone msg (wstate_id ST_INITIALIZING) u)"
proof -
  assume ok: "wfields_ok ST_INITIALIZING u"
  then have "wfields_ok ST_INITIALIZED (on_ctx (emit (CommonEvent t)) u)" for t
    by (simp add: view_ctx mic_users_emit wfields_ok_state recording_def)
  then show ?thesis using ok
    by (intro exI [of _ "if win_of msg = WInt 0 then ST_INITIALIZED else ST_INITIALIZING"])
      (auto simp: WE_HandleInitDone_def simp del: wstate_id.simps intro!: wmovesI)
qed

lemma channel_bounds: "1 \<le> GetWakeupSourceChannel x \<and> GetWakeupSourceChannel x \<le> 4"
  by (auto simp: GetWakeupSourceChannel_def split: option.split)

lemma Init_queues: "length (ws_bufferQueue w) = ws_channelCnt w \<Longrightarrow> queues (WakeupSource_Init n w) = (n, n)"
  by (auto simp: WakeupSource_Init_def WakeupSource_Release_def Let_def)

lemma Release_queues [simp]: "ws_channelCnt (WakeupSource_Release w) = 0" "ws_bufferQueue (WakeupSource_Release (WakeupSource_Init n v)) = []"
  by (simp_all add: WakeupSource_Release_def WakeupSource_Init_def Let_def)

lemma started:
  assumes ok: "wfields_ok ST_INITIALIZED u"
  shows "wfields_ok (if fst (WE_StartAudioSource u) then ST_RECOGNIZING else ST_INITIALIZED) (snd (WE_StartAudioSource u))"
proof -
  have q: "queues (WakeupSource_Init n (wf_source u)) = (n, n)" for n
    using ok by (intro Init_queues) (simp add: wfields_ok_def source_fit_def)
  have "GetWakeupSourceChannel (wf_ctx u) \<noteq> 0" using channel_bounds [of "wf_ctx u"] by simp
  then show ?thesis using ok q
    by (auto simp: WE_StartAudioSource_def Start_new WE_MIN_BUFFER_SIZE_def wfields_ok_def source_fit_def holder_def recording_def
        source_ok_def Let_def)
qed

lemma moves_failed: "wfields_ok e u \<Longrightarrow> wmoves e e (start_failed W err (wstate_id e) u)"
  by (simp add: start_failed_def wmoves_stay view_ctx)

lemma moves_source:
  assumes ok: "wfields_ok ST_INITIALIZED u"
  shows "\<exists>e'. wmoves ST_INITIALIZED e' (start_source H W uuid (wstate_id ST_INITIALIZED) u)"
proof -
  obtain b u1 where c: "WE_CreateWakeupSourceStopCallback u = (b, u1)" using prod.exhaust by blast
  have "same_view u1 u" using c by (auto simp: WE_CreateWakeupSourceStopCallback_def same_view_def split: if_splits)
  then have 1: "wfields_ok ST_INITIALIZED u1" by (rule wfields_okI [OF ok])
  define v where "v = on_ctx (SetParamOnAudioStart uuid) u1"
  obtain b2 u2 where s: "WE_StartAudioSource v = (b2, u2)" using prod.exhaust by blast
  have "wfields_ok ST_INITIALIZED v" using 1 by (simp add: v_def view_ctx)
  from started [OF this] have 2: "wfields_ok (if b2 then ST_RECOGNIZING else ST_INITIALIZED) u2" by (simp add: s)
  show ?thesis
    using 1 2 c s
    by (intro exI [of _ "if b \<and> b2 then ST_RECOGNIZING else ST_INITIALIZED"])
      (auto simp: start_source_def v_def [symmetric] view_ctx simp del: wstate_id.simps intro!: moves_failed wmovesI
        split: bool.split)
qed

lemma wfields_ok_select: "wfields_ok e u \<Longrightarrow> wfields_ok e (select_channel H uuid u)"
  by (auto simp: wfields_ok_def source_fit_def holder_def select_channel_def SetReadBufferFlag_def)

lemma moves_Start:
  assumes ok: "wfields_ok ST_INITIALIZED u"
  shows "\<exists>e'. wmoves ST_INITIALIZED e' (WE_HandleStart H W msg (wstate_id ST_INITIALIZED) u)"
proof -
  obtain v x where g: "EU_GetParameter H (wf_adapter u) ''wakeup_multi_channel'' (wf_ctx u) = (v, x)" using prod.exhaust by blast
  define u0 where "u0 = u\<lparr>wf_isMultiChannel := (v = ''true''), wf_ctx := x\<rparr>"
  have 0: "wfields_ok ST_INITIALIZED u0"
    by (rule wfields_okI [OF ok]) (simp add: u0_def same_view_def GetParameter_quiet [OF g])
  have fail: "\<exists>e'. wmoves ST_INITIALIZED e' (start_failed W err (wstate_id ST_INITIALIZED) z)"
    if "wfields_ok ST_INITIALIZED z" for err and z :: "'a wakeup_fields"
    using moves_failed [OF that] by blast
  show ?thesis
  proof (cases "win_of msg")
    case (WInt uuid)
    define u1 where "u1 = on_ctx (SetScreenStatus H (wf_adapter u)) (select_channel H uuid u0)"
    have 1: "wfields_ok ST_INITIALIZED u1" using wfields_ok_select [OF 0] by (simp add: u1_def view_ctx)
    show ?thesis using WInt 1
      by (auto simp: WE_HandleStart_def g u0_def [symmetric] Let_def u1_def [symmetric] view_ctx simp del: wstate_id.simps
          intro!: fail moves_source split: prod.split)
  qed (simp_all add: WE_HandleStart_def g u0_def [symmetric] Let_def fail [OF 0] del: wstate_id.simps)
qed

lemma moves_Stop: "wfields_ok ST_RECOGNIZING u \<Longrightarrow> wmoves ST_RECOGNIZING ST_INITIALIZED (WE_HandleStop H msg n u)"
  by (auto simp: WE_HandleStop_def simp del: wstate_id.simps intro!: wmovesI wfields_ok_stop)

lemma moves_RecognizingTimeout:
  "wfields_ok ST_RECOGNIZING u \<Longrightarrow> wmoves ST_RECOGNIZING ST_INITIALIZED (WE_HandleRecognizingTimeout H W msg n u)"
  by (auto simp: WE_HandleRecognizingTimeout_def view_ctx simp del: wstate_id.simps intro!: wmovesI wfields_ok_stop)

lemma moves_RecognizeComplete:
  assumes ok: "wfields_ok ST_RECOGNIZING u"
  shows "\<exists>e'. wmoves ST_RECOGNIZING e' (WE_HandleRecognizeComplete H W msg (wstate_id ST_RECOGNIZING) u)"
proof (cases "win_of msg")
  case (WEvent ev)
  obtain l x where n: "WL_Notify W ev (wf_adapterListener u) (wf_ctx u) = (l, x)" using prod.exhaust by blast
  define u1 where "u1 = u\<lparr>wf_adapterListener := l, wf_ctx := x\<rparr>"
  have "mic_users x = mic_users (wf_ctx u)" using quiet_more(2) [of W ev "wf_adapterListener u" "wf_ctx u", unfolded n] by simp
  then have 1: "wfields_ok ST_RECOGNIZING u1" by (intro wfields_okI [OF ok]) (simp add: u1_def same_view_def)
  have "wfields_ok ST_RECOGNIZED (stop_adapter H u1)"
    by (rule wfields_ok_state [OF wfields_okI [OF 1 same_view_stop]]) (simp_all add: recording_def)
  then show ?thesis using WEvent wfields_ok_stop [OF 1, of H]
    by (intro exI [of _ "if ee_result ev \<noteq> 0 then ST_INITIALIZED else ST_RECOGNIZED"])
      (auto simp: WE_HandleRecognizeComplete_def n u1_def [symmetric] Let_def simp del: wstate_id.simps intro!: wmovesI)
qed (use ok in \<open>auto simp: WE_HandleRecognizeComplete_def simp del: wstate_id.simps intro!: exI wmoves_stay\<close>)

subsection \<open>Capture\<close>

lemma moves_StartCapturer:
  assumes ok: "wfields_ok ST_RECOGNIZED u"
  shows "\<exists>e'. wmoves ST_RECOGNIZED e' (WE_HandleStartCapturer W msg (wstate_id ST_RECOGNIZED) u)"
proof -
  define u1 where "u1 = on_ctx (report_track W WAKEUP_STAGE_SA_ONESHOT_START WAKEUP_RESULT_DEFAULT WAKEUP_ERROR_CODE_END) u"
  have 1: "wfields_ok ST_RECOGNIZED u1" using ok by (simp add: u1_def view_ctx)
  then have 2: "wfields_ok ST_RECOGNIZED (u1\<lparr>wf_channels := c, wf_callerTokenId := t\<rparr>)" for c t
    by (auto simp: wfields_ok_def source_fit_def holder_def)
  have 3: "wfields_ok (if ok then ST_READ_CAPTURER else ST_RECOGNIZED) (u1\<lparr>wf_channels := c, wf_callerTokenId := t, wf_ctx := x\<rparr>)"
    if "RecordPermissionPrivacy INTELL_VOICE_PERMISSION_START t (wf_ctx u1) = (ok, x)" for c t ok x
    using 1 privacy_start [OF that] by (auto simp: wfields_ok_def source_fit_def holder_def recording_def)
  have stay: "\<exists>e'. wmoves ST_RECOGNIZED e' (wresult r (wstate_id ST_RECOGNIZED) v)" if "wfields_ok ST_RECOGNIZED v"
    for r and v :: "'a wakeup_fields" using wmoves_stay [OF that] by blast
  have go: "\<exists>e'. wmoves ST_RECOGNIZED e' (wresult 0 (wstate_id ST_READ_CAPTURER) v)" if "wfields_ok ST_READ_CAPTURER v"
    for v :: "'a wakeup_fields" using wmovesI [of 0 ST_READ_CAPTURER ST_RECOGNIZED v] that by auto
  show ?thesis
    by (auto simp: WE_HandleStartCapturer_def u1_def [symmetric] Let_def 1 2 simp del: wstate_id.simps
        split: wakeup_in.split prod.split dest!: 3 intro: stay go)
qed

lemma moves_reset: "wmoves e e' h \<Longrightarrow> wmoves e e' (h\<lparr>h_reset := b\<rparr>)"
  by (simp add: moves_def)

lemma moves_Read:
  assumes ok: "wfields_ok e u"
  shows "wmoves e e (WE_HandleRead msg (wstate_id e) u)"
proof -
  have st: "wmoves e e (wresult r (wstate_id e) u)" for r by (rule wmoves_stay [OF ok])
  have rd: "wmoves e e (if b then wresult r (wstate_id e) (u\<lparr>wf_source := w, wf_out := o1\<rparr>)
      else (wresult 0 (wstate_id e) (u\<lparr>wf_source := w, wf_out := o1\<rparr>))\<lparr>h_reset := True\<rparr>)"
    if "WakeupSource_Read ar d c (wf_source u) = (r1, d1, w)" for ar d c r r1 d1 w o1 b
  proof -
    have "wfields_ok e (u\<lparr>wf_source := w, wf_out := o1\<rparr>)"
      by (rule wfields_okI [of e "u\<lparr>wf_source := w\<rparr>"])
        (simp_all add: same_view_def wfields_ok_source [OF Read_queues [OF that], of e] ok)
    from wmoves_stay [OF this] moves_reset [OF wmoves_stay [OF this]] show ?thesis by simp
  qed
  show ?thesis
  proof (cases "\<exists>d. wout_of msg = Some (WOutData d)")
    case True
    then obtain d where d: "wout_of msg = Some (WOutData d)" by blast
    obtain r d1 w where "WakeupSource_Read (an_arrive (cx_answers (wf_ctx u))) d (wf_channels u) (wf_source u) = (r, d1, w)"
      using prod_cases3 by blast
    then show ?thesis using rd [of _ d _ r d1 w "r \<noteq> 0" r] d by (simp add: WE_HandleRead_def Let_def del: wstate_id.simps)
  next
    case False
    then show ?thesis using st by (auto simp: WE_HandleRead_def split: option.split wakeup_out.split)
  qed
qed

lemma moves_StopCapturer:
  assumes ok: "wfields_ok e u" and e: "e \<noteq> ST_IDLE"
  shows "wmoves e ST_INITIALIZED (WE_HandleStopCapturer H W msg (wstate_id e) u)"
proof -
  define u1 where "u1 = on_ctx (report_track W WAKEUP_STAGE_SA_ONESHOT_END WAKEUP_RESULT_DEFAULT WAKEUP_ERROR_CODE_END) u"
  define u2 where "u2 = stop_adapter H (WE_StopAudioSource u1)"
  have 1: "wfields_ok e u1" using ok by (simp add: u1_def view_ctx)
  note st = stopped [OF this]
  have v: "same_view u2 (WE_StopAudioSource u1)" unfolding u2_def by (rule same_view_stop)
  have "wf_adapter u1" using 1 e by (simp add: wfields_ok_def)
  then have "wfields_ok ST_INITIALIZED (close_privacy (wstate_id e) (u2\<lparr>wf_adapterListener := l\<rparr>))" for l
    using st v by (intro close_privacy_ok) (auto simp: same_view_def source_fit_def holder_def recording_def)
  then show ?thesis
    by (simp add: WE_HandleStopCapturer_def Let_def u1_def [symmetric] u2_def [symmetric] wmovesI del: wstate_id.simps)
qed

lemma moves_StopCapturerTimeout:
  "wfields_ok e u \<Longrightarrow> e \<noteq> ST_IDLE \<Longrightarrow> wmoves e ST_INITIALIZED (WE_HandleStopCapturerTimeout H W stage msg (wstate_id e) u)"
  by (simp add: WE_HandleStopCapturerTimeout_def moves_StopCapturer view_ctx)

lemma moves_GetWakeupPcm:
  assumes ok: "wfields_ok e u"
  shows "wmoves e e (WE_HandleGetWakeupPcm H msg (wstate_id e) u)"
proof -
  have "wfields_ok e (u\<lparr>wf_ctx := x, wf_out := o1\<rparr>)"
    if "EU_GetWakeupPcm H (wf_adapter u) data (wf_ctx u) = (r, d, x)" for data r d x o1
    using quiet_adapter(8) [of H "wf_adapter u" data "wf_ctx u", unfolded that]
    by (intro wfields_okI [OF ok]) (simp add: same_view_def)
  then show ?thesis using ok
    by (auto simp: WE_HandleGetWakeupPcm_def simp del: wstate_id.simps intro!: wmoves_stay
        split: option.split wakeup_out.split prod.split)
qed

lemma detach_idle:
  assumes "wfields_ok ST_INITIALIZED u"
  shows "wfields_ok ST_IDLE (detach_adapter H u)"
proof -
  have "same_view v u \<Longrightarrow> wfields_ok ST_IDLE (v\<lparr>wf_adapter := a\<rparr>)" for v a
    using assms by (auto simp: wfields_ok_def source_fit_def holder_def recording_def same_view_def)
  from this [of "u\<lparr>wf_ctx := _\<rparr>"] assms show ?thesis
    by (auto simp: detach_adapter_def same_view_def wfields_ok_def source_fit_def holder_def recording_def
        dest!: Release_quiet split: prod.split)
qed

lemma moves_Release:
  assumes ok: "wfields_ok e u" and e: "e \<noteq> ST_IDLE"
  shows "wmoves e ST_IDLE (WE_HandleRelease H msg (wstate_id e) u)"
proof -
  define u1 where "u1 = WE_DestroyWakeupSourceStopCallback u"
  have "same_view u1 u" by (simp add: u1_def same_view_def WE_DestroyWakeupSourceStopCallback_def)
  then have 1: "wfields_ok e u1" by (rule wfields_okI [OF ok])
  note st = stopped [OF this]
  have "wf_adapter u1" using 1 e by (simp add: wfields_ok_def)
  then have "wfields_ok ST_INITIALIZED (close_privacy (wstate_id e) (WE_StopAudioSource u1))"
    using st by (intro close_privacy_ok) (auto simp: holder_def recording_def)
  then show ?thesis
    by (simp add: WE_HandleRelease_def u1_def [symmetric] wmovesI detach_idle del: wstate_id.simps)
qed

lemma whandler_moves:
  assumes "wfields_ok e u" "whandlers H W e m = Some h"
  shows "\<exists>e'. wmoves e e' (h msg (wstate_id e) u)"
proof -
  have any: "\<exists>e'. wmoves e e' (h msg (wstate_id e) u)" if "any_handlers H m = Some h"
    using that moves_SetParam [OF assms(1), of H msg] moves_GetParam [OF assms(1), of H msg] moves_SetListener [OF assms(1), of msg]
    by (auto simp: any_handlers_def simp del: wstate_id.simps split: if_splits)
  have live: "\<exists>e'. wmoves e e' (h msg (wstate_id e) u)" if "live_handlers H m = Some h" "e \<noteq> ST_IDLE"
    using that any moves_Release [OF assms(1)]
    by (auto simp: live_handlers_def simp del: wstate_id.simps split: if_splits)
  show ?thesis
  proof (cases e)
    case ST_IDLE
    then show ?thesis using assms any moves_Init [of u] moves_Reset [of u] by (auto simp: whandlers_def split: if_splits)
  next
    case ST_INITIALIZING
    then show ?thesis using assms live moves_InitDone [of u] by (auto simp: whandlers_def split: if_splits)
  next
    case ST_INITIALIZED
    then show ?thesis using assms live moves_Start [of u] by (auto simp: whandlers_def split: if_splits)
  next
    case ST_RECOGNIZING
    then show ?thesis using assms live moves_Stop [of u H msg] moves_RecognizingTimeout [of u H W msg] moves_RecognizeComplete [of u]
      unfolding whandlers_def by (auto split: if_splits)
  next
    case ST_RECOGNIZED
    then show ?thesis using assms live moves_StopCapturerTimeout [of e u H W WAKEUP_STAGE_SA_RECOGNIZED_COMPLETE msg]
      moves_GetWakeupPcm [of e u H msg] moves_StartCapturer [of u]
      unfolding whandlers_def by (auto split: if_splits)
  next
    case ST_READ_CAPTURER
    then show ?thesis using assms live moves_StopCapturerTimeout [of e u H W WAKEUP_STAGE_SA_ONESHOT_PROCESSE msg]
      moves_StopCapturer [of e u H W msg] moves_Read [of e u msg]
      unfolding whandlers_def by (auto split: if_splits)
  qed
qed

lemma wtimeout_rests:
  "recording e \<Longrightarrow> \<exists>h. whandlers H W e (cfg_type (wcfg_of e)) = Some h \<and>
     (\<forall>msg u. h_ret (h msg (wstate_id e) u) = 0 \<and> h_next (h msg (wstate_id e) u) = wstate_id ST_INITIALIZED)"
  by (auto simp: recording_def whandlers_def wcfg_of_def WE_HandleRecognizingTimeout_def WE_HandleStopCapturerTimeout_def
      WE_HandleStopCapturer_def wresult_def Let_def)

interpretation wframe: table_engine wstate_id "wtable H W" wfields_ok ST_INITIALIZED for H W
proof
  show "\<exists>e'. wmoves e e' (h msg (wstate_id e) u)" if "wfields_ok e u" "sa_actions (wtable H W e) m = Some h" for e u m h msg
    using whandler_moves that by simp
  show "\<exists>h. sa_actions (wtable H W e) (cfg_type (sa_cfg (wtable H W e))) = Some h \<and>
      (\<forall>msg u. h_ret (h msg (wstate_id e) u) = 0 \<and> h_next (h msg (wstate_id e) u) = wstate_id ST_INITIALIZED)"
    if "timed (wtable H W) e" for e
    using wtimeout_rests [of e H W] that by (simp del: wstate_id.simps)
qed (simp_all add: recording_def)

subsection \<open>Steps\<close>

lemma wakeup_started: "wakeup_start H W x \<Longrightarrow> wakeup_at H W ST_IDLE x"
proof -
  assume "wakeup_start H W x"
  then obtain this c where c: "cx_calls c = []" and x: "x = (wakeup_new H W (\<lambda>_. True) True this c, None)"
    by (auto simp: wakeup_start_def)
  let ?s = "wakeup_new H W (\<lambda>_. True) True this c"
  have i: "ms_idle ?s" unfolding wakeup_new_def
    using ms_idle_new by (rule fold_invariant) (rule ms_idle_configure)
  have t: "ms_states ?s k \<noteq> Some None" "ms_states ?s (wstate_id e) = Some (Some (wtable H W e))" for k e
    by (simp add: wakeup_tables) (cases e; simp add: wakeup_tables)
  have "tm_status (ms_tm ?s) = TIMER_STATUS_STARTED \<and> ms_isInitSucc ?s \<and> ms_currState ?s = Some (wstate_id ST_IDLE) \<and>
      ms_self ?s = wakeup_fields_new c"
    by (simp add: wakeup_new_def WE_InitStates_def FromState_def Group_Add_def machine_eval upto_rec1 timer_defs TimerMgr_def)
  moreover have "wfields_ok ST_IDLE (wakeup_fields_new c)"
    using c by (simp add: wfields_ok_def source_fit_def holder_def wakeup_fields_new_def WakeupSource_new_def recording_def mic_users_def mic_held_def)
  ultimately have "wakeup_fit H W ST_IDLE ?s" using i t by (intro machine_fit_start) auto
  then show ?thesis by (simp add: x machine_at_def recording_def)
qed

lemma wfields_ok_callback: "wfields_ok e u \<Longrightarrow> wfields_ok e (WE_ReadBufferCallback H buf isEnd u)"
proof -
  assume ok: "wfields_ok e u"
  have w: "wfields_ok e (v\<lparr>wf_source := WakeupSource_Write d (wf_source v)\<rparr>)" if "wfields_ok e v" for v :: "'a wakeup_fields" and d
    using wfields_ok_source [OF Write_queues, of e d v] that by simp
  have "wfields_ok e ((on_ctx (adapter_WriteAudio H b) u)\<lparr>wf_pcmReadCnt := n\<rparr>)" for b n
    by (rule wfields_okI [OF ok]) (simp add: same_view_def)
  then show ?thesis using ok
    by (simp add: WE_ReadBufferCallback_def Let_def w split: option.split)
qed

lemma wfields_ok_end: "wfields_ok e u \<Longrightarrow> wfields_ok e (WE_EndOfPcm H u)"
  by (erule wfields_okI) (simp add: same_view_def WE_EndOfPcm_def Let_def quiet_adapter)

lemma Handle_HandleMsg: "wakeup_fit H W e s \<Longrightarrow> WE_Handle now msg s = HandleMsg now msg s"
  by (simp add: WE_Handle_def machine_fit_def IsStatesInitSucc_def)

lemma Handle_at:
  "wakeup_at H W e (s, p) \<Longrightarrow> WE_Handle now msg s = Ret (r, t) \<Longrightarrow> \<exists>e'. wakeup_at H W e' (t, p)"
  using wframe.client_at [of H W e s p now msg r t] Handle_HandleMsg [of H W e s now msg] by (simp add: machine_at_def)

lemma self_at:
  "wakeup_at H W e (s, p) \<Longrightarrow> (\<And>u. wfields_ok e u \<Longrightarrow> wfields_ok e (f u)) \<Longrightarrow> wakeup_at H W e (s\<lparr>ms_self := f (ms_self s)\<rparr>, p)"
  by (rule machine_at_self) (simp_all add: machine_at_def machine_fit_def)

interpretation wakeup: invariant_system "wakeup_start H W" "wakeup_step H W" "wakeup_inv H W" for H W
proof (unfold_locales, goal_cases)
  case (1 x)
  from wakeup_started [OF this] show ?case by (auto simp: wakeup_inv_def)
next
  case (2 x y)
  then obtain e where at: "wakeup_at H W e x" by (auto simp: wakeup_inv_def)
  from 2(2) show ?case
  proof (cases rule: wakeup_step.cases)
    case (w_client now msg s r t p)
    then show ?thesis using Handle_at [of H W e s p now msg r t] at by (auto simp: wakeup_inv_def)
  next
    case (w_recognition now res info s r t p)
    let ?f = "on_ctx (report_track W WAKEUP_STAGE_SA_RECOGNIZED WAKEUP_RESULT_DEFAULT WAKEUP_ERROR_CODE_END)"
    have "wakeup_at H W e (s\<lparr>ms_self := ?f (ms_self s)\<rparr>, p)"
      by (rule self_at) (use at w_recognition in \<open>simp_all add: view_ctx\<close>)
    from Handle_at [OF this] w_recognition show ?thesis unfolding wakeup_inv_def OnWakeupRecognition_def by auto
  next
    case (w_detected now uuid s b t p)
    then obtain r t1 where h: "WE_Handle now (wmsg EV_START_RECOGNIZE (WInt uuid) None) s = Ret (r, t1)"
      "t = (if r \<noteq> 0 then t1\<lparr>ms_self := on_ctx (emit CloseWakeupSource) (ms_self t1)\<rparr> else t1)"
      by (auto simp: OnTriggerDetected_def obind_eq_Ret)
    obtain e' where "wakeup_at H W e' (t1, p)" using Handle_at [OF _ h(1)] at w_detected by blast
    moreover from this have "wakeup_at H W e' (t1\<lparr>ms_self := on_ctx (emit CloseWakeupSource) (ms_self t1)\<rparr>, p)"
      by (rule self_at) (simp add: view_ctx mic_users_emit)
    ultimately have "wakeup_at H W e' (t, p)" using h(2) by simp
    then show ?thesis unfolding wakeup_inv_def w_detected by blast
  next
    case (w_frame s p buf isEnd)
    then have "wakeup_at H W e (s\<lparr>ms_self := WE_ReadBufferCallback H buf isEnd (ms_self s)\<rparr>, p)"
      using at wfields_ok_callback by (intro self_at) auto
    then show ?thesis unfolding wakeup_inv_def w_frame by blast
  next
    case (w_end s p)
    then have "wakeup_at H W e (s\<lparr>ms_self := WE_EndOfPcm H (ms_self s)\<rparr>, p)" using at wfields_ok_end by (intro self_at) auto
    then show ?thesis unfolding wakeup_inv_def w_end by blast
  next
    case (w_world s p a h k)
    let ?f = "on_ctx (\<lambda>x. x\<lparr>cx_kv := k, cx_host := h, cx_answers := a\<rparr>)"
    have "wakeup_at H W e (s\<lparr>ms_self := ?f (ms_self s)\<rparr>, p)"
      by (rule self_at) (use at w_world in \<open>simp_all add: view_ctx\<close>)
    then show ?thesis unfolding wakeup_inv_def w_world by blast
  next
    case (w_take now s ev ob tm)
    then show ?thesis using wframe.take_at [of H W e s now ev ob tm] at unfolding wakeup_inv_def by auto
  next
    case (w_deliver now ev s t)
    then show ?thesis using wframe.deliver_at [of H W e s ev now t] at unfolding wakeup_inv_def by blast
  qed
qed

section \<open>Properties\<close>

lemma wreach_at:
  assumes "reach (wakeup_start H W) (wakeup_step H W) (s, p)" "ms_currState s = Some (wstate_id e)"
  shows "wakeup_at H W e (s, p)" "wakeup_fit H W e s"
proof -
  obtain e' where "wakeup_at H W e' (s, p)" using wakeup.reach_inv [OF assms(1)] by (auto simp: wakeup_inv_def)
  from wframe.at_unique [OF this] show "wakeup_at H W e (s, p)" "wakeup_fit H W e s"
    using assms(2) by (simp_all add: machine_at_def)
qed

lemma wcall:
  assumes fit: "wakeup_fit H W e s" and h: "whandlers H W e (msgId msg) = Some h"
    and r: "h msg (wstate_id e) (ms_self s) = wresult ret (wstate_id e') v"
  shows "\<exists>t. WE_Handle now msg s = Ret (ret, t) \<and> ms_self t = v \<and> wakeup_fit H W (if ret = 0 then e' else e) t"
  using wframe.call [OF fit, of msg h e' now] h r Handle_HandleMsg [OF fit, of now msg] by (auto simp: wresult_def)

lemma stop_calls [simp]:
  "notices (wf_ctx (WE_StopAudioSource u)) = notices (wf_ctx u)" "wf_adapterListener (WE_StopAudioSource u) = wf_adapterListener u"
  "notices (wf_ctx (stop_adapter H u)) = notices (wf_ctx u)" "wf_adapterListener (stop_adapter H u) = wf_adapterListener u"
  by (simp_all add: WE_StopAudioSource_def stop_adapter_def)

lemma notices_emit: "notices (emit (OnIntellVoiceEngineEvent c ev) x) = notices x @ [OnIntellVoiceEngineEvent c ev]"
  by (simp add: notices_def emit_def)

text \<open>The client of a result: the callback it is sent to, or the listener that keeps it.\<close>

lemma Notify_complete:
  assumes "complete_msg ev"
  shows "WL_Notify W ev l x =
    (case wl_cb l of
       None \<Rightarrow> (l\<lparr>wl_historyEvent := Some ev\<rparr>, report_track W WAKEUP_STAGE_SA_RECOGNIZED WAKEUP_RESULT_FAIL SA_CALLBACK_ERROR x)
     | Some c \<Rightarrow> (l\<lparr>wl_historyEvent := None\<rparr>, emit (OnIntellVoiceEngineEvent c ev) x))"
  using assms by (simp add: WL_Notify_def BackupCallBackEvent_def split: option.split)

lemma recognition_call:
  fixes res :: int and info :: string
  assumes fit: "wakeup_fit H W ST_RECOGNIZING s"
  defines "u \<equiv> ms_self s" and "ev \<equiv> \<lparr>ee_msgId = MSG_RECOGNIZE_COMPLETE, ee_result = res, ee_info = info\<rparr>"
  shows "\<exists>t. OnWakeupRecognition W now res info s = Ret (0, t) \<and>
    wakeup_fit H W (if res \<noteq> 0 then ST_INITIALIZED else ST_RECOGNIZED) t \<and>
    wl_cb (wf_adapterListener (ms_self t)) = wl_cb (wf_adapterListener u) \<and>
    wl_historyEvent (wf_adapterListener (ms_self t)) = (if wl_cb (wf_adapterListener u) = None then Some ev else None) \<and>
    notices (wf_ctx (ms_self t)) = notices (wf_ctx u) @
      (case wl_cb (wf_adapterListener u) of None \<Rightarrow> [] | Some c \<Rightarrow> [OnIntellVoiceEngineEvent c ev])"
proof -
  define v where "v = on_ctx (report_track W WAKEUP_STAGE_SA_RECOGNIZED WAKEUP_RESULT_DEFAULT WAKEUP_ERROR_CODE_END) u"
  obtain l x where n: "WL_Notify W ev (wf_adapterListener v) (wf_ctx v) = (l, x)" using prod.exhaust by blast
  define v1 where "v1 = v\<lparr>wf_adapterListener := l, wf_ctx := x\<rparr>"
  let ?m = "wmsg EV_RECOGNIZE_COMPLETE (WEvent ev) None"
  let ?e = "if res \<noteq> 0 then ST_INITIALIZED else ST_RECOGNIZED"
  let ?v = "stop_adapter H (if res \<noteq> 0 then WE_StopAudioSource v1 else v1)"
  have ok: "wfields_ok ST_RECOGNIZING v" using fit by (simp add: v_def u_def view_ctx machine_fit_def)
  have fit': "wakeup_fit H W ST_RECOGNIZING (s\<lparr>ms_self := v\<rparr>)" using fit ok by (simp add: machine_fit_def tables_ok_def)
  have "ee_result ev = res" by (simp add: ev_def)
  then have "WE_HandleRecognizeComplete H W ?m (wstate_id ST_RECOGNIZING) v = wresult 0 (wstate_id ?e) ?v"
    by (simp add: WE_HandleRecognizeComplete_def win_of_def wmsg_def n v1_def [symmetric] Let_def)
  then obtain t where t: "WE_Handle now ?m (s\<lparr>ms_self := v\<rparr>) = Ret (0, t)" "ms_self t = ?v" "wakeup_fit H W ?e t"
    using wcall [OF fit', of ?m "WE_HandleRecognizeComplete H W" 0 ?e ?v now]
    by (auto simp: whandlers_def wmsg_def)
  have "complete_msg ev" by (simp add: complete_msg_def ev_def)
  then have x: "wl_cb l = wl_cb (wf_adapterListener u)"
    "wl_historyEvent l = (if wl_cb (wf_adapterListener u) = None then Some ev else None)"
    "notices x = notices (wf_ctx u) @
      (case wl_cb (wf_adapterListener u) of None \<Rightarrow> [] | Some c \<Rightarrow> [OnIntellVoiceEngineEvent c ev])"
    using n by (auto simp: Notify_complete v_def notices_emit split: option.splits)
  have "notices (wf_ctx ?v) = notices x" "wf_adapterListener ?v = l"
    by (cases "res = 0"; simp add: v1_def)+
  then show ?thesis using t x unfolding OnWakeupRecognition_def ev_def [symmetric] u_def [symmetric] v_def [symmetric]
    by (intro exI [of _ t]) auto
qed

lemma set_listener_call:
  assumes fit: "wakeup_fit H W e s"
  shows "\<exists>t. WE_Handle now (wmsg EV_SET_LISTENER (WListener (Some c)) None) s = Ret (0, t) \<and> wakeup_fit H W e t \<and>
    wf_adapterListener (ms_self t) = \<lparr>wl_cb = Some c, wl_historyEvent = None\<rparr> \<and>
    notices (wf_ctx (ms_self t)) = notices (wf_ctx (ms_self s)) @
      (case wl_historyEvent (wf_adapterListener (ms_self s)) of None \<Rightarrow> [] | Some ev \<Rightarrow> [OnIntellVoiceEngineEvent c ev])"
proof -
  let ?m = "wmsg EV_SET_LISTENER (WListener (Some c)) None"
  obtain l x where n: "WL_SetCallback (Some c) (wf_adapterListener (ms_self s)) (wf_ctx (ms_self s)) = (l, x)"
    using prod.exhaust by blast
  have h: "whandlers H W e (msgId ?m) = Some WE_HandleSetListener"
    by (cases e) (simp_all add: whandlers_def live_handlers_def any_handlers_def wmsg_def)
  have "WE_HandleSetListener ?m (wstate_id e) (ms_self s) = wresult 0 (wstate_id e) ((ms_self s)\<lparr>wf_adapterListener := l, wf_ctx := x\<rparr>)"
    by (simp add: WE_HandleSetListener_def win_of_def wmsg_def n)
  from wcall [OF fit h this, of now] n show ?thesis
    by (auto simp: WL_SetCallback_def notices_emit split: option.splits)
qed

subsection \<open>A kept result\<close>

text \<open>
  What the clients have been told and what is kept for them. Of the handlers only four change it: the
  registration of a callback, the report of a result, and the end of the capture by a stop or a timeout.
\<close>

definition mail :: "'a wakeup_fields \<Rightarrow> WakeupAdapterListener \<times> engine_call list" where
  "mail u = (wf_adapterListener u, notices (wf_ctx u))"

definition clears :: "int set" where
  "clears = wevent_id ` {EV_SET_LISTENER, EV_RECOGNIZE_COMPLETE, EV_STOP_CAPTURER, EV_RECOGNIZE_COMPLETE_TIMEOUT,
     EV_READ_CAPTURER_TIMEOUT}"

lemma mail_ctx [simp]: "(\<And>x. notices (f x) = notices x) \<Longrightarrow> mail (on_ctx f u) = mail u"
  by (simp add: mail_def)

lemma mail_updates [simp]:
  "mail (u\<lparr>wf_out := o1\<rparr>) = mail u" "mail (u\<lparr>wf_source := w\<rparr>) = mail u" "mail (u\<lparr>wf_channels := c\<rparr>) = mail u"
  "mail (u\<lparr>wf_callerTokenId := t\<rparr>) = mail u" "mail (u\<lparr>wf_adapter := a\<rparr>) = mail u"
  by (simp_all add: mail_def)

lemma notices_trigger: "WE_SetTriggerParameter kv x = Some (v, y) \<Longrightarrow> notices y = notices x"
  by (rule told.view_trigger)

lemma mail_params [simp]:
  "mail (h_self (WE_HandleSetParam H msg n u)) = mail u" "mail (h_self (WE_HandleGetParam H msg n u)) = mail u"
  "mail (h_self (WE_HandleGetWakeupPcm H msg n u)) = mail u" "mail (h_self (WE_HandleRead msg n u)) = mail u"
  by (auto simp: WE_HandleSetParam_def WE_HandleGetParam_def WE_HandleGetWakeupPcm_def WE_HandleRead_def mail_def wresult_def
      Let_def case_prod_beta dest: notices_trigger split: wakeup_in.split option.split wakeup_out.split)

lemma mail_init [simp]:
  "mail (h_self (WE_HandleInit H msg n u)) = mail u" "mail (h_self (WE_HandleInitDone msg n u)) = mail u"
  "mail (h_self (WE_HandleResetAdapter H msg n u)) = mail u"
  by (simp_all add: WE_HandleInit_def WE_HandleInitDone_def WE_HandleResetAdapter_def SetCallbackInner_def AttachInner_def mail_def
      wresult_def Let_def case_prod_beta told.view_emit)

lemma mail_stops [simp]:
  "mail (h_self (WE_HandleStop H msg n u)) = mail u" "mail (h_self (WE_HandleRecognizingTimeout H W msg n u)) = mail u"
  "mail (h_self (WE_HandleRelease H msg n u)) = mail u" "mail (h_self (WE_HandleStartCapturer W msg n u)) = mail u"
  by (simp_all add: WE_HandleStop_def WE_HandleRecognizingTimeout_def WE_HandleRelease_def WE_HandleStartCapturer_def
      detach_adapter_def close_privacy_def WE_DestroyWakeupSourceStopCallback_def mail_def wresult_def Let_def case_prod_beta
      split: wakeup_in.split)

lemma mail_source [simp]:
  "mail (select_channel H uuid u) = mail u" "mail (snd (WE_CreateWakeupSourceStopCallback u)) = mail u"
  "mail (snd (WE_StartAudioSource u)) = mail u" "mail (h_self (start_failed W err n u)) = mail u"
  by (simp_all add: select_channel_def WE_CreateWakeupSourceStopCallback_def WE_StartAudioSource_def start_failed_def
      wresult_def mail_def Let_def case_prod_beta split: bool.split)

lemma mail_start_source [simp]: "mail (h_self (start_source H W uuid n u)) = mail u"
proof -
  obtain b u1 where c: "WE_CreateWakeupSourceStopCallback u = (b, u1)" using prod.exhaust by blast
  obtain d u2 where a: "WE_StartAudioSource (on_ctx (SetParamOnAudioStart uuid) u1) = (d, u2)" using prod.exhaust by blast
  have "mail u1 = mail u" "mail u2 = mail u1"
    using mail_source(2) [of u] mail_source(3) [of "on_ctx (SetParamOnAudioStart uuid) u1"] c a by simp_all
  then show ?thesis by (cases b; cases d) (simp_all add: start_source_def c a wresult_def)
qed

lemma mail_start [simp]: "mail (h_self (WE_HandleStart H W msg n u)) = mail u"
proof -
  obtain v x where g: "EU_GetParameter H (wf_adapter u) ''wakeup_multi_channel'' (wf_ctx u) = (v, x)" using prod.exhaust by blast
  have "notices x = notices (wf_ctx u)"
    using told.view_adapter(5) [of H "wf_adapter u" "''wakeup_multi_channel''" "wf_ctx u"] g by simp
  then have "mail (u\<lparr>wf_isMultiChannel := m, wf_ctx := x\<rparr>) = mail u" for m by (simp add: mail_def)
  then show ?thesis by (simp add: WE_HandleStart_def g Let_def split: wakeup_in.split prod.split)
qed

lemma mail_handler:
  "whandlers H W e m = Some h \<Longrightarrow> m \<notin> clears \<Longrightarrow> mail (h_self (h msg n u)) = mail u"
  by (cases e) (auto simp: whandlers_def live_handlers_def any_handlers_def clears_def split: if_splits)

lemma mail_message:
  assumes "wakeup_fit H W e s" "msgId msg \<notin> clears" "WE_Handle now msg s = Ret (r, t)"
  shows "mail (ms_self t) = mail (ms_self s)"
proof -
  have inv: "ms_inv s" "ms_currState s = Some (wstate_id e)" and tb: "tables_ok wstate_id (wtable H W) s"
    using assms(1) by (simp_all add: machine_fit_def)
  obtain i where a: "ms_states s (wstate_id e) = Some (Some ((wtable H W e)\<lparr>sa_timerId := i\<rparr>))"
    using tb unfolding tables_ok_def by metis
  have "HandleMsg now msg s = Ret (r, t)" using assms(3) Handle_HandleMsg [OF assms(1), of now msg] by simp
  from HandleMsg_effect [OF inv a this] show ?thesis
    using mail_handler [OF _ assms(2), of H W e _ msg "wstate_id e" "ms_self s"]
    by (cases "whandlers H W e (msgId msg)") (simp_all add: SA_Handle_def)
qed

text \<open>The steps of the engine but those four and the delivery of a timeout.\<close>

inductive kept_step :: "'a hdi \<Rightarrow> wakeup_device \<Rightarrow> 'a wakeup_sys \<Rightarrow> 'a wakeup_sys \<Rightarrow> bool" for H W where
  k_client: "msgId msg \<notin> clears \<Longrightarrow> WE_Handle now msg s = Ret (r, t) \<Longrightarrow> kept_step H W (s, p) (t, p)"
| k_detected: "OnTriggerDetected now uuid s = Ret (b, t) \<Longrightarrow> kept_step H W (s, p) (t, p)"
| k_frame: "kept_step H W (s, p) (s\<lparr>ms_self := WE_ReadBufferCallback H buf isEnd (ms_self s)\<rparr>, p)"
| k_end: "kept_step H W (s, p) (s\<lparr>ms_self := WE_EndOfPcm H (ms_self s)\<rparr>, p)"
| k_world: "kept_step H W (s, p)
    (s\<lparr>ms_self := on_ctx (\<lambda>x. x\<lparr>cx_kv := k, cx_host := h, cx_answers := a\<rparr>) (ms_self s)\<rparr>, p)"
| k_take: "Run_iter now (ms_tm s) = (RunFire e ob, tm) \<Longrightarrow> kept_step H W (s, None) (s\<lparr>ms_tm := tm\<rparr>, Some e)"

lemma kept_step_wakeup: "kept_step H W x y \<Longrightarrow> wakeup_step H W x y"
  by (induction rule: kept_step.induct) (auto intro: wakeup_step.intros)

lemma mail_kept:
  assumes "kept_step H W x y" "wakeup_inv H W x"
  shows "mail (ms_self (fst y)) = mail (ms_self (fst x))"
  using assms
proof (induction rule: kept_step.induct)
  case (k_client msg now s r t p)
  then obtain e where "wakeup_fit H W e s" by (auto simp: wakeup_inv_def machine_at_def)
  then show ?case using mail_message k_client by (metis fst_conv)
next
  case (k_detected now uuid s b t p)
  then obtain e where "wakeup_fit H W e s" by (auto simp: wakeup_inv_def machine_at_def)
  moreover have "msgId (wmsg EV_START_RECOGNIZE (WInt uuid) None) \<notin> clears" by (simp add: wmsg_def clears_def)
  ultimately show ?case using k_detected mail_message [of H W e s]
    by (auto simp: OnTriggerDetected_def obind_eq_Ret mail_def told.view_emit split: if_splits)
next
  case (k_frame s p buf isEnd)
  show ?case by (simp add: WE_ReadBufferCallback_def Let_def mail_def split: option.split)
next
  case (k_end s p)
  show ?case by (simp add: WE_EndOfPcm_def Let_def mail_def)
next
  case (k_world s p k h a)
  show ?case by (simp add: mail_def)
qed simp

lemma kept_run:
  "(kept_step H W)\<^sup>*\<^sup>* x y \<Longrightarrow> wakeup_inv H W x \<Longrightarrow> wakeup_inv H W y \<and> mail (ms_self (fst y)) = mail (ms_self (fst x))"
proof (induction rule: rtranclp_induct)
  case (step y z)
  then show ?case using wakeup.step_inv [OF _ kept_step_wakeup] mail_kept by metis
qed simp

subsection \<open>A running engine\<close>

definition demo_device :: wakeup_device where
  "demo_device = \<lparr>wd_open = (\<lambda>_. True), wd_ioctl = (\<lambda>_ _. True)\<rparr>"

abbreviation demo_reach :: "wakeup_device \<Rightarrow> WakeupState \<Rightarrow> unit wakeup_engine \<Rightarrow> bool" where
  "demo_reach W e s \<equiv> reach (wakeup_start demo_hdi W) (wakeup_step demo_hdi W) (s, None) \<and>
     ms_currState s = Some (wstate_id e) \<and> wakeup_fit demo_hdi W e s \<and> cx_answers (wf_ctx (ms_self s)) = demo_answers \<and>
     wf_adapterListener (ms_self s) = \<lparr>wl_cb = None, wl_historyEvent = None\<rparr>"

lemma demo_step:
  assumes "demo_reach W e s" "whandlers demo_hdi W e (msgId msg) = Some h"
    and "h msg (wstate_id e) (ms_self s) = wresult 0 (wstate_id e') v"
    and "cx_answers (wf_ctx v) = demo_answers" "wf_adapterListener v = \<lparr>wl_cb = None, wl_historyEvent = None\<rparr>"
  shows "\<exists>t. demo_reach W e' t"
proof -
  obtain t where t: "WE_Handle 0 msg s = Ret (0, t)" "ms_self t = v" "wakeup_fit demo_hdi W e' t"
    using wcall [of demo_hdi W e s msg h 0 e' v 0] assms by auto
  have "reach (wakeup_start demo_hdi W) (wakeup_step demo_hdi W) (t, None)"
    using assms(1) reach_step [where step = "wakeup_step demo_hdi W", OF _ w_client [OF t(1)]] by blast
  then show ?thesis using t assms by (intro exI [of _ t]) (simp add: machine_fit_def)
qed

lemma wresult_inj [simp]: "wresult r n u = wresult r' n' v \<longleftrightarrow> r = r' \<and> n = n' \<and> u = v"
  by (simp add: wresult_def)

lemmas demo_defs = demo_hdi_def demo_answers_def win_of_def wmsg_def whandlers_def live_handlers_def any_handlers_def
  CreateAdapterInner_def adapter_SetParameter_def EU_SetParameter_def EU_GetParameter_def set_stored_def
  report_track_def on_ctx_def emit_def Let_def

text \<open>The two handlers that depend on much of the driver, with a driver that accepts everything.\<close>

definition quiet_ctx :: "unit engine_ctx" where
  "quiet_ctx = \<lparr>cx_kv = None, cx_host = (), cx_track = WakeupTrack_init, cx_answers = demo_answers, cx_calls = []\<rparr>"

lemma demo_HandleInit:
  "\<exists>v. WE_HandleInit demo_hdi (wmsg EV_INIT WNull None) (wstate_id ST_IDLE) (wakeup_fields_new quiet_ctx) = wresult 0 (wstate_id ST_INITIALIZING) v \<and>
      cx_answers (wf_ctx v) = demo_answers \<and> wf_adapterListener v = \<lparr>wl_cb = None, wl_historyEvent = None\<rparr>"
  by (simp add: quiet_ctx_def wakeup_fields_new_def WE_HandleInit_def SetCallbackInner_def AttachInner_def adapter_Attach_def init_params_def
      SetDspFeatures_def SetImproveParam_def EU_SetTriggerParameter_def SetSensibility_def SetArea_def SetLanguage_def
      SetWakeupModel_def SetWhisperVpr_def GetStringKVPair_def UpdateDspModel_def proc_model_def ReadDspModel_def
      ProcDspModel_def demo_defs)

lemma demo_HandleStart:
  assumes "wf_adapter u" "cx_answers (wf_ctx u) = demo_answers" "wf_adapterListener u = \<lparr>wl_cb = None, wl_historyEvent = None\<rparr>"
  shows "\<exists>v. WE_HandleStart demo_hdi W (wmsg EV_START_RECOGNIZE (WInt 1) None) (wstate_id ST_INITIALIZED) u = wresult 0 (wstate_id ST_RECOGNIZING) v \<and>
      cx_answers (wf_ctx v) = demo_answers \<and> wf_adapterListener v = \<lparr>wl_cb = None, wl_historyEvent = None\<rparr>"
  using assms
  by (simp add: WE_HandleStart_def select_channel_def start_source_def SetScreenStatus_def WE_CreateWakeupSourceStopCallback_def
      SetParamOnAudioStart_def WE_StartAudioSource_def Start_new GetWakeupSourceChannel_def WE_MIN_BUFFER_SIZE_def demo_defs
      split: bool.split prod.split)

lemma wakeup_new_self: "ms_self (wakeup_new H W (\<lambda>_. True) True this c) = wakeup_fields_new c"
  by (simp add: wakeup_new_def WE_InitStates_def FromState_def Group_Add_def machine_eval upto_rec1)

lemma wdemo_initialized: "\<exists>s. demo_reach W ST_INITIALIZED s"
proof -
  let ?c = quiet_ctx
  let ?s = "wakeup_new demo_hdi W (\<lambda>_. True) True 7 ?c"
  have st: "wakeup_start demo_hdi W (?s, None)" unfolding wakeup_start_def by (intro exI [of _ 7] exI [of _ ?c]) (simp add: quiet_ctx_def)
  have s: "demo_reach W ST_IDLE ?s"
    using wakeup_started [OF st] reach_start [of "wakeup_start demo_hdi W", OF st]
    by (simp add: machine_at_def machine_fit_def wakeup_new_self wakeup_fields_new_def quiet_ctx_def)
  let ?i = "wmsg EV_INIT WNull None"
  obtain s1 where s1: "demo_reach W ST_INITIALIZING s1"
    using demo_step [OF s, of ?i "WE_HandleInit demo_hdi" ST_INITIALIZING] demo_HandleInit by (auto simp: whandlers_def wmsg_def wakeup_new_self)
  let ?d = "wmsg EV_INIT_DONE (WInt 0) None"
  show ?thesis
    by (rule demo_step [OF s1, of ?d WE_HandleInitDone ST_INITIALIZED "on_ctx (emit (CommonEvent ''wakeupEngineInited'')) (ms_self s1)"])
      (use s1 in \<open>simp_all add: WE_HandleInitDone_def demo_defs\<close>)
qed

lemma demo_recognizing: "\<exists>s. demo_reach W ST_RECOGNIZING s"
proof -
  obtain s where s: "demo_reach W ST_INITIALIZED s" using wdemo_initialized by blast
  have ad: "wf_adapter (ms_self s)" using s by (auto simp: machine_fit_def wfields_ok_def)
  let ?m = "wmsg EV_START_RECOGNIZE (WInt 1) None"
  show ?thesis
    using demo_step [OF s, of ?m "WE_HandleStart demo_hdi W" ST_RECOGNIZING] demo_HandleStart [OF ad, of W] s by (auto simp: whandlers_def wmsg_def)
qed

lemma demo_read_capturer: "\<exists>s. demo_reach W ST_READ_CAPTURER s"
proof -
  obtain s where s: "demo_reach W ST_RECOGNIZING s" using demo_recognizing by blast
  have ad: "wf_adapter (ms_self s)" using s by (auto simp: machine_fit_def wfields_ok_def)
  let ?m = "wmsg EV_RECOGNIZE_COMPLETE (WEvent \<lparr>ee_msgId = MSG_OTHER, ee_result = 0, ee_info = ''''\<rparr>) None"
  have "\<exists>v. WE_HandleRecognizeComplete demo_hdi W ?m (wstate_id ST_RECOGNIZING) (ms_self s) = wresult 0 (wstate_id ST_RECOGNIZED) v \<and>
      cx_answers (wf_ctx v) = demo_answers \<and> wf_adapterListener v = \<lparr>wl_cb = None, wl_historyEvent = None\<rparr>"
    using s ad
    by (simp add: WE_HandleRecognizeComplete_def WL_Notify_def BackupCallBackEvent_def complete_msg_def stop_adapter_def EU_Stop_def
        demo_defs)
  then obtain s1 where s1: "demo_reach W ST_RECOGNIZED s1"
    using demo_step [OF s, of ?m "WE_HandleRecognizeComplete demo_hdi W" ST_RECOGNIZED] by (auto simp: whandlers_def wmsg_def)
  let ?c = "wmsg EV_START_CAPTURER (WInt 1) None"
  have "\<exists>v. WE_HandleStartCapturer W ?c (wstate_id ST_RECOGNIZED) (ms_self s1) = wresult 0 (wstate_id ST_READ_CAPTURER) v \<and>
      cx_answers (wf_ctx v) = demo_answers \<and> wf_adapterListener v = \<lparr>wl_cb = None, wl_historyEvent = None\<rparr>"
    using s1 by (simp add: WE_HandleStartCapturer_def RecordPermissionPrivacy_def demo_defs)
  then show ?thesis
    using demo_step [OF s1, of ?c "WE_HandleStartCapturer W" ST_READ_CAPTURER] by (auto simp: whandlers_def wmsg_def)
qed

subsection \<open>Claims\<close>



text \<open>
  C9. In every reachable state of the engine an audio source is open, and reading, exactly while a wake-up
  is being recognized, is recognized or is read by a client; such a state has its own timeout pending,
  as the one timer of the engine or taken by the timer thread; and every state but the idle one
  has the adapter of the driver.
\<close>

theorem wakeup_session_bounded:
  assumes "reach (wakeup_start H W) (wakeup_step H W) (s, p)"
  shows "\<exists>e. CurrState s = wstate_id e \<and> (wf_audioSource (ms_self s) \<noteq> None \<longleftrightarrow> recording e) \<and>
    (\<forall>a. wf_audioSource (ms_self s) = Some a \<longrightarrow> as_isReading a) \<and> (e \<noteq> ST_IDLE \<longrightarrow> wf_adapter (ms_self s)) \<and>
    (recording e \<longrightarrow>
       (\<exists>x. ms_queue s = [x] \<and> ti_type x = cfg_type (wcfg_of e) \<and> ti_observer x = Some (ms_this s)) \<or>
       (\<exists>ev. p = Some ev \<and> te_type ev = cfg_type (wcfg_of e)))"
proof -
  obtain e where at: "wakeup_at H W e (s, p)" using wakeup.reach_inv [OF assms] by (auto simp: wakeup_inv_def)
  then have fit: "ms_currState s = Some (wstate_id e)" "wfields_ok e (ms_self s)"
    by (simp_all add: machine_at_def machine_fit_def)
  have "recording e \<longrightarrow> (\<exists>x. ms_queue s = [x] \<and> ti_type x = cfg_type (wcfg_of e) \<and> ti_observer x = Some (ms_this s)) \<or>
       (\<exists>ev. p = Some ev \<and> te_type ev = cfg_type (wcfg_of e))"
    using wframe.timer_shape [OF at] by simp
  then show ?thesis using fit by (intro exI [of _ e]) (auto simp: CurrState_def wfields_ok_def source_fit_def)
qed

lemma wakeup_session_bounded_witness:
  "\<exists>s a. reach (wakeup_start demo_hdi demo_device) (wakeup_step demo_hdi demo_device) (s, None) \<and>
     wf_audioSource (ms_self s) = Some a \<and> as_isReading a \<and> length (ms_queue s) = 1"
proof -
  obtain s where s: "demo_reach demo_device ST_READ_CAPTURER s" using demo_read_capturer by blast
  then have r: "reach (wakeup_start demo_hdi demo_device) (wakeup_step demo_hdi demo_device) (s, None)" by blast
  have c: "CurrState s = wstate_id e \<longleftrightarrow> e = ST_READ_CAPTURER" for e using s by (cases e) (simp_all add: CurrState_def)
  have "recording ST_READ_CAPTURER" by (simp add: recording_def)
  with wakeup_session_bounded [OF r] have "wf_audioSource (ms_self s) \<noteq> None"
    "\<forall>a. wf_audioSource (ms_self s) = Some a \<longrightarrow> as_isReading a" "\<exists>x. ms_queue s = [x]" unfolding c by blast+
  then show ?thesis using r by (intro exI [of _ s]) auto
qed





subsection \<open>A failed attachment\<close>

text \<open>
  When the adapter cannot be attached, \<open>HandleResetAdapter\<close> gives it back and \<open>HandleInit\<close> does not: the idle
  engine keeps it, and no event of the idle state releases it.
\<close>

lemma failed_init_keeps_adapter:
  assumes "\<And>ty h. fst (hdi_Create H ty h)" "\<And>i h. fst (hdi_Attach H i h) \<noteq> 0"
  shows "h_ret (WE_HandleInit H msg (wstate_id ST_IDLE) u) = -1 \<and> wf_adapter (h_self (WE_HandleInit H msg (wstate_id ST_IDLE) u))"
    "\<not> wf_adapter (h_self (WE_HandleResetAdapter H msg (wstate_id ST_IDLE) u))"
    "whandlers H W ST_IDLE (wevent_id EV_RELEASE) = None" "whandlers H W ST_IDLE (wevent_id EV_RELEASE_ADAPTER) = None"
  using assms
  by (auto simp: WE_HandleInit_def WE_HandleResetAdapter_def CreateAdapterInner_def SetCallbackInner_def AttachInner_def
      adapter_Attach_def ReleaseAdapterInner_def wresult_def whandlers_def any_handlers_def Let_def case_prod_beta)

end
