(* ===== verification/Enroll_Engine.thy ===== *)
theory Enroll_Engine
  imports Update_Util Audio_Source Wakeup_Engine
begin

text \<open>
  The enrolment engine, \<open>services/intell_voice_engine/server/enroll\<close>: a client attaches it with its wake-up phrase,
  records the phrase several times and detaches it; once the driver has committed the enrolment, the detach
  hands the model to the trigger side and stores the phrase and the version. Every member function holds the
  engine's lock, so each is one step; the callbacks of the driver post tasks to the engine's own thread. The
  offline processing of the recordings is its result \<open>an_tse\<close>.
\<close>

section \<open>Data\<close>

definition ENROLL_MIN_BUFFER_SIZE :: nat where
  "ENROLL_MIN_BUFFER_SIZE = 1280"

definition ENROLL_INTERVAL :: nat where
  "ENROLL_INTERVAL = 125"

definition WITHCMD_INTERVAL :: nat where
  "WITHCMD_INTERVAL = 200"

definition MAX_ENROLL_TASK_NUM :: nat where
  "MAX_ENROLL_TASK_NUM = 100"

datatype enroll_task = TaskEnrollComplete int string | TaskOffline

record engine_info =
  ei_wakeupPhrase :: string
  ei_isPcmFromExternal :: bool
  ei_minBufSize :: int
  ei_sampleChannels :: int
  ei_bitsPerSample :: int
  ei_sampleRate :: int

text \<open>\<open>ef_adapterListener\<close> is the client's callback of the listener; \<open>ef_tasks\<close> the queue of the thread.\<close>

record 'a EnrollEngine =
  ef_isPcmFromExternal :: bool
  ef_isWithCmdScenario :: bool
  ef_isNormalRegMode :: bool
  ef_isTopMicRegMode :: bool
  ef_enrollResult :: int
  ef_callerTokenId :: nat
  ef_adapterListener :: "nat option"
  ef_callback :: bool
  ef_audioSource :: "AudioSource option"
  ef_wakeupPhrase :: string
  ef_tseResult :: int
  ef_adapter :: bool
  ef_tasks :: "enroll_task list"
  ef_ctx :: "'a engine_ctx"

definition en_ctx :: "('a engine_ctx \<Rightarrow> 'a engine_ctx) \<Rightarrow> 'a EnrollEngine \<Rightarrow> 'a EnrollEngine" where
  "en_ctx f u = u\<lparr>ef_ctx := f (ef_ctx u)\<rparr>"

text \<open>\<open>AddAsyncTask\<close> without waiting: a full queue takes no task.\<close>

definition en_post :: "enroll_task \<Rightarrow> 'a EnrollEngine \<Rightarrow> 'a EnrollEngine" where
  "en_post t u = (if length (ef_tasks u) < MAX_ENROLL_TASK_NUM then u\<lparr>ef_tasks := ef_tasks u @ [t]\<rparr> else u)"

section \<open>Audio source\<close>

definition SetParamOnAudioStopOrError :: "'a EnrollEngine \<Rightarrow> 'a EnrollEngine" where
  "SetParamOnAudioStopOrError u =
     (if \<not> ef_isNormalRegMode u \<and> \<not> ef_isTopMicRegMode u then u
      else if \<not> an_audioManager (cx_answers (ef_ctx u)) then u
      else en_ctx (\<lambda>x. emit (SetAsrNoiseSuppressionMode BYPASS) (emit (SetAsrAecMode BYPASS) x)) u)"

definition EE_StartAudioSource :: "'a EnrollEngine \<Rightarrow> bool \<times> 'a EnrollEngine" where
  "EE_StartAudioSource u =
     (let a = cx_answers (ef_ctx u);
          u1 = u\<lparr>ef_callerTokenId := an_token a\<rparr>
      in (case RecordPermissionPrivacy INTELL_VOICE_PERMISSION_START (an_token a) (ef_ctx u1) of (ok, x) \<Rightarrow>
         if \<not> ok then (False, u1\<lparr>ef_ctx := x\<rparr>)
         else let u2 = u1\<lparr>ef_ctx := x\<rparr>;
                  bufferCnt = (if ef_isWithCmdScenario u2 then WITHCMD_INTERVAL else ENROLL_INTERVAL);
                  u3 = (if (ef_isNormalRegMode u2 \<or> ef_isTopMicRegMode u2) \<and> an_audioManager a
                        then en_ctx (\<lambda>x. emit (SetAsrNoiseSuppressionMode
                                 (if ef_isNormalRegMode u2 then NORMAL_REG else TOPMIC_REG)) (emit (SetAsrAecMode STANDARD) x)) u2
                        else u2)
              in (case AudioSource_Start (an_created a) (an_started a)
                         (AudioSource_new ENROLL_MIN_BUFFER_SIZE bufferCnt True) of
                    (True, src) \<Rightarrow> (True, u3\<lparr>ef_audioSource := Some src\<rparr>)
                  | (False, src) \<Rightarrow>
                      (False, (en_ctx (\<lambda>x. snd (RecordPermissionPrivacy INTELL_VOICE_PERMISSION_STOP (ef_callerTokenId u3) x))
                         (SetParamOnAudioStopOrError u3))
                         \<lparr>ef_audioSource := None, ef_isNormalRegMode := False, ef_isTopMicRegMode := False\<rparr>))))"

definition EE_StopAudioSource :: "'a EnrollEngine \<Rightarrow> 'a EnrollEngine" where
  "EE_StopAudioSource u =
     (let u1 = (if ef_audioSource u = None then u
                else (en_ctx (\<lambda>x. snd (RecordPermissionPrivacy INTELL_VOICE_PERMISSION_STOP (ef_callerTokenId u) x))
                        (SetParamOnAudioStopOrError u))\<lparr>ef_audioSource := None\<rparr>)
      in u1\<lparr>ef_isNormalRegMode := False, ef_isTopMicRegMode := False\<rparr>)"

text \<open>The callbacks of the capturer thread.\<close>

definition EE_ReadBufferCallback :: "'a hdi \<Rightarrow> bytes \<Rightarrow> bool \<Rightarrow> 'a EnrollEngine \<Rightarrow> 'a EnrollEngine" where
  "EE_ReadBufferCallback H buffer isEnd u = (if ef_adapter u \<and> \<not> isEnd then en_ctx (adapter_WriteAudio H buffer) u else u)"

definition EE_EndOfPcm :: "'a hdi \<Rightarrow> 'a EnrollEngine \<Rightarrow> 'a EnrollEngine" where
  "EE_EndOfPcm H u = (if ef_adapter u then en_ctx (\<lambda>x. snd (adapter_SetParameter H ''end_of_pcm=true'' x)) u else u)"

section \<open>Operations\<close>

definition EE_Init :: "'a hdi \<Rightarrow> 'a EnrollEngine \<Rightarrow> bool \<times> 'a EnrollEngine" where
  "EE_Init H u =
     (case CreateAdapterInner H (ENROLL_ADAPTER_TYPE H) (ef_ctx u) of (ok, x) \<Rightarrow> (ok, u\<lparr>ef_adapter := ok, ef_ctx := x\<rparr>))"

definition EE_SetCallback :: "'a hdi \<Rightarrow> nat option \<Rightarrow> 'a EnrollEngine \<Rightarrow> 'a EnrollEngine" where
  "EE_SetCallback H callback u =
     (if \<not> ef_adapter u then u
      else (case callback of
          None \<Rightarrow> u
        | Some c \<Rightarrow> (en_ctx (\<lambda>x. x\<lparr>cx_host := hdi_SetCallback H (cx_host x)\<rparr>) u)\<lparr>ef_adapterListener := Some c, ef_callback := True\<rparr>))"

definition adapter_info_of :: "engine_info \<Rightarrow> adapter_info" where
  "adapter_info_of i = \<lparr>ai_wakeupPhrase = ei_wakeupPhrase i, ai_minBufSize = ei_minBufSize i,
     ai_sampleChannels = ei_sampleChannels i, ai_bitsPerSample = ei_bitsPerSample i, ai_sampleRate = ei_sampleRate i\<rparr>"

definition EE_Attach :: "'a hdi \<Rightarrow> engine_info \<Rightarrow> 'a EnrollEngine \<Rightarrow> int \<times> 'a EnrollEngine" where
  "EE_Attach H info u =
     (if \<not> ef_adapter u then (-1, u)
      else let x1 = SetImproveParam H True (snd (SetDspFeatures H True (ef_ctx u)))
           in (case adapter_Attach H (adapter_info_of info) x1 of (r, x2) \<Rightarrow>
                 (r, u\<lparr>ef_isPcmFromExternal := ei_isPcmFromExternal info, ef_wakeupPhrase := ei_wakeupPhrase info, ef_ctx := x2\<rparr>)))"

text \<open>What a committed enrolment leaves behind.\<close>

definition save_enrolment :: "'a hdi \<Rightarrow> string \<Rightarrow> 'a engine_ctx \<Rightarrow> 'a engine_ctx" where
  "save_enrolment H phrase x = SaveWakeupVesion (SetStringKVPair ''WakeupPhrase'' phrase (proc_model H True (DSP_MODLE H) x))"

definition EE_Detach :: "'a hdi \<Rightarrow> 'a EnrollEngine \<Rightarrow> int \<times> 'a EnrollEngine" where
  "EE_Detach H u =
     (let u1 = EE_StopAudioSource u
      in if \<not> ef_adapter u1 then (0, u1)
         else let u2 = (if ef_enrollResult u1 = 0 then en_ctx (save_enrolment H (ef_wakeupPhrase u1)) u1 else u1)
              in (case hdi_Detach H (cx_host (ef_ctx u2)) of (ret, h) \<Rightarrow>
                    (case ReleaseAdapterInner H (ENROLL_ADAPTER_TYPE H) ((ef_ctx u2)\<lparr>cx_host := h\<rparr>) of (a, x) \<Rightarrow>
                       (ret, u2\<lparr>ef_adapter := a, ef_ctx := x\<rparr>))))"

definition EE_Start :: "'a hdi \<Rightarrow> int \<Rightarrow> bool \<Rightarrow> 'a EnrollEngine \<Rightarrow> int \<times> 'a EnrollEngine" where
  "EE_Start H mic isLast u =
     (let a = cx_answers (ef_ctx u)
      in if an_permission a \<noteq> 0 then (an_permission a, u)
         else if ef_audioSource u \<noteq> None then (-1, u)
         else if \<not> ef_adapter u then (-1, u)
         else (case hdi_Start H isLast (cx_host (ef_ctx u)) of (r, h) \<Rightarrow>
           (let u1 = en_ctx (\<lambda>x. x\<lparr>cx_host := h\<rparr>) u
            in if r \<noteq> 0 then (-1, u1)
               else if ef_isPcmFromExternal u1 then (0, u1)
               else (case EE_StartAudioSource (en_ctx (EU_SelectInputDevice mic) u1) of
                   (True, u2) \<Rightarrow> (0, u2)
                 | (False, u2) \<Rightarrow> (-1, en_ctx (adapter_Stop H) u2)))))"

definition EE_Stop :: "'a hdi \<Rightarrow> 'a EnrollEngine \<Rightarrow> int \<times> 'a EnrollEngine" where
  "EE_Stop H u =
     (let u1 = EE_StopAudioSource u
      in case EU_Stop H (ef_adapter u1) (ef_ctx u1) of (r, x) \<Rightarrow> (r, u1\<lparr>ef_ctx := x\<rparr>))"

text \<open>The loop over the parsed map stops at the first of the two names it stores for the ability.\<close>

fun inner_params :: "(string \<times> string) list \<Rightarrow> 'a engine_ctx \<Rightarrow> bool \<times> 'a engine_ctx" where
  "inner_params [] x = (False, x)"
| "inner_params ((k, v) # ps) x =
     (if k = ''wakeup_bundle_name'' then (True, SetStringKVPair ''WakeupEngineBundleName'' v x)
      else if k = ''wakeup_ability_name'' then (True, SetStringKVPair ''WakeupEngineAbilityName'' v x)
      else if k = ''language'' then inner_params ps (SetStringKVPair ''Language'' v x)
      else if k = ''area'' then inner_params ps (SetStringKVPair ''Area'' v x)
      else if k = ''Sensibility'' then inner_params ps (SetStringKVPair ''Sensibility'' v x)
      else inner_params ps x)"

definition SetParameterInner :: "string \<Rightarrow> 'a engine_ctx \<Rightarrow> bool \<times> 'a engine_ctx" where
  "SetParameterInner keyValueList x =
     (case SplitStringToKVPair keyValueList Map.empty of
        None \<Rightarrow> (False, x)
      | Some m \<Rightarrow> inner_params (map (\<lambda>k. (k, the (m k))) (sorted_list_of_set (dom m))) x)"

definition EE_SetParameter :: "'a hdi \<Rightarrow> string \<Rightarrow> 'a EnrollEngine \<Rightarrow> int \<times> 'a EnrollEngine" where
  "EE_SetParameter H kv u =
     (case SetParameterInner kv (ef_ctx u) of (inner, x) \<Rightarrow>
        if inner then (0, u\<lparr>ef_ctx := x\<rparr>)
        else let u1 = u\<lparr>ef_ctx := x,
                   ef_isWithCmdScenario := (kv = ''enrollScenario=withcmd'' \<or> ef_isWithCmdScenario u),
                   ef_isNormalRegMode := (kv = ''asr_ns_mode=NORMAL_REG'' \<or> ef_isNormalRegMode u),
                   ef_isTopMicRegMode := (kv = ''asr_ns_mode=TOPMIC_REG'' \<or> ef_isTopMicRegMode u)\<rparr>
             in (case EU_SetParameter H (ef_adapter u1) kv (ef_ctx u1) of (r, x1) \<Rightarrow> (r, u1\<lparr>ef_ctx := x1\<rparr>)))"

definition GetTSEParameter :: "'a EnrollEngine \<Rightarrow> string" where
  "GetTSEParameter u = (if ef_tseResult u = 0 then ''1'' else ''-1'')"

definition EE_GetParameter :: "'a hdi \<Rightarrow> string \<Rightarrow> 'a EnrollEngine \<Rightarrow> string \<times> 'a EnrollEngine" where
  "EE_GetParameter H key u =
     (if key = ''IS_OWNER_VOICE_ENROLLMENT_COMPLETED'' then (GetTSEParameter u, u)
      else (case EU_GetParameter H (ef_adapter u) key (ef_ctx u) of (v, x) \<Rightarrow> (v, u\<lparr>ef_ctx := x\<rparr>)))"

definition EE_WriteAudio :: "'a hdi \<Rightarrow> bytes \<Rightarrow> 'a EnrollEngine \<Rightarrow> int \<times> 'a EnrollEngine" where
  "EE_WriteAudio H buffer u = (case EU_WriteAudio H (ef_adapter u) buffer (ef_ctx u) of (r, x) \<Rightarrow> (r, u\<lparr>ef_ctx := x\<rparr>))"

definition EE_Evaluate :: "'a hdi \<Rightarrow> string \<Rightarrow> evaluation \<Rightarrow> 'a EnrollEngine \<Rightarrow> int \<times> evaluation \<times> 'a EnrollEngine" where
  "EE_Evaluate H word result u =
     (case EU_Evaluate H (ef_adapter u) word \<lparr>ev_score = 0, ev_resultCode = 0\<rparr> (ef_ctx u) of (r, info, x) \<Rightarrow>
        (r, if r = 0 then info else result, u\<lparr>ef_ctx := x\<rparr>))"

section \<open>Driver events\<close>

definition OnEnrollEvent :: "engine_event \<Rightarrow> 'a EnrollEngine \<Rightarrow> 'a EnrollEngine" where
  "OnEnrollEvent ev u =
     (if ee_msgId ev = MSG_ENROLL_COMPLETE then en_post (TaskEnrollComplete (ee_result ev) (ee_info ev)) u
      else if ee_msgId ev = MSG_COMMIT_ENROLL_COMPLETE
      then let u1 = en_ctx (emit (SetEnrollResult INTELL_VOICE_ENROLL (ee_result ev = 0))) (u\<lparr>ef_enrollResult := ee_result ev\<rparr>)
           in if an_support (cx_answers (ef_ctx u1)) ''tse_enable'' then en_post TaskOffline u1 else u1
      else u)"

definition EL_OnIntellVoiceHdiEvent :: "engine_event \<Rightarrow> 'a EnrollEngine \<Rightarrow> 'a EnrollEngine" where
  "EL_OnIntellVoiceHdiEvent ev u =
     (let u1 = OnEnrollEvent ev u
      in case ef_adapterListener u of
           None \<Rightarrow> u1
         | Some c \<Rightarrow> if ee_msgId ev \<noteq> MSG_ENROLL_COMPLETE then en_ctx (emit (OnIntellVoiceEngineEvent c ev)) u1 else u1)"

definition OnEnrollComplete :: "int \<Rightarrow> string \<Rightarrow> 'a EnrollEngine \<Rightarrow> 'a EnrollEngine" where
  "OnEnrollComplete result info u =
     EE_StopAudioSource
       (case ef_adapterListener u of
          None \<Rightarrow> u
        | Some c \<Rightarrow> en_ctx (emit (OnIntellVoiceEngineEvent c
            \<lparr>ee_msgId = MSG_ENROLL_COMPLETE, ee_result = result, ee_info = info\<rparr>)) u)"

fun run_enroll_task :: "enroll_task \<Rightarrow> 'a EnrollEngine \<Rightarrow> 'a EnrollEngine" where
  "run_enroll_task (TaskEnrollComplete r i) u = OnEnrollComplete r i u"
| "run_enroll_task TaskOffline u = u\<lparr>ef_tseResult := an_tse (cx_answers (ef_ctx u))\<rparr>"

definition enroll_new :: "'a engine_ctx \<Rightarrow> 'a EnrollEngine" where
  "enroll_new x =
     \<lparr>ef_isPcmFromExternal = False, ef_isWithCmdScenario = False, ef_isNormalRegMode = False, ef_isTopMicRegMode = False,
      ef_enrollResult = -1, ef_callerTokenId = 0, ef_adapterListener = None, ef_callback = False, ef_audioSource = None,
      ef_wakeupPhrase = '''', ef_tseResult = -1, ef_adapter = False, ef_tasks = [], ef_ctx = x\<rparr>"

section \<open>Interleavings\<close>

text \<open>
  A client call, a report of the driver, a task of the engine's thread, the capturer thread and a change
  of the surroundings are the steps. \<open>mic\<close> is the audio framework's type of the microphone.
\<close>

inductive enroll_step :: "'a hdi \<Rightarrow> int \<Rightarrow> 'a EnrollEngine \<Rightarrow> 'a EnrollEngine \<Rightarrow> bool" for H mic where
  en_callback: "enroll_step H mic u (EE_SetCallback H c u)"
| en_attach: "EE_Attach H i u = (r, v) \<Longrightarrow> enroll_step H mic u v"
| en_detach: "EE_Detach H u = (r, v) \<Longrightarrow> enroll_step H mic u v"
| en_start: "EE_Start H mic b u = (r, v) \<Longrightarrow> enroll_step H mic u v"
| en_stop: "EE_Stop H u = (r, v) \<Longrightarrow> enroll_step H mic u v"
| en_set: "EE_SetParameter H kv u = (r, v) \<Longrightarrow> enroll_step H mic u v"
| en_get: "EE_GetParameter H k u = (t, v) \<Longrightarrow> enroll_step H mic u v"
| en_write: "EE_WriteAudio H d u = (r, v) \<Longrightarrow> enroll_step H mic u v"
| en_eval: "EE_Evaluate H w e u = (r, e', v) \<Longrightarrow> enroll_step H mic u v"
| en_event: "enroll_step H mic u (EL_OnIntellVoiceHdiEvent ev u)"
| en_task: "ef_tasks u = t # ts \<Longrightarrow> enroll_step H mic u (run_enroll_task t (u\<lparr>ef_tasks := ts\<rparr>))"
| en_frame: "enroll_step H mic u (EE_ReadBufferCallback H d b u)"
| en_end: "enroll_step H mic u (EE_EndOfPcm H u)"
| en_world: "enroll_step H mic u (en_ctx (\<lambda>x. x\<lparr>cx_kv := k, cx_host := h, cx_answers := a\<rparr>) u)"

definition enroll_start :: "'a hdi \<Rightarrow> 'a EnrollEngine \<Rightarrow> bool" where
  "enroll_start H u \<longleftrightarrow> (\<exists>x. cx_calls x = [] \<and> EE_Init H (enroll_new x) = (True, u))"

section \<open>The invariant\<close>

definition enroll_inv :: "'a EnrollEngine \<Rightarrow> bool" where
  "enroll_inv u \<longleftrightarrow>
     mic_held (if ef_audioSource u = None then {} else {ef_callerTokenId u}) (mic_users (ef_ctx u)) \<and>
     (\<forall>a. ef_audioSource u = Some a \<longrightarrow> source_ok a \<and> as_isReading a)"

definition en_view :: "'a EnrollEngine \<Rightarrow> 'a EnrollEngine \<Rightarrow> bool" where
  "en_view u v \<longleftrightarrow> ef_audioSource u = ef_audioSource v \<and> ef_callerTokenId u = ef_callerTokenId v \<and>
     mic_users (ef_ctx u) = mic_users (ef_ctx v)"

lemma enroll_inv_view: "enroll_inv u \<Longrightarrow> en_view v u \<Longrightarrow> enroll_inv v"
  by (auto simp: enroll_inv_def en_view_def)

lemma en_ctx_fields [simp]:
  "ef_audioSource (en_ctx f u) = ef_audioSource u" "ef_callerTokenId (en_ctx f u) = ef_callerTokenId u"
  "ef_ctx (en_ctx f u) = f (ef_ctx u)" "ef_adapter (en_ctx f u) = ef_adapter u"
  "ef_adapterListener (en_ctx f u) = ef_adapterListener u" "ef_isPcmFromExternal (en_ctx f u) = ef_isPcmFromExternal u"
  "ef_wakeupPhrase (en_ctx f u) = ef_wakeupPhrase u" "ef_enrollResult (en_ctx f u) = ef_enrollResult u"
  "ef_isNormalRegMode (en_ctx f u) = ef_isNormalRegMode u" "ef_isTopMicRegMode (en_ctx f u) = ef_isTopMicRegMode u"
  by (simp_all add: en_ctx_def)

lemma en_post_fields [simp]:
  "ef_audioSource (en_post t u) = ef_audioSource u" "ef_callerTokenId (en_post t u) = ef_callerTokenId u"
  "ef_ctx (en_post t u) = ef_ctx u" "ef_adapterListener (en_post t u) = ef_adapterListener u" "ef_adapter (en_post t u) = ef_adapter u"
  "ef_wakeupPhrase (en_post t u) = ef_wakeupPhrase u" "ef_enrollResult (en_post t u) = ef_enrollResult u"
  by (simp_all add: en_post_def)

lemma quiet_inner [quiet, simp]: "mic_users (snd (inner_params ps x)) = mic_users x"
  by (induction ps x rule: inner_params.induct) simp_all

lemma quiet_enroll [quiet, simp]:
  "mic_users (snd (SetParameterInner kv x)) = mic_users x" "mic_users (EU_SelectInputDevice ty x) = mic_users x"
  "mic_users (save_enrolment H p x) = mic_users x" "mic_users (snd (snd (EU_Evaluate H a w i x))) = mic_users x"
  by (simp_all add: SetParameterInner_def EU_SelectInputDevice_def save_enrolment_def EU_Evaluate_def mic_users_emit
      split: option.split prod.split)

lemma StopOrError_fields [simp]:
  "ef_audioSource (SetParamOnAudioStopOrError u) = ef_audioSource u" "ef_callerTokenId (SetParamOnAudioStopOrError u) = ef_callerTokenId u"
  "mic_users (ef_ctx (SetParamOnAudioStopOrError u)) = mic_users (ef_ctx u)"
  by (simp_all add: SetParamOnAudioStopOrError_def mic_users_emit)

lemma stopped_source:
  assumes "enroll_inv u"
  shows "enroll_inv (EE_StopAudioSource u)" "ef_audioSource (EE_StopAudioSource u) = None"
    "mic_held {} (mic_users (ef_ctx (EE_StopAudioSource u)))"
  using assms by (auto simp: EE_StopAudioSource_def enroll_inv_def Let_def privacy_stop)

lemma started_source:
  assumes "enroll_inv u" "ef_audioSource u = None" "EE_StartAudioSource u = (b, v)"
  shows "enroll_inv v \<and> (ef_audioSource v \<noteq> None) = b"
proof -
  let ?t = "an_token (cx_answers (ef_ctx u))"
  obtain ok x where p: "RecordPermissionPrivacy INTELL_VOICE_PERMISSION_START ?t (ef_ctx u) = (ok, x)"
    using prod.exhaust by blast
  have m: "mic_held (if ok then {?t} else {}) (mic_users x)"
    using privacy_start [OF p] assms(1,2) by (simp add: enroll_inv_def)
  show ?thesis
    using assms(2,3) m p
    by (auto simp: EE_StartAudioSource_def Let_def enroll_inv_def mic_users_emit Start_new source_ok_def privacy_stop
        ENROLL_MIN_BUFFER_SIZE_def split: if_splits)
qed

text \<open>Operations that neither open nor close the source.\<close>

lemma plain_views:
  "en_view (EE_SetCallback H c u) u" "en_view (snd (EE_Attach H i u)) u" "en_view (snd (EE_SetParameter H kv u)) u"
  "en_view (snd (EE_GetParameter H k u)) u" "en_view (snd (EE_WriteAudio H d u)) u" "en_view (snd (snd (EE_Evaluate H w e u))) u"
  "en_view (EL_OnIntellVoiceHdiEvent ev u) u" "en_view (EE_ReadBufferCallback H d b u) u" "en_view (EE_EndOfPcm H u) u"
  "en_view (en_ctx (\<lambda>x. x\<lparr>cx_kv := k2, cx_host := h2, cx_answers := a2\<rparr>) u) u"
  by (simp_all add: en_view_def EE_SetCallback_def EE_Attach_def EE_SetParameter_def EE_GetParameter_def EE_WriteAudio_def
      EE_Evaluate_def EL_OnIntellVoiceHdiEvent_def OnEnrollEvent_def EE_ReadBufferCallback_def EE_EndOfPcm_def mic_users_emit
      Let_def case_prod_beta quiet_adapter split: option.split)

lemma enroll_inv_Start:
  assumes "enroll_inv u" "EE_Start H mic b u = (r, v)"
  shows "enroll_inv v"
proof -
  have keep: "enroll_inv (en_ctx f w)" if "enroll_inv w" "\<And>x. mic_users (f x) = mic_users x" for f and w :: "'a EnrollEngine"
    by (rule enroll_inv_view [OF that(1)]) (simp add: en_view_def that(2))
  obtain r1 h where s: "hdi_Start H b (cx_host (ef_ctx u)) = (r1, h)" using prod.exhaust by blast
  define u1 where "u1 = en_ctx (\<lambda>x. x\<lparr>cx_host := h\<rparr>) u"
  have u1: "enroll_inv u1" using assms(1) by (simp add: u1_def keep)
  obtain ok u2 where a: "EE_StartAudioSource (en_ctx (EU_SelectInputDevice mic) u1) = (ok, u2)" using prod.exhaust by blast
  have "enroll_inv u2" if "ef_audioSource u = None"
    using started_source [OF _ _ a] keep [OF u1, of "EU_SelectInputDevice mic"] that by (simp add: u1_def)
  then show ?thesis
    using assms u1 keep by (auto simp: EE_Start_def s u1_def [symmetric] a Let_def split: if_splits bool.splits)
qed

lemma enroll_inv_Detach:
  assumes "enroll_inv u" "EE_Detach H u = (r, v)"
  shows "enroll_inv v \<and> ef_audioSource v = None \<and> mic_held {} (mic_users (ef_ctx v)) \<and> \<not> ef_adapter v"
  using stopped_source [OF assms(1)] assms(2)
  by (auto simp: EE_Detach_def Let_def enroll_inv_def ReleaseAdapterInner_def split: if_splits prod.splits)

lemma enroll_inv_task: "enroll_inv u \<Longrightarrow> enroll_inv (run_enroll_task t u)"
proof (cases t)
  case (TaskEnrollComplete r i)
  let ?v = "case ef_adapterListener u of None \<Rightarrow> u
    | Some c \<Rightarrow> en_ctx (emit (OnIntellVoiceEngineEvent c \<lparr>ee_msgId = MSG_ENROLL_COMPLETE, ee_result = r, ee_info = i\<rparr>)) u"
  assume "enroll_inv u"
  then have "enroll_inv ?v"
    by (rule enroll_inv_view) (simp add: en_view_def mic_users_emit split: option.split)
  then show ?thesis using stopped_source(1) by (simp add: TaskEnrollComplete OnEnrollComplete_def)
qed (auto simp: enroll_inv_def)

interpretation enroll: invariant_system "enroll_start H" "enroll_step H mic" enroll_inv for H mic
proof (unfold_locales, goal_cases)
  case (1 u)
  then show ?case
    by (auto simp: enroll_start_def EE_Init_def enroll_new_def enroll_inv_def mic_users_def mic_held_def CreateAdapterInner_def split: prod.splits)
next
  case (2 u v)
  note view = enroll_inv_view [OF 2(1)]
  from 2(2) show ?case
  proof cases
    case (en_detach r)
    then show ?thesis using enroll_inv_Detach [OF 2(1)] by blast
  next
    case (en_start b r)
    then show ?thesis using enroll_inv_Start [OF 2(1)] by blast
  next
    case (en_stop r)
    then show ?thesis using stopped_source [OF 2(1)]
      by (auto simp: EE_Stop_def Let_def enroll_inv_def quiet_adapter split: prod.splits dest!: arg_cong [of "EU_Stop _ _ _" _ "\<lambda>p. mic_users (snd p)"])
  next
    case (en_task t ts)
    have "enroll_inv (u\<lparr>ef_tasks := ts\<rparr>)" using 2(1) by (auto simp: enroll_inv_def)
    then show ?thesis using en_task enroll_inv_task by blast
  qed (use plain_views view in \<open>metis snd_conv\<close>)+
qed

section \<open>Claims\<close>



text \<open>What happens between the attachment and the commit: recording, parameters, tasks, driver reports.\<close>

inductive recording_step :: "'a hdi \<Rightarrow> int \<Rightarrow> 'a EnrollEngine \<Rightarrow> 'a EnrollEngine \<Rightarrow> bool" for H mic where
  rec_start: "EE_Start H mic b u = (r, v) \<Longrightarrow> recording_step H mic u v"
| rec_stop: "EE_Stop H u = (r, v) \<Longrightarrow> recording_step H mic u v"
| rec_set: "EE_SetParameter H kv u = (r, v) \<Longrightarrow> recording_step H mic u v"
| rec_event: "recording_step H mic u (EL_OnIntellVoiceHdiEvent ev u)"
| rec_task: "ef_tasks u = t # ts \<Longrightarrow> recording_step H mic u (run_enroll_task t (u\<lparr>ef_tasks := ts\<rparr>))"
| rec_frame: "recording_step H mic u (EE_ReadBufferCallback H d b u)"
| rec_end: "recording_step H mic u (EE_EndOfPcm H u)"

text \<open>What those steps keep.\<close>

abbreviation held :: "'a EnrollEngine \<Rightarrow> string \<times> bool \<times> bool" where
  "held u \<equiv> (ef_wakeupPhrase u, ef_adapter u, cx_kv (ef_ctx u) = None)"

lemma kv_present [simp]:
  "cx_kv (emit c x) = cx_kv x" "(cx_kv (SetStringKVPair k v x) = None) = (cx_kv x = None)"
  "cx_kv (report_track W st rs er x) = cx_kv x" "cx_kv (EU_SelectInputDevice ty x) = cx_kv x"
  "cx_kv (snd (adapter_SetParameter H kv x)) = cx_kv x" "cx_kv (adapter_Stop H x) = cx_kv x" "cx_kv (adapter_WriteAudio H d x) = cx_kv x"
  "cx_kv (snd (EU_Stop H a x)) = cx_kv x" "cx_kv (snd (EU_SetParameter H a kv x)) = cx_kv x"
  by (simp_all add: emit_def SetStringKVPair_def report_track_def EU_SelectInputDevice_def adapter_SetParameter_def adapter_Stop_def
      adapter_WriteAudio_def EU_Stop_def EU_SetParameter_def split: prod.split)

lemma kv_inner [simp]: "(cx_kv (snd (inner_params ps x)) = None) = (cx_kv x = None)"
  by (induction ps x rule: inner_params.induct) simp_all

lemma StopOrError_held [simp]:
  "ef_wakeupPhrase (SetParamOnAudioStopOrError u) = ef_wakeupPhrase u" "ef_adapter (SetParamOnAudioStopOrError u) = ef_adapter u"
  "cx_kv (ef_ctx (SetParamOnAudioStopOrError u)) = cx_kv (ef_ctx u)"
  by (simp_all add: SetParamOnAudioStopOrError_def)

lemma stop_held [simp]:
  "ef_wakeupPhrase (EE_StopAudioSource u) = ef_wakeupPhrase u" "ef_adapter (EE_StopAudioSource u) = ef_adapter u"
  "cx_kv (ef_ctx (EE_StopAudioSource u)) = cx_kv (ef_ctx u)"
  by (simp_all add: EE_StopAudioSource_def Let_def)

lemma source_held: "held (EE_StopAudioSource u) = held u" "held (snd (EE_StartAudioSource u)) = held u"
proof -
  show "held (EE_StopAudioSource u) = held u" by simp
  let ?t = "an_token (cx_answers (ef_ctx u))"
  obtain ok x where r: "RecordPermissionPrivacy INTELL_VOICE_PERMISSION_START ?t (ef_ctx u) = (ok, x)" using prod.exhaust by blast
  have "cx_kv x = cx_kv (ef_ctx u)" using privacy_frames(1) [of INTELL_VOICE_PERMISSION_START ?t "ef_ctx u"] by (simp add: r)
  then show "held (snd (EE_StartAudioSource u)) = held u" by (simp add: EE_StartAudioSource_def r Start_new Let_def privacy_frames)
qed

lemma recording_held:
  assumes "recording_step H mic u v"
  shows "held v = held u"
  using assms
proof cases
  case (rec_start b r)
  obtain r1 h where s: "hdi_Start H b (cx_host (ef_ctx u)) = (r1, h)" using prod.exhaust by blast
  define u1 where "u1 = en_ctx (\<lambda>x. x\<lparr>cx_host := h\<rparr>) u"
  obtain ok u2 where a: "EE_StartAudioSource (en_ctx (EU_SelectInputDevice mic) u1) = (ok, u2)" using prod.exhaust by blast
  have "held u2 = held u" "held u1 = held u"
    using source_held(2) [of "en_ctx (EU_SelectInputDevice mic) u1", unfolded a] by (auto simp: u1_def)
  then show ?thesis using rec_start by (auto simp: EE_Start_def s u1_def [symmetric] a Let_def split: if_splits bool.splits)
next
  case (rec_task t ts)
  have "held (run_enroll_task t w) = held w" for w :: "'a EnrollEngine"
    by (cases t) (simp_all add: OnEnrollComplete_def split: option.split)
  then show ?thesis using rec_task by simp
qed (auto simp: EE_Stop_def EE_SetParameter_def SetParameterInner_def Let_def case_prod_beta
    EL_OnIntellVoiceHdiEvent_def OnEnrollEvent_def EE_ReadBufferCallback_def EE_EndOfPcm_def split: option.splits if_splits)

text \<open>
  C13. The phrase of an enrolment is the phrase the wake-up engine listens for. If the client attaches the engine
  with a phrase, records in any way, the driver commits the enrolment, and the client detaches the engine, then
  the wake-up engine attaches its adapter with exactly that phrase (the key-value store being available and taking
  the two values), and the recorded version is the installed one whenever that can be read.
\<close>

theorem enrolled_phrase_used:
  assumes "EE_Attach H info u = (r, u1)" "ef_adapter u" "cx_kv (ef_ctx u1) \<noteq> None" "ei_wakeupPhrase info \<noteq> ''''"
    "(recording_step H mic)\<^sup>*\<^sup>* u1 u2" "ee_msgId ev = MSG_COMMIT_ENROLL_COMPLETE" "ee_result ev = 0"
    "EE_Detach H (EL_OnIntellVoiceHdiEvent ev u2) = (r', v)"
    "an_put (cx_answers (ef_ctx u2)) ''WakeupPhrase''" "an_put (cx_answers (ef_ctx u2)) ''WakeupVersion''"
  shows "ai_wakeupPhrase (wakeup_info (ef_ctx v)) = ei_wakeupPhrase info \<and>
    (let ver = GetWakeupVesion (an_versionFile (cx_answers (ef_ctx u2)))
     in ver \<noteq> '''' \<longrightarrow> GetStringKVPair ''WakeupVersion'' (ef_ctx v) = ver)"
proof -
  have h1: "held u1 = (ei_wakeupPhrase info, True, False)"
    using assms(1-3) by (auto simp: EE_Attach_def Let_def split: prod.splits)
  have "held u2 = held u1" using assms(5) by (induction rule: rtranclp_induct) (simp_all add: recording_held)
  moreover define w where "w = EL_OnIntellVoiceHdiEvent ev u2"
  moreover have "ef_enrollResult w = 0" "held w = held u2" "cx_answers (ef_ctx w) = cx_answers (ef_ctx u2)"
    using assms(6,7) by (auto simp: w_def EL_OnIntellVoiceHdiEvent_def OnEnrollEvent_def Let_def emit_def split: option.splits)
  moreover define w1 where "w1 = EE_StopAudioSource w"
  ultimately have w1: "ef_enrollResult w1 = 0" "held w1 = (ei_wakeupPhrase info, True, False)"
      "cx_answers (ef_ctx w1) = cx_answers (ef_ctx u2)"
    using h1 source_held(1) [of w]
    by (simp_all add: EE_StopAudioSource_def SetParamOnAudioStopOrError_def Let_def emit_def)
  have kv: "cx_kv (proc_model H True (DSP_MODLE H) x) = cx_kv x" "cx_answers (proc_model H True (DSP_MODLE H) x) = cx_answers x" for x
    by (auto simp: proc_model_def ReadDspModel_def ProcDspModel_def emit_def split: prod.split option.split)
  let ?x = "save_enrolment H (ei_wakeupPhrase info) (ef_ctx w1)"
  have "GetStringKVPair k (ef_ctx v) = GetStringKVPair k ?x" for k
    using assms(8) w1 by (auto simp: EE_Detach_def w_def [symmetric] w1_def [symmetric] Let_def ReleaseAdapterInner_def
        GetStringKVPair_def split: prod.splits)
  moreover have "GetStringKVPair ''WakeupPhrase'' ?x = ei_wakeupPhrase info"
    "GetWakeupVesion (an_versionFile (cx_answers (ef_ctx u2))) \<noteq> '''' \<longrightarrow>
      GetStringKVPair ''WakeupVersion'' ?x = GetWakeupVesion (an_versionFile (cx_answers (ef_ctx u2)))"
    using w1 kv assms(9,10) by (auto simp: save_enrolment_def SaveWakeupVesion_def Let_def SetStringKVPair_def GetStringKVPair_def)
  ultimately show ?thesis using assms(4) by (simp add: wakeup_info_def GetWakeupPhrase_def Let_def)
qed

lemma enrolled_phrase_used_witness:
  "\<exists>r v. EE_Detach demo_hdi (EL_OnIntellVoiceHdiEvent \<lparr>ee_msgId = MSG_COMMIT_ENROLL_COMPLETE, ee_result = 0, ee_info = ''''\<rparr>
       (snd (EE_Attach demo_hdi \<lparr>ei_wakeupPhrase = ''hello'', ei_isPcmFromExternal = False, ei_minBufSize = 1280,
          ei_sampleChannels = 1, ei_bitsPerSample = 16, ei_sampleRate = 16000\<rparr> (snd (EE_Init demo_hdi (enroll_new demo_ctx)))))) = (r, v) \<and>
     ai_wakeupPhrase (wakeup_info (ef_ctx v)) = ''hello''"
proof -
  let ?i = "\<lparr>ei_wakeupPhrase = ''hello'', ei_isPcmFromExternal = False, ei_minBufSize = 1280,
          ei_sampleChannels = 1, ei_bitsPerSample = 16, ei_sampleRate = 16000\<rparr>"
  let ?ev = "\<lparr>ee_msgId = MSG_COMMIT_ENROLL_COMPLETE, ee_result = 0, ee_info = ''''\<rparr>"
  let ?u = "snd (EE_Init demo_hdi (enroll_new demo_ctx))"
  obtain r0 u1 where a: "EE_Attach demo_hdi ?i ?u = (r0, u1)" using prod.exhaust by blast
  obtain r v where d: "EE_Detach demo_hdi (EL_OnIntellVoiceHdiEvent ?ev u1) = (r, v)" using prod.exhaust by blast
  have ad: "ef_adapter ?u" by (simp add: EE_Init_def CreateAdapterInner_def demo_hdi_def)
  have kv: "cx_kv (ef_ctx u1) \<noteq> None" and put: "an_put (cx_answers (ef_ctx u1)) k" for k
    using a by (auto simp: EE_Attach_def EE_Init_def CreateAdapterInner_def enroll_new_def demo_ctx_def demo_hdi_def demo_answers_def
        SetImproveParam_def SetDspFeatures_def adapter_Attach_def adapter_SetParameter_def Let_def)
  show ?thesis
    using enrolled_phrase_used [OF a ad kv, of 10 u1 ?ev r v] d a put by simp
qed

end
