(* ===== verification/Update_Engine.thy ===== *)
theory Update_Engine
  imports Enroll_Engine
begin

text \<open>
  The update engine, \<open>services/intell_voice_engine/server/update/update_engine\<close>: it asks the driver to enrol the user's
  kept audio again with newer resources. One object is one attempt: it is attached when it is made, the driver
  reports once that the enrolment is committed, and the object is detached. The result travels to the
  service as a task \<open>TaskUpdateComplete\<close> on its queue; a detach before the report sends the default result.
  The functions return the tasks they post.
\<close>

section \<open>Data\<close>

datatype UpdateState = UPDATE_STATE_DEFAULT | UPDATE_STATE_COMPLETE_SUCCESS | UPDATE_STATE_COMPLETE_FAIL | UPDATE_STATE_CONCURRENT

primrec update_state_id :: "UpdateState \<Rightarrow> int" where
  "update_state_id UPDATE_STATE_DEFAULT = -1"
| "update_state_id UPDATE_STATE_COMPLETE_SUCCESS = 0"
| "update_state_id UPDATE_STATE_COMPLETE_FAIL = 1"
| "update_state_id UPDATE_STATE_CONCURRENT = 2"


text \<open>The tasks the service's thread runs, named after the functions that post them.\<close>

datatype service_task =
    TaskUpdateComplete UpdateState string
  | TaskUpdateRetry
  | TaskSilenceUpdate
  | TaskWhisperVprUpdate
  | TaskSwitchOn int bool
  | TaskSwitchOff int
  | TaskUnload
  | TaskReleaseEngine IntellVoiceEngineType
  | TaskCloseWakeupSource bool
  | TaskStopWakeupSource
  | TaskDetected int
  | TaskStartDetection int
  | TaskTriggerParam string string

record UpdateEngine =
  ue_param :: string
  ue_updateResult :: UpdateState
  ue_callback :: bool
  ue_adapter :: bool

definition update_new :: UpdateEngine where
  "update_new = \<lparr>ue_param = '''', ue_updateResult = UPDATE_STATE_DEFAULT, ue_callback = False, ue_adapter = False\<rparr>"

section \<open>Operations\<close>

text \<open>What a committed enrolment leaves behind: the model, the version and the phrase the driver names.\<close>

definition save_update :: "'a hdi \<Rightarrow> 'a engine_ctx \<Rightarrow> 'a engine_ctx" where
  "save_update H x =
     (case EU_GetParameter H True ''wakeup_phrase'' (SaveWakeupVesion (proc_model H True (DSP_MODLE H) x)) of (phrase, x1) \<Rightarrow>
        if phrase = '''' then x1 else SetStringKVPair ''WakeupPhrase'' phrase x1)"

definition OnCommitEnrollComplete ::
  "'a hdi \<Rightarrow> int \<Rightarrow> UpdateEngine \<Rightarrow> 'a engine_ctx \<Rightarrow> service_task list \<times> UpdateEngine \<times> 'a engine_ctx" where
  "OnCommitEnrollComplete H result u x =
     (if \<not> ue_adapter u then ([], u, x)
      else let r = (if result = 0 then UPDATE_STATE_COMPLETE_SUCCESS else UPDATE_STATE_COMPLETE_FAIL);
               x1 = (if r = UPDATE_STATE_COMPLETE_SUCCESS then save_update H x else x)
           in ([TaskUpdateComplete r (ue_param u)], u\<lparr>ue_updateResult := r\<rparr>, x1))"

definition OnUpdateEvent ::
  "'a hdi \<Rightarrow> engine_event \<Rightarrow> UpdateEngine \<Rightarrow> 'a engine_ctx \<Rightarrow> service_task list \<times> UpdateEngine \<times> 'a engine_ctx" where
  "OnUpdateEvent H ev u x =
     (if ee_msgId ev = MSG_COMMIT_ENROLL_COMPLETE then OnCommitEnrollComplete H (ee_result ev) u x else ([], u, x))"

definition UE_SetCallback :: "'a hdi \<Rightarrow> UpdateEngine \<Rightarrow> 'a engine_ctx \<Rightarrow> UpdateEngine \<times> 'a engine_ctx" where
  "UE_SetCallback H u x = (u\<lparr>ue_callback := True\<rparr>, x\<lparr>cx_host := hdi_SetCallback H (cx_host x)\<rparr>)"

definition UE_Attach :: "'a hdi \<Rightarrow> engine_info \<Rightarrow> UpdateEngine \<Rightarrow> 'a engine_ctx \<Rightarrow> int \<times> 'a engine_ctx" where
  "UE_Attach H info u x = (if \<not> ue_adapter u then (-1, x) else adapter_Attach H (adapter_info_of info) x)"

definition update_info :: "'a engine_ctx \<Rightarrow> engine_info" where
  "update_info x = \<lparr>ei_wakeupPhrase = GetStringKVPair ''WakeupPhrase'' x, ei_isPcmFromExternal = False, ei_minBufSize = 1280,
     ei_sampleChannels = 1, ei_bitsPerSample = 16, ei_sampleRate = 16000\<rparr>"

definition update_params :: "'a hdi \<Rightarrow> string \<Rightarrow> bool \<Rightarrow> 'a engine_ctx \<Rightarrow> 'a engine_ctx" where
  "update_params H param reEnroll x =
     (let x1 = (if param = ''WhisperVprUpdate'' then snd (EU_SetParameter H True ''WhisperVpr=true'' x) else x)
      in if reEnroll then snd (EU_SetParameter H True ''WhisperReEnroll=true'' x1) else x1)"

definition UE_SetParameter :: "'a hdi \<Rightarrow> string \<Rightarrow> UpdateEngine \<Rightarrow> 'a engine_ctx \<Rightarrow> int \<times> 'a engine_ctx" where
  "UE_SetParameter H kv u x = EU_SetParameter H (ue_adapter u) kv x"

definition UE_GetParameter :: "'a hdi \<Rightarrow> string \<Rightarrow> UpdateEngine \<Rightarrow> 'a engine_ctx \<Rightarrow> string \<times> 'a engine_ctx" where
  "UE_GetParameter H key u x = EU_GetParameter H (ue_adapter u) key x"

definition UE_Stop :: "'a hdi \<Rightarrow> UpdateEngine \<Rightarrow> 'a engine_ctx \<Rightarrow> int \<times> 'a engine_ctx" where
  "UE_Stop H u x = EU_Stop H (ue_adapter u) x"

definition UE_Init ::
  "'a hdi \<Rightarrow> string \<Rightarrow> bool \<Rightarrow> UpdateEngine \<Rightarrow> 'a engine_ctx \<Rightarrow> bool \<times> UpdateEngine \<times> 'a engine_ctx" where
  "UE_Init H param reEnroll u x =
     (case CreateAdapterInner H (UPDATE_ADAPTER_TYPE H) x of (ok, x1) \<Rightarrow>
        if \<not> ok then (False, u\<lparr>ue_adapter := False\<rparr>, x1)
        else (case UE_SetCallback H (u\<lparr>ue_adapter := True\<rparr>) (update_params H param reEnroll x1) of (u1, x2) \<Rightarrow>
          (let x3 = snd (SetDspFeatures H True (SetArea H True (SetLanguage H True x2)));
               x4 = (if param = '''' then x3 else snd (UE_SetParameter H param u1 (SetImproveParam H True x3)))
           in (case UE_Attach H (update_info x4) u1 x4 of (ret, x5) \<Rightarrow>
                 if ret \<noteq> 0
                 then (case ReleaseAdapterInner H (UPDATE_ADAPTER_TYPE H) x5 of (a, x6) \<Rightarrow> (False, u1\<lparr>ue_adapter := a\<rparr>, x6))
                 else (True, u1\<lparr>ue_param := param\<rparr>, x5)))))"

definition UE_Detach ::
  "'a hdi \<Rightarrow> UpdateEngine \<Rightarrow> 'a engine_ctx \<Rightarrow> int \<times> service_task list \<times> UpdateEngine \<times> 'a engine_ctx" where
  "UE_Detach H u x =
     (if \<not> ue_adapter u then (0, [], u, x)
      else (case hdi_Detach H (cx_host x) of (ret, h) \<Rightarrow>
        (case ReleaseAdapterInner H (UPDATE_ADAPTER_TYPE H) (x\<lparr>cx_host := h\<rparr>) of (a, x1) \<Rightarrow>
          (ret, if ue_updateResult u = UPDATE_STATE_DEFAULT then [TaskUpdateComplete UPDATE_STATE_DEFAULT (ue_param u)] else [],
           u\<lparr>ue_adapter := a\<rparr>, x1))))"

section \<open>Lemmas\<close>

text \<open>An engine that was initialised is attached and has no result.\<close>

lemma UE_Init_fresh:
  assumes "UE_Init H param b update_new x = (True, u, y)"
  shows "ue_adapter u" "ue_param u = param" "ue_updateResult u = UPDATE_STATE_DEFAULT"
  using assms by (auto simp: UE_Init_def update_new_def UE_SetCallback_def Let_def split: prod.splits if_splits)

lemma UE_Detach_releases:
  "UE_Detach H u x = (r, ts, v, y) \<Longrightarrow> \<not> ue_adapter v"
  by (auto simp: UE_Detach_def ReleaseAdapterInner_def split: prod.splits if_splits)

text \<open>The report and the detach agree: an attached engine without a result sends exactly one task.\<close>

lemma UE_Detach_posts:
  assumes "UE_Detach H u x = (r, ts, v, y)"
  shows "ts = (if ue_adapter u \<and> ue_updateResult u = UPDATE_STATE_DEFAULT then [TaskUpdateComplete UPDATE_STATE_DEFAULT (ue_param u)] else [])"
  using assms by (auto simp: UE_Detach_def split: prod.splits if_splits)

lemma OnUpdateEvent_cases:
  assumes "OnUpdateEvent H ev u x = (ts, v, y)"
  shows "(ts = [] \<and> v = u \<and> y = x) \<or>
    (ue_adapter u \<and> (\<exists>r. r \<noteq> UPDATE_STATE_DEFAULT \<and> ts = [TaskUpdateComplete r (ue_param u)] \<and> v = u\<lparr>ue_updateResult := r\<rparr>))"
  using assms by (auto simp: OnUpdateEvent_def OnCommitEnrollComplete_def Let_def split: if_splits)

lemma save_update_kv: "cx_kv x \<noteq> None \<Longrightarrow> cx_kv (save_update H x) \<noteq> None"
  by (auto simp: save_update_def proc_model_def SaveWakeupVesion_def SetStringKVPair_def ReadDspModel_def ProcDspModel_def
      EU_GetParameter_def emit_def Let_def split: prod.splits option.splits)

end
