(* ===== verification/Engine_Manager.thy ===== *)
theory Engine_Manager
  imports Update_Engine Queues
begin

text \<open>
  The engine manager, \<open>services/intell_voice_engine/server/manager\<close> (engine table and arbitration), with the update
  controller it inherits (\<open>server/update/controller\<close>) and the update strategies. The table holds
  the enrolment engine and the update engine of the theories below; the classes of the other engines depend
  on the build, so they are objects of a type \<open>'w\<close> behind the record \<open>engine_class\<close> of the virtual functions of
  \<open>EngineBase\<close> the manager calls. A call holds the manager's lock and is one step. Tasks are
  posted to the queue of the service's thread, \<open>em_tasks\<close>.
\<close>

section \<open>Data\<close>

definition MAX_TASK_NUM :: nat where
  "MAX_TASK_NUM = 2048"

definition UPDATE_DELAY_TIME_SECONDS :: int where
  "UPDATE_DELAY_TIME_SECONDS = 30"

record ('a, 'w) engine_class =
  ec_Create :: "IntellVoiceEngineType \<Rightarrow> 'a engine_ctx \<Rightarrow> 'w option \<times> 'a engine_ctx"
  ec_Detach :: "'w \<Rightarrow> 'a engine_ctx \<Rightarrow> 'w \<times> 'a engine_ctx"
  ec_Stop :: "'w \<Rightarrow> 'a engine_ctx \<Rightarrow> 'w \<times> 'a engine_ctx"
  ec_ReleaseAdapter :: "'w \<Rightarrow> 'a engine_ctx \<Rightarrow> 'w \<times> 'a engine_ctx"
  ec_ResetAdapter :: "'w \<Rightarrow> 'a engine_ctx \<Rightarrow> bool \<times> 'w \<times> 'a engine_ctx"
  ec_SetParameter :: "string \<Rightarrow> 'w \<Rightarrow> 'a engine_ctx \<Rightarrow> 'w \<times> 'a engine_ctx"
  ec_SetCallback :: "nat option \<Rightarrow> 'w \<Rightarrow> 'a engine_ctx \<Rightarrow> 'w \<times> 'a engine_ctx"
  ec_OnDetected :: "int \<Rightarrow> 'w \<Rightarrow> 'a engine_ctx \<Rightarrow> 'w \<times> 'a engine_ctx"

datatype ('a, 'w) engine = EnrollObj "'a EnrollEngine" | UpdateObj UpdateEngine | ClassObj 'w

datatype IUpdateStrategy = CloneUpdateStrategy string "nat option" | SilenceUpdateStrategy string | WhisperUpdateStrategy string

text \<open>The clock and whether a thread can be made, at the moment of a call.\<close>

record update_env =
  uv_now :: int
  uv_thread :: bool

record ('a, 'w) EngineManager =
  em_engines :: "IntellVoiceEngineType \<rightharpoonup> ('a, 'w) engine"
  em_isUpdating :: bool
  em_timerId :: int
  em_retryTimes :: int
  em_retryTimesLimit :: int
  em_updateResult :: UpdateState
  em_updateStrategy :: "IUpdateStrategy option"
  em_curPriority :: int
  em_isForceReleased :: bool
  em_timers :: timer_mgr
  em_tasks :: "service_task list"
  em_ctx :: "'a engine_ctx"

definition manager_new :: "'a engine_ctx \<Rightarrow> ('a, 'w) EngineManager" where
  "manager_new x = \<lparr>em_engines = Map.empty, em_isUpdating = False, em_timerId = INVALID_ID, em_retryTimes = 0,
     em_retryTimesLimit = 0, em_updateResult = UPDATE_STATE_DEFAULT, em_updateStrategy = None, em_curPriority = 0,
     em_isForceReleased = False, em_timers = TimerMgr 10, em_tasks = [], em_ctx = x\<rparr>"

text \<open>Posting without waiting: a full queue takes no task.\<close>

definition post :: "service_task \<Rightarrow> ('a, 'w) EngineManager \<Rightarrow> ('a, 'w) EngineManager" where
  "post t m = (if length (em_tasks m) < MAX_TASK_NUM then m\<lparr>em_tasks := em_tasks m @ [t]\<rparr> else m)"

definition post_all :: "service_task list \<Rightarrow> ('a, 'w) EngineManager \<Rightarrow> ('a, 'w) EngineManager" where
  "post_all ts m = fold post ts m"

section \<open>Virtual functions of the engines\<close>

fun Base_Detach ::
  "'a hdi \<Rightarrow> ('a, 'w) engine_class \<Rightarrow> ('a, 'w) engine \<Rightarrow> 'a engine_ctx \<Rightarrow> ('a, 'w) engine \<times> service_task list \<times> 'a engine_ctx" where
  "Base_Detach H C (EnrollObj u) x = (case EE_Detach H (u\<lparr>ef_ctx := x\<rparr>) of (_, v) \<Rightarrow> (EnrollObj v, [], ef_ctx v))"
| "Base_Detach H C (UpdateObj u) x = (case UE_Detach H u x of (_, ts, v, y) \<Rightarrow> (UpdateObj v, ts, y))"
| "Base_Detach H C (ClassObj w) x = (case ec_Detach C w x of (w', y) \<Rightarrow> (ClassObj w', [], y))"

fun Base_Stop ::
  "'a hdi \<Rightarrow> ('a, 'w) engine_class \<Rightarrow> ('a, 'w) engine \<Rightarrow> 'a engine_ctx \<Rightarrow> ('a, 'w) engine \<times> 'a engine_ctx" where
  "Base_Stop H C (EnrollObj u) x = (case EE_Stop H (u\<lparr>ef_ctx := x\<rparr>) of (_, v) \<Rightarrow> (EnrollObj v, ef_ctx v))"
| "Base_Stop H C (UpdateObj u) x = (UpdateObj u, snd (UE_Stop H u x))"
| "Base_Stop H C (ClassObj w) x = (case ec_Stop C w x of (w', y) \<Rightarrow> (ClassObj w', y))"

text \<open>\<open>EngineBase\<close> itself answers the next three for the enrolment and the update engine.\<close>

fun Base_ReleaseAdapter ::
  "('a, 'w) engine_class \<Rightarrow> ('a, 'w) engine \<Rightarrow> 'a engine_ctx \<Rightarrow> ('a, 'w) engine \<times> 'a engine_ctx" where
  "Base_ReleaseAdapter C (ClassObj w) x = (case ec_ReleaseAdapter C w x of (w', y) \<Rightarrow> (ClassObj w', y))"
| "Base_ReleaseAdapter C e x = (e, x)"

fun Base_ResetAdapter ::
  "('a, 'w) engine_class \<Rightarrow> ('a, 'w) engine \<Rightarrow> 'a engine_ctx \<Rightarrow> bool \<times> ('a, 'w) engine \<times> 'a engine_ctx" where
  "Base_ResetAdapter C (ClassObj w) x = (case ec_ResetAdapter C w x of (ok, w', y) \<Rightarrow> (ok, ClassObj w', y))"
| "Base_ResetAdapter C e x = (True, e, x)"

fun Base_OnDetected ::
  "('a, 'w) engine_class \<Rightarrow> int \<Rightarrow> ('a, 'w) engine \<Rightarrow> 'a engine_ctx \<Rightarrow> ('a, 'w) engine \<times> 'a engine_ctx" where
  "Base_OnDetected C uuid (ClassObj w) x = (case ec_OnDetected C uuid w x of (w', y) \<Rightarrow> (ClassObj w', y))"
| "Base_OnDetected C uuid e x = (e, x)"

fun Base_SetParameter ::
  "'a hdi \<Rightarrow> ('a, 'w) engine_class \<Rightarrow> string \<Rightarrow> ('a, 'w) engine \<Rightarrow> 'a engine_ctx \<Rightarrow> ('a, 'w) engine \<times> 'a engine_ctx" where
  "Base_SetParameter H C kv (EnrollObj u) x = (case EE_SetParameter H kv (u\<lparr>ef_ctx := x\<rparr>) of (_, v) \<Rightarrow> (EnrollObj v, ef_ctx v))"
| "Base_SetParameter H C kv (UpdateObj u) x = (UpdateObj u, snd (UE_SetParameter H kv u x))"
| "Base_SetParameter H C kv (ClassObj w) x = (case ec_SetParameter C kv w x of (w', y) \<Rightarrow> (ClassObj w', y))"

fun Base_SetCallback ::
  "'a hdi \<Rightarrow> ('a, 'w) engine_class \<Rightarrow> nat option \<Rightarrow> ('a, 'w) engine \<Rightarrow> 'a engine_ctx \<Rightarrow> ('a, 'w) engine \<times> 'a engine_ctx" where
  "Base_SetCallback H C c (EnrollObj u) x = (let v = EE_SetCallback H c (u\<lparr>ef_ctx := x\<rparr>) in (EnrollObj v, ef_ctx v))"
| "Base_SetCallback H C c (UpdateObj u) x = (case UE_SetCallback H u x of (v, y) \<Rightarrow> (UpdateObj v, y))"
| "Base_SetCallback H C c (ClassObj w) x = (case ec_SetCallback C c w x of (w', y) \<Rightarrow> (ClassObj w', y))"

text \<open>An engine of the table, and a call on it.\<close>

definition on_engine ::
  "IntellVoiceEngineType \<Rightarrow> (('a, 'w) engine \<Rightarrow> 'a engine_ctx \<Rightarrow> ('a, 'w) engine \<times> 'a engine_ctx) \<Rightarrow>
    ('a, 'w) EngineManager \<Rightarrow> ('a, 'w) EngineManager" where
  "on_engine t f m =
     (case em_engines m t of
        None \<Rightarrow> m
      | Some e \<Rightarrow> (case f e (em_ctx m) of (e', x) \<Rightarrow> m\<lparr>em_engines := (em_engines m)(t \<mapsto> e'), em_ctx := x\<rparr>))"

definition CreateEngineInst ::
  "'a hdi \<Rightarrow> ('a, 'w) engine_class \<Rightarrow> IntellVoiceEngineType \<Rightarrow> string \<Rightarrow> bool \<Rightarrow> 'a engine_ctx \<Rightarrow> ('a, 'w) engine option \<times> 'a engine_ctx" where
  "CreateEngineInst H C t param reEnroll x =
     (case t of
        INTELL_VOICE_ENROLL \<Rightarrow> (case EE_Init H (enroll_new x) of (ok, u) \<Rightarrow> (if ok then Some (EnrollObj u) else None, ef_ctx u))
      | INTELL_VOICE_UPDATE \<Rightarrow>
          (case UE_Init H param reEnroll update_new x of (ok, u, y) \<Rightarrow> (if ok then Some (UpdateObj u) else None, y))
      | INTELL_VOICE_WAKEUP \<Rightarrow> (case ec_Create C t x of (w, y) \<Rightarrow> (map_option ClassObj w, y))
      | INTELL_VOICE_IMPLICIT_ENROLL \<Rightarrow> (case ec_Create C t x of (w, y) \<Rightarrow> (map_option ClassObj w, y))
      | _ \<Rightarrow> (None, x))"

section \<open>Arbitration\<close>

datatype EngineRelationType = CONCURRENCY_TYPE | REJECTION_TYPE | PREEMPTION_TYPE | REPLACEMENT_TYPE

fun engineRelationTbl :: "IntellVoiceEngineType \<Rightarrow> (IntellVoiceEngineType \<times> EngineRelationType) list" where
  "engineRelationTbl INTELL_VOICE_ENROLL = [(INTELL_VOICE_WAKEUP, PREEMPTION_TYPE), (INTELL_VOICE_UPDATE, REPLACEMENT_TYPE)]"
| "engineRelationTbl INTELL_VOICE_WAKEUP = [(INTELL_VOICE_ENROLL, CONCURRENCY_TYPE)]"
| "engineRelationTbl INTELL_VOICE_UPDATE = [(INTELL_VOICE_ENROLL, REJECTION_TYPE)]"
| "engineRelationTbl _ = []"

definition JudgeRejection :: "IntellVoiceEngineType \<Rightarrow> ('a, 'w) EngineManager \<Rightarrow> bool" where
  "JudgeRejection t m = list_ex (\<lambda>(q, r). r = REJECTION_TYPE \<and> em_engines m q \<noteq> None) (engineRelationTbl t)"

definition HandlePreemption ::
  "'a hdi \<Rightarrow> ('a, 'w) engine_class \<Rightarrow> IntellVoiceEngineType \<Rightarrow> ('a, 'w) EngineManager \<Rightarrow> ('a, 'w) EngineManager" where
  "HandlePreemption H C t m =
     fold (\<lambda>(q, r) m. if r \<noteq> PREEMPTION_TYPE then m else on_engine q (Base_Stop H C) m) (engineRelationTbl t) m"

text \<open>Detaching an engine and taking it out of the table.\<close>

definition remove_engine ::
  "'a hdi \<Rightarrow> ('a, 'w) engine_class \<Rightarrow> IntellVoiceEngineType \<Rightarrow> ('a, 'w) EngineManager \<Rightarrow> ('a, 'w) EngineManager" where
  "remove_engine H C t m =
     (case em_engines m t of
        None \<Rightarrow> m
      | Some e \<Rightarrow> (case Base_Detach H C e (em_ctx m) of (_, ts, x) \<Rightarrow>
          post_all ts (m\<lparr>em_engines := (em_engines m)(t := None), em_ctx := x\<rparr>)))"

definition HandleReplace ::
  "'a hdi \<Rightarrow> ('a, 'w) engine_class \<Rightarrow> IntellVoiceEngineType \<Rightarrow> ('a, 'w) EngineManager \<Rightarrow> ('a, 'w) EngineManager" where
  "HandleReplace H C t m =
     fold (\<lambda>(q, r) m. if r \<noteq> REPLACEMENT_TYPE then m else remove_engine H C q m) (engineRelationTbl t) m"

definition ApplyArbitration ::
  "'a hdi \<Rightarrow> ('a, 'w) engine_class \<Rightarrow> IntellVoiceEngineType \<Rightarrow> ('a, 'w) EngineManager \<Rightarrow> bool \<times> ('a, 'w) EngineManager" where
  "ApplyArbitration H C t m =
     (if JudgeRejection t m then (False, m) else (True, HandleReplace H C t (HandlePreemption H C t m)))"

section \<open>The engine table\<close>

definition Mgr_SetEnrollResult :: "IntellVoiceEngineType \<Rightarrow> bool \<Rightarrow> 'a engine_ctx \<Rightarrow> 'a engine_ctx" where
  "Mgr_SetEnrollResult t r x =
     (if t \<in> {ENGINE_TYPE_BUT, INTELL_VOICE_HEADSET_WAKEUP} then x else emit (SetEnrollResult t r) x)"

fun enroll_flag :: "IntellVoiceEngineType \<Rightarrow> engine_call \<Rightarrow> bool \<Rightarrow> bool" where
  "enroll_flag t (SetEnrollResult t' r) b = (if t' = t then r else b)"
| "enroll_flag t _ b = b"

text \<open>The flag of a type is the last value stored for it; initially false.\<close>

definition GetEnrollResult :: "IntellVoiceEngineType \<Rightarrow> 'a engine_ctx \<Rightarrow> bool" where
  "GetEnrollResult t x =
     (if t \<in> {ENGINE_TYPE_BUT, INTELL_VOICE_HEADSET_WAKEUP} then False else fold (enroll_flag t) (cx_calls x) False)"

definition CreateEngineInner ::
  "'a hdi \<Rightarrow> ('a, 'w) engine_class \<Rightarrow> IntellVoiceEngineType \<Rightarrow> string \<Rightarrow> bool \<Rightarrow> ('a, 'w) EngineManager \<Rightarrow> bool \<times> ('a, 'w) EngineManager" where
  "CreateEngineInner H C t param reEnroll m =
     (if em_engines m t \<noteq> None then (True, m)
      else (case CreateEngineInst H C t param reEnroll (em_ctx m) of (e, x) \<Rightarrow>
        (let m1 = m\<lparr>em_ctx := Mgr_SetEnrollResult t False x\<rparr>
         in case e of None \<Rightarrow> (False, m1) | Some e \<Rightarrow> (True, m1\<lparr>em_engines := (em_engines m1)(t \<mapsto> e)\<rparr>))))"

definition CreateEngine ::
  "'a hdi \<Rightarrow> ('a, 'w) engine_class \<Rightarrow> IntellVoiceEngineType \<Rightarrow> string \<Rightarrow> bool \<Rightarrow> ('a, 'w) EngineManager \<Rightarrow> bool \<times> ('a, 'w) EngineManager" where
  "CreateEngine H C t param reEnroll m =
     (case ApplyArbitration H C t m of
        (False, m1) \<Rightarrow> (False, m1)
      | (True, m1) \<Rightarrow>
          (let m2 = (if t \<noteq> INTELL_VOICE_WAKEUP \<and> t \<noteq> INTELL_VOICE_IMPLICIT_ENROLL
                     then on_engine INTELL_VOICE_WAKEUP (Base_ReleaseAdapter C) m1 else m1)
           in CreateEngineInner H C t param reEnroll m2))"

definition ReleaseEngineInner ::
  "'a hdi \<Rightarrow> ('a, 'w) engine_class \<Rightarrow> IntellVoiceEngineType \<Rightarrow> ('a, 'w) EngineManager \<Rightarrow> ('a, 'w) EngineManager" where
  "ReleaseEngineInner H C t m = remove_engine H C t m"

definition GetUpdateState :: "('a, 'w) EngineManager \<Rightarrow> bool" where
  "GetUpdateState m = em_isUpdating m"

definition IsEngineExist :: "IntellVoiceEngineType \<Rightarrow> ('a, 'w) EngineManager \<Rightarrow> bool" where
  "IsEngineExist t m =
     (if em_engines m t \<noteq> None then True else if t = INTELL_VOICE_UPDATE \<and> GetUpdateState m then True else False)"

definition AnyEngineExist :: "IntellVoiceEngineType list \<Rightarrow> ('a, 'w) EngineManager \<Rightarrow> bool" where
  "AnyEngineExist ts m = list_ex (\<lambda>t. IsEngineExist t m) ts"

definition CreateOrResetWakeupEngine ::
  "'a hdi \<Rightarrow> ('a, 'w) engine_class \<Rightarrow> ('a, 'w) EngineManager \<Rightarrow> bool \<times> ('a, 'w) EngineManager" where
  "CreateOrResetWakeupEngine H C m =
     (case em_engines m INTELL_VOICE_WAKEUP of
        None \<Rightarrow> CreateEngineInner H C INTELL_VOICE_WAKEUP '''' False m
      | Some e \<Rightarrow>
          (case Base_ReleaseAdapter C e (em_ctx m) of (e1, x1) \<Rightarrow>
            (case Base_ResetAdapter C e1 x1 of (ok, e2, x2) \<Rightarrow>
              (ok, m\<lparr>em_engines := (em_engines m)(INTELL_VOICE_WAKEUP \<mapsto> e2), em_ctx := x2\<rparr>))))"

text \<open>The detach of an engine that stays in the table.\<close>

definition detach_wakeup :: "'a hdi \<Rightarrow> ('a, 'w) engine_class \<Rightarrow> ('a, 'w) EngineManager \<Rightarrow> ('a, 'w) EngineManager" where
  "detach_wakeup H C m =
     (case em_engines m INTELL_VOICE_WAKEUP of
        None \<Rightarrow> m
      | Some e \<Rightarrow> (case Base_Detach H C e (em_ctx m) of (e', ts, x) \<Rightarrow>
          post_all ts (m\<lparr>em_engines := (em_engines m)(INTELL_VOICE_WAKEUP \<mapsto> e'), em_ctx := x\<rparr>)))"

definition ServiceStopProc ::
  "'a hdi \<Rightarrow> ('a, 'w) engine_class \<Rightarrow> ('a, 'w) EngineManager \<Rightarrow> int \<times> ('a, 'w) EngineManager" where
  "ServiceStopProc H C m = (if em_engines m INTELL_VOICE_WAKEUP = None then (-1, m) else (0, detach_wakeup H C m))"

definition EngineOnDetected :: "('a, 'w) engine_class \<Rightarrow> int \<Rightarrow> ('a, 'w) EngineManager \<Rightarrow> ('a, 'w) EngineManager" where
  "EngineOnDetected C uuid m = on_engine INTELL_VOICE_WAKEUP (Base_OnDetected C uuid) m"

definition ClearWakeupEngineCb :: "'a hdi \<Rightarrow> ('a, 'w) engine_class \<Rightarrow> ('a, 'w) EngineManager \<Rightarrow> ('a, 'w) EngineManager" where
  "ClearWakeupEngineCb H C m = on_engine INTELL_VOICE_WAKEUP (Base_SetCallback H C None) m"

section \<open>Update strategies\<close>

fun strategy_param :: "IUpdateStrategy \<Rightarrow> string" where
  "strategy_param (CloneUpdateStrategy p _) = p"
| "strategy_param (SilenceUpdateStrategy p) = p"
| "strategy_param (WhisperUpdateStrategy p) = p"

fun UpdateRestrain :: "'a hdi \<Rightarrow> IUpdateStrategy \<Rightarrow> 'a engine_ctx \<Rightarrow> bool \<times> 'a engine_ctx" where
  "UpdateRestrain H (CloneUpdateStrategy _ _) x = (GetStringKVPair ''WakeupVersion'' x \<noteq> '''', x)"
| "UpdateRestrain H (SilenceUpdateStrategy _) x = (case IsVersionUpdate H x of (b, y) \<Rightarrow> (\<not> b, y))"
| "UpdateRestrain H (WhisperUpdateStrategy _) x = (False, x)"

fun GetUpdatePriority :: "IUpdateStrategy \<Rightarrow> int" where
  "GetUpdatePriority (CloneUpdateStrategy _ _) = 2"
| "GetUpdatePriority (SilenceUpdateStrategy _) = 3"
| "GetUpdatePriority (WhisperUpdateStrategy _) = 4"

fun GetRetryTimes :: "IUpdateStrategy \<Rightarrow> int" where
  "GetRetryTimes (CloneUpdateStrategy _ _) = 0"
| "GetRetryTimes (SilenceUpdateStrategy _) = 5"
| "GetRetryTimes (WhisperUpdateStrategy _) = 5"

definition GetBundleOrAbilityName :: "string \<Rightarrow> string \<Rightarrow> 'a engine_ctx \<Rightarrow> string" where
  "GetBundleOrAbilityName key param x =
     (case an_json (cx_answers x) param of
        None \<Rightarrow> ''''
      | Some root \<Rightarrow> (case root key of Some (JString v) \<Rightarrow> v | _ \<Rightarrow> ''''))"

definition SetBundleAndAbilityName :: "string \<Rightarrow> 'a engine_ctx \<Rightarrow> 'a engine_ctx" where
  "SetBundleAndAbilityName param x =
     (let bundleName = GetBundleOrAbilityName ''bundle_name'' param x;
          x1 = (if bundleName = '''' then x else SetStringKVPair ''WakeupEngineBundleName'' bundleName x);
          abilityName = GetBundleOrAbilityName ''ability_name'' param x1
      in if abilityName = '''' then x1 else SetStringKVPair ''WakeupEngineAbilityName'' abilityName x1)"

definition offline_audio :: "'a engine_ctx \<Rightarrow> 'a engine_ctx" where
  "offline_audio x = (if an_support (cx_answers x) ''tse_enable'' then emit OfflineAudio x else x)"

fun OnUpdateCompleteCallback :: "IUpdateStrategy \<Rightarrow> int \<Rightarrow> bool \<Rightarrow> 'a engine_ctx \<Rightarrow> 'a engine_ctx" where
  "OnUpdateCompleteCallback (CloneUpdateStrategy p cb) result isLast x =
     (case cb of
        None \<Rightarrow> x
      | Some c \<Rightarrow>
          emit (UpdateComplete c result)
            (if result = update_state_id UPDATE_STATE_COMPLETE_SUCCESS then offline_audio (SetBundleAndAbilityName p x) else x))"
| "OnUpdateCompleteCallback (SilenceUpdateStrategy p) result isLast x =
     (if \<not> isLast \<or> result = 0 then offline_audio x
      else if result = update_state_id UPDATE_STATE_CONCURRENT then x
      else emit (StartAbility ''update_event'') x)"
| "OnUpdateCompleteCallback (WhisperUpdateStrategy p) result isLast x =
     (let x1 = (if result = 0 then SetStringKVPair ''WhisperVpr'' ''true'' x else x)
      in if \<not> isLast \<or> result = 0 then x1 else SetStringKVPair ''WhisperVpr'' ''false'' x1)"

section \<open>The update controller\<close>

definition CreateUpdateEngine ::
  "'a hdi \<Rightarrow> ('a, 'w) engine_class \<Rightarrow> string \<Rightarrow> bool \<Rightarrow> ('a, 'w) EngineManager \<Rightarrow> bool \<times> ('a, 'w) EngineManager" where
  "CreateUpdateEngine H C param reEnroll m = CreateEngine H C INTELL_VOICE_UPDATE param reEnroll m"

text \<open>The message \<open>RELEASE_ENGINE\<close> comes back through the service as \<open>ReleaseEngineInner\<close> of the update engine.\<close>

definition ReleaseUpdateEngine :: "'a hdi \<Rightarrow> ('a, 'w) engine_class \<Rightarrow> ('a, 'w) EngineManager \<Rightarrow> ('a, 'w) EngineManager" where
  "ReleaseUpdateEngine H C m = ReleaseEngineInner H C INTELL_VOICE_UPDATE m"

definition ClearRetryState :: "('a, 'w) EngineManager \<Rightarrow> ('a, 'w) EngineManager" where
  "ClearRetryState m = m\<lparr>em_retryTimes := 0, em_updateResult := UPDATE_STATE_DEFAULT, em_timerId := INVALID_ID,
     em_updateStrategy := None, em_retryTimesLimit := 0, em_curPriority := 0, em_isUpdating := False\<rparr>"

definition stop_timers :: "('a, 'w) EngineManager \<Rightarrow> ('a, 'w) EngineManager" where
  "stop_timers m = m\<lparr>em_timers := TimerMgr_Stop (em_timers m)\<rparr>"

definition Ctl_OnTimerEvent :: "('a, 'w) EngineManager \<Rightarrow> ('a, 'w) EngineManager" where
  "Ctl_OnTimerEvent m = post TaskUpdateRetry m"

definition UpdateRetryProc :: "'a hdi \<Rightarrow> ('a, 'w) engine_class \<Rightarrow> ('a, 'w) EngineManager \<Rightarrow> bool \<times> ('a, 'w) EngineManager" where
  "UpdateRetryProc H C m =
     (let give_up = (\<lambda>m. (False, stop_timers (ReleaseUpdateEngine H C (ClearRetryState m))))
      in if em_isForceReleased m then (True, m)
         else (case em_updateStrategy m of
             None \<Rightarrow> give_up (m\<lparr>em_updateResult := UPDATE_STATE_COMPLETE_SUCCESS\<rparr>)
           | Some s \<Rightarrow>
               (case UpdateRestrain H s (em_ctx m) of (restrained, x) \<Rightarrow>
                 if restrained then give_up (m\<lparr>em_ctx := x, em_updateResult := UPDATE_STATE_COMPLETE_SUCCESS\<rparr>)
                 else (case CreateUpdateEngine H C (strategy_param s) False (m\<lparr>em_ctx := x\<rparr>) of
                     (True, m1) \<Rightarrow> (True, m1\<lparr>em_timerId := INVALID_ID\<rparr>)
                   | (False, m1) \<Rightarrow> give_up (m1\<lparr>em_updateResult := UPDATE_STATE_COMPLETE_FAIL\<rparr>)))))"

definition UpdateArbitration ::
  "'a hdi \<Rightarrow> ('a, 'w) engine_class \<Rightarrow> int \<Rightarrow> ('a, 'w) EngineManager \<Rightarrow> bool \<times> ('a, 'w) EngineManager" where
  "UpdateArbitration H C priority m =
     (if \<not> GetUpdateState m then (True, m)
      else if em_curPriority m > priority then (False, m)
      else if em_curPriority m = priority then (True, m)
      else let m1 = (case em_updateStrategy m of
                       None \<Rightarrow> m
                     | Some s \<Rightarrow> m\<lparr>em_ctx := OnUpdateCompleteCallback s (update_state_id UPDATE_STATE_CONCURRENT) True (em_ctx m)\<rparr>)
           in (True, stop_timers (ClearRetryState (ReleaseUpdateEngine H C m1))))"

definition CreateUpdateEngineUntilTime ::
  "'a hdi \<Rightarrow> ('a, 'w) engine_class \<Rightarrow> update_env \<Rightarrow> IUpdateStrategy \<Rightarrow> bool \<Rightarrow> ('a, 'w) EngineManager \<Rightarrow> int \<times> ('a, 'w) EngineManager" where
  "CreateUpdateEngineUntilTime H C e s reEnroll m =
     (case UpdateRestrain H s (em_ctx m) of (restrained, x) \<Rightarrow>
        if restrained then (-1, m\<lparr>em_ctx := x\<rparr>)
        else (case UpdateArbitration H C (GetUpdatePriority s) (m\<lparr>em_ctx := x\<rparr>) of
            (False, m1) \<Rightarrow> (-1, m1)
          | (True, m1) \<Rightarrow>
              (case CreateUpdateEngine H C (strategy_param s) reEnroll m1 of
                 (False, m2) \<Rightarrow> (-1, m2)
               | (True, m2) \<Rightarrow>
                   (let m3 = m2\<lparr>em_retryTimesLimit := GetRetryTimes s\<rparr>;
                        m4 = (if em_retryTimes m3 < em_retryTimesLimit m3
                              then m3\<lparr>em_timers := TimerMgr_Start (uv_thread e) None (em_timers m3)\<rparr> else m3)
                    in (0, m4\<lparr>em_updateStrategy := Some s, em_curPriority := GetUpdatePriority s, em_isUpdating := True,
                              em_isForceReleased := False\<rparr>)))))"

text \<open>The observer of the timer is the controller itself, number 0; the delay is in microseconds.\<close>

definition StartUpdateTimer :: "update_env \<Rightarrow> ('a, 'w) EngineManager \<Rightarrow> bool \<times> ('a, 'w) EngineManager" where
  "StartUpdateTimer e m =
     (if em_timerId m \<noteq> INVALID_ID then (True, m)
      else (case SetTimer 0 (UPDATE_DELAY_TIME_SECONDS * 1000 * 1000) 0 (Some 0) (uv_now e) (em_timers m) of (i, tm) \<Rightarrow>
        if i = INVALID_ID then (False, m\<lparr>em_timerId := i, em_timers := tm\<rparr>)
        else (True, m\<lparr>em_timerId := i, em_timers := tm, em_retryTimes := em_retryTimes m + 1\<rparr>)))"

definition StopUpdateTimer :: "('a, 'w) EngineManager \<Rightarrow> ('a, 'w) EngineManager" where
  "StopUpdateTimer m =
     (if em_timerId m = INVALID_ID then m
      else (case KillTimer (em_timerId m) (em_timers m) of (i, tm) \<Rightarrow> m\<lparr>em_timerId := i, em_timers := tm\<rparr>))"

definition IsNeedRetryUpdate :: "'a hdi \<Rightarrow> ('a, 'w) EngineManager \<Rightarrow> bool \<times> ('a, 'w) EngineManager" where
  "IsNeedRetryUpdate H m =
     (if em_updateResult m = UPDATE_STATE_COMPLETE_SUCCESS then (False, m)
      else if em_retryTimes m \<ge> em_retryTimesLimit m then (False, m)
      else (case em_updateStrategy m of
          None \<Rightarrow> (False, m)
        | Some s \<Rightarrow> (case UpdateRestrain H s (em_ctx m) of (restrained, x) \<Rightarrow> (\<not> restrained, m\<lparr>em_ctx := x\<rparr>))))"

definition finish_update :: "UpdateState \<Rightarrow> ('a, 'w) EngineManager \<Rightarrow> ('a, 'w) EngineManager" where
  "finish_update result m =
     (let m1 = (case em_updateStrategy m of
                  None \<Rightarrow> m
                | Some s \<Rightarrow> m\<lparr>em_ctx := OnUpdateCompleteCallback s (of_bool (result \<noteq> UPDATE_STATE_COMPLETE_SUCCESS)) True (em_ctx m)\<rparr>)
      in stop_timers (ClearRetryState m1))"

definition UpdateCompleteProc ::
  "'a hdi \<Rightarrow> ('a, 'w) engine_class \<Rightarrow> update_env \<Rightarrow> UpdateState \<Rightarrow> string \<Rightarrow> ('a, 'w) EngineManager \<Rightarrow> bool \<times> ('a, 'w) EngineManager" where
  "UpdateCompleteProc H C e result param m =
     (if em_isForceReleased m then (False, m\<lparr>em_ctx := DeleteKey [''WakeupVersion''] (em_ctx m)\<rparr>)
      else if map_option strategy_param (em_updateStrategy m) \<noteq> Some param then (False, m)
      else let m1 = StopUpdateTimer (m\<lparr>em_updateResult := result\<rparr>)
           in (case IsNeedRetryUpdate H m1 of (need, m2) \<Rightarrow>
                (case (if need then StartUpdateTimer e m2 else (False, m2)) of
                   (True, m3) \<Rightarrow> (False, ReleaseUpdateEngine H C m3)
                 | (False, m3) \<Rightarrow> (True, ReleaseUpdateEngine H C (finish_update result m3)))))"

definition ForceRelease :: "'a hdi \<Rightarrow> ('a, 'w) engine_class \<Rightarrow> ('a, 'w) EngineManager \<Rightarrow> ('a, 'w) EngineManager" where
  "ForceRelease H C m =
     (if \<not> GetUpdateState m then m
      else (stop_timers (ReleaseUpdateEngine H C (ClearRetryState m)))\<lparr>em_isForceReleased := True\<rparr>)"

section \<open>Operations of the manager\<close>

definition VENDOR_UPLOAD_NUM :: int where
  "VENDOR_UPLOAD_NUM = 2"

definition UPLOAD_NUM_MAX :: int where
  "UPLOAD_NUM_MAX = 100"

definition WAKEUP_FILE_PATH_PREFIX :: string where
  "WAKEUP_FILE_PATH_PREFIX = ''/data/service/el0/intelligent_voice/wakeup''"

definition PARENT_PATH_PREFIX :: string where
  "PARENT_PATH_PREFIX = ''../''"

definition IsNeedUpdateComplete ::
  "'a hdi \<Rightarrow> ('a, 'w) engine_class \<Rightarrow> update_env \<Rightarrow> UpdateState \<Rightarrow> string \<Rightarrow> ('a, 'w) EngineManager \<Rightarrow> bool \<times> ('a, 'w) EngineManager" where
  "IsNeedUpdateComplete H C e result param m =
     (case UpdateCompleteProc H C e result param m of (isLast, m1) \<Rightarrow>
        if IsEngineExist INTELL_VOICE_ENROLL m1 \<or> \<not> isLast then (False, m1) else (True, m1))"

definition IsNeedUpdateRetry :: "'a hdi \<Rightarrow> ('a, 'w) engine_class \<Rightarrow> ('a, 'w) EngineManager \<Rightarrow> bool \<times> ('a, 'w) EngineManager" where
  "IsNeedUpdateRetry H C m =
     (case UpdateRetryProc H C m of
        (True, m1) \<Rightarrow> (False, m1)
      | (False, m1) \<Rightarrow> if IsEngineExist INTELL_VOICE_ENROLL m1 then (False, m1) else (True, m1))"

text \<open>\<open>object\<close> is the client's callback, \<open>None\<close> when it is no update callback.\<close>

definition CloneUpdate ::
  "'a hdi \<Rightarrow> ('a, 'w) engine_class \<Rightarrow> update_env \<Rightarrow> string \<Rightarrow> nat option \<Rightarrow> ('a, 'w) EngineManager \<Rightarrow> int \<times> ('a, 'w) EngineManager" where
  "CloneUpdate H C e wakeupInfo object m =
     (if object = None then (-1, m)
      else if wakeupInfo = '''' then (-1, m)
      else CreateUpdateEngineUntilTime H C e (CloneUpdateStrategy wakeupInfo object) False m)"

definition SilenceUpdate ::
  "'a hdi \<Rightarrow> ('a, 'w) engine_class \<Rightarrow> update_env \<Rightarrow> ('a, 'w) EngineManager \<Rightarrow> int \<times> ('a, 'w) EngineManager" where
  "SilenceUpdate H C e m = CreateUpdateEngineUntilTime H C e (SilenceUpdateStrategy '''') False m"

definition WhisperVprUpdate ::
  "'a hdi \<Rightarrow> ('a, 'w) engine_class \<Rightarrow> update_env \<Rightarrow> bool \<Rightarrow> ('a, 'w) EngineManager \<Rightarrow> int \<times> ('a, 'w) EngineManager" where
  "WhisperVprUpdate H C e reEnroll m =
     CreateUpdateEngineUntilTime H C e (WhisperUpdateStrategy ''WhisperVprUpdate'') reEnroll m"

definition ImplicitEnroll ::
  "'a hdi \<Rightarrow> ('a, 'w) engine_class \<Rightarrow> string \<Rightarrow> nat option \<Rightarrow> ('a, 'w) EngineManager \<Rightarrow> int \<times> ('a, 'w) EngineManager" where
  "ImplicitEnroll H C wakeupInfo object m =
     (case CreateEngine H C INTELL_VOICE_IMPLICIT_ENROLL '''' False m of
        (False, m1) \<Rightarrow> (-1, m1)
      | (True, m1) \<Rightarrow>
          (0, on_engine INTELL_VOICE_IMPLICIT_ENROLL (Base_SetParameter H C (''start_enroll='' @ wakeupInfo))
                (on_engine INTELL_VOICE_IMPLICIT_ENROLL (Base_SetCallback H C object) m1)))"

definition ClearImplicitEnrollData ::
  "'a hdi \<Rightarrow> ('a, 'w) engine_class \<Rightarrow> string \<Rightarrow> string \<Rightarrow> ('a, 'w) EngineManager \<Rightarrow> int \<times> ('a, 'w) EngineManager" where
  "ClearImplicitEnrollData H C key v m =
     (case CreateEngine H C INTELL_VOICE_IMPLICIT_ENROLL '''' False m of
        (False, m1) \<Rightarrow> (-1, m1)
      | (True, m1) \<Rightarrow> (0, on_engine INTELL_VOICE_IMPLICIT_ENROLL (Base_SetParameter H C (key @ ''='' @ v)) m1))"

definition EM_SetParameter ::
  "'a hdi \<Rightarrow> ('a, 'w) engine_class \<Rightarrow> string \<Rightarrow> string \<Rightarrow> ('a, 'w) EngineManager \<Rightarrow> int \<times> ('a, 'w) EngineManager" where
  "EM_SetParameter H C key v m =
     (if key = ''clear_data'' \<and> (v = ''implicit_enroll_all'' \<or> v = ''implicit_enroll_data'')
      then ClearImplicitEnrollData H C key v m
      else if key = ''Sensibility''
      then (0, on_engine INTELL_VOICE_WAKEUP (Base_SetParameter H C (''sensibility='' @ v)) m)
      else (0, on_engine INTELL_VOICE_WAKEUP (Base_SetParameter H C (key @ ''='' @ v)) m))"

definition EM_GetParameter :: "'a hdi \<Rightarrow> string \<Rightarrow> ('a, 'w) EngineManager \<Rightarrow> string \<times> ('a, 'w) EngineManager" where
  "EM_GetParameter H key m =
     (let x = em_ctx m
      in if key = ''isEnrolled'' then (if GetStringKVPair ''WakeupVersion'' x = '''' then ''false'' else ''true'', m)
         else if key = ''isNeedReEnroll''
         then (case IsVersionUpdate H x of (b, y) \<Rightarrow> (if b then ''true'' else ''false'', m\<lparr>em_ctx := y\<rparr>))
         else if key = ''isSupportImplicitEnroll'' then (if an_host13 (cx_answers x) then ''true'' else ''false'', m)
         else if key = ''isWhispering''
         then (case an_whispering (cx_answers x) of None \<Rightarrow> ('''', m) | Some b \<Rightarrow> (to_string (of_bool b), m))
         else ('''', m))"

definition ClearUserDataInner :: "'a hdi \<Rightarrow> ('a, 'w) engine_class \<Rightarrow> ('a, 'w) EngineManager \<Rightarrow> ('a, 'w) EngineManager" where
  "ClearUserDataInner H C m =
     (let m1 = detach_wakeup H C (ForceRelease H C m);
          stored = GetStringKVPair ''WakeupPhrase'' (em_ctx m1);
          phrase = (if stored \<noteq> '''' \<and> GetStringKVPair ''Language'' (em_ctx m1) = ''zh'' \<and> stored \<noteq> DEFAULT_WAKEUP_PHRASE
                    then ''Default'' else stored)
      in m1\<lparr>em_ctx := (em_ctx m1)\<lparr>cx_host := hdi_ClearUserWakeupData H phrase (cx_host (em_ctx m1))\<rparr>\<rparr>)"

text \<open>Files of the enrolment: only paths below the prefix that do not go up reach the driver.\<close>

definition path_allowed :: "string \<Rightarrow> bool" where
  "path_allowed filePath =
     (\<not> (length filePath < length WAKEUP_FILE_PATH_PREFIX \<or>
         take (length WAKEUP_FILE_PATH_PREFIX) filePath \<noteq> WAKEUP_FILE_PATH_PREFIX \<or>
         str_find PARENT_PATH_PREFIX filePath 0 \<noteq> None))"

definition GetWakeupSourceFile ::
  "'a hdi \<Rightarrow> string \<Rightarrow> bytes \<Rightarrow> ('a, 'w) EngineManager \<Rightarrow> int \<times> bytes \<times> ('a, 'w) EngineManager" where
  "GetWakeupSourceFile H filePath buffer m =
     (if \<not> path_allowed filePath then (-1, buffer, m)
      else (case hdi_SourceFile H filePath (cx_host (em_ctx m)) of (r, b, h) \<Rightarrow> (r, b, m\<lparr>em_ctx := (em_ctx m)\<lparr>cx_host := h\<rparr>\<rparr>)))"

definition SendWakeupFile ::
  "'a hdi \<Rightarrow> string \<Rightarrow> bytes \<Rightarrow> ('a, 'w) EngineManager \<Rightarrow> int \<times> ('a, 'w) EngineManager" where
  "SendWakeupFile H filePath buffer m =
     (if \<not> path_allowed filePath then (-1, m)
      else (case hdi_SendFile H filePath buffer (cx_host (em_ctx m)) of (r, h) \<Rightarrow> (r, m\<lparr>em_ctx := (em_ctx m)\<lparr>cx_host := h\<rparr>\<rparr>)))"

definition GetWakeupSourceFilesList ::
  "'a hdi \<Rightarrow> ('a, 'w) EngineManager \<Rightarrow> int \<times> string list \<times> ('a, 'w) EngineManager" where
  "GetWakeupSourceFilesList H m =
     (case hdi_SourceFiles H (cx_host (em_ctx m)) of (r, fs, h) \<Rightarrow> (r, fs, m\<lparr>em_ctx := (em_ctx m)\<lparr>cx_host := h\<rparr>\<rparr>))"

definition GetUploadFilesFromVendor ::
  "'a hdi \<Rightarrow> int \<Rightarrow> upload_file list \<Rightarrow> ('a, 'w) EngineManager \<Rightarrow> int \<times> upload_file list \<times> ('a, 'w) EngineManager" where
  "GetUploadFilesFromVendor H numMax files m =
     (if numMax > UPLOAD_NUM_MAX \<or> numMax \<le> 0 then (-1, files, m)
      else (case hdi_UploadFiles H numMax (cx_host (em_ctx m)) of (r, fs, h) \<Rightarrow>
        (let m1 = m\<lparr>em_ctx := (em_ctx m)\<lparr>cx_host := h\<rparr>\<rparr> in if r \<noteq> 0 then (-1, files, m1) else (r, files @ fs, m1))))"

definition GetUploadFilesFromSystem ::
  "int \<Rightarrow> upload_file list \<Rightarrow> ('a, 'w) EngineManager \<Rightarrow> int \<times> upload_file list" where
  "GetUploadFilesFromSystem numMax files m =
     (if numMax > UPLOAD_NUM_MAX \<or> numMax \<le> 0 then (-1, files)
      else let fs = an_reportFiles (cx_answers (em_ctx m)) numMax in if fs = [] then (-1, files) else (0, files @ fs))"

definition EM_GetUploadFiles ::
  "'a hdi \<Rightarrow> int \<Rightarrow> ('a, 'w) EngineManager \<Rightarrow> int \<times> upload_file list \<times> ('a, 'w) EngineManager" where
  "EM_GetUploadFiles H numMax m =
     (case GetUploadFilesFromVendor H (max 0 (numMax - VENDOR_UPLOAD_NUM)) [] m of (_, fs, m1) \<Rightarrow>
        (case GetUploadFilesFromSystem (min VENDOR_UPLOAD_NUM numMax) fs m1 of (_, gs) \<Rightarrow>
           (if gs = [] then -1 else 0, gs, m1)))"

text \<open>\<open>SetDspSensibility\<close>: the sensibility for the features the trigger side reports.\<close>

definition SetDspSensibility :: "string \<Rightarrow> ('a, 'w) EngineManager \<Rightarrow> ('a, 'w) EngineManager" where
  "SetDspSensibility sensibility m =
     (let x = em_ctx m
      in case an_triggerGet (cx_answers x) ''wakeup_features'' of
           None \<Rightarrow> m
         | Some features \<Rightarrow>
             (let v = an_sensibility (cx_answers x) sensibility features
              in if v = '''' then m else m\<lparr>em_ctx := emit (TriggerSetParameter ''WAKEUP_SENSIBILITY'' v) x\<rparr>))"

section \<open>Interleavings\<close>

text \<open>
  What can happen to the manager: calls of the service, the driver's report to the update engine, the timer
  thread, the service's thread taking its next task, tasks posted by others, and changes of the
  surroundings and of the engines other than the update engine.
\<close>

datatype ('a, 'w) mgr_action =
    ActSilence | ActWhisper bool | ActClone string "nat option" | ActCreate IntellVoiceEngineType
  | ActRelease IntellVoiceEngineType | ActEvent engine_event | ActTask | ActPost service_task | ActTimer
  | ActClearUserData | ActResetWakeup | ActStop | ActDetected int | ActClearCb | ActSetParameter string string
  | ActImplicit string "nat option" | ActWorld "'a engine_ctx" | ActEngine IntellVoiceEngineType "('a, 'w) engine"

fun update_task :: "service_task \<Rightarrow> bool" where
  "update_task (TaskUpdateComplete _ _) = True"
| "update_task TaskUpdateRetry = True"
| "update_task _ = False"

definition run_task ::
  "'a hdi \<Rightarrow> ('a, 'w) engine_class \<Rightarrow> update_env \<Rightarrow> ('a, 'w) EngineManager \<Rightarrow> ('a, 'w) EngineManager option" where
  "run_task H C e m =
     (case em_tasks m of
        [] \<Rightarrow> None
      | TaskUpdateComplete r p # ts \<Rightarrow> Some (snd (IsNeedUpdateComplete H C e r p (m\<lparr>em_tasks := ts\<rparr>)))
      | TaskUpdateRetry # ts \<Rightarrow> Some (snd (IsNeedUpdateRetry H C (m\<lparr>em_tasks := ts\<rparr>)))
      | t # ts \<Rightarrow> Some (m\<lparr>em_tasks := ts\<rparr>))"

definition fire_timer :: "update_env \<Rightarrow> ('a, 'w) EngineManager \<Rightarrow> ('a, 'w) EngineManager option" where
  "fire_timer e m =
     (case Run_iter (uv_now e) (em_timers m) of
        (RunFire ev ob, tm) \<Rightarrow> Some (Ctl_OnTimerEvent (m\<lparr>em_timers := tm\<rparr>))
      | _ \<Rightarrow> None)"

definition report_event ::
  "'a hdi \<Rightarrow> engine_event \<Rightarrow> ('a, 'w) EngineManager \<Rightarrow> ('a, 'w) EngineManager option" where
  "report_event H ev m =
     (case em_engines m INTELL_VOICE_UPDATE of
        Some (UpdateObj u) \<Rightarrow> (case OnUpdateEvent H ev u (em_ctx m) of (ts, v, x) \<Rightarrow>
          Some (post_all ts (m\<lparr>em_engines := (em_engines m)(INTELL_VOICE_UPDATE \<mapsto> UpdateObj v), em_ctx := x\<rparr>)))
      | _ \<Rightarrow> None)"

fun mgr_act ::
  "'a hdi \<Rightarrow> ('a, 'w) engine_class \<Rightarrow> update_env \<Rightarrow> ('a, 'w) mgr_action \<Rightarrow> ('a, 'w) EngineManager \<Rightarrow> ('a, 'w) EngineManager option" where
  "mgr_act H C e ActSilence m = Some (snd (SilenceUpdate H C e m))"
| "mgr_act H C e (ActWhisper b) m = Some (snd (WhisperVprUpdate H C e b m))"
| "mgr_act H C e (ActClone p c) m = Some (snd (CloneUpdate H C e p c m))"
| "mgr_act H C e (ActCreate t) m = Some (snd (CreateEngine H C t '''' False m))"
| "mgr_act H C e (ActRelease t) m = Some (ReleaseEngineInner H C t m)"
| "mgr_act H C e (ActEvent ev) m = report_event H ev m"
| "mgr_act H C e ActTask m = run_task H C e m"
| "mgr_act H C e (ActPost t) m = (if update_task t then None else Some (post t m))"
| "mgr_act H C e ActTimer m = fire_timer e m"
| "mgr_act H C e ActClearUserData m = Some (ClearUserDataInner H C m)"
| "mgr_act H C e ActResetWakeup m = Some (snd (CreateOrResetWakeupEngine H C m))"
| "mgr_act H C e ActStop m = Some (snd (ServiceStopProc H C m))"
| "mgr_act H C e (ActDetected uuid) m = Some (EngineOnDetected C uuid m)"
| "mgr_act H C e ActClearCb m = Some (ClearWakeupEngineCb H C m)"
| "mgr_act H C e (ActSetParameter k v) m = Some (snd (EM_SetParameter H C k v m))"
| "mgr_act H C e (ActImplicit p c) m = Some (snd (ImplicitEnroll H C p c m))"
| "mgr_act H C e (ActWorld x) m = Some (m\<lparr>em_ctx := x\<rparr>)"
| "mgr_act H C e (ActEngine t eng) m =
     (if t = INTELL_VOICE_UPDATE \<or> em_engines m t = None then None else Some (m\<lparr>em_engines := (em_engines m)(t \<mapsto> eng)\<rparr>))"

inductive manager_step :: "'a hdi \<Rightarrow> ('a, 'w) engine_class \<Rightarrow> ('a, 'w) EngineManager \<Rightarrow> ('a, 'w) EngineManager \<Rightarrow> bool" for H C where
  mgr_step: "mgr_act H C e a m = Some m' \<Longrightarrow> manager_step H C m m'"

definition manager_start :: "('a, 'w) EngineManager \<Rightarrow> bool" where
  "manager_start m \<longleftrightarrow> (\<exists>x. m = manager_new x)"

section \<open>The table\<close>

text \<open>Enrolment and update exclude each other.\<close>

definition exclusive :: "('a, 'w) EngineManager \<Rightarrow> bool" where
  "exclusive m \<longleftrightarrow> em_engines m INTELL_VOICE_ENROLL = None \<or> em_engines m INTELL_VOICE_UPDATE = None"

lemma post_fields [simp]:
  "em_engines (post t m) = em_engines m" "em_isUpdating (post t m) = em_isUpdating m" "em_timerId (post t m) = em_timerId m"
  "em_retryTimes (post t m) = em_retryTimes m" "em_retryTimesLimit (post t m) = em_retryTimesLimit m"
  "em_updateResult (post t m) = em_updateResult m" "em_updateStrategy (post t m) = em_updateStrategy m"
  "em_curPriority (post t m) = em_curPriority m" "em_isForceReleased (post t m) = em_isForceReleased m"
  "em_timers (post t m) = em_timers m" "em_ctx (post t m) = em_ctx m"
  by (simp_all add: post_def)

lemma post_all_fields [simp]:
  "em_engines (post_all ts m) = em_engines m" "em_isUpdating (post_all ts m) = em_isUpdating m"
  "em_timerId (post_all ts m) = em_timerId m" "em_retryTimes (post_all ts m) = em_retryTimes m"
  "em_retryTimesLimit (post_all ts m) = em_retryTimesLimit m" "em_updateResult (post_all ts m) = em_updateResult m"
  "em_updateStrategy (post_all ts m) = em_updateStrategy m" "em_curPriority (post_all ts m) = em_curPriority m"
  "em_isForceReleased (post_all ts m) = em_isForceReleased m" "em_timers (post_all ts m) = em_timers m"
  "em_ctx (post_all ts m) = em_ctx m"
  by (induction ts arbitrary: m) (simp_all add: post_all_def)

lemma post_tasks: "set (em_tasks m) \<subseteq> set (em_tasks (post t m))"
  by (auto simp: post_def)

lemma post_all_tasks: "set (em_tasks m) \<subseteq> set (em_tasks (post_all ts m))"
  by (induction ts arbitrary: m) (auto simp: post_all_def dest: subsetD [OF post_tasks])

lemma post_all_room:
  "length (em_tasks m) + length ts \<le> MAX_TASK_NUM \<Longrightarrow> em_tasks (post_all ts m) = em_tasks m @ ts"
  by (induction ts arbitrary: m) (auto simp: post_all_def post_def)

lemma engines_on_engine: "dom (em_engines (on_engine t f m)) = dom (em_engines m)"
  by (auto simp: on_engine_def split: option.splits prod.splits)

lemma on_engine_None [simp]: "em_engines (on_engine t f m) q = None \<longleftrightarrow> em_engines m q = None"
  using engines_on_engine [of t f m] by (metis domIff)

lemma engines_remove: "em_engines (remove_engine H C t m) = (em_engines m)(t := None)"
  by (auto simp: remove_engine_def split: option.splits prod.splits)

lemma relations [simp]:
  "HandlePreemption H C t m =
     (if t = INTELL_VOICE_ENROLL then on_engine INTELL_VOICE_WAKEUP (Base_Stop H C) m else m)"
  "HandleReplace H C t m = (if t = INTELL_VOICE_ENROLL then remove_engine H C INTELL_VOICE_UPDATE m else m)"
  "JudgeRejection t m \<longleftrightarrow> t = INTELL_VOICE_UPDATE \<and> em_engines m INTELL_VOICE_ENROLL \<noteq> None"
  by (cases t; simp add: HandlePreemption_def HandleReplace_def JudgeRejection_def)+

lemma exclusive_fields [simp]:
  "exclusive (m\<lparr>em_ctx := x\<rparr>) = exclusive m" "exclusive (m\<lparr>em_timerId := i\<rparr>) = exclusive m"
  "exclusive (m\<lparr>em_tasks := ts\<rparr>) = exclusive m" "exclusive (m\<lparr>em_updateResult := r\<rparr>) = exclusive m"
  "exclusive (post t m) = exclusive m" "exclusive (post_all ts m) = exclusive m" "exclusive (m\<lparr>em_timers := tm\<rparr>) = exclusive m"
  by (simp_all add: exclusive_def)

lemma exclusive_mono:
  "exclusive m \<Longrightarrow> dom (em_engines m') \<subseteq> dom (em_engines m) \<union> {INTELL_VOICE_WAKEUP, INTELL_VOICE_IMPLICIT_ENROLL} \<Longrightarrow> exclusive m'"
  by (auto simp: exclusive_def domIff subset_iff)

lemma engines_ctl [simp]:
  "em_engines (ClearRetryState m) = em_engines m" "em_engines (stop_timers m) = em_engines m"
  "em_engines (finish_update r m) = em_engines m" "em_engines (StopUpdateTimer m) = em_engines m"
  "em_engines (ReleaseUpdateEngine H C m) = (em_engines m)(INTELL_VOICE_UPDATE := None)"
  by (auto simp: ClearRetryState_def stop_timers_def finish_update_def StopUpdateTimer_def ReleaseUpdateEngine_def
      ReleaseEngineInner_def engines_remove Let_def split: option.splits prod.splits)

lemma engines_StartUpdateTimer: "StartUpdateTimer e m = (b, m') \<Longrightarrow> em_engines m' = em_engines m"
  by (auto simp: StartUpdateTimer_def split: if_splits prod.splits)

lemma engines_IsNeedRetry: "IsNeedRetryUpdate H m = (b, m') \<Longrightarrow> em_engines m' = em_engines m"
  by (auto simp: IsNeedRetryUpdate_def split: if_splits prod.splits option.splits)

lemma dom_CreateInner:
  "CreateEngineInner H C t p b m = (ok, m') \<Longrightarrow>
    dom (em_engines m') = dom (em_engines m) \<or> dom (em_engines m') = insert t (dom (em_engines m))"
  by (auto simp: CreateEngineInner_def Let_def split: if_splits prod.splits option.splits)

lemma CreateEngine_cases:
  assumes "CreateEngine H C t p b m = (ok, m')"
  obtains (rejected) "t = INTELL_VOICE_UPDATE" "em_engines m INTELL_VOICE_ENROLL \<noteq> None" "\<not> ok" "m' = m"
    | (enroll) m1 where "t = INTELL_VOICE_ENROLL" "m1 = on_engine INTELL_VOICE_WAKEUP (Base_ReleaseAdapter C)
          (remove_engine H C INTELL_VOICE_UPDATE (on_engine INTELL_VOICE_WAKEUP (Base_Stop H C) m))"
        "CreateEngineInner H C t p b m1 = (ok, m')"
    | (other) m1 where "t \<noteq> INTELL_VOICE_ENROLL" "t = INTELL_VOICE_UPDATE \<longrightarrow> em_engines m INTELL_VOICE_ENROLL = None"
        "m1 = m \<or> m1 = on_engine INTELL_VOICE_WAKEUP (Base_ReleaseAdapter C) m" "CreateEngineInner H C t p b m1 = (ok, m')"
  using assms by (auto simp: CreateEngine_def ApplyArbitration_def Let_def split: if_splits)

lemma exclusive_CreateEngine:
  assumes "exclusive m" "CreateEngine H C t p b m = (ok, m')"
  shows "exclusive m'"
  using assms(2)
proof (cases rule: CreateEngine_cases)
  case rejected
  then show ?thesis using assms(1) by simp
next
  case (enroll m1)
  have "INTELL_VOICE_UPDATE \<notin> dom (em_engines m1)" by (simp add: enroll(2) engines_on_engine engines_remove)
  then show ?thesis using dom_CreateInner [OF enroll(3)] enroll(1) by (auto simp: exclusive_def domIff)
next
  case (other m1)
  have "dom (em_engines m1) = dom (em_engines m)" using other(3) by (elim disjE) (simp_all add: engines_on_engine)
  then have "dom (em_engines m') = dom (em_engines m) \<or> dom (em_engines m') = insert t (dom (em_engines m))"
    using dom_CreateInner [OF other(4)] by simp
  moreover have "t = INTELL_VOICE_UPDATE \<longrightarrow> INTELL_VOICE_ENROLL \<notin> dom (em_engines m)" using other(2) by (simp add: domIff)
  moreover have "INTELL_VOICE_ENROLL \<notin> dom (em_engines m) \<or> INTELL_VOICE_UPDATE \<notin> dom (em_engines m)"
    using assms(1) by (simp add: exclusive_def domIff)
  ultimately have "INTELL_VOICE_ENROLL \<notin> dom (em_engines m') \<or> INTELL_VOICE_UPDATE \<notin> dom (em_engines m')"
    using other(1) by (metis insert_iff)
  then show ?thesis by (simp add: exclusive_def domIff)
qed

lemma UntilTime_cases:
  assumes "CreateUpdateEngineUntilTime H C e s b m = (r, m')"
  obtains (refused) x where "m' = m\<lparr>em_ctx := x\<rparr>"
    | (failed) x m1 where "UpdateArbitration H C (GetUpdatePriority s) (m\<lparr>em_ctx := x\<rparr>) = (True, m1)"
        "CreateEngine H C INTELL_VOICE_UPDATE (strategy_param s) b m1 = (False, m')"
    | (created) x m1 m2 tm where "UpdateArbitration H C (GetUpdatePriority s) (m\<lparr>em_ctx := x\<rparr>) = (True, m1)"
        "CreateEngine H C INTELL_VOICE_UPDATE (strategy_param s) b m1 = (True, m2)"
        "m' = m2\<lparr>em_retryTimesLimit := GetRetryTimes s, em_timers := tm, em_updateStrategy := Some s,
           em_curPriority := GetUpdatePriority s, em_isUpdating := True, em_isForceReleased := False\<rparr>"
        "tm = em_timers m2 \<or> tm = TimerMgr_Start (uv_thread e) None (em_timers m2)"
proof -
  obtain v x where r: "UpdateRestrain H s (em_ctx m) = (v, x)" using prod.exhaust by blast
  obtain ok m1 where a: "UpdateArbitration H C (GetUpdatePriority s) (m\<lparr>em_ctx := x\<rparr>) = (ok, m1)" using prod.exhaust by blast
  obtain ok2 m2 where c: "CreateEngine H C INTELL_VOICE_UPDATE (strategy_param s) b m1 = (ok2, m2)" using prod.exhaust by blast
  have m: "m' = (if v then m\<lparr>em_ctx := x\<rparr> else if \<not> ok then m1 else if \<not> ok2 then m2 else
     m2\<lparr>em_retryTimesLimit := GetRetryTimes s,
       em_timers := if em_retryTimes m2 < GetRetryTimes s then TimerMgr_Start (uv_thread e) None (em_timers m2) else em_timers m2,
       em_updateStrategy := Some s, em_curPriority := GetUpdatePriority s, em_isUpdating := True, em_isForceReleased := False\<rparr>)"
    using assms r a c by (auto simp: CreateUpdateEngineUntilTime_def CreateUpdateEngine_def Let_def)
  have n: "m1 = m\<lparr>em_ctx := x\<rparr>" if "\<not> ok" using a that by (auto simp: UpdateArbitration_def Let_def split: if_splits)
  consider "v" | "\<not> v" "\<not> ok" | "\<not> v" "ok" "\<not> ok2" | "\<not> v" "ok" "ok2" by blast
  then show thesis
  proof cases
    case 1 then show ?thesis using m by (intro refused) simp
  next
    case 2 then show ?thesis using m n by (intro refused) simp
  next
    case 3 then show ?thesis using m a c by (intro failed) simp_all
  next
    case 4
    have "(if em_retryTimes m2 < GetRetryTimes s then TimerMgr_Start (uv_thread e) None (em_timers m2) else em_timers m2) \<in>
      {em_timers m2, TimerMgr_Start (uv_thread e) None (em_timers m2)}" by simp
    then show ?thesis using 4 m a c by (intro created [of x m1 m2]) (simp_all only: insert_iff empty_iff simp_thms if_True if_False)
  qed
qed

lemma exclusive_UntilTime:
  assumes "exclusive m" "CreateUpdateEngineUntilTime H C e s b m = (r, m')"
  shows "exclusive m'"
proof -
  have a: "exclusive n'" if "UpdateArbitration H C p (m\<lparr>em_ctx := x\<rparr>) = (ok, n')" for p x ok n'
    using that assms(1) by (auto simp: UpdateArbitration_def exclusive_def Let_def split: if_splits option.splits)
  show ?thesis using assms(2)
  proof (cases rule: UntilTime_cases)
    case (refused x)
    then show ?thesis using assms(1) by simp
  next
    case (failed x m1)
    then show ?thesis using exclusive_CreateEngine a by blast
  next
    case (created x m1 m2 tm)
    then have "exclusive m2" using exclusive_CreateEngine a by blast
    then show ?thesis by (simp add: created(3) exclusive_def)
  qed
qed

lemma Kill_invalid: "KillTimer i t = (j, t') \<Longrightarrow> j = INVALID_ID"
  by (auto simp: KillTimer_def split: option.splits)

lemma StopUpdateTimer_eq: "\<exists>tm. StopUpdateTimer m = m\<lparr>em_timerId := INVALID_ID, em_timers := tm\<rparr>"
  by (auto simp: StopUpdateTimer_def dest: Kill_invalid split: prod.splits intro: exI [of _ "em_timers m"])

lemma CompleteProc_cases:
  assumes "UpdateCompleteProc H C e r p m = (fin, m')"
  obtains (forced) x where "em_isForceReleased m" "\<not> fin" "m' = m\<lparr>em_ctx := x\<rparr>"
    | (ignored) "\<not> em_isForceReleased m" "map_option strategy_param (em_updateStrategy m) \<noteq> Some p" "\<not> fin" "m' = m"
    | (retry) s x i tm0 tm where "\<not> em_isForceReleased m" "em_updateStrategy m = Some s" "strategy_param s = p" "\<not> fin"
        "r \<noteq> UPDATE_STATE_COMPLETE_SUCCESS" "em_retryTimes m < em_retryTimesLimit m"
        "SetTimer 0 (UPDATE_DELAY_TIME_SECONDS * 1000 * 1000) 0 (Some 0) (uv_now e) tm0 = (i, tm)" "i \<noteq> INVALID_ID"
        "m' = ReleaseUpdateEngine H C (m\<lparr>em_updateResult := r, em_ctx := x, em_timerId := i, em_timers := tm,
                em_retryTimes := em_retryTimes m + 1\<rparr>)"
    | (finish) s x i tm where "\<not> em_isForceReleased m" "em_updateStrategy m = Some s" "strategy_param s = p" "fin"
        "m' = ReleaseUpdateEngine H C (finish_update r (m\<lparr>em_updateResult := r, em_timerId := i, em_timers := tm, em_ctx := x\<rparr>))"
proof -
  obtain tm0 where m1: "StopUpdateTimer (m\<lparr>em_updateResult := r\<rparr>) = m\<lparr>em_updateResult := r, em_timerId := INVALID_ID, em_timers := tm0\<rparr>"
    using StopUpdateTimer_eq [of "m\<lparr>em_updateResult := r\<rparr>"] by auto
  consider (1) "em_isForceReleased m" | (2) "\<not> em_isForceReleased m" "map_option strategy_param (em_updateStrategy m) \<noteq> Some p"
    | (3) s where "\<not> em_isForceReleased m" "em_updateStrategy m = Some s" "strategy_param s = p" by auto
  then show thesis
  proof cases
    case 1 then show ?thesis using assms by (intro forced) (auto simp: UpdateCompleteProc_def)
  next
    case 2 then show ?thesis using assms by (intro ignored) (auto simp: UpdateCompleteProc_def)
  next
    case (3 s)
    obtain v x where v: "UpdateRestrain H s (em_ctx m) = (v, x)" using prod.exhaust by blast
    obtain i tm where t: "SetTimer 0 (UPDATE_DELAY_TIME_SECONDS * 1000 * 1000) 0 (Some 0) (uv_now e) tm0 = (i, tm)"
      using prod.exhaust by blast
    define tried where "tried \<longleftrightarrow> r \<noteq> UPDATE_STATE_COMPLETE_SUCCESS \<and> em_retryTimes m < em_retryTimesLimit m"
    define m2 where "m2 = m\<lparr>em_updateResult := r, em_timerId := INVALID_ID, em_timers := tm0\<rparr>"
    have need: "IsNeedRetryUpdate H m2 = (tried \<and> \<not> v, if tried then m2\<lparr>em_ctx := x\<rparr> else m2)"
      using 3 v by (auto simp: IsNeedRetryUpdate_def m2_def tried_def)
    have start: "StartUpdateTimer e (m2\<lparr>em_ctx := x\<rparr>) = (i \<noteq> INVALID_ID, if i = INVALID_ID
       then m2\<lparr>em_ctx := x, em_timerId := i, em_timers := tm\<rparr>
       else m2\<lparr>em_ctx := x, em_timerId := i, em_timers := tm, em_retryTimes := em_retryTimes m2 + 1\<rparr>)"
      using t by (simp add: StartUpdateTimer_def m2_def)
    have res: "(fin, m') = (case (if tried \<and> \<not> v then StartUpdateTimer e (m2\<lparr>em_ctx := x\<rparr>) else (False, if tried then m2\<lparr>em_ctx := x\<rparr> else m2)) of
        (True, m3) \<Rightarrow> (False, ReleaseUpdateEngine H C m3) | (False, m3) \<Rightarrow> (True, ReleaseUpdateEngine H C (finish_update r m3)))"
      using assms 3 m1 need by (simp add: UpdateCompleteProc_def Let_def m2_def [symmetric] split: if_splits)
    show ?thesis
    proof (cases "tried \<and> \<not> v \<and> i \<noteq> INVALID_ID")
      case True
      then show ?thesis using res start t 3 by (intro retry [of s tm0 i tm x]) (auto simp: tried_def m2_def)
    next
      case False
      define n where "n = (if tried \<and> \<not> v then m2\<lparr>em_ctx := x, em_timerId := i, em_timers := tm\<rparr> else if tried then m2\<lparr>em_ctx := x\<rparr> else m2)"
      have n: "fin" "m' = ReleaseUpdateEngine H C (finish_update r n)"
        using False res start by (auto simp: n_def split: if_splits)
      have "n = m\<lparr>em_updateResult := r, em_timerId := em_timerId n, em_timers := em_timers n, em_ctx := em_ctx n\<rparr>"
        by (simp add: n_def m2_def)
      then show ?thesis using finish [OF 3 n(1)] n(2) by metis
    qed
  qed
qed

lemma RetryProc_cases:
  assumes "UpdateRetryProc H C m = (b, m')"
  obtains (forced) "em_isForceReleased m" "m' = m"
    | (created) s x m1 where "em_updateStrategy m = Some s" "CreateEngine H C INTELL_VOICE_UPDATE (strategy_param s) False (m\<lparr>em_ctx := x\<rparr>) = (True, m1)"
        "m' = m1\<lparr>em_timerId := INVALID_ID\<rparr>"
    | (gave_up) m1 where "m' = stop_timers (ReleaseUpdateEngine H C (ClearRetryState m1))" "em_engines m1 INTELL_VOICE_UPDATE = em_engines m INTELL_VOICE_UPDATE"
        "em_isForceReleased m1 = em_isForceReleased m" "set (em_tasks m) \<subseteq> set (em_tasks m1)"
proof -
  have same: "em_engines n INTELL_VOICE_UPDATE = em_engines m INTELL_VOICE_UPDATE \<and> em_isForceReleased n = em_isForceReleased m \<and> set (em_tasks m) \<subseteq> set (em_tasks n)"
    if "CreateEngine H C INTELL_VOICE_UPDATE p False (m\<lparr>em_ctx := x\<rparr>) = (False, n)" for p x n
    using that by (cases rule: CreateEngine_cases)
      (auto simp: CreateEngineInner_def Let_def on_engine_def split: if_splits prod.splits option.splits)
  consider "em_isForceReleased m" | "\<not> em_isForceReleased m" "em_updateStrategy m = None"
    | s where "\<not> em_isForceReleased m" "em_updateStrategy m = Some s" by blast
  then show thesis
  proof cases
    case 1 then show ?thesis using assms by (intro forced) (auto simp: UpdateRetryProc_def)
  next
    case 2 then show ?thesis using assms
      by (intro gave_up [of "m\<lparr>em_updateResult := UPDATE_STATE_COMPLETE_SUCCESS\<rparr>"]) (auto simp: UpdateRetryProc_def)
  next
    case (3 s)
    obtain v x where v: "UpdateRestrain H s (em_ctx m) = (v, x)" using prod.exhaust by blast
    obtain ok n where c: "CreateEngine H C INTELL_VOICE_UPDATE (strategy_param s) False (m\<lparr>em_ctx := x\<rparr>) = (ok, n)"
      using prod.exhaust by blast
    consider "v" | "\<not> v" "ok" | "\<not> v" "\<not> ok" by blast
    then show ?thesis
    proof cases
      case 1 then show ?thesis using assms 3 v
        by (intro gave_up [of "m\<lparr>em_ctx := x, em_updateResult := UPDATE_STATE_COMPLETE_SUCCESS\<rparr>"]) (auto simp: UpdateRetryProc_def)
    next
      case 2 then show ?thesis using assms 3 v c
        by (intro created [of s x n]) (auto simp: UpdateRetryProc_def CreateUpdateEngine_def)
    next
      case k: 3 then show ?thesis using assms 3 v c same [of "strategy_param s" x n]
        by (intro gave_up [of "n\<lparr>em_updateResult := UPDATE_STATE_COMPLETE_FAIL\<rparr>"]) (auto simp: UpdateRetryProc_def CreateUpdateEngine_def)
    qed
  qed
qed

lemma exclusive_RetryProc:
  assumes "exclusive m" "UpdateRetryProc H C m = (b, m')"
  shows "exclusive m'"
  using assms(2)
proof (cases rule: RetryProc_cases)
  case (created s x m1)
  have "exclusive (m\<lparr>em_ctx := x\<rparr>)" using assms(1) by simp
  then show ?thesis using exclusive_CreateEngine [OF _ created(2)] created(3) by simp
next
  case (gave_up m1)
  then show ?thesis by (simp add: exclusive_def)
qed (use assms(1) in simp)

lemma exclusive_CompleteProc:
  assumes "exclusive m" "UpdateCompleteProc H C e r p m = (b, m')"
  shows "exclusive m'"
  using assms(2) assms(1) by (cases rule: CompleteProc_cases) (auto simp: exclusive_def)

lemma dom_detach_wakeup: "dom (em_engines (detach_wakeup H C m)) = dom (em_engines m)"
  by (auto simp: detach_wakeup_def split: option.splits prod.splits)

lemma dom_ServiceStop: "dom (em_engines (snd (ServiceStopProc H C m))) = dom (em_engines m)"
  by (simp add: ServiceStopProc_def dom_detach_wakeup)

lemma dom_ResetWakeup:
  "dom (em_engines (snd (CreateOrResetWakeupEngine H C m))) \<subseteq> insert INTELL_VOICE_WAKEUP (dom (em_engines m))"
proof (cases "em_engines m INTELL_VOICE_WAKEUP")
  case None
  obtain ok n where c: "CreateEngineInner H C INTELL_VOICE_WAKEUP '''' False m = (ok, n)" using prod.exhaust by blast
  show ?thesis using dom_CreateInner [OF c] None c by (auto simp: CreateOrResetWakeupEngine_def)
next
  case (Some e)
  then show ?thesis by (auto simp: CreateOrResetWakeupEngine_def split: prod.splits)
qed

lemma dom_ClearUserData: "dom (em_engines (ClearUserDataInner H C m)) \<subseteq> dom (em_engines m)"
proof -
  have "dom (em_engines (ForceRelease H C m)) \<subseteq> dom (em_engines m)" by (auto simp: ForceRelease_def)
  then show ?thesis by (simp add: ClearUserDataInner_def Let_def dom_detach_wakeup)
qed

lemma exclusive_on_engine [simp]: "exclusive (on_engine t f m) = exclusive m"
  by (simp add: exclusive_def)

lemma exclusive_run_task:
  assumes "exclusive m" "run_task H C e m = Some m'"
  shows "exclusive m'"
proof -
  have c: "exclusive n'" if "IsNeedUpdateComplete H C e r p (m\<lparr>em_tasks := ts\<rparr>) = (b, n')" for r p ts b n'
    using that assms(1) exclusive_CompleteProc [of "m\<lparr>em_tasks := ts\<rparr>" H C e r p]
    by (auto simp: IsNeedUpdateComplete_def split: prod.splits if_splits)
  have r: "exclusive n'" if "IsNeedUpdateRetry H C (m\<lparr>em_tasks := ts\<rparr>) = (b, n')" for ts b n'
    using that assms(1) exclusive_RetryProc [of "m\<lparr>em_tasks := ts\<rparr>" H C]
    by (auto simp: IsNeedUpdateRetry_def split: prod.splits if_splits bool.splits)
  show ?thesis using assms c [OF prod.collapse [symmetric]] r [OF prod.collapse [symmetric]]
    by (auto simp: run_task_def split: list.splits service_task.splits)
qed

lemma exclusive_event: "exclusive m \<Longrightarrow> report_event H ev m = Some m' \<Longrightarrow> exclusive m'"
  by (auto simp: report_event_def exclusive_def split: option.splits engine.splits prod.splits)

lemma exclusive_implicit:
  assumes "exclusive m"
  shows "exclusive (snd (EM_SetParameter H C k v m))" "exclusive (snd (ImplicitEnroll H C p c m))"
proof -
  obtain ok n where n: "CreateEngine H C INTELL_VOICE_IMPLICIT_ENROLL '''' False m = (ok, n)" using prod.exhaust by blast
  then show "exclusive (snd (EM_SetParameter H C k v m))" "exclusive (snd (ImplicitEnroll H C p c m))"
    using assms exclusive_CreateEngine [OF assms n]
    by (auto simp: EM_SetParameter_def ClearImplicitEnrollData_def ImplicitEnroll_def split: bool.splits)
qed

lemma exclusive_act:
  assumes i: "exclusive m" and s: "mgr_act H C e a m = Some m'"
  shows "exclusive m'"
proof -
  have u: "exclusive (snd (CreateUpdateEngineUntilTime H C e st b m))" for st b
    using exclusive_UntilTime [OF i prod.collapse [symmetric]] .
  show ?thesis
  proof (cases a)
    case (ActCreate t)
    then show ?thesis using s exclusive_CreateEngine [OF i prod.collapse [symmetric]] by simp blast
  next
    case (ActRelease t)
    then show ?thesis using s i by (auto simp: ReleaseEngineInner_def exclusive_def engines_remove split: if_splits)
  next
    case ActClearUserData
    then show ?thesis using s exclusive_mono [OF i] dom_ClearUserData [of H C m] by auto
  next
    case ActResetWakeup
    then show ?thesis using s exclusive_mono [OF i] dom_ResetWakeup [of H C m] by auto
  next
    case (ActEngine t eng)
    then show ?thesis using s i by (auto simp: exclusive_def split: if_splits)
  next
    case ActStop
    have "exclusive (snd (ServiceStopProc H C m))" by (rule exclusive_mono [OF i]) (simp add: dom_ServiceStop subset_insertI2)
    then show ?thesis using s ActStop by simp
  qed (use s i u exclusive_run_task [OF i] exclusive_event [OF i] exclusive_implicit [OF i] in
      \<open>auto simp: SilenceUpdate_def WhisperVprUpdate_def CloneUpdate_def EngineOnDetected_def ClearWakeupEngineCb_def
         fire_timer_def Ctl_OnTimerEvent_def split: if_splits prod.splits run_outcome.splits\<close>)
qed

interpretation table: invariant_system manager_start "manager_step H C" exclusive for H C
proof unfold_locales
  show "manager_start m \<Longrightarrow> exclusive m" for m :: "('a, 'w) EngineManager"
    by (auto simp: manager_start_def manager_new_def exclusive_def)
  show "exclusive m \<Longrightarrow> manager_step H C m m' \<Longrightarrow> exclusive m'" for m m'
    by (auto elim: manager_step.cases dest: exclusive_act)
qed

text \<open>
  C15. Enrolment and update never run at the same time, whatever the service, the driver, the timer and the clients
  do: the table never holds both engines. While an enrolment engine exists a request for an
  update engine is refused and changes nothing; a request for an enrolment engine detaches a running update.
\<close>

theorem engines_exclusive:
  assumes "reach manager_start (manager_step H C) m"
  shows "(em_engines m INTELL_VOICE_ENROLL = None \<or> em_engines m INTELL_VOICE_UPDATE = None) \<and>
    (em_engines m INTELL_VOICE_ENROLL \<noteq> None \<longrightarrow> CreateEngine H C INTELL_VOICE_UPDATE p b m = (False, m)) \<and>
    em_engines (snd (CreateEngine H C INTELL_VOICE_ENROLL p b m)) INTELL_VOICE_UPDATE = None"
proof -
  have "exclusive m" using table.reach_inv [OF assms] .
  moreover have "em_engines n INTELL_VOICE_UPDATE = None" if "CreateEngine H C INTELL_VOICE_ENROLL p b m = (ok, n)" for ok n
    using that
  proof (cases rule: CreateEngine_cases)
    case (enroll m1)
    have "INTELL_VOICE_UPDATE \<notin> dom (em_engines m1)" by (simp add: enroll(2) engines_on_engine engines_remove)
    then have "INTELL_VOICE_UPDATE \<notin> dom (em_engines n)" using dom_CreateInner [OF enroll(3)] by auto
    then show ?thesis by (simp add: domIff)
  qed simp_all
  ultimately show ?thesis
    by (auto simp: exclusive_def CreateEngine_def ApplyArbitration_def intro: prod.collapse [symmetric])
qed

definition demo_class :: "(unit, nat) engine_class" where
  "demo_class = \<lparr>ec_Create = (\<lambda>_ x. (Some 0, x)), ec_Detach = (\<lambda>w x. (w, x)), ec_Stop = (\<lambda>w x. (w, x)),
     ec_ReleaseAdapter = (\<lambda>w x. (w + 1, x)), ec_ResetAdapter = (\<lambda>w x. (True, 0, x)), ec_SetParameter = (\<lambda>_ w x. (w, x)),
     ec_SetCallback = (\<lambda>_ w x. (w, x)), ec_OnDetected = (\<lambda>_ w x. (w, x))\<rparr>"

definition update_demo_env :: update_env where
  "update_demo_env = \<lparr>uv_now = 0, uv_thread = True\<rparr>"

lemma reach_act:
  "reach start (manager_step H C) m \<Longrightarrow> mgr_act H C e a m = Some m' \<Longrightarrow> reach start (manager_step H C) m'"
  by (rule reach_step) (auto intro: mgr_step)

lemma engines_exclusive_witness:
  "\<exists>m. em_engines m INTELL_VOICE_ENROLL \<noteq> None \<and> CreateEngine demo_hdi demo_class INTELL_VOICE_UPDATE '''' False m = (False, m)"
proof -
  let ?m = "manager_new demo_ctx :: (unit, nat) EngineManager"
  have "reach manager_start (manager_step demo_hdi demo_class) ?m" by (rule reach_start) (auto simp: manager_start_def)
  then have r: "reach manager_start (manager_step demo_hdi demo_class)
      (snd (CreateEngine demo_hdi demo_class INTELL_VOICE_ENROLL '''' False ?m))"
    by (rule reach_act [where e = update_demo_env and a = "ActCreate INTELL_VOICE_ENROLL"]) simp
  moreover have "em_engines (snd (CreateEngine demo_hdi demo_class INTELL_VOICE_ENROLL '''' False ?m)) INTELL_VOICE_ENROLL \<noteq> None"
    by (simp add: CreateEngine_def ApplyArbitration_def CreateEngineInner_def CreateEngineInst_def EE_Init_def CreateAdapterInner_def
        demo_hdi_def manager_new_def on_engine_def remove_engine_def)
  ultimately show ?thesis using engines_exclusive [OF r, of "''''" False] by blast
qed

section \<open>Files of the enrolment\<close>

lemma str_find_iff: "str_find sep s 0 \<noteq> None \<longleftrightarrow> (\<exists>a b. s = a @ sep @ b)"
proof
  assume "str_find sep s 0 \<noteq> None"
  then obtain i where "str_find sep s 0 = Some i" by blast
  then have "take (length sep) (drop i s) = sep" by (rule str_find_SomeD)
  then have "s = take i s @ sep @ drop (length sep) (drop i s)" by (metis append_take_drop_id)
  then show "\<exists>a b. s = a @ sep @ b" by blast
next
  assume "\<exists>a b. s = a @ sep @ b"
  then obtain a b where s: "s = a @ sep @ b" by blast
  then have "length a \<in> set [0..<Suc (length s)] \<and> length a + length sep \<le> length s \<and> take (length sep) (drop (length a) s) = sep" by simp
  then show "str_find sep s 0 \<noteq> None" using s unfolding str_find_def
    by (auto simp: find_None_iff simp del: upt_Suc split: if_splits intro!: exI [of _ "length a"])
qed

text \<open>
  C18. A client reaches only files of the enrolment through the driver. A path that does not start with the directory
  prefix, or that contains a step to the parent directory anywhere, is refused by both file operations with an error,
  the driver is not called and nothing changes; every other path is handed to the driver unchanged.
\<close>

theorem wakeup_files_confined:
  fixes m :: "('a, 'w) EngineManager"
  defines "bad \<equiv> \<lambda>path. (\<forall>rest. path \<noteq> WAKEUP_FILE_PATH_PREFIX @ rest) \<or> (\<exists>a b. path = a @ ''../'' @ b)"
  shows "(bad path \<longrightarrow> GetWakeupSourceFile H path buf m = (-1, buf, m) \<and> SendWakeupFile H path buf m = (-1, m)) \<and>
    (\<not> bad path \<longrightarrow>
      (\<exists>r b h. hdi_SourceFile H path (cx_host (em_ctx m)) = (r, b, h) \<and>
        GetWakeupSourceFile H path buf m = (r, b, m\<lparr>em_ctx := (em_ctx m)\<lparr>cx_host := h\<rparr>\<rparr>)) \<and>
      (\<exists>r h. hdi_SendFile H path buf (cx_host (em_ctx m)) = (r, h) \<and>
        SendWakeupFile H path buf m = (r, m\<lparr>em_ctx := (em_ctx m)\<lparr>cx_host := h\<rparr>\<rparr>)))"
proof -
  have "(\<exists>rest. path = p @ rest) \<longleftrightarrow> length p \<le> length path \<and> take (length p) path = p" for p
    by (metis append_eq_conv_conj append_take_drop_id length_append le_add1)
  then have "path_allowed path \<longleftrightarrow> \<not> bad path"
    using str_find_iff [of "''../''" path] by (auto simp: path_allowed_def bad_def PARENT_PATH_PREFIX_def not_less)
  then show ?thesis by (auto simp: GetWakeupSourceFile_def SendWakeupFile_def split: prod.splits)
qed

lemma wakeup_files_confined_witness:
  "\<exists>m :: (unit, nat) EngineManager. GetWakeupSourceFile demo_hdi ''/etc/passwd'' [] m = (-1, [], m)"
proof -
  have "(\<forall>rest. ''/etc/passwd'' \<noteq> WAKEUP_FILE_PATH_PREFIX @ rest)" by (simp add: WAKEUP_FILE_PATH_PREFIX_def)
  then show ?thesis using wakeup_files_confined [of "''/etc/passwd''" demo_hdi "[]"] by blast
qed

text \<open>The prefix names a directory without the separator: a neighbour whose name starts the same way passes the check.\<close>

lemma neighbour_directory_allowed: "path_allowed ''/data/service/el0/intelligent_voice/wakeup_backup/secret''"
  by code_simp

section \<open>A failed update\<close>

text \<open>
  The wake-up engine loses its adapter before the update engine is made. If the driver then cannot attach
  the update engine, the request fails, nothing is under way or queued, and the wake-up engine stays without its adapter.
\<close>

definition no_attach_hdi :: "unit hdi" where
  "no_attach_hdi = demo_hdi\<lparr>hdi_Attach := \<lambda>_ h. (-1, h)\<rparr>"

lemma failed_update_releases_wakeup:
  "let m0 = snd (CreateEngine no_attach_hdi demo_class INTELL_VOICE_WAKEUP '''' False (manager_new demo_ctx));
       (r, m1) = WhisperVprUpdate no_attach_hdi demo_class update_demo_env False m0
   in r = -1 \<and> \<not> em_isUpdating m1 \<and> em_tasks m1 = [] \<and>
     (case em_engines m0 INTELL_VOICE_WAKEUP of Some (ClassObj w) \<Rightarrow> w = 0 | _ \<Rightarrow> False) \<and>
     (case em_engines m1 INTELL_VOICE_WAKEUP of Some (ClassObj w) \<Rightarrow> w = 1 | _ \<Rightarrow> False)"
  by code_simp

section \<open>Enrolment results\<close>

lemma flags_append: "fold (enroll_flag t) (cs @ [c]) b = enroll_flag t c (fold (enroll_flag t) cs b)"
  by simp

text \<open>A new engine of a type starts with its result flag cleared, whatever was stored before.\<close>

lemma new_engine_clears_result:
  assumes "CreateEngineInner H C t p b m = (ok, m')" "em_engines m t = None"
  shows "\<not> GetEnrollResult t (em_ctx m')"
  using assms
  by (auto simp: CreateEngineInner_def GetEnrollResult_def Mgr_SetEnrollResult_def emit_def Let_def split: prod.splits option.splits if_splits)

end
