(* ===== verification/Update_Progress.thy ===== *)
theory Update_Progress
  imports Engine_Manager
begin

text \<open>
  What the update controller guarantees under every interleaving: an update under way is never forgotten. The
  invariant \<open>progress\<close> says that as long as the controller is in the updating state something will wake it: the
  update engine is attached and has not reported, its completion or a retry is queued, or the retry timer is set. Two conditions
  are needed, and \<open>allowed\<close> names them: the task queue has room, and no client starts a clone update with other parameters
  while one is running (the lemma \<open>second_clone_stuck\<close> shows what happens otherwise).
\<close>

section \<open>The invariant\<close>

fun standard :: "IUpdateStrategy \<Rightarrow> bool" where
  "standard (CloneUpdateStrategy p c) \<longleftrightarrow> p \<noteq> '''' \<and> c \<noteq> None"
| "standard (SilenceUpdateStrategy p) \<longleftrightarrow> p = ''''"
| "standard (WhisperUpdateStrategy p) \<longleftrightarrow> p = ''WhisperVprUpdate''"

definition completion_due :: "('a, 'w) EngineManager \<Rightarrow> bool" where
  "completion_due m \<longleftrightarrow> (\<exists>s r. em_updateStrategy m = Some s \<and> TaskUpdateComplete r (strategy_param s) \<in> set (em_tasks m))"

definition engine_ok :: "('a, 'w) EngineManager \<Rightarrow> bool" where
  "engine_ok m \<longleftrightarrow> (\<forall>eng. em_engines m INTELL_VOICE_UPDATE = Some eng \<longrightarrow>
     (\<exists>u s. eng = UpdateObj u \<and> em_updateStrategy m = Some s \<and> ue_param u = strategy_param s \<and> ue_adapter u \<and>
        (ue_updateResult u = UPDATE_STATE_DEFAULT \<or> completion_due m)))"

definition controller_ok :: "('a, 'w) EngineManager \<Rightarrow> bool" where
  "controller_ok m \<longleftrightarrow>
     (case em_updateStrategy m of
        None \<Rightarrow> \<not> em_isUpdating m \<and> em_retryTimes m = 0 \<and> em_retryTimesLimit m = 0 \<and> em_timerId m = INVALID_ID \<and>
          em_curPriority m = 0 \<and> em_updateResult m = UPDATE_STATE_DEFAULT
      | Some s \<Rightarrow> em_isUpdating m \<and> standard s \<and> \<not> em_isForceReleased m \<and> em_curPriority m = GetUpdatePriority s \<and>
          em_retryTimesLimit m = GetRetryTimes s \<and> 0 \<le> em_retryTimes m \<and> em_retryTimes m \<le> em_retryTimesLimit m)"

definition progress :: "('a, 'w) EngineManager \<Rightarrow> bool" where
  "progress m \<longleftrightarrow> (em_updateStrategy m \<noteq> None \<longrightarrow>
     em_engines m INTELL_VOICE_UPDATE \<noteq> None \<or> completion_due m \<or> TaskUpdateRetry \<in> set (em_tasks m) \<or>
     tm_itemQueue (em_timers m) \<noteq> [])"

definition update_inv :: "('a, 'w) EngineManager \<Rightarrow> bool" where
  "update_inv m \<longleftrightarrow> engine_ok m \<and> controller_ok m \<and> progress m"

lemmas update_inv_defs = update_inv_def engine_ok_def controller_ok_def progress_def completion_due_def

definition roomy :: "('a, 'w) EngineManager \<Rightarrow> bool" where
  "roomy m \<longleftrightarrow> length (em_tasks m) + 4 \<le> MAX_TASK_NUM"

fun allowed :: "('a, 'w) mgr_action \<Rightarrow> ('a, 'w) EngineManager \<Rightarrow> bool" where
  "allowed (ActClone p c) m \<longleftrightarrow> roomy m \<and> (\<forall>q d. em_updateStrategy m = Some (CloneUpdateStrategy q d) \<longrightarrow> p = q)"
| "allowed (ActCreate t) m \<longleftrightarrow> roomy m \<and> t \<noteq> INTELL_VOICE_UPDATE"
| "allowed _ m \<longleftrightarrow> roomy m"

inductive protocol_step :: "'a hdi \<Rightarrow> ('a, 'w) engine_class \<Rightarrow> ('a, 'w) EngineManager \<Rightarrow> ('a, 'w) EngineManager \<Rightarrow> bool" for H C where
  pr_step: "mgr_act H C e a m = Some m' \<Longrightarrow> allowed a m \<Longrightarrow> protocol_step H C m m'"

section \<open>Steps that do not concern the update\<close>

definition upd_frame :: "('a, 'w) EngineManager \<Rightarrow> ('a, 'w) EngineManager \<Rightarrow> bool" where
  "upd_frame m m' \<longleftrightarrow>
     em_engines m' INTELL_VOICE_UPDATE = em_engines m INTELL_VOICE_UPDATE \<and> em_isUpdating m' = em_isUpdating m \<and>
     em_timerId m' = em_timerId m \<and> em_retryTimes m' = em_retryTimes m \<and> em_retryTimesLimit m' = em_retryTimesLimit m \<and>
     em_updateResult m' = em_updateResult m \<and> em_updateStrategy m' = em_updateStrategy m \<and>
     em_curPriority m' = em_curPriority m \<and> em_isForceReleased m' = em_isForceReleased m \<and> em_timers m' = em_timers m \<and>
     set (em_tasks m) \<subseteq> set (em_tasks m')"

lemma frame_inv: "update_inv m \<Longrightarrow> upd_frame m m' \<Longrightarrow> update_inv m'"
  unfolding update_inv_def engine_ok_def controller_ok_def progress_def completion_due_def upd_frame_def
  by (auto split: option.splits) blast+

lemma frame_refl [simp]: "upd_frame m m"
  by (simp add: upd_frame_def)

lemma frame_trans: "upd_frame m n \<Longrightarrow> upd_frame n k \<Longrightarrow> upd_frame m k"
  by (auto simp: upd_frame_def)

lemma frame_ctx [simp]: "upd_frame m (n\<lparr>em_ctx := x\<rparr>) = upd_frame m n"
  by (simp add: upd_frame_def)

lemma frame_post [simp]: "upd_frame m (post t m)"
  using post_tasks by (auto simp: upd_frame_def)

lemma frame_on_engine: "t \<noteq> INTELL_VOICE_UPDATE \<Longrightarrow> upd_frame m (on_engine t f m)"
  by (auto simp: upd_frame_def on_engine_def split: option.splits prod.splits)

lemma frame_remove: "t \<noteq> INTELL_VOICE_UPDATE \<Longrightarrow> upd_frame m (remove_engine H C t m)"
  using post_all_tasks by (fastforce simp: upd_frame_def remove_engine_def split: option.splits prod.splits)

lemma frame_detach: "upd_frame m (detach_wakeup H C m)"
  using post_all_tasks by (fastforce simp: upd_frame_def detach_wakeup_def split: option.splits prod.splits)

lemma frame_CreateInner:
  "CreateEngineInner H C t p b m = (ok, m') \<Longrightarrow> t \<noteq> INTELL_VOICE_UPDATE \<Longrightarrow> upd_frame m m'"
  by (auto simp: upd_frame_def CreateEngineInner_def Let_def split: if_splits prod.splits option.splits)

lemma frame_reset: "upd_frame m (snd (CreateOrResetWakeupEngine H C m))"
proof (cases "em_engines m INTELL_VOICE_WAKEUP")
  case None
  then show ?thesis using frame_CreateInner [of H C INTELL_VOICE_WAKEUP "''''" False m, OF prod.collapse [symmetric]]
    by (simp add: CreateOrResetWakeupEngine_def)
next
  case (Some e)
  then show ?thesis by (auto simp: CreateOrResetWakeupEngine_def upd_frame_def split: prod.splits)
qed

lemma frame_implicit:
  assumes "CreateEngine H C INTELL_VOICE_IMPLICIT_ENROLL p b m = (ok, m')"
  shows "upd_frame m m'"
  using assms
proof (cases rule: CreateEngine_cases)
  case (other m1)
  then have "upd_frame m m1" by (auto simp: frame_on_engine)
  then show ?thesis using frame_trans frame_CreateInner [OF other(4)] by blast
qed simp_all

section \<open>Steps of the update\<close>

text \<open>Taking the update engine away: its completion is queued, or was already.\<close>

definition upd_rest :: "('a, 'w) EngineManager \<Rightarrow> ('a, 'w) EngineManager \<Rightarrow> bool" where
  "upd_rest m m' \<longleftrightarrow> upd_frame (m\<lparr>em_engines := (em_engines m)(INTELL_VOICE_UPDATE := None)\<rparr>) m'"

lemma remove_update_rest: "upd_rest m (remove_engine H C INTELL_VOICE_UPDATE m)"
proof (cases "em_engines m INTELL_VOICE_UPDATE")
  case None
  then show ?thesis by (simp add: upd_rest_def upd_frame_def remove_engine_def)
next
  case (Some eng)
  then show ?thesis using post_all_tasks
    by (fastforce simp: upd_rest_def upd_frame_def remove_engine_def split: prod.splits)
qed

lemma remove_update_due:
  assumes "engine_ok m" "em_engines m INTELL_VOICE_UPDATE \<noteq> None" "roomy m"
  shows "completion_due (remove_engine H C INTELL_VOICE_UPDATE m)"
proof -
  obtain u s where u: "em_engines m INTELL_VOICE_UPDATE = Some (UpdateObj u)" "em_updateStrategy m = Some s"
    "ue_param u = strategy_param s" "ue_adapter u" "ue_updateResult u = UPDATE_STATE_DEFAULT \<or> completion_due m"
    using assms(1,2) by (auto simp: engine_ok_def)
  obtain r ts v y where d: "UE_Detach H u (em_ctx m) = (r, ts, v, y)" using prod_cases4 by blast
  define n where "n = m\<lparr>em_engines := (em_engines m)(INTELL_VOICE_UPDATE := None), em_ctx := y\<rparr>"
  have e: "remove_engine H C INTELL_VOICE_UPDATE m = post_all ts n" using u(1) d by (simp add: remove_engine_def n_def)
  have ts: "ts = (if ue_updateResult u = UPDATE_STATE_DEFAULT then [TaskUpdateComplete UPDATE_STATE_DEFAULT (strategy_param s)] else [])"
    using UE_Detach_posts [OF d] u by simp
  have "em_tasks (post_all ts n) = em_tasks m @ ts"
    using post_all_room [of n ts] assms(3) ts by (simp add: n_def roomy_def split: if_splits)
  then show ?thesis using u e ts by (auto simp: completion_due_def n_def split: if_splits)
qed

lemma upd_rest_inv:
  assumes "update_inv m" "upd_rest m m'" "em_engines m INTELL_VOICE_UPDATE \<noteq> None \<longrightarrow> completion_due m'"
  shows "update_inv m'"
  using assms unfolding update_inv_def engine_ok_def controller_ok_def progress_def upd_rest_def upd_frame_def completion_due_def
  by (auto split: option.splits)

lemma remove_update_inv: "update_inv m \<Longrightarrow> roomy m \<Longrightarrow> update_inv (remove_engine H C INTELL_VOICE_UPDATE m)"
  by (rule upd_rest_inv [OF _ remove_update_rest]) (auto intro: remove_update_due simp: update_inv_def)

lemma create_enroll_inv:
  assumes "update_inv m" "roomy m" "CreateEngine H C t p b m = (ok, m')" "t \<noteq> INTELL_VOICE_UPDATE"
  shows "update_inv m'"
  using assms(3)
proof (cases rule: CreateEngine_cases)
  case rejected
  then show ?thesis using assms by simp
next
  case (enroll m1)
  define n where "n = on_engine INTELL_VOICE_WAKEUP (Base_Stop H C) m"
  have "update_inv n" unfolding n_def by (rule frame_inv [OF assms(1)]) (simp add: frame_on_engine)
  moreover have "roomy n" using assms(2) by (auto simp: n_def roomy_def on_engine_def split: option.splits prod.splits)
  ultimately have "update_inv (remove_engine H C INTELL_VOICE_UPDATE n)" by (rule remove_update_inv)
  then have "update_inv m1" unfolding enroll(2) n_def [symmetric] by (rule frame_inv) (simp add: frame_on_engine)
  then show ?thesis by (rule frame_inv) (use frame_CreateInner [OF enroll(3) assms(4)] in simp)
next
  case (other m1)
  have "upd_frame m m1" using other(3) by (auto simp: frame_on_engine)
  then show ?thesis using frame_inv [OF assms(1)] frame_trans frame_CreateInner [OF other(4) assms(4)] by blast
qed

text \<open>A request for the update engine: on failure nothing of the update changes; on success the engine is the old one or a fresh one.\<close>

lemma create_update_cases:
  assumes "CreateEngine H C INTELL_VOICE_UPDATE p b m = (ok, m')"
  obtains (failed) "\<not> ok" "upd_frame m m'"
    | (present) "ok" "em_engines m INTELL_VOICE_UPDATE \<noteq> None" "upd_frame m m'"
    | (fresh) u where "ok" "em_engines m INTELL_VOICE_UPDATE = None" "em_engines m' INTELL_VOICE_UPDATE = Some (UpdateObj u)"
        "ue_param u = p" "ue_adapter u" "ue_updateResult u = UPDATE_STATE_DEFAULT"
        "upd_frame m (m'\<lparr>em_engines := (em_engines m')(INTELL_VOICE_UPDATE := None)\<rparr>)"
  using assms
proof (cases rule: CreateEngine_cases)
  case rejected
  then show ?thesis using failed by simp
next
  case (other m1)
  have f: "upd_frame m m1" using other(3) by (auto simp: frame_on_engine)
  have e: "em_engines m1 INTELL_VOICE_UPDATE = em_engines m INTELL_VOICE_UPDATE" using f by (simp add: upd_frame_def)
  show ?thesis
  proof (cases "em_engines m INTELL_VOICE_UPDATE")
    case (Some eng)
    then have "ok" "m' = m1" using other(4) e by (auto simp: CreateEngineInner_def)
    then show ?thesis using present Some f by simp
  next
    case None
    obtain k u y where i: "UE_Init H p b update_new (em_ctx m1) = (k, u, y)" using prod_cases3 by blast
    show ?thesis
    proof (cases k)
      case True
      then have "ok" "m' = m1\<lparr>em_ctx := Mgr_SetEnrollResult INTELL_VOICE_UPDATE False y,
          em_engines := (em_engines m1)(INTELL_VOICE_UPDATE \<mapsto> UpdateObj u)\<rparr>"
        using other(4) None e i by (auto simp: CreateEngineInner_def CreateEngineInst_def Let_def)
      then show ?thesis using fresh [of u] UE_Init_fresh [of H p b] i True None f e by (auto simp: upd_frame_def)
    next
      case False
      then show ?thesis using other(4) None e i f failed by (auto simp: CreateEngineInner_def CreateEngineInst_def Let_def)
    qed
  qed
qed simp_all

text \<open>After clearing, nothing of an update is left.\<close>

lemma cleared_inv:
  assumes "em_updateStrategy n = None" "controller_ok n" "em_engines n INTELL_VOICE_UPDATE = None"
  shows "update_inv n"
  using assms by (simp add: update_inv_def engine_ok_def progress_def)

lemma controller_rest: "upd_rest m m' \<Longrightarrow> controller_ok m' = controller_ok m" "upd_rest m m' \<Longrightarrow> em_updateStrategy m' = em_updateStrategy m"
  by (auto simp: upd_rest_def upd_frame_def controller_ok_def split: option.splits)

lemma Release_rest: "upd_rest m (ReleaseUpdateEngine H C m)"
  by (simp add: ReleaseUpdateEngine_def ReleaseEngineInner_def remove_update_rest)

lemma controller_stop [simp]:
  "controller_ok (stop_timers m) = controller_ok m" "em_updateStrategy (stop_timers m) = em_updateStrategy m"
  by (simp_all add: stop_timers_def controller_ok_def split: option.split)

lemma Clear_controller [simp]: "controller_ok (ClearRetryState m)" "em_updateStrategy (ClearRetryState m) = None"
  by (simp_all add: ClearRetryState_def controller_ok_def)

lemma give_up_inv:
  "update_inv (stop_timers (ReleaseUpdateEngine H C (ClearRetryState m)))"
  "update_inv (stop_timers (ClearRetryState (ReleaseUpdateEngine H C m)))"
  using controller_rest [OF Release_rest [of "ClearRetryState m" H C]] by (intro cleared_inv; simp)+

lemma arbitration_inv:
  assumes "update_inv m" "UpdateArbitration H C k m = (True, m1)"
  shows "update_inv m1 \<and> (em_updateStrategy m1 = None \<or> (m1 = m \<and> em_curPriority m = k))"
proof (cases "GetUpdateState m \<and> em_curPriority m < k")
  case True
  then have "\<exists>n. m1 = stop_timers (ClearRetryState (ReleaseUpdateEngine H C n))"
    using assms(2) by (auto simp: UpdateArbitration_def Let_def)
  then show ?thesis using give_up_inv(2) by auto
next
  case False
  then have "m1 = m" "GetUpdateState m \<longrightarrow> em_curPriority m = k" using assms(2) by (auto simp: UpdateArbitration_def split: if_splits)
  then show ?thesis using assms(1)
    by (auto simp: update_inv_def controller_ok_def GetUpdateState_def split: option.splits)
qed

lemma same_retries: "GetUpdatePriority s = GetUpdatePriority t \<Longrightarrow> GetRetryTimes s = GetRetryTimes t"
  by (cases s; cases t) auto

lemma GetRetryTimes_nonneg: "0 \<le> GetRetryTimes s"
  by (cases s) auto

lemma UntilTime_inv:
  assumes i: "update_inv m" and s: "standard s"
    and g: "\<And>t. em_updateStrategy m = Some t \<Longrightarrow> GetUpdatePriority t = GetUpdatePriority s \<Longrightarrow> strategy_param t = strategy_param s"
    and u: "CreateUpdateEngineUntilTime H C e s b m = (r, m')"
  shows "update_inv m'"
  using u
proof (cases rule: UntilTime_cases)
  case (refused x)
  then show ?thesis using frame_inv [OF i] by simp
next
  case (failed x m1)
  have "update_inv (m\<lparr>em_ctx := x\<rparr>)" using frame_inv [OF i] by simp
  then have "update_inv m1" using arbitration_inv [OF _ failed(1)] by blast
  then show ?thesis using failed(2) by (auto elim: create_update_cases intro: frame_inv)
next
  case (created x m1 m2 tm)
  have "update_inv (m\<lparr>em_ctx := x\<rparr>)" using frame_inv [OF i] by simp
  then have m1: "update_inv m1" "em_updateStrategy m1 = None \<or> (m1 = m\<lparr>em_ctx := x\<rparr> \<and> em_curPriority m = GetUpdatePriority s)"
    using arbitration_inv [OF _ created(1)] by auto
  have old: "t = strategy_param s" "GetRetryTimes s = em_retryTimesLimit m1" if "em_updateStrategy m1 = Some q" "t = strategy_param q" for q t
  proof -
    have q: "em_updateStrategy m = Some q" "m1 = m\<lparr>em_ctx := x\<rparr>" "em_curPriority m = GetUpdatePriority s" using m1(2) that(1) by auto
    then have p: "GetUpdatePriority q = GetUpdatePriority s" using i by (simp add: update_inv_def controller_ok_def)
    show "t = strategy_param s" using g [OF q(1) p] that(2) by simp
    show "GetRetryTimes s = em_retryTimesLimit m1"
      using same_retries [OF p] i q by (simp add: update_inv_def controller_ok_def)
  qed
  have retry: "0 \<le> em_retryTimes m1 \<and> em_retryTimes m1 \<le> GetRetryTimes s"
    using m1(1) old(2) GetRetryTimes_nonneg [of s] by (auto simp: update_inv_def controller_ok_def split: option.splits)
  have "\<exists>w. em_engines m2 INTELL_VOICE_UPDATE = Some (UpdateObj w) \<and> ue_param w = strategy_param s \<and> ue_adapter w \<and>
      (ue_updateResult w = UPDATE_STATE_DEFAULT \<or> (\<exists>r. TaskUpdateComplete r (strategy_param s) \<in> set (em_tasks m2))) \<and>
      em_retryTimes m2 = em_retryTimes m1"
    using created(2)
  proof (cases rule: create_update_cases)
    case present
    then show ?thesis using m1(1) old(1) by (force simp: update_inv_def engine_ok_def completion_due_def upd_frame_def)
  next
    case (fresh w)
    then show ?thesis by (auto simp: upd_frame_def)
  qed simp_all
  then show ?thesis using retry s by (auto simp: created(3) update_inv_def engine_ok_def controller_ok_def progress_def completion_due_def)
qed

lemma SetTimer_pending:
  assumes "SetTimer ty d c ob now tm0 = (i, tm)" "i \<noteq> INVALID_ID"
  shows "tm_itemQueue tm \<noteq> []"
proof -
  have "insert_item x q \<noteq> []" for x q by (induction q) auto
  then show ?thesis using assms by (auto simp: SetTimer_def Let_def split: if_splits prod.splits)
qed

lemma CompleteProc_inv:
  assumes i: "update_inv m0" and t: "em_tasks m0 = TaskUpdateComplete r p # ts"
    and u: "UpdateCompleteProc H C e r p (m0\<lparr>em_tasks := ts\<rparr>) = (b, m')"
  shows "update_inv m'"
  using u
proof (cases rule: CompleteProc_cases)
  case (forced x)
  have "em_updateStrategy m0 = None" using i forced(1) by (auto simp: update_inv_def controller_ok_def split: option.splits)
  then show ?thesis using i by (auto simp: forced(3) update_inv_def engine_ok_def controller_ok_def progress_def)
next
  case ignored
  then have "\<And>s. em_updateStrategy m0 = Some s \<Longrightarrow> strategy_param s \<noteq> p" by auto
  then have "completion_due (m0\<lparr>em_tasks := ts\<rparr>) = completion_due m0" using t by (auto simp: completion_due_def)
  then show ?thesis using i t
    by (auto simp: ignored(4) update_inv_def engine_ok_def controller_ok_def progress_def split: option.splits)
next
  case (retry s x j tm0 tm)
  have q: "tm_itemQueue tm \<noteq> []" using SetTimer_pending [OF retry(7,8)] .
  define n where "n = m0\<lparr>em_tasks := ts, em_updateResult := r, em_ctx := x, em_timerId := j, em_timers := tm, em_retryTimes := em_retryTimes m0 + 1\<rparr>"
  have m': "m' = ReleaseUpdateEngine H C n" using retry(9) by (simp add: n_def)
  have "controller_ok n" using i retry(2,6) by (auto simp: n_def update_inv_def controller_ok_def)
  then have "controller_ok m'" "em_engines m' INTELL_VOICE_UPDATE = None" "em_timers m' = tm"
    using controller_rest(1) [OF Release_rest [of n H C]] Release_rest [of n H C]
    by (auto simp: m' upd_rest_def upd_frame_def n_def)
  then show ?thesis using q by (simp add: update_inv_def engine_ok_def progress_def)
next
  case (finish s x j tm)
  define n where "n = finish_update r (m0\<lparr>em_tasks := ts, em_updateResult := r, em_timerId := j, em_timers := tm, em_ctx := x\<rparr>)"
  have m': "m' = ReleaseUpdateEngine H C n" using finish(5) by (simp add: n_def)
  have "controller_ok n" "em_updateStrategy n = None" by (simp_all add: n_def finish_update_def Let_def)
  then show ?thesis using controller_rest [OF Release_rest [of n H C]] by (intro cleared_inv) (simp_all add: m')
qed

lemma RetryProc_inv:
  assumes i: "update_inv m0" and t: "em_tasks m0 = TaskUpdateRetry # ts" and u: "UpdateRetryProc H C (m0\<lparr>em_tasks := ts\<rparr>) = (b, m')"
  shows "update_inv m'"
  using u
proof (cases rule: RetryProc_cases)
  case forced
  have "em_updateStrategy m0 = None" using i forced(1) by (auto simp: update_inv_def controller_ok_def split: option.splits)
  then show ?thesis using i by (auto simp: forced(2) update_inv_def engine_ok_def controller_ok_def progress_def)
next
  case (gave_up m1)
  then show ?thesis using give_up_inv(1) by simp
next
  case (created s x m1)
  define n where "n = m0\<lparr>em_tasks := ts, em_ctx := x\<rparr>"
  have c: "CreateEngine H C INTELL_VOICE_UPDATE (strategy_param s) False n = (True, m1)" using created(2) by (simp add: n_def)
  have due: "completion_due n = completion_due m0" using t by (auto simp: completion_due_def n_def)
  have s: "em_updateStrategy n = Some s" using created(1) by (simp add: n_def)
  have n: "engine_ok n" "controller_ok n" using i due by (auto simp: n_def update_inv_def engine_ok_def controller_ok_def split: option.splits)
  from c have "engine_ok m1 \<and> controller_ok m1 \<and> em_engines m1 INTELL_VOICE_UPDATE \<noteq> None"
  proof (cases rule: create_update_cases)
    case present
    then show ?thesis using n
      by (auto simp: engine_ok_def controller_ok_def completion_due_def upd_frame_def split: option.splits)
  next
    case (fresh w)
    then show ?thesis using n s by (auto simp: engine_ok_def controller_ok_def completion_due_def upd_frame_def split: option.splits)
  qed simp_all
  then show ?thesis using s c
    by (auto simp: created(3) update_inv_def engine_ok_def controller_ok_def progress_def completion_due_def split: option.splits)
qed

lemma run_task_inv:
  assumes i: "update_inv m" and r: "run_task H C e m = Some m'"
  shows "update_inv m'"
proof (cases "em_tasks m")
  case Nil
  then show ?thesis using r by (simp add: run_task_def)
next
  case (Cons t ts)
  consider r p where "t = TaskUpdateComplete r p" | "t = TaskUpdateRetry" | "\<not> update_task t" by (cases t) auto
  then show ?thesis
  proof cases
    case (1 rr p)
    then have "\<exists>b. UpdateCompleteProc H C e rr p (m\<lparr>em_tasks := ts\<rparr>) = (b, m')"
      using r Cons by (auto simp: run_task_def IsNeedUpdateComplete_def split: prod.splits if_splits)
    then show ?thesis using CompleteProc_inv [OF i] Cons 1 by blast
  next
    case 2
    then have "\<exists>b. UpdateRetryProc H C (m\<lparr>em_tasks := ts\<rparr>) = (b, m')"
      using r Cons by (auto simp: run_task_def IsNeedUpdateRetry_def split: prod.splits if_splits bool.splits)
    then show ?thesis using RetryProc_inv [OF i] Cons 2 by blast
  next
    case 3
    then have m': "m' = m\<lparr>em_tasks := ts\<rparr>" using r Cons by (cases t) (auto simp: run_task_def)
    have "completion_due m' = completion_due m" "TaskUpdateRetry \<in> set (em_tasks m') \<longleftrightarrow> TaskUpdateRetry \<in> set (em_tasks m)"
      using 3 Cons by (auto simp: m' completion_due_def)
    then show ?thesis using i by (auto simp: m' update_inv_def engine_ok_def controller_ok_def progress_def split: option.splits)
  qed
qed

lemma event_inv:
  assumes i: "update_inv m" and r: "roomy m" and ev: "report_event H ev m = Some m'"
  shows "update_inv m'"
proof -
  obtain u ts v x where u: "em_engines m INTELL_VOICE_UPDATE = Some (UpdateObj u)" "OnUpdateEvent H ev u (em_ctx m) = (ts, v, x)"
    "m' = post_all ts (m\<lparr>em_engines := (em_engines m)(INTELL_VOICE_UPDATE \<mapsto> UpdateObj v), em_ctx := x\<rparr>)"
    using ev by (auto simp: report_event_def split: option.splits engine.splits prod.splits)
  from OnUpdateEvent_cases [OF u(2)] show ?thesis
  proof (elim disjE conjE exE)
    assume "ts = []" "v = u" "x = em_ctx m"
    then show ?thesis using u i frame_inv [OF i, of m'] by (auto simp: upd_frame_def post_all_def)
  next
    fix rr
    assume v: "ts = [TaskUpdateComplete rr (ue_param u)]" "v = u\<lparr>ue_updateResult := rr\<rparr>" "ue_adapter u"
    have "em_tasks m' = em_tasks m @ ts" using r v(1) by (simp add: u(3) post_all_room roomy_def)
    moreover obtain s where s: "em_updateStrategy m = Some s" "ue_param u = strategy_param s"
      using i u(1) by (auto simp: update_inv_def engine_ok_def)
    ultimately have "completion_due m'" using v(1) by (auto simp: completion_due_def u(3))
    then show ?thesis using i s v u(1,3)
      by (auto simp: update_inv_def engine_ok_def controller_ok_def progress_def split: option.splits)
  qed
qed

lemma timer_inv_step:
  assumes i: "update_inv m" and r: "roomy m" and f: "fire_timer e m = Some m'"
  shows "update_inv m'"
proof -
  obtain tm where m': "m' = post TaskUpdateRetry (m\<lparr>em_timers := tm\<rparr>)"
    using f by (auto simp: fire_timer_def Ctl_OnTimerEvent_def split: prod.splits run_outcome.splits)
  then have "em_tasks m' = em_tasks m @ [TaskUpdateRetry]" using r by (auto simp: post_def roomy_def)
  then show ?thesis using i m'
    by (auto simp: update_inv_def engine_ok_def controller_ok_def progress_def completion_due_def split: option.splits)
qed

lemma ClearUserData_inv:
  assumes "update_inv m"
  shows "update_inv (ClearUserDataInner H C m)"
proof -
  have "update_inv (ForceRelease H C m)"
  proof (cases "GetUpdateState m")
    case True
    define n where "n = stop_timers (ReleaseUpdateEngine H C (ClearRetryState m))"
    have "controller_ok n" "em_updateStrategy n = None" "em_engines n INTELL_VOICE_UPDATE = None"
      using controller_rest [OF Release_rest [of "ClearRetryState m" H C]] by (simp_all add: n_def)
    then show ?thesis using True by (intro cleared_inv) (simp_all add: ForceRelease_def n_def [symmetric] controller_ok_def)
  qed (use assms in \<open>simp add: ForceRelease_def\<close>)
  then show ?thesis
    by (rule frame_inv) (use frame_detach [of "ForceRelease H C m" H C] in \<open>simp add: ClearUserDataInner_def Let_def\<close>)
qed

lemma param_frame:
  "upd_frame m (snd (EM_SetParameter H C k v m))" "upd_frame m (snd (ImplicitEnroll H C p c m))"
proof -
  obtain ok n where n: "CreateEngine H C INTELL_VOICE_IMPLICIT_ENROLL '''' False m = (ok, n)" using prod.exhaust by blast
  have f: "upd_frame m n" using frame_implicit [OF n] .
  have g: "upd_frame m (on_engine INTELL_VOICE_IMPLICIT_ENROLL h k)" if "upd_frame m k" for h k
    using frame_trans [OF that frame_on_engine] by simp
  show "upd_frame m (snd (EM_SetParameter H C k v m))" "upd_frame m (snd (ImplicitEnroll H C p c m))"
    using n f g
    by (auto simp: EM_SetParameter_def ClearImplicitEnrollData_def ImplicitEnroll_def frame_on_engine split: bool.splits)
qed

lemma update_act_inv:
  assumes i: "update_inv m" and a: "allowed a m" and s: "mgr_act H C e a m = Some m'"
  shows "update_inv m'"
proof (cases a)
  case ActSilence
  have "strategy_param t = ''''" if "em_updateStrategy m = Some t" "GetUpdatePriority t = 3" for t
    using that i by (cases t) (auto simp: update_inv_def controller_ok_def)
  then show ?thesis using UntilTime_inv [OF i, of "SilenceUpdateStrategy ''''" H C e False, OF _ _ prod.collapse [symmetric]] s ActSilence
    by (auto simp: SilenceUpdate_def)
next
  case (ActWhisper b)
  have "strategy_param t = ''WhisperVprUpdate''" if "em_updateStrategy m = Some t" "GetUpdatePriority t = 4" for t
    using that i by (cases t) (auto simp: update_inv_def controller_ok_def)
  then show ?thesis using UntilTime_inv [OF i, of "WhisperUpdateStrategy ''WhisperVprUpdate''" H C e b, OF _ _ prod.collapse [symmetric]] s ActWhisper
    by (auto simp: WhisperVprUpdate_def)
next
  case (ActClone p c)
  have "strategy_param t = p" if "em_updateStrategy m = Some t" "GetUpdatePriority t = 2" for t
    using that a ActClone by (cases t) auto
  then show ?thesis using UntilTime_inv [OF i, of "CloneUpdateStrategy p c" H C e False, OF _ _ prod.collapse [symmetric]] s ActClone i
    by (auto simp: CloneUpdate_def split: if_splits)
next
  case (ActCreate t)
  then show ?thesis using create_enroll_inv [OF i _ prod.collapse [symmetric]] a s by simp blast
next
  case (ActRelease t)
  then show ?thesis using s a i remove_update_inv [OF i] frame_inv [OF i frame_remove]
    by (cases "t = INTELL_VOICE_UPDATE") (auto simp: ReleaseEngineInner_def)
next
  case (ActEngine t eng)
  then show ?thesis using s frame_inv [OF i, of m'] by (auto simp: upd_frame_def split: if_splits)
next
  case ActStop
  then show ?thesis using s i frame_inv [OF i frame_detach] by (auto simp: ServiceStopProc_def)
qed (use s a frame_inv [OF i] run_task_inv [OF i] event_inv [OF i] timer_inv_step [OF i] ClearUserData_inv [OF i] frame_reset [of m H C] param_frame [of m H C] in
    \<open>auto simp: EngineOnDetected_def ClearWakeupEngineCb_def frame_on_engine split: if_splits\<close>)

interpretation update: invariant_system manager_start "protocol_step H C" update_inv for H C
proof unfold_locales
  show "manager_start m \<Longrightarrow> update_inv m" for m :: "('a, 'w) EngineManager"
    by (auto simp: manager_start_def manager_new_def update_inv_def engine_ok_def controller_ok_def progress_def)
  show "update_inv m \<Longrightarrow> protocol_step H C m m' \<Longrightarrow> update_inv m'" for m m'
    by (auto elim!: protocol_step.cases dest: update_act_inv)
qed



text \<open>
  The condition on clone updates is needed. A client starts a clone update with other parameters while the first is
  running: the request succeeds, but the engine still carries the first parameters, its completion is ignored, and the
  controller stays updating with nothing left to wake it.
\<close>

definition clone_twice :: "(unit, nat) EngineManager" where
  "clone_twice =
     (let m1 = snd (CloneUpdate demo_hdi demo_class update_demo_env ''a'' (Some 1) (manager_new demo_ctx));
          m2 = snd (CloneUpdate demo_hdi demo_class update_demo_env ''b'' (Some 2) m1);
          m3 = the (report_event demo_hdi \<lparr>ee_msgId = MSG_COMMIT_ENROLL_COMPLETE, ee_result = 0, ee_info = ''''\<rparr> m2)
      in the (run_task demo_hdi demo_class update_demo_env m3))"

lemma second_clone_stuck:
  "em_isUpdating clone_twice \<and> em_tasks clone_twice = [] \<and> tm_itemQueue (em_timers clone_twice) = [] \<and>
   (case em_engines clone_twice INTELL_VOICE_UPDATE of
      Some (UpdateObj u) \<Rightarrow> ue_updateResult u = UPDATE_STATE_COMPLETE_SUCCESS \<and> ue_param u = ''a''
    | _ \<Rightarrow> False)"
  by code_simp

section \<open>Attempts are bounded\<close>

text \<open>
  A run without new requests, counting the completions of the current update the service has processed. Between two
  of them anything else may happen.
\<close>

fun request_action :: "('a, 'w) mgr_action \<Rightarrow> bool" where
  "request_action ActSilence = True"
| "request_action (ActWhisper _) = True"
| "request_action (ActClone _ _) = True"
| "request_action _ = False"

definition counted :: "('a, 'w) mgr_action \<Rightarrow> ('a, 'w) EngineManager \<Rightarrow> bool" where
  "counted a m \<longleftrightarrow> a = ActTask \<and> \<not> em_isForceReleased m \<and>
     (\<exists>r s ts. em_updateStrategy m = Some s \<and> em_tasks m = TaskUpdateComplete r (strategy_param s) # ts)"

inductive attempts :: "'a hdi \<Rightarrow> ('a, 'w) engine_class \<Rightarrow> nat \<Rightarrow> ('a, 'w) EngineManager \<Rightarrow> ('a, 'w) EngineManager \<Rightarrow> bool" for H C where
  at_start: "attempts H C 0 m m"
| at_other: "attempts H C n m m1 \<Longrightarrow> mgr_act H C e a m1 = Some m2 \<Longrightarrow> \<not> request_action a \<Longrightarrow> \<not> counted a m1 \<Longrightarrow> attempts H C n m m2"
| at_complete: "attempts H C n m m1 \<Longrightarrow> mgr_act H C e a m1 = Some m2 \<Longrightarrow> counted a m1 \<Longrightarrow> attempts H C (Suc n) m m2"

text \<open>The counters of the controller.\<close>

definition counters :: "('a, 'w) EngineManager \<Rightarrow> bool \<times> int \<times> int" where
  "counters m = (em_isUpdating m, em_retryTimes m, em_retryTimesLimit m)"

lemma counters_frame: "upd_frame m m' \<Longrightarrow> counters m' = counters m"
  by (simp add: upd_frame_def counters_def)

lemma counters_rest: "upd_rest m m' \<Longrightarrow> counters m' = counters m"
  by (simp add: upd_rest_def upd_frame_def counters_def)

lemma counters_ctl [simp]:
  "counters (stop_timers m) = counters m" "counters (m\<lparr>em_ctx := x\<rparr>) = counters m" "counters (m\<lparr>em_tasks := ts\<rparr>) = counters m"
  "counters (m\<lparr>em_timerId := i\<rparr>) = counters m" "counters (ReleaseUpdateEngine H C m) = counters m"
  "counters (ClearRetryState m) = (False, 0, 0)" "counters (finish_update r m) = (False, 0, 0)"
  using counters_rest [OF Release_rest [of m H C]]
  by (simp_all add: counters_def stop_timers_def ClearRetryState_def finish_update_def Let_def)

lemma counters_create_update:
  assumes "CreateEngine H C INTELL_VOICE_UPDATE p b m = (ok, m')"
  shows "counters m' = counters m"
  using assms
proof (cases rule: create_update_cases)
  case (fresh u)
  then show ?thesis by (simp add: counters_def upd_frame_def)
qed (auto dest: counters_frame)

lemma counters_RetryProc:
  assumes "UpdateRetryProc H C m = (b, m')"
  shows "counters m' = counters m \<or> \<not> em_isUpdating m'"
  using assms
proof (cases rule: RetryProc_cases)
  case (created s x m1)
  then show ?thesis using counters_create_update [OF created(2)] by simp
next
  case (gave_up m1)
  then have "counters m' = (False, 0, 0)" by simp
  then show ?thesis by (simp add: counters_def)
qed simp

lemma counters_CompleteProc:
  assumes "UpdateCompleteProc H C e r p m = (b, m')"
  shows "if em_isForceReleased m \<or> map_option strategy_param (em_updateStrategy m) \<noteq> Some p then counters m' = counters m
    else \<not> em_isUpdating m' \<or>
    (counters m' = (em_isUpdating m, em_retryTimes m + 1, em_retryTimesLimit m) \<and> em_retryTimes m < em_retryTimesLimit m)"
  using assms
proof (cases rule: CompleteProc_cases)
  case (finish s x i tm)
  then have "counters m' = (False, 0, 0)" by simp
  then show ?thesis using finish by (simp add: counters_def)
next
  case (retry s x i tm0 tm)
  then have "counters m' = counters (m\<lparr>em_updateResult := r, em_ctx := x, em_timerId := i, em_timers := tm, em_retryTimes := em_retryTimes m + 1\<rparr>)"
    by simp
  also have "\<dots> = (em_isUpdating m, em_retryTimes m + 1, em_retryTimesLimit m)" by (simp add: counters_def)
  finally show ?thesis using retry(1-3,6) by simp
qed auto

lemma counters_task:
  assumes "run_task H C e m = Some m'"
  shows "if counted ActTask m
    then \<not> em_isUpdating m' \<or> (counters m' = (em_isUpdating m, em_retryTimes m + 1, em_retryTimesLimit m) \<and> em_retryTimes m < em_retryTimesLimit m)
    else counters m' = counters m \<or> \<not> em_isUpdating m'"
proof (cases "em_tasks m")
  case Nil
  then show ?thesis using assms by (simp add: run_task_def)
next
  case (Cons t ts)
  consider r p where "t = TaskUpdateComplete r p" | "t = TaskUpdateRetry" | "\<not> update_task t" by (cases t) auto
  then show ?thesis
  proof cases
    case (1 rr p)
    then obtain b where "UpdateCompleteProc H C e rr p (m\<lparr>em_tasks := ts\<rparr>) = (b, m')"
      using assms Cons by (auto simp: run_task_def IsNeedUpdateComplete_def split: prod.splits if_splits)
    from counters_CompleteProc [OF this] show ?thesis using 1 Cons by (auto simp: counted_def split: if_splits)
  next
    case 2
    then obtain b where "UpdateRetryProc H C (m\<lparr>em_tasks := ts\<rparr>) = (b, m')"
      using assms Cons by (auto simp: run_task_def IsNeedUpdateRetry_def split: prod.splits if_splits bool.splits)
    from counters_RetryProc [OF this] show ?thesis using 2 Cons by (auto simp: counted_def)
  next
    case 3
    then have "m' = m\<lparr>em_tasks := ts\<rparr>" using assms Cons by (cases t) (auto simp: run_task_def)
    then show ?thesis using 3 Cons by (auto simp: counted_def)
  qed
qed

lemma counters_create:
  assumes "CreateEngine H C t p b m = (ok, m')"
  shows "counters m' = counters m"
proof (cases "t = INTELL_VOICE_UPDATE")
  case True
  then show ?thesis using counters_create_update assms by blast
next
  case False
  from assms show ?thesis
  proof (cases rule: CreateEngine_cases)
    case (enroll m1)
    have "counters m1 = counters m" unfolding enroll(2)
      by (simp add: counters_frame [OF frame_on_engine] counters_rest [OF remove_update_rest])
    then show ?thesis using counters_frame [OF frame_CreateInner [OF enroll(3) False]] by simp
  next
    case (other m1)
    have "counters m1 = counters m" using other(3) counters_frame [OF frame_on_engine] by auto
    then show ?thesis using counters_frame [OF frame_CreateInner [OF other(4) False]] by simp
  qed simp
qed

lemma counters_other:
  assumes "mgr_act H C e a m = Some m'" "\<not> request_action a" "a \<noteq> ActTask"
  shows "counters m' = counters m \<or> \<not> em_isUpdating m'"
proof (cases a)
  case (ActCreate t)
  then show ?thesis using counters_create [OF prod.collapse [symmetric]] assms(1) by simp blast
next
  case (ActRelease t)
  then show ?thesis using assms(1) counters_frame [OF frame_remove [of t m H C]] counters_rest [OF remove_update_rest [of m H C]]
    by (cases "t = INTELL_VOICE_UPDATE") (auto simp: ReleaseEngineInner_def)
next
  case (ActEvent ev)
  then show ?thesis using assms(1) by (auto simp: report_event_def counters_def split: option.splits engine.splits prod.splits)
next
  case ActTimer
  then show ?thesis using assms(1) by (auto simp: fire_timer_def Ctl_OnTimerEvent_def counters_def split: prod.splits run_outcome.splits)
next
  case ActClearUserData
  then have "m' = ClearUserDataInner H C m" using assms(1) by simp
  moreover have "upd_frame (ForceRelease H C m) (ClearUserDataInner H C m)"
    using frame_detach [of "ForceRelease H C m" H C] by (simp add: ClearUserDataInner_def Let_def)
  moreover have "counters (ForceRelease H C m) = counters m \<or> counters (ForceRelease H C m) = (False, 0, 0)"
  proof (cases "GetUpdateState m")
    case True
    have "counters (stop_timers (ReleaseUpdateEngine H C (ClearRetryState m))) = (False, 0, 0)" by simp
    then show ?thesis using True by (simp add: ForceRelease_def counters_def)
  qed (simp add: ForceRelease_def)
  ultimately show ?thesis using counters_frame by (metis counters_def fst_conv)
next
  case (ActEngine t eng)
  then show ?thesis using assms(1) by (auto simp: counters_def split: if_splits)
next
  case ActStop
  then show ?thesis using assms(1) counters_frame [OF frame_detach [of m H C]] by (auto simp: ServiceStopProc_def split: if_splits)
qed (use assms counters_frame [OF frame_on_engine] counters_frame [OF frame_reset [of m H C]] counters_frame [OF frame_post [of m]]
      counters_frame [OF param_frame(1) [of m H C]] counters_frame [OF param_frame(2) [of m H C]] in
    \<open>auto simp: EngineOnDetected_def ClearWakeupEngineCb_def split: if_splits\<close>)

lemma attempts_counters:
  assumes "attempts H C n m m'" "em_isUpdating m'"
  shows "counters m' = (em_isUpdating m, em_retryTimes m + int n, em_retryTimesLimit m) \<and>
    (n > 0 \<longrightarrow> em_retryTimes m' \<le> em_retryTimesLimit m')"
  using assms
proof (induction rule: attempts.induct)
  case (at_start m)
  then show ?case by (simp add: counters_def)
next
  case (at_other n m m1 e a m2)
  have "counters m2 = counters m1"
    using counters_other [OF at_other.hyps(2,3)] counters_task [of H C e m1 m2] at_other.hyps(2,4) at_other.prems
    by (cases "a = ActTask") auto
  then show ?case using at_other.IH at_other.prems by (auto simp: counters_def)
next
  case (at_complete n m m1 e a m2)
  have a: "a = ActTask" using at_complete.hyps(3) by (simp add: counted_def)
  then show ?case using counters_task [of H C e m1 m2] at_complete.hyps(2,3) at_complete.IH at_complete.prems
    by (auto simp: counters_def split: if_splits)
qed

text \<open>
  C17. A failing update gives up. Let an update be under way. However the driver's reports, the timer, the service's tasks and
  the other engines interleave, as long as no new update is requested the service can process only as many
  completions of this update as the strategy has retries left: after one more the controller is no longer updating.
  For a silent or whisper update that is at most six attempts, for a clone update one.
\<close>

theorem update_attempts_bounded:
  assumes "reach manager_start (protocol_step H C) m" "em_updateStrategy m = Some s" "attempts H C n m m'"
    "int n > GetRetryTimes s - em_retryTimes m"
  shows "\<not> em_isUpdating m'"
proof
  assume u: "em_isUpdating m'"
  have "update_inv m" using update.reach_inv [OF assms(1)] .
  then have m: "em_retryTimesLimit m = GetRetryTimes s" "em_retryTimes m \<le> GetRetryTimes s"
    using assms(2) by (auto simp: update_inv_def controller_ok_def)
  then have "n > 0" using assms(4) by linarith
  then show False using attempts_counters [OF assms(3) u] m assms(4) by (simp add: counters_def)
qed

definition clone_once :: "(unit, nat) EngineManager" where
  "clone_once = snd (CloneUpdate demo_hdi demo_class update_demo_env ''a'' (Some 1) (manager_new demo_ctx))"

lemma update_attempts_bounded_witness:
  "em_isUpdating clone_once \<and> (\<exists>m'. attempts demo_hdi demo_class 1 clone_once m' \<and> \<not> em_isUpdating m')"
proof -
  let ?m = "manager_new demo_ctx :: (unit, nat) EngineManager"
  let ?ev = "\<lparr>ee_msgId = MSG_COMMIT_ENROLL_COMPLETE, ee_result = 1, ee_info = ''''\<rparr>"
  have "reach manager_start (protocol_step demo_hdi demo_class) ?m" by (rule reach_start) (auto simp: manager_start_def)
  moreover have "protocol_step demo_hdi demo_class ?m clone_once"
    by (rule pr_step [where e = update_demo_env and a = "ActClone ''a'' (Some 1)"])
      (simp_all add: clone_once_def roomy_def manager_new_def MAX_TASK_NUM_def)
  ultimately have r: "reach manager_start (protocol_step demo_hdi demo_class) clone_once" by (rule reach_step)
  have s: "em_updateStrategy clone_once = Some (CloneUpdateStrategy ''a'' (Some 1)) \<and> em_retryTimes clone_once = 0 \<and> em_isUpdating clone_once"
    by code_simp
  have "report_event demo_hdi ?ev clone_once \<noteq> None" by code_simp
  then obtain m1 where m1: "report_event demo_hdi ?ev clone_once = Some m1" by blast
  have "em_tasks (the (report_event demo_hdi ?ev clone_once)) = [TaskUpdateComplete UPDATE_STATE_COMPLETE_FAIL ''a''] \<and>
    em_updateStrategy (the (report_event demo_hdi ?ev clone_once)) = Some (CloneUpdateStrategy ''a'' (Some 1)) \<and>
    \<not> em_isForceReleased (the (report_event demo_hdi ?ev clone_once))" by code_simp
  then have c: "counted ActTask m1" "em_tasks m1 = [TaskUpdateComplete UPDATE_STATE_COMPLETE_FAIL ''a'']"
    using m1 by (auto simp: counted_def)
  obtain m2 where m2: "run_task demo_hdi demo_class update_demo_env m1 = Some m2" using c(2) by (simp add: run_task_def)
  have "attempts demo_hdi demo_class 0 clone_once m1"
    by (rule at_other [OF at_start, where e = update_demo_env and a = "ActEvent ?ev"]) (simp_all add: m1 counted_def)
  then have "attempts demo_hdi demo_class (Suc 0) clone_once m2"
    by (rule at_complete [where e = update_demo_env and a = ActTask]) (simp_all add: m2 c)
  then show ?thesis using update_attempts_bounded [OF r, of "CloneUpdateStrategy ''a'' (Some 1)" 1 m2] s by auto
qed

end
