(* ===== verification/Implicit_Engine.thy ===== *)
theory Implicit_Engine
  imports Update_Engine
begin

text \<open>
  The implicit enrolment engine, \<open>services/intell_voice_engine/server/implicit\<close>: a table-driven engine that
  enrols from audio the driver has kept. A client starts the stage \<open>dialog\<close> or \<open>verify\<close>; the engine's own thread, which is
  started only when the driver reports that it is initialised, starts the driver and handles the completion.
  \<open>AddSyncTask\<close> waits until that thread has run the task: with no thread it waits for ever, and an operation that waits
  is \<open>None\<close>. The machine, its timeout and the interpretation of \<open>table_engine\<close> are as for the wake-up engine.
\<close>

section \<open>Data\<close>

definition IE_RECOGNIZING_TIMEOUT_US :: int where
  "IE_RECOGNIZING_TIMEOUT_US = 5 * 60 * 1000 * 1000"

datatype implicit_task = ImplicitStart string int int | ImplicitComplete int string

text \<open>\<open>if_cb\<close> and \<open>if_historyEvent\<close> belong to the adapter listener; \<open>if_thread\<close>, \<open>if_tasks\<close> to the task executor.\<close>

record 'a ImplicitEnrollEngine =
  if_adapter :: bool
  if_callback :: bool
  if_cb :: "nat option"
  if_historyEvent :: "engine_event option"
  if_wakeupPhrase :: string
  if_stage :: string
  if_bundleName :: string
  if_abilityName :: string
  if_startTime :: int
  if_endTime :: int
  if_thread :: bool
  if_tasks :: "implicit_task list"
  if_ctx :: "'a engine_ctx"

type_synonym 'a implicit_engine = "(wakeup_msg, 'a ImplicitEnrollEngine) ModuleStates"
type_synonym 'a implicit_handler = "(wakeup_msg, 'a ImplicitEnrollEngine) HandleMsg_fn"

definition iresult :: "int \<Rightarrow> int \<Rightarrow> 'a ImplicitEnrollEngine \<Rightarrow> 'a ImplicitEnrollEngine handled" where
  "iresult ret nxt u = \<lparr>h_ret = ret, h_next = nxt, h_reset = False, h_self = u\<rparr>"

definition ie_ctx :: "('a engine_ctx \<Rightarrow> 'a engine_ctx) \<Rightarrow> 'a ImplicitEnrollEngine \<Rightarrow> 'a ImplicitEnrollEngine" where
  "ie_ctx f u = u\<lparr>if_ctx := f (if_ctx u)\<rparr>"

definition ie_post :: "implicit_task \<Rightarrow> 'a ImplicitEnrollEngine \<Rightarrow> 'a ImplicitEnrollEngine" where
  "ie_post t u = (if length (if_tasks u) < MAX_ENROLL_TASK_NUM then u\<lparr>if_tasks := if_tasks u @ [t]\<rparr> else u)"

section \<open>The adapter listener\<close>

definition IL_SetCallback :: "nat option \<Rightarrow> 'a ImplicitEnrollEngine \<Rightarrow> 'a ImplicitEnrollEngine" where
  "IL_SetCallback cb u =
     (case cb of
        None \<Rightarrow> u\<lparr>if_cb := None\<rparr>
      | Some c \<Rightarrow>
          (case if_historyEvent u of
             None \<Rightarrow> u\<lparr>if_cb := Some c\<rparr>
           | Some ev \<Rightarrow> ie_ctx (emit (UpdateComplete c (ee_result ev))) (u\<lparr>if_cb := Some c\<rparr>)))"

definition IL_BackupCallBackEvent :: "engine_event \<Rightarrow> 'a ImplicitEnrollEngine \<Rightarrow> 'a ImplicitEnrollEngine" where
  "IL_BackupCallBackEvent ev u = (if ee_msgId ev = MSG_ENROLL_COMPLETE then u\<lparr>if_historyEvent := Some ev\<rparr> else u)"

definition IL_Notify :: "engine_event \<Rightarrow> 'a ImplicitEnrollEngine \<Rightarrow> 'a ImplicitEnrollEngine" where
  "IL_Notify ev u =
     (case if_cb u of
        None \<Rightarrow> IL_BackupCallBackEvent ev u
      | Some c \<Rightarrow>
          (let v = u\<lparr>if_historyEvent := None\<rparr>
           in if ee_msgId ev \<noteq> MSG_ENROLL_COMPLETE then v else ie_ctx (emit (UpdateComplete c (ee_result ev))) v))"

section \<open>Handlers\<close>

definition IE_SetCallbackInner :: "'a hdi \<Rightarrow> 'a ImplicitEnrollEngine \<Rightarrow> 'a ImplicitEnrollEngine" where
  "IE_SetCallbackInner H u =
     (let v = u\<lparr>if_callback := True\<rparr>
      in if \<not> if_adapter v then v else ie_ctx (\<lambda>x. x\<lparr>cx_host := hdi_SetCallback H (cx_host x)\<rparr>) v)"

definition IE_Attach :: "'a hdi \<Rightarrow> engine_info \<Rightarrow> 'a ImplicitEnrollEngine \<Rightarrow> int \<times> 'a ImplicitEnrollEngine" where
  "IE_Attach H info u =
     (if \<not> if_adapter u then (-1, u)
      else (case adapter_Attach H (adapter_info_of info) (SetImproveParam H True (snd (SetDspFeatures H True (if_ctx u)))) of (r, x) \<Rightarrow>
        (r, u\<lparr>if_ctx := x\<rparr>)))"

definition implicit_info :: "string \<Rightarrow> engine_info" where
  "implicit_info phrase = \<lparr>ei_wakeupPhrase = phrase, ei_isPcmFromExternal = False, ei_minBufSize = 1280, ei_sampleChannels = 1,
     ei_bitsPerSample = 16, ei_sampleRate = 16000\<rparr>"

definition IE_HandleInit :: "'a hdi \<Rightarrow> 'a implicit_handler" where
  "IE_HandleInit H msg nxt u =
     (case CreateAdapterInner H (IMPLICIT_ENROLL_ADAPTER_TYPE H) (if_ctx u) of (ok, x) \<Rightarrow>
        (let u1 = u\<lparr>if_adapter := ok, if_ctx := x\<rparr>
         in if \<not> ok then iresult (-1) nxt u1
            else let u2 = ie_ctx (\<lambda>x. SetArea H True (SetLanguage H True x))
                            (IE_SetCallbackInner H (u1\<lparr>if_wakeupPhrase := DEFAULT_WAKEUP_PHRASE\<rparr>))
                 in (case IE_Attach H (implicit_info (if_wakeupPhrase u2)) u2 of (ret, u3) \<Rightarrow>
                       if ret \<noteq> 0
                       then (case ReleaseAdapterInner H (IMPLICIT_ENROLL_ADAPTER_TYPE H) (if_ctx u3) of (a, y) \<Rightarrow>
                               iresult (-1) nxt (u3\<lparr>if_adapter := a, if_ctx := y\<rparr>))
                       else iresult 0 (wstate_id ST_INITIALIZED) u3)))"

definition IE_HandleRecognizingTimeout :: "'a implicit_handler" where
  "IE_HandleRecognizingTimeout msg nxt u = iresult 0 (wstate_id ST_IDLE) (ie_ctx (emit ReleaseImplicitEnrollEngine) u)"

definition IE_HandleSetListener :: "'a implicit_handler" where
  "IE_HandleSetListener msg nxt u =
     (case win_of msg of
        WListener (Some c) \<Rightarrow> iresult 0 nxt (IL_SetCallback (Some c) u)
      | _ \<Rightarrow> iresult (-1) nxt u)"

text \<open>
  \<open>CheckParams\<close> stores what it reads as it goes, also when a later member is missing. \<open>json_int\<close>: \<open>asInt\<close> of a value
  that \<open>isInt\<close>.
\<close>

fun json_int :: "json_value \<Rightarrow> int option" where
  "json_int (JInt i) = (if - (2 ^ 31) \<le> i \<and> i < 2 ^ 31 then Some i else None)"
| "json_int (JReal i _ _) = i"
| "json_int _ = None"

definition CheckParams :: "string \<Rightarrow> 'a ImplicitEnrollEngine \<Rightarrow> bool \<times> 'a ImplicitEnrollEngine" where
  "CheckParams param u =
     (case an_json (cx_answers (if_ctx u)) param of
        None \<Rightarrow> (False, u)
      | Some root \<Rightarrow>
          (case root ''stage'' of
             Some (JString stage) \<Rightarrow>
               (let u1 = u\<lparr>if_stage := stage\<rparr>
                in if stage = ''verify'' then
                     (case root ''bundle_name'' of
                        Some (JString b) \<Rightarrow>
                          (let u2 = u1\<lparr>if_bundleName := b\<rparr> in
                           case root ''ability_name'' of
                             Some (JString a) \<Rightarrow>
                               (let u3 = u2\<lparr>if_abilityName := a\<rparr> in
                                case Option.bind (root ''start_time'') json_int of
                                  Some st \<Rightarrow>
                                    (let u4 = u3\<lparr>if_startTime := st\<rparr> in
                                     case Option.bind (root ''end_time'') json_int of
                                       Some et \<Rightarrow> (True, u4\<lparr>if_endTime := et\<rparr>)
                                     | _ \<Rightarrow> (False, u4))
                                | _ \<Rightarrow> (False, u3))
                           | _ \<Rightarrow> (False, u2))
                      | _ \<Rightarrow> (False, u1))
                   else if stage \<noteq> ''dialog'' then (False, u1)
                   else (True, u1))
           | _ \<Rightarrow> (False, u)))"

definition IE_HandleStart :: "'a implicit_handler" where
  "IE_HandleStart msg nxt u =
     (case win_of msg of
        WStr param \<Rightarrow>
          (case CheckParams param u of
             (False, v) \<Rightarrow> iresult (-1) nxt v
           | (True, v) \<Rightarrow> iresult 0 (wstate_id ST_RECOGNIZING) (ie_post (ImplicitStart (if_stage v) (if_startTime v) (if_endTime v)) v))
      | _ \<Rightarrow> iresult (-1) nxt u)"

text \<open>The parameter is set by the engine's thread while the caller waits.\<close>

definition IE_HandleSetParam :: "'a hdi \<Rightarrow> 'a implicit_handler" where
  "IE_HandleSetParam H msg nxt u =
     (case win_of msg of
        WStr param \<Rightarrow> iresult 0 nxt (ie_ctx (\<lambda>x. snd (EU_SetParameter H (if_adapter u) param x)) u)
      | _ \<Rightarrow> iresult (-1) nxt u)"

definition IE_HandleRelease :: "'a hdi \<Rightarrow> 'a implicit_handler" where
  "IE_HandleRelease H msg nxt u =
     (if \<not> if_adapter u then iresult 0 nxt u
      else (case hdi_Detach H (cx_host (if_ctx u)) of (ret, h) \<Rightarrow>
        (case ReleaseAdapterInner H (IMPLICIT_ENROLL_ADAPTER_TYPE H) ((if_ctx u)\<lparr>cx_host := h\<rparr>) of (a, x) \<Rightarrow>
          iresult ret (wstate_id ST_IDLE) (u\<lparr>if_adapter := a, if_ctx := x\<rparr>))))"

definition IE_HandleEnrollComplete :: "'a implicit_handler" where
  "IE_HandleEnrollComplete msg nxt u =
     (case win_of msg of
        WEvent ev \<Rightarrow> iresult 0 (wstate_id ST_INITIALIZED) (IL_Notify ev u)
      | _ \<Rightarrow> iresult (-1) nxt u)"

section \<open>The engine\<close>

definition IE_InitStates :: "'a hdi \<Rightarrow> (int \<Rightarrow> bool) \<Rightarrow> (wakeup_msg, 'a ImplicitEnrollEngine) cfg_op list" where
  "IE_InitStates H al =
     map (\<lambda>i. CfgAct (al i) i (wevent_id EV_SET_LISTENER) IE_HandleSetListener) [0, 1, 2, 3] @
     [CfgAct (al 0) (wstate_id ST_IDLE) (wevent_id EV_INIT) (IE_HandleInit H),
      CfgAct (al 2) (wstate_id ST_INITIALIZED) (wevent_id EV_START_RECOGNIZE) IE_HandleStart,
      CfgAct (al 2) (wstate_id ST_INITIALIZED) (wevent_id EV_SET_PARAM) (IE_HandleSetParam H),
      CfgAct (al 2) (wstate_id ST_INITIALIZED) (wevent_id EV_RELEASE) (IE_HandleRelease H),
      CfgWait (al 3) (wstate_id ST_RECOGNIZING) (wevent_id EV_RECOGNIZING_TIMEOUT) IE_HandleRecognizingTimeout IE_RECOGNIZING_TIMEOUT_US 0,
      CfgAct (al 3) (wstate_id ST_RECOGNIZING) (wevent_id EV_RECOGNIZE_COMPLETE) IE_HandleEnrollComplete,
      CfgAct (al 3) (wstate_id ST_RECOGNIZING) (wevent_id EV_RELEASE) (IE_HandleRelease H)]"

definition implicit_fields_new :: "'a engine_ctx \<Rightarrow> 'a ImplicitEnrollEngine" where
  "implicit_fields_new x = \<lparr>if_adapter = False, if_callback = False, if_cb = None, if_historyEvent = None, if_wakeupPhrase = '''',
     if_stage = '''', if_bundleName = '''', if_abilityName = '''', if_startTime = 0, if_endTime = 0, if_thread = False,
     if_tasks = [], if_ctx = x\<rparr>"

definition implicit_new :: "'a hdi \<Rightarrow> (int \<Rightarrow> bool) \<Rightarrow> bool \<Rightarrow> observer \<Rightarrow> 'a engine_ctx \<Rightarrow> 'a implicit_engine" where
  "implicit_new H al created this x =
     fold configure (IE_InitStates H al) (ModuleStates_new (wstate_id ST_IDLE) created this (implicit_fields_new x))"

definition IE_Handle :: "int \<Rightarrow> wakeup_msg StateMsg \<Rightarrow> 'a implicit_engine \<Rightarrow> (int \<times> 'a implicit_engine) outcome" where
  "IE_Handle now msg s = (if \<not> IsStatesInitSucc s then Ret (-1, s) else HandleMsg now msg s)"

definition IE_Init :: "int \<Rightarrow> 'a implicit_engine \<Rightarrow> (bool \<times> 'a implicit_engine) outcome" where
  "IE_Init now s = obind (IE_Handle now (wmsg EV_INIT WNull None) s) (\<lambda>(r, t). Ret (r = 0, t))"

definition IE_SetCallback :: "int \<Rightarrow> nat option \<Rightarrow> 'a implicit_engine \<Rightarrow> 'a implicit_engine outcome" where
  "IE_SetCallback now cb s =
     (if cb = None then Ret s
      else obind (IE_Handle now (wmsg EV_SET_LISTENER (WListener cb) None) s) (\<lambda>(_, t). Ret t))"

text \<open>The thread can take a task handed to it synchronously: it runs, and has nothing before it.\<close>

definition sync_ready :: "'a implicit_engine \<Rightarrow> bool" where
  "sync_ready s \<longleftrightarrow> if_thread (ms_self s) \<and> if_tasks (ms_self s) = []"

text \<open>The loop over the parsed map, ordered by key, stops at the first of its two keys: \<open>clear_data\<close> comes before \<open>start_enroll\<close>.\<close>

definition IE_SetParameter :: "int \<Rightarrow> string \<Rightarrow> 'a implicit_engine \<Rightarrow> 'a implicit_engine outcome option" where
  "IE_SetParameter now keyValueList s =
     (case SplitStringToKVPair keyValueList Map.empty of
        None \<Rightarrow> None
      | Some m \<Rightarrow>
          (if m ''clear_data'' \<noteq> None then
             (if CurrState s = wstate_id ST_INITIALIZED \<and> \<not> sync_ready s then None
              else Some (obind (IE_Handle now (wmsg EV_SET_PARAM (WStr keyValueList) None) s) (\<lambda>(_, t). Ret t)))
           else case m ''start_enroll'' of
                  Some v \<Rightarrow> Some (obind (IE_Handle now (wmsg EV_START_RECOGNIZE (WStr v) None) s) (\<lambda>(_, t). Ret t))
                | None \<Rightarrow> Some (Ret s)))"

definition IE_Detach :: "int \<Rightarrow> 'a implicit_engine \<Rightarrow> (int \<times> 'a implicit_engine) outcome option" where
  "IE_Detach now s =
     (if \<not> sync_ready s then None else Some (IE_Handle now (wmsg EV_RELEASE WNull None) s))"

definition on_fields :: "('a ImplicitEnrollEngine \<Rightarrow> 'a ImplicitEnrollEngine) \<Rightarrow> 'a implicit_engine \<Rightarrow> 'a implicit_engine" where
  "on_fields f s = s\<lparr>ms_self := f (ms_self s)\<rparr>"

definition IE_OnEnrollEvent :: "engine_event \<Rightarrow> 'a implicit_engine \<Rightarrow> 'a implicit_engine" where
  "IE_OnEnrollEvent ev s =
     (if ee_msgId ev = MSG_INIT_DONE
      then if ee_result ev \<noteq> 0 then on_fields (ie_ctx (emit ReleaseImplicitEnrollEngine)) s
           else on_fields (\<lambda>u. u\<lparr>if_thread := True\<rparr>) s
      else if ee_msgId ev = MSG_ENROLL_COMPLETE then on_fields (ie_post (ImplicitComplete (ee_result ev) (ee_info ev))) s
      else s)"

definition save_implicit :: "'a hdi \<Rightarrow> 'a ImplicitEnrollEngine \<Rightarrow> 'a ImplicitEnrollEngine" where
  "save_implicit H u =
     ie_ctx (\<lambda>x. SetStringKVPair ''WakeupPhrase'' (if_wakeupPhrase u)
               (SetStringKVPair ''WakeupEngineAbilityName'' (if_abilityName u)
                 (SetStringKVPair ''WakeupEngineBundleName'' (if_bundleName u)
                   (SaveWakeupVesion (proc_model H (if_adapter u) (DSP_MODLE H) x))))) u"

definition IE_OnEnrollComplete :: "'a hdi \<Rightarrow> int \<Rightarrow> int \<Rightarrow> string \<Rightarrow> 'a implicit_engine \<Rightarrow> 'a implicit_engine outcome" where
  "IE_OnEnrollComplete H now result info s =
     obind (IE_Handle now (wmsg EV_RECOGNIZE_COMPLETE
              (WEvent \<lparr>ee_msgId = MSG_ENROLL_COMPLETE, ee_result = result, ee_info = info\<rparr>) None) s)
       (\<lambda>(_, t). Ret (if if_stage (ms_self t) = ''verify''
          then let t1 = on_fields (ie_ctx (emit (SetEnrollResult INTELL_VOICE_IMPLICIT_ENROLL (result = 0)))) t
               in if result \<noteq> 0 then t1 else on_fields (save_implicit H) t1
          else t))"

definition start_driver :: "'a hdi \<Rightarrow> string \<Rightarrow> int \<Rightarrow> int \<Rightarrow> 'a ImplicitEnrollEngine \<Rightarrow> 'a ImplicitEnrollEngine" where
  "start_driver H stage st et u =
     (let a = if_adapter u;
          u1 = ie_ctx (\<lambda>x. snd (EU_SetParameter H a (''stage='' @ stage) x)) u;
          u2 = (if stage = ''verify''
                then ie_ctx (\<lambda>x. snd (EU_SetParameter H a (''endTime='' @ to_string et)
                       (snd (EU_SetParameter H a (''startTime='' @ to_string st) x)))) u1
                else u1)
      in if \<not> a then u2 else ie_ctx (\<lambda>x. x\<lparr>cx_host := snd (hdi_Start H True (cx_host x))\<rparr>) u2)"

text \<open>The engine's thread takes its next task.\<close>

definition IE_run :: "'a hdi \<Rightarrow> int \<Rightarrow> 'a implicit_engine \<Rightarrow> 'a implicit_engine outcome option" where
  "IE_run H now s =
     (if \<not> if_thread (ms_self s) then None
      else (case if_tasks (ms_self s) of
          [] \<Rightarrow> None
        | ImplicitStart stage st et # ts \<Rightarrow> Some (Ret (on_fields (start_driver H stage st et) (on_fields (\<lambda>u. u\<lparr>if_tasks := ts\<rparr>) s)))
        | ImplicitComplete r i # ts \<Rightarrow> Some (IE_OnEnrollComplete H now r i (on_fields (\<lambda>u. u\<lparr>if_tasks := ts\<rparr>) s))))"

section \<open>Interleavings\<close>

type_synonym 'a implicit_sys = "'a implicit_engine \<times> TimerEvent option"

inductive implicit_step :: "'a hdi \<Rightarrow> 'a implicit_sys \<Rightarrow> 'a implicit_sys \<Rightarrow> bool" for H where
  i_init: "IE_Init now s = Ret (b, t) \<Longrightarrow> implicit_step H (s, p) (t, p)"
| i_callback: "IE_SetCallback now cb s = Ret t \<Longrightarrow> implicit_step H (s, p) (t, p)"
| i_param: "IE_SetParameter now kv s = Some (Ret t) \<Longrightarrow> implicit_step H (s, p) (t, p)"
| i_detach: "IE_Detach now s = Some (Ret (r, t)) \<Longrightarrow> implicit_step H (s, p) (t, p)"
| i_event: "implicit_step H (s, p) (IE_OnEnrollEvent ev s, p)"
| i_run: "IE_run H now s = Some (Ret t) \<Longrightarrow> implicit_step H (s, p) (t, p)"
| i_world: "implicit_step H (s, p) (on_fields (ie_ctx (\<lambda>x. x\<lparr>cx_kv := k, cx_host := h, cx_answers := a\<rparr>)) s, p)"
| i_take: "Run_iter now (ms_tm s) = (RunFire e ob, tm) \<Longrightarrow> implicit_step H (s, None) (s\<lparr>ms_tm := tm\<rparr>, Some e)"
| i_deliver: "OnTimerEvent now e s = Ret t \<Longrightarrow> implicit_step H (s, Some e) (t, None)"

definition implicit_start :: "'a hdi \<Rightarrow> 'a implicit_sys \<Rightarrow> bool" where
  "implicit_start H x \<longleftrightarrow> (\<exists>this c. x = (implicit_new H (\<lambda>_. True) True this c, None))"

section \<open>The tables\<close>

datatype ImplicitState = IS_IDLE | IS_INITIALIZING | IS_INITIALIZED | IS_RECOGNIZING

fun istate_id :: "ImplicitState \<Rightarrow> int" where
  "istate_id IS_IDLE = 0"
| "istate_id IS_INITIALIZING = 1"
| "istate_id IS_INITIALIZED = 2"
| "istate_id IS_RECOGNIZING = 3"

definition icfg_of :: "ImplicitState \<Rightarrow> TimerCfg" where
  "icfg_of e = (if e = IS_RECOGNIZING
     then \<lparr>cfg_type = wevent_id EV_RECOGNIZING_TIMEOUT, cfg_delayUs = IE_RECOGNIZING_TIMEOUT_US, cfg_cookie = 0\<rparr>
     else \<lparr>cfg_type = 0, cfg_delayUs = 0, cfg_cookie = 0\<rparr>)"

definition ihandlers :: "'a hdi \<Rightarrow> ImplicitState \<Rightarrow> int \<rightharpoonup> 'a implicit_handler" where
  "ihandlers H e =
     (let l = [wevent_id EV_SET_LISTENER \<mapsto> IE_HandleSetListener]
      in case e of
           IS_IDLE \<Rightarrow> l(wevent_id EV_INIT \<mapsto> IE_HandleInit H)
         | IS_INITIALIZING \<Rightarrow> l
         | IS_INITIALIZED \<Rightarrow> l(wevent_id EV_START_RECOGNIZE \<mapsto> IE_HandleStart, wevent_id EV_SET_PARAM \<mapsto> IE_HandleSetParam H,
             wevent_id EV_RELEASE \<mapsto> IE_HandleRelease H)
         | IS_RECOGNIZING \<Rightarrow> l(wevent_id EV_RECOGNIZING_TIMEOUT \<mapsto> IE_HandleRecognizingTimeout,
             wevent_id EV_RECOGNIZE_COMPLETE \<mapsto> IE_HandleEnrollComplete, wevent_id EV_RELEASE \<mapsto> IE_HandleRelease H))"

definition itable :: "'a hdi \<Rightarrow> ImplicitState \<Rightarrow> (wakeup_msg, 'a ImplicitEnrollEngine) StateActions" where
  "itable H e = \<lparr>sa_cfg = icfg_of e, sa_timerId = INVALID_ID, sa_actions = ihandlers H e\<rparr>"

lemma itable_fields [simp]:
  "sa_cfg (itable H e) = icfg_of e" "sa_actions (itable H e) = ihandlers H e" "sa_timerId (itable H e) = INVALID_ID"
  by (simp_all add: itable_def)

lemma implicit_tables:
  "ms_states (implicit_new H (\<lambda>_. True) created this x) =
     [0 \<mapsto> Some (itable H IS_IDLE), 1 \<mapsto> Some (itable H IS_INITIALIZING), 2 \<mapsto> Some (itable H IS_INITIALIZED), 3 \<mapsto> Some (itable H IS_RECOGNIZING)]"
  by (rule ext) (simp add: implicit_new_def IE_InitStates_def machine_eval itable_def icfg_of_def ihandlers_def fun_upd_twist Let_def)

section \<open>The invariant\<close>

text \<open>A driver whose detach succeeds: then an engine past its initialisation has its adapter.\<close>

definition detach_ok :: "'a hdi \<Rightarrow> bool" where
  "detach_ok H \<longleftrightarrow> (\<forall>h. fst (hdi_Detach H h) = 0)"

definition ifields_ok :: "'a hdi \<Rightarrow> ImplicitState \<Rightarrow> 'a ImplicitEnrollEngine \<Rightarrow> bool" where
  "ifields_ok H e u \<longleftrightarrow> e \<noteq> IS_INITIALIZING \<and> (detach_ok H \<longrightarrow> e \<noteq> IS_IDLE \<longrightarrow> if_adapter u)"

abbreviation implicit_fit :: "'a hdi \<Rightarrow> ImplicitState \<Rightarrow> 'a implicit_engine \<Rightarrow> bool" where
  "implicit_fit H \<equiv> machine_fit istate_id (itable H) (ifields_ok H)"

abbreviation implicit_at :: "'a hdi \<Rightarrow> ImplicitState \<Rightarrow> 'a implicit_sys \<Rightarrow> bool" where
  "implicit_at H \<equiv> machine_at istate_id (itable H) (ifields_ok H)"

abbreviation imoves :: "'a hdi \<Rightarrow> ImplicitState \<Rightarrow> ImplicitState \<Rightarrow> 'a ImplicitEnrollEngine handled \<Rightarrow> bool" where
  "imoves H \<equiv> moves istate_id (ifields_ok H)"

lemma adapter_frames [simp]:
  "if_adapter (ie_ctx f u) = if_adapter u" "if_adapter (ie_post t u) = if_adapter u" "if_adapter (IL_SetCallback c u) = if_adapter u"
  "if_adapter (IL_Notify ev u) = if_adapter u" "if_adapter (IE_SetCallbackInner H u) = if_adapter u" "if_adapter (save_implicit H u) = if_adapter u"
  "if_adapter (start_driver H d1 d2 d3 u) = if_adapter u" "if_adapter (snd (CheckParams s u)) = if_adapter u"
  by (auto simp: ie_ctx_def ie_post_def IL_SetCallback_def IL_Notify_def IL_BackupCallBackEvent_def IE_SetCallbackInner_def
      save_implicit_def start_driver_def CheckParams_def Let_def split: option.split json_value.split)

lemma CheckParams_adapter: "CheckParams s u = (b, v) \<Longrightarrow> if_adapter v = if_adapter u"
  using adapter_frames(8) [of s u] by simp

lemma imovesI: "h = iresult r (istate_id e') v \<Longrightarrow> ifields_ok H (if r = 0 then e' else e) v \<Longrightarrow> \<exists>e'. imoves H e e' h"
  by (auto simp: moves_def iresult_def)

lemma istays: "h = iresult r (istate_id e) v \<Longrightarrow> ifields_ok H e v \<Longrightarrow> \<exists>e'. imoves H e e' h"
  by (auto simp: moves_def iresult_def)

lemma moves_HandleInit: "\<exists>e'. imoves H IS_IDLE e' (IE_HandleInit H msg (istate_id IS_IDLE) u)"
proof -
  obtain ok x where c: "CreateAdapterInner H (IMPLICIT_ENROLL_ADAPTER_TYPE H) (if_ctx u) = (ok, x)" using prod.exhaust by blast
  define u2 where "u2 = ie_ctx (\<lambda>x. SetArea H True (SetLanguage H True x))
     (IE_SetCallbackInner H (u\<lparr>if_adapter := ok, if_ctx := x, if_wakeupPhrase := DEFAULT_WAKEUP_PHRASE\<rparr>))"
  obtain ret u3 where a: "IE_Attach H (implicit_info (if_wakeupPhrase u2)) u2 = (ret, u3)" using prod.exhaust by blast
  have u3: "if_adapter u3 = if_adapter u2" using a by (auto simp: IE_Attach_def split: prod.splits if_splits)
  show ?thesis
  proof (cases "ok \<and> ret = 0")
    case True
    then have "IE_HandleInit H msg (istate_id IS_IDLE) u = iresult 0 (istate_id IS_INITIALIZED) u3"
      using c a by (simp add: IE_HandleInit_def Let_def u2_def)
    moreover have "if_adapter u3" using u3 True by (simp add: u2_def)
    ultimately show ?thesis using imovesI [of _ 0 IS_INITIALIZED u3 H IS_IDLE] by (simp add: ifields_ok_def)
  next
    case False
    then have "\<exists>v r. IE_HandleInit H msg (istate_id IS_IDLE) u = iresult r (istate_id IS_IDLE) v"
      using c a by (auto simp: IE_HandleInit_def Let_def u2_def split: prod.splits)
    then show ?thesis by (auto intro!: istays simp: ifields_ok_def)
  qed
qed

lemma moves_HandleRelease:
  assumes "ifields_ok H e u" "e \<noteq> IS_IDLE"
  shows "\<exists>e'. imoves H e e' (IE_HandleRelease H msg (istate_id e) u)"
proof (cases "if_adapter u")
  case False
  then show ?thesis using assms by (intro istays) (auto simp: IE_HandleRelease_def)
next
  case True
  obtain ret h where d: "hdi_Detach H (cx_host (if_ctx u)) = (ret, h)" using prod.exhaust by blast
  have "detach_ok H \<Longrightarrow> ret = 0" using d by (metis detach_ok_def fst_conv)
  moreover have "IE_HandleRelease H msg (istate_id e) u = iresult ret (istate_id IS_IDLE)
      (u\<lparr>if_adapter := False, if_ctx := snd (ReleaseAdapterInner H (IMPLICIT_ENROLL_ADAPTER_TYPE H) ((if_ctx u)\<lparr>cx_host := h\<rparr>))\<rparr>)"
    using True d by (simp add: IE_HandleRelease_def ReleaseAdapterInner_def)
  ultimately show ?thesis using assms imovesI [of _ ret IS_IDLE _ H e] by (auto simp: ifields_ok_def simp del: istate_id.simps)
qed

text \<open>A handler that keeps the state and the adapter.\<close>

lemma istay_moves:
  "ifields_ok H e u \<Longrightarrow> h_next h = istate_id e \<Longrightarrow> if_adapter (h_self h) = if_adapter u \<Longrightarrow> \<exists>e'. imoves H e e' h"
  by (intro exI [of _ e]) (simp add: moves_def ifields_ok_def)

text \<open>A handler that keeps the adapter and goes on to a state past the initialisation when it succeeds.\<close>

lemma igo_moves:
  "ifields_ok H e u \<Longrightarrow> e \<noteq> IS_IDLE \<Longrightarrow> n \<noteq> IS_INITIALIZING \<Longrightarrow> h_next h = istate_id n \<Longrightarrow>
   if_adapter (h_self h) = if_adapter u \<Longrightarrow> \<exists>e'. imoves H e e' h"
  by (intro exI [of _ n]) (auto simp: moves_def ifields_ok_def)

lemma imoves_SetListener:
  "h_next (IE_HandleSetListener msg n u) = n \<and> if_adapter (h_self (IE_HandleSetListener msg n u)) = if_adapter u"
  by (auto simp: IE_HandleSetListener_def iresult_def split: wakeup_in.split option.split)

lemma imoves_SetParam:
  "h_next (IE_HandleSetParam H msg n u) = n \<and> if_adapter (h_self (IE_HandleSetParam H msg n u)) = if_adapter u"
  by (auto simp: IE_HandleSetParam_def iresult_def split: wakeup_in.split)

lemma imoves_Start:
  "h_next (IE_HandleStart msg n u) \<in> {n, istate_id IS_RECOGNIZING} \<and> if_adapter (h_self (IE_HandleStart msg n u)) = if_adapter u"
proof (cases "win_of msg")
  case (WStr p)
  obtain b v where "CheckParams p u = (b, v)" using prod.exhaust by blast
  then show ?thesis using WStr CheckParams_adapter [of p u b v] by (cases b) (simp_all add: IE_HandleStart_def iresult_def)
qed (simp_all add: IE_HandleStart_def iresult_def)

lemma imoves_Complete:
  "h_next (IE_HandleEnrollComplete msg n u) \<in> {n, istate_id IS_INITIALIZED} \<and>
   if_adapter (h_self (IE_HandleEnrollComplete msg n u)) = if_adapter u"
  by (auto simp: IE_HandleEnrollComplete_def iresult_def split: wakeup_in.split)

lemma imoves_Timeout: "\<exists>e'. imoves H e e' (IE_HandleRecognizingTimeout msg n u)"
  by (rule imovesI [where e' = IS_IDLE and r = 0]) (auto simp: IE_HandleRecognizingTimeout_def ifields_ok_def)

lemma ihandler_moves:
  assumes ok: "ifields_ok H e u" and h: "ihandlers H e m = Some h"
  shows "\<exists>e'. imoves H e e' (h msg (istate_id e) u)"
proof -
  consider "h = IE_HandleSetListener" | "e = IS_IDLE" "h = IE_HandleInit H" | "e = IS_INITIALIZED" "h = IE_HandleStart"
    | "h = IE_HandleSetParam H" | "e \<noteq> IS_IDLE" "h = IE_HandleRelease H" | "h = IE_HandleRecognizingTimeout"
    | "e = IS_RECOGNIZING" "h = IE_HandleEnrollComplete"
    using h by (cases e) (auto simp: ihandlers_def Let_def split: if_splits)
  then show ?thesis
  proof cases
    case 1
    then show ?thesis by (intro istay_moves [OF ok]) (simp_all add: imoves_SetListener)
  next
    case 2
    then show ?thesis using moves_HandleInit by blast
  next
    case 3
    then show ?thesis using imoves_Start [of msg "istate_id e" u] igo_moves [OF ok, of IS_RECOGNIZING] istay_moves [OF ok] by auto
  next
    case 4
    then show ?thesis by (intro istay_moves [OF ok]) (simp_all add: imoves_SetParam)
  next
    case 5
    then show ?thesis using moves_HandleRelease [OF ok] by blast
  next
    case 6
    then show ?thesis using imoves_Timeout by blast
  next
    case 7
    then show ?thesis using imoves_Complete [of msg "istate_id e" u] igo_moves [OF ok, of IS_INITIALIZED] istay_moves [OF ok] by auto
  qed
qed

interpretation iframe: table_engine istate_id "itable H" "ifields_ok H" IS_IDLE for H
proof
  show "e = e'" if "istate_id e = istate_id e'" for e e' using that by (cases e; cases e') simp_all
  show "\<exists>e'. imoves H e e' (h msg (istate_id e) u)" if "ifields_ok H e u" "sa_actions (itable H e) m = Some h" for e u m h msg
    using ihandler_moves that by simp
qed (auto simp: icfg_of_def ihandlers_def IE_HandleRecognizingTimeout_def iresult_def Let_def split: if_splits)

subsection \<open>Steps\<close>

lemma implicit_started: "implicit_start H x \<Longrightarrow> implicit_at H IS_IDLE x"
proof -
  assume "implicit_start H x"
  then obtain this c where x: "x = (implicit_new H (\<lambda>_. True) True this c, None)" by (auto simp: implicit_start_def)
  let ?s = "implicit_new H (\<lambda>_. True) True this c"
  have i: "ms_idle ?s" unfolding implicit_new_def
    using ms_idle_new by (rule fold_invariant) (rule ms_idle_configure)
  have t: "ms_states ?s k \<noteq> Some None" "ms_states ?s (istate_id e) = Some (Some (itable H e))" for k e
    by (simp add: implicit_tables) (cases e; simp add: implicit_tables)
  have "tm_status (ms_tm ?s) = TIMER_STATUS_STARTED \<and> ms_isInitSucc ?s \<and> ms_currState ?s = Some (istate_id IS_IDLE)"
    by (simp add: implicit_new_def IE_InitStates_def machine_eval timer_defs TimerMgr_def)
  then have "implicit_fit H IS_IDLE ?s" using i t by (intro machine_fit_start) (auto simp: ifields_ok_def)
  then show ?thesis by (simp add: x machine_at_def icfg_of_def)
qed

lemma IE_Handle_at:
  "implicit_at H e (s, p) \<Longrightarrow> IE_Handle now msg s = Ret (r, t) \<Longrightarrow> \<exists>e'. implicit_at H e' (t, p)"
  using iframe.client_at [of H e s p now msg r t]
  by (simp add: machine_at_def IE_Handle_def machine_fit_def IsStatesInitSucc_def)

lemma ifields_at:
  "implicit_at H e (s, p) \<Longrightarrow> (\<And>u. if_adapter (f u) = if_adapter u) \<Longrightarrow> implicit_at H e (on_fields f s, p)"
  unfolding on_fields_def by (rule machine_at_self) (simp_all add: machine_at_def machine_fit_def ifields_ok_def)

definition implicit_inv :: "'a hdi \<Rightarrow> 'a implicit_sys \<Rightarrow> bool" where
  "implicit_inv H x \<longleftrightarrow> (\<exists>e. implicit_at H e x)"

lemma implicit_invI: "implicit_at H e x \<Longrightarrow> implicit_inv H x"
  by (auto simp: implicit_inv_def)

lemma IE_Handle_inv: "implicit_inv H (s, p) \<Longrightarrow> IE_Handle now msg s = Ret (r, t) \<Longrightarrow> implicit_inv H (t, p)"
  using IE_Handle_at unfolding implicit_inv_def by blast

lemma ifields_inv: "implicit_inv H (s, p) \<Longrightarrow> (\<And>u. if_adapter (f u) = if_adapter u) \<Longrightarrow> implicit_inv H (on_fields f s, p)"
  using ifields_at unfolding implicit_inv_def by blast

lemma OnEnrollEvent_inv: "implicit_inv H (s, p) \<Longrightarrow> implicit_inv H (IE_OnEnrollEvent ev s, p)"
  by (simp add: IE_OnEnrollEvent_def ifields_inv)

lemma OnEnrollComplete_inv:
  assumes "implicit_inv H (s, p)" "IE_OnEnrollComplete H now r i s = Ret t"
  shows "implicit_inv H (t, p)"
proof -
  obtain q u where "IE_Handle now (wmsg EV_RECOGNIZE_COMPLETE
              (WEvent \<lparr>ee_msgId = MSG_ENROLL_COMPLETE, ee_result = r, ee_info = i\<rparr>) None) s = Ret (q, u)"
    and t: "t = (if if_stage (ms_self u) = ''verify''
          then let t1 = on_fields (ie_ctx (emit (SetEnrollResult INTELL_VOICE_IMPLICIT_ENROLL (r = 0)))) u
               in if r \<noteq> 0 then t1 else on_fields (save_implicit H) t1
          else u)"
    using assms(2) by (auto simp: IE_OnEnrollComplete_def obind_eq_Ret)
  from IE_Handle_inv [OF assms(1) this(1)] show ?thesis by (simp add: t Let_def ifields_inv)
qed

lemma IE_run_inv:
  assumes "implicit_inv H (s, p)" "IE_run H now s = Some (Ret t)"
  shows "implicit_inv H (t, p)"
proof -
  have d: "implicit_inv H (on_fields (\<lambda>u. u\<lparr>if_tasks := ts\<rparr>) s, p)" for ts using assms(1) by (rule ifields_inv) simp
  show ?thesis using assms(2) d
    by (auto simp: IE_run_def intro: ifields_inv OnEnrollComplete_inv split: if_splits list.splits implicit_task.splits)
qed

lemma SetParameter_inv: "implicit_inv H (s, p) \<Longrightarrow> IE_SetParameter now kv s = Some (Ret t) \<Longrightarrow> implicit_inv H (t, p)"
  by (auto simp: IE_SetParameter_def obind_eq_Ret intro: IE_Handle_inv split: option.splits if_splits)

interpretation implicit: invariant_system "implicit_start H" "implicit_step H" "implicit_inv H" for H
proof (unfold_locales, goal_cases)
  case (1 x)
  from implicit_started [OF this] show ?case by (rule implicit_invI)
next
  case (2 x y)
  from 2(2) show ?case
  proof (cases rule: implicit_step.cases)
    case (i_init now s b t p)
    then show ?thesis using 2(1) by (auto simp: IE_Init_def obind_eq_Ret intro: IE_Handle_inv)
  next
    case (i_callback now cb s t p)
    then show ?thesis using 2(1) by (auto simp: IE_SetCallback_def obind_eq_Ret intro: IE_Handle_inv split: if_splits)
  next
    case (i_param now kv s t p)
    then show ?thesis using 2(1) SetParameter_inv by blast
  next
    case (i_detach now s r t p)
    then show ?thesis using 2(1) by (auto simp: IE_Detach_def intro: IE_Handle_inv split: if_splits)
  next
    case (i_event s p ev)
    then show ?thesis using 2(1) OnEnrollEvent_inv by blast
  next
    case (i_run now s t p)
    then show ?thesis using 2(1) IE_run_inv by blast
  next
    case i_world
    then show ?thesis using 2(1) by (simp add: ifields_inv)
  next
    case (i_take now s ev ob tm)
    then show ?thesis using iframe.take_at [of H _ s now ev ob tm] 2(1) unfolding implicit_inv_def by auto
  next
    case (i_deliver now ev s t)
    then show ?thesis using iframe.deliver_at [of H _ s ev now t] 2(1) unfolding implicit_inv_def by blast
  qed
qed

section \<open>Properties\<close>

lemma implicit_reach_at:
  assumes "reach (implicit_start H) (implicit_step H) (s, p)" "ms_currState s = Some (istate_id e)"
  shows "implicit_at H e (s, p)" "implicit_fit H e s" "IsStatesInitSucc s" "CurrState s = istate_id e"
proof -
  obtain n where "implicit_at H n (s, p)" using implicit.reach_inv [OF assms(1)] by (auto simp: implicit_inv_def)
  then show at: "implicit_at H e (s, p)" using iframe.at_unique assms(2) by fastforce
  then show "implicit_fit H e s" "IsStatesInitSucc s" by (simp_all add: machine_at_def machine_fit_def IsStatesInitSucc_def)
  show "CurrState s = istate_id e" using assms(2) by (simp add: CurrState_def)
qed

text \<open>
  C19. However the client's calls, the driver's events, the engine's own thread and the timer thread interleave, the engine is
  idle, initialised or recognizing (the state \<open>INITIALIZING\<close> of the tables is never entered). While it is recognizing, its
  five-minute timeout is the one timer of the engine or has been taken by the timer thread and is about to be delivered; and
  where the driver's detach succeeds, an engine that is not idle has its adapter.
\<close>

theorem implicit_session_bounded:
  assumes "reach (implicit_start H) (implicit_step H) (s, p)"
  shows "\<exists>e. CurrState s = istate_id e \<and> e \<in> {IS_IDLE, IS_INITIALIZED, IS_RECOGNIZING} \<and>
    (e = IS_RECOGNIZING \<longrightarrow>
       (\<exists>x. ms_queue s = [x] \<and> ti_type x = wevent_id EV_RECOGNIZING_TIMEOUT \<and> ti_observer x = Some (ms_this s)) \<or>
       (\<exists>ev. p = Some ev \<and> te_type ev = wevent_id EV_RECOGNIZING_TIMEOUT)) \<and>
    (e \<noteq> IS_IDLE \<longrightarrow> (\<forall>h. fst (hdi_Detach H h) = 0) \<longrightarrow> if_adapter (ms_self s))"
proof -
  obtain e where at: "implicit_at H e (s, p)" using implicit.reach_inv [OF assms] by (auto simp: implicit_inv_def)
  then have "CurrState s = istate_id e" "ifields_ok H e (ms_self s)"
    by (simp_all add: machine_at_def machine_fit_def CurrState_def)
  moreover have "(\<exists>x. ms_queue s = [x] \<and> ti_type x = wevent_id EV_RECOGNIZING_TIMEOUT \<and> ti_observer x = Some (ms_this s)) \<or>
       (\<exists>ev. p = Some ev \<and> te_type ev = wevent_id EV_RECOGNIZING_TIMEOUT)" if "e = IS_RECOGNIZING"
    using iframe.timer_shape [OF at] that by (simp add: icfg_of_def IE_RECOGNIZING_TIMEOUT_US_def)
  ultimately show ?thesis by (intro exI [of _ e], cases e) (auto simp: ifields_ok_def detach_ok_def)
qed

lemma icall:
  assumes fit: "implicit_fit H e s" and h: "ihandlers H e (msgId msg) = Some h" and r: "h msg (istate_id e) (ms_self s) = iresult 0 (istate_id e') v"
  shows "\<exists>t. IE_Handle now msg s = Ret (0, t) \<and> ms_self t = v \<and> implicit_fit H e' t"
  using iframe.call [OF fit, of msg h e' now] h r fit
  by (auto simp: iresult_def IE_Handle_def IsStatesInitSucc_def machine_fit_def)

lemma kv_proc_model: "cx_kv (proc_model H a k x) = cx_kv x"
  by (auto simp: proc_model_def ReadDspModel_def ProcDspModel_def emit_def split: prod.split option.split)

lemma answers_proc_model: "cx_answers (proc_model H a k x) = cx_answers x"
  by (auto simp: proc_model_def ReadDspModel_def ProcDspModel_def emit_def split: prod.split option.split)

definition saved_keys :: "string list" where
  "saved_keys = [''WakeupVersion'', ''WakeupEngineBundleName'', ''WakeupEngineAbilityName'', ''WakeupPhrase'']"

lemma kv_save_implicit:
  assumes "cx_kv (if_ctx u) = Some m" "list_all (an_put (cx_answers (if_ctx u))) saved_keys"
  shows "cx_kv (if_ctx (save_implicit H u)) = Some (
    (let v = GetWakeupVesion (an_versionFile (cx_answers (if_ctx u))) in if v = '''' then m else m(''WakeupVersion'' \<mapsto> v))
      (''WakeupEngineBundleName'' \<mapsto> if_bundleName u, ''WakeupEngineAbilityName'' \<mapsto> if_abilityName u, ''WakeupPhrase'' \<mapsto> if_wakeupPhrase u))"
  using assms by (simp add: save_implicit_def ie_ctx_def SetStringKVPair_def SaveWakeupVesion_def saved_keys_def Let_def kv_proc_model answers_proc_model)

lemma IL_Notify_frames:
  "if_stage (IL_Notify ev u) = if_stage u" "if_bundleName (IL_Notify ev u) = if_bundleName u"
  "if_abilityName (IL_Notify ev u) = if_abilityName u" "if_wakeupPhrase (IL_Notify ev u) = if_wakeupPhrase u"
  "cx_kv (if_ctx (IL_Notify ev u)) = cx_kv (if_ctx u)" "cx_answers (if_ctx (IL_Notify ev u)) = cx_answers (if_ctx u)"
  "if_tasks (IL_Notify ev u) = if_tasks u"
  by (auto simp: IL_Notify_def IL_BackupCallBackEvent_def ie_ctx_def emit_def Let_def split: option.split)

text \<open>
  A completion the engine's thread takes while the engine is recognizing always returns and ends the session. The
  history store, which takes what is put, changes only when the stage is \<open>verify\<close> and the driver reports success: it then holds the caller's bundle and
  ability, the phrase, and the version of the installed model where its file names one, and every other key is as before.
\<close>

theorem implicit_verify_saved:
  assumes r: "reach (implicit_start H) (implicit_step H) (s, p)" and c: "ms_currState s = Some (istate_id IS_RECOGNIZING)"
    and k: "if_thread (ms_self s)" "if_tasks (ms_self s) = ImplicitComplete res info # ts" "cx_kv (if_ctx (ms_self s)) = Some m"
    and put: "list_all (an_put (cx_answers (if_ctx (ms_self s)))) saved_keys"
  shows "\<exists>t. IE_run H now s = Some (Ret t) \<and> CurrState t = istate_id IS_INITIALIZED \<and> if_tasks (ms_self t) = ts \<and>
    (let u = ms_self s; v = GetWakeupVesion (an_versionFile (cx_answers (if_ctx u)))
     in cx_kv (if_ctx (ms_self t)) =
          (if if_stage u = ''verify'' \<and> res = 0
           then Some ((if v = '''' then m else m(''WakeupVersion'' \<mapsto> v))
              (''WakeupEngineBundleName'' \<mapsto> if_bundleName u, ''WakeupEngineAbilityName'' \<mapsto> if_abilityName u,
               ''WakeupPhrase'' \<mapsto> if_wakeupPhrase u))
           else Some m))"
proof -
  let ?ev = "\<lparr>ee_msgId = MSG_ENROLL_COMPLETE, ee_result = res, ee_info = info\<rparr>"
  let ?m = "wmsg EV_RECOGNIZE_COMPLETE (WEvent ?ev) None"
  let ?u = "(ms_self s)\<lparr>if_tasks := ts\<rparr>"
  define s' where "s' = on_fields (\<lambda>u. u\<lparr>if_tasks := ts\<rparr>) s"
  have fit: "implicit_fit H IS_RECOGNIZING s'"
    using ifields_at [OF implicit_reach_at(1) [OF r c], of "\<lambda>u. u\<lparr>if_tasks := ts\<rparr>"] by (simp add: machine_at_def s'_def)
  have h: "ihandlers H IS_RECOGNIZING (msgId ?m) = Some IE_HandleEnrollComplete" by (simp add: ihandlers_def wmsg_def)
  have "IE_HandleEnrollComplete ?m (istate_id IS_RECOGNIZING) (ms_self s') = iresult 0 (istate_id IS_INITIALIZED) (IL_Notify ?ev ?u)"
    by (simp add: IE_HandleEnrollComplete_def win_of_def wmsg_def s'_def on_fields_def)
  from icall [OF fit h this, of now] obtain t where t: "IE_Handle now ?m s' = Ret (0, t)" "ms_self t = IL_Notify ?ev ?u"
    "implicit_fit H IS_INITIALIZED t" by blast
  have st: "CurrState t = istate_id IS_INITIALIZED" using t(3) by (simp add: machine_fit_def CurrState_def)

  let ?t1 = "on_fields (ie_ctx (emit (SetEnrollResult INTELL_VOICE_IMPLICIT_ENROLL (res = 0)))) t"
  have run: "IE_run H now s = Some (Ret (if if_stage (ms_self s) = ''verify''
      then if res \<noteq> 0 then ?t1 else on_fields (save_implicit H) ?t1 else t))"
    using k t(1,2) by (simp add: IE_run_def IE_OnEnrollComplete_def s'_def [symmetric] IL_Notify_frames Let_def)
  have cur: "CurrState (on_fields f q) = CurrState q" "ms_self (on_fields f q) = f (ms_self q)" for f and q :: "'a implicit_engine"
    by (simp_all add: on_fields_def CurrState_def)
  have tk: "if_tasks (ie_ctx f u) = if_tasks u" "if_tasks (save_implicit H u) = if_tasks u" for f and u :: "'a ImplicitEnrollEngine"
    by (simp_all add: ie_ctx_def save_implicit_def)
  have f: "if_bundleName (ie_ctx g u) = if_bundleName u" "if_abilityName (ie_ctx g u) = if_abilityName u"
    "if_wakeupPhrase (ie_ctx g u) = if_wakeupPhrase u" "cx_kv (if_ctx (ie_ctx (emit c) u)) = cx_kv (if_ctx u)"
    "cx_answers (if_ctx (ie_ctx (emit c) u)) = cx_answers (if_ctx u)" "ee_result \<lparr>ee_msgId = i, ee_result = r, ee_info = n\<rparr> = r"
    for g c i r n and u :: "'a ImplicitEnrollEngine"
    by (simp_all add: ie_ctx_def emit_def)
  have "cx_kv (if_ctx (ms_self ?t1)) = Some m" "list_all (an_put (cx_answers (if_ctx (ms_self ?t1)))) saved_keys"
    using k(3) put t(2) by (simp_all add: cur f IL_Notify_frames)
  note kv = kv_save_implicit [OF this, of H]
  show ?thesis unfolding run using k(3) kv by (cases "res = 0") (simp_all add: cur st tk t(2) f IL_Notify_frames Let_def)
qed

section \<open>A run\<close>

definition idemo_ctx :: "unit engine_ctx" where
  "idemo_ctx = demo_ctx\<lparr>cx_answers := demo_answers\<lparr>an_json := (\<lambda>_. Some [''stage'' \<mapsto> JString ''verify'', ''bundle_name'' \<mapsto> JString ''b'',
     ''ability_name'' \<mapsto> JString ''a'', ''start_time'' \<mapsto> JInt 1, ''end_time'' \<mapsto> JInt 2])\<rparr>\<rparr>"

definition idemo_init :: "unit implicit_engine" where
  "idemo_init = implicit_new demo_hdi (\<lambda>_. True) True 7 idemo_ctx"

abbreviation init_done :: engine_event where
  "init_done \<equiv> \<lparr>ee_msgId = MSG_INIT_DONE, ee_result = 0, ee_info = ''''\<rparr>"

abbreviation enrol_done :: engine_event where
  "enrol_done \<equiv> \<lparr>ee_msgId = MSG_ENROLL_COMPLETE, ee_result = 0, ee_info = ''''\<rparr>"

definition idemo_run :: "unit implicit_engine option" where
  "idemo_run = (case IE_Init 0 idemo_init of
      Ret (_, s1) \<Rightarrow>
        (case IE_SetParameter 0 ''start_enroll={}'' (IE_OnEnrollEvent init_done s1) of
           Some (Ret s2) \<Rightarrow>
             (case IE_run demo_hdi 0 s2 of
                Some (Ret s3) \<Rightarrow> Some (IE_OnEnrollEvent enrol_done s3)
              | _ \<Rightarrow> None)
         | _ \<Rightarrow> None)
    | _ \<Rightarrow> None)"

lemma idemo_reach:
  assumes "idemo_run = Some s"
  shows "reach (implicit_start demo_hdi) (implicit_step demo_hdi) (s, None)"
proof -
  note st = reach_step [where step = "implicit_step demo_hdi"]
  have i: "implicit_start demo_hdi (idemo_init, None)" by (auto simp: implicit_start_def idemo_init_def)
  obtain b s1 s2 s3 where 1: "IE_Init 0 idemo_init = Ret (b, s1)"
    and 2: "IE_SetParameter 0 ''start_enroll={}'' (IE_OnEnrollEvent init_done s1) = Some (Ret s2)"
    and 3: "IE_run demo_hdi 0 s2 = Some (Ret s3)" "s = IE_OnEnrollEvent enrol_done s3"
    using assms by (auto simp: idemo_run_def split: sum.splits option.splits prod.splits)
  show ?thesis unfolding 3(2)
    by (rule st [OF st [OF st [OF st [OF st [OF reach_start [of "implicit_start demo_hdi", OF i] i_init [OF 1]] i_event]
        i_param [OF 2]] i_run [OF 3(1)]] i_event])
qed

declare Split_loop.simps [code]

lemma idemo_state:
  "case idemo_run of None \<Rightarrow> False
   | Some s \<Rightarrow> CurrState s = 3 \<and> ms_currState s = Some 3 \<and> if_thread (ms_self s) \<and> if_tasks (ms_self s) = [ImplicitComplete 0 '''']"
  "case idemo_run of None \<Rightarrow> False
   | Some s \<Rightarrow> if_stage (ms_self s) = ''verify'' \<and> if_bundleName (ms_self s) = ''b'' \<and>
     (case cx_kv (if_ctx (ms_self s)) of None \<Rightarrow> False | _ \<Rightarrow> list_all (an_put (cx_answers (if_ctx (ms_self s)))) saved_keys)"
  by code_simp+

lemma implicit_session_bounded_witness:
  "\<exists>s. idemo_run = Some s \<and> CurrState s = istate_id IS_RECOGNIZING \<and> length (ms_queue s) = 1 \<and> if_adapter (ms_self s)"
proof -
  obtain s where s: "idemo_run = Some s" "CurrState s = istate_id IS_RECOGNIZING" using idemo_state(1) by (auto split: option.splits)
  obtain e where e: "CurrState s = istate_id e" "e = IS_RECOGNIZING \<longrightarrow>
      (\<exists>x. ms_queue s = [x] \<and> ti_type x = wevent_id EV_RECOGNIZING_TIMEOUT \<and> ti_observer x = Some (ms_this s))"
    "e \<noteq> IS_IDLE \<longrightarrow> (\<forall>h. fst (hdi_Detach demo_hdi h) = 0) \<longrightarrow> if_adapter (ms_self s)"
    using implicit_session_bounded [OF idemo_reach [OF s(1)]] by auto
  have "e = IS_RECOGNIZING" using e(1) s(2) by (cases e) simp_all
  then show ?thesis using e s by (auto simp: demo_hdi_def)
qed

lemma implicit_verify_saved_witness:
  "\<exists>s t. idemo_run = Some s \<and> IE_run demo_hdi 5 s = Some (Ret t) \<and> GetStringKVPair ''WakeupEngineBundleName'' (if_ctx (ms_self t)) = ''b''"
proof -
  obtain s where s: "idemo_run = Some s" "ms_currState s = Some (istate_id IS_RECOGNIZING)" "if_thread (ms_self s)"
    "if_tasks (ms_self s) = [ImplicitComplete 0 '''']" using idemo_state(1) by (auto split: option.splits)
  moreover obtain m where "cx_kv (if_ctx (ms_self s)) = Some m" "if_stage (ms_self s) = ''verify''" "if_bundleName (ms_self s) = ''b''"
    "list_all (an_put (cx_answers (if_ctx (ms_self s)))) saved_keys" using idemo_state(2) unfolding s(1) by (auto split: option.splits)
  ultimately show ?thesis using implicit_verify_saved [OF idemo_reach [OF s(1)], of 0 "''''" "[]" m 5]
    by (auto simp: Let_def GetStringKVPair_def)
qed

section \<open>Observations\<close>

text \<open>The thread is started only by a successful initialisation, and \<open>Detach\<close> waits for the thread: after the driver reports
  that it failed to initialise, the engine asks to be released and the release cannot return.\<close>

lemma failed_init_release_waits:
  assumes "\<not> if_thread (ms_self s)" "ee_msgId ev = MSG_INIT_DONE" "ee_result ev \<noteq> 0"
  shows "cx_calls (if_ctx (ms_self (IE_OnEnrollEvent ev s))) = cx_calls (if_ctx (ms_self s)) @ [ReleaseImplicitEnrollEngine] \<and>
    IE_Detach now (IE_OnEnrollEvent ev s) = None"
  using assms by (simp add: IE_OnEnrollEvent_def on_fields_def ie_ctx_def emit_def IE_Detach_def sync_ready_def)

text \<open>The timeout goes to the idle state with the adapter, and that state has no handler for the release that follows.\<close>

lemma timeout_keeps_adapter:
  assumes r: "reach (implicit_start H) (implicit_step H) (s, p)" and c: "ms_currState s = Some (istate_id IS_RECOGNIZING)"
    and a: "if_adapter (ms_self s)" and e: "te_type ev = wevent_id EV_RECOGNIZING_TIMEOUT"
  shows "\<exists>t. OnTimerEvent now ev s = Ret t \<and> CurrState t = istate_id IS_IDLE \<and> if_adapter (ms_self t) \<and>
    (\<forall>n. IE_Handle n (wmsg EV_RELEASE WNull None) t = Ret (NO_PROCESS_RET, t))"
proof -
  let ?m = "\<lparr>msgId = te_type ev, inMsg = TimerMsg ev\<rparr> :: wakeup_msg StateMsg"
  have h: "ihandlers H IS_RECOGNIZING (msgId ?m) = Some IE_HandleRecognizingTimeout" by (simp add: ihandlers_def e Let_def)
  have v: "IE_HandleRecognizingTimeout ?m (istate_id IS_RECOGNIZING) (ms_self s) =
      iresult 0 (istate_id IS_IDLE) (ie_ctx (emit ReleaseImplicitEnrollEngine) (ms_self s))" by (simp add: IE_HandleRecognizingTimeout_def)
  obtain t where t: "HandleMsg now ?m s = Ret (0, t)" "ms_self t = ie_ctx (emit ReleaseImplicitEnrollEngine) (ms_self s)"
    "implicit_fit H IS_IDLE t"
    using icall [OF implicit_reach_at(2) [OF r c] h v, of now] implicit_reach_at(3) [OF r c] by (auto simp: IE_Handle_def)
  obtain i where i: "ms_states t (istate_id IS_IDLE) = Some (Some ((itable H IS_IDLE)\<lparr>sa_timerId := i\<rparr>))"
    "ms_currState t = Some (istate_id IS_IDLE)" "IsStatesInitSucc t"
    using t(3) unfolding machine_fit_def tables_ok_def IsStatesInitSucc_def by blast
  have "IE_Handle n (wmsg EV_RELEASE WNull None) t = Ret (NO_PROCESS_RET, t)" for n
    using i by (simp add: IE_Handle_def HandleMsg_def SA_Handle_def wmsg_def ihandlers_def NO_PROCESS_RET_def)
  then show ?thesis using t i a by (auto simp: OnTimerEvent_def CurrState_def)
qed

text \<open>A result kept while no callback was set is given to every callback that is set later.\<close>

lemma kept_result_repeats:
  assumes "if_historyEvent u = Some ev"
  shows "cx_calls (if_ctx (IL_SetCallback (Some d) (IL_SetCallback (Some c) u))) =
    cx_calls (if_ctx u) @ [UpdateComplete c (ee_result ev), UpdateComplete d (ee_result ev)]"
  using assms by (simp add: IL_SetCallback_def ie_ctx_def emit_def)

end
