(* ===== verification/Service_Manager.thy ===== *)
theory Service_Manager
  imports Engine_Manager Trigger_Service
begin

text \<open>
  The service manager, \<open>services/intell_voice_service/server/sa/intell_voice_service_manager.cpp\<close>: it joins the trigger
  manager and the engine manager, follows the switches of the settings database, and runs every change on one
  thread. The class is a template over the trigger manager \<open>T\<close>, here a record of the operations it calls with the type
  \<open>'t\<close> of its state; \<open>Service_Detection\<close> gives the record by the operations of \<open>Trigger_Service\<close>. The engine manager is
  the one of \<open>Engine_Manager\<close> (builds with \<open>ENGINE_ENABLE\<close>, \<open>TRIGGER_ENABLE\<close> and \<open>USE_FFRT\<close>, without
  \<open>ONLY_FIRST_STAGE\<close>). A task of the thread is one step; the switches and files do not change within it.
\<close>

section \<open>Data\<close>

record 't trigger_ops =
  tr_StartDetection :: "int \<Rightarrow> 't \<Rightarrow> int \<times> 't"
  tr_StopDetection :: "int \<Rightarrow> 't \<Rightarrow> 't"
  tr_CreateDetector :: "int \<Rightarrow> 't \<Rightarrow> 't"
  tr_ReleaseTriggerDetector :: "int \<Rightarrow> 't \<Rightarrow> 't"
  tr_IsModelExist :: "int \<Rightarrow> 't \<Rightarrow> bool"
  tr_UpdateModel :: "bytes \<Rightarrow> int \<Rightarrow> TriggerModelType \<Rightarrow> 't \<Rightarrow> 't"
  tr_DeleteModel :: "int \<Rightarrow> 't \<Rightarrow> 't"
  tr_SetParameter :: "string \<Rightarrow> string \<Rightarrow> 't \<Rightarrow> int \<times> 't"
  tr_GetParameter :: "string \<Rightarrow> 't \<Rightarrow> string \<times> 't"
  tr_ClearConcurrentControlList :: "bool \<Rightarrow> bool \<Rightarrow> 't \<Rightarrow> 't"

text \<open>What is fixed for a run: the driver, the classes of the other engines, the trigger manager, the device of the
  wake-up statistics, and whether recording and wake-up may run together.\<close>

record ('a, 'w, 't) service_env =
  sx_hdi :: "'a hdi"
  sx_class :: "('a, 'w) engine_class"
  sx_trigger :: "'t trigger_ops"
  sx_device :: wakeup_device
  sx_concurrent :: bool

text \<open>
  \<open>sm_db\<close> is the answer of the settings database for a key: \<open>None\<close> is no result set, \<open>Some None\<close> no row. \<open>sm_taskHandle\<close>
  holds the keys with a handle, \<open>sm_ffrt\<close> the tasks of the queue with their key and whether they have begun.
  \<open>sm_unloads\<close> counts the requests to unload the service.
\<close>

record ('a, 'w, 't) ServiceManager =
  sm_trigger :: 't
  sm_engines :: "('a, 'w) EngineManager"
  sm_switchProvider :: bool
  sm_db :: "string \<Rightarrow> string option option"
  sm_isStarted :: "int \<rightharpoonup> bool"
  sm_taskHandle :: "int set"
  sm_ffrt :: "(int \<times> bool) list"
  sm_serviceUnloading :: bool
  sm_unloads :: nat
  sm_notifyPowerModeChange :: bool
  sm_recordStart :: int
  sm_notifyRecordStartInfoChange :: bool
  sm_delayUnloadWaiting :: bool
  sm_lastCallTime :: int

definition service_new :: "'t \<Rightarrow> ('a, 'w) EngineManager \<Rightarrow> (string \<Rightarrow> string option option) \<Rightarrow> ('a, 'w, 't) ServiceManager" where
  "service_new t m db = \<lparr>sm_trigger = t, sm_engines = m, sm_switchProvider = False, sm_db = db, sm_isStarted = Map.empty,
     sm_taskHandle = {}, sm_ffrt = [], sm_serviceUnloading = False, sm_unloads = 0, sm_notifyPowerModeChange = False,
     sm_recordStart = -1, sm_notifyRecordStartInfoChange = False, sm_delayUnloadWaiting = False, sm_lastCallTime = 0\<rparr>"

definition WAKEUP_KEY :: string where
  "WAKEUP_KEY = ''intell_voice_trigger_enabled''"

definition WHISPER_KEY :: string where
  "WHISPER_KEY = ''intell_voice_trigger_whisper''"

definition SHORTWORD_KEY :: string where
  "SHORTWORD_KEY = ''intell_voice_trigger_shortword''"

definition DUALMIC_KEY :: string where
  "DUALMIC_KEY = ''dualmic_intell_voice_trigger_enabled''"

definition WHISPER_VPR_CONFIG_PATH :: string where
  "WHISPER_VPR_CONFIG_PATH = ''/sys_prod/variant/region_comm/china/etc/intellvoice/wakeup/vpr/whisper/vpr_domainDict_04.dat''"

definition WAIT_SWITCH_TIME :: int where
  "WAIT_SWITCH_TIME = 2000"

definition TRIGGER_PARAMS :: "string list" where
  "TRIGGER_PARAMS = [''skipIntensityCheck'', ''skipTimingCheck'', ''skipTimingAccumulate'', ''sndIntensityThres'',
     ''dualMicBudget'', ''dualMicSuspen'', ''closeCountThres'', ''openCountThres'']"

section \<open>Surroundings\<close>

definition sm_ctx :: "('a, 'w, 't) ServiceManager \<Rightarrow> 'a engine_ctx" where
  "sm_ctx s = em_ctx (sm_engines s)"

definition on_ctx_s :: "('a engine_ctx \<Rightarrow> 'a engine_ctx) \<Rightarrow> ('a, 'w, 't) ServiceManager \<Rightarrow> ('a, 'w, 't) ServiceManager" where
  "on_ctx_s f s = s\<lparr>sm_engines := (sm_engines s)\<lparr>em_ctx := f (sm_ctx s)\<rparr>\<rparr>"

definition IsFileExist :: "string \<Rightarrow> ('a, 'w, 't) ServiceManager \<Rightarrow> bool" where
  "IsFileExist path s \<longleftrightarrow> an_file (cx_answers (sm_ctx s)) path \<noteq> None"

definition GetSupportAbility :: "string \<Rightarrow> ('a, 'w, 't) ServiceManager \<Rightarrow> bool" where
  "GetSupportAbility ability s = an_support (cx_answers (sm_ctx s)) ability"

fun asString :: "json_value \<Rightarrow> string" where
  "asString (JString v) = v"
| "asString (JInt i) = to_string i"
| "asString (JBool b) = (if b then ''true'' else ''false'')"
| "asString JNull = ''''"
| "asString (JReal _ _ txt) = txt"
| "asString JOther = ''''"

definition IsImplicitEnroll :: "string \<Rightarrow> ('a, 'w, 't) ServiceManager \<Rightarrow> bool" where
  "IsImplicitEnroll param s =
     (case an_json (cx_answers (sm_ctx s)) param of
        None \<Rightarrow> False
      | Some root \<Rightarrow> (case root ''implicit_enroll'' of None \<Rightarrow> False | Some v \<Rightarrow> asString v = ''true''))"

definition report_status :: "('a, 'w, 't) service_env \<Rightarrow> SwitchState \<Rightarrow> SwitchReason \<Rightarrow> ('a, 'w, 't) ServiceManager \<Rightarrow> ('a, 'w, 't) ServiceManager" where
  "report_status X st reason s =
     on_ctx_s (\<lambda>x. x\<lparr>cx_track := snd (reportWakeupStatus (sx_device X) WAKEUP_SWITCH_STAGE_SA st reason (cx_track x))\<rparr>) s"

subsection \<open>Posting to the thread\<close>

definition sm_post :: "service_task \<Rightarrow> ('a, 'w, 't) ServiceManager \<Rightarrow> ('a, 'w, 't) ServiceManager" where
  "sm_post t s = s\<lparr>sm_engines := post t (sm_engines s)\<rparr>"

text \<open>Room for a task: a caller that posts with \<open>isWait\<close> goes on only then.\<close>

definition room :: "('a, 'w, 't) ServiceManager \<Rightarrow> bool" where
  "room s \<longleftrightarrow> length (em_tasks (sm_engines s)) < MAX_TASK_NUM"

definition HandleCloseWakeupSource :: "bool \<Rightarrow> ('a, 'w, 't) ServiceManager \<Rightarrow> ('a, 'w, 't) ServiceManager" where
  "HandleCloseWakeupSource isNeedStop s = sm_post (TaskCloseWakeupSource isNeedStop) s"

definition ReleaseImplicitEnrollEngine_s :: "('a, 'w, 't) ServiceManager \<Rightarrow> ('a, 'w, 't) ServiceManager" where
  "ReleaseImplicitEnrollEngine_s s = sm_post (TaskReleaseEngine INTELL_VOICE_IMPLICIT_ENROLL) s"

subsection \<open>The two managers\<close>

definition on_trigger :: "('t \<Rightarrow> 't) \<Rightarrow> ('a, 'w, 't) ServiceManager \<Rightarrow> ('a, 'w, 't) ServiceManager" where
  "on_trigger f s = s\<lparr>sm_trigger := f (sm_trigger s)\<rparr>"

definition T_SetParameter ::
  "('a, 'w, 't) service_env \<Rightarrow> string \<Rightarrow> string \<Rightarrow> ('a, 'w, 't) ServiceManager \<Rightarrow> ('a, 'w, 't) ServiceManager" where
  "T_SetParameter X k v s = on_trigger (\<lambda>t. snd (tr_SetParameter (sx_trigger X) k v t)) s"

text \<open>
  The callbacks registered for the engines: what an engine asks of the trigger side and of the thread takes
  effect when its operation returns.
\<close>

definition engine_callback ::
  "('a, 'w, 't) service_env \<Rightarrow> engine_call \<Rightarrow> ('a, 'w, 't) ServiceManager \<Rightarrow> ('a, 'w, 't) ServiceManager" where
  "engine_callback X c s =
     (case c of
        TriggerSetParameter k v \<Rightarrow> T_SetParameter X k v s
      | TriggerUpdateModel b u ty \<Rightarrow> on_trigger (tr_UpdateModel (sx_trigger X) b u ty) s
      | CloseWakeupSource \<Rightarrow> HandleCloseWakeupSource True s
      | ReleaseImplicitEnrollEngine \<Rightarrow> ReleaseImplicitEnrollEngine_s s
      | _ \<Rightarrow> s)"

definition set_engines ::
  "('a, 'w, 't) service_env \<Rightarrow> ('a, 'w) EngineManager \<Rightarrow> ('a, 'w, 't) ServiceManager \<Rightarrow> ('a, 'w, 't) ServiceManager" where
  "set_engines X m s =
     fold (engine_callback X) (drop (length (cx_calls (sm_ctx s))) (cx_calls (em_ctx m))) (s\<lparr>sm_engines := m\<rparr>)"

definition any_engine :: "('a, 'w, 't) ServiceManager \<Rightarrow> bool" where
  "any_engine s = AnyEngineExist [INTELL_VOICE_ENROLL, INTELL_VOICE_UPDATE] (sm_engines s)"

section \<open>Switches\<close>

definition SP_QuerySwitchStatus :: "(string \<Rightarrow> string option option) \<Rightarrow> string \<Rightarrow> bool" where
  "SP_QuerySwitchStatus db key = (case db key of Some (Some v) \<Rightarrow> v = ''1'' | _ \<Rightarrow> False)"

definition SP_IsSwitchError :: "(string \<Rightarrow> string option option) \<Rightarrow> string \<Rightarrow> bool" where
  "SP_IsSwitchError db key = (case db key of Some (Some _) \<Rightarrow> False | _ \<Rightarrow> True)"

definition IsSwitchKeyValid :: "string \<Rightarrow> bool" where
  "IsSwitchKeyValid key \<longleftrightarrow> key = WAKEUP_KEY \<or> key = WHISPER_KEY \<or> key = SHORTWORD_KEY \<or> key = DUALMIC_KEY"

definition QuerySwitchStatus :: "string \<Rightarrow> ('a, 'w, 't) ServiceManager \<Rightarrow> bool" where
  "QuerySwitchStatus key s =
     (if \<not> IsSwitchKeyValid key then False
      else if \<not> sm_switchProvider s then False
      else SP_QuerySwitchStatus (sm_db s) key)"

definition IsSwitchError :: "string \<Rightarrow> ('a, 'w, 't) ServiceManager \<Rightarrow> bool" where
  "IsSwitchError key s = (if \<not> sm_switchProvider s then True else SP_IsSwitchError (sm_db s) key)"

definition QuerySwitchByUuid :: "int \<Rightarrow> ('a, 'w, 't) ServiceManager \<Rightarrow> bool" where
  "QuerySwitchByUuid uuid s =
     (if uuid = VOICE_WAKEUP_MODEL_UUID then QuerySwitchStatus WAKEUP_KEY s
      else if uuid = PROXIMAL_WAKEUP_MODEL_UUID then QuerySwitchStatus WHISPER_KEY s
      else False)"

definition CreateSwitchProvider :: "('a, 'w, 't) service_env \<Rightarrow> bool \<Rightarrow> ('a, 'w, 't) ServiceManager \<Rightarrow> ('a, 'w, 't) ServiceManager" where
  "CreateSwitchProvider X created s =
     (let s1 = s\<lparr>sm_switchProvider := created\<rparr>
      in if \<not> created then s1
         else if SP_QuerySwitchStatus (sm_db s1) WAKEUP_KEY \<or> SP_QuerySwitchStatus (sm_db s1) WHISPER_KEY
         then report_status X WAKEUP_SWITCH_STATE_OPEN WAKEUP_SWITCH_REASON_INIT s1 else s1)"

definition ReleaseSwitchProvider :: "('a, 'w, 't) ServiceManager \<Rightarrow> ('a, 'w, 't) ServiceManager" where
  "ReleaseSwitchProvider s = s\<lparr>sm_switchProvider := False\<rparr>"

section \<open>Detection\<close>

text \<open>\<open>AddStartDetectionTask\<close> submits a task that waits for the audio driver, once per key: the handle stays when the task ends.\<close>

definition AddStartDetectionTask :: "int \<Rightarrow> ('a, 'w, 't) ServiceManager \<Rightarrow> bool \<times> ('a, 'w, 't) ServiceManager" where
  "AddStartDetectionTask uuid s =
     (if uuid \<in> sm_taskHandle s then (True, s)
      else (True, s\<lparr>sm_taskHandle := insert uuid (sm_taskHandle s), sm_ffrt := sm_ffrt s @ [(uuid, False)]\<rparr>))"

text \<open>Only a task that has not begun can be cancelled.\<close>

definition DelStartDetectionTask :: "int \<Rightarrow> ('a, 'w, 't) ServiceManager \<Rightarrow> ('a, 'w, 't) ServiceManager" where
  "DelStartDetectionTask uuid s =
     (let s1 = (if uuid \<in> sm_taskHandle s
                then s\<lparr>sm_ffrt := filter (\<lambda>q. q \<noteq> (uuid, False)) (sm_ffrt s), sm_taskHandle := sm_taskHandle s - {uuid}\<rparr> else s)
      in s1\<lparr>sm_isStarted := (sm_isStarted s1)(uuid := None)\<rparr>)"

definition SM_StartDetection ::
  "('a, 'w, 't) service_env \<Rightarrow> int \<Rightarrow> ('a, 'w, 't) ServiceManager \<Rightarrow> bool \<times> ('a, 'w, 't) ServiceManager" where
  "SM_StartDetection X uuid s =
     (if any_engine s then (False, s)
      else if \<not> QuerySwitchByUuid uuid s then (False, s)
      else (case tr_StartDetection (sx_trigger X) uuid (sm_trigger s) of (ret, t) \<Rightarrow>
        (let s1 = s\<lparr>sm_trigger := t\<rparr>
         in if ret = 1 then (True, s1\<lparr>sm_isStarted := (sm_isStarted s1)(uuid \<mapsto> True)\<rparr>)
            else if ret = 0 then AddStartDetectionTask uuid s1
            else (False, s1))))"

definition SM_StopDetection ::
  "('a, 'w, 't) service_env \<Rightarrow> int \<Rightarrow> ('a, 'w, 't) ServiceManager \<Rightarrow> ('a, 'w, 't) ServiceManager" where
  "SM_StopDetection X uuid s = on_trigger (tr_StopDetection (sx_trigger X) uuid) s"

definition SetShortWordStatus ::
  "('a, 'w, 't) service_env \<Rightarrow> ('a, 'w, 't) ServiceManager \<Rightarrow> ('a, 'w, 't) ServiceManager" where
  "SetShortWordStatus X s =
     (if \<not> GetSupportAbility ''short_word_enable'' s then s
      else if QuerySwitchStatus SHORTWORD_KEY s then T_SetParameter X ''short_word_switch'' ''1'' s
      else T_SetParameter X ''short_word_switch'' ''0'' s)"

definition SetDualMicStatus ::
  "('a, 'w, 't) service_env \<Rightarrow> ('a, 'w, 't) ServiceManager \<Rightarrow> ('a, 'w, 't) ServiceManager" where
  "SetDualMicStatus X s =
     (if \<not> GetSupportAbility ''dual_mic_enable'' s then s
      else if QuerySwitchStatus DUALMIC_KEY s
      then T_SetParameter X ''dualMicEnable'' ''true'' (on_ctx_s (emit (SubscribeSwingEvent ''AUDIO_WAKEUP_1_5'' ''7'')) s)
      else T_SetParameter X ''dualMicEnable'' ''false'' (on_ctx_s (emit (UnSubscribeSwingEvent ''AUDIO_WAKEUP_1_5'' ''7'')) s))"

definition ReleaseServiceObject ::
  "('a, 'w, 't) service_env \<Rightarrow> int \<Rightarrow> ('a, 'w, 't) ServiceManager \<Rightarrow> ('a, 'w, 't) ServiceManager" where
  "ReleaseServiceObject X uuid s = on_trigger (tr_ReleaseTriggerDetector (sx_trigger X) uuid) s"

definition SM_CreateOrReset ::
  "('a, 'w, 't) service_env \<Rightarrow> ('a, 'w, 't) ServiceManager \<Rightarrow> ('a, 'w, 't) ServiceManager" where
  "SM_CreateOrReset X s = set_engines X (snd (CreateOrResetWakeupEngine (sx_hdi X) (sx_class X) (sm_engines s))) s"

definition CreateAndStartServiceObject ::
  "('a, 'w, 't) service_env \<Rightarrow> int \<Rightarrow> bool \<Rightarrow> ('a, 'w, 't) ServiceManager \<Rightarrow> ('a, 'w, 't) ServiceManager" where
  "CreateAndStartServiceObject X uuid needResetAdapter s =
     (if uuid = PROXIMAL_WAKEUP_MODEL_UUID \<and> \<not> IsFileExist WHISPER_MODEL_PATH s
      then on_ctx_s (emit (StartAbility ''no_whisper'')) s
      else if \<not> tr_IsModelExist (sx_trigger X) uuid (sm_trigger s) then s
      else if \<not> QuerySwitchByUuid uuid s then s
      else let s1 = (if \<not> needResetAdapter
                     then set_engines X (snd (CreateEngine (sx_hdi X) (sx_class X) INTELL_VOICE_WAKEUP '''' False (sm_engines s))) s
                     else SM_CreateOrReset X s);
               s2 = on_trigger (tr_CreateDetector (sx_trigger X) uuid) s1;
               s3 = (if uuid = VOICE_WAKEUP_MODEL_UUID then SetDualMicStatus X (SetShortWordStatus X s2) else s2)
           in snd (SM_StartDetection X uuid s3))"

definition SwitchOnProc ::
  "('a, 'w, 't) service_env \<Rightarrow> int \<Rightarrow> bool \<Rightarrow> ('a, 'w, 't) ServiceManager \<Rightarrow> ('a, 'w, 't) ServiceManager" where
  "SwitchOnProc X uuid needUpdateAdapter s =
     (if any_engine s then s
      else if \<not> QuerySwitchByUuid uuid s then s
      else CreateAndStartServiceObject X uuid needUpdateAdapter s)"

definition SwitchOffProc ::
  "('a, 'w, 't) service_env \<Rightarrow> int \<Rightarrow> ('a, 'w, 't) ServiceManager \<Rightarrow> ('a, 'w, 't) ServiceManager" where
  "SwitchOffProc X uuid s =
     (if any_engine s then s
      else if QuerySwitchByUuid uuid s then s
      else ReleaseServiceObject X uuid (DelStartDetectionTask uuid s))"

section \<open>Unloading\<close>

definition IsNeedToUnloadService :: "('a, 'w, 't) ServiceManager \<Rightarrow> bool" where
  "IsNeedToUnloadService s =
     (if any_engine s then False
      else if QuerySwitchStatus WAKEUP_KEY s \<or> QuerySwitchStatus WHISPER_KEY s then False
      else True)"

definition UnloadIntellVoiceService :: "('a, 'w, 't) ServiceManager \<Rightarrow> ('a, 'w, 't) ServiceManager" where
  "UnloadIntellVoiceService s =
     (if \<not> IsNeedToUnloadService s then s else s\<lparr>sm_serviceUnloading := True, sm_unloads := Suc (sm_unloads s)\<rparr>)"

definition HandleOnIdle :: "('a, 'w, 't) ServiceManager \<Rightarrow> bool \<times> ('a, 'w, 't) ServiceManager" where
  "HandleOnIdle s = (let needUnload = IsNeedToUnloadService s in (needUnload, s\<lparr>sm_serviceUnloading := needUnload\<rparr>))"

definition OnServiceActive :: "('a, 'w, 't) ServiceManager \<Rightarrow> ('a, 'w, 't) ServiceManager" where
  "OnServiceActive s = s\<lparr>sm_serviceUnloading := False\<rparr>"

text \<open>The wait for the switches after a change of the power mode: the thread waits unless a switch is on, is woken when one
  is turned on, and gives up after two seconds.\<close>

definition PowerMode_wait :: "('a, 'w, 't) ServiceManager \<Rightarrow> ('a, 'w, 't) ServiceManager" where
  "PowerMode_wait s =
     (if QuerySwitchStatus WAKEUP_KEY s \<or> QuerySwitchStatus WHISPER_KEY s then s else s\<lparr>sm_notifyPowerModeChange := True\<rparr>)"

definition PowerMode_end ::
  "('a, 'w, 't) service_env \<Rightarrow> ('a, 'w, 't) ServiceManager \<Rightarrow> ('a, 'w, 't) ServiceManager" where
  "PowerMode_end X s =
     (if QuerySwitchStatus WAKEUP_KEY s \<or> QuerySwitchStatus WHISPER_KEY s then s\<lparr>sm_notifyPowerModeChange := False\<rparr>
      else sm_post TaskUnload ((report_status X WAKEUP_SWITCH_STATE_CLOSE WAKEUP_SWITCH_REASON_POWER_SAVE_MODE s)
             \<lparr>sm_notifyPowerModeChange := False\<rparr>))"

definition ScheduleDelayedUnload :: "int \<Rightarrow> ('a, 'w, 't) ServiceManager \<Rightarrow> ('a, 'w, 't) ServiceManager" where
  "ScheduleDelayedUnload now s =
     (if \<not> IsNeedToUnloadService s then s else s\<lparr>sm_lastCallTime := now, sm_delayUnloadWaiting := True\<rparr>)"

text \<open>One round of the thread of the delayed unload.\<close>

definition DelayedUnloadService :: "int \<Rightarrow> ('a, 'w, 't) ServiceManager \<Rightarrow> ('a, 'w, 't) ServiceManager" where
  "DelayedUnloadService now s =
     (if \<not> IsNeedToUnloadService s then s\<lparr>sm_delayUnloadWaiting := False\<rparr>
      else if now - sm_lastCallTime s < WAIT_SWITCH_TIME then s
      else sm_post TaskUnload (s\<lparr>sm_delayUnloadWaiting := False\<rparr>))"

definition SM_GetUploadFiles ::
  "('a, 'w, 't) service_env \<Rightarrow> int \<Rightarrow> int \<Rightarrow> ('a, 'w, 't) ServiceManager \<Rightarrow> int \<times> upload_file list \<times> ('a, 'w, 't) ServiceManager" where
  "SM_GetUploadFiles X now numMax s =
     (case EM_GetUploadFiles (sx_hdi X) numMax (sm_engines s) of (ret, files, m) \<Rightarrow>
        (ret, files, ScheduleDelayedUnload now (set_engines X m s)))"

section \<open>Engines and updates\<close>

definition HandleWhisperVprUpdate :: "('a, 'w, 't) ServiceManager \<Rightarrow> ('a, 'w, 't) ServiceManager" where
  "HandleWhisperVprUpdate s = sm_post TaskWhisperVprUpdate s"

definition HandleCreateEngine ::
  "('a, 'w, 't) service_env \<Rightarrow> IntellVoiceEngineType \<Rightarrow> ('a, 'w, 't) ServiceManager \<Rightarrow> bool \<times> ('a, 'w, 't) ServiceManager" where
  "HandleCreateEngine X ty s =
     (let s1 = (if ty = INTELL_VOICE_ENROLL
                then SM_StopDetection X PROXIMAL_WAKEUP_MODEL_UUID (SM_StopDetection X VOICE_WAKEUP_MODEL_UUID s) else s)
      in case CreateEngine (sx_hdi X) (sx_class X) ty '''' False (sm_engines s1) of (ok, m) \<Rightarrow> (ok, set_engines X m s1))"

text \<open>\<open>ReleaseEngineInner\<close> always returns 0.\<close>

definition SM_ReleaseEngine ::
  "('a, 'w, 't) service_env \<Rightarrow> IntellVoiceEngineType \<Rightarrow> ('a, 'w, 't) ServiceManager \<Rightarrow> ('a, 'w, 't) ServiceManager" where
  "SM_ReleaseEngine X ty s =
     (let s1 = set_engines X (ReleaseEngineInner (sx_hdi X) (sx_class X) ty (sm_engines s)) s
      in if ty \<noteq> INTELL_VOICE_ENROLL \<and> ty \<noteq> INTELL_VOICE_IMPLICIT_ENROLL then s1
         else if GetEnrollResult ty (sm_ctx s1)
         then if IsFileExist WHISPER_VPR_CONFIG_PATH s1 then HandleWhisperVprUpdate s1
              else SwitchOffProc X PROXIMAL_WAKEUP_MODEL_UUID
                     (SwitchOnProc X PROXIMAL_WAKEUP_MODEL_UUID True (SwitchOnProc X VOICE_WAKEUP_MODEL_UUID True s1))
         else UnloadIntellVoiceService
                (SwitchOffProc X PROXIMAL_WAKEUP_MODEL_UUID (SwitchOnProc X PROXIMAL_WAKEUP_MODEL_UUID True
                  (SwitchOffProc X VOICE_WAKEUP_MODEL_UUID (SwitchOnProc X VOICE_WAKEUP_MODEL_UUID True s1)))))"

text \<open>Switching both detections on again and unloading the service if they are off: the end of an update.\<close>

definition after_update ::
  "('a, 'w, 't) service_env \<Rightarrow> ('a, 'w, 't) ServiceManager \<Rightarrow> ('a, 'w, 't) ServiceManager" where
  "after_update X s =
     UnloadIntellVoiceService (SwitchOnProc X PROXIMAL_WAKEUP_MODEL_UUID True (SwitchOnProc X VOICE_WAKEUP_MODEL_UUID True s))"

definition task_UpdateComplete ::
  "('a, 'w, 't) service_env \<Rightarrow> update_env \<Rightarrow> UpdateState \<Rightarrow> string \<Rightarrow> ('a, 'w, 't) ServiceManager \<Rightarrow> ('a, 'w, 't) ServiceManager" where
  "task_UpdateComplete X e result param s =
     (case IsNeedUpdateComplete (sx_hdi X) (sx_class X) e result param (sm_engines s) of (need, m) \<Rightarrow>
        (let s1 = set_engines X m s
         in if need \<and> IsFileExist WHISPER_VPR_CONFIG_PATH s1 \<and> param \<noteq> ''WhisperVprUpdate''
            then set_engines X (snd (WhisperVprUpdate (sx_hdi X) (sx_class X) e True (sm_engines s1))) s1
            else if need then after_update X s1 else s1))"

definition task_UpdateRetry ::
  "('a, 'w, 't) service_env \<Rightarrow> ('a, 'w, 't) ServiceManager \<Rightarrow> ('a, 'w, 't) ServiceManager" where
  "task_UpdateRetry X s =
     (case IsNeedUpdateRetry (sx_hdi X) (sx_class X) (sm_engines s) of (need, m) \<Rightarrow>
        (let s1 = set_engines X m s in if need then after_update X s1 else s1))"

definition task_SilenceUpdate ::
  "('a, 'w, 't) service_env \<Rightarrow> update_env \<Rightarrow> ('a, 'w, 't) ServiceManager \<Rightarrow> ('a, 'w, 't) ServiceManager" where
  "task_SilenceUpdate X e s =
     (case SilenceUpdate (sx_hdi X) (sx_class X) e (sm_engines s) of (ret, m) \<Rightarrow>
        (let s1 = set_engines X m s
         in if ret \<noteq> 0 \<and> IsFileExist WHISPER_VPR_CONFIG_PATH s1 \<and> GetStringKVPair ''WhisperVpr'' (sm_ctx s1) = ''false''
            then set_engines X (snd (WhisperVprUpdate (sx_hdi X) (sx_class X) e False (sm_engines s1))) s1
            else s1))"

definition task_CloseWakeupSource ::
  "('a, 'w, 't) service_env \<Rightarrow> bool \<Rightarrow> ('a, 'w, 't) ServiceManager \<Rightarrow> ('a, 'w, 't) ServiceManager" where
  "task_CloseWakeupSource X isNeedStop s =
     (let s1 = (if isNeedStop then T_SetParameter X ''stop_all_recognition'' ''true'' s else s)
      in snd (SM_StartDetection X PROXIMAL_WAKEUP_MODEL_UUID (snd (SM_StartDetection X VOICE_WAKEUP_MODEL_UUID s1))))"

definition task_Detected ::
  "('a, 'w, 't) service_env \<Rightarrow> int \<Rightarrow> ('a, 'w, 't) ServiceManager \<Rightarrow> ('a, 'w, 't) ServiceManager" where
  "task_Detected X uuid s =
     (if \<not> IsEngineExist INTELL_VOICE_WAKEUP (sm_engines s) then HandleCloseWakeupSource True s
      else set_engines X (EngineOnDetected (sx_class X) uuid (sm_engines s)) s)"

definition task_StartDetection ::
  "('a, 'w, 't) service_env \<Rightarrow> int \<Rightarrow> ('a, 'w, 't) ServiceManager \<Rightarrow> ('a, 'w, 't) ServiceManager" where
  "task_StartDetection X uuid s = (if sm_isStarted s uuid = Some True then s else snd (SM_StartDetection X uuid s))"

fun SM_task ::
  "('a, 'w, 't) service_env \<Rightarrow> update_env \<Rightarrow> service_task \<Rightarrow> ('a, 'w, 't) ServiceManager \<Rightarrow> ('a, 'w, 't) ServiceManager" where
  "SM_task X e (TaskUpdateComplete r p) s = task_UpdateComplete X e r p s"
| "SM_task X e TaskUpdateRetry s = task_UpdateRetry X s"
| "SM_task X e TaskSilenceUpdate s = task_SilenceUpdate X e s"
| "SM_task X e TaskWhisperVprUpdate s = set_engines X (snd (WhisperVprUpdate (sx_hdi X) (sx_class X) e False (sm_engines s))) s"
| "SM_task X e (TaskSwitchOn u b) s = SwitchOnProc X u b s"
| "SM_task X e (TaskSwitchOff u) s = SwitchOffProc X u s"
| "SM_task X e TaskUnload s = UnloadIntellVoiceService s"
| "SM_task X e (TaskReleaseEngine ty) s = SM_ReleaseEngine X ty s"
| "SM_task X e (TaskCloseWakeupSource b) s = task_CloseWakeupSource X b s"
| "SM_task X e TaskStopWakeupSource s = T_SetParameter X ''stop_all_recognition'' ''true'' s"
| "SM_task X e (TaskDetected u) s = task_Detected X u s"
| "SM_task X e (TaskStartDetection u) s = task_StartDetection X u s"
| "SM_task X e (TaskTriggerParam k v) s = T_SetParameter X k v s"

text \<open>The thread takes its next task.\<close>

definition SM_run ::
  "('a, 'w, 't) service_env \<Rightarrow> update_env \<Rightarrow> ('a, 'w, 't) ServiceManager \<Rightarrow> ('a, 'w, 't) ServiceManager option" where
  "SM_run X e s =
     (case em_tasks (sm_engines s) of
        [] \<Rightarrow> None
      | t # ts \<Rightarrow> Some (SM_task X e t (s\<lparr>sm_engines := (sm_engines s)\<lparr>em_tasks := ts\<rparr>\<rparr>)))"

definition HandleCloneUpdate ::
  "('a, 'w, 't) service_env \<Rightarrow> update_env \<Rightarrow> string \<Rightarrow> nat option \<Rightarrow> ('a, 'w, 't) ServiceManager \<Rightarrow> int \<times> ('a, 'w, 't) ServiceManager" where
  "HandleCloneUpdate X e wakeupInfo object s =
     (if sm_serviceUnloading s then (-1, s)
      else if IsImplicitEnroll wakeupInfo s
      then (case ImplicitEnroll (sx_hdi X) (sx_class X) wakeupInfo object (sm_engines s) of (r, m) \<Rightarrow> (r, set_engines X m s))
      else (case CloneUpdate (sx_hdi X) (sx_class X) e wakeupInfo object (sm_engines s) of (r, m) \<Rightarrow> (r, set_engines X m s)))"

definition HandleServiceStop ::
  "('a, 'w, 't) service_env \<Rightarrow> ('a, 'w, 't) ServiceManager \<Rightarrow> ('a, 'w, 't) ServiceManager" where
  "HandleServiceStop X s =
     (let s1 = set_engines X (snd (ServiceStopProc (sx_hdi X) (sx_class X) (sm_engines s))) s
      in if IsSwitchError WAKEUP_KEY s1 then on_ctx_s (emit (StartAbility ''db_error'')) s1 else s1)"

definition HandleClearWakeupEngineCb ::
  "('a, 'w, 't) service_env \<Rightarrow> ('a, 'w, 't) ServiceManager \<Rightarrow> ('a, 'w, 't) ServiceManager" where
  "HandleClearWakeupEngineCb X s = set_engines X (ClearWakeupEngineCb (sx_hdi X) (sx_class X) (sm_engines s)) s"

text \<open>\<open>ClearUserData\<close> deletes the models in the caller and the rest on the thread.\<close>

definition ClearModels :: "('a, 'w, 't) service_env \<Rightarrow> ('a, 'w, 't) ServiceManager \<Rightarrow> ('a, 'w, 't) ServiceManager" where
  "ClearModels X s =
     on_trigger (\<lambda>t. tr_DeleteModel (sx_trigger X) PROXIMAL_WAKEUP_MODEL_UUID (tr_DeleteModel (sx_trigger X) VOICE_WAKEUP_MODEL_UUID t)) s"

definition task_ClearUserData ::
  "('a, 'w, 't) service_env \<Rightarrow> ('a, 'w, 't) ServiceManager \<Rightarrow> ('a, 'w, 't) ServiceManager" where
  "task_ClearUserData X s =
     UnloadIntellVoiceService (on_ctx_s (\<lambda>x. DeleteKey TRIGGER_PARAMS (DeleteKey [''WakeupEngineBundleName'', ''WakeupEngineAbilityName'',
          ''WakeupVersion'', ''Language'', ''Area'', ''WakeupPhrase'', ''WhisperVpr''] x))
        (set_engines X (ClearUserDataInner (sx_hdi X) (sx_class X) (sm_engines s)) s))"

definition SM_ClearUserData :: "('a, 'w, 't) service_env \<Rightarrow> ('a, 'w, 't) ServiceManager \<Rightarrow> ('a, 'w, 't) ServiceManager" where
  "SM_ClearUserData X s = task_ClearUserData X (ClearModels X s)"

definition ProcBreathModel :: "('a, 'w, 't) service_env \<Rightarrow> ('a, 'w, 't) ServiceManager \<Rightarrow> ('a, 'w, 't) ServiceManager" where
  "ProcBreathModel X s =
     (case an_file (cx_answers (sm_ctx s)) WHISPER_MODEL_PATH of
        None \<Rightarrow> s
      | Some d \<Rightarrow> on_trigger (tr_UpdateModel (sx_trigger X) d PROXIMAL_WAKEUP_MODEL_UUID PROXIMAL_WAKEUP_TYPE) s)"

definition OnTriggerConnectServiceStart :: "('a, 'w, 't) ServiceManager \<Rightarrow> ('a, 'w, 't) ServiceManager" where
  "OnTriggerConnectServiceStart s =
     sm_post (TaskSwitchOn PROXIMAL_WAKEUP_MODEL_UUID False) (sm_post (TaskSwitchOn VOICE_WAKEUP_MODEL_UUID False) s)"

definition SM_OnDetected :: "int \<Rightarrow> ('a, 'w, 't) ServiceManager \<Rightarrow> ('a, 'w, 't) ServiceManager" where
  "SM_OnDetected uuid s = sm_post (TaskDetected uuid) s"

section \<open>Changes of a switch\<close>

definition task_ShortWord :: "('a, 'w, 't) service_env \<Rightarrow> ('a, 'w, 't) ServiceManager \<Rightarrow> ('a, 'w, 't) ServiceManager" where
  "task_ShortWord X s =
     (if any_engine s then s
      else let s1 = SM_StopDetection X PROXIMAL_WAKEUP_MODEL_UUID (SM_StopDetection X VOICE_WAKEUP_MODEL_UUID s);
               s2 = SetShortWordStatus X (SM_CreateOrReset X s1)
           in snd (SM_StartDetection X PROXIMAL_WAKEUP_MODEL_UUID (snd (SM_StartDetection X VOICE_WAKEUP_MODEL_UUID s2))))"

text \<open>A detection switch and the other one, whose state decides whether the change is reported.\<close>

definition switch_changed ::
  "('a, 'w, 't) service_env \<Rightarrow> int \<Rightarrow> string \<Rightarrow> string \<Rightarrow> (string list) \<Rightarrow> ('a, 'w, 't) ServiceManager \<Rightarrow> ('a, 'w, 't) ServiceManager" where
  "switch_changed X uuid key other forget s =
     (let rep = (\<lambda>st s. if QuerySwitchStatus other s then s else report_status X st WAKEUP_SWITCH_REASON_USER_SETTING s)
      in if QuerySwitchStatus key s
         then SwitchOnProc X uuid False (rep WAKEUP_SWITCH_STATE_OPEN s)
         else UnloadIntellVoiceService (on_ctx_s (DeleteKey forget) (SwitchOffProc X uuid (rep WAKEUP_SWITCH_STATE_CLOSE s))))"

definition OnSwitchChange ::
  "('a, 'w, 't) service_env \<Rightarrow> string \<Rightarrow> ('a, 'w, 't) ServiceManager \<Rightarrow> ('a, 'w, 't) ServiceManager" where
  "OnSwitchChange X switchKey s =
     (if switchKey = WAKEUP_KEY then switch_changed X VOICE_WAKEUP_MODEL_UUID WAKEUP_KEY WHISPER_KEY TRIGGER_PARAMS s
      else if switchKey = WHISPER_KEY then switch_changed X PROXIMAL_WAKEUP_MODEL_UUID WHISPER_KEY WAKEUP_KEY [] s
      else if switchKey = SHORTWORD_KEY then task_ShortWord X s
      else if switchKey = DUALMIC_KEY then SetDualMicStatus X s
      else s)"

section \<open>Parameters\<close>

definition HandleSensibility ::
  "('a, 'w, 't) service_env \<Rightarrow> string \<Rightarrow> string \<Rightarrow> ('a, 'w, 't) ServiceManager \<Rightarrow> ('a, 'w, 't) ServiceManager" where
  "HandleSensibility X key v s =
     (let s1 = on_ctx_s (SetStringKVPair ''Sensibility'' v) s;
          s2 = set_engines X (SetDspSensibility v (sm_engines s1)) s1
      in set_engines X (snd (EM_SetParameter (sx_hdi X) (sx_class X) key v (sm_engines s2))) s2)"

definition HandleWakeupBundleName :: "string \<Rightarrow> ('a, 'w, 't) ServiceManager \<Rightarrow> ('a, 'w, 't) ServiceManager" where
  "HandleWakeupBundleName v s = on_ctx_s (SetStringKVPair ''WakeupEngineBundleName'' v) s"

definition HandleWakeupAbilityName :: "string \<Rightarrow> ('a, 'w, 't) ServiceManager \<Rightarrow> ('a, 'w, 't) ServiceManager" where
  "HandleWakeupAbilityName v s = on_ctx_s (SetStringKVPair ''WakeupEngineAbilityName'' v) s"

definition HandleCountryInfo :: "string \<Rightarrow> ('a, 'w, 't) ServiceManager \<Rightarrow> ('a, 'w, 't) ServiceManager" where
  "HandleCountryInfo v s =
     (if GetStringKVPair ''CountryInfoName'' (sm_ctx s) = v then s
      else sm_post (TaskSwitchOn VOICE_WAKEUP_MODEL_UUID False) (on_ctx_s (SetStringKVPair ''CountryInfoName'' v) s))"

definition HandleWakeupScene ::
  "('a, 'w, 't) service_env \<Rightarrow> string \<Rightarrow> string \<Rightarrow> ('a, 'w, 't) ServiceManager \<Rightarrow> ('a, 'w, 't) ServiceManager" where
  "HandleWakeupScene X key v s =
     T_SetParameter X key v (set_engines X (snd (EM_SetParameter (sx_hdi X) (sx_class X) key v (sm_engines s))) s)"

definition HandleTriggerParam :: "string \<Rightarrow> string \<Rightarrow> ('a, 'w, 't) ServiceManager \<Rightarrow> ('a, 'w, 't) ServiceManager" where
  "HandleTriggerParam key v s = sm_post (TaskTriggerParam key v) (on_ctx_s (SetStringKVPair key v) s)"

definition HandleConcurrentWhiteList ::
  "('a, 'w, 't) service_env \<Rightarrow> string \<Rightarrow> ('a, 'w, 't) ServiceManager \<Rightarrow> ('a, 'w, 't) ServiceManager" where
  "HandleConcurrentWhiteList X v s =
     on_trigger (tr_ClearConcurrentControlList (sx_trigger X) True False) (on_ctx_s (SetStringKVPair ''concurrentWhiteList'' v) s)"

definition HandleConcurrentBlackList ::
  "('a, 'w, 't) service_env \<Rightarrow> string \<Rightarrow> ('a, 'w, 't) ServiceManager \<Rightarrow> ('a, 'w, 't) ServiceManager" where
  "HandleConcurrentBlackList X v s =
     on_trigger (tr_ClearConcurrentControlList (sx_trigger X) False True) (on_ctx_s (SetStringKVPair ''concurrentBlackList'' v) s)"

definition HandleDataClear ::
  "('a, 'w, 't) service_env \<Rightarrow> string \<Rightarrow> string \<Rightarrow> ('a, 'w, 't) ServiceManager \<Rightarrow> int \<times> ('a, 'w, 't) ServiceManager" where
  "HandleDataClear X key v s =
     (if sm_serviceUnloading s then (-1, s)
      else (case EM_SetParameter (sx_hdi X) (sx_class X) key v (sm_engines s) of (r, m) \<Rightarrow> (r, set_engines X m s)))"

definition HandleEngineRelease :: "string \<Rightarrow> ('a, 'w, 't) ServiceManager \<Rightarrow> int \<times> ('a, 'w, 't) ServiceManager" where
  "HandleEngineRelease v s =
     (if v = ''implicit_enroll'' then (0, sm_post (TaskReleaseEngine INTELL_VOICE_IMPLICIT_ENROLL) s) else (-1, s))"

text \<open>The keys with a handler, in the order of the parsed map.\<close>

definition param_keys :: "string list" where
  "param_keys = [''Sensibility'', ''clear_data'', ''closeCountThres'', ''concurrentBlackList'', ''concurrentWhiteList'', ''country'',
     ''dualMicBudget'', ''dualMicSuspen'', ''engine_release'', ''openCountThres'', ''record_start'', ''skipIntensityCheck'',
     ''skipTimingAccumulate'', ''skipTimingCheck'', ''sndIntensityThres'', ''wakeup_ability_name'', ''wakeup_bundle_name'', ''wakeup_scene'']"

text \<open>One key: the handlers that return a value end the loop. \<open>record_start\<close> does nothing in this build.\<close>

definition param_handler ::
  "('a, 'w, 't) service_env \<Rightarrow> string \<Rightarrow> string \<Rightarrow> ('a, 'w, 't) ServiceManager \<Rightarrow> int option \<times> ('a, 'w, 't) ServiceManager" where
  "param_handler X k v s =
     (if k = ''clear_data'' then map_prod Some id (HandleDataClear X k v s)
      else if k = ''engine_release'' then map_prod Some id (HandleEngineRelease v s)
      else (None,
        if k = ''Sensibility'' then HandleSensibility X k v s
        else if k = ''wakeup_bundle_name'' then HandleWakeupBundleName v s
        else if k = ''wakeup_ability_name'' then HandleWakeupAbilityName v s
        else if k = ''country'' then HandleCountryInfo v s
        else if k = ''wakeup_scene'' then HandleWakeupScene X k v s
        else if sx_concurrent X \<and> k = ''concurrentWhiteList'' then HandleConcurrentWhiteList X v s
        else if sx_concurrent X \<and> k = ''concurrentBlackList'' then HandleConcurrentBlackList X v s
        else if k \<in> set TRIGGER_PARAMS then HandleTriggerParam k v s
        else s))"

fun param_loop ::
  "('a, 'w, 't) service_env \<Rightarrow> (string \<rightharpoonup> string) \<Rightarrow> string list \<Rightarrow> ('a, 'w, 't) ServiceManager \<Rightarrow> int \<times> ('a, 'w, 't) ServiceManager" where
  "param_loop X m [] s = (0, s)"
| "param_loop X m (k # ks) s =
     (case m k of
        None \<Rightarrow> param_loop X m ks s
      | Some v \<Rightarrow> (case param_handler X k v s of (Some r, s1) \<Rightarrow> (r, s1) | (None, s1) \<Rightarrow> param_loop X m ks s1))"

definition EngineSetParameter ::
  "('a, 'w, 't) service_env \<Rightarrow> string \<Rightarrow> ('a, 'w, 't) ServiceManager \<Rightarrow> (int \<times> ('a, 'w, 't) ServiceManager) option" where
  "EngineSetParameter X keyValueList s =
     map_option (\<lambda>m. param_loop X m param_keys s) (SplitStringToKVPair keyValueList Map.empty)"

section \<open>Detection without an engine\<close>

text \<open>In builds with a single level a detection starts the application and waits ten seconds for it to record.\<close>

definition HasReceviedRecordStartMsg :: "('a, 'w, 't) ServiceManager \<Rightarrow> bool" where
  "HasReceviedRecordStartMsg s \<longleftrightarrow> sm_recordStart s = 1 \<or> sm_recordStart s = 0"

definition HandleRecordStartInfoChange :: "('a, 'w, 't) ServiceManager \<Rightarrow> ('a, 'w, 't) ServiceManager" where
  "HandleRecordStartInfoChange s =
     (if HasReceviedRecordStartMsg s then s else s\<lparr>sm_notifyRecordStartInfoChange := True\<rparr>)"

definition RecordStart_end :: "('a, 'w, 't) ServiceManager \<Rightarrow> ('a, 'w, 't) ServiceManager" where
  "RecordStart_end s =
     (if HasReceviedRecordStartMsg s then s\<lparr>sm_notifyRecordStartInfoChange := False\<rparr>
      else HandleCloseWakeupSource True (s\<lparr>sm_notifyRecordStartInfoChange := False\<rparr>))"

definition OnSingleLevelDetected :: "('a, 'w, 't) ServiceManager \<Rightarrow> ('a, 'w, 't) ServiceManager" where
  "OnSingleLevelDetected s =
     HandleRecordStartInfoChange (on_ctx_s (emit (StartAbility ''single_level_event''))
       (sm_post TaskStopWakeupSource (s\<lparr>sm_recordStart := -1\<rparr>)))"

definition SM_ResetSingleLevelWakeup :: "string \<Rightarrow> ('a, 'w, 't) ServiceManager \<Rightarrow> ('a, 'w, 't) ServiceManager" where
  "SM_ResetSingleLevelWakeup v s =
     (if v \<noteq> ''true'' \<and> v \<noteq> ''false'' then s
      else let s1 = s\<lparr>sm_recordStart := if v = ''true'' then 1 else 0\<rparr>
           in if sm_recordStart s1 = 0 then HandleCloseWakeupSource True s1 else s1)"

section \<open>The waiting tasks\<close>

text \<open>A task of the queue begins: it ends at once when its switch is off.\<close>

definition wait_begin :: "nat \<Rightarrow> ('a, 'w, 't) ServiceManager \<Rightarrow> ('a, 'w, 't) ServiceManager" where
  "wait_begin i s =
     (case sm_ffrt s ! i of (uuid, _) \<Rightarrow>
        if \<not> QuerySwitchByUuid uuid s then s\<lparr>sm_ffrt := take i (sm_ffrt s) @ drop (Suc i) (sm_ffrt s)\<rparr>
        else s\<lparr>sm_ffrt := (sm_ffrt s)[i := (uuid, True)]\<rparr>)"

text \<open>A round of its loop: the audio driver is ready, or the switch is off, or it goes on waiting.\<close>

definition wait_round :: "('a, 'w, 't) service_env \<Rightarrow> nat \<Rightarrow> ('a, 'w, 't) ServiceManager \<Rightarrow> ('a, 'w, 't) ServiceManager" where
  "wait_round X i s =
     (case sm_ffrt s ! i of (uuid, _) \<Rightarrow>
        (case tr_GetParameter (sx_trigger X) ''audio_hal_status'' (sm_trigger s) of (v, t) \<Rightarrow>
           (let s1 = s\<lparr>sm_trigger := t\<rparr>; gone = take i (sm_ffrt s) @ drop (Suc i) (sm_ffrt s)
            in if v = ''true'' then sm_post (TaskStartDetection uuid) (s1\<lparr>sm_ffrt := gone\<rparr>)
               else if \<not> QuerySwitchByUuid uuid s1 then s1\<lparr>sm_ffrt := gone\<rparr> else s1)))"

section \<open>Interleavings\<close>

text \<open>
  What can happen to the service. \<open>ev\<close> are the trigger side's own events; \<open>ServiceEngine\<close> what happens to the engines on
  their own: a report of the driver, the timer, a change of an engine or of the surroundings.
\<close>

datatype ('a, 'w, 't) service_action =
    ServiceTask | ServiceCreate IntellVoiceEngineType | ServiceRelease IntellVoiceEngineType | ServiceSwitch string
  | ServiceClone string "nat option" | ServiceParam string string | ServicePost service_task | ServiceClearModels | ServiceClearData
  | ServiceStop | ServiceClearCb | ServiceIdle | ServiceActive | ServiceUpload int | ServiceDelayed | ServiceProvider bool
  | ServiceBreath | ServicePower | ServicePowerEnd | ServiceSingle | ServiceRecord string | ServiceRecordEnd
  | ServiceWaitBegin nat | ServiceWaitRound nat | ServiceDb "string \<Rightarrow> string option option"
  | ServiceEngine "('a, 'w) mgr_action"

fun own_action :: "('a, 'w) mgr_action \<Rightarrow> bool" where
  "own_action (ActEvent _) = True"
| "own_action ActTimer = True"
| "own_action (ActWorld _) = True"
| "own_action (ActEngine _ _) = True"
| "own_action _ = False"

fun service_act ::
  "('a, 'w, 't) service_env \<Rightarrow> update_env \<Rightarrow> ('a, 'w, 't) service_action \<Rightarrow> ('a, 'w, 't) ServiceManager \<Rightarrow>
     ('a, 'w, 't) ServiceManager option" where
  "service_act X e ServiceTask s = SM_run X e s"
| "service_act X e (ServiceCreate ty) s = Some (snd (HandleCreateEngine X ty s))"
| "service_act X e (ServiceRelease ty) s = Some (SM_ReleaseEngine X ty s)"
| "service_act X e (ServiceSwitch key) s = (if sm_switchProvider s then Some (OnSwitchChange X key s) else None)"
| "service_act X e (ServiceClone p c) s = Some (snd (HandleCloneUpdate X e p c s))"
| "service_act X e (ServiceParam k v) s = Some (snd (param_handler X k v s))"
| "service_act X e (ServicePost t) s = (if update_task t \<or> \<not> room s then None else Some (sm_post t s))"
| "service_act X e ServiceClearModels s = Some (ClearModels X s)"
| "service_act X e ServiceClearData s = Some (task_ClearUserData X s)"
| "service_act X e ServiceStop s = Some (HandleServiceStop X s)"
| "service_act X e ServiceClearCb s = Some (HandleClearWakeupEngineCb X s)"
| "service_act X e ServiceIdle s = Some (snd (HandleOnIdle s))"
| "service_act X e ServiceActive s = Some (OnServiceActive s)"
| "service_act X e (ServiceUpload n) s = Some (snd (snd (SM_GetUploadFiles X (uv_now e) n s)))"
| "service_act X e ServiceDelayed s = (if sm_delayUnloadWaiting s then Some (DelayedUnloadService (uv_now e) s) else None)"
| "service_act X e (ServiceProvider b) s = Some (if b then CreateSwitchProvider X True s else ReleaseSwitchProvider s)"
| "service_act X e ServiceBreath s = Some (ProcBreathModel X s)"
| "service_act X e ServicePower s = Some (PowerMode_wait s)"
| "service_act X e ServicePowerEnd s = (if sm_notifyPowerModeChange s then Some (PowerMode_end X s) else None)"
| "service_act X e ServiceSingle s = Some (OnSingleLevelDetected s)"
| "service_act X e (ServiceRecord v) s = Some (SM_ResetSingleLevelWakeup v s)"
| "service_act X e ServiceRecordEnd s = (if sm_notifyRecordStartInfoChange s then Some (RecordStart_end s) else None)"
| "service_act X e (ServiceWaitBegin i) s = (if i < length (sm_ffrt s) \<and> \<not> snd (sm_ffrt s ! i) then Some (wait_begin i s) else None)"
| "service_act X e (ServiceWaitRound i) s = (if i < length (sm_ffrt s) \<and> snd (sm_ffrt s ! i) then Some (wait_round X i s) else None)"
| "service_act X e (ServiceDb db) s = Some (s\<lparr>sm_db := db\<rparr>)"
| "service_act X e (ServiceEngine a) s =
     (if \<not> own_action a then None
      else map_option (\<lambda>m. set_engines X m s) (mgr_act (sx_hdi X) (sx_class X) e a (sm_engines s)))"

inductive service_step ::
  "('a, 'w, 't) service_env \<Rightarrow> ('t \<Rightarrow> 't \<Rightarrow> bool) \<Rightarrow> ('a, 'w, 't) ServiceManager \<Rightarrow> ('a, 'w, 't) ServiceManager \<Rightarrow> bool"
  for X ev where
  sv_act: "service_act X e a s = Some s' \<Longrightarrow> service_step X ev s s'"
| sv_trigger: "ev (sm_trigger s) t \<Longrightarrow> service_step X ev s (s\<lparr>sm_trigger := t\<rparr>)"

definition service_start :: "('t \<Rightarrow> bool) \<Rightarrow> ('a, 'w, 't) ServiceManager \<Rightarrow> bool" where
  "service_start init s \<longleftrightarrow> (\<exists>t x db. init t \<and> s = service_new t (manager_new x) db)"

section \<open>The enrolment engine\<close>

definition enrolling :: "('a, 'w) EngineManager \<Rightarrow> bool" where
  "enrolling m \<longleftrightarrow> em_engines m INTELL_VOICE_ENROLL \<noteq> None"

lemma enrolling_dom: "INTELL_VOICE_ENROLL \<in> dom (em_engines m) \<longleftrightarrow> enrolling m"
  by (simp add: enrolling_def domIff)

lemma enrolling_fields [simp]:
  "enrolling (m\<lparr>em_ctx := x\<rparr>) = enrolling m" "enrolling (m\<lparr>em_tasks := ts\<rparr>) = enrolling m" "enrolling (post t m) = enrolling m"
  "enrolling (post_all ts m) = enrolling m" "enrolling (m\<lparr>em_timerId := i\<rparr>) = enrolling m" "enrolling (m\<lparr>em_timers := tm\<rparr>) = enrolling m"
  "enrolling (m\<lparr>em_updateResult := r\<rparr>) = enrolling m" "enrolling (on_engine ty f m) = enrolling m"
  "enrolling (ReleaseUpdateEngine H C m) = enrolling m" "enrolling (stop_timers m) = enrolling m"
  "enrolling (ClearRetryState m) = enrolling m"
  by (simp_all add: enrolling_def)

lemma enrolling_CreateInner: "CreateEngineInner H C t p b m = (ok, m') \<Longrightarrow> t \<noteq> INTELL_VOICE_ENROLL \<Longrightarrow> enrolling m' = enrolling m"
  using dom_CreateInner [of H C t p b m ok m'] by (metis enrolling_dom insert_iff)

lemma enrolling_Create:
  assumes "CreateEngine H C t p b m = (ok, m')" "t \<noteq> INTELL_VOICE_ENROLL"
  shows "enrolling m' = enrolling m"
  using assms(1)
proof (cases rule: CreateEngine_cases)
  case (other m1)
  have "enrolling m1 = enrolling m" using other(3) by auto
  then show ?thesis using enrolling_CreateInner [OF other(4) assms(2)] by simp
qed (use assms(2) in simp_all)

lemma enrolling_CreateEngine [simp]:
  "t \<noteq> INTELL_VOICE_ENROLL \<Longrightarrow> enrolling (snd (CreateEngine H C t p b m)) = enrolling m"
  using enrolling_Create [OF prod.collapse [symmetric]] .

lemma enrolling_Arbitration: "UpdateArbitration H C q m = (ok, m') \<Longrightarrow> enrolling m' = enrolling m"
  by (auto simp: UpdateArbitration_def Let_def split: if_splits option.splits)

lemma enrolling_UntilTime [simp]: "enrolling (snd (CreateUpdateEngineUntilTime H C e s b m)) = enrolling m"
proof -
  obtain r m' where u: "CreateUpdateEngineUntilTime H C e s b m = (r, m')" using prod.exhaust by blast
  then have "enrolling m' = enrolling m"
  proof (cases rule: UntilTime_cases)
    case (failed x m1)
    then show ?thesis using enrolling_Arbitration [OF failed(1)] enrolling_Create [OF failed(2)] by simp
  next
    case (created x m1 m2 tm)
    then have "enrolling m2 = enrolling m" using enrolling_Arbitration [OF created(1)] enrolling_Create [OF created(2)] by simp
    then show ?thesis by (simp add: created(3) enrolling_def)
  qed simp
  then show ?thesis using u by simp
qed

lemma enrolling_updates [simp]:
  "enrolling (snd (SilenceUpdate H C e m)) = enrolling m" "enrolling (snd (WhisperVprUpdate H C e b m)) = enrolling m"
  "enrolling (snd (CloneUpdate H C e p c m)) = enrolling m"
  by (simp_all add: SilenceUpdate_def WhisperVprUpdate_def CloneUpdate_def)

lemma enrolling_Complete [simp]: "enrolling (snd (IsNeedUpdateComplete H C e r p m)) = enrolling m"
proof -
  obtain b n where u: "UpdateCompleteProc H C e r p m = (b, n)" using prod.exhaust by blast
  then have "enrolling n = enrolling m" by (cases rule: CompleteProc_cases) (auto simp: enrolling_def)
  then show ?thesis using u by (simp add: IsNeedUpdateComplete_def)
qed

lemma enrolling_Retry [simp]: "enrolling (snd (IsNeedUpdateRetry H C m)) = enrolling m"
proof -
  have c: "enrolling n = enrolling m" if "CreateEngine H C INTELL_VOICE_UPDATE p False (m\<lparr>em_ctx := x\<rparr>) = (ok, n)" for p x ok n
    using enrolling_Create [OF that] by simp
  have "enrolling (snd (UpdateRetryProc H C m)) = enrolling m"
    by (auto simp: UpdateRetryProc_def CreateUpdateEngine_def Let_def dest: c split: option.split prod.split bool.split)
  then show ?thesis by (cases "UpdateRetryProc H C m") (auto simp: IsNeedUpdateRetry_def split: bool.split)
qed

lemma enrolling_others [simp]:
  "enrolling (snd (CreateOrResetWakeupEngine H C m)) = enrolling m" "enrolling (EngineOnDetected C u m) = enrolling m"
  "enrolling (snd (ServiceStopProc H C m)) = enrolling m" "enrolling (ClearWakeupEngineCb H C m) = enrolling m"
  "enrolling (SetDspSensibility v m) = enrolling m" "enrolling (ClearUserDataInner H C m) = enrolling m"
proof -
  show "enrolling (snd (CreateOrResetWakeupEngine H C m)) = enrolling m"
  proof (cases "em_engines m INTELL_VOICE_WAKEUP")
    case None
    obtain ok n where c: "CreateEngineInner H C INTELL_VOICE_WAKEUP '''' False m = (ok, n)" using prod.exhaust by blast
    show ?thesis using None c enrolling_CreateInner [OF c] by (simp add: CreateOrResetWakeupEngine_def)
  next
    case (Some e)
    then show ?thesis by (simp add: CreateOrResetWakeupEngine_def enrolling_def split: prod.split)
  qed
  show "enrolling (snd (ServiceStopProc H C m)) = enrolling m" using dom_ServiceStop [of H C m] by (metis enrolling_dom)
  have "enrolling (ForceRelease H C m) = enrolling m" by (simp add: ForceRelease_def enrolling_def)
  moreover have "enrolling (detach_wakeup H C n) = enrolling n" for n :: "('a, 'b) EngineManager"
    using dom_detach_wakeup [of H C n] by (metis enrolling_dom)
  ultimately show "enrolling (ClearUserDataInner H C m) = enrolling m" by (simp add: ClearUserDataInner_def Let_def)
qed (simp_all add: EngineOnDetected_def ClearWakeupEngineCb_def SetDspSensibility_def Let_def split: option.split)

lemma enrolling_implicit [simp]:
  "enrolling (snd (EM_SetParameter H C k v m)) = enrolling m" "enrolling (snd (ImplicitEnroll H C p c m)) = enrolling m"
proof -
  obtain ok n where n: "CreateEngine H C INTELL_VOICE_IMPLICIT_ENROLL '''' False m = (ok, n)" using prod.exhaust by blast
  then show "enrolling (snd (EM_SetParameter H C k v m)) = enrolling m" "enrolling (snd (ImplicitEnroll H C p c m)) = enrolling m"
    using enrolling_Create [OF n]
    by (auto simp: EM_SetParameter_def ClearImplicitEnrollData_def ImplicitEnroll_def split: bool.splits)
qed

lemma enrolling_upload [simp]: "enrolling (snd (snd (EM_GetUploadFiles H n m))) = enrolling m"
  by (auto simp: EM_GetUploadFiles_def GetUploadFilesFromVendor_def GetUploadFilesFromSystem_def Let_def split: prod.splits)

lemma enrolling_own: "own_action a \<Longrightarrow> mgr_act H C e a m = Some m' \<Longrightarrow> enrolling m' = enrolling m"
  by (cases a) (auto simp: report_event_def fire_timer_def Ctl_OnTimerEvent_def enrolling_def
      split: option.splits engine.splits prod.splits run_outcome.splits if_splits)

lemma enrolling_release: "enrolling (ReleaseEngineInner H C ty m) \<Longrightarrow> enrolling m"
  by (auto simp: ReleaseEngineInner_def enrolling_def engines_remove split: if_splits)

section \<open>What the service keeps\<close>

abbreviation sm_enrol :: "('a, 'w, 't) ServiceManager \<Rightarrow> bool" where
  "sm_enrol s \<equiv> enrolling (sm_engines s)"

lemma any_engine_enrol: "\<not> any_engine s \<Longrightarrow> \<not> sm_enrol s"
  by (auto simp: any_engine_def AnyEngineExist_def IsEngineExist_def enrolling_def split: if_splits)

lemma enrol_frames [simp]:
  "sm_enrol (on_ctx_s f s) = sm_enrol s" "sm_enrol (sm_post t s) = sm_enrol s" "sm_enrol (on_trigger g s) = sm_enrol s"
  "sm_enrol (T_SetParameter X k v s) = sm_enrol s" "sm_enrol (HandleCloseWakeupSource b s) = sm_enrol s"
  "sm_enrol (ReleaseImplicitEnrollEngine_s s) = sm_enrol s" "sm_enrol (report_status X st r s) = sm_enrol s"
  "sm_enrol (SM_StopDetection X u s) = sm_enrol s" "sm_enrol (SetShortWordStatus X s) = sm_enrol s"
  "sm_enrol (SetDualMicStatus X s) = sm_enrol s" "sm_enrol (UnloadIntellVoiceService s) = sm_enrol s"
  "sm_enrol (DelStartDetectionTask u s) = sm_enrol s" "sm_enrol (snd (AddStartDetectionTask u s)) = sm_enrol s"
  "sm_enrol (ReleaseServiceObject X u s) = sm_enrol s"
  by (simp_all add: on_ctx_s_def sm_post_def on_trigger_def T_SetParameter_def HandleCloseWakeupSource_def
      ReleaseImplicitEnrollEngine_s_def report_status_def SM_StopDetection_def SetShortWordStatus_def SetDualMicStatus_def
      UnloadIntellVoiceService_def DelStartDetectionTask_def AddStartDetectionTask_def ReleaseServiceObject_def Let_def)

lemma enrol_callback [simp]: "sm_enrol (engine_callback X c s) = sm_enrol s"
  by (cases c) (simp_all add: engine_callback_def)

lemma enrol_set_engines [simp]: "sm_enrol (set_engines X m s) = enrolling m"
proof -
  have "sm_enrol (fold (engine_callback X) cs r) = sm_enrol r" for cs and r :: "('a, 'b, 'c) ServiceManager"
    by (induction cs arbitrary: r) simp_all
  then show ?thesis by (simp add: set_engines_def)
qed

lemma enrol_detection [simp]:
  "sm_enrol (snd (SM_StartDetection X u s)) = sm_enrol s" "sm_enrol (SM_CreateOrReset X s) = sm_enrol s"
  "sm_enrol (CreateAndStartServiceObject X u b s) = sm_enrol s" "sm_enrol (SwitchOnProc X u b s) = sm_enrol s"
  "sm_enrol (SwitchOffProc X u s) = sm_enrol s"
proof -
  show st: "sm_enrol (snd (SM_StartDetection X u s)) = sm_enrol s" for s :: "('a, 'b, 'c) ServiceManager"
    by (simp add: SM_StartDetection_def Let_def split: prod.split)
  show cr: "sm_enrol (SM_CreateOrReset X s) = sm_enrol s" for s :: "('a, 'b, 'c) ServiceManager" by (simp add: SM_CreateOrReset_def)
  show "sm_enrol (CreateAndStartServiceObject X u b s) = sm_enrol s" for s :: "('a, 'b, 'c) ServiceManager"
    by (simp add: CreateAndStartServiceObject_def Let_def st cr)
  then show "sm_enrol (SwitchOnProc X u b s) = sm_enrol s" by (simp add: SwitchOnProc_def)
  show "sm_enrol (SwitchOffProc X u s) = sm_enrol s" by (simp add: SwitchOffProc_def)
qed

text \<open>The laws a trigger manager has for \<open>detecting\<close>: a stop ends the detection of its key, and nothing but a start or a new
  detector begins one. \<open>ev\<close> are the trigger side's own events.\<close>

locale detection_backend =
  fixes X :: "('a, 'w, 't) service_env" and detecting :: "'t \<Rightarrow> int \<Rightarrow> bool" and ev :: "'t \<Rightarrow> 't \<Rightarrow> bool"
  assumes stop_ends: "\<not> detecting (tr_StopDetection (sx_trigger X) u t) u"
    and stop_quiet: "detecting (tr_StopDetection (sx_trigger X) u t) v \<Longrightarrow> detecting t v"
    and release_quiet: "detecting (tr_ReleaseTriggerDetector (sx_trigger X) u t) v \<Longrightarrow> detecting t v"
    and update_quiet: "detecting (tr_UpdateModel (sx_trigger X) b u ty t) v \<Longrightarrow> detecting t v"
    and delete_quiet: "detecting (tr_DeleteModel (sx_trigger X) u t) v \<Longrightarrow> detecting t v"
    and set_quiet: "detecting (snd (tr_SetParameter (sx_trigger X) k val t)) v \<Longrightarrow> detecting t v"
    and get_quiet: "detecting (snd (tr_GetParameter (sx_trigger X) k t)) v \<Longrightarrow> detecting t v"
    and clear_quiet: "detecting (tr_ClearConcurrentControlList (sx_trigger X) w bl t) v \<Longrightarrow> detecting t v"
    and event_quiet: "ev t t' \<Longrightarrow> detecting t' v \<Longrightarrow> detecting t v"
begin

text \<open>A step under which no detection begins while an enrolment engine exists, and no enrolment engine appears.\<close>

definition mild :: "('a, 'w, 't) ServiceManager \<Rightarrow> ('a, 'w, 't) ServiceManager \<Rightarrow> bool" where
  "mild s s' \<longleftrightarrow> (sm_enrol s' \<longrightarrow> sm_enrol s \<and> (\<forall>u. detecting (sm_trigger s') u \<longrightarrow> detecting (sm_trigger s) u))"

lemma mild_refl [simp]: "mild s s"
  by (simp add: mild_def)

lemma mild_trans: "mild s r \<Longrightarrow> mild r q \<Longrightarrow> mild s q"
  by (auto simp: mild_def)

lemma mild_off: "\<not> sm_enrol s' \<Longrightarrow> mild s s'"
  by (simp add: mild_def)

lemma mild_quiet: "sm_engines s' = sm_engines s \<Longrightarrow> sm_trigger s' = sm_trigger s \<Longrightarrow> mild s s'"
  by (simp add: mild_def)

lemma mild_fields:
  "mild s (on_ctx_s f s)" "mild s (sm_post t s)" "mild s (HandleCloseWakeupSource b s)" "mild s (ReleaseImplicitEnrollEngine_s s)"
  "mild s (report_status X st rs s)" "mild s (UnloadIntellVoiceService s)" "mild s (DelStartDetectionTask u s)"
  by (simp_all add: mild_def on_ctx_s_def sm_post_def HandleCloseWakeupSource_def ReleaseImplicitEnrollEngine_s_def
      report_status_def UnloadIntellVoiceService_def DelStartDetectionTask_def Let_def)

lemma mild_trigger: "(\<And>u. detecting (f (sm_trigger s)) u \<Longrightarrow> detecting (sm_trigger s) u) \<Longrightarrow> mild s (on_trigger f s)"
  by (auto simp: mild_def on_trigger_def)

lemma mild_T:
  shows "mild s (T_SetParameter X k v s)" "mild s (SM_StopDetection X u s)" "mild s (ReleaseServiceObject X u s)"
    "mild s (on_trigger (tr_UpdateModel (sx_trigger X) b u ty) s)" "mild s (ClearModels X s)"
    "mild s (on_trigger (tr_ClearConcurrentControlList (sx_trigger X) w bl) s)"
  by (auto simp: T_SetParameter_def SM_StopDetection_def ReleaseServiceObject_def ClearModels_def
      intro!: mild_trigger dest: set_quiet stop_quiet release_quiet update_quiet delete_quiet clear_quiet)

lemma mild_callback: "mild s (engine_callback X c s)"
  by (cases c) (auto simp: engine_callback_def mild_fields mild_T)

lemma mild_set_engines:
  assumes m: "enrolling m \<Longrightarrow> sm_enrol s"
  shows "mild s (set_engines X m s)"
proof -
  have "mild r (fold (engine_callback X) cs r)" for cs and r :: "('a, 'w, 't) ServiceManager"
    by (induction cs arbitrary: r) (auto intro: mild_trans [OF mild_callback])
  moreover have "mild s (s\<lparr>sm_engines := m\<rparr>)" using m by (simp add: mild_def)
  ultimately show ?thesis unfolding set_engines_def by (rule mild_trans [rotated])
qed

lemma mild_SetShortWord: "mild s (SetShortWordStatus X s)"
  by (simp add: SetShortWordStatus_def mild_T)

lemma mild_SetDualMic: "mild s (SetDualMicStatus X s)"
  by (auto simp: SetDualMicStatus_def intro: mild_trans [OF mild_fields(1) mild_T(1)])

lemma mild_Start: "mild s (snd (SM_StartDetection X u s))"
proof (cases "any_engine s")
  case True
  then show ?thesis by (simp add: SM_StartDetection_def)
next
  case False
  then show ?thesis using any_engine_enrol [OF False] by (intro mild_off) simp
qed

lemma mild_SwitchOn: "mild s (SwitchOnProc X u b s)"
proof (cases "any_engine s")
  case True
  then show ?thesis by (simp add: SwitchOnProc_def)
next
  case False
  then show ?thesis using any_engine_enrol [OF False] by (intro mild_off) simp
qed

lemma mild_SwitchOff: "mild s (SwitchOffProc X u s)"
  by (auto simp: SwitchOffProc_def intro: mild_trans [OF mild_fields(7) mild_T(3)])

text \<open>Sequences of mild steps.\<close>

lemma mild_after:
  "mild s r \<Longrightarrow> mild s (on_ctx_s f r)" "mild s r \<Longrightarrow> mild s (sm_post t r)" "mild s r \<Longrightarrow> mild s (HandleCloseWakeupSource b r)"
  "mild s r \<Longrightarrow> mild s (UnloadIntellVoiceService r)" "mild s r \<Longrightarrow> mild s (T_SetParameter X k v r)"
  "mild s r \<Longrightarrow> mild s (SwitchOnProc X u b r)" "mild s r \<Longrightarrow> mild s (SwitchOffProc X u r)"
  "mild s r \<Longrightarrow> mild s (snd (SM_StartDetection X u r))" "mild s r \<Longrightarrow> mild s (SM_StopDetection X u r)"
  "mild s r \<Longrightarrow> mild s (SetShortWordStatus X r)" "mild s r \<Longrightarrow> mild s (SetDualMicStatus X r)"
  "mild s r \<Longrightarrow> (enrolling m \<Longrightarrow> sm_enrol r) \<Longrightarrow> mild s (set_engines X m r)"
  "mild s r \<Longrightarrow> mild s (report_status X st rs r)"
  by (erule mild_trans, rule mild_fields mild_T mild_SwitchOn mild_SwitchOff mild_Start mild_SetShortWord mild_SetDualMic mild_set_engines, assumption?)+

lemmas mild_intros = mild_after mild_refl

lemma mild_CreateOrReset: "mild s (SM_CreateOrReset X s)"
  unfolding SM_CreateOrReset_def by (intro mild_set_engines) simp

lemma mild_Release: "mild s (SM_ReleaseEngine X ty s)"
proof -
  define s1 where "s1 = set_engines X (ReleaseEngineInner (sx_hdi X) (sx_class X) ty (sm_engines s)) s"
  have "mild s s1" unfolding s1_def by (intro mild_set_engines) (rule enrolling_release)
  then show ?thesis unfolding SM_ReleaseEngine_def s1_def [symmetric] Let_def
    by (auto simp: HandleWhisperVprUpdate_def intro!: mild_intros)
qed

lemma mild_engines:
  assumes "enrolling (snd p) = sm_enrol s"
  shows "mild s (set_engines X (snd p) s)"
  by (rule mild_set_engines) (simp add: assms)

lemma mild_Complete: "mild s (task_UpdateComplete X e r p s)"
proof -
  obtain need m where n: "IsNeedUpdateComplete (sx_hdi X) (sx_class X) e r p (sm_engines s) = (need, m)" using prod.exhaust by blast
  then have "enrolling m = sm_enrol s" by (metis enrolling_Complete snd_conv)
  then have "mild s (set_engines X m s)" by (intro mild_set_engines) simp
  then show ?thesis using n by (auto simp: task_UpdateComplete_def after_update_def Let_def intro!: mild_intros)
qed

lemma mild_Retry: "mild s (task_UpdateRetry X s)"
proof -
  obtain need m where n: "IsNeedUpdateRetry (sx_hdi X) (sx_class X) (sm_engines s) = (need, m)" using prod.exhaust by blast
  then have "enrolling m = sm_enrol s" by (metis enrolling_Retry snd_conv)
  then have "mild s (set_engines X m s)" by (intro mild_set_engines) simp
  then show ?thesis using n by (auto simp: task_UpdateRetry_def after_update_def Let_def intro!: mild_intros)
qed

lemma mild_Silence: "mild s (task_SilenceUpdate X e s)"
proof -
  obtain need m where n: "SilenceUpdate (sx_hdi X) (sx_class X) e (sm_engines s) = (need, m)" using prod.exhaust by blast
  then have "enrolling m = sm_enrol s" by (metis enrolling_updates(1) snd_conv)
  then have "mild s (set_engines X m s)" by (intro mild_set_engines) simp
  then show ?thesis using n by (auto simp: task_SilenceUpdate_def Let_def intro!: mild_intros)
qed

lemma mild_task: "mild s (SM_task X e t s)"
  by (cases t) (auto simp: mild_Complete mild_Retry mild_Silence mild_Release task_CloseWakeupSource_def task_Detected_def
      task_StartDetection_def Let_def intro!: mild_intros)

lemma mild_run: "SM_run X e s = Some s' \<Longrightarrow> mild s s'"
  by (auto simp: SM_run_def intro!: mild_trans [OF _ mild_task] split: list.splits) (simp add: mild_def)

lemma mild_clone: "mild s (snd (HandleCloneUpdate X e p c s))"
  by (auto simp: HandleCloneUpdate_def case_prod_unfold intro!: mild_engines)

lemma mild_switch: "mild s (OnSwitchChange X key s)"
proof -
  have "mild s (switch_changed X u k k' f s)" for u k k' f
    by (auto simp: switch_changed_def Let_def intro!: mild_intros)
  moreover have "mild s (task_ShortWord X s)"
    by (auto simp: task_ShortWord_def SM_CreateOrReset_def Let_def intro!: mild_intros)
  ultimately show ?thesis by (simp add: OnSwitchChange_def mild_SetDualMic)
qed

lemma mild_param: "mild s (snd (param_handler X k v s))"
proof -
  have "mild s (snd (HandleDataClear X k v s))"
    by (auto simp: HandleDataClear_def case_prod_unfold intro!: mild_engines)
  moreover have "mild s (HandleSensibility X k v s)" "mild s (HandleWakeupScene X k v s)"
    by (auto simp: HandleSensibility_def HandleWakeupScene_def Let_def intro!: mild_intros)
  moreover have "mild s (HandleConcurrentWhiteList X v s)" "mild s (HandleConcurrentBlackList X v s)"
    unfolding HandleConcurrentWhiteList_def HandleConcurrentBlackList_def by (rule mild_trans [OF mild_fields(1) mild_T(6)])+
  ultimately show ?thesis
    by (auto simp: param_handler_def HandleEngineRelease_def HandleWakeupBundleName_def HandleWakeupAbilityName_def
        HandleCountryInfo_def HandleTriggerParam_def intro!: mild_intros)
qed

lemma mild_wait: "mild s (wait_begin i s)" "mild s (wait_round X i s)"
proof -
  show "mild s (wait_begin i s)" by (auto simp: wait_begin_def intro!: mild_quiet split: prod.split)
  have "mild s (s\<lparr>sm_trigger := snd (tr_GetParameter (sx_trigger X) k (sm_trigger s)), sm_ffrt := q\<rparr>)" for k q
    using get_quiet by (auto simp: mild_def)
  moreover have "mild s (s\<lparr>sm_trigger := snd (tr_GetParameter (sx_trigger X) k (sm_trigger s))\<rparr>)" for k
    using get_quiet by (auto simp: mild_def)
  ultimately show "mild s (wait_round X i s)"
    by (auto simp: wait_round_def Let_def case_prod_unfold intro!: mild_intros)
qed

lemma mild_act:
  assumes "service_act X e a s = Some s'" "a \<noteq> ServiceCreate INTELL_VOICE_ENROLL"
  shows "mild s s'"
proof (cases a)
  case ServiceTask
  then show ?thesis using assms mild_run by auto
next
  case (ServiceCreate ty)
  then show ?thesis using assms by (auto simp: HandleCreateEngine_def case_prod_unfold Let_def intro!: mild_engines)
next
  case (ServiceEngine b)
  then show ?thesis using assms enrolling_own [of b] by (auto split: if_splits intro!: mild_set_engines)
next
  case ServiceClearData
  then show ?thesis using assms by (auto simp: task_ClearUserData_def intro!: mild_intros)
next
  case ServiceStop
  then show ?thesis using assms by (auto simp: HandleServiceStop_def Let_def intro!: mild_intros)
next
  case ServiceClearCb
  then show ?thesis using assms by (auto simp: HandleClearWakeupEngineCb_def intro!: mild_intros)
next
  case (ServiceUpload n)
  have "mild s (set_engines X (snd (snd (EM_GetUploadFiles (sx_hdi X) n (sm_engines s)))) s)" by (rule mild_engines) simp
  then show ?thesis using assms ServiceUpload
    by (auto simp: SM_GetUploadFiles_def ScheduleDelayedUnload_def case_prod_unfold intro: mild_trans [OF _ mild_quiet])
next
  case (ServiceParam k v)
  then show ?thesis using assms mild_param by auto
next
  case (ServiceProvider b)
  have "mild s (s\<lparr>sm_switchProvider := c\<rparr>)" for c by (rule mild_quiet) simp_all
  then show ?thesis using assms ServiceProvider
    by (auto simp: CreateSwitchProvider_def ReleaseSwitchProvider_def Let_def intro!: mild_intros split: if_splits)
next
  case ServiceBreath
  then show ?thesis using assms mild_T(4) by (auto simp: ProcBreathModel_def split: option.splits)
next
  case ServicePowerEnd
  have "mild s (r\<lparr>sm_notifyPowerModeChange := False\<rparr>)" if "mild s r" for r using that by (simp add: mild_def)
  then show ?thesis using assms ServicePowerEnd by (auto simp: PowerMode_end_def intro!: mild_intros split: if_splits)
next
  case ServiceSingle
  have "mild s (s\<lparr>sm_recordStart := -1\<rparr>)" by (rule mild_quiet) simp_all
  then have "mild s (on_ctx_s (emit (StartAbility ''single_level_event'')) (sm_post TaskStopWakeupSource (s\<lparr>sm_recordStart := -1\<rparr>)))"
    by (intro mild_after)
  moreover have "mild r (HandleRecordStartInfoChange r)" for r
    by (simp add: HandleRecordStartInfoChange_def mild_def)
  ultimately have "mild s (OnSingleLevelDetected s)" unfolding OnSingleLevelDetected_def by (rule mild_trans)
  then show ?thesis using assms ServiceSingle by simp
next
  case (ServiceRecord v)
  have "mild s (s\<lparr>sm_recordStart := i\<rparr>)" for i by (rule mild_quiet) simp_all
  then show ?thesis using assms ServiceRecord by (auto simp: SM_ResetSingleLevelWakeup_def Let_def intro!: mild_intros)
next
  case ServiceRecordEnd
  have "mild s (s\<lparr>sm_notifyRecordStartInfoChange := False\<rparr>)" by (rule mild_quiet) simp_all
  then show ?thesis using assms ServiceRecordEnd by (auto simp: RecordStart_end_def intro!: mild_intros split: if_splits)
next
  case ServiceDelayed
  have "mild s (s\<lparr>sm_delayUnloadWaiting := False\<rparr>)" by (rule mild_quiet) simp_all
  then show ?thesis using assms ServiceDelayed by (auto simp: DelayedUnloadService_def intro!: mild_intros split: if_splits)
next
  case ServicePower
  have "mild s (s\<lparr>sm_notifyPowerModeChange := True\<rparr>)" by (rule mild_quiet) simp_all
  then show ?thesis using assms ServicePower by (auto simp: PowerMode_wait_def)
qed (use assms in \<open>auto simp: mild_Release mild_switch mild_clone mild_T mild_wait mild_quiet HandleOnIdle_def OnServiceActive_def
      Let_def intro: mild_intros split: if_splits\<close>)

text \<open>While an enrolment engine exists, neither of the two detections is on.\<close>

definition silent :: "('a, 'w, 't) ServiceManager \<Rightarrow> bool" where
  "silent s \<longleftrightarrow> (sm_enrol s \<longrightarrow> (\<forall>u \<in> {VOICE_WAKEUP_MODEL_UUID, PROXIMAL_WAKEUP_MODEL_UUID}. \<not> detecting (sm_trigger s) u))"

lemma silent_mild: "silent s \<Longrightarrow> mild s s' \<Longrightarrow> silent s'"
  by (auto simp: silent_def mild_def)

lemma silent_create: "silent (snd (HandleCreateEngine X INTELL_VOICE_ENROLL s))"
proof -
  define s1 where "s1 = SM_StopDetection X PROXIMAL_WAKEUP_MODEL_UUID (SM_StopDetection X VOICE_WAKEUP_MODEL_UUID s)"
  define m where "m = snd (CreateEngine (sx_hdi X) (sx_class X) INTELL_VOICE_ENROLL '''' False (sm_engines s1))"
  have s1: "\<not> detecting (sm_trigger s1) VOICE_WAKEUP_MODEL_UUID" "\<not> detecting (sm_trigger s1) PROXIMAL_WAKEUP_MODEL_UUID"
    using stop_ends stop_quiet by (auto simp: s1_def SM_StopDetection_def on_trigger_def) blast+
  define s2 where "s2 = s1\<lparr>sm_engines := m\<rparr>"
  have "mild r (fold (engine_callback X) cs r)" for cs and r :: "('a, 'w, 't) ServiceManager"
    by (induction cs arbitrary: r) (auto intro: mild_trans [OF mild_callback])
  then have "mild s2 (set_engines X m s1)" by (simp add: set_engines_def s2_def)
  moreover have "silent s2" using s1 by (simp add: silent_def s2_def)
  ultimately have "silent (set_engines X m s1)" by (rule silent_mild [rotated])
  then show ?thesis by (simp add: HandleCreateEngine_def case_prod_unfold Let_def s1_def m_def)
qed

lemma silent_step: "silent s \<Longrightarrow> service_step X ev s s' \<Longrightarrow> silent s'"
proof (erule service_step.cases)
  fix e a r r' assume "silent s" "s = r" "s' = r'" "service_act X e a r = Some r'"
  then show "silent s'" using silent_mild mild_act silent_create [of r] by (cases "a = ServiceCreate INTELL_VOICE_ENROLL") auto
next
  fix r t assume "silent s" "s = r" "s' = r\<lparr>sm_trigger := t\<rparr>" "ev (sm_trigger r) t"
  moreover from this have "mild r (r\<lparr>sm_trigger := t\<rparr>)" using event_quiet by (auto simp: mild_def)
  ultimately show "silent s'" using silent_mild by blast
qed

lemma silent_start: "service_start init s \<Longrightarrow> silent s"
  by (auto simp: service_start_def silent_def service_new_def manager_new_def enrolling_def)

end

sublocale detection_backend \<subseteq> silence: invariant_system "service_start init" "service_step X ev" silent for init
  by unfold_locales (rule silent_start, assumption, rule silent_step, assumption+)

section \<open>Requests to unload\<close>

text \<open>The number of requests, and the flag by which clone updates and the clearing of data are refused.\<close>

definition unloading :: "('a, 'w, 't) ServiceManager \<Rightarrow> nat \<times> bool" where
  "unloading s = (sm_unloads s, sm_serviceUnloading s)"

lemma unloading_fields [simp]:
  "unloading (s\<lparr>sm_trigger := t\<rparr>) = unloading s" "unloading (s\<lparr>sm_engines := m\<rparr>) = unloading s"
  "unloading (s\<lparr>sm_switchProvider := b\<rparr>) = unloading s" "unloading (s\<lparr>sm_db := db\<rparr>) = unloading s"
  "unloading (s\<lparr>sm_isStarted := st\<rparr>) = unloading s" "unloading (s\<lparr>sm_taskHandle := ks\<rparr>) = unloading s"
  "unloading (s\<lparr>sm_ffrt := q\<rparr>) = unloading s" "unloading (s\<lparr>sm_notifyPowerModeChange := b\<rparr>) = unloading s"
  "unloading (s\<lparr>sm_recordStart := i\<rparr>) = unloading s" "unloading (s\<lparr>sm_notifyRecordStartInfoChange := b\<rparr>) = unloading s"
  "unloading (s\<lparr>sm_delayUnloadWaiting := b\<rparr>) = unloading s" "unloading (s\<lparr>sm_lastCallTime := i\<rparr>) = unloading s"
  by (simp_all add: unloading_def)

lemma unloads_frames [simp]:
  "unloading (on_ctx_s f s) = unloading s" "unloading (sm_post t s) = unloading s" "unloading (on_trigger g s) = unloading s"
  "unloading (T_SetParameter X k v s) = unloading s" "unloading (HandleCloseWakeupSource b s) = unloading s"
  "unloading (ReleaseImplicitEnrollEngine_s s) = unloading s" "unloading (report_status X st r s) = unloading s"
  "unloading (SM_StopDetection X u s) = unloading s" "unloading (SetShortWordStatus X s) = unloading s"
  "unloading (SetDualMicStatus X s) = unloading s" "unloading (DelStartDetectionTask u s) = unloading s"
  "unloading (snd (AddStartDetectionTask u s)) = unloading s" "unloading (ReleaseServiceObject X u s) = unloading s"
  by (simp_all add: on_ctx_s_def sm_post_def on_trigger_def T_SetParameter_def HandleCloseWakeupSource_def
      ReleaseImplicitEnrollEngine_s_def report_status_def SM_StopDetection_def SetShortWordStatus_def SetDualMicStatus_def
      DelStartDetectionTask_def AddStartDetectionTask_def ReleaseServiceObject_def Let_def)

lemma unloads_callback [simp]: "unloading (engine_callback X c s) = unloading s"
  by (cases c) (simp_all add: engine_callback_def)

lemma unloads_set_engines [simp]: "unloading (set_engines X m s) = unloading s"
proof -
  have "unloading (fold (engine_callback X) cs r) = unloading r" for cs and r :: "('a, 'b, 'c) ServiceManager"
    by (induction cs arbitrary: r) simp_all
  then show ?thesis by (simp add: set_engines_def)
qed

lemma unloads_detection [simp]:
  "unloading (snd (SM_StartDetection X u s)) = unloading s" "unloading (SM_CreateOrReset X s) = unloading s"
  "unloading (SwitchOnProc X u b s) = unloading s" "unloading (SwitchOffProc X u s) = unloading s"
proof -
  show st: "unloading (snd (SM_StartDetection X u s)) = unloading s" for s :: "('a, 'b, 'c) ServiceManager"
    by (simp add: SM_StartDetection_def Let_def split: prod.split)
  show cr: "unloading (SM_CreateOrReset X s) = unloading s" for s :: "('a, 'b, 'c) ServiceManager" by (simp add: SM_CreateOrReset_def)
  show "unloading (SwitchOnProc X u b s) = unloading s" by (simp add: SwitchOnProc_def CreateAndStartServiceObject_def Let_def st cr)
  show "unloading (SwitchOffProc X u s) = unloading s" by (simp add: SwitchOffProc_def)
qed

text \<open>A step either requests nothing or ends with the check.\<close>

definition last_unload :: "('a, 'w, 't) ServiceManager \<Rightarrow> ('a, 'w, 't) ServiceManager \<Rightarrow> bool" where
  "last_unload s s' \<longleftrightarrow> unloading s' = unloading s \<or> (\<exists>r. s' = UnloadIntellVoiceService r \<and> unloading r = unloading s)"

lemma last_unloadI: "unloading s' = unloading s \<Longrightarrow> last_unload s s'" "unloading r = unloading s \<Longrightarrow> last_unload s (UnloadIntellVoiceService r)"
  by (auto simp: last_unload_def)

lemma last_unload_release: "last_unload s (SM_ReleaseEngine X ty s)"
  by (simp add: SM_ReleaseEngine_def Let_def HandleWhisperVprUpdate_def last_unloadI)

lemma last_unload_task: "last_unload s (SM_task X e t s)"
  by (cases t) (auto simp: task_UpdateComplete_def task_UpdateRetry_def task_SilenceUpdate_def after_update_def last_unload_release
      task_CloseWakeupSource_def task_Detected_def task_StartDetection_def Let_def case_prod_unfold intro!: last_unloadI)

lemma last_unload_run: "SM_run X e s = Some s' \<Longrightarrow> last_unload s s'"
proof -
  have "last_unload (s\<lparr>sm_engines := m\<rparr>) r = last_unload s r" for m r by (simp add: last_unload_def)
  moreover assume "SM_run X e s = Some s'"
  then obtain t m where "s' = SM_task X e t (s\<lparr>sm_engines := m\<rparr>)" by (auto simp: SM_run_def split: list.splits)
  ultimately show ?thesis using last_unload_task [of "s\<lparr>sm_engines := m\<rparr>" X e t] by simp
qed

lemma last_unload_param: "unloading (snd (param_handler X k v s)) = unloading s"
  by (simp add: param_handler_def HandleDataClear_def HandleEngineRelease_def HandleSensibility_def HandleWakeupBundleName_def
      HandleWakeupAbilityName_def HandleCountryInfo_def HandleWakeupScene_def HandleConcurrentWhiteList_def
      HandleConcurrentBlackList_def HandleTriggerParam_def Let_def case_prod_unfold)

lemma last_unload_switch: "last_unload s (OnSwitchChange X k s)"
proof -
  have "last_unload s (switch_changed X u k k' f s)" for u k k' f
    by (auto simp: switch_changed_def Let_def intro!: last_unloadI)
  moreover have "last_unload s (task_ShortWord X s)" by (simp add: task_ShortWord_def Let_def last_unloadI)
  ultimately show ?thesis by (simp add: OnSwitchChange_def last_unloadI)
qed

lemma last_unload_act:
  "service_act X e a s = Some s' \<Longrightarrow> a \<noteq> ServiceIdle \<Longrightarrow> a \<noteq> ServiceActive \<Longrightarrow> last_unload s s'"
proof (cases a)
  case ServiceTask
  assume "service_act X e a s = Some s'"
  then show ?thesis using ServiceTask last_unload_run by auto
next
  case (ServiceRelease ty)
  assume "service_act X e a s = Some s'"
  then show ?thesis using ServiceRelease last_unload_release by auto
next
  case (ServiceSwitch k)
  assume "service_act X e a s = Some s'"
  then show ?thesis using ServiceSwitch last_unload_switch by (auto split: if_splits)
qed (auto simp: last_unload_release last_unload_switch last_unload_param HandleCreateEngine_def HandleCloneUpdate_def ClearModels_def
      task_ClearUserData_def HandleServiceStop_def HandleClearWakeupEngineCb_def HandleOnIdle_def OnServiceActive_def SM_GetUploadFiles_def
      ScheduleDelayedUnload_def DelayedUnloadService_def CreateSwitchProvider_def ReleaseSwitchProvider_def ProcBreathModel_def
      PowerMode_wait_def PowerMode_end_def OnSingleLevelDetected_def HandleRecordStartInfoChange_def SM_ResetSingleLevelWakeup_def
      RecordStart_end_def wait_begin_def wait_round_def Let_def case_prod_unfold intro!: last_unloadI split: if_splits option.splits)

text \<open>\<open>OnServiceActive\<close> and \<open>HandleOnIdle\<close> set the flag anew and make no request.\<close>

inductive service_later ::
  "('a, 'w, 't) service_env \<Rightarrow> ('t \<Rightarrow> 't \<Rightarrow> bool) \<Rightarrow> ('a, 'w, 't) ServiceManager \<Rightarrow> ('a, 'w, 't) ServiceManager \<Rightarrow> bool"
  for X ev where
  sl_act: "service_act X e a s = Some s' \<Longrightarrow> a \<noteq> ServiceIdle \<Longrightarrow> a \<noteq> ServiceActive \<Longrightarrow> service_later X ev s s'"
| sl_trigger: "ev (sm_trigger s) t \<Longrightarrow> service_later X ev s (s\<lparr>sm_trigger := t\<rparr>)"

lemma last_unload_later: "service_later X ev s s' \<Longrightarrow> last_unload s s'"
  by (auto elim!: service_later.cases intro: last_unload_act last_unloadI)

lemma last_unload_step: "service_step X ev s s' \<Longrightarrow> sm_unloads s' \<noteq> sm_unloads s \<Longrightarrow> last_unload s s'"
proof (erule service_step.cases, goal_cases)
  case (1 e a r r')
  then show ?case by (cases "a = ServiceIdle \<or> a = ServiceActive") (auto simp: HandleOnIdle_def OnServiceActive_def Let_def dest: last_unload_act)
qed (simp add: last_unloadI)

lemma unloading_stays: "(service_later X ev)\<^sup>*\<^sup>* s t \<Longrightarrow> sm_serviceUnloading s \<Longrightarrow> sm_serviceUnloading t"
proof (induction rule: rtranclp_induct)
  case (step r t)
  then show ?case using last_unload_later [OF step(2)]
    by (auto simp: last_unload_def unloading_def UnloadIntellVoiceService_def split: if_splits)
qed


section \<open>Builds without a trigger\<close>

definition DummyTriggerManager :: "unit trigger_ops" where
  "DummyTriggerManager = \<lparr>tr_StartDetection = (\<lambda>_ t. (1, t)), tr_StopDetection = (\<lambda>_ t. t), tr_CreateDetector = (\<lambda>_ t. t),
     tr_ReleaseTriggerDetector = (\<lambda>_ t. t), tr_IsModelExist = (\<lambda>_ _. False), tr_UpdateModel = (\<lambda>_ _ _ t. t), tr_DeleteModel = (\<lambda>_ t. t),
     tr_SetParameter = (\<lambda>_ _ t. (0, t)), tr_GetParameter = (\<lambda>_ t. ('''', t)), tr_ClearConcurrentControlList = (\<lambda>_ _ t. t)\<rparr>"

interpretation dummy: detection_backend "X\<lparr>sx_trigger := DummyTriggerManager\<rparr>" "\<lambda>_ _. False" "\<lambda>_ _. True" for X
  by unfold_locales simp_all

definition dummy_env :: "(unit, nat, unit) service_env" where
  "dummy_env = \<lparr>sx_hdi = demo_hdi, sx_class = demo_class, sx_trigger = DummyTriggerManager,
     sx_device = \<lparr>wd_open = (\<lambda>_. True), wd_ioctl = (\<lambda>_ _. True)\<rparr>, sx_concurrent = False\<rparr>"

definition unload_demo :: "(unit, nat, unit) ServiceManager" where
  "unload_demo = sm_post TaskUnload (service_new () (manager_new demo_ctx) (\<lambda>_. Some (Some ''0'')))"


end
