(* ===== verification/Service_Detection.thy ===== *)
theory Service_Detection
  imports Service_Manager
begin

text \<open>
  The service with the trigger manager of \<open>Trigger_Service\<close> as its back end: the laws of \<open>detection_backend\<close> hold for it, so
  no detector detects while an enrolment engine exists; when the service asks to be unloaded; and how a detection
  comes back. The end of the theory holds observations on the code.
\<close>

section \<open>The trigger manager as back end\<close>

text \<open>A fault of the trigger manager is kept as its state.\<close>

definition lift_op :: "('g \<Rightarrow> ('r \<times> 'g) outcome) \<Rightarrow> 'r \<Rightarrow> 'g outcome \<Rightarrow> 'r \<times> 'g outcome" where
  "lift_op f d t =
     (case t of
        Inl e \<Rightarrow> (d, Inl e)
      | Inr g \<Rightarrow> (case f g of Inl e \<Rightarrow> (d, Inl e) | Inr (r, g') \<Rightarrow> (r, Inr g')))"

text \<open>The callback of a detector is named by its key.\<close>

definition trigger_manager_ops :: "'h sys_env \<Rightarrow> 'd rdb \<Rightarrow> ('h, 'd) TriggerManager outcome trigger_ops" where
  "trigger_manager_ops S R = \<lparr>
     tr_StartDetection = (\<lambda>u. lift_op (StartDetection (se_env S) R u) (-1)),
     tr_StopDetection = (\<lambda>u. map_sum id (StopDetection (se_env S) R u)),
     tr_CreateDetector = (\<lambda>u. map_sum id (CreateDetector u (nat u))),
     tr_ReleaseTriggerDetector = (\<lambda>u. map_sum id (ReleaseTriggerDetector (se_env S) R u)),
     tr_IsModelExist = (\<lambda>u t. case t of Inl _ \<Rightarrow> False | Inr g \<Rightarrow> IsModelExist R u g),
     tr_UpdateModel = (\<lambda>b u ty. map_sum id (UpdateModel R b u ty)),
     tr_DeleteModel = (\<lambda>u. map_sum id (DeleteModel R u)),
     tr_SetParameter = (\<lambda>k v. lift_op (\<lambda>g. Ret (Mgr_SetParameter (se_env S) R k v g)) (-1)),
     tr_GetParameter = (\<lambda>k. lift_op (\<lambda>g. Ret (Mgr_GetParameter (se_env S) R k g)) ''''),
     tr_ClearConcurrentControlList = (\<lambda>w b t. case t of Inl e \<Rightarrow> Inl e | Inr g \<Rightarrow> Mgr_ClearConcurrentControlList S R w b g)\<rparr>"

text \<open>A model the helper has been asked to recognize, and a detector that detects.\<close>

definition requested :: "'h TriggerHelper \<Rightarrow> int \<Rightarrow> bool" where
  "requested t k \<longleftrightarrow> (\<exists>x. om_find k (th_modelDataMap t) = Some x \<and> md_requested x)"

definition asked :: "('h, 'd) TriggerManager \<Rightarrow> int \<Rightarrow> bool" where
  "asked g k \<longleftrightarrow> (\<exists>s t l. tg_service g = Some s \<and> ts_triggerHelper s = Some (t, l) \<and> requested t k)"

definition detects :: "('h, 'd) TriggerManager outcome \<Rightarrow> int \<Rightarrow> bool" where
  "detects m u \<longleftrightarrow> (\<exists>g d. m = Inr g \<and> om_find u (tg_detectors g) = Some (Some d) \<and> asked g (dt_uuid d))"

text \<open>The helper's own events: the scene changes and the recognitions follow, a fold event restarts them, a
  model is recognized, or something changes that the models do not see. (Changes of the audio input pipes, which may
  start a model nobody asked for, are in \<open>Trigger_Pipes\<close>.)\<close>

inductive helper_event :: "'h TriggerHelper \<Rightarrow> 'h TriggerHelper \<Rightarrow> bool" where
  he_scene: "th_modelDataMap t' = th_modelDataMap t \<Longrightarrow> helper_event t (OnUpdateAllRecognitionState E t')"
| he_fold: "th_modelDataMap t' = th_modelDataMap t \<Longrightarrow> helper_event t (RestartAllRecognition E t')"
| he_recognized: "helper_event t (OnRecognition h t)"
| he_other: "th_modelDataMap t' = th_modelDataMap t \<Longrightarrow> helper_event t t'"

inductive trigger_event :: "'d rdb \<Rightarrow> ('h, 'd) TriggerManager outcome \<Rightarrow> ('h, 'd) TriggerManager outcome \<Rightarrow> bool" for R where
  "tg_service g = Some s \<Longrightarrow> ts_triggerHelper s = Some (t, l) \<Longrightarrow> helper_event t t' \<Longrightarrow>
   trigger_event R (Inr g) (Inr (g\<lparr>tg_service := Some (set_helper R (t, l) (t', l') s)\<rparr>))"

subsection \<open>Requests\<close>

text \<open>From \<open>t\<close> to \<open>u\<close> no model is newly requested.\<close>

definition no_request :: "'h TriggerHelper \<Rightarrow> 'h TriggerHelper \<Rightarrow> bool" where
  "no_request t u \<longleftrightarrow> (\<forall>k. requested u k \<longrightarrow> requested t k)"

lemma no_request_refl: "no_request t t"
  by (simp add: no_request_def)

lemma no_request_trans: "no_request t u \<Longrightarrow> no_request u v \<Longrightarrow> no_request t v"
  by (simp add: no_request_def)

lemma no_request_same: "th_modelDataMap u = th_modelDataMap t \<Longrightarrow> no_request t u"
  by (simp add: no_request_def requested_def)

lemma only_requested: "only k t u \<Longrightarrow> requested u j = requested t j"
proof (cases "j = k")
  case True
  assume o: "only k t u"
  have "om_find k (th_modelDataMap u) = None" if "om_find k (th_modelDataMap t) = None"
    using onlyD(2) [OF o] that by (metis om_keys_find)
  then show ?thesis using o True unfolding only_def requested_def by (cases "om_find k (th_modelDataMap t)") auto
qed (simp add: only_def requested_def)

lemma no_request_only: "only k t u \<Longrightarrow> no_request t u"
  by (simp add: no_request_def only_requested)

lemma no_request_Prepare_loop:
  "no_request t (UpdateAll_loop E ks t)" "no_request t (StartAll_loop E ks t)" "no_request t (StopAll_loop E ks t)"
proof -
  show "no_request t (UpdateAll_loop E ks t)"
  proof (induction ks arbitrary: t)
    case (Cons k ks)
    show ?case unfolding UpdateAll_loop_round
      using no_request_trans [OF no_request_only [OF only_update_round [of k t E]] Cons.IH] no_request_only [OF only_update_round [of k t E]]
      by simp
  qed (simp add: no_request_refl)
  show "no_request t (StartAll_loop E ks t)"
  proof (induction ks arbitrary: t)
    case (Cons k ks)
    show ?case unfolding StartAll_loop_Cons
      by (auto split: option.split intro: Cons.IH no_request_only only_Prepare
          no_request_trans [OF no_request_only [OF only_restart(2)] Cons.IH])
  qed (simp add: no_request_refl)
  show "no_request t (StopAll_loop E ks t)"
  proof (induction ks arbitrary: t)
    case (Cons k ks)
    then show ?case by (auto split: option.split intro: no_request_trans [OF no_request_only [OF only_StopRecognition]])
  qed (simp add: no_request_refl)
qed

lemma requested_upd: "requested (upd_md k f t) j \<longleftrightarrow> (if j = k then \<exists>x. om_find k (th_modelDataMap t) = Some x \<and> md_requested (f x) else requested t j)"
  by (auto simp: requested_def upd_md_def)

lemma no_request_upd: "(\<And>x. md_requested (f x) = md_requested x) \<Longrightarrow> no_request t (upd_md k f t)"
  by (auto simp: no_request_def requested_upd) (auto simp: requested_def)

lemma no_request_OnRecognition: "no_request t (OnRecognition h t)"
proof -
  have up: "no_request t (upd_md k (\<lambda>x. x\<lparr>md_state := MODEL_LOADED\<rparr>) t)" for k by (rule no_request_upd) simp
  have same: "no_request u (u\<lparr>th_calls := cs\<rparr>)" for cs and u :: "'a TriggerHelper" by (rule no_request_same) simp
  show ?thesis using up no_request_trans [OF up same]
    by (auto simp: OnRecognition_def Let_def no_request_refl split: option.split)
qed

lemma no_request_event: "helper_event t u \<Longrightarrow> no_request t u"
proof (erule helper_event.cases)
  fix t' r E assume e: "t = r" "u = OnUpdateAllRecognitionState E t'" "th_modelDataMap t' = th_modelDataMap r"
  show "no_request t u" unfolding e OnUpdateAllRecognitionState_def
    by (rule no_request_trans [OF no_request_same [OF e(3)] no_request_Prepare_loop(1)])
next
  fix t' r E assume e: "t = r" "u = RestartAllRecognition E t'" "th_modelDataMap t' = th_modelDataMap r"
  show "no_request t u" unfolding e RestartAllRecognition_def StartAllRecognition_def StopAllRecognition_def
    by (rule no_request_trans [OF no_request_trans [OF no_request_same [OF e(3)] no_request_Prepare_loop(3)] no_request_Prepare_loop(2)])
qed (auto intro: no_request_OnRecognition no_request_same)

lemma no_request_Stop: "no_request t (snd (StopGenericRecognition E k t))" and stop_unrequests: "\<not> requested (snd (StopGenericRecognition E k t)) k"
proof -
  let ?u = "upd_md k (\<lambda>x. x\<lparr>md_requested := False\<rparr>) t"
  obtain r v where v: "StopRecognition E k ?u = (r, v)" using prod.exhaust by blast
  have "only k ?u v" using only_StopRecognition [of k ?u E] v by simp
  then have rv: "requested v j = requested ?u j" for j by (rule only_requested)
  have rc: "requested (upd_md k ClearCallback v) j = requested v j" for j
    by (auto simp: requested_upd ClearCallback_def) (auto simp: requested_def)
  have "requested ?u j \<longleftrightarrow> j \<noteq> k \<and> requested t j" for j by (simp add: requested_upd)
  then have "requested (snd (StopGenericRecognition E k t)) j \<longleftrightarrow> j \<noteq> k \<and> requested t j" for j
    using v rv rc by (auto simp: StopGenericRecognition_def GetTriggerModelData_def requested_def split: option.split)
  then show "no_request t (snd (StopGenericRecognition E k t))" "\<not> requested (snd (StopGenericRecognition E k t)) k"
    by (simp_all add: no_request_def)
qed

lemma no_request_Unload: "no_request t (UnloadGenericTriggerModel E k t)"
proof -
  let ?v = "snd (UnloadModel E k (snd (StopRecognition E k t)))"
  have "no_request t ?v"
    by (rule no_request_trans [OF no_request_only [OF only_StopRecognition] no_request_only [OF only_UnloadModel]])
  moreover have "no_request ?v (?v\<lparr>th_modelDataMap := om_erase k (th_modelDataMap ?v)\<rparr>)"
    by (auto simp: no_request_def requested_def omap.find_erase split: if_splits)
  ultimately have "no_request t (?v\<lparr>th_modelDataMap := om_erase k (th_modelDataMap ?v)\<rparr>)" by (rule no_request_trans)
  then show ?thesis by (simp add: UnloadGenericTriggerModel_def Let_def no_request_refl split: option.split)
qed

lemma no_request_params: "no_request t (snd (SetParameter E k v t))" "no_request t (snd (GetParameter E k t))"
proof -
  show "no_request t (snd (SetParameter E k v t))"
    using GetModule_frame(1) [of E t]
    by (intro no_request_same) (auto simp: SetParameter_def module_SetParams_def split: prod.splits bool.splits)
  show "no_request t (snd (GetParameter E k t))"
    using GetModule_frame(1) [of E t]
    by (intro no_request_same) (auto simp: GetParameter_def split: prod.splits bool.splits option.splits)
qed

subsection \<open>The manager\<close>

text \<open>An operation of the service that leaves the helper, or replaces it by one with no new request.\<close>

definition svc_quiet :: "('h, 'd) TriggerService \<Rightarrow> ('h, 'd) TriggerService \<Rightarrow> bool" where
  "svc_quiet s s' \<longleftrightarrow> (\<forall>t' l'. ts_triggerHelper s' = Some (t', l') \<longrightarrow> (\<exists>t l. ts_triggerHelper s = Some (t, l) \<and> no_request t t'))"

lemma svc_quiet_same: "ts_triggerHelper s' = ts_triggerHelper s \<Longrightarrow> svc_quiet s s'"
  by (auto simp: svc_quiet_def no_request_refl)

lemma svc_quiet_set: "ts_triggerHelper s = Some (t, l) \<Longrightarrow> no_request t u \<Longrightarrow> svc_quiet s (set_helper R (t, l) (u, l') s)"
  by (simp add: svc_quiet_def set_helper_def)

lemma svc_quiet_ops:
  "svc_quiet s (snd (Svc_StopRecognition E R u s))" "svc_quiet s (Svc_UnloadTriggerModel E R u s)"
  "svc_quiet s (snd (Svc_SetParameter E R k v s))" "svc_quiet s (snd (Svc_GetParameter E R k s))"
  "svc_quiet s (Svc_UpdateGenericTriggerModel R m s)" "svc_quiet s (Svc_DeleteGenericTriggerModel R u s)"
proof -
  show "svc_quiet s (snd (Svc_StopRecognition E R u s))"
    by (auto simp: Svc_StopRecognition_def case_prod_unfold svc_quiet_same no_request_Stop split: option.split intro: svc_quiet_set)
  show "svc_quiet s (Svc_UnloadTriggerModel E R u s)"
    by (auto simp: Svc_UnloadTriggerModel_def svc_quiet_same no_request_Unload split: option.split intro: svc_quiet_set)
  show "svc_quiet s (snd (Svc_SetParameter E R k v s))"
    by (auto simp: Svc_SetParameter_def case_prod_unfold svc_quiet_same no_request_params split: option.split intro: svc_quiet_set)
  show "svc_quiet s (snd (Svc_GetParameter E R k s))"
    by (auto simp: Svc_GetParameter_def case_prod_unfold svc_quiet_same no_request_params split: option.split intro: svc_quiet_set)
qed (auto simp: Svc_UpdateGenericTriggerModel_def Svc_DeleteGenericTriggerModel_def intro!: svc_quiet_same)

text \<open>An operation of the manager that adds no detector and no request.\<close>

definition mgr_quiet :: "('h, 'd) TriggerManager \<Rightarrow> ('h, 'd) TriggerManager \<Rightarrow> bool" where
  "mgr_quiet g g' \<longleftrightarrow> (\<forall>u d. om_find u (tg_detectors g') = Some (Some d) \<longrightarrow> om_find u (tg_detectors g) = Some (Some d)) \<and>
     (\<forall>k. asked g' k \<longrightarrow> asked g k)"

lemma asked_quiet: "tg_service g = Some s \<Longrightarrow> svc_quiet s s' \<Longrightarrow> asked (g\<lparr>tg_service := Some s'\<rparr>) k \<Longrightarrow> asked g k"
  by (auto simp: asked_def svc_quiet_def no_request_def)

lemma detects_quiet: "mgr_quiet g g' \<Longrightarrow> detects (Inr g') u \<Longrightarrow> detects (Inr g) u"
  by (auto simp: detects_def mgr_quiet_def)

lemma mgr_quiet_refl: "mgr_quiet g g"
  by (simp add: mgr_quiet_def)

lemma mgr_quiet_svc: "tg_service g = Some s \<Longrightarrow> svc_quiet s s' \<Longrightarrow> mgr_quiet g (g\<lparr>tg_service := Some s'\<rparr>)"
  using asked_quiet by (fastforce simp: mgr_quiet_def)

lemma mgr_quiet_ops:
  "mgr_quiet g (StopDetection E R u g)" "mgr_quiet g (ReleaseTriggerDetector E R u g)" "mgr_quiet g (UpdateModel R b u ty g)"
  "mgr_quiet g (DeleteModel R u g)" "mgr_quiet g (snd (Mgr_SetParameter E R k v g))" "mgr_quiet g (snd (Mgr_GetParameter E R k g))"
proof -
  show "mgr_quiet g (UpdateModel R b u ty g)"
    by (auto simp: UpdateModel_def mgr_quiet_refl svc_quiet_ops intro!: mgr_quiet_svc split: option.split)
  show "mgr_quiet g (DeleteModel R u g)"
    by (auto simp: DeleteModel_def mgr_quiet_def asked_def Svc_DeleteGenericTriggerModel_def)
  show "mgr_quiet g (snd (Mgr_SetParameter E R k v g))" "mgr_quiet g (snd (Mgr_GetParameter E R k g))"
    by (auto simp: Mgr_SetParameter_def Mgr_GetParameter_def mgr_quiet_refl svc_quiet_ops case_prod_unfold intro!: mgr_quiet_svc split: option.split)
  have none: "mgr_quiet g (g\<lparr>tg_service := None\<rparr>)" by (simp add: mgr_quiet_def asked_def)
  show "mgr_quiet g (StopDetection E R u g)"
    using none by (auto simp: StopDetection_def Detector_StopRecognition_def mgr_quiet_refl svc_quiet_ops intro!: mgr_quiet_svc split: option.split)
  have er: "mgr_quiet h (h\<lparr>tg_detectors := om_erase u (tg_detectors h)\<rparr>)" for h :: "('a, 'b) TriggerManager"
    by (auto simp: mgr_quiet_def asked_def)
  have "mgr_quiet g (g\<lparr>tg_service := Detector_UnloadTriggerModel E R d (tg_service g)\<rparr>)" for d
    using none by (cases "tg_service g") (auto simp: Detector_UnloadTriggerModel_def svc_quiet_ops intro: mgr_quiet_svc)
  then have "mgr_quiet g (g\<lparr>tg_service := Detector_UnloadTriggerModel E R d (tg_service g), tg_detectors := om_erase u (tg_detectors g)\<rparr>)" for d
    using er [of "g\<lparr>tg_service := Detector_UnloadTriggerModel E R d (tg_service g)\<rparr>"] by (auto simp: mgr_quiet_def)
  then show "mgr_quiet g (ReleaseTriggerDetector E R u g)"
    using er by (simp add: ReleaseTriggerDetector_def mgr_quiet_refl split: option.split)
qed

lemma mgr_quiet_clear:
  assumes "Mgr_ClearConcurrentControlList S R w b g = Inr g'"
  shows "mgr_quiet g g'"
proof -
  have n: "no_request t (ClearConcurrentControlList w b t)" for t :: "'a TriggerHelper"
    by (rule no_request_same) (simp add: ClearConcurrentControlList_def)
  have "svc_quiet s s'" if "Svc_ClearConcurrentControlList R w b s = Inr s'" for s s' :: "('a, 'b) TriggerService"
    using that n by (auto simp: Svc_ClearConcurrentControlList_def on_helper_def obind_eq_Ret svc_quiet_same
        intro: svc_quiet_set split: option.splits prod.splits)
  then show ?thesis using assms
    by (auto simp: Mgr_ClearConcurrentControlList_def on_service_def obind_eq_Ret mgr_quiet_refl intro: mgr_quiet_svc
        split: if_splits option.splits)
qed

lemma detects_map: "(\<And>g. mgr_quiet g (f g)) \<Longrightarrow> detects (map_sum id f t) v \<Longrightarrow> detects t v"
  using detects_quiet by (cases t) (fastforce simp: detects_def)+

lemma detects_lift: "(\<And>g. mgr_quiet g (snd (f g))) \<Longrightarrow> detects (snd (lift_op (\<lambda>g. Ret (f g)) d t)) v \<Longrightarrow> detects t v"
  using detects_quiet by (cases t) (auto simp: lift_op_def case_prod_unfold)

lemma stop_ends_detection: "\<not> detects (map_sum id (StopDetection E R u) t) u"
proof (cases t)
  case (Inr g)
  have "\<not> asked (StopDetection E R u g) (dt_uuid d)" if "om_find u (tg_detectors g) = Some (Some d)" for d
    using that stop_unrequests [of E "dt_uuid d"]
    by (auto simp: StopDetection_def Detector_StopRecognition_def Svc_StopRecognition_def asked_def set_helper_def case_prod_unfold
        split: option.splits)
  moreover have "tg_detectors (StopDetection E R u g) = tg_detectors g"
    by (simp add: StopDetection_def split: option.split)
  ultimately show ?thesis by (auto simp: Inr detects_def)
qed (simp add: detects_def)

interpretation service: detection_backend "X\<lparr>sx_trigger := trigger_manager_ops S R\<rparr>" detects "trigger_event R" for X S R
proof (unfold_locales, goal_cases)
  case (1 u t)
  then show ?case using stop_ends_detection by (simp add: trigger_manager_ops_def)
next
  case (8 w b t v)
  show ?case
  proof (cases t)
    case (Inr g)
    then have d: "detects (Mgr_ClearConcurrentControlList S R w b g) v" using 8 by (simp add: trigger_manager_ops_def)
    then obtain g' where g: "Mgr_ClearConcurrentControlList S R w b g = Inr g'" by (auto simp: detects_def)
    show ?thesis using detects_quiet [OF mgr_quiet_clear [OF g]] d g Inr by simp
  qed (use 8 in \<open>simp add: trigger_manager_ops_def detects_def\<close>)
next
  case (9 t t' v)
  from 9(1) show ?case
  proof cases
    case (1 g s h l h' l')
    then have "mgr_quiet g (g\<lparr>tg_service := Some (set_helper R (h, l) (h', l') s)\<rparr>)"
      using svc_quiet_set [OF _ no_request_event] by (intro mgr_quiet_svc) auto
    then show ?thesis using detects_quiet 9(2) 1 by blast
  qed
qed (auto simp: trigger_manager_ops_def dest: detects_map [rotated] detects_lift [rotated] intro: mgr_quiet_ops)

section \<open>Properties\<close>


subsection \<open>A run\<close>

definition sdemo_env :: "(unit, nat, (nat, int \<rightharpoonup> trigger_row) TriggerManager outcome) service_env" where
  "sdemo_env = \<lparr>sx_hdi = demo_hdi, sx_class = demo_class, sx_trigger = trigger_manager_ops (demo_sys\<lparr>se_env := ready_env\<rparr>) map_rdb,
     sx_device = \<lparr>wd_open = (\<lambda>_. True), wd_ioctl = (\<lambda>_ _. True)\<rparr>, sx_concurrent = False\<rparr>"

definition sdemo_start :: "(unit, nat, (nat, int \<rightharpoonup> trigger_row) TriggerManager outcome) ServiceManager" where
  "sdemo_start = service_new (Inr (UpdateModel map_rdb [42] 1 VOICE_WAKEUP_TYPE (TriggerManager_new demo_service))) (manager_new demo_ctx)
     (\<lambda>k. Some (if k = WAKEUP_KEY then Some ''1'' else None))"

text \<open>The provider appears, the switch is noticed and the detection starts; then a client enrols.\<close>

definition sdemo_on :: "(unit, nat, (nat, int \<rightharpoonup> trigger_row) TriggerManager outcome) ServiceManager" where
  "sdemo_on = OnSwitchChange sdemo_env WAKEUP_KEY (CreateSwitchProvider sdemo_env True sdemo_start)"

definition sdemo_run :: "(unit, nat, (nat, int \<rightharpoonup> trigger_row) TriggerManager outcome) ServiceManager" where
  "sdemo_run = snd (HandleCreateEngine sdemo_env INTELL_VOICE_ENROLL sdemo_on)"

lemma sdemo_reach: "reach (service_start (\<lambda>_. True)) (service_step sdemo_env (trigger_event map_rdb)) sdemo_run"
proof -
  let ?st = "service_step sdemo_env (trigger_event map_rdb)"
  let ?p = "CreateSwitchProvider sdemo_env True sdemo_start"
  note st = reach_step [where step = ?st]
  have "service_start (\<lambda>_. True) sdemo_start" by (auto simp: service_start_def sdemo_start_def)
  then have 0: "reach (service_start (\<lambda>_. True)) ?st sdemo_start" using reach_start [of "service_start (\<lambda>_. True)"] by blast
  have "service_act sdemo_env update_demo_env (ServiceProvider True) sdemo_start = Some ?p" by simp
  from st [OF 0 sv_act [OF this]] have 1: "reach (service_start (\<lambda>_. True)) ?st ?p" .
  have "sm_switchProvider ?p" by (simp add: CreateSwitchProvider_def Let_def report_status_def on_ctx_s_def)
  then have "service_act sdemo_env update_demo_env (ServiceSwitch WAKEUP_KEY) ?p = Some sdemo_on" by (simp add: sdemo_on_def)
  from st [OF 1 sv_act [OF this]] have 2: "reach (service_start (\<lambda>_. True)) ?st sdemo_on" .
  have "service_act sdemo_env update_demo_env (ServiceCreate INTELL_VOICE_ENROLL) sdemo_on = Some sdemo_run" by (simp add: sdemo_run_def)
  from st [OF 2 sv_act [OF this]] show ?thesis .
qed

definition sdemo_model :: "(unit, nat, (nat, int \<rightharpoonup> trigger_row) TriggerManager outcome) ServiceManager \<Rightarrow> TriggerModelData option" where
  "sdemo_model s =
     (case sm_trigger s of Inl _ \<Rightarrow> None
      | Inr g \<Rightarrow> Option.bind (tg_service g) (\<lambda>v. Option.bind (ts_triggerHelper v) (\<lambda>(t, l). om_find 1 (th_modelDataMap t))))"

lemma sdemo_before: "map_option md_requested (sdemo_model sdemo_on) = Some True"
  by code_simp

lemma sdemo_after:
  "case sdemo_model sdemo_run of None \<Rightarrow> False | Some _ \<Rightarrow> True"
  "case em_engines (sm_engines sdemo_run) INTELL_VOICE_ENROLL of None \<Rightarrow> False | Some _ \<Rightarrow> True"
  "case sm_trigger sdemo_run of Inl _ \<Rightarrow> False | Inr g \<Rightarrow> om_find 1 (tg_detectors g) = Some (Some \<lparr>dt_uuid = 1, dt_callback = 1\<rparr>)"
  by code_simp+


section \<open>Observations\<close>

text \<open>
  A model that was requested but not loaded (a conflicting scene is active) keeps its request when its detector is released:
  the release returns early, the detector is gone, so a later stop does nothing, and the end of the scene starts a
  recognition for a switch that is off.
\<close>

lemma released_model_requested:
  fixes E :: "'h trigger_env" and R :: "'d rdb"
  assumes "om_find u (tg_detectors g) = Some (Some d)" "tg_service g = Some s" "ts_triggerHelper s = Some (t, l)"
    and "om_find (dt_uuid d) (th_modelDataMap t) = Some x" "md_state x = MODEL_NOTLOADED" "md_requested x"
  defines "g' \<equiv> ReleaseTriggerDetector E R u g"
  shows "om_find u (tg_detectors g') = None \<and> asked g' (dt_uuid d) \<and> StopDetection E R u g' = g'"
  using assms by (auto simp: ReleaseTriggerDetector_def Detector_UnloadTriggerModel_def Svc_UnloadTriggerModel_def UnloadGenericTriggerModel_def
      GetTriggerModelData_def asked_def requested_def set_helper_def StopDetection_def)

text \<open>The handle of the task that waits for the audio driver stays when the task has ended: the next start that has to wait
  reports success and nothing waits.\<close>

lemma second_wait_lost:
  assumes "sm_ffrt s = [(uuid, True)]" "uuid \<in> sm_taskHandle s"
    and "tr_GetParameter (sx_trigger X) ''audio_hal_status'' (sm_trigger s) = (''true'', t)"
  defines "s1 \<equiv> wait_round X 0 s"
  shows "sm_ffrt s1 = [] \<and> (\<forall>r u. sm_taskHandle r = sm_taskHandle s1 \<longrightarrow> \<not> any_engine r \<longrightarrow> QuerySwitchByUuid uuid r \<longrightarrow>
     tr_StartDetection (sx_trigger X) uuid (sm_trigger r) = (0, u) \<longrightarrow> SM_StartDetection X uuid r = (True, r\<lparr>sm_trigger := u\<rparr>))"
  using assms by (simp add: wait_round_def sm_post_def SM_StartDetection_def AddStartDetectionTask_def Let_def)

text \<open>Both detections are stopped before the enrolment engine is made; when that fails, nothing starts them again.\<close>

definition no_adapter_env :: "(unit, nat, (nat, int \<rightharpoonup> trigger_row) TriggerManager outcome) service_env" where
  "no_adapter_env = sdemo_env\<lparr>sx_hdi := demo_hdi\<lparr>hdi_Create := (\<lambda>_ h. (False, h))\<rparr>\<rparr>"

lemma failed_enrolment_stops_detection:
  "map_option md_requested (sdemo_model sdemo_on) = Some True"
  "case HandleCreateEngine no_adapter_env INTELL_VOICE_ENROLL sdemo_on of (ok, s) \<Rightarrow>
     \<not> ok \<and> map_option md_requested (sdemo_model s) = Some False \<and> em_tasks (sm_engines s) = []"
  by code_simp+

end
