(* ===== verification/Voice_Service.thy ===== *)
theory Voice_Service
  imports Service_Detection
begin

text \<open>
  The system ability, \<open>services/intell_voice_service/server/sa/intell_voice_service.cpp\<close>: the requests of clients, each
  guarded by the permission, and the initialisation when the data service is ready. Publishing and the listeners for
  other abilities are left out.
\<close>

section \<open>Data\<close>

record caller =
  ca_rootBuild :: bool
  ca_uid :: int
  ca_systemApp :: bool
  ca_permission :: bool

definition INTELLIGENT_VOICE_SUCCESS :: int where
  "INTELLIGENT_VOICE_SUCCESS = 0"

definition INTELLIGENT_VOICE_PERMISSION_DENIED :: int where
  "INTELLIGENT_VOICE_PERMISSION_DENIED = 201"

definition INTELLIGENT_VOICE_NOT_SYSTEM_APPLICATION :: int where
  "INTELLIGENT_VOICE_NOT_SYSTEM_APPLICATION = 202"

definition INTELLIGENT_VOICE_NO_MEMORY :: int where
  "INTELLIGENT_VOICE_NO_MEMORY = 22700101"

definition VerifySystemPermission :: "caller \<Rightarrow> int" where
  "VerifySystemPermission c =
     (if ca_rootBuild c \<and> ca_uid c = 0 then INTELLIGENT_VOICE_SUCCESS
      else if \<not> ca_systemApp c then INTELLIGENT_VOICE_NOT_SYSTEM_APPLICATION
      else if \<not> ca_permission c then INTELLIGENT_VOICE_PERMISSION_DENIED
      else INTELLIGENT_VOICE_SUCCESS)"

text \<open>Why the ability was started; \<open>NO_REASON\<close> is the value -1 it is reset to.\<close>

datatype start_reason = NO_REASON | INTERFACE_CALL | COMMON_EVENT | OTHER_REASON

record ('a, 'w, 't) IntellVoiceService =
  vs_reasonId :: start_reason
  vs_reasonName :: string
  vs_isServiceInit :: bool
  vs_isDataShareRemoved :: bool
  vs_manager :: "('a, 'w, 't) ServiceManager"

definition on_manager :: "(('a, 'w, 't) ServiceManager \<Rightarrow> ('a, 'w, 't) ServiceManager) \<Rightarrow> ('a, 'w, 't) IntellVoiceService \<Rightarrow> ('a, 'w, 't) IntellVoiceService" where
  "on_manager f v = v\<lparr>vs_manager := f (vs_manager v)\<rparr>"

section \<open>Requests\<close>

text \<open>A result code, a file's bytes or names, an engine, and the answer of \<open>GetParameter\<close>.\<close>

record reply =
  rp_ret :: int
  rp_text :: string
  rp_bytes :: bytes
  rp_names :: "string list"
  rp_files :: "upload_file list"

definition ret_only :: "int \<Rightarrow> reply" where
  "ret_only r = \<lparr>rp_ret = r, rp_text = '''', rp_bytes = [], rp_names = [], rp_files = []\<rparr>"

definition CreateIntellVoiceEngine ::
  "('a, 'w, 't) service_env \<Rightarrow> IntellVoiceEngineType \<Rightarrow> ('a, 'w, 't) ServiceManager \<Rightarrow> int \<times> ('a, 'w, 't) ServiceManager" where
  "CreateIntellVoiceEngine X ty s =
     (case HandleCreateEngine X ty s of (ok, s1) \<Rightarrow> (if \<not> ok then INTELLIGENT_VOICE_NO_MEMORY else 0, s1))"

definition ReleaseIntellVoiceEngine ::
  "('a, 'w, 't) service_env \<Rightarrow> IntellVoiceEngineType \<Rightarrow> ('a, 'w, 't) ServiceManager \<Rightarrow> int \<times> ('a, 'w, 't) ServiceManager" where
  "ReleaseIntellVoiceEngine X ty s =
     (if ty = INTELL_VOICE_DEVICE then (INTELLIGENT_VOICE_SUCCESS, s) else (0, SM_ReleaseEngine X ty s))"

definition EnrollWithWakeupFilesForResult ::
  "('a, 'w, 't) service_env \<Rightarrow> update_env \<Rightarrow> string \<Rightarrow> nat option \<Rightarrow> bool \<Rightarrow> ('a, 'w, 't) ServiceManager \<Rightarrow> int \<times> ('a, 'w, 't) ServiceManager" where
  "EnrollWithWakeupFilesForResult X e wakeupInfo object isNull s =
     (if isNull then (-1, s) else HandleCloneUpdate X e wakeupInfo object s)"

datatype client_request =
    ReqCreate IntellVoiceEngineType | ReqRelease IntellVoiceEngineType | ReqUpload int | ReqGetParameter string | ReqSetParameter string
  | ReqFilesList | ReqSourceFile string | ReqSendFile string bytes | ReqEnroll string "nat option" bool | ReqClear

text \<open>
  What the service does for a caller that passed the check. \<open>EngineSetParameter\<close> always returns (\<open>EngineSetParameter_returns\<close>):
  its \<open>None\<close> stands for a split that would not end.
\<close>

definition perform ::
  "('a, 'w, 't) service_env \<Rightarrow> update_env \<Rightarrow> client_request \<Rightarrow> ('a, 'w, 't) ServiceManager \<Rightarrow> reply \<times> ('a, 'w, 't) ServiceManager" where
  "perform X e q s =
     (case q of
        ReqCreate ty \<Rightarrow> map_prod ret_only id (CreateIntellVoiceEngine X ty s)
      | ReqRelease ty \<Rightarrow> map_prod ret_only id (ReleaseIntellVoiceEngine X ty s)
      | ReqUpload n \<Rightarrow> (case SM_GetUploadFiles X (uv_now e) n s of (r, fs, s1) \<Rightarrow> ((ret_only r)\<lparr>rp_files := fs\<rparr>, s1))
      | ReqGetParameter k \<Rightarrow> (case EM_GetParameter (sx_hdi X) k (sm_engines s) of (t, m) \<Rightarrow> ((ret_only 0)\<lparr>rp_text := t\<rparr>, set_engines X m s))
      | ReqSetParameter kv \<Rightarrow> (case EngineSetParameter X kv s of None \<Rightarrow> (ret_only 0, s) | Some (r, s1) \<Rightarrow> (ret_only r, s1))
      | ReqFilesList \<Rightarrow> (case GetWakeupSourceFilesList (sx_hdi X) (sm_engines s) of (r, ns, m) \<Rightarrow> ((ret_only r)\<lparr>rp_names := ns\<rparr>, set_engines X m s))
      | ReqSourceFile p \<Rightarrow> (case GetWakeupSourceFile (sx_hdi X) p [] (sm_engines s) of (r, b, m) \<Rightarrow> ((ret_only r)\<lparr>rp_bytes := b\<rparr>, set_engines X m s))
      | ReqSendFile p b \<Rightarrow> (case SendWakeupFile (sx_hdi X) p b (sm_engines s) of (r, m) \<Rightarrow> (ret_only r, set_engines X m s))
      | ReqEnroll i c isNull \<Rightarrow> map_prod ret_only id (EnrollWithWakeupFilesForResult X e i c isNull s)
      | ReqClear \<Rightarrow> (ret_only 0, SM_ClearUserData X s))"

text \<open>\<open>GetParameter\<close> answers the empty text to a caller that is refused, the others the code of the refusal.\<close>

definition serve ::
  "('a, 'w, 't) service_env \<Rightarrow> update_env \<Rightarrow> caller \<Rightarrow> client_request \<Rightarrow> ('a, 'w, 't) IntellVoiceService \<Rightarrow> reply \<times> ('a, 'w, 't) IntellVoiceService" where
  "serve X e c q v =
     (let ret = VerifySystemPermission c
      in if ret \<noteq> INTELLIGENT_VOICE_SUCCESS
         then (case q of ReqGetParameter _ \<Rightarrow> (ret_only 0, v) | _ \<Rightarrow> (ret_only ret, v))
         else (case perform X e q (vs_manager v) of (r, s) \<Rightarrow> (r, v\<lparr>vs_manager := s\<rparr>)))"

section \<open>Life of the ability\<close>

definition OnIdle :: "('a, 'w, 't) IntellVoiceService \<Rightarrow> int \<times> ('a, 'w, 't) IntellVoiceService" where
  "OnIdle v = (case HandleOnIdle (vs_manager v) of (ok, s) \<Rightarrow> (if \<not> ok then -1 else 0, v\<lparr>vs_manager := s\<rparr>))"

definition OnActive :: "start_reason \<Rightarrow> string \<Rightarrow> ('a, 'w, 't) IntellVoiceService \<Rightarrow> ('a, 'w, 't) IntellVoiceService" where
  "OnActive reason name v =
     (let v1 = on_manager OnServiceActive (v\<lparr>vs_reasonId := reason, vs_reasonName := name\<rparr>)
      in if reason = COMMON_EVENT \<and> (name = ''usual.event.BOOT_COMPLETED'' \<or> name = ''usual.event.POWER_SAVE_MODE_CHANGED'')
         then on_manager (sm_post TaskUnload) v1 else v1)"

definition HandleSwitchOn_async :: "int \<Rightarrow> ('a, 'w, 't) ServiceManager \<Rightarrow> ('a, 'w, 't) ServiceManager" where
  "HandleSwitchOn_async uuid s = sm_post (TaskSwitchOn uuid False) s"

definition InitIntellVoiceService ::
  "('a, 'w, 't) service_env \<Rightarrow> bool \<Rightarrow> ('a, 'w, 't) IntellVoiceService \<Rightarrow> ('a, 'w, 't) IntellVoiceService" where
  "InitIntellVoiceService X provider v =
     (let s1 = sm_post TaskSilenceUpdate (ProcBreathModel X (CreateSwitchProvider X provider (vs_manager v)));
          both = HandleSwitchOn_async PROXIMAL_WAKEUP_MODEL_UUID (HandleSwitchOn_async VOICE_WAKEUP_MODEL_UUID s1);
          s2 = (if vs_reasonId v = COMMON_EVENT
                then if vs_reasonName v = ''usual.event.POWER_SAVE_MODE_CHANGED'' then PowerMode_wait both else sm_post TaskUnload both
                else if vs_reasonId v = INTERFACE_CALL then both else s1)
      in v\<lparr>vs_manager := on_ctx_s (emit (StartAbility ''power_on'')) s2, vs_reasonId := NO_REASON\<rparr>)"

text \<open>The data share is ready: at the common event, or found so when the data service appears.\<close>

definition data_share_ready ::
  "('a, 'w, 't) service_env \<Rightarrow> bool \<Rightarrow> ('a, 'w, 't) IntellVoiceService \<Rightarrow> ('a, 'w, 't) IntellVoiceService" where
  "data_share_ready X provider v =
     (let v1 = (if vs_isDataShareRemoved v then v\<lparr>vs_reasonId := INTERFACE_CALL\<rparr> else v)
      in (InitIntellVoiceService X provider v1)\<lparr>vs_isServiceInit := True, vs_isDataShareRemoved := False\<rparr>)"

definition OnReceiveCes ::
  "('a, 'w, 't) service_env \<Rightarrow> bool \<Rightarrow> bool \<Rightarrow> ('a, 'w, 't) IntellVoiceService \<Rightarrow> ('a, 'w, 't) IntellVoiceService" where
  "OnReceiveCes X isDataShareReady provider v =
     (if isDataShareReady \<and> \<not> vs_isServiceInit v then data_share_ready X provider v else v)"

definition OnDistributedKvDataServiceChange ::
  "('a, 'w, 't) service_env \<Rightarrow> bool \<Rightarrow> bool \<Rightarrow> bool \<Rightarrow> ('a, 'w, 't) IntellVoiceService \<Rightarrow> ('a, 'w, 't) IntellVoiceService" where
  "OnDistributedKvDataServiceChange X isAdded checkReady provider v =
     (if isAdded
      then if vs_isServiceInit v then v
           else if \<not> checkReady then v
           else data_share_ready X provider v
      else v\<lparr>vs_isServiceInit := False, vs_isDataShareRemoved := True\<rparr>)"

section \<open>Properties\<close>

lemma EngineSetParameter_returns: "\<exists>r s1. EngineSetParameter X kv s = Some (r, s1)"
  by (simp add: EngineSetParameter_def SplitStringToKVPair_def Split_pieces)


definition ability_demo :: "(unit, nat, unit) IntellVoiceService" where
  "ability_demo = \<lparr>vs_reasonId = COMMON_EVENT, vs_reasonName = ''usual.event.BOOT_COMPLETED'', vs_isServiceInit = True,
     vs_isDataShareRemoved = False, vs_manager = unload_demo\<rparr>"


lemma tasks_frames [simp]:
  "em_tasks (sm_engines (on_ctx_s f s)) = em_tasks (sm_engines s)" "em_tasks (sm_engines (on_trigger g s)) = em_tasks (sm_engines s)"
  "em_tasks (sm_engines (report_status X st r s)) = em_tasks (sm_engines s)" "em_tasks (sm_engines (CreateSwitchProvider X b s)) = em_tasks (sm_engines s)"
  "em_tasks (sm_engines (ProcBreathModel X s)) = em_tasks (sm_engines s)"
  by (simp_all add: on_ctx_s_def on_trigger_def report_status_def CreateSwitchProvider_def ProcBreathModel_def Let_def split: option.split)

lemma tasks_post: "length (em_tasks (sm_engines s)) < MAX_TASK_NUM \<Longrightarrow> em_tasks (sm_engines (sm_post t s)) = em_tasks (sm_engines s) @ [t]"
  by (simp add: sm_post_def post_def)

text \<open>
  C22. When the data service goes away and comes back, the ability is initialised exactly once more, as if called
  through its interface whatever started it: the silent update and both detections are put to the service's thread, in this order,
  and further notifications that the data is ready change nothing until it goes away again.
\<close>

theorem data_service_restart:
  fixes X :: "('a, 'w, 't) service_env" and v :: "('a, 'w, 't) IntellVoiceService" and b b' p p' c :: bool
  assumes "length (em_tasks (sm_engines (vs_manager v))) + 3 \<le> MAX_TASK_NUM"
  defines "v1 \<equiv> OnDistributedKvDataServiceChange X False b b' v"
  defines "v2 \<equiv> OnDistributedKvDataServiceChange X True True p v1"
  shows "em_tasks (sm_engines (vs_manager v2)) = em_tasks (sm_engines (vs_manager v)) @
      [TaskSilenceUpdate, TaskSwitchOn VOICE_WAKEUP_MODEL_UUID False, TaskSwitchOn PROXIMAL_WAKEUP_MODEL_UUID False] \<and>
    OnDistributedKvDataServiceChange X True True p v1 = OnReceiveCes X True p v1 \<and>
    OnDistributedKvDataServiceChange X True c p' v2 = v2 \<and> OnReceiveCes X c p' v2 = v2"
proof -
  have v1: "v1 = v\<lparr>vs_isServiceInit := False, vs_isDataShareRemoved := True\<rparr>" by (simp add: v1_def OnDistributedKvDataServiceChange_def)
  have v2: "v2 = data_share_ready X p v1" by (simp add: v2_def v1 OnDistributedKvDataServiceChange_def)
  have "vs_isServiceInit v2" by (simp add: v2 data_share_ready_def Let_def)
  moreover have "em_tasks (sm_engines (vs_manager v2)) = em_tasks (sm_engines (vs_manager v)) @
      [TaskSilenceUpdate, TaskSwitchOn VOICE_WAKEUP_MODEL_UUID False, TaskSwitchOn PROXIMAL_WAKEUP_MODEL_UUID False]"
    using assms(1) by (simp add: v2 v1 data_share_ready_def InitIntellVoiceService_def HandleSwitchOn_async_def Let_def tasks_post)
  ultimately show ?thesis using v2 by (simp add: OnDistributedKvDataServiceChange_def OnReceiveCes_def v1)
qed

lemma data_service_restart_witness:
  "em_tasks (sm_engines (vs_manager (OnDistributedKvDataServiceChange dummy_env True True True
     (OnDistributedKvDataServiceChange dummy_env False False False ability_demo)))) =
   [TaskUnload, TaskSilenceUpdate, TaskSwitchOn VOICE_WAKEUP_MODEL_UUID False, TaskSwitchOn PROXIMAL_WAKEUP_MODEL_UUID False]"
proof -
  have t: "em_tasks (sm_engines (vs_manager ability_demo)) = [TaskUnload]"
    by (simp add: ability_demo_def unload_demo_def sm_post_def post_def service_new_def manager_new_def MAX_TASK_NUM_def)
  have "length (em_tasks (sm_engines (vs_manager ability_demo))) + 3 \<le> MAX_TASK_NUM" by (simp add: t MAX_TASK_NUM_def)
  from conjunct1 [OF data_service_restart [OF this, where X = dummy_env and b = False and b' = False and p = True]] t show ?thesis by simp
qed

end
