(* ===== verification/Headset_Engine.thy ===== *)
theory Headset_Engine
  imports Wakeup_Engine
begin

text \<open>
  The wake-up engine of a headset, \<open>services/intell_voice_engine/server/wakeup/headset\<close>: the headset detects the phrase and
  streams its audio; the adapter checks the part with the phrase, the client reads all of it. The stream comes from a
  library loaded at run time; what it answers is an argument of the reading thread's step, and the calls it gets are kept in
  \<open>hf_lib\<close>. The thread's round is one step: a round under way when the engine joins the thread counts as finished before.
  Logging, the report to the cloud and the thread that starts the application are left out.
\<close>

section \<open>Data\<close>

text \<open>The thread: none to join, reading (with the flag \<open>isEnd\<close> of its loop), or ended by itself.\<close>

datatype read_thread = NoThread | Reading bool | Finished

datatype headset_call = UnloadDevice | LoadDevice | RegisterDeath | DeregisterDeath | NotifyVerifyResult bool | StopReadingStream

record 'a HeadsetWakeupEngineImpl =
  hf_channels :: int
  hf_isReading :: bool
  hf_needSecondStageWakeup :: bool
  hf_readThread :: read_thread
  hf_callback :: bool
  hf_adapterListener :: WakeupAdapterListener
  hf_adapter :: bool
  hf_source :: WakeupSourceProcess
  hf_out :: "wakeup_out option"
  hf_lib :: "headset_call list"
  hf_ctx :: "'a engine_ctx"

type_synonym 'a headset_fields = "'a HeadsetWakeupEngineImpl"
type_synonym 'a headset_engine = "(wakeup_msg, 'a headset_fields) ModuleStates"
type_synonym 'a headset_handler = "(wakeup_msg, 'a headset_fields) HandleMsg_fn"

definition hresult :: "int \<Rightarrow> int \<Rightarrow> 'a headset_fields \<Rightarrow> 'a headset_fields handled" where
  "hresult ret nxt u = \<lparr>h_ret = ret, h_next = nxt, h_reset = False, h_self = u\<rparr>"

definition hctx :: "('a engine_ctx \<Rightarrow> 'a engine_ctx) \<Rightarrow> 'a headset_fields \<Rightarrow> 'a headset_fields" where
  "hctx f u = u\<lparr>hf_ctx := f (hf_ctx u)\<rparr>"

definition hlib :: "headset_call \<Rightarrow> 'a headset_fields \<Rightarrow> 'a headset_fields" where
  "hlib c u = u\<lparr>hf_lib := hf_lib u @ [c]\<rparr>"

section \<open>Audio\<close>

definition HE_StartAudioSource :: "'a headset_fields \<Rightarrow> bool \<times> 'a headset_fields" where
  "HE_StartAudioSource u = (True, u\<lparr>hf_isReading := True, hf_source := WakeupSource_Init 1 (hf_source u), hf_readThread := Reading False\<rparr>)"

definition HE_StopAudioSource :: "'a headset_fields \<Rightarrow> 'a headset_fields" where
  "HE_StopAudioSource u =
     (if \<not> hf_isReading u then u
      else let u1 = hlib StopReadingStream (u\<lparr>hf_isReading := False, hf_readThread := NoThread\<rparr>)
           in u1\<lparr>hf_source := WakeupSource_Release (hf_source u1)\<rparr>)"

text \<open>What \<open>ReadHeadsetStream\<close> answers: its result, the audio, and whether the phrase is in it.\<close>

record stream_answer =
  sr_ret :: int
  sr_audio :: bytes
  sr_hasAwakeWord :: bool

definition end_of_pcm :: "'a hdi \<Rightarrow> 'a headset_fields \<Rightarrow> 'a headset_fields outcome" where
  "end_of_pcm H u =
     (if hf_adapter u then Ret (hctx (\<lambda>x. snd (adapter_SetParameter H ''end_of_pcm=true'' x)) u) else Crash NullDeref)"

definition write_adapter :: "'a hdi \<Rightarrow> bytes \<Rightarrow> 'a headset_fields \<Rightarrow> 'a headset_fields outcome" where
  "write_adapter H d u = (if hf_adapter u then Ret (hctx (adapter_WriteAudio H d) u) else Crash NullDeref)"

text \<open>A round of the loop of \<open>ReadThread\<close>.\<close>

definition ReadThread_round :: "'a hdi \<Rightarrow> stream_answer \<Rightarrow> 'a headset_fields \<Rightarrow> 'a headset_fields outcome" where
  "ReadThread_round H a u =
     (case hf_readThread u of
        Reading isEnd \<Rightarrow>
          if \<not> hf_isReading u then Ret (u\<lparr>hf_readThread := Finished\<rparr>)
          else if sr_ret a \<noteq> 1
          then obind (if isEnd then Ret u else end_of_pcm H u) (\<lambda>u1. Ret (u1\<lparr>hf_readThread := Finished\<rparr>))
          else obind (if sr_hasAwakeWord a \<and> \<not> isEnd then write_adapter H (sr_audio a) u else Ret u) (\<lambda>u1.
               obind (if \<not> sr_hasAwakeWord a \<and> \<not> isEnd
                      then obind (end_of_pcm H u1) (\<lambda>u2. Ret (u2\<lparr>hf_readThread := Reading True\<rparr>)) else Ret u1) (\<lambda>u2.
               Ret (u2\<lparr>hf_source := WakeupSource_Write [sr_audio a] (hf_source u2)\<rparr>)))
      | _ \<Rightarrow> Ret u)"

fun ReadThread :: "'a hdi \<Rightarrow> stream_answer list \<Rightarrow> 'a headset_fields \<Rightarrow> 'a headset_fields outcome" where
  "ReadThread H [] u = Ret u"
| "ReadThread H (a # as) u = obind (ReadThread_round H a u) (ReadThread H as)"

section \<open>Handlers\<close>

definition hstop_adapter :: "'a hdi \<Rightarrow> 'a headset_fields \<Rightarrow> 'a headset_fields" where
  "hstop_adapter H u = hctx (\<lambda>x. snd (EU_Stop H (hf_adapter u) x)) u"

definition empty_info :: adapter_info where
  "empty_info = \<lparr>ai_wakeupPhrase = '''', ai_minBufSize = 0, ai_sampleChannels = 0, ai_bitsPerSample = 0, ai_sampleRate = 0\<rparr>"

definition HE_SetCallbackInner :: "'a hdi \<Rightarrow> 'a headset_fields \<Rightarrow> bool \<times> 'a headset_fields" where
  "HE_SetCallbackInner H u =
     (if \<not> hf_adapter u then (False, u)
      else (True, (hctx (\<lambda>x. x\<lparr>cx_host := hdi_SetCallback H (cx_host x)\<rparr>) u)\<lparr>hf_callback := True\<rparr>))"

definition HE_AttachInner :: "'a hdi \<Rightarrow> 'a headset_fields \<Rightarrow> int \<times> 'a headset_fields" where
  "HE_AttachInner H u =
     (if \<not> hf_adapter u then (-1, u) else (case adapter_Attach H empty_info (hf_ctx u) of (r, x) \<Rightarrow> (r, u\<lparr>hf_ctx := x\<rparr>)))"

definition headset_params :: "'a hdi \<Rightarrow> 'a engine_ctx \<Rightarrow> 'a engine_ctx" where
  "headset_params H x =
     snd (adapter_SetParameter H ''model_path=/vendor/etc/audio/encoder.om'' (SetArea H True (SetLanguage H True x)))"

definition HE_HandleInit :: "'a hdi \<Rightarrow> 'a headset_handler" where
  "HE_HandleInit H msg nxt u =
     (case CreateAdapterInner H (WAKEUP_ADAPTER_TYPE H) (hf_ctx u) of (ok, x) \<Rightarrow>
        (let u1 = u\<lparr>hf_adapter := ok, hf_ctx := x\<rparr>
         in if \<not> ok then hresult (-1) nxt u1
            else (case HE_SetCallbackInner H u1 of
                (False, u2) \<Rightarrow> hresult (-1) nxt u2
              | (True, u2) \<Rightarrow>
                  (let u3 = hctx (headset_params H) u2;
                       u4 = (case win_of msg of WStr t \<Rightarrow> hctx (\<lambda>x. snd (adapter_SetParameter H (''modelType='' @ t) x)) u3 | _ \<Rightarrow> u3)
                   in (case HE_AttachInner H u4 of (r, u5) \<Rightarrow>
                         if r \<noteq> 0 then hresult (-1) nxt u5 else hresult 0 (wstate_id ST_INITIALIZING) u5)))))"

definition HE_HandleInitDone :: "'a headset_handler" where
  "HE_HandleInitDone msg nxt u =
     (if win_of msg = WInt 0 then hresult 0 (wstate_id ST_INITIALIZED) u else hresult (-1) nxt u)"

definition HE_HandleSetListener :: "'a headset_handler" where
  "HE_HandleSetListener msg nxt u =
     (case win_of msg of
        WListener cb \<Rightarrow>
          (case WL_SetCallback cb (hf_adapterListener u) (hf_ctx u) of (l, x) \<Rightarrow> hresult 0 nxt (u\<lparr>hf_adapterListener := l, hf_ctx := x\<rparr>))
      | _ \<Rightarrow> hresult (-1) nxt u)"

definition HE_HandleStart :: "'a hdi \<Rightarrow> 'a headset_handler" where
  "HE_HandleStart H msg nxt u =
     (if \<not> hf_needSecondStageWakeup u then hresult 0 (wstate_id ST_RECOGNIZED) u
      else if \<not> hf_adapter u then hresult (-1) nxt u
      else (case hdi_Start H True (cx_host (hf_ctx u)) of (r, h) \<Rightarrow>
        (let u1 = hctx (\<lambda>x. x\<lparr>cx_host := h\<rparr>) u
         in if r \<noteq> 0 then hresult (-1) nxt u1
            else (case HE_StartAudioSource u1 of
                (False, u2) \<Rightarrow> hresult (-1) nxt (hctx (adapter_Stop H) u2)
              | (True, u2) \<Rightarrow> hresult 0 (wstate_id ST_RECOGNIZING) u2))))"

definition HE_HandleStop :: "'a hdi \<Rightarrow> 'a headset_handler" where
  "HE_HandleStop H msg nxt u = hresult 0 (wstate_id ST_INITIALIZED) (hstop_adapter H (HE_StopAudioSource u))"

definition HE_HandleRecognizeComplete :: "'a hdi \<Rightarrow> wakeup_device \<Rightarrow> 'a headset_handler" where
  "HE_HandleRecognizeComplete H W msg nxt u =
     (let u0 = hstop_adapter H u
      in case win_of msg of
           WEvent ev \<Rightarrow>
             (case WL_Notify W ev (hf_adapterListener u0) (hf_ctx u0) of (l, x) \<Rightarrow>
                (let u1 = u0\<lparr>hf_adapterListener := l, hf_ctx := x\<rparr>
                 in if ee_result ev \<noteq> 0
                    then hresult 0 (wstate_id ST_INITIALIZED) (HE_StopAudioSource (hlib (NotifyVerifyResult False) u1))
                    else hresult 0 (wstate_id ST_RECOGNIZED) (hlib (NotifyVerifyResult True) u1)))
         | _ \<Rightarrow> hresult (-1) nxt u0)"

definition HE_HandleStartCapturer :: "'a headset_handler" where
  "HE_HandleStartCapturer msg nxt u =
     (case win_of msg of
        WInt ch \<Rightarrow> hresult 0 (wstate_id ST_READ_CAPTURER) (u\<lparr>hf_channels := ch\<rparr>)
      | _ \<Rightarrow> hresult (-1) nxt u)"

text \<open>Every caller of \<open>READ\<close> passes a place for the data.\<close>

definition HE_HandleRead :: "'a headset_handler" where
  "HE_HandleRead msg nxt u =
     (case wout_of msg of
        Some (WOutData data) \<Rightarrow>
          (case WakeupSource_Read (an_arrive (cx_answers (hf_ctx u))) data (hf_channels u) (hf_source u) of
             (ret, data1, src) \<Rightarrow>
               (let u1 = u\<lparr>hf_source := src, hf_out := Some (WOutData data1)\<rparr>
                in if ret \<noteq> 0 then hresult ret nxt u1 else (hresult 0 nxt u1)\<lparr>h_reset := True\<rparr>))
      | _ \<Rightarrow> hresult (-1) nxt u)"

definition HE_HandleStopCapturer :: "'a headset_handler" where
  "HE_HandleStopCapturer msg nxt u = hresult 0 (wstate_id ST_INITIALIZED) (HE_StopAudioSource u)"

definition HE_HandleRecognizingTimeout :: "'a hdi \<Rightarrow> 'a headset_handler" where
  "HE_HandleRecognizingTimeout H msg nxt u =
     hresult 0 (wstate_id ST_INITIALIZED) (hstop_adapter H (HE_StopAudioSource (hlib (NotifyVerifyResult False) u)))"

definition HE_HandleResetAdapter :: "'a hdi \<Rightarrow> 'a headset_handler" where
  "HE_HandleResetAdapter H msg nxt u =
     (case CreateAdapterInner H (WAKEUP_ADAPTER_TYPE H) (hf_ctx u) of (ok, x) \<Rightarrow>
        if \<not> ok then hresult (-1) nxt (u\<lparr>hf_adapter := False, hf_ctx := x\<rparr>)
        else let x1 = headset_params H (x\<lparr>cx_host := hdi_SetCallback H (cx_host x)\<rparr>)
             in (case adapter_Attach H empty_info x1 of (r, x2) \<Rightarrow>
                   if r \<noteq> 0
                   then (case ReleaseAdapterInner H (WAKEUP_ADAPTER_TYPE H) x2 of (a, x3) \<Rightarrow>
                           hresult (-1) nxt (u\<lparr>hf_adapter := a, hf_ctx := x3\<rparr>))
                   else hresult 0 (wstate_id ST_INITIALIZING) (u\<lparr>hf_adapter := True, hf_ctx := x2\<rparr>)))"

definition HE_HandleRelease :: "'a hdi \<Rightarrow> 'a headset_handler" where
  "HE_HandleRelease H msg nxt u =
     (let u1 = HE_StopAudioSource u
      in hresult 0 (wstate_id ST_IDLE)
           (if hf_adapter u1
            then (case ReleaseAdapterInner H (WAKEUP_ADAPTER_TYPE H)
                    ((hf_ctx u1)\<lparr>cx_host := snd (hdi_Detach H (cx_host (hf_ctx u1)))\<rparr>) of (a, x) \<Rightarrow>
                    u1\<lparr>hf_adapter := a, hf_ctx := x\<rparr>)
            else u1))"

definition HE_HandleSetParam :: "'a hdi \<Rightarrow> 'a headset_handler" where
  "HE_HandleSetParam H msg nxt u =
     (case win_of msg of
        WStr p \<Rightarrow> (case EU_SetParameter H (hf_adapter u) p (hf_ctx u) of (r, x) \<Rightarrow> hresult r nxt (u\<lparr>hf_ctx := x\<rparr>))
      | _ \<Rightarrow> hresult (-1) nxt u)"

section \<open>The engine\<close>

definition HE_InitStates ::
  "'a hdi \<Rightarrow> wakeup_device \<Rightarrow> (int \<Rightarrow> bool) \<Rightarrow> (wakeup_msg, 'a headset_fields) cfg_op list" where
  "HE_InitStates H W al =
     concat (map (\<lambda>i. [CfgAct (al i) i (wevent_id EV_SET_LISTENER) HE_HandleSetListener,
       CfgAct (al i) i (wevent_id EV_SET_PARAM) (HE_HandleSetParam H)]) [0, 1, 2, 3, 4, 5]) @
     [CfgAct (al 0) (wstate_id ST_IDLE) (wevent_id EV_INIT) (HE_HandleInit H),
      CfgAct (al 0) (wstate_id ST_IDLE) (wevent_id EV_RESET_ADAPTER) (HE_HandleResetAdapter H),
      CfgAct (al 1) (wstate_id ST_INITIALIZING) (wevent_id EV_INIT_DONE) HE_HandleInitDone,
      CfgAct (al 2) (wstate_id ST_INITIALIZED) (wevent_id EV_START_RECOGNIZE) (HE_HandleStart H),
      CfgWait (al 3) (wstate_id ST_RECOGNIZING) (wevent_id EV_RECOGNIZING_TIMEOUT) (HE_HandleRecognizingTimeout H) RECOGNIZING_TIMEOUT_US 0,
      CfgAct (al 3) (wstate_id ST_RECOGNIZING) (wevent_id EV_STOP_RECOGNIZE) (HE_HandleStop H),
      CfgAct (al 3) (wstate_id ST_RECOGNIZING) (wevent_id EV_RECOGNIZE_COMPLETE) (HE_HandleRecognizeComplete H W),
      CfgWait (al 4) (wstate_id ST_RECOGNIZED) (wevent_id EV_RECOGNIZE_COMPLETE_TIMEOUT) HE_HandleStopCapturer WE_RECOGNIZE_COMPLETE_TIMEOUT_US 0,
      CfgAct (al 4) (wstate_id ST_RECOGNIZED) (wevent_id EV_START_CAPTURER) HE_HandleStartCapturer,
      CfgWait (al 5) (wstate_id ST_READ_CAPTURER) (wevent_id EV_READ_CAPTURER_TIMEOUT) HE_HandleStopCapturer WE_READ_CAPTURER_TIMEOUT_US 0,
      CfgAct (al 5) (wstate_id ST_READ_CAPTURER) (wevent_id EV_READ) HE_HandleRead,
      CfgAct (al 5) (wstate_id ST_READ_CAPTURER) (wevent_id EV_STOP_CAPTURER) HE_HandleStopCapturer,
      CfgFrom al (wstate_id ST_INITIALIZING) (wstate_id ST_READ_CAPTURER),
      CfgGroupAdd (wevent_id EV_RELEASE_ADAPTER) (HE_HandleRelease H),
      CfgGroupAdd (wevent_id EV_RELEASE) (HE_HandleRelease H)]"

definition headset_fields_new :: "'a engine_ctx \<Rightarrow> 'a headset_fields" where
  "headset_fields_new x =
     \<lparr>hf_channels = 0, hf_isReading = False, hf_needSecondStageWakeup = True, hf_readThread = NoThread, hf_callback = False,
      hf_adapterListener = \<lparr>wl_cb = None, wl_historyEvent = None\<rparr>, hf_adapter = False, hf_source = WakeupSource_new,
      hf_out = None, hf_lib = [], hf_ctx = x\<rparr>"

definition headset_new ::
  "'a hdi \<Rightarrow> wakeup_device \<Rightarrow> (int \<Rightarrow> bool) \<Rightarrow> bool \<Rightarrow> observer \<Rightarrow> 'a engine_ctx \<Rightarrow> 'a headset_engine" where
  "headset_new H W al created this x =
     (fold configure (HE_InitStates H W al) (ModuleStates_new (wstate_id ST_IDLE) created this (headset_fields_new x)))
       \<lparr>ms_listener := True, ms_processType := PROCESS_WAKEUP_HEADSET\<rparr>"

definition HE_Handle :: "int \<Rightarrow> wakeup_msg StateMsg \<Rightarrow> 'a headset_engine \<Rightarrow> (int \<times> 'a headset_engine) outcome" where
  "HE_Handle now msg s = (if \<not> IsStatesInitSucc s then Ret (-1, s) else HandleMsg now msg s)"

definition hfields :: "('a headset_fields \<Rightarrow> 'a headset_fields) \<Rightarrow> 'a headset_engine \<Rightarrow> 'a headset_engine" where
  "hfields f s = s\<lparr>ms_self := f (ms_self s)\<rparr>"

text \<open>\<open>devmgr\<close>: the device manager of the system is there; \<open>host\<close>: the driver of the headset can be reached.\<close>

definition HE_Create :: "bool \<Rightarrow> bool \<Rightarrow> 'a headset_engine \<Rightarrow> bool \<times> 'a headset_engine" where
  "HE_Create devmgr host s =
     (if \<not> devmgr then (False, s)
      else let s1 = hfields (hlib LoadDevice) (hfields (hlib UnloadDevice) s)
           in if \<not> host then (False, s1) else (IsStatesInitSucc s1, hfields (hlib RegisterDeath) s1))"

definition HE_Destroy :: "int \<Rightarrow> bool \<Rightarrow> 'a headset_engine \<Rightarrow> (bool \<times> 'a headset_engine) outcome" where
  "HE_Destroy now devmgr s =
     obind (HE_Handle now (wmsg EV_RELEASE WNull None) s) (\<lambda>(_, t).
       let t1 = hfields (hlib DeregisterDeath) t
       in Ret (if devmgr then (True, hfields (hlib UnloadDevice) t1) else (False, t1)))"

definition HE_OnTriggerDetected :: "int \<Rightarrow> 'a headset_engine \<Rightarrow> 'a headset_engine outcome" where
  "HE_OnTriggerDetected now s = obind (HE_Handle now (wmsg EV_START_RECOGNIZE WNull None) s) (\<lambda>(_, t). Ret t)"

definition HE_OnInitDone :: "int \<Rightarrow> int \<Rightarrow> 'a headset_engine \<Rightarrow> 'a headset_engine outcome" where
  "HE_OnInitDone now res s = obind (HE_Handle now (wmsg EV_INIT_DONE (WInt res) None) s) (\<lambda>(_, t). Ret t)"

definition HE_OnWakeupRecognition :: "int \<Rightarrow> int \<Rightarrow> string \<Rightarrow> 'a headset_engine \<Rightarrow> 'a headset_engine outcome" where
  "HE_OnWakeupRecognition now res info s =
     obind (HE_Handle now (wmsg EV_RECOGNIZE_COMPLETE
         (WEvent \<lparr>ee_msgId = MSG_HEADSET_RECOGNIZE_COMPLETE, ee_result = res, ee_info = info\<rparr>) None) s) (\<lambda>(_, t). Ret t)"

section \<open>Interleavings\<close>

type_synonym 'a headset_sys = "'a headset_engine \<times> TimerEvent option"

inductive headset_step :: "'a hdi \<Rightarrow> 'a headset_sys \<Rightarrow> 'a headset_sys \<Rightarrow> bool" for H where
  h_client: "HE_Handle now msg s = Ret (r, t) \<Longrightarrow> headset_step H (s, p) (t, p)"
| h_detected: "HE_OnTriggerDetected now s = Ret t \<Longrightarrow> headset_step H (s, p) (t, p)"
| h_initdone: "HE_OnInitDone now res s = Ret t \<Longrightarrow> headset_step H (s, p) (t, p)"
| h_recognition: "HE_OnWakeupRecognition now res info s = Ret t \<Longrightarrow> headset_step H (s, p) (t, p)"
| h_round: "ReadThread_round H a (ms_self s) = Ret u \<Longrightarrow> headset_step H (s, p) (s\<lparr>ms_self := u\<rparr>, p)"
| h_world: "headset_step H (s, p) (hfields (hctx (\<lambda>x. x\<lparr>cx_kv := k, cx_host := h, cx_answers := a\<rparr>)) s, p)"
| h_take: "Run_iter now (ms_tm s) = (RunFire e ob, tm) \<Longrightarrow> headset_step H (s, None) (s\<lparr>ms_tm := tm\<rparr>, Some e)"
| h_deliver: "OnTimerEvent now e s = Ret t \<Longrightarrow> headset_step H (s, Some e) (t, None)"

definition headset_start :: "'a hdi \<Rightarrow> wakeup_device \<Rightarrow> 'a headset_sys \<Rightarrow> bool" where
  "headset_start H W x \<longleftrightarrow>
     (\<exists>this c s. HE_Create True True (headset_new H W (\<lambda>_. True) True this c) = (True, s) \<and> x = (s, None))"

section \<open>The tables\<close>

definition hany_handlers :: "'a hdi \<Rightarrow> int \<rightharpoonup> 'a headset_handler" where
  "hany_handlers H = [wevent_id EV_SET_LISTENER \<mapsto> HE_HandleSetListener, wevent_id EV_SET_PARAM \<mapsto> HE_HandleSetParam H]"

definition hlive_handlers :: "'a hdi \<Rightarrow> int \<rightharpoonup> 'a headset_handler" where
  "hlive_handlers H = (hany_handlers H)(wevent_id EV_RELEASE_ADAPTER \<mapsto> HE_HandleRelease H, wevent_id EV_RELEASE \<mapsto> HE_HandleRelease H)"

definition hhandlers :: "'a hdi \<Rightarrow> wakeup_device \<Rightarrow> WakeupState \<Rightarrow> int \<rightharpoonup> 'a headset_handler" where
  "hhandlers H W e =
     (case e of
        ST_IDLE \<Rightarrow> (hany_handlers H)(wevent_id EV_INIT \<mapsto> HE_HandleInit H, wevent_id EV_RESET_ADAPTER \<mapsto> HE_HandleResetAdapter H)
      | ST_INITIALIZING \<Rightarrow> (hlive_handlers H)(wevent_id EV_INIT_DONE \<mapsto> HE_HandleInitDone)
      | ST_INITIALIZED \<Rightarrow> (hlive_handlers H)(wevent_id EV_START_RECOGNIZE \<mapsto> HE_HandleStart H)
      | ST_RECOGNIZING \<Rightarrow> (hlive_handlers H)(wevent_id EV_RECOGNIZING_TIMEOUT \<mapsto> HE_HandleRecognizingTimeout H,
          wevent_id EV_STOP_RECOGNIZE \<mapsto> HE_HandleStop H, wevent_id EV_RECOGNIZE_COMPLETE \<mapsto> HE_HandleRecognizeComplete H W)
      | ST_RECOGNIZED \<Rightarrow> (hlive_handlers H)(wevent_id EV_RECOGNIZE_COMPLETE_TIMEOUT \<mapsto> HE_HandleStopCapturer,
          wevent_id EV_START_CAPTURER \<mapsto> HE_HandleStartCapturer)
      | ST_READ_CAPTURER \<Rightarrow> (hlive_handlers H)(wevent_id EV_READ_CAPTURER_TIMEOUT \<mapsto> HE_HandleStopCapturer,
          wevent_id EV_READ \<mapsto> HE_HandleRead, wevent_id EV_STOP_CAPTURER \<mapsto> HE_HandleStopCapturer))"

definition htable :: "'a hdi \<Rightarrow> wakeup_device \<Rightarrow> WakeupState \<Rightarrow> (wakeup_msg, 'a headset_fields) StateActions" where
  "htable H W e = \<lparr>sa_cfg = wcfg_of e, sa_timerId = INVALID_ID, sa_actions = hhandlers H W e\<rparr>"

lemma htable_fields [simp]:
  "sa_cfg (htable H W e) = wcfg_of e" "sa_actions (htable H W e) = hhandlers H W e" "sa_timerId (htable H W e) = INVALID_ID"
  by (simp_all add: htable_def)

lemma headset_tables:
  "ms_states (headset_new H W (\<lambda>_. True) created this x) =
     [0 \<mapsto> Some (htable H W ST_IDLE), 1 \<mapsto> Some (htable H W ST_INITIALIZING), 2 \<mapsto> Some (htable H W ST_INITIALIZED),
      3 \<mapsto> Some (htable H W ST_RECOGNIZING), 4 \<mapsto> Some (htable H W ST_RECOGNIZED), 5 \<mapsto> Some (htable H W ST_READ_CAPTURER)]"
  by (rule ext)
    (simp add: headset_new_def HE_InitStates_def FromState_def Group_Add_def machine_eval htable_def wcfg_of_def
      hhandlers_def hany_handlers_def hlive_handlers_def upto_rec1 fun_upd_twist)

section \<open>The invariant\<close>

text \<open>What the invariant reads of the fields.\<close>

definition hview :: "'a headset_fields \<Rightarrow> bool \<times> bool \<times> bool \<times> bool \<times> nat \<times> nat" where
  "hview u = (hf_needSecondStageWakeup u, hf_isReading u, hf_readThread u \<noteq> NoThread, hf_adapter u,
     ws_channelCnt (hf_source u), length (ws_bufferQueue (hf_source u)))"

definition hfields_ok :: "WakeupState \<Rightarrow> 'a headset_fields \<Rightarrow> bool" where
  "hfields_ok e u \<longleftrightarrow> (\<exists>a. hview u = (True, recording e, recording e, a, of_bool (recording e), of_bool (recording e)) \<and> (e \<noteq> ST_IDLE \<longrightarrow> a))"

abbreviation hmoves :: "WakeupState \<Rightarrow> WakeupState \<Rightarrow> 'a headset_fields handled \<Rightarrow> bool" where
  "hmoves \<equiv> moves wstate_id hfields_ok"

lemma hview_frames [simp]:
  "hview (hctx f u) = hview u" "hview (hlib c u) = hview u" "hview (hstop_adapter H u) = hview u" "hview (u\<lparr>hf_ctx := x\<rparr>) = hview u"
  "hview (u\<lparr>hf_adapterListener := l\<rparr>) = hview u" "hview (u\<lparr>hf_out := y\<rparr>) = hview u" "hview (u\<lparr>hf_channels := i\<rparr>) = hview u"
  "hview (u\<lparr>hf_callback := b\<rparr>) = hview u"
  by (simp_all add: hview_def hctx_def hlib_def hstop_adapter_def)

lemma hview_ok: "hview v = hview u \<Longrightarrow> hfields_ok e v = hfields_ok e u"
  by (simp add: hfields_ok_def)

lemma hfields_ok_frames [simp]:
  "hfields_ok e (hctx f u) = hfields_ok e u" "hfields_ok e (hlib c u) = hfields_ok e u" "hfields_ok e (hstop_adapter H u) = hfields_ok e u"
  "hfields_ok e (u\<lparr>hf_ctx := x\<rparr>) = hfields_ok e u" "hfields_ok e (u\<lparr>hf_adapterListener := l\<rparr>) = hfields_ok e u"
  "hfields_ok e (u\<lparr>hf_channels := i\<rparr>) = hfields_ok e u" "hfields_ok e (u\<lparr>hf_adapterListener := l, hf_ctx := x\<rparr>) = hfields_ok e u"
  by (rule hview_ok, simp)+

lemma hfields_ok_recording:
  "hfields_ok e u \<Longrightarrow> recording e = recording e' \<Longrightarrow> e \<noteq> ST_IDLE \<or> e' = ST_IDLE \<Longrightarrow> hfields_ok e' u"
  by (auto simp: hfields_ok_def)

lemma hstopped: "hfields_ok e u \<Longrightarrow> \<not> recording e' \<Longrightarrow> e \<noteq> ST_IDLE \<or> e' = ST_IDLE \<Longrightarrow> hfields_ok e' (HE_StopAudioSource u)"
  by (auto simp: hfields_ok_def HE_StopAudioSource_def hview_def hlib_def WakeupSource_Release_def recording_def Let_def)

lemma hstarted: "hfields_ok ST_INITIALIZED u \<Longrightarrow> HE_StartAudioSource u = (b, v) \<Longrightarrow> b \<and> hfields_ok ST_RECOGNIZING v"
  by (auto simp: hfields_ok_def HE_StartAudioSource_def hview_def WakeupSource_Init_def recording_def Let_def)

lemma hsource_ok: "queues w = queues (hf_source u) \<Longrightarrow> hfields_ok e (u\<lparr>hf_source := w\<rparr>) = hfields_ok e u"
  by (rule hview_ok) (simp add: hview_def)

lemma hadapter_idle: "hfields_ok ST_IDLE u \<Longrightarrow> hfields_ok ST_IDLE (u\<lparr>hf_adapter := a\<rparr>)"
  by (auto simp: hfields_ok_def hview_def)

subsection \<open>The handlers\<close>

lemma hmovesI: "h = hresult r (wstate_id e') v \<Longrightarrow> hfields_ok (if r = 0 then e' else e) v \<Longrightarrow> \<exists>e'. hmoves e e' h"
  by (intro exI [of _ e']) (simp add: moves_def hresult_def)

lemma hmoves_stay: "h_next h = wstate_id e \<Longrightarrow> hfields_ok e (h_self h) \<Longrightarrow> \<exists>e'. hmoves e e' h"
  by (intro exI [of _ e]) (simp add: moves_def)

lemma moves_HInit:
  assumes ok: "hfields_ok ST_IDLE u"
  shows "\<exists>e'. hmoves ST_IDLE e' (HE_HandleInit H msg (wstate_id ST_IDLE) u)"
proof -
  obtain b x where c: "CreateAdapterInner H (WAKEUP_ADAPTER_TYPE H) (hf_ctx u) = (b, x)" using prod.exhaust by blast
  define v where "v = (let u3 = hctx (headset_params H) ((hctx (\<lambda>x. x\<lparr>cx_host := hdi_SetCallback H (cx_host x)\<rparr>)
      (u\<lparr>hf_adapter := True, hf_ctx := x\<rparr>))\<lparr>hf_callback := True\<rparr>)
    in case win_of msg of WStr t \<Rightarrow> hctx (\<lambda>x. snd (adapter_SetParameter H (''modelType='' @ t) x)) u3 | _ \<Rightarrow> u3)"
  have v: "hview v = hview (u\<lparr>hf_adapter := True\<rparr>)" by (simp add: v_def Let_def hview_def hctx_def split: wakeup_in.split)
  obtain r y where a: "adapter_Attach H empty_info (hf_ctx v) = (r, y)" using prod.exhaust by blast
  have va: "hf_adapter v" using v by (simp add: hview_def)
  have w: "hfields_ok (if r = 0 then ST_INITIALIZING else ST_IDLE) (v\<lparr>hf_ctx := y\<rparr>)"
    using ok v by (auto simp: hfields_ok_def hview_def recording_def)
  show ?thesis
  proof (cases b)
    case True
    then have "HE_HandleInit H msg (wstate_id ST_IDLE) u =
        (if r \<noteq> 0 then hresult (-1) (wstate_id ST_IDLE) (v\<lparr>hf_ctx := y\<rparr>) else hresult 0 (wstate_id ST_INITIALIZING) (v\<lparr>hf_ctx := y\<rparr>))"
      using c a va by (simp add: HE_HandleInit_def HE_SetCallbackInner_def HE_AttachInner_def v_def [symmetric] Let_def del: wstate_id.simps)
        (simp add: v_def Let_def HE_AttachInner_def)
    then show ?thesis using w by (cases "r = 0") (auto intro: hmovesI simp del: wstate_id.simps)
  next
    case False
    then show ?thesis using c ok by (intro hmoves_stay) (simp_all add: HE_HandleInit_def hresult_def hadapter_idle)
  qed
qed

lemma moves_HReset:
  assumes ok: "hfields_ok ST_IDLE u"
  shows "\<exists>e'. hmoves ST_IDLE e' (HE_HandleResetAdapter H msg (wstate_id ST_IDLE) u)"
proof -
  obtain b x where c: "CreateAdapterInner H (WAKEUP_ADAPTER_TYPE H) (hf_ctx u) = (b, x)" using prod.exhaust by blast
  obtain r y where a: "adapter_Attach H empty_info (headset_params H (x\<lparr>cx_host := hdi_SetCallback H (cx_host x)\<rparr>)) = (r, y)"
    using prod.exhaust by blast
  have i: "hfields_ok ST_IDLE (u\<lparr>hf_adapter := d, hf_ctx := z\<rparr>)" for d z
    using ok by (auto simp: hfields_ok_def hview_def)
  have n: "hfields_ok ST_INITIALIZING (u\<lparr>hf_adapter := True, hf_ctx := z\<rparr>)" for z
    using ok by (auto simp: hfields_ok_def hview_def recording_def)
  show ?thesis
  proof (cases "b \<and> r = 0")
    case True
    then show ?thesis using c a n by (intro hmovesI [of _ 0 ST_INITIALIZING "u\<lparr>hf_adapter := True, hf_ctx := y\<rparr>"]) (simp_all add: HE_HandleResetAdapter_def Let_def)
  next
    case False
    then show ?thesis using c a i
      by (intro hmoves_stay) (auto simp: HE_HandleResetAdapter_def Let_def hresult_def ReleaseAdapterInner_def split: if_splits)
  qed
qed

lemma moves_HStart:
  assumes ok: "hfields_ok ST_INITIALIZED u"
  shows "\<exists>e'. hmoves ST_INITIALIZED e' (HE_HandleStart H msg (wstate_id ST_INITIALIZED) u)"
proof -
  obtain r h where s: "hdi_Start H True (cx_host (hf_ctx u)) = (r, h)" using prod.exhaust by blast
  define u1 where "u1 = hctx (\<lambda>x. x\<lparr>cx_host := h\<rparr>) u"
  obtain b v where v: "HE_StartAudioSource u1 = (b, v)" using prod.exhaust by blast
  have 1: "hfields_ok ST_INITIALIZED u1" using ok by (simp add: u1_def)
  have nd: "hf_needSecondStageWakeup u" "hf_adapter u" using ok by (auto simp: hfields_ok_def hview_def)
  show ?thesis
  proof (cases "r = 0")
    case True
    then show ?thesis using nd s v hstarted [OF 1 v]
      by (intro hmovesI [of _ 0 ST_RECOGNIZING v]) (simp_all add: HE_HandleStart_def u1_def [symmetric])
  next
    case False
    then show ?thesis using nd s 1 by (intro hmoves_stay) (simp_all add: HE_HandleStart_def u1_def [symmetric] hresult_def)
  qed
qed

lemma moves_HComplete:
  assumes ok: "hfields_ok ST_RECOGNIZING u"
  shows "\<exists>e'. hmoves ST_RECOGNIZING e' (HE_HandleRecognizeComplete H W msg (wstate_id ST_RECOGNIZING) u)"
proof (cases "win_of msg")
  case (WEvent ev)
  obtain l x where n: "WL_Notify W ev (hf_adapterListener (hstop_adapter H u)) (hf_ctx (hstop_adapter H u)) = (l, x)" using prod.exhaust by blast
  have ok1: "hfields_ok ST_RECOGNIZING (hlib c ((hstop_adapter H u)\<lparr>hf_adapterListener := l, hf_ctx := x\<rparr>))" for c using ok by simp
  then have "hfields_ok ST_RECOGNIZED (hlib c ((hstop_adapter H u)\<lparr>hf_adapterListener := l, hf_ctx := x\<rparr>))" for c
    by (rule hfields_ok_recording) (simp_all add: recording_def)
  moreover have "hfields_ok ST_INITIALIZED (HE_StopAudioSource (hlib c ((hstop_adapter H u)\<lparr>hf_adapterListener := l, hf_ctx := x\<rparr>)))" for c
    by (rule hstopped [OF ok1]) (simp_all add: recording_def)
  ultimately show ?thesis using WEvent n
    by (cases "ee_result ev = 0") (auto simp: HE_HandleRecognizeComplete_def Let_def simp del: wstate_id.simps intro: hmovesI)
qed (use ok in \<open>intro hmoves_stay; simp add: HE_HandleRecognizeComplete_def hresult_def\<close>)+

lemma moves_HRead:
  assumes ok: "hfields_ok e u"
  shows "\<exists>e'. hmoves e e' (HE_HandleRead msg (wstate_id e) u)"
proof -
  have "h_next (HE_HandleRead msg n u) = n" for n
    by (simp add: HE_HandleRead_def hresult_def Let_def split: option.split wakeup_out.split prod.split)
  moreover have "hfields_ok e (h_self (HE_HandleRead msg n u))" for n
  proof (cases "\<exists>d. wout_of msg = Some (WOutData d)")
    case True
    then obtain d where d: "wout_of msg = Some (WOutData d)" by blast
    obtain r d1 w where r: "WakeupSource_Read (an_arrive (cx_answers (hf_ctx u))) d (hf_channels u) (hf_source u) = (r, d1, w)"
      using prod_cases3 by blast
    have "hfields_ok e (u\<lparr>hf_source := w, hf_out := z\<rparr>)" for z
      using hview_ok [of "u\<lparr>hf_source := w, hf_out := z\<rparr>" "u\<lparr>hf_source := w\<rparr>" e] hsource_ok [OF Read_queues [OF r], of e] ok
      by (simp add: hview_def)
    then show ?thesis using d r by (simp add: HE_HandleRead_def hresult_def Let_def)
  next
    case False
    then show ?thesis using ok by (auto simp: HE_HandleRead_def hresult_def split: option.split wakeup_out.split)
  qed
  ultimately show ?thesis by (intro hmoves_stay)
qed

lemma moves_HRelease:
  assumes ok: "hfields_ok e u" and e: "e \<noteq> ST_IDLE"
  shows "\<exists>e'. hmoves e e' (HE_HandleRelease H msg (wstate_id e) u)"
proof -
  have s: "hfields_ok ST_IDLE (HE_StopAudioSource u)" by (rule hstopped [OF ok]) (use e in \<open>simp_all add: recording_def\<close>)
  define v where "v = h_self (HE_HandleRelease H msg (wstate_id e) u)"
  have "hfields_ok ST_IDLE v"
    using s hview_ok [of "(HE_StopAudioSource u)\<lparr>hf_adapter := False, hf_ctx := _\<rparr>" "(HE_StopAudioSource u)\<lparr>hf_adapter := False\<rparr>" ST_IDLE]
      hadapter_idle [OF s, of False]
    by (auto simp: v_def HE_HandleRelease_def hresult_def Let_def ReleaseAdapterInner_def hview_def)
  then show ?thesis by (intro hmovesI [of _ 0 ST_IDLE v]) (simp_all add: v_def HE_HandleRelease_def hresult_def Let_def)
qed

lemma hhandler_moves:
  assumes ok: "hfields_ok e u" and h: "hhandlers H W e m = Some h"
  shows "\<exists>e'. hmoves e e' (h msg (wstate_id e) u)"
proof -
  consider "h = HE_HandleSetListener" | "h = HE_HandleSetParam H" | "e = ST_IDLE" "h = HE_HandleInit H" | "e = ST_IDLE" "h = HE_HandleResetAdapter H"
    | "e = ST_INITIALIZING" "h = HE_HandleInitDone" | "e = ST_INITIALIZED" "h = HE_HandleStart H" | "e = ST_RECOGNIZING" "h = HE_HandleRecognizingTimeout H"
    | "e = ST_RECOGNIZING" "h = HE_HandleStop H" | "e = ST_RECOGNIZING" "h = HE_HandleRecognizeComplete H W"
    | "e = ST_RECOGNIZED \<or> e = ST_READ_CAPTURER" "h = HE_HandleStopCapturer" | "e = ST_RECOGNIZED" "h = HE_HandleStartCapturer"
    | "e = ST_READ_CAPTURER" "h = HE_HandleRead" | "e \<noteq> ST_IDLE" "h = HE_HandleRelease H"
    using h by (cases e) (auto simp: hhandlers_def hlive_handlers_def hany_handlers_def split: if_splits)
  then show ?thesis
  proof cases
    case 1
    then show ?thesis using ok by (intro hmoves_stay) (auto simp: HE_HandleSetListener_def hresult_def split: wakeup_in.split prod.split)
  next
    case 2
    then show ?thesis using ok by (intro hmoves_stay) (auto simp: HE_HandleSetParam_def hresult_def split: wakeup_in.split prod.split)
  next
    case 5
    have "hfields_ok ST_INITIALIZED u" using ok 5(1) by (auto intro: hfields_ok_recording simp: recording_def)
    then show ?thesis using ok 5 by (cases "win_of msg = WInt 0")
        (auto simp: HE_HandleInitDone_def simp del: wstate_id.simps intro: hmovesI [where r = 0] hmovesI [where r = "-1"])
  next
    case 7
    then show ?thesis using ok
      by (intro hmovesI [of _ 0 ST_INITIALIZED "h_self (h msg (wstate_id e) u)"])
        (auto simp: HE_HandleRecognizingTimeout_def hresult_def recording_def intro!: hstopped)
  next
    case 8
    then show ?thesis using ok
      by (intro hmovesI [of _ 0 ST_INITIALIZED "h_self (h msg (wstate_id e) u)"])
        (auto simp: HE_HandleStop_def hresult_def recording_def intro!: hstopped)
  next
    case 10
    then show ?thesis using ok
      by (intro hmovesI [of _ 0 ST_INITIALIZED "HE_StopAudioSource u"])
        (auto simp: HE_HandleStopCapturer_def recording_def intro!: hstopped)
  next
    case 11
    have "hfields_ok ST_READ_CAPTURER u" using ok 11(1) by (auto intro: hfields_ok_recording simp: recording_def)
    then show ?thesis using ok 11
      by (cases "win_of msg") (auto simp: HE_HandleStartCapturer_def simp del: wstate_id.simps intro: hmovesI [where r = 0] hmovesI [where r = "-1"])
  next
    case 3
    then show ?thesis using ok moves_HInit [of u] by (simp del: wstate_id.simps)
  next
    case 4
    then show ?thesis using ok moves_HReset [of u] by (simp del: wstate_id.simps)
  next
    case 6
    then show ?thesis using ok moves_HStart [of u] by (simp del: wstate_id.simps)
  next
    case 9
    then show ?thesis using ok moves_HComplete [of u] by (simp del: wstate_id.simps)
  next
    case 12
    then show ?thesis using moves_HRead [OF ok] by simp
  next
    case 13
    then show ?thesis using moves_HRelease [OF ok] by simp
  qed
qed

lemma htimeout_rests:
  "recording e \<Longrightarrow> \<exists>h. hhandlers H W e (cfg_type (wcfg_of e)) = Some h \<and>
     (\<forall>msg u. h_ret (h msg (wstate_id e) u) = 0 \<and> h_next (h msg (wstate_id e) u) = wstate_id ST_INITIALIZED)"
  by (auto simp: recording_def hhandlers_def wcfg_of_def HE_HandleRecognizingTimeout_def HE_HandleStopCapturer_def hresult_def)

interpretation hframe: table_engine wstate_id "htable H W" hfields_ok ST_INITIALIZED for H W
proof
  show "\<exists>e'. hmoves e e' (h msg (wstate_id e) u)" if "hfields_ok e u" "sa_actions (htable H W e) m = Some h" for e u m h msg
    using hhandler_moves that by simp
  show "\<exists>h. sa_actions (htable H W e) (cfg_type (sa_cfg (htable H W e))) = Some h \<and>
      (\<forall>msg u. h_ret (h msg (wstate_id e) u) = 0 \<and> h_next (h msg (wstate_id e) u) = wstate_id ST_INITIALIZED)"
    if "timed (htable H W) e" for e
    using htimeout_rests [of e H W] that by (simp del: wstate_id.simps)
qed (simp_all add: recording_def)

abbreviation headset_fit :: "'a hdi \<Rightarrow> wakeup_device \<Rightarrow> WakeupState \<Rightarrow> 'a headset_engine \<Rightarrow> bool" where
  "headset_fit H W \<equiv> machine_fit wstate_id (htable H W) hfields_ok"

abbreviation headset_at :: "'a hdi \<Rightarrow> wakeup_device \<Rightarrow> WakeupState \<Rightarrow> 'a headset_sys \<Rightarrow> bool" where
  "headset_at H W \<equiv> machine_at wstate_id (htable H W) hfields_ok"

definition headset_inv :: "'a hdi \<Rightarrow> wakeup_device \<Rightarrow> 'a headset_sys \<Rightarrow> bool" where
  "headset_inv H W x \<longleftrightarrow> (\<exists>e. headset_at H W e x)"

subsection \<open>Steps\<close>

lemma headset_new_fit: "headset_fit H W ST_IDLE (headset_new H W (\<lambda>_. True) True this c)"
proof -
  let ?s = "headset_new H W (\<lambda>_. True) True this c"
  have "ms_idle (fold configure (HE_InitStates H W (\<lambda>_. True)) (ModuleStates_new (wstate_id ST_IDLE) True this (headset_fields_new c)))"
    using ms_idle_new by (rule fold_invariant) (rule ms_idle_configure)
  then have i: "ms_idle ?s" by (simp add: headset_new_def ms_idle_def tables_unarmed_def)
  have t: "ms_states ?s k \<noteq> Some None" "ms_states ?s (wstate_id e) = Some (Some (htable H W e))" for k e
    by (simp add: headset_tables) (cases e; simp add: headset_tables)
  have "tm_status (ms_tm ?s) = TIMER_STATUS_STARTED \<and> ms_isInitSucc ?s \<and> ms_currState ?s = Some (wstate_id ST_IDLE) \<and>
      ms_self ?s = headset_fields_new c"
    by (simp add: headset_new_def HE_InitStates_def FromState_def Group_Add_def machine_eval upto_rec1 timer_defs TimerMgr_def)
  moreover have "hfields_ok ST_IDLE (headset_fields_new c)"
    by (auto simp: hfields_ok_def hview_def headset_fields_new_def WakeupSource_new_def recording_def)
  ultimately show ?thesis using i t by (intro machine_fit_start) auto
qed

lemma hfields_at: "headset_at H W e (s, p) \<Longrightarrow> (\<And>u. hview (f u) = hview u) \<Longrightarrow> headset_at H W e (hfields f s, p)"
  unfolding hfields_def by (rule machine_at_self) (simp_all add: machine_at_def machine_fit_def hfields_ok_def)

lemma headset_started: "headset_start H W x \<Longrightarrow> headset_at H W ST_IDLE x"
proof -
  assume "headset_start H W x"
  then obtain this c s where s: "HE_Create True True (headset_new H W (\<lambda>_. True) True this c) = (True, s)" "x = (s, None)"
    by (auto simp: headset_start_def)
  have "headset_at H W ST_IDLE (headset_new H W (\<lambda>_. True) True this c, None)"
    using headset_new_fit by (auto simp: machine_at_def recording_def)
  then show ?thesis using s by (auto simp: HE_Create_def Let_def intro!: hfields_at)
qed

lemma HE_Handle_inv:
  assumes "headset_inv H W (s, p)" "HE_Handle now msg s = Ret (r, t)"
  shows "headset_inv H W (t, p)"
proof -
  obtain e where e: "headset_at H W e (s, p)" using assms(1) by (auto simp: headset_inv_def)
  then have "HE_Handle now msg s = HandleMsg now msg s" by (simp add: machine_at_def machine_fit_def HE_Handle_def IsStatesInitSucc_def)
  with hframe.client_at [OF e] assms(2) show ?thesis by (auto simp: headset_inv_def)
qed

text \<open>The thread keeps to its fields.\<close>

lemma round_view:
  assumes ok: "hfields_ok e u" and r: "ReadThread_round H a u = Ret v"
  shows "hfields_ok e v"
proof -
  have w: "queues (WakeupSource_Write d w) = queues w" for d w by (rule Write_queues)
  have "hview v = hview u"
    using r w [of "[sr_audio a]"]
    by (auto simp: ReadThread_round_def end_of_pcm_def write_adapter_def hview_def hctx_def obind_eq_Ret split: read_thread.splits if_splits)
  then show ?thesis using ok hview_ok by blast
qed

interpretation headset: invariant_system "headset_start H W" "headset_step H" "headset_inv H W" for H W
proof (unfold_locales, goal_cases)
  case (1 x)
  from headset_started [OF this] show ?case by (auto simp: headset_inv_def)
next
  case (2 x y)
  from 2(2) show ?case
  proof (cases rule: headset_step.cases)
    case (h_client now msg s r t p)
    then show ?thesis using 2(1) HE_Handle_inv by blast
  next
    case (h_detected now s t p)
    then show ?thesis using 2(1) by (auto simp: HE_OnTriggerDetected_def obind_eq_Ret intro: HE_Handle_inv)
  next
    case (h_initdone now res s t p)
    then show ?thesis using 2(1) by (auto simp: HE_OnInitDone_def obind_eq_Ret intro: HE_Handle_inv)
  next
    case (h_recognition now res info s t p)
    then show ?thesis using 2(1) by (auto simp: HE_OnWakeupRecognition_def obind_eq_Ret intro: HE_Handle_inv)
  next
    case (h_round a s u p)
    obtain e where e: "headset_at H W e (s, p)" using 2(1) h_round by (auto simp: headset_inv_def)
    then have "hfields_ok e u" using round_view [OF _ h_round(3)] by (simp add: machine_at_def machine_fit_def)
    from machine_at_self [OF e this] show ?thesis unfolding headset_inv_def h_round by blast
  next
    case (h_world s p a h k)
    obtain e where "headset_at H W e (s, p)" using 2(1) h_world by (auto simp: headset_inv_def)
    then have "headset_at H W e (hfields (hctx (\<lambda>x. x\<lparr>cx_kv := k, cx_host := h, cx_answers := a\<rparr>)) s, p)" by (rule hfields_at) simp
    then show ?thesis unfolding headset_inv_def h_world by blast
  next
    case (h_take now s ev ob tm)
    then show ?thesis using hframe.take_at [of H W _ s now ev ob tm] 2(1) unfolding headset_inv_def by auto
  next
    case (h_deliver now ev s t)
    then show ?thesis using hframe.deliver_at [of H W _ s ev now t] 2(1) unfolding headset_inv_def by blast
  qed
qed

section \<open>Properties\<close>

lemma headset_reach_at:
  assumes "reach (headset_start H W) (headset_step H) (s, p)" "ms_currState s = Some (wstate_id e)"
  shows "headset_at H W e (s, p)" "headset_fit H W e s"
proof -
  obtain n where "headset_at H W n (s, p)" using headset.reach_inv [OF assms(1)] by (auto simp: headset_inv_def)
  then show "headset_at H W e (s, p)" using hframe.at_unique assms(2) by fastforce
  then show "headset_fit H W e s" by (simp add: machine_at_def)
qed

lemma hcall:
  assumes fit: "headset_fit H W e s" and h: "hhandlers H W e (msgId msg) = Some h"
    and r: "h msg (wstate_id e) (ms_self s) = hresult ret (wstate_id e') v"
  shows "\<exists>t. HE_Handle now msg s = Ret (ret, t) \<and> ms_self t = v \<and> headset_fit H W (if ret = 0 then e' else e) t"
  using hframe.call [OF fit, of msg h e' now] h r fit by (auto simp: hresult_def HE_Handle_def machine_fit_def IsStatesInitSucc_def)

lemma round_returns:
  assumes "hfields_ok e u"
  shows "\<exists>v. ReadThread_round H a u = Ret v"
proof (cases "recording e")
  case True
  then have "hf_adapter u" using assms by (auto simp: hfields_ok_def hview_def recording_def)
  then show ?thesis
    by (cases "hf_readThread u") (simp_all add: ReadThread_round_def end_of_pcm_def write_adapter_def hctx_def)
next
  case False
  then show ?thesis using assms by (auto simp: hfields_ok_def hview_def ReadThread_round_def)
qed

text \<open>
  C25. However clients, the driver, the reading thread and the timer thread interleave, the headset's engine reads its stream
  exactly while it records, and has a thread to join exactly then, so a thread is never replaced unjoined; its source has one
  channel with one buffer queue exactly while it records, and none otherwise; a recording state has its timeout pending, as the
  one timer of the engine or taken by the timer thread; the adapter exists in every state but idle, and no round of the thread misses it.
\<close>

theorem headset_session_bounded:
  assumes "reach (headset_start H W) (headset_step H) (s, p)"
  shows "\<exists>e. CurrState s = wstate_id e \<and> (hf_isReading (ms_self s) \<longleftrightarrow> recording e) \<and> (hf_readThread (ms_self s) \<noteq> NoThread \<longleftrightarrow> recording e) \<and>
    ws_channelCnt (hf_source (ms_self s)) = of_bool (recording e) \<and> length (ws_bufferQueue (hf_source (ms_self s))) = of_bool (recording e) \<and>
    (e \<noteq> ST_IDLE \<longrightarrow> hf_adapter (ms_self s)) \<and> (\<forall>a. \<exists>u. ReadThread_round H a (ms_self s) = Ret u) \<and>
    (recording e \<longrightarrow>
       (\<exists>x. ms_queue s = [x] \<and> ti_type x = cfg_type (wcfg_of e) \<and> ti_observer x = Some (ms_this s)) \<or>
       (\<exists>ev. p = Some ev \<and> te_type ev = cfg_type (wcfg_of e)))"
proof -
  obtain e where at: "headset_at H W e (s, p)" using headset.reach_inv [OF assms] by (auto simp: headset_inv_def)
  then have f: "CurrState s = wstate_id e" "hfields_ok e (ms_self s)" by (simp_all add: machine_at_def machine_fit_def CurrState_def)
  moreover have "(\<exists>x. ms_queue s = [x] \<and> ti_type x = cfg_type (wcfg_of e) \<and> ti_observer x = Some (ms_this s)) \<or>
       (\<exists>ev. p = Some ev \<and> te_type ev = cfg_type (wcfg_of e))" if "recording e"
    using hframe.timer_shape [OF at] that by simp
  moreover have "\<forall>a. \<exists>u. ReadThread_round H a (ms_self s) = Ret u" using round_returns [OF f(2)] by blast
  ultimately show ?thesis by (intro exI [of _ e]) (auto simp: hfields_ok_def hview_def)
qed

lemma hstop_lib: "hfields_ok e u \<Longrightarrow> recording e \<Longrightarrow> hf_lib (HE_StopAudioSource u) = hf_lib u @ [StopReadingStream] \<and>
    hf_adapterListener (HE_StopAudioSource u) = hf_adapterListener u \<and> hf_ctx (HE_StopAudioSource u) = hf_ctx u"
  by (auto simp: hfields_ok_def hview_def HE_StopAudioSource_def hlib_def Let_def)

lemma hstop_frames:
  "hf_lib (hstop_adapter H u) = hf_lib u" "hf_adapterListener (hstop_adapter H u) = hf_adapterListener u"
  "cx_calls (hf_ctx (hstop_adapter H u)) = cx_calls (hf_ctx u)"
  by (simp_all add: hstop_adapter_def hctx_def EU_Stop_def split: prod.split)

text \<open>
  The verdict on a recognition: in the state \<open>RECOGNIZING\<close> the driver's result is told to the headset exactly once, the client
  that listens gets it exactly once (or it is kept for the next one), and the engine goes on reading exactly when the
  phrase was recognised; otherwise the stream is stopped.
\<close>

theorem headset_verdict:
  fixes res :: int and info :: string
  assumes r: "reach (headset_start H W) (headset_step H) (s, p)" and c: "CurrState s = wstate_id ST_RECOGNIZING"
  defines "u \<equiv> ms_self s" and "ev \<equiv> \<lparr>ee_msgId = MSG_HEADSET_RECOGNIZE_COMPLETE, ee_result = res, ee_info = info\<rparr>"
  shows "\<exists>t. HE_OnWakeupRecognition now res info s = Ret t \<and> CurrState t = wstate_id (if res = 0 then ST_RECOGNIZED else ST_INITIALIZED) \<and>
    hf_isReading (ms_self t) = (res = 0) \<and>
    hf_lib (ms_self t) = hf_lib u @ (if res = 0 then [NotifyVerifyResult True] else [NotifyVerifyResult False, StopReadingStream]) \<and>
    (case wl_cb (hf_adapterListener u) of
       None \<Rightarrow> cx_calls (hf_ctx (ms_self t)) = cx_calls (hf_ctx u) \<and> wl_historyEvent (hf_adapterListener (ms_self t)) = Some ev
     | Some k \<Rightarrow> cx_calls (hf_ctx (ms_self t)) = cx_calls (hf_ctx u) @ [OnIntellVoiceEngineEvent k ev])"
proof -
  have "ms_currState s = Some (wstate_id ST_RECOGNIZING)" using c by (auto simp: CurrState_def split: option.splits)
  from headset_reach_at(2) [OF r this] have fit: "headset_fit H W ST_RECOGNIZING s" .
  then have ok: "hfields_ok ST_RECOGNIZING u" by (simp add: machine_fit_def u_def)
  obtain l x where n: "WL_Notify W ev (hf_adapterListener (hstop_adapter H u)) (hf_ctx (hstop_adapter H u)) = (l, x)" using prod.exhaust by blast
  define u1 where "u1 = (hstop_adapter H u)\<lparr>hf_adapterListener := l, hf_ctx := x\<rparr>"
  define v where "v = (if res = 0 then hlib (NotifyVerifyResult True) u1 else HE_StopAudioSource (hlib (NotifyVerifyResult False) u1))"
  define e' where "e' = (if res = 0 then ST_RECOGNIZED else ST_INITIALIZED)"
  have ok1: "hfields_ok ST_RECOGNIZING (hlib k u1)" for k using ok by (simp add: u1_def)
  let ?m = "wmsg EV_RECOGNIZE_COMPLETE (WEvent ev) None"
  have "HE_HandleRecognizeComplete H W ?m (wstate_id ST_RECOGNIZING) (ms_self s) = hresult 0 (wstate_id e') v"
    using n by (simp add: HE_HandleRecognizeComplete_def Let_def wmsg_def win_of_def u_def [symmetric] u1_def [symmetric] v_def e'_def)
      (simp add: ev_def)
  then obtain t where t: "HE_Handle now ?m s = Ret (0, t)" "ms_self t = v" "headset_fit H W e' t"
    using hcall [OF fit, of ?m _ 0 e' v now] by (auto simp: hhandlers_def wmsg_def)
  have "complete_msg ev" by (simp add: complete_msg_def ev_def)
  then have "case wl_cb (hf_adapterListener u) of None \<Rightarrow> cx_calls x = cx_calls (hf_ctx u) \<and> wl_historyEvent l = Some ev
     | Some k \<Rightarrow> cx_calls x = cx_calls (hf_ctx u) @ [OnIntellVoiceEngineEvent k ev]"
    using n by (auto simp: Notify_complete hstop_frames emit_def report_track_def split: option.splits)
  moreover have "hf_lib v = hf_lib u @ (if res = 0 then [NotifyVerifyResult True] else [NotifyVerifyResult False, StopReadingStream])"
    "hf_ctx v = x" "hf_adapterListener v = l"
    using hstop_lib [OF ok1] by (simp_all add: v_def hlib_def u1_def recording_def hstop_frames)
  moreover have "hf_isReading v = (res = 0)" "CurrState t = wstate_id e'"
    using t by (auto simp: machine_fit_def hfields_ok_def hview_def recording_def e'_def CurrState_def split: if_splits)
  ultimately show ?thesis using t
    by (intro exI [of _ t]) (auto simp: HE_OnWakeupRecognition_def ev_def [symmetric] e'_def split: option.splits)
qed

section \<open>The stream\<close>

lemma ReadThread_ended:
  "hf_readThread u = Reading True \<Longrightarrow> hf_isReading u \<Longrightarrow> \<forall>a \<in> set as. sr_ret a = 1 \<Longrightarrow> sr_ret z \<noteq> 1 \<Longrightarrow>
   ReadThread H (as @ [z]) u =
     Ret (u\<lparr>hf_readThread := Finished, hf_source := fold (\<lambda>a. WakeupSource_Write [sr_audio a]) as (hf_source u)\<rparr>)"
  by (induction as arbitrary: u) (simp_all add: ReadThread_round_def)

text \<open>The source of one channel whose queue holds the given frames; a write beyond its capacity is dropped, and so is an empty frame.\<close>

definition holds_frames :: "bytes list \<Rightarrow> WakeupSourceProcess \<Rightarrow> bool" where
  "holds_frames fs w \<longleftrightarrow> ws_channelCnt w = 1 \<and> ws_bufferQueue w = [open_queue fs] \<and> length fs \<le> MAX_CAPACITY"

abbreviation queued :: "bytes list \<Rightarrow> bytes list \<Rightarrow> bytes list" where
  "queued fs ds \<equiv> take MAX_CAPACITY (fs @ filter (\<lambda>d. d \<noteq> []) ds)"

lemma Write_queued: "holds_frames fs w \<Longrightarrow> holds_frames (queued fs [d]) (WakeupSource_Write [d] w)"
  by (auto simp: holds_frames_def WakeupSource_Write_def WriteChannelData_def CreateArrayBuffer_def push_now_def Queue_Push_def open_queue_def)

lemma queued_step: "length fs \<le> MAX_CAPACITY \<Longrightarrow> queued (queued fs [d]) ds = queued fs (d # ds)"
  by (cases "length fs < MAX_CAPACITY") (auto simp: take_Cons' Suc_diff_Suc)

lemma Writes_queued:
  "holds_frames fs w \<Longrightarrow> holds_frames (queued fs (map sr_audio as)) (fold (\<lambda>a. WakeupSource_Write [sr_audio a]) as w)"
proof (induction as arbitrary: fs w)
  case Nil
  then show ?case by (simp add: holds_frames_def)
next
  case (Cons a as)
  have "length fs \<le> MAX_CAPACITY" using Cons.prems by (simp add: holds_frames_def)
  with Cons.IH [OF Write_queued [OF Cons.prems, of "sr_audio a"]] show ?case by (simp only: queued_step list.map fold_simps)
qed

lemma ReadThread_splits:
  fixes u :: "'a headset_fields"
  assumes "hf_readThread u = Reading False" "hf_isReading u" "hf_adapter u" "\<forall>a \<in> set as. sr_ret a = 1" "sr_ret z \<noteq> 1"
  shows "ReadThread H (as @ [z]) u = Ret (u\<lparr>hf_readThread := Finished,
     hf_source := fold (\<lambda>a. WakeupSource_Write [sr_audio a]) as (hf_source u),
     hf_ctx := (hf_ctx u)\<lparr>cx_host := snd (hdi_SetParameter H ''end_of_pcm=true''
       (fold (\<lambda>a h. snd (hdi_WriteAudio H (sr_audio a) h)) (takeWhile sr_hasAwakeWord as) (cx_host (hf_ctx u))))\<rparr>\<rparr>)"
  using assms
proof (induction as arbitrary: u)
  case Nil
  then show ?case
    by (simp add: ReadThread_round_def end_of_pcm_def hctx_def adapter_SetParameter_def case_prod_unfold)
next
  case (Cons a as)
  show ?case
  proof (cases "sr_hasAwakeWord a")
    case True
    let ?v = "(hctx (adapter_WriteAudio H (sr_audio a)) u)\<lparr>hf_source := WakeupSource_Write [sr_audio a] (hf_source u)\<rparr>"
    have "ReadThread_round H a u = Ret ?v" using Cons.prems True by (simp add: ReadThread_round_def write_adapter_def hctx_def)
    moreover have "hf_readThread ?v = Reading False" "hf_isReading ?v" "hf_adapter ?v" using Cons.prems by (simp_all add: hctx_def)
    ultimately show ?thesis using Cons.IH [of ?v] Cons.prems True by (simp add: hctx_def adapter_WriteAudio_def)
  next
    case False
    let ?v = "(hctx (\<lambda>x. snd (adapter_SetParameter H ''end_of_pcm=true'' x)) u)\<lparr>hf_readThread := Reading True,
      hf_source := WakeupSource_Write [sr_audio a] (hf_source u)\<rparr>"
    have "ReadThread_round H a u = Ret ?v" using Cons.prems False by (simp add: ReadThread_round_def end_of_pcm_def hctx_def)
    moreover have "hf_readThread ?v = Reading True" "hf_isReading ?v" using Cons.prems by (simp_all add: hctx_def)
    ultimately show ?thesis using ReadThread_ended [of ?v as z H] Cons.prems False
      by (simp add: hctx_def adapter_SetParameter_def case_prod_unfold)
  qed
qed

text \<open>
  C26. The audio of a session, while the client does not read: over any answers of the headset up to the one that ends the stream,
  the adapter gets exactly the audio before the first answer without the phrase, in order, and after it the end mark, once; the
  client's queue holds what it held before followed by all the non-empty audio of these answers, in order, of which those beyond
  its capacity of 500 frames are dropped; nothing else of the engine changes but the thread, which has ended.
\<close>

theorem headset_stream_split:
  fixes u :: "'a headset_fields"
  assumes "hf_readThread u = Reading False" "hf_isReading u" "hf_adapter u" "\<forall>a \<in> set as. sr_ret a = 1" "sr_ret z \<noteq> 1"
    "ws_channelCnt (hf_source u) = 1" "ws_bufferQueue (hf_source u) = [open_queue fs]" "length fs \<le> 500"
  shows "\<exists>v. ReadThread H (as @ [z]) u = Ret v \<and>
    ws_bufferQueue (hf_source v) = [open_queue (take 500 (fs @ filter (\<lambda>d. d \<noteq> []) (map sr_audio as)))] \<and>
    v = u\<lparr>hf_readThread := Finished, hf_source := hf_source v,
      hf_ctx := (hf_ctx u)\<lparr>cx_host := snd (hdi_SetParameter H ''end_of_pcm=true''
        (fold (\<lambda>a h. snd (hdi_WriteAudio H (sr_audio a) h)) (takeWhile sr_hasAwakeWord as) (cx_host (hf_ctx u))))\<rparr>\<rparr>"
proof -
  have "holds_frames fs (hf_source u)" using assms(6-8) by (simp add: holds_frames_def MAX_CAPACITY_def)
  from Writes_queued [OF this, of as] show ?thesis
    unfolding ReadThread_splits [OF assms(1-5)] by (intro exI [of _ "u\<lparr>hf_readThread := Finished,
     hf_source := fold (\<lambda>a. WakeupSource_Write [sr_audio a]) as (hf_source u),
     hf_ctx := (hf_ctx u)\<lparr>cx_host := snd (hdi_SetParameter H ''end_of_pcm=true''
       (fold (\<lambda>a h. snd (hdi_WriteAudio H (sr_audio a) h)) (takeWhile sr_hasAwakeWord as) (cx_host (hf_ctx u))))\<rparr>\<rparr>"])
      (simp add: holds_frames_def MAX_CAPACITY_def)
qed

section \<open>Examples\<close>

definition hdemo_init :: "unit headset_engine" where
  "hdemo_init = snd (HE_Create True True (headset_new demo_hdi demo_device (\<lambda>_. True) True 7 demo_ctx))"

definition hdemo_run :: "unit headset_engine option" where
  "hdemo_run = (case HE_Handle 0 (wmsg EV_INIT WNull None) hdemo_init of
     Inr (_, s1) \<Rightarrow> (case HE_OnInitDone 0 0 s1 of Inr s2 \<Rightarrow> (case HE_OnTriggerDetected 0 s2 of Inr s3 \<Rightarrow> Some s3 | _ \<Rightarrow> None) | _ \<Rightarrow> None)
   | _ \<Rightarrow> None)"

lemma hdemo_reach:
  assumes "hdemo_run = Some s"
  shows "reach (headset_start demo_hdi demo_device) (headset_step demo_hdi) (s, None)"
proof -
  note st = reach_step [where step = "headset_step demo_hdi"]
  have "IsStatesInitSucc (headset_new demo_hdi demo_device (\<lambda>_. True) True 7 demo_ctx)" by code_simp
  then have i: "headset_start demo_hdi demo_device (hdemo_init, None)"
    unfolding headset_start_def hdemo_init_def
    by (intro exI [of _ 7] exI [of _ demo_ctx]) (simp add: HE_Create_def hfields_def IsStatesInitSucc_def)
  obtain r s1 s2 where "HE_Handle 0 (wmsg EV_INIT WNull None) hdemo_init = Ret (r, s1)" "HE_OnInitDone 0 0 s1 = Ret s2" "HE_OnTriggerDetected 0 s2 = Ret s"
    using assms by (auto simp: hdemo_run_def split: sum.splits prod.splits)
  from st [OF st [OF st [OF reach_start [of "headset_start demo_hdi demo_device", OF i] h_client [OF this(1)]] h_initdone [OF this(2)]] h_detected [OF this(3)]]
  show ?thesis .
qed

lemma hdemo_state:
  "case hdemo_run of None \<Rightarrow> False
   | Some s \<Rightarrow> CurrState s = wstate_id ST_RECOGNIZING \<and> wl_cb (hf_adapterListener (ms_self s)) = None \<and> hf_adapter (ms_self s) \<and>
       hf_readThread (ms_self s) = Reading False \<and> hf_isReading (ms_self s) \<and>
       ws_channelCnt (hf_source (ms_self s)) = 1 \<and> ws_bufferQueue (hf_source (ms_self s)) = [open_queue []]"
  by code_simp

lemma headset_session_bounded_witness:
  "\<exists>s. hdemo_run = Some s \<and> hf_isReading (ms_self s) \<and> length (ws_bufferQueue (hf_source (ms_self s))) = 1 \<and> length (ms_queue s) = 1"
proof -
  obtain s where s: "hdemo_run = Some s" "CurrState s = wstate_id ST_RECOGNIZING" using hdemo_state by (auto split: option.splits)
  from headset_session_bounded [OF hdemo_reach [OF s(1)]] s show ?thesis by (auto simp: recording_def simp del: wstate_id.simps)
qed

lemma headset_verdict_witness:
  "\<exists>s t. hdemo_run = Some s \<and> HE_OnWakeupRecognition 5 0 ''x'' s = Ret t \<and> last (hf_lib (ms_self t)) = NotifyVerifyResult True"
proof -
  obtain s where s: "hdemo_run = Some s" "CurrState s = wstate_id ST_RECOGNIZING" using hdemo_state by (auto split: option.splits)
  from headset_verdict [OF hdemo_reach [OF s(1)] s(2), of 5 0 "''x''"] s show ?thesis by auto
qed

lemma headset_stream_split_witness:
  "\<exists>s v. hdemo_run = Some s \<and> ReadThread demo_hdi [\<lparr>sr_ret = 1, sr_audio = [1], sr_hasAwakeWord = True\<rparr>,
       \<lparr>sr_ret = 1, sr_audio = [2], sr_hasAwakeWord = False\<rparr>, \<lparr>sr_ret = 0, sr_audio = [], sr_hasAwakeWord = True\<rparr>] (ms_self s) = Ret v \<and>
     ws_bufferQueue (hf_source v) = [open_queue [[1], [2]]]"
proof -
  obtain s where s: "hdemo_run = Some s" "hf_readThread (ms_self s) = Reading False" "hf_isReading (ms_self s)" "hf_adapter (ms_self s)"
    "ws_channelCnt (hf_source (ms_self s)) = 1" "ws_bufferQueue (hf_source (ms_self s)) = [open_queue []]"
    using hdemo_state by (auto split: option.splits)
  let ?as = "[\<lparr>sr_ret = 1, sr_audio = [1], sr_hasAwakeWord = True\<rparr>, \<lparr>sr_ret = 1, sr_audio = [2], sr_hasAwakeWord = False\<rparr>]"
  from headset_stream_split [OF s(2-4) _ _ s(5,6), of ?as "\<lparr>sr_ret = 0, sr_audio = [], sr_hasAwakeWord = True\<rparr>" demo_hdi] s(1)
  show ?thesis by (intro exI [of _ s]) auto
qed

text \<open>Finding: an adapter that cannot be attached is kept in the idle state, which has no event to release it.\<close>

lemma headset_init_keeps_adapter:
  assumes "CreateAdapterInner H (WAKEUP_ADAPTER_TYPE H) (hf_ctx u) = (True, x)" "\<And>i h. fst (hdi_Attach H i h) \<noteq> 0"
  shows "h_ret (HE_HandleInit H msg nxt u) = -1 \<and> h_next (HE_HandleInit H msg nxt u) = nxt \<and> hf_adapter (h_self (HE_HandleInit H msg nxt u)) \<and>
    hhandlers H W ST_IDLE (wevent_id EV_RELEASE) = None"
proof -
  have "r \<noteq> 0" if "adapter_Attach H i y = (r, z)" for i y r z
    using assms(2) [of i "cx_host y"] that by (auto simp: adapter_Attach_def split: prod.splits)
  then show ?thesis using assms(1)
    by (auto simp: HE_HandleInit_def HE_SetCallbackInner_def HE_AttachInner_def hresult_def hctx_def Let_def hhandlers_def hany_handlers_def
        split: wakeup_in.split prod.split)
qed

end
