(* ===== verification/Glasses_Engine.thy ===== *)
theory Glasses_Engine
  imports Headset_Engine
begin

text \<open>
  The wake-up engine of smart glasses, \<open>services/intell_voice_engine/server/wakeup/glasses\<close>. The glasses recognise the phrase
  themselves and report the result through the callback the engine gives their library; audio is streamed only after
  that, or at once when the device asks for no second stage. As for the headset, the library's answers are arguments, its
  calls are kept in \<open>gf_lib\<close>, and a round of the reading thread is one step.
\<close>

section \<open>Data\<close>

datatype glasses_call = GlassesSetCallback bool | GlassesStopReading

record 'a GlassesWakeupEngineImpl =
  gf_channels :: int
  gf_needSecondStageWakeup :: bool
  gf_isReading :: bool
  gf_readThread :: read_thread
  gf_adapterListener :: WakeupAdapterListener
  gf_source :: WakeupSourceProcess
  gf_out :: "wakeup_out option"
  gf_lib :: "glasses_call list"
  gf_ctx :: "'a engine_ctx"

type_synonym 'a glasses_fields = "'a GlassesWakeupEngineImpl"
type_synonym 'a glasses_engine = "(wakeup_msg, 'a glasses_fields) ModuleStates"
type_synonym 'a glasses_handler = "(wakeup_msg, 'a glasses_fields) HandleMsg_fn"

definition gresult :: "int \<Rightarrow> int \<Rightarrow> 'a glasses_fields \<Rightarrow> 'a glasses_fields handled" where
  "gresult ret nxt u = \<lparr>h_ret = ret, h_next = nxt, h_reset = False, h_self = u\<rparr>"

definition glib :: "glasses_call \<Rightarrow> 'a glasses_fields \<Rightarrow> 'a glasses_fields" where
  "glib c u = u\<lparr>gf_lib := gf_lib u @ [c]\<rparr>"

section \<open>Audio\<close>

definition GE_StartAudioSource :: "'a glasses_fields \<Rightarrow> bool \<times> 'a glasses_fields" where
  "GE_StartAudioSource u = (True, u\<lparr>gf_isReading := True, gf_source := WakeupSource_Init 1 (gf_source u), gf_readThread := Reading False\<rparr>)"

definition GE_StopAudioSource :: "'a glasses_fields \<Rightarrow> 'a glasses_fields" where
  "GE_StopAudioSource u =
     (if \<not> gf_isReading u then u
      else let u1 = glib GlassesStopReading (u\<lparr>gf_isReading := False, gf_readThread := NoThread\<rparr>)
           in u1\<lparr>gf_source := WakeupSource_Release (gf_source u1)\<rparr>)"

definition GE_ReadThread_round :: "stream_answer \<Rightarrow> 'a glasses_fields \<Rightarrow> 'a glasses_fields" where
  "GE_ReadThread_round a u =
     (case gf_readThread u of
        Reading _ \<Rightarrow>
          if \<not> gf_isReading u \<or> sr_ret a \<noteq> 0 then u\<lparr>gf_readThread := Finished\<rparr>
          else u\<lparr>gf_source := WakeupSource_Write [sr_audio a] (gf_source u)\<rparr>
      | _ \<Rightarrow> u)"

section \<open>Handlers\<close>

definition GE_HandleInit :: "'a glasses_handler" where
  "GE_HandleInit msg nxt u = gresult 0 (wstate_id ST_INITIALIZED) (glib (GlassesSetCallback True) u)"

definition GE_HandleSetListener :: "'a glasses_handler" where
  "GE_HandleSetListener msg nxt u =
     (case win_of msg of
        WListener cb \<Rightarrow>
          (case WL_SetCallback cb (gf_adapterListener u) (gf_ctx u) of (l, x) \<Rightarrow> gresult 0 nxt (u\<lparr>gf_adapterListener := l, gf_ctx := x\<rparr>))
      | _ \<Rightarrow> gresult (-1) nxt u)"

definition GE_HandleStart :: "'a glasses_handler" where
  "GE_HandleStart msg nxt u =
     (if gf_needSecondStageWakeup u then gresult 0 (wstate_id ST_RECOGNIZING) u
      else (case GE_StartAudioSource u of
          (False, u1) \<Rightarrow> gresult (-1) (wstate_id ST_INITIALIZED) u1
        | (True, u1) \<Rightarrow> gresult 0 (wstate_id ST_RECOGNIZED) u1))"

definition GE_HandleStartCapturer :: "'a glasses_handler" where
  "GE_HandleStartCapturer msg nxt u =
     (if win_of msg = WNull then gresult (-1) nxt u else gresult 0 (wstate_id ST_READ_CAPTURER) (u\<lparr>gf_channels := 1\<rparr>))"

definition GE_HandleRead :: "'a glasses_handler" where
  "GE_HandleRead msg nxt u =
     (case wout_of msg of
        Some (WOutData data) \<Rightarrow>
          (case WakeupSource_Read (an_arrive (cx_answers (gf_ctx u))) data (gf_channels u) (gf_source u) of
             (ret, data1, src) \<Rightarrow>
               (let u1 = u\<lparr>gf_source := src, gf_out := Some (WOutData data1)\<rparr>
                in if ret \<noteq> 0 then gresult ret nxt u1 else (gresult 0 nxt u1)\<lparr>h_reset := True\<rparr>))
      | _ \<Rightarrow> gresult (-1) nxt u)"

definition GE_HandleStopCapturer :: "'a glasses_handler" where
  "GE_HandleStopCapturer msg nxt u = gresult 0 (wstate_id ST_INITIALIZED) (GE_StopAudioSource u)"

definition GE_HandleRecognizingTimeout :: "'a glasses_handler" where
  "GE_HandleRecognizingTimeout msg nxt u = gresult 0 (wstate_id ST_INITIALIZED) u"

definition GE_HandleStop :: "'a glasses_handler" where
  "GE_HandleStop msg nxt u = gresult 0 (wstate_id ST_INITIALIZED) (GE_StopAudioSource u)"

definition GE_HandleRecognizeComplete :: "wakeup_device \<Rightarrow> 'a glasses_handler" where
  "GE_HandleRecognizeComplete W msg nxt u =
     (case win_of msg of
        WEvent ev \<Rightarrow>
          (case WL_Notify W ev (gf_adapterListener u) (gf_ctx u) of (l, x) \<Rightarrow>
             (let u1 = u\<lparr>gf_adapterListener := l, gf_ctx := x\<rparr>
              in if ee_result ev \<noteq> 0 then gresult 0 (wstate_id ST_INITIALIZED) u1
                 else (case GE_StartAudioSource u1 of
                     (False, u2) \<Rightarrow> gresult (-1) nxt u2
                   | (True, u2) \<Rightarrow> gresult 0 (wstate_id ST_RECOGNIZED) u2)))
      | _ \<Rightarrow> gresult (-1) nxt u)"

definition GE_HandleResetAdapter :: "'a glasses_handler" where
  "GE_HandleResetAdapter msg nxt u = gresult 0 (wstate_id ST_INITIALIZED) (glib (GlassesSetCallback True) u)"

definition GE_HandleRelease :: "'a glasses_handler" where
  "GE_HandleRelease msg nxt u = gresult 0 (wstate_id ST_IDLE) (glib (GlassesSetCallback False) (GE_StopAudioSource u))"

definition GE_HandleSetParam :: "'a glasses_handler" where
  "GE_HandleSetParam msg nxt u = gresult 0 nxt u"

section \<open>The engine\<close>

definition GE_InitStates ::
  "wakeup_device \<Rightarrow> (int \<Rightarrow> bool) \<Rightarrow> (wakeup_msg, 'a glasses_fields) cfg_op list" where
  "GE_InitStates W al =
     concat (map (\<lambda>i. [CfgAct (al i) i (wevent_id EV_SET_LISTENER) GE_HandleSetListener,
       CfgAct (al i) i (wevent_id EV_SET_PARAM) GE_HandleSetParam]) [0, 1, 2, 3, 4, 5]) @
     [CfgAct (al 0) (wstate_id ST_IDLE) (wevent_id EV_INIT) GE_HandleInit,
      CfgAct (al 0) (wstate_id ST_IDLE) (wevent_id EV_RESET_ADAPTER) GE_HandleResetAdapter,
      CfgAct (al 2) (wstate_id ST_INITIALIZED) (wevent_id EV_START_RECOGNIZE) GE_HandleStart,
      CfgWait (al 3) (wstate_id ST_RECOGNIZING) (wevent_id EV_RECOGNIZING_TIMEOUT) GE_HandleRecognizingTimeout RECOGNIZING_TIMEOUT_US 0,
      CfgAct (al 3) (wstate_id ST_RECOGNIZING) (wevent_id EV_STOP_RECOGNIZE) GE_HandleStop,
      CfgAct (al 3) (wstate_id ST_RECOGNIZING) (wevent_id EV_RECOGNIZE_COMPLETE) (GE_HandleRecognizeComplete W),
      CfgWait (al 4) (wstate_id ST_RECOGNIZED) (wevent_id EV_RECOGNIZE_COMPLETE_TIMEOUT) GE_HandleStopCapturer WE_RECOGNIZE_COMPLETE_TIMEOUT_US 0,
      CfgAct (al 4) (wstate_id ST_RECOGNIZED) (wevent_id EV_START_CAPTURER) GE_HandleStartCapturer,
      CfgWait (al 5) (wstate_id ST_READ_CAPTURER) (wevent_id EV_READ_CAPTURER_TIMEOUT) GE_HandleStopCapturer WE_READ_CAPTURER_TIMEOUT_US 0,
      CfgAct (al 5) (wstate_id ST_READ_CAPTURER) (wevent_id EV_READ) GE_HandleRead,
      CfgAct (al 5) (wstate_id ST_READ_CAPTURER) (wevent_id EV_STOP_CAPTURER) GE_HandleStopCapturer,
      CfgFrom al (wstate_id ST_INITIALIZING) (wstate_id ST_READ_CAPTURER),
      CfgGroupAdd (wevent_id EV_RELEASE_ADAPTER) GE_HandleRelease,
      CfgGroupAdd (wevent_id EV_RELEASE) GE_HandleRelease]"

definition glasses_fields_new :: "'a engine_ctx \<Rightarrow> 'a glasses_fields" where
  "glasses_fields_new x =
     \<lparr>gf_channels = 0, gf_needSecondStageWakeup = False, gf_isReading = False, gf_readThread = NoThread,
      gf_adapterListener = \<lparr>wl_cb = None, wl_historyEvent = None\<rparr>, gf_source = WakeupSource_new, gf_out = None, gf_lib = [], gf_ctx = x\<rparr>"

definition GE_Create ::
  "wakeup_device \<Rightarrow> (int \<Rightarrow> bool) \<Rightarrow> bool \<Rightarrow> observer \<Rightarrow> 'a engine_ctx \<Rightarrow> 'a glasses_engine" where
  "GE_Create W al created this x =
     (fold configure (GE_InitStates W al) (ModuleStates_new (wstate_id ST_IDLE) created this (glasses_fields_new x)))
       \<lparr>ms_listener := True, ms_processType := PROCESS_WAKEUP_GLASSES\<rparr>"

definition GE_Handle :: "int \<Rightarrow> wakeup_msg StateMsg \<Rightarrow> 'a glasses_engine \<Rightarrow> (int \<times> 'a glasses_engine) outcome" where
  "GE_Handle now msg s = (if \<not> IsStatesInitSucc s then Ret (-1, s) else HandleMsg now msg s)"

definition gfields :: "('a glasses_fields \<Rightarrow> 'a glasses_fields) \<Rightarrow> 'a glasses_engine \<Rightarrow> 'a glasses_engine" where
  "gfields f s = s\<lparr>ms_self := f (ms_self s)\<rparr>"

definition GE_Destroy :: "int \<Rightarrow> 'a glasses_engine \<Rightarrow> (bool \<times> 'a glasses_engine) outcome" where
  "GE_Destroy now s = obind (GE_Handle now (wmsg EV_RELEASE WNull None) s) (\<lambda>(_, t). Ret (True, t))"

text \<open>\<open>need\<close>: the device asks for a second stage.\<close>

definition GE_OnTriggerDetected :: "int \<Rightarrow> bool \<Rightarrow> 'a glasses_engine \<Rightarrow> 'a glasses_engine outcome" where
  "GE_OnTriggerDetected now need s =
     obind (GE_Handle now (wmsg EV_START_RECOGNIZE WNull None) (gfields (\<lambda>u. u\<lparr>gf_needSecondStageWakeup := need\<rparr>) s)) (\<lambda>(_, t). Ret t)"

definition GE_OnWakeupRecognition :: "int \<Rightarrow> int \<Rightarrow> string \<Rightarrow> 'a glasses_engine \<Rightarrow> 'a glasses_engine outcome" where
  "GE_OnWakeupRecognition now res info s =
     obind (GE_Handle now (wmsg EV_RECOGNIZE_COMPLETE
         (WEvent \<lparr>ee_msgId = MSG_RECOGNIZE_COMPLETE, ee_result = res, ee_info = info\<rparr>) None) s) (\<lambda>(_, t). Ret t)"

section \<open>Interleavings\<close>

type_synonym 'a glasses_sys = "'a glasses_engine \<times> TimerEvent option"

inductive glasses_step :: "'a glasses_sys \<Rightarrow> 'a glasses_sys \<Rightarrow> bool" where
  g_client: "GE_Handle now msg s = Ret (r, t) \<Longrightarrow> glasses_step (s, p) (t, p)"
| g_detected: "GE_OnTriggerDetected now need s = Ret t \<Longrightarrow> glasses_step (s, p) (t, p)"
| g_recognition: "GE_OnWakeupRecognition now res info s = Ret t \<Longrightarrow> glasses_step (s, p) (t, p)"
| g_round: "glasses_step (s, p) (gfields (GE_ReadThread_round a) s, p)"
| g_world: "glasses_step (s, p) (gfields (\<lambda>u. u\<lparr>gf_ctx := (gf_ctx u)\<lparr>cx_answers := a\<rparr>\<rparr>) s, p)"
| g_take: "Run_iter now (ms_tm s) = (RunFire e ob, tm) \<Longrightarrow> glasses_step (s, None) (s\<lparr>ms_tm := tm\<rparr>, Some e)"
| g_deliver: "OnTimerEvent now e s = Ret t \<Longrightarrow> glasses_step (s, Some e) (t, None)"

definition glasses_start :: "wakeup_device \<Rightarrow> 'a glasses_sys \<Rightarrow> bool" where
  "glasses_start W x \<longleftrightarrow> (\<exists>this c. x = (GE_Create W (\<lambda>_. True) True this c, None))"

section \<open>The tables\<close>

definition gany_handlers :: "int \<rightharpoonup> 'a glasses_handler" where
  "gany_handlers = [wevent_id EV_SET_LISTENER \<mapsto> GE_HandleSetListener, wevent_id EV_SET_PARAM \<mapsto> GE_HandleSetParam]"

definition glive_handlers :: "int \<rightharpoonup> 'a glasses_handler" where
  "glive_handlers = gany_handlers(wevent_id EV_RELEASE_ADAPTER \<mapsto> GE_HandleRelease, wevent_id EV_RELEASE \<mapsto> GE_HandleRelease)"

definition ghandlers :: "wakeup_device \<Rightarrow> WakeupState \<Rightarrow> int \<rightharpoonup> 'a glasses_handler" where
  "ghandlers W e =
     (case e of
        ST_IDLE \<Rightarrow> gany_handlers(wevent_id EV_INIT \<mapsto> GE_HandleInit, wevent_id EV_RESET_ADAPTER \<mapsto> GE_HandleResetAdapter)
      | ST_INITIALIZING \<Rightarrow> glive_handlers
      | ST_INITIALIZED \<Rightarrow> glive_handlers(wevent_id EV_START_RECOGNIZE \<mapsto> GE_HandleStart)
      | ST_RECOGNIZING \<Rightarrow> glive_handlers(wevent_id EV_RECOGNIZING_TIMEOUT \<mapsto> GE_HandleRecognizingTimeout,
          wevent_id EV_STOP_RECOGNIZE \<mapsto> GE_HandleStop, wevent_id EV_RECOGNIZE_COMPLETE \<mapsto> GE_HandleRecognizeComplete W)
      | ST_RECOGNIZED \<Rightarrow> glive_handlers(wevent_id EV_RECOGNIZE_COMPLETE_TIMEOUT \<mapsto> GE_HandleStopCapturer,
          wevent_id EV_START_CAPTURER \<mapsto> GE_HandleStartCapturer)
      | ST_READ_CAPTURER \<Rightarrow> glive_handlers(wevent_id EV_READ_CAPTURER_TIMEOUT \<mapsto> GE_HandleStopCapturer,
          wevent_id EV_READ \<mapsto> GE_HandleRead, wevent_id EV_STOP_CAPTURER \<mapsto> GE_HandleStopCapturer))"

definition gtable :: "wakeup_device \<Rightarrow> WakeupState \<Rightarrow> (wakeup_msg, 'a glasses_fields) StateActions" where
  "gtable W e = \<lparr>sa_cfg = wcfg_of e, sa_timerId = INVALID_ID, sa_actions = ghandlers W e\<rparr>"

lemma gtable_fields [simp]:
  "sa_cfg (gtable W e) = wcfg_of e" "sa_actions (gtable W e) = ghandlers W e" "sa_timerId (gtable W e) = INVALID_ID"
  by (simp_all add: gtable_def)

lemma glasses_tables:
  "ms_states (GE_Create W (\<lambda>_. True) created this x) =
     [0 \<mapsto> Some (gtable W ST_IDLE), 1 \<mapsto> Some (gtable W ST_INITIALIZING), 2 \<mapsto> Some (gtable W ST_INITIALIZED),
      3 \<mapsto> Some (gtable W ST_RECOGNIZING), 4 \<mapsto> Some (gtable W ST_RECOGNIZED), 5 \<mapsto> Some (gtable W ST_READ_CAPTURER)]"
  by (rule ext)
    (simp add: GE_Create_def GE_InitStates_def FromState_def Group_Add_def machine_eval gtable_def wcfg_of_def
      ghandlers_def gany_handlers_def glive_handlers_def upto_rec1 fun_upd_twist)

section \<open>The invariant\<close>

definition streaming :: "WakeupState \<Rightarrow> bool" where
  "streaming e \<longleftrightarrow> e = ST_RECOGNIZED \<or> e = ST_READ_CAPTURER"

definition gview :: "'a glasses_fields \<Rightarrow> bool \<times> bool \<times> nat \<times> nat" where
  "gview u = (gf_isReading u, gf_readThread u \<noteq> NoThread, ws_channelCnt (gf_source u), length (ws_bufferQueue (gf_source u)))"

definition gfields_ok :: "WakeupState \<Rightarrow> 'a glasses_fields \<Rightarrow> bool" where
  "gfields_ok e u \<longleftrightarrow> gview u = (streaming e, streaming e, of_bool (streaming e), of_bool (streaming e)) \<and> e \<noteq> ST_INITIALIZING"

abbreviation gmoves :: "WakeupState \<Rightarrow> WakeupState \<Rightarrow> 'a glasses_fields handled \<Rightarrow> bool" where
  "gmoves \<equiv> moves wstate_id gfields_ok"

lemma gview_frames [simp]:
  "gview (glib c u) = gview u" "gview (u\<lparr>gf_ctx := x\<rparr>) = gview u" "gview (u\<lparr>gf_adapterListener := l\<rparr>) = gview u"
  "gview (u\<lparr>gf_out := y\<rparr>) = gview u" "gview (u\<lparr>gf_channels := i\<rparr>) = gview u" "gview (u\<lparr>gf_needSecondStageWakeup := b\<rparr>) = gview u"
  by (simp_all add: gview_def glib_def)

lemma gstopped: "gfields_ok e u \<Longrightarrow> \<not> streaming e' \<Longrightarrow> e' \<noteq> ST_INITIALIZING \<Longrightarrow> gfields_ok e' (GE_StopAudioSource u)"
  by (auto simp: gfields_ok_def GE_StopAudioSource_def gview_def glib_def WakeupSource_Release_def Let_def)

lemma gstarted: "gfields_ok e u \<Longrightarrow> \<not> streaming e \<Longrightarrow> GE_StartAudioSource u = (b, v) \<Longrightarrow> b \<and> gfields_ok ST_RECOGNIZED v"
  by (auto simp: gfields_ok_def GE_StartAudioSource_def gview_def WakeupSource_Init_def streaming_def Let_def)

lemma gmovesI: "h = gresult r (wstate_id e') v \<Longrightarrow> gfields_ok (if r = 0 then e' else e) v \<Longrightarrow> \<exists>e'. gmoves e e' h"
  by (intro exI [of _ e']) (simp add: moves_def gresult_def)

lemma gmoves_stay: "h_next h = wstate_id e \<Longrightarrow> gfields_ok e (h_self h) \<Longrightarrow> \<exists>e'. gmoves e e' h"
  by (intro exI [of _ e]) (simp add: moves_def)

lemma moves_GStart:
  assumes ok: "gfields_ok ST_INITIALIZED u"
  shows "\<exists>e'. gmoves ST_INITIALIZED e' (GE_HandleStart msg (wstate_id ST_INITIALIZED) u)"
proof -
  obtain b v where v: "GE_StartAudioSource u = (b, v)" using prod.exhaust by blast
  have s: "b \<and> gfields_ok ST_RECOGNIZED v" by (rule gstarted [OF ok _ v]) (simp add: streaming_def)
  have r: "gfields_ok ST_RECOGNIZING u" using ok by (simp add: gfields_ok_def streaming_def)
  show ?thesis
  proof (cases "gf_needSecondStageWakeup u")
    case True
    then show ?thesis using r by (intro gmovesI [of _ 0 ST_RECOGNIZING u]) (simp_all add: GE_HandleStart_def)
  next
    case False
    then show ?thesis using s v by (intro gmovesI [of _ 0 ST_RECOGNIZED v]) (simp_all add: GE_HandleStart_def)
  qed
qed

lemma moves_GComplete:
  assumes ok: "gfields_ok ST_RECOGNIZING u"
  shows "\<exists>e'. gmoves ST_RECOGNIZING e' (GE_HandleRecognizeComplete W msg (wstate_id ST_RECOGNIZING) u)"
proof (cases "win_of msg")
  case (WEvent ev)
  obtain l x where n: "WL_Notify W ev (gf_adapterListener u) (gf_ctx u) = (l, x)" using prod.exhaust by blast
  define u1 where "u1 = u\<lparr>gf_adapterListener := l, gf_ctx := x\<rparr>"
  have ok1: "gfields_ok ST_RECOGNIZING u1" using ok by (simp add: gfields_ok_def u1_def)
  obtain b v where v: "GE_StartAudioSource u1 = (b, v)" using prod.exhaust by blast
  have s: "b \<and> gfields_ok ST_RECOGNIZED v" by (rule gstarted [OF ok1 _ v]) (simp add: streaming_def)
  have i: "gfields_ok ST_INITIALIZED u1" using ok1 by (simp add: gfields_ok_def streaming_def)
  show ?thesis
  proof (cases "ee_result ev = 0")
    case True
    then show ?thesis using s v n WEvent
      by (intro gmovesI [of _ 0 ST_RECOGNIZED v]) (simp_all add: GE_HandleRecognizeComplete_def u1_def [symmetric] Let_def)
  next
    case False
    then show ?thesis using i n WEvent
      by (intro gmovesI [of _ 0 ST_INITIALIZED u1]) (simp_all add: GE_HandleRecognizeComplete_def u1_def [symmetric] Let_def)
  qed
qed (use ok in \<open>intro gmoves_stay; simp add: GE_HandleRecognizeComplete_def gresult_def\<close>)+

lemma moves_GRead:
  assumes ok: "gfields_ok e u"
  shows "\<exists>e'. gmoves e e' (GE_HandleRead msg (wstate_id e) u)"
proof -
  have "h_next (GE_HandleRead msg n u) = n" for n
    by (simp add: GE_HandleRead_def gresult_def Let_def split: option.split wakeup_out.split prod.split)
  moreover have "gview (h_self (GE_HandleRead msg n u)) = gview u" for n
    by (auto simp: GE_HandleRead_def gresult_def gview_def Let_def dest: Read_queues split: option.split wakeup_out.split prod.split)
  ultimately show ?thesis using ok by (intro gmoves_stay) (simp_all add: gfields_ok_def)
qed

lemma ghandler_moves:
  assumes ok: "gfields_ok e u" and h: "ghandlers W e m = Some h"
  shows "\<exists>e'. gmoves e e' (h msg (wstate_id e) u)"
proof -
  consider "h = GE_HandleSetListener" | "h = GE_HandleSetParam" | "e = ST_IDLE" "h = GE_HandleInit \<or> h = GE_HandleResetAdapter"
    | "e = ST_INITIALIZED" "h = GE_HandleStart" | "e = ST_RECOGNIZING" "h = GE_HandleRecognizingTimeout"
    | "e = ST_RECOGNIZING" "h = GE_HandleRecognizeComplete W" | "h = GE_HandleStopCapturer \<or> h = GE_HandleStop"
    | "e = ST_RECOGNIZED" "h = GE_HandleStartCapturer" | "e = ST_READ_CAPTURER" "h = GE_HandleRead" | "h = GE_HandleRelease"
    using h by (cases e) (auto simp: ghandlers_def glive_handlers_def gany_handlers_def split: if_splits)
  then show ?thesis
  proof cases
    case 1
    then show ?thesis using ok
      by (intro gmoves_stay) (auto simp: GE_HandleSetListener_def gresult_def gfields_ok_def split: wakeup_in.split prod.split)
  next
    case 2
    then show ?thesis using ok by (intro gmoves_stay) (simp_all add: GE_HandleSetParam_def gresult_def)
  next
    case 3
    then show ?thesis using ok
      by (intro gmovesI [of _ 0 ST_INITIALIZED "glib (GlassesSetCallback True) u"])
        (auto simp: GE_HandleInit_def GE_HandleResetAdapter_def gfields_ok_def streaming_def)
  next
    case 4
    then show ?thesis using ok moves_GStart [of u] by (simp del: wstate_id.simps)
  next
    case 5
    then show ?thesis using ok
      by (intro gmovesI [of _ 0 ST_INITIALIZED u]) (auto simp: GE_HandleRecognizingTimeout_def gfields_ok_def streaming_def)
  next
    case 6
    then show ?thesis using ok moves_GComplete [of u] by (simp del: wstate_id.simps)
  next
    case 7
    then show ?thesis using gstopped [OF ok, of ST_INITIALIZED]
      by (intro gmovesI [of _ 0 ST_INITIALIZED "GE_StopAudioSource u"]) (auto simp: GE_HandleStopCapturer_def GE_HandleStop_def streaming_def)
  next
    case 8
    have "gfields_ok ST_READ_CAPTURER (u\<lparr>gf_channels := 1\<rparr>)" using ok 8(1) by (simp add: gfields_ok_def streaming_def)
    then show ?thesis using ok 8
      by (cases "win_of msg = WNull")
        (auto simp: GE_HandleStartCapturer_def simp del: wstate_id.simps intro: gmovesI [where r = 0] gmovesI [where r = "-1"])
  next
    case 9
    then show ?thesis using moves_GRead [OF ok] by simp
  next
    case 10
    have "gfields_ok ST_IDLE (glib c (GE_StopAudioSource u))" for c
      using gstopped [OF ok, of ST_IDLE] by (simp add: gfields_ok_def streaming_def)
    then show ?thesis using 10
      by (intro gmovesI [of _ 0 ST_IDLE "glib (GlassesSetCallback False) (GE_StopAudioSource u)"]) (simp_all add: GE_HandleRelease_def)
  qed
qed

lemma gtimeout_rests:
  "recording e \<Longrightarrow> \<exists>h. ghandlers W e (cfg_type (wcfg_of e)) = Some h \<and>
     (\<forall>msg u. h_ret (h msg (wstate_id e) u) = 0 \<and> h_next (h msg (wstate_id e) u) = wstate_id ST_INITIALIZED)"
  by (auto simp: recording_def ghandlers_def wcfg_of_def GE_HandleRecognizingTimeout_def GE_HandleStopCapturer_def gresult_def)

interpretation gframe: table_engine wstate_id "gtable W" gfields_ok ST_INITIALIZED for W
proof
  show "\<exists>e'. gmoves e e' (h msg (wstate_id e) u)" if "gfields_ok e u" "sa_actions (gtable W e) m = Some h" for e u m h msg
    using ghandler_moves that by simp
  show "\<exists>h. sa_actions (gtable W e) (cfg_type (sa_cfg (gtable W e))) = Some h \<and>
      (\<forall>msg u. h_ret (h msg (wstate_id e) u) = 0 \<and> h_next (h msg (wstate_id e) u) = wstate_id ST_INITIALIZED)"
    if "timed (gtable W) e" for e
    using gtimeout_rests [of e W] that by (simp del: wstate_id.simps)
qed (simp_all add: recording_def)

abbreviation glasses_at :: "wakeup_device \<Rightarrow> WakeupState \<Rightarrow> 'a glasses_sys \<Rightarrow> bool" where
  "glasses_at W \<equiv> machine_at wstate_id (gtable W) gfields_ok"

definition glasses_inv :: "wakeup_device \<Rightarrow> 'a glasses_sys \<Rightarrow> bool" where
  "glasses_inv W x \<longleftrightarrow> (\<exists>e. glasses_at W e x)"

lemma glasses_new_at: "glasses_at W ST_IDLE (GE_Create W (\<lambda>_. True) True this c, None)"
proof -
  let ?s = "GE_Create W (\<lambda>_. True) True this c"
  have "ms_idle (fold configure (GE_InitStates W (\<lambda>_. True)) (ModuleStates_new (wstate_id ST_IDLE) True this (glasses_fields_new c)))"
    using ms_idle_new by (rule fold_invariant) (rule ms_idle_configure)
  then have i: "ms_idle ?s" by (simp add: GE_Create_def ms_idle_def tables_unarmed_def)
  have t: "ms_states ?s k \<noteq> Some None" "ms_states ?s (wstate_id e) = Some (Some (gtable W e))" for k e
    by (simp add: glasses_tables) (cases e; simp add: glasses_tables)
  have "tm_status (ms_tm ?s) = TIMER_STATUS_STARTED \<and> ms_isInitSucc ?s \<and> ms_currState ?s = Some (wstate_id ST_IDLE) \<and>
      ms_self ?s = glasses_fields_new c"
    by (simp add: GE_Create_def GE_InitStates_def FromState_def Group_Add_def machine_eval upto_rec1 timer_defs TimerMgr_def)
  moreover have "gfields_ok ST_IDLE (glasses_fields_new c)"
    by (simp add: gfields_ok_def gview_def glasses_fields_new_def WakeupSource_new_def streaming_def)
  ultimately have "machine_fit wstate_id (gtable W) gfields_ok ST_IDLE ?s" using i t by (intro machine_fit_start) auto
  then show ?thesis by (simp add: machine_at_def recording_def)
qed

lemma gfields_inv:
  assumes "glasses_inv W (s, p)" "\<And>u. gview (f u) = gview u"
  shows "glasses_inv W (gfields f s, p)"
proof -
  obtain e where e: "glasses_at W e (s, p)" using assms(1) by (auto simp: glasses_inv_def)
  then have "gfields_ok e (f (ms_self s))" using assms(2) by (simp add: machine_at_def machine_fit_def gfields_ok_def)
  from machine_at_self [OF e this] show ?thesis by (auto simp: glasses_inv_def gfields_def)
qed

lemma GE_Handle_inv:
  assumes "glasses_inv W (s, p)" "GE_Handle now msg s = Ret (r, t)"
  shows "glasses_inv W (t, p)"
proof -
  obtain e where e: "glasses_at W e (s, p)" using assms(1) by (auto simp: glasses_inv_def)
  then have "GE_Handle now msg s = HandleMsg now msg s" by (simp add: machine_at_def machine_fit_def GE_Handle_def IsStatesInitSucc_def)
  with gframe.client_at [OF e] assms(2) show ?thesis by (auto simp: glasses_inv_def)
qed

lemma ground_view: "gview (GE_ReadThread_round a u) = gview u"
  using Write_queues [of "[sr_audio a]" "gf_source u"] by (simp add: GE_ReadThread_round_def gview_def split: read_thread.split)

interpretation glasses: invariant_system "glasses_start W" glasses_step "glasses_inv W" for W
proof (unfold_locales, goal_cases)
  case (1 x)
  then show ?case using glasses_new_at by (fastforce simp: glasses_start_def glasses_inv_def)
next
  case (2 x y)
  from 2(2) show ?case
  proof (cases rule: glasses_step.cases)
    case (g_client now msg s r t p)
    then show ?thesis using 2(1) GE_Handle_inv by blast
  next
    case (g_detected now need s t p)
    then have "glasses_inv W (gfields (\<lambda>u. u\<lparr>gf_needSecondStageWakeup := need\<rparr>) s, p)" using 2(1) by (simp add: gfields_inv)
    then show ?thesis using g_detected by (auto simp: GE_OnTriggerDetected_def obind_eq_Ret intro: GE_Handle_inv)
  next
    case (g_recognition now res info s t p)
    then show ?thesis using 2(1) by (auto simp: GE_OnWakeupRecognition_def obind_eq_Ret intro: GE_Handle_inv)
  next
    case (g_round s p a)
    then show ?thesis using 2(1) by (simp add: gfields_inv ground_view)
  next
    case (g_world s p a)
    then show ?thesis using 2(1) by (simp add: gfields_inv)
  next
    case (g_take now s ev ob tm)
    then show ?thesis using gframe.take_at [of W _ s now ev ob tm] 2(1) unfolding glasses_inv_def by auto
  next
    case (g_deliver now ev s t)
    then show ?thesis using gframe.deliver_at [of W _ s ev now t] 2(1) unfolding glasses_inv_def by blast
  qed
qed

section \<open>Properties\<close>

text \<open>
  However clients, the glasses, the reading thread and the timer thread interleave, the engine reads the stream, and has a
  thread to join, exactly in the states \<open>RECOGNIZED\<close> and \<open>READ_CAPTURER\<close>; these and \<open>RECOGNIZING\<close> have their timeout pending; the state
  \<open>INITIALIZING\<close> of the tables is never entered.
\<close>

theorem glasses_session_bounded:
  assumes "reach (glasses_start W) glasses_step (s, p)"
  shows "\<exists>e. CurrState s = wstate_id e \<and> e \<noteq> ST_INITIALIZING \<and>
    (gf_isReading (ms_self s) \<longleftrightarrow> e = ST_RECOGNIZED \<or> e = ST_READ_CAPTURER) \<and> (gf_readThread (ms_self s) \<noteq> NoThread \<longleftrightarrow> gf_isReading (ms_self s)) \<and>
    (recording e \<longrightarrow>
       (\<exists>x. ms_queue s = [x] \<and> ti_type x = cfg_type (wcfg_of e) \<and> ti_observer x = Some (ms_this s)) \<or>
       (\<exists>ev. p = Some ev \<and> te_type ev = cfg_type (wcfg_of e)))"
proof -
  obtain e where at: "glasses_at W e (s, p)" using glasses.reach_inv [OF assms] by (auto simp: glasses_inv_def)
  then have f: "CurrState s = wstate_id e" "gfields_ok e (ms_self s)" by (simp_all add: machine_at_def machine_fit_def CurrState_def)
  moreover have "(\<exists>x. ms_queue s = [x] \<and> ti_type x = cfg_type (wcfg_of e) \<and> ti_observer x = Some (ms_this s)) \<or>
       (\<exists>ev. p = Some ev \<and> te_type ev = cfg_type (wcfg_of e))" if "recording e"
    using gframe.timer_shape [OF at] that by simp
  ultimately show ?thesis by (intro exI [of _ e]) (auto simp: gfields_ok_def gview_def streaming_def)
qed

definition gdemo_init :: "unit glasses_engine" where
  "gdemo_init = GE_Create demo_device (\<lambda>_. True) True 7 demo_ctx"

definition gdemo_run :: "unit glasses_engine option" where
  "gdemo_run = (case GE_Handle 0 (wmsg EV_INIT WNull None) gdemo_init of
     Inr (_, s1) \<Rightarrow> (case GE_OnTriggerDetected 0 False s1 of Inr s2 \<Rightarrow> Some s2 | _ \<Rightarrow> None)
   | _ \<Rightarrow> None)"

lemma gdemo_reach:
  assumes "gdemo_run = Some s"
  shows "reach (glasses_start demo_device) glasses_step (s, None)"
proof -
  note st = reach_step [where step = glasses_step]
  have i: "glasses_start demo_device (gdemo_init, None)" by (auto simp: glasses_start_def gdemo_init_def)
  obtain r s1 where "GE_Handle 0 (wmsg EV_INIT WNull None) gdemo_init = Ret (r, s1)" "GE_OnTriggerDetected 0 False s1 = Ret s"
    using assms by (auto simp: gdemo_run_def split: sum.splits prod.splits)
  from st [OF st [OF reach_start [of "glasses_start demo_device", OF i] g_client [OF this(1)]] g_detected [OF this(2)]] show ?thesis .
qed

lemma gdemo_state: "case gdemo_run of None \<Rightarrow> False | Some s \<Rightarrow> CurrState s = wstate_id ST_RECOGNIZED"
  by code_simp

lemma glasses_session_bounded_witness:
  "\<exists>s. gdemo_run = Some s \<and> gf_isReading (ms_self s) \<and> length (ms_queue s) = 1"
proof -
  obtain s where s: "gdemo_run = Some s" "CurrState s = wstate_id ST_RECOGNIZED" using gdemo_state by (auto split: option.splits)
  from glasses_session_bounded [OF gdemo_reach [OF s(1)]] s show ?thesis by (auto simp: recording_def simp del: wstate_id.simps)
qed

end
