(* ===== verification/Device_Manager.thy ===== *)
theory Device_Manager
  imports Engine_Util
begin

text \<open>
  The manager of wake-up devices, \<open>services/intell_voice_engine/server/base/engine_device_manager.cpp\<close>: it keeps the registered
  accessories, chooses the active one and tells its callbacks when the choice changes. \<open>RefreshActiveDevice\<close> starts a
  thread for every change; a thread chooses under the lock and calls the callbacks after it has released it, so these
  are two steps and the calls of several threads interleave. Devices are compared by pointer, the field \<open>wd_obj\<close>.
\<close>

section \<open>Data\<close>

definition PHONE :: int where
  "PHONE = 0"

definition HEADSET :: int where
  "HEADSET = 1"

definition GLASSES :: int where
  "GLASSES = 2"

definition AI_GLASSES :: int where
  "AI_GLASSES = 3"

definition DEVICE_MAX :: int where
  "DEVICE_MAX = 4"

definition DEFAULT_MAC_ADDRESS :: string where
  "DEFAULT_MAC_ADDRESS = ''default_mac_address_phone''"

definition DEFAULT_SERVICE_NAME :: string where
  "DEFAULT_SERVICE_NAME = ''default_service_name_phone''"

text \<open>The type is an enumeration that clients fill with any integer.\<close>

record WakeupDeviceInfo =
  wi_type :: int
  wi_serviceName :: string
  wi_parameters :: string

record WakeupDeviceDetail =
  wd_obj :: nat
  wd_type :: int
  wd_serviceName :: string
  wd_macAddress :: string
  wd_needSecondStageWakeup :: bool
  wd_modelType :: string
  wd_parameters :: string

text \<open>A description of an output device: whether it is the speaker, and its address.\<close>

record audio_descriptor =
  ad_speaker :: bool
  ad_macAddress :: string

text \<open>A thread of \<open>RefreshActiveDevice\<close>: not yet begun, or with its choice and the callbacks it still has to call.\<close>

datatype refresh_thread = Refresh | Notifying WakeupDeviceDetail "nat list"

text \<open>\<open>ed_objects\<close> counts the devices allocated, \<open>ed_notified\<close> are the calls of callbacks in their order.\<close>

record EngineDeviceManager =
  ed_audioMacAddress :: string
  ed_wakeupDevice :: WakeupDeviceDetail
  ed_defaultWakeupDevice :: WakeupDeviceDetail
  ed_callbackList :: "64 word \<rightharpoonup> nat"
  ed_nextCallbackId :: "64 word"
  ed_deviceList :: "WakeupDeviceDetail list"
  ed_objects :: nat
  ed_threads :: "refresh_thread list"
  ed_track :: wakeup_track
  ed_notified :: "(nat \<times> WakeupDeviceDetail) list"

section \<open>Operations\<close>

text \<open>Conversions of a JSON value; \<open>None\<close> is the exception the library throws for other kinds.\<close>

fun json_bool :: "json_value \<Rightarrow> bool option" where
  "json_bool (JBool b) = Some b"
| "json_bool (JInt i) = Some (i \<noteq> 0)"
| "json_bool JNull = Some False"
| "json_bool (JReal _ nz _) = Some nz"
| "json_bool _ = None"

fun json_string :: "json_value \<Rightarrow> string option" where
  "json_string (JString v) = Some v"
| "json_string (JInt i) = Some (to_string i)"
| "json_string (JBool b) = Some (if b then ''true'' else ''false'')"
| "json_string JNull = Some ''''"
| "json_string (JReal _ _ txt) = Some txt"
| "json_string JOther = None"

definition detail_new :: "nat \<Rightarrow> string \<Rightarrow> WakeupDeviceInfo \<Rightarrow> WakeupDeviceDetail" where
  "detail_new obj mac info = \<lparr>wd_obj = obj, wd_type = wi_type info, wd_serviceName = wi_serviceName info, wd_macAddress = mac,
     wd_needSecondStageWakeup = False, wd_modelType = ''default'', wd_parameters = wi_parameters info\<rparr>"

definition ExtractDeviceDetail ::
  "(string \<Rightarrow> (string \<rightharpoonup> json_value) option) \<Rightarrow> nat \<Rightarrow> string \<Rightarrow> WakeupDeviceInfo \<Rightarrow> WakeupDeviceDetail option" where
  "ExtractDeviceDetail J obj mac info =
     (let d = detail_new obj mac info
      in case J (wd_parameters d) of
           None \<Rightarrow> Some d
         | Some root \<Rightarrow>
             (case (case root ''needSecondStageWakeup'' of None \<Rightarrow> Some False | Some v \<Rightarrow> json_bool v) of
                None \<Rightarrow> None
              | Some b \<Rightarrow>
                  (case (case root ''modelType'' of None \<Rightarrow> Some (wd_modelType d) | Some v \<Rightarrow> json_string v) of
                     None \<Rightarrow> None
                   | Some t \<Rightarrow> Some (d\<lparr>wd_needSecondStageWakeup := b, wd_modelType := t\<rparr>))))"

definition default_info :: WakeupDeviceInfo where
  "default_info = \<lparr>wi_type = PHONE, wi_serviceName = DEFAULT_SERVICE_NAME, wi_parameters = ''{\"needSecondStageWakeup\":true}''\<rparr>"

definition InitDefaultDevice :: "(string \<Rightarrow> (string \<rightharpoonup> json_value) option) \<Rightarrow> wakeup_track \<Rightarrow> EngineDeviceManager option" where
  "InitDefaultDevice J tk =
     map_option (\<lambda>d. \<lparr>ed_audioMacAddress = DEFAULT_MAC_ADDRESS, ed_wakeupDevice = d, ed_defaultWakeupDevice = d,
         ed_callbackList = Map.empty, ed_nextCallbackId = 1, ed_deviceList = [d], ed_objects = 1, ed_threads = [],
         ed_track = tk, ed_notified = []\<rparr>)
       (ExtractDeviceDetail J 0 DEFAULT_MAC_ADDRESS default_info)"

definition RefreshActiveDevice :: "EngineDeviceManager \<Rightarrow> EngineDeviceManager" where
  "RefreshActiveDevice s = s\<lparr>ed_threads := ed_threads s @ [Refresh]\<rparr>"

text \<open>\<open>None\<close> as the result: the exception leaves the operation, after the old entry is gone.\<close>

definition RegisterDevice ::
  "(string \<Rightarrow> (string \<rightharpoonup> json_value) option) \<Rightarrow> string \<Rightarrow> WakeupDeviceInfo \<Rightarrow> EngineDeviceManager \<Rightarrow> int option \<times> EngineDeviceManager" where
  "RegisterDevice J mac info s =
     (if mac = [] \<or> wi_type info < PHONE \<or> wi_type info \<ge> DEVICE_MAX then (Some (-1), s)
      else let s1 = s\<lparr>ed_deviceList := filter (\<lambda>d. wd_macAddress d \<noteq> mac) (ed_deviceList s), ed_objects := Suc (ed_objects s)\<rparr>
           in case ExtractDeviceDetail J (ed_objects s) mac info of
                None \<Rightarrow> (None, s1)
              | Some d \<Rightarrow> (Some 0, RefreshActiveDevice (s1\<lparr>ed_deviceList := ed_deviceList s1 @ [d]\<rparr>)))"

definition DeregisterDevice :: "string \<Rightarrow> string \<Rightarrow> EngineDeviceManager \<Rightarrow> int \<times> string \<times> EngineDeviceManager" where
  "DeregisterDevice mac serviceName s =
     (if mac = [] then (-1, serviceName, s)
      else let gone = filter (\<lambda>d. wd_macAddress d = mac) (ed_deviceList s)
           in (0, if gone = [] then serviceName else wd_serviceName (last gone),
               RefreshActiveDevice (s\<lparr>ed_deviceList := filter (\<lambda>d. wd_macAddress d \<noteq> mac) (ed_deviceList s)\<rparr>)))"

definition CountByServiceName :: "string \<Rightarrow> EngineDeviceManager \<Rightarrow> int" where
  "CountByServiceName serviceName s = int (length (filter (\<lambda>d. wd_serviceName d = serviceName) (ed_deviceList s)))"

definition RemoveByServiceName :: "string \<Rightarrow> EngineDeviceManager \<Rightarrow> int \<times> EngineDeviceManager" where
  "RemoveByServiceName serviceName s =
     (0, RefreshActiveDevice (s\<lparr>ed_deviceList := filter (\<lambda>d. wd_serviceName d \<noteq> serviceName) (ed_deviceList s)\<rparr>))"

definition UpdateAudioDevice :: "audio_descriptor list \<Rightarrow> EngineDeviceManager \<Rightarrow> EngineDeviceManager" where
  "UpdateAudioDevice desc s =
     RefreshActiveDevice (s\<lparr>ed_audioMacAddress :=
       if desc = [] \<or> ad_speaker (hd desc) then DEFAULT_MAC_ADDRESS else ad_macAddress (hd desc)\<rparr>)"

text \<open>The service of the audio policy is up: the listener is set and the current preference read.\<close>

definition OnAudioPolicyServiceUp :: "audio_descriptor list \<Rightarrow> EngineDeviceManager \<Rightarrow> EngineDeviceManager" where
  "OnAudioPolicyServiceUp preferred s = UpdateAudioDevice preferred s"

definition RegisterDeviceChangeCb :: "nat \<Rightarrow> EngineDeviceManager \<Rightarrow> 64 word \<times> EngineDeviceManager" where
  "RegisterDeviceChangeCb cb s =
     (let n = ed_nextCallbackId s; i = (if n = 0 then n + 1 else n)
      in (i, s\<lparr>ed_nextCallbackId := i + 1, ed_callbackList := (ed_callbackList s)(i \<mapsto> cb)\<rparr>))"

definition UnregisterDeviceChangeCb :: "64 word \<Rightarrow> EngineDeviceManager \<Rightarrow> EngineDeviceManager" where
  "UnregisterDeviceChangeCb handle s =
     (if ed_callbackList s handle = None then s else s\<lparr>ed_callbackList := (ed_callbackList s)(handle := None)\<rparr>)"

fun find_device :: "string \<Rightarrow> WakeupDeviceDetail list \<Rightarrow> WakeupDeviceDetail option" where
  "find_device mac [] = None"
| "find_device mac (d # ds) = (if wd_macAddress d = mac then Some d else find_device mac ds)"

definition RefreshWakeupDevice :: "EngineDeviceManager \<Rightarrow> EngineDeviceManager" where
  "RefreshWakeupDevice s =
     s\<lparr>ed_wakeupDevice :=
       (case find_device (ed_audioMacAddress s) (ed_deviceList s) of
          Some d \<Rightarrow> d
        | None \<Rightarrow> if ed_deviceList s \<noteq> [] then last (ed_deviceList s) else ed_defaultWakeupDevice s)\<rparr>"

text \<open>\<open>NotifyCallbacksIfChanged\<close> up to the end of the lock, and one call of its loop. The callbacks are those of the
  table in the order \<open>cbs\<close> in which the loop finds them.\<close>

definition Notify_begin :: "wakeup_device \<Rightarrow> nat list \<Rightarrow> nat \<Rightarrow> EngineDeviceManager \<Rightarrow> EngineDeviceManager" where
  "Notify_begin W cbs i s =
     (let s1 = RefreshWakeupDevice s
      in if wd_obj (ed_wakeupDevice s) = wd_obj (ed_wakeupDevice s1)
         then s1\<lparr>ed_threads := take i (ed_threads s) @ drop (Suc i) (ed_threads s)\<rparr>
         else s1\<lparr>ed_track := snd (reportWakeupStatus W WAKEUP_SWITCH_STAGE_SA WAKEUP_SWITCH_STATE_OPEN WAKEUP_SWITCH_REASON_SWITCH_DEVICE (ed_track s1)),
                 ed_threads := (ed_threads s)[i := Notifying (ed_wakeupDevice s1) cbs]\<rparr>)"

definition Notify_call :: "nat \<Rightarrow> EngineDeviceManager \<Rightarrow> EngineDeviceManager" where
  "Notify_call i s =
     (case ed_threads s ! i of
        Notifying d (c # cs) \<Rightarrow> s\<lparr>ed_notified := ed_notified s @ [(c, d)], ed_threads := (ed_threads s)[i := Notifying d cs]\<rparr>
      | Notifying d [] \<Rightarrow> s\<lparr>ed_threads := take i (ed_threads s) @ drop (Suc i) (ed_threads s)\<rparr>
      | Refresh \<Rightarrow> s)"

section \<open>Interleavings\<close>

text \<open>The operations of clients and the audio system, and the steps of the threads. An exception nobody catches ends the
  process, so nothing follows it.\<close>

inductive device_step ::
  "(string \<Rightarrow> (string \<rightharpoonup> json_value) option) \<Rightarrow> wakeup_device \<Rightarrow> EngineDeviceManager \<Rightarrow> EngineDeviceManager \<Rightarrow> bool" for J W where
  dm_register: "RegisterDevice J mac info s = (Some r, t) \<Longrightarrow> device_step J W s t"
| dm_deregister: "device_step J W s (snd (snd (DeregisterDevice mac n s)))"
| dm_remove: "device_step J W s (snd (RemoveByServiceName n s))"
| dm_audio: "device_step J W s (UpdateAudioDevice desc s)"
| dm_listen: "device_step J W s (snd (RegisterDeviceChangeCb cb s))"
| dm_unlisten: "device_step J W s (UnregisterDeviceChangeCb h s)"
| dm_begin: "i < length (ed_threads s) \<Longrightarrow> ed_threads s ! i = Refresh \<Longrightarrow> set cbs = ran (ed_callbackList s) \<Longrightarrow>
    device_step J W s (Notify_begin W cbs i s)"
| dm_call: "i < length (ed_threads s) \<Longrightarrow> ed_threads s ! i \<noteq> Refresh \<Longrightarrow> device_step J W s (Notify_call i s)"

definition device_start ::
  "(string \<Rightarrow> (string \<rightharpoonup> json_value) option) \<Rightarrow> EngineDeviceManager \<Rightarrow> bool" where
  "device_start J s \<longleftrightarrow> (\<exists>tk. InitDefaultDevice J tk = Some s)"

section \<open>The choice\<close>

definition chosen :: "EngineDeviceManager \<Rightarrow> WakeupDeviceDetail" where
  "chosen s = ed_wakeupDevice (RefreshWakeupDevice s)"

lemma find_device_Some: "find_device mac ds = Some d \<Longrightarrow> d \<in> set ds \<and> wd_macAddress d = mac"
  by (induction ds) (auto split: if_splits)

lemma find_device_None: "find_device mac ds = None \<longleftrightarrow> (\<forall>d \<in> set ds. wd_macAddress d \<noteq> mac)"
  by (induction ds) auto

lemma find_device_unique:
  "distinct (map wd_macAddress ds) \<Longrightarrow> d \<in> set ds \<Longrightarrow> find_device (wd_macAddress d) ds = Some d"
  by (induction ds) (auto simp: image_iff)

lemma chosen_frames [simp]:
  "chosen (s\<lparr>ed_threads := x\<rparr>) = chosen s" "chosen (s\<lparr>ed_notified := n\<rparr>) = chosen s" "chosen (s\<lparr>ed_track := tk\<rparr>) = chosen s"
  "chosen (s\<lparr>ed_wakeupDevice := d\<rparr>) = chosen s" "chosen (s\<lparr>ed_callbackList := c\<rparr>) = chosen s" "chosen (s\<lparr>ed_nextCallbackId := k\<rparr>) = chosen s"
  by (simp_all add: chosen_def RefreshWakeupDevice_def split: option.split)

lemma Refresh_eq: "RefreshWakeupDevice s = s\<lparr>ed_wakeupDevice := chosen s\<rparr>"
  by (simp add: chosen_def RefreshWakeupDevice_def)

definition device_inv :: "EngineDeviceManager \<Rightarrow> bool" where
  "device_inv s \<longleftrightarrow> distinct (map wd_macAddress (ed_deviceList s)) \<and> wd_macAddress (ed_defaultWakeupDevice s) = DEFAULT_MAC_ADDRESS \<and>
     (Refresh \<notin> set (ed_threads s) \<longrightarrow> ed_wakeupDevice s = chosen s)"

lemma ExtractDeviceDetail_mac: "ExtractDeviceDetail J n mac info = Some d \<Longrightarrow> wd_macAddress d = mac \<and> wd_obj d = n"
  by (auto simp: ExtractDeviceDetail_def detail_new_def Let_def split: option.splits)

lemma device_inv_refresh:
  "distinct (map wd_macAddress (ed_deviceList s)) \<Longrightarrow> wd_macAddress (ed_defaultWakeupDevice s) = DEFAULT_MAC_ADDRESS \<Longrightarrow>
   device_inv (RefreshActiveDevice s)"
  by (simp add: device_inv_def RefreshActiveDevice_def)

lemma device_inv_begin:
  assumes "device_inv s"
  shows "device_inv (Notify_begin W cbs i s)"
  using assms by (auto simp: device_inv_def Notify_begin_def Refresh_eq Let_def)

lemma device_inv_call:
  assumes "device_inv s" "i < length (ed_threads s)" "ed_threads s ! i \<noteq> Refresh"
  shows "device_inv (Notify_call i s)"
proof -
  have r: "Refresh \<in> set (take i xs @ drop (Suc i) xs)" if "Refresh \<in> set xs" "xs = ed_threads s" for xs
    using that assms(2,3) id_take_nth_drop [of i xs] by (metis Un_iff in_set_conv_decomp set_ConsD set_append)
  have u: "Refresh \<in> set ((ed_threads s)[i := x])" if "Refresh \<in> set (ed_threads s)" for x
    using that assms(2,3) by (metis in_set_conv_nth length_list_update nth_list_update_neq)
  show ?thesis
    using assms(1,3) r u by (auto simp: device_inv_def Notify_call_def split: refresh_thread.splits list.splits)
qed

interpretation devices: invariant_system "device_start J" "device_step J W" device_inv for J W
proof (unfold_locales, goal_cases)
  case (1 s)
  then show ?case
    by (auto simp: device_start_def InitDefaultDevice_def device_inv_def chosen_def RefreshWakeupDevice_def dest!: ExtractDeviceDetail_mac)
next
  case (2 s t)
  from 2(2) show ?case
  proof (cases rule: device_step.cases)
    case (dm_register mac info r)
    have b: "distinct (map wd_macAddress (ed_deviceList s))" "wd_macAddress (ed_defaultWakeupDevice s) = DEFAULT_MAC_ADDRESS"
      using 2(1) by (simp_all add: device_inv_def)
    then show ?thesis using dm_register 2(1)
      by (auto simp: RegisterDevice_def Let_def distinct_map_filter intro!: device_inv_refresh
          dest!: ExtractDeviceDetail_mac split: if_splits option.splits)
  next
    case (dm_deregister mac n)
    then show ?thesis using 2(1) by (auto simp: DeregisterDevice_def Let_def device_inv_def [of s] distinct_map_filter intro!: device_inv_refresh)
  next
    case (dm_remove n)
    then show ?thesis using 2(1) by (auto simp: RemoveByServiceName_def device_inv_def [of s] distinct_map_filter intro!: device_inv_refresh)
  next
    case (dm_audio desc)
    then show ?thesis using 2(1) by (auto simp: UpdateAudioDevice_def device_inv_def [of s] intro!: device_inv_refresh)
  next
    case (dm_listen cb)
    then show ?thesis using 2(1) by (simp add: RegisterDeviceChangeCb_def Let_def device_inv_def)
  next
    case (dm_unlisten h)
    then show ?thesis using 2(1) by (simp add: UnregisterDeviceChangeCb_def device_inv_def)
  next
    case (dm_begin i cbs)
    then show ?thesis using 2(1) device_inv_begin by blast
  next
    case (dm_call i)
    then show ?thesis using 2(1) device_inv_call by blast
  qed
qed

section \<open>Properties\<close>

text \<open>
  C24. Addresses of registered devices are unique. Whenever no thread has still to choose, the active device is the registered
  one at the address of the audio output; without such a device the one registered last, and the phone when none is
  registered: however registrations, removals, changes of the output and the threads interleave.
\<close>

theorem active_device_chosen:
  assumes "reach (device_start J) (device_step J W) s"
  shows "distinct (map wd_macAddress (ed_deviceList s)) \<and>
    (Refresh \<notin> set (ed_threads s) \<longrightarrow>
      (\<forall>d \<in> set (ed_deviceList s). wd_macAddress d = ed_audioMacAddress s \<longrightarrow> ed_wakeupDevice s = d) \<and>
      ((\<forall>d \<in> set (ed_deviceList s). wd_macAddress d \<noteq> ed_audioMacAddress s) \<longrightarrow>
         (if ed_deviceList s \<noteq> [] then ed_wakeupDevice s = last (ed_deviceList s)
          else wd_macAddress (ed_wakeupDevice s) = DEFAULT_MAC_ADDRESS)))"
proof -
  have inv: "device_inv s" using assms by (rule devices.reach_inv)
  then have d: "distinct (map wd_macAddress (ed_deviceList s))" by (simp add: device_inv_def)
  have "ed_wakeupDevice s = x" if "Refresh \<notin> set (ed_threads s)" "x \<in> set (ed_deviceList s)" "wd_macAddress x = ed_audioMacAddress s" for x
    using inv that find_device_unique [OF d that(2)] by (simp add: device_inv_def chosen_def RefreshWakeupDevice_def)
  moreover have "if ed_deviceList s \<noteq> [] then ed_wakeupDevice s = last (ed_deviceList s)
      else wd_macAddress (ed_wakeupDevice s) = DEFAULT_MAC_ADDRESS"
    if "Refresh \<notin> set (ed_threads s)" "\<forall>x \<in> set (ed_deviceList s). wd_macAddress x \<noteq> ed_audioMacAddress s"
    using inv that(1) that(2) [folded find_device_None] by (simp add: device_inv_def chosen_def RefreshWakeupDevice_def)
  ultimately show ?thesis using d by blast
qed

text \<open>An identifier of a callback is never 0, which stands for none; it wraps around after \<open>2 ^ 64\<close> registrations.\<close>

lemma callback_id_valid:
  "fst (RegisterDeviceChangeCb cb s) \<noteq> 0" "ed_callbackList (snd (RegisterDeviceChangeCb cb s)) (fst (RegisterDeviceChangeCb cb s)) = Some cb"
  by (simp_all add: RegisterDeviceChangeCb_def Let_def)

lemma callback_id_fresh:
  assumes "\<And>k. ed_callbackList s k \<noteq> None \<Longrightarrow> k < ed_nextCallbackId s"
  shows "ed_callbackList s (fst (RegisterDeviceChangeCb cb s)) = None"
proof (rule ccontr)
  assume "ed_callbackList s (fst (RegisterDeviceChangeCb cb s)) \<noteq> None"
  from assms [OF this] show False by (auto simp: RegisterDeviceChangeCb_def Let_def split: if_splits)
qed

section \<open>Examples\<close>

text \<open>Parameters that are no JSON, a headset at address \<open>a\<close>, one callback.\<close>

definition no_json :: "string \<Rightarrow> (string \<rightharpoonup> json_value) option" where
  "no_json p = None"

definition demo_track_device :: wakeup_device where
  "demo_track_device = \<lparr>wd_open = (\<lambda>_. True), wd_ioctl = (\<lambda>_ _. True)\<rparr>"

definition ddemo_new :: EngineDeviceManager where
  "ddemo_new = the (InitDefaultDevice no_json WakeupTrack_init)"

definition ddemo_headset :: WakeupDeviceInfo where
  "ddemo_headset = \<lparr>wi_type = HEADSET, wi_serviceName = ''h'', wi_parameters = ''''\<rparr>"

text \<open>The headset is registered and becomes the audio output, a thread has chosen it.\<close>

definition ddemo_chosen :: EngineDeviceManager where
  "ddemo_chosen = Notify_begin demo_track_device [7] 0 (UpdateAudioDevice [\<lparr>ad_speaker = False, ad_macAddress = ''a''\<rparr>]
     (snd (RegisterDevice no_json ''a'' ddemo_headset (snd (RegisterDeviceChangeCb 7 ddemo_new)))))"

text \<open>The output goes back to the speaker; the thread of this change calls the callback before the first thread does.\<close>

definition ddemo_overtaken :: EngineDeviceManager where
  "ddemo_overtaken = Notify_call 0 (Notify_call 0 (Notify_begin demo_track_device [7] 2 (Notify_call 0 (Notify_call 1
     (Notify_begin demo_track_device [7] 1 (UpdateAudioDevice [] ddemo_chosen))))))"

lemma callback_frames [simp]:
  "ed_callbackList (Notify_begin W cbs i s) = ed_callbackList s" "ed_callbackList (Notify_call i s) = ed_callbackList s"
  "ed_callbackList (UpdateAudioDevice desc s) = ed_callbackList s" "ed_callbackList (snd (RegisterDevice J mac info s)) = ed_callbackList s"
  by (simp_all add: Notify_begin_def Notify_call_def UpdateAudioDevice_def RegisterDevice_def RefreshActiveDevice_def RefreshWakeupDevice_def
      Let_def split: refresh_thread.split list.split option.split)

lemma ddemo_callbacks [simp]: "ran (ed_callbackList (snd (RegisterDeviceChangeCb 7 ddemo_new))) = {7}" "ran (ed_callbackList ddemo_chosen) = {7}"
  by (simp_all add: ddemo_chosen_def RegisterDeviceChangeCb_def ddemo_new_def InitDefaultDevice_def ExtractDeviceDetail_def no_json_def Let_def)

lemma ddemo_chosen_reach: "reach (device_start no_json) (device_step no_json demo_track_device) ddemo_chosen"
proof -
  let ?r = "reach (device_start no_json) (device_step no_json demo_track_device)"
  let ?s1 = "snd (RegisterDeviceChangeCb 7 ddemo_new)"
  let ?s2 = "snd (RegisterDevice no_json ''a'' ddemo_headset ?s1)"
  let ?s3 = "UpdateAudioDevice [\<lparr>ad_speaker = False, ad_macAddress = ''a''\<rparr>] ?s2"
  have "InitDefaultDevice no_json WakeupTrack_init = Some ddemo_new"
    by (simp add: ddemo_new_def InitDefaultDevice_def ExtractDeviceDetail_def no_json_def Let_def)
  then have "?r ddemo_new" by (intro reach_start) (auto simp: device_start_def)
  then have 1: "?r ?s1" by (rule reach_step) (rule dm_listen)
  have "RegisterDevice no_json ''a'' ddemo_headset ?s1 = (Some 0, ?s2)"
    by (simp add: RegisterDevice_def ddemo_headset_def HEADSET_def PHONE_def DEVICE_MAX_def ExtractDeviceDetail_def no_json_def Let_def)
  then have "device_step no_json demo_track_device ?s1 ?s2" by (rule dm_register)
  with 1 have 2: "?r ?s2" by (rule reach_step)
  then have 3: "?r ?s3" by (rule reach_step) (rule dm_audio)
  have t: "0 < length (ed_threads ?s3) \<and> ed_threads ?s3 ! 0 = Refresh" by code_simp
  have "device_step no_json demo_track_device ?s3 (Notify_begin demo_track_device [7] 0 ?s3)" by (rule dm_begin [OF conjunct1 [OF t] conjunct2 [OF t]]) simp
  with 3 show ?thesis unfolding ddemo_chosen_def by (rule reach_step)
qed

text \<open>Finding: every thread has run and the last call of the callback still names the headset, while the phone is active.\<close>

lemma notification_overtaken:
  "reach (device_start no_json) (device_step no_json demo_track_device) ddemo_overtaken \<and> ed_threads ddemo_overtaken = [] \<and>
   map (\<lambda>(c, d). (c, wd_macAddress d)) (ed_notified ddemo_overtaken) = [(7, DEFAULT_MAC_ADDRESS), (7, ''a'')] \<and>
   wd_macAddress (ed_wakeupDevice ddemo_overtaken) = DEFAULT_MAC_ADDRESS"
proof -
  let ?r = "reach (device_start no_json) (device_step no_json demo_track_device)"
  let ?s4 = "UpdateAudioDevice [] ddemo_chosen"
  let ?s5 = "Notify_begin demo_track_device [7] 1 ?s4"
  let ?s7 = "Notify_call 0 (Notify_call 1 ?s5)"
  let ?s8 = "Notify_begin demo_track_device [7] 2 ?s7"
  have begin_reach: "?r (Notify_begin demo_track_device [7] i s)"
    if "?r s" "i < length (ed_threads s) \<and> ed_threads s ! i = Refresh" "ran (ed_callbackList s) = {7}" for i s
    using that by (intro reach_step [OF that(1) dm_begin]) auto
  have call_reach: "?r (Notify_call i s)" if "?r s" "i < length (ed_threads s) \<and> ed_threads s ! i \<noteq> Refresh" for i s
    using that by (intro reach_step [OF that(1) dm_call]) auto
  have "?r ?s4" by (rule reach_step [OF ddemo_chosen_reach dm_audio])
  then have "?r ?s5" by (rule begin_reach) (code_simp, simp)
  then have "?r (Notify_call 1 ?s5)" by (rule call_reach) code_simp
  then have "?r ?s7" by (rule call_reach) code_simp
  then have "?r ?s8" by (rule begin_reach) (code_simp, simp)
  then have "?r (Notify_call 0 ?s8)" by (rule call_reach) code_simp
  then have "?r ddemo_overtaken" unfolding ddemo_overtaken_def by (rule call_reach) code_simp
  moreover have "ed_threads ddemo_overtaken = [] \<and>
     map (\<lambda>(c, d). (c, wd_macAddress d)) (ed_notified ddemo_overtaken) = [(7, DEFAULT_MAC_ADDRESS), (7, ''a'')] \<and>
     wd_macAddress (ed_wakeupDevice ddemo_overtaken) = DEFAULT_MAC_ADDRESS" by code_simp
  ultimately show ?thesis by simp
qed

text \<open>Finding: a parameter of the wrong kind leaves \<open>RegisterDevice\<close> by an exception, with the former entry of the address gone.\<close>

lemma register_throws:
  assumes "J (wi_parameters info) = Some root" "root ''needSecondStageWakeup'' = Some (JString v)" "mac \<noteq> []" "PHONE \<le> wi_type info" "wi_type info < DEVICE_MAX"
  shows "\<exists>t. RegisterDevice J mac info s = (None, t) \<and> (\<forall>d \<in> set (ed_deviceList t). wd_macAddress d \<noteq> mac)"
  using assms by (simp add: RegisterDevice_def ExtractDeviceDetail_def detail_new_def Let_def)

lemma active_device_chosen_witness:
  "Refresh \<notin> set (ed_threads ddemo_overtaken) \<and> wd_macAddress (ed_wakeupDevice ddemo_overtaken) = ed_audioMacAddress ddemo_overtaken \<and>
   distinct (map wd_macAddress (ed_deviceList ddemo_overtaken))"
proof -
  have "Refresh \<notin> set (ed_threads ddemo_overtaken) \<and> wd_macAddress (ed_wakeupDevice ddemo_overtaken) = ed_audioMacAddress ddemo_overtaken"
    by code_simp
  then show ?thesis using active_device_chosen [OF conjunct1 [OF notification_overtaken]] by blast
qed

end
