(* ===== verification/Wakeup_Facade.thy ===== *)
theory Wakeup_Facade
  imports Glasses_Engine Device_Manager Trigger_Service
begin

text \<open>
  The wake-up engine of the service, \<open>services/intell_voice_engine/server/wakeup/wakeup_engine.cpp\<close>, and the facade behind it,
  \<open>wakeup/wakeup_engine_impl_facade.cpp\<close>: the engine of the phone always exists, beside it the engine of the accessory that
  is the active wake-up device, and every call is routed to one of them. The engines tell the facade every change of their state.
  The theory composes the three engines and the choice of the device; the property is that at most one of them is
  in a session, and that the facade knows which.
\<close>

section \<open>Data\<close>

text \<open>\<open>wakeupImpl_\<close>: null, the engine of the phone, or the engine of an accessory with the event its timer thread has taken.\<close>

datatype 'a wakeup_impl = is_ImplNone: ImplNone | is_ImplDefault: ImplDefault | ImplHeadset "'a headset_sys" | ImplGlasses "'a glasses_sys"

text \<open>
  \<open>defaultImpl_\<close> and \<open>wispherImpl_\<close> are one engine. \<open>fc_started\<close> are the abilities started for a detection: the event, the address
  and parameters of the device and the index of the last frame.
\<close>

record 'a WakeupEngineImplFacade =
  fc_default :: "'a wakeup_sys"
  fc_impl :: "'a wakeup_impl"
  fc_wakeupDevice :: WakeupDeviceDetail
  fc_callback :: "nat option"
  fc_curState :: int
  fc_curProcess :: ProcessType
  fc_deviceChangeCbId :: "64 word"
  fc_started :: "(string \<times> string \<times> string \<times> int) list"

type_synonym 'a facade = "'a WakeupEngineImplFacade"

text \<open>What the creation of an accessory's engine finds: memory, the device manager of the system, the driver of the headset.\<close>

record 'a accessory_env =
  ae_alloc :: bool
  ae_this :: observer
  ae_ctx :: "'a engine_ctx"
  ae_devmgr :: bool
  ae_host :: bool

record EventDetail =
  ev_wakeupEvent :: int
  ev_endFrameIndex :: int

definition SUCCESS :: int where
  "SUCCESS = 0"

definition DEVICE_ERROR :: int where
  "DEVICE_ERROR = -1"

definition WAKEUP_PROCESSING :: int where
  "WAKEUP_PROCESSING = -2"

section \<open>State changes of the engines\<close>

definition OnStateChange :: "int \<Rightarrow> ProcessType \<Rightarrow> 'a facade \<Rightarrow> 'a facade" where
  "OnStateChange nextState ty f =
     (if ty = PROCESS_IDLE then f
      else if fc_curState f \<le> wstate_id ST_INITIALIZED \<and> nextState > wstate_id ST_INITIALIZED
      then f\<lparr>fc_curState := nextState, fc_curProcess := ty\<rparr>
      else if fc_curState f > wstate_id ST_INITIALIZED \<and> fc_curProcess f = ty
      then if nextState \<le> wstate_id ST_INITIALIZED
           then f\<lparr>fc_curState := wstate_id ST_IDLE, fc_curProcess := PROCESS_IDLE\<rparr>
           else f\<lparr>fc_curState := nextState\<rparr>
      else f)"

text \<open>An engine has gone from \<open>s\<close> to \<open>t\<close>: the facade hears the states it entered, in their order.\<close>

definition tell :: "('m, 'u) ModuleStates \<Rightarrow> ('m, 'u) ModuleStates \<Rightarrow> 'a facade \<Rightarrow> 'a facade" where
  "tell s t f = fold (\<lambda>(n, ty). OnStateChange n ty) (drop (length (ms_notified s)) (ms_notified t)) f"

section \<open>Messages\<close>

definition to_default :: "int \<Rightarrow> wakeup_msg StateMsg \<Rightarrow> 'a facade \<Rightarrow> (int \<times> 'a facade) outcome" where
  "to_default now msg f =
     (case fc_default f of (s, p) \<Rightarrow>
        obind (WE_Handle now msg s) (\<lambda>(r, t). Ret (r, (tell s t f)\<lparr>fc_default := (t, p)\<rparr>)))"

definition to_impl :: "int \<Rightarrow> wakeup_msg StateMsg \<Rightarrow> 'a facade \<Rightarrow> (int \<times> 'a facade) outcome" where
  "to_impl now msg f =
     (case fc_impl f of
        ImplNone \<Rightarrow> Crash NullDeref
      | ImplDefault \<Rightarrow> to_default now msg f
      | ImplHeadset (s, p) \<Rightarrow> obind (HE_Handle now msg s) (\<lambda>(r, t). Ret (r, (tell s t f)\<lparr>fc_impl := ImplHeadset (t, p)\<rparr>))
      | ImplGlasses (s, p) \<Rightarrow> obind (GE_Handle now msg s) (\<lambda>(r, t). Ret (r, (tell s t f)\<lparr>fc_impl := ImplGlasses (t, p)\<rparr>)))"

text \<open>\<open>GetCurrentImpl\<close>: \<open>True\<close> is the engine of the phone as the one for whispers.\<close>

definition GetCurrentImpl :: "'a facade \<Rightarrow> bool" where
  "GetCurrentImpl f \<longleftrightarrow> fc_curProcess f = PROCESS_WISPHER_PHONE"

definition Handle :: "int \<Rightarrow> wakeup_msg StateMsg \<Rightarrow> 'a facade \<Rightarrow> (int \<times> 'a facade) outcome" where
  "Handle now msg f =
     (if msgId msg \<in> {wevent_id EV_SET_LISTENER, wevent_id EV_RELEASE, wevent_id EV_RELEASE_ADAPTER, wevent_id EV_RESET_ADAPTER}
      then obind (to_default now msg f) (\<lambda>(_, g).
             if \<not> is_ImplNone (fc_impl g) \<and> \<not> is_ImplDefault (fc_impl g) then to_impl now msg g else Ret (0, g))
      else if msgId msg \<in> {wevent_id EV_START_RECOGNIZE, wevent_id EV_STOP_RECOGNIZE, wevent_id EV_START_CAPTURER,
                wevent_id EV_READ, wevent_id EV_STOP_CAPTURER}
      then if GetCurrentImpl f then to_default now msg f
           else if \<not> is_ImplNone (fc_impl f) then to_impl now msg f else Ret (0, f)
      else to_default now msg f)"

definition SaveCallback :: "int \<Rightarrow> nat option \<Rightarrow> 'a facade \<Rightarrow> 'a facade outcome" where
  "SaveCallback now cb f =
     (let msg = wmsg EV_SET_LISTENER (WListener cb) None
      in obind (to_default now msg (f\<lparr>fc_callback := cb\<rparr>)) (\<lambda>(_, g).
           if \<not> is_ImplNone (fc_impl g) then obind (to_impl now msg g) (\<lambda>(_, h). Ret h) else Ret g))"

section \<open>Engines of the devices\<close>

text \<open>\<open>EngineImplFactory::CreateInstance\<close>: null when memory is short or the engine cannot be created.\<close>

definition create_headset :: "'a hdi \<Rightarrow> wakeup_device \<Rightarrow> 'a accessory_env \<Rightarrow> 'a wakeup_impl" where
  "create_headset HH W E =
     (if \<not> ae_alloc E then ImplNone
      else (case HE_Create (ae_devmgr E) (ae_host E) (headset_new HH W (\<lambda>_. True) True (ae_this E) (ae_ctx E)) of
        (ok, s) \<Rightarrow> if ok then ImplHeadset (s, None) else ImplNone))"

definition create_glasses :: "wakeup_device \<Rightarrow> 'a accessory_env \<Rightarrow> 'a wakeup_impl" where
  "create_glasses W E =
     (if \<not> ae_alloc E then ImplNone
      else let s = GE_Create W (\<lambda>_. True) True (ae_this E) (ae_ctx E)
           in if IsStatesInitSucc s then ImplGlasses (s, None) else ImplNone)"

definition InitImpl :: "int \<Rightarrow> 'a facade \<Rightarrow> 'a facade outcome" where
  "InitImpl now f =
     (if is_ImplNone (fc_impl f) then Ret f
      else obind (to_impl now (wmsg EV_INIT (WStr (wd_modelType (fc_wakeupDevice f))) None) f) (\<lambda>(r, g).
             Ret (if r \<noteq> 0 then g\<lparr>fc_impl := ImplDefault\<rparr> else g)))"

definition pass_callback :: "int \<Rightarrow> 'a facade \<Rightarrow> 'a facade outcome" where
  "pass_callback now f =
     (if fc_callback f \<noteq> None \<and> \<not> is_ImplNone (fc_impl f)
      then obind (to_impl now (wmsg EV_SET_LISTENER (WListener (fc_callback f)) None) f) (\<lambda>(_, g). Ret g)
      else Ret f)"

definition CreateEngineImpl ::
  "'a hdi \<Rightarrow> wakeup_device \<Rightarrow> int \<Rightarrow> 'a accessory_env \<Rightarrow> 'a facade \<Rightarrow> (int \<times> 'a facade) outcome" where
  "CreateEngineImpl HH W now E f =
     (let ty = wd_type (fc_wakeupDevice f);
          rest = (\<lambda>g. obind (pass_callback now g) (\<lambda>h. Ret (SUCCESS, h)))
      in if ty = PHONE then rest (f\<lparr>fc_impl := ImplDefault\<rparr>)
         else if ty = HEADSET then obind (InitImpl now (f\<lparr>fc_impl := create_headset HH W E\<rparr>)) rest
         else if ty = AI_GLASSES then obind (InitImpl now (f\<lparr>fc_impl := create_glasses W E\<rparr>)) rest
         else Ret (DEVICE_ERROR, f))"

definition ReleaseEngineImpl :: "int \<Rightarrow> bool \<Rightarrow> 'a facade \<Rightarrow> 'a facade outcome" where
  "ReleaseEngineImpl now devmgr f =
     (case fc_impl f of
        ImplHeadset (s, p) \<Rightarrow> obind (HE_Destroy now devmgr s) (\<lambda>(_, t). Ret ((tell s t f)\<lparr>fc_impl := ImplNone\<rparr>))
      | ImplGlasses (s, p) \<Rightarrow> obind (GE_Destroy now s) (\<lambda>(_, t). Ret ((tell s t f)\<lparr>fc_impl := ImplNone\<rparr>))
      | _ \<Rightarrow> Ret f)"

definition UpdateWakeupEngineImpl ::
  "'a hdi \<Rightarrow> wakeup_device \<Rightarrow> int \<Rightarrow> 'a accessory_env \<Rightarrow> WakeupDeviceDetail \<Rightarrow> 'a facade \<Rightarrow> (int \<times> 'a facade) outcome" where
  "UpdateWakeupEngineImpl HH W now E info f =
     obind (ReleaseEngineImpl now (ae_devmgr E) f) (\<lambda>g.
       obind (CreateEngineImpl HH W now E (g\<lparr>fc_wakeupDevice := info\<rparr>)) (\<lambda>(_, h). Ret (SUCCESS, h)))"

text \<open>
  \<open>InitDefaultImpl\<close> and \<open>Init\<close>, which the service calls once on a new object. \<open>processType_\<close> of the engine is not initialised by the
  code; \<open>pt\<close> is the value it happens to have.
\<close>

definition InitDefaultImpl ::
  "'a hdi \<Rightarrow> wakeup_device \<Rightarrow> int \<Rightarrow> bool \<Rightarrow> ProcessType \<Rightarrow> observer \<Rightarrow> 'a engine_ctx \<Rightarrow> (int \<times> 'a wakeup_engine option) outcome" where
  "InitDefaultImpl HP W now alloc pt this c =
     (if \<not> alloc then Ret (-1, None)
      else obind (WE_Handle now (wmsg EV_INIT WNull None) ((wakeup_new HP W (\<lambda>_. True) True this c)\<lparr>ms_listener := True, ms_processType := pt\<rparr>))
             (\<lambda>(r, t). Ret (if r \<noteq> 0 then (-1, None) else (0, Some t))))"

definition Init ::
  "'a hdi \<Rightarrow> 'a hdi \<Rightarrow> wakeup_device \<Rightarrow> int \<Rightarrow> bool \<Rightarrow> ProcessType \<Rightarrow> observer \<Rightarrow> 'a engine_ctx \<Rightarrow> 'a accessory_env \<Rightarrow> nat \<Rightarrow>
     EngineDeviceManager \<Rightarrow> (bool \<times> EngineDeviceManager \<times> 'a facade option) outcome" where
  "Init HP HH W now alloc pt this c E cb D =
     obind (InitDefaultImpl HP W now alloc pt this c) (\<lambda>(_, d).
       case d of
         None \<Rightarrow> Ret (False, D, None)
       | Some s \<Rightarrow>
           (case RegisterDeviceChangeCb cb D of (i, D1) \<Rightarrow>
              let f = \<lparr>fc_default = (s, None), fc_impl = ImplNone, fc_wakeupDevice = ed_wakeupDevice D1, fc_callback = None,
                       fc_curState = wstate_id ST_IDLE, fc_curProcess = PROCESS_IDLE, fc_deviceChangeCbId = i, fc_started = []\<rparr>
              in if i = 0 then Ret (False, D1, Some f)
                 else obind (CreateEngineImpl HH W now E f) (\<lambda>(r, g). Ret (r = 0, D1, Some g))))"

text \<open>The destructor.\<close>

definition facade_destroy :: "int \<Rightarrow> bool \<Rightarrow> EngineDeviceManager \<Rightarrow> 'a facade \<Rightarrow> (EngineDeviceManager \<times> 'a facade) outcome" where
  "facade_destroy now devmgr D f =
     obind (ReleaseEngineImpl now devmgr (f\<lparr>fc_deviceChangeCbId := 0\<rparr>)) (\<lambda>g.
       Ret (if fc_deviceChangeCbId f \<noteq> 0 then UnregisterDeviceChangeCb (fc_deviceChangeCbId f) D else D, g))"

section \<open>Detections\<close>

definition ProcessCheck :: "'a facade \<Rightarrow> bool" where
  "ProcessCheck f \<longleftrightarrow> \<not> fc_curState f > wstate_id ST_INITIALIZED"

definition CloseSource :: "'a facade \<Rightarrow> 'a facade" where
  "CloseSource f = (case fc_default f of (s, p) \<Rightarrow> f\<lparr>fc_default := (s\<lparr>ms_self := on_ctx (emit CloseWakeupSource) (ms_self s)\<rparr>, p)\<rparr>)"

definition start_ability :: "string \<Rightarrow> int \<Rightarrow> 'a facade \<Rightarrow> 'a facade" where
  "start_ability event endIndex f =
     f\<lparr>fc_started := fc_started f @ [(event, wd_macAddress (fc_wakeupDevice f), wd_parameters (fc_wakeupDevice f), endIndex)]\<rparr>"

text \<open>\<open>GetEventValue\<close> of the engine of the phone also sets the type of the process.\<close>

definition GetEventValue :: "int \<Rightarrow> 'a wakeup_engine \<Rightarrow> string \<times> 'a wakeup_engine" where
  "GetEventValue uuid s =
     (if uuid = PROXIMAL_WAKEUP_MODEL_UUID then (''whisper_event'', s\<lparr>ms_processType := PROCESS_WISPHER_PHONE\<rparr>)
      else (''recognition_event'', s\<lparr>ms_processType := PROCESS_WAKEUP_PHONE\<rparr>))"

definition detect_default :: "int \<Rightarrow> int \<Rightarrow> 'a facade \<Rightarrow> 'a facade outcome" where
  "detect_default now uuid f =
     (case fc_default f of (s, p) \<Rightarrow>
        (case GetEventValue uuid s of (event, s1) \<Rightarrow>
           obind (OnTriggerDetected now uuid s1) (\<lambda>(_, t).
             Ret ((tell s1 t (start_ability event 0 f))\<lparr>fc_default := (t, p)\<rparr>))))"

definition OnWispherDetected :: "int \<Rightarrow> int \<Rightarrow> 'a facade \<Rightarrow> (int \<times> 'a facade) outcome" where
  "OnWispherDetected now uuid f = obind (detect_default now uuid f) (\<lambda>g. Ret (SUCCESS, g))"

definition OnWakeupDetected :: "int \<Rightarrow> int \<Rightarrow> string \<Rightarrow> EventDetail \<Rightarrow> 'a facade \<Rightarrow> (int \<times> 'a facade) outcome" where
  "OnWakeupDetected now uuid mac ev f =
     (if mac \<noteq> wd_macAddress (fc_wakeupDevice f)
      then Ret (DEVICE_ERROR, if mac = DEFAULT_MAC_ADDRESS then CloseSource f else f)
      else (case fc_impl f of
          ImplNone \<Rightarrow> Ret (SUCCESS, f)
        | ImplDefault \<Rightarrow> obind (detect_default now uuid f) (\<lambda>g. Ret (SUCCESS, g))
        | ImplHeadset (s, p) \<Rightarrow> obind (HE_OnTriggerDetected now s) (\<lambda>t.
            Ret (SUCCESS, (tell s t (start_ability ''headset_event'' (ev_endFrameIndex ev) f))\<lparr>fc_impl := ImplHeadset (t, p)\<rparr>))
        | ImplGlasses (s, p) \<Rightarrow> obind (GE_OnTriggerDetected now (wd_needSecondStageWakeup (fc_wakeupDevice f)) s) (\<lambda>t.
            Ret (SUCCESS, (tell s t (start_ability ''ai_glasses_event'' (ev_endFrameIndex ev) f))\<lparr>fc_impl := ImplGlasses (t, p)\<rparr>))))"

definition FC_OnTriggerDetected :: "int \<Rightarrow> int \<Rightarrow> string \<Rightarrow> EventDetail \<Rightarrow> 'a facade \<Rightarrow> (int \<times> 'a facade) outcome" where
  "FC_OnTriggerDetected now uuid mac ev f =
     (if \<not> ProcessCheck f then Ret (WAKEUP_PROCESSING, if mac = DEFAULT_MAC_ADDRESS then CloseSource f else f)
      else if uuid = PROXIMAL_WAKEUP_MODEL_UUID then OnWispherDetected now uuid f
      else OnWakeupDetected now uuid mac ev f)"

section \<open>WakeupEngine\<close>

definition WK_OnDetected :: "wakeup_device \<Rightarrow> int \<Rightarrow> int \<Rightarrow> 'a facade \<Rightarrow> 'a facade outcome" where
  "WK_OnDetected W now uuid f =
     (case fc_default f of (s, p) \<Rightarrow>
        let report = (\<lambda>stage. f\<lparr>fc_default := (s\<lparr>ms_self := on_ctx (\<lambda>x. x\<lparr>cx_track :=
                snd (reportWakeupStart W stage WAKEUP_RESULT_DEFAULT WAKEUP_ERROR_CODE_END (cx_track x))\<rparr>) (ms_self s)\<rparr>, p)\<rparr>);
            g = (if uuid = VOICE_WAKEUP_MODEL_UUID then report WAKEUP_STAGE_SA_WAKEUP_DETECTED
                 else if uuid = PROXIMAL_WAKEUP_MODEL_UUID then report WAKEUP_STAGE_SA_WHISPER_DETECTED else f)
        in obind (FC_OnTriggerDetected now uuid DEFAULT_MAC_ADDRESS \<lparr>ev_wakeupEvent = 0, ev_endFrameIndex = 0\<rparr> g) (\<lambda>(_, h). Ret h))"

definition WK_SetCallback :: "int \<Rightarrow> nat option \<Rightarrow> 'a facade \<Rightarrow> 'a facade outcome" where
  "WK_SetCallback now cb f = SaveCallback now cb f"

definition WK_StartCapturer :: "int \<Rightarrow> int \<Rightarrow> 'a facade \<Rightarrow> (int \<times> 'a facade) outcome" where
  "WK_StartCapturer now channels f = Handle now (wmsg EV_START_CAPTURER (WInt channels) None) f"

text \<open>What the engine that handled the message has written to the answer.\<close>

definition out_data :: "wakeup_out option \<Rightarrow> bytes" where
  "out_data y = (case y of Some (WOutData d) \<Rightarrow> d | _ \<Rightarrow> [])"

definition current_out :: "bool \<Rightarrow> 'a facade \<Rightarrow> wakeup_out option" where
  "current_out wispher g =
     (if wispher then wf_out (ms_self (fst (fc_default g)))
      else case fc_impl g of
          ImplNone \<Rightarrow> None
        | ImplDefault \<Rightarrow> wf_out (ms_self (fst (fc_default g)))
        | ImplHeadset (s, _) \<Rightarrow> hf_out (ms_self s)
        | ImplGlasses (s, _) \<Rightarrow> gf_out (ms_self s))"

definition WK_Read :: "int \<Rightarrow> bytes \<Rightarrow> 'a facade \<Rightarrow> (int \<times> bytes \<times> 'a facade) outcome" where
  "WK_Read now data f =
     obind (Handle now (wmsg EV_READ WNull (Some (WOutData []))) f)
       (\<lambda>(r, g). Ret (if r \<noteq> 0 then (-1, data, g) else (0, out_data (current_out (GetCurrentImpl f) g), g)))"

definition WK_StopCapturer :: "int \<Rightarrow> 'a facade \<Rightarrow> (int \<times> 'a facade) outcome" where
  "WK_StopCapturer now f = Handle now (wmsg EV_STOP_CAPTURER WNull None) f"

definition NotifyDeviceWakeupEvent :: "int \<Rightarrow> string \<Rightarrow> EventDetail \<Rightarrow> 'a facade \<Rightarrow> (int \<times> 'a facade) outcome" where
  "NotifyDeviceWakeupEvent now mac ev f = FC_OnTriggerDetected now VOICE_WAKEUP_MODEL_UUID mac ev f"

definition WK_Detach :: "int \<Rightarrow> 'a facade \<Rightarrow> (int \<times> 'a facade) outcome" where
  "WK_Detach now f = Handle now (wmsg EV_RELEASE WNull None) f"

definition WK_SetParameter :: "int \<Rightarrow> string \<Rightarrow> 'a facade \<Rightarrow> (int \<times> 'a facade) outcome" where
  "WK_SetParameter now keyValueList f = Handle now (wmsg EV_SET_PARAM (WStr keyValueList) None) f"

definition WK_GetParameter :: "int \<Rightarrow> string \<Rightarrow> 'a facade \<Rightarrow> (string \<times> 'a facade) outcome" where
  "WK_GetParameter now key f =
     obind (Handle now (wmsg EV_GET_PARAM (WStr key) (Some (WOutStr ''''))) f)
       (\<lambda>(r, g). Ret (if r \<noteq> 0 then '''' else (case wf_out (ms_self (fst (fc_default g))) of Some (WOutStr v) \<Rightarrow> v | _ \<Rightarrow> ''''), g))"

definition WK_Stop :: "int \<Rightarrow> 'a facade \<Rightarrow> (int \<times> 'a facade) outcome" where
  "WK_Stop now f = Handle now (wmsg EV_STOP_RECOGNIZE WNull None) f"

definition WK_GetWakeupPcm :: "int \<Rightarrow> bytes \<Rightarrow> 'a facade \<Rightarrow> (int \<times> bytes \<times> 'a facade) outcome" where
  "WK_GetWakeupPcm now data f =
     obind (Handle now (wmsg EV_GET_WAKEUP_PCM WNull (Some (WOutData []))) f)
       (\<lambda>(r, g). Ret (if r \<noteq> 0 then (-1, data, g) else (0, out_data (wf_out (ms_self (fst (fc_default g)))), g)))"

definition WK_ResetAdapter :: "int \<Rightarrow> 'a facade \<Rightarrow> (bool \<times> 'a facade) outcome" where
  "WK_ResetAdapter now f = obind (Handle now (wmsg EV_RESET_ADAPTER WNull None) f) (\<lambda>(r, g). Ret (r = 0, g))"

definition WK_ReleaseAdapter :: "int \<Rightarrow> 'a facade \<Rightarrow> 'a facade outcome" where
  "WK_ReleaseAdapter now f = obind (Handle now (wmsg EV_RELEASE_ADAPTER WNull None) f) (\<lambda>(_, g). Ret g)"

section \<open>What the facade hears\<close>

text \<open>An engine with a listener tells exactly the changes of its state, with its process type.\<close>

definition heard :: "('m, 'u) ModuleStates \<Rightarrow> ('m, 'u) ModuleStates \<Rightarrow> bool" where
  "heard s t \<longleftrightarrow> ms_listener s \<and> ms_listener t \<and> ms_processType t = ms_processType s \<and>
     ms_notified t = ms_notified s @ (if CurrState t = CurrState s then [] else [(CurrState t, ms_processType s)])"

lemma reset_frames:
  "ms_listener (ResetTimerDelay now s) = ms_listener s" "ms_processType (ResetTimerDelay now s) = ms_processType s"
  "ms_notified (ResetTimerDelay now s) = ms_notified s" "ms_currState (ResetTimerDelay now s) = ms_currState s"
  by (auto simp: ResetTimerDelay_def split: option.splits prod.splits)

lemma leave_frames:
  "ms_listener (leave_state c a s) = ms_listener s" "ms_processType (leave_state c a s) = ms_processType s"
  "ms_notified (leave_state c a s) = ms_notified s"
  by (auto simp: leave_state_def split: prod.splits)

lemma ToState_told:
  assumes "ToState now n s = Ret t" "ms_listener s"
  shows "ms_listener t \<and> ms_processType t = ms_processType s \<and> ms_notified t = ms_notified s @ [(n, ms_processType s)] \<and> ms_currState t = Some n"
  using assms by (auto simp: ToState_def enter_state_def Let_def leave_frames split: option.splits prod.splits if_splits)

lemma HandleMsg_heard:
  assumes "HandleMsg now msg s = Ret (r, t)" "ms_listener s"
  shows "heard s t"
proof (cases "ms_currState s")
  case None
  then show ?thesis using assms by (simp add: HandleMsg_def heard_def)
next
  case (Some c)
  show ?thesis
  proof (cases "ms_states s c")
    case None
    then show ?thesis using assms Some by (simp add: HandleMsg_def heard_def)
  next
    case st: (Some a)
    show ?thesis
    proof (cases a)
      case None
      then show ?thesis using assms Some st by (simp add: HandleMsg_def heard_def)
    next
      case (Some b)
      define h where "h = SA_Handle b msg c (ms_self s)"
      define s2 where "s2 = (if h_reset h then ResetTimerDelay now (s\<lparr>ms_self := h_self h\<rparr>) else s\<lparr>ms_self := h_self h\<rparr>)"
      have s2: "ms_listener s2" "ms_processType s2 = ms_processType s" "ms_notified s2 = ms_notified s" "ms_currState s2 = Some c"
        using assms(2) \<open>ms_currState s = Some c\<close> by (simp_all add: s2_def reset_frames)
      consider "t = s2" | "c \<noteq> h_next h" "ToState now (h_next h) s2 = Ret t"
        using assms(1) st Some \<open>ms_currState s = Some c\<close>
        by (auto simp: HandleMsg_def Let_def obind_eq_Ret simp flip: h_def s2_def split: if_splits)
      then show ?thesis
      proof cases
        case 1
        then show ?thesis using s2 assms(2) \<open>ms_currState s = Some c\<close> by (simp add: heard_def CurrState_def)
      next
        case 2
        show ?thesis using ToState_told [OF 2(2) s2(1)] s2 assms(2) 2(1) \<open>ms_currState s = Some c\<close> by (simp add: heard_def CurrState_def)
      qed
    qed
  qed
qed

lemma heard_self:
  "heard s (t\<lparr>ms_self := u\<rparr>) = heard s t" "heard (s\<lparr>ms_self := u\<rparr>) t = heard s t" "heard s (t\<lparr>ms_tm := tm\<rparr>) = heard s t"
  by (simp_all add: heard_def CurrState_def)

lemma heard_refl: "ms_listener s \<Longrightarrow> heard s s"
  by (simp add: heard_def)

lemma heard_OnTimerEvent: "OnTimerEvent now e s = Ret t \<Longrightarrow> ms_listener s \<Longrightarrow> heard s t"
  by (auto simp: OnTimerEvent_def obind_eq_Ret intro: HandleMsg_heard)

lemma tell_heard:
  "heard s t \<Longrightarrow> tell s t f = (if CurrState t = CurrState s then f else OnStateChange (CurrState t) (ms_processType s) f)"
  by (simp add: heard_def tell_def)

text \<open>
  The engines the facade follows: only the event \<open>start\<close> takes them from rest into a session, and it is never
  the event of a timer.
\<close>

locale tracked_engine = table_engine +
  fixes start :: int and top :: int
  assumes rest_handlers: "fok e u \<Longrightarrow> sid e \<le> top \<Longrightarrow> sa_actions (tab e) m = Some h \<Longrightarrow> m \<noteq> start \<Longrightarrow>
      h_ret (h msg (sid e) u) = 0 \<Longrightarrow> h_next (h msg (sid e) u) \<le> top"
    and timer_not_start: "cfg_type (sa_cfg (tab e)) \<noteq> start"
begin

lemma rest_message:
  assumes ft: "machine_fit sid tab fok e s" and r: "HandleMsg now msg s = Ret (ret, t)" and m: "msgId msg \<noteq> start" and q: "CurrState s \<le> top"
  shows "CurrState t \<le> top"
proof -
  have c: "ms_currState s = Some (sid e)" "ms_inv s" "fok e (ms_self s)" using ft by (simp_all add: machine_fit_def)
  obtain i where a: "ms_states s (sid e) = Some (Some ((tab e)\<lparr>sa_timerId := i\<rparr>))"
    using ft by (auto simp: machine_fit_def tables_ok_def)
  have e: "sid e \<le> top" using q c by (simp add: CurrState_def)
  have "h_next (SA_Handle ((tab e)\<lparr>sa_timerId := i\<rparr>) msg (sid e) (ms_self s)) \<le> top"
    if "h_ret (SA_Handle ((tab e)\<lparr>sa_timerId := i\<rparr>) msg (sid e) (ms_self s)) = 0"
    using that rest_handlers [OF c(3) e] m e by (auto simp: SA_Handle_def split: option.splits)
  then show ?thesis using HandleMsg_effect [OF c(2,1) a r] e by (auto simp: CurrState_def)
qed

lemma taken_not_start:
  assumes "machine_at sid tab fok e (s, None)" "Run_iter now (ms_tm s) = (RunFire ev ob, tm)"
  shows "te_type ev \<noteq> start"
proof -
  have inv: "ms_inv s" and c: "ms_currState s = Some (sid e)" and tb: "tables_ok sid tab s"
    using assms(1) by (simp_all add: machine_at_def machine_fit_def)
  obtain x q where q: "ms_queue s = x # q" "te_type ev = ti_type x"
    using assms(2) by (auto simp: Run_iter_def split: if_splits list.splits)
  obtain i where a: "ms_states s (sid e) = Some (Some ((tab e)\<lparr>sa_timerId := i\<rparr>))"
    using tb by (auto simp: tables_ok_def)
  have "ti_type x = cfg_type (sa_cfg (tab e))"
    using ms_invD(3) [OF inv, of x] q(1) c a by (auto simp: armed_by_current_def)
  then show ?thesis using q(2) timer_not_start by simp
qed

end

lemma wcfg_not_start: "cfg_type (wcfg_of e) \<noteq> wevent_id EV_START_RECOGNIZE"
  by (cases e) (simp_all add: wcfg_of_def)

lemma wrest_next:
  assumes "nxt \<le> 2"
  shows "h_next (WE_HandleSetListener msg nxt u) \<le> 2" "h_next (WE_HandleSetParam H msg nxt u) \<le> 2" "h_next (WE_HandleGetParam H msg nxt u) \<le> 2"
    "h_next (WE_HandleInit H msg nxt u) \<le> 2" "h_next (WE_HandleResetAdapter H msg nxt u) \<le> 2" "h_next (WE_HandleInitDone msg nxt u) \<le> 2"
    "h_next (WE_HandleRelease H msg nxt u) \<le> 2"
  using assms
  by (auto simp: WE_HandleSetListener_def WE_HandleSetParam_def WE_HandleGetParam_def WE_HandleInit_def WE_HandleResetAdapter_def
      WE_HandleInitDone_def WE_HandleRelease_def wresult_def Let_def split: wakeup_in.split wakeup_out.split prod.split option.split bool.split)

lemma hrest_next:
  assumes "nxt \<le> 2"
  shows "h_next (HE_HandleSetListener msg nxt u) \<le> 2" "h_next (HE_HandleSetParam H msg nxt u) \<le> 2" "h_next (HE_HandleInit H msg nxt u) \<le> 2"
    "h_next (HE_HandleResetAdapter H msg nxt u) \<le> 2" "h_next (HE_HandleInitDone msg nxt u) \<le> 2" "h_next (HE_HandleRelease H msg nxt u) \<le> 2"
  using assms
  by (auto simp: HE_HandleSetListener_def HE_HandleSetParam_def HE_HandleInit_def HE_HandleResetAdapter_def
      HE_HandleInitDone_def HE_HandleRelease_def hresult_def Let_def split: wakeup_in.split prod.split bool.split)

lemma grest_next:
  assumes "nxt \<le> 2"
  shows "h_next (GE_HandleSetListener msg nxt u) \<le> 2" "h_next (GE_HandleSetParam msg nxt u) \<le> 2" "h_next (GE_HandleInit msg nxt u) \<le> 2"
    "h_next (GE_HandleResetAdapter msg nxt u) \<le> 2" "h_next (GE_HandleRelease msg nxt u) \<le> 2"
  using assms
  by (auto simp: GE_HandleSetListener_def GE_HandleSetParam_def GE_HandleInit_def GE_HandleResetAdapter_def
      GE_HandleRelease_def gresult_def split: wakeup_in.split prod.split)

lemma rest_states: "wstate_id e \<le> 2 \<Longrightarrow> e = ST_IDLE \<or> e = ST_INITIALIZING \<or> e = ST_INITIALIZED"
  by (cases e) simp_all

interpretation wtrack: tracked_engine wstate_id "wtable H W" wfields_ok ST_INITIALIZED "wevent_id EV_START_RECOGNIZE" 2 for H W
proof (unfold_locales, goal_cases)
  case (1 e u m h msg)
  then show ?case using rest_states [of e]
    by (auto simp: wrest_next whandlers_def live_handlers_def any_handlers_def split: if_splits)
qed (simp add: wcfg_not_start del: wevent_id.simps)

interpretation htrack: tracked_engine wstate_id "htable H W" hfields_ok ST_INITIALIZED "wevent_id EV_START_RECOGNIZE" 2 for H W
proof (unfold_locales, goal_cases)
  case (1 e u m h msg)
  then show ?case using rest_states [of e]
    by (auto simp: hrest_next hhandlers_def hlive_handlers_def hany_handlers_def split: if_splits)
qed (simp add: wcfg_not_start del: wevent_id.simps)

interpretation gtrack: tracked_engine wstate_id "gtable W" gfields_ok ST_INITIALIZED "wevent_id EV_START_RECOGNIZE" 2 for W
proof (unfold_locales, goal_cases)
  case (1 e u m h msg)
  then show ?case using rest_states [of e]
    by (auto simp: grest_next ghandlers_def glive_handlers_def gany_handlers_def split: if_splits)
qed (simp add: wcfg_not_start del: wevent_id.simps)

section \<open>Interleavings\<close>

text \<open>The steps of an engine that nobody calls: its driver, its threads, its timer and its surroundings.\<close>

inductive phone_own :: "'a hdi \<Rightarrow> wakeup_device \<Rightarrow> 'a wakeup_sys \<Rightarrow> 'a wakeup_sys \<Rightarrow> bool" for H W where
  po_initdone: "OnInitDone now res s = Ret (r, t) \<Longrightarrow> phone_own H W (s, p) (t, p)"
| po_recognition: "OnWakeupRecognition W now res info s = Ret (r, t) \<Longrightarrow> phone_own H W (s, p) (t, p)"
| po_frame: "phone_own H W (s, p) (s\<lparr>ms_self := WE_ReadBufferCallback H buf isEnd (ms_self s)\<rparr>, p)"
| po_end: "phone_own H W (s, p) (s\<lparr>ms_self := WE_EndOfPcm H (ms_self s)\<rparr>, p)"
| po_world: "phone_own H W (s, p) (s\<lparr>ms_self := on_ctx (\<lambda>x. x\<lparr>cx_kv := k, cx_host := h, cx_answers := a\<rparr>) (ms_self s)\<rparr>, p)"
| po_take: "Run_iter now (ms_tm s) = (RunFire e ob, tm) \<Longrightarrow> phone_own H W (s, None) (s\<lparr>ms_tm := tm\<rparr>, Some e)"
| po_deliver: "OnTimerEvent now e s = Ret t \<Longrightarrow> phone_own H W (s, Some e) (t, None)"

inductive headset_own :: "'a hdi \<Rightarrow> 'a headset_sys \<Rightarrow> 'a headset_sys \<Rightarrow> bool" for H where
  ho_initdone: "HE_OnInitDone now res s = Ret t \<Longrightarrow> headset_own H (s, p) (t, p)"
| ho_recognition: "HE_OnWakeupRecognition now res info s = Ret t \<Longrightarrow> headset_own H (s, p) (t, p)"
| ho_round: "ReadThread_round H a (ms_self s) = Ret u \<Longrightarrow> headset_own H (s, p) (s\<lparr>ms_self := u\<rparr>, p)"
| ho_world: "headset_own H (s, p) (hfields (hctx (\<lambda>x. x\<lparr>cx_kv := k, cx_host := h, cx_answers := a\<rparr>)) s, p)"
| ho_take: "Run_iter now (ms_tm s) = (RunFire e ob, tm) \<Longrightarrow> headset_own H (s, None) (s\<lparr>ms_tm := tm\<rparr>, Some e)"
| ho_deliver: "OnTimerEvent now e s = Ret t \<Longrightarrow> headset_own H (s, Some e) (t, None)"

inductive glasses_own :: "'a glasses_sys \<Rightarrow> 'a glasses_sys \<Rightarrow> bool" where
  go_recognition: "GE_OnWakeupRecognition now res info s = Ret t \<Longrightarrow> glasses_own (s, p) (t, p)"
| go_round: "glasses_own (s, p) (gfields (GE_ReadThread_round a) s, p)"
| go_world: "glasses_own (s, p) (gfields (\<lambda>u. u\<lparr>gf_ctx := (gf_ctx u)\<lparr>cx_answers := a\<rparr>\<rparr>) s, p)"
| go_take: "Run_iter now (ms_tm s) = (RunFire e ob, tm) \<Longrightarrow> glasses_own (s, None) (s\<lparr>ms_tm := tm\<rparr>, Some e)"
| go_deliver: "OnTimerEvent now e s = Ret t \<Longrightarrow> glasses_own (s, Some e) (t, None)"

text \<open>The calls of \<open>WakeupEngine\<close>, the changes of the device and the engines' own steps.\<close>

inductive facade_step :: "'a hdi \<Rightarrow> 'a hdi \<Rightarrow> wakeup_device \<Rightarrow> 'a facade \<Rightarrow> 'a facade \<Rightarrow> bool" for HP HH W where
  fs_detected: "WK_OnDetected W now uuid f = Ret g \<Longrightarrow> facade_step HP HH W f g"
| fs_notify: "NotifyDeviceWakeupEvent now mac ev f = Ret (r, g) \<Longrightarrow> facade_step HP HH W f g"
| fs_callback: "WK_SetCallback now cb f = Ret g \<Longrightarrow> facade_step HP HH W f g"
| fs_start: "WK_StartCapturer now ch f = Ret (r, g) \<Longrightarrow> facade_step HP HH W f g"
| fs_read: "WK_Read now d f = Ret (r, d', g) \<Longrightarrow> facade_step HP HH W f g"
| fs_stop_capturer: "WK_StopCapturer now f = Ret (r, g) \<Longrightarrow> facade_step HP HH W f g"
| fs_detach: "WK_Detach now f = Ret (r, g) \<Longrightarrow> facade_step HP HH W f g"
| fs_set: "WK_SetParameter now kv f = Ret (r, g) \<Longrightarrow> facade_step HP HH W f g"
| fs_get: "WK_GetParameter now key f = Ret (v, g) \<Longrightarrow> facade_step HP HH W f g"
| fs_stop: "WK_Stop now f = Ret (r, g) \<Longrightarrow> facade_step HP HH W f g"
| fs_pcm: "WK_GetWakeupPcm now d f = Ret (r, d', g) \<Longrightarrow> facade_step HP HH W f g"
| fs_reset: "WK_ResetAdapter now f = Ret (b, g) \<Longrightarrow> facade_step HP HH W f g"
| fs_release: "WK_ReleaseAdapter now f = Ret g \<Longrightarrow> facade_step HP HH W f g"
| fs_device: "UpdateWakeupEngineImpl HH W now E info f = Ret (r, g) \<Longrightarrow> facade_step HP HH W f g"
| fs_phone: "fc_default f = (s, p) \<Longrightarrow> phone_own HP W (s, p) (t, q) \<Longrightarrow> facade_step HP HH W f ((tell s t f)\<lparr>fc_default := (t, q)\<rparr>)"
| fs_headset: "fc_impl f = ImplHeadset (s, p) \<Longrightarrow> headset_own HH (s, p) (t, q) \<Longrightarrow>
    facade_step HP HH W f ((tell s t f)\<lparr>fc_impl := ImplHeadset (t, q)\<rparr>)"
| fs_glasses: "fc_impl f = ImplGlasses (s, p) \<Longrightarrow> glasses_own (s, p) (t, q) \<Longrightarrow>
    facade_step HP HH W f ((tell s t f)\<lparr>fc_impl := ImplGlasses (t, q)\<rparr>)"

text \<open>A new wake-up engine; the value \<open>processType_\<close> happens to have is taken not to be the type of an accessory.\<close>

definition phone_type :: "ProcessType \<Rightarrow> bool" where
  "phone_type ty \<longleftrightarrow> ty \<in> {PROCESS_IDLE, PROCESS_WAKEUP_PHONE, PROCESS_WISPHER_PHONE}"

definition facade_start :: "'a hdi \<Rightarrow> 'a hdi \<Rightarrow> wakeup_device \<Rightarrow> 'a facade \<Rightarrow> bool" where
  "facade_start HP HH W f \<longleftrightarrow>
     (\<exists>now pt this c E cb D D1. phone_type pt \<and> cx_calls c = [] \<and> Init HP HH W now True pt this c E cb D = Ret (True, D1, Some f))"

section \<open>The invariant\<close>

definition accessory_type :: "ProcessType \<Rightarrow> bool" where
  "accessory_type ty \<longleftrightarrow> ty \<in> {PROCESS_WAKEUP_HEADSET, PROCESS_WAKEUP_GLASSES}"

text \<open>State and process as the facade has them, of the phone and of the accessory: the facade has those of the one engine in a
  session, or none is.\<close>

fun follows :: "int \<times> ProcessType \<Rightarrow> int \<times> ProcessType \<Rightarrow> (int \<times> ProcessType) option \<Rightarrow> bool" where
  "follows cur (c, ty) None \<longleftrightarrow> phone_type ty \<and> (if c > 2 then cur = (c, ty) \<and> ty \<noteq> PROCESS_IDLE else cur = (0, PROCESS_IDLE))"
| "follows cur (c, ty) (Some (c', ty')) \<longleftrightarrow> phone_type ty \<and> accessory_type ty' \<and> \<not> (c > 2 \<and> c' > 2) \<and>
     (if c > 2 then cur = (c, ty) \<and> ty \<noteq> PROCESS_IDLE else if c' > 2 then cur = (c', ty') else cur = (0, PROCESS_IDLE))"

fun moved :: "int \<Rightarrow> int \<Rightarrow> ProcessType \<Rightarrow> int \<times> ProcessType \<Rightarrow> int \<times> ProcessType" where
  "moved c n ty (st, pr) =
     (if n = c \<or> ty = PROCESS_IDLE then (st, pr) else if st \<le> 2 \<and> n > 2 then (n, ty)
      else if st > 2 \<and> pr = ty then if n \<le> 2 then (0, PROCESS_IDLE) else (n, pr) else (st, pr))"

abbreviation cur :: "'a facade \<Rightarrow> int \<times> ProcessType" where
  "cur f \<equiv> (fc_curState f, fc_curProcess f)"

abbreviation face :: "('m, 'u) ModuleStates \<Rightarrow> int \<times> ProcessType" where
  "face s \<equiv> (CurrState s, ms_processType s)"

lemma tell_cur: "heard s t \<Longrightarrow> cur (tell s t f) = moved (CurrState s) (CurrState t) (ms_processType s) (cur f)"
  by (auto simp: tell_heard OnStateChange_def)

lemma tell_frames [simp]:
  "fc_default (tell s t f) = fc_default f" "fc_impl (tell s t f) = fc_impl f" "fc_wakeupDevice (tell s t f) = fc_wakeupDevice f"
  "fc_callback (tell s t f) = fc_callback f" "fc_started (tell s t f) = fc_started f" "fc_deviceChangeCbId (tell s t f) = fc_deviceChangeCbId f"
proof -
  have "fc_default (fold (\<lambda>(n, ty). OnStateChange n ty) xs f) = fc_default f \<and> fc_impl (fold (\<lambda>(n, ty). OnStateChange n ty) xs f) = fc_impl f \<and>
      fc_wakeupDevice (fold (\<lambda>(n, ty). OnStateChange n ty) xs f) = fc_wakeupDevice f \<and> fc_callback (fold (\<lambda>(n, ty). OnStateChange n ty) xs f) = fc_callback f \<and>
      fc_started (fold (\<lambda>(n, ty). OnStateChange n ty) xs f) = fc_started f \<and> fc_deviceChangeCbId (fold (\<lambda>(n, ty). OnStateChange n ty) xs f) = fc_deviceChangeCbId f" for xs
    by (induction xs arbitrary: f) (auto simp: OnStateChange_def)
  then show "fc_default (tell s t f) = fc_default f" "fc_impl (tell s t f) = fc_impl f" "fc_wakeupDevice (tell s t f) = fc_wakeupDevice f"
    "fc_callback (tell s t f) = fc_callback f" "fc_started (tell s t f) = fc_started f" "fc_deviceChangeCbId (tell s t f) = fc_deviceChangeCbId f"
    by (simp_all add: tell_def)
qed

lemma types_differ: "phone_type ty \<Longrightarrow> accessory_type ty' \<Longrightarrow> ty' \<noteq> ty \<and> ty' \<noteq> PROCESS_IDLE"
  by (auto simp: phone_type_def accessory_type_def)

lemma follows_phone: "follows k (c, ty) a \<Longrightarrow> n \<le> 2 \<or> c > 2 \<Longrightarrow> follows (moved c n ty k) (n, ty) a"
  by (cases k; cases a) (auto dest: types_differ split: if_splits)

lemma follows_accessory: "follows k h (Some (c, ty)) \<Longrightarrow> n \<le> 2 \<or> c > 2 \<Longrightarrow> follows (moved c n ty k) h (Some (n, ty))"
  by (cases k; cases h) (auto dest: types_differ split: if_splits)

lemma follows_start_phone:
  "follows k (c, ty) a \<Longrightarrow> fst k \<le> 2 \<Longrightarrow> phone_type ty' \<Longrightarrow> ty' \<noteq> PROCESS_IDLE \<Longrightarrow> follows (moved c n ty' k) (n, ty') a"
  by (cases k; cases a) (auto split: if_splits)

lemma follows_start_accessory: "follows k h (Some (c, ty)) \<Longrightarrow> fst k \<le> 2 \<Longrightarrow> follows (moved c n ty k) h (Some (n, ty))"
  by (cases k; cases h) (auto dest: types_differ split: if_splits)

lemma follows_gone: "follows k h (Some (c, ty)) \<Longrightarrow> c \<le> 2 \<Longrightarrow> follows k h None"
  by (cases h) auto

lemma follows_new: "follows k h None \<Longrightarrow> accessory_type ty \<Longrightarrow> c \<le> 2 \<Longrightarrow> follows k h (Some (c, ty))"
  by (cases h) auto

definition not_start :: "TimerEvent option \<Rightarrow> bool" where
  "not_start p \<longleftrightarrow> (\<forall>ev. p = Some ev \<longrightarrow> te_type ev \<noteq> wevent_id EV_START_RECOGNIZE)"

definition phone_ok :: "'a hdi \<Rightarrow> wakeup_device \<Rightarrow> 'a wakeup_sys \<Rightarrow> bool" where
  "phone_ok HP W x \<longleftrightarrow> wakeup_inv HP W x \<and> ms_listener (fst x) \<and> not_start (snd x)"

fun impl_ok :: "'a hdi \<Rightarrow> wakeup_device \<Rightarrow> 'a wakeup_impl \<Rightarrow> bool" where
  "impl_ok HH W (ImplHeadset x) \<longleftrightarrow> headset_inv HH W x \<and> ms_listener (fst x) \<and> not_start (snd x)"
| "impl_ok HH W (ImplGlasses x) \<longleftrightarrow> glasses_inv W x \<and> ms_listener (fst x) \<and> not_start (snd x)"
| "impl_ok HH W _ \<longleftrightarrow> True"

fun accessory :: "'a wakeup_impl \<Rightarrow> (int \<times> ProcessType) option" where
  "accessory (ImplHeadset x) = Some (face (fst x))"
| "accessory (ImplGlasses x) = Some (face (fst x))"
| "accessory _ = None"

definition facade_inv :: "'a hdi \<Rightarrow> 'a hdi \<Rightarrow> wakeup_device \<Rightarrow> 'a facade \<Rightarrow> bool" where
  "facade_inv HP HH W f \<longleftrightarrow> phone_ok HP W (fc_default f) \<and> impl_ok HH W (fc_impl f) \<and>
     follows (cur f) (face (fst (fc_default f))) (accessory (fc_impl f))"

lemma facade_inv_frames [simp]:
  "facade_inv HP HH W (f\<lparr>fc_callback := cb\<rparr>) = facade_inv HP HH W f" "facade_inv HP HH W (f\<lparr>fc_wakeupDevice := d\<rparr>) = facade_inv HP HH W f"
  "facade_inv HP HH W (f\<lparr>fc_started := l\<rparr>) = facade_inv HP HH W f" "facade_inv HP HH W (f\<lparr>fc_deviceChangeCbId := i\<rparr>) = facade_inv HP HH W f"
  by (simp_all add: facade_inv_def)

text \<open>An engine is replaced by what a step has made of it.\<close>

lemma phone_put:
  assumes "facade_inv HP HH W f" "fc_default f = (s, p)" "heard s t" "wakeup_inv HP W (t, q)" "not_start q" "CurrState t \<le> 2 \<or> CurrState s > 2"
  shows "facade_inv HP HH W ((tell s t f)\<lparr>fc_default := (t, q)\<rparr>)"
proof -
  have "follows (cur f) (CurrState s, ms_processType s) (accessory (fc_impl f))" using assms(1,2) by (simp add: facade_inv_def)
  from follows_phone [OF this assms(6)] show ?thesis
    using assms tell_cur [OF assms(3), of f] by (simp add: facade_inv_def phone_ok_def heard_def)
qed

lemma headset_put:
  assumes "facade_inv HP HH W f" "fc_impl f = ImplHeadset (s, p)" "heard s t" "headset_inv HH W (t, q)" "not_start q" "CurrState t \<le> 2 \<or> CurrState s > 2"
  shows "facade_inv HP HH W ((tell s t f)\<lparr>fc_impl := ImplHeadset (t, q)\<rparr>)"
proof -
  have "follows (cur f) (face (fst (fc_default f))) (Some (CurrState s, ms_processType s))" using assms(1,2) by (simp add: facade_inv_def)
  from follows_accessory [OF this assms(6)] show ?thesis
    using assms tell_cur [OF assms(3), of f] by (simp add: facade_inv_def heard_def)
qed

lemma glasses_put:
  assumes "facade_inv HP HH W f" "fc_impl f = ImplGlasses (s, p)" "heard s t" "glasses_inv W (t, q)" "not_start q" "CurrState t \<le> 2 \<or> CurrState s > 2"
  shows "facade_inv HP HH W ((tell s t f)\<lparr>fc_impl := ImplGlasses (t, q)\<rparr>)"
proof -
  have "follows (cur f) (face (fst (fc_default f))) (Some (CurrState s, ms_processType s))" using assms(1,2) by (simp add: facade_inv_def)
  from follows_accessory [OF this assms(6)] show ?thesis
    using assms tell_cur [OF assms(3), of f] by (simp add: facade_inv_def heard_def)
qed

text \<open>A message that is not the start of a session.\<close>

lemma phone_message:
  assumes "wakeup_inv HP W (s, p)" "ms_listener s" "WE_Handle now msg s = Ret (r, t)"
  shows "heard s t" "wakeup_inv HP W (t, p)" "msgId msg \<noteq> wevent_id EV_START_RECOGNIZE \<Longrightarrow> CurrState t \<le> 2 \<or> CurrState s > 2"
proof -
  obtain e where e: "wakeup_at HP W e (s, p)" using assms(1) by (auto simp: wakeup_inv_def)
  then have m: "HandleMsg now msg s = Ret (r, t)" and ft: "wakeup_fit HP W e s"
    using assms(3) Handle_HandleMsg [of HP W e s now msg] by (simp_all add: machine_at_def)
  show "heard s t" using HandleMsg_heard [OF m assms(2)] .
  show "wakeup_inv HP W (t, p)" using Handle_at [OF e assms(3)] by (simp add: wakeup_inv_def)
  show "CurrState t \<le> 2 \<or> CurrState s > 2" if "msgId msg \<noteq> wevent_id EV_START_RECOGNIZE"
    using wtrack.rest_message [OF ft m that] by linarith
qed

lemma headset_message:
  assumes "headset_inv HH W (s, p)" "ms_listener s" "HE_Handle now msg s = Ret (r, t)"
  shows "heard s t" "headset_inv HH W (t, p)" "msgId msg \<noteq> wevent_id EV_START_RECOGNIZE \<Longrightarrow> CurrState t \<le> 2 \<or> CurrState s > 2"
proof -
  obtain e where e: "headset_at HH W e (s, p)" using assms(1) by (auto simp: headset_inv_def)
  then have m: "HandleMsg now msg s = Ret (r, t)" and ft: "headset_fit HH W e s"
    using assms(3) by (simp_all add: machine_at_def machine_fit_def HE_Handle_def IsStatesInitSucc_def)
  show "heard s t" using HandleMsg_heard [OF m assms(2)] .
  show "headset_inv HH W (t, p)" using HE_Handle_inv [OF assms(1,3)] .
  show "CurrState t \<le> 2 \<or> CurrState s > 2" if "msgId msg \<noteq> wevent_id EV_START_RECOGNIZE"
    using htrack.rest_message [OF ft m that] by linarith
qed

lemma glasses_message:
  assumes "glasses_inv W (s, p)" "ms_listener s" "GE_Handle now msg s = Ret (r, t)"
  shows "heard s t" "glasses_inv W (t, p)" "msgId msg \<noteq> wevent_id EV_START_RECOGNIZE \<Longrightarrow> CurrState t \<le> 2 \<or> CurrState s > 2"
proof -
  obtain e where e: "glasses_at W e (s, p)" using assms(1) by (auto simp: glasses_inv_def)
  then have m: "HandleMsg now msg s = Ret (r, t)" and ft: "machine_fit wstate_id (gtable W) gfields_ok e s"
    using assms(3) by (simp_all add: machine_at_def machine_fit_def GE_Handle_def IsStatesInitSucc_def)
  show "heard s t" using HandleMsg_heard [OF m assms(2)] .
  show "glasses_inv W (t, p)" using GE_Handle_inv [OF assms(1,3)] .
  show "CurrState t \<le> 2 \<or> CurrState s > 2" if "msgId msg \<noteq> wevent_id EV_START_RECOGNIZE"
    using gtrack.rest_message [OF ft m that] by linarith
qed

lemma to_default_inv:
  assumes "facade_inv HP HH W f" "to_default now msg f = Ret (r, g)" "msgId msg \<noteq> wevent_id EV_START_RECOGNIZE"
  shows "facade_inv HP HH W g"
proof -
  obtain s p t where d: "fc_default f = (s, p)" "WE_Handle now msg s = Ret (r, t)" "g = (tell s t f)\<lparr>fc_default := (t, p)\<rparr>"
    using assms(2) by (cases "fc_default f") (auto simp: to_default_def obind_eq_Ret)
  have i: "wakeup_inv HP W (s, p)" "ms_listener s" "not_start p" using assms(1) d(1) by (simp_all add: facade_inv_def phone_ok_def)
  from phone_put [OF assms(1) d(1)] phone_message [OF i(1,2) d(2)] i(3) assms(3) show ?thesis unfolding d(3) by blast
qed

lemma to_impl_inv:
  assumes "facade_inv HP HH W f" "to_impl now msg f = Ret (r, g)" "msgId msg \<noteq> wevent_id EV_START_RECOGNIZE"
  shows "facade_inv HP HH W g"
proof (cases "fc_impl f")
  case ImplNone
  then show ?thesis using assms(2) by (simp add: to_impl_def)
next
  case ImplDefault
  then show ?thesis using assms to_default_inv by (auto simp: to_impl_def)
next
  case (ImplHeadset x)
  then obtain s p t where d: "fc_impl f = ImplHeadset (s, p)" "HE_Handle now msg s = Ret (r, t)" "g = (tell s t f)\<lparr>fc_impl := ImplHeadset (t, p)\<rparr>"
    using assms(2) by (cases x) (auto simp: to_impl_def obind_eq_Ret)
  have i: "headset_inv HH W (s, p)" "ms_listener s" "not_start p" using assms(1) d(1) by (simp_all add: facade_inv_def)
  from headset_put [OF assms(1) d(1)] headset_message [OF i(1,2) d(2)] i(3) assms(3) show ?thesis unfolding d(3) by blast
next
  case (ImplGlasses x)
  then obtain s p t where d: "fc_impl f = ImplGlasses (s, p)" "GE_Handle now msg s = Ret (r, t)" "g = (tell s t f)\<lparr>fc_impl := ImplGlasses (t, p)\<rparr>"
    using assms(2) by (cases x) (auto simp: to_impl_def obind_eq_Ret)
  have i: "glasses_inv W (s, p)" "ms_listener s" "not_start p" using assms(1) d(1) by (simp_all add: facade_inv_def)
  from glasses_put [OF assms(1) d(1)] glasses_message [OF i(1,2) d(2)] i(3) assms(3) show ?thesis unfolding d(3) by blast
qed

lemma Handle_inv:
  assumes "facade_inv HP HH W f" "Handle now msg f = Ret (r, g)" "msgId msg \<noteq> wevent_id EV_START_RECOGNIZE"
  shows "facade_inv HP HH W g"
proof -
  consider r1 g1 where "to_default now msg f = Ret (r1, g1)" "to_impl now msg g1 = Ret (r, g)" | r1 where "to_default now msg f = Ret (r1, g)"
    | "to_impl now msg f = Ret (r, g)" | "g = f"
    using assms(2) by (auto simp: Handle_def obind_eq_Ret simp del: wevent_id.simps split: if_splits)
  then show ?thesis using assms(1) to_default_inv [OF _ _ assms(3)] to_impl_inv [OF _ _ assms(3)] by cases blast+
qed

lemma wmsg_id [simp]: "msgId (wmsg ev i out) = wevent_id ev"
  by (simp add: wmsg_def)

lemma SaveCallback_inv:
  assumes "facade_inv HP HH W f" "SaveCallback now cb f = Ret g"
  shows "facade_inv HP HH W g"
proof -
  let ?m = "wmsg EV_SET_LISTENER (WListener cb) None"
  obtain r1 g1 where d: "to_default now ?m (f\<lparr>fc_callback := cb\<rparr>) = Ret (r1, g1)" and g: "g = g1 \<or> (\<exists>r. to_impl now ?m g1 = Ret (r, g))"
    using assms(2) by (auto simp: SaveCallback_def Let_def obind_eq_Ret split: if_splits)
  have "facade_inv HP HH W g1" by (rule to_default_inv [OF _ d]) (use assms(1) in simp_all)
  then show ?thesis using g to_impl_inv [of HP HH W g1 now ?m] by auto
qed

subsection \<open>Changing the engine\<close>


lemma drop_resting:
  assumes "facade_inv HP HH W f" "\<And>c ty. accessory (fc_impl f) = Some (c, ty) \<Longrightarrow> c \<le> 2" "accessory i = None" "impl_ok HH W i"
  shows "facade_inv HP HH W (f\<lparr>fc_impl := i\<rparr>)"
proof (cases "accessory (fc_impl f)")
  case (Some a)
  then show ?thesis using assms follows_gone [of "cur f" "face (fst (fc_default f))" "fst a" "snd a"] by (cases a) (simp add: facade_inv_def)
qed (use assms in \<open>simp add: facade_inv_def\<close>)

lemma add_resting:
  assumes "facade_inv HP HH W f" "accessory (fc_impl f) = None" "\<And>c ty. accessory i = Some (c, ty) \<Longrightarrow> c \<le> 2 \<and> accessory_type ty" "impl_ok HH W i"
  shows "facade_inv HP HH W (f\<lparr>fc_impl := i\<rparr>)"
proof (cases "accessory i")
  case (Some a)
  then show ?thesis using assms follows_new [of "cur f" "face (fst (fc_default f))" "snd a" "fst a"] by (cases a) (simp add: facade_inv_def)
qed (use assms in \<open>simp add: facade_inv_def\<close>)

lemma created_resting:
  "impl_ok HH W (create_headset HH W E)" "accessory (create_headset HH W E) = Some (c, ty) \<Longrightarrow> c \<le> 2 \<and> accessory_type ty"
  "impl_ok HH W (create_glasses W E)" "accessory (create_glasses W E) = Some (c, ty) \<Longrightarrow> c \<le> 2 \<and> accessory_type ty"
proof -
  let ?h = "headset_new HH W (\<lambda>_. True) True (ae_this E) (ae_ctx E)" and ?g = "GE_Create W (\<lambda>_. True) True (ae_this E) (ae_ctx E)"
  have h: "headset_inv HH W (s, None) \<and> ms_listener s \<and> CurrState s = 0 \<and> ms_processType s = PROCESS_WAKEUP_HEADSET"
    if "HE_Create (ae_devmgr E) (ae_host E) ?h = (True, s)" for s
  proof -
    have t: "HE_Create True True ?h = (True, s)" and e: "s = hfields (hlib RegisterDeath) (hfields (hlib LoadDevice) (hfields (hlib UnloadDevice) ?h))"
      using that by (auto simp: HE_Create_def Let_def split: if_splits)
    have "headset_start HH W (s, None)" using t by (auto simp: headset_start_def)
    from headset_started [OF this] have at: "headset_at HH W ST_IDLE (s, None)" .
    then have "headset_inv HH W (s, None)" by (auto simp: headset_inv_def)
    moreover have "CurrState s = 0" using at by (simp add: machine_at_def machine_fit_def CurrState_def)
    moreover have "ms_listener s \<and> ms_processType s = PROCESS_WAKEUP_HEADSET" by (simp add: e hfields_def headset_new_def)
    ultimately show ?thesis by simp
  qed
  have at: "glasses_at W ST_IDLE (?g, None)" by (rule glasses_new_at)
  then have "CurrState ?g = 0" by (simp add: machine_at_def machine_fit_def CurrState_def)
  moreover have "glasses_inv W (?g, None)" using at by (auto simp: glasses_inv_def)
  moreover have "ms_listener ?g \<and> ms_processType ?g = PROCESS_WAKEUP_GLASSES" by (simp add: GE_Create_def)
  ultimately have g: "glasses_inv W (?g, None) \<and> ms_listener ?g \<and> CurrState ?g = 0 \<and> ms_processType ?g = PROCESS_WAKEUP_GLASSES" by simp
  show "impl_ok HH W (create_headset HH W E)" using h by (auto simp: create_headset_def not_start_def split: prod.split)
  show "accessory (create_headset HH W E) = Some (c, ty) \<Longrightarrow> c \<le> 2 \<and> accessory_type ty"
    using h by (auto simp: create_headset_def accessory_type_def split: prod.splits if_splits)
  show "impl_ok HH W (create_glasses W E)" using g by (auto simp: create_glasses_def Let_def not_start_def)
  show "accessory (create_glasses W E) = Some (c, ty) \<Longrightarrow> c \<le> 2 \<and> accessory_type ty"
    using g by (auto simp: create_glasses_def Let_def accessory_type_def split: if_splits)
qed

text \<open>A fresh accessory at rest stays at rest when it is initialised.\<close>

definition resting :: "'a facade \<Rightarrow> bool" where
  "resting f \<longleftrightarrow> (\<forall>c ty. accessory (fc_impl f) = Some (c, ty) \<longrightarrow> c \<le> 2)"

lemma to_impl_resting:
  assumes "facade_inv HP HH W f" "resting f" "to_impl now msg f = Ret (r, g)" "msgId msg \<noteq> wevent_id EV_START_RECOGNIZE"
  shows "resting g"
proof (cases "fc_impl f")
  case (ImplHeadset x)
  then obtain s p t where d: "x = (s, p)" "HE_Handle now msg s = Ret (r, t)" "g = (tell s t f)\<lparr>fc_impl := ImplHeadset (t, p)\<rparr>"
    using assms(3) by (cases x) (auto simp: to_impl_def obind_eq_Ret)
  then show ?thesis using assms ImplHeadset headset_message(3) [of HH W s p now msg r t] by (auto simp: resting_def facade_inv_def)
next
  case (ImplGlasses x)
  then obtain s p t where d: "x = (s, p)" "GE_Handle now msg s = Ret (r, t)" "g = (tell s t f)\<lparr>fc_impl := ImplGlasses (t, p)\<rparr>"
    using assms(3) by (cases x) (auto simp: to_impl_def obind_eq_Ret)
  then show ?thesis using assms ImplGlasses glasses_message(3) [of W s p now msg r t] by (auto simp: resting_def facade_inv_def)
qed (use assms in \<open>auto simp: to_impl_def to_default_def resting_def obind_eq_Ret split: prod.splits\<close>)

lemma InitImpl_inv:
  assumes "facade_inv HP HH W f" "resting f" "InitImpl now f = Ret g"
  shows "facade_inv HP HH W g \<and> resting g"
proof (cases "is_ImplNone (fc_impl f)")
  case False
  let ?m = "wmsg EV_INIT (WStr (wd_modelType (fc_wakeupDevice f))) None"
  obtain r g1 where t: "to_impl now ?m f = Ret (r, g1)" "g = (if r \<noteq> 0 then g1\<lparr>fc_impl := ImplDefault\<rparr> else g1)"
    using assms(3) False by (auto simp: InitImpl_def obind_eq_Ret)
  have g1: "facade_inv HP HH W g1" "resting g1" using to_impl_inv [OF assms(1) t(1)] to_impl_resting [OF assms(1,2) t(1)] by simp_all
  then have "facade_inv HP HH W (g1\<lparr>fc_impl := ImplDefault\<rparr>)" using drop_resting [of HP HH W g1 ImplDefault] by (auto simp: resting_def)
  then show ?thesis using g1 t(2) by (simp add: resting_def)
qed (use assms in \<open>simp add: InitImpl_def\<close>)

lemma pass_callback_inv: "facade_inv HP HH W f \<Longrightarrow> pass_callback now f = Ret g \<Longrightarrow> facade_inv HP HH W g"
  using to_impl_inv [of HP HH W f now "wmsg EV_SET_LISTENER (WListener (fc_callback f)) None"]
  by (auto simp: pass_callback_def obind_eq_Ret split: if_splits)

lemma CreateEngineImpl_inv:
  assumes "facade_inv HP HH W f" "accessory (fc_impl f) = None" "CreateEngineImpl HH W now E f = Ret (r, g)"
  shows "facade_inv HP HH W g"
proof -
  consider "g = f" | f1 where "f1 = f\<lparr>fc_impl := ImplDefault\<rparr>" "pass_callback now f1 = Ret g"
    | i f1 where "i = create_headset HH W E \<or> i = create_glasses W E" "InitImpl now (f\<lparr>fc_impl := i\<rparr>) = Ret f1" "pass_callback now f1 = Ret g"
    using assms(3) by (auto simp: CreateEngineImpl_def Let_def obind_eq_Ret split: if_splits)
  then show ?thesis
  proof cases
    case (2 f1)
    then show ?thesis using assms pass_callback_inv [of HP HH W f1] by (auto simp: facade_inv_def)
  next
    case (3 i f1)
    have i: "c \<le> 2 \<and> accessory_type ty" if "accessory i = Some (c, ty)" for c ty
      using 3(1) that created_resting(2,4) by metis
    have ok: "impl_ok HH W i" using 3(1) created_resting(1,3) by metis
    from add_resting [OF assms(1,2) i ok] have "facade_inv HP HH W (f\<lparr>fc_impl := i\<rparr>)" .
    moreover have "resting (f\<lparr>fc_impl := i\<rparr>)" using i by (auto simp: resting_def)
    ultimately show ?thesis using InitImpl_inv [OF _ _ 3(2)] pass_callback_inv [OF _ 3(3)] by blast
  qed (use assms in simp)
qed

text \<open>The release of an accessory ends its session.\<close>

lemma release_rests:
  assumes "HE_Destroy now dm s = Ret (b, t)" "headset_inv HH W (s, p)" "ms_listener s"
  shows "\<exists>t1. heard s t1 \<and> CurrState t1 \<le> 2 \<and> (\<forall>f. tell s t (f :: 'a facade) = tell s t1 f) \<and> headset_inv HH W (t1, p)"
proof -
  obtain r t1 where h: "HE_Handle now (wmsg EV_RELEASE WNull None) s = Ret (r, t1)" "ms_notified t = ms_notified t1"
    using assms(1) by (auto simp: HE_Destroy_def Let_def obind_eq_Ret hfields_def split: if_splits)
  note m = headset_message [OF assms(2,3) h(1)]
  obtain e where e: "headset_at HH W e (s, p)" using assms(2) by (auto simp: headset_inv_def)
  have "CurrState t1 \<le> 2"
  proof (cases "CurrState s \<le> 2")
    case True
    then show ?thesis using m(3) by (simp add: wmsg_def)
  next
    case False
    have ft: "headset_fit HH W e s" "e \<noteq> ST_IDLE"
      using e False by (auto simp: machine_at_def machine_fit_def CurrState_def)
    have c: "hhandlers HH W e (wevent_id EV_RELEASE) = Some (HE_HandleRelease HH)"
      using ft(2) by (cases e) (simp_all add: hhandlers_def hlive_handlers_def)
    have n: "h_ret (HE_HandleRelease HH m n u) = 0" "h_next (HE_HandleRelease HH m n u) = wstate_id ST_IDLE" for m n u
      by (simp_all add: HE_HandleRelease_def hresult_def Let_def)
    have "HandleMsg now (wmsg EV_RELEASE WNull None) s = Ret (r, t1)"
      using h(1) ft(1) by (simp add: HE_Handle_def machine_fit_def IsStatesInitSucc_def)
    with hframe.call [OF ft(1), of "wmsg EV_RELEASE WNull None" "HE_HandleRelease HH" ST_IDLE now] c n
    have "machine_fit wstate_id (htable HH W) hfields_ok ST_IDLE t1" by (auto simp: wmsg_def simp del: wevent_id.simps)
    then show ?thesis by (simp add: machine_fit_def CurrState_def)
  qed
  then show ?thesis using m(1,2) h(2) by (auto simp: tell_def)
qed

lemma grelease_rests:
  assumes "GE_Destroy now s = Ret (b, t)" "glasses_inv W (s, p)" "ms_listener s"
  shows "heard s t \<and> CurrState t \<le> 2 \<and> glasses_inv W (t, p)"
proof -
  obtain r where h: "GE_Handle now (wmsg EV_RELEASE WNull None) s = Ret (r, t)"
    using assms(1) by (auto simp: GE_Destroy_def obind_eq_Ret)
  note m = glasses_message [OF assms(2,3) h(1)]
  obtain e where e: "glasses_at W e (s, p)" using assms(2) by (auto simp: glasses_inv_def)
  have "CurrState t \<le> 2"
  proof (cases "CurrState s \<le> 2")
    case True
    then show ?thesis using m(3) by (simp add: wmsg_def)
  next
    case False
    have ft: "machine_fit wstate_id (gtable W) gfields_ok e s" "e \<noteq> ST_IDLE"
      using e False by (auto simp: machine_at_def machine_fit_def CurrState_def)
    have c: "ghandlers W e (wevent_id EV_RELEASE) = Some GE_HandleRelease"
      using ft(2) by (cases e) (simp_all add: ghandlers_def glive_handlers_def)
    have n: "h_ret (GE_HandleRelease m n u) = 0" "h_next (GE_HandleRelease m n u) = wstate_id ST_IDLE" for m n and u :: "'a glasses_fields"
      by (simp_all add: GE_HandleRelease_def gresult_def)
    have "HandleMsg now (wmsg EV_RELEASE WNull None) s = Ret (r, t)"
      using h(1) ft(1) by (simp add: GE_Handle_def machine_fit_def IsStatesInitSucc_def)
    with gframe.call [OF ft(1), of "wmsg EV_RELEASE WNull None" GE_HandleRelease ST_IDLE now] c n
    have "machine_fit wstate_id (gtable W) gfields_ok ST_IDLE t" by (auto simp: wmsg_def simp del: wevent_id.simps)
    then show ?thesis by (simp add: machine_fit_def CurrState_def)
  qed
  then show ?thesis using m(1,2) by simp
qed

lemma ReleaseEngineImpl_inv:
  assumes "facade_inv HP HH W f" "ReleaseEngineImpl now dm f = Ret g"
  shows "facade_inv HP HH W g \<and> accessory (fc_impl g) = None"
proof (cases "fc_impl f")
  case (ImplHeadset x)
  then obtain s p b t where d: "fc_impl f = ImplHeadset (s, p)" "HE_Destroy now dm s = Ret (b, t)" "g = (tell s t f)\<lparr>fc_impl := ImplNone\<rparr>"
    using assms(2) by (cases x) (auto simp: ReleaseEngineImpl_def obind_eq_Ret)
  have i: "headset_inv HH W (s, p)" "ms_listener s" "not_start p" using assms(1) d(1) by (simp_all add: facade_inv_def)
  obtain t1 where t1: "heard s t1" "CurrState t1 \<le> 2" "tell s t f = tell s t1 f" "headset_inv HH W (t1, p)"
    using release_rests [OF d(2) i(1,2)] by auto
  have "facade_inv HP HH W ((tell s t1 f)\<lparr>fc_impl := ImplHeadset (t1, p)\<rparr>)" using headset_put [OF assms(1) d(1) t1(1,4) i(3)] t1(2) by simp
  from drop_resting [OF this, of ImplNone] t1(2) show ?thesis by (simp add: d(3) t1(3))
next
  case (ImplGlasses x)
  then obtain s p b t where d: "fc_impl f = ImplGlasses (s, p)" "GE_Destroy now s = Ret (b, t)" "g = (tell s t f)\<lparr>fc_impl := ImplNone\<rparr>"
    using assms(2) by (cases x) (auto simp: ReleaseEngineImpl_def obind_eq_Ret)
  have i: "glasses_inv W (s, p)" "ms_listener s" "not_start p" using assms(1) d(1) by (simp_all add: facade_inv_def)
  have t: "heard s t" "CurrState t \<le> 2" "glasses_inv W (t, p)" using grelease_rests [OF d(2) i(1,2)] by auto
  have "facade_inv HP HH W ((tell s t f)\<lparr>fc_impl := ImplGlasses (t, p)\<rparr>)" using glasses_put [OF assms(1) d(1) t(1,3) i(3)] t(2) by simp
  from drop_resting [OF this, of ImplNone] t(2) show ?thesis by (simp add: d(3))
qed (use assms in \<open>simp_all add: ReleaseEngineImpl_def\<close>)

lemma Update_inv:
  assumes "facade_inv HP HH W f" "UpdateWakeupEngineImpl HH W now E info f = Ret (r, g)"
  shows "facade_inv HP HH W g"
proof -
  obtain f1 r1 where f1: "ReleaseEngineImpl now (ae_devmgr E) f = Ret f1" "CreateEngineImpl HH W now E (f1\<lparr>fc_wakeupDevice := info\<rparr>) = Ret (r1, g)"
    using assms(2) by (auto simp: UpdateWakeupEngineImpl_def obind_eq_Ret)
  from ReleaseEngineImpl_inv [OF assms(1) f1(1)] show ?thesis by (intro CreateEngineImpl_inv [OF _ _ f1(2)]) simp_all
qed

subsection \<open>Detections\<close>

lemma machine_at_process:
  "machine_at sid tab fok e (s\<lparr>ms_processType := ty\<rparr>, p) = machine_at sid tab fok e (s, p)"
  "machine_at sid tab fok e (s\<lparr>ms_listener := l\<rparr>, p) = machine_at sid tab fok e (s, p)"
  "machine_fit sid tab fok e (s\<lparr>ms_processType := ty\<rparr>) = machine_fit sid tab fok e s"
  by (simp_all add: machine_at_def machine_fit_def tables_ok_def timeout_pending_def ms_inv_def armed_by_current_def tables_unarmed_def)

lemma wakeup_inv_process: "wakeup_inv HP W (s\<lparr>ms_processType := ty\<rparr>, p) = wakeup_inv HP W (s, p)"
  by (simp add: wakeup_inv_def machine_at_process)

lemma wakeup_inv_ctx: "wakeup_inv HP W (s, p) \<Longrightarrow> (\<And>x. mic_users (h x) = mic_users x) \<Longrightarrow> wakeup_inv HP W (s\<lparr>ms_self := on_ctx h (ms_self s)\<rparr>, p)"
  unfolding wakeup_inv_def by (erule exE, rule exI, erule self_at) (simp add: view_ctx)

lemma phone_ctx_inv:
  assumes "facade_inv HP HH W f" "fc_default f = (s, p)" "\<And>x. mic_users (h x) = mic_users x"
  shows "facade_inv HP HH W (f\<lparr>fc_default := (s\<lparr>ms_self := on_ctx h (ms_self s)\<rparr>, p)\<rparr>)"
  using assms wakeup_inv_ctx [of HP W s p h] by (simp add: facade_inv_def phone_ok_def CurrState_def)

lemma CloseSource_inv: "facade_inv HP HH W f \<Longrightarrow> facade_inv HP HH W (CloseSource f)"
  using phone_ctx_inv [of HP HH W f _ _ "emit CloseWakeupSource"] by (cases "fc_default f") (simp add: CloseSource_def mic_users_emit)

lemma detect_default_inv:
  assumes "facade_inv HP HH W f" "fc_curState f \<le> 2" "detect_default now uuid f = Ret g"
  shows "facade_inv HP HH W g"
proof -
  obtain s p where s: "fc_default f = (s, p)" by (cases "fc_default f")
  obtain ev ty where ty: "GetEventValue uuid s = (ev, s\<lparr>ms_processType := ty\<rparr>)" "phone_type ty" "ty \<noteq> PROCESS_IDLE"
    by (simp add: GetEventValue_def phone_type_def split: if_splits) (metis ProcessType.distinct)
  let ?s = "s\<lparr>ms_processType := ty\<rparr>" and ?f = "start_ability ev 0 f"
  obtain b t where t: "OnTriggerDetected now uuid ?s = Ret (b, t)" "g = (tell ?s t ?f)\<lparr>fc_default := (t, p)\<rparr>"
    using assms(3) s ty(1) by (auto simp: detect_default_def obind_eq_Ret)
  have i: "wakeup_inv HP W (?s, p)" "ms_listener ?s" "not_start p" using assms(1) s by (simp_all add: facade_inv_def phone_ok_def wakeup_inv_process)
  obtain r t1 where h: "WE_Handle now (wmsg EV_START_RECOGNIZE (WInt uuid) None) ?s = Ret (r, t1)" "heard ?s t = heard ?s t1"
    using t(1) by (auto simp: OnTriggerDetected_def obind_eq_Ret heard_self)
  then have hd: "heard ?s t" using phone_message(1) [OF i(1,2) h(1)] by simp
  have iv: "wakeup_inv HP W (t, p)" using wakeup.step_inv [OF i(1) w_detected [OF t(1)]] .
  have "follows (cur f) (CurrState s, ms_processType s) (accessory (fc_impl f))" using assms(1) s by (simp add: facade_inv_def)
  from follows_start_phone [OF this, of ty "CurrState t"] ty(2,3) assms(2)
  have "follows (moved (CurrState s) (CurrState t) ty (cur f)) (CurrState t, ty) (accessory (fc_impl f))" by simp
  moreover have "cur (tell ?s t ?f) = moved (CurrState s) (CurrState t) ty (cur f)"
    using tell_cur [OF hd, of ?f] by (simp add: start_ability_def CurrState_def)
  ultimately show ?thesis using assms(1) iv hd i(3) unfolding t(2) by (simp add: facade_inv_def phone_ok_def heard_def start_ability_def)
qed

lemma detect_headset_inv:
  assumes "facade_inv HP HH W f" "fc_curState f \<le> 2" "fc_impl f = ImplHeadset (s, p)" "HE_OnTriggerDetected now s = Ret t"
  shows "facade_inv HP HH W ((tell s t f)\<lparr>fc_impl := ImplHeadset (t, p)\<rparr>)"
proof -
  have i: "headset_inv HH W (s, p)" "ms_listener s" "not_start p" using assms(1,3) by (simp_all add: facade_inv_def)
  obtain r where h: "HE_Handle now (wmsg EV_START_RECOGNIZE WNull None) s = Ret (r, t)"
    using assms(4) by (auto simp: HE_OnTriggerDetected_def obind_eq_Ret)
  note m = headset_message(1,2) [OF i(1,2) h]
  have "follows (cur f) (face (fst (fc_default f))) (Some (CurrState s, ms_processType s))" using assms(1,3) by (simp add: facade_inv_def)
  from follows_start_accessory [OF this, of "CurrState t"] assms(2) tell_cur [OF m(1), of f] show ?thesis
    using assms(1) m i(3) by (simp add: facade_inv_def heard_def)
qed

lemma detect_glasses_inv:
  assumes "facade_inv HP HH W f" "fc_curState f \<le> 2" "fc_impl f = ImplGlasses (s, p)" "GE_OnTriggerDetected now need s = Ret t"
  shows "facade_inv HP HH W ((tell s t f)\<lparr>fc_impl := ImplGlasses (t, p)\<rparr>)"
proof -
  let ?s = "gfields (\<lambda>u. u\<lparr>gf_needSecondStageWakeup := need\<rparr>) s"
  have s: "glasses_inv W (s, p)" "ms_listener s" "not_start p" using assms(1,3) by (simp_all add: facade_inv_def)
  have i: "glasses_inv W (?s, p)" by (rule gfields_inv [OF s(1)]) simp
  have l: "ms_listener ?s" using s(2) by (simp add: gfields_def)
  obtain r where h: "GE_Handle now (wmsg EV_START_RECOGNIZE WNull None) ?s = Ret (r, t)"
    using assms(4) by (auto simp: GE_OnTriggerDetected_def obind_eq_Ret)
  note m = glasses_message(1,2) [OF i l h]
  have hd: "heard s t" using m(1) by (simp add: gfields_def heard_self)
  have "follows (cur f) (face (fst (fc_default f))) (Some (CurrState s, ms_processType s))" using assms(1,3) by (simp add: facade_inv_def)
  from follows_start_accessory [OF this, of "CurrState t"] assms(2) tell_cur [OF hd, of f] show ?thesis
    using assms(1) m(2) hd s(3) by (simp add: facade_inv_def heard_def)
qed

lemma start_ability_frames [simp]:
  "fc_default (start_ability ev n f) = fc_default f" "fc_impl (start_ability ev n f) = fc_impl f" "fc_curState (start_ability ev n f) = fc_curState f"
  "fc_curProcess (start_ability ev n f) = fc_curProcess f" "facade_inv HP HH W (start_ability ev n f) = facade_inv HP HH W f"
  by (simp_all add: start_ability_def)

lemma OnTrigger_inv:
  assumes "facade_inv HP HH W f" "FC_OnTriggerDetected now uuid mac ev f = Ret (r, g)"
  shows "facade_inv HP HH W g"
proof (cases "ProcessCheck f")
  case False
  then show ?thesis using assms CloseSource_inv by (auto simp: FC_OnTriggerDetected_def split: if_splits)
next
  case True
  then have c: "fc_curState f \<le> 2" by (simp add: ProcessCheck_def)
  show ?thesis
  proof (cases "uuid = PROXIMAL_WAKEUP_MODEL_UUID")
    case P: True
    then have "detect_default now uuid f = Ret g" using assms(2) True by (auto simp: FC_OnTriggerDetected_def OnWispherDetected_def obind_eq_Ret)
    then show ?thesis using detect_default_inv assms(1) c by blast
  next
    case False
    then have w: "OnWakeupDetected now uuid mac ev f = Ret (r, g)" using assms(2) True by (simp add: FC_OnTriggerDetected_def)
    show ?thesis
    proof (cases "mac = wd_macAddress (fc_wakeupDevice f)")
      case False
      then show ?thesis using w assms(1) CloseSource_inv by (auto simp: OnWakeupDetected_def split: if_splits)
    next
      case mac: True
      show ?thesis
      proof (cases "fc_impl f")
        case ImplNone
        then show ?thesis using w mac assms(1) by (simp add: OnWakeupDetected_def)
      next
        case ImplDefault
        then have "detect_default now uuid f = Ret g" using w mac by (auto simp: OnWakeupDetected_def obind_eq_Ret)
        then show ?thesis using detect_default_inv assms(1) c by blast
      next
        case (ImplHeadset x)
        then obtain t where "HE_OnTriggerDetected now (fst x) = Ret t"
          "g = (tell (fst x) t (start_ability ''headset_event'' (ev_endFrameIndex ev) f))\<lparr>fc_impl := ImplHeadset (t, snd x)\<rparr>"
          using w mac by (cases x) (auto simp: OnWakeupDetected_def obind_eq_Ret)
        then show ?thesis using detect_headset_inv [of HP HH W "start_ability ''headset_event'' (ev_endFrameIndex ev) f" "fst x" "snd x"] assms(1) c ImplHeadset by simp
      next
        case (ImplGlasses x)
        then obtain t where "GE_OnTriggerDetected now (wd_needSecondStageWakeup (fc_wakeupDevice f)) (fst x) = Ret t"
          "g = (tell (fst x) t (start_ability ''ai_glasses_event'' (ev_endFrameIndex ev) f))\<lparr>fc_impl := ImplGlasses (t, snd x)\<rparr>"
          using w mac by (cases x) (auto simp: OnWakeupDetected_def obind_eq_Ret)
        then show ?thesis using detect_glasses_inv [of HP HH W "start_ability ''ai_glasses_event'' (ev_endFrameIndex ev) f" "fst x" "snd x"] assms(1) c ImplGlasses by simp
      qed
    qed
  qed
qed

lemma OnDetected_inv:
  assumes "facade_inv HP HH W f" "WK_OnDetected W now uuid f = Ret g"
  shows "facade_inv HP HH W g"
proof -
  obtain s p where s: "fc_default f = (s, p)" by (cases "fc_default f")
  have q: "mic_users (x\<lparr>cx_track := tk\<rparr>) = mic_users x" for tk and x :: "'a engine_ctx" by (simp add: mic_users_def)
  define G where "G st = f\<lparr>fc_default := (s\<lparr>ms_self := on_ctx (\<lambda>x. x\<lparr>cx_track :=
      snd (reportWakeupStart W st WAKEUP_RESULT_DEFAULT WAKEUP_ERROR_CODE_END (cx_track x))\<rparr>) (ms_self s)\<rparr>, p)\<rparr>" for st
  have G: "facade_inv HP HH W (G st)" for st unfolding G_def by (rule phone_ctx_inv [OF assms(1) s]) (simp add: q)
  obtain g0 r where "g0 = f \<or> (\<exists>st. g0 = G st)"
    "FC_OnTriggerDetected now uuid DEFAULT_MAC_ADDRESS \<lparr>ev_wakeupEvent = 0, ev_endFrameIndex = 0\<rparr> g0 = Ret (r, g)"
    using assms(2) s by (auto simp: WK_OnDetected_def Let_def obind_eq_Ret simp flip: G_def split: if_splits)
  then show ?thesis using assms(1) G OnTrigger_inv by blast
qed

subsection \<open>The engines' own steps\<close>

lemma unmoved:
  assumes "ms_listener s"
  shows "heard s (s\<lparr>ms_tm := tm\<rparr>) \<and> (CurrState (s\<lparr>ms_tm := tm\<rparr>) \<le> 2 \<or> CurrState s > 2)"
    "heard s (s\<lparr>ms_self := u\<rparr>) \<and> (CurrState (s\<lparr>ms_self := u\<rparr>) \<le> 2 \<or> CurrState s > 2)"
  using assms linorder_not_le by (auto simp: heard_def CurrState_def)

lemma phone_own_step:
  assumes "phone_own HP W (s, p) (t, q)" "wakeup_inv HP W (s, p)" "ms_listener s" "not_start p"
  shows "heard s t \<and> wakeup_inv HP W (t, q) \<and> not_start q \<and> (CurrState t \<le> 2 \<or> CurrState s > 2)"
  using assms(1)
proof (cases rule: phone_own.cases)
  case (po_initdone now res r)
  then show ?thesis using phone_message [OF assms(2,3), of now _ r t] assms(4) by (simp add: OnInitDone_def)
next
  case (po_recognition now res info r)
  let ?s = "s\<lparr>ms_self := on_ctx (report_track W WAKEUP_STAGE_SA_RECOGNIZED WAKEUP_RESULT_DEFAULT WAKEUP_ERROR_CODE_END) (ms_self s)\<rparr>"
  have "wakeup_inv HP W (?s, p)" by (rule wakeup_inv_ctx [OF assms(2)]) simp
  from phone_message [OF this, of now _ r t] po_recognition assms(3,4) show ?thesis
    by (simp add: OnWakeupRecognition_def heard_self CurrState_def)
next
  case (po_frame buf isEnd)
  then show ?thesis using wakeup.step_inv [OF assms(2) w_frame, of buf isEnd] unmoved(2) [OF assms(3)] assms(4) by blast
next
  case po_end
  then show ?thesis using wakeup.step_inv [OF assms(2) w_end] unmoved(2) [OF assms(3)] assms(4) by blast
next
  case (po_world k h a)
  then show ?thesis using wakeup.step_inv [OF assms(2) w_world, of k h a] unmoved(2) [OF assms(3)] assms(4) by blast
next
  case (po_take now e ob tm)
  obtain e0 where "wakeup_at HP W e0 (s, None)" using assms(2) po_take by (auto simp: wakeup_inv_def)
  then have "te_type e \<noteq> wevent_id EV_START_RECOGNIZE" using wtrack.taken_not_start po_take by blast
  moreover have "wakeup_inv HP W (t, q)" using wakeup.step_inv [OF _ w_take [OF po_take(4)], of HP W] assms(2) po_take(1-3) by simp
  ultimately show ?thesis using unmoved(1) [OF assms(3), of tm] po_take(2,3) by (simp add: not_start_def)
next
  case (po_deliver now e)
  obtain r where m: "HandleMsg now \<lparr>msgId = te_type e, inMsg = TimerMsg e\<rparr> s = Ret (r, t)"
    using po_deliver by (auto simp: OnTimerEvent_def obind_eq_Ret)
  obtain e0 where ft: "wakeup_fit HP W e0 s" using assms(2) by (auto simp: wakeup_inv_def machine_at_def)
  have "CurrState s \<le> 2 \<Longrightarrow> CurrState t \<le> 2"
    using wtrack.rest_message [OF ft m] assms(4) po_deliver(1) by (simp add: not_start_def)
  moreover have "wakeup_inv HP W (t, None)" using wakeup.step_inv [OF _ w_deliver [OF po_deliver(3)], of HP W] assms(2) po_deliver by simp
  ultimately show ?thesis using heard_OnTimerEvent [OF _ assms(3)] po_deliver by (auto simp: not_start_def)
qed

lemma headset_own_step:
  assumes "headset_own HH (s, p) (t, q)" "headset_inv HH W (s, p)" "ms_listener s" "not_start p"
  shows "heard s t \<and> headset_inv HH W (t, q) \<and> not_start q \<and> (CurrState t \<le> 2 \<or> CurrState s > 2)"
  using assms(1)
proof (cases rule: headset_own.cases)
  case (ho_initdone now res)
  then obtain r where "HE_Handle now (wmsg EV_INIT_DONE (WInt res) None) s = Ret (r, t)" by (auto simp: HE_OnInitDone_def obind_eq_Ret)
  from headset_message [OF assms(2,3) this] ho_initdone assms(4) show ?thesis by simp
next
  case (ho_recognition now res info)
  then obtain r m where "HE_Handle now (wmsg EV_RECOGNIZE_COMPLETE m None) s = Ret (r, t)" by (auto simp: HE_OnWakeupRecognition_def obind_eq_Ret)
  from headset_message [OF assms(2,3) this] ho_recognition assms(4) show ?thesis by simp
next
  case (ho_round a u)
  then show ?thesis using headset.step_inv [OF assms(2) h_round, of a u] unmoved(2) [OF assms(3)] assms(4) by blast
next
  case (ho_world k h a)
  then show ?thesis using headset.step_inv [OF assms(2) h_world] unmoved(2) [OF assms(3)] assms(4) unfolding hfields_def by blast
next
  case (ho_take now e ob tm)
  obtain e0 where "headset_at HH W e0 (s, None)" using assms(2) ho_take by (auto simp: headset_inv_def)
  then have "te_type e \<noteq> wevent_id EV_START_RECOGNIZE" using htrack.taken_not_start ho_take by blast
  moreover have "headset_inv HH W (t, q)" using headset.step_inv [OF _ h_take [OF ho_take(4)]] assms(2) ho_take(1-3) by simp
  ultimately show ?thesis using unmoved(1) [OF assms(3), of tm] ho_take(2,3) by (simp add: not_start_def)
next
  case (ho_deliver now e)
  obtain r where m: "HandleMsg now \<lparr>msgId = te_type e, inMsg = TimerMsg e\<rparr> s = Ret (r, t)"
    using ho_deliver by (auto simp: OnTimerEvent_def obind_eq_Ret)
  obtain e0 where ft: "headset_fit HH W e0 s" using assms(2) by (auto simp: headset_inv_def machine_at_def)
  have "CurrState s \<le> 2 \<Longrightarrow> CurrState t \<le> 2"
    using htrack.rest_message [OF ft m] assms(4) ho_deliver(1) by (simp add: not_start_def)
  moreover have "headset_inv HH W (t, None)" using headset.step_inv [OF _ h_deliver [OF ho_deliver(3)]] assms(2) ho_deliver by simp
  ultimately show ?thesis using heard_OnTimerEvent [OF _ assms(3)] ho_deliver by (auto simp: not_start_def)
qed

lemma glasses_own_step:
  assumes "glasses_own (s, p) (t, q)" "glasses_inv W (s, p)" "ms_listener s" "not_start p"
  shows "heard s t \<and> glasses_inv W (t, q) \<and> not_start q \<and> (CurrState t \<le> 2 \<or> CurrState s > 2)"
  using assms(1)
proof (cases rule: glasses_own.cases)
  case (go_recognition now res info)
  then obtain r m where "GE_Handle now (wmsg EV_RECOGNIZE_COMPLETE m None) s = Ret (r, t)" by (auto simp: GE_OnWakeupRecognition_def obind_eq_Ret)
  from glasses_message [OF assms(2,3) this] go_recognition assms(4) show ?thesis by simp
next
  case (go_round a)
  then show ?thesis using glasses.step_inv [OF assms(2) g_round, of a] unmoved(2) [OF assms(3)] assms(4) unfolding gfields_def by blast
next
  case (go_world a)
  then show ?thesis using glasses.step_inv [OF assms(2) g_world, of a] unmoved(2) [OF assms(3)] assms(4) unfolding gfields_def by blast
next
  case (go_take now e ob tm)
  obtain e0 where "glasses_at W e0 (s, None)" using assms(2) go_take by (auto simp: glasses_inv_def)
  then have "te_type e \<noteq> wevent_id EV_START_RECOGNIZE" using gtrack.taken_not_start go_take by blast
  moreover have "glasses_inv W (t, q)" using glasses.step_inv [OF _ g_take [OF go_take(4)], of W] assms(2) go_take(1-3) by simp
  ultimately show ?thesis using unmoved(1) [OF assms(3), of tm] go_take(2,3) by (simp add: not_start_def)
next
  case (go_deliver now e)
  obtain r where m: "HandleMsg now \<lparr>msgId = te_type e, inMsg = TimerMsg e\<rparr> s = Ret (r, t)"
    using go_deliver by (auto simp: OnTimerEvent_def obind_eq_Ret)
  obtain e0 where ft: "machine_fit wstate_id (gtable W) gfields_ok e0 s" using assms(2) by (auto simp: glasses_inv_def machine_at_def)
  have "CurrState s \<le> 2 \<Longrightarrow> CurrState t \<le> 2"
    using gtrack.rest_message [OF ft m] assms(4) go_deliver(1) by (simp add: not_start_def)
  moreover have "glasses_inv W (t, None)" using glasses.step_inv [OF _ g_deliver [OF go_deliver(3)], of W] assms(2) go_deliver by simp
  ultimately show ?thesis using heard_OnTimerEvent [OF _ assms(3)] go_deliver by (auto simp: not_start_def)
qed

subsection \<open>The system\<close>

lemma facade_started:
  assumes "facade_start HP HH W f"
  shows "facade_inv HP HH W f"
proof -
  obtain now pt this c E cb D D1 where pt: "phone_type pt" and c: "cx_calls c = []"
    and i: "Init HP HH W now True pt this c E cb D = Ret (True, D1, Some f)"
    using assms by (auto simp: facade_start_def)
  let ?s = "(wakeup_new HP W (\<lambda>_. True) True this c)\<lparr>ms_listener := True, ms_processType := pt\<rparr>"
  obtain r t where t: "WE_Handle now (wmsg EV_INIT WNull None) ?s = Ret (r, t)" "InitDefaultImpl HP W now True pt this c = Ret (if r \<noteq> 0 then (-1, None) else (0, Some t))"
    using i by (auto simp: Init_def InitDefaultImpl_def obind_eq_Ret split: if_splits)
  obtain cbid f0 r1 where f0: "f0 = \<lparr>fc_default = (t, None), fc_impl = ImplNone, fc_wakeupDevice = ed_wakeupDevice (snd (RegisterDeviceChangeCb cb D)), fc_callback = None,
      fc_curState = 0, fc_curProcess = PROCESS_IDLE, fc_deviceChangeCbId = cbid, fc_started = []\<rparr>" "CreateEngineImpl HH W now E f0 = Ret (r1, f)"
    using i t(2) by (auto simp: Init_def Let_def obind_eq_Ret split: option.splits prod.splits if_splits)
  have "wakeup_at HP W ST_IDLE (wakeup_new HP W (\<lambda>_. True) True this c, None)" by (rule wakeup_started) (use c in \<open>unfold wakeup_start_def, blast\<close>)
  then have at: "wakeup_at HP W ST_IDLE (?s, None)" by (simp add: machine_at_process)
  then have "wakeup_inv HP W (?s, None)" unfolding wakeup_inv_def by blast
  from phone_message [OF this _ t(1)] have m: "heard ?s t" "wakeup_inv HP W (t, None)" "CurrState t \<le> 2 \<or> CurrState ?s > 2" by simp_all
  moreover have "CurrState ?s = 0" using at by (simp add: machine_at_def machine_fit_def CurrState_def)
  ultimately have "facade_inv HP HH W f0"
    using pt by (simp add: f0(1) facade_inv_def phone_ok_def not_start_def heard_def)
  from CreateEngineImpl_inv [OF this _ f0(2)] show ?thesis by (simp add: f0(1))
qed

interpretation facade: invariant_system "facade_start HP HH W" "facade_step HP HH W" "facade_inv HP HH W" for HP HH W
proof (unfold_locales, goal_cases)
  case (1 f)
  then show ?case using facade_started by blast
next
  case (2 f g)
  from 2(2) show ?case
  proof (cases rule: facade_step.cases)
    case (fs_phone s p t q)
    have "wakeup_inv HP W (s, p)" "ms_listener s" "not_start p" using 2(1) fs_phone(2) by (simp_all add: facade_inv_def phone_ok_def)
    from phone_own_step [OF fs_phone(3) this] phone_put [OF 2(1) fs_phone(2)] show ?thesis unfolding fs_phone(1) by blast
  next
    case (fs_headset s p t q)
    have "headset_inv HH W (s, p)" "ms_listener s" "not_start p" using 2(1) fs_headset(2) by (simp_all add: facade_inv_def)
    from headset_own_step [OF fs_headset(3) this] headset_put [OF 2(1) fs_headset(2)] show ?thesis unfolding fs_headset(1) by blast
  next
    case (fs_glasses s p t q)
    have "glasses_inv W (s, p)" "ms_listener s" "not_start p" using 2(1) fs_glasses(2) by (simp_all add: facade_inv_def)
    from glasses_own_step [OF fs_glasses(3) this] glasses_put [OF 2(1) fs_glasses(2)] show ?thesis unfolding fs_glasses(1) by blast
  next
    case fs_device
    then show ?thesis using Update_inv 2(1) by blast
  next
    case fs_detected
    then show ?thesis using OnDetected_inv 2(1) by blast
  next
    case fs_notify
    then show ?thesis using OnTrigger_inv 2(1) by (simp add: NotifyDeviceWakeupEvent_def)
  next
    case fs_callback
    then show ?thesis using SaveCallback_inv 2(1) by (simp add: WK_SetCallback_def)
  qed (use Handle_inv [OF 2(1)] in \<open>auto simp: WK_StartCapturer_def WK_Read_def WK_StopCapturer_def WK_Detach_def WK_SetParameter_def
      WK_GetParameter_def WK_Stop_def WK_GetWakeupPcm_def WK_ResetAdapter_def WK_ReleaseAdapter_def obind_eq_Ret split: if_splits\<close>)
qed

section \<open>Properties\<close>

definition in_session :: "'a facade \<Rightarrow> bool" where
  "in_session f \<longleftrightarrow> CurrState (fst (fc_default f)) > wstate_id ST_INITIALIZED \<or>
     (\<exists>c ty. accessory (fc_impl f) = Some (c, ty) \<and> c > wstate_id ST_INITIALIZED)"

lemma fit_returns: "machine_fit sid tab fok e s \<Longrightarrow> \<exists>r t. HandleMsg now msg s = Ret (r, t)"
  using HandleMsg_returns [of s now msg] by (auto simp: machine_fit_def tables_ok_def)

lemma engines_return:
  "wakeup_inv HP W (s, p) \<Longrightarrow> \<exists>r t. WE_Handle now msg s = Ret (r, t)" "headset_inv HH W (h, q) \<Longrightarrow> \<exists>r t. HE_Handle now msg h = Ret (r, t)"
  "glasses_inv W (g, k) \<Longrightarrow> \<exists>r t. GE_Handle now msg g = Ret (r, t)"
  using fit_returns
  by (fastforce simp: wakeup_inv_def headset_inv_def glasses_inv_def machine_at_def WE_Handle_def HE_Handle_def GE_Handle_def)+

lemma detect_returns:
  assumes "facade_inv HP HH W f"
  shows "\<exists>g. detect_default now uuid f = Ret g"
proof -
  obtain s p where s: "fc_default f = (s, p)" by (cases "fc_default f")
  obtain ev ty where ty: "GetEventValue uuid s = (ev, s\<lparr>ms_processType := ty\<rparr>)" by (simp add: GetEventValue_def split: if_splits) metis
  have "wakeup_inv HP W (s\<lparr>ms_processType := ty\<rparr>, p)" using assms s by (simp add: facade_inv_def phone_ok_def wakeup_inv_process)
  then obtain r t where "WE_Handle now (wmsg EV_START_RECOGNIZE (WInt uuid) None) (s\<lparr>ms_processType := ty\<rparr>) = Ret (r, t)"
    using engines_return(1) by blast
  then show ?thesis by (simp add: detect_default_def s ty OnTriggerDetected_def)
qed

lemma OnTrigger_returns:
  assumes "facade_inv HP HH W f" "ProcessCheck f"
  shows "\<exists>r g. FC_OnTriggerDetected now uuid mac ev f = Ret (r, g) \<and> r \<noteq> WAKEUP_PROCESSING"
proof -
  obtain g where d: "detect_default now uuid f = Ret g" using detect_returns [OF assms(1)] by blast
  have "\<exists>r g. OnWakeupDetected now uuid mac ev f = Ret (r, g) \<and> r \<noteq> WAKEUP_PROCESSING"
  proof (cases "fc_impl f")
    case (ImplHeadset x)
    then have "headset_inv HH W (fst x, snd x)" using assms(1) by (simp add: facade_inv_def)
    then obtain r t where "HE_Handle now (wmsg EV_START_RECOGNIZE WNull None) (fst x) = Ret (r, t)" using engines_return(2) by blast
    then show ?thesis using ImplHeadset
      by (cases x) (simp add: OnWakeupDetected_def HE_OnTriggerDetected_def SUCCESS_def DEVICE_ERROR_def WAKEUP_PROCESSING_def)
  next
    case (ImplGlasses x)
    let ?g = "gfields (\<lambda>u. u\<lparr>gf_needSecondStageWakeup := wd_needSecondStageWakeup (fc_wakeupDevice f)\<rparr>) (fst x)"
    have "glasses_inv W (?g, snd x)" using assms(1) ImplGlasses by (intro gfields_inv) (simp_all add: facade_inv_def)
    then obtain r t where "GE_Handle now (wmsg EV_START_RECOGNIZE WNull None) ?g = Ret (r, t)" using engines_return(3) by blast
    then show ?thesis using ImplGlasses
      by (cases x) (simp add: OnWakeupDetected_def GE_OnTriggerDetected_def SUCCESS_def DEVICE_ERROR_def WAKEUP_PROCESSING_def)
  qed (use d in \<open>simp_all add: OnWakeupDetected_def SUCCESS_def DEVICE_ERROR_def WAKEUP_PROCESSING_def\<close>)
  then show ?thesis using assms(2) d
    by (cases "uuid = PROXIMAL_WAKEUP_MODEL_UUID") (auto simp: FC_OnTriggerDetected_def OnWispherDetected_def SUCCESS_def WAKEUP_PROCESSING_def)
qed

lemma session_known:
  assumes "facade_inv HP HH W f"
  shows "ProcessCheck f \<longleftrightarrow> \<not> in_session f"
proof (cases "accessory (fc_impl f)")
  case None
  then show ?thesis using assms by (auto simp: facade_inv_def in_session_def ProcessCheck_def split: if_splits)
next
  case (Some a)
  then show ?thesis using assms by (cases a) (auto simp: facade_inv_def in_session_def ProcessCheck_def split: if_splits)
qed

lemma CloseSource_frames:
  "fc_impl (CloseSource f) = fc_impl f" "fc_started (CloseSource f) = fc_started f" "cur (CloseSource f) = cur f"
  "face (fst (fc_default (CloseSource f))) = face (fst (fc_default f))"
  by (simp_all add: CloseSource_def CurrState_def split: prod.split)

text \<open>
  C27. However the calls of clients, detections by the phone and by accessories, changes of the wake-up device, drivers, capturing
  threads and timers interleave, at most one of the engine of the phone and the engine of the accessory is in a session; the facade's
  current state and process are exactly those of that engine, and idle when there is none. Every detection returns; it is refused with
  \<open>WAKEUP_PROCESSING\<close> exactly while a session is on, and then no engine, no ability and no process is touched. (The start
  assumes that the uninitialised \<open>processType_\<close> of the phone's engine is not the type of an accessory.)
\<close>

theorem wakeup_exclusive:
  assumes "reach (facade_start HP HH W) (facade_step HP HH W) f"
  defines "phone \<equiv> fst (fc_default f)"
  shows "(CurrState phone > wstate_id ST_INITIALIZED \<longrightarrow> cur f = face phone \<and> (\<forall>c ty. accessory (fc_impl f) = Some (c, ty) \<longrightarrow> c \<le> wstate_id ST_INITIALIZED)) \<and>
    (\<forall>c ty. accessory (fc_impl f) = Some (c, ty) \<longrightarrow> c > wstate_id ST_INITIALIZED \<longrightarrow> cur f = (c, ty) \<and> CurrState phone \<le> wstate_id ST_INITIALIZED) \<and>
    (\<not> in_session f \<longrightarrow> cur f = (wstate_id ST_IDLE, PROCESS_IDLE)) \<and>
    (\<exists>r g. FC_OnTriggerDetected now uuid mac ev f = Ret (r, g) \<and> (r = WAKEUP_PROCESSING \<longleftrightarrow> in_session f) \<and>
       (in_session f \<longrightarrow> fc_impl g = fc_impl f \<and> face (fst (fc_default g)) = face phone \<and> fc_started g = fc_started f \<and> cur g = cur f))"
proof (intro conjI)
  have inv: "facade_inv HP HH W f" using facade.reach_inv [OF assms(1)] .
  then have fol: "follows (cur f) (face phone) (accessory (fc_impl f))" by (simp add: facade_inv_def phone_def)
  show "CurrState phone > wstate_id ST_INITIALIZED \<longrightarrow> cur f = face phone \<and> (\<forall>c ty. accessory (fc_impl f) = Some (c, ty) \<longrightarrow> c \<le> wstate_id ST_INITIALIZED)"
    using fol by (cases "accessory (fc_impl f)") auto
  show "\<forall>c ty. accessory (fc_impl f) = Some (c, ty) \<longrightarrow> c > wstate_id ST_INITIALIZED \<longrightarrow> cur f = (c, ty) \<and> CurrState phone \<le> wstate_id ST_INITIALIZED"
    using fol by (cases "accessory (fc_impl f)") (auto split: if_splits)
  show "\<not> in_session f \<longrightarrow> cur f = (wstate_id ST_IDLE, PROCESS_IDLE)"
    using fol by (cases "accessory (fc_impl f)") (auto simp: in_session_def phone_def split: if_splits)
  show "\<exists>r g. FC_OnTriggerDetected now uuid mac ev f = Ret (r, g) \<and> (r = WAKEUP_PROCESSING \<longleftrightarrow> in_session f) \<and>
       (in_session f \<longrightarrow> fc_impl g = fc_impl f \<and> face (fst (fc_default g)) = face phone \<and> fc_started g = fc_started f \<and> cur g = cur f)"
  proof (cases "ProcessCheck f")
    case True
    then show ?thesis using OnTrigger_returns [OF inv True] session_known [OF inv] by auto
  next
    case False
    then show ?thesis using session_known [OF inv] CloseSource_frames [of f] by (simp add: FC_OnTriggerDetected_def phone_def)
  qed
qed

subsection \<open>A run\<close>

text \<open>The phone is the device and its driver accepts everything; a detection starts a session, then glasses become the device.\<close>

definition fdemo_env :: "unit accessory_env" where
  "fdemo_env = \<lparr>ae_alloc = True, ae_this = 8, ae_ctx = demo_ctx, ae_devmgr = True, ae_host = True\<rparr>"

definition fdemo_glasses :: WakeupDeviceDetail where
  "fdemo_glasses = detail_new 5 ''g'' \<lparr>wi_type = AI_GLASSES, wi_serviceName = ''s'', wi_parameters = ''''\<rparr>"

abbreviation fdemo_fields :: "unit wakeup_engine \<Rightarrow> bool" where
  "fdemo_fields s \<equiv> cx_answers (wf_ctx (ms_self s)) = demo_answers \<and> wf_adapterListener (ms_self s) = \<lparr>wl_cb = None, wl_historyEvent = None\<rparr>"

abbreviation fdemo_at :: "WakeupState \<Rightarrow> unit facade \<Rightarrow> bool" where
  "fdemo_at e f \<equiv> reach (facade_start demo_hdi demo_hdi demo_device) (facade_step demo_hdi demo_hdi demo_device) f \<and>
     wakeup_fit demo_hdi demo_device e (fst (fc_default f)) \<and> snd (fc_default f) = None \<and> fdemo_fields (fst (fc_default f)) \<and>
     fc_impl f = ImplDefault \<and> fc_callback f = None \<and> wd_macAddress (fc_wakeupDevice f) = DEFAULT_MAC_ADDRESS"

lemma fdemo_device:
  "wd_type (ed_wakeupDevice ddemo_new) = PHONE" "wd_macAddress (ed_wakeupDevice ddemo_new) = DEFAULT_MAC_ADDRESS" "ed_nextCallbackId ddemo_new = 1"
  by code_simp+

lemma fdemo_started: "\<exists>f. fdemo_at ST_INITIALIZING f"
proof -
  let ?W = demo_device and ?n = "wakeup_new demo_hdi demo_device (\<lambda>_. True) True 7 quiet_ctx"
  let ?s = "?n\<lparr>ms_listener := True, ms_processType := PROCESS_IDLE\<rparr>"
  have "wakeup_start demo_hdi ?W (?n, None)" unfolding wakeup_start_def by (intro exI [of _ 7] exI [of _ quiet_ctx]) (simp add: quiet_ctx_def)
  from wakeup_started [OF this] have "wakeup_at demo_hdi ?W ST_IDLE (?s, None)" by (simp add: machine_at_process)
  then have fit: "wakeup_fit demo_hdi ?W ST_IDLE ?s" by (simp add: machine_at_def)
  obtain v where v: "WE_HandleInit demo_hdi (wmsg EV_INIT WNull None) (wstate_id ST_IDLE) (wakeup_fields_new quiet_ctx) = wresult 0 (wstate_id ST_INITIALIZING) v"
    "cx_answers (wf_ctx v) = demo_answers" "wf_adapterListener v = \<lparr>wl_cb = None, wl_historyEvent = None\<rparr>" using demo_HandleInit by blast
  obtain t where t: "WE_Handle 0 (wmsg EV_INIT WNull None) ?s = Ret (0, t)" "ms_self t = v" "wakeup_fit demo_hdi ?W ST_INITIALIZING t"
    using wcall [OF fit, of "wmsg EV_INIT WNull None" "WE_HandleInit demo_hdi" 0 ST_INITIALIZING v 0] v(1)
    by (auto simp: wakeup_new_self whandlers_def simp del: wstate_id.simps)
  obtain f where f: "Init demo_hdi demo_hdi ?W 0 True PROCESS_IDLE 7 quiet_ctx fdemo_env 3 ddemo_new = Ret (True, snd (RegisterDeviceChangeCb 3 ddemo_new), Some f)"
    "fc_default f = (t, None)" "fc_impl f = ImplDefault" "fc_callback f = None" "wd_macAddress (fc_wakeupDevice f) = DEFAULT_MAC_ADDRESS"
    using t(1) by (auto simp: Init_def InitDefaultImpl_def RegisterDeviceChangeCb_def Let_def fdemo_device CreateEngineImpl_def pass_callback_def SUCCESS_def)
  have "facade_start demo_hdi demo_hdi ?W f"
    unfolding facade_start_def using f(1) by (intro exI [of _ 0] exI [of _ PROCESS_IDLE] exI [of _ 7] exI [of _ quiet_ctx]) (auto simp: phone_type_def quiet_ctx_def)
  then show ?thesis using f t v by (intro exI [of _ f]) (simp add: reach_start)
qed

lemma fdemo_initialized: "\<exists>f. fdemo_at ST_INITIALIZED f"
proof -
  obtain f where f: "fdemo_at ST_INITIALIZING f" using fdemo_started by blast
  obtain s where s: "fc_default f = (s, None)" using f by (cases "fc_default f") auto
  obtain t where t: "OnInitDone 0 0 s = Ret (0, t)" "ms_self t = on_ctx (emit (CommonEvent ''wakeupEngineInited'')) (ms_self s)"
    "wakeup_fit demo_hdi demo_device ST_INITIALIZED t"
    using wcall [of demo_hdi demo_device ST_INITIALIZING s "wmsg EV_INIT_DONE (WInt 0) None" WE_HandleInitDone 0 ST_INITIALIZED _ 0] f s
    by (auto simp: OnInitDone_def whandlers_def WE_HandleInitDone_def win_of_def wmsg_def simp del: wstate_id.simps)
  have "facade_step demo_hdi demo_hdi demo_device f ((tell s t f)\<lparr>fc_default := (t, None)\<rparr>)"
    by (rule fs_phone [OF s]) (rule po_initdone [OF t(1)])
  with f have "reach (facade_start demo_hdi demo_hdi demo_device) (facade_step demo_hdi demo_hdi demo_device) ((tell s t f)\<lparr>fc_default := (t, None)\<rparr>)"
    by (blast intro: reach_step)
  then show ?thesis using f s t by (intro exI [of _ "(tell s t f)\<lparr>fc_default := (t, None)\<rparr>"]) (simp add: on_ctx_def emit_def)
qed

lemma fdemo_recognizing: "\<exists>f. fdemo_at ST_RECOGNIZING f \<and> fc_curProcess f = PROCESS_WAKEUP_PHONE"
proof -
  obtain f where f: "fdemo_at ST_INITIALIZED f" using fdemo_initialized by blast
  obtain s where s: "fc_default f = (s, None)" using f by (cases "fc_default f") auto
  let ?s = "s\<lparr>ms_processType := PROCESS_WAKEUP_PHONE\<rparr>" and ?f = "start_ability ''recognition_event'' 0 f"
  have inv: "facade_inv demo_hdi demo_hdi demo_device f" using facade.reach_inv f by blast
  have c: "CurrState s = 2" using f s by (simp add: machine_fit_def CurrState_def)
  have pc: "ProcessCheck f" using session_known [OF inv] f s c by (simp add: in_session_def)
  have fit: "wakeup_fit demo_hdi demo_device ST_INITIALIZED ?s"
    using f s by (simp add: machine_at_process)
  then have "wf_adapter (ms_self ?s)" by (auto simp: machine_fit_def wfields_ok_def)
  then obtain v where v: "WE_HandleStart demo_hdi demo_device (wmsg EV_START_RECOGNIZE (WInt 1) None) (wstate_id ST_INITIALIZED) (ms_self ?s) = wresult 0 (wstate_id ST_RECOGNIZING) v"
    "cx_answers (wf_ctx v) = demo_answers" "wf_adapterListener v = \<lparr>wl_cb = None, wl_historyEvent = None\<rparr>"
    using demo_HandleStart [of "ms_self ?s" demo_device] f s by auto
  obtain t where t: "WE_Handle 0 (wmsg EV_START_RECOGNIZE (WInt 1) None) ?s = Ret (0, t)" "ms_self t = v" "wakeup_fit demo_hdi demo_device ST_RECOGNIZING t"
    using wcall [OF fit, of "wmsg EV_START_RECOGNIZE (WInt 1) None" "WE_HandleStart demo_hdi demo_device" 0 ST_RECOGNIZING v 0] v(1)
    by (auto simp: whandlers_def simp del: wstate_id.simps)
  let ?g = "(tell ?s t ?f)\<lparr>fc_default := (t, None)\<rparr>"
  have "detect_default 0 1 f = Ret ?g"
    using t(1) by (simp add: detect_default_def s GetEventValue_def PROXIMAL_WAKEUP_MODEL_UUID_def OnTriggerDetected_def)
  then have "NotifyDeviceWakeupEvent 0 DEFAULT_MAC_ADDRESS \<lparr>ev_wakeupEvent = 0, ev_endFrameIndex = 0\<rparr> f = Ret (SUCCESS, ?g)"
    using pc f by (simp add: NotifyDeviceWakeupEvent_def FC_OnTriggerDetected_def OnWakeupDetected_def VOICE_WAKEUP_MODEL_UUID_def PROXIMAL_WAKEUP_MODEL_UUID_def)
  then have "facade_step demo_hdi demo_hdi demo_device f ?g" by (rule fs_notify)
  with f have r: "reach (facade_start demo_hdi demo_hdi demo_device) (facade_step demo_hdi demo_hdi demo_device) ?g" by (blast intro: reach_step)
  have hd: "heard ?s t" using HandleMsg_heard [of 0 "wmsg EV_START_RECOGNIZE (WInt 1) None" ?s 0 t] Handle_HandleMsg [OF fit] t(1) inv s
    by (simp add: facade_inv_def phone_ok_def)
  have "CurrState t = 3" using t(3) by (simp add: machine_fit_def CurrState_def)
  then have "fc_curProcess ?g = PROCESS_WAKEUP_PHONE"
    using tell_heard [OF hd, of ?f] c pc by (simp add: OnStateChange_def ProcessCheck_def CurrState_def)
  moreover have "fdemo_at ST_RECOGNIZING ?g" using r f t v by (simp add: start_ability_def)
  ultimately show ?thesis by blast
qed

lemma wakeup_exclusive_witness:
  "\<exists>f. reach (facade_start demo_hdi demo_hdi demo_device) (facade_step demo_hdi demo_hdi demo_device) f \<and>
     cur f = (wstate_id ST_RECOGNIZING, PROCESS_WAKEUP_PHONE) \<and> (\<exists>g. FC_OnTriggerDetected 0 2 ''x'' \<lparr>ev_wakeupEvent = 0, ev_endFrameIndex = 0\<rparr> f = Ret (WAKEUP_PROCESSING, g))"
proof -
  obtain f where f: "fdemo_at ST_RECOGNIZING f" "fc_curProcess f = PROCESS_WAKEUP_PHONE" using fdemo_recognizing by blast
  have c: "CurrState (fst (fc_default f)) = 3" using f(1) by (simp add: machine_fit_def CurrState_def)
  then have i: "in_session f" by (simp add: in_session_def)
  show ?thesis using wakeup_exclusive [of demo_hdi demo_hdi demo_device f 0 2 "''x''" "\<lparr>ev_wakeupEvent = 0, ev_endFrameIndex = 0\<rparr>"] f c i
    by (intro exI [of _ f]) auto
qed

subsection \<open>Findings\<close>

text \<open>
  A session of the phone goes on when the device changes, but \<open>GetCurrentImpl\<close> looks at the process only for whispers: the calls that
  belong to the session then go to the engine of the new device, which refuses them; the phone records until its timeout.
\<close>

lemma glasses_refuse:
  fixes f :: "'a facade"
  assumes "facade_inv HP HH W f" "fc_impl f = ImplGlasses x" "CurrState (fst x) \<le> 2" "\<not> GetCurrentImpl f"
  shows "WK_Stop now f = Ret (NO_PROCESS_RET, f)" "WK_StopCapturer now f = Ret (NO_PROCESS_RET, f)"
proof -
  obtain s p where s: "x = (s, p)" by (cases x)
  obtain e where e: "machine_fit wstate_id (gtable W) gfields_ok e s"
    using assms(1,2) s by (auto simp: facade_inv_def glasses_inv_def machine_at_def)
  then obtain i where a: "ms_states s (wstate_id e) = Some (Some ((gtable W e)\<lparr>sa_timerId := i\<rparr>))" "ms_currState s = Some (wstate_id e)"
    by (auto simp: machine_fit_def tables_ok_def simp del: wstate_id.simps)
  have n: "(ghandlers W e (wevent_id EV_STOP_RECOGNIZE) :: 'a glasses_handler option) = None" "(ghandlers W e (wevent_id EV_STOP_CAPTURER) :: 'a glasses_handler option) = None"
    using rest_states [of e] assms(3) a(2) s by (auto simp: CurrState_def ghandlers_def glive_handlers_def gany_handlers_def)
  have m: "GE_Handle now msg s = Ret (NO_PROCESS_RET, s)" if "(ghandlers W e (msgId msg) :: 'a glasses_handler option) = None" for msg
    using machine_rejects [OF a(2,1), of msg now] that e by (simp add: GE_Handle_def machine_fit_def IsStatesInitSucc_def)
  have r: "to_impl now msg f = Ret (NO_PROCESS_RET, f)" if "(ghandlers W e (msgId msg) :: 'a glasses_handler option) = None" for msg
    using m [OF that] assms(2) s by (simp add: to_impl_def tell_def)
  show "WK_Stop now f = Ret (NO_PROCESS_RET, f)" "WK_StopCapturer now f = Ret (NO_PROCESS_RET, f)"
    using r [of "wmsg EV_STOP_RECOGNIZE WNull None"] r [of "wmsg EV_STOP_CAPTURER WNull None"] n assms(2,4)
    by (simp_all add: WK_Stop_def WK_StopCapturer_def Handle_def)
qed

lemma session_misrouted:
  "\<exists>f. reach (facade_start demo_hdi demo_hdi demo_device) (facade_step demo_hdi demo_hdi demo_device) f \<and>
     CurrState (fst (fc_default f)) = wstate_id ST_RECOGNIZING \<and> WK_Stop 0 f = Ret (NO_PROCESS_RET, f) \<and> WK_StopCapturer 0 f = Ret (NO_PROCESS_RET, f)"
proof -
  obtain f where f: "fdemo_at ST_RECOGNIZING f" "fc_curProcess f = PROCESS_WAKEUP_PHONE" using fdemo_recognizing by blast
  let ?s = "GE_Create demo_device (\<lambda>_. True) True 8 demo_ctx :: unit glasses_engine"
  let ?f = "f\<lparr>fc_wakeupDevice := fdemo_glasses, fc_impl := ImplGlasses (?s, None)\<rparr>" and ?m = "wmsg EV_INIT (WStr ''default'') None"
  have fit: "machine_fit wstate_id (gtable demo_device) gfields_ok ST_IDLE ?s" using glasses_new_at [of demo_device 8 demo_ctx] by (simp add: machine_at_def)
  then have ok: "IsStatesInitSucc ?s" by (simp add: machine_fit_def IsStatesInitSucc_def)
  obtain t where t: "GE_Handle 0 ?m ?s = Ret (0, t)" "ms_currState t = Some (wstate_id ST_INITIALIZED)"
    using gframe.call [OF fit, of ?m GE_HandleInit ST_INITIALIZED 0] ok
    by (auto simp: GE_Handle_def ghandlers_def GE_HandleInit_def gresult_def)
  let ?g = "(tell ?s t ?f)\<lparr>fc_impl := ImplGlasses (t, None)\<rparr>"
  have "UpdateWakeupEngineImpl demo_hdi demo_device 0 fdemo_env fdemo_glasses f = Ret (SUCCESS, ?g)"
    using f(1) t(1) ok
    by (simp add: UpdateWakeupEngineImpl_def ReleaseEngineImpl_def CreateEngineImpl_def InitImpl_def pass_callback_def to_impl_def create_glasses_def
        fdemo_env_def fdemo_glasses_def detail_new_def PHONE_def HEADSET_def AI_GLASSES_def)
  then have "facade_step demo_hdi demo_hdi demo_device f ?g" by (rule fs_device)
  with f(1) have r: "reach (facade_start demo_hdi demo_hdi demo_device) (facade_step demo_hdi demo_hdi demo_device) ?g" by (blast intro: reach_step)
  have inv: "facade_inv demo_hdi demo_hdi demo_device ?g" using facade.reach_inv [OF r] .
  have c: "CurrState (fst (fc_default ?g)) = 3" using f(1) by (simp add: machine_fit_def CurrState_def)
  then have "cur ?g = face (fst (fc_default ?g))" "CurrState t \<le> 2"
    using inv t(2) by (auto simp: facade_inv_def CurrState_def)
  have "ms_processType (fst (fc_default f)) = PROCESS_WAKEUP_PHONE"
    using facade.reach_inv [of demo_hdi demo_hdi demo_device f] f c by (simp add: facade_inv_def)
  then have "\<not> GetCurrentImpl ?g" using \<open>cur ?g = face (fst (fc_default ?g))\<close> by (simp add: GetCurrentImpl_def)
  from glasses_refuse [OF inv _ _ this, of "(t, None)"] \<open>CurrState t \<le> 2\<close> r c show ?thesis by (intro exI [of _ ?g]) simp
qed

text \<open>The result of a control message to the phone alone is dropped: resetting its adapter is reported as done whatever happened.\<close>

lemma reset_failure_hidden:
  assumes "facade_inv HP HH W f" "fc_impl f = ImplDefault"
  shows "\<exists>g. WK_ResetAdapter now f = Ret (True, g)"
proof -
  obtain s p where s: "fc_default f = (s, p)" by (cases "fc_default f")
  then have "wakeup_inv HP W (s, p)" using assms(1) by (simp add: facade_inv_def phone_ok_def)
  from engines_return(1) [OF this] obtain r t where "WE_Handle now (wmsg EV_RESET_ADAPTER WNull None) s = Ret (r, t)" by blast
  then show ?thesis using assms(2) s by (simp add: WK_ResetAdapter_def Handle_def to_default_def)
qed

text \<open>An accessory whose engine cannot be created leaves no engine at all, while one whose initialisation fails is replaced by the phone's:
  detections are then answered with success and start nothing.\<close>

lemma failed_creation_silent:
  assumes "ProcessCheck f" "fc_impl f = ImplNone" "uuid \<noteq> PROXIMAL_WAKEUP_MODEL_UUID" "mac = wd_macAddress (fc_wakeupDevice f)"
  shows "FC_OnTriggerDetected now uuid mac ev f = Ret (SUCCESS, f)"
  using assms by (simp add: FC_OnTriggerDetected_def OnWakeupDetected_def)

end
