(* ===== verification/Ipc_Parcel.thy ===== *)
theory Ipc_Parcel
  imports Engine_Util
begin

text \<open>
  Parcels and remote requests as proxies and stubs use them. They are code of the system framework: the operations on parcels are
  the record \<open>parcel_ops\<close>, \<open>parcel_laws\<close> states what is documented of them, \<open>transport_laws\<close> what is of the transport. The locale
  \<open>remote_stub\<close> is what the proxies rely on of a stub; it gives that a request reaches the function of its code with exactly the items
  the proxy wrote.
\<close>

section \<open>Parcels\<close>

datatype item = is_PToken: PToken (un_PToken: string) | is_PBool: PBool (un_PBool: bool) | is_PInt: PInt (un_PInt: int) | is_PUint: PUint (un_PUint: "32 word")
  | is_PString: PString (un_PString: string) | is_PBuffer: PBuffer (un_PBuffer: bytes) | is_PObject: PObject (un_PObject: "nat option")
  | is_PAshmem: PAshmem (un_PAshmem: ashmem)

record 'p parcel_ops =
  pc_new :: 'p
  pc_write :: "item \<Rightarrow> 'p \<Rightarrow> 'p"
  pc_ReadInterfaceToken :: "'p \<Rightarrow> string \<times> 'p"
  pc_ReadBool :: "'p \<Rightarrow> bool \<times> 'p"
  pc_ReadInt32 :: "'p \<Rightarrow> int \<times> 'p"
  pc_ReadUint32 :: "'p \<Rightarrow> 32 word \<times> 'p"
  pc_ReadString :: "'p \<Rightarrow> string \<times> 'p"
  pc_ReadBuffer :: "nat \<Rightarrow> 'p \<Rightarrow> bytes option \<times> 'p"
  pc_ReadRemoteObject :: "'p \<Rightarrow> nat option \<times> 'p"
  pc_ReadAshmem :: "'p \<Rightarrow> ashmem \<times> 'p"
  pc_OnRemoteRequest :: "nat \<Rightarrow> 'p \<Rightarrow> 'p \<Rightarrow> int \<times> 'p"

text \<open>\<open>view\<close> are the items still to be read. A read at the end gives no object, a buffer is read in part when less is asked for.\<close>

definition parcel_laws :: "'p parcel_ops \<Rightarrow> ('p \<Rightarrow> item list) \<Rightarrow> bool" where
  "parcel_laws P view \<longleftrightarrow>
     view (pc_new P) = [] \<and> (\<forall>i p. view (pc_write P i p) = view p @ [i]) \<and>
     (\<forall>p t r. view p = PToken t # r \<longrightarrow> fst (pc_ReadInterfaceToken P p) = t \<and> view (snd (pc_ReadInterfaceToken P p)) = r) \<and>
     (\<forall>p b r. view p = PBool b # r \<longrightarrow> fst (pc_ReadBool P p) = b \<and> view (snd (pc_ReadBool P p)) = r) \<and>
     (\<forall>p w r. view p = PUint w # r \<longrightarrow> fst (pc_ReadInt32 P p) = sint w \<and> view (snd (pc_ReadInt32 P p)) = r) \<and>
     (\<forall>p i r. view p = PInt i # r \<longrightarrow> fst (pc_ReadInt32 P p) = i \<and> view (snd (pc_ReadInt32 P p)) = r) \<and>
     (\<forall>p w r. view p = PUint w # r \<longrightarrow> fst (pc_ReadUint32 P p) = w \<and> view (snd (pc_ReadUint32 P p)) = r) \<and>
     (\<forall>p t r. view p = PString t # r \<longrightarrow> fst (pc_ReadString P p) = t \<and> view (snd (pc_ReadString P p)) = r) \<and>
     (\<forall>p b r n. view p = PBuffer b # r \<longrightarrow> n \<le> length b \<longrightarrow> fst (pc_ReadBuffer P n p) = Some (take n b)) \<and>
     (\<forall>p ob r. view p = PObject ob # r \<longrightarrow> fst (pc_ReadRemoteObject P p) = ob \<and> view (snd (pc_ReadRemoteObject P p)) = r) \<and>
     (\<forall>p. view p = [] \<longrightarrow> fst (pc_ReadRemoteObject P p) = None) \<and>
     (\<forall>p a r. view p = PAshmem a # r \<longrightarrow> fst (pc_ReadAshmem P p) = a \<and> view (snd (pc_ReadAshmem P p)) = r)"

definition write_all :: "'p parcel_ops \<Rightarrow> item list \<Rightarrow> 'p \<Rightarrow> 'p" where
  "write_all P is p = fold (pc_write P) is p"

text \<open>A size written as a signed integer of 32 bits.\<close>

definition int32_size :: "'a list \<Rightarrow> int" where
  "int32_size xs = sint (of_nat (length xs) :: 32 word)"

lemma int32_size_small: "length xs < 2 ^ 31 \<Longrightarrow> int32_size xs = int (length xs)"
  unfolding int32_size_def by (subst signed_of_nat) (simp add: signed_take_bit_int_eq_self)

section \<open>Requests\<close>

text \<open>
  \<open>ipc_send\<close>: the request is delivered to the stub of the other process; \<open>tr\<close> is what the framework makes of the result of the stub and its
  reply. It is assumed to pass success on, and an error when there is no reply that could carry it. What a proxy writes after the
  interface token are the arguments.
\<close>

type_synonym ('p, 's) sender = "nat \<Rightarrow> item list \<Rightarrow> 's \<Rightarrow> int \<times> 'p \<times> 's"

definition ipc_send :: "'p parcel_ops \<Rightarrow> (int \<Rightarrow> 'p \<Rightarrow> int) \<Rightarrow> string \<Rightarrow> (nat \<Rightarrow> 'p \<Rightarrow> 'p \<Rightarrow> 's \<Rightarrow> int \<times> 'p \<times> 's) \<Rightarrow> ('p, 's) sender" where
  "ipc_send P tr desc onreq code args s =
     (case onreq code (write_all P (PToken desc # args) (pc_new P)) (pc_new P) s of (ret, reply, s1) \<Rightarrow> (tr ret reply, reply, s1))"

definition transport_laws :: "('p \<Rightarrow> item list) \<Rightarrow> (int \<Rightarrow> 'p \<Rightarrow> int) \<Rightarrow> bool" where
  "transport_laws view tr \<longleftrightarrow> (\<forall>p. tr 0 p = 0) \<and> (\<forall>r p. r \<noteq> 0 \<and> view p = [] \<longrightarrow> tr r p \<noteq> 0)"

text \<open>The result the client sees of a result the service has written to its reply.\<close>

definition passed :: "'p parcel_ops \<Rightarrow> (int \<Rightarrow> 'p \<Rightarrow> int) \<Rightarrow> int \<Rightarrow> int" where
  "passed P tr r = (if tr r (pc_write P (PInt r) (pc_new P)) = 0 then r else -1)"

text \<open>The requests that are answered with a result alone.\<close>

definition simple_request :: "'p parcel_ops \<Rightarrow> ('p, 's) sender \<Rightarrow> nat \<Rightarrow> item list \<Rightarrow> 's \<Rightarrow> int \<times> 's" where
  "simple_request P send code args s =
     (let (error, reply, s1) = send code args s in if error \<noteq> 0 then (-1, s1) else (fst (pc_ReadInt32 P reply), s1))"

section \<open>Marshalling\<close>

text \<open>What the laws give for a parcel known by its items, as rewrite rules.\<close>

lemma parcel_laws_dest:
  assumes "parcel_laws P view"
  shows "view (pc_new P) = []" "view (pc_write P i p) = view p @ [i]"
    "view p = PToken t # r \<Longrightarrow> fst (pc_ReadInterfaceToken P p) = t \<and> view (snd (pc_ReadInterfaceToken P p)) = r"
    "view p = PBool q # r \<Longrightarrow> fst (pc_ReadBool P p) = q \<and> view (snd (pc_ReadBool P p)) = r"
    "view p = PUint w # r \<Longrightarrow> fst (pc_ReadInt32 P p) = sint w \<and> view (snd (pc_ReadInt32 P p)) = r"
    "view p = PInt k # r \<Longrightarrow> fst (pc_ReadInt32 P p) = k \<and> view (snd (pc_ReadInt32 P p)) = r"
    "view p = PUint w # r \<Longrightarrow> fst (pc_ReadUint32 P p) = w \<and> view (snd (pc_ReadUint32 P p)) = r"
    "view p = PString t # r \<Longrightarrow> fst (pc_ReadString P p) = t \<and> view (snd (pc_ReadString P p)) = r"
    "view p = PBuffer b # r \<Longrightarrow> n \<le> length b \<Longrightarrow> fst (pc_ReadBuffer P n p) = Some (take n b)"
    "view p = PObject ob # r \<Longrightarrow> fst (pc_ReadRemoteObject P p) = ob \<and> view (snd (pc_ReadRemoteObject P p)) = r"
    "view p = [] \<Longrightarrow> fst (pc_ReadRemoteObject P p) = None"
    "view p = PAshmem a # r \<Longrightarrow> fst (pc_ReadAshmem P p) = a \<and> view (snd (pc_ReadAshmem P p)) = r"
proof -
  note laws = assms [unfolded parcel_laws_def]
  show "view (pc_new P) = []"
    by (rule laws [THEN conjunct1, rule_format])
  show "view (pc_write P i p) = view p @ [i]"
    by (rule laws [THEN conjunct2, THEN conjunct1, rule_format])
  show "view p = PToken t # r \<Longrightarrow> fst (pc_ReadInterfaceToken P p) = t \<and> view (snd (pc_ReadInterfaceToken P p)) = r"
    by (rule laws [THEN conjunct2, THEN conjunct2, THEN conjunct1, rule_format])
  show "view p = PBool q # r \<Longrightarrow> fst (pc_ReadBool P p) = q \<and> view (snd (pc_ReadBool P p)) = r"
    by (rule laws [THEN conjunct2, THEN conjunct2, THEN conjunct2, THEN conjunct1, rule_format])
  show "view p = PUint w # r \<Longrightarrow> fst (pc_ReadInt32 P p) = sint w \<and> view (snd (pc_ReadInt32 P p)) = r"
    by (rule laws [THEN conjunct2, THEN conjunct2, THEN conjunct2, THEN conjunct2, THEN conjunct1, rule_format])
  show "view p = PInt k # r \<Longrightarrow> fst (pc_ReadInt32 P p) = k \<and> view (snd (pc_ReadInt32 P p)) = r"
    by (rule laws [THEN conjunct2, THEN conjunct2, THEN conjunct2, THEN conjunct2, THEN conjunct2, THEN conjunct1, rule_format])
  show "view p = PUint w # r \<Longrightarrow> fst (pc_ReadUint32 P p) = w \<and> view (snd (pc_ReadUint32 P p)) = r"
    by (rule laws [THEN conjunct2, THEN conjunct2, THEN conjunct2, THEN conjunct2, THEN conjunct2, THEN conjunct2, THEN conjunct1, rule_format])
  show "view p = PString t # r \<Longrightarrow> fst (pc_ReadString P p) = t \<and> view (snd (pc_ReadString P p)) = r"
    by (rule laws [THEN conjunct2, THEN conjunct2, THEN conjunct2, THEN conjunct2, THEN conjunct2, THEN conjunct2, THEN conjunct2, THEN conjunct1, rule_format])
  show "view p = PBuffer b # r \<Longrightarrow> n \<le> length b \<Longrightarrow> fst (pc_ReadBuffer P n p) = Some (take n b)"
    by (rule laws [THEN conjunct2, THEN conjunct2, THEN conjunct2, THEN conjunct2, THEN conjunct2, THEN conjunct2, THEN conjunct2, THEN conjunct2, THEN conjunct1, rule_format])
  show "view p = PObject ob # r \<Longrightarrow> fst (pc_ReadRemoteObject P p) = ob \<and> view (snd (pc_ReadRemoteObject P p)) = r"
    by (rule laws [THEN conjunct2, THEN conjunct2, THEN conjunct2, THEN conjunct2, THEN conjunct2, THEN conjunct2, THEN conjunct2, THEN conjunct2, THEN conjunct2, THEN conjunct1, rule_format])
  show "view p = [] \<Longrightarrow> fst (pc_ReadRemoteObject P p) = None"
    by (rule laws [THEN conjunct2, THEN conjunct2, THEN conjunct2, THEN conjunct2, THEN conjunct2, THEN conjunct2, THEN conjunct2, THEN conjunct2, THEN conjunct2, THEN conjunct2, THEN conjunct1, rule_format])
  show "view p = PAshmem a # r \<Longrightarrow> fst (pc_ReadAshmem P p) = a \<and> view (snd (pc_ReadAshmem P p)) = r"
    by (rule laws [THEN conjunct2, THEN conjunct2, THEN conjunct2, THEN conjunct2, THEN conjunct2, THEN conjunct2, THEN conjunct2, THEN conjunct2, THEN conjunct2, THEN conjunct2, THEN conjunct2, rule_format])
qed

lemma parcel_view:
  assumes "parcel_laws P view"
  shows "view (pc_new P) = []" "view (pc_write P i p) = view p @ [i]" "view (write_all P is p) = view p @ is"
proof -
  have "view (fold (pc_write P) js q) = view q @ js" for js q
    by (induction js arbitrary: q) (simp_all add: parcel_laws_dest(2) [OF assms])
  then show "view (write_all P is p) = view p @ is" by (simp add: write_all_def)
qed (fact parcel_laws_dest [OF assms])+

lemma parcel_read:
  assumes "parcel_laws P view" "view p \<noteq> []"
  shows "is_PToken (hd (view p)) \<Longrightarrow> fst (pc_ReadInterfaceToken P p) = un_PToken (hd (view p)) \<and> view (snd (pc_ReadInterfaceToken P p)) = tl (view p)"
    "is_PBool (hd (view p)) \<Longrightarrow> fst (pc_ReadBool P p) = un_PBool (hd (view p)) \<and> view (snd (pc_ReadBool P p)) = tl (view p)"
    "is_PInt (hd (view p)) \<Longrightarrow> fst (pc_ReadInt32 P p) = un_PInt (hd (view p)) \<and> view (snd (pc_ReadInt32 P p)) = tl (view p)"
    "is_PUint (hd (view p)) \<Longrightarrow> fst (pc_ReadUint32 P p) = un_PUint (hd (view p)) \<and> view (snd (pc_ReadUint32 P p)) = tl (view p)"
    "is_PString (hd (view p)) \<Longrightarrow> fst (pc_ReadString P p) = un_PString (hd (view p)) \<and> view (snd (pc_ReadString P p)) = tl (view p)"
    "is_PObject (hd (view p)) \<Longrightarrow> fst (pc_ReadRemoteObject P p) = un_PObject (hd (view p)) \<and> view (snd (pc_ReadRemoteObject P p)) = tl (view p)"
    "is_PAshmem (hd (view p)) \<Longrightarrow> fst (pc_ReadAshmem P p) = un_PAshmem (hd (view p)) \<and> view (snd (pc_ReadAshmem P p)) = tl (view p)"
    "is_PUint (hd (view p)) \<Longrightarrow> fst (pc_ReadInt32 P p) = sint (un_PUint (hd (view p))) \<and> view (snd (pc_ReadInt32 P p)) = tl (view p)"
    "is_PBuffer (hd (view p)) \<Longrightarrow> n \<le> length (un_PBuffer (hd (view p))) \<Longrightarrow> fst (pc_ReadBuffer P n p) = Some (take n (un_PBuffer (hd (view p))))"
proof -
  obtain i r where v: "view p = i # r" using assms(2) by (cases "view p") auto
  show "is_PToken (hd (view p)) \<Longrightarrow> fst (pc_ReadInterfaceToken P p) = un_PToken (hd (view p)) \<and> view (snd (pc_ReadInterfaceToken P p)) = tl (view p)"
    using v parcel_laws_dest(3) [OF assms(1), of p "un_PToken i" r] by simp
  show "is_PBool (hd (view p)) \<Longrightarrow> fst (pc_ReadBool P p) = un_PBool (hd (view p)) \<and> view (snd (pc_ReadBool P p)) = tl (view p)"
    using v parcel_laws_dest(4) [OF assms(1), of p "un_PBool i" r] by simp
  show "is_PInt (hd (view p)) \<Longrightarrow> fst (pc_ReadInt32 P p) = un_PInt (hd (view p)) \<and> view (snd (pc_ReadInt32 P p)) = tl (view p)"
    using v parcel_laws_dest(6) [OF assms(1), of p "un_PInt i" r] by simp
  show "is_PUint (hd (view p)) \<Longrightarrow> fst (pc_ReadUint32 P p) = un_PUint (hd (view p)) \<and> view (snd (pc_ReadUint32 P p)) = tl (view p)"
    using v parcel_laws_dest(7) [OF assms(1), of p "un_PUint i" r] by simp
  show "is_PString (hd (view p)) \<Longrightarrow> fst (pc_ReadString P p) = un_PString (hd (view p)) \<and> view (snd (pc_ReadString P p)) = tl (view p)"
    using v parcel_laws_dest(8) [OF assms(1), of p "un_PString i" r] by simp
  show "is_PObject (hd (view p)) \<Longrightarrow> fst (pc_ReadRemoteObject P p) = un_PObject (hd (view p)) \<and> view (snd (pc_ReadRemoteObject P p)) = tl (view p)"
    using v parcel_laws_dest(10) [OF assms(1), of p "un_PObject i" r] by simp
  show "is_PAshmem (hd (view p)) \<Longrightarrow> fst (pc_ReadAshmem P p) = un_PAshmem (hd (view p)) \<and> view (snd (pc_ReadAshmem P p)) = tl (view p)"
    using v parcel_laws_dest(12) [OF assms(1), of p "un_PAshmem i" r] by simp
  show "is_PUint (hd (view p)) \<Longrightarrow> fst (pc_ReadInt32 P p) = sint (un_PUint (hd (view p))) \<and> view (snd (pc_ReadInt32 P p)) = tl (view p)"
    using v parcel_laws_dest(5) [OF assms(1), of p "un_PUint i" r] by simp
  show "is_PBuffer (hd (view p)) \<Longrightarrow> n \<le> length (un_PBuffer (hd (view p))) \<Longrightarrow> fst (pc_ReadBuffer P n p) = Some (take n (un_PBuffer (hd (view p))))"
    using v parcel_laws_dest(9) [OF assms(1), of p "un_PBuffer i" r] by simp
qed

lemmas parcel_end = parcel_laws_dest(11)

text \<open>The stub's function gets a parcel with exactly what the proxy has written.\<close>

definition request :: "'p parcel_ops \<Rightarrow> string \<Rightarrow> item list \<Rightarrow> 'p" where
  "request P desc args = snd (pc_ReadInterfaceToken P (write_all P (PToken desc # args) (pc_new P)))"

lemma request_view:
  assumes "parcel_laws P view"
  shows "view (request P desc args) = args"
  unfolding request_def by (simp add: parcel_read [OF assms] parcel_view [OF assms])

lemma passed_result: "transport_laws view tr \<Longrightarrow> (passed P tr r = 0 \<longleftrightarrow> r = 0) \<and> passed P tr r \<in> {r, -1}"
  by (auto simp: passed_def transport_laws_def)

section \<open>The contract of a stub\<close>

locale remote_stub =
  fixes desc :: string
    and onreq :: "'p parcel_ops \<Rightarrow> 'f \<Rightarrow> nat \<Rightarrow> 'p \<Rightarrow> 'p \<Rightarrow> 's \<Rightarrow> int \<times> 'p \<times> 's"
    and funcs :: "nat \<Rightarrow> ('p parcel_ops \<Rightarrow> 'f \<Rightarrow> 'p \<Rightarrow> 'p \<Rightarrow> 's \<Rightarrow> int \<times> 'p \<times> 's) option"
  assumes answers: "fst (pc_ReadInterfaceToken P data) = desc \<Longrightarrow> funcs code = Some f \<Longrightarrow>
      onreq P S code data reply s = f P S (snd (pc_ReadInterfaceToken P data)) reply s"
    and refuses: "fst (pc_ReadInterfaceToken P data) \<noteq> desc \<Longrightarrow> onreq P S code data reply s = (-1, reply, s)"
begin

lemma send_call:
  assumes L: "parcel_laws P view" and f: "funcs code = Some f"
  shows "ipc_send P tr desc (onreq P S) code args s = (case f P S (request P desc args) (pc_new P) s of (ret, reply, s1) \<Rightarrow> (tr ret reply, reply, s1))"
  by (simp add: ipc_send_def answers [OF _ f] request_def parcel_read [OF L] parcel_view [OF L])

text \<open>A stub function that makes one call and writes the result alone.\<close>

lemma simple_call:
  assumes L: "parcel_laws P view" and f: "funcs code = Some f"
    and call: "\<And>d p. view d = args \<Longrightarrow> f P S d p s = (let (r, s1) = g s in (r, pc_write P (PInt r) p, s1))"
  shows "simple_request P (ipc_send P tr desc (onreq P S)) code args s = (case g s of (r, s1) \<Rightarrow> (passed P tr r, s1))"
  by (simp add: simple_request_def send_call [OF L f] call [OF request_view [OF L]] split_def Let_def parcel_read [OF L] parcel_view [OF L] passed_def)

text \<open>A request of another interface does nothing.\<close>

lemma send_refused:
  assumes L: "parcel_laws P view" and T: "transport_laws view tr" and "other \<noteq> desc"
  shows "simple_request P (ipc_send P tr other (onreq P S)) code args s = (-1, s)"
  using T refuses [of P "write_all P (PToken other # args) (pc_new P)"] assms(3)
  by (simp add: simple_request_def ipc_send_def parcel_read [OF L] parcel_view [OF L] transport_laws_def)

end

section \<open>An instance of the laws\<close>

text \<open>Parcels as lists of items; a transport that gives up the result of the stub when there is a reply.\<close>

definition list_parcels :: "item list parcel_ops" where
  "list_parcels = \<lparr>pc_new = [], pc_write = (\<lambda>i p. p @ [i]), pc_ReadInterfaceToken = (\<lambda>p. (un_PToken (hd p), tl p)),
     pc_ReadBool = (\<lambda>p. (un_PBool (hd p), tl p)),
     pc_ReadInt32 = (\<lambda>p. (case hd p of PUint w \<Rightarrow> sint w | i \<Rightarrow> un_PInt i, tl p)), pc_ReadUint32 = (\<lambda>p. (un_PUint (hd p), tl p)),
     pc_ReadString = (\<lambda>p. (un_PString (hd p), tl p)),
     pc_ReadBuffer = (\<lambda>n p. (if n \<le> length (un_PBuffer (hd p)) then Some (take n (un_PBuffer (hd p))) else None, tl p)),
     pc_ReadRemoteObject = (\<lambda>p. (case p of [] \<Rightarrow> None | i # _ \<Rightarrow> un_PObject i, tl p)),
     pc_ReadAshmem = (\<lambda>p. (un_PAshmem (hd p), tl p)), pc_OnRemoteRequest = (\<lambda>_ _ reply. (-1, reply))\<rparr>"

definition status_transport :: "int \<Rightarrow> item list \<Rightarrow> int" where
  "status_transport r p = (case p of [] \<Rightarrow> r | _ \<Rightarrow> 0)"

lemma list_parcels_laws: "parcel_laws list_parcels (\<lambda>p. p)" "transport_laws (\<lambda>p. p) status_transport"
  by (simp_all add: parcel_laws_def list_parcels_def transport_laws_def status_transport_def split: list.splits)

end
