(* ===== verification/Service_Ipc.thy ===== *)
theory Service_Ipc
  imports Device_Manager Ipc_Parcel
begin

text \<open>
  The way of a request from a client's process to the service: \<open>services/intell_voice_engine/proxy/intell_voice_service_proxy.cpp\<close> writes it
  to a parcel, \<open>services/intell_voice_service/server/sa/intell_voice_service_stub.cpp\<close> reads it, calls the service and writes the answer.
  The service is any implementation of the interface, the record \<open>service_if\<close>. The property is that a remote call is the call of the
  service, up to the checks of proxy and stub.
\<close>

section \<open>The interface of the service\<close>

record 's service_if =
  si_CreateIntellVoiceEngine :: "int \<Rightarrow> 's \<Rightarrow> int \<times> nat option \<times> 's"
  si_ReleaseIntellVoiceEngine :: "int \<Rightarrow> 's \<Rightarrow> int \<times> 's"
  si_GetUploadFiles :: "int \<Rightarrow> 's \<Rightarrow> int \<times> upload_file list \<times> 's"
  si_GetParameter :: "string \<Rightarrow> 's \<Rightarrow> string \<times> 's"
  si_SetParameter :: "string \<Rightarrow> 's \<Rightarrow> int \<times> 's"
  si_GetWakeupSourceFilesList :: "'s \<Rightarrow> int \<times> string list \<times> 's"
  si_GetWakeupSourceFile :: "string \<Rightarrow> 's \<Rightarrow> int \<times> bytes \<times> 's"
  si_SendWakeupFile :: "string \<Rightarrow> bytes \<Rightarrow> 's \<Rightarrow> int \<times> 's"
  si_EnrollWithWakeupFilesForResult :: "string \<Rightarrow> nat option \<Rightarrow> 's \<Rightarrow> int \<times> 's"
  si_ClearUserData :: "'s \<Rightarrow> int \<times> 's"
  si_RegisterDeviceWakeupInfo :: "string \<Rightarrow> WakeupDeviceInfo \<Rightarrow> 's \<Rightarrow> int \<times> 's"
  si_DeregisterDeviceWakeupInfo :: "string \<Rightarrow> 's \<Rightarrow> int \<times> 's"
  si_RegisterDeathRecipient :: "int \<Rightarrow> nat option \<Rightarrow> 's \<Rightarrow> bool \<times> 's"
  si_DeregisterDeathRecipient :: "int \<Rightarrow> 's \<Rightarrow> bool \<times> 's"
  si_RegisterDeviceDeathRecipient :: "string \<Rightarrow> nat option \<Rightarrow> 's \<Rightarrow> bool \<times> 's"

text \<open>The codes of the requests, in the order of their enumeration; the descriptor of the interface.\<close>

definition CREATE_ENGINE :: nat where "CREATE_ENGINE = 0"

definition RELEASE_ENGINE :: nat where "RELEASE_ENGINE = 1"

definition GET_REPORTED_FILES :: nat where "GET_REPORTED_FILES = 2"

definition GET_PARAMETER :: nat where "GET_PARAMETER = 5"

definition GET_CLONE_FILES_LIST :: nat where "GET_CLONE_FILES_LIST = 6"

definition GET_CLONE_FILE :: nat where "GET_CLONE_FILE = 7"

definition SEND_CLONE_FILE :: nat where "SEND_CLONE_FILE = 8"

definition CLONE_FOR_RESULT :: nat where "CLONE_FOR_RESULT = 9"

definition SET_PARAMETER :: nat where "SET_PARAMETER = 10"

definition CLEAR_USER_DATA :: nat where "CLEAR_USER_DATA = 11"

definition REGISTER_DEVICE :: nat where "REGISTER_DEVICE = 12"

definition DEREGISTER_DEVICE :: nat where "DEREGISTER_DEVICE = 13"

definition GetDescriptor :: string where
  "GetDescriptor = ''IntellVoiceFramework.Service''"

definition FILE_SIZE_MAX :: nat where
  "FILE_SIZE_MAX = 10 * 1024 * 1024"

definition CROSS_PROCESS_BUF_SIZE_LIMIT :: nat where
  "CROSS_PROCESS_BUF_SIZE_LIMIT = 256 * 1024"

definition CLONE_FILES_NUM_MAX :: nat where
  "CLONE_FILES_NUM_MAX = 100"

section \<open>The stub\<close>

text \<open>Each function reads its arguments, and gives the result, the reply and the state of the service.\<close>

definition created_type :: "int \<Rightarrow> int" where
  "created_type ty = (if ty = 200 \<or> ty = 3 then 1 else ty)"

definition SS_CreateEngineInner :: "'p parcel_ops \<Rightarrow> 's service_if \<Rightarrow> 'p \<Rightarrow> 'p \<Rightarrow> 's \<Rightarrow> int \<times> 'p \<times> 's" where
  "SS_CreateEngineInner P S data reply s =
     (let (ty, data1) = pc_ReadInt32 P data; (obj, _) = pc_ReadRemoteObject P data1;
          (_, s1) = si_RegisterDeathRecipient S ty obj s;
          (ret, engine, s2) = si_CreateIntellVoiceEngine S (created_type ty) s1;
          reply1 = pc_write P (PInt ret) reply
      in (ret, if ret \<noteq> 0 \<or> engine = None then reply1 else pc_write P (PObject engine) reply1, s2))"

definition SS_ReleaseEngineInner :: "'p parcel_ops \<Rightarrow> 's service_if \<Rightarrow> 'p \<Rightarrow> 'p \<Rightarrow> 's \<Rightarrow> int \<times> 'p \<times> 's" where
  "SS_ReleaseEngineInner P S data reply s =
     (let (ty, _) = pc_ReadInt32 P data; (ret, s1) = si_ReleaseIntellVoiceEngine S ty s;
          (_, s2) = si_DeregisterDeathRecipient S ty s1
      in (ret, pc_write P (PInt ret) reply, s2))"

definition file_items :: "upload_file \<Rightarrow> item list" where
  "file_items f = PInt (uf_type f) # PString (uf_filesDescription f) # PInt (int32_size (uf_filesContent f)) # map PAshmem (uf_filesContent f)"

definition SS_GetReportedFilesInner :: "'p parcel_ops \<Rightarrow> 's service_if \<Rightarrow> 'p \<Rightarrow> 'p \<Rightarrow> 's \<Rightarrow> int \<times> 'p \<times> 's" where
  "SS_GetReportedFilesInner P S data reply s =
     (let (numMax, _) = pc_ReadInt32 P data; (ret, files, s1) = si_GetUploadFiles S numMax s;
          reply1 = pc_write P (PInt ret) reply; reply2 = pc_write P (PInt (int32_size files)) reply1
      in if ret \<noteq> 0 then (ret, reply1, s1)
         else if int32_size files \<le> 0 then (-1, reply2, s1)
         else (ret, write_all P (concat (map file_items files)) reply2, s1))"

definition SS_GetParameterInner :: "'p parcel_ops \<Rightarrow> 's service_if \<Rightarrow> 'p \<Rightarrow> 'p \<Rightarrow> 's \<Rightarrow> int \<times> 'p \<times> 's" where
  "SS_GetParameterInner P S data reply s =
     (let (key, _) = pc_ReadString P data; (val, s1) = si_GetParameter S key s in (0, pc_write P (PString val) reply, s1))"

definition SS_SetParameterInner :: "'p parcel_ops \<Rightarrow> 's service_if \<Rightarrow> 'p \<Rightarrow> 'p \<Rightarrow> 's \<Rightarrow> int \<times> 'p \<times> 's" where
  "SS_SetParameterInner P S data reply s =
     (let (kv, _) = pc_ReadString P data; (ret, s1) = si_SetParameter S kv s in (ret, pc_write P (PInt ret) reply, s1))"

definition SS_GetCloneFileListInner :: "'p parcel_ops \<Rightarrow> 's service_if \<Rightarrow> 'p \<Rightarrow> 'p \<Rightarrow> 's \<Rightarrow> int \<times> 'p \<times> 's" where
  "SS_GetCloneFileListInner P S data reply s =
     (let (ret, cloneFiles, s1) = si_GetWakeupSourceFilesList S s; reply1 = pc_write P (PInt ret) reply
      in if ret \<noteq> 0 then (ret, reply1, s1)
         else (ret, write_all P (PUint (of_nat (length cloneFiles)) # map PString cloneFiles) reply1, s1))"

definition SS_GetCloneFileInner :: "'p parcel_ops \<Rightarrow> 's service_if \<Rightarrow> 'p \<Rightarrow> 'p \<Rightarrow> 's \<Rightarrow> int \<times> 'p \<times> 's" where
  "SS_GetCloneFileInner P S data reply s =
     (let (filePath, _) = pc_ReadString P data; (ret, buffer, s1) = si_GetWakeupSourceFile S filePath s; reply1 = pc_write P (PInt ret) reply
      in if ret \<noteq> 0 then (ret, reply1, s1)
         else (ret, write_all P [PUint (of_nat (length buffer)), PBuffer buffer] reply1, s1))"

definition SS_SendCloneFileInner :: "'p parcel_ops \<Rightarrow> 's service_if \<Rightarrow> 'p \<Rightarrow> 'p \<Rightarrow> 's \<Rightarrow> int \<times> 'p \<times> 's" where
  "SS_SendCloneFileInner P S data reply s =
     (let (filePath, data1) = pc_ReadString P data; (size, data2) = pc_ReadUint32 P data1
      in if size = 0 \<or> unat size \<ge> FILE_SIZE_MAX then (-1, reply, s)
         else (case fst (pc_ReadBuffer P (unat size) data2) of
             None \<Rightarrow> (-1, reply, s)
           | Some buffer \<Rightarrow> (let (ret, s1) = si_SendWakeupFile S filePath buffer s in (ret, pc_write P (PInt ret) reply, s1))))"

definition SS_CloneForResultInner :: "'p parcel_ops \<Rightarrow> 's service_if \<Rightarrow> 'p \<Rightarrow> 'p \<Rightarrow> 's \<Rightarrow> int \<times> 'p \<times> 's" where
  "SS_CloneForResultInner P S data reply s =
     (let (wakeupInfo, data1) = pc_ReadString P data; (object, _) = pc_ReadRemoteObject P data1;
          (ret, s1) = si_EnrollWithWakeupFilesForResult S wakeupInfo object s
      in (ret, pc_write P (PInt ret) reply, s1))"

definition SS_ClearUserDataInner :: "'p parcel_ops \<Rightarrow> 's service_if \<Rightarrow> 'p \<Rightarrow> 'p \<Rightarrow> 's \<Rightarrow> int \<times> 'p \<times> 's" where
  "SS_ClearUserDataInner P S data reply s = (let (ret, s1) = si_ClearUserData S s in (ret, pc_write P (PInt ret) reply, s1))"

definition SS_RegisterDeviceInner :: "'p parcel_ops \<Rightarrow> 's service_if \<Rightarrow> 'p \<Rightarrow> 'p \<Rightarrow> 's \<Rightarrow> int \<times> 'p \<times> 's" where
  "SS_RegisterDeviceInner P S data reply s =
     (let (macAddress, d1) = pc_ReadString P data; (ty, d2) = pc_ReadUint32 P d1; (serviceName, d3) = pc_ReadString P d2;
          (parameters, d4) = pc_ReadString P d3; (obj, _) = pc_ReadRemoteObject P d4;
          (ok, s1) = si_RegisterDeviceDeathRecipient S serviceName obj s
      in if \<not> ok then (-1, reply, s1)
         else let (ret, s2) = si_RegisterDeviceWakeupInfo S macAddress
                    \<lparr>wi_type = uint ty, wi_serviceName = serviceName, wi_parameters = parameters\<rparr> s1
              in (ret, pc_write P (PInt ret) reply, s2))"

definition SS_DeregisterDeviceInner :: "'p parcel_ops \<Rightarrow> 's service_if \<Rightarrow> 'p \<Rightarrow> 'p \<Rightarrow> 's \<Rightarrow> int \<times> 'p \<times> 's" where
  "SS_DeregisterDeviceInner P S data reply s =
     (let (macAddress, _) = pc_ReadString P data; (ret, s1) = si_DeregisterDeviceWakeupInfo S macAddress s
      in (ret, pc_write P (PInt ret) reply, s1))"

text \<open>\<open>processServiceFuncMap_\<close>.\<close>

definition process_func :: "nat \<Rightarrow> ('p parcel_ops \<Rightarrow> 's service_if \<Rightarrow> 'p \<Rightarrow> 'p \<Rightarrow> 's \<Rightarrow> int \<times> 'p \<times> 's) option" where
  "process_func = [CREATE_ENGINE \<mapsto> SS_CreateEngineInner, RELEASE_ENGINE \<mapsto> SS_ReleaseEngineInner, GET_PARAMETER \<mapsto> SS_GetParameterInner,
     GET_REPORTED_FILES \<mapsto> SS_GetReportedFilesInner, GET_CLONE_FILES_LIST \<mapsto> SS_GetCloneFileListInner, GET_CLONE_FILE \<mapsto> SS_GetCloneFileInner,
     SEND_CLONE_FILE \<mapsto> SS_SendCloneFileInner, CLONE_FOR_RESULT \<mapsto> SS_CloneForResultInner, SET_PARAMETER \<mapsto> SS_SetParameterInner,
     CLEAR_USER_DATA \<mapsto> SS_ClearUserDataInner, REGISTER_DEVICE \<mapsto> SS_RegisterDeviceInner, DEREGISTER_DEVICE \<mapsto> SS_DeregisterDeviceInner]"

definition OnRemoteRequest :: "'p parcel_ops \<Rightarrow> 's service_if \<Rightarrow> nat \<Rightarrow> 'p \<Rightarrow> 'p \<Rightarrow> 's \<Rightarrow> int \<times> 'p \<times> 's" where
  "OnRemoteRequest P S code data reply s =
     (let (token, data1) = pc_ReadInterfaceToken P data
      in if token \<noteq> GetDescriptor then (-1, reply, s)
         else (case process_func code of
             Some f \<Rightarrow> f P S data1 reply s
           | None \<Rightarrow> (let (ret, reply1) = pc_OnRemoteRequest P code data1 reply in (ret, reply1, s))))"

definition SendRequest :: "'p parcel_ops \<Rightarrow> (int \<Rightarrow> 'p \<Rightarrow> int) \<Rightarrow> 's service_if \<Rightarrow> nat \<Rightarrow> item list \<Rightarrow> 's \<Rightarrow> int \<times> 'p \<times> 's" where
  "SendRequest P tr S = ipc_send P tr GetDescriptor (OnRemoteRequest P S)"

interpretation service_stub: remote_stub GetDescriptor OnRemoteRequest process_func
  by unfold_locales (auto simp: OnRemoteRequest_def split_def)

lemmas SendRequest_call = service_stub.send_call [folded SendRequest_def]
lemmas simple_request_call = service_stub.simple_call [folded SendRequest_def]

section \<open>The proxy\<close>

text \<open>
  \<open>send\<close> is \<open>Remote()->SendRequest\<close>. \<open>stub\<close> is the object a new death
  recipient stub gets, or null. Arguments the proxy fills (an engine, lists, a buffer) are passed in and out.
\<close>

definition Proxy_CreateIntellVoiceEngine ::
  "'p parcel_ops \<Rightarrow> ('p, 's) sender \<Rightarrow> nat option \<Rightarrow> int \<Rightarrow> nat option \<Rightarrow> 's \<Rightarrow> int \<times> nat option \<times> 's" where
  "Proxy_CreateIntellVoiceEngine P send stub ty inst s =
     (let (error, reply, s1) = send CREATE_ENGINE [PInt ty, PObject stub] s
      in if error \<noteq> 0 then (-1, inst, s1)
         else let (ret, reply1) = pc_ReadInt32 P reply
              in if ret \<noteq> 0 then (ret, inst, s1)
                 else (case fst (pc_ReadRemoteObject P reply1) of None \<Rightarrow> (-1, inst, s1) | Some e \<Rightarrow> (0, Some e, s1)))"

definition Proxy_ReleaseIntellVoiceEngine :: "'p parcel_ops \<Rightarrow> ('p, 's) sender \<Rightarrow> int \<Rightarrow> 's \<Rightarrow> int \<times> 's" where
  "Proxy_ReleaseIntellVoiceEngine P send ty s = simple_request P send RELEASE_ENGINE [PInt ty] s"

fun read_ashmems :: "'p parcel_ops \<Rightarrow> nat \<Rightarrow> 'p \<Rightarrow> ashmem list \<times> 'p" where
  "read_ashmems P 0 p = ([], p)"
| "read_ashmems P (Suc n) p =
     (let (a, p1) = pc_ReadAshmem P p; (as, p2) = read_ashmems P n p1 in (a # as, p2))"

fun read_uploads :: "'p parcel_ops \<Rightarrow> nat \<Rightarrow> 'p \<Rightarrow> upload_file list \<times> 'p" where
  "read_uploads P 0 p = ([], p)"
| "read_uploads P (Suc n) p =
     (let (ty, p1) = pc_ReadInt32 P p; (desc, p2) = pc_ReadString P p1; (size, p3) = pc_ReadInt32 P p2;
          (as, p4) = read_ashmems P (nat size) p3; (fs, p5) = read_uploads P n p4
      in (\<lparr>uf_type = ty, uf_filesDescription = desc, uf_filesContent = as\<rparr> # fs, p5))"

definition Proxy_GetUploadFiles ::
  "'p parcel_ops \<Rightarrow> ('p, 's) sender \<Rightarrow> int \<Rightarrow> upload_file list \<Rightarrow> 's \<Rightarrow> int \<times> upload_file list \<times> 's" where
  "Proxy_GetUploadFiles P send numMax files s =
     (let (error, reply, s1) = send GET_REPORTED_FILES [PInt numMax] s
      in if error \<noteq> 0 then (-1, files, s1)
         else let (ret, reply1) = pc_ReadInt32 P reply
              in if ret \<noteq> 0 then (ret, files, s1)
                 else let (size, reply2) = pc_ReadInt32 P reply1
                      in if size \<le> 0 then (-1, files, s1) else (ret, files @ fst (read_uploads P (nat size) reply2), s1))"

definition Proxy_GetParameter :: "'p parcel_ops \<Rightarrow> ('p, 's) sender \<Rightarrow> string \<Rightarrow> 's \<Rightarrow> string \<times> 's" where
  "Proxy_GetParameter P send key s =
     (let (error, reply, s1) = send GET_PARAMETER [PString key] s in if error \<noteq> 0 then ('''', s1) else (fst (pc_ReadString P reply), s1))"

definition Proxy_SetParameter :: "'p parcel_ops \<Rightarrow> ('p, 's) sender \<Rightarrow> string \<Rightarrow> 's \<Rightarrow> int \<times> 's" where
  "Proxy_SetParameter P send keyValueList s = simple_request P send SET_PARAMETER [PString keyValueList] s"

fun read_strings :: "'p parcel_ops \<Rightarrow> nat \<Rightarrow> 'p \<Rightarrow> string list \<times> 'p" where
  "read_strings P 0 p = ([], p)"
| "read_strings P (Suc n) p = (let (t, p1) = pc_ReadString P p; (ts, p2) = read_strings P n p1 in (t # ts, p2))"

definition Proxy_GetWakeupSourceFilesList ::
  "'p parcel_ops \<Rightarrow> ('p, 's) sender \<Rightarrow> string list \<Rightarrow> 's \<Rightarrow> int \<times> string list \<times> 's" where
  "Proxy_GetWakeupSourceFilesList P send cloneFiles s =
     (let (error, reply, s1) = send GET_CLONE_FILES_LIST [] s
      in if error \<noteq> 0 then (-1, cloneFiles, s1)
         else let (ret, reply1) = pc_ReadInt32 P reply
              in if ret \<noteq> 0 then (ret, cloneFiles, s1)
                 else let (size, reply2) = pc_ReadUint32 P reply1
                      in if unat size > CLONE_FILES_NUM_MAX then (-1, cloneFiles, s1)
                         else (ret, cloneFiles @ fst (read_strings P (unat size) reply2), s1))"

definition Proxy_GetWakeupSourceFile ::
  "'p parcel_ops \<Rightarrow> ('p, 's) sender \<Rightarrow> string \<Rightarrow> bytes \<Rightarrow> 's \<Rightarrow> int \<times> bytes \<times> 's" where
  "Proxy_GetWakeupSourceFile P send filePath buffer s =
     (let (error, reply, s1) = send GET_CLONE_FILE [PString filePath] s
      in if error \<noteq> 0 then (-1, buffer, s1)
         else let (ret, reply1) = pc_ReadInt32 P reply
              in if ret \<noteq> 0 then (ret, buffer, s1)
                 else let (size, reply2) = pc_ReadUint32 P reply1
                      in if size = 0 \<or> unat size > CROSS_PROCESS_BUF_SIZE_LIMIT then (-1, buffer, s1)
                         else (case fst (pc_ReadBuffer P (unat size) reply2) of None \<Rightarrow> (-1, buffer, s1) | Some b \<Rightarrow> (ret, b, s1)))"

text \<open>A vector without elements has no data.\<close>

definition Proxy_SendWakeupFile :: "'p parcel_ops \<Rightarrow> ('p, 's) sender \<Rightarrow> string \<Rightarrow> bytes \<Rightarrow> 's \<Rightarrow> int \<times> 's" where
  "Proxy_SendWakeupFile P send filePath buffer s =
     (if length buffer = 0 \<or> length buffer > CROSS_PROCESS_BUF_SIZE_LIMIT then (-1, s)
      else simple_request P send SEND_CLONE_FILE [PString filePath, PUint (of_nat (length buffer)), PBuffer buffer] s)"

definition Proxy_EnrollWithWakeupFilesForResult :: "'p parcel_ops \<Rightarrow> ('p, 's) sender \<Rightarrow> string \<Rightarrow> nat option \<Rightarrow> 's \<Rightarrow> int \<times> 's" where
  "Proxy_EnrollWithWakeupFilesForResult P send wakeupInfo object s =
     simple_request P send CLONE_FOR_RESULT [PString wakeupInfo, PObject object] s"

definition Proxy_ClearUserData :: "'p parcel_ops \<Rightarrow> ('p, 's) sender \<Rightarrow> 's \<Rightarrow> int \<times> 's" where
  "Proxy_ClearUserData P send s = simple_request P send CLEAR_USER_DATA [] s"

definition Proxy_RegisterDeviceWakeupInfo ::
  "'p parcel_ops \<Rightarrow> ('p, 's) sender \<Rightarrow> nat option \<Rightarrow> string \<Rightarrow> WakeupDeviceInfo \<Rightarrow> 's \<Rightarrow> int \<times> 's" where
  "Proxy_RegisterDeviceWakeupInfo P send stub macAddress info s =
     (if stub = None then (-1, s)
      else simple_request P send REGISTER_DEVICE
             [PString macAddress, PUint (of_int (wi_type info)), PString (wi_serviceName info), PString (wi_parameters info), PObject stub] s)"

definition Proxy_DeregisterDeviceWakeupInfo :: "'p parcel_ops \<Rightarrow> ('p, 's) sender \<Rightarrow> string \<Rightarrow> 's \<Rightarrow> int \<times> 's" where
  "Proxy_DeregisterDeviceWakeupInfo P send macAddress s = simple_request P send DEREGISTER_DEVICE [PString macAddress] s"

section \<open>Marshalling\<close>

lemma read_ashmems_view:
  assumes L: "parcel_laws P view"
  shows "view p = map PAshmem as @ r \<Longrightarrow> fst (read_ashmems P (length as) p) = as \<and> view (snd (read_ashmems P (length as) p)) = r"
  by (induction as arbitrary: p) (simp_all add: split_def Let_def parcel_read [OF L])

lemma read_uploads_view:
  assumes L: "parcel_laws P view"
  shows "view p = concat (map file_items fs) \<Longrightarrow> \<forall>f\<in>set fs. length (uf_filesContent f) < 2 ^ 31 \<Longrightarrow>
    fst (read_uploads P (length fs) p) = fs"
proof (induction fs arbitrary: p)
  case (Cons f fs)
  have v: "view p = PInt (uf_type f) # PString (uf_filesDescription f) # PInt (int (length (uf_filesContent f)))
      # map PAshmem (uf_filesContent f) @ concat (map file_items fs)"
    using Cons.prems by (simp add: file_items_def [of f] int32_size_small)
  define p3 where "p3 = snd (pc_ReadInt32 P (snd (pc_ReadString P (snd (pc_ReadInt32 P p)))))"
  have "view p3 = map PAshmem (uf_filesContent f) @ concat (map file_items fs)"
    by (simp add: p3_def v parcel_read [OF L])
  note as = read_ashmems_view [OF L this]
  from as Cons.IH [of "snd (read_ashmems P (length (uf_filesContent f)) p3)"] Cons.prems(2) show ?case
    by (simp add: split_def Let_def parcel_read [OF L] p3_def v)
qed simp

lemma read_strings_view:
  assumes L: "parcel_laws P view"
  shows "view p = map PString ts \<Longrightarrow> n \<le> length ts \<Longrightarrow> fst (read_strings P n p) = take n ts"
proof (induction n arbitrary: p ts)
  case (Suc n)
  then obtain t us where ts: "ts = t # us" by (cases ts) auto
  with Suc show ?case by (simp add: split_def Let_def parcel_read [OF L])
qed simp

section \<open>Calls\<close>

lemmas stub_defs = SS_CreateEngineInner_def SS_ReleaseEngineInner_def SS_GetReportedFilesInner_def SS_GetParameterInner_def SS_SetParameterInner_def
  SS_GetCloneFileListInner_def SS_GetCloneFileInner_def SS_SendCloneFileInner_def SS_CloneForResultInner_def SS_ClearUserDataInner_def
  SS_RegisterDeviceInner_def SS_DeregisterDeviceInner_def

lemmas code_defs = CREATE_ENGINE_def RELEASE_ENGINE_def GET_REPORTED_FILES_def GET_PARAMETER_def GET_CLONE_FILES_LIST_def GET_CLONE_FILE_def
  SEND_CLONE_FILE_def CLONE_FOR_RESULT_def SET_PARAMETER_def CLEAR_USER_DATA_def REGISTER_DEVICE_def DEREGISTER_DEVICE_def

lemma process_func_codes:
  "process_func CREATE_ENGINE = Some SS_CreateEngineInner" "process_func RELEASE_ENGINE = Some SS_ReleaseEngineInner"
  "process_func GET_REPORTED_FILES = Some SS_GetReportedFilesInner" "process_func GET_PARAMETER = Some SS_GetParameterInner"
  "process_func GET_CLONE_FILES_LIST = Some SS_GetCloneFileListInner" "process_func GET_CLONE_FILE = Some SS_GetCloneFileInner"
  "process_func SEND_CLONE_FILE = Some SS_SendCloneFileInner" "process_func CLONE_FOR_RESULT = Some SS_CloneForResultInner"
  "process_func SET_PARAMETER = Some SS_SetParameterInner" "process_func CLEAR_USER_DATA = Some SS_ClearUserDataInner"
  "process_func REGISTER_DEVICE = Some SS_RegisterDeviceInner" "process_func DEREGISTER_DEVICE = Some SS_DeregisterDeviceInner"
  by (simp_all add: process_func_def code_defs)

lemma remote_simple:
  assumes L: "parcel_laws P view"
  shows "Proxy_SetParameter P (SendRequest P tr S) kv s = (case si_SetParameter S kv s of (r, s1) \<Rightarrow> (passed P tr r, s1))"
    "Proxy_EnrollWithWakeupFilesForResult P (SendRequest P tr S) info ob s =
       (case si_EnrollWithWakeupFilesForResult S info ob s of (r, s1) \<Rightarrow> (passed P tr r, s1))"
    "Proxy_ClearUserData P (SendRequest P tr S) s = (case si_ClearUserData S s of (r, s1) \<Rightarrow> (passed P tr r, s1))"
    "Proxy_DeregisterDeviceWakeupInfo P (SendRequest P tr S) mac s = (case si_DeregisterDeviceWakeupInfo S mac s of (r, s1) \<Rightarrow> (passed P tr r, s1))"
  unfolding Proxy_SetParameter_def Proxy_EnrollWithWakeupFilesForResult_def Proxy_ClearUserData_def Proxy_DeregisterDeviceWakeupInfo_def
  by (rule simple_request_call [OF L process_func_codes(9)] simple_request_call [OF L process_func_codes(8)]
        simple_request_call [OF L process_func_codes(10)] simple_request_call [OF L process_func_codes(12)],
      simp add: stub_defs split_def Let_def parcel_read [OF L])+

lemma remote_release:
  assumes L: "parcel_laws P view"
  shows "Proxy_ReleaseIntellVoiceEngine P (SendRequest P tr S) ty s =
     (case si_ReleaseIntellVoiceEngine S ty s of (r, s1) \<Rightarrow> (passed P tr r, snd (si_DeregisterDeathRecipient S ty s1)))"
proof -
  let ?g = "\<lambda>s. case si_ReleaseIntellVoiceEngine S ty s of (r, s1) \<Rightarrow> (r, snd (si_DeregisterDeathRecipient S ty s1))"
  have "simple_request P (SendRequest P tr S) RELEASE_ENGINE [PInt ty] s = (case ?g s of (r, s1) \<Rightarrow> (passed P tr r, s1))"
    by (rule simple_request_call [OF L process_func_codes(2)]) (simp add: stub_defs split_def Let_def parcel_read [OF L])
  then show ?thesis by (simp add: Proxy_ReleaseIntellVoiceEngine_def split_def)
qed

lemma remote_send_file:
  assumes L: "parcel_laws P view" and n: "0 < length b" "length b \<le> CROSS_PROCESS_BUF_SIZE_LIMIT"
  shows "Proxy_SendWakeupFile P (SendRequest P tr S) path b s = (case si_SendWakeupFile S path b s of (r, s1) \<Rightarrow> (passed P tr r, s1))"
proof -
  let ?n = "of_nat (length b) :: 32 word"
  have u: "unat ?n = length b" using n by (simp add: CROSS_PROCESS_BUF_SIZE_LIMIT_def unat_of_nat)
  with n(1) have nz: "?n \<noteq> 0" by (metis less_irrefl unat_0)
  have "simple_request P (SendRequest P tr S) SEND_CLONE_FILE [PString path, PUint ?n, PBuffer b] s =
    (case si_SendWakeupFile S path b s of (r, s1) \<Rightarrow> (passed P tr r, s1))"
    by (rule simple_request_call [OF L process_func_codes(7)])
      (use n nz u in \<open>simp add: stub_defs split_def Let_def parcel_read [OF L] FILE_SIZE_MAX_def CROSS_PROCESS_BUF_SIZE_LIMIT_def\<close>)
  with n show ?thesis by (simp add: Proxy_SendWakeupFile_def)
qed

lemma remote_register:
  assumes L: "parcel_laws P view" and T: "transport_laws view tr"
  shows "Proxy_RegisterDeviceWakeupInfo P (SendRequest P tr S) (Some stub) mac info s =
     (case si_RegisterDeviceDeathRecipient S (wi_serviceName info) (Some stub) s of (ok, s1) \<Rightarrow>
        if \<not> ok then (-1, s1)
        else case si_RegisterDeviceWakeupInfo S mac (info\<lparr>wi_type := uint (of_int (wi_type info) :: 32 word)\<rparr>) s1 of (r, s2) \<Rightarrow> (passed P tr r, s2))"
proof -
  let ?args = "[PString mac, PUint (of_int (wi_type info)), PString (wi_serviceName info), PString (wi_parameters info), PObject (Some stub)]"
  note d = request_view [OF L, of GetDescriptor "?args"] SendRequest_call [OF L process_func_codes(11)]
  have i: "\<lparr>wi_type = t, wi_serviceName = wi_serviceName info, wi_parameters = wi_parameters info\<rparr> = info\<lparr>wi_type := t\<rparr>" for t by simp
  have e: "tr (-1) (pc_new P) \<noteq> 0" using T parcel_view(1) [OF L] by (simp add: transport_laws_def)
  show ?thesis
    by (simp add: Proxy_RegisterDeviceWakeupInfo_def simple_request_def d stub_defs split_def Let_def parcel_read [OF L] parcel_view [OF L] passed_def i e)
qed

lemma remote_parameter:
  assumes L: "parcel_laws P view" and T: "transport_laws view tr"
  shows "Proxy_GetParameter P (SendRequest P tr S) key s = si_GetParameter S key s"
proof -
  note d = request_view [OF L, of GetDescriptor "[PString key]"] SendRequest_call [OF L process_func_codes(4)]
  show ?thesis using T
    by (simp add: Proxy_GetParameter_def d stub_defs split_def Let_def parcel_read [OF L] parcel_view [OF L] transport_laws_def)
qed

lemma remote_create:
  assumes L: "parcel_laws P view" and T: "transport_laws view tr"
  shows "Proxy_CreateIntellVoiceEngine P (SendRequest P tr S) stub ty inst s =
     (case si_CreateIntellVoiceEngine S (created_type ty) (snd (si_RegisterDeathRecipient S ty stub s)) of
        (r, e, s1) \<Rightarrow> if r \<noteq> 0 then (passed P tr r, inst, s1) else case e of None \<Rightarrow> (-1, inst, s1) | Some x \<Rightarrow> (0, Some x, s1))"
proof -

  obtain r e s1 where c: "si_CreateIntellVoiceEngine S (created_type ty) (snd (si_RegisterDeathRecipient S ty stub s)) = (r, e, s1)"
    by (rule prod_cases3)
  have "SS_CreateEngineInner P S (request P GetDescriptor [PInt ty, PObject stub]) p s =
      (r, if r \<noteq> 0 \<or> e = None then pc_write P (PInt r) p else pc_write P (PObject e) (pc_write P (PInt r) p), s1)" for p
    by (simp add: SS_CreateEngineInner_def split_def Let_def request_view [OF L] parcel_read [OF L] c)
  note call = SendRequest_call [OF L process_func_codes(1)] this
  have t: "tr 0 p = 0" for p using T by (simp add: transport_laws_def)
  show ?thesis
  proof (cases "r = 0")
    case True
    then show ?thesis by (cases e)
      (simp_all add: Proxy_CreateIntellVoiceEngine_def call c t split_def Let_def parcel_read [OF L] parcel_view [OF L] parcel_end [OF L])
  next
    case False
    then show ?thesis
      by (simp add: Proxy_CreateIntellVoiceEngine_def call c passed_def split_def Let_def parcel_read [OF L] parcel_view [OF L])
  qed
qed

lemma remote_uploads:
  assumes L: "parcel_laws P view" and T: "transport_laws view tr"
    and c: "si_GetUploadFiles S n s = (r, fs, s1)"
    and small: "length fs < 2 ^ 31" "\<forall>f\<in>set fs. length (uf_filesContent f) < 2 ^ 31"
  shows "Proxy_GetUploadFiles P (SendRequest P tr S) n files s =
     (if r \<noteq> 0 then (passed P tr r, files, s1) else if fs = [] then (-1, files, s1) else (0, files @ fs, s1))"
proof -
  have "int32_size [] = 0" by (simp add: int32_size_def)
  note call = SendRequest_call [OF L process_func_codes(3)] int32_size_small [OF small(1)] this
  have t: "tr 0 p = 0" for p using T by (simp add: transport_laws_def)
  consider "r \<noteq> 0" | "r = 0" "fs = []" | "r = 0" "fs \<noteq> []" by blast
  then show ?thesis
  proof cases
    case 3
    then have "int (length fs) > 0" by simp
    then show ?thesis using 3 read_uploads_view [OF L _ small(2)]
      by (simp add: Proxy_GetUploadFiles_def call SS_GetReportedFilesInner_def c t split_def Let_def request_view [OF L] parcel_read [OF L] parcel_view [OF L])
  qed (simp_all add: Proxy_GetUploadFiles_def call SS_GetReportedFilesInner_def c passed_def split_def Let_def request_view [OF L] parcel_read [OF L] parcel_view [OF L])
qed

text \<open>The number of files and the size of a file travel as 32 bits.\<close>

lemma remote_files_list:
  assumes L: "parcel_laws P view" and T: "transport_laws view tr" and c: "si_GetWakeupSourceFilesList S s = (r, ns, s1)"
  shows "Proxy_GetWakeupSourceFilesList P (SendRequest P tr S) files s =
     (if r \<noteq> 0 then (passed P tr r, files, s1) else if length ns mod 2 ^ 32 > CLONE_FILES_NUM_MAX then (-1, files, s1)
      else (0, files @ take (length ns mod 2 ^ 32) ns, s1))"
proof -
  have t: "tr 0 p = 0" for p using T by (simp add: transport_laws_def)
  have n: "length ns mod 2 ^ 32 \<le> length ns" by simp
  show ?thesis using read_strings_view [OF L _ n]
    by (simp add: Proxy_GetWakeupSourceFilesList_def SendRequest_call [OF L process_func_codes(5)] SS_GetCloneFileListInner_def c passed_def t
      unat_of_nat split_def Let_def request_view [OF L] parcel_read [OF L] parcel_view [OF L])
qed

lemma remote_source_file:
  assumes L: "parcel_laws P view" and T: "transport_laws view tr" and c: "si_GetWakeupSourceFile S path s = (r, b, s1)"
  shows "Proxy_GetWakeupSourceFile P (SendRequest P tr S) path buf s =
     (if r \<noteq> 0 then (passed P tr r, buf, s1)
      else if length b mod 2 ^ 32 = 0 \<or> length b mod 2 ^ 32 > CROSS_PROCESS_BUF_SIZE_LIMIT then (-1, buf, s1)
      else (0, take (length b mod 2 ^ 32) b, s1))"
proof -
  have t: "tr 0 p = 0" for p using T by (simp add: transport_laws_def)
  have u: "unat (of_nat (length b) :: 32 word) = length b mod 2 ^ 32" by (simp add: unat_of_nat)
  have z: "(of_nat (length b) :: 32 word) = 0 \<longleftrightarrow> length b mod 2 ^ 32 = 0" using u by (metis unat_eq_zero)
  show ?thesis
    by (simp add: Proxy_GetWakeupSourceFile_def SendRequest_call [OF L process_func_codes(6)] SS_GetCloneFileInner_def c passed_def t
      u z split_def Let_def request_view [OF L] parcel_read [OF L] parcel_view [OF L])
qed

section \<open>A remote call is the call of the service\<close>

text \<open>
  C28. Over any parcels that give back what was written and any transport that passes success on, a call through proxy and stub is the
  call of the service with the same arguments: the service is called exactly once, its state afterwards is the state after that call, the
  client gets what the service gave, and its result when it is success; when not, the client sees that result or -1 (\<open>passed\<close>, never success). The checks
  on the way: an engine is created after its client's death recipient is registered, the types of headset and device engine being those of
  the wake-up engine; an empty or too large file is not sent; a list of more than 100 files or a file of no bytes or more than 256 KiB is
  refused after the service gave it, nothing being written to the client's arguments; a device is registered only when the death recipient
  is, and its type travels as 32 bits.
\<close>

theorem remote_call_transparent:
  assumes L: "parcel_laws P view" and T: "transport_laws view tr"
  shows "(passed P tr r = 0 \<longleftrightarrow> r = 0) \<and> passed P tr r \<in> {r, -1} \<and>
    Proxy_CreateIntellVoiceEngine P (SendRequest P tr S) stub ty inst s =
      (case si_CreateIntellVoiceEngine S (created_type ty) (snd (si_RegisterDeathRecipient S ty stub s)) of (r, e, s1) \<Rightarrow>
         if r \<noteq> 0 then (passed P tr r, inst, s1) else case e of None \<Rightarrow> (-1, inst, s1) | Some x \<Rightarrow> (0, Some x, s1)) \<and>
    Proxy_ReleaseIntellVoiceEngine P (SendRequest P tr S) ty s =
      (case si_ReleaseIntellVoiceEngine S ty s of (r, s1) \<Rightarrow> (passed P tr r, snd (si_DeregisterDeathRecipient S ty s1))) \<and>
    (\<forall>r fs s1. si_GetUploadFiles S n s = (r, fs, s1) \<and> length fs < 2 ^ 31 \<and> (\<forall>f\<in>set fs. length (uf_filesContent f) < 2 ^ 31) \<longrightarrow>
      Proxy_GetUploadFiles P (SendRequest P tr S) n uploads s =
        (if r \<noteq> 0 then (passed P tr r, uploads, s1) else if fs = [] then (-1, uploads, s1) else (0, uploads @ fs, s1))) \<and>
    Proxy_GetParameter P (SendRequest P tr S) key s = si_GetParameter S key s \<and>
    Proxy_SetParameter P (SendRequest P tr S) kv s = (case si_SetParameter S kv s of (r, s1) \<Rightarrow> (passed P tr r, s1)) \<and>
    (\<forall>r ns s1. si_GetWakeupSourceFilesList S s = (r, ns, s1) \<longrightarrow>
      Proxy_GetWakeupSourceFilesList P (SendRequest P tr S) files s =
        (if r \<noteq> 0 then (passed P tr r, files, s1) else if length ns mod 2 ^ 32 > CLONE_FILES_NUM_MAX then (-1, files, s1)
         else (0, files @ take (length ns mod 2 ^ 32) ns, s1))) \<and>
    (\<forall>r b s1. si_GetWakeupSourceFile S path s = (r, b, s1) \<longrightarrow>
      Proxy_GetWakeupSourceFile P (SendRequest P tr S) path buffer s =
        (if r \<noteq> 0 then (passed P tr r, buffer, s1)
         else if length b mod 2 ^ 32 = 0 \<or> length b mod 2 ^ 32 > CROSS_PROCESS_BUF_SIZE_LIMIT then (-1, buffer, s1)
         else (0, take (length b mod 2 ^ 32) b, s1))) \<and>
    Proxy_SendWakeupFile P (SendRequest P tr S) path buffer s =
      (if length buffer = 0 \<or> length buffer > CROSS_PROCESS_BUF_SIZE_LIMIT then (-1, s)
       else case si_SendWakeupFile S path buffer s of (r, s1) \<Rightarrow> (passed P tr r, s1)) \<and>
    Proxy_EnrollWithWakeupFilesForResult P (SendRequest P tr S) wakeupInfo ob s =
      (case si_EnrollWithWakeupFilesForResult S wakeupInfo ob s of (r, s1) \<Rightarrow> (passed P tr r, s1)) \<and>
    Proxy_ClearUserData P (SendRequest P tr S) s = (case si_ClearUserData S s of (r, s1) \<Rightarrow> (passed P tr r, s1)) \<and>
    Proxy_RegisterDeviceWakeupInfo P (SendRequest P tr S) stub mac info s =
      (if stub = None then (-1, s)
       else case si_RegisterDeviceDeathRecipient S (wi_serviceName info) stub s of (ok, s1) \<Rightarrow>
         if \<not> ok then (-1, s1)
         else case si_RegisterDeviceWakeupInfo S mac (info\<lparr>wi_type := uint (of_int (wi_type info) :: 32 word)\<rparr>) s1 of (r, s2) \<Rightarrow> (passed P tr r, s2)) \<and>
    Proxy_DeregisterDeviceWakeupInfo P (SendRequest P tr S) mac s =
      (case si_DeregisterDeviceWakeupInfo S mac s of (r, s1) \<Rightarrow> (passed P tr r, s1))"
proof (intro conjI allI impI)
  show "passed P tr r = 0 \<longleftrightarrow> r = 0" "passed P tr r \<in> {r, -1}" using passed_result [OF T] by auto
  show "Proxy_SendWakeupFile P (SendRequest P tr S) path buffer s =
      (if length buffer = 0 \<or> length buffer > CROSS_PROCESS_BUF_SIZE_LIMIT then (-1, s)
       else case si_SendWakeupFile S path buffer s of (r, s1) \<Rightarrow> (passed P tr r, s1))"
    using remote_send_file [OF L, of buffer] by (auto simp: Proxy_SendWakeupFile_def [of _ _ _ buffer])
  show "Proxy_RegisterDeviceWakeupInfo P (SendRequest P tr S) stub mac info s =
      (if stub = None then (-1, s)
       else case si_RegisterDeviceDeathRecipient S (wi_serviceName info) stub s of (ok, s1) \<Rightarrow>
         if \<not> ok then (-1, s1)
         else case si_RegisterDeviceWakeupInfo S mac (info\<lparr>wi_type := uint (of_int (wi_type info) :: 32 word)\<rparr>) s1 of (r, s2) \<Rightarrow> (passed P tr r, s2))"
    by (cases stub) (simp_all only: remote_register [OF L T], simp_all add: Proxy_RegisterDeviceWakeupInfo_def)
next
  fix r fs s1
  assume "si_GetUploadFiles S n s = (r, fs, s1) \<and> length fs < 2 ^ 31 \<and> (\<forall>f\<in>set fs. length (uf_filesContent f) < 2 ^ 31)"
  then show "Proxy_GetUploadFiles P (SendRequest P tr S) n uploads s =
      (if r \<noteq> 0 then (passed P tr r, uploads, s1) else if fs = [] then (-1, uploads, s1) else (0, uploads @ fs, s1))"
    by (elim conjE) (rule remote_uploads [OF L T])
qed (simp_all only: remote_create [OF L T] remote_release [OF L] remote_parameter [OF L T] remote_simple [OF L]
    remote_files_list [OF L T] remote_source_file [OF L T])

text \<open>A service that keeps the last file.\<close>

definition last_file_service :: "(string \<times> bytes) service_if" where
  "last_file_service = \<lparr>si_CreateIntellVoiceEngine = (\<lambda>_ s. (0, Some 7, s)), si_ReleaseIntellVoiceEngine = (\<lambda>_ s. (0, s)),
     si_GetUploadFiles = (\<lambda>_ s. (0, [], s)), si_GetParameter = (\<lambda>k s. (fst s, s)), si_SetParameter = (\<lambda>_ s. (201, s)),
     si_GetWakeupSourceFilesList = (\<lambda>s. (0, [fst s], s)), si_GetWakeupSourceFile = (\<lambda>_ s. (0, snd s, s)),
     si_SendWakeupFile = (\<lambda>path b _. (0, path, b)), si_EnrollWithWakeupFilesForResult = (\<lambda>_ _ s. (0, s)), si_ClearUserData = (\<lambda>s. (0, '''', [])),
     si_RegisterDeviceWakeupInfo = (\<lambda>_ _ s. (0, s)), si_DeregisterDeviceWakeupInfo = (\<lambda>_ s. (0, s)), si_RegisterDeathRecipient = (\<lambda>_ _ s. (True, s)),
     si_DeregisterDeathRecipient = (\<lambda>_ s. (True, s)), si_RegisterDeviceDeathRecipient = (\<lambda>_ _ s. (True, s))\<rparr>"

text \<open>A file sent through the proxy is the file the service has, a file asked for is the one it has, an error of the service is its number.\<close>

theorem remote_call_transparent_witness:
  "let send = SendRequest list_parcels status_transport last_file_service
   in Proxy_SendWakeupFile list_parcels send ''a.wav'' [1, 2, 3] ('''', []) = (0, ''a.wav'', [1, 2, 3]) \<and>
      Proxy_GetWakeupSourceFile list_parcels send ''a.wav'' [] (''a.wav'', [1, 2, 3]) = (0, [1, 2, 3], ''a.wav'', [1, 2, 3]) \<and>
      Proxy_SetParameter list_parcels send ''x=1'' ('''', []) = (201, '''', [])"
proof -
  let ?S = "last_file_service"
  have p: "passed list_parcels status_transport r = r" for r by (simp add: passed_def list_parcels_def status_transport_def)
  note c = remote_call_transparent [OF list_parcels_laws, of _ ?S]
  have "Proxy_SendWakeupFile list_parcels (SendRequest list_parcels status_transport ?S) ''a.wav'' [1, 2, 3] ('''', []) = (0, ''a.wav'', [1, 2, 3])"
    using c [of _ _ _ _ "('''', [])" _ _ _ _ _ "''a.wav''" "[1, 2, 3]"] by (simp add: p last_file_service_def CROSS_PROCESS_BUF_SIZE_LIMIT_def)
  moreover have "Proxy_GetWakeupSourceFile list_parcels (SendRequest list_parcels status_transport ?S) ''a.wav'' [] (''a.wav'', [1, 2, 3]) = (0, [1, 2, 3], ''a.wav'', [1, 2, 3])"
    using c [of _ _ _ _ "(''a.wav'', [1, 2, 3])" _ _ _ _ _ "''a.wav''" "[]"] by (simp add: p last_file_service_def CROSS_PROCESS_BUF_SIZE_LIMIT_def)
  moreover have "Proxy_SetParameter list_parcels (SendRequest list_parcels status_transport ?S) ''x=1'' ('''', []) = (201, '''', [])"
    using c [of _ _ _ _ "('''', [])" _ _ _ "''x=1''"] by (simp add: p last_file_service_def)
  ultimately show ?thesis by (simp add: Let_def)
qed

end
