(* ===== verification/Engine_Ipc.thy ===== *)
theory Engine_Ipc
  imports Wakeup_Facade Enroll_Engine Ipc_Parcel
begin

text \<open>
  The way of a client's call to its engine: \<open>services/intell_voice_engine/proxy/intell_voice_engine_proxy.cpp\<close> writes it to a parcel,
  \<open>services/intell_voice_engine/server/base/intell_voice_engine_stub.cpp\<close> reads it and calls the engine, any implementation of the
  interface (the record \<open>engine_if\<close>). The property is that a remote call is the call of the engine, up to the checks of proxy and stub.
\<close>

section \<open>The interface of an engine\<close>

record EvaluationResult =
  er_score :: int
  er_resultCode :: int

record 's engine_if =
  eif_SetCallback :: "nat option \<Rightarrow> 's \<Rightarrow> 's"
  eif_Attach :: "engine_info \<Rightarrow> 's \<Rightarrow> int \<times> 's"
  eif_Detach :: "'s \<Rightarrow> int \<times> 's"
  eif_SetParameter :: "string \<Rightarrow> 's \<Rightarrow> int \<times> 's"
  eif_GetParameter :: "string \<Rightarrow> 's \<Rightarrow> string \<times> 's"
  eif_Start :: "bool \<Rightarrow> 's \<Rightarrow> int \<times> 's"
  eif_Stop :: "'s \<Rightarrow> int \<times> 's"
  eif_WriteAudio :: "bytes \<Rightarrow> 's \<Rightarrow> int \<times> 's"
  eif_StartCapturer :: "int \<Rightarrow> 's \<Rightarrow> int \<times> 's"
  eif_Read :: "'s \<Rightarrow> int \<times> bytes \<times> 's"
  eif_StopCapturer :: "'s \<Rightarrow> int \<times> 's"
  eif_GetWakeupPcm :: "'s \<Rightarrow> int \<times> bytes \<times> 's"
  eif_Evaluate :: "string \<Rightarrow> 's \<Rightarrow> int \<times> EvaluationResult \<times> 's"
  eif_NotifyDeviceWakeupEvent :: "string \<Rightarrow> EventDetail \<Rightarrow> 's \<Rightarrow> int \<times> 's"

text \<open>The codes of the requests, in the order of their enumeration (two of them are not used); the descriptor of the interface.\<close>

definition ENGINE_SET_CALLBACK :: nat where "ENGINE_SET_CALLBACK = 0"

definition ENGINE_ATTACH :: nat where "ENGINE_ATTACH = 1"

definition ENGINE_DETACH :: nat where "ENGINE_DETACH = 2"

definition ENGINE_SET_PARAMETER :: nat where "ENGINE_SET_PARAMETER = 3"

definition ENGINE_GET_PARAMETER :: nat where "ENGINE_GET_PARAMETER = 4"

definition ENGINE_START :: nat where "ENGINE_START = 5"

definition ENGINE_STOP :: nat where "ENGINE_STOP = 6"

definition ENGINE_WRITE_AUDIO :: nat where "ENGINE_WRITE_AUDIO = 7"

definition ENGINE_STAET_CAPTURER :: nat where "ENGINE_STAET_CAPTURER = 8"

definition ENGINE_READ :: nat where "ENGINE_READ = 9"

definition ENGINE_STOP_CAPTURER :: nat where "ENGINE_STOP_CAPTURER = 10"

definition ENGINE_GET_WAKEUP_PCM :: nat where "ENGINE_GET_WAKEUP_PCM = 11"

definition ENGINE_EVALUATE :: nat where "ENGINE_EVALUATE = 12"

definition ENGINE_NOTIFY_DEVICE_WAKEUP_EVENT :: nat where "ENGINE_NOTIFY_DEVICE_WAKEUP_EVENT = 15"

definition Engine_GetDescriptor :: string where
  "Engine_GetDescriptor = ''HDI.IntellVoice.Engine''"

definition BUFFER_SIZE_MAX :: nat where
  "BUFFER_SIZE_MAX = 10 * 1024 * 1024"

section \<open>The stub\<close>

definition EN_SetCallbackInner :: "'p parcel_ops \<Rightarrow> 's engine_if \<Rightarrow> 'p \<Rightarrow> 'p \<Rightarrow> 's \<Rightarrow> int \<times> 'p \<times> 's" where
  "EN_SetCallbackInner P E data reply s = (let (object, _) = pc_ReadRemoteObject P data in (0, reply, eif_SetCallback E object s))"

text \<open>The stub functions that make one call and write its result alone.\<close>

definition answer :: "'p parcel_ops \<Rightarrow> ('s \<Rightarrow> int \<times> 's) \<Rightarrow> 'p \<Rightarrow> 's \<Rightarrow> int \<times> 'p \<times> 's" where
  "answer P call reply s = (let (ret, s1) = call s in (ret, pc_write P (PInt ret) reply, s1))"

definition EN_AttachInner :: "'p parcel_ops \<Rightarrow> 's engine_if \<Rightarrow> 'p \<Rightarrow> 'p \<Rightarrow> 's \<Rightarrow> int \<times> 'p \<times> 's" where
  "EN_AttachInner P E data reply s =
     (let (wakeupPhrase, d1) = pc_ReadString P data; (isPcmFromExternal, d2) = pc_ReadBool P d1; (minBufSize, d3) = pc_ReadInt32 P d2;
          (sampleChannels, d4) = pc_ReadInt32 P d3; (bitsPerSample, d5) = pc_ReadInt32 P d4; (sampleRate, _) = pc_ReadInt32 P d5
      in answer P (eif_Attach E \<lparr>ei_wakeupPhrase = wakeupPhrase, ei_isPcmFromExternal = isPcmFromExternal, ei_minBufSize = minBufSize,
           ei_sampleChannels = sampleChannels, ei_bitsPerSample = bitsPerSample, ei_sampleRate = sampleRate\<rparr>) reply s)"

definition EN_DetachInner :: "'p parcel_ops \<Rightarrow> 's engine_if \<Rightarrow> 'p \<Rightarrow> 'p \<Rightarrow> 's \<Rightarrow> int \<times> 'p \<times> 's" where
  "EN_DetachInner P E data reply s = answer P (eif_Detach E) reply s"

definition EN_SetParameterInner :: "'p parcel_ops \<Rightarrow> 's engine_if \<Rightarrow> 'p \<Rightarrow> 'p \<Rightarrow> 's \<Rightarrow> int \<times> 'p \<times> 's" where
  "EN_SetParameterInner P E data reply s = answer P (eif_SetParameter E (fst (pc_ReadString P data))) reply s"

definition EN_GetParameterInner :: "'p parcel_ops \<Rightarrow> 's engine_if \<Rightarrow> 'p \<Rightarrow> 'p \<Rightarrow> 's \<Rightarrow> int \<times> 'p \<times> 's" where
  "EN_GetParameterInner P E data reply s =
     (let (value, s1) = eif_GetParameter E (fst (pc_ReadString P data)) s in (0, pc_write P (PString value) reply, s1))"

definition EN_StartInner :: "'p parcel_ops \<Rightarrow> 's engine_if \<Rightarrow> 'p \<Rightarrow> 'p \<Rightarrow> 's \<Rightarrow> int \<times> 'p \<times> 's" where
  "EN_StartInner P E data reply s = answer P (eif_Start E (fst (pc_ReadBool P data))) reply s"

definition EN_StopInner :: "'p parcel_ops \<Rightarrow> 's engine_if \<Rightarrow> 'p \<Rightarrow> 'p \<Rightarrow> 's \<Rightarrow> int \<times> 'p \<times> 's" where
  "EN_StopInner P E data reply s = answer P (eif_Stop E) reply s"

definition EN_WriteAudioInner :: "'p parcel_ops \<Rightarrow> 's engine_if \<Rightarrow> 'p \<Rightarrow> 'p \<Rightarrow> 's \<Rightarrow> int \<times> 'p \<times> 's" where
  "EN_WriteAudioInner P E data reply s =
     (let (size, d1) = pc_ReadInt32 P data
      in if size \<le> 0 then (-1, reply, s)
         else (case fst (pc_ReadBuffer P (nat size) d1) of None \<Rightarrow> (-1, reply, s) | Some buffer \<Rightarrow> answer P (eif_WriteAudio E buffer) reply s))"

definition EN_StartCapturerInner :: "'p parcel_ops \<Rightarrow> 's engine_if \<Rightarrow> 'p \<Rightarrow> 'p \<Rightarrow> 's \<Rightarrow> int \<times> 'p \<times> 's" where
  "EN_StartCapturerInner P E data reply s = answer P (eif_StartCapturer E (fst (pc_ReadInt32 P data))) reply s"

text \<open>\<open>ReadInner\<close> and \<open>GetWakeupPcmInner\<close> write the audio after the result.\<close>

definition answer_pcm :: "'p parcel_ops \<Rightarrow> ('s \<Rightarrow> int \<times> bytes \<times> 's) \<Rightarrow> 'p \<Rightarrow> 's \<Rightarrow> int \<times> 'p \<times> 's" where
  "answer_pcm P call reply s =
     (let (ret, pcmData, s1) = call s; reply1 = pc_write P (PInt ret) reply
      in (ret, if ret \<noteq> 0 then reply1 else write_all P [PUint (of_nat (length pcmData)), PBuffer pcmData] reply1, s1))"

definition EN_ReadInner :: "'p parcel_ops \<Rightarrow> 's engine_if \<Rightarrow> 'p \<Rightarrow> 'p \<Rightarrow> 's \<Rightarrow> int \<times> 'p \<times> 's" where
  "EN_ReadInner P E data reply s = answer_pcm P (eif_Read E) reply s"

definition EN_StopCapturerInner :: "'p parcel_ops \<Rightarrow> 's engine_if \<Rightarrow> 'p \<Rightarrow> 'p \<Rightarrow> 's \<Rightarrow> int \<times> 'p \<times> 's" where
  "EN_StopCapturerInner P E data reply s = answer P (eif_StopCapturer E) reply s"

definition EN_GetWakeupPcmInner :: "'p parcel_ops \<Rightarrow> 's engine_if \<Rightarrow> 'p \<Rightarrow> 'p \<Rightarrow> 's \<Rightarrow> int \<times> 'p \<times> 's" where
  "EN_GetWakeupPcmInner P E data reply s = answer_pcm P (eif_GetWakeupPcm E) reply s"

definition EN_EvaluateInner :: "'p parcel_ops \<Rightarrow> 's engine_if \<Rightarrow> 'p \<Rightarrow> 'p \<Rightarrow> 's \<Rightarrow> int \<times> 'p \<times> 's" where
  "EN_EvaluateInner P E data reply s =
     (let (ret, result, s1) = eif_Evaluate E (fst (pc_ReadString P data)) s; reply1 = pc_write P (PInt ret) reply
      in (ret, if ret \<noteq> 0 then reply1 else write_all P [PInt (er_score result), PInt (er_resultCode result)] reply1, s1))"

definition EN_NotifyDeviceWakeupEventInner :: "'p parcel_ops \<Rightarrow> 's engine_if \<Rightarrow> 'p \<Rightarrow> 'p \<Rightarrow> 's \<Rightarrow> int \<times> 'p \<times> 's" where
  "EN_NotifyDeviceWakeupEventInner P E data reply s =
     (let (macAddress, d1) = pc_ReadString P data; (eventCode, d2) = pc_ReadInt32 P d1; (endFrameIndex, _) = pc_ReadInt32 P d2
      in if eventCode \<ge> 2 \<or> eventCode < 0 then (1, reply, s)
         else answer P (eif_NotifyDeviceWakeupEvent E macAddress \<lparr>ev_wakeupEvent = eventCode, ev_endFrameIndex = endFrameIndex\<rparr>) reply s)"

text \<open>\<open>processFuncMap_\<close>.\<close>

definition engine_func :: "nat \<Rightarrow> ('p parcel_ops \<Rightarrow> 's engine_if \<Rightarrow> 'p \<Rightarrow> 'p \<Rightarrow> 's \<Rightarrow> int \<times> 'p \<times> 's) option" where
  "engine_func = [ENGINE_SET_CALLBACK \<mapsto> EN_SetCallbackInner,
     ENGINE_ATTACH \<mapsto> EN_AttachInner,
     ENGINE_DETACH \<mapsto> EN_DetachInner,
     ENGINE_SET_PARAMETER \<mapsto> EN_SetParameterInner,
     ENGINE_GET_PARAMETER \<mapsto> EN_GetParameterInner,
     ENGINE_START \<mapsto> EN_StartInner,
     ENGINE_STOP \<mapsto> EN_StopInner,
     ENGINE_WRITE_AUDIO \<mapsto> EN_WriteAudioInner,
     ENGINE_STAET_CAPTURER \<mapsto> EN_StartCapturerInner,
     ENGINE_READ \<mapsto> EN_ReadInner,
     ENGINE_STOP_CAPTURER \<mapsto> EN_StopCapturerInner,
     ENGINE_GET_WAKEUP_PCM \<mapsto> EN_GetWakeupPcmInner,
     ENGINE_EVALUATE \<mapsto> EN_EvaluateInner,
     ENGINE_NOTIFY_DEVICE_WAKEUP_EVENT \<mapsto> EN_NotifyDeviceWakeupEventInner]"

definition Engine_OnRemoteRequest :: "'p parcel_ops \<Rightarrow> 's engine_if \<Rightarrow> nat \<Rightarrow> 'p \<Rightarrow> 'p \<Rightarrow> 's \<Rightarrow> int \<times> 'p \<times> 's" where
  "Engine_OnRemoteRequest P E code data reply s =
     (let (token, data1) = pc_ReadInterfaceToken P data
      in if token \<noteq> Engine_GetDescriptor then (-1, reply, s)
         else (case engine_func code of
             Some f \<Rightarrow> f P E data1 reply s
           | None \<Rightarrow> (let (ret, reply1) = pc_OnRemoteRequest P code data1 reply in (ret, reply1, s))))"

definition Engine_SendRequest :: "'p parcel_ops \<Rightarrow> (int \<Rightarrow> 'p \<Rightarrow> int) \<Rightarrow> 's engine_if \<Rightarrow> ('p, 's) sender" where
  "Engine_SendRequest P tr E = ipc_send P tr Engine_GetDescriptor (Engine_OnRemoteRequest P E)"

interpretation engine_stub: remote_stub Engine_GetDescriptor Engine_OnRemoteRequest engine_func
  by unfold_locales (auto simp: Engine_OnRemoteRequest_def split_def)

section \<open>The proxy\<close>

definition EP_SetCallback :: "'p parcel_ops \<Rightarrow> ('p, 's) sender \<Rightarrow> nat option \<Rightarrow> 's \<Rightarrow> 's" where
  "EP_SetCallback P send object s = (if object = None then s else snd (snd (send ENGINE_SET_CALLBACK [PObject object] s)))"

definition EP_Attach :: "'p parcel_ops \<Rightarrow> ('p, 's) sender \<Rightarrow> engine_info \<Rightarrow> 's \<Rightarrow> int \<times> 's" where
  "EP_Attach P send info s = simple_request P send ENGINE_ATTACH [PString (ei_wakeupPhrase info), PBool (ei_isPcmFromExternal info), PInt (ei_minBufSize info),
     PInt (ei_sampleChannels info), PInt (ei_bitsPerSample info), PInt (ei_sampleRate info)] s"

definition EP_Detach :: "'p parcel_ops \<Rightarrow> ('p, 's) sender \<Rightarrow> 's \<Rightarrow> int \<times> 's" where
  "EP_Detach P send s = simple_request P send ENGINE_DETACH [] s"

definition EP_SetParameter :: "'p parcel_ops \<Rightarrow> ('p, 's) sender \<Rightarrow> string \<Rightarrow> 's \<Rightarrow> int \<times> 's" where
  "EP_SetParameter P send keyValueList s = simple_request P send ENGINE_SET_PARAMETER [PString keyValueList] s"

definition EP_GetParameter :: "'p parcel_ops \<Rightarrow> ('p, 's) sender \<Rightarrow> string \<Rightarrow> 's \<Rightarrow> string \<times> 's" where
  "EP_GetParameter P send key s =
     (let (error, reply, s1) = send ENGINE_GET_PARAMETER [PString key] s in if error \<noteq> 0 then ('''', s1) else (fst (pc_ReadString P reply), s1))"

definition EP_Start :: "'p parcel_ops \<Rightarrow> ('p, 's) sender \<Rightarrow> bool \<Rightarrow> 's \<Rightarrow> int \<times> 's" where
  "EP_Start P send isLast s = simple_request P send ENGINE_START [PBool isLast] s"

definition EP_Stop :: "'p parcel_ops \<Rightarrow> ('p, 's) sender \<Rightarrow> 's \<Rightarrow> int \<times> 's" where
  "EP_Stop P send s = simple_request P send ENGINE_STOP [] s"

text \<open>The buffer is a pointer and a size of 32 bits: the bytes it names.\<close>

definition EP_WriteAudio :: "'p parcel_ops \<Rightarrow> ('p, 's) sender \<Rightarrow> bytes \<Rightarrow> 's \<Rightarrow> int \<times> 's" where
  "EP_WriteAudio P send buffer s = simple_request P send ENGINE_WRITE_AUDIO [PUint (of_nat (length buffer)), PBuffer buffer] s"

definition EP_StartCapturer :: "'p parcel_ops \<Rightarrow> ('p, 's) sender \<Rightarrow> int \<Rightarrow> 's \<Rightarrow> int \<times> 's" where
  "EP_StartCapturer P send channels s = simple_request P send ENGINE_STAET_CAPTURER [PInt channels] s"

definition read_pcm :: "'p parcel_ops \<Rightarrow> ('p, 's) sender \<Rightarrow> nat \<Rightarrow> bytes \<Rightarrow> 's \<Rightarrow> int \<times> bytes \<times> 's" where
  "read_pcm P send code buffer s =
     (let (error, reply, s1) = send code [] s
      in if error \<noteq> 0 then (-1, buffer, s1)
         else let (ret, reply1) = pc_ReadInt32 P reply
              in if ret \<noteq> 0 then (ret, buffer, s1)
                 else let (size, reply2) = pc_ReadUint32 P reply1
                      in if size = 0 then (-1, buffer, s1) else if unat size > BUFFER_SIZE_MAX then (-1, buffer, s1)
                         else (case fst (pc_ReadBuffer P (unat size) reply2) of None \<Rightarrow> (-1, buffer, s1) | Some b \<Rightarrow> (ret, b, s1)))"

definition EP_Read :: "'p parcel_ops \<Rightarrow> ('p, 's) sender \<Rightarrow> bytes \<Rightarrow> 's \<Rightarrow> int \<times> bytes \<times> 's" where
  "EP_Read P send buffer s = read_pcm P send ENGINE_READ buffer s"

definition EP_StopCapturer :: "'p parcel_ops \<Rightarrow> ('p, 's) sender \<Rightarrow> 's \<Rightarrow> int \<times> 's" where
  "EP_StopCapturer P send s = simple_request P send ENGINE_STOP_CAPTURER [] s"

definition EP_GetWakeupPcm :: "'p parcel_ops \<Rightarrow> ('p, 's) sender \<Rightarrow> bytes \<Rightarrow> 's \<Rightarrow> int \<times> bytes \<times> 's" where
  "EP_GetWakeupPcm P send buffer s = read_pcm P send ENGINE_GET_WAKEUP_PCM buffer s"

definition EP_Evaluate :: "'p parcel_ops \<Rightarrow> ('p, 's) sender \<Rightarrow> string \<Rightarrow> EvaluationResult \<Rightarrow> 's \<Rightarrow> int \<times> EvaluationResult \<times> 's" where
  "EP_Evaluate P send word result s =
     (let (error, reply, s1) = send ENGINE_EVALUATE [PString word] s
      in if error \<noteq> 0 then (-1, result, s1)
         else let (ret, reply1) = pc_ReadInt32 P reply
              in if ret \<noteq> 0 then (ret, result, s1)
                 else let (score, reply2) = pc_ReadInt32 P reply1; (resultCode, _) = pc_ReadInt32 P reply2
                      in (ret, \<lparr>er_score = score, er_resultCode = resultCode\<rparr>, s1))"

definition EP_NotifyDeviceWakeupEvent :: "'p parcel_ops \<Rightarrow> ('p, 's) sender \<Rightarrow> string \<Rightarrow> EventDetail \<Rightarrow> 's \<Rightarrow> int \<times> 's" where
  "EP_NotifyDeviceWakeupEvent P send macAddress event s = simple_request P send ENGINE_NOTIFY_DEVICE_WAKEUP_EVENT [PString macAddress, PInt (ev_wakeupEvent event), PInt (ev_endFrameIndex event)] s"

section \<open>Calls\<close>

lemmas engine_code_defs = ENGINE_SET_CALLBACK_def ENGINE_ATTACH_def ENGINE_DETACH_def ENGINE_SET_PARAMETER_def ENGINE_GET_PARAMETER_def
  ENGINE_START_def ENGINE_STOP_def ENGINE_WRITE_AUDIO_def ENGINE_STAET_CAPTURER_def ENGINE_READ_def ENGINE_STOP_CAPTURER_def
  ENGINE_GET_WAKEUP_PCM_def ENGINE_EVALUATE_def ENGINE_NOTIFY_DEVICE_WAKEUP_EVENT_def

lemma engine_func_codes:
  "engine_func ENGINE_SET_CALLBACK = Some EN_SetCallbackInner" "engine_func ENGINE_ATTACH = Some EN_AttachInner"
  "engine_func ENGINE_DETACH = Some EN_DetachInner" "engine_func ENGINE_SET_PARAMETER = Some EN_SetParameterInner"
  "engine_func ENGINE_GET_PARAMETER = Some EN_GetParameterInner" "engine_func ENGINE_START = Some EN_StartInner"
  "engine_func ENGINE_STOP = Some EN_StopInner" "engine_func ENGINE_WRITE_AUDIO = Some EN_WriteAudioInner"
  "engine_func ENGINE_STAET_CAPTURER = Some EN_StartCapturerInner" "engine_func ENGINE_READ = Some EN_ReadInner"
  "engine_func ENGINE_STOP_CAPTURER = Some EN_StopCapturerInner" "engine_func ENGINE_GET_WAKEUP_PCM = Some EN_GetWakeupPcmInner"
  "engine_func ENGINE_EVALUATE = Some EN_EvaluateInner" "engine_func ENGINE_NOTIFY_DEVICE_WAKEUP_EVENT = Some EN_NotifyDeviceWakeupEventInner"
  by (simp_all add: engine_func_def engine_code_defs)

lemmas engine_send = engine_stub.send_call [folded Engine_SendRequest_def]
lemmas engine_simple = engine_stub.simple_call [folded Engine_SendRequest_def]

lemma whole_records:
  "\<lparr>ei_wakeupPhrase = ei_wakeupPhrase i, ei_isPcmFromExternal = ei_isPcmFromExternal i, ei_minBufSize = ei_minBufSize i,
     ei_sampleChannels = ei_sampleChannels i, ei_bitsPerSample = ei_bitsPerSample i, ei_sampleRate = ei_sampleRate i\<rparr> = (i :: engine_info)"
  "\<lparr>ev_wakeupEvent = ev_wakeupEvent e, ev_endFrameIndex = ev_endFrameIndex e\<rparr> = (e :: EventDetail)"
  by simp_all

lemma engine_remote_simple:
  assumes L: "parcel_laws P view"
  shows "EP_Attach P (Engine_SendRequest P tr E) info s = (case eif_Attach E info s of (r, s1) \<Rightarrow> (passed P tr r, s1))"
    "EP_Detach P (Engine_SendRequest P tr E) s = (case eif_Detach E s of (r, s1) \<Rightarrow> (passed P tr r, s1))"
    "EP_SetParameter P (Engine_SendRequest P tr E) kv s = (case eif_SetParameter E kv s of (r, s1) \<Rightarrow> (passed P tr r, s1))"
    "EP_Start P (Engine_SendRequest P tr E) isLast s = (case eif_Start E isLast s of (r, s1) \<Rightarrow> (passed P tr r, s1))"
    "EP_Stop P (Engine_SendRequest P tr E) s = (case eif_Stop E s of (r, s1) \<Rightarrow> (passed P tr r, s1))"
    "EP_StartCapturer P (Engine_SendRequest P tr E) ch s = (case eif_StartCapturer E ch s of (r, s1) \<Rightarrow> (passed P tr r, s1))"
    "EP_StopCapturer P (Engine_SendRequest P tr E) s = (case eif_StopCapturer E s of (r, s1) \<Rightarrow> (passed P tr r, s1))"
  unfolding EP_Attach_def EP_Detach_def EP_SetParameter_def EP_Start_def EP_Stop_def EP_StartCapturer_def EP_StopCapturer_def
  by (rule engine_simple [OF L engine_func_codes(2)] engine_simple [OF L engine_func_codes(3)] engine_simple [OF L engine_func_codes(4)]
        engine_simple [OF L engine_func_codes(6)] engine_simple [OF L engine_func_codes(7)] engine_simple [OF L engine_func_codes(9)]
        engine_simple [OF L engine_func_codes(11)],
      simp add: EN_AttachInner_def EN_DetachInner_def EN_SetParameterInner_def EN_StartInner_def EN_StopInner_def EN_StartCapturerInner_def
        EN_StopCapturerInner_def answer_def split_def Let_def parcel_read [OF L] whole_records)+

lemma engine_remote_callback:
  assumes L: "parcel_laws P view"
  shows "EP_SetCallback P (Engine_SendRequest P tr E) ob s = (if ob = None then s else eif_SetCallback E ob s)"
  by (simp add: EP_SetCallback_def engine_send [OF L engine_func_codes(1)] EN_SetCallbackInner_def request_view [OF L] split_def Let_def parcel_read [OF L])

lemma engine_remote_parameter:
  assumes L: "parcel_laws P view" and T: "transport_laws view tr"
  shows "EP_GetParameter P (Engine_SendRequest P tr E) key s = eif_GetParameter E key s"
  using T by (simp add: EP_GetParameter_def engine_send [OF L engine_func_codes(5)] EN_GetParameterInner_def request_view [OF L]
    split_def Let_def parcel_read [OF L] parcel_view [OF L] transport_laws_def)

text \<open>The size of a block of audio is written as an unsigned number and read as a signed one.\<close>

lemma engine_remote_write:
  assumes L: "parcel_laws P view" and T: "transport_laws view tr" and n: "length b < 2 ^ 32"
  shows "EP_WriteAudio P (Engine_SendRequest P tr E) b s =
     (if length b = 0 \<or> 2 ^ 31 \<le> length b then (-1, s) else case eif_WriteAudio E b s of (r, s1) \<Rightarrow> (passed P tr r, s1))"
proof -
  let ?w = "of_nat (length b) :: 32 word"
  have e: "tr (-1) (pc_new P) \<noteq> 0" using T parcel_view(1) [OF L] by (simp add: transport_laws_def)
  note defs = EP_WriteAudio_def simple_request_def engine_send [OF L engine_func_codes(8)] EN_WriteAudioInner_def answer_def
    request_view [OF L] split_def Let_def parcel_read [OF L] parcel_view [OF L] passed_def e
  consider "b = []" | "b \<noteq> []" "length b < 2 ^ 31" | "2 ^ 31 \<le> length b" by fastforce
  then show ?thesis
  proof cases
    case 1
    then show ?thesis by (simp add: defs)
  next
    case 2
    then have "sint ?w = int (length b)" using int32_size_small [of b] by (simp add: int32_size_def)
    with 2 show ?thesis by (simp add: defs)
  next
    case 3
    let ?k = "int (length b)"
    have "?k div 2 ^ 31 = 1" using 3 n by (simp add: int_div_pos_eq)
    then have "bit ?k 31" by (simp add: bit_iff_odd)
    moreover have "take_bit 32 ?k = ?k" using n by (simp add: take_bit_int_eq_self)
    ultimately have "sint ?w = ?k - 2 ^ 32" by (simp add: signed_of_nat signed_take_bit_eq_take_bit_minus)
    then have "sint ?w \<le> 0" using n by simp
    with 3 show ?thesis by (simp add: defs)
  qed
qed

lemma engine_remote_pcm:
  assumes L: "parcel_laws P view" and T: "transport_laws view tr" and c: "g s = (r, b, s1)"
    and f: "engine_func code = Some f" "\<And>d p. f P E d p s = answer_pcm P g p s"
  shows "read_pcm P (Engine_SendRequest P tr E) code buffer s =
     (if r \<noteq> 0 then (passed P tr r, buffer, s1)
      else if length b mod 2 ^ 32 = 0 \<or> length b mod 2 ^ 32 > BUFFER_SIZE_MAX then (-1, buffer, s1)
      else (0, take (length b mod 2 ^ 32) b, s1))"
proof -
  have t: "tr 0 p = 0" for p using T by (simp add: transport_laws_def)
  have u: "unat (of_nat (length b) :: 32 word) = length b mod 2 ^ 32" by (simp add: unat_of_nat)
  have z: "(of_nat (length b) :: 32 word) = 0 \<longleftrightarrow> length b mod 2 ^ 32 = 0" using u by (metis unat_eq_zero)
  show ?thesis
    by (simp add: read_pcm_def engine_send [OF L f(1)] f(2) answer_pcm_def c passed_def t u z split_def Let_def parcel_read [OF L] parcel_view [OF L])
qed

lemma engine_remote_evaluate:
  assumes L: "parcel_laws P view" and T: "transport_laws view tr"
  shows "EP_Evaluate P (Engine_SendRequest P tr E) word result s =
     (case eif_Evaluate E word s of (r, x, s1) \<Rightarrow> if r \<noteq> 0 then (passed P tr r, result, s1) else (0, x, s1))"
proof -
  have t: "tr 0 p = 0" for p using T by (simp add: transport_laws_def)
  obtain r x s1 where c: "eif_Evaluate E word s = (r, x, s1)" by (rule prod_cases3)
  have "EN_EvaluateInner P E (request P Engine_GetDescriptor [PString word]) p s =
      (r, if r \<noteq> 0 then pc_write P (PInt r) p else write_all P [PInt (er_score x), PInt (er_resultCode x)] (pc_write P (PInt r) p), s1)" for p
    by (simp add: EN_EvaluateInner_def request_view [OF L] parcel_read [OF L] c)
  then show ?thesis
    by (simp add: EP_Evaluate_def engine_send [OF L engine_func_codes(13)] c passed_def t split_def Let_def parcel_read [OF L] parcel_view [OF L])
qed

lemma engine_remote_notify:
  assumes L: "parcel_laws P view" and T: "transport_laws view tr"
  shows "EP_NotifyDeviceWakeupEvent P (Engine_SendRequest P tr E) mac event s =
     (if ev_wakeupEvent event \<notin> {0, 1} then (-1, s) else case eif_NotifyDeviceWakeupEvent E mac event s of (r, s1) \<Rightarrow> (passed P tr r, s1))"
proof -
  have e: "tr 1 (pc_new P) \<noteq> 0" using T parcel_view(1) [OF L] by (simp add: transport_laws_def)
  let ?q = "request P Engine_GetDescriptor [PString mac, PInt (ev_wakeupEvent event), PInt (ev_endFrameIndex event)]"
  have "EN_NotifyDeviceWakeupEventInner P E ?q p s =
      (if ev_wakeupEvent event \<notin> {0, 1} then (1, p, s) else answer P (eif_NotifyDeviceWakeupEvent E mac event) p s)" for p
    by (cases event) (auto simp: EN_NotifyDeviceWakeupEventInner_def request_view [OF L] parcel_read [OF L] split_def Let_def)
  then show ?thesis
    by (simp add: EP_NotifyDeviceWakeupEvent_def simple_request_def engine_send [OF L engine_func_codes(14)] answer_def e passed_def
      split_def Let_def parcel_read [OF L] parcel_view [OF L] del: insert_iff)
qed

section \<open>A remote call is the call of the engine\<close>

text \<open>
  C29. Over any parcels that give back what was written and any transport that passes success on, a client's call to its engine through
  proxy and stub is the call of the engine with the same arguments, result, data and state; an error is seen as that error or -1
  (\<open>passed\<close>, never success). The checks on the way: a null callback is not sent; audio of no bytes or of \<open>2 ^ 31\<close> bytes and more, whose size is
  written unsigned and read signed, never reaches the engine; what is read from the engine must have between 1 byte and 10 MiB; an event
  that is neither of the two kinds is refused.
\<close>

theorem engine_call_transparent:
  assumes L: "parcel_laws P view" and T: "transport_laws view tr"
  shows "(passed P tr r = 0 \<longleftrightarrow> r = 0) \<and> passed P tr r \<in> {r, -1} \<and>
    EP_SetCallback P (Engine_SendRequest P tr E) ob s = (if ob = None then s else eif_SetCallback E ob s) \<and>
    EP_Attach P (Engine_SendRequest P tr E) info s = (case eif_Attach E info s of (r, s1) \<Rightarrow> (passed P tr r, s1)) \<and>
    EP_Detach P (Engine_SendRequest P tr E) s = (case eif_Detach E s of (r, s1) \<Rightarrow> (passed P tr r, s1)) \<and>
    EP_SetParameter P (Engine_SendRequest P tr E) kv s = (case eif_SetParameter E kv s of (r, s1) \<Rightarrow> (passed P tr r, s1)) \<and>
    EP_GetParameter P (Engine_SendRequest P tr E) key s = eif_GetParameter E key s \<and>
    EP_Start P (Engine_SendRequest P tr E) isLast s = (case eif_Start E isLast s of (r, s1) \<Rightarrow> (passed P tr r, s1)) \<and>
    EP_Stop P (Engine_SendRequest P tr E) s = (case eif_Stop E s of (r, s1) \<Rightarrow> (passed P tr r, s1)) \<and>
    (length audio < 2 ^ 32 \<longrightarrow> EP_WriteAudio P (Engine_SendRequest P tr E) audio s =
      (if length audio = 0 \<or> 2 ^ 31 \<le> length audio then (-1, s) else case eif_WriteAudio E audio s of (r, s1) \<Rightarrow> (passed P tr r, s1))) \<and>
    EP_StartCapturer P (Engine_SendRequest P tr E) ch s = (case eif_StartCapturer E ch s of (r, s1) \<Rightarrow> (passed P tr r, s1)) \<and>
    (\<forall>r b s1. eif_Read E s = (r, b, s1) \<longrightarrow> EP_Read P (Engine_SendRequest P tr E) buffer s =
      (if r \<noteq> 0 then (passed P tr r, buffer, s1)
       else if length b mod 2 ^ 32 = 0 \<or> length b mod 2 ^ 32 > BUFFER_SIZE_MAX then (-1, buffer, s1)
       else (0, take (length b mod 2 ^ 32) b, s1))) \<and>
    EP_StopCapturer P (Engine_SendRequest P tr E) s = (case eif_StopCapturer E s of (r, s1) \<Rightarrow> (passed P tr r, s1)) \<and>
    (\<forall>r b s1. eif_GetWakeupPcm E s = (r, b, s1) \<longrightarrow> EP_GetWakeupPcm P (Engine_SendRequest P tr E) buffer s =
      (if r \<noteq> 0 then (passed P tr r, buffer, s1)
       else if length b mod 2 ^ 32 = 0 \<or> length b mod 2 ^ 32 > BUFFER_SIZE_MAX then (-1, buffer, s1)
       else (0, take (length b mod 2 ^ 32) b, s1))) \<and>
    EP_Evaluate P (Engine_SendRequest P tr E) word result s =
      (case eif_Evaluate E word s of (r, x, s1) \<Rightarrow> if r \<noteq> 0 then (passed P tr r, result, s1) else (0, x, s1)) \<and>
    EP_NotifyDeviceWakeupEvent P (Engine_SendRequest P tr E) mac event s =
      (if ev_wakeupEvent event \<notin> {0, 1} then (-1, s) else case eif_NotifyDeviceWakeupEvent E mac event s of (r, s1) \<Rightarrow> (passed P tr r, s1))"
proof (intro conjI allI impI)
  show "passed P tr r = 0 \<longleftrightarrow> r = 0" "passed P tr r \<in> {r, -1}" using passed_result [OF T] by auto
  show "eif_Read E s = (r, b, s1) \<Longrightarrow> EP_Read P (Engine_SendRequest P tr E) buffer s =
      (if r \<noteq> 0 then (passed P tr r, buffer, s1)
       else if length b mod 2 ^ 32 = 0 \<or> length b mod 2 ^ 32 > BUFFER_SIZE_MAX then (-1, buffer, s1)
       else (0, take (length b mod 2 ^ 32) b, s1))" for r b s1
    unfolding EP_Read_def by (rule engine_remote_pcm [OF L T _ engine_func_codes(10)]) (simp_all add: EN_ReadInner_def)
  show "eif_GetWakeupPcm E s = (r, b, s1) \<Longrightarrow> EP_GetWakeupPcm P (Engine_SendRequest P tr E) buffer s =
      (if r \<noteq> 0 then (passed P tr r, buffer, s1)
       else if length b mod 2 ^ 32 = 0 \<or> length b mod 2 ^ 32 > BUFFER_SIZE_MAX then (-1, buffer, s1)
       else (0, take (length b mod 2 ^ 32) b, s1))" for r b s1
    unfolding EP_GetWakeupPcm_def by (rule engine_remote_pcm [OF L T _ engine_func_codes(12)]) (simp_all add: EN_GetWakeupPcmInner_def)
qed (simp_all only: engine_remote_callback [OF L] engine_remote_simple [OF L] engine_remote_parameter [OF L T] engine_remote_write [OF L T]
    engine_remote_evaluate [OF L T] engine_remote_notify [OF L T])

text \<open>An engine that keeps the audio it was given and gives it back.\<close>

definition echo_engine :: "bytes engine_if" where
  "echo_engine = \<lparr>eif_SetCallback = (\<lambda>_ s. s), eif_Attach = (\<lambda>_ s. (0, s)), eif_Detach = (\<lambda>s. (0, [])), eif_SetParameter = (\<lambda>_ s. (-1, s)),
     eif_GetParameter = (\<lambda>k s. (k, s)), eif_Start = (\<lambda>_ s. (0, s)), eif_Stop = (\<lambda>s. (0, s)), eif_WriteAudio = (\<lambda>b s. (0, s @ b)),
     eif_StartCapturer = (\<lambda>_ s. (0, s)), eif_Read = (\<lambda>s. (0, s, [])), eif_StopCapturer = (\<lambda>s. (0, s)), eif_GetWakeupPcm = (\<lambda>s. (0, s, s)),
     eif_Evaluate = (\<lambda>_ s. (0, \<lparr>er_score = 1, er_resultCode = 0\<rparr>, s)), eif_NotifyDeviceWakeupEvent = (\<lambda>_ _ s. (0, s))\<rparr>"

text \<open>Audio written through the proxy is what the engine has, and what is read is what it has.\<close>

theorem engine_call_transparent_witness:
  "EP_WriteAudio list_parcels (Engine_SendRequest list_parcels status_transport echo_engine) [4, 5] [3] = (0, [3, 4, 5]) \<and>
   EP_Read list_parcels (Engine_SendRequest list_parcels status_transport echo_engine) [] [3, 4, 5] = (0, [3, 4, 5], [])"
proof -
  let ?send = "Engine_SendRequest list_parcels status_transport echo_engine"
  have p: "passed list_parcels status_transport r = r" for r by (simp add: passed_def list_parcels_def status_transport_def)
  have "EP_WriteAudio list_parcels ?send [4, 5] [3] = (0, [3, 4, 5])"
    using engine_call_transparent [OF list_parcels_laws, where E = echo_engine and audio = "[4, 5]" and s = "[3]"] by (simp add: p echo_engine_def)
  moreover have "EP_Read list_parcels ?send [] [3, 4, 5] = (0, [3, 4, 5], [])"
    using engine_call_transparent [OF list_parcels_laws, where E = echo_engine and buffer = "[]" and s = "[3, 4, 5]"]
    by (simp add: echo_engine_def BUFFER_SIZE_MAX_def)
  ultimately show ?thesis by simp
qed

end
