(* ===== verification/Offline_Audio.thy ===== *)
theory Offline_Audio
  imports Engine_Util
begin

text \<open>
  The processing of the enrolled recordings (\<open>services/intell_voice_engine/server/base/engine_offline_audio_processor.cpp\<close>), which the
  enrolment and the update run on a thread: three recordings and a text with the frames of the words in them are read from the driver, and
  the six words are fed to an effect chain of the audio framework. The chain and its manager are the record \<open>effect_ops\<close>; files come from the
  driver (\<open>hdi\<close>). Calls of the chain are appended to \<open>op_calls\<close>. \<open>PrintAndSaveBuffer\<close>, which nothing calls, and the logs are left out.
\<close>

section \<open>State\<close>

datatype offline_call = Created string | Fed bytes | Released

record 'c effect_ops =
  fx_GetOfflineAudioEffectChains :: "'c \<Rightarrow> string list \<times> 'c"
  fx_CreateOfflineAudioEffectChain :: "string \<Rightarrow> 'c \<Rightarrow> bool \<times> 'c"
  fx_Configure :: "'c \<Rightarrow> int \<times> 'c"
  fx_Prepare :: "'c \<Rightarrow> int \<times> 'c"
  fx_GetEffectBufferSize :: "'c \<Rightarrow> int \<times> 'c"
  fx_SetParam :: "bytes \<Rightarrow> 'c \<Rightarrow> int \<times> 'c"
  fx_Process :: "bytes \<Rightarrow> 'c \<Rightarrow> int \<times> 'c"
  fx_Release :: "'c \<Rightarrow> 'c"

record 'c OfflineAudioProcessor =
  op_offlineAudioEffectManager :: bool
  op_offlineEffectChain :: bool
  op_selectedChain :: string
  op_audio :: 'c
  op_calls :: "offline_call list"

definition offline_new :: "'c \<Rightarrow> 'c OfflineAudioProcessor" where
  "offline_new c = \<lparr>op_offlineAudioEffectManager = False, op_offlineEffectChain = False, op_selectedChain = '''', op_audio = c, op_calls = []\<rparr>"

definition BYTES_PER_FRAME :: "32 word" where
  "BYTES_PER_FRAME = 320"

definition OFFLINE_BYTES_MAX_16K_MONO :: nat where
  "OFFLINE_BYTES_MAX_16K_MONO = 5120"

definition ReleaseResources :: "'c effect_ops \<Rightarrow> 'c OfflineAudioProcessor \<Rightarrow> 'c OfflineAudioProcessor" where
  "ReleaseResources X u =
     (if op_offlineEffectChain u
      then u\<lparr>op_offlineEffectChain := False, op_offlineAudioEffectManager := False, op_audio := fx_Release X (op_audio u), op_calls := op_calls u @ [Released]\<rparr>
      else u\<lparr>op_offlineAudioEffectManager := False\<rparr>)"

section \<open>The text\<close>

definition GetWakeupBackupAudio :: "'a hdi \<Rightarrow> string \<Rightarrow> bytes \<Rightarrow> 'a \<Rightarrow> int \<times> bytes \<times> 'a" where
  "GetWakeupBackupAudio H filePath buffer h =
     (let (ret, _, h1) = hdi_SourceFiles H h in if ret \<noteq> 0 then (ret, buffer, h1) else hdi_SourceFile H filePath h1)"

text \<open>\<open>std::getline\<close> until the end; empty lines are skipped.\<close>

fun text_lines :: "string \<Rightarrow> string list" where
  "text_lines [] = []"
| "text_lines (c # cs) =
     (let l = takeWhile (\<lambda>x. x \<noteq> CHR 0x0A) (c # cs)
      in (if l = [] then [] else [l]) @ text_lines (drop (Suc (length l)) (c # cs)))"

definition frame_keywords :: "string list" where
  "frame_keywords = [''beginFrameNo'', ''endFrameNo'', ''cmdBeginFrame'', ''cmdEndFrame'']"

text \<open>
  \<open>(?:beginFrameNo|endFrameNo|cmdBeginFrame|cmdEndFrame)\s*:\s*(\d+)\<close> at the beginning of a text: the digits and what follows them. No
  keyword begins with another and a colon is no space, so there is one match at most.
\<close>

definition frame_match :: "string \<Rightarrow> (string \<times> string) option" where
  "frame_match s =
     (case List.find (\<lambda>k. take (length k) s = k) frame_keywords of
        None \<Rightarrow> None
      | Some k \<Rightarrow>
          (case dropWhile is_space (drop (length k) s) of
             [] \<Rightarrow> None
           | c # s1 \<Rightarrow>
               if c \<noteq> CHR '':'' then None
               else let s2 = dropWhile is_space s1; digits = takeWhile is_digit s2
                    in if digits = [] then None else Some (digits, dropWhile is_digit s2)))"

text \<open>\<open>std::sregex_iterator\<close>: the next match begins where the last one ends. A number too big for an \<open>int\<close> is left out.\<close>

lemma frame_match_shorter: "frame_match s = Some (d, r) \<Longrightarrow> length r < length s"
proof -
  assume a: "frame_match s = Some (d, r)"
  then obtain k c s1 where k: "List.find (\<lambda>k. take (length k) s = k) frame_keywords = Some k"
    "dropWhile is_space (drop (length k) s) = c # s1" "r = dropWhile is_digit (dropWhile is_space s1)"
    by (auto simp: frame_match_def Let_def split: option.splits list.splits if_splits)
  have "length r \<le> length s1" unfolding k(3) by (meson length_dropWhile_le order_trans)
  also have "\<dots> < length (dropWhile is_space (drop (length k) s))" unfolding k(2) by simp
  also have "\<dots> \<le> length s" by (metis diff_le_self length_drop length_dropWhile_le order_trans)
  finally show ?thesis .
qed

function frame_numbers :: "string \<Rightarrow> int list" where
  "frame_numbers s =
     (case s of
        [] \<Rightarrow> []
      | _ # cs \<Rightarrow>
          (case frame_match s of
             None \<Rightarrow> frame_numbers cs
           | Some (digits, rest) \<Rightarrow> (case stoi digits of Inl _ \<Rightarrow> [] | Inr n \<Rightarrow> [n]) @ frame_numbers rest))"
  by pat_completeness auto
termination by (relation "measure length") (auto dest: frame_match_shorter)

declare frame_numbers.simps [simp del]

definition parseFrameNumbers :: "bytes \<Rightarrow> int list" where
  "parseFrameNumbers buffer4 = concat (map frame_numbers (text_lines (map (\<lambda>b. char_of (unat b)) buffer4)))"

section \<open>The effect chain\<close>

definition ENODEV :: int where
  "ENODEV = 19"

definition EINVAL :: int where
  "EINVAL = 22"

definition CreateOfflineAudioEffectChain :: "'c effect_ops \<Rightarrow> 'c OfflineAudioProcessor \<Rightarrow> int \<times> 'c OfflineAudioProcessor" where
  "CreateOfflineAudioEffectChain X u =
     (let (chains, c1) = fx_GetOfflineAudioEffectChains X (op_audio u); u1 = u\<lparr>op_offlineAudioEffectManager := True, op_audio := c1\<rparr>
      in case List.find (\<lambda>s. str_find ''asr_tse_reg'' s 0 \<noteq> None) chains of
           None \<Rightarrow> (- ENODEV, u1)
         | Some name \<Rightarrow>
             (let (ok, c2) = fx_CreateOfflineAudioEffectChain X name c1;
                  u2 = u1\<lparr>op_selectedChain := name, op_offlineEffectChain := ok, op_audio := c2\<rparr>
              in if \<not> ok then (- ENODEV, u2) else (0, u2\<lparr>op_calls := op_calls u2 @ [Created name]\<rparr>)))"

text \<open>
  The loop of \<open>ProcessDataWithOfflineEffect\<close>, whose largest block is \<open>OFFLINE_BYTES_MAX_16K_MONO\<close> in every call. \<open>data\<close> is the recording,
  \<open>inOffset\<close> the position in it: the chain reads the block behind it, and a block that is not in the recording is a read outside of it.
\<close>

function process_loop ::
  "'c effect_ops \<Rightarrow> bytes \<Rightarrow> nat \<Rightarrow> nat \<Rightarrow> 'c OfflineAudioProcessor \<Rightarrow> (int \<times> 'c OfflineAudioProcessor) outcome" where
  "process_loop X data inOffset remainingSize u =
     (if remainingSize = 0 then Ret (0, u)
      else let cur = min remainingSize OFFLINE_BYTES_MAX_16K_MONO
           in if inOffset + cur > length data then Crash OutOfRange
              else let block = take cur (drop inOffset data); (ret, c1) = fx_Process X block (op_audio u);
                       u1 = u\<lparr>op_audio := c1, op_calls := op_calls u @ [Fed block]\<rparr>
                   in if ret \<noteq> 0 then Ret (ret, u1) else process_loop X data (inOffset + cur) (remainingSize - cur) u1)"
  by pat_completeness auto
termination by (relation "measure (\<lambda>(_, _, _, n, _). n)") (auto simp: OFFLINE_BYTES_MAX_16K_MONO_def)

declare process_loop.simps [simp del]

text \<open>A recording without bytes has no data: the null pointer, when nothing is added to it.\<close>

definition ProcessDataWithOfflineEffect ::
  "'c effect_ops \<Rightarrow> bytes \<Rightarrow> nat \<Rightarrow> nat \<Rightarrow> 'c OfflineAudioProcessor \<Rightarrow> (int \<times> 'c OfflineAudioProcessor) outcome" where
  "ProcessDataWithOfflineEffect X data offset inputDataSize u =
     (if data = [] \<and> offset = 0 then Ret (- EINVAL, u) else if inputDataSize = 0 then Ret (0, u)
      else if \<not> op_offlineEffectChain u then Ret (- ENODEV, u) else process_loop X data offset inputDataSize u)"

definition frames_param :: "int list \<Rightarrow> string" where
  "frames_param fs = ''FRAME_NUMBERS:'' @ concat (map (\<lambda>f. to_string f @ '','') (butlast fs)) @ (if fs = [] then '''' else to_string (last fs))"

definition SetOfflineEffectChainParams :: "'c effect_ops \<Rightarrow> int list \<Rightarrow> 'c OfflineAudioProcessor \<Rightarrow> int \<times> 'c OfflineAudioProcessor" where
  "SetOfflineEffectChainParams X fs u =
     (if \<not> op_offlineEffectChain u then (-1, u)
      else let (ret, c) = fx_SetParam X (map (\<lambda>c. of_nat (of_char c)) (frames_param fs)) (op_audio u) in (ret, u\<lparr>op_audio := c\<rparr>))"

definition ConfigureAudioStreamAndEffectChain :: "'c effect_ops \<Rightarrow> 'c OfflineAudioProcessor \<Rightarrow> int \<times> 'c OfflineAudioProcessor" where
  "ConfigureAudioStreamAndEffectChain X u =
     (if \<not> op_offlineEffectChain u then (-1, u)
      else let (r1, c1) = fx_Configure X (op_audio u)
           in if r1 \<noteq> 0 then (r1, u\<lparr>op_audio := c1\<rparr>)
              else let (r2, c2) = fx_Prepare X c1
                   in if r2 \<noteq> 0 then (r2, u\<lparr>op_audio := c2\<rparr>)
                      else let (r3, c3) = fx_GetEffectBufferSize X c2 in (r3, u\<lparr>op_audio := c3\<rparr>))"

definition audio_offline_init :: "'c effect_ops \<Rightarrow> int list \<Rightarrow> 'c OfflineAudioProcessor \<Rightarrow> int \<times> 'c OfflineAudioProcessor" where
  "audio_offline_init X fs u =
     (let (r1, u1) = CreateOfflineAudioEffectChain X u
      in if r1 \<noteq> 0 then (r1, u1)
         else let (r2, u2) = ConfigureAudioStreamAndEffectChain X u1
              in if r2 \<noteq> 0 then (r2, u2) else SetOfflineEffectChainParams X fs u2)"

section \<open>The words\<close>

text \<open>
  The words in the order they are fed: the recording, the number of the first and that of the last frame. Numbers of frames are multiplied
  with an unsigned number of 32 bits.
\<close>

definition corpus_words :: "(nat \<times> nat \<times> nat) list" where
  "corpus_words = [(0, 0, 1), (0, 2, 3), (1, 4, 5), (1, 6, 7), (2, 8, 9), (2, 10, 11)]"

fun process_words ::
  "'c effect_ops \<Rightarrow> bytes list \<Rightarrow> int list \<Rightarrow> (nat \<times> nat \<times> nat) list \<Rightarrow> int \<Rightarrow> 'c OfflineAudioProcessor \<Rightarrow> (int \<times> 'c OfflineAudioProcessor) outcome" where
  "process_words X bufs fs [] totalRetStatus u = Ret (totalRetStatus, u)"
| "process_words X bufs fs ((k, i, j) # ws) totalRetStatus u =
     obind (ProcessDataWithOfflineEffect X (bufs ! k) (unat (of_int (fs ! i) * BYTES_PER_FRAME))
              (unat (of_int (fs ! j - fs ! i + 1) * BYTES_PER_FRAME)) u)
       (\<lambda>(ret, u1). process_words X bufs fs ws (totalRetStatus + ret) u1)"

definition ProcessRegistrationCorpusData ::
  "'c effect_ops \<Rightarrow> bytes list \<Rightarrow> int list \<Rightarrow> 'c OfflineAudioProcessor \<Rightarrow> (int \<times> 'c OfflineAudioProcessor) outcome" where
  "ProcessRegistrationCorpusData X bufs fs u =
     (if length bufs < 4 then Ret (-1, u) else if length fs < 12 then Ret (-1, u) else process_words X bufs fs corpus_words 0 u)"

section \<open>The whole\<close>

fun read_files :: "'a hdi \<Rightarrow> string list \<Rightarrow> 'a \<Rightarrow> int \<times> bytes list \<times> 'a" where
  "read_files H [] h = (0, [], h)"
| "read_files H (p # ps) h =
     (let (ret, b, h1) = GetWakeupBackupAudio H p [] h
      in if ret \<noteq> 0 then (ret, [], h1) else let (ret2, bs, h2) = read_files H ps h1 in (ret2, b # bs, h2))"

definition ProcessOfflineAudio ::
  "'a hdi \<Rightarrow> 'c effect_ops \<Rightarrow> string list \<Rightarrow> 'a \<Rightarrow> 'c OfflineAudioProcessor \<Rightarrow> (int \<times> 'a \<times> 'c OfflineAudioProcessor) outcome" where
  "ProcessOfflineAudio H X filePaths h u =
     (let (ret, buffers, h1) = read_files H filePaths h
      in if ret \<noteq> 0 then Ret (ret, h1, u)
         else let fs = parseFrameNumbers (buffers ! 3)
              in if length fs < 12 then Ret (-1, h1, u)
                 else let (ret1, u1) = audio_offline_init X fs u
                      in if ret1 \<noteq> 0 then Ret (ret1, h1, u1)
                         else obind (ProcessRegistrationCorpusData X buffers fs u1) (\<lambda>(ret2, u2). Ret (ret2, h1, ReleaseResources X u2)))"

text \<open>
  The variant that waits for the files: results are added up, and after a round with an error it sleeps for a second, \<open>wait\<close> being what
  happens to the driver meanwhile, eleven rounds at most.
\<close>

fun read_round :: "'a hdi \<Rightarrow> (string \<times> bytes) list \<Rightarrow> int \<Rightarrow> 'a \<Rightarrow> int \<times> (string \<times> bytes) list \<times> 'a" where
  "read_round H [] ret h = (ret, [], h)"
| "read_round H ((p, b) # fs) ret h =
     (let (r, b1, h1) = GetWakeupBackupAudio H p b h; (ret2, fs2, h2) = read_round H fs (ret + r) h1 in (ret2, (p, b1) # fs2, h2))"

function read_retry :: "'a hdi \<Rightarrow> ('a \<Rightarrow> 'a) \<Rightarrow> nat \<Rightarrow> (string \<times> bytes) list \<Rightarrow> 'a \<Rightarrow> int \<times> (string \<times> bytes) list \<times> 'a" where
  "read_retry H wait tryCount fs h =
     (let (ret, fs1, h1) = read_round H fs 0 h
      in if ret = 0 then (0, fs1, h1) else if tryCount + 1 > 10 then (ret, fs1, h1) else read_retry H wait (tryCount + 1) fs1 (wait h1))"
  by pat_completeness auto
termination by (relation "measure (\<lambda>(_, _, n, _). 11 - n)") auto

declare read_retry.simps [simp del]

definition ProcessOfflineAudioWhile ::
  "'a hdi \<Rightarrow> ('a \<Rightarrow> 'a) \<Rightarrow> 'c effect_ops \<Rightarrow> string list \<Rightarrow> 'a \<Rightarrow> 'c OfflineAudioProcessor \<Rightarrow> (int \<times> 'a \<times> 'c OfflineAudioProcessor) outcome" where
  "ProcessOfflineAudioWhile H wait X filePaths h u =
     (let (ret, files, h1) = read_retry H wait 0 (map (\<lambda>p. (p, [])) filePaths) h; buffers = map snd files
      in if ret \<noteq> 0 then Ret (ret, h1, u)
         else let fs = parseFrameNumbers (buffers ! 3)
              in if length fs < 12 then Ret (-1, h1, u)
                 else let (ret1, u1) = audio_offline_init X fs u
                      in if ret1 \<noteq> 0 then Ret (ret1, h1, u1)
                         else obind (ProcessRegistrationCorpusData X buffers fs u1)
                           (\<lambda>(ret2, u2). Ret (ret2, h1, if ret2 \<noteq> 0 then u2 else ReleaseResources X u2)))"

section \<open>What the chain is fed\<close>

definition good_block :: "bytes \<Rightarrow> bool" where
  "good_block b \<longleftrightarrow> 1 \<le> length b \<and> length b \<le> OFFLINE_BYTES_MAX_16K_MONO"

text \<open>What a run of the loop leaves: only the calls and the audio framework changed, and only good blocks were fed.\<close>

definition fed_by :: "bytes list \<Rightarrow> 'c OfflineAudioProcessor \<Rightarrow> 'c OfflineAudioProcessor \<Rightarrow> bool" where
  "fed_by bs u u' \<longleftrightarrow> list_all good_block bs \<and> u' = u\<lparr>op_audio := op_audio u', op_calls := op_calls u @ map Fed bs\<rparr>"

lemma fed_by_trans: "fed_by bs u v \<Longrightarrow> fed_by cs v w \<Longrightarrow> fed_by (bs @ cs) u w"
  by (cases u; cases v; cases w) (auto simp: fed_by_def)

lemma fed_by_refl: "fed_by [] u u"
  by (simp add: fed_by_def)

lemma fed_by_chain: "fed_by bs u v \<Longrightarrow> op_offlineEffectChain v = op_offlineEffectChain u"
  by (cases u; cases v) (auto simp: fed_by_def)

lemma process_loop_step:
  assumes "0 < n" "cur = min n OFFLINE_BYTES_MAX_16K_MONO" "off + cur \<le> length data" "fx_Process X (take cur (drop off data)) (op_audio u) = (r, c)"
  shows "process_loop X data off n u =
    (let u1 = u\<lparr>op_audio := c, op_calls := op_calls u @ [Fed (take cur (drop off data))]\<rparr>
     in if r \<noteq> 0 then Ret (r, u1) else process_loop X data (off + cur) (n - cur) u1)"
  using assms by (simp add: process_loop.simps [of X data off n u] Let_def)

lemma process_loop_feeds:
  "off + n \<le> length data \<Longrightarrow>
   \<exists>ret bs u'. process_loop X data off n u = Ret (ret, u') \<and> fed_by bs u u' \<and>
     ((\<forall>b c. fst (fx_Process X b c) = 0) \<longrightarrow> ret = 0 \<and> concat bs = take n (drop off data))"
proof (induction n arbitrary: off u rule: less_induct)
  case (less n)
  show ?case
  proof (cases "n = 0")
    case True
    then have "process_loop X data off n u = Ret (0, u)" by (simp add: process_loop.simps)
    with True show ?thesis using fed_by_refl [of u] by force
  next
    case False
    define cur where "cur = min n OFFLINE_BYTES_MAX_16K_MONO"
    define block where "block = take cur (drop off data)"
    obtain r c where p: "fx_Process X block (op_audio u) = (r, c)" by (rule prod.exhaust)
    define u1 where "u1 = u\<lparr>op_audio := c, op_calls := op_calls u @ [Fed block]\<rparr>"
    have cur: "0 < cur" "cur \<le> n" "cur \<le> OFFLINE_BYTES_MAX_16K_MONO" using False by (auto simp: cur_def OFFLINE_BYTES_MAX_16K_MONO_def)
    then have "length block = cur" using less.prems by (simp add: block_def)
    then have one: "fed_by [block] u u1" using cur by (simp add: fed_by_def good_block_def u1_def)
    have step: "process_loop X data off n u = (if r \<noteq> 0 then Ret (r, u1) else process_loop X data (off + cur) (n - cur) u1)"
      using process_loop_step [OF _ cur_def _ p [unfolded block_def]] False cur less.prems by (simp add: Let_def u1_def block_def)
    show ?thesis
    proof (cases "r = 0")
      case False
      then have "\<not> (\<forall>b c. fst (fx_Process X b c) = 0)" using p by (metis fst_conv)
      with False step one show ?thesis by auto
    next
      case True
      have "n - cur < n" "off + cur + (n - cur) \<le> length data" using less.prems cur by simp_all
      from less.IH [OF this, of u1]
      obtain ret bs u' where ih: "process_loop X data (off + cur) (n - cur) u1 = Ret (ret, u')" "fed_by bs u1 u'"
        "(\<forall>b c. fst (fx_Process X b c) = 0) \<longrightarrow> ret = 0 \<and> concat bs = take (n - cur) (drop (off + cur) data)" by blast
      have "block @ take (n - cur) (drop (off + cur) data) = take n (drop off data)"
        using cur by (metis add.commute block_def drop_drop le_add_diff_inverse take_add)
      then have "(\<forall>b c. fst (fx_Process X b c) = 0) \<longrightarrow> ret = 0 \<and> concat ([block] @ bs) = take n (drop off data)" using ih(3) by simp
      with ih(1) True step fed_by_trans [OF one ih(2)] show ?thesis by (metis)
    qed
  qed
qed

text \<open>A word that does not lie in the recording is read outside of it, unless the chain fails before.\<close>

lemma process_loop_outside:
  assumes ok: "\<forall>b c. fst (fx_Process X b c) = 0"
  shows "0 < n \<Longrightarrow> length data < off + n \<Longrightarrow> process_loop X data off n u = Crash OutOfRange"
proof (induction n arbitrary: off u rule: less_induct)
  case (less n)
  define cur where "cur = min n OFFLINE_BYTES_MAX_16K_MONO"
  show ?case
  proof (cases "off + cur > length data")
    case True
    then show ?thesis using less.prems by (simp add: process_loop.simps [of X data off n u] cur_def Let_def)
  next
    case False
    then have "cur \<noteq> n" using less.prems by auto
    then have n: "0 < n - cur" "cur \<le> n" "n - cur < n" by (auto simp: cur_def OFFLINE_BYTES_MAX_16K_MONO_def)
    obtain r c where p: "fx_Process X (take cur (drop off data)) (op_audio u) = (r, c)" by (rule prod.exhaust)
    then have "r = 0" using ok by (metis fst_conv)
    with process_loop_step [OF less.prems(1) cur_def _ p] False less.IH [OF n(3) n(1)] less.prems(2) n(2) show ?thesis by (simp add: Let_def)
  qed
qed

section \<open>The words of an enrolment\<close>

fun word_range :: "bytes list \<Rightarrow> int list \<Rightarrow> nat \<times> nat \<times> nat \<Rightarrow> bool" where
  "word_range bufs fs (k, i, j) \<longleftrightarrow>
     0 \<le> fs ! i \<and> fs ! i \<le> fs ! j \<and> (fs ! j + 1) * 320 \<le> int (length (bufs ! k)) \<and> length (bufs ! k) < 2 ^ 32"

text \<open>The frames of a word, the last one included.\<close>

fun corpus_word :: "bytes list \<Rightarrow> int list \<Rightarrow> nat \<times> nat \<times> nat \<Rightarrow> bytes" where
  "corpus_word bufs fs (k, i, j) = take (nat (fs ! j - fs ! i + 1) * 320) (drop (nat (fs ! i) * 320) (bufs ! k))"

lemma frame_offset: "0 \<le> a \<Longrightarrow> a * 320 < 2 ^ 32 \<Longrightarrow> unat (of_int a * BYTES_PER_FRAME) = nat a * 320"
proof -
  assume a: "0 \<le> a" "a * 320 < 2 ^ 32"
  have "of_int a * BYTES_PER_FRAME = of_nat (nat a * 320)" using a(1) by (simp add: BYTES_PER_FRAME_def)
  moreover have "nat a * 320 < 2 ^ 32" using a by (simp add: nat_less_iff)
  ultimately show ?thesis by (simp only: unat_of_nat) simp
qed

lemma process_word_feeds:
  assumes "word_range bufs fs (k, i, j)" "op_offlineEffectChain u"
  shows "\<exists>ret bs u'. ProcessDataWithOfflineEffect X (bufs ! k) (unat (of_int (fs ! i) * BYTES_PER_FRAME))
      (unat (of_int (fs ! j - fs ! i + 1) * BYTES_PER_FRAME)) u = Ret (ret, u') \<and> fed_by bs u u' \<and>
    ((\<forall>b c. fst (fx_Process X b c) = 0) \<longrightarrow> ret = 0 \<and> concat bs = corpus_word bufs fs (k, i, j))"
proof -
  let ?a = "fs ! i" and ?n = "fs ! j - fs ! i + 1" and ?b = "bufs ! k"
  have r: "0 \<le> ?a" "?a \<le> fs ! j" "(fs ! j + 1) * 320 \<le> int (length ?b)" "length ?b < 2 ^ 32" using assms(1) by simp_all
  have o: "unat (of_int ?a * BYTES_PER_FRAME) = nat ?a * 320" by (rule frame_offset) (use r in simp_all)
  have n: "unat (of_int ?n * BYTES_PER_FRAME) = nat ?n * 320" by (rule frame_offset) (use r in simp_all)
  have "?b \<noteq> []" using r by auto
  moreover have "nat ?n * 320 \<noteq> 0" using r by simp
  ultimately have e: "ProcessDataWithOfflineEffect X ?b (unat (of_int ?a * BYTES_PER_FRAME)) (unat (of_int ?n * BYTES_PER_FRAME)) u =
      process_loop X ?b (nat ?a * 320) (nat ?n * 320) u"
    unfolding ProcessDataWithOfflineEffect_def o n using assms(2) by simp
  have "int (nat ?a * 320 + nat ?n * 320) = (fs ! j + 1) * 320" using r by (simp add: algebra_simps)
  then have "nat ?a * 320 + nat ?n * 320 \<le> length ?b" using r(3) by (metis of_nat_le_iff)
  from process_loop_feeds [OF this, of X u] show ?thesis unfolding e by simp
qed

lemma process_words_feeds:
  "list_all (word_range bufs fs) ws \<Longrightarrow> op_offlineEffectChain u \<Longrightarrow>
   \<exists>ret bs u'. process_words X bufs fs ws t u = Ret (ret, u') \<and> fed_by bs u u' \<and>
     ((\<forall>b c. fst (fx_Process X b c) = 0) \<longrightarrow> ret = t \<and> concat bs = concat (map (corpus_word bufs fs) ws))"
proof (induction ws arbitrary: t u)
  case Nil
  then show ?case using fed_by_refl [of u] by force
next
  case (Cons w ws)
  obtain k i j where w: "w = (k, i, j)" by (rule prod_cases3)
  have "word_range bufs fs (k, i, j)" using Cons.prems(1) w by simp
  from process_word_feeds [OF this Cons.prems(2), of X, folded w]
  obtain r bs u1 where one: "ProcessDataWithOfflineEffect X (bufs ! k) (unat (of_int (fs ! i) * BYTES_PER_FRAME))
      (unat (of_int (fs ! j - fs ! i + 1) * BYTES_PER_FRAME)) u = Ret (r, u1)" "fed_by bs u u1"
    "(\<forall>b c. fst (fx_Process X b c) = 0) \<longrightarrow> r = 0 \<and> concat bs = corpus_word bufs fs w" by blast
  from Cons.IH [of u1 "t + r"] Cons.prems fed_by_chain [OF one(2)]
  obtain ret cs u' where ih: "process_words X bufs fs ws (t + r) u1 = Ret (ret, u')" "fed_by cs u1 u'"
    "(\<forall>b c. fst (fx_Process X b c) = 0) \<longrightarrow> ret = t + r \<and> concat cs = concat (map (corpus_word bufs fs) ws)" by (metis list.pred_inject(2))
  have "process_words X bufs fs (w # ws) t u = Ret (ret, u')" using w one(1) ih(1) by simp
  moreover have "(\<forall>b c. fst (fx_Process X b c) = 0) \<longrightarrow> ret = t \<and> concat (bs @ cs) = concat (map (corpus_word bufs fs) (w # ws))"
    using one(3) ih(3) by simp
  ultimately show ?case using fed_by_trans [OF one(2) ih(2)] by blast
qed

section \<open>Waiting for the files\<close>

text \<open>The state of files and driver when the round \<open>n\<close> begins.\<close>

primrec nth_round :: "'a hdi \<Rightarrow> ('a \<Rightarrow> 'a) \<Rightarrow> nat \<Rightarrow> (string \<times> bytes) list \<times> 'a \<Rightarrow> (string \<times> bytes) list \<times> 'a" where
  "nth_round H wait 0 x = x"
| "nth_round H wait (Suc n) x = nth_round H wait n (case x of (fs, h) \<Rightarrow> case read_round H fs 0 h of (_, fs1, h1) \<Rightarrow> (fs1, wait h1))"

definition round_result :: "'a hdi \<Rightarrow> ('a \<Rightarrow> 'a) \<Rightarrow> nat \<Rightarrow> (string \<times> bytes) list \<times> 'a \<Rightarrow> int \<times> (string \<times> bytes) list \<times> 'a" where
  "round_result H wait n x = (case nth_round H wait n x of (fs, h) \<Rightarrow> read_round H fs 0 h)"

lemma read_retry_rounds:
  "t \<le> 10 \<Longrightarrow> \<exists>n \<le> 10 - t. (\<forall>m < n. fst (round_result H wait m (fs, h)) \<noteq> 0) \<and> read_retry H wait t fs h = round_result H wait n (fs, h) \<and>
     (fst (round_result H wait n (fs, h)) = 0 \<or> n = 10 - t)"
proof (induction "10 - t" arbitrary: t fs h)
  case 0
  then have "t = 10" by simp
  moreover obtain r fs1 h1 where "read_round H fs 0 h = (r, fs1, h1)" by (rule prod_cases3)
  ultimately have "read_retry H wait t fs h = round_result H wait 0 (fs, h)" by (simp add: read_retry.simps [of H wait 10] round_result_def)
  with 0 show ?case by auto
next
  case (Suc k)
  obtain r fs1 h1 where r: "read_round H fs 0 h = (r, fs1, h1)" by (rule prod_cases3)
  have shift: "round_result H wait (Suc n) (fs, h) = round_result H wait n (fs1, wait h1)" for n by (simp add: round_result_def r)
  have zero: "round_result H wait 0 (fs, h) = (r, fs1, h1)" by (simp add: round_result_def r)
  show ?case
  proof (cases "r = 0")
    case True
    then have "read_retry H wait t fs h = round_result H wait 0 (fs, h)" by (simp add: read_retry.simps [of H wait t] zero r)
    with True zero show ?thesis by force
  next
    case False
    have "t < 10" using Suc(2) by simp
    then have e: "read_retry H wait t fs h = read_retry H wait (Suc t) fs1 (wait h1)" using False by (simp add: read_retry.simps [of H wait t] r)
    have "k = 10 - Suc t" "Suc t \<le> 10" using Suc(2,3) by simp_all
    from Suc(1) [OF this, of fs1 "wait h1"] obtain n where n: "n \<le> 10 - Suc t" "\<forall>m<n. fst (round_result H wait m (fs1, wait h1)) \<noteq> 0"
      "read_retry H wait (Suc t) fs1 (wait h1) = round_result H wait n (fs1, wait h1)"
      "fst (round_result H wait n (fs1, wait h1)) = 0 \<or> n = 10 - Suc t" by blast
    have "\<forall>m < Suc n. fst (round_result H wait m (fs, h)) \<noteq> 0" using n(2) zero False shift by (auto simp: less_Suc_eq_0_disj)
    with n e shift Suc(2) \<open>Suc t \<le> 10\<close> show ?thesis by (intro exI [of _ "Suc n"]) auto
  qed
qed

lemma read_round_paths: "read_round H fs r h = (r1, fs1, h1) \<Longrightarrow> map fst fs1 = map fst fs"
  by (induction H fs r h arbitrary: r1 fs1 h1 rule: read_round.induct) (auto simp: Let_def split: prod.splits)

lemma round_result_paths: "round_result H wait n x = (r, fs1, h1) \<Longrightarrow> map fst fs1 = map fst (fst x)"
proof (induction n arbitrary: x)
  case 0
  then show ?case by (cases x) (auto simp: round_result_def dest: read_round_paths)
next
  case (Suc n)
  obtain fs h where x: "x = (fs, h)" by (rule prod.exhaust)
  obtain r2 fs2 h2 where r: "read_round H fs 0 h = (r2, fs2, h2)" by (rule prod_cases3)
  have "round_result H wait n (fs2, wait h2) = (r, fs1, h1)" using Suc.prems x r by (simp add: round_result_def)
  from Suc.IH [OF this] read_round_paths [OF r] x show ?case by simp
qed

lemma read_retry_first:
  assumes n: "n \<le> 10" "\<And>m. m < n \<Longrightarrow> fst (round_result H wait m (fs, h)) \<noteq> 0" "fst (round_result H wait n (fs, h)) = 0"
  shows "read_retry H wait 0 fs h = round_result H wait n (fs, h)"
proof -
  obtain k where k: "k \<le> 10" "\<forall>m < k. fst (round_result H wait m (fs, h)) \<noteq> 0" "read_retry H wait 0 fs h = round_result H wait k (fs, h)"
    "fst (round_result H wait k (fs, h)) = 0 \<or> k = 10"
    using read_retry_rounds [of 0 H wait fs h] by auto
  have "\<not> n < k" using k(2) n(3) by blast
  moreover have "\<not> k < n" using k(4) n(1,2) by fastforce
  ultimately have "k = n" by simp
  with k(3) show ?thesis by simp
qed

lemma audio_offline_init_done:
  assumes "audio_offline_init X fs u = (0, u1)"
  shows "op_offlineEffectChain u1 \<and> op_calls u1 = op_calls u @ [Created (op_selectedChain u1)]"
proof -
  have set: "SetOfflineEffectChainParams X fs v = (r, w) \<Longrightarrow> op_offlineEffectChain w = op_offlineEffectChain v \<and> op_calls w = op_calls v
      \<and> op_selectedChain w = op_selectedChain v" for v w r
    by (auto simp: SetOfflineEffectChainParams_def Let_def split: if_splits prod.splits)
  have conf: "ConfigureAudioStreamAndEffectChain X v = (r, w) \<Longrightarrow> op_offlineEffectChain w = op_offlineEffectChain v \<and> op_calls w = op_calls v
      \<and> op_selectedChain w = op_selectedChain v" for v w r
    by (auto simp: ConfigureAudioStreamAndEffectChain_def Let_def split: if_splits prod.splits)
  have create: "CreateOfflineAudioEffectChain X u = (0, v) \<Longrightarrow> op_offlineEffectChain v \<and> op_calls v = op_calls u @ [Created (op_selectedChain v)]" for v
    by (auto simp: CreateOfflineAudioEffectChain_def ENODEV_def Let_def split: if_splits prod.splits option.splits)
  from assms obtain v w where "CreateOfflineAudioEffectChain X u = (0, v)" "ConfigureAudioStreamAndEffectChain X v = (0, w)"
    "SetOfflineEffectChainParams X fs w = (0, u1)"
    by (auto simp: audio_offline_init_def Let_def split: if_splits prod.splits)
  with create conf set show ?thesis by metis
qed

section \<open>The text of the frames\<close>

text \<open>How the text is written: a line holds entries of a keyword and a number, each followed by a comma.\<close>

definition frame_entry :: "string \<times> int \<Rightarrow> string" where
  "frame_entry e = fst e @ '': '' @ to_string (snd e) @ '',''"

definition frame_text :: "(string \<times> int) list list \<Rightarrow> bytes" where
  "frame_text ls = map (\<lambda>c. of_nat (of_char c)) (concat (map (\<lambda>es. concat (map frame_entry es) @ [CHR 0x0A]) ls))"

definition frame_entries :: "(string \<times> int) list \<Rightarrow> bool" where
  "frame_entries es \<longleftrightarrow> (\<forall>(k, n)\<in>set es. k \<in> set frame_keywords \<and> 0 \<le> n \<and> n < 2 ^ 31)"

lemma bytes_of_text: "map (\<lambda>b. char_of (unat b)) (map (\<lambda>c. of_nat (of_char c) :: 8 word) s) = (s :: string)"
proof -
  have "char_of (unat (of_nat (of_char c) :: 8 word)) = c" for c :: char
    by (simp add: unat_of_nat of_char_mod_256 [where 'a = nat, simplified])
  then show ?thesis by (simp add: comp_def)
qed

lemma frame_match_entry:
  assumes "k \<in> set frame_keywords" "0 \<le> n"
  shows "frame_match (frame_entry (k, n) @ r) = Some (to_string n, CHR '','' # r)"
proof -
  have d: "list_all is_digit (to_string n)" "to_string n \<noteq> []" using assms(2) nat_digits_facts by (auto simp: to_string_def)
  obtain c cs where t: "to_string n = c # cs" using d(2) by (cases "to_string n") auto
  have "dropWhile is_space (CHR '' '' # to_string n @ CHR '','' # r) = to_string n @ CHR '','' # r"
    using d(1) digit_not [of c] by (simp add: t is_space_def)
  moreover have "takeWhile is_digit (to_string n @ CHR '','' # r) = to_string n" "dropWhile is_digit (to_string n @ CHR '','' # r) = CHR '','' # r"
    using d(1) by (simp_all add: takeWhile_append dropWhile_append list_all_iff is_digit_def)
  ultimately have m: "dropWhile is_space (CHR '':'' # CHR '' '' # to_string n @ CHR '','' # r) = CHR '':'' # CHR '' '' # to_string n @ CHR '','' # r"
    "dropWhile is_space (CHR '' '' # to_string n @ CHR '','' # r) = to_string n @ CHR '','' # r"
    "takeWhile is_digit (to_string n @ CHR '','' # r) = to_string n" "dropWhile is_digit (to_string n @ CHR '','' # r) = CHR '','' # r"
    by (simp_all add: is_space_def)
  have f: "List.find (\<lambda>k'. take (length k') (k @ s) = k') frame_keywords = Some k" for s
  proof -
    consider "k = ''beginFrameNo''" | "k = ''endFrameNo''" | "k = ''cmdBeginFrame''" | "k = ''cmdEndFrame''"
      using assms(1) unfolding frame_keywords_def by (elim set_ConsD [elim_format] disjE) simp_all
    then show ?thesis by cases (simp_all add: frame_keywords_def)
  qed
  have e: "frame_entry (k, n) @ r = k @ CHR '':'' # CHR '' '' # to_string n @ CHR '','' # r" by (simp add: frame_entry_def)
  have k: "drop (length k) (k @ s) = s" for s :: string by simp
  show ?thesis unfolding frame_match_def e f option.case k m list.case Let_def using d(2) by simp
qed

lemma to_string_no_newline: "CHR 0x0A \<notin> set (to_string n)"
proof -
  have "c \<in> set (nat_digits k) \<Longrightarrow> c \<noteq> CHR 0x0A" for c k
    using nat_digits_facts [of k] by (auto simp: list_all_iff is_digit_def)
  then show ?thesis by (auto simp: to_string_def)
qed

lemma frame_numbers_line: "frame_entries es \<Longrightarrow> frame_numbers (concat (map frame_entry es)) = map snd es"
proof (induction es)
  case Nil
  then show ?case by (simp add: frame_numbers.simps)
next
  case (Cons e es)
  obtain k n where e: "e = (k, n)" by (rule prod.exhaust)
  have k: "k \<in> set frame_keywords" "0 \<le> n" "n < 2 ^ 31" "frame_entries es" using Cons.prems by (auto simp: e frame_entries_def)
  let ?r = "concat (map frame_entry es)"
  have "frame_match (CHR '','' # ?r) = None" by (simp add: frame_match_def frame_keywords_def)
  then have c: "frame_numbers (CHR '','' # ?r) = frame_numbers ?r" by (simp add: frame_numbers.simps [of "CHR '','' # ?r"])
  have s: "stoi (to_string n) = Inr n" using k by (simp add: stoi_def parse_to_string)
  obtain x xs where "frame_entry (k, n) @ ?r = x # xs" by (cases "frame_entry (k, n) @ ?r") (auto simp: frame_entry_def)
  then have "frame_numbers (frame_entry (k, n) @ ?r) = n # frame_numbers (CHR '','' # ?r)"
    using frame_match_entry [OF k(1,2), of ?r] s by (simp add: frame_numbers.simps [of "x # xs"])
  with c Cons.IH k(4) e show ?case by simp
qed

lemma text_lines_concat:
  "\<forall>l\<in>set ls. CHR 0x0A \<notin> set l \<Longrightarrow> text_lines (concat (map (\<lambda>l. l @ [CHR 0x0A]) ls)) = filter (\<lambda>l. l \<noteq> []) ls"
proof (induction ls)
  case (Cons l ls)
  let ?r = "concat (map (\<lambda>l. l @ [CHR 0x0A]) ls)"
  have "takeWhile (\<lambda>x. x \<noteq> CHR 0x0A) (l @ CHR 0x0A # ?r) = l" using Cons.prems by (auto simp: takeWhile_append)
  moreover obtain x xs where "l @ CHR 0x0A # ?r = x # xs" by (cases l) auto
  ultimately have "text_lines (l @ CHR 0x0A # ?r) = (if l = [] then [] else [l]) @ text_lines ?r" by (metis (no_types, lifting) append_eq_conv_conj drop_Suc_Cons drop_drop drop0 text_lines.simps(2) Let_def add.commute plus_1_eq_Suc)
  with Cons show ?case by simp
qed simp

lemma keyword_no_newline: "k \<in> set frame_keywords \<Longrightarrow> CHR 0x0A \<notin> set k"
  unfolding frame_keywords_def by (elim set_ConsD [elim_format] disjE) simp_all

lemma entries_no_newline: "frame_entries es \<Longrightarrow> CHR 0x0A \<notin> set (concat (map frame_entry es))"
proof -
  have "CHR 0x0A \<notin> set (frame_entry (k, n))" if "k \<in> set frame_keywords" for k n
    using keyword_no_newline [OF that] to_string_no_newline [of n] by (simp add: frame_entry_def)
  then show "frame_entries es \<Longrightarrow> ?thesis" by (auto simp: frame_entries_def)
qed

lemma parse_frame_text:
  assumes "\<forall>es\<in>set ls. frame_entries es"
  shows "parseFrameNumbers (frame_text ls) = concat (map frame_numbers (filter (\<lambda>l. l \<noteq> []) (map (\<lambda>es. concat (map frame_entry es)) ls)))"
proof -
  let ?lines = "map (\<lambda>es. concat (map frame_entry es)) ls"
  have "concat (map (\<lambda>es. concat (map frame_entry es) @ [CHR 0x0A]) ls) = concat (map (\<lambda>l. l @ [CHR 0x0A]) ?lines)" by (simp add: comp_def)
  moreover have "text_lines (concat (map (\<lambda>l. l @ [CHR 0x0A]) ?lines)) = filter (\<lambda>l. l \<noteq> []) ?lines"
    by (rule text_lines_concat) (use assms entries_no_newline in \<open>auto simp del: set_concat\<close>)
  ultimately show ?thesis unfolding parseFrameNumbers_def frame_text_def bytes_of_text by simp
qed

section \<open>Properties\<close>


text \<open>
  C31. Reading the text gives back the numbers it was written with: for lines of entries of the four keywords and any numbers an \<open>int\<close> can
  hold, the numbers of all lines in their order.
\<close>

theorem frame_text_roundtrip:
  assumes "\<forall>es\<in>set ls. frame_entries es"
  shows "parseFrameNumbers (frame_text ls) = concat (map (map snd) ls)"
proof -
  have "concat (map frame_numbers (filter (\<lambda>l. l \<noteq> []) (map (\<lambda>es. concat (map frame_entry es)) ls))) = concat (map (map snd) ls)"
    using assms
  proof (induction ls)
    case (Cons es ls)
    have "concat (map frame_entry es) = [] \<Longrightarrow> es = []" by (cases es) (simp_all add: frame_entry_def)
    with Cons frame_numbers_line [of es] show ?case by (cases "concat (map frame_entry es) = []") simp_all
  qed simp
  then show ?thesis by (simp only: parse_frame_text [OF assms])
qed

text \<open>Three recordings of one frame and a text that names it as each of the six words.\<close>

definition quiet_effects :: "unit effect_ops" where
  "quiet_effects = \<lparr>fx_GetOfflineAudioEffectChains = (\<lambda>c. ([''asr_tse_reg''], c)), fx_CreateOfflineAudioEffectChain = (\<lambda>_ c. (True, c)),
     fx_Configure = (\<lambda>c. (0, c)), fx_Prepare = (\<lambda>c. (0, c)), fx_GetEffectBufferSize = (\<lambda>c. (0, c)), fx_SetParam = (\<lambda>_ c. (0, c)),
     fx_Process = (\<lambda>_ c. (0, c)), fx_Release = (\<lambda>c. c)\<rparr>"

definition demo_entries :: "(string \<times> int) list" where
  "demo_entries = concat (replicate 3 [(''beginFrameNo'', 0), (''endFrameNo'', 0), (''cmdBeginFrame'', 0), (''cmdEndFrame'', 0)])"

definition demo_files :: "unit hdi" where
  "demo_files = demo_hdi\<lparr>hdi_SourceFile := \<lambda>p h. (0, if p = ''text'' then frame_text [demo_entries] else replicate 320 7, h)\<rparr>"

lemma demo_frames: "parseFrameNumbers (frame_text [demo_entries]) = replicate 12 0"
proof -
  have e: "frame_entries demo_entries" by (simp add: frame_entries_def demo_entries_def frame_keywords_def)
  have "demo_entries = hd demo_entries # tl demo_entries" by (simp add: demo_entries_def numeral_eq_Suc)
  then have "concat (map frame_entry demo_entries) \<noteq> []" by (metis concat.simps(2) list.simps(9) append_is_Nil_conv frame_entry_def not_Cons_self2)
  then have "parseFrameNumbers (frame_text [demo_entries]) = map snd demo_entries"
    using parse_frame_text [of "[demo_entries]"] frame_numbers_line [OF e] e by simp
  then show ?thesis by (simp add: demo_entries_def numeral_eq_Suc)
qed


theorem frame_text_roundtrip_witness:
  "parseFrameNumbers (frame_text [[(''beginFrameNo'', 12), (''endFrameNo'', 47)], [], [(''cmdBeginFrame'', 0)]]) = [12, 47, 0]"
  using frame_text_roundtrip [of "[[(''beginFrameNo'', 12), (''endFrameNo'', 47)], [], [(''cmdBeginFrame'', 0)]]"]
  by (simp add: frame_entries_def frame_keywords_def)

section \<open>Frames outside of the recordings\<close>

text \<open>Nothing compares the numbers of the text with the recordings: a first word that ends behind the recording is read outside of it.\<close>

lemma word_read_outside:
  assumes ok: "\<forall>b c. fst (fx_Process X b c) = 0" and "op_offlineEffectChain u" "4 \<le> length bufs" "12 \<le> length fs"
    and word: "0 \<le> fs ! 0" "fs ! 0 \<le> fs ! 1" "(fs ! 1 + 1) * 320 < 2 ^ 32" "int (length (bufs ! 0)) < (fs ! 1 + 1) * 320" and "bufs ! 0 \<noteq> []"
  shows "ProcessRegistrationCorpusData X bufs fs u = Crash OutOfRange"
proof -
  let ?a = "fs ! 0" and ?n = "fs ! 1 - fs ! 0 + 1"
  have o: "unat (of_int ?a * BYTES_PER_FRAME) = nat ?a * 320" by (rule frame_offset) (use word in simp_all)
  have n: "unat (of_int ?n * BYTES_PER_FRAME) = nat ?n * 320" by (rule frame_offset) (use word in simp_all)
  have "int (nat ?a * 320 + nat ?n * 320) = (fs ! 1 + 1) * 320" using word by (simp add: algebra_simps)
  then have "length (bufs ! 0) < nat ?a * 320 + nat ?n * 320" using word(4) by (metis of_nat_less_iff)
  moreover have "0 < nat ?n * 320" using word by simp
  ultimately have "process_loop X (bufs ! 0) (nat ?a * 320) (nat ?n * 320) u = Crash OutOfRange" by (intro process_loop_outside [OF ok])
  then have "ProcessDataWithOfflineEffect X (bufs ! 0) (unat (of_int ?a * BYTES_PER_FRAME)) (unat (of_int ?n * BYTES_PER_FRAME)) u = Crash OutOfRange"
    unfolding ProcessDataWithOfflineEffect_def o n using assms(2) \<open>bufs ! 0 \<noteq> []\<close> word by simp
  with assms(3,4) show ?thesis by (simp add: ProcessRegistrationCorpusData_def corpus_words_def)
qed

end
