(* ===== verification/Data_Crypt.thy ===== *)
theory Data_Crypt
  imports Engine_Util
begin

text \<open>
  The encryption of recordings and of the driver's data: \<open>utils/huks_aes_adapter.cpp\<close> and its callers \<open>base/data_operation_callback.cpp\<close> (data of
  the driver) and \<open>utils/pcm_buffer.cpp\<close> (recordings saved to files). The key store of the system is the record \<open>huks\<close> of functions on its state; its
  result codes and the driver's kinds of operation are fields. \<open>huks_laws\<close> states what is documented of AES in Galois counter mode: a session gives
  as many bytes as it is given, and at its end a tag. The property is that what was encrypted is decrypted to itself.
\<close>

section \<open>The key store\<close>

datatype huks_params = ExistParams | GenParams | EncryptParams bytes | DecryptParams bytes bytes

text \<open>The sets of parameters name AES-128, GCM, no padding and the data \<open>g_aadValue\<close>; they differ in purpose, nonce and tag.\<close>

record 'h huks =
  hk_InitParamSet :: "'h \<Rightarrow> int \<times> 'h"
  hk_AddParams :: "huks_params \<Rightarrow> 'h \<Rightarrow> int \<times> 'h"
  hk_BuildParamSet :: "'h \<Rightarrow> int \<times> 'h"
  hk_FreeParamSet :: "'h \<Rightarrow> 'h"
  hk_GenerateRandom :: "nat \<Rightarrow> 'h \<Rightarrow> int \<times> bytes \<times> 'h"
  hk_KeyExist :: "huks_params \<Rightarrow> 'h \<Rightarrow> int \<times> 'h"
  hk_GenerateKey :: "huks_params \<Rightarrow> 'h \<Rightarrow> int \<times> 'h"
  hk_Init :: "huks_params \<Rightarrow> 'h \<Rightarrow> int \<times> nat \<times> 'h"
  hk_Update :: "nat \<Rightarrow> huks_params \<Rightarrow> bytes \<Rightarrow> nat \<Rightarrow> 'h \<Rightarrow> int \<times> bytes \<times> 'h"
  hk_Finish :: "nat \<Rightarrow> huks_params \<Rightarrow> bytes \<Rightarrow> nat \<Rightarrow> 'h \<Rightarrow> int \<times> bytes \<times> 'h"
  HKS_FAILURE :: int
  HKS_ERROR_INVALID_ARGUMENT :: int
  HKS_ERROR_MALLOC_FAIL :: int
  ENCRYPT_TYPE :: int
  DECRYPT_TYPE :: int

definition MAX_UPDATE_SIZE :: nat where
  "MAX_UPDATE_SIZE = 64 * 1024"

definition MAX_OUTDATA_SIZE :: nat where
  "MAX_OUTDATA_SIZE = 128 * 1024"

definition NONCE_SIZE :: nat where
  "NONCE_SIZE = 12"

definition AEAD_SIZE :: nat where
  "AEAD_SIZE = 16"

section \<open>HuksAesAdapter\<close>

definition ConstructParamSet :: "'h huks \<Rightarrow> huks_params \<Rightarrow> 'h \<Rightarrow> int \<times> 'h" where
  "ConstructParamSet K params h =
     (let (r1, h1) = hk_InitParamSet K h
      in if r1 \<noteq> 0 then (r1, h1)
         else let (r2, h2) = hk_AddParams K params h1
              in if r2 \<noteq> 0 then (r2, hk_FreeParamSet K h2)
                 else let (r3, h3) = hk_BuildParamSet K h2 in if r3 \<noteq> 0 then (r3, hk_FreeParamSet K h3) else (r3, h3))"

definition IsKeyExist :: "'h huks \<Rightarrow> 'h \<Rightarrow> int \<times> bool \<times> 'h" where
  "IsKeyExist K h =
     (let (ret, h1) = ConstructParamSet K ExistParams h
      in if ret \<noteq> 0 then (ret, False, h1)
         else let (r, h2) = hk_KeyExist K ExistParams h1 in (0, r = 0, hk_FreeParamSet K h2))"

definition GenerateKey :: "'h huks \<Rightarrow> 'h \<Rightarrow> int \<times> 'h" where
  "GenerateKey K h =
     (let (ret, h1) = ConstructParamSet K GenParams h
      in if ret \<noteq> 0 then (ret, h1) else let (r, h2) = hk_GenerateKey K GenParams h1 in (r, hk_FreeParamSet K h2))"

definition CreateEncryptParamSet :: "'h huks \<Rightarrow> 'h \<Rightarrow> int \<times> bytes \<times> 'h" where
  "CreateEncryptParamSet K h =
     (let (ret, nonce, h1) = hk_GenerateRandom K NONCE_SIZE h
      in if ret \<noteq> 0 then (ret, nonce, h1) else let (r, h2) = ConstructParamSet K (EncryptParams nonce) h1 in (r, nonce, h2))"

definition CreateDecryptParamSet :: "'h huks \<Rightarrow> bytes \<Rightarrow> bytes \<Rightarrow> 'h \<Rightarrow> int \<times> 'h" where
  "CreateDecryptParamSet K nonce aead h = ConstructParamSet K (DecryptParams nonce aead) h"

text \<open>
  The loop of \<open>UpdateAndFinish\<close>: it feeds segments of \<open>MAX_UPDATE_SIZE\<close> bytes and gives the last segment and what was put out. Positions are
  numbers of 32 bits. \<open>cap\<close> is \<open>outDataSeg.size\<close>, the size of the buffer for the next segment; the key store sets it to what it put out.
\<close>

function update_loop ::
  "'h huks \<Rightarrow> nat \<Rightarrow> huks_params \<Rightarrow> bytes \<Rightarrow> nat \<Rightarrow> nat \<Rightarrow> nat \<Rightarrow> bytes \<Rightarrow> 'h \<Rightarrow> (int \<times> bytes \<times> bytes \<times> 'h) outcome" where
  "update_loop K handle params inData outSize cap inUpdateSize out h =
     (if length inData \<le> inUpdateSize then Crash OutOfRange
      else if length inData \<le> (inUpdateSize + MAX_UPDATE_SIZE) mod 2 ^ 32 then Ret (0, drop inUpdateSize inData, out, h)
      else if CreateArrayBuffer cap None = None then Ret (HKS_FAILURE K, [], out, h)
      else if length inData < inUpdateSize + MAX_UPDATE_SIZE then Crash OutOfRange
      else let (ret, seg, h1) = hk_Update K handle params (take MAX_UPDATE_SIZE (drop inUpdateSize inData)) cap h
           in if ret \<noteq> 0 then Ret (HKS_FAILURE K, [], out, h1)
              else if length out + length seg > outSize then Ret (HKS_FAILURE K, [], out, h1)
              else update_loop K handle params inData outSize (length seg) (inUpdateSize + MAX_UPDATE_SIZE) (out @ seg) h1)"
  by pat_completeness auto
termination by (relation "measure (\<lambda>(_, _, _, inData, _, _, pos, _, _). length inData - pos)") (auto simp: MAX_UPDATE_SIZE_def)

declare update_loop.simps [simp del]

definition UpdateAndFinish ::
  "'h huks \<Rightarrow> nat \<Rightarrow> huks_params \<Rightarrow> bytes \<Rightarrow> nat \<Rightarrow> 'h \<Rightarrow> (int \<times> bytes \<times> 'h) outcome" where
  "UpdateAndFinish K handle params inData outSize h =
     obind (update_loop K handle params inData outSize MAX_OUTDATA_SIZE 0 [] h) (\<lambda>(ret, last, out, h1).
       if ret \<noteq> 0 then Ret (ret, [], h1)
       else if CreateArrayBuffer (length last + AEAD_SIZE) None = None then Ret (HKS_FAILURE K, [], h1)
       else let (ret2, fin, h2) = hk_Finish K handle params last (length last + AEAD_SIZE) h1
            in if ret2 \<noteq> 0 then Ret (HKS_FAILURE K, [], h2)
               else if length out + length fin > outSize then Ret (HKS_FAILURE K, [], h2)
               else Ret (0, out @ fin, h2))"

text \<open>A null buffer is \<open>None\<close>; \<open>outBuffer\<close> is passed in and out.\<close>

definition Encrypt :: "'h huks \<Rightarrow> bytes option \<Rightarrow> bytes option \<Rightarrow> 'h \<Rightarrow> (int \<times> bytes option \<times> 'h) outcome" where
  "Encrypt K inBuffer outBuffer h =
     (case inBuffer of
        None \<Rightarrow> Ret (HKS_ERROR_INVALID_ARGUMENT K, outBuffer, h)
      | Some b \<Rightarrow>
          if length b = 0 then Ret (HKS_ERROR_INVALID_ARGUMENT K, outBuffer, h)
          else let (r1, isExist, h1) = IsKeyExist K h
               in if r1 \<noteq> 0 then Ret (r1, outBuffer, h1)
                  else let (r2, h2) = (if isExist then (0, h1) else GenerateKey K h1)
                       in if r2 \<noteq> 0 then Ret (r2, outBuffer, h2)
                          else let (r3, nonce, h3) = CreateEncryptParamSet K h2
                               in if r3 \<noteq> 0 then Ret (r3, outBuffer, h3)
                                  else let (r4, handle, h4) = hk_Init K (EncryptParams nonce) h3
                                       in if r4 \<noteq> 0 then Ret (r4, outBuffer, hk_FreeParamSet K h4)
                                          else obind (UpdateAndFinish K handle (EncryptParams nonce) b ((length b + AEAD_SIZE) mod 2 ^ 32) h4)
                                            (\<lambda>(r5, out, h5).
                                              if r5 \<noteq> 0 then Ret (r5, outBuffer, hk_FreeParamSet K h5)
                                              else (case CreateArrayBuffer (length out + NONCE_SIZE) (Some (nonce @ out)) of
                                                  None \<Rightarrow> Ret (HKS_ERROR_MALLOC_FAIL K, None, hk_FreeParamSet K h5)
                                                | Some e \<Rightarrow> Ret (0, Some e, hk_FreeParamSet K h5))))"

definition Decrypt :: "'h huks \<Rightarrow> bytes option \<Rightarrow> bytes option \<Rightarrow> 'h \<Rightarrow> (int \<times> bytes option \<times> 'h) outcome" where
  "Decrypt K inBuffer outBuffer h =
     (case inBuffer of
        None \<Rightarrow> Ret (HKS_ERROR_INVALID_ARGUMENT K, outBuffer, h)
      | Some b \<Rightarrow>
          if length b \<le> NONCE_SIZE + AEAD_SIZE then Ret (HKS_ERROR_INVALID_ARGUMENT K, outBuffer, h)
          else let (r1, isExist, h1) = IsKeyExist K h
               in if r1 \<noteq> 0 then Ret (r1, outBuffer, h1)
                  else if \<not> isExist then Ret (HKS_FAILURE K, outBuffer, h1)
                  else let nonce = take NONCE_SIZE b; aead = drop (length b - AEAD_SIZE) b; n = length b - NONCE_SIZE - AEAD_SIZE;
                           (r2, h2) = CreateDecryptParamSet K nonce aead h1
                       in if r2 \<noteq> 0 then Ret (r2, outBuffer, h2)
                          else let (r3, handle, h3) = hk_Init K (DecryptParams nonce aead) h2
                               in if r3 \<noteq> 0 then Ret (r3, outBuffer, hk_FreeParamSet K h3)
                                  else obind (UpdateAndFinish K handle (DecryptParams nonce aead) (take n (drop NONCE_SIZE b)) n h3)
                                    (\<lambda>(r4, out, h4).
                                      if r4 \<noteq> 0 then Ret (r4, outBuffer, hk_FreeParamSet K h4)
                                      else (case CreateArrayBuffer (length out) (Some out) of
                                          None \<Rightarrow> Ret (HKS_ERROR_MALLOC_FAIL K, None, hk_FreeParamSet K h4)
                                        | Some e \<Rightarrow> Ret (0, Some e, hk_FreeParamSet K h4))))"

section \<open>DataOperationCallback\<close>

text \<open>\<open>shm\<close>: whether shared memory of a size can be created, mapped and written.\<close>

record shm_answers =
  sh_create :: bool
  sh_map :: bool
  sh_write :: bool

definition CreateArrayBufferFromAshmem :: "ashmem \<Rightarrow> bytes option" where
  "CreateArrayBufferFromAshmem a =
     (if length (am_data a) = 0 then None else if \<not> am_map a then None else if \<not> am_read a then None
      else CreateArrayBuffer (length (am_data a)) (Some (am_data a)))"

definition CreateAshmemFromArrayBuffer :: "shm_answers \<Rightarrow> bytes option \<Rightarrow> ashmem option" where
  "CreateAshmemFromArrayBuffer A buffer =
     (case buffer of
        None \<Rightarrow> None
      | Some b \<Rightarrow>
          if length b = 0 then None else if \<not> sh_create A then None else if \<not> sh_map A then None else if \<not> sh_write A then None
          else Some \<lparr>am_data = b, am_map = True, am_read = True\<rparr>)"

definition OnIntellVoiceDataOprEvent ::
  "'h huks \<Rightarrow> shm_answers \<Rightarrow> int \<Rightarrow> ashmem option \<Rightarrow> ashmem option \<Rightarrow> 'h \<Rightarrow> (int \<times> ashmem option \<times> 'h) outcome" where
  "OnIntellVoiceDataOprEvent K A ty inBuffer outBuffer h =
     (case inBuffer of
        None \<Rightarrow> Ret (-1, outBuffer, h)
      | Some a \<Rightarrow>
          if ty < ENCRYPT_TYPE K \<or> ty > DECRYPT_TYPE K then Ret (-1, outBuffer, h)
          else (case CreateArrayBufferFromAshmem a of
              None \<Rightarrow> Ret (-1, outBuffer, h)
            | Some b \<Rightarrow>
                let finish = (\<lambda>(ret, outData, h1).
                  if ret \<noteq> 0 then Ret (-1, outBuffer, h1)
                  else let ob = CreateAshmemFromArrayBuffer A outData in Ret (if ob = None then -1 else 0, ob, h1))
                in if ty = ENCRYPT_TYPE K then obind (Encrypt K (Some b) None h) finish
                   else if ty = DECRYPT_TYPE K then obind (Decrypt K (Some b) None h) finish
                   else Ret (if outBuffer = None then -1 else 0, outBuffer, h)))"

section \<open>PcmBuffer\<close>

text \<open>
  \<open>SaveToFile\<close>: opening a file for writing empties it. \<open>open\<close>: the file can be opened; \<open>store\<close>: what of the data reaches the file, and
  whether the stream is good afterwards.
\<close>

definition Pcm_SaveToFile ::
  "'h huks \<Rightarrow> bool \<Rightarrow> (bytes \<Rightarrow> bytes \<times> bool) \<Rightarrow> bool \<Rightarrow> string \<Rightarrow> PcmBuffer \<Rightarrow> (string \<rightharpoonup> bytes) \<Rightarrow> 'h \<Rightarrow> (bool \<times> (string \<rightharpoonup> bytes) \<times> 'h) outcome" where
  "Pcm_SaveToFile K opened store needCrypt fileName b files h =
     (let data = take (unat (pb_writePos b)) (pb_buffer b);
          save = (\<lambda>d h1. let (written, good) = store d in Ret (good, files(fileName \<mapsto> written), h1))
      in if pb_writePos b = 0 then Ret (False, files, h)
         else if \<not> opened then Ret (False, files, h)
         else if needCrypt
         then obind (Encrypt K (CreateArrayBuffer (unat (pb_writePos b) mod 2 ^ 32) (Some data)) None h) (\<lambda>(ret, outData, h1).
                if ret \<noteq> 0 then Ret (False, files(fileName \<mapsto> []), h1)
                else (case outData of None \<Rightarrow> Crash NullDeref | Some d \<Rightarrow> save d h1))
         else save data h)"

section \<open>What is documented of the key store\<close>

text \<open>
  \<open>key\<close> is the key under the alias; \<open>sess\<close> gives the parameters of a session with what it was given and what it put out. \<open>C\<close> is the cipher
  under a key and a nonce, \<open>Tg\<close> the tag.
\<close>

type_synonym huks_session = "huks_params \<times> bytes \<times> bytes"

definition param_laws :: "'h huks \<Rightarrow> ('h \<Rightarrow> 'k option) \<Rightarrow> bool" where
  "param_laws K key \<longleftrightarrow>
     (\<forall>h. fst (hk_InitParamSet K h) = 0 \<and> key (snd (hk_InitParamSet K h)) = key h) \<and>
     (\<forall>p h. fst (hk_AddParams K p h) = 0 \<and> key (snd (hk_AddParams K p h)) = key h) \<and>
     (\<forall>h. fst (hk_BuildParamSet K h) = 0 \<and> key (snd (hk_BuildParamSet K h)) = key h) \<and> (\<forall>h. key (hk_FreeParamSet K h) = key h)"

definition key_laws :: "'h huks \<Rightarrow> ('h \<Rightarrow> 'k option) \<Rightarrow> bool" where
  "key_laws K key \<longleftrightarrow>
     (\<forall>n h. case hk_GenerateRandom K n h of (r, b, h1) \<Rightarrow> r = 0 \<and> length b = n \<and> key h1 = key h) \<and>
     (\<forall>p h. (fst (hk_KeyExist K p h) = 0 \<longleftrightarrow> key h \<noteq> None) \<and> key (snd (hk_KeyExist K p h)) = key h) \<and>
     (\<forall>p h. fst (hk_GenerateKey K p h) = 0 \<and> key (snd (hk_GenerateKey K p h)) \<noteq> None)"

definition session_laws :: "'h huks \<Rightarrow> ('h \<Rightarrow> 'k option) \<Rightarrow> ('h \<Rightarrow> nat \<Rightarrow> huks_session option) \<Rightarrow> bool" where
  "session_laws K key sess \<longleftrightarrow>
     (\<forall>p h. key h \<noteq> None \<longrightarrow> (case hk_Init K p h of (r, hn, h1) \<Rightarrow> r = 0 \<and> key h1 = key h \<and> sess h1 hn = Some (p, [], []))) \<and>
     (\<forall>hn p seg cap h i ou. sess h hn = Some (p, i, ou) \<and> length seg \<le> cap \<longrightarrow>
        (case hk_Update K hn p seg cap h of (r, b, h1) \<Rightarrow> r = 0 \<and> length b = length seg \<and> key h1 = key h \<and> sess h1 hn = Some (p, i @ seg, ou @ b)))"

definition gcm_laws ::
  "'h huks \<Rightarrow> ('h \<Rightarrow> 'k option) \<Rightarrow> ('h \<Rightarrow> nat \<Rightarrow> huks_session option) \<Rightarrow> ('k \<Rightarrow> bytes \<Rightarrow> bytes \<Rightarrow> bytes) \<Rightarrow> ('k \<Rightarrow> bytes \<Rightarrow> bytes \<Rightarrow> bytes) \<Rightarrow> bool" where
  "gcm_laws K key sess C Tg \<longleftrightarrow>
     (\<forall>k n x. length (C k n x) = length x \<and> length (Tg k n x) = AEAD_SIZE) \<and>
     (\<forall>hn n seg cap h i ou k. key h = Some k \<and> sess h hn = Some (EncryptParams n, i, ou) \<and> length seg + AEAD_SIZE \<le> cap \<longrightarrow>
        (case hk_Finish K hn (EncryptParams n) seg cap h of (r, b, h1) \<Rightarrow>
           r = 0 \<and> key h1 = key h \<and> ou @ b = C k n (i @ seg) @ Tg k n (i @ seg))) \<and>
     (\<forall>hn n seg cap h i ou k x. key h = Some k \<and> sess h hn = Some (DecryptParams n (Tg k n x), i, ou) \<and> length seg + AEAD_SIZE \<le> cap \<and> i @ seg = C k n x \<longrightarrow>
        (case hk_Finish K hn (DecryptParams n (Tg k n x)) seg cap h of (r, b, h1) \<Rightarrow> r = 0 \<and> key h1 = key h \<and> ou @ b = x))"

section \<open>Segments\<close>

lemma session_update:
  assumes "session_laws K key sess" "sess h hn = Some (p, i, ou)" "length seg \<le> cap" "hk_Update K hn p seg cap h = (r, b, h1)"
  shows "r = 0" "length b = length seg" "key h1 = key h" "sess h1 hn = Some (p, i @ seg, ou @ b)"
proof -
  have "case hk_Update K hn p seg cap h of (r, b, h1) \<Rightarrow> r = 0 \<and> length b = length seg \<and> key h1 = key h \<and> sess h1 hn = Some (p, i @ seg, ou @ b)"
    using assms(1) [unfolded session_laws_def, THEN conjunct2, rule_format, OF conjI, OF assms(2,3)] .
  then show "r = 0" "length b = length seg" "key h1 = key h" "sess h1 hn = Some (p, i @ seg, ou @ b)" using assms(4) by simp_all
qed

lemma update_loop_feeds:
  assumes S: "session_laws K key sess" and small: "length data + MAX_UPDATE_SIZE < 2 ^ 32" "length data \<le> outSize"
  shows "pos < length data \<Longrightarrow> sess h hn = Some (p, take pos data, out) \<Longrightarrow> length out = pos \<Longrightarrow> MAX_UPDATE_SIZE \<le> cap \<Longrightarrow>
    \<exists>last out' h'. update_loop K hn p data outSize cap pos out h = Ret (0, last, out', h') \<and> key h' = key h \<and>
      (\<exists>i. i @ last = data \<and> sess h' hn = Some (p, i, out') \<and> length out' = length i)"
proof (induction "length data - pos" arbitrary: pos out h cap rule: less_induct)
  case less
  have m: "(pos + MAX_UPDATE_SIZE) mod 2 ^ 32 = pos + MAX_UPDATE_SIZE" using less.prems(1) small by simp
  show ?case
  proof (cases "length data \<le> pos + MAX_UPDATE_SIZE")
    case True
    then have "update_loop K hn p data outSize cap pos out h = Ret (0, drop pos data, out, h)"
      using less.prems(1) m by (simp add: update_loop.simps [of K hn p data outSize cap pos out h])
    moreover have "take pos data @ drop pos data = data" "length out = length (take pos data)" using less.prems by simp_all
    ultimately show ?thesis using less.prems(2) by blast
  next
    case False
    let ?seg = "take MAX_UPDATE_SIZE (drop pos data)"
    obtain r b h1 where u: "hk_Update K hn p ?seg cap h = (r, b, h1)" by (rule prod_cases3)
    have "length ?seg \<le> cap" using less.prems(4) by simp
    note b = session_update [OF S less.prems(2) this u]
    have len: "length b = MAX_UPDATE_SIZE" using b(2) False by simp
    have "CreateArrayBuffer cap None = Some (replicate cap 0)" using less.prems(4) by (simp add: CreateArrayBuffer_def MAX_UPDATE_SIZE_def)
    then have step: "update_loop K hn p data outSize cap pos out h = update_loop K hn p data outSize (length b) (pos + MAX_UPDATE_SIZE) (out @ b) h1"
      using False m less.prems(1,3) small(2) u b(1) len by (simp add: update_loop.simps [of K hn p data outSize cap pos out h])
    have "take pos data @ ?seg = take (pos + MAX_UPDATE_SIZE) data" by (simp add: take_add)
    then have "sess h1 hn = Some (p, take (pos + MAX_UPDATE_SIZE) data, out @ b)" using b(4) by simp
    moreover have "length data - (pos + MAX_UPDATE_SIZE) < length data - pos" using False by (simp add: MAX_UPDATE_SIZE_def)
    ultimately show ?thesis using less.hyps [of "pos + MAX_UPDATE_SIZE" h1 "out @ b" "length b"] False less.prems(3) len step b(3) by simp
  qed
qed

lemma UpdateAndFinish_done:
  assumes S: "session_laws K key sess" and s: "sess h hn = Some (p, [], [])" and n: "data \<noteq> []" "length data + MAX_UPDATE_SIZE < 2 ^ 32"
    and fin: "\<And>last i ou h1. key h1 = key h \<Longrightarrow> sess h1 hn = Some (p, i, ou) \<Longrightarrow> i @ last = data \<Longrightarrow>
      (case hk_Finish K hn p last (length last + AEAD_SIZE) h1 of (r, b, h2) \<Rightarrow> r = 0 \<and> key h2 = key h \<and> ou @ b = result)"
    and size: "length data \<le> outSize" "length result \<le> outSize"
  shows "\<exists>h'. UpdateAndFinish K hn p data outSize h = Ret (0, result, h') \<and> key h' = key h"
proof -
  obtain last out h1 i where l: "update_loop K hn p data outSize MAX_OUTDATA_SIZE 0 [] h = Ret (0, last, out, h1)" "key h1 = key h"
    "i @ last = data" "sess h1 hn = Some (p, i, out)"
    using update_loop_feeds [OF S n(2) size(1), of 0 h hn p "[]" MAX_OUTDATA_SIZE] s n(1) by (auto simp: MAX_UPDATE_SIZE_def MAX_OUTDATA_SIZE_def)
  obtain r b h2 where f: "hk_Finish K hn p last (length last + AEAD_SIZE) h1 = (r, b, h2)" by (rule prod_cases3)
  have b: "r = 0" "key h2 = key h" "out @ b = result" using fin [OF l(2,4,3)] f by simp_all
  have "CreateArrayBuffer (length last + AEAD_SIZE) None = Some (replicate (length last + AEAD_SIZE) 0)" by (simp add: CreateArrayBuffer_def AEAD_SIZE_def)
  moreover have "\<not> outSize < length out + length b" using size(2) b(3) by (metis length_append not_less)
  ultimately show ?thesis using l(1) f b by (simp add: UpdateAndFinish_def)
qed

section \<open>Keys and parameters\<close>

lemma ConstructParamSet_done:
  assumes "param_laws K key"
  shows "fst (ConstructParamSet K p h) = 0" "key (snd (ConstructParamSet K p h)) = key h"
  using assms by (simp_all add: ConstructParamSet_def param_laws_def split_def Let_def)

lemma IsKeyExist_done:
  assumes "param_laws K key" "key_laws K key"
  shows "\<exists>h'. IsKeyExist K h = (0, key h \<noteq> None, h') \<and> key h' = key h"
  using assms(2) ConstructParamSet_done [OF assms(1), of ExistParams h] assms(1)
  by (simp add: IsKeyExist_def split_def Let_def key_laws_def param_laws_def)

lemma GenerateKey_done:
  assumes "param_laws K key" "key_laws K key"
  shows "\<exists>h'. GenerateKey K h = (0, h') \<and> key h' \<noteq> None"
  using assms(2) ConstructParamSet_done [OF assms(1), of GenParams h] assms(1)
  by (simp add: GenerateKey_def split_def Let_def key_laws_def param_laws_def)

lemma CreateEncryptParamSet_done:
  assumes "param_laws K key" "key_laws K key"
  shows "\<exists>nonce h'. CreateEncryptParamSet K h = (0, nonce, h') \<and> length nonce = NONCE_SIZE \<and> key h' = key h"
proof -
  obtain r b h1 where g: "hk_GenerateRandom K NONCE_SIZE h = (r, b, h1)" by (rule prod_cases3)
  have "case hk_GenerateRandom K NONCE_SIZE h of (r, b, h1) \<Rightarrow> r = 0 \<and> length b = NONCE_SIZE \<and> key h1 = key h"
    using assms(2) by (simp only: key_laws_def)
  then show ?thesis using g ConstructParamSet_done [OF assms(1), of "EncryptParams b" h1]
    by (cases "ConstructParamSet K (EncryptParams b) h1") (simp add: CreateEncryptParamSet_def)
qed

lemma hk_Init_done:
  assumes "session_laws K key sess" "key h \<noteq> None"
  shows "\<exists>hn h'. hk_Init K p h = (0, hn, h') \<and> key h' = key h \<and> sess h' hn = Some (p, [], [])"
proof -
  have "case hk_Init K p h of (r, hn, h1) \<Rightarrow> r = 0 \<and> key h1 = key h \<and> sess h1 hn = Some (p, [], [])"
    using assms(1) [unfolded session_laws_def, THEN conjunct1, rule_format, OF assms(2)] .
  then show ?thesis by (cases "hk_Init K p h") auto
qed

definition huks_laws ::
  "'h huks \<Rightarrow> ('h \<Rightarrow> 'k option) \<Rightarrow> ('h \<Rightarrow> nat \<Rightarrow> huks_session option) \<Rightarrow> ('k \<Rightarrow> bytes \<Rightarrow> bytes \<Rightarrow> bytes) \<Rightarrow> ('k \<Rightarrow> bytes \<Rightarrow> bytes \<Rightarrow> bytes) \<Rightarrow> bool" where
  "huks_laws K key sess C Tg \<longleftrightarrow> param_laws K key \<and> key_laws K key \<and> session_laws K key sess \<and> gcm_laws K key sess C Tg"

section \<open>Encryption\<close>

lemma Encrypt_done:
  assumes L: "huks_laws K key sess C Tg" and n: "b \<noteq> []" "length b + MAX_UPDATE_SIZE < 2 ^ 32"
  shows "\<exists>k nonce h'. Encrypt K (Some b) out h = Ret (0, Some (nonce @ C k nonce b @ Tg k nonce b), h') \<and>
    length nonce = NONCE_SIZE \<and> key h' = Some k \<and> (key h \<noteq> None \<longrightarrow> key h = Some k)"
proof -
  have l: "param_laws K key" "key_laws K key" "session_laws K key sess" "gcm_laws K key sess C Tg" using L by (simp_all add: huks_laws_def)
  obtain h1 where h1: "IsKeyExist K h = (0, key h \<noteq> None, h1)" "key h1 = key h" using IsKeyExist_done [OF l(1,2), of h] by blast
  obtain h2 where h2: "(if key h \<noteq> None then (0, h1) else GenerateKey K h1) = (0, h2)" "key h2 \<noteq> None" "key h \<noteq> None \<longrightarrow> key h2 = key h"
    using GenerateKey_done [OF l(1,2), of h1] h1(2) by (cases "key h") auto
  then obtain k where k: "key h2 = Some k" by auto
  obtain nonce h3 where h3: "CreateEncryptParamSet K h2 = (0, nonce, h3)" "length nonce = NONCE_SIZE" "key h3 = Some k"
    using CreateEncryptParamSet_done [OF l(1,2), of h2] k by auto
  obtain hn h4 where h4: "hk_Init K (EncryptParams nonce) h3 = (0, hn, h4)" "key h4 = Some k" "sess h4 hn = Some (EncryptParams nonce, [], [])"
    using hk_Init_done [OF l(3), of h3 "EncryptParams nonce"] h3(3) by auto
  let ?e = "C k nonce b @ Tg k nonce b"
  have len: "length ?e = length b + AEAD_SIZE" using l(4) by (simp add: gcm_laws_def)
  have size: "(length b + AEAD_SIZE) mod 2 ^ 32 = length b + AEAD_SIZE" using n(2) by (simp add: AEAD_SIZE_def MAX_UPDATE_SIZE_def)
  have fin: "case hk_Finish K hn (EncryptParams nonce) last (length last + AEAD_SIZE) h5 of (r, x, h6) \<Rightarrow> r = 0 \<and> key h6 = key h4 \<and> ou @ x = ?e"
    if "key h5 = key h4" "sess h5 hn = Some (EncryptParams nonce, i, ou)" "i @ last = b" for last i ou h5
    using l(4) [unfolded gcm_laws_def, THEN conjunct2, THEN conjunct1, rule_format, of h5 k hn nonce i ou last "length last + AEAD_SIZE"] that h4(2) by simp
  have "\<exists>h'. UpdateAndFinish K hn (EncryptParams nonce) b (length b + AEAD_SIZE) h4 = Ret (0, ?e, h') \<and> key h' = key h4"
    by (rule UpdateAndFinish_done [OF l(3) h4(3) n fin]) (assumption+, use len in simp_all)
  then obtain h5 where h5: "UpdateAndFinish K hn (EncryptParams nonce) b (length b + AEAD_SIZE) h4 = Ret (0, ?e, h5)" "key h5 = key h4" by blast
  have buf: "CreateArrayBuffer (length ?e + NONCE_SIZE) (Some (nonce @ ?e)) = Some (nonce @ ?e)" using h3(2) by (simp add: CreateArrayBuffer_def NONCE_SIZE_def)
  have "Encrypt K (Some b) out h = Ret (0, Some (nonce @ ?e), hk_FreeParamSet K h5)"
    using n(1) h1 h2 h3 h4 h5 size buf by (simp add: Encrypt_def)
  moreover have "key (hk_FreeParamSet K h5) = Some k" using l(1) h5(2) h4(2) by (simp add: param_laws_def)
  ultimately show ?thesis using h3(2) h2(3) k by auto
qed

lemma Decrypt_done:
  assumes L: "huks_laws K key sess C Tg" and n: "x \<noteq> []" "length x + MAX_UPDATE_SIZE < 2 ^ 32" and k: "key h = Some k" and nonce: "length nonce = NONCE_SIZE"
  shows "\<exists>h'. Decrypt K (Some (nonce @ C k nonce x @ Tg k nonce x)) out h = Ret (0, Some x, h') \<and> key h' = Some k"
proof -
  have l: "param_laws K key" "key_laws K key" "session_laws K key sess" "gcm_laws K key sess C Tg" using L by (simp_all add: huks_laws_def)
  let ?b = "nonce @ C k nonce x @ Tg k nonce x" and ?p = "DecryptParams nonce (Tg k nonce x)"
  have len: "length (C k nonce x) = length x" "length (Tg k nonce x) = AEAD_SIZE" using l(4) by (simp_all add: gcm_laws_def)
  have parts: "take NONCE_SIZE ?b = nonce" "drop (length ?b - AEAD_SIZE) ?b = Tg k nonce x" "length ?b - NONCE_SIZE - AEAD_SIZE = length x"
    "take (length x) (drop NONCE_SIZE ?b) = C k nonce x" "\<not> length ?b \<le> NONCE_SIZE + AEAD_SIZE"
    using nonce len n(1) by simp_all
  have c: "C k nonce x \<noteq> []" "length (C k nonce x) + MAX_UPDATE_SIZE < 2 ^ 32" using len n by auto
  obtain h1 where h1: "IsKeyExist K h = (0, True, h1)" "key h1 = Some k" using IsKeyExist_done [OF l(1,2), of h] k by auto
  obtain h2 where h2: "CreateDecryptParamSet K nonce (Tg k nonce x) h1 = (0, h2)" "key h2 = Some k"
    using ConstructParamSet_done [OF l(1), of ?p h1] h1(2) unfolding CreateDecryptParamSet_def by (metis prod.collapse)
  obtain hn h3 where h3: "hk_Init K ?p h2 = (0, hn, h3)" "key h3 = Some k" "sess h3 hn = Some (?p, [], [])"
    using hk_Init_done [OF l(3), of h2 ?p] h2(2) by auto
  have fin: "case hk_Finish K hn ?p last (length last + AEAD_SIZE) h5 of (r, y, h6) \<Rightarrow> r = 0 \<and> key h6 = key h3 \<and> ou @ y = x"
    if "key h5 = key h3" "sess h5 hn = Some (?p, i, ou)" "i @ last = C k nonce x" for last i ou h5
    using l(4) [unfolded gcm_laws_def, THEN conjunct2, THEN conjunct2, rule_format, of h5 k hn nonce x i ou last "length last + AEAD_SIZE"] that h3(2) by simp
  have "\<exists>h'. UpdateAndFinish K hn ?p (C k nonce x) (length x) h3 = Ret (0, x, h') \<and> key h' = key h3"
    by (rule UpdateAndFinish_done [OF l(3) h3(3) c fin]) (assumption+, use len in simp_all)
  then obtain h4 where h4: "UpdateAndFinish K hn ?p (C k nonce x) (length x) h3 = Ret (0, x, h4)" "key h4 = key h3" by blast
  have "CreateArrayBuffer (length x) (Some x) = Some x" using n(1) by (simp add: CreateArrayBuffer_def)
  then have "Decrypt K (Some ?b) out h = Ret (0, Some x, hk_FreeParamSet K h4)"
    unfolding Decrypt_def option.case parts Let_def using h1 h2 h3 h4 parts(5) by simp
  moreover have "key (hk_FreeParamSet K h4) = Some k" using l(1) h4(2) h3(2) by (simp add: param_laws_def)
  ultimately show ?thesis by blast
qed

section \<open>Round trips\<close>

lemma encrypt_decrypt:
  assumes "huks_laws K key sess C Tg" "b \<noteq> []" "length b + 2 ^ 16 < 2 ^ 32"
  shows "\<exists>e h1 h2. Encrypt K (Some b) None h = Ret (0, Some e, h1) \<and> length e = length b + 28 \<and> Decrypt K (Some e) None h1 = Ret (0, Some b, h2)"
proof -
  have n: "length b + MAX_UPDATE_SIZE < 2 ^ 32" using assms(3) by (simp add: MAX_UPDATE_SIZE_def)
  obtain k nonce h1 where e: "Encrypt K (Some b) None h = Ret (0, Some (nonce @ C k nonce b @ Tg k nonce b), h1)" "length nonce = NONCE_SIZE" "key h1 = Some k"
    using Encrypt_done [OF assms(1,2) n, of None h] by blast
  have "length (nonce @ C k nonce b @ Tg k nonce b) = length b + 28"
    using assms(1) e(2) by (simp add: huks_laws_def gcm_laws_def NONCE_SIZE_def AEAD_SIZE_def)
  with e Decrypt_done [OF assms(1,2) n e(3,2), of None] show ?thesis by blast
qed

text \<open>
  C32. Over any key store that behaves as documented, data the driver has encrypted is decrypted to itself: for readable shared memory of 1 byte up
  to \<open>2 ^ 32 - 2 ^ 16 - 28\<close> bytes and memory for the answers, the encryption succeeds, making the key when there is none, its answer is 28 bytes
  longer, and the decryption of that answer succeeds with exactly the data, however many segments the data has. A recording that is saved
  encrypted is a file that decrypts to the recording.
\<close>

theorem crypt_roundtrip:
  assumes L: "huks_laws K key sess C Tg" and ty: "ENCRYPT_TYPE K < DECRYPT_TYPE K" and A: "sh_create A" "sh_map A" "sh_write A"
    and a: "am_map a" "am_read a" "am_data a \<noteq> []" "length (am_data a) + 2 ^ 16 < 2 ^ 32"
    and b: "pb_writePos b \<noteq> 0" "unat (pb_writePos b) + 2 ^ 16 < 2 ^ 32" "unat (pb_writePos b) \<le> length (pb_buffer b)"
  shows "(\<exists>e h1 h2. OnIntellVoiceDataOprEvent K A (ENCRYPT_TYPE K) (Some a) None h = Ret (0, Some e, h1) \<and>
      length (am_data e) = length (am_data a) + 28 \<and>
      OnIntellVoiceDataOprEvent K A (DECRYPT_TYPE K) (Some e) None h1 = Ret (0, Some \<lparr>am_data = am_data a, am_map = True, am_read = True\<rparr>, h2)) \<and>
    (\<exists>d h1 h2. Pcm_SaveToFile K True (\<lambda>d. (d, True)) True name b files h = Ret (True, files(name \<mapsto> d), h1) \<and>
      Decrypt K (Some d) None h1 = Ret (0, Some (take (unat (pb_writePos b)) (pb_buffer b)), h2))"
proof
  obtain e h1 h2 where e: "Encrypt K (Some (am_data a)) None h = Ret (0, Some e, h1)" "length e = length (am_data a) + 28"
    "Decrypt K (Some e) None h1 = Ret (0, Some (am_data a), h2)"
    using encrypt_decrypt [OF L a(3,4), of h] by blast
  have in_a: "CreateArrayBufferFromAshmem a = Some (am_data a)" using a by (simp add: CreateArrayBufferFromAshmem_def CreateArrayBuffer_def)
  have out: "x \<noteq> [] \<Longrightarrow> CreateAshmemFromArrayBuffer A (Some x) = Some \<lparr>am_data = x, am_map = True, am_read = True\<rparr>" for x
    using A by (simp add: CreateAshmemFromArrayBuffer_def)
  have again: "x \<noteq> [] \<Longrightarrow> CreateArrayBufferFromAshmem \<lparr>am_data = x, am_map = True, am_read = True\<rparr> = Some x" for x
    by (simp add: CreateArrayBufferFromAshmem_def CreateArrayBuffer_def)
  have "e \<noteq> []" using e(2) by auto
  then show "\<exists>e h1 h2. OnIntellVoiceDataOprEvent K A (ENCRYPT_TYPE K) (Some a) None h = Ret (0, Some e, h1) \<and>
      length (am_data e) = length (am_data a) + 28 \<and>
      OnIntellVoiceDataOprEvent K A (DECRYPT_TYPE K) (Some e) None h1 = Ret (0, Some \<lparr>am_data = am_data a, am_map = True, am_read = True\<rparr>, h2)"
    using e ty a(3) by (intro exI [of _ "\<lparr>am_data = e, am_map = True, am_read = True\<rparr>"] exI [of _ h1] exI [of _ h2])
      (simp add: OnIntellVoiceDataOprEvent_def in_a out again)
next
  let ?d = "take (unat (pb_writePos b)) (pb_buffer b)"
  have len: "length ?d = unat (pb_writePos b)" using b(3) by simp
  then have "?d \<noteq> []" using b(1) by (metis list.size(3) unat_eq_zero)
  moreover have "CreateArrayBuffer (unat (pb_writePos b) mod 2 ^ 32) (Some ?d) = Some ?d" using b len \<open>?d \<noteq> []\<close> by (auto simp: CreateArrayBuffer_def)
  moreover obtain e h1 h2 where "Encrypt K (Some ?d) None h = Ret (0, Some e, h1)" "Decrypt K (Some e) None h1 = Ret (0, Some ?d, h2)"
    using encrypt_decrypt [OF L \<open>?d \<noteq> []\<close>, of h] len b(2) by auto
  ultimately show "\<exists>d h1 h2. Pcm_SaveToFile K True (\<lambda>d. (d, True)) True name b files h = Ret (True, files(name \<mapsto> d), h1) \<and>
      Decrypt K (Some d) None h1 = Ret (0, Some ?d, h2)"
    using b(1) by (intro exI [of _ e] exI [of _ h1] exI [of _ h2]) (simp add: Pcm_SaveToFile_def Let_def)
qed

text \<open>A key store with one session whose cipher flips every bit; it has no key at first.\<close>

definition flip_store :: "(bool \<times> huks_session) huks" where
  "flip_store = \<lparr>hk_InitParamSet = (\<lambda>h. (0, h)), hk_AddParams = (\<lambda>_ h. (0, h)), hk_BuildParamSet = (\<lambda>h. (0, h)), hk_FreeParamSet = (\<lambda>h. h),
     hk_GenerateRandom = (\<lambda>n h. (0, replicate n 5, h)), hk_KeyExist = (\<lambda>_ h. (if fst h then 0 else -13, h)),
     hk_GenerateKey = (\<lambda>_ h. (0, True, snd h)), hk_Init = (\<lambda>p h. (0, 1, fst h, p, [], [])),
     hk_Update = (\<lambda>_ p seg _ h. (0, map (xor 255) seg, fst h, p, fst (snd (snd h)) @ seg, snd (snd (snd h)) @ map (xor 255) seg)),
     hk_Finish = (\<lambda>_ p seg _ h. (0, drop (length (snd (snd (snd h)))) (map (xor 255) (fst (snd (snd h)) @ seg)) @
        (case p of EncryptParams _ \<Rightarrow> replicate 16 9 | _ \<Rightarrow> []), h)),
     HKS_FAILURE = -1, HKS_ERROR_INVALID_ARGUMENT = -3, HKS_ERROR_MALLOC_FAIL = -20, ENCRYPT_TYPE = 0, DECRYPT_TYPE = 1\<rparr>"

definition flip_key :: "bool \<times> huks_session \<Rightarrow> unit option" where
  "flip_key h = (if fst h then Some () else None)"

definition flip_sess :: "bool \<times> huks_session \<Rightarrow> nat \<Rightarrow> huks_session option" where
  "flip_sess h n = (case snd h of (p, i, ou) \<Rightarrow> if ou = map (xor 255) i then Some (p, i, ou) else None)"

lemma flip_flip: "xor 255 (xor 255 b) = (b :: 8 word)"
  by (simp flip: xor.assoc)

lemma flip_store_laws: "huks_laws flip_store flip_key flip_sess (\<lambda>_ _. map (xor 255)) (\<lambda>_ _ _. replicate 16 9)"
proof -
  have "param_laws flip_store flip_key" "key_laws flip_store flip_key"
    by (simp_all add: param_laws_def key_laws_def flip_store_def flip_key_def)
  moreover have "session_laws flip_store flip_key flip_sess"
    by (auto simp: session_laws_def flip_store_def flip_key_def flip_sess_def split: prod.splits if_splits)
  moreover have "gcm_laws flip_store flip_key flip_sess (\<lambda>_ _. map (xor 255)) (\<lambda>_ _ _. replicate 16 9)"
  proof -
    have "ou = map (xor 255) i \<Longrightarrow> ou @ drop (length ou) (map (xor 255) (i @ seg)) = map (xor 255) (i @ seg)" for ou i seg :: bytes by simp
    moreover have "map (xor 255) i @ map (xor 255) seg = x" if "i @ seg = map (xor 255) x" for i seg x :: bytes
    proof -
      have "map (xor 255) (i @ seg) = x" unfolding that by (simp add: comp_def flip_flip)
      then show ?thesis by simp
    qed
    ultimately show ?thesis
      unfolding gcm_laws_def by (auto simp: flip_store_def flip_key_def flip_sess_def AEAD_SIZE_def split: prod.splits if_splits)
  qed
  ultimately show ?thesis by (simp add: huks_laws_def)
qed

theorem crypt_roundtrip_witness:
  "\<exists>d h1 h2. Pcm_SaveToFile flip_store True (\<lambda>d. (d, True)) True ''a.pcm'' \<lparr>pb_capacity = 4, pb_buffer = [1, 2, 3, 0], pb_writePos = 3\<rparr> Map.empty
      (False, ExistParams, [], []) = Ret (True, [''a.pcm'' \<mapsto> d], h1) \<and> Decrypt flip_store (Some d) None h1 = Ret (0, Some [1, 2, 3], h2)"
proof -
  have "ENCRYPT_TYPE flip_store < DECRYPT_TYPE flip_store" by (simp add: flip_store_def)
  from crypt_roundtrip [OF flip_store_laws this, where A = "\<lparr>sh_create = True, sh_map = True, sh_write = True\<rparr>"
      and a = "\<lparr>am_data = [1], am_map = True, am_read = True\<rparr>" and b = "\<lparr>pb_capacity = 4, pb_buffer = [1, 2, 3, 0], pb_writePos = 3\<rparr>"
      and name = "''a.pcm''" and files = Map.empty and h = "(False, ExistParams, [], [])"]
  show ?thesis by simp
qed

end
