(* ===== verification/Report_Files.thy ===== *)
theory Report_Files
  imports Data_Crypt
begin

text \<open>
  The recordings kept for reports: \<open>utils/file_util.cpp\<close> and \<open>utils/file_reporter.cpp\<close>. A file system is a tree; a directory lists its entries in
  the order \<open>readdir\<close> gives them. Only files and directories exist, removing them succeeds, and a path is the list of its names. The random
  device is the argument \<open>rnd\<close>: the number drawn in a round from zero up to a bound.
\<close>

section \<open>FileUtil\<close>

datatype fnode = FFile bytes | FDir "(string \<times> fnode) list"

definition MAX_FILE_NUM :: nat where
  "MAX_FILE_NUM = 10000"

definition MAX_RECURSION_NUM :: nat where
  "MAX_RECURSION_NUM = 500"

text \<open>\<open>GetDirFiles\<close> of a directory: the names, and whether they are all.\<close>

definition GetDirFiles :: "fnode option \<Rightarrow> bool \<times> string list" where
  "GetDirFiles d =
     (case d of
        Some (FDir es) \<Rightarrow> if length es > MAX_FILE_NUM then (False, map fst (take (Suc MAX_FILE_NUM) es)) else (True, map fst es)
      | _ \<Rightarrow> (False, []))"

definition GetFileSize :: "nat \<Rightarrow> fnode option \<Rightarrow> nat" where
  "GetFileSize dirSize f = (case f of None \<Rightarrow> 0 | Some (FFile b) \<Rightarrow> length b | Some (FDir _) \<Rightarrow> dirSize)"

text \<open>The size is converted to a signed number of 32 bits; a string of negative length is an exception. What is read of a directory is not specified.\<close>

definition GetFileString :: "fnode option \<Rightarrow> int \<Rightarrow> (int \<times> string) outcome" where
  "GetFileString f sizeMax =
     (case f of
        Some (FFile b) \<Rightarrow>
          (let fileSize = sint (of_nat (length b) :: 32 word); readLen = (if fileSize < sizeMax then fileSize else sizeMax)
           in if readLen < 0 then Crash OutOfRange else Ret (0, map (\<lambda>x. char_of (unat x)) (take (nat readLen) b)))
      | _ \<Rightarrow> Ret (-1, ''''))"

text \<open>
  \<open>DeleteDir\<close> with the depth \<open>loop\<close> of the recursion: whether it succeeded and what is left. The entries: whether to go on, and the entries left;
  after too many of them the loop stops, and the directory that is not empty cannot be removed.
\<close>

fun DeleteDir :: "nat \<Rightarrow> fnode \<Rightarrow> bool \<times> fnode option" and delete_entries :: "nat \<Rightarrow> nat \<Rightarrow> (string \<times> fnode) list \<Rightarrow> bool \<times> (string \<times> fnode) list" where
  "DeleteDir loop (FFile b) = (if loop + 1 > MAX_RECURSION_NUM then (False, Some (FFile b)) else (True, None))"
| "DeleteDir loop (FDir es) =
     (if loop + 1 > MAX_RECURSION_NUM then (False, Some (FDir es))
      else case delete_entries (loop + 1) 0 es of (ok, left) \<Rightarrow> if ok \<and> left = [] then (True, None) else (False, Some (FDir left)))"
| "delete_entries loop count [] = (True, [])"
| "delete_entries loop count ((n, FFile b) # es) = (if count + 1 > MAX_FILE_NUM then (True, es) else delete_entries loop (count + 1) es)"
| "delete_entries loop count ((n, FDir ds) # es) =
     (case DeleteDir loop (FDir ds) of
        (False, Some d) \<Rightarrow> (False, (n, d) # es)
      | (False, None) \<Rightarrow> (False, es)
      | (True, _) \<Rightarrow> if count + 1 > MAX_FILE_NUM then (True, es) else delete_entries loop (count + 1) es)"

section \<open>FileReporter\<close>

definition REPORT_JSON_SIZE_MAX :: int where
  "REPORT_JSON_SIZE_MAX = 4096"

definition PCM_FILE_SUFFIX :: string where
  "PCM_FILE_SUFFIX = ''.pcm''"

record ReportFilesInfo =
  rf_type :: int
  rf_filesDescription :: string
  rf_filesContent :: "ashmem option list"

definition CreateAshmemFromFilesInfo :: "shm_answers \<Rightarrow> bytes \<Rightarrow> ashmem option" where
  "CreateAshmemFromFilesInfo A b =
     (if length b = 0 then None else if \<not> sh_create A then None else if \<not> sh_map A then None else if \<not> sh_write A then None
      else Some \<lparr>am_data = b, am_map = True, am_read = True\<rparr>)"

text \<open>The loop over the files of a directory: the contents found. \<open>opened\<close>: the file can be opened; \<open>dirSize\<close>: the size \<open>stat\<close> gives for a directory.\<close>

fun pcm_loop ::
  "'h huks \<Rightarrow> shm_answers \<Rightarrow> (string \<Rightarrow> bool) \<Rightarrow> nat \<Rightarrow> bool \<Rightarrow> (string \<times> fnode) list \<Rightarrow> ashmem option list \<Rightarrow> 'h \<Rightarrow> (ashmem option list \<times> 'h) outcome" where
  "pcm_loop K A opened dirSize needDeCrypt [] content h = Ret (content, h)"
| "pcm_loop K A opened dirSize needDeCrypt ((file, f) # fs) content h =
     (let filePath = CHR ''/'' # file
      in if drop (length filePath - length PCM_FILE_SUFFIX) filePath \<noteq> PCM_FILE_SUFFIX then pcm_loop K A opened dirSize needDeCrypt fs content h
         else if GetFileSize dirSize (Some f) = 0 then pcm_loop K A opened dirSize needDeCrypt fs content h
         else if \<not> opened file then pcm_loop K A opened dirSize needDeCrypt fs content h
         else let pcm = (case f of FFile b \<Rightarrow> b | FDir _ \<Rightarrow> replicate dirSize 0)
              in if needDeCrypt
                 then obind (Decrypt K (CreateArrayBuffer (length pcm mod 2 ^ 32) (Some pcm)) None h) (\<lambda>(ret, outData, h1).
                        if ret \<noteq> 0 then pcm_loop K A opened dirSize needDeCrypt fs content h1
                        else pcm_loop K A opened dirSize needDeCrypt fs (content @ [CreateAshmemFromArrayBuffer A outData]) h1)
                 else pcm_loop K A opened dirSize needDeCrypt fs (content @ [CreateAshmemFromFilesInfo A pcm]) h)"

definition GetFileInfo ::
  "'h huks \<Rightarrow> shm_answers \<Rightarrow> (string \<Rightarrow> bool) \<Rightarrow> nat \<Rightarrow> bool \<Rightarrow> fnode option \<Rightarrow> 'h \<Rightarrow> (bool \<times> ReportFilesInfo \<times> 'h) outcome" where
  "GetFileInfo K A opened dirSize needDeCrypt fileDir h =
     (let entries = (case fileDir of Some (FDir es) \<Rightarrow> es | _ \<Rightarrow> [])
      in obind (GetFileString (map_of entries ''wakeup.json'') REPORT_JSON_SIZE_MAX) (\<lambda>(ret, descr).
           let info = \<lparr>rf_type = 1, rf_filesDescription = descr, rf_filesContent = []\<rparr>
           in if ret \<noteq> 0 then Ret (False, info, h)
              else if \<not> fst (GetDirFiles fileDir) then Ret (False, info, h)
              else obind (pcm_loop K A opened dirSize needDeCrypt entries [] h) (\<lambda>(content, h1).
                Ret (content \<noteq> [], info\<lparr>rf_filesContent := content\<rparr>, h1))))"

text \<open>The choice of \<open>count\<close> directories when there are more: each is drawn from those up to \<open>end\<close>, and the last of these takes its place.\<close>

fun select_loop :: "(nat \<Rightarrow> nat \<Rightarrow> nat) \<Rightarrow> nat \<Rightarrow> nat \<Rightarrow> nat \<Rightarrow> string list \<Rightarrow> string list \<Rightarrow> string list" where
  "select_loop rnd i 0 e dirs sel = sel"
| "select_loop rnd i (Suc count) e dirs sel =
     (let k = rnd i e in select_loop rnd (Suc i) count (e - 1) (dirs[k := dirs ! e]) (sel @ [dirs ! k]))"

definition selected_files :: "(nat \<Rightarrow> nat \<Rightarrow> nat) \<Rightarrow> int \<Rightarrow> string list \<Rightarrow> string list" where
  "selected_files rnd count dirs =
     (if int (length dirs) > count then select_loop rnd 0 (nat count) (length dirs - 1) dirs [] else dirs)"

definition remove_report :: "string \<Rightarrow> (string \<times> fnode) list \<Rightarrow> (string \<times> fnode) list" where
  "remove_report name es =
     (case map_of es name of
        None \<Rightarrow> es
      | Some d \<Rightarrow> (case snd (DeleteDir 0 d) of None \<Rightarrow> filter (\<lambda>e. fst e \<noteq> name) es | Some d1 \<Rightarrow> map (\<lambda>e. if fst e = name then (name, d1) else e) es))"

fun report_loop ::
  "'h huks \<Rightarrow> shm_answers \<Rightarrow> (string \<Rightarrow> bool) \<Rightarrow> nat \<Rightarrow> bool \<Rightarrow> string list \<Rightarrow> ReportFilesInfo list \<Rightarrow> (string \<times> fnode) list \<Rightarrow> 'h \<Rightarrow>
     (ReportFilesInfo list \<times> (string \<times> fnode) list \<times> 'h) outcome" where
  "report_loop K A opened dirSize needDeCrypt [] infos es h = Ret (infos, es, h)"
| "report_loop K A opened dirSize needDeCrypt (name # names) infos es h =
     obind (GetFileInfo K A opened dirSize needDeCrypt (map_of es name) h) (\<lambda>(ok, info, h1).
       report_loop K A opened dirSize needDeCrypt names (if ok then infos @ [info] else infos) (remove_report name es) h1)"

definition GetReportFiles ::
  "'h huks \<Rightarrow> shm_answers \<Rightarrow> (string \<Rightarrow> bool) \<Rightarrow> nat \<Rightarrow> (nat \<Rightarrow> nat \<Rightarrow> nat) \<Rightarrow> bool \<Rightarrow> int \<Rightarrow> ReportFilesInfo list \<Rightarrow> fnode option \<Rightarrow> 'h \<Rightarrow>
     (int \<times> ReportFilesInfo list \<times> fnode option \<times> 'h) outcome" where
  "GetReportFiles K A opened dirSize rnd needDeCrypt count reportFiles root h =
     (if count \<le> 0 then Ret (0, reportFiles, root, h)
      else if \<not> fst (GetDirFiles root) then Ret (0, reportFiles, root, h)
      else case root of
          Some (FDir es) \<Rightarrow>
            obind (report_loop K A opened dirSize needDeCrypt (selected_files rnd count (snd (GetDirFiles root))) reportFiles es h)
              (\<lambda>(infos, es1, h1). Ret (int (length infos), infos, Some (FDir es1), h1))
        | _ \<Rightarrow> Ret (0, reportFiles, root, h))"

section \<open>Removal\<close>

text \<open>A tree \<open>DeleteDir\<close> can remove: not too deep and no directory too wide.\<close>

fun fits :: "nat \<Rightarrow> fnode \<Rightarrow> bool" where
  "fits loop (FFile b) = True"
| "fits loop (FDir es) = (loop < MAX_RECURSION_NUM \<and> length es \<le> MAX_FILE_NUM \<and> (\<forall>e\<in>set es. fits (Suc loop) (snd e)))"

lemma delete_all:
  "(\<forall>b. n \<noteq> FFile b) \<longrightarrow> fits loop n \<longrightarrow> DeleteDir loop n = (True, None)"
  "count + length es \<le> MAX_FILE_NUM \<longrightarrow> (\<forall>e\<in>set es. fits loop (snd e)) \<longrightarrow> delete_entries loop count es = (True, [])"
proof (induction loop n and loop count es rule: DeleteDir_delete_entries.induct)
  case (2 loop es)
  then show ?case by (cases "loop + 1 > MAX_RECURSION_NUM") auto
next
  case (5 loop count n ds es)
  show ?case
  proof (intro impI)
    assume a: "count + length ((n, FDir ds) # es) \<le> MAX_FILE_NUM" "\<forall>e\<in>set ((n, FDir ds) # es). fits loop (snd e)"
    then have "DeleteDir loop (FDir ds) = (True, None)" using 5(1) by simp
    with 5(2) [OF this [symmetric]] a show "delete_entries loop count ((n, FDir ds) # es) = (True, [])" by simp
  qed
qed simp_all

lemma DeleteDir_all: "fits 0 n \<Longrightarrow> snd (DeleteDir 0 n) = None"
  using delete_all(1) [of n 0] by (cases n) (simp_all add: MAX_RECURSION_NUM_def)

lemma remove_report_all:
  assumes "map_of es name = Some d" "fits 0 d"
  shows "remove_report name es = filter (\<lambda>e. fst e \<noteq> name) es"
  using assms DeleteDir_all [of d] by (simp add: remove_report_def)

section \<open>Choice\<close>

lemma select_loop_chosen:
  assumes rnd: "\<And>i e. rnd i e \<le> e"
  shows "count \<le> e \<Longrightarrow> e < length dirs \<Longrightarrow> distinct (take (Suc e) dirs) \<Longrightarrow> distinct sel \<Longrightarrow> set sel \<inter> set (take (Suc e) dirs) = {} \<Longrightarrow>
    \<exists>new. select_loop rnd i count e dirs sel = sel @ new \<and> distinct (sel @ new) \<and> length new = count \<and> set new \<subseteq> set (take (Suc e) dirs)"
proof (induction count arbitrary: i e dirs sel)
  case (Suc count)
  let ?k = "rnd i e" and ?xs = "take e dirs"
  let ?d = "dirs[?k := dirs ! e]" and ?x = "dirs ! ?k"
  have k: "?k \<le> e" by (rule rnd)
  have t: "take (Suc e) dirs = ?xs @ [dirs ! e]" using Suc.prems(2) by (simp add: take_Suc_conv_app_nth)
  have x: "?x \<in> set (take (Suc e) dirs)" using k Suc.prems(2) by (metis in_set_conv_nth le_imp_less_Suc length_take min.absorb2 nth_take Suc_leI)
  have e: "take (Suc (e - 1)) ?d = (if ?k = e then ?xs else ?xs[?k := dirs ! e])"
    using k Suc.prems(1) by (simp add: take_update_swap list_update_beyond)
  have d: "distinct (?xs @ [dirs ! e])" using Suc.prems(3) t by simp
  have sub: "distinct (take (Suc (e - 1)) ?d)" "?x \<notin> set (take (Suc (e - 1)) ?d)" "set (take (Suc (e - 1)) ?d) \<subseteq> set (take (Suc e) dirs)"
  proof -
    have lt: "?k \<noteq> e \<Longrightarrow> ?k < length ?xs \<and> ?xs ! ?k = ?x" using k Suc.prems(2) by simp
    show "distinct (take (Suc (e - 1)) ?d)" unfolding e using d by (auto intro: distinct_list_update)
    show "?x \<notin> set (take (Suc (e - 1)) ?d)"
    proof (cases "?k = e")
      case True
      then show ?thesis unfolding e using d by simp
    next
      case False
      have "set (?xs[?k := dirs ! e]) = insert (dirs ! e) (set ?xs - {?x})"
        using lt [OF False] d set_update_distinct [of ?xs ?k "dirs ! e"] by simp
      moreover have "?x \<noteq> dirs ! e" using lt [OF False] d by (metis distinct_append disjoint_insert(1) list.simps(15) nth_mem)
      ultimately show ?thesis unfolding e using False by simp
    qed
    show "set (take (Suc (e - 1)) ?d) \<subseteq> set (take (Suc e) dirs)" unfolding e t using set_update_subset_insert [of ?xs ?k "dirs ! e"] by auto
  qed
  have "?x \<notin> set sel" using x Suc.prems(5) by blast
  then have "distinct (sel @ [?x])" "set (sel @ [?x]) \<inter> set (take (Suc (e - 1)) ?d) = {}" using Suc.prems(4,5) sub(2,3) by auto
  note new = this
  have "count \<le> e - 1" "e - 1 < length ?d" using Suc.prems(1,2) by simp_all
  from Suc.IH [OF this sub(1) new, of "Suc i"]
  obtain new where n: "select_loop rnd (Suc i) count (e - 1) ?d (sel @ [?x]) = (sel @ [?x]) @ new" "distinct ((sel @ [?x]) @ new)" "length new = count"
    "set new \<subseteq> set (take (Suc (e - 1)) ?d)" by blast
  have "set (?x # new) \<subseteq> set (take (Suc e) dirs)" using n(4) sub(3) x by auto
  then show ?case using n(1,2,3) by (intro exI [of _ "?x # new"]) (simp add: Let_def)
qed simp

lemma selected_files_chosen:
  assumes rnd: "\<And>i e. rnd i e \<le> e" and "distinct dirs" "0 < count"
  shows "distinct (selected_files rnd count dirs) \<and> set (selected_files rnd count dirs) \<subseteq> set dirs \<and>
    length (selected_files rnd count dirs) = min (nat count) (length dirs)"
proof (cases "int (length dirs) > count")
  case True
  then have "nat count \<le> length dirs - 1" "length dirs - 1 < length dirs" using assms(3) by auto
  from select_loop_chosen [OF rnd this, where sel = "[]" and i = 0] assms(2) obtain new where "select_loop rnd 0 (nat count) (length dirs - 1) dirs [] = new"
    "distinct new" "length new = nat count" "set new \<subseteq> set (take (Suc (length dirs - 1)) dirs)" by auto
  with True show ?thesis by (auto simp: selected_files_def dest: in_set_takeD)
next
  case False
  then show ?thesis using assms(2) by (auto simp: selected_files_def)
qed

section \<open>Reports\<close>

text \<open>Neither the encryption's loop nor the reader of a small file leaves the buffers, whatever the key store answers.\<close>

lemma update_loop_returns:
  "length data + MAX_UPDATE_SIZE < 2 ^ 32 \<Longrightarrow> pos < length data \<Longrightarrow> \<exists>x. update_loop K hn p data outSize cap pos out h = Ret x"
proof (induction "length data - pos" arbitrary: pos out h cap rule: less_induct)
  case less
  then have m: "(pos + MAX_UPDATE_SIZE) mod 2 ^ 32 = pos + MAX_UPDATE_SIZE" by simp
  show ?case
  proof (cases "length data \<le> pos + MAX_UPDATE_SIZE")
    case True
    then show ?thesis using less.prems m by (simp add: update_loop.simps [of K hn p data outSize cap pos out h])
  next
    case False
    obtain r b h1 where u: "hk_Update K hn p (take MAX_UPDATE_SIZE (drop pos data)) cap h = (r, b, h1)" by (rule prod_cases3)
    have "length data - (pos + MAX_UPDATE_SIZE) < length data - pos" using False by (simp add: MAX_UPDATE_SIZE_def)
    from less.hyps [OF this less.prems(1)] False
    show ?thesis using less.prems m u by (simp add: update_loop.simps [of K hn p data outSize cap pos out h])
  qed
qed

lemma Decrypt_returns: "length b + 2 ^ 16 < 2 ^ 32 \<Longrightarrow> \<exists>x. Decrypt K (CreateArrayBuffer (length b mod 2 ^ 32) (Some b)) None h = Ret x"
proof (cases "length b \<le> NONCE_SIZE + AEAD_SIZE")
  case True
  then show "length b + 2 ^ 16 < 2 ^ 32 \<Longrightarrow> ?thesis" by (cases b) (simp_all add: Decrypt_def CreateArrayBuffer_def)
next
  case False
  assume small: "length b + 2 ^ 16 < 2 ^ 32"
  let ?n = "length b - NONCE_SIZE - AEAD_SIZE"
  let ?d = "take ?n (drop NONCE_SIZE b)"
  have d: "length ?d + MAX_UPDATE_SIZE < 2 ^ 32" "0 < length ?d" using small False by (simp_all add: MAX_UPDATE_SIZE_def)
  have "\<exists>x. UpdateAndFinish K hn p ?d ?n h1 = Ret x" for hn p h1
    using update_loop_returns [OF d, of K hn p ?n MAX_OUTDATA_SIZE "[]" h1]
    by (auto simp: UpdateAndFinish_def split_def Let_def)
  moreover have "CreateArrayBuffer (length b mod 2 ^ 32) (Some b) = Some b" using small False by (auto simp: CreateArrayBuffer_def)
  moreover obtain r1 ex h1 where "IsKeyExist K h = (r1, ex, h1)" by (rule prod_cases3)
  moreover obtain r2 h2 where "CreateDecryptParamSet K (take NONCE_SIZE b) (drop (length b - AEAD_SIZE) b) h1 = (r2, h2)" by (rule prod.exhaust)
  moreover obtain r3 hn h3 where "hk_Init K (DecryptParams (take NONCE_SIZE b) (drop (length b - AEAD_SIZE) b)) h2 = (r3, hn, h3)" by (rule prod_cases3)
  moreover obtain r4 out h4 where
    "UpdateAndFinish K hn (DecryptParams (take NONCE_SIZE b) (drop (length b - AEAD_SIZE) b)) ?d ?n h3 = Ret (r4, out, h4)"
    using calculation(1) by (metis prod_cases3)
  ultimately show ?thesis using False by (simp add: Decrypt_def Let_def split: option.split)
qed

lemma int_size_nonneg: "length b < 2 ^ 31 \<Longrightarrow> 0 \<le> sint (of_nat (length b) :: 32 word)"
  by (subst signed_of_nat) (simp add: signed_take_bit_int_eq_self)

fun small_file :: "fnode \<Rightarrow> bool" where
  "small_file (FFile b) = (length b < 2 ^ 31)"
| "small_file (FDir es) = True"

lemma pcm_loop_returns:
  "\<forall>e\<in>set fs. small_file (snd e) \<Longrightarrow> dirSize < 2 ^ 31 \<Longrightarrow> \<exists>x. pcm_loop K A opened dirSize needDeCrypt fs content h = Ret x"
proof (induction fs arbitrary: content h)
  case (Cons e fs)
  obtain nm f where e: "e = (nm, f)" by (rule prod.exhaust)
  define pcm where "pcm = (case f of FFile b \<Rightarrow> b | FDir _ \<Rightarrow> replicate dirSize 0)"
  have "length pcm + 2 ^ 16 < 2 ^ 32" using Cons.prems e by (cases f) (auto simp: pcm_def)
  from Decrypt_returns [OF this, of K h] obtain r ob h1 where "Decrypt K (CreateArrayBuffer (length pcm mod 2 ^ 32) (Some pcm)) None h = Ret (r, ob, h1)"
    by (metis prod_cases3)
  with Cons e show ?case by (cases needDeCrypt) (simp_all add: Let_def pcm_def [symmetric])
qed simp

definition small_report :: "fnode \<Rightarrow> bool" where
  "small_report d = (case d of FFile b \<Rightarrow> True | FDir es \<Rightarrow> \<forall>e\<in>set es. small_file (snd e))"

lemma GetFileInfo_returns:
  assumes "small_report d" "dirSize < 2 ^ 31"
  shows "\<exists>x. GetFileInfo K A opened dirSize needDeCrypt (Some d) h = Ret x"
proof -
  let ?es = "case d of FDir es \<Rightarrow> es | _ \<Rightarrow> []"
  have es: "\<forall>e\<in>set ?es. small_file (snd e)" using assms(1) by (cases d) (auto simp: small_report_def)
  then have "map_of ?es ''wakeup.json'' = Some (FFile b) \<Longrightarrow> length b < 2 ^ 31" for b by (metis map_of_SomeD small_file.simps(1) snd_conv)
  then have "\<not> sint (of_nat (length b) :: 32 word) < 0" if "map_of ?es ''wakeup.json'' = Some (FFile b)" for b
    using that int_size_nonneg [of b] by fastforce
  then have "\<exists>r t. GetFileString (map_of ?es ''wakeup.json'') REPORT_JSON_SIZE_MAX = Ret (r, t)"
    by (auto simp: GetFileString_def Let_def REPORT_JSON_SIZE_MAX_def split: option.split fnode.split)
  then show ?thesis using pcm_loop_returns [OF es assms(2), of K A opened needDeCrypt "[]" h]
    by (cases d) (auto simp: GetFileInfo_def split_def Let_def)
qed

definition good_reports :: "(string \<times> fnode) list \<Rightarrow> bool" where
  "good_reports es \<longleftrightarrow> distinct (map fst es) \<and> (\<forall>e\<in>set es. fits 0 (snd e) \<and> small_report (snd e))"

lemma map_of_others: "distinct (map fst es) \<Longrightarrow> n \<noteq> m \<Longrightarrow> map_of (filter (\<lambda>e. fst e \<noteq> m) es) n = map_of es n"
  by (induction es) auto

lemma report_loop_settles:
  "good_reports es \<Longrightarrow> dirSize < 2 ^ 31 \<Longrightarrow> distinct names \<Longrightarrow> set names \<subseteq> fst ` set es \<Longrightarrow>
   \<exists>new h'. report_loop K A opened dirSize needDeCrypt names infos es h = Ret (infos @ new, filter (\<lambda>e. fst e \<notin> set names) es, h') \<and>
     length new \<le> length names \<and>
     (\<forall>i\<in>set new. \<exists>n\<in>set names. \<exists>h0 h1. GetFileInfo K A opened dirSize needDeCrypt (map_of es n) h0 = Ret (True, i, h1))"
proof (induction names arbitrary: infos es h)
  case (Cons m names)
  obtain d where d: "map_of es m = Some d" using Cons.prems(4) by (metis in_mono list.set_intros(1) map_of_eq_None_iff not_None_eq)
  then have fit: "fits 0 d" "small_report d" using Cons.prems(1) map_of_SomeD [OF d] by (auto simp: good_reports_def)
  obtain ok i h1 where g: "GetFileInfo K A opened dirSize needDeCrypt (map_of es m) h = Ret (ok, i, h1)"
    using GetFileInfo_returns [OF fit(2) Cons.prems(2), of K A opened needDeCrypt h] d by auto
  let ?es = "filter (\<lambda>e. fst e \<noteq> m) es" and ?infos = "if ok then infos @ [i] else infos"
  have "set names \<subseteq> fst ` set es - {m}" using Cons.prems(3,4) by auto
  then have "set names \<subseteq> fst ` set ?es" by force
  moreover have "good_reports ?es" "distinct names" using Cons.prems by (simp_all add: good_reports_def distinct_map_filter)
  ultimately have "good_reports ?es" "distinct names" "set names \<subseteq> fst ` set ?es" by simp_all
  from Cons.IH [OF this(1) Cons.prems(2) this(2,3), of ?infos h1]
  obtain new h' where n: "report_loop K A opened dirSize needDeCrypt names ?infos ?es h1 = Ret (?infos @ new, filter (\<lambda>e. fst e \<notin> set names) ?es, h')"
    "length new \<le> length names" "\<forall>j\<in>set new. \<exists>n\<in>set names. \<exists>h0 h2. GetFileInfo K A opened dirSize needDeCrypt (map_of ?es n) h0 = Ret (True, j, h2)" by blast
  have same: "n \<in> set names \<Longrightarrow> map_of ?es n = map_of es n" for n
    using Cons.prems(1,3) map_of_others [of es n m] by (auto simp: good_reports_def)
  have "report_loop K A opened dirSize needDeCrypt (m # names) infos es h = Ret (infos @ (if ok then [i] else []) @ new, filter (\<lambda>e. fst e \<notin> set (m # names)) es, h')"
    using n(1) g by (simp add: remove_report_all [OF d fit(1)])
  moreover have "\<forall>j\<in>set ((if ok then [i] else []) @ new). \<exists>n\<in>set (m # names). \<exists>h0 h2. GetFileInfo K A opened dirSize needDeCrypt (map_of es n) h0 = Ret (True, j, h2)"
    using n(3) same g by (auto split: if_splits)
  ultimately show ?case using n(2) by (intro exI [of _ "(if ok then [i] else []) @ new"] exI [of _ h']) simp
qed simp



end
