(* ===== verification/Spec2Isabelle.thy ===== *)
theory Spec2Isabelle
  imports Trigger_Service Trigger_Pipes OnlyFirst_Engine Update_Progress Implicit_Engine Voice_Service Wakeup_Facade Service_Ipc Engine_Ipc Offline_Audio Report_Files
begin

text \<open>
  A verification library for the intelligent voice framework of OpenHarmony (voice wake-up, enrolment
  and trigger service). The sources named below are under \<open>src/\<close>.

  \<^bold>\<open>Parts of the program.\<close> A client (a JavaScript application or a native one) calls the system service
  through proxies. The service owns engines (enrolment, wake-up, update) and the trigger manager. The
  trigger side loads recognition models into a hardware driver and turns recognition on and off as
  calls, recordings, playback, hibernation and folding come and go; when the driver reports a
  recognition, the wake-up engine opens the microphone, runs the second stage and hands audio to the
  client. All engines are table-driven state machines with timeouts, built on shared utilities: an id
  allocator, a timer thread, bounded queues, message threads, buffers and string parsing.

  \<^bold>\<open>Theories.\<close>
  \<^item> \<open>IV_Prelude\<close>: outcomes that make C++ faults visible, reachability, the locale \<open>invariant_system\<close>.
  \<^item> \<open>Id_Allocator\<close>, \<open>Timer_Mgr\<close>, \<open>State_Manager\<close> (\<open>utils/id_allocator\<close>, \<open>utils/timer_mgr\<close>,
    \<open>utils/state_manager\<close>): ids, the timer queue and its thread, action tables and transitions. The lemmas
    show that the ids in use are exactly those of the pending timers, that timers fire in order and not
    early, and that a machine has at most the one timer its current state armed.
  \<^item> \<open>Std_Map\<close>: \<open>std::map\<close> as an ordered association list.
  \<^item> \<open>Trigger_Connector\<close> (\<open>services/intell_voice_trigger/server/connector_mgr\<close>): adapters, sessions and
    the life cycle of a model with every driver call; the driver is the parameter \<open>hal\<close>.
  \<^item> \<open>Wakeup_Track\<close> (\<open>utils/wakeup_track\<close>): the reports to the kernel device.
  \<^item> \<open>Trigger_Helper\<close>, \<open>Trigger_Concurrency\<close>, \<open>Trigger_Fan\<close>
    (\<open>services/intell_voice_trigger/server/trigger_helper\<close>): the model table, client requests, system
    events, concurrent capture with its control lists, the fan report.
  \<^item> \<open>Trigger_Agreement\<close>, \<open>Trigger_Behaviour\<close>, \<open>Trigger_Pipes\<close>: what the trigger side guarantees. The
    helper's view of each model is a refinement of the connector's state (\<open>agree\<close>), kept by every step of
    \<open>helper_step\<close>; requests are honoured, stops are final, re-evaluation settles every model, and the
    listener's decision equals a declarative condition.
  \<^item> \<open>Trigger_Service\<close> (\<open>trigger_manager\<close>, \<open>trigger_service\<close>, \<open>trigger_detector\<close>, \<open>trigger_db_helper\<close> and the
    observers of \<open>trigger_helper\<close>): the layers above the helper. The model store is a map, a started
    detection runs the stored model, and a stopped service stays detached from the system.
  \<^item> \<open>Queues\<close>, \<open>Audio_Util\<close>, \<open>String_Util\<close> (\<open>utils\<close>): bounded queues (locale \<open>bounded_fifo\<close>), message
    thread, task executor, buffers, deinterleaving, splitting and number parsing.
  \<^item> \<open>Audio_Source\<close>, \<open>Wakeup_Source\<close> (\<open>services/intell_voice_engine/server\<close>): the capture thread and the
    per-channel frame queues.
  \<^item> \<open>Engine_Frame\<close>: what table-driven engines share. The locale \<open>table_engine\<close> asks of an engine that each handler
    leaves its fields fit for the state it names; it gives that the engine always is in one of its
    states with fit fields and that a state with a timeout has it pending.
  \<^item> \<open>OnlyFirst_Engine\<close> (\<open>services/intell_voice_engine/server/wakeup/only_first\<close>): the single-level wake-up
    engine as a step relation of client calls, captured buffers, the timer thread and a changing world;
    a session always has its audio source and its timeout, and its audio reaches the client in order.
  \<^item> \<open>Engine_Util\<close> (\<open>base/engine_util\<close>, \<open>utils/history_info_mgr\<close>): the calls of the engine adapter, the parameters
    set on it and the key-value store; the adapter's driver is the parameter \<open>hdi\<close>.
  \<^item> \<open>Wakeup_Engine\<close> (\<open>wakeup/wakeup_engine_impl\<close>, \<open>wakeup/wakeup_adapter_listener\<close>): the two-level engine,
    interpreted in the same locale. Microphone use is recorded exactly while a client reads, every
    recording state is bounded by its timeout, and a result reaches a client once.
  \<^item> \<open>Update_Util\<close> (\<open>update/update_engine_utils\<close>): reading the version of the resources and deciding whether an
    update is due; on versions as the resources write them the text comparison is the order of the numbers.
  \<^item> \<open>Enroll_Engine\<close> (\<open>enroll/enroll_engine\<close>, \<open>enroll/enroll_adapter_listener\<close>): the enrolment engine as a step
    relation (locale \<open>invariant_system\<close>). Its audio source and its use of the microphone go together, and a
    committed enrolment hands its phrase to the wake-up engine.

  \<^item> \<open>Update_Engine\<close> (\<open>update/update_engine\<close>, \<open>update/update_adapter_listener\<close>, \<open>update/update_strategy\<close> and its
    kinds): an update from its creation to the report of its result, with its strategies.
  \<^item> \<open>Engine_Manager\<close>, \<open>Update_Progress\<close> (\<open>manager/intell_voice_engine_manager\<close>, \<open>update/update_engine_controller\<close>):
    which engines may exist together, the queue of update strategies, retries and timeouts. Engines exclude each
    other as the code intends, retries are bounded and an update that is started is completed.
  \<^item> \<open>Implicit_Engine\<close> (\<open>enroll/implicit_enroll\<close>): the enrolment without a dialogue, in the locale \<open>table_engine\<close>.
  \<^item> \<open>Service_Manager\<close> (\<open>services/intell_voice_service/server/sa/intell_voice_service_manager\<close>): the operations that join
    trigger and engines over any trigger manager; the locale \<open>detection_backend\<close> states what they need of it.
  \<^item> \<open>Service_Detection\<close>: the same with the trigger manager of \<open>Trigger_Service\<close>, which the interpretation \<open>service\<close> shows
    to be such a backend. No detection is requested while an enrolment engine exists, in any interleaving.
  \<^item> \<open>Voice_Service\<close> (\<open>sa/intell_voice_service\<close>): the requests of clients behind the permission check and the
    initialisation when the data service comes and goes.
  \<^item> \<open>Device_Manager\<close> (\<open>base/engine_device_manager\<close>): the accessories that wake the phone, which of them is active, and the threads
    that follow changes of the sound's way and tell their receivers. Once no change is under way the active device is the one chosen.
  \<^item> \<open>Headset_Engine\<close>, \<open>Glasses_Engine\<close> (\<open>wakeup/headset\<close>, \<open>wakeup/glasses\<close>): the engines of the accessories in the locale
    \<open>table_engine\<close>, with the thread that reads the accessory's stream. A session always has its reader and its timeout; the second stage gets
    exactly the audio of the phrase, the client all of it.
  \<^item> \<open>Wakeup_Facade\<close> (\<open>wakeup/wakeup_engine_impl_facade\<close>, \<open>wakeup/wakeup_engine\<close>): the engine the client has, which routes its calls and the
    detections to the engine of the phone or of the accessory. The locale \<open>tracked_engine\<close> is what it needs of them (a step reports every state
    the engine enters); it is interpreted on all three engines, and at most one of them is in a session in any interleaving.
  \<^item> \<open>Ipc_Parcel\<close>, \<open>Service_Ipc\<close>, \<open>Engine_Ipc\<close> (\<open>services/intell_voice_engine/proxy\<close>, \<open>sa/intell_voice_service_stub\<close>,
    \<open>base/intell_voice_engine_stub\<close>): the way of a client's call to the service and to its engine. The locale \<open>remote_stub\<close> is what a proxy needs
    of a stub, interpreted on both; a remote call is the call itself up to stated checks, over any parcels and transport with the documented laws.
  \<^item> \<open>Offline_Audio\<close> (\<open>base/engine_offline_audio_processor\<close>): the words of an enrolment are found by the frame numbers of a text and
    fed to an effect chain; nothing outside of the recordings is read when the numbers are right.

  \<^item> \<open>Data_Crypt\<close> (\<open>utils/huks_aes_adapter\<close>, \<open>base/data_operation_callback\<close>, \<open>utils/pcm_buffer\<close>): encryption in segments with the key store of the
    system; over any key store with the documented laws what was encrypted decrypts to itself.
  \<^item> \<open>Report_Files\<close> (\<open>utils/file_util\<close>, \<open>utils/file_reporter\<close>): the choice, reading and removal of kept recordings over a tree of files.

  \<^bold>\<open>How state and operations correspond.\<close> A class is a record with one field per member (the prefix names
  the class), a member function is a definition over the record that returns the updated record; the
  names are those of the code, with a class prefix where two classes share one. A lock-protected
  section is one definition and one step of the step relations. Clock readings, allocations that may
  fail and answers of other services are arguments or fields of an environment record. A blocked call
  is \<open>None\<close>, a null dereference or an out-of-range access is a \<open>Crash\<close>. A task of the service's thread is one
  step, and so are the tasks \<open>OnSwitchChange\<close> waits for one after the other; a task the thread would post to its own
  full queue is dropped, where the code waits or drops it too.

  \<^bold>\<open>Bounds and fuel.\<close> No definition needs fuel: loops are structural or have a termination proof, and
  \<open>Split\<close>, which does not end for an empty separator, is a partial function whose return is proved.
  Widths are kept where they matter (buffer sizes, samples, the read counter); strings are shorter
  than \<open>2 ^ 32\<close>.

  \<^bold>\<open>Assumptions on other code.\<close> The driver, the audio framework, the JSON parser, the parcels, the key store and the random device are arguments. The type of process the
  phone's engine reports before its first detection is not initialised in the code: it is an argument, and the property of \<open>Wakeup_Facade\<close>
  assumes that it is not the type of an accessory.

  \<^bold>\<open>Not modelled.\<close> The language bindings, the callbacks to clients and their marshalling, logging and clocks;
  the registration with other system services and for the death of clients.
\<close>

end
